(* ===== verification/Prelude.thy ===== *)
theory Prelude
  imports Main "HOL-Library.Word" "HOL-Library.Multiset"
begin

text \<open>
  Shared vocabulary of the GroundCore development.

  \<^item> machine integers (\<open>u8\<close>, \<open>u32\<close>, \<open>u64\<close>, \<open>usize\<close>) and byte strings;
  \<^item> points in time and durations, in nanoseconds, with the truncating conversions of chrono;
  \<^item> decimal and UUID rendering, used by the error messages of the code;
  \<^item> hash maps as partial maps, with an explicit iteration order where the code iterates;
  \<^item> the in-place update of the first matching element of a vector;
  \<^item> the RwLock discipline of one task (a lock that is requested while the same task holds it);
  \<^item> the interface locales that the components instantiate: \<open>invariant_system\<close> (an invariant
    kept by every step holds in every reachable state) and \<open>keyed_update\<close> (an in-place
    update that leaves the key of a record alone).
\<close>

section \<open>Definitions\<close>

subsection \<open>Machine integers and bytes\<close>

type_synonym u8 = "8 word"
type_synonym u32 = "32 word"
type_synonym u64 = "64 word"
type_synonym bytes = "u8 list"

text \<open>UUIDs are 128-bit values; the derived order of the code is the order of the bytes.\<close>

type_synonym uuid = "128 word"

subsection \<open>Time\<close>

text \<open>
  A \<open>DateTime<Utc>\<close> is the number of nanoseconds since the epoch, a \<open>chrono::Duration\<close> a
  signed number of nanoseconds. \<open>num_seconds\<close> and \<open>num_milliseconds\<close> truncate towards zero.
  A reading of the wall clock is always an argument of the operation that makes it.
\<close>

type_synonym datetime = int
type_synonym duration = int

definition trunc_div :: "int \<Rightarrow> int \<Rightarrow> int" where
  "trunc_div a b = sgn a * sgn b * (\<bar>a\<bar> div \<bar>b\<bar>)"

definition num_seconds :: "duration \<Rightarrow> int" where
  "num_seconds d = trunc_div d 1000000000"

definition num_milliseconds :: "duration \<Rightarrow> int" where
  "num_milliseconds d = trunc_div d 1000000"

definition duration_seconds :: "int \<Rightarrow> duration" where
  "duration_seconds s = s * 1000000000"

definition duration_milliseconds :: "int \<Rightarrow> duration" where
  "duration_milliseconds s = s * 1000000"

subsection \<open>Rendering\<close>

definition digit :: "nat \<Rightarrow> char" where
  "digit d = char_of (48 + d)"

fun show_nat :: "nat \<Rightarrow> string" where
  "show_nat n = (if n < 10 then [digit n] else show_nat (n div 10) @ [digit (n mod 10)])"

declare show_nat.simps [simp del]

definition show_int :: "int \<Rightarrow> string" where
  "show_int i = (if i < 0 then ''-'' @ show_nat (nat (- i)) else show_nat (nat i))"

definition hex_digit :: "nat \<Rightarrow> char" where
  "hex_digit d = (if d < 10 then char_of (48 + d) else char_of (87 + d))"

definition show_uuid :: "uuid \<Rightarrow> string" where
  "show_uuid u =
     (let h = map (\<lambda>i. hex_digit (unat (drop_bit (4 * i) u) mod 16)) (rev [0..<32])
      in take 8 h @ ''-'' @ take 4 (drop 8 h) @ ''-'' @ take 4 (drop 12 h) @ ''-''
         @ take 4 (drop 16 h) @ ''-'' @ drop 20 h)"

subsection \<open>Hash maps\<close>

text \<open>
  A \<open>HashMap<K, V>\<close> is a partial map. Its iteration order is unspecified: an operation that
  iterates takes the order of the keys as an argument, and \<open>iter_order\<close> says what an order is.
\<close>

definition iter_order :: "('k \<rightharpoonup> 'v) \<Rightarrow> 'k list \<Rightarrow> bool" where
  "iter_order m ks \<longleftrightarrow> distinct ks \<and> set ks = dom m"

text \<open>\<open>map.values()\<close>, in the order \<open>ks\<close>.\<close>

definition map_values :: "('k \<rightharpoonup> 'v) \<Rightarrow> 'k list \<Rightarrow> 'v list" where
  "map_values m ks = List.map_filter m ks"

text \<open>\<open>if let Some(v) = map.get_mut(k) { ... }\<close>: update an entry in place.\<close>

definition map_modify :: "'k \<Rightarrow> ('v \<Rightarrow> 'v) \<Rightarrow> ('k \<rightharpoonup> 'v) \<Rightarrow> ('k \<rightharpoonup> 'v)" where
  "map_modify k f m = (case m k of None \<Rightarrow> m | Some v \<Rightarrow> m(k \<mapsto> f v))"

text \<open>Every record of a keyed store is filed under its own key.\<close>

definition keyed :: "('v \<Rightarrow> 'k) \<Rightarrow> ('k \<rightharpoonup> 'v) \<Rightarrow> bool" where
  "keyed key m \<longleftrightarrow> (\<forall>k v. m k = Some v \<longrightarrow> key v = k)"

subsection \<open>Vectors\<close>

text \<open>\<open>iter_mut().find(p)\<close> followed by an update of the element found.\<close>

fun update_first :: "('a \<Rightarrow> bool) \<Rightarrow> ('a \<Rightarrow> 'a) \<Rightarrow> 'a list \<Rightarrow> 'a list" where
  "update_first p f [] = []"
| "update_first p f (x # xs) = (if p x then f x # xs else x # update_first p f xs)"

text \<open>\<open>Iterator::min_by_key\<close>: the first of the elements with the least key.\<close>

fun min_by_key :: "('a \<Rightarrow> 'b::linorder) \<Rightarrow> 'a list \<Rightarrow> 'a option" where
  "min_by_key k [] = None"
| "min_by_key k (x # xs) =
     (case min_by_key k xs of None \<Rightarrow> Some x | Some y \<Rightarrow> if k y < k x then Some y else Some x)"

text \<open>\<open>while v.len() > k { v.remove(0) }\<close>.\<close>

function drop_oldest :: "nat \<Rightarrow> 'a list \<Rightarrow> 'a list" where
  "drop_oldest k xs = (if k < length xs then drop_oldest k (tl xs) else xs)"
  by pat_completeness auto
termination by (relation "measure (\<lambda>(k, xs). length xs)") auto

declare drop_oldest.simps [simp del]

subsection \<open>Locks of one task\<close>

text \<open>
  A tokio RwLock as one task sees it: the number of read guards and whether a write guard is
  alive. A request that conflicts with a guard of the same task waits for ever, since the guard
  is released only when the task goes on.
\<close>

record rwlock =
  readers :: nat
  writer :: bool

definition unlocked :: rwlock where
  "unlocked = \<lparr>readers = 0, writer = False\<rparr>"

text \<open>How a call ends: with a value, or waiting for a lock that its own task holds.\<close>

datatype 'a outcome = Returns 'a | Deadlock

definition acquire_read :: "rwlock \<Rightarrow> rwlock outcome" where
  "acquire_read l =
     (if writer l then Deadlock else Returns (l\<lparr>readers := Suc (readers l)\<rparr>))"

definition acquire_write :: "rwlock \<Rightarrow> rwlock outcome" where
  "acquire_write l =
     (if writer l \<or> 0 < readers l then Deadlock else Returns (l\<lparr>writer := True\<rparr>))"

fun bind_outcome :: "'a outcome \<Rightarrow> ('a \<Rightarrow> 'b outcome) \<Rightarrow> 'b outcome" where
  "bind_outcome Deadlock f = Deadlock"
| "bind_outcome (Returns x) f = f x"

subsection \<open>Reachable states\<close>

inductive reach :: "('s \<Rightarrow> bool) \<Rightarrow> ('s \<Rightarrow> 's \<Rightarrow> bool) \<Rightarrow> 's \<Rightarrow> bool"
  for init :: "'s \<Rightarrow> bool" and step :: "'s \<Rightarrow> 's \<Rightarrow> bool" where
  reach_init: "init s \<Longrightarrow> reach init step s"
| reach_step: "reach init step s \<Longrightarrow> step s t \<Longrightarrow> reach init step t"

section \<open>Lemmas\<close>

lemma reach_self: "reach (\<lambda>s. s = s0) step s0"
  by (rule reach_init) (rule refl)

named_theorems store_simps \<open>lookups after the updates of a keyed store\<close>

subsection \<open>Interfaces\<close>

text \<open>A state machine with an invariant: what every step keeps holds in every reachable state.\<close>

locale invariant_system =
  fixes init :: "'s \<Rightarrow> bool"
    and step :: "'s \<Rightarrow> 's \<Rightarrow> bool"
    and inv :: "'s \<Rightarrow> bool"
  assumes inv_init: "init s \<Longrightarrow> inv s"
    and inv_step: "inv s \<Longrightarrow> step s t \<Longrightarrow> inv t"
begin

lemma reach_inv: "reach init step s \<Longrightarrow> inv s"
proof (induction rule: reach.induct)
  case (reach_init s)
  then show ?case by (rule inv_init)
next
  case (reach_step s t)
  from reach_step.IH reach_step.hyps(2) show ?case by (rule inv_step)
qed

lemma reach_inv_step:
  assumes "reach init step s" and "step s t"
  shows "inv s \<and> inv t"
  using reach_inv [OF assms(1)] inv_step [OF _ assms(2)] by blast

end

text \<open>An in-place update of a record that leaves its key alone.\<close>

locale keyed_update =
  fixes key :: "'v \<Rightarrow> 'k"
    and upd :: "'v \<Rightarrow> 'v"
  assumes key_upd: "key (upd v) = key v"
begin

lemma keyed_modify: "keyed key m \<Longrightarrow> keyed key (map_modify k upd m)"
  by (auto simp: keyed_def map_modify_def key_upd split: option.splits)

lemma map_key_update_first: "map key (update_first p upd xs) = map key xs"
  by (induction xs) (auto simp: key_upd)

lemma find_update_first:
  "List.find (\<lambda>x. key x = k) (update_first (\<lambda>x. key x = k) upd xs) =
     map_option upd (List.find (\<lambda>x. key x = k) xs)"
  by (induction xs) (auto simp: key_upd)

lemma find_update_first_other:
  "k \<noteq> k' \<Longrightarrow>
     List.find (\<lambda>x. key x = k') (update_first (\<lambda>x. key x = k) upd xs) =
     List.find (\<lambda>x. key x = k') xs"
  by (induction xs) (auto simp: key_upd)

end

subsection \<open>Rounding of durations\<close>

lemma trunc_div_nonneg: "0 \<le> a \<Longrightarrow> 0 < b \<Longrightarrow> trunc_div a b = a div b"
  by (cases "a = 0") (auto simp: trunc_div_def)

lemma num_seconds_nonneg: "0 \<le> d \<Longrightarrow> num_seconds d = d div 1000000000"
  by (simp add: num_seconds_def trunc_div_nonneg)

lemma trunc_div_neg: "a < 0 \<Longrightarrow> 0 < b \<Longrightarrow> trunc_div a b \<le> 0"
  by (auto simp: trunc_div_def pos_imp_zdiv_nonneg_iff)

lemma num_seconds_ge:
  assumes "0 < n"
  shows "n \<le> num_seconds d \<longleftrightarrow> n * 1000000000 \<le> d"
proof (cases "0 \<le> d")
  case True
  then show ?thesis by (auto simp: num_seconds_nonneg)
next
  case False
  then have "num_seconds d \<le> 0" by (simp add: num_seconds_def trunc_div_neg)
  with False assms show ?thesis by auto
qed

subsection \<open>Decimal rendering\<close>

lemma show_nat_nonempty: "show_nat n \<noteq> []"
  by (subst show_nat.simps) simp

lemma of_char_digit: "d < 10 \<Longrightarrow> (of_char (digit d) :: nat) = 48 + d"
  by (simp add: digit_def)

lemma digit_inj: "a < 10 \<Longrightarrow> b < 10 \<Longrightarrow> digit a = digit b \<Longrightarrow> a = b"
  by (metis of_char_digit add_left_cancel)

lemma digit_no_dot: "d < 10 \<Longrightarrow> digit d \<noteq> CHR ''.''"
proof
  assume "d < 10" and "digit d = CHR ''.''"
  then have "48 + d = (of_char CHR ''.'' :: nat)" by (metis of_char_digit)
  then show False by simp
qed

lemma show_nat_no_dot: "CHR ''.'' \<notin> set (show_nat n)"
proof (induction n rule: show_nat.induct)
  case (1 n)
  have "CHR ''.'' \<noteq> digit (n mod 10)" using digit_no_dot [of "n mod 10"] by auto
  moreover have "n < 10 \<Longrightarrow> CHR ''.'' \<noteq> digit n" using digit_no_dot [of n] by auto
  ultimately show ?case using "1.IH" by (subst show_nat.simps) auto
qed

lemma show_nat_inj: "show_nat a = show_nat b \<Longrightarrow> a = b"
proof (induction a arbitrary: b rule: show_nat.induct)
  case (1 a)
  have single: "a < 10 \<longleftrightarrow> length (show_nat a) = 1" for a
    using show_nat_nonempty [of "a div 10"] by (subst show_nat.simps) auto
  show ?case
  proof (cases "a < 10")
    case True
    with "1.prems" single [of a] single [of b] have "b < 10" by simp
    with True "1.prems" show ?thesis
      by (auto simp: show_nat.simps [of a] show_nat.simps [of b] dest: digit_inj)
  next
    case False
    with "1.prems" single [of a] single [of b] have b: "\<not> b < 10" by simp
    with False "1.prems" have "show_nat (a div 10) = show_nat (b div 10)"
      and last: "digit (a mod 10) = digit (b mod 10)"
      by (simp_all add: show_nat.simps [of a] show_nat.simps [of b])
    with False "1.IH" have "a div 10 = b div 10" by blast
    moreover from last have "a mod 10 = b mod 10" by (auto intro: digit_inj)
    ultimately show ?thesis by (metis div_mult_mod_eq)
  qed
qed

subsection \<open>Keyed stores\<close>

lemma map_modify_None [store_simps]: "m k = None \<Longrightarrow> map_modify k f m = m"
  by (simp add: map_modify_def)

lemma map_modify_Some [store_simps]: "m k = Some v \<Longrightarrow> map_modify k f m = m(k \<mapsto> f v)"
  by (simp add: map_modify_def)

lemma map_modify_same: "map_modify k f m k = map_option f (m k)"
  by (cases "m k") (auto simp: store_simps)

lemma map_modify_other: "k' \<noteq> k \<Longrightarrow> map_modify k f m k' = m k'"
  by (cases "m k") (auto simp: store_simps)

lemma dom_map_modify [simp]: "dom (map_modify k f m) = dom m"
  by (cases "m k") (auto simp: store_simps)

lemma keyed_empty [simp]: "keyed key Map.empty"
  by (simp add: keyed_def)

lemma keyed_insert: "keyed key m \<Longrightarrow> keyed key (m(key v \<mapsto> v))"
  by (simp add: keyed_def)

lemma keyed_delete: "keyed key m \<Longrightarrow> keyed key (m(k := None))"
  by (simp add: keyed_def)

lemma keyedD: "keyed key m \<Longrightarrow> m k = Some v \<Longrightarrow> key v = k"
  by (simp add: keyed_def)

subsection \<open>Iteration\<close>

lemma map_values_simps [simp]:
  "map_values m [] = []"
  "map_values m (k # ks) = (case m k of None \<Rightarrow> map_values m ks | Some v \<Rightarrow> v # map_values m ks)"
  by (simp_all add: map_values_def List.map_filter_def split: option.splits)

lemma set_map_values: "set (map_values m ks) = {v. \<exists>k \<in> set ks. m k = Some v}"
  by (induction ks) (auto split: option.splits)

lemma iter_order_values: "iter_order m ks \<Longrightarrow> set (map_values m ks) = ran m"
  by (auto simp: set_map_values iter_order_def ran_def)

lemma iter_order_length: "iter_order m ks \<Longrightarrow> length (map_values m ks) = length ks"
proof -
  assume "iter_order m ks"
  then have "set ks \<subseteq> dom m" by (simp add: iter_order_def)
  then show ?thesis by (induction ks) (auto split: option.splits)
qed

lemma iter_order_mset:
  assumes "iter_order m ks" and "iter_order m ks'"
  shows "mset ks = mset ks'"
  using assms set_eq_iff_mset_eq_distinct [of ks ks'] by (simp add: iter_order_def)

lemma mset_map_values: "mset ks = mset ks' \<Longrightarrow> mset (map_values m ks) = mset (map_values m ks')"
proof -
  assume "mset ks = mset ks'"
  then have "mset (filter (\<lambda>k. m k \<noteq> None) ks) = mset (filter (\<lambda>k. m k \<noteq> None) ks')"
    by (simp only: mset_filter)
  then show ?thesis
    unfolding map_values_def List.map_filter_def comp_def by (simp only: mset_map)
qed

lemma length_filter_mset: "mset xs = mset ys \<Longrightarrow> length (filter p xs) = length (filter p ys)"
  by (metis mset_filter size_mset)

text \<open>A count over the values does not depend on the iteration order.\<close>

lemma count_values_order:
  assumes "iter_order m ks" and "iter_order m ks'"
  shows "length (filter p (map_values m ks)) = length (filter p (map_values m ks'))"
  using assms by (intro length_filter_mset mset_map_values iter_order_mset)

lemma iter_order_empty [simp]: "iter_order Map.empty ks \<longleftrightarrow> ks = []"
  by (auto simp: iter_order_def)

subsection \<open>Vectors\<close>

lemma length_update_first [simp]: "length (update_first p f xs) = length xs"
  by (induction xs) auto

lemma update_first_id: "\<forall>x \<in> set xs. \<not> p x \<Longrightarrow> update_first p f xs = xs"
  by (induction xs) auto

lemma find_None_iff_set: "List.find p xs = None \<longleftrightarrow> (\<forall>x \<in> set xs. \<not> p x)"
  by (auto simp: find_None_iff)

lemma find_SomeD: "List.find p xs = Some x \<Longrightarrow> p x \<and> x \<in> set xs"
  by (auto simp: find_Some_iff)

text \<open>Splitting a vector at the element that \<open>find\<close> returns.\<close>

lemma update_first_split:
  assumes "List.find p xs = Some x"
  shows "\<exists>ys zs. xs = ys @ x # zs \<and> (\<forall>y \<in> set ys. \<not> p y)
           \<and> update_first p f xs = ys @ f x # zs"
  using assms
proof (induction xs)
  case Nil
  then show ?case by simp
next
  case (Cons a xs)
  show ?case
  proof (cases "p a")
    case True
    with Cons.prems show ?thesis by (intro exI [of _ "[]"] exI [of _ xs]) auto
  next
    case False
    with Cons.prems Cons.IH obtain ys zs where "xs = ys @ x # zs" "\<forall>y \<in> set ys. \<not> p y"
      "update_first p f xs = ys @ f x # zs" by auto
    with False show ?thesis by (intro exI [of _ "a # ys"] exI [of _ zs]) auto
  qed
qed

lemma drop_oldest_drop: "drop_oldest k xs = drop (length xs - k) xs"
proof (induction k xs rule: drop_oldest.induct)
  case (1 k xs)
  show ?case
  proof (cases "k < length xs")
    case True
    then obtain y ys where xs: "xs = y # ys" by (cases xs) auto
    with True "1.IH" have "drop_oldest k xs = drop (length ys - k) ys"
      by (subst drop_oldest.simps) simp
    moreover have "length xs - k = Suc (length ys - k)" using True xs by simp
    ultimately show ?thesis by (simp add: xs)
  next
    case False
    then show ?thesis by (subst drop_oldest.simps) simp
  qed
qed

lemma min_by_key_None: "min_by_key k xs = None \<longleftrightarrow> xs = []"
  by (cases xs) (auto split: option.splits)

lemma min_by_key_Some:
  "min_by_key k xs = Some y \<Longrightarrow> y \<in> set xs \<and> (\<forall>x \<in> set xs. k y \<le> k x)"
proof (induction xs arbitrary: y)
  case Nil
  then show ?case by simp
next
  case (Cons x xs)
  show ?case
  proof (cases "min_by_key k xs")
    case None
    with Cons.prems show ?thesis by (simp add: min_by_key_None)
  next
    case (Some z)
    from Cons.IH [OF this] have "z \<in> set xs" "\<forall>x \<in> set xs. k z \<le> k x" by auto
    with Some Cons.prems show ?thesis by (fastforce split: if_splits)
  qed
qed

subsection \<open>Locks\<close>

lemma acquire_write_after_read:
  "acquire_read l = Returns l' \<Longrightarrow> acquire_write l' = Deadlock"
  by (auto simp: acquire_read_def acquire_write_def split: if_splits)

subsection \<open>Words\<close>

lemma unat_of_nat_small:
  "n < 2 ^ LENGTH('a::len) \<Longrightarrow> unat (of_nat n :: 'a word) = n"
  by (simp add: unat_of_nat)

lemma unat_succ_less:
  fixes w :: "'a::len word"
  assumes "Suc (unat w) < 2 ^ LENGTH('a)"
  shows "unat (w + 1) = Suc (unat w)"
  using assms by (simp add: unat_word_ariths)

end
