(* ===== verification/Core_Types.thy ===== *)
theory Core_Types
  imports Prelude
begin

text \<open>
  The crate \<open>core\<close>: the string identifiers of \<open>core/src/types.rs\<close> as one newtype each, the
  frequency bands, and the error type of \<open>core/src/error.rs\<close> with the text it displays. A
  \<open>Result<T>\<close> of the code is \<open>ground_station_error + 'a\<close>.
\<close>

section \<open>Definitions\<close>

subsection \<open>Identifiers\<close>

datatype satellite_id = SatelliteId (satellite_id_str: string)
datatype station_id = StationId (station_id_str: string)
datatype pass_id = PassId (pass_id_str: string)
datatype customer_id = CustomerId (customer_id_str: string)

subsection \<open>Frequency bands\<close>

datatype frequency_band = LBand | SBand | CBand | XBand | KuBand | KaBand

fun band_name :: "frequency_band \<Rightarrow> string" where
  "band_name LBand = ''L-band''"
| "band_name SBand = ''S-band''"
| "band_name CBand = ''C-band''"
| "band_name XBand = ''X-band''"
| "band_name KuBand = ''Ku-band''"
| "band_name KaBand = ''Ka-band''"

subsection \<open>Errors\<close>

text \<open>An \<open>std::io::Error\<close> is represented by the text it displays.\<close>

datatype ground_station_error =
    RfProcessing string
  | Hardware string
  | Scheduler string
  | Tracking string
  | Federation string
  | Regulatory string
  | Agent string
  | Database string
  | Io string
  | Serialization string
  | AuthenticationFailed
  | LicenseNotFound string
  | InvalidConfiguration string
  | NotFound string
  | Validation string
  | Twin string

fun error_message :: "ground_station_error \<Rightarrow> string" where
  "error_message (RfProcessing m) = ''RF processing error: '' @ m"
| "error_message (Hardware m) = ''Hardware error: '' @ m"
| "error_message (Scheduler m) = ''Scheduler error: '' @ m"
| "error_message (Tracking m) = ''Satellite tracking error: '' @ m"
| "error_message (Federation m) = ''Federation error: '' @ m"
| "error_message (Regulatory m) = ''Regulatory violation: '' @ m"
| "error_message (Agent m) = ''Agent error: '' @ m"
| "error_message (Database m) = ''Database error: '' @ m"
| "error_message (Io m) = ''IO error: '' @ m"
| "error_message (Serialization m) = ''Serialization error: '' @ m"
| "error_message AuthenticationFailed = ''Authentication failed''"
| "error_message (LicenseNotFound m) = ''License not found for band: '' @ m"
| "error_message (InvalidConfiguration m) = ''Invalid configuration: '' @ m"
| "error_message (NotFound m) = ''Not found: '' @ m"
| "error_message (Validation m) = ''Validation error: '' @ m"
| "error_message (Twin m) = ''Digital twin error: '' @ m"

type_synonym 'a result = "ground_station_error + 'a"

subsection \<open>The ranges of the date library\<close>

text \<open>
  The date library refuses values out of its range: making a duration and adding one to a date
  panic. The ranges are a parameter; a sum that panics is \<open>None\<close>.
\<close>

record chrono =
  date_in_range :: "datetime \<Rightarrow> bool"
  duration_in_range :: "duration \<Rightarrow> bool"

definition date_add :: "chrono \<Rightarrow> datetime \<Rightarrow> duration \<Rightarrow> datetime option" where
  "date_add ch t d = (if date_in_range ch (t + d) then Some (t + d) else None)"

text \<open>The date library takes nanoseconds from one second on only within a minute's last second.\<close>

definition from_timestamp :: "chrono \<Rightarrow> 64 word \<Rightarrow> u32 \<Rightarrow> datetime option" where
  "from_timestamp ch s n =
     (let t = sint s * 1000000000 + uint n in
      if 2000000000 \<le> uint n \<or> 1000000000 \<le> uint n \<and> sint s mod 60 \<noteq> 59 \<or> \<not> date_in_range ch (sint s * 1000000000)
      then None else Some t)"

subsection \<open>The AES-GCM library\<close>

text \<open>
  The library is a parameter of the components that encrypt: a function of the key, the nonce and
  the text, which returns the output or the text of the library's error. \<open>aead_correct\<close> is what it
  documents: decryption under the same key and nonce inverts encryption.
\<close>

type_synonym aead = "bytes \<Rightarrow> bytes \<Rightarrow> bytes \<Rightarrow> string + bytes"

definition aead_correct :: "aead \<Rightarrow> aead \<Rightarrow> bool" where
  "aead_correct enc dec \<longleftrightarrow> (\<forall>k n p c. enc k n p = Inr c \<longrightarrow> dec k n c = Inr p)"

section \<open>Lemmas\<close>

lemma band_name_inj: "band_name a = band_name b \<Longrightarrow> a = b"
  by (cases a; cases b) simp_all

text \<open>The displayed text identifies the error: no two errors print alike.\<close>

lemma error_message_inj: "error_message e = error_message f \<Longrightarrow> e = f"
  by (cases e; cases f) simp_all

end
