(* ===== verification/Hardware_Pool.thy ===== *)
theory Hardware_Pool
  imports Core_Types
begin

text \<open>
  The hardware pool of \<open>hardware/src/pool.rs\<close>: the per-device circuit breaker, the devices, the
  allocations of the passes, and every operation of \<open>HardwarePool\<close>.

  The maps of the pool are hash maps, so \<open>find_available\<close> takes the order in which the devices
  are visited. Each reading of the clock is an argument. Counters are 32-bit words. An operation
  that fails returns the pool as the code leaves it, which is not always the pool it started from.
\<close>

section \<open>Definitions\<close>

subsection \<open>Circuit breaker\<close>

definition circuit_open_threshold :: u32 where
  "circuit_open_threshold = 3"

definition circuit_cooldown_secs :: int where
  "circuit_cooldown_secs = 60"

datatype circuit_state = Closed | Open datetime | HalfOpen

record circuit_breaker =
  cb_state :: circuit_state
  consecutive_failures :: u32
  total_trips :: u32

definition breaker_new :: circuit_breaker where
  "breaker_new = \<lparr>cb_state = Closed, consecutive_failures = 0, total_trips = 0\<rparr>"

definition record_failure :: "datetime \<Rightarrow> circuit_breaker \<Rightarrow> circuit_breaker" where
  "record_failure now b =
     (let b1 = b\<lparr>consecutive_failures := consecutive_failures b + 1\<rparr>
      in if circuit_open_threshold \<le> consecutive_failures b1
         then b1\<lparr>cb_state := Open now, total_trips := total_trips b1 + 1\<rparr>
         else b1)"

definition breaker_record_success :: "circuit_breaker \<Rightarrow> circuit_breaker" where
  "breaker_record_success b = b\<lparr>consecutive_failures := 0, cb_state := Closed\<rparr>"

definition allows_allocation :: "datetime \<Rightarrow> circuit_breaker \<Rightarrow> bool \<times> circuit_breaker" where
  "allows_allocation now b =
     (case cb_state b of
        Closed \<Rightarrow> (True, b)
      | HalfOpen \<Rightarrow> (True, b)
      | Open opened_at \<Rightarrow>
          (if circuit_cooldown_secs \<le> num_seconds (now - opened_at)
           then (True, b\<lparr>cb_state := HalfOpen\<rparr>)
           else (False, b)))"

subsection \<open>Devices\<close>

datatype hardware_type = Sdr | Rotator | Antenna | Amplifier

record hardware_capabilities =
  frequency_range :: "u64 \<times> u64"
  max_sample_rate :: u64
  supported_bands :: "frequency_band list"
  can_transmit :: bool

definition capabilities_new :: "u64 \<times> u64 \<Rightarrow> u64 \<Rightarrow> hardware_capabilities" where
  "capabilities_new rng rate =
     \<lparr>frequency_range = rng, max_sample_rate = rate, supported_bands = [], can_transmit = False\<rparr>"

record hardware_device =
  device_id :: string
  dev_type :: hardware_type
  healthy :: bool
  current_allocation :: "pass_id option"
  capabilities :: hardware_capabilities
  last_health_check :: datetime

definition device_new ::
  "datetime \<Rightarrow> string \<Rightarrow> hardware_type \<Rightarrow> hardware_capabilities \<Rightarrow> hardware_device" where
  "device_new now i ty caps =
     \<lparr>device_id = i, dev_type = ty, healthy = True, current_allocation = None,
      capabilities = caps, last_health_check = now\<rparr>"

definition device_available :: "hardware_device \<Rightarrow> bool" where
  "device_available d = (healthy d \<and> current_allocation d = None)"

definition device_allocate :: "pass_id \<Rightarrow> hardware_device \<Rightarrow> hardware_device result" where
  "device_allocate p d =
     (if \<not> device_available d
      then Inl (Hardware (''Device '' @ device_id d @ '' not available''))
      else Inr (d\<lparr>current_allocation := Some p\<rparr>))"

definition device_release :: "pass_id \<Rightarrow> hardware_device \<Rightarrow> hardware_device result" where
  "device_release p d =
     (if current_allocation d \<noteq> Some p
      then Inl (Hardware (''Device '' @ device_id d @ '' not allocated to pass '' @ pass_id_str p))
      else Inr (d\<lparr>current_allocation := None\<rparr>))"

subsection \<open>Pool\<close>

record hardware_allocation =
  alloc_pass :: pass_id
  alloc_devices :: "string list"
  allocated_at :: datetime
  expected_duration_sec :: u64

record hardware_pool =
  devices :: "string \<rightharpoonup> hardware_device"
  allocations :: "pass_id \<rightharpoonup> hardware_allocation"
  circuit_breakers :: "string \<rightharpoonup> circuit_breaker"

definition pool_new :: hardware_pool where
  "pool_new = \<lparr>devices = Map.empty, allocations = Map.empty, circuit_breakers = Map.empty\<rparr>"

definition add_device :: "hardware_device \<Rightarrow> hardware_pool \<Rightarrow> hardware_pool" where
  "add_device d pool = pool\<lparr>devices := (devices pool)(device_id d \<mapsto> d)\<rparr>"

definition get_device :: "string \<Rightarrow> hardware_pool \<Rightarrow> hardware_device option" where
  "get_device i pool = devices pool i"

text \<open>\<open>entry(id).or_insert_with(CircuitBreaker::new)\<close>\<close>

definition breaker_of :: "(string \<rightharpoonup> circuit_breaker) \<Rightarrow> string \<Rightarrow> circuit_breaker" where
  "breaker_of br i = (case br i of None \<Rightarrow> breaker_new | Some b \<Rightarrow> b)"

text \<open>
  The lazy chain \<open>filter(..).take(count)\<close>: visiting a device of the right type that is available
  consults its breaker, which may move it to half-open; nothing is visited once \<open>count\<close> devices
  have passed. \<open>now i\<close> is the reading of the clock made for device \<open>i\<close>.
\<close>

fun find_loop ::
  "(string \<Rightarrow> datetime) \<Rightarrow> hardware_type \<Rightarrow> nat \<Rightarrow> hardware_device list \<Rightarrow>
   (string \<rightharpoonup> circuit_breaker) \<Rightarrow> string list \<times> (string \<rightharpoonup> circuit_breaker)" where
  "find_loop now ty 0 ds br = ([], br)"
| "find_loop now ty (Suc n) [] br = ([], br)"
| "find_loop now ty (Suc n) (d # ds) br =
     (if dev_type d \<noteq> ty \<or> \<not> device_available d then find_loop now ty (Suc n) ds br
      else
        (let i = device_id d;
             (ok, b) = allows_allocation (now i) (breaker_of br i);
             br1 = br(i \<mapsto> b)
         in if ok then (let (is, br2) = find_loop now ty n ds br1 in (i # is, br2))
            else find_loop now ty (Suc n) ds br1))"

definition find_available ::
  "(string \<Rightarrow> datetime) \<Rightarrow> string list \<Rightarrow> hardware_type \<Rightarrow> nat \<Rightarrow> hardware_pool \<Rightarrow>
   string list \<times> hardware_pool" where
  "find_available now ks ty n pool =
     (let (is, br) = find_loop now ty n (map_values (devices pool) ks) (circuit_breakers pool)
      in (is, pool\<lparr>circuit_breakers := br\<rparr>))"

text \<open>The loop of \<open>allocate\<close>: it stops at the first device that is missing or taken.\<close>

fun allocate_devices ::
  "pass_id \<Rightarrow> string list \<Rightarrow> (string \<rightharpoonup> hardware_device) \<Rightarrow>
   unit result \<times> (string \<rightharpoonup> hardware_device)" where
  "allocate_devices p [] ds = (Inr (), ds)"
| "allocate_devices p (i # is) ds =
     (case ds i of
        None \<Rightarrow> (Inl (Hardware (''Device '' @ i @ '' not found'')), ds)
      | Some d \<Rightarrow>
          (case device_allocate p d of
             Inl e \<Rightarrow> (Inl e, ds)
           | Inr d' \<Rightarrow> allocate_devices p is (ds(i \<mapsto> d'))))"

definition pool_allocate ::
  "datetime \<Rightarrow> pass_id \<Rightarrow> string list \<Rightarrow> u64 \<Rightarrow> hardware_pool \<Rightarrow>
   hardware_allocation result \<times> hardware_pool" where
  "pool_allocate now p is dur pool =
     (case allocate_devices p is (devices pool) of
        (Inl e, ds) \<Rightarrow> (Inl e, pool\<lparr>devices := ds\<rparr>)
      | (Inr _, ds) \<Rightarrow>
          (let a = \<lparr>alloc_pass = p, alloc_devices = is, allocated_at = now,
                    expected_duration_sec = dur\<rparr>
           in (Inr a, pool\<lparr>devices := ds, allocations := (allocations pool)(p \<mapsto> a)\<rparr>)))"

text \<open>Errors of the release of a single device are ignored.\<close>

definition release_device ::
  "pass_id \<Rightarrow> string \<Rightarrow> (string \<rightharpoonup> hardware_device) \<Rightarrow> (string \<rightharpoonup> hardware_device)" where
  "release_device p i ds =
     (case ds i of
        None \<Rightarrow> ds
      | Some d \<Rightarrow> (case device_release p d of Inl _ \<Rightarrow> ds | Inr d' \<Rightarrow> ds(i \<mapsto> d')))"

definition pool_release :: "pass_id \<Rightarrow> hardware_pool \<Rightarrow> unit result \<times> hardware_pool" where
  "pool_release p pool =
     (case allocations pool p of
        None \<Rightarrow> (Inl (Hardware (''No allocation for pass '' @ pass_id_str p)), pool)
      | Some a \<Rightarrow>
          (Inr (), pool\<lparr>devices := fold (release_device p) (alloc_devices a) (devices pool),
                        allocations := (allocations pool)(p := None)\<rparr>))"

definition get_allocation :: "pass_id \<Rightarrow> hardware_pool \<Rightarrow> hardware_allocation option" where
  "get_allocation p pool = allocations pool p"

definition check_health :: "datetime \<Rightarrow> string \<Rightarrow> hardware_pool \<Rightarrow> bool result \<times> hardware_pool" where
  "check_health now i pool =
     (case devices pool i of
        None \<Rightarrow> (Inl (Hardware (''Device '' @ i @ '' not found'')), pool)
      | Some d \<Rightarrow>
          (Inr (healthy d), pool\<lparr>devices := (devices pool)(i \<mapsto> d\<lparr>last_health_check := now\<rparr>)\<rparr>))"

definition mark_unhealthy :: "datetime \<Rightarrow> string \<Rightarrow> hardware_pool \<Rightarrow> unit result \<times> hardware_pool" where
  "mark_unhealthy now i pool =
     (case devices pool i of
        None \<Rightarrow> (Inl (Hardware (''Device '' @ i @ '' not found'')), pool)
      | Some d \<Rightarrow>
          (Inr (), pool\<lparr>devices := (devices pool)(i \<mapsto> d\<lparr>healthy := False\<rparr>),
                        circuit_breakers := (circuit_breakers pool)
                          (i \<mapsto> record_failure now (breaker_of (circuit_breakers pool) i))\<rparr>))"

definition pool_record_success :: "string \<Rightarrow> hardware_pool \<Rightarrow> hardware_pool" where
  "pool_record_success i pool =
     (case circuit_breakers pool i of
        None \<Rightarrow> pool
      | Some b \<Rightarrow>
          (if cb_state b = HalfOpen
           then pool\<lparr>circuit_breakers := (circuit_breakers pool)(i \<mapsto> breaker_record_success b)\<rparr>
           else pool))"

definition circuit_state_of :: "string \<Rightarrow> hardware_pool \<Rightarrow> circuit_state option" where
  "circuit_state_of i pool = map_option cb_state (circuit_breakers pool i)"

subsection \<open>The pool as a state machine\<close>

text \<open>
  One rule per operation that changes the pool, with no condition on its arguments. \<open>add_device\<close>
  overwrites the device it finds under the identifier, also one that a pass holds; beside the pool a
  state carries the identifiers that were added while an allocation listed them.
\<close>

definition listed_devices :: "hardware_pool \<Rightarrow> string set" where
  "listed_devices s = (\<Union>a \<in> ran (allocations s). set (alloc_devices a))"

inductive pool_step :: "hardware_pool \<times> string set \<Rightarrow> hardware_pool \<times> string set \<Rightarrow> bool" where
  step_add: "pool_step (s, R) (add_device d s, R \<union> ({device_id d} \<inter> listed_devices s))"
| step_find: "iter_order (devices s) ks \<Longrightarrow> pool_step (s, R) (snd (find_available now ks ty n s), R)"
| step_allocate: "pool_step (s, R) (snd (pool_allocate t p is dur s), R)"
| step_release: "pool_step (s, R) (snd (pool_release p s), R)"
| step_check: "pool_step (s, R) (snd (check_health t i s), R)"
| step_unhealthy: "pool_step (s, R) (snd (mark_unhealthy t i s), R)"
| step_success: "pool_step (s, R) (pool_record_success i s, R)"

text \<open>The consistency the pool keeps between its two maps, and the breakers' own invariant.\<close>

definition breaker_ok :: "circuit_breaker \<Rightarrow> bool" where
  "breaker_ok b \<longleftrightarrow> (cb_state b = Closed \<longrightarrow> consecutive_failures b < circuit_open_threshold)"

definition alloc_ok ::
  "string set \<Rightarrow> (string \<rightharpoonup> hardware_device) \<Rightarrow> pass_id \<Rightarrow> hardware_allocation \<Rightarrow> bool" where
  "alloc_ok R ds p a \<longleftrightarrow>
     alloc_pass a = p \<and>
     (\<forall>i \<in> set (alloc_devices a) - R. \<exists>d. ds i = Some d \<and> current_allocation d = Some p)"

definition pool_inv :: "hardware_pool \<times> string set \<Rightarrow> bool" where
  "pool_inv x \<longleftrightarrow>
     keyed device_id (devices (fst x)) \<and>
     (\<forall>p a. allocations (fst x) p = Some a \<longrightarrow> alloc_ok (snd x) (devices (fst x)) p a) \<and>
     (\<forall>i b. circuit_breakers (fst x) i = Some b \<longrightarrow> breaker_ok b)"

section \<open>Lemmas\<close>

inductive_cases pool_stepE: "pool_step s t"

lemmas device_simps = device_allocate_def device_release_def device_available_def

subsection \<open>The loops\<close>

lemma allocate_devices_go:
  "ds i = Some d \<Longrightarrow> device_available d \<Longrightarrow>
     allocate_devices p (i # is) ds = allocate_devices p is (ds(i \<mapsto> d\<lparr>current_allocation := Some p\<rparr>))"
  by (simp add: device_allocate_def)

lemma allocate_devices_stop:
  "\<nexists>d. ds i = Some d \<and> device_available d \<Longrightarrow>
     \<exists>e. allocate_devices p (i # is) ds = (Inl e, ds)"
  by (cases "ds i") (auto simp: device_allocate_def)

declare allocate_devices.simps(2) [simp del]

lemma allocate_devices_held:
  assumes "ds i = Some d" and "current_allocation d = Some q"
  shows "snd (allocate_devices p is ds) i = Some d"
  using assms
proof (induction "is" arbitrary: ds)
  case (Cons j js)
  show ?case
  proof (cases "\<exists>e. ds j = Some e \<and> device_available e")
    case True
    then obtain e where e: "ds j = Some e" "device_available e" by blast
    with Cons.prems have "j \<noteq> i" by (auto simp: device_available_def)
    with e Cons show ?thesis by (simp add: allocate_devices_go)
  next
    case False
    with Cons.prems allocate_devices_stop [of ds j p js] show ?thesis by auto
  qed
qed simp

lemma allocate_devices_ok:
  "fst (allocate_devices p is ds) = Inr () \<longleftrightarrow>
     distinct is \<and> (\<forall>i \<in> set is. \<exists>d. ds i = Some d \<and> device_available d)"
proof (induction "is" arbitrary: ds)
  case (Cons i js)
  show ?case
  proof (cases "\<exists>d. ds i = Some d \<and> device_available d")
    case True
    then obtain d where d: "ds i = Some d" "device_available d" by blast
    define ds' where "ds' = ds(i \<mapsto> d\<lparr>current_allocation := Some p\<rparr>)"
    have "(\<forall>j \<in> set js. \<exists>e. ds' j = Some e \<and> device_available e) \<longleftrightarrow>
      i \<notin> set js \<and> (\<forall>j \<in> set js. \<exists>e. ds j = Some e \<and> device_available e)"
      by (auto simp: ds'_def device_available_def)
    moreover have "allocate_devices p (i # js) ds = allocate_devices p js ds'"
      using d by (simp add: allocate_devices_go ds'_def)
    ultimately show ?thesis using d Cons.IH [of ds'] by auto
  next
    case False
    with allocate_devices_stop [of ds i p js] show ?thesis by auto
  qed
qed simp

text \<open>What a successful loop leaves in the device table: the listed devices, held by the pass.\<close>

lemma allocate_devices_result:
  assumes "fst (allocate_devices p is ds) = Inr ()"
  shows "snd (allocate_devices p is ds) i =
    (if i \<in> set is then map_option (\<lambda>d. d\<lparr>current_allocation := Some p\<rparr>) (ds i) else ds i)"
  using assms
proof (induction "is" arbitrary: ds)
  case (Cons j js)
  from Cons.prems have "j \<notin> set js" and "\<exists>d. ds j = Some d \<and> device_available d"
    unfolding allocate_devices_ok by auto
  then obtain d where d: "ds j = Some d" "device_available d" "j \<notin> set js" by blast
  define ds' where "ds' = ds(j \<mapsto> d\<lparr>current_allocation := Some p\<rparr>)"
  have go: "allocate_devices p (j # js) ds = allocate_devices p js ds'"
    using d by (simp add: allocate_devices_go ds'_def)
  with Cons.prems Cons.IH [of ds'] have "snd (allocate_devices p js ds') i =
    (if i \<in> set js then map_option (\<lambda>d. d\<lparr>current_allocation := Some p\<rparr>) (ds' i) else ds' i)"
    by simp
  with go d show ?case by (auto simp: ds'_def)
qed simp

definition hold_devices :: "pass_id \<Rightarrow> string list \<Rightarrow> (string \<rightharpoonup> hardware_device) \<Rightarrow> (string \<rightharpoonup> hardware_device)" where
  "hold_devices p is ds =
     (\<lambda>i. if i \<in> set is then map_option (\<lambda>d. d\<lparr>current_allocation := Some p\<rparr>) (ds i) else ds i)"

lemma allocate_devices_hold:
  assumes "fst (allocate_devices p is ds) = Inr ()"
  shows "snd (allocate_devices p is ds) = hold_devices p is ds"
  by (rule ext) (simp add: hold_devices_def allocate_devices_result [OF assms])

lemma hold_devices_Cons:
  "ds j = Some d \<Longrightarrow>
     hold_devices p js (ds(j \<mapsto> d\<lparr>current_allocation := Some p\<rparr>)) = hold_devices p (j # js) ds"
  by (rule ext) (auto simp: hold_devices_def)

lemma free_after_hold:
  "(\<exists>e. (ds(j \<mapsto> d\<lparr>current_allocation := Some p\<rparr>)) i = Some e \<and> device_available e) \<longleftrightarrow>
     i \<noteq> j \<and> (\<exists>e. ds i = Some e \<and> device_available e)"
  by (simp add: device_available_def)

text \<open>Where a failing loop stops.\<close>

lemma allocate_devices_fails:
  assumes "fst (allocate_devices p is ds) \<noteq> Inr ()"
  shows "\<exists>e k. k < length is \<and> allocate_devices p is ds = (Inl e, hold_devices p (take k is) ds) \<and>
    distinct (take k is) \<and> (\<forall>i \<in> set (take k is). \<exists>d. ds i = Some d \<and> device_available d) \<and>
    (is ! k \<in> set (take k is) \<or> (\<nexists>d. ds (is ! k) = Some d \<and> device_available d))"
  using assms
proof (induction "is" arbitrary: ds)
  case (Cons j js)
  show ?case
  proof (cases "\<exists>d. ds j = Some d \<and> device_available d")
    case True
    then obtain d where d: "ds j = Some d" "device_available d" by blast
    let ?ds = "ds(j \<mapsto> d\<lparr>current_allocation := Some p\<rparr>)"
    have go: "allocate_devices p (j # js) ds = allocate_devices p js ?ds"
      using d by (simp add: allocate_devices_go)
    have "fst (allocate_devices p js ?ds) \<noteq> Inr ()" using Cons.prems go by simp
    from Cons.IH [OF this] obtain e k where k: "k < length js"
      "allocate_devices p js ?ds = (Inl e, hold_devices p (take k js) ?ds)" "distinct (take k js)"
      "\<forall>i \<in> set (take k js). \<exists>d. ?ds i = Some d \<and> device_available d"
      "js ! k \<in> set (take k js) \<or> (\<nexists>d. ?ds (js ! k) = Some d \<and> device_available d)"
      by blast
    show ?thesis
      using k(1,2,3) k(4,5) [unfolded free_after_hold] d
      by (intro exI [of _ e] exI [of _ "Suc k"]) (auto simp: go hold_devices_Cons)
  next
    case False
    then obtain e where "allocate_devices p (j # js) ds = (Inl e, ds)" using allocate_devices_stop by blast
    with False show ?thesis by (intro exI [of _ e] exI [of _ 0]) (simp add: hold_devices_def)
  qed
qed simp

lemma release_device_apply:
  "release_device p i ds j =
     (if j = i then
        map_option (\<lambda>d. if current_allocation d = Some p then d\<lparr>current_allocation := None\<rparr> else d)
          (ds i)
      else ds j)"
  by (auto simp: release_device_def device_release_def split: option.splits)

lemma fold_release_apply:
  "fold (release_device p) is ds j =
     (if j \<in> set is then
        map_option (\<lambda>d. if current_allocation d = Some p then d\<lparr>current_allocation := None\<rparr> else d)
          (ds j)
      else ds j)"
  by (induction "is" arbitrary: ds) (auto simp: release_device_apply option.map_comp comp_def
      intro: option.map_cong)

subsection \<open>The invariant\<close>

lemma pool_inv_new: "pool_inv (pool_new, {})"
  by (simp add: pool_inv_def pool_new_def)

lemma breaker_ok_new: "breaker_ok breaker_new"
  by (simp add: breaker_ok_def breaker_new_def circuit_open_threshold_def)

lemma breaker_ok_failure: "breaker_ok (record_failure now b)"
  if "breaker_ok b"
  using that by (auto simp: breaker_ok_def record_failure_def Let_def not_le)

lemma breaker_ok_success: "breaker_ok (breaker_record_success b)"
  by (simp add: breaker_ok_def breaker_record_success_def circuit_open_threshold_def)

lemma breaker_ok_allows: "breaker_ok b \<Longrightarrow> breaker_ok (snd (allows_allocation now b))"
  by (auto simp: breaker_ok_def allows_allocation_def split: circuit_state.splits)

lemma breaker_ok_of: "\<forall>i b. br i = Some b \<longrightarrow> breaker_ok b \<Longrightarrow> breaker_ok (breaker_of br i)"
  by (auto simp: breaker_of_def breaker_ok_new split: option.splits)

lemma find_loop_Cons:
  "find_loop now ty (Suc n) (d # ds) br =
     (if dev_type d \<noteq> ty \<or> \<not> device_available d then find_loop now ty (Suc n) ds br
      else
        (let i = device_id d;
             a = allows_allocation (now i) (breaker_of br i);
             br1 = br(i \<mapsto> snd a)
         in if fst a then apfst ((#) i) (find_loop now ty n ds br1)
            else find_loop now ty (Suc n) ds br1))"
  by (simp add: Let_def case_prod_beta apfst_def map_prod_def)

declare find_loop.simps(3) [simp del]

lemma find_loop_breakers_ok:
  assumes "\<forall>i b. br i = Some b \<longrightarrow> breaker_ok b"
  shows "\<forall>i b. snd (find_loop now ty n ds br) i = Some b \<longrightarrow> breaker_ok b"
  using assms
proof (induction ds arbitrary: n br)
  case Nil
  then show ?case by (cases n) auto
next
  case (Cons d ds)
  let ?i = "device_id d"
  define br' where "br' = br(?i \<mapsto> snd (allows_allocation (now ?i) (breaker_of br ?i)))"
  have "\<forall>i b. br' i = Some b \<longrightarrow> breaker_ok b"
    using Cons.prems breaker_ok_allows [OF breaker_ok_of [of br]] by (auto simp: br'_def)
  note ok = Cons.IH [OF this] and ok' = Cons.IH [OF Cons.prems]
  show ?case
  proof (cases n)
    case (Suc m)
    then show ?thesis
      using ok [of m] ok [of n] ok' [of n] by (simp add: find_loop_Cons Let_def flip: br'_def)
  qed (use Cons.prems in simp)
qed

lemma pool_allocate_devices:
  "devices (snd (pool_allocate now p is dur s)) = snd (allocate_devices p is (devices s))"
  by (auto simp: pool_allocate_def Let_def split: prod.splits sum.splits)

lemma keyed_allocate_devices:
  "keyed device_id ds \<Longrightarrow> keyed device_id (snd (allocate_devices p is ds))"
proof (induction "is" arbitrary: ds)
  case (Cons i js)
  show ?case
  proof (cases "\<exists>d. ds i = Some d \<and> device_available d")
    case True
    then obtain d where d: "ds i = Some d" "device_available d" by blast
    then have "keyed device_id (ds(i \<mapsto> d\<lparr>current_allocation := Some p\<rparr>))"
      using Cons.prems by (auto simp: keyed_def)
    with Cons.IH d show ?thesis by (simp add: allocate_devices_go)
  next
    case False
    with Cons.prems allocate_devices_stop [of ds i p js] show ?thesis by auto
  qed
qed simp

lemma pool_inv_allocate:
  assumes inv: "pool_inv (s, R)"
  shows "pool_inv (snd (pool_allocate now p is dur s), R)"
proof -
  let ?ds = "snd (allocate_devices p is (devices s))"
  have keep: "alloc_ok R ?ds q a" if "allocations s q = Some a" for q a
    using inv that allocate_devices_held [of "devices s" _ _ q p "is"]
    unfolding pool_inv_def alloc_ok_def fst_conv snd_conv by blast
  have new: "alloc_ok R ?ds p \<lparr>alloc_pass = p, alloc_devices = is, allocated_at = now,
       expected_duration_sec = dur\<rparr>" if "fst (allocate_devices p is (devices s)) = Inr ()"
    using that allocate_devices_result [OF that] unfolding allocate_devices_ok
    by (auto simp: alloc_ok_def)
  have "keyed device_id ?ds" using inv by (simp add: pool_inv_def keyed_allocate_devices)
  with keep new inv show ?thesis
    by (auto simp: pool_inv_def pool_allocate_def Let_def split: prod.splits sum.splits)
qed

lemma pool_inv_release:
  assumes inv: "pool_inv (s, R)"
  shows "pool_inv (snd (pool_release p s), R)"
proof (cases "allocations s p")
    case (Some a)
    let ?ds = "fold (release_device p) (alloc_devices a) (devices s)"
    have "alloc_ok R ?ds q b" if "allocations s q = Some b" "q \<noteq> p" for q b
      using inv that by (fastforce simp: pool_inv_def alloc_ok_def fold_release_apply)
    moreover have "keyed device_id ?ds"
      using inv by (auto simp: pool_inv_def keyed_def fold_release_apply split: if_splits)
    ultimately show ?thesis using inv Some by (auto simp: pool_inv_def pool_release_def)
qed (use inv in \<open>simp add: pool_release_def\<close>)

lemma alloc_ok_upd:
  "alloc_ok R ds p a \<Longrightarrow> ds i = Some d \<Longrightarrow> current_allocation d' = current_allocation d \<Longrightarrow>
     alloc_ok R (ds(i \<mapsto> d')) p a"
  unfolding alloc_ok_def by (metis fun_upd_apply option.inject)

lemma pool_inv_step:
  assumes inv: "pool_inv x" and step: "pool_step x y"
  shows "pool_inv y"
  using step
proof (cases rule: pool_step.cases)
  case (step_add s R d)
  let ?R = "R \<union> ({device_id d} \<inter> listed_devices s)"
  have "alloc_ok ?R ((devices s)(device_id d \<mapsto> d)) p a" if "allocations s p = Some a" for p a
  proof -
    have "alloc_ok R (devices s) p a" using inv that step_add by (simp add: pool_inv_def)
    moreover have "set (alloc_devices a) \<subseteq> listed_devices s"
      using that by (auto simp: listed_devices_def ran_def)
    ultimately show ?thesis by (auto simp: alloc_ok_def)
  qed
  then show ?thesis using inv step_add by (simp add: pool_inv_def add_device_def keyed_insert)
next
  case (step_find s ks R now ty n)
  then show ?thesis
    using inv find_loop_breakers_ok [of "circuit_breakers s"]
    by (auto simp: pool_inv_def find_available_def Let_def split: prod.splits)
       (metis snd_conv)
next
  case (step_allocate s R now p "is" dur)
  then show ?thesis using pool_inv_allocate inv by simp
next
  case (step_release s R p)
  then show ?thesis using pool_inv_release inv by simp
next
  case (step_check s R now i)
  then show ?thesis using inv
    by (auto simp: pool_inv_def check_health_def keyed_def intro!: alloc_ok_upd split: option.splits)
next
  case (step_unhealthy s R now i)
  then show ?thesis
    using inv breaker_ok_failure [OF breaker_ok_of [of "circuit_breakers s"], of now i]
    by (auto simp: pool_inv_def mark_unhealthy_def keyed_def intro!: alloc_ok_upd split: option.splits)
next
  case (step_success s R i)
  then show ?thesis using inv breaker_ok_success
    by (auto simp: pool_inv_def pool_record_success_def split: option.splits)
qed

interpretation pool: invariant_system "\<lambda>x. x = (pool_new, {})" pool_step pool_inv
  by unfold_locales (auto simp: pool_inv_new intro: pool_inv_step)

subsection \<open>Searching the pool\<close>

text \<open>What the search asks of a device: its type, its availability, and its breaker.\<close>

definition eligible ::
  "(string \<Rightarrow> datetime) \<Rightarrow> hardware_type \<Rightarrow> (string \<rightharpoonup> circuit_breaker) \<Rightarrow> hardware_device \<Rightarrow> bool"
where
  "eligible now ty br d \<longleftrightarrow>
     dev_type d = ty \<and> device_available d \<and>
     fst (allows_allocation (now (device_id d)) (breaker_of br (device_id d)))"

lemma eligible_upd_other:
  "device_id e \<noteq> i \<Longrightarrow> eligible now ty (br(i \<mapsto> b)) e = eligible now ty br e"
  by (simp add: eligible_def breaker_of_def)

text \<open>
  The search visits devices with distinct identifiers, so a consulted breaker belongs to a device
  that is not visited again: the result is the prefix of the eligible devices.
\<close>

lemma find_loop_result:
  assumes "distinct (map device_id ds)"
  shows "fst (find_loop now ty n ds br) = take n (map device_id (filter (eligible now ty br) ds))"
  using assms
proof (induction ds arbitrary: n br)
  case Nil
  then show ?case by (cases n) auto
next
  case (Cons d ds)
  let ?i = "device_id d"
  define br' where "br' = br(?i \<mapsto> snd (allows_allocation (now ?i) (breaker_of br ?i)))"
  have "filter (eligible now ty br') ds = filter (eligible now ty br) ds"
    using Cons.prems by (intro filter_cong) (auto simp: br'_def, (metis eligible_upd_other image_eqI)+)
  then show ?case
    using Cons.prems Cons.IH [of _ br'] Cons.IH [of _ br]
    by (cases n) (auto simp: find_loop_Cons Let_def eligible_def [of now ty br d] simp flip: br'_def)
qed

lemma map_values_device_ids:
  assumes "keyed device_id ds" and "iter_order ds ks"
  shows "map device_id (map_values ds ks) = ks"
proof -
  from assms(2) have "set ks \<subseteq> dom ds" by (simp add: iter_order_def)
  then show ?thesis
    by (induction ks) (auto simp: keyedD [OF assms(1)] split: option.splits)
qed

lemma fst_find_available:
  assumes "keyed device_id (devices s)" and "iter_order (devices s) ks"
  shows "fst (find_available now ks ty n s) =
    take n (map device_id (filter (eligible now ty (circuit_breakers s)) (map_values (devices s) ks)))"
proof -
  have "distinct (map device_id (map_values (devices s) ks))"
    using map_values_device_ids [OF assms] assms(2) by (simp add: iter_order_def)
  from find_loop_result [OF this] show ?thesis
    by (simp add: find_available_def Let_def case_prod_beta)
qed

lemma eligible_open:
  assumes "eligible now ty (circuit_breakers s) d" and "device_id d = i"
  shows "dev_type d = ty \<and> healthy d \<and> current_allocation d = None \<and>
    (\<forall>b t. circuit_breakers s i = Some b \<and> cb_state b = Open t \<longrightarrow> 60 * 1000000000 \<le> now i - t)"
proof -
  have "60 * 1000000000 \<le> now i - t"
    if "circuit_breakers s i = Some b" "cb_state b = Open t" for b t
    using assms that num_seconds_ge [of 60 "now i - t"]
    by (auto simp: eligible_def breaker_of_def allows_allocation_def circuit_cooldown_secs_def
        split: if_splits)
  with assms show ?thesis by (auto simp: eligible_def device_available_def)
qed

subsection \<open>Repeated failures\<close>

lemma unat_threshold: "unat circuit_open_threshold = 3"
  by (simp add: circuit_open_threshold_def)

lemma fold_record_failure:
  assumes "length ts < 2 ^ 32"
  shows "fold record_failure ts breaker_new =
    \<lparr>cb_state = (if length ts < 3 then Closed else Open (last ts)),
     consecutive_failures = of_nat (length ts), total_trips = of_nat (length ts - 2)\<rparr>"
  using assms
proof (induction ts rule: rev_induct)
  case Nil
  then show ?case by (simp add: breaker_new_def)
next
  case (snoc t ts)
  have "Suc (length ts) < 2 ^ 32" using snoc.prems by simp
  then have "unat (of_nat (Suc (length ts)) :: u32) = Suc (length ts)"
    by (intro unat_of_nat_small) simp
  then have thr: "circuit_open_threshold \<le> (of_nat (length ts) + 1 :: u32) \<longleftrightarrow> 2 \<le> length ts"
    using unat_threshold by (auto simp: word_le_nat_alt add.commute)
  have ih: "fold record_failure ts breaker_new =
    \<lparr>cb_state = (if length ts < 3 then Closed else Open (last ts)),
     consecutive_failures = of_nat (length ts), total_trips = of_nat (length ts - 2)\<rparr>"
    using snoc by simp
  have app: "fold record_failure (ts @ [t]) breaker_new = record_failure t
    \<lparr>cb_state = (if length ts < 3 then Closed else Open (last ts)),
     consecutive_failures = of_nat (length ts), total_trips = of_nat (length ts - 2)\<rparr>"
    using ih by simp
  show ?case
  proof (cases "2 \<le> length ts")
    case True
    then obtain k where "length ts = k + 2" by (metis add.commute le_Suc_ex)
    with thr show ?thesis unfolding app by (simp add: record_failure_def Let_def add.commute)
  next
    case False
    with thr show ?thesis unfolding app by (simp add: record_failure_def Let_def add.commute)
  qed
qed

section \<open>Properties\<close>

text \<open>C1: exclusive allocation. In every state the pool can reach, a device that appears in the recorded allocations
  of two different passes was added to the pool again while a recorded allocation listed it: no other sequence of
  operations, with any arguments, grants a device to two passes at once.\<close>

theorem exclusive_allocation:
  assumes "reach (\<lambda>x. x = (pool_new, {})) pool_step (s, R)"
    and "allocations s p = Some a" and "allocations s q = Some b"
    and "i \<in> set (alloc_devices a)" and "i \<in> set (alloc_devices b)"
  shows "p = q \<or> i \<in> R"
  using pool.reach_inv [OF assms(1)] assms(2-) unfolding pool_inv_def alloc_ok_def fst_conv snd_conv
  by (metis Diff_iff option.inject)

definition example_device :: hardware_device where
  "example_device = device_new 0 ''sdr0'' Sdr (capabilities_new (0, 100) 1000)"

definition example_pool :: hardware_pool where
  "example_pool = add_device example_device pool_new"

lemma example_pool_reach: "reach (\<lambda>x. x = (pool_new, {})) pool_step (example_pool, {})"
proof -
  have "pool_step (pool_new, {})
      (add_device example_device pool_new, {} \<union> ({device_id example_device} \<inter> listed_devices pool_new))"
    by (rule step_add)
  then have "pool_step (pool_new, {}) (example_pool, {})"
    by (simp add: example_pool_def listed_devices_def pool_new_def)
  with reach_self [of "(pool_new, {})" pool_step] show ?thesis by (rule reach_step)
qed

lemmas example_pool_simps = example_pool_def add_device_def pool_new_def example_device_def
  device_new_def pool_allocate_def device_allocate_def device_available_def Let_def

theorem exclusive_allocation_witness:
  "let s = snd (pool_allocate 5 (PassId ''p'') [''sdr0''] 600 example_pool)
   in \<exists>a. allocations s (PassId ''p'') = Some a \<and> ''sdr0'' \<in> set (alloc_devices a) \<and>
        (\<forall>q b. allocations s q = Some b \<and> ''sdr0'' \<in> set (alloc_devices b) \<longrightarrow> PassId ''p'' = q)"
proof -
  let ?s = "snd (pool_allocate 5 (PassId ''p'') [''sdr0''] 600 example_pool)"
  have r: "reach (\<lambda>x. x = (pool_new, {})) pool_step (?s, {})"
    by (rule reach_step [OF example_pool_reach step_allocate])
  obtain a where a: "allocations ?s (PassId ''p'') = Some a" "''sdr0'' \<in> set (alloc_devices a)"
    by (simp add: example_pool_simps allocate_devices.simps)
  with exclusive_allocation [OF r a(1) _ a(2)] show ?thesis unfolding Let_def by blast
qed

text \<open>The exception is real: adding a device again frees it under the pass that holds it, and the next pass gets it
  as well.\<close>

lemma readded_device_granted_twice:
  assumes "p \<noteq> q"
  shows "let s1 = snd (pool_allocate t p [''sdr0''] n example_pool);
             s2 = snd (pool_allocate t' q [''sdr0''] n' (add_device example_device s1))
    in \<exists>a b. allocations s2 p = Some a \<and> allocations s2 q = Some b \<and>
         alloc_devices a = [''sdr0''] \<and> alloc_devices b = [''sdr0'']"
  using assms by (simp add: example_pool_simps allocate_devices.simps)

text \<open>C7: what \<open>allocate\<close> does. The request of a pass is granted exactly when it lists no device twice and every
  device it lists is in the pool, healthy and free; then the listed devices are held by the pass and its allocation is
  recorded. Otherwise the call fails at the first device that is missing, taken or listed before: the devices ahead of it
  stay held by the pass, and nothing is recorded.\<close>

theorem pool_allocate_ok_iff:
  "if distinct is \<and> (\<forall>i \<in> set is. \<exists>d. devices s i = Some d \<and> healthy d \<and> current_allocation d = None)
   then let a = \<lparr>alloc_pass = p, alloc_devices = is, allocated_at = now, expected_duration_sec = dur\<rparr>
     in pool_allocate now p is dur s =
          (Inr a, s\<lparr>devices := hold_devices p is (devices s), allocations := (allocations s)(p \<mapsto> a)\<rparr>)
   else \<exists>e k. k < length is \<and>
     pool_allocate now p is dur s = (Inl e, s\<lparr>devices := hold_devices p (take k is) (devices s)\<rparr>) \<and>
     distinct (take k is) \<and>
     (\<forall>i \<in> set (take k is). \<exists>d. devices s i = Some d \<and> healthy d \<and> current_allocation d = None) \<and>
     (is ! k \<in> set (take k is) \<or> (\<nexists>d. devices s (is ! k) = Some d \<and> healthy d \<and> current_allocation d = None))"
proof (cases "fst (allocate_devices p is (devices s)) = Inr ()")
  case True
  then have ok: "distinct is \<and> (\<forall>i \<in> set is. \<exists>d. devices s i = Some d \<and> healthy d \<and> current_allocation d = None)"
    by (simp add: allocate_devices_ok device_available_def)
  have "allocate_devices p is (devices s) = (Inr (), hold_devices p is (devices s))"
    using True allocate_devices_hold [OF True] by (metis prod.collapse)
  with ok show ?thesis by (simp add: pool_allocate_def Let_def)
next
  case False
  then have no: "\<not> (distinct is \<and> (\<forall>i \<in> set is. \<exists>d. devices s i = Some d \<and> healthy d \<and> current_allocation d = None))"
    by (simp add: allocate_devices_ok device_available_def)
  from allocate_devices_fails [OF False] obtain e k where k: "k < length is"
    "allocate_devices p is (devices s) = (Inl e, hold_devices p (take k is) (devices s))"
    "distinct (take k is) \<and> (\<forall>i \<in> set (take k is). \<exists>d. devices s i = Some d \<and> device_available d) \<and>
     (is ! k \<in> set (take k is) \<or> (\<nexists>d. devices s (is ! k) = Some d \<and> device_available d))"
    by blast
  have "pool_allocate now p is dur s = (Inl e, s\<lparr>devices := hold_devices p (take k is) (devices s)\<rparr>)"
    by (simp add: pool_allocate_def k(2))
  with k(1,3) show ?thesis unfolding if_not_P [OF no] device_available_def by blast
qed

theorem pool_allocate_ok_iff_witness:
  "fst (pool_allocate 5 (PassId ''p'') [''sdr0''] 600 example_pool) =
     Inr \<lparr>alloc_pass = PassId ''p'', alloc_devices = [''sdr0''], allocated_at = 5, expected_duration_sec = 600\<rparr> \<and>
   isl (fst (pool_allocate 5 (PassId ''p'') [''sdr0'', ''sdr0''] 600 example_pool))"
proof -
  have dev: "devices example_pool ''sdr0'' = Some example_device" "healthy example_device"
      "current_allocation example_device = None"
    by (simp_all add: example_pool_simps)
  let ?P = "\<lambda>is. distinct is \<and>
    (\<forall>i \<in> set is. \<exists>d. devices example_pool i = Some d \<and> healthy d \<and> current_allocation d = None)"
  have once: "?P [''sdr0'']" and twice: "\<not> ?P [''sdr0'', ''sdr0'']" using dev by simp_all
  note ok = pool_allocate_ok_iff [of "[''sdr0'']" example_pool "PassId ''p''" 5 600]
  note no = pool_allocate_ok_iff [of "[''sdr0'', ''sdr0'']" example_pool "PassId ''p''" 5 600]
  have "fst (pool_allocate 5 (PassId ''p'') [''sdr0''] 600 example_pool) =
     Inr \<lparr>alloc_pass = PassId ''p'', alloc_devices = [''sdr0''], allocated_at = 5, expected_duration_sec = 600\<rparr>"
    using ok [unfolded if_P [OF once] Let_def] by (simp only: fst_conv)
  moreover obtain e and y where "pool_allocate 5 (PassId ''p'') [''sdr0'', ''sdr0''] 600 example_pool = (Inl e, y)"
    using no [unfolded if_not_P [OF twice]] by blast
  ultimately show ?thesis by (simp only: fst_conv sum.disc simp_thms)
qed

text \<open>C8: allocation and release are inverse. After a request is granted, releasing the pass
  succeeds and gives back the device table exactly as it was before the request, and forgets the
  allocation.\<close>

theorem allocate_release_roundtrip:
  assumes "fst (pool_allocate now p is dur s) = Inr a"
  shows "pool_release p (snd (pool_allocate now p is dur s)) =
    (Inr (), s\<lparr>allocations := (allocations s)(p := None)\<rparr>)"
proof -
  let ?r = "allocate_devices p is (devices s)"
  have ok: "fst ?r = Inr ()"
    using assms by (auto simp: pool_allocate_def split: prod.splits sum.splits)
  have "fold (release_device p) is (snd ?r) i = devices s i" for i
  proof (cases "i \<in> set is")
    case True
    with ok have "\<exists>d. devices s i = Some d \<and> device_available d"
      unfolding allocate_devices_ok by blast
    then obtain d where "devices s i = Some d" "current_allocation d = None"
      by (auto simp: device_available_def)
    with True show ?thesis by (simp add: fold_release_apply allocate_devices_result [OF ok])
  next
    case False
    then show ?thesis by (simp add: fold_release_apply allocate_devices_result [OF ok])
  qed
  then have "fold (release_device p) is (snd ?r) = devices s" by (rule ext)
  with ok show ?thesis
    by (auto simp: pool_allocate_def pool_release_def Let_def split: prod.splits)
qed

theorem allocate_release_roundtrip_witness:
  "pool_release (PassId ''p'') (snd (pool_allocate 5 (PassId ''p'') [''sdr0''] 600 example_pool))
     = (Inr (), example_pool\<lparr>allocations := Map.empty\<rparr>)"
proof -
  have "fst (pool_allocate 5 (PassId ''p'') [''sdr0''] 600 example_pool) =
    Inr \<lparr>alloc_pass = PassId ''p'', alloc_devices = [''sdr0''], allocated_at = 5,
         expected_duration_sec = 600\<rparr>"
    by (simp add: example_pool_simps allocate_devices.simps)
  from allocate_release_roundtrip [OF this] show ?thesis
    by (simp add: example_pool_def pool_new_def add_device_def)
qed

text \<open>A request that fails half-way keeps what it took. When the first device of a request is
  free and the second is unknown, the call fails, the first device stays held by the pass, no
  allocation is recorded, and the release that would free the device fails as well.\<close>

theorem failed_allocate_leaks:
  assumes "devices s i = Some d" and "device_available d" and "devices s j = None"
    and "allocations s p = None"
  shows "\<exists>e e' s'. pool_allocate now p [i, j] dur s = (Inl e, s')
    \<and> devices s' i = Some (d\<lparr>current_allocation := Some p\<rparr>)
    \<and> allocations s' = allocations s \<and> pool_release p s' = (Inl e', s')"
  using assms
  by (cases "i = j") (auto simp: pool_allocate_def pool_release_def allocate_devices.simps device_allocate_def)

theorem failed_allocate_leaks_witness:
  "\<exists>s'. snd (pool_allocate 5 (PassId ''p'') [''sdr0'', ''sdr1''] 600 example_pool) = s'
     \<and> devices s' ''sdr0'' = Some (example_device\<lparr>current_allocation := Some (PassId ''p'')\<rparr>)"
  using failed_allocate_leaks [of example_pool "''sdr0''" example_device "''sdr1''" "PassId ''p''" 5 600]
  by (fastforce simp: example_pool_simps)

text \<open>What the search returns. Whatever the iteration order of the device table, the search
  returns the identifiers of at most \<open>n\<close> devices of the pool, none twice, each of the requested
  type, healthy, free and not in the cooldown of an open breaker, and when it returns fewer than
  \<open>n\<close> it has returned every such device.\<close>

theorem find_available_spec:
  assumes "reach (\<lambda>x. x = (pool_new, {})) pool_step (s, R)" and "iter_order (devices s) ks"
    and "fst (find_available now ks ty n s) = is"
  shows "length is \<le> n \<and> distinct is \<and>
    (\<forall>i \<in> set is. \<exists>d. devices s i = Some d \<and> dev_type d = ty \<and> healthy d \<and>
       current_allocation d = None \<and>
       (\<forall>b t. circuit_breakers s i = Some b \<and> cb_state b = Open t \<longrightarrow> 60 * 1000000000 \<le> now i - t)) \<and>
    (length is < n \<longrightarrow>
       (\<forall>i d. devices s i = Some d \<and> eligible now ty (circuit_breakers s) d \<longrightarrow> i \<in> set is))"
proof -
  let ?vs = "map_values (devices s) ks"
  let ?e = "filter (eligible now ty (circuit_breakers s)) ?vs"
  have key: "keyed device_id (devices s)"
    using pool.reach_inv [OF assms(1)] by (simp add: pool_inv_def)
  have res: "is = take n (map device_id ?e)"
    using fst_find_available [OF key assms(2)] assms(3) by simp
  have "distinct (map device_id ?vs)"
    using map_values_device_ids [OF key assms(2)] assms(2) by (simp add: iter_order_def)
  then have "distinct is" unfolding res by (intro distinct_take distinct_map_filter)
  moreover have "\<exists>d. devices s i = Some d \<and> eligible now ty (circuit_breakers s) d"
    if "i \<in> set is" for i
  proof -
    from that res have "i \<in> set (map device_id ?e)" by (metis in_set_takeD)
    then show ?thesis using keyedD [OF key] by (auto simp: set_map_values)
  qed
  moreover have "i \<in> set is" if "length is < n" "devices s i = Some d"
    "eligible now ty (circuit_breakers s) d" for i d
  proof -
    have "d \<in> set ?vs" using that(2) assms(2) by (auto simp: set_map_values iter_order_def)
    then show ?thesis using res that keyedD [OF key that(2)] by auto
  qed
  ultimately show ?thesis using res eligible_open keyedD [OF key] by (fastforce simp: res)
qed

theorem find_available_spec_witness:
  "distinct (fst (find_available (\<lambda>_. 9) [''sdr0''] Sdr 3 example_pool)) \<and>
   length (fst (find_available (\<lambda>_. 9) [''sdr0''] Sdr 3 example_pool)) \<le> 3"
proof -
  have o: "iter_order (devices example_pool) [''sdr0'']"
    by (simp add: iter_order_def example_pool_simps)
  show ?thesis using find_available_spec [OF example_pool_reach o refl] by blast
qed

text \<open>The breaker trips on the third failure in a row. After \<open>n\<close> failures of a fresh breaker
  (for every \<open>n\<close> a 32-bit counter can hold) the circuit is closed when \<open>n < 3\<close> and open since the
  latest failure otherwise, and the breaker has tripped \<open>n - 2\<close> times.\<close>

theorem breaker_trips_after_three:
  assumes "length ts < 2 ^ 32"
  shows "cb_state (fold record_failure ts breaker_new) =
      (if length ts < 3 then Closed else Open (last ts)) \<and>
    unat (consecutive_failures (fold record_failure ts breaker_new)) = length ts \<and>
    unat (total_trips (fold record_failure ts breaker_new)) = length ts - 2"
  using assms by (simp add: fold_record_failure unat_of_nat_small)

theorem breaker_trips_after_three_witness:
  "cb_state (fold record_failure [1, 2, 3] breaker_new) = Open 3"
  using breaker_trips_after_three [of "[1, 2, 3]"] by simp

text \<open>A half-open circuit does not limit the probes. Once the cooldown has passed, the breaker
  moves to half-open and grants every following request as well, without any success being
  recorded in between.\<close>

theorem half_open_grants_all:
  assumes "cb_state b = Open t" and "60 * 1000000000 \<le> now - t"
  shows "let (ok, b1) = allows_allocation now b; (ok', b2) = allows_allocation now' b1
    in ok \<and> cb_state b1 = HalfOpen \<and> ok' \<and> b2 = b1"
  using assms num_seconds_ge [of 60 "now - t"]
  by (simp add: allows_allocation_def circuit_cooldown_secs_def)

theorem half_open_grants_all_witness:
  "fst (allows_allocation 0 (snd (allows_allocation 60000000003
     (fold record_failure [1, 2, 3] breaker_new))))"
proof -
  have "cb_state (fold record_failure [1, 2, 3] breaker_new) = Open 3"
    by (simp add: record_failure_def breaker_new_def circuit_open_threshold_def Let_def)
  from half_open_grants_all [OF this, of 60000000003 0] show ?thesis
    by (simp add: Let_def case_prod_beta)
qed

end
