(* ===== verification/Hardware_Shard.thy ===== *)
theory Hardware_Shard
  imports Core_Types
begin

text \<open>
  The pass-isolated shards of \<open>hardware/src/shard.rs\<close>: the ring buffer over memory of the shard's
  arena, the shard-local log, the state of a pass, and the shard that owns them.

  A ring buffer holds a raw pointer to \<open>capacity\<close> samples; the model keeps those samples in
  \<open>rb_buffer\<close>. Samples are only copied, so their type is a type variable. Indices are naturals:
  the capacity of a slice is far below the range of \<open>usize\<close>. A capacity of zero makes the
  remainder operation of \<open>write\<close> and \<open>read\<close> panic, which is the result \<open>None\<close>.

  The interface \<open>sample_fifo\<close> is a bounded first-in first-out store; the ring buffer implements
  it, and what comes out of any sequence of calls is what went in, in order.
\<close>

section \<open>Definitions\<close>

subsection \<open>Ring buffer\<close>

record 'a ring_buffer =
  rb_buffer :: "'a list"
  rb_capacity :: nat
  rb_head :: nat
  rb_tail :: nat

definition rb_new :: "'a list \<Rightarrow> nat \<Rightarrow> 'a ring_buffer" where
  "rb_new buf cap = \<lparr>rb_buffer = buf, rb_capacity = cap, rb_head = 0, rb_tail = 0\<rparr>"

definition rb_available :: "'a ring_buffer \<Rightarrow> nat" where
  "rb_available r =
     (if rb_tail r \<le> rb_head r then rb_capacity r - (rb_head r - rb_tail r) - 1
      else rb_tail r - rb_head r - 1)"

definition rb_used :: "'a ring_buffer \<Rightarrow> nat" where
  "rb_used r =
     (if rb_tail r \<le> rb_head r then rb_head r - rb_tail r
      else rb_capacity r - (rb_tail r - rb_head r))"

text \<open>The store of the write loop: sample \<open>i\<close> goes to index \<open>(head + i) % capacity\<close>.\<close>

definition store_samples :: "nat \<Rightarrow> nat \<Rightarrow> 'a list \<Rightarrow> 'a list \<Rightarrow> 'a list" where
  "store_samples h cap xs buf =
     fold (\<lambda>(i, x) b. b[(h + i) mod cap := x]) (List.enumerate 0 xs) buf"

definition rb_write :: "'a list \<Rightarrow> 'a ring_buffer \<Rightarrow> (nat \<times> 'a ring_buffer) option" where
  "rb_write samples r =
     (if rb_capacity r = 0 then None
      else
        (let count = min (length samples) (rb_available r)
         in Some (count, r\<lparr>rb_buffer := store_samples (rb_head r) (rb_capacity r)
                                        (take count samples) (rb_buffer r),
                          rb_head := (rb_head r + count) mod rb_capacity r\<rparr>)))"

text \<open>\<open>read\<close> fills the first \<open>count\<close> cells of the caller's slice and leaves the rest.\<close>

definition rb_read :: "'a list \<Rightarrow> 'a ring_buffer \<Rightarrow> (nat \<times> 'a list \<times> 'a ring_buffer) option" where
  "rb_read out r =
     (if rb_capacity r = 0 then None
      else
        (let count = min (length out) (rb_used r)
         in Some (count,
                  map (\<lambda>i. rb_buffer r ! ((rb_tail r + i) mod rb_capacity r)) [0..<count]
                    @ drop count out,
                  r\<lparr>rb_tail := (rb_tail r + count) mod rb_capacity r\<rparr>)))"

subsection \<open>Shard-local log\<close>

datatype shard_entry_type =
    ShardSampleReceived | ShardDemodulatorStateChange | ShardHardwareAllocation | ShardError string

record shard_log_entry =
  sle_event_time :: datetime
  sle_reception_time :: datetime
  sle_type :: shard_entry_type

type_synonym shard_local_log = "u64 \<rightharpoonup> shard_log_entry"

definition shard_log_new :: shard_local_log where
  "shard_log_new = Map.empty"

definition shard_log_append :: "u64 \<Rightarrow> shard_log_entry \<Rightarrow> shard_local_log \<Rightarrow> shard_local_log" where
  "shard_log_append i e l = l(i \<mapsto> e)"

definition shard_log_get :: "u64 \<Rightarrow> shard_local_log \<Rightarrow> shard_log_entry option" where
  "shard_log_get i l = l i"

subsection \<open>Pass state and shard\<close>

record pass_state =
  pst_active :: bool
  pst_allocated_hardware :: "string list"
  pst_demodulator_state :: "bytes option"
  pst_sample_count :: u64
  pst_byte_count :: u64

definition pass_state_new :: pass_state where
  "pass_state_new =
     \<lparr>pst_active = False, pst_allocated_hardware = [], pst_demodulator_state = None,
      pst_sample_count = 0, pst_byte_count = 0\<rparr>"

text \<open>The arena is the sequence of the allocations that are alive in it.\<close>

record 'a pass_shard =
  psh_pass_id :: pass_id
  psh_arena :: "'a list list"
  psh_ring_buffers :: "'a ring_buffer list"
  psh_state :: pass_state
  psh_log :: shard_local_log
  psh_created_at :: datetime

definition pass_shard_new :: "datetime \<Rightarrow> pass_id \<Rightarrow> 'a pass_shard" where
  "pass_shard_new now p =
     \<lparr>psh_pass_id = p, psh_arena = [], psh_ring_buffers = [], psh_state = pass_state_new,
      psh_log = shard_log_new, psh_created_at = now\<rparr>"

definition allocate_in_shard :: "'a \<Rightarrow> 'a pass_shard \<Rightarrow> 'a pass_shard" where
  "allocate_in_shard v s = s\<lparr>psh_arena := psh_arena s @ [[v]]\<rparr>"

definition allocate_slice_mut :: "'a \<Rightarrow> nat \<Rightarrow> 'a pass_shard \<Rightarrow> 'a list \<times> 'a pass_shard" where
  "allocate_slice_mut dflt n s =
     (replicate n dflt, s\<lparr>psh_arena := psh_arena s @ [replicate n dflt]\<rparr>)"

definition add_ring_buffer :: "'a ring_buffer \<Rightarrow> 'a pass_shard \<Rightarrow> 'a pass_shard" where
  "add_ring_buffer r s = s\<lparr>psh_ring_buffers := psh_ring_buffers s @ [r]\<rparr>"

definition shard_state_mut :: "(pass_state \<Rightarrow> pass_state) \<Rightarrow> 'a pass_shard \<Rightarrow> 'a pass_shard" where
  "shard_state_mut f s = s\<lparr>psh_state := f (psh_state s)\<rparr>"

definition shard_log_mut ::
  "(shard_local_log \<Rightarrow> shard_local_log) \<Rightarrow> 'a pass_shard \<Rightarrow> 'a pass_shard" where
  "shard_log_mut f s = s\<lparr>psh_log := f (psh_log s)\<rparr>"

text \<open>The ring buffers go first: they point into the arena.\<close>

definition shard_reset :: "'a pass_shard \<Rightarrow> 'a pass_shard" where
  "shard_reset s =
     (let s1 = s\<lparr>psh_ring_buffers := []\<rparr>;
          s2 = s1\<lparr>psh_arena := []\<rparr>
      in s2\<lparr>psh_state := pass_state_new, psh_log := shard_log_new\<rparr>)"

subsection \<open>Bounded queues\<close>

text \<open>Requests to a bounded queue, and a run: what was accepted, what was delivered.\<close>

datatype 'a fifo_op = Push "'a list" | Pull "'a list"

fun fifo_run ::
  "('a list \<Rightarrow> 'q \<Rightarrow> (nat \<times> 'q) option) \<Rightarrow> ('a list \<Rightarrow> 'q \<Rightarrow> (nat \<times> 'a list \<times> 'q) option) \<Rightarrow>
   'a fifo_op list \<Rightarrow> 'q \<Rightarrow> ('a list \<times> 'a list \<times> 'q) option" where
  "fifo_run push pull [] q = Some ([], [], q)"
| "fifo_run push pull (Push xs # ops) q =
     (case push xs q of
        None \<Rightarrow> None
      | Some (n, q') \<Rightarrow>
          map_option (\<lambda>(acc, del, q''). (take n xs @ acc, del, q'')) (fifo_run push pull ops q'))"
| "fifo_run push pull (Pull out # ops) q =
     (case pull out q of
        None \<Rightarrow> None
      | Some (n, out', q') \<Rightarrow>
          map_option (\<lambda>(acc, del, q''). (acc, take n out' @ del, q'')) (fifo_run push pull ops q'))"

definition rb_inv :: "'a ring_buffer \<Rightarrow> bool" where
  "rb_inv r \<longleftrightarrow> rb_head r < rb_capacity r \<and> rb_tail r < rb_capacity r \<and>
     length (rb_buffer r) = rb_capacity r"

text \<open>The samples waiting to be read, oldest first.\<close>

definition rb_contents :: "'a ring_buffer \<Rightarrow> 'a list" where
  "rb_contents r = map (\<lambda>i. rb_buffer r ! ((rb_tail r + i) mod rb_capacity r)) [0..<rb_used r]"

section \<open>Lemmas\<close>

subsection \<open>The interface\<close>

locale sample_fifo =
  fixes inv :: "'q \<Rightarrow> bool"
    and contents :: "'q \<Rightarrow> 'a list"
    and limit :: "'q \<Rightarrow> nat"
    and push :: "'a list \<Rightarrow> 'q \<Rightarrow> (nat \<times> 'q) option"
    and pull :: "'a list \<Rightarrow> 'q \<Rightarrow> (nat \<times> 'a list \<times> 'q) option"
  assumes push_law: "inv q \<Longrightarrow> \<exists>n q'. push xs q = Some (n, q') \<and> inv q' \<and> limit q' = limit q \<and>
      n = min (length xs) (limit q - length (contents q)) \<and> contents q' = contents q @ take n xs"
    and pull_law: "inv q \<Longrightarrow> \<exists>n q'. pull out q = Some (n, take n (contents q) @ drop n out, q') \<and>
      inv q' \<and> limit q' = limit q \<and>
      n = min (length out) (length (contents q)) \<and> contents q' = drop n (contents q)"
begin

text \<open>Nothing is lost, duplicated or reordered: what was waiting, followed by what was accepted,
  is what was delivered, followed by what is still waiting.\<close>

lemma run_conserves:
  assumes "inv q"
  shows "\<exists>acc del q'. fifo_run push pull ops q = Some (acc, del, q') \<and> inv q' \<and>
    limit q' = limit q \<and> contents q @ acc = del @ contents q'"
  using assms
proof (induction ops arbitrary: q)
  case Nil
  then show ?case by simp
next
  case (Cons op ops)
  show ?case
  proof (cases op)
    case (Push xs)
    from push_law [OF Cons.prems, of xs] obtain n q1 where q1: "push xs q = Some (n, q1)" "inv q1"
      "limit q1 = limit q" "contents q1 = contents q @ take n xs" by blast
    from Cons.IH [OF q1(2)] obtain acc del q' where "fifo_run push pull ops q1 = Some (acc, del, q')"
      "inv q'" "limit q' = limit q1" "contents q1 @ acc = del @ contents q'" by blast
    with q1 Push show ?thesis by simp
  next
    case (Pull out)
    from pull_law [OF Cons.prems, of out] obtain n q1 where
      q1: "pull out q = Some (n, take n (contents q) @ drop n out, q1)" "inv q1"
      "limit q1 = limit q" "n = min (length out) (length (contents q))"
      "contents q1 = drop n (contents q)" by blast
    from Cons.IH [OF q1(2)] obtain acc del q' where "fifo_run push pull ops q1 = Some (acc, del, q')"
      "inv q'" "limit q' = limit q1" "contents q1 @ acc = del @ contents q'" by blast
    moreover have "contents q @ acc = take n (contents q) @ drop n (contents q) @ acc"
      by (metis append_assoc append_take_drop_id)
    ultimately show ?thesis using q1 Pull by auto
  qed
qed

end

subsection \<open>The ring buffer implements it\<close>

lemma mod_add_inj:
  fixes h :: nat
  assumes "(h + i) mod c = (h + j) mod c" and "i < c" and "j < c"
  shows "i = j"
proof -
  have "i mod c = j mod c" using assms(1) by (simp add: mod_add_eq nat_mod_eq_iff mod_add_left_eq)
  with assms(2,3) show ?thesis by simp
qed

lemma store_samples_snoc:
  "store_samples h c (xs @ [x]) buf = (store_samples h c xs buf)[(h + length xs) mod c := x]"
  by (simp add: store_samples_def enumerate_append_eq)

lemma length_store_samples [simp]: "length (store_samples h c xs buf) = length buf"
  by (induction xs rule: rev_induct) (simp_all add: store_samples_snoc, simp add: store_samples_def)

text \<open>Reading back relative to the write position: the cells written hold the samples, the other
  cells of one turn around the buffer are untouched.\<close>

lemma store_samples_nth:
  assumes "length xs \<le> c" and "k < c" and "length buf = c"
  shows "store_samples h c xs buf ! ((h + k) mod c) =
    (if k < length xs then xs ! k else buf ! ((h + k) mod c))"
  using assms
proof (induction xs rule: rev_induct)
  case Nil
  then show ?case by (simp add: store_samples_def)
next
  case (snoc x xs)
  show ?case
  proof (cases "k = length xs")
    case True
    with snoc.prems show ?thesis by (simp add: store_samples_snoc)
  next
    case False
    with snoc.prems have "(h + k) mod c \<noteq> (h + length xs) mod c"
      using mod_add_inj [of h k c "length xs"] by auto
    with False snoc show ?thesis by (auto simp: store_samples_snoc nth_append)
  qed
qed

lemma rb_head_eq: "rb_inv r \<Longrightarrow> rb_head r = (rb_tail r + rb_used r) mod rb_capacity r"
  by (auto simp: rb_inv_def rb_used_def mod_if)

lemma rb_used_less: "rb_inv r \<Longrightarrow> rb_used r < rb_capacity r"
  by (auto simp: rb_inv_def rb_used_def)

lemma rb_available_used: "rb_inv r \<Longrightarrow> rb_available r = rb_capacity r - 1 - rb_used r"
  by (auto simp: rb_inv_def rb_used_def rb_available_def)

text \<open>The fill level is determined by the positions.\<close>

lemma rb_used_unique:
  assumes "rb_inv r" and "rb_head r = (rb_tail r + u) mod rb_capacity r" and "u < rb_capacity r"
  shows "rb_used r = u"
  using mod_add_inj [of "rb_tail r" "rb_used r" "rb_capacity r" u]
    rb_head_eq [OF assms(1)] rb_used_less [OF assms(1)] assms(2,3) by simp

lemma length_rb_contents [simp]: "length (rb_contents r) = rb_used r"
  by (simp add: rb_contents_def)

lemma rb_contents_nth:
  "i < rb_used r \<Longrightarrow> rb_contents r ! i = rb_buffer r ! ((rb_tail r + i) mod rb_capacity r)"
  by (simp add: rb_contents_def)

text \<open>A cell counted from the tail, counted from the head.\<close>

lemma ring_position:
  fixes t u c i :: nat
  assumes "u \<le> c"
  shows "(t + i) mod c = ((t + u) mod c + (c + i - u) mod c) mod c"
proof -
  have "((t + u) mod c + (c + i - u) mod c) mod c = (t + u + (c + i - u)) mod c"
    by (simp add: mod_add_left_eq mod_add_right_eq)
  also have "t + u + (c + i - u) = t + i + c" using assms by simp
  finally show ?thesis by simp
qed

lemma rb_write_law:
  assumes inv: "rb_inv r"
  shows "\<exists>n r'. rb_write xs r = Some (n, r') \<and> rb_inv r' \<and> rb_capacity r' - 1 = rb_capacity r - 1 \<and>
    n = min (length xs) (rb_capacity r - 1 - length (rb_contents r)) \<and>
    rb_contents r' = rb_contents r @ take n xs"
proof -
  define c n u where "c = rb_capacity r" and "n = min (length xs) (c - 1 - rb_used r)"
    and "u = rb_used r"
  define r' where "r' = r\<lparr>rb_buffer := store_samples (rb_head r) c (take n xs) (rb_buffer r),
    rb_head := (rb_head r + n) mod c\<rparr>"
  have c: "0 < c" "u < c" "length (rb_buffer r) = c" "n \<le> c - 1 - u"
    using inv rb_used_less [OF inv] by (auto simp: rb_inv_def c_def u_def n_def)
  have w: "rb_write xs r = Some (n, r')"
    using c(1) by (simp add: rb_write_def rb_available_used [OF inv] r'_def c_def n_def Let_def)
  have inv': "rb_inv r'" using inv c by (simp add: rb_inv_def r'_def c_def)
  have head: "rb_head r = (rb_tail r + u) mod c" using rb_head_eq [OF inv] by (simp add: c_def u_def)
  have used': "rb_used r' = u + n"
  proof (rule rb_used_unique [OF inv'])
    show "rb_head r' = (rb_tail r' + (u + n)) mod rb_capacity r'"
      using head by (simp add: r'_def mod_add_left_eq add.assoc flip: c_def)
    show "u + n < rb_capacity r'" using c by (simp add: r'_def flip: c_def)
  qed
  have pos: "(rb_tail r + i) mod c = (rb_head r + (c + i - u) mod c) mod c" if "i < u + n" for i
    unfolding head using c by (intro ring_position) simp
  have cell: "rb_buffer r' ! ((rb_tail r + i) mod c) =
    (if i < u then rb_buffer r ! ((rb_tail r + i) mod c) else xs ! (i - u))" if i: "i < u + n" for i
  proof -
    have k: "(c + i - u) mod c = (if i < u then c + i - u else i - u)"
      using c i by (auto simp: mod_if)
    have len: "length (take n xs) = n" by (simp add: n_def)
    show ?thesis
      using store_samples_nth [of "take n xs" c "(c + i - u) mod c" "rb_buffer r" "rb_head r"] c i k len
      unfolding pos [OF i] by (auto simp: r'_def)
  qed
  have "rb_contents r' = rb_contents r @ take n xs"
  proof (rule nth_equalityI)
    show "length (rb_contents r') = length (rb_contents r @ take n xs)"
      by (simp add: used' u_def n_def)
    fix i assume "i < length (rb_contents r')"
    then have i: "i < u + n" by (simp add: used')
    have "rb_tail r' = rb_tail r" "rb_capacity r' = c" by (simp_all add: r'_def c_def)
    with i cell [OF i] used' show "rb_contents r' ! i = (rb_contents r @ take n xs) ! i"
      by (auto simp: rb_contents_nth nth_append simp flip: c_def u_def)
  qed
  with w inv' show ?thesis by (auto simp: n_def c_def r'_def)
qed

lemma rb_read_law:
  assumes inv: "rb_inv r"
  shows "\<exists>n r'. rb_read out r = Some (n, take n (rb_contents r) @ drop n out, r') \<and> rb_inv r' \<and>
    rb_capacity r' - 1 = rb_capacity r - 1 \<and>
    n = min (length out) (length (rb_contents r)) \<and> rb_contents r' = drop n (rb_contents r)"
proof -
  define c n u where "c = rb_capacity r" and "n = min (length out) (rb_used r)"
    and "u = rb_used r"
  define r' where "r' = r\<lparr>rb_tail := (rb_tail r + n) mod c\<rparr>"
  have c: "0 < c" "u < c" "n \<le> u"
    using inv rb_used_less [OF inv] by (auto simp: rb_inv_def c_def u_def n_def)
  have inv': "rb_inv r'" using inv c by (simp add: rb_inv_def r'_def c_def)
  have tail: "((rb_tail r + n) mod c + (u - n)) mod c = (rb_tail r + u) mod c"
    using c(3) by (metis add.assoc le_add_diff_inverse mod_add_left_eq)
  have used': "rb_used r' = u - n"
  proof (rule rb_used_unique [OF inv'])
    show "rb_head r' = (rb_tail r' + (u - n)) mod rb_capacity r'"
      using rb_head_eq [OF inv] tail by (simp add: r'_def flip: c_def u_def)
    show "u - n < rb_capacity r'" using c by (simp add: r'_def flip: c_def)
  qed
  have "rb_contents r' = drop n (rb_contents r)"
  proof (rule nth_equalityI)
    show "length (rb_contents r') = length (drop n (rb_contents r))" by (simp add: used' u_def)
    fix i assume "i < length (rb_contents r')"
    then have i: "i < rb_used r'" "n + i < rb_used r" using c by (auto simp: used' u_def)
    then have "rb_contents r' ! i = rb_buffer r ! (((rb_tail r + n) mod c + i) mod c)"
      by (simp add: rb_contents_nth) (simp add: r'_def c_def)
    with i show "rb_contents r' ! i = drop n (rb_contents r) ! i"
      by (simp add: rb_contents_nth mod_add_left_eq add.assoc c_def)
  qed
  moreover have "take n (rb_contents r) =
      map (\<lambda>i. rb_buffer r ! ((rb_tail r + i) mod rb_capacity r)) [0..<n]"
    using c by (simp add: rb_contents_def take_map u_def)
  ultimately show ?thesis using c inv'
    by (auto simp: rb_read_def Let_def r'_def c_def n_def)
qed

interpretation rb: sample_fifo rb_inv rb_contents "\<lambda>r. rb_capacity r - 1" rb_write rb_read
  using rb_write_law rb_read_law by unfold_locales blast+

section \<open>Properties\<close>

text \<open>C3: the ring buffer is a bounded first-in first-out queue. For a buffer of any positive
  capacity and any sequence of writes and reads of any sizes, no call panics, and the samples that
  were accepted are exactly the samples that were delivered followed by the ones still waiting, in
  order; at most \<open>capacity - 1\<close> samples wait at a time.\<close>

theorem ring_buffer_fifo:
  assumes "0 < cap" and "length buf = cap"
  shows "\<exists>acc del r. fifo_run rb_write rb_read ops (rb_new buf cap) = Some (acc, del, r) \<and>
    acc = del @ rb_contents r \<and> length (rb_contents r) \<le> cap - 1"
proof -
  have inv: "rb_inv (rb_new buf cap)" using assms by (simp add: rb_inv_def rb_new_def)
  have empty: "rb_contents (rb_new buf cap) = []"
    by (simp add: rb_contents_def rb_used_def rb_new_def)
  have cap: "rb_capacity (rb_new buf cap) = cap" by (simp add: rb_new_def)
  from rb.run_conserves [OF inv, of ops] obtain acc del r where
    r: "fifo_run rb_write rb_read ops (rb_new buf cap) = Some (acc, del, r)" "rb_inv r"
    "rb_capacity r - 1 = cap - 1" "acc = del @ rb_contents r"
    unfolding cap empty append_Nil by blast
  then show ?thesis using rb_used_less [OF r(2)] by auto
qed

lemma ring_buffer_example:
  "map_option (\<lambda>(acc, del, r). (acc, del, rb_contents r))
     (fifo_run rb_write rb_read [Push [1, 2, 3, 4], Pull [0, 0], Push [5]] (rb_new [0, 0, 0, 0 :: nat] 4))
   = Some ([1, 2, 3, 5], [1, 2], [3, 5])"
  by code_simp

theorem ring_buffer_fifo_witness:
  "\<exists>acc del r. fifo_run rb_write rb_read [Push [1, 2, 3, 4], Pull [0, 0], Push [5]]
      (rb_new [0, 0, 0, 0 :: nat] 4) = Some (acc, del, r) \<and> acc = del @ rb_contents r \<and>
    length (rb_contents r) \<le> 3 \<and> del = [1, 2]"
  using ring_buffer_fifo [of 4 "[0, 0, 0, 0 :: nat]" "[Push [1, 2, 3, 4], Pull [0, 0], Push [5]]"]
    ring_buffer_example by auto

text \<open>What one write does. A write accepts as many of the samples as there is room for (one
  cell always stays free), appends exactly those to the waiting samples, and leaves the samples
  already waiting untouched.\<close>

theorem ring_buffer_write:
  assumes "rb_inv r"
  shows "\<exists>n r'. rb_write xs r = Some (n, r') \<and> rb_inv r' \<and>
    n = min (length xs) (rb_capacity r - 1 - length (rb_contents r)) \<and>
    rb_contents r' = rb_contents r @ take n xs"
  using rb_write_law [OF assms] by blast

theorem ring_buffer_write_witness:
  "\<exists>n r'. rb_write [7, 8, 9] (rb_new [0, 0, 0 :: nat] 3) = Some (n, r') \<and> rb_inv r' \<and> n = 2"
  using ring_buffer_write [of "rb_new [0, 0, 0 :: nat] 3" "[7, 8, 9]"]
  by (auto simp: rb_inv_def rb_new_def rb_used_def)

text \<open>Resetting a shard. A reset shard is a new shard of the same pass: no ring buffer points
  into the arena that was reclaimed, and no state or log entry of the old pass remains.\<close>

theorem shard_reset_fresh:
  "shard_reset s = (pass_shard_new (psh_created_at s) (psh_pass_id s) :: 'a pass_shard)"
  by (simp add: shard_reset_def pass_shard_new_def)

end
