(* ===== verification/Emergency_Shard.thy ===== *)
theory Emergency_Shard
  imports Core_Types
begin

text \<open>
  The emergency shards of \<open>hardware/src/emergency.rs\<close>: a shard that is claimed by an atomic swap,
  and the pool that hands out the first free one. The pool refines a set of free slots from which
  the smallest index is taken.

  The arena of a shard holds the sizes of the allocations made in it. Sizes and the Unix
  timestamp are \<open>usize\<close> values, kept as 64-bit words; the product in \<open>new\<close> wraps.
\<close>

section \<open>Definitions\<close>

record emergency_shard =
  es_arena :: "nat list"
  es_in_use :: bool
  es_last_claimed :: u64
  es_size :: u64

definition emergency_shard_new :: "u64 \<Rightarrow> emergency_shard" where
  "emergency_shard_new sz =
     \<lparr>es_arena = [], es_in_use = False, es_last_claimed = 0, es_size = sz\<rparr>"

text \<open>The swap sets the flag whether or not the claim succeeds.\<close>

definition shard_claim :: "datetime \<Rightarrow> emergency_shard \<Rightarrow> unit result \<times> emergency_shard" where
  "shard_claim now s =
     (let was_in_use = es_in_use s; s1 = s\<lparr>es_in_use := True\<rparr>
      in if was_in_use then (Inl (Hardware ''Emergency shard already in use''), s1)
         else (Inr (), s1\<lparr>es_last_claimed := word_of_int (now div 1000000000)\<rparr>))"

definition shard_release :: "emergency_shard \<Rightarrow> emergency_shard" where
  "shard_release s = s\<lparr>es_in_use := False, es_arena := []\<rparr>"

definition shard_is_available :: "emergency_shard \<Rightarrow> bool" where
  "shard_is_available s = (\<not> es_in_use s)"

record emergency_shard_pool =
  esp_shards :: "emergency_shard list"
  esp_total_size :: u64

definition emergency_pool_new :: "nat \<Rightarrow> u64 \<Rightarrow> emergency_shard_pool" where
  "emergency_pool_new n sz =
     \<lparr>esp_shards = map (\<lambda>_. emergency_shard_new sz) [0..<n], esp_total_size = of_nat n * sz\<rparr>"

text \<open>The loop of \<open>claim\<close>; \<open>i\<close> is the index of the head of the remaining shards.\<close>

fun claim_loop ::
  "datetime \<Rightarrow> nat \<Rightarrow> emergency_shard list \<Rightarrow> nat result \<times> emergency_shard list" where
  "claim_loop now i [] = (Inl (Hardware ''No emergency shards available''), [])"
| "claim_loop now i (s # ss) =
     (if shard_is_available s then
        (case shard_claim now s of
           (Inl e, s') \<Rightarrow> (Inl e, s' # ss)
         | (Inr _, s') \<Rightarrow> (Inr i, s' # ss))
      else (let (r, ss') = claim_loop now (Suc i) ss in (r, s # ss')))"

definition emergency_claim ::
  "datetime \<Rightarrow> emergency_shard_pool \<Rightarrow> nat result \<times> emergency_shard_pool" where
  "emergency_claim now p =
     (let (r, ss) = claim_loop now 0 (esp_shards p) in (r, p\<lparr>esp_shards := ss\<rparr>))"

definition emergency_release :: "nat \<Rightarrow> emergency_shard_pool \<Rightarrow> emergency_shard_pool" where
  "emergency_release i p =
     (if i < length (esp_shards p)
      then p\<lparr>esp_shards := (esp_shards p)[i := shard_release (esp_shards p ! i)]\<rparr>
      else p)"

definition emergency_available_count :: "emergency_shard_pool \<Rightarrow> nat" where
  "emergency_available_count p = length (filter shard_is_available (esp_shards p))"

definition emergency_total_count :: "emergency_shard_pool \<Rightarrow> nat" where
  "emergency_total_count p = length (esp_shards p)"

text \<open>The abstraction: the indices of the free shards.\<close>

definition free_slots :: "emergency_shard_pool \<Rightarrow> nat set" where
  "free_slots p = {i. i < length (esp_shards p) \<and> shard_is_available (esp_shards p ! i)}"

section \<open>Lemmas\<close>

lemma shard_claim_available:
  "shard_is_available s \<Longrightarrow> \<exists>s'. shard_claim now s = (Inr (), s') \<and> \<not> shard_is_available s'"
  by (simp add: shard_claim_def shard_is_available_def)

text \<open>The loop: it fails when nothing is free, and otherwise splits the vector at the first free
  shard, which is the only one it changes.\<close>

lemma claim_loop_none:
  "\<forall>s \<in> set ss. \<not> shard_is_available s \<Longrightarrow>
     claim_loop now i ss = (Inl (Hardware ''No emergency shards available''), ss)"
  by (induction ss arbitrary: i) auto

lemma claim_loop_split:
  assumes "\<forall>s \<in> set xs. \<not> shard_is_available s" and "shard_is_available s"
  shows "\<exists>s'. claim_loop now i (xs @ s # ss) = (Inr (i + length xs), xs @ s' # ss) \<and>
    \<not> shard_is_available s'"
  using assms(1)
proof (induction xs arbitrary: i)
  case Nil
  with shard_claim_available [OF assms(2), of now] assms(2) show ?case by auto
next
  case (Cons x xs)
  then obtain s' where "claim_loop now (Suc i) (xs @ s # ss) = (Inr (Suc i + length xs), xs @ s' # ss)"
    "\<not> shard_is_available s'" by fastforce
  with Cons.prems show ?case by auto
qed

lemma finite_free_slots [simp]: "finite (free_slots p)"
  by (rule finite_subset [of _ "{..<length (esp_shards p)}"]) (auto simp: free_slots_def)

lemma card_free_slots: "card (free_slots p) = emergency_available_count p"
  unfolding free_slots_def emergency_available_count_def by (simp add: length_filter_conv_card)

lemma free_slots_empty_iff: "free_slots p = {} \<longleftrightarrow> (\<forall>s \<in> set (esp_shards p). \<not> shard_is_available s)"
  by (auto simp: free_slots_def all_set_conv_all_nth)

lemma free_slots_split:
  assumes "esp_shards p = xs @ s # ss" and "\<forall>x \<in> set xs. \<not> shard_is_available x"
    and "shard_is_available s"
  shows "length xs \<in> free_slots p" and "i \<in> free_slots p \<Longrightarrow> length xs \<le> i"
proof -
  show "length xs \<in> free_slots p" using assms by (simp add: free_slots_def)
  show "length xs \<le> i" if "i \<in> free_slots p"
  proof (rule ccontr)
    assume "\<not> length xs \<le> i"
    then have "i < length xs" by simp
    with that assms show False by (auto simp: free_slots_def nth_append)
  qed
qed

lemma free_slots_replace:
  assumes "esp_shards p = xs @ s # ss" and "\<not> shard_is_available s'"
  shows "free_slots (p\<lparr>esp_shards := xs @ s' # ss\<rparr>) = free_slots p - {length xs}"
  using assms by (auto simp: free_slots_def nth_append nth_Cons split: if_splits nat.splits)

text \<open>One claim, in terms of the free slots.\<close>

lemma claim_free_slots:
  "emergency_claim now p =
     (if free_slots p = {} then (Inl (Hardware ''No emergency shards available''), p)
      else (Inr (Min (free_slots p)), snd (emergency_claim now p)))
   \<and> free_slots (snd (emergency_claim now p)) = free_slots p - {Min (free_slots p)}"
proof (cases "free_slots p = {}")
  case True
  then have "claim_loop now 0 (esp_shards p) =
      (Inl (Hardware ''No emergency shards available''), esp_shards p)"
    by (simp add: claim_loop_none free_slots_empty_iff)
  with True show ?thesis by (simp add: emergency_claim_def)
next
  case False
  then have "\<exists>s \<in> set (esp_shards p). shard_is_available s" by (simp add: free_slots_empty_iff)
  then obtain xs s ss where sp: "esp_shards p = xs @ s # ss" "shard_is_available s"
    "\<forall>x \<in> set xs. \<not> shard_is_available x" by (metis split_list_first_prop)
  from claim_loop_split [OF sp(3,2), of now 0 ss] obtain s' where
    s': "claim_loop now 0 (esp_shards p) = (Inr (length xs), xs @ s' # ss)" "\<not> shard_is_available s'"
    using sp(1) by auto
  have min: "Min (free_slots p) = length xs"
    using free_slots_split [OF sp(1,3,2)] by (intro Min_eqI) auto
  with s' False free_slots_replace [OF sp(1) s'(2)] show ?thesis by (simp add: emergency_claim_def)
qed

section \<open>Properties\<close>

text \<open>The pool implements a set of free slots. Claiming takes the smallest free index and
  removes exactly that slot from the free set; it fails, changing nothing, exactly when no slot is
  free. A slot that is in use is never handed out.\<close>

theorem emergency_claim_refines:
  "emergency_claim now p =
     (if free_slots p = {} then (Inl (Hardware ''No emergency shards available''), p)
      else (Inr (Min (free_slots p)), snd (emergency_claim now p)))
   \<and> free_slots (snd (emergency_claim now p)) = free_slots p - {Min (free_slots p)}"
  by (rule claim_free_slots)

text \<open>A released slot is free again, its arena is empty, and no other slot changes; an index
  out of range is ignored.\<close>

theorem emergency_release_frees:
  "free_slots (emergency_release i p) =
     (if i < emergency_total_count p then insert i (free_slots p) else free_slots p)
   \<and> (i < emergency_total_count p \<longrightarrow> es_arena (esp_shards (emergency_release i p) ! i) = [])
   \<and> (\<forall>j. j \<noteq> i \<longrightarrow> esp_shards (emergency_release i p) ! j = esp_shards p ! j)"
  by (auto simp: emergency_release_def free_slots_def emergency_total_count_def shard_release_def
      shard_is_available_def nth_list_update)

theorem emergency_release_frees_witness:
  "free_slots (emergency_release 0 (snd (emergency_claim 7 (emergency_pool_new 2 64)))) =
     insert 0 (free_slots (snd (emergency_claim 7 (emergency_pool_new 2 64))))"
  using emergency_release_frees [of 0 "snd (emergency_claim 7 (emergency_pool_new 2 64))"]
  by (simp add: emergency_claim_def emergency_pool_new_def emergency_total_count_def
      case_prod_beta eval_nat_numeral upt_rec emergency_shard_new_def shard_is_available_def
      shard_claim_def Let_def)

text \<open>A new pool serves exactly as many claims as it has shards: after any \<open>k\<close> claims of a
  pool of \<open>n\<close> shards, \<open>n - k\<close> shards are available.\<close>

theorem emergency_pool_capacity:
  "emergency_available_count (((\<lambda>p. snd (emergency_claim now p)) ^^ k) (emergency_pool_new n sz)) = n - k"
proof (induction k)
  case 0
  show ?case
    by (simp add: emergency_available_count_def emergency_pool_new_def emergency_shard_new_def
        shard_is_available_def comp_def)
next
  case (Suc k)
  let ?p = "((\<lambda>p. snd (emergency_claim now p)) ^^ k) (emergency_pool_new n sz)"
  have free: "free_slots (snd (emergency_claim now ?p)) = free_slots ?p - {Min (free_slots ?p)}"
    using claim_free_slots by blast
  show ?case using Suc.IH free by (cases "free_slots ?p = {}")
    (auto simp: card_Diff_singleton_if simp flip: card_free_slots)
qed

end
