(* ===== verification/Tenant_Shard.thy ===== *)
theory Tenant_Shard
  imports Core_Types
begin

text \<open>
  The tenant shards of \<open>hardware/src/tenant.rs\<close>: page protection, the AES-256-GCM context of a
  tenant, the shard, and the manager that keeps one shard per tenant.

  The AES-GCM library is a parameter: \<open>enc key nonce plaintext\<close> and \<open>dec key nonce ciphertext\<close>
  return the output or the text of the library's error. The random bytes drawn from the operating
  system (key, nonce) are arguments. \<open>aead_correct\<close> is what the library documents: decryption
  under the same key and nonce inverts encryption.
\<close>

section \<open>Definitions\<close>

datatype page_protection = NoAccess | ReadOnly | ReadWrite | ReadExecute

record protected_memory_region =
  pmr_base_address :: u64
  pmr_size :: u64
  pmr_protection :: page_protection

definition memory_region_new :: "u64 \<Rightarrow> u64 \<Rightarrow> page_protection \<Rightarrow> protected_memory_region" where
  "memory_region_new b n prot = \<lparr>pmr_base_address = b, pmr_size = n, pmr_protection = prot\<rparr>"

definition apply_protection :: "protected_memory_region \<Rightarrow> unit result" where
  "apply_protection r = Inr ()"

record tenant_crypto =
  tc_key_id :: string
  tc_key_rotation :: datetime
  tc_key_bytes :: bytes

definition tenant_crypto_new :: "datetime \<Rightarrow> bytes \<Rightarrow> string \<Rightarrow> tenant_crypto" where
  "tenant_crypto_new now random_key key_id =
     \<lparr>tc_key_id = key_id, tc_key_rotation = now, tc_key_bytes = random_key\<rparr>"

definition key_not_initialized :: ground_station_error where
  "key_not_initialized =
     Hardware ''Tenant crypto key not initialized (key_bytes empty after deserialization)''"

definition tenant_encrypt :: "aead \<Rightarrow> bytes \<Rightarrow> bytes \<Rightarrow> tenant_crypto \<Rightarrow> bytes result" where
  "tenant_encrypt enc nonce data tc =
     (if length (tc_key_bytes tc) \<noteq> 32 then Inl key_not_initialized
      else
        (case enc (tc_key_bytes tc) nonce data of
           Inl e \<Rightarrow> Inl (Hardware (''AES-GCM encrypt failed: '' @ e))
         | Inr ciphertext \<Rightarrow> Inr (nonce @ ciphertext)))"

definition tenant_decrypt :: "aead \<Rightarrow> bytes \<Rightarrow> tenant_crypto \<Rightarrow> bytes result" where
  "tenant_decrypt dec data tc =
     (if length (tc_key_bytes tc) \<noteq> 32 then Inl key_not_initialized
      else if length data < 12
        then Inl (Hardware ''Ciphertext too short to contain a 12-byte nonce'')
      else
        (case dec (tc_key_bytes tc) (take 12 data) (drop 12 data) of
           Inl e \<Rightarrow> Inl (Hardware (''AES-GCM decrypt failed: '' @ e))
         | Inr plaintext \<Rightarrow> Inr plaintext))"

text \<open>Serialization skips the key bytes and restores the default, an empty vector.\<close>

definition tenant_crypto_serde :: "tenant_crypto \<Rightarrow> tenant_crypto" where
  "tenant_crypto_serde tc = tc\<lparr>tc_key_bytes := []\<rparr>"

record 'a tenant_shard =
  tsh_tenant_id :: customer_id
  tsh_arena :: "'a list"
  tsh_memory_region :: protected_memory_region
  tsh_page_permissions :: page_protection
  tsh_crypto :: tenant_crypto
  tsh_created_at :: datetime

definition tenant_shard_new ::
  "datetime \<Rightarrow> customer_id \<Rightarrow> u64 \<Rightarrow> page_protection \<Rightarrow> tenant_crypto \<Rightarrow> 'a tenant_shard" where
  "tenant_shard_new now t arena_size prot crypto =
     \<lparr>tsh_tenant_id = t, tsh_arena = [],
      tsh_memory_region = memory_region_new 0 arena_size prot,
      tsh_page_permissions = prot, tsh_crypto = crypto, tsh_created_at = now\<rparr>"

definition allocate_tenant :: "'a \<Rightarrow> 'a tenant_shard \<Rightarrow> 'a tenant_shard" where
  "allocate_tenant v s = s\<lparr>tsh_arena := tsh_arena s @ [v]\<rparr>"

definition tenant_shard_reset :: "'a tenant_shard \<Rightarrow> 'a tenant_shard" where
  "tenant_shard_reset s = s\<lparr>tsh_arena := []\<rparr>"

record 'a tenant_shard_manager =
  tsm_shards :: "customer_id \<rightharpoonup> 'a tenant_shard"
  tsm_default_shard_size :: u64

definition tenant_manager_new :: "u64 \<Rightarrow> 'a tenant_shard_manager" where
  "tenant_manager_new n = \<lparr>tsm_shards = Map.empty, tsm_default_shard_size = n\<rparr>"

text \<open>\<open>t1\<close> and \<open>t2\<close> are the clock readings of the crypto context and of the shard.\<close>

definition tenant_get_or_create ::
  "datetime \<Rightarrow> datetime \<Rightarrow> bytes \<Rightarrow> customer_id \<Rightarrow> 'a tenant_shard_manager \<Rightarrow>
   'a tenant_shard option \<times> 'a tenant_shard_manager" where
  "tenant_get_or_create t1 t2 random_key t m =
     (let m1 =
        (if tsm_shards m t = None then
           (let crypto = tenant_crypto_new t1 random_key (''key-'' @ customer_id_str t);
                shard = tenant_shard_new t2 t (tsm_default_shard_size m) ReadWrite crypto
            in m\<lparr>tsm_shards := (tsm_shards m)(t \<mapsto> shard)\<rparr>)
         else m)
      in (tsm_shards m1 t, m1))"

definition tenant_get :: "customer_id \<Rightarrow> 'a tenant_shard_manager \<Rightarrow> 'a tenant_shard option" where
  "tenant_get t m = tsm_shards m t"

definition tenant_remove ::
  "customer_id \<Rightarrow> 'a tenant_shard_manager \<Rightarrow> 'a tenant_shard option \<times> 'a tenant_shard_manager" where
  "tenant_remove t m = (tsm_shards m t, m\<lparr>tsm_shards := (tsm_shards m)(t := None)\<rparr>)"

text \<open>The manager as a state machine; every key drawn has 32 bytes.\<close>

inductive tenant_step :: "'a tenant_shard_manager \<Rightarrow> 'a tenant_shard_manager \<Rightarrow> bool" where
  tenant_step_create: "length key = 32 \<Longrightarrow>
     tenant_step m (snd (tenant_get_or_create t1 t2 key t m))"
| tenant_step_remove: "tenant_step m (snd (tenant_remove t m))"

definition tenant_inv :: "'a tenant_shard_manager \<Rightarrow> bool" where
  "tenant_inv m \<longleftrightarrow>
     keyed tsh_tenant_id (tsm_shards m) \<and>
     (\<forall>t s. tsm_shards m t = Some s \<longrightarrow>
        length (tc_key_bytes (tsh_crypto s)) = 32 \<and>
        tc_key_id (tsh_crypto s) = ''key-'' @ customer_id_str t \<and>
        pmr_protection (tsh_memory_region s) = ReadWrite)"

section \<open>Lemmas\<close>

lemma tenant_inv_new: "tenant_inv (tenant_manager_new n)"
  by (simp add: tenant_inv_def tenant_manager_new_def)

lemma tenant_inv_step:
  assumes "tenant_inv m" and "tenant_step m m'"
  shows "tenant_inv m'"
  using assms(2)
proof (cases rule: tenant_step.cases)
  case (tenant_step_create key t1 t2 t)
  with assms(1) show ?thesis
    by (auto simp: tenant_inv_def tenant_get_or_create_def Let_def keyed_def
        tenant_shard_new_def tenant_crypto_new_def memory_region_new_def split: if_splits)
next
  case (tenant_step_remove t)
  with assms(1) show ?thesis by (auto simp: tenant_inv_def tenant_remove_def keyed_def)
qed

interpretation tenants: invariant_system "\<lambda>m. \<exists>n. m = tenant_manager_new n" tenant_step tenant_inv
  by unfold_locales (blast intro: tenant_inv_new tenant_inv_step)+

text \<open>A library that satisfies the contract: a keyed byte-wise addition.\<close>

definition toy_enc :: aead where
  "toy_enc k n p = Inr (map (\<lambda>b. b + sum_list k + sum_list n) p)"

definition toy_dec :: aead where
  "toy_dec k n c = Inr (map (\<lambda>b. b - sum_list k - sum_list n) c)"

lemma toy_aead_correct: "aead_correct toy_enc toy_dec"
  by (auto simp: aead_correct_def toy_enc_def toy_dec_def comp_def)

section \<open>Properties\<close>

text \<open>C13: tenant data can be read back. In every reachable state of the manager, for the shard of
  any tenant and a 12-byte nonce, whatever \<open>encrypt\<close> produces is decrypted to the original data
  by the same shard.\<close>

theorem tenant_encrypt_roundtrip:
  assumes "reach (\<lambda>m. \<exists>n. m = tenant_manager_new n) tenant_step m"
    and "tenant_get t m = Some s" and "aead_correct enc dec" and "length nonce = 12"
    and "tenant_encrypt enc nonce data (tsh_crypto s) = Inr c"
  shows "tenant_decrypt dec c (tsh_crypto s) = Inr data"
proof -
  have "length (tc_key_bytes (tsh_crypto s)) = 32"
    using tenants.reach_inv [OF assms(1)] assms(2) by (auto simp: tenant_inv_def tenant_get_def)
  with assms(3-5) show ?thesis
    by (auto simp: tenant_encrypt_def tenant_decrypt_def aead_correct_def split: sum.splits)
qed

definition example_tenants :: "nat tenant_shard_manager" where
  "example_tenants =
     snd (tenant_get_or_create 1 2 (replicate 32 7) (CustomerId ''acme'') (tenant_manager_new 4096))"

lemma example_tenants_reach:
  "reach (\<lambda>m. \<exists>n. m = tenant_manager_new n) tenant_step example_tenants"
  unfolding example_tenants_def
  by (rule reach_step [OF reach_init], blast) (rule tenant_step_create, simp)

theorem tenant_encrypt_roundtrip_witness:
  "\<exists>s c. tenant_get (CustomerId ''acme'') example_tenants = Some s \<and>
     tenant_encrypt toy_enc (replicate 12 1) [1, 2, 3] (tsh_crypto s) = Inr c \<and>
     tenant_decrypt toy_dec c (tsh_crypto s) = Inr [1, 2, 3]"
proof -
  obtain s where s: "tenant_get (CustomerId ''acme'') example_tenants = Some s"
    "length (tc_key_bytes (tsh_crypto s)) = 32"
    by (simp add: example_tenants_def tenant_get_def tenant_get_or_create_def tenant_manager_new_def
        tenant_shard_new_def tenant_crypto_new_def Let_def)
  then obtain c where c: "tenant_encrypt toy_enc (replicate 12 1) [1, 2, 3] (tsh_crypto s) = Inr c"
    by (simp add: tenant_encrypt_def toy_enc_def)
  from tenant_encrypt_roundtrip [OF example_tenants_reach s(1) toy_aead_correct _ c] s c
  show ?thesis by auto
qed

text \<open>A context that went through serialization refuses to encrypt and to decrypt: the key is
  never written out, and an absent key is an error, not an empty key.\<close>

theorem tenant_serde_refuses:
  "tenant_encrypt enc nonce data (tenant_crypto_serde tc) = Inl key_not_initialized \<and>
   tenant_decrypt dec c (tenant_crypto_serde tc) = Inl key_not_initialized"
  by (simp add: tenant_encrypt_def tenant_decrypt_def tenant_crypto_serde_def)

text \<open>\<open>get_or_create\<close> always returns a shard of the tenant that asked, never replaces the
  shard or the key a tenant already has, and leaves the other tenants alone.\<close>

theorem tenant_get_or_create_spec:
  assumes "reach (\<lambda>m. \<exists>n. m = tenant_manager_new n) tenant_step m"
    and "tenant_get_or_create t1 t2 key t m = (r, m')"
  shows "\<exists>s. r = Some s \<and> tsh_tenant_id s = t \<and> tenant_get t m' = Some s \<and>
    (\<forall>s0. tenant_get t m = Some s0 \<longrightarrow> s = s0) \<and> (\<forall>u. u \<noteq> t \<longrightarrow> tenant_get u m' = tenant_get u m)"
proof -
  have key: "keyed tsh_tenant_id (tsm_shards m)"
    using tenants.reach_inv [OF assms(1)] by (simp add: tenant_inv_def)
  show ?thesis
  proof (cases "tsm_shards m t")
    case None
    with assms(2) show ?thesis
      by (auto simp: tenant_get_or_create_def Let_def tenant_get_def tenant_shard_new_def)
  next
    case (Some s)
    with assms(2) have "r = Some s" "m' = m"
      by (auto simp: tenant_get_or_create_def Let_def)
    with Some keyedD [OF key Some] show ?thesis by (simp add: tenant_get_def)
  qed
qed

theorem tenant_get_or_create_spec_witness:
  "\<exists>s. fst (tenant_get_or_create 5 6 (replicate 32 9) (CustomerId ''acme'') example_tenants) = Some s \<and>
     tsh_tenant_id s = CustomerId ''acme'' \<and> tenant_get (CustomerId ''acme'') example_tenants = Some s"
  using tenant_get_or_create_spec [OF example_tenants_reach, of 5 6 "replicate 32 9" "CustomerId ''acme''"]
  by (fastforce simp: example_tenants_def tenant_get_def tenant_get_or_create_def tenant_manager_new_def
      tenant_shard_new_def Let_def)

end
