(* ===== verification/Uplink_Command.thy ===== *)
theory Uplink_Command
  imports Core_Types "HOL-Library.List_Lexorder" "HOL-Library.Product_Lexorder"
    "HOL-Library.Option_ord" "HOL-Library.Char_ord"
begin

text \<open>
  Commands of the uplink (\<open>uplink/src/command.rs\<close>): the data, validation, execution time, and the
  derived order. The order that Rust derives for a struct compares the fields in their order of
  declaration; it is the lexicographic order of the tuple of the fields (\<open>command_key\<close>). For the
  priority, which has explicit discriminants, it is the order of the discriminants.
\<close>

section \<open>Definitions\<close>

datatype command_priority = Emergency | High | Normal | Low

fun discriminant :: "command_priority \<Rightarrow> nat" where
  "discriminant Emergency = 3"
| "discriminant High = 2"
| "discriminant Normal = 1"
| "discriminant Low = 0"

instantiation command_priority :: linorder
begin

definition less_eq_command_priority :: "command_priority \<Rightarrow> command_priority \<Rightarrow> bool" where
  "less_eq_command_priority a b = (discriminant a \<le> discriminant b)"

definition less_command_priority :: "command_priority \<Rightarrow> command_priority \<Rightarrow> bool" where
  "less_command_priority a b = (discriminant a < discriminant b)"

instance
proof
  fix x y z :: command_priority
  show "(x < y) = (x \<le> y \<and> \<not> y \<le> x)"
    by (auto simp: less_eq_command_priority_def less_command_priority_def)
  show "x \<le> x" by (simp add: less_eq_command_priority_def)
  show "x \<le> y \<Longrightarrow> y \<le> z \<Longrightarrow> x \<le> z" by (simp add: less_eq_command_priority_def)
  show "x \<le> y \<Longrightarrow> y \<le> x \<Longrightarrow> x = y"
    by (cases x; cases y) (simp_all add: less_eq_command_priority_def)
  show "x \<le> y \<or> y \<le> x" by (auto simp: less_eq_command_priority_def)
qed

end

datatype command_type = Immediate | TimeTagged datetime | Conditional string

datatype command_state =
    Queued | Scheduled | Transmitting | AwaitingAck | Acknowledged | Failed | Timeout | Cancelled

record command =
  cmd_id :: uuid
  cmd_satellite_id :: satellite_id
  cmd_payload :: bytes
  cmd_type :: command_type
  cmd_priority :: command_priority
  cmd_auth_token :: bytes
  cmd_created_at :: datetime
  cmd_version :: u32
  cmd_required_capabilities :: "string list"

definition command_new ::
  "uuid \<Rightarrow> datetime \<Rightarrow> satellite_id \<Rightarrow> bytes \<Rightarrow> command_type \<Rightarrow> command_priority \<Rightarrow> bytes \<Rightarrow> command"
where
  "command_new fresh now sat payload ty prio token =
     \<lparr>cmd_id = fresh, cmd_satellite_id = sat, cmd_payload = payload, cmd_type = ty,
      cmd_priority = prio, cmd_auth_token = token, cmd_created_at = now, cmd_version = 1,
      cmd_required_capabilities = []\<rparr>"

text \<open>The loop over the required capabilities stops at the first the satellite lacks.\<close>

fun check_capabilities :: "string list \<Rightarrow> string list \<Rightarrow> unit result" where
  "check_capabilities caps [] = Inr ()"
| "check_capabilities caps (r # rs) =
     (if r \<notin> set caps
      then Inl (Validation (''Satellite lacks required capability: '' @ r))
      else check_capabilities caps rs)"

definition validate :: "string list \<Rightarrow> command \<Rightarrow> unit result" where
  "validate caps c =
     (case check_capabilities caps (cmd_required_capabilities c) of
        Inl e \<Rightarrow> Inl e
      | Inr _ \<Rightarrow>
          (if cmd_payload c = [] then Inl (Validation ''Command payload cannot be empty'')
           else if 65536 < length (cmd_payload c)
             then Inl (Validation ''Command payload too large (max 64KB)'')
           else if cmd_auth_token c = []
             then Inl (Validation ''Command requires authentication token'')
           else Inr ()))"

definition execution_time :: "command \<Rightarrow> datetime option" where
  "execution_time c = (case cmd_type c of TimeTagged t \<Rightarrow> Some t | _ \<Rightarrow> None)"

definition should_execute :: "datetime \<Rightarrow> command \<Rightarrow> bool" where
  "should_execute now c =
     (case cmd_type c of Immediate \<Rightarrow> True | TimeTagged t \<Rightarrow> t \<le> now | Conditional _ \<Rightarrow> False)"

record validation_result =
  is_valid :: bool
  vr_errors :: "string list"
  vr_warnings :: "string list"

definition validation_result_new :: validation_result where
  "validation_result_new = \<lparr>is_valid = True, vr_errors = [], vr_warnings = []\<rparr>"

definition add_error :: "string \<Rightarrow> validation_result \<Rightarrow> validation_result" where
  "add_error e r = r\<lparr>vr_errors := vr_errors r @ [e], is_valid := False\<rparr>"

definition add_warning :: "string \<Rightarrow> validation_result \<Rightarrow> validation_result" where
  "add_warning w r = r\<lparr>vr_warnings := vr_warnings r @ [w]\<rparr>"

subsection \<open>The derived order\<close>

text \<open>Variants in order of declaration, then the payload of the variant.\<close>

fun command_type_key :: "command_type \<Rightarrow> nat \<times> int \<times> string" where
  "command_type_key Immediate = (0, 0, [])"
| "command_type_key (TimeTagged t) = (1, t, [])"
| "command_type_key (Conditional s) = (2, 0, s)"

fun command_state_key :: "command_state \<Rightarrow> nat" where
  "command_state_key Queued = 0"
| "command_state_key Scheduled = 1"
| "command_state_key Transmitting = 2"
| "command_state_key AwaitingAck = 3"
| "command_state_key Acknowledged = 4"
| "command_state_key Failed = 5"
| "command_state_key Timeout = 6"
| "command_state_key Cancelled = 7"

type_synonym command_key =
  "uuid \<times> string \<times> bytes \<times> (nat \<times> int \<times> string) \<times> command_priority \<times> bytes \<times> int \<times> u32 \<times> string list"

definition command_key :: "command \<Rightarrow> command_key" where
  "command_key c =
     (cmd_id c, satellite_id_str (cmd_satellite_id c), cmd_payload c, command_type_key (cmd_type c),
      cmd_priority c, cmd_auth_token c, cmd_created_at c, cmd_version c, cmd_required_capabilities c)"

section \<open>Lemmas\<close>

lemma check_capabilities_ok: "check_capabilities caps rs = Inr () \<longleftrightarrow> set rs \<subseteq> set caps"
  by (induction rs) auto

text \<open>The error names the first missing capability.\<close>

lemma check_capabilities_err:
  "set xs \<subseteq> set caps \<Longrightarrow> r \<notin> set caps \<Longrightarrow>
     check_capabilities caps (xs @ r # ys) =
       Inl (Validation (''Satellite lacks required capability: '' @ r))"
  by (induction xs) auto

lemma command_type_key_inj: "command_type_key a = command_type_key b \<Longrightarrow> a = b"
  by (cases a; cases b) auto

lemma command_key_inj: "command_key a = command_key b \<Longrightarrow> a = b"
  by (cases a; cases b) (auto simp: command_key_def satellite_id.expand dest: command_type_key_inj)

section \<open>Properties\<close>

text \<open>Which commands validate. A command passes validation exactly when the satellite has
  every required capability, the payload is not empty and at most 64 KiB long, and there is an
  authentication token.\<close>

theorem validate_ok_iff:
  "validate caps c = Inr () \<longleftrightarrow>
     set (cmd_required_capabilities c) \<subseteq> set caps \<and>
     0 < length (cmd_payload c) \<and> length (cmd_payload c) \<le> 65536 \<and> cmd_auth_token c \<noteq> []"
  using check_capabilities_ok [of caps "cmd_required_capabilities c"]
  by (auto simp: validate_def split: sum.splits)

text \<open>The first violation decides the error. A missing capability is reported before anything
  else, and it is the first of the list that is missing.\<close>

theorem validate_missing_capability:
  assumes "cmd_required_capabilities c = xs @ r # ys" and "set xs \<subseteq> set caps" and "r \<notin> set caps"
  shows "validate caps c = Inl (Validation (''Satellite lacks required capability: '' @ r))"
  unfolding validate_def assms(1) check_capabilities_err [OF assms(2,3)] by simp

definition example_command :: command where
  "example_command = (command_new 5 100 (SatelliteId ''SAT-1'') [1, 2, 3] Immediate Normal [9])
     \<lparr>cmd_required_capabilities := [''uplink'', ''thrust'', ''laser'']\<rparr>"

theorem validate_missing_capability_witness:
  "validate [''uplink''] example_command =
     Inl (Validation ''Satellite lacks required capability: thrust'')"
  using validate_missing_capability [of example_command "[''uplink'']" "''thrust''" "[''laser'']" "[''uplink'']"]
  by (simp add: example_command_def command_new_def)

end
