(* ===== verification/Uplink_Queue.thy ===== *)
theory Uplink_Queue
  imports Uplink_Command
begin

text \<open>
  The command queue of \<open>uplink/src/queue.rs\<close>.

  The priority queue is the crate \<open>priority_queue\<close>, a parameter: \<open>pq_ops\<close> holds its operations and
  \<open>pq_laws\<close> what its documentation promises (\<open>push\<close> inserts an item or changes its priority, \<open>pop\<close>
  removes an item of greatest priority). Priorities are \<open>QueuedCommand\<close> values, compared by the
  derived order (\<open>queued_key\<close>).

  \<open>dequeue\<close> is modelled with the guards it holds: it takes a read guard on \<open>commands\<close> that lives to
  the end of the call, and later asks for a write guard on the same lock. Its loop may run for
  ever; a call that does not return is \<open>None\<close>, a call that waits for its own guard is \<open>Deadlock\<close>.
\<close>

section \<open>Definitions\<close>

record queued_command =
  qc_command :: command
  qc_state :: command_state
  qc_queued_at :: datetime
  qc_scheduled_at :: "datetime option"
  qc_retry_count :: u32
  qc_max_retries :: u32

definition queued_command_new :: "datetime \<Rightarrow> command \<Rightarrow> queued_command" where
  "queued_command_new now c =
     \<lparr>qc_command = c, qc_state = Queued, qc_queued_at = now, qc_scheduled_at = None,
      qc_retry_count = 0, qc_max_retries = 3\<rparr>"

definition queued_key ::
  "queued_command \<Rightarrow> command_key \<times> nat \<times> int \<times> int option \<times> u32 \<times> u32" where
  "queued_key q =
     (command_key (qc_command q), command_state_key (qc_state q), qc_queued_at q,
      qc_scheduled_at q, qc_retry_count q, qc_max_retries q)"

record 'q pq_ops =
  pq_new :: 'q
  pq_push :: "uuid \<Rightarrow> queued_command \<Rightarrow> 'q \<Rightarrow> 'q"
  pq_pop :: "'q \<Rightarrow> ((uuid \<times> queued_command) \<times> 'q) option"
  pq_items :: "'q \<Rightarrow> (uuid \<rightharpoonup> queued_command)"

definition pq_laws :: "'q pq_ops \<Rightarrow> bool" where
  "pq_laws ops \<longleftrightarrow>
     pq_items ops (pq_new ops) = Map.empty \<and>
     (\<forall>i p q. pq_items ops (pq_push ops i p q) = (pq_items ops q)(i \<mapsto> p)) \<and>
     (\<forall>q. pq_pop ops q = None \<longleftrightarrow> pq_items ops q = Map.empty) \<and>
     (\<forall>q i p q'. pq_pop ops q = Some ((i, p), q') \<longrightarrow>
        pq_items ops q i = Some p \<and> pq_items ops q' = (pq_items ops q)(i := None) \<and>
        (\<forall>j r. pq_items ops q j = Some r \<longrightarrow> queued_key r \<le> queued_key p))"

record 'q command_queue =
  cq_queue :: 'q
  cq_commands :: "uuid \<rightharpoonup> queued_command"
  cq_dependencies :: "uuid \<rightharpoonup> uuid list"

definition command_queue_new :: "'q pq_ops \<Rightarrow> 'q command_queue" where
  "command_queue_new ops =
     \<lparr>cq_queue = pq_new ops, cq_commands = Map.empty, cq_dependencies = Map.empty\<rparr>"

definition enqueue :: "'q pq_ops \<Rightarrow> datetime \<Rightarrow> command \<Rightarrow> 'q command_queue \<Rightarrow>
    uuid result \<times> 'q command_queue" where
  "enqueue ops now c s =
     (let queued = queued_command_new now c
      in (Inr (cmd_id c), s\<lparr>cq_queue := pq_push ops (cmd_id c) queued (cq_queue s),
                           cq_commands := (cq_commands s)(cmd_id c \<mapsto> queued)\<rparr>))"

definition enqueue_with_dependencies :: "'q pq_ops \<Rightarrow> datetime \<Rightarrow> command \<Rightarrow> uuid list \<Rightarrow>
    'q command_queue \<Rightarrow> uuid result \<times> 'q command_queue" where
  "enqueue_with_dependencies ops now c depends_on s =
     (let queued = queued_command_new now c
      in (Inr (cmd_id c), s\<lparr>cq_queue := pq_push ops (cmd_id c) queued (cq_queue s),
                           cq_commands := (cq_commands s)(cmd_id c \<mapsto> queued),
                           cq_dependencies := (cq_dependencies s)(cmd_id c \<mapsto> depends_on)\<rparr>))"

definition deps_satisfied :: "'q command_queue \<Rightarrow> uuid \<Rightarrow> bool" where
  "deps_satisfied s i =
     (case cq_dependencies s i of
        None \<Rightarrow> True
      | Some deps \<Rightarrow>
          list_all (\<lambda>d. case cq_commands s d of
                          None \<Rightarrow> False | Some c \<Rightarrow> qc_state c = Acknowledged) deps)"

text \<open>\<open>lk\<close> is the lock of \<open>commands\<close> as the call holds it while the loop runs.\<close>

partial_function (option) dequeue_loop ::
  "'q pq_ops \<Rightarrow> rwlock \<Rightarrow> 'q command_queue \<Rightarrow> (command option \<times> 'q command_queue) outcome option"
where
  "dequeue_loop ops lk s =
     (case pq_pop ops (cq_queue s) of
        None \<Rightarrow> Some (Returns (None, s))
      | Some (ip, q') \<Rightarrow>
          (if \<not> deps_satisfied s (fst ip)
           then dequeue_loop ops lk (s\<lparr>cq_queue := pq_push ops (fst ip) (snd ip) q'\<rparr>)
           else
             (case acquire_write lk of
                Deadlock \<Rightarrow> Some Deadlock
              | Returns lk' \<Rightarrow>
                  (case cq_commands s (fst ip) of
                     Some cmd \<Rightarrow>
                       Some (Returns (Some (qc_command cmd),
                         s\<lparr>cq_queue := q',
                           cq_commands := (cq_commands s)(fst ip \<mapsto> cmd\<lparr>qc_state := Scheduled\<rparr>)\<rparr>))
                   | None \<Rightarrow> dequeue_loop ops lk (s\<lparr>cq_queue := q'\<rparr>)))))"

definition dequeue ::
  "'q pq_ops \<Rightarrow> 'q command_queue \<Rightarrow> (command option \<times> 'q command_queue) outcome option" where
  "dequeue ops s =
     (case acquire_read unlocked of
        Deadlock \<Rightarrow> Some Deadlock
      | Returns lk \<Rightarrow> dequeue_loop ops lk s)"

definition queue_get :: "uuid \<Rightarrow> 'q command_queue \<Rightarrow> queued_command option" where
  "queue_get i s = cq_commands s i"

definition command_not_found :: "uuid \<Rightarrow> ground_station_error" where
  "command_not_found i = NotFound (''Command '' @ show_uuid i)"

definition update_state ::
  "uuid \<Rightarrow> command_state \<Rightarrow> 'q command_queue \<Rightarrow> unit result \<times> 'q command_queue" where
  "update_state i st s =
     (case cq_commands s i of
        Some q \<Rightarrow> (Inr (), s\<lparr>cq_commands := (cq_commands s)(i \<mapsto> q\<lparr>qc_state := st\<rparr>)\<rparr>)
      | None \<Rightarrow> (Inl (command_not_found i), s))"

definition increment_retry :: "uuid \<Rightarrow> 'q command_queue \<Rightarrow> unit result \<times> 'q command_queue" where
  "increment_retry i s =
     (case cq_commands s i of
        Some q \<Rightarrow>
          (Inr (), s\<lparr>cq_commands := (cq_commands s)(i \<mapsto> q\<lparr>qc_retry_count := qc_retry_count q + 1\<rparr>)\<rparr>)
      | None \<Rightarrow> (Inl (command_not_found i), s))"

definition queue_cancel :: "uuid \<Rightarrow> 'q command_queue \<Rightarrow> unit result \<times> 'q command_queue" where
  "queue_cancel i s =
     (case cq_commands s i of
        Some q \<Rightarrow> (Inr (), s\<lparr>cq_commands := (cq_commands s)(i \<mapsto> q\<lparr>qc_state := Cancelled\<rparr>)\<rparr>)
      | None \<Rightarrow> (Inl (command_not_found i), s))"

record queue_stats_t =
  qs_total :: nat
  qs_queued :: nat
  qs_scheduled :: nat
  qs_transmitting :: nat
  qs_awaiting :: nat
  qs_acknowledged :: nat
  qs_failed :: nat
  qs_timeout :: nat

text \<open>\<open>ks\<close> is the iteration order of the map of commands.\<close>

definition queue_stats :: "uuid list \<Rightarrow> 'q command_queue \<Rightarrow> queue_stats_t" where
  "queue_stats ks s =
     (let vs = map_values (cq_commands s) ks;
          count = (\<lambda>st. length (filter (\<lambda>c. qc_state c = st) vs))
      in \<lparr>qs_total = length ks, qs_queued = count Queued, qs_scheduled = count Scheduled,
          qs_transmitting = count Transmitting, qs_awaiting = count AwaitingAck,
          qs_acknowledged = count Acknowledged, qs_failed = count Failed,
          qs_timeout = count Timeout\<rparr>)"

text \<open>The queue as a state machine: one rule per operation that changes it and returns.\<close>

inductive queue_step :: "'q pq_ops \<Rightarrow> 'q command_queue \<Rightarrow> 'q command_queue \<Rightarrow> bool"
  for ops :: "'q pq_ops" where
  q_enqueue: "queue_step ops s (snd (enqueue ops t c s))"
| q_enqueue_deps: "queue_step ops s (snd (enqueue_with_dependencies ops t c ds s))"
| q_dequeue: "dequeue ops s = Some (Returns (r, s')) \<Longrightarrow> queue_step ops s s'"
| q_update: "queue_step ops s (snd (update_state i st s))"
| q_retry: "queue_step ops s (snd (increment_retry i s))"
| q_cancel: "queue_step ops s (snd (queue_cancel i s))"

text \<open>Every item of the priority queue and every stored command is filed under the identifier of
  its command.\<close>

definition queue_inv :: "'q pq_ops \<Rightarrow> 'q command_queue \<Rightarrow> bool" where
  "queue_inv ops s \<longleftrightarrow>
     keyed (\<lambda>q. cmd_id (qc_command q)) (cq_commands s) \<and>
     keyed (\<lambda>q. cmd_id (qc_command q)) (pq_items ops (cq_queue s)) \<and>
     dom (pq_items ops (cq_queue s)) \<subseteq> dom (cq_commands s)"

section \<open>Lemmas\<close>

subsection \<open>The order of the queue\<close>

text \<open>Commands with different identifiers are compared by identifier alone.\<close>

lemma queued_key_less_iff:
  assumes "cmd_id (qc_command a) \<noteq> cmd_id (qc_command b)"
  shows "queued_key a < queued_key b \<longleftrightarrow> cmd_id (qc_command a) < cmd_id (qc_command b)"
  using assms by (auto simp: queued_key_def command_key_def less_prod_def)

lemma queued_key_eq_id: "queued_key a = queued_key b \<Longrightarrow> cmd_id (qc_command a) = cmd_id (qc_command b)"
  by (simp add: queued_key_def command_key_def)

lemma pq_pop_None: "pq_laws ops \<Longrightarrow> pq_pop ops q = None \<longleftrightarrow> pq_items ops q = Map.empty"
  by (simp add: pq_laws_def)

lemma pq_popD:
  assumes "pq_laws ops" and "pq_pop ops q = Some ((i, p), q')"
  shows "pq_items ops q i = Some p" and "pq_items ops q' = (pq_items ops q)(i := None)"
    and "pq_items ops q j = Some r \<Longrightarrow> queued_key r \<le> queued_key p"
  using assms unfolding pq_laws_def by blast+

lemma pq_items_push: "pq_laws ops \<Longrightarrow> pq_items ops (pq_push ops i p q) = (pq_items ops q)(i \<mapsto> p)"
  by (simp add: pq_laws_def)

abbreviation by_id :: "(uuid \<rightharpoonup> queued_command) \<Rightarrow> bool" where
  "by_id \<equiv> keyed (\<lambda>q. cmd_id (qc_command q))"

text \<open>The item popped is the one with the greatest identifier.\<close>

lemma pq_pop_greatest:
  assumes "pq_laws ops" and "by_id (pq_items ops q)" and "pq_pop ops q = Some ((i, p), q')"
    and "pq_items ops q j = Some r"
  shows "j \<le> i"
proof (rule ccontr)
  assume "\<not> j \<le> i"
  then have "i < j" by simp
  moreover have "cmd_id (qc_command p) = i" "cmd_id (qc_command r) = j"
    using assms(2,4) pq_popD(1) [OF assms(1,3)] by (auto dest: keyedD)
  ultimately have "queued_key p < queued_key r" by (simp add: queued_key_less_iff)
  with pq_popD(3) [OF assms(1,3,4)] show False by simp
qed

subsection \<open>The dequeue loop\<close>

definition held :: rwlock where
  "held = \<lparr>readers = 1, writer = False\<rparr>"

lemma dequeue_held: "dequeue ops s = dequeue_loop ops held s"
  by (simp add: dequeue_def acquire_read_def unlocked_def held_def)

lemma acquire_write_held [simp]: "acquire_write held = Deadlock"
  by (simp add: acquire_write_def held_def)

text \<open>The item at the front of the queue waits for a command that is not acknowledged.\<close>

definition blocked :: "'q pq_ops \<Rightarrow> 'q command_queue \<Rightarrow> bool" where
  "blocked ops s \<longleftrightarrow>
     (\<exists>i p q'. pq_pop ops (cq_queue s) = Some ((i, p), q') \<and> \<not> deps_satisfied s i)"

text \<open>Putting the item back restores the queue, so the next turn of the loop finds it again.\<close>

lemma blocked_again:
  assumes "pq_laws ops" and "by_id (pq_items ops (cq_queue s))"
    and "pq_pop ops (cq_queue s) = Some ((i, p), q')" and "\<not> deps_satisfied s i"
  defines "s' \<equiv> s\<lparr>cq_queue := pq_push ops i p q'\<rparr>"
  shows "by_id (pq_items ops (cq_queue s'))" and "blocked ops s'"
proof -
  have items: "pq_items ops (cq_queue s') = pq_items ops (cq_queue s)"
    using pq_popD(1,2) [OF assms(1,3)] pq_items_push [OF assms(1)] by (auto simp: s'_def)
  then show ids: "by_id (pq_items ops (cq_queue s'))" using assms(2) by simp
  have "pq_pop ops (cq_queue s') \<noteq> None"
    using pq_popD(1) [OF assms(1,3)] items by (auto simp: pq_pop_None [OF assms(1)] fun_eq_iff)
  then obtain j r q'' where pop: "pq_pop ops (cq_queue s') = Some ((j, r), q'')" by auto
  have "j \<le> i" using pq_pop_greatest [OF assms(1,2,3)] pq_popD(1) [OF assms(1) pop] items by auto
  moreover have "i \<le> j"
    using pq_pop_greatest [OF assms(1) ids pop] pq_popD(1) [OF assms(1,3)] items by auto
  ultimately have "j = i" by simp
  moreover have "deps_satisfied s' i = deps_satisfied s i" by (simp add: deps_satisfied_def s'_def cong: option.case_cong)
  ultimately show "blocked ops s'" using pop assms(4) by (auto simp: blocked_def)
qed

lemma dequeue_loop_diverges:
  assumes "pq_laws ops" and "by_id (pq_items ops (cq_queue s))" and "blocked ops s"
  shows "dequeue_loop ops lk s = None"
proof (rule ccontr)
  assume "dequeue_loop ops lk s \<noteq> None"
  then obtain r where ret: "dequeue_loop ops lk s = Some r" by blast
  have "pq_laws ops \<longrightarrow> by_id (pq_items ops (cq_queue s)) \<longrightarrow> \<not> blocked ops s"
  proof (rule dequeue_loop.raw_induct [where P =
        "\<lambda>ops lk s r. pq_laws ops \<longrightarrow> by_id (pq_items ops (cq_queue s)) \<longrightarrow> \<not> blocked ops s", OF _ ret])
    fix f :: "'a pq_ops \<Rightarrow> rwlock \<Rightarrow> 'a command_queue \<Rightarrow>
      (command option \<times> 'a command_queue) outcome option"
    fix ops lk s r
    assume IH: "\<And>ops lk s r. f ops lk s = Some r \<Longrightarrow>
        pq_laws ops \<longrightarrow> by_id (pq_items ops (cq_queue s)) \<longrightarrow> \<not> blocked ops s"
      and eq: "(case pq_pop ops (cq_queue s) of
        None \<Rightarrow> Some (Returns (None, s))
      | Some (ip, q') \<Rightarrow>
          (if \<not> deps_satisfied s (fst ip)
           then f ops lk (s\<lparr>cq_queue := pq_push ops (fst ip) (snd ip) q'\<rparr>)
           else
             (case acquire_write lk of
                Returns lk' \<Rightarrow>
                  (case cq_commands s (fst ip) of
                     None \<Rightarrow> f ops lk (s\<lparr>cq_queue := q'\<rparr>)
                   | Some cmd \<Rightarrow>
                       Some (Returns (Some (qc_command cmd),
                         s\<lparr>cq_queue := q',
                           cq_commands := (cq_commands s)(fst ip \<mapsto> cmd\<lparr>qc_state := Scheduled\<rparr>)\<rparr>)))
              | Deadlock \<Rightarrow> Some Deadlock))) = Some r"
    show "pq_laws ops \<longrightarrow> by_id (pq_items ops (cq_queue s)) \<longrightarrow> \<not> blocked ops s"
    proof (intro impI notI)
      assume l: "pq_laws ops" "by_id (pq_items ops (cq_queue s))" and "blocked ops s"
      then obtain i p q' where ip: "pq_pop ops (cq_queue s) = Some ((i, p), q')"
        "\<not> deps_satisfied s i" by (auto simp: blocked_def)
      with eq have "f ops lk (s\<lparr>cq_queue := pq_push ops i p q'\<rparr>) = Some r" by simp
      from IH [OF this] l(1) blocked_again [OF l ip] show False by blast
    qed
  qed
  with assms show False by blast
qed

text \<open>Every call of \<open>dequeue\<close>, by what is at the front of the queue.\<close>

lemma dequeue_cases:
  assumes "pq_laws ops" and "by_id (pq_items ops (cq_queue s))"
  shows "pq_items ops (cq_queue s) = Map.empty \<Longrightarrow> dequeue ops s = Some (Returns (None, s))"
    and "pq_pop ops (cq_queue s) = Some ((i, p), q') \<Longrightarrow>
      dequeue ops s = (if deps_satisfied s i then Some Deadlock else None)"
proof -
  show "dequeue ops s = Some (Returns (None, s))" if "pq_items ops (cq_queue s) = Map.empty"
    using that pq_pop_None [OF assms(1), of "cq_queue s"]
    by (simp add: dequeue_held dequeue_loop.simps [of ops held s])
  show "dequeue ops s = (if deps_satisfied s i then Some Deadlock else None)"
    if "pq_pop ops (cq_queue s) = Some ((i, p), q')"
  proof (cases "deps_satisfied s i")
    case True
    with that show ?thesis by (simp add: dequeue_held dequeue_loop.simps [of ops held s])
  next
    case False
    with that have "blocked ops s" by (auto simp: blocked_def)
    with False assms show ?thesis by (simp add: dequeue_held dequeue_loop_diverges)
  qed
qed

subsection \<open>The invariant\<close>

lemma queue_inv_step:
  assumes laws: "pq_laws ops" and inv: "queue_inv ops s" and step: "queue_step ops s t"
  shows "queue_inv ops t"
  using step
proof (cases rule: queue_step.cases)
  case (q_dequeue r)
  have ids: "by_id (pq_items ops (cq_queue s))" using inv by (simp add: queue_inv_def)
  show ?thesis
  proof (cases "pq_pop ops (cq_queue s)")
    case None
    then have "t = s" using q_dequeue dequeue_cases(1) [OF laws ids] by (simp add: pq_pop_None [OF laws])
    with inv show ?thesis by simp
  next
    case (Some x)
    then obtain i p q' where "pq_pop ops (cq_queue s) = Some ((i, p), q')" by (cases x) auto
    with q_dequeue dequeue_cases(2) [OF laws ids] show ?thesis by (auto split: if_splits)
  qed
qed (use inv in \<open>auto simp: queue_inv_def enqueue_def enqueue_with_dependencies_def update_state_def
    increment_retry_def queue_cancel_def Let_def pq_items_push [OF laws] queued_command_new_def keyed_def
    split: option.splits if_splits\<close>)

lemma queue_system:
  assumes "pq_laws ops"
  shows "invariant_system (\<lambda>s. s = command_queue_new ops) (queue_step ops) (queue_inv ops)"
proof
  fix s assume "s = command_queue_new ops"
  with assms show "queue_inv ops s" by (simp add: queue_inv_def command_queue_new_def pq_laws_def)
qed (rule queue_inv_step [OF assms])

lemmas queue_reach_inv = invariant_system.reach_inv [OF queue_system]

subsection \<open>A queue that satisfies the contract\<close>

text \<open>An association list; \<open>pop\<close> scans for the greatest priority.\<close>

definition list_visible :: "(uuid \<times> queued_command) list \<Rightarrow> (uuid \<times> queued_command) list" where
  "list_visible q = map (\<lambda>(i, p). (i, the (map_of q i))) q"

fun best_of :: "(uuid \<times> queued_command) \<Rightarrow> (uuid \<times> queued_command) list \<Rightarrow> uuid \<times> queued_command" where
  "best_of b [] = b"
| "best_of b (x # xs) = best_of (if queued_key (snd b) < queued_key (snd x) then x else b) xs"

definition list_pop ::
  "(uuid \<times> queued_command) list \<Rightarrow>
     ((uuid \<times> queued_command) \<times> (uuid \<times> queued_command) list) option" where
  "list_pop q =
     (case list_visible q of
        [] \<Rightarrow> None
      | x # xs \<Rightarrow> (let b = best_of x xs in Some (b, filter (\<lambda>y. fst y \<noteq> fst b) q)))"

definition list_pq :: "(uuid \<times> queued_command) list pq_ops" where
  "list_pq = \<lparr>pq_new = [], pq_push = (\<lambda>i p q. (i, p) # q), pq_pop = list_pop, pq_items = map_of\<rparr>"

lemma best_of_in: "best_of b xs \<in> insert b (set xs)"
proof (induction xs arbitrary: b)
  case (Cons x xs)
  from Cons.IH [of "if queued_key (snd b) < queued_key (snd x) then x else b"] show ?case by auto
qed simp

lemma best_of_max: "y \<in> insert b (set xs) \<Longrightarrow> queued_key (snd y) \<le> queued_key (snd (best_of b xs))"
proof (induction xs arbitrary: b y)
  case (Cons x xs)
  let ?b = "if queued_key (snd b) < queued_key (snd x) then x else b"
  have "queued_key (snd y) \<le> queued_key (snd ?b)" if "y = b \<or> y = x" using that by auto
  then show ?case
    using Cons.prems Cons.IH [of ?b ?b] Cons.IH [of y ?b] by (auto split: if_splits)
qed simp

lemma set_list_visible: "(i, p) \<in> set (list_visible q) \<longleftrightarrow> map_of q i = Some p"
proof
  assume "(i, p) \<in> set (list_visible q)"
  then obtain r where "(i, r) \<in> set q" "p = the (map_of q i)" by (auto simp: list_visible_def)
  then show "map_of q i = Some p" by (metis domIff dom_map_of_conv_image_fst image_eqI fst_conv option.collapse)
next
  assume m: "map_of q i = Some p"
  then have "(i, p) \<in> set q" by (rule map_of_SomeD)
  with m show "(i, p) \<in> set (list_visible q)" by (force simp: list_visible_def)
qed

lemma map_of_filter_out: "map_of (filter (\<lambda>y. fst y \<noteq> i) q) = (map_of q)(i := None)"
  by (induction q) (auto simp: fun_eq_iff)

lemma list_popD:
  assumes "list_pop q = Some ((i, p), q')"
  shows "map_of q i = Some p \<and> map_of q' = (map_of q)(i := None) \<and>
    (\<forall>j r. map_of q j = Some r \<longrightarrow> queued_key r \<le> queued_key p)"
proof -
  from assms obtain x xs where v: "list_visible q = x # xs" "(i, p) = best_of x xs"
    "q' = filter (\<lambda>y. fst y \<noteq> i) q"
    by (auto simp: list_pop_def Let_def split: list.splits)
  have mem: "(i, p) \<in> set (list_visible q)" using best_of_in [of x xs] v by simp
  have "queued_key r \<le> queued_key p" if "map_of q j = Some r" for j r
  proof -
    have "(j, r) \<in> insert x (set xs)" using that v(1) set_list_visible [of j r q] by auto
    from best_of_max [OF this] v(2) show ?thesis by (metis snd_conv)
  qed
  with mem v(3) show ?thesis by (simp add: set_list_visible map_of_filter_out)
qed

lemma list_pop_None: "list_pop q = None \<longleftrightarrow> map_of q = Map.empty"
proof -
  have "list_pop q = None \<longleftrightarrow> q = []"
    by (auto simp: list_pop_def list_visible_def Let_def split: list.splits)
  also have "\<dots> \<longleftrightarrow> map_of q = Map.empty" by (cases q) (auto simp: fun_eq_iff)
  finally show ?thesis .
qed

lemma list_pq_laws: "pq_laws list_pq"
  using list_popD by (auto simp: pq_laws_def list_pq_def list_pop_None)

section \<open>Properties\<close>

text \<open>C14: \<open>dequeue\<close> never hands out a command. In every reachable state and for every priority
  queue that keeps its contract, a call on an empty queue returns \<open>None\<close>; on any other queue the
  call does not return: it waits for the write lock of a map whose read guard it holds itself, or
  spins on a command with an unsatisfied dependency that it keeps putting back.\<close>

theorem dequeue_never_dispatches:
  assumes "pq_laws ops" and "reach (\<lambda>s. s = command_queue_new ops) (queue_step ops) s"
  shows "if pq_items ops (cq_queue s) = Map.empty then dequeue ops s = Some (Returns (None, s))
    else \<exists>i \<in> dom (pq_items ops (cq_queue s)). (\<forall>j \<in> dom (pq_items ops (cq_queue s)). j \<le> i) \<and>
      dequeue ops s = (if deps_satisfied s i then Some Deadlock else None)"
proof -
  have ids: "by_id (pq_items ops (cq_queue s))"
    using queue_reach_inv [OF assms] by (simp add: queue_inv_def)
  show ?thesis
  proof (cases "pq_pop ops (cq_queue s)")
    case None
    then show ?thesis using dequeue_cases(1) [OF assms(1) ids] by (simp add: pq_pop_None [OF assms(1)])
  next
    case (Some x)
    then obtain i p q' where pop: "pq_pop ops (cq_queue s) = Some ((i, p), q')" by (cases x) auto
    then have "pq_items ops (cq_queue s) \<noteq> Map.empty"
      using pq_pop_None [OF assms(1), of "cq_queue s"] by auto
    with pq_popD(1) [OF assms(1) pop] pq_pop_greatest [OF assms(1) ids pop]
      dequeue_cases(2) [OF assms(1) ids pop] show ?thesis by auto
  qed
qed

definition example_queue :: "(uuid \<times> queued_command) list command_queue" where
  "example_queue = snd (enqueue list_pq 7 example_command (command_queue_new list_pq))"

lemma example_queue_reach:
  "reach (\<lambda>s. s = command_queue_new list_pq) (queue_step list_pq) example_queue"
  unfolding example_queue_def by (rule reach_step [OF reach_self]) (rule q_enqueue)

lemmas example_queue_simps = example_queue_def enqueue_def command_queue_new_def list_pq_def
  example_command_def command_new_def queued_command_new_def Let_def

theorem dequeue_never_dispatches_witness: "dequeue list_pq example_queue = Some Deadlock"
  using dequeue_never_dispatches [OF list_pq_laws example_queue_reach]
  by (auto simp: example_queue_simps deps_satisfied_def fun_eq_iff split: if_splits)

text \<open>The queue is ordered by command identifier, not by priority. The command at the front
  of a reachable queue is the one with the greatest UUID, whatever the priorities are: an
  emergency command waits behind a low-priority one with a greater identifier.\<close>

theorem queue_front_is_greatest_id:
  assumes "pq_laws ops" and "reach (\<lambda>s. s = command_queue_new ops) (queue_step ops) s"
    and "pq_pop ops (cq_queue s) = Some ((i, p), q')"
  shows "pq_items ops (cq_queue s) i = Some p \<and> (\<forall>j \<in> dom (pq_items ops (cq_queue s)). j \<le> i)"
  using pq_popD(1) [OF assms(1,3)] pq_pop_greatest [OF assms(1) _ assms(3)] queue_reach_inv [OF assms(1,2)]
  by (auto simp: queue_inv_def)

text \<open>The example: an emergency command with identifier 2 and a low-priority one with identifier 9.\<close>

definition example_inverted :: "(uuid \<times> queued_command) list command_queue" where
  "example_inverted =
     snd (enqueue list_pq 7 (example_command\<lparr>cmd_id := 2, cmd_priority := Emergency\<rparr>)
       (snd (enqueue list_pq 7 (example_command\<lparr>cmd_id := 9, cmd_priority := Low\<rparr>)
         (command_queue_new list_pq))))"

theorem queue_front_is_greatest_id_witness:
  "\<exists>p q'. pq_pop list_pq (cq_queue example_inverted) = Some ((9, p), q') \<and>
     cmd_priority (qc_command p) = Low \<and>
     (\<forall>j \<in> dom (pq_items list_pq (cq_queue example_inverted)). j \<le> 9)"
proof -
  have r: "reach (\<lambda>s. s = command_queue_new list_pq) (queue_step list_pq) example_inverted"
    unfolding example_inverted_def
    by (rule reach_step [OF reach_step [OF reach_self]]) (rule q_enqueue)+
  have nonempty: "pq_items list_pq (cq_queue example_inverted) \<noteq> Map.empty"
    by (auto simp: example_inverted_def example_queue_simps fun_eq_iff intro!: exI [of _ 9])
  then have "pq_pop list_pq (cq_queue example_inverted) \<noteq> None"
    using pq_pop_None [OF list_pq_laws] by blast
  then obtain i p q' where pop: "pq_pop list_pq (cq_queue example_inverted) = Some ((i, p), q')" by auto
  from queue_front_is_greatest_id [OF list_pq_laws r pop] have "i = 9" "cmd_priority (qc_command p) = Low"
    and "\<forall>j \<in> dom (pq_items list_pq (cq_queue example_inverted)). j \<le> 9"
    by (auto simp: example_inverted_def example_queue_simps split: if_splits)
  with pop show ?thesis by blast
qed

text \<open>What was enqueued can be looked up, in state \<open>Queued\<close> and with a fresh retry budget, and
  no other command changes.\<close>

theorem enqueue_lookup:
  "queue_get i (snd (enqueue ops now c s)) =
     (if i = cmd_id c
      then Some \<lparr>qc_command = c, qc_state = Queued, qc_queued_at = now, qc_scheduled_at = None,
                qc_retry_count = 0, qc_max_retries = 3\<rparr>
      else queue_get i s)"
  by (simp add: enqueue_def queue_get_def queued_command_new_def Let_def)

lemma retry_count_update: "q\<lparr>qc_retry_count := qc_retry_count q + 1\<rparr> = qc_retry_count_update (\<lambda>n. n + 1) q"
  by (cases q) simp

text \<open>Updating, retrying and cancelling. On a known command each of the three operations
  succeeds, keeps the command and its place in the queue, and changes exactly the state or the retry
  counter; on an unknown one each reports \<open>NotFound\<close> and changes nothing.\<close>

theorem queue_update_spec:
  "update_state i st s = (case queue_get i s of
       None \<Rightarrow> (Inl (command_not_found i), s)
     | Some q \<Rightarrow> (Inr (), s\<lparr>cq_commands := map_modify i (qc_state_update (\<lambda>_. st)) (cq_commands s)\<rparr>)) \<and>
   queue_cancel i s = update_state i Cancelled s \<and>
   increment_retry i s = (case queue_get i s of
       None \<Rightarrow> (Inl (command_not_found i), s)
     | Some q \<Rightarrow> (Inr (), s\<lparr>cq_commands :=
         map_modify i (qc_retry_count_update (\<lambda>n. n + 1)) (cq_commands s)\<rparr>))"
  by (auto simp: update_state_def queue_cancel_def increment_retry_def queue_get_def store_simps
      retry_count_update split: option.splits)

text \<open>The statistics do not depend on the order in which the hash map is visited.\<close>

theorem queue_stats_order:
  assumes "iter_order (cq_commands s) ks" and "iter_order (cq_commands s) ks'"
  shows "queue_stats ks s = queue_stats ks' s"
proof -
  have "length ks = length ks'" using iter_order_mset [OF assms] by (metis size_mset)
  then show ?thesis
    using count_values_order [OF assms] by (simp add: queue_stats_def Let_def)
qed

theorem queue_stats_order_witness:
  "queue_stats [2, 9] example_inverted = queue_stats [9, 2] example_inverted"
  by (rule queue_stats_order) (auto simp: example_inverted_def example_queue_simps iter_order_def)

end
