(* ===== verification/Uplink_Confirmation.thy ===== *)
theory Uplink_Confirmation
  imports Uplink_Queue
begin

text \<open>
  Tracking of acknowledgements and retries (\<open>uplink/src/confirmation.rs\<close>).

  The tracker keeps one entry per command. Every reading of the clock is an argument; an operation
  that reads it twice takes two readings. \<open>check_timeouts\<close> iterates over the entries in the order
  \<open>ks\<close>. \<open>checker_pass\<close> is one round of the loop of \<open>timeout_checker_task\<close>; \<open>clk i\<close> are the two
  readings made when command \<open>i\<close> is retried. The tracker is a state machine (\<open>conf_step\<close>) whose
  steps are the public operations that write.
\<close>

section \<open>Definitions\<close>

datatype command_outcome = OutAcknowledged | OutRejected string | OutTimeout | OutTransmissionFailed

record confirmation_entry =
  ce_command_id :: uuid
  ce_transmission_id :: uuid
  ce_state :: command_state
  ce_retry_count :: u32
  ce_max_retries :: u32
  ce_transmitted_at :: datetime
  ce_timeout :: duration
  ce_last_update :: datetime

record confirmation_tracker =
  ct_entries :: "uuid \<rightharpoonup> confirmation_entry"
  ct_backoff_base :: duration
  ct_default_timeout :: duration

definition tracker_new :: "duration \<Rightarrow> confirmation_tracker" where
  "tracker_new default_timeout =
     \<lparr>ct_entries = Map.empty, ct_backoff_base = duration_seconds 1,
      ct_default_timeout = default_timeout\<rparr>"

definition track :: "datetime \<Rightarrow> datetime \<Rightarrow> command \<Rightarrow> uuid \<Rightarrow> confirmation_tracker \<Rightarrow>
    unit result \<times> confirmation_tracker" where
  "track t1 t2 c tid s =
     (let entry = \<lparr>ce_command_id = cmd_id c, ce_transmission_id = tid, ce_state = AwaitingAck,
                   ce_retry_count = 0, ce_max_retries = 3, ce_transmitted_at = t1,
                   ce_timeout = ct_default_timeout s, ce_last_update = t2\<rparr>
      in (Inr (), s\<lparr>ct_entries := (ct_entries s)(cmd_id c \<mapsto> entry)\<rparr>))"

definition set_state :: "command_state \<Rightarrow> datetime \<Rightarrow> confirmation_entry \<Rightarrow> confirmation_entry" where
  "set_state st now e = e\<lparr>ce_state := st, ce_last_update := now\<rparr>"

definition handle_ack :: "datetime \<Rightarrow> uuid \<Rightarrow> confirmation_tracker \<Rightarrow>
    command_outcome result \<times> confirmation_tracker" where
  "handle_ack now i s =
     (case ct_entries s i of
        Some e \<Rightarrow> (Inr OutAcknowledged,
                   s\<lparr>ct_entries := (ct_entries s)(i \<mapsto> set_state Acknowledged now e)\<rparr>)
      | None \<Rightarrow> (Inl (command_not_found i), s))"

definition handle_nack :: "datetime \<Rightarrow> uuid \<Rightarrow> string \<Rightarrow> confirmation_tracker \<Rightarrow>
    command_outcome result \<times> confirmation_tracker" where
  "handle_nack now i reason s =
     (case ct_entries s i of
        Some e \<Rightarrow> (Inr (OutRejected reason),
                   s\<lparr>ct_entries := (ct_entries s)(i \<mapsto> set_state Failed now e)\<rparr>)
      | None \<Rightarrow> (Inl (command_not_found i), s))"

text \<open>The condition of the loop of \<open>check_timeouts\<close>, and the loop over the keys.\<close>

definition overdue :: "datetime \<Rightarrow> confirmation_entry \<Rightarrow> bool" where
  "overdue now e \<longleftrightarrow> ce_state e = AwaitingAck \<and> ce_timeout e < now - ce_transmitted_at e"

fun timeout_loop :: "datetime \<Rightarrow> uuid list \<Rightarrow> (uuid \<rightharpoonup> confirmation_entry) \<Rightarrow>
    uuid list \<times> (uuid \<rightharpoonup> confirmation_entry)" where
  "timeout_loop now [] m = ([], m)"
| "timeout_loop now (k # ks) m =
     (case m k of
        None \<Rightarrow> timeout_loop now ks m
      | Some e \<Rightarrow>
          (if overdue now e
           then (case timeout_loop now ks (m(k \<mapsto> set_state Timeout now e)) of
                   (out, m') \<Rightarrow> (k # out, m'))
           else timeout_loop now ks m))"

definition check_timeouts :: "datetime \<Rightarrow> uuid list \<Rightarrow> confirmation_tracker \<Rightarrow>
    uuid list \<times> confirmation_tracker" where
  "check_timeouts now ks s =
     (case timeout_loop now ks (ct_entries s) of (out, m) \<Rightarrow> (out, s\<lparr>ct_entries := m\<rparr>))"

text \<open>In milliseconds, as \<open>StdDuration::from_millis\<close> takes it.\<close>

definition retry_delay :: "u32 \<Rightarrow> u64" where
  "retry_delay retry_count = 2 ^ unat (min retry_count 6) * 1000"

definition conf_retry :: "datetime \<Rightarrow> datetime \<Rightarrow> uuid \<Rightarrow> confirmation_tracker \<Rightarrow>
    bool result \<times> confirmation_tracker" where
  "conf_retry t1 t2 i s =
     (case ct_entries s i of
        Some e \<Rightarrow>
          (if ce_max_retries e \<le> ce_retry_count e
           then (Inr False, s\<lparr>ct_entries := (ct_entries s)(i \<mapsto> e\<lparr>ce_state := Failed\<rparr>)\<rparr>)
           else (Inr True, s\<lparr>ct_entries := (ct_entries s)(i \<mapsto>
                   e\<lparr>ce_retry_count := ce_retry_count e + 1, ce_state := Transmitting,
                     ce_transmitted_at := t1, ce_last_update := t2\<rparr>)\<rparr>))
      | None \<Rightarrow> (Inl (command_not_found i), s))"

definition conf_get :: "uuid \<Rightarrow> confirmation_tracker \<Rightarrow> confirmation_entry option" where
  "conf_get i s = ct_entries s i"

definition conf_remove :: "uuid \<Rightarrow> confirmation_tracker \<Rightarrow> unit result \<times> confirmation_tracker" where
  "conf_remove i s = (Inr (), s\<lparr>ct_entries := (ct_entries s)(i := None)\<rparr>)"

definition conf_pending :: "uuid list \<Rightarrow> confirmation_tracker \<Rightarrow> confirmation_entry list" where
  "conf_pending ks s = filter (\<lambda>e. ce_state e = AwaitingAck) (map_values (ct_entries s) ks)"

definition conf_failed :: "uuid list \<Rightarrow> confirmation_tracker \<Rightarrow> confirmation_entry list" where
  "conf_failed ks s =
     filter (\<lambda>e. ce_state e = Failed \<or> ce_state e = Timeout) (map_values (ct_entries s) ks)"

record confirmation_stats =
  cs_total :: nat
  cs_pending :: nat
  cs_acknowledged :: nat
  cs_failed :: nat
  cs_transmitting :: nat

definition conf_stats :: "uuid list \<Rightarrow> confirmation_tracker \<Rightarrow> confirmation_stats" where
  "conf_stats ks s =
     (let vs = map_values (ct_entries s) ks
      in \<lparr>cs_total = length ks,
          cs_pending = length (filter (\<lambda>e. ce_state e = AwaitingAck) vs),
          cs_acknowledged = length (filter (\<lambda>e. ce_state e = Acknowledged) vs),
          cs_failed = length (filter (\<lambda>e. ce_state e = Failed \<or> ce_state e = Timeout) vs),
          cs_transmitting = length (filter (\<lambda>e. ce_state e = Transmitting) vs)\<rparr>)"

text \<open>One round of \<open>timeout_checker_task\<close>; the result of a retry is only logged.\<close>

fun retry_all :: "(uuid \<Rightarrow> datetime \<times> datetime) \<Rightarrow> uuid list \<Rightarrow> confirmation_tracker \<Rightarrow>
    confirmation_tracker" where
  "retry_all clk [] s = s"
| "retry_all clk (i # is) s =
     retry_all clk is (snd (conf_retry (fst (clk i)) (snd (clk i)) i s))"

definition checker_pass :: "datetime \<Rightarrow> (uuid \<Rightarrow> datetime \<times> datetime) \<Rightarrow> uuid list \<Rightarrow>
    confirmation_tracker \<Rightarrow> confirmation_tracker" where
  "checker_pass now clk ks s =
     (case check_timeouts now ks s of (out, s') \<Rightarrow> retry_all clk out s')"

text \<open>The public operations that write, as the steps of a state machine.\<close>

inductive conf_step :: "confirmation_tracker \<Rightarrow> confirmation_tracker \<Rightarrow> bool" where
  conf_track: "conf_step s (snd (track t1 t2 c tid s))"
| conf_ack: "conf_step s (snd (handle_ack now i s))"
| conf_nack: "conf_step s (snd (handle_nack now i reason s))"
| conf_timeouts: "iter_order (ct_entries s) ks \<Longrightarrow> conf_step s (snd (check_timeouts now ks s))"
| conf_retries: "conf_step s (snd (conf_retry t1 t2 i s))"
| conf_removes: "conf_step s (snd (conf_remove i s))"

text \<open>Rounds of the timeout task, in sequence; each round has its own clock and order.\<close>

inductive checker_rounds :: "confirmation_tracker \<Rightarrow> confirmation_tracker \<Rightarrow> bool" where
  rounds_none: "checker_rounds s s"
| rounds_more: "checker_rounds s t \<Longrightarrow> iter_order (ct_entries t) ks \<Longrightarrow>
    checker_rounds s (checker_pass now clk ks t)"

text \<open>The states that an entry can be in, and the invariant of the tracker.\<close>

definition entry_ok :: "duration \<Rightarrow> uuid \<Rightarrow> confirmation_entry \<Rightarrow> bool" where
  "entry_ok d i e \<longleftrightarrow> ce_command_id e = i \<and> ce_max_retries e = 3 \<and> ce_retry_count e \<le> 3 \<and>
     ce_timeout e = d \<and>
     ce_state e \<in> {AwaitingAck, Acknowledged, Failed, Timeout, Transmitting}"

definition tracker_inv :: "confirmation_tracker \<Rightarrow> bool" where
  "tracker_inv s \<longleftrightarrow>
     (\<forall>i e. ct_entries s i = Some e \<longrightarrow> entry_ok (ct_default_timeout s) i e)"

text \<open>A tracker with one command, for the witnesses.\<close>

definition sample_command :: command where
  "sample_command = command_new 1 0 (SatelliteId ''SAT-1'') [1] Immediate Normal [2]"

definition sample_tracker :: confirmation_tracker where
  "sample_tracker = snd (track 0 0 sample_command 9 (tracker_new 10))"

section \<open>Lemmas\<close>

subsection \<open>The invariant\<close>

interpretation marked: keyed_update ce_command_id "set_state st now" for st now
  by unfold_locales (simp add: set_state_def)

lemma tracker_inv_update:
  assumes "tracker_inv s" and "entry_ok (ct_default_timeout s) i e"
  shows "tracker_inv (s\<lparr>ct_entries := (ct_entries s)(i \<mapsto> e)\<rparr>)"
  using assms by (simp add: tracker_inv_def)

lemma entry_ok_set_state:
  assumes "entry_ok d i e" and "st \<in> {AwaitingAck, Acknowledged, Failed, Timeout, Transmitting}"
  shows "entry_ok d i (set_state st now e)"
proof -
  have "ce_command_id (set_state st now e) = ce_command_id e" by (rule marked.key_upd)
  with assms show ?thesis by (auto simp: entry_ok_def set_state_def)
qed

lemma u32_succ_le_3:
  fixes w m :: u32
  assumes "\<not> m \<le> w" and "m = 3"
  shows "w + 1 \<le> 3"
proof -
  have less: "unat w < 3" using assms by (simp add: word_le_nat_alt)
  then have "unat (w + 1) = Suc (unat w)" by (intro unat_succ_less) simp
  with less show ?thesis by (simp add: word_le_nat_alt)
qed

text \<open>The effect of the timeout loop on each entry.\<close>

lemma timeout_loop_spec:
  assumes "distinct ks" and "timeout_loop now ks m = (out, m')"
  shows "out = filter (\<lambda>k. \<exists>e. m k = Some e \<and> overdue now e) ks \<and>
    m' = (\<lambda>k. if k \<in> set out then map_option (set_state Timeout now) (m k) else m k)"
  using assms
proof (induction ks arbitrary: m out m')
  case Nil
  then show ?case by simp
next
  case (Cons k ks)
  show ?case
  proof (cases "\<exists>e. m k = Some e \<and> overdue now e")
    case True
    then obtain e where e: "m k = Some e" "overdue now e" by blast
    define m1 where "m1 = m(k \<mapsto> set_state Timeout now e)"
    obtain out1 m2 where rec: "timeout_loop now ks m1 = (out1, m2)" by fastforce
    with Cons.prems e have out: "out = k # out1" "m' = m2" by (simp_all add: m1_def)
    have other: "j \<noteq> k \<Longrightarrow> m1 j = m j" for j by (simp add: m1_def)
    have same: "m1 k = map_option (set_state Timeout now) (m k)" using e by (simp add: m1_def)
    from Cons.IH [OF _ rec] Cons.prems
    have IH: "out1 = filter (\<lambda>k. \<exists>e. m1 k = Some e \<and> overdue now e) ks"
      "m2 = (\<lambda>k. if k \<in> set out1 then map_option (set_state Timeout now) (m1 k) else m1 k)"
      by auto
    have flt: "filter (\<lambda>k. \<exists>e. m1 k = Some e \<and> overdue now e) ks =
        filter (\<lambda>k. \<exists>e. m k = Some e \<and> overdue now e) ks"
      using Cons.prems(1) other by (intro filter_cong refl) (metis distinct.simps(2))
    have notin: "k \<notin> set out1" using Cons.prems(1) IH(1) by auto
    have "m2 j = (if j \<in> set out then map_option (set_state Timeout now) (m j) else m j)" for j
      using IH(2) other same notin out(1) by (cases "j = k") auto
    with True out IH(1) flt show ?thesis by auto
  next
    case False
    then have "timeout_loop now ks m = (out, m')"
      using Cons.prems(2) by (auto split: option.splits)
    from Cons.IH [OF _ this] False Cons.prems(1) show ?thesis by auto
  qed
qed

lemma check_timeouts_spec:
  assumes "iter_order (ct_entries s) ks" and "check_timeouts now ks s = (out, s')"
  shows "distinct out \<and> set out = {i. \<exists>e. ct_entries s i = Some e \<and> overdue now e} \<and>
    s' = s\<lparr>ct_entries := (\<lambda>i. if i \<in> set out
             then map_option (set_state Timeout now) (ct_entries s i) else ct_entries s i)\<rparr>"
proof -
  obtain m' where loop: "timeout_loop now ks (ct_entries s) = (out, m')"
    and s': "s' = s\<lparr>ct_entries := m'\<rparr>"
    using assms(2) by (auto simp: check_timeouts_def split: prod.splits)
  from assms(1) have ks: "distinct ks" "set ks = dom (ct_entries s)"
    by (auto simp: iter_order_def)
  from timeout_loop_spec [OF ks(1) loop]
  have out: "out = filter (\<lambda>k. \<exists>e. ct_entries s k = Some e \<and> overdue now e) ks"
    and m': "m' = (\<lambda>k. if k \<in> set out then map_option (set_state Timeout now) (ct_entries s k)
                        else ct_entries s k)"
    by auto
  from out ks have "distinct out" "set out = {i. \<exists>e. ct_entries s i = Some e \<and> overdue now e}"
    by auto
  with s' m' show ?thesis by blast
qed

lemma tracker_inv_timeouts:
  assumes "tracker_inv s" and "iter_order (ct_entries s) ks"
  shows "tracker_inv (snd (check_timeouts now ks s))"
proof -
  obtain out s' where ct: "check_timeouts now ks s = (out, s')" by fastforce
  from check_timeouts_spec [OF assms(2) ct] assms(1) show ?thesis
    by (auto simp: ct tracker_inv_def intro: entry_ok_set_state)
qed

lemma tracker_inv_retry:
  assumes "tracker_inv s"
  shows "tracker_inv (snd (conf_retry t1 t2 i s))"
proof (cases "ct_entries s i")
  case None
  with assms show ?thesis by (simp add: conf_retry_def)
next
  case (Some e)
  with assms have ok: "entry_ok (ct_default_timeout s) i e" by (simp add: tracker_inv_def)
  show ?thesis
  proof (cases "ce_max_retries e \<le> ce_retry_count e")
    case True
    with Some ok show ?thesis
      by (auto simp: conf_retry_def entry_ok_def intro!: tracker_inv_update [OF assms])
  next
    case False
    with ok have "ce_retry_count e + 1 \<le> 3" by (intro u32_succ_le_3) (auto simp: entry_ok_def)
    with False Some ok show ?thesis
      by (auto simp: conf_retry_def entry_ok_def intro!: tracker_inv_update [OF assms])
  qed
qed

lemma tracker_inv_mark:
  assumes "tracker_inv s" and "ct_entries s i = Some e"
    and "st \<in> {AwaitingAck, Acknowledged, Failed, Timeout, Transmitting}"
  shows "tracker_inv (s\<lparr>ct_entries := (ct_entries s)(i \<mapsto> set_state st now e)\<rparr>)"
  using assms by (intro tracker_inv_update entry_ok_set_state) (auto simp: tracker_inv_def)

lemma tracker_inv_step:
  assumes inv: "tracker_inv s" and step: "conf_step s t"
  shows "tracker_inv t"
  using step
proof cases
  case conf_track
  then show ?thesis by (auto simp: track_def entry_ok_def intro!: tracker_inv_update inv)
next
  case conf_ack
  then show ?thesis using inv
    by (auto simp: handle_ack_def intro!: tracker_inv_mark split: option.splits)
next
  case conf_nack
  then show ?thesis using inv
    by (auto simp: handle_nack_def intro!: tracker_inv_mark split: option.splits)
next
  case conf_timeouts
  then show ?thesis by (auto intro: tracker_inv_timeouts [OF inv])
next
  case conf_retries
  then show ?thesis by (auto intro: tracker_inv_retry [OF inv])
next
  case conf_removes
  then show ?thesis using inv by (auto simp: conf_remove_def tracker_inv_def)
qed

interpretation tracker: invariant_system "\<lambda>s. s = tracker_new d" conf_step tracker_inv for d
proof
  show "s = tracker_new d \<Longrightarrow> tracker_inv s" for s
    by (simp add: tracker_new_def tracker_inv_def)
  show "tracker_inv s \<Longrightarrow> conf_step s t \<Longrightarrow> tracker_inv t" for s t
    by (rule tracker_inv_step)
qed

subsection \<open>Retries\<close>

lemma conf_retry_other: "j \<noteq> i \<Longrightarrow> ct_entries (snd (conf_retry t1 t2 i s)) j = ct_entries s j"
  by (simp add: conf_retry_def split: option.splits)

lemma retry_all_other: "j \<notin> set is \<Longrightarrow> ct_entries (retry_all clk is s) j = ct_entries s j"
  by (induction "is" arbitrary: s) (simp_all add: conf_retry_other)

lemma conf_retry_local:
  "ct_entries s i = ct_entries s' i \<Longrightarrow>
     ct_entries (snd (conf_retry t1 t2 i s)) i = ct_entries (snd (conf_retry t1 t2 i s')) i"
  by (simp add: conf_retry_def split: option.splits)

lemma retry_all_mem:
  assumes "distinct is" and "i \<in> set is"
  shows "ct_entries (retry_all clk is s) i =
    ct_entries (snd (conf_retry (fst (clk i)) (snd (clk i)) i s)) i"
  using assms
proof (induction "is" arbitrary: s)
  case Nil
  then show ?case by simp
next
  case (Cons j js)
  show ?case
  proof (cases "i = j")
    case True
    with Cons.prems show ?thesis by (simp add: retry_all_other)
  next
    case False
    with Cons show ?thesis by (auto simp: conf_retry_other intro: conf_retry_local)
  qed
qed

text \<open>What a round of the timeout task does to one entry.\<close>

lemma checker_pass_entry:
  assumes "iter_order (ct_entries s) ks" and "ct_entries s i = Some e"
  shows "ct_entries (checker_pass now clk ks s) i = Some
    (if \<not> overdue now e then e
     else if ce_max_retries e \<le> ce_retry_count e
       then (set_state Timeout now e)\<lparr>ce_state := Failed\<rparr>
     else e\<lparr>ce_retry_count := ce_retry_count e + 1, ce_state := Transmitting,
            ce_transmitted_at := fst (clk i), ce_last_update := snd (clk i)\<rparr>)"
proof -
  obtain out s' where ct: "check_timeouts now ks s = (out, s')" by fastforce
  note spec = check_timeouts_spec [OF assms(1) ct]
  have pass: "checker_pass now clk ks s = retry_all clk out s'"
    by (simp add: checker_pass_def ct)
  have mem: "i \<in> set out \<longleftrightarrow> overdue now e" using spec assms(2) by auto
  show ?thesis
  proof (cases "overdue now e")
    case False
    with mem have "ct_entries (retry_all clk out s') i = ct_entries s' i"
      by (simp add: retry_all_other)
    with False mem spec assms(2) pass show ?thesis by simp
  next
    case True
    with mem spec have "ct_entries (retry_all clk out s') i =
      ct_entries (snd (conf_retry (fst (clk i)) (snd (clk i)) i s')) i"
      by (simp add: retry_all_mem)
    moreover have "ct_entries s' i = Some (set_state Timeout now e)"
      using True mem spec assms(2) by simp
    ultimately show ?thesis using True pass by (simp add: conf_retry_def set_state_def)
  qed
qed

lemma sample_entries:
  "ct_entries sample_tracker = [1 \<mapsto> \<lparr>ce_command_id = 1, ce_transmission_id = 9,
     ce_state = AwaitingAck, ce_retry_count = 0, ce_max_retries = 3, ce_transmitted_at = 0,
     ce_timeout = 10, ce_last_update = 0\<rparr>]"
  by (simp add: sample_tracker_def track_def tracker_new_def sample_command_def command_new_def Let_def)

lemma sample_order: "iter_order (ct_entries sample_tracker) [1]"
  by (simp add: sample_entries iter_order_def)

lemma sample_track: "track 0 0 sample_command 9 (tracker_new 10) = (Inr (), sample_tracker)"
  by (simp add: sample_tracker_def track_def Let_def)

lemma sample_cmd_id: "cmd_id sample_command = 1"
  by (simp add: sample_command_def command_new_def)

section \<open>Properties\<close>

text \<open>C9: In every state that the tracker reaches, each entry is filed under its own command and
  has used at most its three retries; so the statistics account for every entry: the pending,
  acknowledged, failed and transmitting commands add up to the total.\<close>

theorem conf_stats_account:
  assumes "reach (\<lambda>s. s = tracker_new d) conf_step s" and "iter_order (ct_entries s) ks"
  shows "(\<forall>i e. ct_entries s i = Some e \<longrightarrow>
            ce_command_id e = i \<and> ce_retry_count e \<le> ce_max_retries e \<and> ce_max_retries e = 3) \<and>
    cs_total (conf_stats ks s) =
      cs_pending (conf_stats ks s) + cs_acknowledged (conf_stats ks s) +
      cs_failed (conf_stats ks s) + cs_transmitting (conf_stats ks s)"
proof -
  have inv: "tracker_inv s" using assms(1) by (rule tracker.reach_inv)
  define vs where "vs = map_values (ct_entries s) ks"
  have states: "\<forall>e \<in> set vs. ce_state e \<in> {AwaitingAck, Acknowledged, Failed, Timeout, Transmitting}"
    using inv by (auto simp: vs_def set_map_values tracker_inv_def entry_ok_def)
  then have "length vs = length (filter (\<lambda>e. ce_state e = AwaitingAck) vs) +
      length (filter (\<lambda>e. ce_state e = Acknowledged) vs) +
      length (filter (\<lambda>e. ce_state e = Failed \<or> ce_state e = Timeout) vs) +
      length (filter (\<lambda>e. ce_state e = Transmitting) vs)"
    by (induction vs) auto
  moreover have "length vs = length ks"
    using assms(2) by (simp add: vs_def iter_order_length)
  ultimately have "cs_total (conf_stats ks s) =
      cs_pending (conf_stats ks s) + cs_acknowledged (conf_stats ks s) +
      cs_failed (conf_stats ks s) + cs_transmitting (conf_stats ks s)"
    by (simp add: conf_stats_def vs_def Let_def)
  with inv show ?thesis by (auto simp: tracker_inv_def entry_ok_def)
qed

theorem conf_stats_account_witness:
  "cs_total (conf_stats [1] sample_tracker) =
     cs_pending (conf_stats [1] sample_tracker) + cs_acknowledged (conf_stats [1] sample_tracker) +
     cs_failed (conf_stats [1] sample_tracker) + cs_transmitting (conf_stats [1] sample_tracker) \<and>
   cs_total (conf_stats [1] sample_tracker) = 1"
proof -
  have "reach (\<lambda>s. s = tracker_new 10) conf_step sample_tracker"
    unfolding sample_tracker_def by (rule reach_step [OF reach_self]) (rule conf_track)
  from conf_stats_account [OF this sample_order]
  show ?thesis by (simp add: conf_stats_def sample_entries Let_def)
qed

text \<open>C10: A timeout check reports exactly the commands that await an acknowledgement and whose
  time is up, each once, marks exactly these as timed out, and leaves nothing for a second check at
  the same time.\<close>

theorem check_timeouts_exact:
  assumes "iter_order (ct_entries s) ks" and "check_timeouts now ks s = (out, s')"
  shows "distinct out \<and>
    (\<forall>i. i \<in> set out \<longleftrightarrow> (\<exists>e. ct_entries s i = Some e \<and> ce_state e = AwaitingAck \<and>
                               ce_timeout e < now - ce_transmitted_at e)) \<and>
    (\<forall>i. ct_entries s' i = (if i \<in> set out
           then map_option (set_state Timeout now) (ct_entries s i) else ct_entries s i)) \<and>
    check_timeouts now ks s' = ([], s')"
proof -
  note spec = check_timeouts_spec [OF assms]
  have dom: "dom (ct_entries s') = dom (ct_entries s)" using spec by (auto simp: dom_def)
  with assms(1) have order: "iter_order (ct_entries s') ks" by (simp add: iter_order_def)
  obtain out2 s2 where again: "check_timeouts now ks s' = (out2, s2)" by fastforce
  note spec2 = check_timeouts_spec [OF order again]
  have "\<not> (\<exists>e. ct_entries s' i = Some e \<and> overdue now e)" for i
    using spec by (auto simp: overdue_def set_state_def)
  with spec2 have "set out2 = {}" by simp
  then have "out2 = []" by simp
  with spec2 have "s2 = s'" by simp
  with again \<open>out2 = []\<close> have "check_timeouts now ks s' = ([], s')" by simp
  with spec show ?thesis by (simp add: overdue_def)
qed

theorem check_timeouts_exact_witness:
  "fst (check_timeouts 11 [1] sample_tracker) = [1] \<and>
   fst (check_timeouts 11 [1] (snd (check_timeouts 11 [1] sample_tracker))) = []"
proof -
  obtain out s' where ct: "check_timeouts 11 [1] sample_tracker = (out, s')" by fastforce
  have "out = [1]"
    using ct by (simp add: check_timeouts_def sample_entries overdue_def)
  with check_timeouts_exact [OF sample_order ct] show ?thesis by (simp add: ct)
qed

text \<open>A tracked command can be retried three times and no more: whatever the clock says, the
  first three calls of retry return \<open>true\<close> and the command transmits again, and from the fourth on
  they return \<open>false\<close> and the command has failed.\<close>

theorem retry_three_times:
  assumes "track t1 t2 c tid s = (r, s')"
    and "s'' = fold (\<lambda>t u. snd (conf_retry (fst t) (snd t) (cmd_id c) u)) ts s'"
  shows "fst (conf_retry t3 t4 (cmd_id c) s'') = Inr (length ts < 3) \<and>
    (\<exists>e. ct_entries (snd (conf_retry t3 t4 (cmd_id c) s'')) (cmd_id c) = Some e \<and>
      ce_state e = (if length ts < 3 then Transmitting else Failed) \<and>
      unat (ce_retry_count e) = min 3 (Suc (length ts)))"
proof -
  have step: "\<exists>e'. ct_entries (snd (conf_retry t3 t4 i u)) i = Some e' \<and> ce_max_retries e' = 3 \<and>
      unat (ce_retry_count e') = min 3 (Suc n) \<and>
      ce_state e' = (if n < 3 then Transmitting else Failed) \<and>
      fst (conf_retry t3 t4 i u) = Inr (n < 3)"
    if "ct_entries u i = Some e" "ce_max_retries e = 3" "unat (ce_retry_count e) = min 3 n"
    for t3 t4 i u e n
  proof (cases "n < 3")
    case True
    with that have "unat (ce_retry_count e) = n" by simp
    moreover from this True have "unat (ce_retry_count e + 1) = Suc n"
      by (subst unat_succ_less) auto
    ultimately show ?thesis using that True by (simp add: conf_retry_def word_le_nat_alt)
  next
    case False
    with that show ?thesis by (simp add: conf_retry_def word_le_nat_alt)
  qed
  have "\<exists>e. ct_entries (fold (\<lambda>t u. snd (conf_retry (fst t) (snd t) (cmd_id c) u)) ts s')
        (cmd_id c) = Some e \<and> ce_max_retries e = 3 \<and> unat (ce_retry_count e) = min 3 (length ts)"
  proof (induction ts rule: rev_induct)
    case Nil
    show ?case using assms(1) by (auto simp: track_def Let_def)
  next
    case (snoc t ts)
    then obtain e where "ct_entries (fold (\<lambda>t u. snd (conf_retry (fst t) (snd t) (cmd_id c) u)) ts s')
        (cmd_id c) = Some e" "ce_max_retries e = 3" "unat (ce_retry_count e) = min 3 (length ts)"
      by blast
    from step [OF this] show ?case by auto
  qed
  then obtain e where "ct_entries s'' (cmd_id c) = Some e" "ce_max_retries e = 3"
    "unat (ce_retry_count e) = min 3 (length ts)" using assms(2) by blast
  from step [OF this] show ?thesis by metis
qed

theorem retry_three_times_witness:
  "fst (conf_retry 50 51 1 (fold (\<lambda>t u. snd (conf_retry (fst t) (snd t) 1 u))
     [(20, 21), (30, 31), (40, 41)] sample_tracker)) = Inr False"
  using retry_three_times [OF sample_track refl, of 50 51 "[(20, 21), (30, 31), (40, 41)]"]
  by (simp add: sample_cmd_id)

text \<open>The timeout task never gives up on a command and never retries it twice: a retried command
  is transmitting, only a command that awaits its acknowledgement times out, and only tracking it
  anew, which resets its retries, makes it await one. After any number of rounds a tracked command
  still awaits its acknowledgement, or has been retried once and transmits.\<close>

theorem checker_retries_once:
  assumes "track t1 t2 c tid s = (r, s')" and "checker_rounds s' t"
  shows "\<exists>e. ct_entries t (cmd_id c) = Some e \<and>
    (ce_state e = AwaitingAck \<and> ce_retry_count e = 0 \<or>
     ce_state e = Transmitting \<and> ce_retry_count e = 1)"
proof -
  have "\<exists>e. ct_entries t (cmd_id c) = Some e \<and> ce_max_retries e = 3 \<and>
    (ce_state e = AwaitingAck \<and> ce_retry_count e = 0 \<or>
     ce_state e = Transmitting \<and> ce_retry_count e = 1)"
    using assms(2,1)
  proof (induction rule: checker_rounds.induct)
    case (rounds_none s)
    then show ?case by (auto simp: track_def Let_def)
  next
    case (rounds_more s' t ks now clk)
    then obtain e where e: "ct_entries t (cmd_id c) = Some e" "ce_max_retries e = 3"
      "ce_state e = AwaitingAck \<and> ce_retry_count e = 0 \<or>
       ce_state e = Transmitting \<and> ce_retry_count e = 1"
      by blast
    from checker_pass_entry [OF rounds_more.hyps(2) e(1), of now clk] e(2,3) show ?case
      by (auto simp: overdue_def)
  qed
  then show ?thesis by blast
qed

theorem checker_retries_once_witness:
  "\<exists>e. ct_entries (checker_pass 11 (\<lambda>_. (12, 12)) [1] sample_tracker) 1 = Some e \<and>
     ce_state e = Transmitting \<and> ce_retry_count e = 1"
proof -
  have "checker_rounds sample_tracker (checker_pass 11 (\<lambda>_. (12, 12)) [1] sample_tracker)"
    by (rule rounds_more [OF rounds_none sample_order])
  from checker_retries_once [OF sample_track this]
    checker_pass_entry [OF sample_order, of 1 _ 11 "\<lambda>_. (12, 12)"]
  show ?thesis by (auto simp: sample_cmd_id sample_entries overdue_def)
qed

text \<open>The backoff doubles with each retry up to the sixth and stays at 64 seconds from there; it
  never overflows its 64-bit number of milliseconds.\<close>

theorem retry_delay_bounds:
  "unat (retry_delay r) = 2 ^ min (unat r) 6 * 1000 \<and>
   1000 \<le> unat (retry_delay r) \<and> unat (retry_delay r) \<le> 64000"
proof -
  have m: "unat (min r 6) = min (unat r) 6" by (auto simp: min_def word_le_nat_alt)
  have le: "(2::nat) ^ min (unat r) 6 \<le> 2 ^ 6" by (rule power_increasing) auto
  have "retry_delay r = of_nat (2 ^ min (unat r) 6 * 1000)"
    by (simp add: retry_delay_def m)
  moreover have "(2::nat) ^ min (unat r) 6 * 1000 < 2 ^ LENGTH(64)" using le by simp
  ultimately have "unat (retry_delay r) = 2 ^ min (unat r) 6 * 1000"
    by (simp only: unat_of_nat_small)
  with le show ?thesis by simp
qed

end
