(* ===== verification/F64.thy ===== *)
theory F64
  imports Complex_Main "HOL-Library.Word"
begin

text \<open>
  IEEE 754 binary64 arithmetic, as the \<open>f64\<close> of the code. A value is a NaN, an infinity or a
  signed magnitude; the arithmetic operations compute the exact rational result and round it to
  nearest, ties to even, with gradual underflow and overflow to infinity. The comparisons are
  false on a NaN. The casts from and to integers are the \<open>as\<close> casts of the language.

  The lemmas give what the components use: rounding is monotone and leaves small integers alone.
\<close>

section \<open>Definitions\<close>

datatype f64 = NaN | Inf bool | Fin bool rat

text \<open>The first component of \<open>Inf\<close> and \<open>Fin\<close> is the sign (\<open>True\<close> is negative); the magnitude
  of a finite value is not negative.\<close>

subsection \<open>Rounding\<close>

fun nat_log2 :: "nat \<Rightarrow> nat" where
  "nat_log2 n = (if n \<le> 1 then 0 else Suc (nat_log2 (n div 2)))"

declare nat_log2.simps [simp del]

definition pow2 :: "int \<Rightarrow> rat" where
  "pow2 e = (if 0 \<le> e then 2 ^ nat e else 1 / 2 ^ nat (- e))"

text \<open>The binary exponent of a positive rational: \<open>pow2 e \<le> m < pow2 (e + 1)\<close>.\<close>

definition exponent :: "rat \<Rightarrow> int" where
  "exponent m =
     (let (a, b) = quotient_of m; k = int (nat_log2 (nat a)) - int (nat_log2 (nat b))
      in if pow2 k \<le> m then k else k - 1)"

definition round_half_even :: "rat \<Rightarrow> int" where
  "round_half_even x =
     (let n = \<lfloor>x\<rfloor>; r = x - of_int n
      in if r < 1 / 2 then n else if 1 / 2 < r then n + 1 else if even n then n else n + 1)"

text \<open>The unit in the last place at a magnitude; below \<open>2^-1022\<close> it stays that of the subnormals.\<close>

definition ulp :: "rat \<Rightarrow> rat" where
  "ulp m = pow2 (max (exponent m) (-1022) - 52)"

definition round_mag :: "rat \<Rightarrow> rat" where
  "round_mag m = (if m \<le> 0 then 0 else of_int (round_half_even (m / ulp m)) * ulp m)"

definition round_f64 :: "bool \<Rightarrow> rat \<Rightarrow> f64" where
  "round_f64 s m = (let v = round_mag m in if pow2 1024 \<le> v then Inf s else Fin s v)"

text \<open>The rounded value of an exact result; the sign of an exact zero is given.\<close>

definition of_exact :: "bool \<Rightarrow> rat \<Rightarrow> f64" where
  "of_exact z x = (if x = 0 then Fin z 0 else round_f64 (x < 0) \<bar>x\<bar>)"

text \<open>A literal of the source denotes the nearest value.\<close>

definition lit :: "rat \<Rightarrow> f64" where
  "lit x = of_exact False x"

subsection \<open>Comparisons\<close>

fun val :: "f64 \<Rightarrow> rat" where
  "val (Fin s m) = (if s then - m else m)"
| "val _ = 0"

fun flt :: "f64 \<Rightarrow> f64 \<Rightarrow> bool" where
  "flt NaN y = False"
| "flt x NaN = False"
| "flt (Inf s) (Inf t) = (s \<and> \<not> t)"
| "flt (Inf s) (Fin t b) = s"
| "flt (Fin s a) (Inf t) = (\<not> t)"
| "flt (Fin s a) (Fin t b) = (val (Fin s a) < val (Fin t b))"

fun feq :: "f64 \<Rightarrow> f64 \<Rightarrow> bool" where
  "feq (Inf s) (Inf t) = (s = t)"
| "feq (Fin s a) (Fin t b) = (val (Fin s a) = val (Fin t b))"
| "feq _ _ = False"

definition fle :: "f64 \<Rightarrow> f64 \<Rightarrow> bool" where
  "fle x y = (flt x y \<or> feq x y)"

subsection \<open>Arithmetic\<close>

fun fneg :: "f64 \<Rightarrow> f64" where
  "fneg NaN = NaN"
| "fneg (Inf s) = Inf (\<not> s)"
| "fneg (Fin s m) = Fin (\<not> s) m"

text \<open>The sum of two zeros of the same sign keeps the sign; every other zero sum is positive.\<close>

fun fadd :: "f64 \<Rightarrow> f64 \<Rightarrow> f64" where
  "fadd NaN y = NaN"
| "fadd x NaN = NaN"
| "fadd (Inf s) (Inf t) = (if s = t then Inf s else NaN)"
| "fadd (Inf s) (Fin t b) = Inf s"
| "fadd (Fin s a) (Inf t) = Inf t"
| "fadd (Fin s a) (Fin t b) =
     of_exact (s \<and> t) (val (Fin s a) + val (Fin t b))"

definition fsub :: "f64 \<Rightarrow> f64 \<Rightarrow> f64" where
  "fsub x y = fadd x (fneg y)"

fun fmul :: "f64 \<Rightarrow> f64 \<Rightarrow> f64" where
  "fmul NaN y = NaN"
| "fmul x NaN = NaN"
| "fmul (Inf s) (Inf t) = Inf (s \<noteq> t)"
| "fmul (Inf s) (Fin t b) = (if b = 0 then NaN else Inf (s \<noteq> t))"
| "fmul (Fin s a) (Inf t) = (if a = 0 then NaN else Inf (s \<noteq> t))"
| "fmul (Fin s a) (Fin t b) = round_f64 (s \<noteq> t) (a * b)"

fun fdiv :: "f64 \<Rightarrow> f64 \<Rightarrow> f64" where
  "fdiv NaN y = NaN"
| "fdiv x NaN = NaN"
| "fdiv (Inf s) (Inf t) = NaN"
| "fdiv (Inf s) (Fin t b) = Inf (s \<noteq> t)"
| "fdiv (Fin s a) (Inf t) = Fin (s \<noteq> t) 0"
| "fdiv (Fin s a) (Fin t b) =
     (if b = 0 then (if a = 0 then NaN else Inf (s \<noteq> t)) else round_f64 (s \<noteq> t) (a / b))"

definition fabs :: "f64 \<Rightarrow> f64" where
  "fabs x = (case x of NaN \<Rightarrow> NaN | Inf s \<Rightarrow> Inf False | Fin s a \<Rightarrow> Fin False a)"

text \<open>\<open>f64::min\<close> and \<open>f64::max\<close> return the other argument when one is a NaN.\<close>

definition fmin :: "f64 \<Rightarrow> f64 \<Rightarrow> f64" where
  "fmin x y = (if x = NaN then y else if y = NaN then x else if flt y x then y else x)"

definition fmax :: "f64 \<Rightarrow> f64 \<Rightarrow> f64" where
  "fmax x y = (if x = NaN then y else if y = NaN then x else if flt x y then y else x)"

text \<open>The square root, rounded to nearest: the integer root at the unit of the result, rounded up when the
  radicand is beyond the middle (which it never meets). The greatest finite value.\<close>

fun isqrt :: "nat \<Rightarrow> nat" where
  "isqrt n = (if n = 0 then 0
     else let r = 2 * isqrt (n div 4) in if (r + 1) * (r + 1) \<le> n then r + 1 else r)"

declare isqrt.simps [simp del]

definition sqrt_mag :: "rat \<Rightarrow> rat" where
  "sqrt_mag m =
     (let u = pow2 (exponent m div 2 - 52); q = m / (u * u); n = isqrt (nat \<lfloor>q\<rfloor>)
      in of_nat (if (of_nat n + 1 / 2) * (of_nat n + 1 / 2) < q then n + 1 else n) * u)"

fun fsqrt :: "f64 \<Rightarrow> f64" where
  "fsqrt NaN = NaN"
| "fsqrt (Inf s) = (if s then NaN else Inf False)"
| "fsqrt (Fin s m) = (if m = 0 then Fin s 0 else if s then NaN else Fin False (sqrt_mag m))"

definition f64_max_value :: f64 where
  "f64_max_value = Fin False ((2 - 1 / 2 ^ 52) * 2 ^ 1023)"

text \<open>The sum of an iterator, from the neutral element \<open>z\<close> of the standard library (a zero, whose sign
  depends on its version).\<close>

definition f64_sum :: "f64 \<Rightarrow> f64 list \<Rightarrow> f64" where
  "f64_sum z xs = foldl fadd z xs"

subsection \<open>Casts\<close>

definition f64_of_nat :: "nat \<Rightarrow> f64" where
  "f64_of_nat n = round_f64 False (of_nat n)"

definition f64_of_int :: "int \<Rightarrow> f64" where
  "f64_of_int n = of_exact False (of_int n)"

text \<open>\<open>x as u64\<close> and \<open>x as i64\<close>: truncate, saturate, and map a NaN to 0.\<close>

fun f64_to_u64 :: "f64 \<Rightarrow> nat" where
  "f64_to_u64 NaN = 0"
| "f64_to_u64 (Inf s) = (if s then 0 else 2 ^ 64 - 1)"
| "f64_to_u64 (Fin s m) = (if s then 0 else min (nat \<lfloor>m\<rfloor>) (2 ^ 64 - 1))"

fun f64_to_i64 :: "f64 \<Rightarrow> int" where
  "f64_to_i64 NaN = 0"
| "f64_to_i64 (Inf s) = (if s then - (2 ^ 63) else 2 ^ 63 - 1)"
| "f64_to_i64 (Fin s m) =
     (if s then max (- \<lfloor>m\<rfloor>) (- (2 ^ 63)) else min \<lfloor>m\<rfloor> (2 ^ 63 - 1))"

section \<open>Lemmas\<close>

subsection \<open>Powers of two and the exponent\<close>

lemma pow2_powi: "pow2 e = 2 powi e"
proof (cases "0 \<le> e")
  case True
  then show ?thesis by (simp add: pow2_def power_int_def)
next
  case False
  then have "(2::rat) powi e = inverse 2 ^ nat (- e)" by (simp add: power_int_def)
  also have "\<dots> = 1 / 2 ^ nat (- e)" by (simp add: power_one_over)
  finally show ?thesis using False by (simp add: pow2_def)
qed

lemma pow2_pos [simp]: "0 < pow2 e"
  by (simp add: pow2_powi)

lemma pow2_nonzero [simp]: "pow2 e \<noteq> 0"
  by (simp add: pow2_powi)

lemma pow2_add: "pow2 (a + b) = pow2 a * pow2 b"
  by (simp add: pow2_powi power_int_add)

lemma pow2_diff: "pow2 (a - b) = pow2 a / pow2 b"
  by (simp add: pow2_powi power_int_diff)

lemma pow2_nat: "0 \<le> e \<Longrightarrow> pow2 e = of_int (2 ^ nat e)"
  by (simp add: pow2_def)

lemma pow2_mono: "a \<le> b \<Longrightarrow> pow2 a \<le> pow2 b"
  by (simp add: pow2_powi power_int_increasing)

lemma pow2_less_iff: "pow2 a < pow2 b \<longleftrightarrow> a < b"
  by (metis pow2_mono linorder_not_le order_antisym pow2_powi power_int_strict_increasing one_less_numeral_iff semiring_norm(76))

lemma nat_log2_bounds: "0 < n \<Longrightarrow> 2 ^ nat_log2 n \<le> n \<and> n < 2 ^ Suc (nat_log2 n)"
proof (induction n rule: nat_log2.induct)
  case (1 n)
  show ?case
  proof (cases "n \<le> 1")
    case True
    with "1.prems" show ?thesis by (auto simp: nat_log2.simps [of n])
  next
    case False
    then have "0 < n div 2" by simp
    with False "1.IH" have "2 ^ nat_log2 (n div 2) \<le> n div 2"
      and "n div 2 < 2 ^ Suc (nat_log2 (n div 2))" by simp_all
    then have "2 * 2 ^ nat_log2 (n div 2) \<le> n" and "n < 2 * 2 ^ Suc (nat_log2 (n div 2))"
      by linarith+
    with False show ?thesis by (simp add: nat_log2.simps [of n])
  qed
qed

lemma rat_log2_bounds:
  assumes "0 < a"
  shows "(2::rat) ^ nat_log2 (nat a) \<le> of_int a" and "of_int a < (2::rat) ^ Suc (nat_log2 (nat a))"
proof -
  from assms have "0 < nat a" by simp
  then have "2 ^ nat_log2 (nat a) \<le> nat a" and "nat a < 2 ^ Suc (nat_log2 (nat a))"
    using nat_log2_bounds by blast+
  then have "(of_nat (2 ^ nat_log2 (nat a)) :: rat) \<le> of_nat (nat a)"
    and "(of_nat (nat a) :: rat) < of_nat (2 ^ Suc (nat_log2 (nat a)))"
    by (simp_all only: of_nat_le_iff of_nat_less_iff)
  with assms show "(2::rat) ^ nat_log2 (nat a) \<le> of_int a"
    and "of_int a < (2::rat) ^ Suc (nat_log2 (nat a))" by simp_all
qed

lemma exponent_bounds:
  assumes "0 < m"
  shows "pow2 (exponent m) \<le> m" and "m < pow2 (exponent m + 1)"
proof -
  obtain a b where q: "quotient_of m = (a, b)" by (cases "quotient_of m")
  then have m: "m = of_int a / of_int b" and b: "0 < b"
    by (auto intro: quotient_of_div quotient_of_denom_pos)
  with assms have a: "0 < a" by (simp add: zero_less_divide_iff)
  define k where "k = int (nat_log2 (nat a)) - int (nat_log2 (nat b))"
  note na = rat_log2_bounds [OF a] and nb = rat_log2_bounds [OF b]
  have k: "pow2 k = 2 ^ nat_log2 (nat a) / 2 ^ nat_log2 (nat b)"
    by (simp add: k_def pow2_powi power_int_diff)
  have up: "m < pow2 (k + 1)"
  proof -
    have "m < 2 ^ Suc (nat_log2 (nat a)) / 2 ^ nat_log2 (nat b)"
      unfolding m using na nb a b by (intro frac_less) auto
    then show ?thesis by (simp add: pow2_add k mult.commute) (simp add: pow2_def mult.commute)
  qed
  have low: "pow2 (k - 1) \<le> m"
  proof -
    have "2 ^ nat_log2 (nat a) / 2 ^ Suc (nat_log2 (nat b)) \<le> m"
      unfolding m using na nb a b by (intro frac_le) auto
    then show ?thesis by (simp add: pow2_diff k mult.commute) (simp add: pow2_def mult.commute)
  qed
  have e: "exponent m = (if pow2 k \<le> m then k else k - 1)"
    by (simp add: exponent_def q k_def Let_def)
  from e up low show "pow2 (exponent m) \<le> m" and "m < pow2 (exponent m + 1)"
    by (auto split: if_splits)
qed

lemma exponent_mono:
  assumes "0 < m" and "m \<le> m'"
  shows "exponent m \<le> exponent m'"
proof -
  have "pow2 (exponent m) < pow2 (exponent m' + 1)"
    using exponent_bounds [of m] exponent_bounds [of m'] assms by linarith
  then show ?thesis by (simp add: pow2_less_iff)
qed

subsection \<open>Rounding\<close>

lemma round_half_even_int [simp]: "round_half_even (of_int n) = n"
  by (simp add: round_half_even_def)

lemma round_half_even_mono:
  assumes "x \<le> y"
  shows "round_half_even x \<le> round_half_even y"
proof -
  have le: "\<lfloor>x\<rfloor> \<le> \<lfloor>y\<rfloor>" using assms by (rule floor_mono)
  have x: "round_half_even x \<le> \<lfloor>x\<rfloor> + 1" by (simp add: round_half_even_def Let_def)
  have y: "\<lfloor>y\<rfloor> \<le> round_half_even y" by (simp add: round_half_even_def Let_def)
  show ?thesis
  proof (cases "\<lfloor>x\<rfloor> = \<lfloor>y\<rfloor>")
    case True
    then show ?thesis using assms by (auto simp: round_half_even_def Let_def)
  next
    case False
    with le x y show ?thesis by linarith
  qed
qed

lemma ulp_pos [simp]: "0 < ulp m"
  by (simp add: ulp_def)

lemma round_mag_nonneg: "0 \<le> round_mag m"
proof (cases "m \<le> 0")
  case False
  then have "0 \<le> m / ulp m" by (simp add: less_imp_le)
  then have "round_half_even 0 \<le> round_half_even (m / ulp m)" by (rule round_half_even_mono)
  then have "0 \<le> round_half_even (m / ulp m)" using round_half_even_int [of 0] by simp
  with False show ?thesis by (simp add: round_mag_def less_imp_le)
qed (simp add: round_mag_def)

lemma round_mag_le_pow2:
  assumes "0 < m" and "m < pow2 e" and "-1022 < e"
  shows "round_mag m \<le> pow2 e"
proof -
  let ?E = "max (exponent m) (-1022)"
  have "pow2 (exponent m) < pow2 e" using exponent_bounds(1) [OF assms(1)] assms(2) by linarith
  then have E: "?E + 1 \<le> e" using assms(3) by (simp add: pow2_less_iff)
  have "m < pow2 (?E + 1)"
    using exponent_bounds(2) [OF assms(1)] pow2_mono [of "exponent m + 1" "?E + 1"] by simp
  also have "pow2 (?E + 1) = of_int (2 ^ 53) * ulp m"
    using pow2_add [of 53 "?E - 52"] pow2_nat [of 53] by (simp add: ulp_def add.commute)
  finally have "m / ulp m \<le> of_int (2 ^ 53)" by (simp add: divide_le_eq less_imp_le)
  then have "round_half_even (m / ulp m) \<le> 2 ^ 53"
    using round_half_even_mono round_half_even_int by metis
  then have "of_int (round_half_even (m / ulp m)) \<le> (of_int (2 ^ 53) :: rat)"
    by (simp only: of_int_le_iff)
  then have "round_mag m \<le> of_int (2 ^ 53) * ulp m"
    using assms(1) by (auto simp: round_mag_def intro!: mult_right_mono)
  also have "\<dots> = pow2 (?E + 1)"
    using pow2_add [of 53 "?E - 52"] pow2_nat [of 53] by (simp add: ulp_def add.commute)
  also have "\<dots> \<le> pow2 e" using E by (rule pow2_mono)
  finally show ?thesis .
qed

lemma pow2_le_round_mag:
  assumes "0 < m" and "-1022 \<le> exponent m"
  shows "pow2 (exponent m) \<le> round_mag m"
proof -
  have u: "ulp m = pow2 (exponent m) / of_int (2 ^ 52)"
    using assms(2) pow2_diff [of "exponent m" 52] pow2_nat [of 52]
    by (simp add: ulp_def max_def)
  have "of_int (2 ^ 52) * ulp m \<le> m" using exponent_bounds(1) [OF assms(1)] by (simp add: u)
  then have "of_int (2 ^ 52) \<le> m / ulp m" by (simp add: le_divide_eq)
  then have "2 ^ 52 \<le> round_half_even (m / ulp m)"
    using round_half_even_mono round_half_even_int by metis
  then have "(of_int (2 ^ 52) :: rat) \<le> of_int (round_half_even (m / ulp m))"
    by (simp only: of_int_le_iff)
  then have "of_int (2 ^ 52) * ulp m \<le> round_mag m"
    using assms(1) by (auto simp: round_mag_def intro!: mult_right_mono)
  then show ?thesis by (simp add: u)
qed

lemma round_mag_mono:
  assumes "m \<le> m'"
  shows "round_mag m \<le> round_mag m'"
proof (cases "0 < m")
  case False
  then show ?thesis using round_mag_nonneg [of m'] by (simp add: round_mag_def)
next
  case True
  let ?E = "max (exponent m) (-1022)" and ?E' = "max (exponent m') (-1022)"
  have ee: "exponent m \<le> exponent m'" using True assms by (rule exponent_mono)
  show ?thesis
  proof (cases "?E = ?E'")
    case eq: True
    then have u: "ulp m = ulp m'" by (simp add: ulp_def)
    then have "round_half_even (m / ulp m) \<le> round_half_even (m' / ulp m')"
      using assms by (intro round_half_even_mono) (simp add: divide_right_mono less_imp_le)
    with True assms u show ?thesis by (auto simp: round_mag_def intro!: mult_right_mono)
  next
    case False
    with ee have E': "-1022 < exponent m'" and less: "exponent m < exponent m'" by auto
    have "m < pow2 (exponent m')"
      using exponent_bounds(2) [OF True] pow2_mono [of "exponent m + 1" "exponent m'"] less by simp
    then have "round_mag m \<le> pow2 (exponent m')" using True E' by (intro round_mag_le_pow2)
    also have "\<dots> \<le> round_mag m'" using True assms E' by (intro pow2_le_round_mag) auto
    finally show ?thesis .
  qed
qed

text \<open>Integers below \<open>2^53\<close> are representable.\<close>

lemma round_mag_nat:
  assumes "n < 2 ^ 53"
  shows "round_mag (of_nat n) = of_nat n"
proof (cases "n = 0")
  case False
  let ?m = "of_nat n :: rat"
  have pos: "0 < ?m" using False by simp
  have "1 \<le> n" using False by simp
  then have "pow2 0 \<le> ?m" by (simp add: pow2_def)
  then have "pow2 0 < pow2 (exponent ?m + 1)"
    using exponent_bounds(2) [OF pos] by linarith
  then have e0: "0 \<le> exponent ?m" by (simp add: pow2_less_iff)
  have "?m < of_nat (2 ^ 53)" using assms by (simp only: of_nat_less_iff)
  then have "?m < pow2 53" by (simp add: pow2_def)
  then have "pow2 (exponent ?m) < pow2 53" using exponent_bounds(1) [OF pos] by linarith
  then have e1: "exponent ?m \<le> 52" by (simp add: pow2_less_iff)
  have u: "ulp ?m = 1 / of_int (2 ^ nat (52 - exponent ?m))"
    using e0 e1 by (simp add: ulp_def pow2_def max_def)
  have "?m / ulp ?m = of_int (int n * 2 ^ nat (52 - exponent ?m))" by (simp add: u)
  then have "round_half_even (?m / ulp ?m) = int n * 2 ^ nat (52 - exponent ?m)"
    by (simp only: round_half_even_int)
  then show ?thesis using pos by (simp add: round_mag_def u)
qed (simp add: round_mag_def)

lemma nat_less_pow2_1024: "n < 2 ^ 64 \<Longrightarrow> round_mag (of_nat n) < pow2 1024"
proof -
  assume n: "n < 2 ^ 64"
  then have "(of_nat n :: rat) < of_nat (2 ^ 64)" by (simp only: of_nat_less_iff)
  then have "(of_nat n :: rat) < pow2 64" by (simp add: pow2_def)
  then have "round_mag (of_nat n) \<le> pow2 64"
    using round_mag_le_pow2 [of "of_nat n" 64]
    by (cases "n = 0") (auto simp: round_mag_def pow2_def)
  also have "\<dots> < pow2 1024" by (simp add: pow2_less_iff)
  finally show ?thesis .
qed

text \<open>The cast of a 64-bit integer is finite, not negative and monotone.\<close>

lemma f64_of_nat_fin: "n < 2 ^ 64 \<Longrightarrow> f64_of_nat n = Fin False (round_mag (of_nat n))"
  using nat_less_pow2_1024 [of n] by (simp add: f64_of_nat_def round_f64_def)

lemma f64_of_nat_exact: "n < 2 ^ 53 \<Longrightarrow> f64_of_nat n = Fin False (of_nat n)"
  by (simp add: f64_of_nat_fin round_mag_nat)

text \<open>A magnitude of at most a small integer rounds to at most that integer.\<close>

lemma round_f64_le_nat:
  assumes "m \<le> of_nat n" and "n < 2 ^ 53"
  shows "\<exists>v. round_f64 s m = Fin s v \<and> 0 \<le> v \<and> v \<le> of_nat n"
proof -
  have v: "round_mag m \<le> of_nat n"
    using round_mag_mono [OF assms(1)] round_mag_nat [OF assms(2)] by simp
  also have "(of_nat n :: rat) < pow2 1024"
    using nat_less_pow2_1024 [of n] round_mag_nat [OF assms(2)] assms(2) by simp
  finally show ?thesis using v round_mag_nonneg by (simp add: round_f64_def)
qed

lemma round_between:
  assumes "of_nat a \<le> m" "m \<le> of_nat b" "b < 2 ^ 53"
  shows "\<exists>v. round_f64 s m = Fin s v \<and> of_nat a \<le> v \<and> v \<le> of_nat b"
proof -
  obtain v where v: "round_f64 s m = Fin s v" "v \<le> of_nat b" using round_f64_le_nat [OF assms(2,3)] by blast
  have "a \<le> b" using assms(1,2) by (metis of_nat_le_iff order_trans)
  then have "of_nat a \<le> round_mag m" using round_mag_mono [OF assms(1)] round_mag_nat [of a] assms(3) by simp
  moreover have "v = round_mag m" using v(1) by (auto simp: round_f64_def Let_def split: if_splits)
  ultimately show ?thesis using v by blast
qed

lemma round_f64_le_1: "m \<le> 1 \<Longrightarrow> \<exists>v. round_f64 s m = Fin s v \<and> 0 \<le> v \<and> v \<le> 1"
  using round_f64_le_nat [of m 1 s] by simp

text \<open>A magnitude in the range of the normal numbers does not round to zero.\<close>

lemma round_mag_pos:
  assumes "pow2 e \<le> m" and "-1022 \<le> e"
  shows "0 < round_mag m"
proof -
  have pos: "0 < m" using assms(1) pow2_pos [of e] by linarith
  have "pow2 e < pow2 (exponent m + 1)" using assms(1) exponent_bounds(2) [OF pos] by linarith
  then have "-1022 \<le> exponent m" using assms(2) by (simp add: pow2_less_iff)
  then have "pow2 (exponent m) \<le> round_mag m" using pos by (intro pow2_le_round_mag)
  with pow2_pos [of "exponent m"] show ?thesis by linarith
qed

text \<open>Literals that are small integers are exact.\<close>

lemma lit_nat: "n < 2 ^ 53 \<Longrightarrow> lit (of_nat n) = Fin False (of_nat n)"
  using f64_of_nat_exact [of n] by (auto simp: f64_of_nat_def lit_def of_exact_def)

lemma lit_0 [simp]: "lit 0 = Fin False 0"
  by (simp add: lit_def of_exact_def)

lemma lit_1 [simp]: "lit 1 = Fin False 1"
  using lit_nat [of 1] by simp

lemma lit_numeral: "numeral k < (2 ^ 53 :: nat) \<Longrightarrow> lit (numeral k) = Fin False (numeral k)"
  using lit_nat [of "numeral k"] by simp

lemma round_f64_nat: "n < 2 ^ 53 \<Longrightarrow> round_f64 s (of_nat n) = Fin s (of_nat n)"
  using nat_less_pow2_1024 [of n] round_mag_nat [of n] by (simp add: round_f64_def)

lemma round_f64_0 [simp]: "round_f64 s 0 = Fin s 0"
  using round_f64_nat [of 0] by simp

lemma round_f64_1 [simp]: "round_f64 s 1 = Fin s 1"
  using round_f64_nat [of 1] by simp

lemma round_f64_numeral: "numeral k < (2 ^ 53 :: nat) \<Longrightarrow> round_f64 s (numeral k) = Fin s (numeral k)"
  using round_f64_nat [of "numeral k"] by simp

subsection \<open>Comparisons\<close>

lemma flt_asym: "flt x y \<Longrightarrow> \<not> flt y x"
  by (cases x; cases y) auto

lemma flt_le_trans: "flt x (Fin False a) \<Longrightarrow> a \<le> b \<Longrightarrow> flt x (Fin False b)"
  by (cases x) auto

lemma lit_small:
  assumes "0 < x" and "x \<le> 1"
  shows "lit x = Fin False (round_mag x)"
proof -
  obtain v where "round_f64 False x = Fin False v" using round_f64_le_1 [OF assms(2)] by blast
  with assms show ?thesis by (auto simp: lit_def of_exact_def round_f64_def Let_def split: if_splits)
qed

text \<open>Among numbers, the comparison is a total preorder.\<close>

lemma flt_trans: "flt a b \<Longrightarrow> flt b c \<Longrightarrow> flt a c"
  by (cases a; cases b; cases c) (auto split: if_splits)

lemma not_flt_trans: "b \<noteq> NaN \<Longrightarrow> \<not> flt a b \<Longrightarrow> \<not> flt b c \<Longrightarrow> \<not> flt a c"
  by (cases a; cases b; cases c) (auto split: if_splits)

subsection \<open>Concrete values\<close>

lemma flt_not_flt_trans: "flt a b \<Longrightarrow> \<not> flt c b \<Longrightarrow> c \<noteq> NaN \<Longrightarrow> flt a c"
  by (cases a; cases b; cases c) (auto split: if_splits)

lemma exponent_eq:
  assumes "pow2 e \<le> m" and "m < pow2 (e + 1)"
  shows "exponent m = e"
proof -
  have pos: "0 < m" using assms(1) pow2_pos [of e] by linarith
  note b = exponent_bounds [OF pos]
  have "pow2 e < pow2 (exponent m + 1)" using assms(1) b(2) by linarith
  moreover have "pow2 (exponent m) < pow2 (e + 1)" using assms(2) b(1) by linarith
  ultimately show ?thesis by (simp add: pow2_less_iff)
qed

lemma round_half_even_near:
  assumes "of_int n - 1 / 2 < x" and "x < of_int n + 1 / 2"
  shows "round_half_even x = n"
proof (cases "of_int n \<le> x")
  case True
  with assms(2) have "\<lfloor>x\<rfloor> = n" by (intro floor_unique) linarith+
  with True assms show ?thesis by (simp add: round_half_even_def)
next
  case False
  with assms(1) have "\<lfloor>x\<rfloor> = n - 1" by (intro floor_unique) auto
  with False assms show ?thesis by (simp add: round_half_even_def Let_def)
qed

text \<open>Rounding of a concrete magnitude, from its binade and the nearest multiple of its unit.\<close>

lemma round_mag_near:
  assumes "pow2 e \<le> m" and "m < pow2 (e + 1)" and "-1022 \<le> e"
    and "(of_int n - 1 / 2) * pow2 (e - 52) < m" and "m < (of_int n + 1 / 2) * pow2 (e - 52)"
  shows "round_mag m = of_int n * pow2 (e - 52)"
proof -
  have pos: "0 < m" using assms(1) pow2_pos [of e] by linarith
  have u: "ulp m = pow2 (e - 52)"
    using assms(3) by (simp add: ulp_def exponent_eq [OF assms(1,2)])
  have "round_half_even (m / pow2 (e - 52)) = n"
    using assms(4,5) by (intro round_half_even_near) (simp_all add: pos_less_divide_eq pos_divide_less_eq)
  with pos u show ?thesis by (simp add: round_mag_def)
qed

text \<open>Sums and products of magnitudes round the exact result.\<close>

lemma fadd_mag: "0 \<le> a \<Longrightarrow> 0 \<le> b \<Longrightarrow> fadd (Fin False a) (Fin False b) = round_f64 False (a + b)"
  using pow2_pos [of 1024]
  by (auto simp: of_exact_def round_f64_def round_mag_def add_nonneg_eq_0_iff Let_def
    simp del: pow2_pos)

lemma fmul_mag: "fmul (Fin False a) (Fin False b) = round_f64 False (a * b)"
  by simp

subsection \<open>Sums of numbers that are not negative\<close>

text \<open>Rounding twice is rounding once.\<close>

lemma round_mag_pow2: "- 1022 \<le> e \<Longrightarrow> round_mag (pow2 e) = pow2 e"
proof -
  assume e: "- 1022 \<le> e"
  have "exponent (pow2 e) = e" by (rule exponent_eq) (simp_all add: pow2_less_iff)
  with e have "pow2 e / ulp (pow2 e) = pow2 52" by (simp add: ulp_def flip: pow2_diff)
  moreover have "pow2 52 = of_int (2 ^ 52)" by (simp add: pow2_def)
  ultimately have "round_half_even (pow2 e / ulp (pow2 e)) = 2 ^ 52"
    by (simp only: round_half_even_int)
  moreover have "\<not> pow2 e \<le> 0" by (simp add: not_le)
  ultimately have "round_mag (pow2 e) = of_int (2 ^ 52) * ulp (pow2 e)"
    by (simp only: round_mag_def if_False)
  also have "\<dots> = pow2 e"
    using \<open>pow2 e / ulp (pow2 e) = pow2 52\<close> \<open>pow2 52 = of_int (2 ^ 52)\<close>
    by (metis nonzero_eq_divide_eq less_irrefl ulp_pos)
  finally show ?thesis .
qed

lemma round_mag_ulp:
  assumes "0 < m" and "0 < round_mag m" and "ulp (round_mag m) = ulp m"
  shows "round_mag (round_mag m) = round_mag m"
proof -
  define k where "k = round_half_even (m / ulp m)"
  define v where "v = round_mag m"
  have v: "v = of_int k * ulp m"
    using assms(1) by (simp add: round_mag_def k_def v_def)
  have "ulp m \<noteq> 0" using ulp_pos [of m] by linarith
  with v have "v / ulp m = of_int k" by simp
  moreover have "0 < v" using assms(2) by (simp add: v_def)
  then have "round_mag v = of_int (round_half_even (v / ulp v)) * ulp v"
    by (simp add: round_mag_def)
  ultimately have "round_mag v = of_int k * ulp m"
    using assms(3) by (simp add: v_def)
  with v show ?thesis by (simp add: v_def)
qed

lemma round_mag_idem: "round_mag (round_mag m) = round_mag m"
proof (cases "0 < m \<and> 0 < round_mag m")
  case False
  then have "round_mag m = 0"
    using round_mag_nonneg [of m] by (auto simp: round_mag_def)
  then show ?thesis by (simp add: round_mag_def)
next
  case True
  define e where "e = exponent m"
  define v where "v = round_mag m"
  have m: "pow2 e \<le> m" "m < pow2 (e + 1)"
    using True exponent_bounds [of m] by (simp_all add: e_def)
  show ?thesis
  proof (cases "- 1022 \<le> e")
    case normal: True
    have lo: "pow2 e \<le> v"
      using normal True unfolding e_def v_def by (intro pow2_le_round_mag) auto
    have hi: "v \<le> pow2 (e + 1)"
      using round_mag_mono [of m "pow2 (e + 1)"] m round_mag_pow2 [of "e + 1"] normal
      by (simp add: v_def)
    show ?thesis
    proof (cases "v = pow2 (e + 1)")
      case True
      with normal show ?thesis by (simp add: v_def round_mag_pow2)
    next
      case False
      with hi have "v < pow2 (e + 1)" by simp
      then have "exponent v = e" using lo by (intro exponent_eq)
      then have "ulp v = ulp m" by (simp add: ulp_def e_def)
      with True show ?thesis unfolding v_def by (intro round_mag_ulp) auto
    qed
  next
    case False
    have "pow2 (e + 1) \<le> pow2 (- 1022)" using False by (intro pow2_mono) simp
    then have "m \<le> pow2 (- 1022)" using m(2) by linarith
    then have hi: "v \<le> pow2 (- 1022)"
      using round_mag_mono [of m "pow2 (- 1022)"] round_mag_pow2 [of "- 1022"] by (simp add: v_def)
    have pos: "0 < v" using True by (simp add: v_def)
    then have "pow2 (exponent v) \<le> pow2 (- 1022)" using hi exponent_bounds(1) [OF pos] by linarith
    then have "exponent v \<le> - 1022" by (metis pow2_less_iff linorder_not_le)
    then have "ulp v = ulp m" using False by (simp add: ulp_def e_def max_def)
    with True show ?thesis unfolding v_def by (intro round_mag_ulp) auto
  qed
qed

definition fnonneg :: "f64 \<Rightarrow> bool" where
  "fnonneg x \<longleftrightarrow> x \<noteq> NaN \<and> \<not> flt x (Fin False 0)"

text \<open>A value that is the result of a rounding, or is not finite.\<close>

fun rounded :: "f64 \<Rightarrow> bool" where
  "rounded (Fin s m) \<longleftrightarrow> 0 \<le> m \<and> round_mag m = m \<and> m < pow2 1024"
| "rounded _ \<longleftrightarrow> True"

lemma rounded_round_f64: "rounded (round_f64 s m)"
  by (simp add: round_f64_def Let_def round_mag_idem round_mag_nonneg not_le)

lemma rounded_of_exact: "rounded (of_exact z x)"
  by (simp add: of_exact_def rounded_round_f64 round_mag_def)

lemma rounded_fadd: "rounded (fadd x y)"
  by (cases x; cases y) (auto simp: rounded_of_exact simp del: val.simps)

lemma round_f64_mono:
  assumes "x \<le> y"
  shows "\<not> flt (round_f64 False y) (round_f64 False x)"
  using round_mag_mono [OF assms] by (auto simp: round_f64_def Let_def)

lemma fnonneg_round_f64: "fnonneg (round_f64 False x)"
  using round_mag_nonneg [of x] by (auto simp: fnonneg_def round_f64_def Let_def not_less)

lemma fnonneg_of_exact: "0 \<le> x \<Longrightarrow> fnonneg (of_exact z x)"
  using fnonneg_round_f64 [of x] by (auto simp: of_exact_def fnonneg_def)

lemma of_exact_mono:
  assumes "0 \<le> x" and "x \<le> y"
  shows "\<not> flt (of_exact z y) (of_exact w x)"
proof (cases "x = 0")
  case True
  have "of_exact w x = Fin w 0" using True by (simp add: of_exact_def)
  moreover have "fnonneg (of_exact z y)" using assms by (intro fnonneg_of_exact) simp
  ultimately show ?thesis by (cases "of_exact z y") (auto simp: fnonneg_def)
next
  case False
  with assms have "0 < x" "0 < y" by simp_all
  with assms show ?thesis by (simp add: of_exact_def round_f64_mono)
qed

lemma fnonneg_cases:
  assumes "fnonneg x"
  obtains "x = Inf False" | s m where "x = Fin s m" "0 \<le> val (Fin s m)"
  using assms by (cases x) (auto simp: fnonneg_def not_less split: if_splits)

lemma fnonneg_0 [simp]: "fnonneg (Fin False 0)"
  by (simp add: fnonneg_def)

lemma fadd_nonneg:
  assumes "fnonneg x" and "fnonneg y"
  shows "fnonneg (fadd x y)"
proof -
  have [simp]: "fnonneg (Inf False)" by (simp add: fnonneg_def)
  from assms show ?thesis
    by (elim fnonneg_cases) (auto simp: fnonneg_of_exact simp del: val.simps)
qed

text \<open>A sum grows with its first argument, and is not below it.\<close>

lemma fadd_mono:
  assumes "fnonneg x" and "fnonneg y" and "fnonneg c" and "\<not> flt y x"
  shows "\<not> flt (fadd y c) (fadd x c)"
proof -
  have inf: "\<not> flt (Inf False) u" for u by (cases u) auto
  from assms(3) show ?thesis
  proof (cases rule: fnonneg_cases)
    case 1
    then show ?thesis using assms(1,2) by (elim fnonneg_cases) auto
  next
    case c: (2 s m)
    from assms(2) show ?thesis
    proof (cases rule: fnonneg_cases)
      case 1
      with c inf show ?thesis by simp
    next
      case y: (2 t k)
      from assms(1) show ?thesis
      proof (cases rule: fnonneg_cases)
        case 1
        with assms(4) y show ?thesis by simp
      next
        case x: (2 u n)
        with assms(4) y have "val (Fin u n) \<le> val (Fin t k)" by (simp del: val.simps)
        with c x y show ?thesis by (simp add: of_exact_mono del: val.simps)
      qed
    qed
  qed
qed

lemma of_exact_rounded:
  assumes "rounded (Fin s m)" and "0 \<le> val (Fin s m)"
  shows "\<not> flt (of_exact z (val (Fin s m))) (Fin s m) \<and> \<not> flt (Fin s m) (of_exact z (val (Fin s m)))"
  using assms by (auto simp: of_exact_def round_f64_def Let_def not_le)

lemma fadd_incr:
  assumes "fnonneg x" and "fnonneg c" and "rounded x"
  shows "\<not> flt (fadd x c) x"
  using assms(1)
proof (cases rule: fnonneg_cases)
  case 1
  with assms(2) show ?thesis by (elim fnonneg_cases) auto
next
  case x: (2 s m)
  from assms(2) show ?thesis
  proof (cases rule: fnonneg_cases)
    case 1
    with x show ?thesis by simp
  next
    case c: (2 t k)
    define v w where "v = val (Fin s m)" and "w = val (Fin t k)"
    have "\<not> flt (of_exact (s \<and> t) (v + w)) (of_exact False v)"
      using x c by (intro of_exact_mono) (simp_all add: v_def w_def del: val.simps)
    moreover have "\<not> flt (of_exact False v) (Fin s m)"
      using of_exact_rounded [of s m False] x assms(3) by (simp add: v_def del: val.simps)
    moreover have "of_exact False v \<noteq> NaN"
      using fnonneg_of_exact [of v False] x by (simp add: fnonneg_def v_def del: val.simps)
    ultimately have "\<not> flt (of_exact (s \<and> t) (v + w)) (Fin s m)" by (metis not_flt_trans)
    with x c show ?thesis by (simp add: v_def w_def del: val.simps)
  qed
qed

subsection \<open>Magnitudes\<close>

text \<open>Finite values without a sign, and those of at most 1.\<close>

definition fmag :: "f64 \<Rightarrow> bool" where
  "fmag x \<longleftrightarrow> (\<exists>m. x = Fin False m \<and> 0 \<le> m)"

definition funit :: "f64 \<Rightarrow> bool" where
  "funit x \<longleftrightarrow> (\<exists>m. x = Fin False m \<and> 0 \<le> m \<and> m \<le> 1)"

lemma funit_fmag: "funit x \<Longrightarrow> fmag x"
  by (auto simp: funit_def fmag_def)

lemma fmag_nonneg: "fmag x \<Longrightarrow> fnonneg x"
  by (auto simp: fmag_def fnonneg_def)

lemma fmul_fmag: "fmag x \<Longrightarrow> fmag y \<Longrightarrow> fnonneg (fmul x y)"
  by (auto simp: fmag_def fmul_mag fnonneg_round_f64)

lemma fmag_lit_small: "0 \<le> x \<Longrightarrow> x \<le> 1 \<Longrightarrow> fmag (lit x)"
  using lit_small [of x] round_mag_nonneg [of x] by (cases "x = 0") (auto simp: fmag_def)

text \<open>\<open>1 - min x 1\<close> of a value that is not negative.\<close>

lemma funit_complement: "funit x \<Longrightarrow> funit (fsub (lit 1) x)"
proof -
  assume "funit x"
  then obtain m where m: "x = Fin False m" "0 \<le> m" "m \<le> 1" by (auto simp: funit_def)
  from m(2) obtain v where "round_f64 False (1 - m) = Fin False v" "0 \<le> v" "v \<le> 1"
    using round_f64_le_1 [of "1 - m" False] by auto
  with m show ?thesis by (auto simp: fsub_def of_exact_def funit_def)
qed

lemma funit_score:
  assumes "fmag x" and "fmag y"
  shows "funit (fsub (lit 1) (fmin (fdiv x y) (lit 1)))"
proof (cases "fdiv x y")
  case NaN
  then show ?thesis by (simp add: fmin_def fsub_def of_exact_def funit_def)
next
  case (Inf s)
  with assms have "fdiv x y = Inf False" by (auto simp: fmag_def round_f64_def Let_def split: if_splits)
  then have "fmin (fdiv x y) (lit 1) = lit 1" by (simp add: fmin_def)
  moreover have "funit (fsub (lit 1) (lit 1))" by (rule funit_complement) (simp add: funit_def)
  ultimately show ?thesis by (simp only:)
next
  case (Fin s m)
  with assms have "s = False" "0 \<le> m"
    using round_mag_nonneg by (auto simp: fmag_def round_f64_def Let_def split: if_splits)
  with Fin have "funit (fmin (fdiv x y) (lit 1))" by (auto simp: fmin_def funit_def)
  then show ?thesis by (rule funit_complement)
qed

lemma fadd_le_nat:
  assumes "x = Fin False a" "0 \<le> a" "a \<le> of_nat k" and "funit y" and "Suc k < 2 ^ 53"
  shows "\<exists>v. fadd x y = Fin False v \<and> 0 \<le> v \<and> v \<le> of_nat (Suc k)"
proof -
  obtain b where "y = Fin False b" "0 \<le> b" "b \<le> 1" using assms(4) by (auto simp: funit_def)
  with assms round_f64_le_nat [of "a + b" "Suc k" False] show ?thesis by (auto simp: fadd_mag simp del: fadd.simps)
qed

text \<open>\<open>1 / (n + 1)\<close> of a cast integer.\<close>

lemma fmag_recip_succ:
  assumes "n < 2 ^ 64"
  shows "fmag (fdiv (lit 1) (fadd (f64_of_nat n) (lit 1)))"
proof -
  let ?v = "round_mag (of_nat n)"
  have "fadd (f64_of_nat n) (lit 1) = round_f64 False (?v + 1)"
    using f64_of_nat_fin [OF assms] round_mag_nonneg [of "of_nat n"] by (simp add: fadd_mag del: fadd.simps)
  moreover have w: "1 \<le> round_mag (?v + 1)"
    using round_mag_mono [of 1 "?v + 1"] round_mag_nat [of 1] round_mag_nonneg [of "of_nat n"] by simp
  ultimately consider "fadd (f64_of_nat n) (lit 1) = Inf False"
    | v where "fadd (f64_of_nat n) (lit 1) = Fin False v" "1 \<le> v"
    by (cases "pow2 1024 \<le> round_mag (?v + 1)") (auto simp: round_f64_def)
  then show ?thesis
  proof cases
    case 1
    then show ?thesis by (simp add: fmag_def)
  next
    case (2 v)
    then obtain u where "round_f64 False (1 / v) = Fin False u" "0 \<le> u"
      using round_f64_le_1 [of "1 / v" False] by auto
    with 2 show ?thesis by (simp add: fmag_def)
  qed
qed

subsection \<open>Rounding errors\<close>

lemma fdiv_nat_funit:
  assumes "a \<le> b" "0 < b" "b < 2 ^ 64"
  shows "funit (fdiv (f64_of_nat a) (f64_of_nat b))"
proof -
  have mono: "round_mag (of_nat a) \<le> round_mag (of_nat b)"
    using assms(1) by (intro round_mag_mono) simp
  have "round_mag (of_nat 1) \<le> round_mag (of_nat b)"
    using assms(2) by (intro round_mag_mono) simp
  then have b1: "1 \<le> round_mag (of_nat b)" using round_mag_nat [of 1] by simp
  then have q: "round_mag (of_nat a) / round_mag (of_nat b) \<le> 1" using mono by simp
  have "fdiv (f64_of_nat a) (f64_of_nat b) = round_f64 False (round_mag (of_nat a) / round_mag (of_nat b))"
    using b1 assms by (simp add: f64_of_nat_fin)
  with round_f64_le_1 [OF q, of False] show ?thesis by (auto simp: funit_def)
qed

text \<open>Below 2 the error of a rounding is at most half a unit of 1.\<close>

lemma round_half_even_error: "\<bar>of_int (round_half_even x) - x\<bar> \<le> 1 / 2"
  using of_int_floor_le [of x] floor_correct [of x]
  by (simp add: round_half_even_def Let_def abs_le_iff)

lemma round_mag_error:
  assumes "0 \<le> m" "m < 2"
  shows "\<bar>round_mag m - m\<bar> \<le> pow2 (-53)"
proof (cases "m = 0")
  case True
  then show ?thesis by (simp add: round_mag_def less_imp_le)
next
  case False
  with assms have pos: "0 < m" by simp
  have two: "(2::rat) = pow2 1" by (simp add: pow2_def)
  have "pow2 (exponent m) < pow2 1" using exponent_bounds(1) [OF pos] assms(2) two by linarith
  then have "exponent m \<le> 0" by (simp add: pow2_less_iff)
  then have u: "ulp m \<le> pow2 (-52)" unfolding ulp_def by (intro pow2_mono) simp
  have "round_mag m - m = (of_int (round_half_even (m / ulp m)) - m / ulp m) * ulp m"
    using pos ulp_pos [of m] less_imp_neq [OF ulp_pos [of m]] by (simp add: round_mag_def algebra_simps)
  then have "\<bar>round_mag m - m\<bar> = \<bar>of_int (round_half_even (m / ulp m)) - m / ulp m\<bar> * ulp m"
    using ulp_pos [of m] by (simp add: abs_mult less_imp_le)
  also have "\<dots> \<le> 1 / 2 * ulp m"
    using round_half_even_error ulp_pos [of m] by (intro mult_right_mono) (simp_all add: less_imp_le)
  also have "\<dots> \<le> 1 / 2 * pow2 (-52)" using u by simp
  also have "\<dots> = pow2 (-53)" by (simp add: pow2_def)
  finally show ?thesis .
qed

lemma round_f64_error:
  assumes "0 \<le> m" "m \<le> 1"
  shows "\<exists>v. round_f64 s m = Fin s v \<and> 0 \<le> v \<and> v \<le> 1 \<and> \<bar>v - m\<bar> \<le> pow2 (-53)"
  using round_f64_le_1 [OF assms(2), of s] round_mag_error [OF assms(1)] assms(2)
  by (auto simp: round_f64_def Let_def split: if_splits)

lemma lit_error:
  assumes "0 \<le> m" "m \<le> 1"
  shows "\<exists>v. lit m = Fin False v \<and> 0 \<le> v \<and> v \<le> 1 \<and> \<bar>v - m\<bar> \<le> pow2 (-53)"
  using round_f64_error [OF assms, of False] assms less_imp_le [OF pow2_pos [of "-53"]]
  by (cases "m = 0") (simp_all add: lit_def of_exact_def)

lemma of_exact_error:
  assumes "-1 \<le> x" "x \<le> 1"
  shows "\<exists>s v. of_exact z x = Fin s v \<and> \<bar>val (Fin s v) - x\<bar> \<le> pow2 (-53) \<and> (0 \<le> x \<longrightarrow> 0 \<le> val (Fin s v))"
proof (cases "x = 0")
  case True
  then show ?thesis using less_imp_le [OF pow2_pos [of "-53"]] by (simp add: of_exact_def)
next
  case False
  obtain v where "round_f64 (x < 0) \<bar>x\<bar> = Fin (x < 0) v" "0 \<le> v" "\<bar>v - \<bar>x\<bar>\<bar> \<le> pow2 (-53)"
    using round_f64_error [of "\<bar>x\<bar>" "x < 0"] assms by (auto simp: abs_le_iff)
  with False show ?thesis by (auto simp: of_exact_def)
qed

lemma of_exact_nonneg_error:
  assumes "0 \<le> x" "x < 2"
  shows "\<exists>v. of_exact False x = Fin False v \<and> 0 \<le> v \<and> \<bar>v - x\<bar> \<le> pow2 (-53)"
  using assms round_f64_le_nat [of x 2 False] round_mag_error [of x] less_imp_le [OF pow2_pos [of "-53"]]
  by (cases "x = 0") (auto simp: of_exact_def round_f64_def Let_def split: if_splits)

text \<open>Exact square roots.\<close>

lemma isqrt_power: "isqrt (4 ^ k) = 2 ^ k"
proof (induction k)
  case 0
  show ?case by (simp add: isqrt.simps)
next
  case (Suc k)
  have "(4 :: nat) ^ Suc k = 2 * 2 ^ k * (2 * 2 ^ k)" by (simp flip: power_mult_distrib)
  with Suc show ?case by (subst isqrt.simps) (simp add: Let_def)
qed

lemma sqrt_mag_1: "sqrt_mag 1 = 1"
proof -
  have e: "exponent 1 = 0" by (rule exponent_eq) (simp_all add: pow2_def)
  have q: "1 / (pow2 (- 52) * pow2 (- 52)) = of_nat (4 ^ 52)" by (simp add: pow2_def)
  have "(of_nat (2 ^ 52) :: rat) * pow2 (- 52) = 1" by (simp add: pow2_def)
  moreover have "\<not> (of_nat (2 ^ 52) + 1 / 2) * (of_nat (2 ^ 52) + 1 / 2) < (of_nat (4 ^ 52) :: rat)" by simp
  ultimately show ?thesis by (simp only: sqrt_mag_def e Let_def div_0 diff_0 q floor_of_nat nat_int isqrt_power if_False)
qed

text \<open>A tie is rounded to the even neighbour.\<close>

lemma round_mag_tie:
  assumes "even n" "0 < m" "m = (of_int n - 1 / 2) * pow2 (e - 52)" "pow2 e \<le> m" "m < pow2 (e + 1)" "-1022 \<le> e"
  shows "round_mag m = of_int n * pow2 (e - 52)"
proof -
  have u: "ulp m = pow2 (e - 52)" using assms(6) by (simp add: ulp_def exponent_eq [OF assms(4,5)])
  have q: "m / pow2 (e - 52) = of_int n - 1 / 2"
    using assms(3) less_imp_neq [OF pow2_pos [of "e - 52"]] by simp
  have "\<lfloor>(of_int n - 1 / 2 :: rat)\<rfloor> = n - 1" by (intro floor_unique) simp_all
  then have "round_half_even (of_int n - 1 / 2) = n"
    using assms(1) by (simp add: round_half_even_def)
  then show ?thesis using assms(2) q u by (simp add: round_mag_def)
qed

text \<open>The integer square root.\<close>

lemma isqrt_spec: "isqrt n * isqrt n \<le> n \<and> n < (isqrt n + 1) * (isqrt n + 1)"
proof (induction n rule: isqrt.induct)
  case (1 n)
  show ?case
  proof (cases "n = 0")
    case True
    then show ?thesis by (simp add: isqrt.simps)
  next
    case False
    define q where "q = isqrt (n div 4)"
    have q: "q * q \<le> n div 4" "n div 4 < (q + 1) * (q + 1)" using 1 [OF False] by (simp_all add: q_def)
    have "4 * (q * q) \<le> n" using q(1) by presburger
    moreover have "n < 4 * ((q + 1) * (q + 1))" using q(2) by presburger
    ultimately have "2 * q * (2 * q) \<le> n" "n < (2 * q + 2) * (2 * q + 2)" by (simp_all add: algebra_simps)
    moreover have "isqrt n = (if (2 * q + 1) * (2 * q + 1) \<le> n then 2 * q + 1 else 2 * q)"
      using False by (subst isqrt.simps) (simp add: q_def Let_def)
    ultimately show ?thesis by auto
  qed
qed

end
