(* ===== verification/Uplink_Scheduler.thy ===== *)
theory Uplink_Scheduler
  imports Uplink_Command F64
begin

text \<open>
  Scheduling of transmissions into pass windows (\<open>uplink/src/scheduler.rs\<close>).

  The estimated duration is computed in binary64 from the payload length and the rate of the
  window. The date library refuses values out of its range: \<open>Duration::milliseconds\<close> and the sum of
  a date and a duration panic. Its ranges are the parameter \<open>chrono\<close>, and a call that panics is
  \<open>None\<close>. The iteration orders of the two maps are arguments (\<open>ws\<close> and \<open>js\<close>), and so are the clock
  readings: \<open>now\<close> is the first of a call, \<open>clk p\<close> the one made for the window of pass \<open>p\<close>.

  A call is one step here. In the code the read guard under which \<open>schedule\<close> looks for conflicts is dropped before the
  write guard under which it stores is taken, so this holds for calls that do not run at the same time.
\<close>

section \<open>Definitions\<close>

record transmission_window =
  tw_pass_id :: pass_id
  tw_start :: datetime
  tw_end :: datetime
  tw_max_rate :: f64
  tw_power_budget :: f64

definition window_contains :: "transmission_window \<Rightarrow> datetime \<Rightarrow> bool" where
  "window_contains w t \<longleftrightarrow> tw_start w \<le> t \<and> t \<le> tw_end w"

definition window_duration :: "transmission_window \<Rightarrow> duration" where
  "window_duration w = tw_end w - tw_start w"

definition time_until_start :: "datetime \<Rightarrow> transmission_window \<Rightarrow> duration option" where
  "time_until_start now w = (if now < tw_start w then Some (tw_start w - now) else None)"

record scheduled_transmission =
  st_command_id :: uuid
  st_window :: transmission_window
  st_transmission_time :: datetime
  st_estimated_duration :: duration
  st_doppler_compensation :: f64

datatype conflict_strategy = Priority | Fcfs | Reject

record transmission_scheduler =
  ts_windows :: "pass_id \<rightharpoonup> transmission_window"
  ts_scheduled :: "uuid \<rightharpoonup> scheduled_transmission"
  ts_pending :: "command list"
  ts_conflict_strategy :: conflict_strategy

definition scheduler_new :: "conflict_strategy \<Rightarrow> transmission_scheduler" where
  "scheduler_new strategy =
     \<lparr>ts_windows = Map.empty, ts_scheduled = Map.empty, ts_pending = [],
      ts_conflict_strategy = strategy\<rparr>"

definition add_window :: "transmission_window \<Rightarrow> transmission_scheduler \<Rightarrow>
    unit result \<times> transmission_scheduler" where
  "add_window w s = (Inr (), s\<lparr>ts_windows := (ts_windows s)(tw_pass_id w \<mapsto> w)\<rparr>)"

definition remove_window :: "pass_id \<Rightarrow> transmission_scheduler \<Rightarrow>
    unit result \<times> transmission_scheduler" where
  "remove_window p s = (Inr (), s\<lparr>ts_windows := (ts_windows s)(p := None)\<rparr>)"

definition get_window :: "pass_id \<Rightarrow> transmission_scheduler \<Rightarrow> transmission_window option" where
  "get_window p s = ts_windows s p"

definition active_windows :: "datetime \<Rightarrow> pass_id list \<Rightarrow> transmission_scheduler \<Rightarrow>
    transmission_window list" where
  "active_windows now ws s =
     filter (\<lambda>w. window_contains w now) (map_values (ts_windows s) ws)"

text \<open>The loop of \<open>has_conflict\<close>: it stops at the first overlap; a sum out of range panics.\<close>

definition overlap_check :: "chrono \<Rightarrow> scheduled_transmission \<Rightarrow> scheduled_transmission \<Rightarrow>
    bool option" where
  "overlap_check ch x existing =
     (case date_add ch (st_transmission_time existing) (st_estimated_duration existing) of
        None \<Rightarrow> None
      | Some e \<Rightarrow>
          (if \<not> st_transmission_time x < e then Some False
           else
             (case date_add ch (st_transmission_time x) (st_estimated_duration x) of
                None \<Rightarrow> None
              | Some f \<Rightarrow> Some (st_transmission_time existing < f))))"

fun conflict_loop :: "chrono \<Rightarrow> scheduled_transmission \<Rightarrow> scheduled_transmission list \<Rightarrow>
    bool option" where
  "conflict_loop ch x [] = Some False"
| "conflict_loop ch x (e # es) =
     (case overlap_check ch x e of
        None \<Rightarrow> None
      | Some True \<Rightarrow> Some True
      | Some False \<Rightarrow> conflict_loop ch x es)"

definition has_conflict :: "chrono \<Rightarrow> uuid list \<Rightarrow> scheduled_transmission \<Rightarrow>
    transmission_scheduler \<Rightarrow> bool option" where
  "has_conflict ch js x s = conflict_loop ch x (map_values (ts_scheduled s) js)"

definition can_override :: "uuid list \<Rightarrow> command \<Rightarrow> transmission_scheduler \<Rightarrow> bool" where
  "can_override js c s =
     (if ts_scheduled s (cmd_id c) \<noteq> None then False
      else list_all (\<lambda>existing.
             case List.find (\<lambda>p. cmd_id p = st_command_id existing) (ts_pending s) of
               None \<Rightarrow> True
             | Some p \<Rightarrow> \<not> cmd_priority c \<le> cmd_priority p)
           (map_values (ts_scheduled s) js))"

text \<open>The milliseconds of the estimate, as the cast to \<open>i64\<close> yields them.\<close>

definition estimate_ms :: "command \<Rightarrow> transmission_window \<Rightarrow> int" where
  "estimate_ms c w =
     f64_to_i64 (fmul (fdiv (f64_of_nat (length (cmd_payload c))) (tw_max_rate w)) (lit 1000))"

definition find_window :: "datetime \<Rightarrow> (pass_id \<Rightarrow> datetime) \<Rightarrow> pass_id list \<Rightarrow>
    transmission_scheduler \<Rightarrow> transmission_window option" where
  "find_window now clk ws s =
     List.find (\<lambda>w. window_contains w now \<or> time_until_start (clk (tw_pass_id w)) w \<noteq> None)
       (map_values (ts_windows s) ws)"

definition schedule :: "chrono \<Rightarrow> datetime \<Rightarrow> (pass_id \<Rightarrow> datetime) \<Rightarrow> pass_id list \<Rightarrow>
    uuid list \<Rightarrow> command \<Rightarrow> transmission_scheduler \<Rightarrow>
    (scheduled_transmission result \<times> transmission_scheduler) option" where
  "schedule ch now clk ws js c s =
     (case find_window now clk ws s of
        None \<Rightarrow> Some (Inl (Validation ''No suitable transmission window''), s)
      | Some w \<Rightarrow>
          (let t = (if window_contains w now then now else tw_start w);
               d = duration_milliseconds (estimate_ms c w);
               x = \<lparr>st_command_id = cmd_id c, st_window = w, st_transmission_time = t,
                    st_estimated_duration = d, st_doppler_compensation = lit 0\<rparr>;
               store = Some (Inr x, s\<lparr>ts_scheduled := (ts_scheduled s)(cmd_id c \<mapsto> x)\<rparr>)
           in if \<not> duration_in_range ch d then None
              else
                (case has_conflict ch js x s of
                   None \<Rightarrow> None
                 | Some False \<Rightarrow> store
                 | Some True \<Rightarrow>
                     (case ts_conflict_strategy s of
                        Priority \<Rightarrow>
                          (if \<not> can_override js c s
                           then Some (Inl (Validation ''Transmission conflict - lower priority''), s)
                           else store)
                      | Fcfs \<Rightarrow>
                          Some (Inl (Validation ''Transmission conflict - first come first served''), s)
                      | Reject \<Rightarrow> Some (Inl (Validation ''Transmission conflict - rejected''), s)))))"

definition get_scheduled :: "uuid \<Rightarrow> transmission_scheduler \<Rightarrow> scheduled_transmission option" where
  "get_scheduled i s = ts_scheduled s i"

definition remove_scheduled :: "uuid \<Rightarrow> transmission_scheduler \<Rightarrow>
    unit result \<times> transmission_scheduler" where
  "remove_scheduled i s = (Inr (), s\<lparr>ts_scheduled := (ts_scheduled s)(i := None)\<rparr>)"

definition all_scheduled :: "uuid list \<Rightarrow> transmission_scheduler \<Rightarrow> scheduled_transmission list" where
  "all_scheduled js s = map_values (ts_scheduled s) js"

inductive sched_step :: "chrono \<Rightarrow> transmission_scheduler \<Rightarrow> transmission_scheduler \<Rightarrow> bool"
  for ch :: chrono where
  sched_add_window: "sched_step ch s (snd (add_window w s))"
| sched_remove_window: "sched_step ch s (snd (remove_window p s))"
| sched_schedule: "iter_order (ts_windows s) ws \<Longrightarrow> iter_order (ts_scheduled s) js \<Longrightarrow>
    schedule ch now clk ws js c s = Some (r, s') \<Longrightarrow> sched_step ch s s'"
| sched_remove: "sched_step ch s (snd (remove_scheduled i s))"

text \<open>Two transmissions share a moment of time.\<close>

definition overlaps :: "scheduled_transmission \<Rightarrow> scheduled_transmission \<Rightarrow> bool" where
  "overlaps a b \<longleftrightarrow>
     st_transmission_time a < st_transmission_time b + st_estimated_duration b \<and>
     st_transmission_time b < st_transmission_time a + st_estimated_duration a"

definition sched_inv :: "conflict_strategy \<Rightarrow> transmission_scheduler \<Rightarrow> bool" where
  "sched_inv strategy s \<longleftrightarrow>
     ts_conflict_strategy s = strategy \<and> ts_pending s = [] \<and>
     keyed tw_pass_id (ts_windows s) \<and> keyed st_command_id (ts_scheduled s) \<and>
     (strategy \<noteq> Priority \<longrightarrow>
        (\<forall>i j a b. i \<noteq> j \<longrightarrow> ts_scheduled s i = Some a \<longrightarrow> ts_scheduled s j = Some b \<longrightarrow>
           \<not> overlaps a b))"

text \<open>A scheduler with one window, commands of three bytes, and generous date ranges, for the
  witnesses.\<close>

definition sample_chrono :: chrono where
  "sample_chrono = \<lparr>date_in_range = (\<lambda>t. \<bar>t\<bar> < 10 ^ 22), duration_in_range = (\<lambda>d. \<bar>d\<bar> < 10 ^ 25)\<rparr>"

definition sample_window :: transmission_window where
  "sample_window = \<lparr>tw_pass_id = PassId ''P'', tw_start = 0, tw_end = 100 * 10 ^ 9,
     tw_max_rate = Fin False 1, tw_power_budget = Fin False 10\<rparr>"

definition uplink_command :: "uuid \<Rightarrow> command_priority \<Rightarrow> command" where
  "uplink_command i p = command_new i 0 (SatelliteId ''SAT-1'') [1, 2, 3] Immediate p [7]"

definition booked :: "uuid \<Rightarrow> datetime \<Rightarrow> scheduled_transmission" where
  "booked i t = \<lparr>st_command_id = i, st_window = sample_window, st_transmission_time = t,
     st_estimated_duration = 3 * 10 ^ 9, st_doppler_compensation = lit 0\<rparr>"

definition with_window :: "conflict_strategy \<Rightarrow> transmission_scheduler" where
  "with_window strategy = snd (add_window sample_window (scheduler_new strategy))"

definition with_booking :: "conflict_strategy \<Rightarrow> transmission_scheduler" where
  "with_booking strategy =
     (with_window strategy)\<lparr>ts_scheduled := [1 \<mapsto> booked 1 5]\<rparr>"

section \<open>Lemmas\<close>

lemma overlaps_sym: "overlaps a b \<longleftrightarrow> overlaps b a"
  by (auto simp: overlaps_def)

lemma overlap_check_Some: "overlap_check ch x e = Some r \<Longrightarrow> r = overlaps x e"
  by (auto simp: overlap_check_def overlaps_def date_add_def split: if_splits option.splits)

lemma conflict_loop_Some:
  "conflict_loop ch x es = Some r \<Longrightarrow> r = (\<exists>e \<in> set es. overlaps x e)"
proof (induction es)
  case Nil
  then show ?case by simp
next
  case (Cons e es)
  then show ?case
    by (auto dest: overlap_check_Some split: option.splits bool.splits)
qed

lemma has_conflict_Some:
  assumes "has_conflict ch js x s = Some r" and "iter_order (ts_scheduled s) js"
  shows "r = (\<exists>i e. ts_scheduled s i = Some e \<and> overlaps x e)"
proof -
  from assms(1) have "r = (\<exists>e \<in> set (map_values (ts_scheduled s) js). overlaps x e)"
    by (auto simp: has_conflict_def dest: conflict_loop_Some)
  with iter_order_values [OF assms(2)] show ?thesis by (auto simp: ran_def)
qed

text \<open>How a call of \<open>schedule\<close> that stores a transmission went.\<close>

lemma schedule_stored:
  assumes "schedule ch now clk ws js c s = Some (Inr x, s')"
  obtains w k where
    "find_window now clk ws s = Some w"
    "x = \<lparr>st_command_id = cmd_id c, st_window = w,
          st_transmission_time = (if window_contains w now then now else tw_start w),
          st_estimated_duration = duration_milliseconds (estimate_ms c w),
          st_doppler_compensation = lit 0\<rparr>"
    "has_conflict ch js x s = Some k"
    "k \<Longrightarrow> ts_conflict_strategy s = Priority \<and> can_override js c s"
    "s' = s\<lparr>ts_scheduled := (ts_scheduled s)(cmd_id c \<mapsto> x)\<rparr>"
proof -
  from assms obtain w where w: "find_window now clk ws s = Some w"
    by (auto simp: schedule_def split: option.splits)
  define y where "y = \<lparr>st_command_id = cmd_id c, st_window = w,
          st_transmission_time = (if window_contains w now then now else tw_start w),
          st_estimated_duration = duration_milliseconds (estimate_ms c w),
          st_doppler_compensation = lit 0\<rparr>"
  from assms w obtain k where k: "has_conflict ch js y s = Some k"
    by (auto simp: schedule_def Let_def y_def split: option.splits if_splits)
  have "x = y \<and> s' = s\<lparr>ts_scheduled := (ts_scheduled s)(cmd_id c \<mapsto> y)\<rparr> \<and>
      (k \<longrightarrow> ts_conflict_strategy s = Priority \<and> can_override js c s)"
    using assms w k
    by (auto simp: schedule_def Let_def y_def
      split: option.splits if_splits bool.splits conflict_strategy.splits)
  with w k that [of w k] show ?thesis by (auto simp: y_def)
qed

lemma schedule_failed: "schedule ch now clk ws js c s = Some (Inl e, s') \<Longrightarrow> s' = s"
  by (auto simp: schedule_def Let_def
    split: option.splits if_splits bool.splits conflict_strategy.splits)

lemma sched_inv_schedule:
  assumes inv: "sched_inv strategy s" and order: "iter_order (ts_scheduled s) js"
    and call: "schedule ch now clk ws js c s = Some (r, s')"
  shows "sched_inv strategy s'"
proof (cases r)
  case (Inl e)
  with call inv show ?thesis by (auto dest: schedule_failed)
next
  case (Inr x)
  with call have "schedule ch now clk ws js c s = Some (Inr x, s')" by simp
  then obtain w k where x: "st_command_id x = cmd_id c" and k: "has_conflict ch js x s = Some k"
    and ov: "k \<Longrightarrow> ts_conflict_strategy s = Priority"
    and s': "s' = s\<lparr>ts_scheduled := (ts_scheduled s)(cmd_id c \<mapsto> x)\<rparr>"
    by (elim schedule_stored) auto
  have free: "\<not> overlaps x e" if "strategy \<noteq> Priority" "ts_scheduled s i = Some e" for i e
    using has_conflict_Some [OF k order] ov that inv by (auto simp: sched_inv_def)
  have "keyed st_command_id ((ts_scheduled s)(st_command_id x \<mapsto> x))"
    using inv by (intro keyed_insert) (simp add: sched_inv_def)
  with inv free show ?thesis
    unfolding sched_inv_def s' by (auto simp: x overlaps_sym [of _ x])
qed

lemma sched_inv_step:
  assumes inv: "sched_inv strategy s" and step: "sched_step ch s t"
  shows "sched_inv strategy t"
  using step
proof cases
  case (sched_add_window w)
  then show ?thesis using inv
    by (auto simp: add_window_def sched_inv_def intro: keyed_insert)
next
  case (sched_remove_window p)
  then show ?thesis using inv
    by (auto simp: remove_window_def sched_inv_def intro: keyed_delete)
next
  case (sched_schedule ws js now clk c r)
  then show ?thesis by (intro sched_inv_schedule [OF inv]) auto
next
  case (sched_remove i)
  then show ?thesis using inv
    by (auto simp: remove_scheduled_def sched_inv_def intro: keyed_delete)
qed

interpretation sched: invariant_system "\<lambda>s. s = scheduler_new strategy" "sched_step ch"
  "sched_inv strategy" for strategy ch
proof
  show "s = scheduler_new strategy \<Longrightarrow> sched_inv strategy s" for s
    by (simp add: scheduler_new_def sched_inv_def)
  show "sched_inv strategy s \<Longrightarrow> sched_step ch s t \<Longrightarrow> sched_inv strategy t" for s t
    by (rule sched_inv_step)
qed

text \<open>A transmission at rate 0 gets the greatest duration there is; if its end is out of the range
  of dates, the next call that finds a window panics.\<close>

lemma zero_rate_estimate:
  assumes "cmd_payload c \<noteq> []" and "length (cmd_payload c) < 2 ^ 53" and "tw_max_rate w = Fin False 0"
  shows "estimate_ms c w = 2 ^ 63 - 1"
  using assms by (simp add: estimate_ms_def f64_of_nat_exact lit_def of_exact_def round_f64_def Let_def
    pow2_le_round_mag round_mag_nat [of 1000, simplified])

lemma endless_booking_panics:
  assumes "ts_scheduled s = [i \<mapsto> e]" and "find_window now clk ws s \<noteq> None"
    and "\<not> date_in_range ch (st_transmission_time e + st_estimated_duration e)"
  shows "schedule ch now clk ws [i] c s = None"
  using assms
  by (auto simp: schedule_def Let_def has_conflict_def overlap_check_def date_add_def)

lemma sample_estimate: "estimate_ms (uplink_command i p) sample_window = 3000"
proof -
  have three: "round_f64 False 3 = Fin False 3"
    using f64_of_nat_exact [of 3] by (simp add: f64_of_nat_def)
  have lit: "lit 1000 = Fin False 1000"
    using f64_of_nat_exact [of 1000] by (simp add: f64_of_nat_def lit_def of_exact_def)
  have prod: "round_f64 False 3000 = Fin False 3000"
    using f64_of_nat_exact [of 3000] by (simp add: f64_of_nat_def)
  show ?thesis
    by (simp add: estimate_ms_def uplink_command_def command_new_def sample_window_def
      f64_of_nat_def three lit prod)
qed

lemmas sample_defs = sample_chrono_def with_window_def with_booking_def booked_def add_window_def
  scheduler_new_def

lemma sample_first:
  "schedule sample_chrono 5 (\<lambda>_. 5) [PassId ''P''] [] (uplink_command 1 p) (with_window strategy) =
     Some (Inr (booked 1 5), with_booking strategy)"
  by (simp add: schedule_def find_window_def sample_defs has_conflict_def Let_def sample_estimate
    duration_milliseconds_def window_contains_def) (simp add: sample_window_def uplink_command_def command_new_def)

lemma sample_second:
  "schedule sample_chrono 4000000000 (\<lambda>_. 4000000000) [PassId ''P''] [1] (uplink_command 2 p)
     (with_booking strategy) =
     Some (Inr (booked 2 4000000000),
       (with_booking strategy)\<lparr>ts_scheduled := [1 \<mapsto> booked 1 5, 2 \<mapsto> booked 2 4000000000]\<rparr>)"
  by (simp add: schedule_def find_window_def sample_defs has_conflict_def Let_def sample_estimate
    duration_milliseconds_def window_contains_def overlap_check_def date_add_def)
    (simp add: sample_window_def uplink_command_def command_new_def)

lemma sample_clash:
  "schedule sample_chrono 6 (\<lambda>_. 6) [PassId ''P''] [1] (uplink_command 2 Low) (with_booking Priority) =
     Some (Inr (booked 2 6),
       (with_booking Priority)\<lparr>ts_scheduled := [1 \<mapsto> booked 1 5, 2 \<mapsto> booked 2 6]\<rparr>)"
  by (simp add: schedule_def find_window_def sample_defs has_conflict_def Let_def sample_estimate
    duration_milliseconds_def window_contains_def overlap_check_def date_add_def can_override_def)
    (simp add: sample_window_def uplink_command_def command_new_def)

lemma sample_orders:
  "iter_order (ts_windows (with_window strategy)) [PassId ''P'']"
  "iter_order (ts_scheduled (with_window strategy)) []"
  "iter_order (ts_windows (with_booking strategy)) [PassId ''P'']"
  "iter_order (ts_scheduled (with_booking strategy)) [1]"
  by (simp_all add: sample_defs sample_window_def iter_order_def)

lemma sample_reach:
  "reach (\<lambda>s. s = scheduler_new strategy) (sched_step sample_chrono) (with_booking strategy)"
proof (rule reach_step)
  show "reach (\<lambda>s. s = scheduler_new strategy) (sched_step sample_chrono) (with_window strategy)"
    unfolding with_window_def by (rule reach_step [OF reach_self]) (rule sched_add_window)
  show "sched_step sample_chrono (with_window strategy) (with_booking strategy)"
    by (rule sched_schedule [OF sample_orders(1,2) sample_first])
qed

section \<open>Properties\<close>

text \<open>C2: Under the strategies Fcfs and Reject, no two transmissions that are scheduled at the same
  time overlap, in any state that adding and removing windows, scheduling and removing
  transmissions reach, one call after the other, whatever the iteration orders and the clock.\<close>

theorem scheduled_never_overlap:
  assumes "reach (\<lambda>s. s = scheduler_new strategy) (sched_step ch) s" and "strategy \<noteq> Priority"
    and "get_scheduled i s = Some a" and "get_scheduled j s = Some b" and "i \<noteq> j"
  shows "st_transmission_time a + st_estimated_duration a \<le> st_transmission_time b \<or>
    st_transmission_time b + st_estimated_duration b \<le> st_transmission_time a"
proof -
  have "\<not> overlaps a b"
    using sched.reach_inv [OF assms(1)] assms(2-) by (auto simp: sched_inv_def get_scheduled_def)
  then show ?thesis by (auto simp: overlaps_def)
qed

theorem scheduled_never_overlap_witness:
  "st_transmission_time (booked 1 5) + st_estimated_duration (booked 1 5)
     \<le> st_transmission_time (booked 2 4000000000)"
proof -
  define t where "t = (with_booking Fcfs)\<lparr>ts_scheduled := [1 \<mapsto> booked 1 5, 2 \<mapsto> booked 2 4000000000]\<rparr>"
  have "sched_step sample_chrono (with_booking Fcfs) t"
    unfolding t_def by (rule sched_schedule [OF sample_orders(3,4) sample_second])
  then have "reach (\<lambda>s. s = scheduler_new Fcfs) (sched_step sample_chrono) t"
    by (rule reach_step [OF sample_reach])
  from scheduled_never_overlap [OF this, of 1 "booked 1 5" 2 "booked 2 4000000000"]
  show ?thesis by (simp add: t_def get_scheduled_def booked_def)
qed

text \<open>Under the strategy Priority a conflict is never resolved by priority: the commands that
  priorities are looked up in are never recorded, so a command that is not scheduled itself is
  accepted whatever it overlaps with.\<close>

theorem priority_always_overrides:
  assumes "reach (\<lambda>s. s = scheduler_new Priority) (sched_step ch) s"
    and "get_scheduled (cmd_id c) s = None" and "find_window now clk ws s \<noteq> None"
    and "schedule ch now clk ws js c s = Some (r, s')"
  shows "\<exists>x. r = Inr x \<and> get_scheduled (cmd_id c) s' = Some x \<and>
    (\<forall>i. i \<noteq> cmd_id c \<longrightarrow> get_scheduled i s' = get_scheduled i s)"
proof -
  have inv: "sched_inv Priority s" using assms(1) by (rule sched.reach_inv)
  have "can_override js c s"
    using inv assms(2)
    by (auto simp: can_override_def sched_inv_def get_scheduled_def list_all_iff)
  with assms(3,4) inv show ?thesis
    by (auto simp: schedule_def Let_def sched_inv_def get_scheduled_def
      split: option.splits if_splits bool.splits conflict_strategy.splits)
qed

theorem priority_always_overrides_witness:
  "\<exists>s'. schedule sample_chrono 6 (\<lambda>_. 6) [PassId ''P''] [1] (uplink_command 2 Low)
         (with_booking Priority) = Some (Inr (booked 2 6), s') \<and>
     get_scheduled 1 s' = Some (booked 1 5) \<and> overlaps (booked 1 5) (booked 2 6)"
proof -
  have "get_scheduled (cmd_id (uplink_command 2 Low)) (with_booking Priority) = None"
    by (simp add: get_scheduled_def with_booking_def uplink_command_def command_new_def)
  moreover have "find_window 6 (\<lambda>_. 6) [PassId ''P''] (with_booking Priority) \<noteq> None"
    by (simp add: find_window_def sample_defs window_contains_def) (simp add: sample_window_def)
  ultimately have "\<forall>i. i \<noteq> cmd_id (uplink_command 2 Low) \<longrightarrow>
      get_scheduled i ((with_booking Priority)\<lparr>ts_scheduled := [1 \<mapsto> booked 1 5, 2 \<mapsto> booked 2 6]\<rparr>) =
      get_scheduled i (with_booking Priority)"
    using priority_always_overrides [OF sample_reach _ _ sample_clash] by blast
  then show ?thesis
    by (auto simp: sample_clash get_scheduled_def booked_def overlaps_def)
qed

text \<open>A scheduled transmission uses a window that the scheduler has, starts now when the window
  is open and at the start of the window otherwise, so never in the past and, for a window that is
  not empty, within it; the transmission is what a later lookup returns.\<close>

theorem schedule_in_window:
  assumes "schedule ch now clk ws js c s = Some (Inr x, s')"
    and "iter_order (ts_windows s) ws" and "\<forall>p. now \<le> clk p"
  shows "st_window x \<in> ran (ts_windows s) \<and> now \<le> st_transmission_time x \<and>
    (tw_start (st_window x) \<le> tw_end (st_window x) \<longrightarrow>
       window_contains (st_window x) (st_transmission_time x)) \<and>
    get_scheduled (cmd_id c) s' = Some x"
proof -
  obtain w where w: "find_window now clk ws s = Some w" and x: "st_window x = w"
      "st_transmission_time x = (if window_contains w now then now else tw_start w)"
    and s': "ts_scheduled s' (cmd_id c) = Some x"
    using assms(1) by (elim schedule_stored) auto
  from w have sat: "window_contains w now \<or> time_until_start (clk (tw_pass_id w)) w \<noteq> None"
    and mem: "w \<in> set (map_values (ts_windows s) ws)"
    by (auto simp: find_window_def dest: find_SomeD)
  from sat have "window_contains w now \<or> now < tw_start w"
    using assms(3) by (auto simp: time_until_start_def split: if_splits intro: le_less_trans)
  with mem x s' show ?thesis
    by (auto simp: iter_order_values [OF assms(2)] window_contains_def get_scheduled_def)
qed

theorem schedule_in_window_witness:
  "window_contains sample_window 5 \<and> get_scheduled 1 (with_booking Fcfs) = Some (booked 1 5)"
  using schedule_in_window [OF sample_first [of Normal Fcfs] sample_orders(1)]
  by (simp add: booked_def uplink_command_def command_new_def sample_window_def)

end
