(* ===== verification/Uplink_Transmitter.thy ===== *)
theory Uplink_Transmitter
  imports Core_Types F64
begin

text \<open>
  The transmitters of the uplink (\<open>uplink/src/transmitter.rs\<close>): the two implementations of the trait
  \<open>Transmitter\<close>, one over an SDR and one over a modem.

  The lock of \<open>current_transmission\<close> is followed through \<open>abort\<close>: the call holds a read guard on
  it when it asks for a write guard, and the second guard does not release the first. A call that waits
  for its own guard is \<open>Deadlock\<close>, paired with the state in which it waits. The other calls hold
  each guard alone. The identifier of a transmission, drawn at random, is an argument.

  The trait is the locale \<open>transmitter_trait\<close>, over the operations as one function (\<open>tx_op\<close>); its
  lemmas are proved once and hold for both implementations by interpretation.
\<close>

section \<open>Definitions\<close>

datatype transmitter_status = Idle | TxTransmitting | Fault | Disabled

record transmitter_state =
  tst_status :: transmitter_status
  tst_frequency :: u64
  tst_power :: f64
  tst_current_transmission :: "uuid option"

text \<open>The calls of the trait that write, and their replies.\<close>

datatype tx_op =
    Transmit uuid bytes | Abort uuid | SetFrequency u64 | SetPower f64 | Enable | Disable

datatype tx_reply = TransmitReply "uuid result" | UnitReply "unit result"

text \<open>A power in watts is kept as a number of hundredths.\<close>

definition power_units :: "f64 \<Rightarrow> u64" where
  "power_units p = of_nat (f64_to_u64 (fmul p (lit 100)))"

definition power_watts :: "u64 \<Rightarrow> f64" where
  "power_watts n = fdiv (f64_of_nat (unat n)) (lit 100)"

definition power_in_range :: "f64 \<Rightarrow> bool" where
  "power_in_range p \<longleftrightarrow> fle (lit 0) p \<and> fle p (lit 1000)"

subsection \<open>The transmitter over an SDR\<close>

record sdr_transmitter =
  sdr_id :: uuid
  sdr_status :: transmitter_status
  sdr_frequency :: u64
  sdr_power :: u64
  sdr_current_transmission :: "uuid option"
  sdr_enabled :: bool

definition sdr_new :: "uuid \<Rightarrow> u64 \<Rightarrow> f64 \<Rightarrow> sdr_transmitter" where
  "sdr_new fresh frequency watts =
     \<lparr>sdr_id = fresh, sdr_status = Idle, sdr_frequency = frequency, sdr_power = power_units watts,
      sdr_current_transmission = None, sdr_enabled = False\<rparr>"

definition sdr_transmit :: "uuid \<Rightarrow> bytes \<Rightarrow> sdr_transmitter \<Rightarrow> uuid result \<times> sdr_transmitter" where
  "sdr_transmit fresh data s =
     (if \<not> sdr_enabled s then (Inl (Hardware ''Transmitter disabled''), s)
      else if sdr_status s \<noteq> Idle then (Inl (Hardware ''Transmitter busy''), s)
      else (Inr fresh,
            s\<lparr>sdr_status := TxTransmitting, sdr_current_transmission := Some fresh\<rparr>))"

definition sdr_get_status :: "sdr_transmitter \<Rightarrow> transmitter_status result" where
  "sdr_get_status s = Inr (sdr_status s)"

definition sdr_get_state :: "sdr_transmitter \<Rightarrow> transmitter_state result" where
  "sdr_get_state s =
     Inr \<lparr>tst_status = sdr_status s, tst_frequency = sdr_frequency s,
          tst_power = power_watts (sdr_power s),
          tst_current_transmission = sdr_current_transmission s\<rparr>"

definition sdr_abort :: "uuid \<Rightarrow> sdr_transmitter \<Rightarrow> unit result outcome \<times> sdr_transmitter" where
  "sdr_abort i s =
     (case acquire_read unlocked of
        Deadlock \<Rightarrow> (Deadlock, s)
      | Returns current_lock \<Rightarrow>
          (if sdr_current_transmission s \<noteq> Some i
           then (Returns (Inl (NotFound (''Transmission '' @ show_uuid i))), s)
           else
             (let s' = s\<lparr>sdr_status := Idle\<rparr>
              in case acquire_write current_lock of
                   Deadlock \<Rightarrow> (Deadlock, s')
                 | Returns _ \<Rightarrow>
                     (Returns (Inr ()), s'\<lparr>sdr_current_transmission := None\<rparr>))))"

definition sdr_set_frequency :: "u64 \<Rightarrow> sdr_transmitter \<Rightarrow> unit result \<times> sdr_transmitter" where
  "sdr_set_frequency frequency s = (Inr (), s\<lparr>sdr_frequency := frequency\<rparr>)"

definition sdr_set_power :: "f64 \<Rightarrow> sdr_transmitter \<Rightarrow> unit result \<times> sdr_transmitter" where
  "sdr_set_power watts s =
     (if \<not> power_in_range watts then (Inl (Validation ''Power out of range''), s)
      else (Inr (), s\<lparr>sdr_power := power_units watts\<rparr>))"

definition sdr_enable :: "sdr_transmitter \<Rightarrow> unit result \<times> sdr_transmitter" where
  "sdr_enable s = (Inr (), s\<lparr>sdr_enabled := True\<rparr>)"

definition sdr_disable :: "sdr_transmitter \<Rightarrow> unit result \<times> sdr_transmitter" where
  "sdr_disable s = (Inr (), s\<lparr>sdr_enabled := False\<rparr>)"

fun sdr_exec :: "tx_op \<Rightarrow> sdr_transmitter \<Rightarrow> tx_reply outcome \<times> sdr_transmitter" where
  "sdr_exec (Transmit fresh data) s = apfst (Returns \<circ> TransmitReply) (sdr_transmit fresh data s)"
| "sdr_exec (Abort i) s =
     apfst (\<lambda>r. bind_outcome r (Returns \<circ> UnitReply)) (sdr_abort i s)"
| "sdr_exec (SetFrequency f) s = apfst (Returns \<circ> UnitReply) (sdr_set_frequency f s)"
| "sdr_exec (SetPower p) s = apfst (Returns \<circ> UnitReply) (sdr_set_power p s)"
| "sdr_exec Enable s = apfst (Returns \<circ> UnitReply) (sdr_enable s)"
| "sdr_exec Disable s = apfst (Returns \<circ> UnitReply) (sdr_disable s)"

subsection \<open>The transmitter over a modem\<close>

record modem_transmitter =
  modem_id :: uuid
  modem_status :: transmitter_status
  modem_frequency :: u64
  modem_power :: u64
  modem_current_transmission :: "uuid option"
  modem_enabled :: bool

definition modem_new :: "uuid \<Rightarrow> u64 \<Rightarrow> f64 \<Rightarrow> modem_transmitter" where
  "modem_new fresh frequency watts =
     \<lparr>modem_id = fresh, modem_status = Idle, modem_frequency = frequency, modem_power = power_units watts,
      modem_current_transmission = None, modem_enabled = False\<rparr>"

definition modem_transmit :: "uuid \<Rightarrow> bytes \<Rightarrow> modem_transmitter \<Rightarrow> uuid result \<times> modem_transmitter" where
  "modem_transmit fresh data s =
     (if \<not> modem_enabled s then (Inl (Hardware ''Transmitter disabled''), s)
      else if modem_status s \<noteq> Idle then (Inl (Hardware ''Transmitter busy''), s)
      else (Inr fresh,
            s\<lparr>modem_status := TxTransmitting, modem_current_transmission := Some fresh\<rparr>))"

definition modem_get_status :: "modem_transmitter \<Rightarrow> transmitter_status result" where
  "modem_get_status s = Inr (modem_status s)"

definition modem_get_state :: "modem_transmitter \<Rightarrow> transmitter_state result" where
  "modem_get_state s =
     Inr \<lparr>tst_status = modem_status s, tst_frequency = modem_frequency s,
          tst_power = power_watts (modem_power s),
          tst_current_transmission = modem_current_transmission s\<rparr>"

definition modem_abort :: "uuid \<Rightarrow> modem_transmitter \<Rightarrow> unit result outcome \<times> modem_transmitter" where
  "modem_abort i s =
     (case acquire_read unlocked of
        Deadlock \<Rightarrow> (Deadlock, s)
      | Returns current_lock \<Rightarrow>
          (if modem_current_transmission s \<noteq> Some i
           then (Returns (Inl (NotFound (''Transmission '' @ show_uuid i))), s)
           else
             (let s' = s\<lparr>modem_status := Idle\<rparr>
              in case acquire_write current_lock of
                   Deadlock \<Rightarrow> (Deadlock, s')
                 | Returns _ \<Rightarrow>
                     (Returns (Inr ()), s'\<lparr>modem_current_transmission := None\<rparr>))))"

definition modem_set_frequency :: "u64 \<Rightarrow> modem_transmitter \<Rightarrow> unit result \<times> modem_transmitter" where
  "modem_set_frequency frequency s = (Inr (), s\<lparr>modem_frequency := frequency\<rparr>)"

definition modem_set_power :: "f64 \<Rightarrow> modem_transmitter \<Rightarrow> unit result \<times> modem_transmitter" where
  "modem_set_power watts s =
     (if \<not> power_in_range watts then (Inl (Validation ''Power out of range''), s)
      else (Inr (), s\<lparr>modem_power := power_units watts\<rparr>))"

definition modem_enable :: "modem_transmitter \<Rightarrow> unit result \<times> modem_transmitter" where
  "modem_enable s = (Inr (), s\<lparr>modem_enabled := True\<rparr>)"

definition modem_disable :: "modem_transmitter \<Rightarrow> unit result \<times> modem_transmitter" where
  "modem_disable s = (Inr (), s\<lparr>modem_enabled := False\<rparr>)"

fun modem_exec :: "tx_op \<Rightarrow> modem_transmitter \<Rightarrow> tx_reply outcome \<times> modem_transmitter" where
  "modem_exec (Transmit fresh data) s = apfst (Returns \<circ> TransmitReply) (modem_transmit fresh data s)"
| "modem_exec (Abort i) s =
     apfst (\<lambda>r. bind_outcome r (Returns \<circ> UnitReply)) (modem_abort i s)"
| "modem_exec (SetFrequency f) s = apfst (Returns \<circ> UnitReply) (modem_set_frequency f s)"
| "modem_exec (SetPower p) s = apfst (Returns \<circ> UnitReply) (modem_set_power p s)"
| "modem_exec Enable s = apfst (Returns \<circ> UnitReply) (modem_enable s)"
| "modem_exec Disable s = apfst (Returns \<circ> UnitReply) (modem_disable s)"

subsection \<open>Runs\<close>

text \<open>The replies to a sequence of calls; a call that never returns is the last.\<close>

fun run_ops :: "(tx_op \<Rightarrow> 's \<Rightarrow> tx_reply outcome \<times> 's) \<Rightarrow> tx_op list \<Rightarrow> 's \<Rightarrow> tx_reply list" where
  "run_ops exec [] s = []"
| "run_ops exec (x # xs) s =
     (case exec x s of
        (Deadlock, _) \<Rightarrow> []
      | (Returns r, s') \<Rightarrow> r # run_ops exec xs s')"

fun transmitted :: "tx_reply \<Rightarrow> bool" where
  "transmitted (TransmitReply (Inr _)) = True"
| "transmitted _ = False"

section \<open>The trait\<close>

text \<open>What the implementations of the trait promise, through the status, the current transmission
  and the stored power.\<close>

locale transmitter_trait =
  fixes exec :: "tx_op \<Rightarrow> 's \<Rightarrow> tx_reply outcome \<times> 's"
    and status :: "'s \<Rightarrow> transmitter_status"
    and current :: "'s \<Rightarrow> uuid option"
    and enabled :: "'s \<Rightarrow> bool"
    and units :: "'s \<Rightarrow> u64"
  assumes transmit_reply:
      "fst (exec (Transmit i d) s) = Returns (TransmitReply
         (if \<not> enabled s then Inl (Hardware ''Transmitter disabled'')
          else if status s \<noteq> Idle then Inl (Hardware ''Transmitter busy'') else Inr i))"
    and transmit_effect:
      "enabled s \<Longrightarrow> status s = Idle \<Longrightarrow>
         status (snd (exec (Transmit i d) s)) = TxTransmitting \<and>
         current (snd (exec (Transmit i d) s)) = Some i"
    and transmit_refused:
      "\<not> enabled s \<or> status s \<noteq> Idle \<Longrightarrow> snd (exec (Transmit i d) s) = s"
    and abort_current:
      "current s = Some i \<Longrightarrow>
         fst (exec (Abort i) s) = Deadlock \<and> status (snd (exec (Abort i) s)) = Idle \<and>
         current (snd (exec (Abort i) s)) = Some i"
    and abort_other:
      "current s \<noteq> Some i \<Longrightarrow>
         exec (Abort i) s = (Returns (UnitReply (Inl (NotFound (''Transmission '' @ show_uuid i)))), s)"
    and config_keeps:
      "x \<in> {SetFrequency f, SetPower p, Enable, Disable} \<Longrightarrow>
         status (snd (exec x s)) = status s \<and> current (snd (exec x s)) = current s \<and>
         (\<exists>r. fst (exec x s) = Returns (UnitReply r))"
    and power_effect:
      "exec (SetPower p) s =
         (if power_in_range p then (Returns (UnitReply (Inr ())), snd (exec (SetPower p) s))
          else (Returns (UnitReply (Inl (Validation ''Power out of range''))), s))"
    and power_stored:
      "power_in_range p \<Longrightarrow> units (snd (exec (SetPower p) s)) = power_units p"
begin

lemma busy_stays_busy:
  assumes "status s = TxTransmitting" and "exec x s = (Returns r, s')"
  shows "status s' = TxTransmitting \<and> \<not> transmitted r"
proof (cases x)
  case (Transmit i d)
  have "snd (exec x s) = s" using assms(1) Transmit by (simp add: transmit_refused)
  moreover have "\<not> transmitted r"
    using transmit_reply [of i d s] assms Transmit by (auto split: if_splits)
  ultimately show ?thesis using assms by simp
next
  case (Abort i)
  then have "current s \<noteq> Some i" using abort_current [of s i] assms(2) by auto
  with Abort assms abort_other [of s i] show ?thesis by auto
qed (use assms config_keeps [of x _ _ s] in \<open>fastforce\<close>)+

lemma busy_run: "status s = TxTransmitting \<Longrightarrow> filter transmitted (run_ops exec xs s) = []"
proof (induction xs arbitrary: s)
  case Nil
  then show ?case by simp
next
  case (Cons x xs)
  then show ?case
    using busy_stays_busy [of s x] by (auto split: prod.splits outcome.splits)
qed

text \<open>No operation leads back from a transmission: at most one call of \<open>transmit\<close> succeeds.\<close>

lemma one_shot: "length (filter transmitted (run_ops exec xs s)) \<le> 1"
proof (induction xs arbitrary: s)
  case Nil
  then show ?case by simp
next
  case (Cons x xs)
  obtain o1 s' where e: "exec x s = (o1, s')" by fastforce
  show ?case
  proof (cases o1)
    case Deadlock
    with e show ?thesis by simp
  next
    case (Returns r)
    show ?thesis
    proof (cases "transmitted r")
      case False
      with e Returns Cons.IH [of s'] show ?thesis by simp
    next
      case True
      then obtain i where r: "r = TransmitReply (Inr i)"
        by (cases r rule: transmitted.cases) auto
      have "\<exists>j d. x = Transmit j d"
      proof (cases x)
        case (Abort i)
        then show ?thesis using abort_current [of s i] abort_other [of s i] e Returns r
          by (cases "current s = Some i") auto
      qed (use e Returns r config_keeps [of x _ _ s] in \<open>fastforce\<close>)+
      then obtain j d where x: "x = Transmit j d" by blast
      with e Returns r transmit_reply [of j d s] have "enabled s" "status s = Idle"
        by (auto split: if_splits)
      with x e have "status s' = TxTransmitting" using transmit_effect [of s j d] by simp
      with e Returns True show ?thesis by (simp add: busy_run)
    qed
  qed
qed

end

interpretation sdr: transmitter_trait sdr_exec sdr_status sdr_current_transmission sdr_enabled sdr_power
  by unfold_locales
    (auto simp: sdr_transmit_def sdr_abort_def sdr_set_frequency_def sdr_set_power_def
      sdr_enable_def sdr_disable_def acquire_read_def acquire_write_def unlocked_def Let_def)

interpretation modem: transmitter_trait modem_exec modem_status modem_current_transmission
    modem_enabled modem_power
  by unfold_locales
    (auto simp: modem_transmit_def modem_abort_def modem_set_frequency_def modem_set_power_def
      modem_enable_def modem_disable_def acquire_read_def acquire_write_def unlocked_def Let_def)

section \<open>Lemmas\<close>

lemma power_units_bound:
  assumes "power_in_range p"
  shows "unat (power_units p) \<le> 100000"
proof (cases p)
  case (Fin s m)
  have l: "lit 1000 = Fin False 1000" "lit 100 = Fin False 100" by (simp_all add: lit_numeral)
  show ?thesis
  proof (cases s)
    case True
    then show ?thesis by (simp add: power_units_def Fin l round_f64_def Let_def)
  next
    case False
    with assms Fin l have "m \<le> 1000" by (auto simp: power_in_range_def fle_def)
    then have "m * 100 \<le> of_nat 100000" by simp
    then obtain v where v: "round_f64 False (m * 100) = Fin False v" "0 \<le> v" "v \<le> of_nat 100000"
      using round_f64_le_nat [of "m * 100" 100000 False] by auto
    have fl: "\<lfloor>v\<rfloor> \<le> 100000" using v(3) by (simp add: floor_le_iff)
    have "nat \<lfloor>v\<rfloor> \<le> 100000" using nat_mono [OF fl] by simp
    then have le: "f64_to_u64 (Fin False v) \<le> 100000" by (simp add: min.coboundedI1)
    then have "unat (of_nat (f64_to_u64 (Fin False v)) :: u64) = f64_to_u64 (Fin False v)"
      by (intro unat_of_nat_small) simp
    with le False Fin l v(1) show ?thesis by (simp add: power_units_def)
  qed
qed (use assms in \<open>auto simp: power_in_range_def fle_def lit_numeral\<close>)

lemma power_watts_bound:
  assumes "unat n \<le> 100000"
  shows "\<exists>v. power_watts n = Fin False v \<and> 0 \<le> v \<and> v \<le> 1000"
proof -
  have "f64_of_nat (unat n) = Fin False (of_nat (unat n))"
    using assms by (intro f64_of_nat_exact) simp
  then have w: "power_watts n = round_f64 False (of_nat (unat n) / 100)"
    by (simp add: power_watts_def lit_numeral)
  have "(of_nat (unat n) :: rat) \<le> of_nat 100000" using assms by (simp only: of_nat_le_iff)
  then have "(of_nat (unat n) :: rat) / 100 \<le> of_nat 1000" by simp
  from round_f64_le_nat [OF this, of False] w show ?thesis by auto
qed

section \<open>Properties\<close>

text \<open>Whatever is called on a transmitter, SDR or modem, at most one call of \<open>transmit\<close> ever
  succeeds: no operation that returns leads from a transmission back to the idle status.\<close>

theorem transmitter_one_shot:
  "length (filter transmitted (run_ops sdr_exec xs (sdr_new i f p))) \<le> 1 \<and>
   length (filter transmitted (run_ops modem_exec xs (modem_new i f p))) \<le> 1"
  using sdr.one_shot modem.one_shot by blast

text \<open>Aborting the transmission in progress never returns: the call waits for a write guard on
  the lock it still holds a read guard on, after it has set the status to idle and before it has cleared
  the transmission. Aborting any other transmission is refused and changes nothing.\<close>

theorem abort_never_completes:
  "(fst (sdr_abort i s) = Deadlock \<longleftrightarrow> sdr_current_transmission s = Some i) \<and>
   (fst (modem_abort i m) = Deadlock \<longleftrightarrow> modem_current_transmission m = Some i) \<and>
   snd (sdr_abort i s) =
     s\<lparr>sdr_status := if sdr_current_transmission s = Some i then Idle else sdr_status s\<rparr> \<and>
   snd (modem_abort i m) =
     m\<lparr>modem_status := if modem_current_transmission m = Some i then Idle else modem_status m\<rparr>"
  by (simp add: sdr_abort_def modem_abort_def acquire_read_def acquire_write_def unlocked_def Let_def)

theorem abort_never_completes_witness:
  "fst (sdr_abort 7 (snd (sdr_transmit 7 [1] (snd (sdr_enable (sdr_new 1 0 NaN)))))) = Deadlock"
  using abort_never_completes [of 7 "snd (sdr_transmit 7 [1] (snd (sdr_enable (sdr_new 1 0 NaN))))"]
  by (simp add: sdr_new_def sdr_enable_def sdr_transmit_def)

text \<open>A power is accepted when it lies between 0 and 1000 watts; then the stored number of
  hundredths is at most 100000 and the reported power lies between 0 and 1000 watts again, with the
  rounding of the binary64 arithmetic. Any other power, a NaN included, is refused and changes nothing.\<close>

theorem set_power_bounded:
  "(if power_in_range p
    then fst (sdr_set_power p s) = Inr () \<and> unat (sdr_power (snd (sdr_set_power p s))) \<le> 100000 \<and>
      (\<exists>st v. sdr_get_state (snd (sdr_set_power p s)) = Inr st \<and> tst_power st = Fin False v \<and>
         0 \<le> v \<and> v \<le> 1000)
    else sdr_set_power p s = (Inl (Validation ''Power out of range''), s)) \<and>
   (if power_in_range p
    then fst (modem_set_power p m) = Inr () \<and> unat (modem_power (snd (modem_set_power p m))) \<le> 100000
    else modem_set_power p m = (Inl (Validation ''Power out of range''), m))"
  using power_units_bound [of p] power_watts_bound [OF power_units_bound, of p]
  by (auto simp: sdr_set_power_def modem_set_power_def sdr_get_state_def)

theorem set_power_bounded_witness:
  "power_in_range (Fin False 10) \<and>
   unat (sdr_power (snd (sdr_set_power (Fin False 10) (sdr_new 1 0 NaN)))) \<le> 100000"
proof -
  have "power_in_range (Fin False 10)"
    by (simp add: power_in_range_def fle_def lit_numeral)
  with set_power_bounded [of "Fin False 10" "sdr_new 1 0 NaN"] show ?thesis by auto
qed

end
