(* ===== verification/Uplink_Crypto.thy ===== *)
theory Uplink_Crypto
  imports Core_Types
begin

text \<open>
  The cryptographic backends of the uplink (\<open>uplink/src/crypto.rs\<close>): AES-256-GCM with Ed25519
  signatures, and HMAC-SHA256.

  The libraries are parameters: \<open>aead\<close> functions for AES-GCM, the record \<open>ed25519\<close> for the signature
  scheme, and \<open>hmac\<close> for the keyed hash, which returns the tag or the text of the error for a key it
  refuses. \<open>ed25519_correct\<close> is what the signature library documents: the byte encodings can be read
  back, and a signature verifies under the verifying key of its signing key. Random bytes are
  arguments.
\<close>

section \<open>Definitions\<close>

datatype crypto_error =
    EncryptionFailed string
  | DecryptionFailed string
  | SignatureVerificationFailed
  | KeyGenerationFailed string
  | InvalidKeyLength

type_synonym 'a crypto_result = "crypto_error + 'a"

record encryption_key =
  ek_key :: bytes

record signing_key_pair =
  skp_public_key :: bytes
  skp_private_key :: bytes

record ('sk, 'vk, 'sig) ed25519 =
  sk_of_bytes :: "bytes \<Rightarrow> string + 'sk"
  sk_bytes :: "'sk \<Rightarrow> bytes"
  vk_of_bytes :: "bytes \<Rightarrow> string + 'vk"
  vk_bytes :: "'vk \<Rightarrow> bytes"
  sig_of_bytes :: "bytes \<Rightarrow> string + 'sig"
  sig_bytes :: "'sig \<Rightarrow> bytes"
  ed_verifying_key :: "'sk \<Rightarrow> 'vk"
  ed_sign :: "'sk \<Rightarrow> bytes \<Rightarrow> 'sig"
  ed_verify :: "'vk \<Rightarrow> bytes \<Rightarrow> 'sig \<Rightarrow> bool"

definition ed25519_correct :: "('sk, 'vk, 'sig) ed25519 \<Rightarrow> bool" where
  "ed25519_correct ed \<longleftrightarrow>
     (\<forall>k. sk_of_bytes ed (sk_bytes ed k) = Inr k) \<and>
     (\<forall>v. vk_of_bytes ed (vk_bytes ed v) = Inr v) \<and>
     (\<forall>s. sig_of_bytes ed (sig_bytes ed s) = Inr s) \<and>
     (\<forall>k d. ed_verify ed (ed_verifying_key ed k) d (ed_sign ed k d))"

subsection \<open>AES-256-GCM\<close>

definition aes_encrypt :: "aead \<Rightarrow> bytes \<Rightarrow> bytes \<Rightarrow> encryption_key \<Rightarrow> bytes crypto_result" where
  "aes_encrypt enc nonce plaintext key =
     (if length (ek_key key) \<noteq> 32 then Inl InvalidKeyLength
      else
        (case enc (ek_key key) nonce plaintext of
           Inl e \<Rightarrow> Inl (EncryptionFailed e)
         | Inr ciphertext \<Rightarrow> Inr (nonce @ ciphertext)))"

definition aes_decrypt :: "aead \<Rightarrow> bytes \<Rightarrow> encryption_key \<Rightarrow> bytes crypto_result" where
  "aes_decrypt dec ciphertext key =
     (if length (ek_key key) \<noteq> 32 then Inl InvalidKeyLength
      else if length ciphertext < 12 then Inl (DecryptionFailed ''Ciphertext too short'')
      else
        (case dec (ek_key key) (take 12 ciphertext) (drop 12 ciphertext) of
           Inl e \<Rightarrow> Inl (DecryptionFailed e)
         | Inr plaintext \<Rightarrow> Inr plaintext))"

definition aes_sign :: "('sk, 'vk, 'sig) ed25519 \<Rightarrow> bytes \<Rightarrow> signing_key_pair \<Rightarrow>
    bytes crypto_result" where
  "aes_sign ed data key =
     (case sk_of_bytes ed (skp_private_key key) of
        Inl e \<Rightarrow> Inl (KeyGenerationFailed e)
      | Inr sk \<Rightarrow> Inr (sig_bytes ed (ed_sign ed sk data)))"

definition aes_verify :: "('sk, 'vk, 'sig) ed25519 \<Rightarrow> bytes \<Rightarrow> bytes \<Rightarrow> signing_key_pair \<Rightarrow>
    bool crypto_result" where
  "aes_verify ed data signature key =
     (case vk_of_bytes ed (skp_public_key key) of
        Inl e \<Rightarrow> Inl (KeyGenerationFailed e)
      | Inr vk \<Rightarrow>
          (case sig_of_bytes ed signature of
             Inl _ \<Rightarrow> Inl SignatureVerificationFailed
           | Inr s \<Rightarrow> Inr (ed_verify ed vk data s)))"

definition aes_generate_encryption_key :: "bytes \<Rightarrow> encryption_key crypto_result" where
  "aes_generate_encryption_key random32 = Inr \<lparr>ek_key = random32\<rparr>"

definition aes_generate_signing_key :: "('sk, 'vk, 'sig) ed25519 \<Rightarrow> 'sk \<Rightarrow>
    signing_key_pair crypto_result" where
  "aes_generate_signing_key ed random_sk =
     Inr \<lparr>skp_public_key = vk_bytes ed (ed_verifying_key ed random_sk),
          skp_private_key = sk_bytes ed random_sk\<rparr>"

subsection \<open>HMAC-SHA256\<close>

text \<open>\<open>verify_slice\<close> compares the signature with the tag of the data.\<close>

type_synonym hmac = "bytes \<Rightarrow> bytes \<Rightarrow> string + bytes"

definition hmac_encrypt :: "bytes \<Rightarrow> encryption_key \<Rightarrow> bytes crypto_result" where
  "hmac_encrypt plaintext key =
     Inl (EncryptionFailed ''HMAC-SHA256 does not support encryption'')"

definition hmac_decrypt :: "bytes \<Rightarrow> encryption_key \<Rightarrow> bytes crypto_result" where
  "hmac_decrypt ciphertext key =
     Inl (DecryptionFailed ''HMAC-SHA256 does not support decryption'')"

definition hmac_sign :: "hmac \<Rightarrow> bytes \<Rightarrow> signing_key_pair \<Rightarrow> bytes crypto_result" where
  "hmac_sign mac data key =
     (case mac (skp_private_key key) data of
        Inl e \<Rightarrow> Inl (KeyGenerationFailed e)
      | Inr tag \<Rightarrow> Inr tag)"

definition hmac_verify :: "hmac \<Rightarrow> bytes \<Rightarrow> bytes \<Rightarrow> signing_key_pair \<Rightarrow> bool crypto_result" where
  "hmac_verify mac data signature key =
     (case mac (skp_private_key key) data of
        Inl e \<Rightarrow> Inl (KeyGenerationFailed e)
      | Inr tag \<Rightarrow> Inr (signature = tag))"

definition hmac_generate_encryption_key :: "bytes \<Rightarrow> encryption_key crypto_result" where
  "hmac_generate_encryption_key random32 = Inr \<lparr>ek_key = random32\<rparr>"

definition hmac_generate_signing_key :: "bytes \<Rightarrow> signing_key_pair crypto_result" where
  "hmac_generate_signing_key random32 = Inr \<lparr>skp_public_key = [], skp_private_key = random32\<rparr>"

text \<open>A signature scheme whose signature is the data itself satisfies the documented laws.\<close>

definition echo_ed25519 :: "(bytes, bytes, bytes) ed25519" where
  "echo_ed25519 = \<lparr>sk_of_bytes = Inr, sk_bytes = id, vk_of_bytes = Inr, vk_bytes = id,
     sig_of_bytes = Inr, sig_bytes = id, ed_verifying_key = id, ed_sign = (\<lambda>k d. k @ d),
     ed_verify = (\<lambda>v d s. s = v @ d)\<rparr>"

section \<open>Properties\<close>

text \<open>What the AES backend encrypts under a generated key, decrypting the framed ciphertext under
  the same key returns: the frame is the 12-byte nonce and the library's ciphertext. A key of another
  length is refused by both directions, and a ciphertext without room for a nonce is refused.\<close>

theorem aes_roundtrip:
  assumes "aead_correct enc dec" and "length nonce = 12"
    and "aes_generate_encryption_key r = Inr key" and "aes_encrypt enc nonce p key = Inr c"
  shows "aes_decrypt dec c key = Inr p \<and> length r = 32 \<and>
    (\<forall>d k'. length (ek_key k') \<noteq> 32 \<longrightarrow>
       aes_encrypt enc nonce d k' = Inl InvalidKeyLength \<and> aes_decrypt dec d k' = Inl InvalidKeyLength)"
proof -
  have key: "ek_key key = r" using assms(3) by (auto simp: aes_generate_encryption_key_def)
  from assms(4) obtain c' where len: "length r = 32" and enc: "enc r nonce p = Inr c'"
    and c: "c = nonce @ c'"
    by (auto simp: aes_encrypt_def key split: if_splits sum.splits)
  from assms(1) enc have "dec r nonce c' = Inr p" by (auto simp: aead_correct_def)
  with len c assms(2) show ?thesis
    by (auto simp: aes_decrypt_def aes_encrypt_def key)
qed

theorem aes_roundtrip_witness:
  "aes_decrypt (\<lambda>k n c. Inr c) (replicate 12 0 @ [1, 2, 3]) \<lparr>ek_key = replicate 32 7\<rparr> = Inr [1, 2, 3]"
  using aes_roundtrip [of "\<lambda>k n p. Inr p" "\<lambda>k n c. Inr c" "replicate 12 0" "replicate 32 7"
      "\<lparr>ek_key = replicate 32 7\<rparr>" "[1, 2, 3]" "replicate 12 0 @ [1, 2, 3]"]
  by (simp add: aead_correct_def aes_generate_encryption_key_def aes_encrypt_def)

text \<open>A signature made with a generated key pair verifies, for both backends: for Ed25519 through
  the byte encodings of the keys and of the signature, for HMAC with the secret alone, whose public
  half is empty.\<close>

theorem generated_key_verifies:
  assumes "ed25519_correct ed" and "aes_generate_signing_key ed sk = Inr kp"
    and "hmac_generate_signing_key r = Inr hk" and "mac r data = Inr tag"
  shows "(\<exists>s. aes_sign ed data kp = Inr s \<and> aes_verify ed data s kp = Inr True) \<and>
    skp_public_key hk = [] \<and> hmac_sign mac data hk = Inr tag \<and>
    (\<forall>s. hmac_verify mac data s hk = Inr (s = tag))"
  using assms
  by (auto simp: ed25519_correct_def aes_generate_signing_key_def aes_sign_def aes_verify_def
    hmac_generate_signing_key_def hmac_sign_def hmac_verify_def)

theorem generated_key_verifies_witness:
  "\<exists>s. aes_sign echo_ed25519 [1] \<lparr>skp_public_key = [5], skp_private_key = [5]\<rparr> = Inr s \<and>
     aes_verify echo_ed25519 [1] s \<lparr>skp_public_key = [5], skp_private_key = [5]\<rparr> = Inr True"
  using generated_key_verifies [of echo_ed25519 "[5]" "\<lparr>skp_public_key = [5], skp_private_key = [5]\<rparr>"
      "[9]" "\<lparr>skp_public_key = [], skp_private_key = [9]\<rparr>" "\<lambda>k d. Inr (k @ d)" "[1]" "[9, 1]"]
  by (simp add: ed25519_correct_def echo_ed25519_def aes_generate_signing_key_def
    hmac_generate_signing_key_def)

end
