(* ===== verification/Bitemporal_Log.thy ===== *)
theory Bitemporal_Log
  imports Core_Types
begin

text \<open>
  Bi-temporal timestamps and the hash-chained log (\<open>bitemporal/src/timestamp.rs\<close> and
  \<open>bitemporal/src/log.rs\<close>).

  SHA-256 with its hexadecimal rendering and the JSON serialization are parameters (\<open>log_lib\<close>);
  the value of the JSON library is the type \<open>'j\<close>. Strings stand for their bytes, and the bit pattern
  of a single-precision number for its value. \<open>verify_chain\<close> iterates over a hash map: the order of
  the keys is an argument, and the sort that follows is stable.

  \<open>appended es l\<close> says that \<open>l\<close> is the log after the entries \<open>es\<close> were appended, in this order, to
  the empty log; a refused entry leaves the log alone.
\<close>

section \<open>Definitions\<close>

subsection \<open>Timestamps\<close>

datatype event_time = EventTime (event_datetime: datetime)

datatype reception_time = ReceptionTime (reception_datetime: datetime)

record 'a bitemporal =
  bt_value :: 'a
  bt_event_time :: event_time
  bt_reception_time :: reception_time

definition bitemporal_new :: "'a \<Rightarrow> event_time \<Rightarrow> reception_time \<Rightarrow> 'a bitemporal" where
  "bitemporal_new v e r = \<lparr>bt_value = v, bt_event_time = e, bt_reception_time = r\<rparr>"

definition with_current_reception :: "datetime \<Rightarrow> 'a \<Rightarrow> event_time \<Rightarrow> 'a bitemporal" where
  "with_current_reception now v e =
     \<lparr>bt_value = v, bt_event_time = e, bt_reception_time = ReceptionTime now\<rparr>"

definition bitemporal_map :: "('a \<Rightarrow> 'b) \<Rightarrow> 'a bitemporal \<Rightarrow> 'b bitemporal" where
  "bitemporal_map f b =
     \<lparr>bt_value = f (bt_value b), bt_event_time = bt_event_time b,
      bt_reception_time = bt_reception_time b\<rparr>"

definition propagation_delay :: "'a bitemporal \<Rightarrow> duration" where
  "propagation_delay b =
     reception_datetime (bt_reception_time b) - event_datetime (bt_event_time b)"

subsection \<open>Entries\<close>

datatype log_entry_type =
    SampleReceived u64 u64 u32
  | DemodulatorStateChange bool bool
  | HardwareAllocation string string
  | HardwareRelease string
  | PassStarted string u64
  | PassCompleted u64 u64
  | PassFailed string
  | ShadowPromoted string string
  | SchedulerDecision string string
  | FederationEvent string string
  | LogError string string

record 'j log_entry =
  le_entry_id :: string
  le_pass_id :: pass_id
  le_entry_type :: log_entry_type
  le_event_time :: event_time
  le_reception_time :: reception_time
  le_data :: 'j
  le_hash :: string
  le_previous_hash :: "string option"

record 'j log_lib =
  sha256_hex :: "string \<Rightarrow> string"
  json_entry_type :: "log_entry_type \<Rightarrow> string"
  json_datetime :: "datetime \<Rightarrow> string"
  json_data :: "'j \<Rightarrow> string"

definition compute_hash :: "'j log_lib \<Rightarrow> string \<Rightarrow> pass_id \<Rightarrow> log_entry_type \<Rightarrow> event_time \<Rightarrow>
    reception_time \<Rightarrow> 'j \<Rightarrow> string option \<Rightarrow> string" where
  "compute_hash lib i p ty et rt d prev =
     sha256_hex lib
       (i @ pass_id_str p @ json_entry_type lib ty @ json_datetime lib (event_datetime et) @
        json_datetime lib (reception_datetime rt) @ json_data lib d @
        (case prev of None \<Rightarrow> [] | Some h \<Rightarrow> h))"

definition log_entry_new :: "'j log_lib \<Rightarrow> uuid \<Rightarrow> pass_id \<Rightarrow> log_entry_type \<Rightarrow> event_time \<Rightarrow>
    reception_time \<Rightarrow> 'j \<Rightarrow> string option \<Rightarrow> 'j log_entry" where
  "log_entry_new lib fresh p ty et rt d prev =
     \<lparr>le_entry_id = show_uuid fresh, le_pass_id = p, le_entry_type = ty, le_event_time = et,
      le_reception_time = rt, le_data = d,
      le_hash = compute_hash lib (show_uuid fresh) p ty et rt d prev, le_previous_hash = prev\<rparr>"

definition entry_verify :: "'j log_lib \<Rightarrow> 'j log_entry \<Rightarrow> bool" where
  "entry_verify lib e \<longleftrightarrow>
     compute_hash lib (le_entry_id e) (le_pass_id e) (le_entry_type e) (le_event_time e)
       (le_reception_time e) (le_data e) (le_previous_hash e) = le_hash e"

subsection \<open>The log\<close>

record 'j bitemporal_log =
  bl_entries :: "string \<rightharpoonup> 'j log_entry"
  bl_pass_entries :: "pass_id \<rightharpoonup> string list"
  bl_latest_hash :: "string option"

definition log_new :: "'j bitemporal_log" where
  "log_new = \<lparr>bl_entries = Map.empty, bl_pass_entries = Map.empty, bl_latest_hash = None\<rparr>"

definition log_append :: "'j log_lib \<Rightarrow> 'j log_entry \<Rightarrow> 'j bitemporal_log \<Rightarrow>
    unit result \<times> 'j bitemporal_log" where
  "log_append lib e l =
     (if \<not> entry_verify lib e then (Inl (Database ''Log entry verification failed''), l)
      else if bl_latest_hash l \<noteq> None \<and> le_previous_hash e \<noteq> bl_latest_hash l
        then (Inl (Database ''Log chain integrity broken''), l)
      else
        (Inr (),
         l\<lparr>bl_entries := (bl_entries l)(le_entry_id e \<mapsto> e),
           bl_pass_entries := (bl_pass_entries l)(le_pass_id e \<mapsto>
             (case bl_pass_entries l (le_pass_id e) of None \<Rightarrow> [] | Some is \<Rightarrow> is) @ [le_entry_id e]),
           bl_latest_hash := Some (le_hash e)\<rparr>))"

definition log_get :: "string \<Rightarrow> 'j bitemporal_log \<Rightarrow> 'j log_entry option" where
  "log_get i l = bl_entries l i"

definition get_pass_entries :: "pass_id \<Rightarrow> 'j bitemporal_log \<Rightarrow> 'j log_entry list" where
  "get_pass_entries p l =
     (case bl_pass_entries l p of
        None \<Rightarrow> []
      | Some is \<Rightarrow> List.map_filter (bl_entries l) is)"

fun chain_loop :: "'j log_lib \<Rightarrow> string option \<Rightarrow> 'j log_entry list \<Rightarrow> bool" where
  "chain_loop lib prev [] = True"
| "chain_loop lib prev (e # es) =
     (if le_previous_hash e \<noteq> prev then False
      else if \<not> entry_verify lib e then False
      else chain_loop lib (Some (le_hash e)) es)"

definition entry_time :: "'j log_entry \<Rightarrow> datetime" where
  "entry_time e = reception_datetime (le_reception_time e)"

definition verify_chain :: "'j log_lib \<Rightarrow> string list \<Rightarrow> 'j bitemporal_log \<Rightarrow> bool" where
  "verify_chain lib ks l = chain_loop lib None (sort_key entry_time (map_values (bl_entries l) ks))"

record log_stats =
  lst_total_entries :: nat
  lst_total_passes :: nat
  lst_latest_hash :: "string option"
  lst_chain_valid :: bool

text \<open>\<open>ks\<close> and \<open>ps\<close> are the keys of the two maps.\<close>

definition log_stats_of :: "'j log_lib \<Rightarrow> string list \<Rightarrow> pass_id list \<Rightarrow> 'j bitemporal_log \<Rightarrow>
    log_stats" where
  "log_stats_of lib ks ps l =
     \<lparr>lst_total_entries = length ks, lst_total_passes = length ps,
      lst_latest_hash = bl_latest_hash l, lst_chain_valid = verify_chain lib ks l\<rparr>"

subsection \<open>Histories\<close>

inductive appended :: "'j log_lib \<Rightarrow> 'j log_entry list \<Rightarrow> 'j bitemporal_log \<Rightarrow> bool"
  for lib :: "'j log_lib" where
  appended_none: "appended lib [] log_new"
| appended_more: "appended lib es l \<Longrightarrow> log_append lib e l = (Inr (), l') \<Longrightarrow>
    appended lib (es @ [e]) l'"

text \<open>Each entry names the hash of the one before it.\<close>

fun linked :: "'j log_entry list \<Rightarrow> bool" where
  "linked (e # f # es) = (le_previous_hash f = Some (le_hash e) \<and> linked (f # es))"
| "linked _ = True"

text \<open>A library and entries for the witnesses: the hash is the text itself.\<close>

definition sample_lib :: "unit log_lib" where
  "sample_lib = \<lparr>sha256_hex = id, json_entry_type = (\<lambda>_. ''t''),
     json_datetime = (\<lambda>t. show_int t), json_data = (\<lambda>_. ''{}'')\<rparr>"

definition sample_entry :: "string \<Rightarrow> datetime \<Rightarrow> string option \<Rightarrow> unit log_entry" where
  "sample_entry i t prev =
     \<lparr>le_entry_id = i, le_pass_id = PassId ''p'', le_entry_type = HardwareRelease ''d'',
      le_event_time = EventTime t, le_reception_time = ReceptionTime t, le_data = (),
      le_hash = compute_hash sample_lib i (PassId ''p'') (HardwareRelease ''d'') (EventTime t)
        (ReceptionTime t) () prev,
      le_previous_hash = prev\<rparr>"

definition sample_first :: "unit log_entry" where
  "sample_first = sample_entry ''a'' 1 None"

definition sample_second :: "unit log_entry" where
  "sample_second = sample_entry ''b'' 2 (Some (le_hash sample_first))"

definition sample_log :: "unit bitemporal_log" where
  "sample_log = snd (log_append sample_lib sample_second (snd (log_append sample_lib sample_first log_new)))"

section \<open>Lemmas\<close>

lemma entry_verify_new: "entry_verify lib (log_entry_new lib fresh p ty et rt d prev)"
  by (simp add: entry_verify_def log_entry_new_def)

lemma log_append_ok:
  "log_append lib e l = (Inr (), l') \<longleftrightarrow>
     entry_verify lib e \<and> (bl_latest_hash l \<noteq> None \<longrightarrow> le_previous_hash e = bl_latest_hash l) \<and>
     l' = l\<lparr>bl_entries := (bl_entries l)(le_entry_id e \<mapsto> e),
           bl_pass_entries := (bl_pass_entries l)(le_pass_id e \<mapsto>
             (case bl_pass_entries l (le_pass_id e) of None \<Rightarrow> [] | Some is \<Rightarrow> is) @ [le_entry_id e]),
           bl_latest_hash := Some (le_hash e)\<rparr>"
  by (auto simp: log_append_def)

lemma log_append_entries:
  "log_append lib e l = (Inr (), l') \<Longrightarrow> bl_entries l' = (bl_entries l)(le_entry_id e \<mapsto> e)"
  by (simp add: log_append_ok)

lemma linked_snoc:
  "linked (es @ [e]) \<longleftrightarrow>
     linked es \<and> (es \<noteq> [] \<longrightarrow> le_previous_hash e = Some (le_hash (last es)))"
  by (induction es rule: linked.induct) auto

text \<open>A linked list of verified entries passes the loop from the hash that precedes it.\<close>

lemma chain_loop_linked:
  "linked es \<Longrightarrow> \<forall>e \<in> set es. entry_verify lib e \<Longrightarrow>
     (es \<noteq> [] \<Longrightarrow> le_previous_hash (hd es) = prev) \<Longrightarrow> chain_loop lib prev es"
proof (induction es arbitrary: prev rule: linked.induct)
  case (1 e f es)
  then show ?case by simp
qed simp_all

lemma chain_loop_sound:
  "chain_loop lib prev es \<Longrightarrow>
     linked es \<and> (\<forall>e \<in> set es. entry_verify lib e) \<and> (es \<noteq> [] \<longrightarrow> le_previous_hash (hd es) = prev)"
proof (induction es arbitrary: prev)
  case Nil
  then show ?case by simp
next
  case (Cons e es)
  then have "chain_loop lib (Some (le_hash e)) es" and "entry_verify lib e"
    and "le_previous_hash e = prev"
    by (auto split: if_splits)
  moreover from Cons.IH [OF this(1)] have "linked es" "\<forall>x \<in> set es. entry_verify lib x"
    "es \<noteq> [] \<longrightarrow> le_previous_hash (hd es) = Some (le_hash e)" by simp_all
  ultimately show ?case by (cases es) simp_all
qed

lemma appended_chain:
  assumes "appended lib es l"
  shows "linked es \<and> (\<forall>e \<in> set es. entry_verify lib e) \<and>
    bl_latest_hash l = (if es = [] then None else Some (le_hash (last es)))"
  using assms
proof (induction rule: appended.induct)
  case appended_none
  then show ?case by (simp add: log_new_def)
next
  case (appended_more es l e l')
  then show ?case by (auto simp: log_append_ok linked_snoc)
qed

lemma appended_entries:
  assumes "appended lib es l" and "distinct (map le_entry_id es)"
  shows "(\<forall>i e. bl_entries l i = Some e \<longleftrightarrow> e \<in> set es \<and> le_entry_id e = i) \<and>
    (\<forall>p. (case bl_pass_entries l p of None \<Rightarrow> [] | Some is \<Rightarrow> is) =
       map le_entry_id (filter (\<lambda>e. le_pass_id e = p) es))"
  using assms
proof (induction rule: appended.induct)
  case appended_none
  then show ?case by (simp add: log_new_def)
next
  case (appended_more es l e l')
  then have IH1: "bl_entries l i = Some x \<longleftrightarrow> x \<in> set es \<and> le_entry_id x = i" for i x by simp
  from appended_more have IH2: "(case bl_pass_entries l p of None \<Rightarrow> [] | Some is \<Rightarrow> is) =
       map le_entry_id (filter (\<lambda>e. le_pass_id e = p) es)" for p by simp
  from appended_more.prems have "le_entry_id e \<notin> le_entry_id ` set es" by simp
  then have fresh: "\<forall>x \<in> set es. le_entry_id x \<noteq> le_entry_id e" by (metis image_eqI)
  from appended_more.hyps(2) have l': "bl_entries l' = (bl_entries l)(le_entry_id e \<mapsto> e)"
    "bl_pass_entries l' = (bl_pass_entries l)(le_pass_id e \<mapsto>
       (case bl_pass_entries l (le_pass_id e) of None \<Rightarrow> [] | Some is \<Rightarrow> is) @ [le_entry_id e])"
    by (simp_all add: log_append_ok)
  have "bl_entries l' i = Some x \<longleftrightarrow> x \<in> set (es @ [e]) \<and> le_entry_id x = i" for i x
    using IH1 fresh by (auto simp: l'(1))
  moreover have "(case bl_pass_entries l' p of None \<Rightarrow> [] | Some is \<Rightarrow> is) =
       map le_entry_id (filter (\<lambda>e. le_pass_id e = p) (es @ [e]))" for p
    using IH2 by (simp add: l'(2))
  ultimately show ?case by blast
qed

lemma keyed_values_ids:
  assumes "\<forall>i e. m i = Some e \<longrightarrow> key e = i" and "set ks \<subseteq> dom m"
  shows "map key (map_values m ks) = ks"
  using assms(2)
proof (induction ks)
  case Nil
  then show ?case by simp
next
  case (Cons k ks)
  then obtain e where "m k = Some e" by auto
  with Cons assms(1) show ?case by simp
qed

lemma appended_values:
  assumes "appended lib es l" and "distinct (map le_entry_id es)" and "iter_order (bl_entries l) ks"
  shows "mset (map_values (bl_entries l) ks) = mset es"
proof -
  note ent = appended_entries [OF assms(1,2)]
  have "map le_entry_id (map_values (bl_entries l) ks) = ks"
    using ent assms(3) by (intro keyed_values_ids) (auto simp: iter_order_def)
  then have "distinct (map_values (bl_entries l) ks)"
    using assms(3) by (metis distinct_map iter_order_def)
  moreover have "distinct es" using assms(2) by (simp add: distinct_map)
  moreover have "set (map_values (bl_entries l) ks) = set es"
    using ent by (auto simp: iter_order_values [OF assms(3)] ran_def)
  ultimately show ?thesis by (metis set_eq_iff_mset_eq_distinct)
qed

lemma appended_verify_chain:
  assumes "appended lib es l" and "distinct (map le_entry_id es)"
    and "es \<noteq> [] \<Longrightarrow> le_previous_hash (hd es) = None"
    and "sorted_wrt (<) (map entry_time es)" and "iter_order (bl_entries l) ks"
  shows "verify_chain lib ks l"
proof -
  have vals: "mset (map_values (bl_entries l) ks) = mset es"
    using assms(1,2,5) by (rule appended_values)
  have times: "sorted (map entry_time es)" "distinct (map entry_time es)"
    using assms(4) by (simp_all add: strict_sorted_iff)
  have sorted: "sort_key entry_time (map_values (bl_entries l) ks) = es"
  proof (rule sort_key_inj_key_eq [OF vals])
    show "inj_on entry_time (set (map_values (bl_entries l) ks))"
      using times(2) vals by (metis distinct_map set_mset_mset)
  qed (rule times(1))
  have "chain_loop lib None es"
    using appended_chain [OF assms(1)] assms(3) by (intro chain_loop_linked) auto
  then show ?thesis by (simp add: verify_chain_def sorted)
qed

lemma sample_appended:
  "appended sample_lib [sample_first, sample_second] sample_log \<and>
   iter_order (bl_entries sample_log) [''b'', ''a'']"
proof -
  have v: "entry_verify sample_lib (sample_entry i t prev)" for i t prev
    by (simp add: entry_verify_def sample_entry_def)
  define l1 where "l1 = snd (log_append sample_lib sample_first log_new)"
  have one: "log_append sample_lib sample_first log_new = (Inr (), l1)"
    using v by (simp add: l1_def log_append_def sample_first_def log_new_def)
  have two: "log_append sample_lib sample_second l1 = (Inr (), sample_log)"
  proof -
    have "bl_latest_hash l1 = le_previous_hash sample_second"
      using one by (simp add: log_append_ok sample_second_def sample_entry_def)
    moreover have "entry_verify sample_lib sample_second" using v by (simp add: sample_second_def)
    moreover have "sample_log = snd (log_append sample_lib sample_second l1)"
      by (simp only: sample_log_def l1_def)
    ultimately show ?thesis by (simp add: log_append_def)
  qed
  have "appended sample_lib ([] @ [sample_first]) l1"
    by (rule appended_more [OF appended_none one])
  then have "appended sample_lib (([] @ [sample_first]) @ [sample_second]) sample_log"
    by (rule appended_more [OF _ two])
  moreover have "bl_entries sample_log = [''a'' \<mapsto> sample_first, ''b'' \<mapsto> sample_second]"
  proof -
    have "le_entry_id sample_first = ''a''" "le_entry_id sample_second = ''b''"
      by (simp_all add: sample_first_def sample_second_def sample_entry_def)
    with log_append_entries [OF one] log_append_entries [OF two] show ?thesis
      by (simp add: log_new_def)
  qed
  then have "dom (bl_entries sample_log) = {''b'', ''a''}" by (simp only: dom_fun_upd) simp
  ultimately show ?thesis by (simp add: iter_order_def)
qed

section \<open>Properties\<close>

text \<open>C5: The log keeps its chain. When entries with distinct identifiers, the first of which has no
  predecessor, are appended with increasing reception times, \<open>verify_chain\<close> accepts the log whatever
  the iteration order of its map, every entry is found under its identifier, and the entries of a
  pass are returned in the order they were appended.\<close>

theorem appended_log_verifies:
  assumes "appended lib es l" and "distinct (map le_entry_id es)"
    and "es \<noteq> [] \<Longrightarrow> le_previous_hash (hd es) = None"
    and "sorted_wrt (<) (map entry_time es)" and "iter_order (bl_entries l) ks"
  shows "verify_chain lib ks l \<and>
    (\<forall>e. e \<in> set es \<longleftrightarrow> log_get (le_entry_id e) l = Some e) \<and>
    (\<forall>p. get_pass_entries p l = filter (\<lambda>e. le_pass_id e = p) es)"
proof -
  note ent = appended_entries [OF assms(1,2)]
  have chain: "verify_chain lib ks l" using assms by (rule appended_verify_chain)
  have found: "e \<in> set es \<longleftrightarrow> log_get (le_entry_id e) l = Some e" for e
    using ent by (simp add: log_get_def)
  have look: "List.map_filter (bl_entries l) (map le_entry_id xs) = xs" if "set xs \<subseteq> set es" for xs
    using that found by (induction xs) (auto simp: List.map_filter_def log_get_def)
  have "get_pass_entries p l = filter (\<lambda>e. le_pass_id e = p) es" for p
  proof -
    have "get_pass_entries p l = List.map_filter (bl_entries l)
        (case bl_pass_entries l p of None \<Rightarrow> [] | Some is \<Rightarrow> is)"
      by (simp add: get_pass_entries_def List.map_filter_def split: option.splits)
    with ent look show ?thesis by simp
  qed
  with chain found show ?thesis by blast
qed

theorem appended_log_verifies_witness:
  "verify_chain sample_lib [''b'', ''a''] sample_log \<and>
   get_pass_entries (PassId ''p'') sample_log = [sample_first, sample_second]"
  using appended_log_verifies [of sample_lib "[sample_first, sample_second]" sample_log "[''b'', ''a'']"]
    sample_appended
  by (simp add: sample_first_def sample_second_def sample_entry_def entry_time_def)

text \<open>C6: A log that \<open>verify_chain\<close> accepts is intact: in the order of reception, every entry
  carries the hash of its own contents, the first has no predecessor and every other names the hash
  of the one before it.\<close>

theorem verify_chain_sound:
  assumes "verify_chain lib ks l" and "iter_order (bl_entries l) ks"
  shows "\<exists>es. set es = ran (bl_entries l) \<and> sorted (map entry_time es) \<and> linked es \<and>
    (\<forall>e \<in> set es. entry_verify lib e) \<and> (es \<noteq> [] \<longrightarrow> le_previous_hash (hd es) = None)"
proof -
  define es where "es = sort_key entry_time (map_values (bl_entries l) ks)"
  have "chain_loop lib None es" using assms(1) by (simp add: verify_chain_def es_def)
  moreover have "set es = ran (bl_entries l)"
    by (simp add: es_def iter_order_values [OF assms(2)])
  moreover have "sorted (map entry_time es)" by (simp add: es_def)
  ultimately show ?thesis using chain_loop_sound by blast
qed

theorem verify_chain_sound_witness:
  "\<exists>es. set es = ran (bl_entries sample_log) \<and> linked es"
proof -
  have "verify_chain sample_lib [''b'', ''a''] sample_log"
    using sample_appended
    by (intro appended_verify_chain [of sample_lib "[sample_first, sample_second]"])
      (simp_all add: sample_first_def sample_second_def sample_entry_def entry_time_def)
  from verify_chain_sound [OF this] sample_appended show ?thesis by blast
qed

text \<open>A log may accept what it then reports as broken: the first entry may name any predecessor,
  and then \<open>verify_chain\<close> refuses the log, after this entry and after every further one.\<close>

theorem unrooted_log_never_verifies:
  assumes "entry_verify lib e" and "le_previous_hash e = Some h"
    and "appended lib (e # es) l" and "distinct (map le_entry_id (e # es))"
    and "iter_order (bl_entries l) ks" and "\<forall>f \<in> set es. entry_time e < entry_time f"
  shows "fst (log_append lib e log_new) = Inr () \<and> \<not> verify_chain lib ks l"
proof -
  have vals: "mset (map_values (bl_entries l) ks) = mset (e # es)"
    using assms(3,4,5) by (rule appended_values)
  define xs where "xs = sort_key entry_time (map_values (bl_entries l) ks)"
  have set: "set xs = set (e # es)" using vals by (metis mset_sort set_mset_mset xs_def)
  have sorted: "sorted (map entry_time xs)" by (simp add: xs_def)
  obtain y ys where xs: "xs = y # ys" using set by (cases xs) auto
  have "y = e"
  proof (rule ccontr)
    assume "y \<noteq> e"
    with set xs have "y \<in> set es" "e \<in> set ys" by auto
    with sorted xs assms(6) show False by fastforce
  qed
  with xs assms(2) have "\<not> chain_loop lib None xs" by simp
  with assms(1) show ?thesis
    by (simp add: verify_chain_def xs_def log_append_def log_new_def)
qed

theorem unrooted_log_never_verifies_witness:
  "\<exists>l. log_append sample_lib (sample_entry ''a'' 1 (Some ''x'')) log_new = (Inr (), l) \<and>
     \<not> verify_chain sample_lib [''a''] l"
proof -
  define e where "e = sample_entry ''a'' 1 (Some ''x'')"
  obtain l where l: "log_append sample_lib e log_new = (Inr (), l)"
    by (simp add: log_append_def log_new_def e_def entry_verify_def sample_entry_def)
  have "appended sample_lib ([] @ [e]) l" by (rule appended_more [OF appended_none l])
  moreover have "iter_order (bl_entries l) [''a'']"
    using l by (simp add: log_append_ok log_new_def e_def sample_entry_def iter_order_def)
  ultimately have "\<not> verify_chain sample_lib [''a''] l"
    using unrooted_log_never_verifies [of sample_lib e "''x''" "[]" l "[''a'']"]
    by (simp add: e_def entry_verify_def sample_entry_def)
  with l show ?thesis by (auto simp: e_def)
qed

text \<open>The hash does not separate the fields it covers: moving characters from the end of the
  identifier of an entry to the front of its pass leaves the hash valid, whatever the hash function,
  so such a change of an entry is not detected.\<close>

theorem hash_ignores_field_boundary:
  assumes "entry_verify lib e" and "le_entry_id e = i @ x" and "le_pass_id e = PassId p"
  shows "entry_verify lib (e\<lparr>le_entry_id := i, le_pass_id := PassId (x @ p)\<rparr>)"
  using assms by (simp add: entry_verify_def compute_hash_def)

theorem hash_ignores_field_boundary_witness:
  "entry_verify sample_lib (sample_first\<lparr>le_entry_id := [], le_pass_id := PassId ''ap''\<rparr>)"
  using hash_ignores_field_boundary [of sample_lib sample_first "[]" "''a''" "''p''"]
  by (simp add: sample_first_def sample_entry_def entry_verify_def)

end
