(* ===== verification/Bitemporal_Snapshot.thy ===== *)
theory Bitemporal_Snapshot
  imports Bitemporal_Log
begin

text \<open>
  Snapshots of the log and the manager that retains them (\<open>bitemporal/src/snapshot.rs\<close>).

  The clock readings, the random identifier and the order in which the set of pass identifiers is
  collected (\<open>ps\<close>) are arguments. The loop that drops the oldest snapshots is a recursion with its
  termination proof. \<open>prune_older_than\<close> computes a date and panics out of the range of the date
  library: then it is \<open>None\<close>.
\<close>

section \<open>Definitions\<close>

record snapshot_metadata =
  sm_entry_count :: nat
  sm_time_range :: "datetime \<times> datetime"
  sm_pass_ids :: "string list"
  sm_hash :: string

record 'j log_snapshot =
  ls_snapshot_id :: string
  ls_captured_at :: reception_time
  ls_entries :: "'j log_entry list"
  ls_metadata :: snapshot_metadata

definition snapshot_hash :: "'j log_lib \<Rightarrow> 'j log_entry list \<Rightarrow> string" where
  "snapshot_hash lib es = sha256_hex lib (concat (map le_hash es))"

definition snapshot_new :: "'j log_lib \<Rightarrow> uuid \<Rightarrow> datetime \<Rightarrow> datetime \<times> datetime \<Rightarrow> string list \<Rightarrow>
    'j log_entry list \<Rightarrow> 'j log_snapshot" where
  "snapshot_new lib fresh now later ps es =
     \<lparr>ls_snapshot_id = show_uuid fresh, ls_captured_at = ReceptionTime now, ls_entries = es,
      ls_metadata =
        \<lparr>sm_entry_count = length es,
         sm_time_range = (if es = [] then later else (entry_time (hd es), entry_time (last es))),
         sm_pass_ids = ps, sm_hash = snapshot_hash lib es\<rparr>\<rparr>"

definition snapshot_verify :: "'j log_lib \<Rightarrow> 'j log_snapshot \<Rightarrow> bool" where
  "snapshot_verify lib s \<longleftrightarrow> snapshot_hash lib (ls_entries s) = sm_hash (ls_metadata s)"

text \<open>\<open>std::mem::discriminant\<close> of an entry type.\<close>

fun entry_discriminant :: "log_entry_type \<Rightarrow> nat" where
  "entry_discriminant (SampleReceived _ _ _) = 0"
| "entry_discriminant (DemodulatorStateChange _ _) = 1"
| "entry_discriminant (HardwareAllocation _ _) = 2"
| "entry_discriminant (HardwareRelease _) = 3"
| "entry_discriminant (PassStarted _ _) = 4"
| "entry_discriminant (PassCompleted _ _) = 5"
| "entry_discriminant (PassFailed _) = 6"
| "entry_discriminant (ShadowPromoted _ _) = 7"
| "entry_discriminant (SchedulerDecision _ _) = 8"
| "entry_discriminant (FederationEvent _ _) = 9"
| "entry_discriminant (LogError _ _) = 10"

definition query_by_type :: "log_entry_type \<Rightarrow> 'j log_snapshot \<Rightarrow> 'j log_entry list" where
  "query_by_type ty s =
     filter (\<lambda>e. entry_discriminant (le_entry_type e) = entry_discriminant ty) (ls_entries s)"

definition query_by_pass :: "string \<Rightarrow> 'j log_snapshot \<Rightarrow> 'j log_entry list" where
  "query_by_pass p s = filter (\<lambda>e. pass_id_str (le_pass_id e) = p) (ls_entries s)"

definition query_by_time_range :: "datetime \<Rightarrow> datetime \<Rightarrow> 'j log_snapshot \<Rightarrow> 'j log_entry list" where
  "query_by_time_range start finish s =
     filter (\<lambda>e. start \<le> entry_time e \<and> entry_time e \<le> finish) (ls_entries s)"

subsection \<open>The manager\<close>

record 'j snapshot_manager =
  sn_snapshots :: "'j log_snapshot list"
  sn_max_snapshots :: nat
  sn_snapshot_interval_sec :: u64
  sn_last_snapshot_time :: "datetime option"

definition manager_new :: "nat \<Rightarrow> u64 \<Rightarrow> 'j snapshot_manager" where
  "manager_new max_snapshots interval =
     \<lparr>sn_snapshots = [], sn_max_snapshots = max_snapshots, sn_snapshot_interval_sec = interval,
      sn_last_snapshot_time = None\<rparr>"

text \<open>The interval is cast to a signed integer before the comparison.\<close>

definition should_snapshot :: "datetime \<Rightarrow> 'j snapshot_manager \<Rightarrow> bool" where
  "should_snapshot now m =
     (case sn_last_snapshot_time m of
        Some prev \<Rightarrow> sint (sn_snapshot_interval_sec m) \<le> num_seconds (now - prev)
      | None \<Rightarrow> True)"

definition add_snapshot :: "'j log_snapshot \<Rightarrow> 'j snapshot_manager \<Rightarrow> 'j snapshot_manager" where
  "add_snapshot s m =
     m\<lparr>sn_snapshots := drop_oldest (sn_max_snapshots m) (sn_snapshots m @ [s])\<rparr>"

text \<open>\<open>t0\<close>, \<open>t1\<close>, \<open>later\<close> and \<open>t2\<close> are the clock readings of a call, in their order.\<close>

definition snapshot_if_needed :: "'j log_lib \<Rightarrow> uuid \<Rightarrow> datetime \<Rightarrow> datetime \<Rightarrow> datetime \<times> datetime \<Rightarrow>
    datetime \<Rightarrow> string list \<Rightarrow> 'j log_entry list \<Rightarrow> 'j snapshot_manager \<Rightarrow>
    'j log_snapshot option \<times> 'j snapshot_manager" where
  "snapshot_if_needed lib fresh t0 t1 later t2 ps es m =
     (if should_snapshot t0 m
      then (let s = snapshot_new lib fresh t1 later ps es
            in (Some s, (add_snapshot s m)\<lparr>sn_last_snapshot_time := Some t2\<rparr>))
      else (None, m))"

definition latest :: "'j snapshot_manager \<Rightarrow> 'j log_snapshot option" where
  "latest m = (if sn_snapshots m = [] then None else Some (last (sn_snapshots m)))"

definition snapshot_distance :: "datetime \<Rightarrow> 'j log_snapshot \<Rightarrow> int" where
  "snapshot_distance t s = \<bar>num_milliseconds (reception_datetime (ls_captured_at s) - t)\<bar>"

definition find_closest :: "datetime \<Rightarrow> 'j snapshot_manager \<Rightarrow> 'j log_snapshot option" where
  "find_closest t m = min_by_key (snapshot_distance t) (sn_snapshots m)"

definition all_snapshots :: "'j snapshot_manager \<Rightarrow> 'j log_snapshot list" where
  "all_snapshots m = sn_snapshots m"

definition prune_older_than :: "chrono \<Rightarrow> datetime \<Rightarrow> int \<Rightarrow> 'j snapshot_manager \<Rightarrow>
    'j snapshot_manager option" where
  "prune_older_than ch now age_sec m =
     (if \<not> duration_in_range ch (duration_seconds age_sec) then None
      else
        (case date_add ch now (- duration_seconds age_sec) of
           None \<Rightarrow> None
         | Some cutoff \<Rightarrow>
             Some (m\<lparr>sn_snapshots :=
               filter (\<lambda>s. cutoff < reception_datetime (ls_captured_at s)) (sn_snapshots m)\<rparr>)))"

inductive manager_step :: "chrono \<Rightarrow> 'j log_lib \<Rightarrow> 'j snapshot_manager \<Rightarrow> 'j snapshot_manager \<Rightarrow> bool"
  for ch :: chrono and lib :: "'j log_lib" where
  step_snapshot:
    "manager_step ch lib m (snd (snapshot_if_needed lib fresh t0 t1 later t2 ps es m))"
| step_prune: "prune_older_than ch now age m = Some m' \<Longrightarrow> manager_step ch lib m m'"

definition manager_inv :: "'j log_lib \<Rightarrow> nat \<Rightarrow> 'j snapshot_manager \<Rightarrow> bool" where
  "manager_inv lib k m \<longleftrightarrow> sn_max_snapshots m = k \<and> length (sn_snapshots m) \<le> k \<and>
     (\<forall>s \<in> set (sn_snapshots m). snapshot_verify lib s \<and>
        sm_entry_count (ls_metadata s) = length (ls_entries s))"

section \<open>Lemmas\<close>

text \<open>The loop keeps the newest elements.\<close>

lemma snapshot_verify_new: "snapshot_verify lib (snapshot_new lib fresh now later ps es)"
  by (simp add: snapshot_verify_def snapshot_new_def)

lemma manager_inv_snapshot:
  assumes "manager_inv lib k m"
  shows "manager_inv lib k (snd (snapshot_if_needed lib fresh t0 t1 later t2 ps es m))"
proof -
  define s where "s = snapshot_new lib fresh t1 later ps es"
  have s: "snapshot_verify lib s" "sm_entry_count (ls_metadata s) = length (ls_entries s)"
    by (simp add: s_def snapshot_verify_new) (simp add: s_def snapshot_new_def)
  have "set (drop_oldest k (sn_snapshots m @ [s])) \<subseteq> set (sn_snapshots m @ [s])"
    unfolding drop_oldest_drop by (rule set_drop_subset)
  moreover have "length (drop_oldest k (sn_snapshots m @ [s])) \<le> k"
    by (simp add: drop_oldest_drop)
  ultimately show ?thesis
    using assms s unfolding manager_inv_def
    by (auto simp: snapshot_if_needed_def add_snapshot_def s_def [symmetric] Let_def)
qed

lemma manager_inv_prune:
  assumes "manager_inv lib k m" and "prune_older_than ch now age m = Some m'"
  shows "manager_inv lib k m'"
  using assms
  by (auto simp: prune_older_than_def manager_inv_def split: if_splits option.splits
    intro: le_trans [OF length_filter_le])

interpretation snapshots: invariant_system "\<lambda>m. m = manager_new k iv" "manager_step ch lib"
  "manager_inv lib k" for k iv ch lib
proof
  show "m = manager_new k iv \<Longrightarrow> manager_inv lib k m" for m
    by (simp add: manager_new_def manager_inv_def)
  show "manager_inv lib k m \<Longrightarrow> manager_step ch lib m m' \<Longrightarrow> manager_inv lib k m'" for m m'
    by (auto elim!: manager_step.cases intro: manager_inv_snapshot manager_inv_prune)
qed

section \<open>Properties\<close>

text \<open>In every state it reaches, the snapshot manager retains at most as many snapshots as it was
  made for, every one of them verifies, and a search by time returns a retained snapshot whose
  distance in whole milliseconds is least, unless there is none.\<close>

theorem snapshots_bounded_and_found:
  assumes "reach (\<lambda>m. m = manager_new k iv) (manager_step ch lib) m"
  shows "length (all_snapshots m) \<le> k \<and> (\<forall>s \<in> set (all_snapshots m). snapshot_verify lib s) \<and>
    (case find_closest t m of
       None \<Rightarrow> all_snapshots m = []
     | Some s \<Rightarrow> s \<in> set (all_snapshots m) \<and>
         (\<forall>r \<in> set (all_snapshots m). snapshot_distance t s \<le> snapshot_distance t r))"
proof -
  have "manager_inv lib k m" using assms by (rule snapshots.reach_inv)
  then show ?thesis
    by (auto simp: manager_inv_def all_snapshots_def find_closest_def min_by_key_None
      split: option.splits dest: min_by_key_Some)
qed

theorem snapshots_bounded_and_found_witness:
  "\<exists>m. length (all_snapshots m) = 1 \<and> (\<forall>s \<in> set (all_snapshots m). snapshot_verify sample_lib s)"
proof -
  define m where "m = snd (snapshot_if_needed sample_lib 1 0 0 (0, 0) 0 [] [sample_first] (manager_new 1 60))"
  have "reach (\<lambda>m. m = manager_new 1 60)
      (manager_step \<lparr>date_in_range = (\<lambda>_. True), duration_in_range = (\<lambda>_. True)\<rparr> sample_lib) m"
    unfolding m_def by (rule reach_step [OF reach_self]) (rule step_snapshot)
  from snapshots_bounded_and_found [OF this]
  have "\<forall>s \<in> set (all_snapshots m). snapshot_verify sample_lib s" by blast
  moreover have "length (all_snapshots m) = 1"
    by (simp add: m_def all_snapshots_def snapshot_if_needed_def should_snapshot_def manager_new_def
      add_snapshot_def drop_oldest_drop Let_def)
  ultimately show ?thesis by blast
qed

end
