(* ===== verification/Deployment.thy ===== *)
theory Deployment
  imports Core_Types
begin

text \<open>
  Zero-downtime deployment (\<open>deployment/src\<close>): versions and binaries (\<open>version.rs\<close>), the processes
  of the passes (\<open>subprocess.rs\<close>), the handoff between versions (\<open>handoff.rs\<close>) and the supervisor
  (\<open>supervisor.rs\<close>).

  The operating system is a parameter (\<open>os\<close>): reading a file, spawning a process, which returns its
  identifier or the text of an error, and sending it the termination signal, which returns whether the
  signalling command succeeded or the text of the error of running it; the model is that of a Unix
  build. SHA-256 with its hexadecimal rendering is a parameter too. The supervisor is a state machine
  (\<open>sup_step\<close>) whose steps are its public operations that write.
\<close>

section \<open>Definitions\<close>

subsection \<open>Versions\<close>

record version =
  v_major :: u32
  v_minor :: u32
  v_patch :: u32

definition version_new :: "u32 \<Rightarrow> u32 \<Rightarrow> u32 \<Rightarrow> version" where
  "version_new a b c = \<lparr>v_major = a, v_minor = b, v_patch = c\<rparr>"

definition version_as_string :: "version \<Rightarrow> string" where
  "version_as_string v =
     show_nat (unat (v_major v)) @ ''.'' @ show_nat (unat (v_minor v)) @ ''.'' @
     show_nat (unat (v_patch v))"

record versioned_binary =
  vb_version :: version
  vb_path :: string
  vb_checksum :: string
  vb_built_at :: datetime
  vb_schema_version :: string

definition binary_new :: "datetime \<Rightarrow> version \<Rightarrow> string \<Rightarrow> string \<Rightarrow> string \<Rightarrow> versioned_binary" where
  "binary_new now v path checksum schema =
     \<lparr>vb_version = v, vb_path = path, vb_checksum = checksum, vb_built_at = now,
      vb_schema_version = schema\<rparr>"

record os =
  os_read_file :: "string \<Rightarrow> bytes option"
  os_sha256_hex :: "bytes \<Rightarrow> string"
  os_spawn :: "string \<Rightarrow> string list \<Rightarrow> string + u32"
  os_kill_term :: "u32 \<Rightarrow> string + bool"

definition compute_checksum :: "os \<Rightarrow> string \<Rightarrow> string option" where
  "compute_checksum sys path = map_option (os_sha256_hex sys) (os_read_file sys path)"

definition binary_verify :: "os \<Rightarrow> versioned_binary \<Rightarrow> bool" where
  "binary_verify sys b =
     (case compute_checksum sys (vb_path b) of
        Some computed \<Rightarrow> computed = vb_checksum b
      | None \<Rightarrow> False)"

definition schema_compatible :: "versioned_binary \<Rightarrow> versioned_binary \<Rightarrow> bool" where
  "schema_compatible a b \<longleftrightarrow> vb_schema_version a = vb_schema_version b"

subsection \<open>Processes\<close>

datatype process_state = Starting | Running | Completing | Completed | ProcFailed | Killed

record process_handle =
  ph_pid :: u32
  ph_binary_version :: version
  ph_started_at :: datetime
  ph_state :: process_state

record shared_memory_handle =
  smh_region_id :: string
  smh_size :: nat
  smh_schema_version :: string

record pass_process =
  pp_pass_id :: pass_id
  pp_process :: process_handle
  pp_allocated_hardware :: "string list"
  pp_state_handle :: shared_memory_handle

definition pass_process_new :: "datetime \<Rightarrow> pass_id \<Rightarrow> u32 \<Rightarrow> version \<Rightarrow> string list \<Rightarrow>
    shared_memory_handle \<Rightarrow> pass_process" where
  "pass_process_new now p pid v hw h =
     \<lparr>pp_pass_id = p,
      pp_process = \<lparr>ph_pid = pid, ph_binary_version = v, ph_started_at = now, ph_state = Starting\<rparr>,
      pp_allocated_hardware = hw, pp_state_handle = h\<rparr>"

definition is_running :: "pass_process \<Rightarrow> bool" where
  "is_running p \<longleftrightarrow> ph_state (pp_process p) = Running"

definition can_terminate :: "pass_process \<Rightarrow> bool" where
  "can_terminate p \<longleftrightarrow> ph_state (pp_process p) = Completed \<or> ph_state (pp_process p) = ProcFailed"

type_synonym process_manager = "pass_id \<rightharpoonup> pass_process"

definition add_process :: "pass_process \<Rightarrow> process_manager \<Rightarrow> process_manager" where
  "add_process p m = m(pp_pass_id p \<mapsto> p)"

definition get_process :: "pass_id \<Rightarrow> process_manager \<Rightarrow> pass_process option" where
  "get_process i m = m i"

definition remove_process :: "pass_id \<Rightarrow> process_manager \<Rightarrow> pass_process option \<times> process_manager" where
  "remove_process i m = (m i, m(i := None))"

definition all_processes :: "pass_id list \<Rightarrow> process_manager \<Rightarrow> pass_process list" where
  "all_processes ks m = map_values m ks"

definition processes_on_version :: "version \<Rightarrow> pass_id list \<Rightarrow> process_manager \<Rightarrow>
    pass_process list" where
  "processes_on_version v ks m =
     filter (\<lambda>p. ph_binary_version (pp_process p) = v) (map_values m ks)"

definition terminatable_processes :: "pass_id list \<Rightarrow> process_manager \<Rightarrow> pass_process list" where
  "terminatable_processes ks m = filter can_terminate (map_values m ks)"

record process_stats =
  ps_total :: nat
  ps_running :: nat
  ps_completed :: nat
  ps_failed :: nat
  ps_by_version :: "string \<rightharpoonup> nat"

text \<open>\<open>*by_version.entry(version).or_insert(0) += 1\<close>, for each process.\<close>

fun count_versions :: "pass_process list \<Rightarrow> (string \<rightharpoonup> nat) \<Rightarrow> (string \<rightharpoonup> nat)" where
  "count_versions [] m = m"
| "count_versions (p # ps) m =
     (let v = version_as_string (ph_binary_version (pp_process p))
      in count_versions ps (m(v \<mapsto> (case m v of None \<Rightarrow> 0 | Some n \<Rightarrow> n) + 1)))"

definition process_stats_of :: "pass_id list \<Rightarrow> process_manager \<Rightarrow> process_stats" where
  "process_stats_of ks m =
     (let ps = map_values m ks
      in \<lparr>ps_total = length ks,
          ps_running = length (filter is_running ps),
          ps_completed = length (filter (\<lambda>p. ph_state (pp_process p) = Completed) ps),
          ps_failed = length (filter (\<lambda>p. ph_state (pp_process p) = ProcFailed) ps),
          ps_by_version = count_versions ps Map.empty\<rparr>)"

subsection \<open>Handoff and supervisor\<close>

record supervisor_config =
  sc_binary_path :: string
  sc_current_version :: version
  sc_schema_version :: string

definition supervisor_config_default :: supervisor_config where
  "supervisor_config_default =
     \<lparr>sc_binary_path = ''./ground-core'', sc_current_version = version_new 0 1 0,
      sc_schema_version = ''1.0''\<rparr>"

record handoff_result =
  hr_success :: bool
  hr_old_version :: version
  hr_new_version :: version
  hr_processes_transferred :: nat
  hr_processes_remaining :: nat
  hr_duration_ms :: u64

definition perform_handoff :: "u64 \<Rightarrow> pass_id list \<Rightarrow> process_manager \<Rightarrow> supervisor_config \<Rightarrow>
    versioned_binary \<Rightarrow> handoff_result result" where
  "perform_handoff elapsed_ms ks m old_config new_binary =
     Inr \<lparr>hr_success = True, hr_old_version = sc_current_version old_config,
          hr_new_version = vb_version new_binary,
          hr_processes_transferred =
            length (processes_on_version (sc_current_version old_config) ks m),
          hr_processes_remaining = 0, hr_duration_ms = elapsed_ms\<rparr>"

definition can_handoff :: "pass_id list \<Rightarrow> process_manager \<Rightarrow> bool" where
  "can_handoff ks m = list_all (\<lambda>p. ph_state (pp_process p) \<noteq> Starting) (all_processes ks m)"

record scheduled_pass =
  sp_pass_id :: pass_id
  sp_scheduled_time :: datetime
  sp_satellite_id :: string
  sp_duration_sec :: u64

record supervisor =
  sv_config :: supervisor_config
  sv_process_manager :: process_manager
  sv_scheduled_passes :: "scheduled_pass list"
  sv_started_at :: datetime

definition supervisor_new :: "datetime \<Rightarrow> supervisor_config \<Rightarrow> supervisor" where
  "supervisor_new now cfg =
     \<lparr>sv_config = cfg, sv_process_manager = Map.empty, sv_scheduled_passes = [],
      sv_started_at = now\<rparr>"

definition schedule_pass :: "scheduled_pass \<Rightarrow> supervisor \<Rightarrow> supervisor" where
  "schedule_pass p s = s\<lparr>sv_scheduled_passes := sv_scheduled_passes s @ [p]\<rparr>"

fun join_comma :: "string list \<Rightarrow> string" where
  "join_comma [] = []"
| "join_comma [x] = x"
| "join_comma (x # y # xs) = x @ '','' @ join_comma (y # xs)"

definition start_pass :: "os \<Rightarrow> datetime \<Rightarrow> pass_id \<Rightarrow> string list \<Rightarrow> supervisor \<Rightarrow>
    pass_process result \<times> supervisor" where
  "start_pass sys now p hw s =
     (let region = ''shard-'' @ pass_id_str p
      in case os_spawn sys (sc_binary_path (sv_config s))
                [''--pass-id'', pass_id_str p, ''--shard-region'', region, ''--hardware'',
                 join_comma hw] of
           Inl e \<Rightarrow>
             (Inl (Hardware (''Failed to spawn pass process '' @ pass_id_str p @ '': '' @ e)), s)
         | Inr pid \<Rightarrow>
             (let process = pass_process_new now p pid (sc_current_version (sv_config s)) hw
                    \<lparr>smh_region_id = region, smh_size = 1024 * 1024,
                     smh_schema_version = sc_schema_version (sv_config s)\<rparr>
              in (Inr process,
                  s\<lparr>sv_process_manager := add_process process (sv_process_manager s)\<rparr>)))"

definition complete_pass :: "os \<Rightarrow> pass_id \<Rightarrow> supervisor \<Rightarrow> unit result \<times> supervisor" where
  "complete_pass sys p s =
     (case get_process p (sv_process_manager s) of
        None \<Rightarrow> (Inl (Hardware (''Pass '' @ pass_id_str p @ '' not found'')), s)
      | Some process \<Rightarrow>
          (case os_kill_term sys (ph_pid (pp_process process)) of
             Inr _ \<Rightarrow> (Inr (), s)
           | Inl e \<Rightarrow>
               (Inl (Hardware (''Failed to send SIGTERM to PID '' @
                  show_nat (unat (ph_pid (pp_process process))) @ '': '' @ e)), s)))"

definition deploy :: "os \<Rightarrow> datetime \<Rightarrow> u64 \<Rightarrow> pass_id list \<Rightarrow> versioned_binary \<Rightarrow> supervisor \<Rightarrow>
    handoff_result result \<times> supervisor" where
  "deploy sys now elapsed_ms ks b s =
     (let cfg = sv_config s
      in if \<not> binary_verify sys b then (Inl (Hardware ''Binary verification failed''), s)
         else if \<not> schema_compatible b
                     \<lparr>vb_version = sc_current_version cfg, vb_path = sc_binary_path cfg,
                      vb_checksum = [], vb_built_at = now,
                      vb_schema_version = sc_schema_version cfg\<rparr>
           then (Inl (Hardware ''Schema version incompatible - requires migration''), s)
         else
           (case perform_handoff elapsed_ms ks (sv_process_manager s) cfg b of
              Inl e \<Rightarrow> (Inl e, s)
            | Inr r \<Rightarrow>
                (Inr r, s\<lparr>sv_config := \<lparr>sc_binary_path = vb_path b,
                  sc_current_version = vb_version b, sc_schema_version = vb_schema_version b\<rparr>\<rparr>)))"

record supervisor_stats =
  ss_version :: version
  ss_uptime_seconds :: int
  ss_active_passes :: nat
  ss_completed_passes :: nat
  ss_failed_passes :: nat
  ss_scheduled_passes :: nat

definition supervisor_stats_of :: "datetime \<Rightarrow> pass_id list \<Rightarrow> supervisor \<Rightarrow> supervisor_stats" where
  "supervisor_stats_of now ks s =
     (let st = process_stats_of ks (sv_process_manager s)
      in \<lparr>ss_version = sc_current_version (sv_config s),
          ss_uptime_seconds = num_seconds (now - sv_started_at s),
          ss_active_passes = ps_running st, ss_completed_passes = ps_completed st,
          ss_failed_passes = ps_failed st,
          ss_scheduled_passes = length (sv_scheduled_passes s)\<rparr>)"

inductive sup_step :: "os \<Rightarrow> supervisor \<Rightarrow> supervisor \<Rightarrow> bool" for sys :: os where
  sup_schedule: "sup_step sys s (schedule_pass p s)"
| sup_start: "sup_step sys s (snd (start_pass sys now i hw s))"
| sup_complete: "sup_step sys s (snd (complete_pass sys i s))"
| sup_deploy: "iter_order (sv_process_manager s) ks \<Longrightarrow>
    sup_step sys s (snd (deploy sys now ms ks b s))"

definition sup_inv :: "supervisor_config \<Rightarrow> supervisor \<Rightarrow> bool" where
  "sup_inv cfg s \<longleftrightarrow>
     sc_schema_version (sv_config s) = sc_schema_version cfg \<and>
     (\<forall>i p. sv_process_manager s i = Some p \<longrightarrow>
        pp_pass_id p = i \<and> ph_state (pp_process p) = Starting \<and>
        smh_region_id (pp_state_handle p) = ''shard-'' @ pass_id_str i \<and>
        smh_schema_version (pp_state_handle p) = sc_schema_version cfg)"

text \<open>An operating system for the witnesses: every file holds one byte, whose hash is \<open>h\<close>.\<close>

definition sample_os :: os where
  "sample_os = \<lparr>os_read_file = (\<lambda>_. Some [1]), os_sha256_hex = (\<lambda>_. ''h''),
     os_spawn = (\<lambda>_ _. Inr 42), os_kill_term = (\<lambda>_. Inr True)\<rparr>"

definition sample_supervisor :: supervisor where
  "sample_supervisor =
     snd (start_pass sample_os 0 (PassId ''p'') [''sdr0''] (supervisor_new 0 supervisor_config_default))"

definition sample_binary :: versioned_binary where
  "sample_binary = binary_new 0 (version_new 0 2 0) ''./ground-core-2'' ''h'' ''1.0''"

section \<open>Lemmas\<close>

subsection \<open>Versions\<close>

lemma split_at_dot:
  assumes "a @ CHR ''.'' # x = b @ CHR ''.'' # y" and "CHR ''.'' \<notin> set a" and "CHR ''.'' \<notin> set b"
  shows "a = b \<and> x = y"
  using assms
proof (induction a arbitrary: b)
  case Nil
  then show ?case by (cases b) auto
next
  case (Cons c a)
  then show ?case by (cases b) auto
qed

lemma version_as_string_inj:
  assumes "version_as_string v = version_as_string w"
  shows "v = w"
proof -
  define s where "s w = show_nat (unat w)" for w :: u32
  have nodot: "CHR ''.'' \<notin> set (s w)" for w by (simp add: s_def show_nat_no_dot)
  have inj: "s w = s w' \<Longrightarrow> w = w'" for w w'
    by (auto simp: s_def dest!: show_nat_inj simp flip: word_unat_eq_iff)
  have "s (v_major v) @ CHR ''.'' # (s (v_minor v) @ CHR ''.'' # s (v_patch v)) =
      s (v_major w) @ CHR ''.'' # (s (v_minor w) @ CHR ''.'' # s (v_patch w))"
    using assms by (simp add: version_as_string_def s_def)
  then have "s (v_major v) = s (v_major w)"
    and "s (v_minor v) @ CHR ''.'' # s (v_patch v) = s (v_minor w) @ CHR ''.'' # s (v_patch w)"
    using split_at_dot nodot by blast+
  moreover from this(2) have "s (v_minor v) = s (v_minor w) \<and> s (v_patch v) = s (v_patch w)"
    using split_at_dot nodot by blast
  ultimately show ?thesis by (auto dest!: inj)
qed

lemma count_versions_spec:
  "count_versions ps m k =
     (let n = length (filter (\<lambda>p. version_as_string (ph_binary_version (pp_process p)) = k) ps)
      in if n = 0 then m k else Some ((case m k of None \<Rightarrow> 0 | Some c \<Rightarrow> c) + n))"
  by (induction ps arbitrary: m) (auto simp: Let_def split: option.splits)

subsection \<open>The supervisor\<close>

lemma deploy_ok:
  "fst (deploy sys now ms ks b s) = Inr r \<Longrightarrow>
     binary_verify sys b \<and> vb_schema_version b = sc_schema_version (sv_config s)"
  by (auto simp: deploy_def schema_compatible_def Let_def split: if_splits)

lemma sup_inv_step:
  assumes inv: "sup_inv cfg s" and step: "sup_step sys s t"
  shows "sup_inv cfg t"
  using step
proof cases
  case (sup_schedule p)
  with inv show ?thesis by (simp add: schedule_pass_def sup_inv_def)
next
  case (sup_start now i hw)
  with inv show ?thesis
    by (auto simp: start_pass_def sup_inv_def add_process_def pass_process_new_def Let_def
      split: sum.splits)
next
  case (sup_complete i)
  with inv show ?thesis
    by (auto simp: complete_pass_def split: option.splits sum.splits)
next
  case (sup_deploy ks now ms b)
  with inv show ?thesis
    by (auto simp: deploy_def sup_inv_def schema_compatible_def perform_handoff_def Let_def)
qed

interpretation supervision: invariant_system "\<lambda>s. s = supervisor_new t0 cfg" "sup_step sys"
  "sup_inv cfg" for t0 cfg sys
proof
  show "s = supervisor_new t0 cfg \<Longrightarrow> sup_inv cfg s" for s
    by (simp add: supervisor_new_def sup_inv_def)
  show "sup_inv cfg s \<Longrightarrow> sup_step sys s t \<Longrightarrow> sup_inv cfg t" for s t
    by (rule sup_inv_step)
qed

lemma sample_supervisor_pm:
  "dom (sv_process_manager sample_supervisor) = {PassId ''p''} \<and>
   sv_process_manager sample_supervisor \<noteq> Map.empty \<and>
   sv_config sample_supervisor = supervisor_config_default"
proof -
  obtain p where "sv_process_manager sample_supervisor = [PassId ''p'' \<mapsto> p]"
    "sv_config sample_supervisor = supervisor_config_default"
    by (simp add: sample_supervisor_def start_pass_def sample_os_def supervisor_new_def
      add_process_def pass_process_new_def Let_def)
  then show ?thesis by simp
qed

lemma sample_supervisor_order: "iter_order (sv_process_manager sample_supervisor) [PassId ''p'']"
  using sample_supervisor_pm by (simp add: iter_order_def)

lemma sample_supervisor_reach:
  "reach (\<lambda>s. s = supervisor_new 0 supervisor_config_default) (sup_step sample_os) sample_supervisor"
  unfolding sample_supervisor_def by (rule reach_step [OF reach_self]) (rule sup_start)

section \<open>Properties\<close>

text \<open>Every process ever started shares its memory under the schema version that the supervisor
  was configured with, since a deployment with another schema is refused; and its region is named
  after its pass.\<close>

theorem schema_never_changes:
  assumes "reach (\<lambda>s. s = supervisor_new t0 cfg) (sup_step sys) s"
  shows "sc_schema_version (sv_config s) = sc_schema_version cfg \<and>
    (\<forall>i p. get_process i (sv_process_manager s) = Some p \<longrightarrow>
       pp_pass_id p = i \<and> smh_region_id (pp_state_handle p) = ''shard-'' @ pass_id_str i \<and>
       smh_schema_version (pp_state_handle p) = sc_schema_version (sv_config s))"
  using supervision.reach_inv [OF assms] by (auto simp: sup_inv_def get_process_def)

theorem schema_never_changes_witness:
  "sc_schema_version (sv_config sample_supervisor) = ''1.0'' \<and>
   sv_process_manager sample_supervisor \<noteq> Map.empty"
  using schema_never_changes [OF sample_supervisor_reach] sample_supervisor_pm
  by (auto simp: supervisor_config_default_def)

text \<open>A deployment succeeds exactly when the file of the binary can be read, its hash is the
  checksum, and its schema is the current one. Then the configuration names the new binary, every
  pass keeps its process and its binary version, and the result counts the processes of the old
  version. Otherwise nothing changes and the error says which check failed.\<close>

theorem deploy_spec:
  "deploy sys now ms ks b s =
     (case os_read_file sys (vb_path b) of
        None \<Rightarrow> (Inl (Hardware ''Binary verification failed''), s)
      | Some d \<Rightarrow>
          if os_sha256_hex sys d \<noteq> vb_checksum b
          then (Inl (Hardware ''Binary verification failed''), s)
          else if vb_schema_version b \<noteq> sc_schema_version (sv_config s)
          then (Inl (Hardware ''Schema version incompatible - requires migration''), s)
          else
            (Inr \<lparr>hr_success = True, hr_old_version = sc_current_version (sv_config s),
                  hr_new_version = vb_version b,
                  hr_processes_transferred = length (filter
                    (\<lambda>p. ph_binary_version (pp_process p) = sc_current_version (sv_config s))
                    (all_processes ks (sv_process_manager s))),
                  hr_processes_remaining = 0, hr_duration_ms = ms\<rparr>,
             s\<lparr>sv_config := (sv_config s)\<lparr>sc_binary_path := vb_path b,
                                          sc_current_version := vb_version b\<rparr>\<rparr>))"
  by (cases "os_read_file sys (vb_path b)")
    (simp_all add: deploy_def binary_verify_def compute_checksum_def schema_compatible_def
      perform_handoff_def processes_on_version_def all_processes_def Let_def)

theorem deploy_spec_witness:
  "sc_current_version (sv_config (snd (deploy sample_os 1 2 [PassId ''p''] sample_binary
     sample_supervisor))) = version_new 0 2 0"
  using deploy_spec [of sample_os 1 2 "[PassId ''p'']" sample_binary sample_supervisor]
    sample_supervisor_pm
  by (auto simp: sample_os_def sample_binary_def binary_new_def supervisor_config_default_def)

text \<open>No process ever leaves the state in which it was recorded: the supervisor records a pass as
  starting and nothing updates it, so its statistics count no pass as active, completed or failed,
  and the check whether a handoff is safe fails as soon as one pass was started. A deployment does
  not make this check.\<close>

theorem passes_stay_starting:
  assumes "reach (\<lambda>s. s = supervisor_new t0 cfg) (sup_step sys) s"
    and "iter_order (sv_process_manager s) ks"
  shows "ss_active_passes (supervisor_stats_of now ks s) = 0 \<and>
    ss_completed_passes (supervisor_stats_of now ks s) = 0 \<and>
    ss_failed_passes (supervisor_stats_of now ks s) = 0 \<and>
    terminatable_processes ks (sv_process_manager s) = [] \<and>
    (can_handoff ks (sv_process_manager s) \<longleftrightarrow> sv_process_manager s = Map.empty)"
proof -
  define ps where "ps = map_values (sv_process_manager s) ks"
  have starting: "\<forall>p \<in> set ps. ph_state (pp_process p) = Starting"
    using supervision.reach_inv [OF assms(1)]
    by (auto simp: ps_def set_map_values sup_inv_def)
  have none: "filter is_running ps = []" "filter (\<lambda>p. ph_state (pp_process p) = Completed) ps = []"
    "filter (\<lambda>p. ph_state (pp_process p) = ProcFailed) ps = []" "filter can_terminate ps = []"
    using starting by (auto simp: filter_empty_conv is_running_def can_terminate_def)
  have "ps = [] \<longleftrightarrow> sv_process_manager s = Map.empty"
    using iter_order_length [OF assms(2)] assms(2)
    by (cases ks) (auto simp: ps_def iter_order_def simp flip: dom_eq_empty_conv)
  moreover have "can_handoff ks (sv_process_manager s) \<longleftrightarrow> ps = []"
    using starting by (cases ps) (auto simp: can_handoff_def all_processes_def ps_def [symmetric])
  ultimately show ?thesis
    using none
    by (simp add: supervisor_stats_of_def process_stats_of_def terminatable_processes_def
      ps_def [symmetric] Let_def)
qed

theorem passes_stay_starting_witness:
  "\<not> can_handoff [PassId ''p''] (sv_process_manager sample_supervisor) \<and>
   ss_active_passes (supervisor_stats_of 0 [PassId ''p''] sample_supervisor) = 0"
  using passes_stay_starting [OF sample_supervisor_reach sample_supervisor_order, of 0]
    sample_supervisor_pm by auto

text \<open>The statistics per version are right: two versions never print alike, so the count under
  the text of a version is the number of processes on that version, and there is none for a version
  without processes.\<close>

theorem stats_by_version:
  "ps_by_version (process_stats_of ks m) (version_as_string v) =
     (let n = length (processes_on_version v ks m) in if n = 0 then None else Some n)"
proof -
  have "version_as_string w = version_as_string v \<longleftrightarrow> w = v" for w
    by (auto dest: version_as_string_inj)
  then show ?thesis
    by (simp add: process_stats_of_def count_versions_spec processes_on_version_def Let_def)
qed

theorem stats_by_version_witness:
  "ps_by_version (process_stats_of [PassId ''p''] (sv_process_manager sample_supervisor))
     (version_as_string (version_new 9 9 9)) = None"
proof -
  have "processes_on_version (version_new 9 9 9) [PassId ''p''] (sv_process_manager sample_supervisor) = []"
    by (simp add: processes_on_version_def sample_supervisor_def start_pass_def sample_os_def
      supervisor_new_def add_process_def pass_process_new_def supervisor_config_default_def
      version_new_def Let_def)
  with stats_by_version [of "[PassId ''p'']" "sv_process_manager sample_supervisor" "version_new 9 9 9"]
  show ?thesis by simp
qed

end
