(* ===== verification/Control_Plane_Handoff.thy ===== *)
theory Control_Plane_Handoff
  imports Bitemporal_Log
begin

text \<open>
  The handoff of the control plane between nodes (\<open>oisl/src/federation/control_plane_handoff.rs\<close>).

  A handoff is a state machine with a history; the manager keeps the handoffs in a vector and looks
  them up by satellite, from the front. The readings of the clock that a call makes are \<open>clk 0\<close>,
  \<open>clk 1\<close>, and so on, in their order. The state machine \<open>handoff_step\<close> has the operations of the manager
  as its steps; writes through the reference that \<open>initiate_handoff\<close> returns are not among them.
\<close>

section \<open>Definitions\<close>

datatype handoff_phase =
    RequestSubmitted | SourceReleasing | ConfigurationSynced | TargetPersisted | ConfigurationLoaded
  | ChannelEstablished | TargetBound | ClientsetSwitched | SourceReleased | HandoffComplete

datatype handoff_state =
    HIdle
  | Initiated "datetime bitemporal"
  | Processing handoff_phase "datetime bitemporal"
  | HComplete "datetime bitemporal"
  | HFailed string "datetime bitemporal"

datatype handoff_trigger =
    SatelliteInitiated | GeometryChange | ControlNodeDegradation | ManualCommand | TriggerTimeout
  | TriggerError string

record handoff_state_transition =
  hst_from_state :: handoff_state
  hst_to_state :: handoff_state
  hst_transition_time :: "datetime bitemporal"
  hst_trigger :: handoff_trigger

record handoff_metrics =
  hm_total_duration_ms :: u64
  hm_configuration_sync_duration_ms :: u64
  hm_channel_establishment_duration_ms :: u64
  hm_clientset_switch_duration_ms :: u64
  hm_bytes_transferred :: u64
  hm_last_updated :: datetime

definition handoff_metrics_default :: "datetime \<Rightarrow> handoff_metrics" where
  "handoff_metrics_default now =
     \<lparr>hm_total_duration_ms = 0, hm_configuration_sync_duration_ms = 0,
      hm_channel_establishment_duration_ms = 0, hm_clientset_switch_duration_ms = 0,
      hm_bytes_transferred = 0, hm_last_updated = now\<rparr>"

record control_plane_handoff =
  cph_satellite_id :: string
  cph_source_node :: string
  cph_target_node :: string
  cph_state :: handoff_state
  cph_state_history :: "handoff_state_transition list"
  cph_handoff_metrics :: handoff_metrics

definition handoff_new :: "datetime \<Rightarrow> string \<Rightarrow> string \<Rightarrow> string \<Rightarrow> control_plane_handoff" where
  "handoff_new now sat src tgt =
     \<lparr>cph_satellite_id = sat, cph_source_node = src, cph_target_node = tgt, cph_state = HIdle,
      cph_state_history = [], cph_handoff_metrics = handoff_metrics_default now\<rparr>"

definition stamp :: "datetime \<Rightarrow> datetime \<Rightarrow> datetime \<Rightarrow> datetime bitemporal" where
  "stamp a b c = bitemporal_new a (EventTime b) (ReceptionTime c)"

definition transition_to :: "datetime \<Rightarrow> handoff_state \<Rightarrow> handoff_trigger \<Rightarrow>
    control_plane_handoff \<Rightarrow> control_plane_handoff" where
  "transition_to now st tr h =
     h\<lparr>cph_state := st,
       cph_state_history := cph_state_history h @
         [\<lparr>hst_from_state = cph_state h, hst_to_state = st, hst_transition_time = stamp now now now,
           hst_trigger = tr\<rparr>]\<rparr>"

definition update_metrics :: "handoff_metrics \<Rightarrow> control_plane_handoff \<Rightarrow> control_plane_handoff" where
  "update_metrics mx h = h\<lparr>cph_handoff_metrics := mx\<rparr>"

definition is_in_progress :: "control_plane_handoff \<Rightarrow> bool" where
  "is_in_progress h = (case cph_state h of Initiated _ \<Rightarrow> True | Processing _ _ \<Rightarrow> True | _ \<Rightarrow> False)"

definition is_complete :: "control_plane_handoff \<Rightarrow> bool" where
  "is_complete h = (case cph_state h of HComplete _ \<Rightarrow> True | _ \<Rightarrow> False)"

definition is_failed :: "control_plane_handoff \<Rightarrow> bool" where
  "is_failed h = (case cph_state h of HFailed _ _ \<Rightarrow> True | _ \<Rightarrow> False)"

datatype handoff_error =
    HandoffAlreadyInProgress string
  | HandoffNotFound string
  | InvalidHandoffState string
  | StepFailed string
  | ConfigurationSyncFailed string
  | ChannelEstablishmentFailed string

subsection \<open>The manager\<close>

record handoff_manager =
  hmg_active_handoffs :: "control_plane_handoff list"

definition handoff_manager_new :: handoff_manager where
  "handoff_manager_new = \<lparr>hmg_active_handoffs = []\<rparr>"

abbreviation for_satellite :: "string \<Rightarrow> control_plane_handoff \<Rightarrow> bool" where
  "for_satellite sat \<equiv> (\<lambda>h. cph_satellite_id h = sat)"

definition initiate_handoff :: "(nat \<Rightarrow> datetime) \<Rightarrow> string \<Rightarrow> string \<Rightarrow> string \<Rightarrow> handoff_manager \<Rightarrow>
    (handoff_error + control_plane_handoff) \<times> handoff_manager" where
  "initiate_handoff clk sat src tgt m =
     (if list_ex (\<lambda>h. for_satellite sat h \<and> is_in_progress h) (hmg_active_handoffs m)
      then (Inl (HandoffAlreadyInProgress sat), m)
      else
        (let h = transition_to (clk 4) (Initiated (stamp (clk 1) (clk 2) (clk 3))) SatelliteInitiated
                   (handoff_new (clk 0) sat src tgt)
         in (Inr h, m\<lparr>hmg_active_handoffs := hmg_active_handoffs m @ [h]\<rparr>)))"

text \<open>The update that \<open>advance_handoff\<close> makes of the handoff it found.\<close>

definition advance_found :: "(nat \<Rightarrow> datetime) \<Rightarrow> handoff_phase \<Rightarrow> control_plane_handoff \<Rightarrow>
    control_plane_handoff" where
  "advance_found clk next_step h =
     (let h1 = transition_to (clk 3) (Processing next_step (stamp (clk 0) (clk 1) (clk 2)))
                 SatelliteInitiated h
      in if next_step = HandoffComplete
         then transition_to (clk 7) (HComplete (stamp (clk 4) (clk 5) (clk 6))) SatelliteInitiated h1
         else h1)"

definition advance_handoff :: "(nat \<Rightarrow> datetime) \<Rightarrow> string \<Rightarrow> handoff_phase \<Rightarrow> handoff_manager \<Rightarrow>
    (handoff_error + unit) \<times> handoff_manager" where
  "advance_handoff clk sat next_step m =
     (case List.find (for_satellite sat) (hmg_active_handoffs m) of
        None \<Rightarrow> (Inl (HandoffNotFound sat), m)
      | Some h \<Rightarrow>
          (if \<not> is_in_progress h then (Inl (InvalidHandoffState sat), m)
           else (Inr (), m\<lparr>hmg_active_handoffs :=
                   update_first (for_satellite sat) (advance_found clk next_step)
                     (hmg_active_handoffs m)\<rparr>)))"

definition complete_found :: "(nat \<Rightarrow> datetime) \<Rightarrow> handoff_metrics \<Rightarrow> control_plane_handoff \<Rightarrow>
    control_plane_handoff" where
  "complete_found clk mx h =
     transition_to (clk 3) (HComplete (stamp (clk 0) (clk 1) (clk 2))) SatelliteInitiated
       (update_metrics mx h)"

definition complete_handoff :: "(nat \<Rightarrow> datetime) \<Rightarrow> string \<Rightarrow> handoff_metrics \<Rightarrow> handoff_manager \<Rightarrow>
    (handoff_error + unit) \<times> handoff_manager" where
  "complete_handoff clk sat mx m =
     (case List.find (for_satellite sat) (hmg_active_handoffs m) of
        None \<Rightarrow> (Inl (HandoffNotFound sat), m)
      | Some h \<Rightarrow>
          (Inr (), m\<lparr>hmg_active_handoffs :=
             update_first (for_satellite sat) (complete_found clk mx) (hmg_active_handoffs m)\<rparr>))"

definition fail_found :: "(nat \<Rightarrow> datetime) \<Rightarrow> string \<Rightarrow> control_plane_handoff \<Rightarrow>
    control_plane_handoff" where
  "fail_found clk reason h =
     transition_to (clk 3) (HFailed reason (stamp (clk 0) (clk 1) (clk 2))) (TriggerError reason) h"

definition fail_handoff :: "(nat \<Rightarrow> datetime) \<Rightarrow> string \<Rightarrow> string \<Rightarrow> handoff_manager \<Rightarrow>
    (handoff_error + unit) \<times> handoff_manager" where
  "fail_handoff clk sat reason m =
     (case List.find (for_satellite sat) (hmg_active_handoffs m) of
        None \<Rightarrow> (Inl (HandoffNotFound sat), m)
      | Some h \<Rightarrow>
          (Inr (), m\<lparr>hmg_active_handoffs :=
             update_first (for_satellite sat) (fail_found clk reason) (hmg_active_handoffs m)\<rparr>))"

definition get_handoff :: "string \<Rightarrow> handoff_manager \<Rightarrow> control_plane_handoff option" where
  "get_handoff sat m = List.find (for_satellite sat) (hmg_active_handoffs m)"

definition get_active_handoffs :: "handoff_manager \<Rightarrow> control_plane_handoff list" where
  "get_active_handoffs m = hmg_active_handoffs m"

definition cleanup_completed :: "handoff_manager \<Rightarrow> handoff_manager" where
  "cleanup_completed m =
     m\<lparr>hmg_active_handoffs := filter (\<lambda>h. \<not> is_complete h) (hmg_active_handoffs m)\<rparr>"

inductive handoff_step :: "handoff_manager \<Rightarrow> handoff_manager \<Rightarrow> bool" where
  step_initiate: "handoff_step m (snd (initiate_handoff clk sat src tgt m))"
| step_advance: "handoff_step m (snd (advance_handoff clk sat next_step m))"
| step_complete: "handoff_step m (snd (complete_handoff clk sat mx m))"
| step_fail: "handoff_step m (snd (fail_handoff clk sat reason m))"
| step_cleanup: "handoff_step m (cleanup_completed m)"

subsection \<open>The invariant\<close>

text \<open>A history starts at the idle state, has no gap, and ends at the current state.\<close>

fun history_from :: "handoff_state \<Rightarrow> handoff_state_transition list \<Rightarrow> handoff_state \<Rightarrow> bool" where
  "history_from a [] b = (a = b)"
| "history_from a (t # ts) b = (hst_from_state t = a \<and> history_from (hst_to_state t) ts b)"

definition history_ok :: "control_plane_handoff \<Rightarrow> bool" where
  "history_ok h \<longleftrightarrow> history_from HIdle (cph_state_history h) (cph_state h)"

definition live :: "string \<Rightarrow> control_plane_handoff list \<Rightarrow> nat" where
  "live sat hs = length (filter (\<lambda>h. for_satellite sat h \<and> is_in_progress h) hs)"

definition handoff_inv :: "handoff_manager \<Rightarrow> bool" where
  "handoff_inv m \<longleftrightarrow> (\<forall>h \<in> set (hmg_active_handoffs m). history_ok h) \<and>
     (\<forall>sat. live sat (hmg_active_handoffs m) \<le> 1)"

section \<open>Lemmas\<close>

lemma history_from_snoc:
  "history_from a (ts @ [t]) b \<longleftrightarrow> history_from a ts (hst_from_state t) \<and> hst_to_state t = b"
  by (induction ts arbitrary: a) auto

text \<open>The updates keep the satellite of a handoff and its history.\<close>

interpretation moved: keyed_update cph_satellite_id "transition_to now st tr" for now st tr
  by unfold_locales (simp add: transition_to_def)

interpretation advanced: keyed_update cph_satellite_id "advance_found clk next_step" for clk next_step
  by unfold_locales (simp add: advance_found_def moved.key_upd Let_def)

interpretation completed: keyed_update cph_satellite_id "complete_found clk mx" for clk mx
  by unfold_locales (simp add: complete_found_def moved.key_upd update_metrics_def)

interpretation failed: keyed_update cph_satellite_id "fail_found clk reason" for clk reason
  by unfold_locales (simp add: fail_found_def moved.key_upd)

lemma history_transition: "history_ok h \<Longrightarrow> history_ok (transition_to now st tr h)"
  by (simp add: history_ok_def transition_to_def history_from_snoc)

lemma history_updates:
  assumes "history_ok h"
  shows "history_ok (advance_found clk next_step h)" "history_ok (complete_found clk mx h)"
    "history_ok (fail_found clk reason h)"
proof -
  have "history_ok (update_metrics mx h)" using assms by (simp add: history_ok_def update_metrics_def)
  with assms show "history_ok (advance_found clk next_step h)" "history_ok (complete_found clk mx h)"
    "history_ok (fail_found clk reason h)"
    by (simp_all add: advance_found_def complete_found_def fail_found_def history_transition Let_def)
qed

lemma state_transition [simp]: "cph_state (transition_to now st tr h) = st"
  by (simp add: transition_to_def)

lemma finished_updates:
  "\<not> is_in_progress (complete_found clk mx h)" "\<not> is_in_progress (fail_found clk reason h)"
  by (simp_all add: is_in_progress_def complete_found_def fail_found_def)

text \<open>An update of one handoff keeps the invariant when it keeps the satellite and the history,
  and starts no progress.\<close>

lemma handoff_inv_update:
  assumes inv: "handoff_inv m" and found: "List.find (for_satellite sat) (hmg_active_handoffs m) = Some h"
    and hist: "history_ok h \<Longrightarrow> history_ok (f h)" and key: "cph_satellite_id (f h) = cph_satellite_id h"
    and prog: "is_in_progress (f h) \<Longrightarrow> is_in_progress h"
  shows "handoff_inv (m\<lparr>hmg_active_handoffs :=
           update_first (for_satellite sat) f (hmg_active_handoffs m)\<rparr>)"
proof -
  obtain ys zs where split: "hmg_active_handoffs m = ys @ h # zs"
    "update_first (for_satellite sat) f (hmg_active_handoffs m) = ys @ f h # zs"
    using update_first_split [OF found] by blast
  have "live x (ys @ f h # zs) \<le> live x (ys @ h # zs)" for x
    using prog by (auto simp: live_def key)
  with inv split have "live x (ys @ f h # zs) \<le> 1" for x
    unfolding handoff_inv_def by (metis le_trans)
  moreover have "\<forall>g \<in> set (ys @ f h # zs). history_ok g"
    using inv split hist by (auto simp: handoff_inv_def)
  ultimately show ?thesis by (simp add: handoff_inv_def split(2))
qed

lemma handoff_inv_initiate:
  assumes "handoff_inv m"
  shows "handoff_inv (snd (initiate_handoff clk sat src tgt m))"
proof (cases "list_ex (\<lambda>h. for_satellite sat h \<and> is_in_progress h) (hmg_active_handoffs m)")
  case True
  with assms show ?thesis by (simp add: initiate_handoff_def)
next
  case False
  define h where "h = transition_to (clk 4) (Initiated (stamp (clk 1) (clk 2) (clk 3)))
    SatelliteInitiated (handoff_new (clk 0) sat src tgt)"
  have "history_ok (handoff_new (clk 0) sat src tgt)"
    by (simp add: history_ok_def handoff_new_def)
  then have h: "history_ok h" "cph_satellite_id h = sat"
    unfolding h_def by (auto intro: history_transition simp: moved.key_upd handoff_new_def)
  have "live sat (hmg_active_handoffs m) = 0"
    using False by (auto simp: live_def filter_empty_conv list_ex_iff)
  moreover have "live x (hmg_active_handoffs m @ [h]) =
      live x (hmg_active_handoffs m) + (if x = sat \<and> is_in_progress h then 1 else 0)" for x
    using h(2) by (auto simp: live_def)
  ultimately have "live x (hmg_active_handoffs m @ [h]) \<le> 1" for x
    using assms by (cases "x = sat") (auto simp: handoff_inv_def)
  moreover have "snd (initiate_handoff clk sat src tgt m) =
      m\<lparr>hmg_active_handoffs := hmg_active_handoffs m @ [h]\<rparr>"
    using False by (simp add: initiate_handoff_def h_def Let_def)
  ultimately show ?thesis using assms h(1) by (simp add: handoff_inv_def)
qed

lemma handoff_inv_cleanup: "handoff_inv m \<Longrightarrow> handoff_inv (cleanup_completed m)"
proof -
  assume inv: "handoff_inv m"
  have "live x (filter p hs) \<le> live x hs" for x p and hs :: "control_plane_handoff list"
    by (induction hs) (auto simp: live_def)
  then have "live x (filter p (hmg_active_handoffs m)) \<le> 1" for x p
    using inv by (meson handoff_inv_def le_trans)
  with inv show ?thesis by (simp add: handoff_inv_def cleanup_completed_def)
qed

lemma handoff_inv_step:
  assumes inv: "handoff_inv m" and step: "handoff_step m m'"
  shows "handoff_inv m'"
  using step
proof cases
  case step_initiate
  then show ?thesis using handoff_inv_initiate [OF inv] by simp
next
  case (step_advance clk sat next_step)
  then show ?thesis using inv
    by (auto simp: advance_handoff_def split: option.splits
      intro!: handoff_inv_update intro: history_updates advanced.key_upd)
next
  case (step_complete clk sat mx)
  then show ?thesis using inv
    by (auto simp: complete_handoff_def finished_updates split: option.splits
      intro!: handoff_inv_update intro: history_updates completed.key_upd)
next
  case (step_fail clk sat reason)
  then show ?thesis using inv
    by (auto simp: fail_handoff_def finished_updates split: option.splits
      intro!: handoff_inv_update intro: history_updates failed.key_upd)
next
  case step_cleanup
  then show ?thesis using handoff_inv_cleanup [OF inv] by simp
qed

interpretation handoffs: invariant_system "\<lambda>m. m = handoff_manager_new" handoff_step handoff_inv
proof
  show "m = handoff_manager_new \<Longrightarrow> handoff_inv m" for m
    by (simp add: handoff_manager_new_def handoff_inv_def live_def)
  show "handoff_inv m \<Longrightarrow> handoff_step m m' \<Longrightarrow> handoff_inv m'" for m m'
    by (rule handoff_inv_step)
qed

text \<open>An initiated handoff is in progress and stands at the end of the vector.\<close>

lemma initiate_ok:
  assumes "initiate_handoff clk sat src tgt m = (Inr h, m')"
  shows "is_in_progress h \<and> cph_satellite_id h = sat \<and>
    hmg_active_handoffs m' = hmg_active_handoffs m @ [h]"
  using assms
  by (auto simp: initiate_handoff_def is_in_progress_def moved.key_upd handoff_new_def Let_def
    split: if_splits)

lemma find_append_first: "List.find p xs = Some x \<Longrightarrow> List.find p (xs @ ys) = Some x"
  by (induction xs) (auto split: if_splits)

lemma update_first_append:
  "List.find p xs = Some x \<Longrightarrow> update_first p f (xs @ ys) = update_first p f xs @ ys"
  by (induction xs) (auto split: if_splits)

section \<open>Properties\<close>

text \<open>C4: In every state that the operations of the manager reach, each satellite has at most one
  handoff in progress, and the history of every handoff is gapless: it starts at the idle state, each
  transition starts where the one before ended, and the last ends at the current state.\<close>

theorem one_handoff_in_progress:
  assumes "reach (\<lambda>m. m = handoff_manager_new) handoff_step m"
  shows "length (filter (\<lambda>h. cph_satellite_id h = sat \<and> is_in_progress h) (get_active_handoffs m)) \<le> 1 \<and>
    (\<forall>h \<in> set (get_active_handoffs m). history_from HIdle (cph_state_history h) (cph_state h))"
  using handoffs.reach_inv [OF assms]
  by (auto simp: handoff_inv_def live_def history_ok_def get_active_handoffs_def)

theorem one_handoff_in_progress_witness:
  "length (filter (\<lambda>h. cph_satellite_id h = ''S'' \<and> is_in_progress h)
     (get_active_handoffs (snd (initiate_handoff (\<lambda>_. 0) ''S'' ''A'' ''B'' handoff_manager_new)))) = 1"
proof -
  define m where "m = snd (initiate_handoff (\<lambda>_. 0) ''S'' ''A'' ''B'' handoff_manager_new)"
  have "reach (\<lambda>m. m = handoff_manager_new) handoff_step m"
    unfolding m_def by (rule reach_step [OF reach_self]) (rule step_initiate)
  from one_handoff_in_progress [OF this, of "''S''"]
  have le: "length (filter (\<lambda>h. cph_satellite_id h = ''S'' \<and> is_in_progress h) (get_active_handoffs m)) \<le> 1"
    by blast
  have "get_active_handoffs m \<noteq> [] \<and> (\<forall>h \<in> set (get_active_handoffs m).
      cph_satellite_id h = ''S'' \<and> is_in_progress h)"
    by (simp add: m_def get_active_handoffs_def initiate_handoff_def handoff_manager_new_def
      is_in_progress_def moved.key_upd handoff_new_def Let_def)
  then have "filter (\<lambda>h. cph_satellite_id h = ''S'' \<and> is_in_progress h) (get_active_handoffs m) =
      get_active_handoffs m" and "length (get_active_handoffs m) \<noteq> 0"
    by (auto simp: filter_id_conv)
  with le have "length (filter (\<lambda>h. cph_satellite_id h = ''S'' \<and> is_in_progress h)
      (get_active_handoffs m)) = 1" by (auto simp: le_Suc_eq)
  then show ?thesis by (simp only: m_def)
qed

text \<open>A handoff that is over but not cleaned up shadows the next one of its satellite. A new
  handoff is accepted and is in progress, but lookups return the old one: advancing is refused with
  an invalid state, completing and failing change the old one, and the new one stays in progress,
  so that no further handoff of the satellite is accepted either.\<close>

theorem stale_handoff_shadows:
  assumes "get_handoff sat m = Some old" and "\<not> is_in_progress old"
    and "initiate_handoff clk sat src tgt m = (Inr h, m')"
  shows "is_in_progress h \<and> get_handoff sat m' = Some old \<and>
    advance_handoff clk' sat next_step m' = (Inl (InvalidHandoffState sat), m') \<and>
    h \<in> set (get_active_handoffs (snd (complete_handoff clk' sat mx m'))) \<and>
    h \<in> set (get_active_handoffs (snd (fail_handoff clk' sat reason m'))) \<and>
    initiate_handoff clk' sat src' tgt' m' = (Inl (HandoffAlreadyInProgress sat), m')"
proof -
  note new = initiate_ok [OF assms(3)]
  have old: "List.find (for_satellite sat) (hmg_active_handoffs m) = Some old"
    using assms(1) by (simp add: get_handoff_def)
  have found: "List.find (for_satellite sat) (hmg_active_handoffs m') = Some old"
    using old new by (simp add: find_append_first)
  have "h \<in> set (update_first (for_satellite sat) f (hmg_active_handoffs m'))" for f
    using old new by (simp add: update_first_append)
  with new found assms(2) show ?thesis
    by (auto simp: get_handoff_def advance_handoff_def complete_handoff_def fail_handoff_def
      get_active_handoffs_def initiate_handoff_def list_ex_iff)
qed

theorem stale_handoff_shadows_witness:
  "\<exists>old m h m'. get_handoff ''S'' m = Some old \<and> is_failed old \<and>
     initiate_handoff (\<lambda>_. 2) ''S'' ''B'' ''C'' m = (Inr h, m') \<and> is_in_progress h \<and>
     advance_handoff (\<lambda>_. 3) ''S'' HandoffComplete m' = (Inl (InvalidHandoffState ''S''), m')"
proof -
  define m1 where "m1 = snd (initiate_handoff (\<lambda>_. 0) ''S'' ''A'' ''B'' handoff_manager_new)"
  define m where "m = snd (fail_handoff (\<lambda>_. 1) ''S'' ''lost'' m1)"
  have m1: "\<exists>h1. hmg_active_handoffs m1 = [h1] \<and> cph_satellite_id h1 = ''S''"
    by (simp add: m1_def initiate_handoff_def handoff_manager_new_def moved.key_upd handoff_new_def Let_def)
  then obtain h1 where "hmg_active_handoffs m1 = [h1]" "cph_satellite_id h1 = ''S''" by blast
  then have m: "hmg_active_handoffs m = [fail_found (\<lambda>_. 1) ''lost'' h1]"
    by (simp add: m_def fail_handoff_def)
  define old where "old = fail_found (\<lambda>_. 1) ''lost'' h1"
  have old: "cph_satellite_id old = ''S''" "is_failed old" "\<not> is_in_progress old"
    using \<open>cph_satellite_id h1 = ''S''\<close>
    by (simp_all add: old_def failed.key_upd finished_updates) (simp add: is_failed_def fail_found_def)
  have get: "get_handoff ''S'' m = Some old" using m old by (simp add: get_handoff_def old_def)
  obtain h m' where init: "initiate_handoff (\<lambda>_. 2) ''S'' ''B'' ''C'' m = (Inr h, m')"
    using m old by (simp add: initiate_handoff_def old_def Let_def)
  from stale_handoff_shadows [OF get old(3) init, of "\<lambda>_. 3" HandoffComplete] get old init
  show ?thesis by blast
qed

end
