(* ===== verification/Optical_Link.thy ===== *)
theory Optical_Link
  imports F64 Bitemporal_Log
begin

text \<open>
  Optical links: the state machine of a link and its metrics (\<open>optical/src/link/state_machine.rs\<close>),
  the bounded history of metrics (\<open>link/metrics.rs\<close>), the detection of degradation
  (\<open>link/degradation.rs\<close>) and the handoff of links (\<open>link/failover.rs\<close>).

  Floating-point values are binary64. The acquisition plan and the negotiated configuration of a link
  are opaque here (type variables); the snapshot manager of a link, which no transition uses, is left
  out. Clock readings and random identifiers are arguments.
\<close>

section \<open>Definitions\<close>

subsection \<open>Links\<close>

record link_quality =
  lq_bit_error_rate :: f64
  lq_signal_to_noise_db :: f64
  lq_pointing_error_urad :: f64

definition quality_excellent :: link_quality where
  "quality_excellent = \<lparr>lq_bit_error_rate = lit (1 / 10 ^ 12), lq_signal_to_noise_db = lit 20,
     lq_pointing_error_urad = lit 10\<rparr>"

definition quality_good :: link_quality where
  "quality_good = \<lparr>lq_bit_error_rate = lit (1 / 10 ^ 9), lq_signal_to_noise_db = lit 15,
     lq_pointing_error_urad = lit 50\<rparr>"

definition quality_degraded :: link_quality where
  "quality_degraded = \<lparr>lq_bit_error_rate = lit (1 / 10 ^ 6), lq_signal_to_noise_db = lit 8,
     lq_pointing_error_urad = lit 150\<rparr>"

definition quality_healthy :: "link_quality \<Rightarrow> bool" where
  "quality_healthy q \<longleftrightarrow>
     flt (lq_bit_error_rate q) (lit (1 / 10 ^ 8)) \<and> flt (lit 10) (lq_signal_to_noise_db q)"

datatype degradation_reason =
    AtmosphericTurbulence string
  | PointingDrift f64
  | AttenuationIncrease f64
  | FecOverwhelmed string
  | UnexplainedSnrDrop f64

datatype degradation_action = Monitor | InitiateHandoff | IncreasePower | AdjustModulation

datatype recovery_strategy = RetryAcquisition | RecoverSwitchTerminal | Reconfigure

datatype termination_reason = TermNormal | TermScheduled | TermEmergency

datatype failure_cause = AcquisitionTimeout | HardwareFailure | PowerLoss | SignalLost

datatype 'p link_phase =
    LinkScheduled 'p
  | LinkAcquiring datetime string
  | LinkEstablished datetime link_quality
  | LinkDegrading degradation_reason degradation_action
  | LinkRecovering recovery_strategy
  | LinkTerminating termination_reason
  | LinkFailed failure_cause

datatype traffic_priority = TrafficCritical | TrafficHigh | TrafficNormal | TrafficLow

record control_plane_traffic =
  cpt_enabled :: bool
  cpt_priority :: traffic_priority
  cpt_data_rate_actual :: u64
  cpt_latency_ms :: f64
  cpt_packets_per_second :: u64

definition traffic_disabled :: control_plane_traffic where
  "traffic_disabled = \<lparr>cpt_enabled = False, cpt_priority = TrafficNormal, cpt_data_rate_actual = 0,
     cpt_latency_ms = lit 0, cpt_packets_per_second = 0\<rparr>"

definition traffic_enabled :: "traffic_priority \<Rightarrow> control_plane_traffic" where
  "traffic_enabled p = \<lparr>cpt_enabled = True, cpt_priority = p, cpt_data_rate_actual = 0,
     cpt_latency_ms = lit 0, cpt_packets_per_second = 0\<rparr>"

record link_metrics =
  lm_data_rate_actual :: u64
  lm_data_rate_capacity :: u64
  lm_bit_error_rate :: f64
  lm_fec_corrections_per_second :: u64
  lm_arq_retransmits_per_second :: u64
  lm_signal_quality_db :: f64
  lm_pointing_error_urad :: f64
  lm_control_plane_traffic :: control_plane_traffic

definition link_metrics_default :: link_metrics where
  "link_metrics_default =
     \<lparr>lm_data_rate_actual = 0, lm_data_rate_capacity = 10000000000, lm_bit_error_rate = lit 0,
      lm_fec_corrections_per_second = 0, lm_arq_retransmits_per_second = 0,
      lm_signal_quality_db = lit 0, lm_pointing_error_urad = lit 0,
      lm_control_plane_traffic = traffic_disabled\<rparr>"

definition utilization :: "link_metrics \<Rightarrow> f64" where
  "utilization m =
     (if 0 < lm_data_rate_capacity m
      then fdiv (f64_of_nat (unat (lm_data_rate_actual m))) (f64_of_nat (unat (lm_data_rate_capacity m)))
      else lit 0)"

definition enable_control_plane :: "traffic_priority \<Rightarrow> link_metrics \<Rightarrow> link_metrics" where
  "enable_control_plane p m = m\<lparr>lm_control_plane_traffic := traffic_enabled p\<rparr>"

definition disable_control_plane :: "link_metrics \<Rightarrow> link_metrics" where
  "disable_control_plane m = m\<lparr>lm_control_plane_traffic := traffic_disabled\<rparr>"

definition update_control_plane_metrics :: "u64 \<Rightarrow> f64 \<Rightarrow> u64 \<Rightarrow> link_metrics \<Rightarrow> link_metrics" where
  "update_control_plane_metrics rate latency pps m =
     m\<lparr>lm_control_plane_traffic := (lm_control_plane_traffic m)\<lparr>cpt_data_rate_actual := rate,
         cpt_latency_ms := latency, cpt_packets_per_second := pps\<rparr>\<rparr>"

record ('p, 'c) optical_link =
  ol_link_id :: uuid
  ol_endpoints :: "string \<times> string"
  ol_phase :: "'p link_phase"
  ol_established_at :: "datetime bitemporal option"
  ol_current_metrics :: link_metrics
  ol_negotiated_config :: 'c

definition link_new :: "uuid \<Rightarrow> string \<times> string \<Rightarrow> 'c \<Rightarrow> ('p, 'c) optical_link" where
  "link_new i ends c =
     \<lparr>ol_link_id = i, ol_endpoints = ends, ol_phase = LinkFailed AcquisitionTimeout,
      ol_established_at = None, ol_current_metrics = link_metrics_default, ol_negotiated_config = c\<rparr>"

definition link_schedule :: "'p \<Rightarrow> ('p, 'c) optical_link \<Rightarrow> ('p, 'c) optical_link" where
  "link_schedule plan l = l\<lparr>ol_phase := LinkScheduled plan\<rparr>"

definition transition_to_acquiring :: "datetime \<Rightarrow> ('p, 'c) optical_link \<Rightarrow> ('p, 'c) optical_link" where
  "transition_to_acquiring now l = l\<lparr>ol_phase := LinkAcquiring now ''initial''\<rparr>"

definition transition_to_established :: "datetime \<Rightarrow> link_quality \<Rightarrow> ('p, 'c) optical_link \<Rightarrow>
    ('p, 'c) optical_link" where
  "transition_to_established now q l =
     l\<lparr>ol_established_at := Some (bitemporal_new now (EventTime now) (ReceptionTime now)),
       ol_phase := LinkEstablished now q\<rparr>"

definition transition_to_degrading :: "degradation_reason \<Rightarrow> degradation_action \<Rightarrow>
    ('p, 'c) optical_link \<Rightarrow> ('p, 'c) optical_link" where
  "transition_to_degrading r a l = l\<lparr>ol_phase := LinkDegrading r a\<rparr>"

definition transition_to_failed :: "failure_cause \<Rightarrow> ('p, 'c) optical_link \<Rightarrow> ('p, 'c) optical_link" where
  "transition_to_failed c l = l\<lparr>ol_phase := LinkFailed c\<rparr>"

definition is_established :: "('p, 'c) optical_link \<Rightarrow> bool" where
  "is_established l = (case ol_phase l of LinkEstablished _ _ \<Rightarrow> True | _ \<Rightarrow> False)"

definition link_healthy :: "('p, 'c) optical_link \<Rightarrow> bool" where
  "link_healthy l = (case ol_phase l of LinkEstablished _ q \<Rightarrow> quality_healthy q | _ \<Rightarrow> False)"

subsection \<open>Metrics and degradation\<close>

record metric_snapshot =
  ms_timestamp :: datetime
  ms_data_rate_actual :: u64
  ms_bit_error_rate :: f64
  ms_signal_quality_db :: f64
  ms_pointing_error_urad :: f64

record 'a bounded_history =
  bh_history :: "'a list"
  bh_max_size :: nat

definition history_new :: "nat \<Rightarrow> 'a bounded_history" where
  "history_new max_size = \<lparr>bh_history = [], bh_max_size = max_size\<rparr>"

definition history_push :: "'a \<Rightarrow> 'a bounded_history \<Rightarrow> 'a bounded_history" where
  "history_push x h =
     h\<lparr>bh_history :=
       (if bh_max_size h \<le> length (bh_history h) then tl (bh_history h) else bh_history h) @ [x]\<rparr>"

definition history_latest :: "'a bounded_history \<Rightarrow> 'a option" where
  "history_latest h = (if bh_history h = [] then None else Some (last (bh_history h)))"

definition history_oldest :: "'a bounded_history \<Rightarrow> 'a option" where
  "history_oldest h = (if bh_history h = [] then None else Some (hd (bh_history h)))"

datatype metric_trend = Improving | Stable | Degrading

record degradation_detector =
  dd_threshold_ber :: f64
  dd_threshold_snr_db :: f64
  dd_threshold_pointing_urad :: f64
  dd_observation_window :: duration

definition with_thresholds :: "f64 \<Rightarrow> f64 \<Rightarrow> f64 \<Rightarrow> degradation_detector" where
  "with_thresholds ber snr pointing =
     \<lparr>dd_threshold_ber = ber, dd_threshold_snr_db = snr, dd_threshold_pointing_urad = pointing,
      dd_observation_window = duration_seconds 30\<rparr>"

definition detector_new :: degradation_detector where
  "detector_new = with_thresholds (lit (1 / 10 ^ 6)) (lit 10) (lit 200)"

definition calculate_trend :: "metric_snapshot list \<Rightarrow> metric_trend" where
  "calculate_trend snapshots =
     (if length snapshots < 2 then Stable
      else
        (let recent = drop (length snapshots - 5) snapshots
         in if length recent < 2 then Stable
            else
              (let delta = fsub (ms_signal_quality_db (last recent)) (ms_signal_quality_db (hd recent))
               in if flt (lit 1) delta then Improving
                  else if flt delta (fneg (lit 1)) then Degrading
                  else Stable)))"

definition estimate_drift_rate :: "metric_snapshot list \<Rightarrow> f64" where
  "estimate_drift_rate snapshots =
     (if length snapshots < 2 then lit 0
      else
        fdiv (fsub (ms_pointing_error_urad (last snapshots)) (ms_pointing_error_urad (hd snapshots)))
          (f64_of_int (max (num_seconds (ms_timestamp (last snapshots) - ms_timestamp (hd snapshots))) 1)))"

definition detect_degradation :: "degradation_detector \<Rightarrow> link_quality \<Rightarrow> metric_snapshot list \<Rightarrow>
    (degradation_reason \<times> degradation_action) option" where
  "detect_degradation d q snapshots =
     (if flt (dd_threshold_ber d) (lq_bit_error_rate q)
      then Some (FecOverwhelmed ''increasing'', InitiateHandoff)
      else if flt (lq_signal_to_noise_db q) (dd_threshold_snr_db d)
      then
        (case calculate_trend snapshots of
           Degrading \<Rightarrow>
             (if flt (dd_threshold_pointing_urad d) (lq_pointing_error_urad q)
              then Some (PointingDrift (estimate_drift_rate snapshots), InitiateHandoff)
              else Some (AtmosphericTurbulence ''moderate'', Monitor))
         | Stable \<Rightarrow>
             Some (UnexplainedSnrDrop (fsub (dd_threshold_snr_db d) (lq_signal_to_noise_db q)), Monitor)
         | Improving \<Rightarrow>
             Some (UnexplainedSnrDrop (fsub (dd_threshold_snr_db d) (lq_signal_to_noise_db q)), Monitor))
      else if flt (dd_threshold_pointing_urad d) (lq_pointing_error_urad q)
      then Some (PointingDrift (estimate_drift_rate snapshots), InitiateHandoff)
      else None)"

subsection \<open>Failover\<close>

datatype handoff_strategy =
    Seamless u64 | MakeBeforeBreak u64 | BreakBeforeMake u64 | NoHandoff

record handoff_execution =
  he_handoff_id :: uuid
  he_link_id :: uuid
  he_strategy :: handoff_strategy
  he_initiated_at :: datetime
  he_completed_at :: "datetime option"
  he_success :: bool
  he_packets_lost :: u64

definition execution_new :: "uuid \<Rightarrow> datetime \<Rightarrow> uuid \<Rightarrow> handoff_strategy \<Rightarrow> handoff_execution" where
  "execution_new fresh now link strategy =
     \<lparr>he_handoff_id = fresh, he_link_id = link, he_strategy = strategy, he_initiated_at = now,
      he_completed_at = None, he_success = False, he_packets_lost = 0\<rparr>"

definition execution_complete :: "datetime \<Rightarrow> bool \<Rightarrow> u64 \<Rightarrow> handoff_execution \<Rightarrow> handoff_execution" where
  "execution_complete now ok lost h =
     h\<lparr>he_completed_at := Some now, he_success := ok, he_packets_lost := lost\<rparr>"

definition execution_duration_ms :: "handoff_execution \<Rightarrow> u64 option" where
  "execution_duration_ms h =
     map_option (\<lambda>t. word_of_int (num_milliseconds (t - he_initiated_at h))) (he_completed_at h)"

datatype failover_error = FailoverNotFound uuid | AlreadyCompleted

record failover_manager =
  fm_active_handoffs :: "handoff_execution list"

definition failover_new :: failover_manager where
  "failover_new = \<lparr>fm_active_handoffs = []\<rparr>"

definition failover_initiate :: "uuid \<Rightarrow> datetime \<Rightarrow> uuid \<Rightarrow> handoff_strategy \<Rightarrow> failover_manager \<Rightarrow>
    handoff_execution \<times> failover_manager" where
  "failover_initiate fresh now link strategy m =
     (let x = execution_new fresh now link strategy
      in (x, m\<lparr>fm_active_handoffs := fm_active_handoffs m @ [x]\<rparr>))"

definition failover_complete :: "datetime \<Rightarrow> uuid \<Rightarrow> bool \<Rightarrow> u64 \<Rightarrow> failover_manager \<Rightarrow>
    (failover_error + unit) \<times> failover_manager" where
  "failover_complete now i ok lost m =
     (case List.find (\<lambda>h. he_handoff_id h = i) (fm_active_handoffs m) of
        Some h \<Rightarrow>
          (Inr (), m\<lparr>fm_active_handoffs :=
             update_first (\<lambda>h. he_handoff_id h = i) (execution_complete now ok lost)
               (fm_active_handoffs m)\<rparr>)
      | None \<Rightarrow> (Inl (FailoverNotFound i), m))"

definition failover_get :: "uuid \<Rightarrow> failover_manager \<Rightarrow> handoff_execution option" where
  "failover_get i m = List.find (\<lambda>h. he_handoff_id h = i) (fm_active_handoffs m)"

definition failover_cleanup :: "failover_manager \<Rightarrow> failover_manager" where
  "failover_cleanup m =
     m\<lparr>fm_active_handoffs := filter (\<lambda>h. he_completed_at h = None) (fm_active_handoffs m)\<rparr>"

text \<open>A quality whose readings are all lost, for a witness.\<close>

definition nan_quality :: link_quality where
  "nan_quality = \<lparr>lq_bit_error_rate = NaN, lq_signal_to_noise_db = NaN, lq_pointing_error_urad = NaN\<rparr>"

section \<open>Lemmas\<close>

interpretation execution: keyed_update he_handoff_id "execution_complete now ok lost" for now ok lost
  by unfold_locales (simp add: execution_complete_def)

lemma history_push_length:
  "length (bh_history h) \<le> max 1 (bh_max_size h) \<Longrightarrow>
     length (bh_history (history_push x h)) \<le> max 1 (bh_max_size (history_push x h))"
  by (auto simp: history_push_def)

section \<open>Properties\<close>

text \<open>The utilization of a link whose actual rate is within its capacity lies between 0 and 1:
  the casts and the division round monotonically, and a link without capacity reports 0.\<close>

theorem utilization_in_unit_interval:
  assumes "lm_data_rate_actual m \<le> lm_data_rate_capacity m"
  shows "\<exists>v. utilization m = Fin False v \<and> 0 \<le> v \<and> v \<le> 1"
proof (cases "0 < lm_data_rate_capacity m")
  case True
  define a b where "a = round_mag (of_nat (unat (lm_data_rate_actual m)))"
    and "b = round_mag (of_nat (unat (lm_data_rate_capacity m)))"
  have small: "unat w < 2 ^ 64" for w :: u64 using unsigned_less [of w, where 'a = nat] by simp
  have le: "unat (lm_data_rate_actual m) \<le> unat (lm_data_rate_capacity m)"
    using assms by (simp add: word_le_nat_alt)
  have "a \<le> b" unfolding a_def b_def using le by (intro round_mag_mono) (simp only: of_nat_le_iff)
  moreover have "1 \<le> unat (lm_data_rate_capacity m)"
    using True by (simp add: word_less_nat_alt)
  then have "round_mag (of_nat 1) \<le> b" unfolding b_def
    by (intro round_mag_mono) (simp only: of_nat_le_iff)
  then have "1 \<le> b" using round_mag_nat [of 1] by simp
  ultimately have q: "a / b \<le> 1" "b \<noteq> 0" by auto
  have "utilization m = round_f64 False (a / b)"
    using True q(2) by (simp add: utilization_def f64_of_nat_fin [OF small] a_def b_def)
  with round_f64_le_1 [OF q(1), of False] show ?thesis by simp
next
  case False
  then show ?thesis by (simp add: utilization_def)
qed

theorem utilization_in_unit_interval_witness:
  "\<exists>v. utilization link_metrics_default = Fin False v \<and> 0 \<le> v \<and> v \<le> 1"
  by (rule utilization_in_unit_interval) (simp add: link_metrics_default_def)

text \<open>Degradation is reported exactly when a threshold is crossed: the error rate above its
  threshold, the signal-to-noise ratio below, or the pointing error above. A handoff is initiated
  exactly when the error rate is too high, or the pointing error is and the signal either is strong
  enough or shows a falling trend.\<close>

theorem detect_degradation_iff:
  "(detect_degradation d q xs = None \<longleftrightarrow>
      \<not> flt (dd_threshold_ber d) (lq_bit_error_rate q) \<and>
      \<not> flt (lq_signal_to_noise_db q) (dd_threshold_snr_db d) \<and>
      \<not> flt (dd_threshold_pointing_urad d) (lq_pointing_error_urad q)) \<and>
   ((\<exists>r. detect_degradation d q xs = Some (r, InitiateHandoff)) \<longleftrightarrow>
      flt (dd_threshold_ber d) (lq_bit_error_rate q) \<or>
      flt (dd_threshold_pointing_urad d) (lq_pointing_error_urad q) \<and>
        (flt (lq_signal_to_noise_db q) (dd_threshold_snr_db d) \<longrightarrow> calculate_trend xs = Degrading))"
  by (auto simp: detect_degradation_def split: metric_trend.splits)

theorem detect_degradation_iff_witness:
  "detect_degradation detector_new nan_quality [] = None"
  using detect_degradation_iff [of detector_new nan_quality "[]"]
  by (simp add: nan_quality_def detector_new_def with_thresholds_def lit_numeral
    lit_small)

text \<open>A healthy link is not reported as degraded by the default detector, as long as its pointing
  error is within 200 microradians: the health check is the stricter of the two, also after the
  rounding of its literals.\<close>

theorem healthy_not_degraded:
  assumes "quality_healthy q" and "\<not> flt (lit 200) (lq_pointing_error_urad q)"
  shows "detect_degradation detector_new q xs = None"
proof -
  have mono: "round_mag (1 / 10 ^ 8) \<le> round_mag (1 / 10 ^ 6)" by (rule round_mag_mono) simp
  have lits: "lit (1 / 10 ^ 8) = Fin False (round_mag (1 / 10 ^ 8))"
    "lit (1 / 10 ^ 6) = Fin False (round_mag (1 / 10 ^ 6))"
    by (rule lit_small; simp)+
  have "flt (lq_bit_error_rate q) (lit (1 / 10 ^ 6))"
    using assms(1) mono unfolding quality_healthy_def lits by (blast intro: flt_le_trans)
  then have "\<not> flt (lit (1 / 10 ^ 6)) (lq_bit_error_rate q)" by (rule flt_asym)
  moreover have "\<not> flt (lq_signal_to_noise_db q) (lit 10)"
    using assms(1) by (auto simp: quality_healthy_def dest: flt_asym)
  ultimately show ?thesis
    using assms(2) by (simp add: detect_degradation_def detector_new_def with_thresholds_def)
qed

theorem healthy_not_degraded_witness:
  "detect_degradation detector_new
     \<lparr>lq_bit_error_rate = lit 0, lq_signal_to_noise_db = lit 20, lq_pointing_error_urad = lit 10\<rparr> [] = None"
proof (rule healthy_not_degraded)
  have "0 < round_mag (1 / 10 ^ 8)"
    by (rule round_mag_pos [of "-30"]) (simp_all add: pow2_def)
  then show "quality_healthy \<lparr>lq_bit_error_rate = lit 0, lq_signal_to_noise_db = lit 20,
      lq_pointing_error_urad = lit 10\<rparr>"
    using lit_small [of "1 / 10 ^ 8"] by (simp add: quality_healthy_def lit_numeral)
qed (simp add: lit_numeral)

text \<open>Completing the handoff of a link records the outcome in the handoff with that identifier and
  in no other; an unknown identifier is an error and changes nothing. A handoff that is complete
  already can be completed again, and the later outcome replaces the earlier one.\<close>

theorem failover_complete_spec:
  "(fst (failover_complete now i ok lost m) =
      (case failover_get i m of None \<Rightarrow> Inl (FailoverNotFound i) | Some _ \<Rightarrow> Inr ())) \<and>
   failover_get j (snd (failover_complete now i ok lost m)) =
     (if j = i then map_option (execution_complete now ok lost) (failover_get i m)
      else failover_get j m) \<and>
   map he_handoff_id (fm_active_handoffs (snd (failover_complete now i ok lost m))) =
     map he_handoff_id (fm_active_handoffs m)"
  using execution.find_update_first [of i now ok lost "fm_active_handoffs m"]
    execution.find_update_first_other [of i j now ok lost "fm_active_handoffs m"]
    execution.map_key_update_first [of "\<lambda>h. he_handoff_id h = i" now ok lost "fm_active_handoffs m"]
  by (auto simp: failover_complete_def failover_get_def split: option.splits)

theorem failover_complete_spec_witness:
  "failover_get 7 (snd (failover_complete 5 7 True 0
     (snd (failover_initiate 7 1 3 NoHandoff failover_new)))) =
   Some (execution_complete 5 True 0 (execution_new 7 1 3 NoHandoff))"
  using failover_complete_spec [of 5 7 True 0 "snd (failover_initiate 7 1 3 NoHandoff failover_new)" 7]
  by (simp add: failover_initiate_def failover_new_def failover_get_def execution_new_def Let_def)

end
