(* ===== verification/Scheduler_Fairness.thy ===== *)
theory Scheduler_Fairness
  imports Core_Types F64
begin

text \<open>
  Fair sharing of the station between tenants: dominant-resource fairness (\<open>scheduler/src/drf.rs\<close>)
  and the reputation of tenants (\<open>scheduler/src/reputation.rs\<close>).

  All amounts are binary64. \<open>max_by\<close> and \<open>min_by\<close> compare with \<open>partial_cmp(..).unwrap()\<close>, which panics
  on a NaN: a call that panics is \<open>None\<close>. The iteration orders of the maps are arguments; so is the
  neutral element \<open>z\<close> that the sum of an iterator of floats starts from (a zero whose sign depends on
  the version of the standard library). References to the entry of a tenant are modelled by the
  operation made through them.
\<close>

section \<open>Definitions\<close>

subsection \<open>Iterators\<close>

text \<open>\<open>max_by\<close> returns the last of the greatest elements, \<open>min_by\<close> the first of the least.\<close>

fun max_from :: "('a \<Rightarrow> f64) \<Rightarrow> 'a \<Rightarrow> 'a list \<Rightarrow> 'a option" where
  "max_from key x [] = Some x"
| "max_from key x (y # ys) =
     (if key x = NaN \<or> key y = NaN then None
      else max_from key (if flt (key y) (key x) then x else y) ys)"

fun max_by :: "('a \<Rightarrow> f64) \<Rightarrow> 'a list \<Rightarrow> 'a option option" where
  "max_by key [] = Some None"
| "max_by key (x # xs) = map_option Some (max_from key x xs)"

fun min_from :: "('a \<Rightarrow> f64) \<Rightarrow> 'a \<Rightarrow> 'a list \<Rightarrow> 'a option" where
  "min_from key x [] = Some x"
| "min_from key x (y # ys) =
     (if key x = NaN \<or> key y = NaN then None
      else min_from key (if flt (key y) (key x) then y else x) ys)"

fun min_by :: "('a \<Rightarrow> f64) \<Rightarrow> 'a list \<Rightarrow> 'a option option" where
  "min_by key [] = Some None"
| "min_by key (x # xs) = map_option Some (min_from key x xs)"

subsection \<open>Resource shares\<close>

datatype resource_type = LBandSdrTime | SBandSdrTime | RotatorHours | EgressBandwidth | TotalPasses

record resource_share =
  rs_resource_type :: resource_type
  rs_total_capacity :: f64
  rs_allocated :: f64
  rs_used :: f64

definition resource_share_new :: "resource_type \<Rightarrow> f64 \<Rightarrow> resource_share" where
  "resource_share_new ty cap =
     \<lparr>rs_resource_type = ty, rs_total_capacity = cap, rs_allocated = lit 0, rs_used = lit 0\<rparr>"

definition share :: "resource_share \<Rightarrow> f64" where
  "share s = (if flt (lit 0) (rs_total_capacity s) then fdiv (rs_allocated s) (rs_total_capacity s)
              else lit 0)"

definition share_utilization :: "resource_share \<Rightarrow> f64" where
  "share_utilization s = (if flt (lit 0) (rs_allocated s) then fdiv (rs_used s) (rs_allocated s)
                          else lit 0)"

record resource_allocation =
  ra_shares :: "resource_type \<rightharpoonup> resource_share"
  ra_dominant_resource :: "resource_type option"

definition resource_allocation_new :: resource_allocation where
  "resource_allocation_new = \<lparr>ra_shares = Map.empty, ra_dominant_resource = None\<rparr>"

text \<open>The closure of \<open>recompute_dominant\<close> compares the shares of the entries.\<close>

definition entry_share :: "resource_allocation \<Rightarrow> resource_type \<Rightarrow> f64" where
  "entry_share a ty = (case ra_shares a ty of None \<Rightarrow> lit 0 | Some s \<Rightarrow> share s)"

definition recompute_dominant :: "resource_type list \<Rightarrow> resource_allocation \<Rightarrow>
    resource_allocation option" where
  "recompute_dominant ks a =
     map_option (\<lambda>d. a\<lparr>ra_dominant_resource := d\<rparr>) (max_by (entry_share a) ks)"

definition add_share :: "resource_type list \<Rightarrow> resource_share \<Rightarrow> resource_allocation \<Rightarrow>
    resource_allocation option" where
  "add_share ks s a = recompute_dominant ks (a\<lparr>ra_shares := (ra_shares a)(rs_resource_type s \<mapsto> s)\<rparr>)"

definition get_share :: "resource_type \<Rightarrow> resource_allocation \<Rightarrow> resource_share option" where
  "get_share ty a = ra_shares a ty"

definition drf_allocate :: "resource_type list \<Rightarrow> resource_type \<Rightarrow> f64 \<Rightarrow> resource_allocation \<Rightarrow>
    resource_allocation option" where
  "drf_allocate ks ty amount a =
     (case ra_shares a ty of
        None \<Rightarrow> Some a
      | Some s \<Rightarrow>
          recompute_dominant ks
            (a\<lparr>ra_shares := (ra_shares a)(ty \<mapsto> s\<lparr>rs_allocated := fadd (rs_allocated s) amount\<rparr>)\<rparr>))"

definition use_resource :: "resource_type \<Rightarrow> f64 \<Rightarrow> resource_allocation \<Rightarrow> resource_allocation" where
  "use_resource ty amount a =
     (case ra_shares a ty of
        None \<Rightarrow> a
      | Some s \<Rightarrow> a\<lparr>ra_shares := (ra_shares a)(ty \<mapsto> s\<lparr>rs_used := fadd (rs_used s) amount\<rparr>)\<rparr>)"

definition dominant_share :: "resource_allocation \<Rightarrow> f64" where
  "dominant_share a =
     (case ra_dominant_resource a of
        Some d \<Rightarrow> (case ra_shares a d of None \<Rightarrow> lit 0 | Some s \<Rightarrow> share s)
      | None \<Rightarrow> lit 0)"

subsection \<open>The scheduler\<close>

record drf =
  drf_allocations :: "customer_id \<rightharpoonup> resource_allocation"
  drf_total_capacity :: "resource_type \<rightharpoonup> f64"

definition drf_new :: drf where
  "drf_new = \<lparr>drf_allocations = Map.empty, drf_total_capacity = Map.empty\<rparr>"

definition set_capacity :: "resource_type \<Rightarrow> f64 \<Rightarrow> drf \<Rightarrow> drf" where
  "set_capacity ty cap d = d\<lparr>drf_total_capacity := (drf_total_capacity d)(ty \<mapsto> cap)\<rparr>"

definition get_or_create_allocation :: "customer_id \<Rightarrow> drf \<Rightarrow> resource_allocation \<times> drf" where
  "get_or_create_allocation t d =
     (case drf_allocations d t of
        Some a \<Rightarrow> (a, d)
      | None \<Rightarrow> (resource_allocation_new,
                 d\<lparr>drf_allocations := (drf_allocations d)(t \<mapsto> resource_allocation_new)\<rparr>))"

definition drf_get_allocation :: "customer_id \<Rightarrow> drf \<Rightarrow> resource_allocation option" where
  "drf_get_allocation t d = drf_allocations d t"

definition drf_priority :: "drf \<Rightarrow> customer_id \<Rightarrow> f64" where
  "drf_priority d t = (case drf_get_allocation t d of Some a \<Rightarrow> dominant_share a | None \<Rightarrow> lit 0)"

definition select_next_tenant :: "customer_id list \<Rightarrow> drf \<Rightarrow> customer_id option option" where
  "select_next_tenant candidates d = min_by (drf_priority d) candidates"

definition can_allocate :: "customer_id \<Rightarrow> resource_type \<Rightarrow> f64 \<Rightarrow> f64 \<Rightarrow> drf \<Rightarrow> bool" where
  "can_allocate t ty amount threshold d =
     (case drf_get_allocation t d of
        Some a \<Rightarrow>
          (let total_cap = (case drf_total_capacity d ty of None \<Rightarrow> lit 0 | Some c \<Rightarrow> c)
           in if flt (lit 0) total_cap
              then
                (let new_allocated = (case get_share ty a of
                       None \<Rightarrow> amount | Some s \<Rightarrow> fadd (rs_allocated s) amount)
                 in fle (fdiv new_allocated total_cap) threshold)
              else False)
      | None \<Rightarrow> True)"

record fairness_stats =
  fs_num_tenants :: nat
  fs_max_dominant_share :: f64
  fs_min_dominant_share :: f64
  fs_avg_dominant_share :: f64
  fs_fairness_gap :: f64

definition fairness_stats_of :: "f64 \<Rightarrow> customer_id list \<Rightarrow> drf \<Rightarrow> fairness_stats" where
  "fairness_stats_of z ts d =
     (let shares = map dominant_share (map_values (drf_allocations d) ts);
          hi = foldl fmax (lit 0) shares; lo = foldl fmin (lit 1) shares
      in \<lparr>fs_num_tenants = length ts, fs_max_dominant_share = hi, fs_min_dominant_share = lo,
          fs_avg_dominant_share =
            (if 0 < length ts then fdiv (f64_sum z shares) (f64_of_nat (length ts)) else lit 0),
          fs_fairness_gap = fsub hi lo\<rparr>)"

subsection \<open>Reputation\<close>

record resource_usage =
  ru_allocated :: f64
  ru_used :: f64

definition utilization_rate :: "resource_usage \<Rightarrow> f64" where
  "utilization_rate u = (if flt (lit 0) (ru_allocated u) then fdiv (ru_used u) (ru_allocated u)
                         else lit 0)"

record tenant_reputation =
  tr_tenant_id :: customer_id
  tr_dominant_resource :: "string option"
  tr_historical_utilization :: f64
  tr_reputation :: f64
  tr_current_allocation :: resource_usage
  tr_total_requests :: u64
  tr_total_fulfilled :: u64
  tr_total_wasted :: f64

definition reputation_new :: "customer_id \<Rightarrow> tenant_reputation" where
  "reputation_new t =
     \<lparr>tr_tenant_id = t, tr_dominant_resource = None, tr_historical_utilization = lit (1 / 2),
      tr_reputation = lit 1, tr_current_allocation = \<lparr>ru_allocated = lit 100, ru_used = lit 0\<rparr>,
      tr_total_requests = 0, tr_total_fulfilled = 0, tr_total_wasted = lit 0\<rparr>"

definition update_utilization :: "f64 \<Rightarrow> tenant_reputation \<Rightarrow> tenant_reputation" where
  "update_utilization u r =
     (let h = fadd (fmul (lit (1 / 10)) u) (fmul (lit (9 / 10)) (tr_historical_utilization r));
          r' = r\<lparr>tr_historical_utilization := h\<rparr>
      in if flt (lit (8 / 10)) h
         then r'\<lparr>tr_reputation := fmin (fadd (fmul (tr_reputation r) (lit (9 / 10)))
                                          (fmul (lit 1) (lit (1 / 10)))) (lit 1)\<rparr>
         else if flt h (lit (1 / 2))
         then r'\<lparr>tr_reputation := fmax (fadd (fmul (tr_reputation r) (lit (9 / 10)))
                                          (fmul (lit (1 / 2)) (lit (1 / 10)))) (lit 0)\<rparr>
         else r')"

definition reputation_record_request :: "tenant_reputation \<Rightarrow> tenant_reputation" where
  "reputation_record_request r = r\<lparr>tr_total_requests := tr_total_requests r + 1\<rparr>"

definition reputation_record_fulfilled :: "f64 \<Rightarrow> f64 \<Rightarrow> tenant_reputation \<Rightarrow> tenant_reputation" where
  "reputation_record_fulfilled alloc used r =
     (let cur = tr_current_allocation r;
          waste = fmax (fsub alloc used) (lit 0);
          r' = r\<lparr>tr_total_fulfilled := tr_total_fulfilled r + 1,
                 tr_current_allocation := \<lparr>ru_allocated = fadd (ru_allocated cur) alloc,
                                           ru_used = fadd (ru_used cur) used\<rparr>,
                 tr_total_wasted := fadd (tr_total_wasted r) waste\<rparr>;
          u = (if flt (lit 0) alloc then fdiv used alloc else lit 0)
      in update_utilization u r')"

definition reputation_priority :: "tenant_reputation \<Rightarrow> f64" where
  "reputation_priority r =
     fmul (fdiv (lit 1) (fadd (ru_allocated (tr_current_allocation r)) (lit 1))) (tr_reputation r)"

definition waste_ratio :: "tenant_reputation \<Rightarrow> f64" where
  "waste_ratio r =
     (if flt (lit 0) (ru_allocated (tr_current_allocation r))
      then fdiv (tr_total_wasted r) (ru_allocated (tr_current_allocation r)) else lit 0)"

record reputation_tracker =
  rt_tenants :: "customer_id \<rightharpoonup> tenant_reputation"
  rt_alpha :: f64

definition reputation_tracker_new :: "f64 \<Rightarrow> reputation_tracker" where
  "reputation_tracker_new a = \<lparr>rt_tenants = Map.empty, rt_alpha = a\<rparr>"

definition reputation_get_or_create :: "customer_id \<Rightarrow> reputation_tracker \<Rightarrow>
    tenant_reputation \<times> reputation_tracker" where
  "reputation_get_or_create t s =
     (case rt_tenants s t of
        Some r \<Rightarrow> (r, s)
      | None \<Rightarrow> (reputation_new t, s\<lparr>rt_tenants := (rt_tenants s)(t \<mapsto> reputation_new t)\<rparr>))"

definition reputation_get :: "customer_id \<Rightarrow> reputation_tracker \<Rightarrow> tenant_reputation option" where
  "reputation_get t s = rt_tenants s t"

definition tracker_update_utilization :: "customer_id \<Rightarrow> f64 \<Rightarrow> reputation_tracker \<Rightarrow>
    reputation_tracker" where
  "tracker_update_utilization t u s =
     s\<lparr>rt_tenants := map_modify t (update_utilization u) (rt_tenants s)\<rparr>"

definition tracker_record_request :: "customer_id \<Rightarrow> reputation_tracker \<Rightarrow> reputation_tracker" where
  "tracker_record_request t s =
     (case reputation_get_or_create t s of
        (r, s') \<Rightarrow> s'\<lparr>rt_tenants := (rt_tenants s')(t \<mapsto> reputation_record_request r)\<rparr>)"

definition tracker_record_fulfilled :: "customer_id \<Rightarrow> f64 \<Rightarrow> f64 \<Rightarrow> reputation_tracker \<Rightarrow>
    reputation_tracker" where
  "tracker_record_fulfilled t alloc used s =
     (case reputation_get_or_create t s of
        (r, s') \<Rightarrow> s'\<lparr>rt_tenants := (rt_tenants s')(t \<mapsto> reputation_record_fulfilled alloc used r)\<rparr>)"

definition tracker_priority :: "reputation_tracker \<Rightarrow> customer_id \<Rightarrow> f64" where
  "tracker_priority s t =
     (case reputation_get t s of None \<Rightarrow> lit 0 | Some r \<Rightarrow> reputation_priority r)"

definition select_best_tenant :: "customer_id list \<Rightarrow> reputation_tracker \<Rightarrow> customer_id option option" where
  "select_best_tenant candidates s = max_by (tracker_priority s) candidates"

record reputation_stats =
  rst_num_tenants :: nat
  rst_avg_reputation :: f64
  rst_high_reputation_count :: nat
  rst_low_reputation_count :: nat

definition reputation_stats_of :: "f64 \<Rightarrow> customer_id list \<Rightarrow> reputation_tracker \<Rightarrow>
    reputation_stats" where
  "reputation_stats_of z ts s =
     (let reps = map tr_reputation (map_values (rt_tenants s) ts)
      in \<lparr>rst_num_tenants = length ts,
          rst_avg_reputation =
            (if 0 < length ts then fdiv (f64_sum z reps) (f64_of_nat (length ts)) else lit 0),
          rst_high_reputation_count = length (filter (\<lambda>r. flt (lit (8 / 10)) r) reps),
          rst_low_reputation_count = length (filter (\<lambda>r. flt r (lit (1 / 2))) reps)\<rparr>)"

subsection \<open>State machines\<close>

text \<open>\<open>ks\<close> is the iteration order of the shares after the update.\<close>

inductive alloc_step :: "resource_allocation \<Rightarrow> resource_allocation \<Rightarrow> bool" where
  alloc_add: "add_share ks s a = Some a' \<Longrightarrow> iter_order (ra_shares a') ks \<Longrightarrow> alloc_step a a'"
| alloc_allocate: "drf_allocate ks ty amount a = Some a' \<Longrightarrow> iter_order (ra_shares a') ks \<Longrightarrow>
    alloc_step a a'"
| alloc_use: "alloc_step a (use_resource ty amount a)"

inductive rep_step :: "reputation_tracker \<Rightarrow> reputation_tracker \<Rightarrow> bool" where
  rep_create: "rep_step s (snd (reputation_get_or_create t s))"
| rep_update: "rep_step s (tracker_update_utilization t u s)"
| rep_request: "rep_step s (tracker_record_request t s)"
| rep_fulfilled: "rep_step s (tracker_record_fulfilled t alloc used s)"

text \<open>The dominant resource is one that no other exceeds.\<close>

definition alloc_inv :: "resource_allocation \<Rightarrow> bool" where
  "alloc_inv a \<longleftrightarrow> (case ra_dominant_resource a of
     None \<Rightarrow> ra_shares a = Map.empty
   | Some d \<Rightarrow> ra_shares a d \<noteq> None \<and> (\<forall>ty. ra_shares a ty \<noteq> None \<longrightarrow>
       \<not> flt (entry_share a d) (entry_share a ty)))"

definition rep_ok :: "tenant_reputation \<Rightarrow> bool" where
  "rep_ok r \<longleftrightarrow> (\<exists>v. tr_reputation r = Fin False v \<and> 1 / 2 \<le> v \<and> v \<le> 1)"

definition rep_inv :: "reputation_tracker \<Rightarrow> bool" where
  "rep_inv s \<longleftrightarrow> (\<forall>t r. rt_tenants s t = Some r \<longrightarrow> rep_ok r \<and> tr_tenant_id r = t)"

section \<open>Lemmas\<close>

subsection \<open>Selection\<close>

lemma max_from_Some:
  assumes "max_from key x ys = Some z"
  shows "z \<in> set (x # ys) \<and> (\<forall>y \<in> set (x # ys). \<not> flt (key z) (key y))"
  using assms
proof (induction ys arbitrary: x)
  case Nil
  then show ?case using flt_asym [of "key x" "key x"] by auto
next
  case (Cons y ys)
  define w where "w = (if flt (key y) (key x) then x else y)"
  from Cons.prems have rec: "max_from key w ys = Some z" and num: "key x \<noteq> NaN" "key y \<noteq> NaN"
    by (auto simp: w_def split: if_splits)
  have z: "z \<in> set (w # ys)" "\<forall>u \<in> set (w # ys). \<not> flt (key z) (key u)"
    using Cons.IH [OF rec] by auto
  have w: "\<not> flt (key w) (key x)" "\<not> flt (key w) (key y)" "key w \<noteq> NaN"
    using num flt_asym by (auto simp: w_def)
  have zw: "\<not> flt (key z) (key w)" using z(2) by simp
  have "\<not> flt (key z) (key x)" "\<not> flt (key z) (key y)"
    using not_flt_trans [OF w(3) zw w(1)] not_flt_trans [OF w(3) zw w(2)] by blast+
  with z show ?case by (auto simp: w_def split: if_splits)
qed

lemma min_from_Some:
  assumes "min_from key x ys = Some z"
  shows "z \<in> set (x # ys) \<and> (\<forall>y \<in> set (x # ys). \<not> flt (key y) (key z))"
  using assms
proof (induction ys arbitrary: x)
  case Nil
  then show ?case using flt_asym [of "key x" "key x"] by auto
next
  case (Cons y ys)
  define w where "w = (if flt (key y) (key x) then y else x)"
  from Cons.prems have rec: "min_from key w ys = Some z" and num: "key x \<noteq> NaN" "key y \<noteq> NaN"
    by (auto simp: w_def split: if_splits)
  have z: "z \<in> set (w # ys)" "\<forall>u \<in> set (w # ys). \<not> flt (key u) (key z)"
    using Cons.IH [OF rec] by auto
  have w: "\<not> flt (key x) (key w)" "\<not> flt (key y) (key w)" "key w \<noteq> NaN"
    using num flt_asym by (auto simp: w_def)
  have wz: "\<not> flt (key w) (key z)" using z(2) by simp
  have "\<not> flt (key x) (key z)" "\<not> flt (key y) (key z)"
    using not_flt_trans [OF w(3) w(1) wz] not_flt_trans [OF w(3) w(2) wz] by blast+
  with z show ?case by (auto simp: w_def split: if_splits)
qed

lemma min_from_returns: "\<forall>y \<in> set (x # ys). key y \<noteq> NaN \<Longrightarrow> \<exists>z. min_from key x ys = Some z"
  by (induction ys arbitrary: x) auto

subsection \<open>The dominant resource\<close>

lemma recompute_inv:
  assumes "recompute_dominant ks a = Some a'" and "iter_order (ra_shares a') ks"
  shows "alloc_inv a'"
proof -
  obtain d where d: "max_by (entry_share a) ks = Some d" and a': "a' = a\<lparr>ra_dominant_resource := d\<rparr>"
    using assms(1) by (auto simp: recompute_dominant_def)
  have share: "entry_share (a\<lparr>ra_dominant_resource := x\<rparr>) = entry_share a" for x
    by (auto simp: entry_share_def)
  have dom: "set ks = dom (ra_shares a')" using assms(2) by (simp add: iter_order_def)
  show ?thesis
  proof (cases ks)
    case Nil
    with dom have "ra_shares a' = Map.empty" by (simp flip: dom_eq_empty_conv)
    with d Nil show ?thesis by (auto simp: alloc_inv_def a')
  next
    case (Cons x xs)
    with d obtain z where z: "max_from (entry_share a) x xs = Some z" "d = Some z" by auto
    from max_from_Some [OF z(1)] Cons dom show ?thesis
      by (auto simp: alloc_inv_def share a' z(2) domIff)
  qed
qed

lemma use_resource_share: "entry_share (use_resource ty amount a) = entry_share a"
  by (rule ext) (auto simp: use_resource_def entry_share_def share_def split: option.splits)

lemma alloc_inv_step:
  assumes "alloc_inv a" and "alloc_step a b"
  shows "alloc_inv b"
  using assms(2)
proof cases
  case (alloc_add ks s)
  then show ?thesis by (auto simp: add_share_def intro: recompute_inv)
next
  case (alloc_allocate ks ty amount)
  then show ?thesis using assms(1)
    by (auto simp: drf_allocate_def split: option.splits intro: recompute_inv)
next
  case (alloc_use ty amount)
  have "ra_shares b x = None \<longleftrightarrow> ra_shares a x = None" for x
    using alloc_use by (auto simp: use_resource_def split: option.splits)
  moreover have "ra_shares b = Map.empty \<longleftrightarrow> ra_shares a = Map.empty"
    using alloc_use by (auto simp: use_resource_def split: option.splits)
  moreover have "ra_dominant_resource b = ra_dominant_resource a"
    using alloc_use by (auto simp: use_resource_def split: option.splits)
  ultimately show ?thesis
    using assms(1) alloc_use by (simp add: alloc_inv_def use_resource_share split: option.splits)
qed

interpretation shares: invariant_system "\<lambda>a. a = resource_allocation_new" alloc_step alloc_inv
proof
  show "a = resource_allocation_new \<Longrightarrow> alloc_inv a" for a
    by (simp add: resource_allocation_new_def alloc_inv_def)
  show "alloc_inv a \<Longrightarrow> alloc_step a b \<Longrightarrow> alloc_inv b" for a b
    by (rule alloc_inv_step)
qed

subsection \<open>Reputation\<close>

lemma lit_reputation:
  "lit (9 / 10) = Fin False (8106479329266893 / 2 ^ 53)"
  "lit (1 / 10) = Fin False (7205759403792794 / 2 ^ 56)"
  "lit (1 / 2) = Fin False (1 / 2)"
  using round_mag_near [of "-1" "9 / 10" 8106479329266893]
    round_mag_near [of "-4" "1 / 10" 7205759403792794] round_mag_near [of "-1" "1 / 2" "2 ^ 52"]
  by (simp_all add: lit_small pow2_def)

text \<open>The constants that the update adds, and the least product of a reputation with \<open>0.9\<close>.\<close>

lemma round_products:
  "round_mag (7205759403792794 / 2 ^ 56) = 7205759403792794 / 2 ^ 56"
  "round_mag (1 / 2 * (7205759403792794 / 2 ^ 56)) = 7205759403792794 / 2 ^ 57"
  "round_mag (1 / 2 * (8106479329266893 / 2 ^ 53)) = 8106479329266893 / 2 ^ 54"
  "round_mag (8106479329266893 / 2 ^ 53) = 8106479329266893 / 2 ^ 53"
  "round_mag (1 / 2) = 1 / 2"
  using round_mag_near [of "-4" "7205759403792794 / 2 ^ 56" 7205759403792794]
    round_mag_near [of "-5" "1 / 2 * (7205759403792794 / 2 ^ 56)" 7205759403792794]
    round_mag_near [of "-2" "1 / 2 * (8106479329266893 / 2 ^ 53)" 8106479329266893]
    round_mag_near [of "-1" "8106479329266893 / 2 ^ 53" 8106479329266893]
    round_mag_near [of "-1" "1 / 2" "2 ^ 52"]
  by (simp_all add: pow2_def)

text \<open>One step of the moving average of a reputation, in binary64.\<close>

lemma reputation_average:
  assumes "1 / 2 \<le> v" and "v \<le> 1" and "7205759403792794 / 2 ^ 57 \<le> c" and "c \<le> 1"
  shows "\<exists>w. fadd (fmul (Fin False v) (lit (9 / 10))) (Fin False c) = Fin False w \<and> 1 / 2 \<le> w \<and>
    (c = 7205759403792794 / 2 ^ 57 \<longrightarrow> w \<le> 1)"
proof -
  define n :: rat where "n = 8106479329266893 / 2 ^ 53"
  have n: "0 < n" "n \<le> 1" by (simp_all add: n_def)
  have vn: "1 / 2 * n \<le> v * n" "v * n \<le> n" using assms n by (simp_all add: mult_right_mono)
  define p where "p = round_mag (v * n)"
  have p: "n / 2 \<le> p" "p \<le> n"
    using round_mag_mono [OF vn(1)] round_mag_mono [OF vn(2)] round_products(3,4)
    by (simp_all add: p_def n_def)
  have "v * n \<le> 1" using vn(2) n(2) by linarith
  then obtain q where "round_f64 False (v * n) = Fin False q" using round_f64_le_1 by blast
  then have prod: "fmul (Fin False v) (lit (9 / 10)) = Fin False p"
    by (auto simp: lit_reputation n_def p_def round_f64_def Let_def split: if_splits)
  have pos: "0 \<le> p" "0 \<le> c" using p n assms(3) by (auto intro: order_trans [rotated])
  have "p + c \<le> of_nat 2" using p(2) n(2) assms(4) by simp
  then obtain w where w: "round_f64 False (p + c) = Fin False w"
    using round_f64_le_nat [of "p + c" 2 False] by auto
  then have wr: "w = round_mag (p + c)" by (auto simp: round_f64_def Let_def split: if_splits)
  have "1 / 2 \<le> p + c" using p(1) assms(3) by (simp add: n_def)
  from round_mag_mono [OF this] have "1 / 2 \<le> w" by (simp add: wr round_products(5))
  moreover have "w \<le> 1" if "c = 7205759403792794 / 2 ^ 57"
  proof -
    have "p + c \<le> 1" using p(2) that by (simp add: n_def)
    from round_mag_mono [OF this] show ?thesis using round_mag_nat [of 1] by (simp add: wr)
  qed
  moreover have "fadd (fmul (Fin False v) (lit (9 / 10))) (Fin False c) = Fin False w"
    unfolding prod fadd_mag [OF pos] by (rule w)
  ultimately show ?thesis by blast
qed

lemma rep_ok_update:
  assumes "rep_ok r"
  shows "rep_ok (update_utilization u r)"
proof -
  obtain v where v: "tr_reputation r = Fin False v" "1 / 2 \<le> v" "v \<le> 1"
    using assms by (auto simp: rep_ok_def)
  have "(7205759403792794 / 2 ^ 56 :: rat) < pow2 1024" "(7205759403792794 / 2 ^ 57 :: rat) < pow2 1024"
    using pow2_less_iff [of 0 1024] by (simp_all add: pow2_def)
  then have added: "fmul (lit 1) (lit (1 / 10)) = Fin False (7205759403792794 / 2 ^ 56)"
    "fmul (lit (1 / 2)) (lit (1 / 10)) = Fin False (7205759403792794 / 2 ^ 57)"
    using round_products(1,2) by (simp_all add: lit_reputation round_f64_def Let_def)
  obtain a where a: "fadd (fmul (Fin False v) (lit (9 / 10))) (Fin False (7205759403792794 / 2 ^ 56))
      = Fin False a" "1 / 2 \<le> a"
    using reputation_average [OF v(2,3), of "7205759403792794 / 2 ^ 56"] by auto
  obtain b where b: "fadd (fmul (Fin False v) (lit (9 / 10))) (Fin False (7205759403792794 / 2 ^ 57))
      = Fin False b" "1 / 2 \<le> b" "b \<le> 1"
    using reputation_average [OF v(2,3), of "7205759403792794 / 2 ^ 57"] by auto
  have hi: "fmin (Fin False a) (lit 1) = Fin False (min a 1)" by (simp add: fmin_def min_def)
  have lo: "fmax (Fin False b) (lit 0) = Fin False b" using b(2) by (simp add: fmax_def)
  show ?thesis
    unfolding update_utilization_def Let_def added v(1) a(1) b(1) hi lo
    using v a(2) b(2,3) by (auto simp: rep_ok_def min_def)
qed

lemma rep_ok_fields:
  "rep_ok (r\<lparr>tr_total_fulfilled := x, tr_current_allocation := y, tr_total_wasted := z\<rparr>) = rep_ok r"
  "rep_ok (r\<lparr>tr_total_requests := n\<rparr>) = rep_ok r"
  by (simp_all add: rep_ok_def)

lemma rep_ok_new: "rep_ok (reputation_new t)"
  by (simp add: rep_ok_def reputation_new_def)

lemma rep_ok_fulfilled: "rep_ok r \<Longrightarrow> rep_ok (reputation_record_fulfilled alloc used r)"
  unfolding reputation_record_fulfilled_def Let_def by (intro rep_ok_update) (simp add: rep_ok_fields)

interpretation utilized: keyed_update tr_tenant_id "update_utilization u" for u
  by unfold_locales (simp add: update_utilization_def Let_def)

lemma rep_inv_insert:
  "rep_inv s \<Longrightarrow> rep_ok r \<Longrightarrow> tr_tenant_id r = t \<Longrightarrow> rep_inv (s\<lparr>rt_tenants := (rt_tenants s)(t \<mapsto> r)\<rparr>)"
  by (simp add: rep_inv_def)

lemma rep_inv_create:
  assumes "rep_inv s" and "reputation_get_or_create t s = (r, s')"
  shows "rep_inv s' \<and> rep_ok r \<and> tr_tenant_id r = t"
proof -
  have new: "tr_tenant_id (reputation_new t) = t" "rep_ok (reputation_new t)"
    by (simp add: reputation_new_def) (rule rep_ok_new)
  show ?thesis
  proof (cases "rt_tenants s t")
    case None
    with assms new show ?thesis by (auto simp: reputation_get_or_create_def intro: rep_inv_insert)
  next
    case (Some r0)
    with assms show ?thesis by (auto simp: reputation_get_or_create_def rep_inv_def)
  qed
qed

lemma rep_inv_step:
  assumes inv: "rep_inv s" and step: "rep_step s s'"
  shows "rep_inv s'"
  using step
proof cases
  case (rep_create t)
  then show ?thesis using rep_inv_create [OF inv] by (metis prod.collapse)
next
  case (rep_update t u)
  then show ?thesis using inv
    by (cases "rt_tenants s t")
      (auto simp: tracker_update_utilization_def store_simps rep_inv_def rep_ok_update utilized.key_upd)
next
  case (rep_request t)
  obtain r s1 where c: "reputation_get_or_create t s = (r, s1)" by fastforce
  from rep_inv_create [OF inv c] rep_request c show ?thesis
    by (auto simp: tracker_record_request_def reputation_record_request_def rep_ok_fields
      intro!: rep_inv_insert)
next
  case (rep_fulfilled t alloc used)
  obtain r s1 where c: "reputation_get_or_create t s = (r, s1)" by fastforce
  have "tr_tenant_id (reputation_record_fulfilled alloc used r) = tr_tenant_id r"
    by (simp add: reputation_record_fulfilled_def Let_def utilized.key_upd)
  with rep_inv_create [OF inv c] rep_fulfilled c show ?thesis
    by (auto simp: tracker_record_fulfilled_def intro!: rep_inv_insert rep_ok_fulfilled)
qed

interpretation reputations: invariant_system "\<lambda>s. s = reputation_tracker_new al" rep_step rep_inv
  for al
proof
  show "s = reputation_tracker_new al \<Longrightarrow> rep_inv s" for s
    by (simp add: reputation_tracker_new_def rep_inv_def)
  show "rep_inv s \<Longrightarrow> rep_step s s' \<Longrightarrow> rep_inv s'" for s s'
    by (rule rep_inv_step)
qed

text \<open>A tracker with one tenant, whose amounts are lost, for a witness.\<close>

lemma sample_reputation_reach:
  "reach (\<lambda>s. s = reputation_tracker_new NaN) rep_step
     (tracker_record_fulfilled (CustomerId ''a'') NaN NaN (reputation_tracker_new NaN))"
  by (rule reach_step [OF reach_self]) (rule rep_fulfilled)

section \<open>Properties\<close>

text \<open>C11: The dominant resource is right: in every state that adding shares, allocating and using
  resources reach, no share of the tenant exceeds its dominant share, and a tenant has a dominant
  resource exactly when it has a share.\<close>

theorem dominant_share_is_greatest:
  assumes "reach (\<lambda>a. a = resource_allocation_new) alloc_step a"
  shows "(\<forall>ty s. get_share ty a = Some s \<longrightarrow> \<not> flt (dominant_share a) (share s)) \<and>
    (ra_dominant_resource a = None \<longleftrightarrow> (\<forall>ty. get_share ty a = None))"
proof -
  have inv: "alloc_inv a" using assms by (rule shares.reach_inv)
  show ?thesis
  proof (cases "ra_dominant_resource a")
    case None
    with inv show ?thesis by (auto simp: alloc_inv_def get_share_def)
  next
    case (Some d)
    with inv obtain s where s: "ra_shares a d = Some s" by (auto simp: alloc_inv_def)
    have "dominant_share a = entry_share a d" by (simp add: dominant_share_def entry_share_def Some s)
    moreover have "\<not> flt (entry_share a d) (share x)" if "ra_shares a ty = Some x" for ty x
      using inv Some that by (fastforce simp: alloc_inv_def entry_share_def)
    ultimately show ?thesis using Some s by (auto simp: get_share_def)
  qed
qed

theorem dominant_share_is_greatest_witness:
  "\<exists>a. add_share [RotatorHours] (resource_share_new RotatorHours (lit 50)) resource_allocation_new = Some a \<and>
     ra_dominant_resource a \<noteq> None"
proof -
  obtain a where a: "add_share [RotatorHours] (resource_share_new RotatorHours (lit 50))
      resource_allocation_new = Some a"
    by (simp add: add_share_def recompute_dominant_def)
  then have sh: "ra_shares a = [RotatorHours \<mapsto> resource_share_new RotatorHours (lit 50)]"
    by (auto simp: add_share_def recompute_dominant_def resource_allocation_new_def
      resource_share_new_def)
  then have "iter_order (ra_shares a) [RotatorHours]" by (simp add: iter_order_def)
  with a have "alloc_step resource_allocation_new a" by (rule alloc_add)
  then have "reach (\<lambda>a. a = resource_allocation_new) alloc_step a" by (rule reach_step [OF reach_self])
  from dominant_share_is_greatest [OF this]
  have iff: "ra_dominant_resource a = None \<longleftrightarrow> (\<forall>ty. get_share ty a = None)" by (rule conjunct2)
  have "get_share RotatorHours a \<noteq> None" using sh by (simp add: get_share_def)
  with iff have "ra_dominant_resource a \<noteq> None" by metis
  with a show ?thesis by blast
qed

text \<open>The fair scheduler picks a candidate whose dominant share no other candidate undercuts, and
  none only when there are no candidates. A tenant without an allocation counts as having share 0.
  The choice never panics when the shares are numbers.\<close>

theorem select_next_is_fair:
  assumes "\<forall>t \<in> set candidates. drf_priority d t \<noteq> NaN"
  shows "\<exists>c. select_next_tenant candidates d = Some c \<and>
    (case c of
       None \<Rightarrow> candidates = []
     | Some t \<Rightarrow> t \<in> set candidates \<and>
         (\<forall>u \<in> set candidates. \<not> flt (drf_priority d u) (drf_priority d t)))"
proof (cases candidates)
  case Nil
  then show ?thesis by (simp add: select_next_tenant_def)
next
  case (Cons x xs)
  with assms obtain z where z: "min_from (drf_priority d) x xs = Some z"
    using min_from_returns [of x xs "drf_priority d"] by auto
  from min_from_Some [OF z] Cons z show ?thesis by (auto simp: select_next_tenant_def)
qed

theorem select_next_is_fair_witness:
  "\<exists>t. select_next_tenant [CustomerId ''a'', CustomerId ''b''] drf_new = Some (Some t)"
  using select_next_is_fair [of "[CustomerId ''a'', CustomerId ''b'']" drf_new]
  by (auto simp: drf_priority_def drf_get_allocation_def drf_new_def split: option.splits)

text \<open>C12: The reputation of a tenant stays between one half and 1, in binary64 arithmetic and whatever
  utilization is reported, a NaN included. So no tenant ever counts as one of low reputation, which
  the statistics define as below one half.\<close>

theorem reputation_bounds:
  assumes "reach (\<lambda>s. s = reputation_tracker_new al) rep_step s"
  shows "(\<forall>t r. reputation_get t s = Some r \<longrightarrow>
           (\<exists>v. tr_reputation r = Fin False v \<and> 1 / 2 \<le> v \<and> v \<le> 1)) \<and>
    rst_low_reputation_count (reputation_stats_of z ts s) = 0"
proof -
  have inv: "rep_inv s" using assms by (rule reputations.reach_inv)
  then have ok: "\<forall>r \<in> set (map_values (rt_tenants s) ts). rep_ok r"
    by (auto simp: set_map_values rep_inv_def)
  have "\<not> flt (tr_reputation r) (lit (1 / 2))" if "rep_ok r" for r
    using that by (auto simp: rep_ok_def lit_reputation)
  with ok have "filter (\<lambda>r. flt r (lit (1 / 2))) (map tr_reputation (map_values (rt_tenants s) ts)) = []"
    by (auto simp: filter_empty_conv)
  with inv show ?thesis
    by (auto simp: reputation_stats_of_def rep_inv_def rep_ok_def reputation_get_def Let_def)
qed

theorem reputation_bounds_witness:
  "rst_low_reputation_count (reputation_stats_of (lit 0) [CustomerId ''a'']
     (tracker_record_fulfilled (CustomerId ''a'') NaN NaN (reputation_tracker_new NaN))) = 0"
  using reputation_bounds [OF sample_reputation_reach] by blast

end
