(* ===== verification/Ordered_Map.thy ===== *)
theory Ordered_Map
  imports Prelude
begin

text \<open>
  The ordered map of the standard library (\<open>BTreeMap\<close>): its entries in ascending order of the keys.

  The components use \<open>get\<close>, \<open>insert\<close>, \<open>remove\<close>, \<open>retain\<close>, the range queries \<open>range(..=t).next_back()\<close>,
  \<open>range(t..).next()\<close> and \<open>range(a..=b)\<close>, and the first and the last key. \<open>btm_inv\<close> is the order of
  the keys; the interface \<open>ordered_map\<close> states the laws of the container that its clients use, with
  the closest entries of a key as the clients' vocabulary, and the list model interprets it.
\<close>

section \<open>Definitions\<close>

type_synonym ('k, 'v) btm = "('k \<times> 'v) list"

definition btm_inv :: "('k::linorder, 'v) btm \<Rightarrow> bool" where
  "btm_inv m \<longleftrightarrow> sorted_wrt (<) (map fst m)"

definition btm_get :: "'k \<Rightarrow> ('k, 'v) btm \<Rightarrow> 'v option" where
  "btm_get k m = map_of m k"

fun btm_insert :: "'k::linorder \<Rightarrow> 'v \<Rightarrow> ('k, 'v) btm \<Rightarrow> ('k, 'v) btm" where
  "btm_insert k v [] = [(k, v)]"
| "btm_insert k v ((k', v') # m) =
     (if k < k' then (k, v) # (k', v') # m
      else if k = k' then (k, v) # m
      else (k', v') # btm_insert k v m)"

definition btm_remove :: "'k \<Rightarrow> ('k, 'v) btm \<Rightarrow> ('k, 'v) btm" where
  "btm_remove k m = filter (\<lambda>e. fst e \<noteq> k) m"

definition btm_retain :: "('k \<Rightarrow> 'v \<Rightarrow> bool) \<Rightarrow> ('k, 'v) btm \<Rightarrow> ('k, 'v) btm" where
  "btm_retain p m = filter (\<lambda>(k, v). p k v) m"

definition first_entry :: "'a list \<Rightarrow> 'a option" where
  "first_entry xs = (case xs of [] \<Rightarrow> None | x # _ \<Rightarrow> Some x)"

definition last_entry :: "'a list \<Rightarrow> 'a option" where
  "last_entry xs = (if xs = [] then None else Some (last xs))"

text \<open>\<open>range(..=t).next_back()\<close> and \<open>range(t..).next()\<close>.\<close>

definition btm_floor :: "'k::linorder \<Rightarrow> ('k, 'v) btm \<Rightarrow> ('k \<times> 'v) option" where
  "btm_floor t m = last_entry (filter (\<lambda>e. fst e \<le> t) m)"

definition btm_ceiling :: "'k::linorder \<Rightarrow> ('k, 'v) btm \<Rightarrow> ('k \<times> 'v) option" where
  "btm_ceiling t m = first_entry (filter (\<lambda>e. t \<le> fst e) m)"

text \<open>\<open>range(a..=b)\<close> panics when \<open>a\<close> is greater than \<open>b\<close>.\<close>

definition btm_range :: "'k::linorder \<Rightarrow> 'k \<Rightarrow> ('k, 'v) btm \<Rightarrow> ('k, 'v) btm option" where
  "btm_range a b m = (if b < a then None else Some (filter (\<lambda>e. a \<le> fst e \<and> fst e \<le> b) m))"

section \<open>Lemmas\<close>

lemma btm_inv_Nil [simp]: "btm_inv []"
  by (simp add: btm_inv_def)

lemma btm_inv_Cons: "btm_inv ((k, v) # m) \<longleftrightarrow> (\<forall>e \<in> set m. k < fst e) \<and> btm_inv m"
  by (auto simp: btm_inv_def)

lemma btm_inv_filter: "btm_inv m \<Longrightarrow> btm_inv (filter p m)"
  by (simp add: btm_inv_def sorted_wrt_map sorted_wrt_filter)

lemma btm_inv_remove: "btm_inv m \<Longrightarrow> btm_inv (btm_remove k m)"
  by (simp add: btm_remove_def btm_inv_filter)

lemma btm_inv_retain: "btm_inv m \<Longrightarrow> btm_inv (btm_retain p m)"
  by (simp add: btm_retain_def btm_inv_filter)

lemma set_btm_insert: "fst ` set (btm_insert k v m) = insert k (fst ` set m)"
  by (induction k v m rule: btm_insert.induct) auto

lemma set_btm_insert_subset: "set (btm_insert k v m) \<subseteq> insert (k, v) (set m)"
  by (induction k v m rule: btm_insert.induct) auto

lemma btm_inv_insert: "btm_inv m \<Longrightarrow> btm_inv (btm_insert k v m)"
proof (induction k v m rule: btm_insert.induct)
  case (1 k v)
  then show ?case by (simp add: btm_inv_Cons)
next
  case (2 k v k' v' m)
  have "e \<in> set (btm_insert k v m) \<Longrightarrow> e = (k, v) \<or> e \<in> set m" for e
    using set_btm_insert_subset [of k v m] by auto
  with 2 show ?case by (auto simp: btm_inv_Cons) force+
qed

lemma btm_inv_distinct: "btm_inv m \<Longrightarrow> distinct (map fst m)"
  by (simp add: btm_inv_def strict_sorted_iff)

lemma btm_get_iff: "btm_inv m \<Longrightarrow> btm_get k m = Some v \<longleftrightarrow> (k, v) \<in> set m"
  by (simp add: btm_get_def btm_inv_distinct)

lemma btm_get_insert: "btm_get k (btm_insert j v m) = (if k = j then Some v else btm_get k m)"
  by (induction j v m rule: btm_insert.induct) (auto simp: btm_get_def)

lemma btm_get_remove: "btm_get k (btm_remove j m) = (if k = j then None else btm_get k m)"
  by (induction m) (auto simp: btm_get_def btm_remove_def)

lemma btm_get_retain:
  assumes "btm_inv m"
  shows "btm_get k (btm_retain p m) =
    (case btm_get k m of None \<Rightarrow> None | Some v \<Rightarrow> if p k v then Some v else None)"
proof (cases "btm_get k m")
  case None
  then have "\<forall>v. (k, v) \<notin> set m" using assms by (metis btm_get_iff option.distinct(1))
  then have "btm_get k (btm_retain p m) = None"
    by (auto simp: btm_get_def btm_retain_def map_of_eq_None_iff)
  with None show ?thesis by simp
next
  case (Some v)
  with assms have in_m: "(k, v) \<in> set m" by (simp add: btm_get_iff)
  show ?thesis
  proof (cases "p k v")
    case True
    with in_m have "(k, v) \<in> set (btm_retain p m)" by (simp add: btm_retain_def)
    with assms have "btm_get k (btm_retain p m) = Some v" by (simp add: btm_get_iff btm_inv_retain)
    with True Some show ?thesis by simp
  next
    case False
    have "(k, w) \<notin> set (btm_retain p m)" for w
      using False Some assms by (auto simp: btm_retain_def dest: btm_get_iff [THEN iffD2])
    then have "btm_get k (btm_retain p m) = None"
      by (auto simp: btm_get_def map_of_eq_None_iff)
    with False Some show ?thesis by simp
  qed
qed

subsection \<open>The closest entries\<close>

lemma last_entry_mem: "last_entry xs = Some x \<Longrightarrow> x \<in> set xs"
  by (auto simp: last_entry_def split: if_splits)

lemma first_entry_mem: "first_entry xs = Some x \<Longrightarrow> x \<in> set xs"
  by (auto simp: first_entry_def split: list.splits)

lemma last_entry_None [simp]: "last_entry xs = None \<longleftrightarrow> xs = []"
  by (simp add: last_entry_def)

lemma first_entry_None [simp]: "first_entry xs = None \<longleftrightarrow> xs = []"
  by (auto simp: first_entry_def split: list.splits)

lemma last_entry_greatest:
  assumes "btm_inv m" and "last_entry m = Some (k, v)" and "e \<in> set m"
  shows "fst e \<le> k"
proof -
  from assms(2) have "m = butlast m @ [(k, v)]"
    by (metis append_butlast_last_id last_entry_def option.distinct(1) option.inject)
  then obtain xs where m: "m = xs @ [(k, v)]" by blast
  with assms(1,3) show ?thesis by (auto simp: btm_inv_def sorted_wrt_append)
qed

lemma first_entry_least:
  assumes "btm_inv m" and "first_entry m = Some (k, v)" and "e \<in> set m"
  shows "k \<le> fst e"
  using assms by (auto simp: first_entry_def btm_inv_Cons split: list.splits)

lemma btm_floor_Some:
  assumes "btm_inv m" and "btm_floor t m = Some (k, v)"
  shows "(k, v) \<in> set m \<and> k \<le> t \<and> (\<forall>e \<in> set m. fst e \<le> t \<longrightarrow> fst e \<le> k)"
proof -
  have mem: "(k, v) \<in> set (filter (\<lambda>e. fst e \<le> t) m)"
    using assms(2) unfolding btm_floor_def by (rule last_entry_mem)
  have "fst e \<le> k" if "e \<in> set m" and "fst e \<le> t" for e
    using last_entry_greatest [OF btm_inv_filter [OF assms(1)] assms(2) [unfolded btm_floor_def]] that
    by simp
  with mem show ?thesis by auto
qed

lemma btm_ceiling_Some:
  assumes "btm_inv m" and "btm_ceiling t m = Some (k, v)"
  shows "(k, v) \<in> set m \<and> t \<le> k \<and> (\<forall>e \<in> set m. t \<le> fst e \<longrightarrow> k \<le> fst e)"
proof -
  have mem: "(k, v) \<in> set (filter (\<lambda>e. t \<le> fst e) m)"
    using assms(2) unfolding btm_ceiling_def by (rule first_entry_mem)
  have "k \<le> fst e" if "e \<in> set m" and "t \<le> fst e" for e
    using first_entry_least [OF btm_inv_filter [OF assms(1)] assms(2) [unfolded btm_ceiling_def]] that
    by simp
  with mem show ?thesis by auto
qed

lemma btm_floor_None: "btm_floor t m = None \<longleftrightarrow> (\<forall>e \<in> set m. t < fst e)"
  by (auto simp: btm_floor_def filter_empty_conv not_le)

lemma btm_ceiling_None: "btm_ceiling t m = None \<longleftrightarrow> (\<forall>e \<in> set m. fst e < t)"
  by (auto simp: btm_ceiling_def filter_empty_conv not_le)

text \<open>A key of the map is its own floor and its own ceiling.\<close>

lemma btm_floor_hit: "btm_inv m \<Longrightarrow> btm_get t m = Some v \<Longrightarrow> btm_floor t m = Some (t, v)"
proof -
  assume inv: "btm_inv m" and get: "btm_get t m = Some v"
  then have mem: "(t, v) \<in> set m" by (simp add: btm_get_iff)
  then obtain k w where f: "btm_floor t m = Some (k, w)"
    by (cases "btm_floor t m") (auto simp: btm_floor_None)
  note entry = btm_floor_Some [OF inv f]
  from entry mem have "k = t" by force
  moreover from entry inv have "btm_get k m = Some w" by (simp add: btm_get_iff)
  ultimately show ?thesis using get f by simp
qed

lemma btm_ceiling_hit: "btm_inv m \<Longrightarrow> btm_get t m = Some v \<Longrightarrow> btm_ceiling t m = Some (t, v)"
proof -
  assume inv: "btm_inv m" and get: "btm_get t m = Some v"
  then have mem: "(t, v) \<in> set m" by (simp add: btm_get_iff)
  then obtain k w where f: "btm_ceiling t m = Some (k, w)"
    by (cases "btm_ceiling t m") (auto simp: btm_ceiling_None)
  note entry = btm_ceiling_Some [OF inv f]
  from entry mem have "k = t" by force
  moreover from entry inv have "btm_get k m = Some w" by (simp add: btm_get_iff)
  ultimately show ?thesis using get f by simp
qed

subsection \<open>The interface\<close>

text \<open>
  An ordered container: what \<open>get\<close> returns after an \<open>insert\<close>, and that the floor and the ceiling of
  a key are the entries next to it.
\<close>

locale ordered_map =
  fixes inv :: "'m \<Rightarrow> bool"
    and get :: "'k::linorder \<Rightarrow> 'm \<Rightarrow> 'v option"
    and ins :: "'k \<Rightarrow> 'v \<Rightarrow> 'm \<Rightarrow> 'm"
    and floor_of :: "'k \<Rightarrow> 'm \<Rightarrow> ('k \<times> 'v) option"
    and ceiling_of :: "'k \<Rightarrow> 'm \<Rightarrow> ('k \<times> 'v) option"
  assumes inv_ins: "inv m \<Longrightarrow> inv (ins k v m)"
    and get_ins: "get k (ins j v m) = (if k = j then Some v else get k m)"
    and floor_get: "inv m \<Longrightarrow> floor_of t m = Some (k, v) \<Longrightarrow>
          get k m = Some v \<and> k \<le> t \<and> (\<forall>j. get j m \<noteq> None \<longrightarrow> j \<le> t \<longrightarrow> j \<le> k)"
    and ceiling_get: "inv m \<Longrightarrow> ceiling_of t m = Some (k, v) \<Longrightarrow>
          get k m = Some v \<and> t \<le> k \<and> (\<forall>j. get j m \<noteq> None \<longrightarrow> t \<le> j \<longrightarrow> k \<le> j)"
begin

text \<open>No entry lies strictly between the floor and the ceiling.\<close>

lemma nothing_between:
  assumes "inv m" and "floor_of t m = Some (a, v)" and "ceiling_of t m = Some (b, w)"
    and "get j m \<noteq> None"
  shows "j \<le> a \<or> b \<le> j"
proof (cases "j \<le> t")
  case True
  with floor_get [OF assms(1,2)] assms(4) show ?thesis by blast
next
  case False
  with ceiling_get [OF assms(1,3)] assms(4) show ?thesis by (meson linear)
qed

lemma floor_after_insert:
  assumes "inv m" and "floor_of t (ins t v m) = Some e"
  shows "e = (t, v)"
proof -
  obtain k w where e: "e = (k, w)" by (cases e)
  with floor_get [OF inv_ins [OF assms(1)]] assms(2)
  have *: "get k (ins t v m) = Some w" "k \<le> t"
    "\<forall>j. get j (ins t v m) \<noteq> None \<longrightarrow> j \<le> t \<longrightarrow> j \<le> k" by blast+
  then have "t \<le> k" by (simp add: get_ins)
  with * have "k = t" by simp
  with * e show ?thesis by (simp add: get_ins)
qed

end

lemma ordered_map_btm: "ordered_map btm_inv btm_get btm_insert btm_floor btm_ceiling"
proof
  fix m :: "('a::linorder, 'b) btm" and k :: 'a and v :: 'b
  show "btm_inv m \<Longrightarrow> btm_inv (btm_insert k v m)" by (rule btm_inv_insert)
next
  fix k j :: "'a::linorder" and v :: 'b and m :: "('a, 'b) btm"
  show "btm_get k (btm_insert j v m) = (if k = j then Some v else btm_get k m)"
    by (rule btm_get_insert)
next
  fix m :: "('a::linorder, 'b) btm" and t k :: 'a and v :: 'b
  assume inv: "btm_inv m" and f: "btm_floor t m = Some (k, v)"
  show "btm_get k m = Some v \<and> k \<le> t \<and> (\<forall>j. btm_get j m \<noteq> None \<longrightarrow> j \<le> t \<longrightarrow> j \<le> k)"
    using btm_floor_Some [OF inv f] inv by (force simp: btm_get_iff)
next
  fix m :: "('a::linorder, 'b) btm" and t k :: 'a and v :: 'b
  assume inv: "btm_inv m" and f: "btm_ceiling t m = Some (k, v)"
  show "btm_get k m = Some v \<and> t \<le> k \<and> (\<forall>j. btm_get j m \<noteq> None \<longrightarrow> t \<le> j \<longrightarrow> k \<le> j)"
    using btm_ceiling_Some [OF inv f] inv by (force simp: btm_get_iff)
qed

interpretation btm: ordered_map btm_inv btm_get btm_insert btm_floor btm_ceiling
  by (rule ordered_map_btm)

end
