(* ===== verification/Caching.thy ===== *)
theory Caching
  imports Ordered_Map Core_Types F64
begin

text \<open>
  The crate \<open>caching\<close>: the generic LRU and TTL caches (\<open>generic.rs\<close>), the TLE cache (\<open>tle.rs\<close>), the
  cache of schedule fragments (\<open>schedule.rs\<close>) and the interpolating cache of propagated orbital
  states (\<open>propagation.rs\<close>).

  Hash maps are partial maps; where an operation iterates over one, or asks for its size, the order
  of the keys is an argument. The pruning loop of the fragment cache is a partial function: that it
  returns is a theorem. The propagation cache is an ordered map of the standard library.
\<close>

section \<open>Definitions\<close>

subsection \<open>The LRU cache\<close>

record 'v lru_entry =
  ce_value :: 'v
  ce_last_accessed :: datetime
  ce_created_at :: datetime

record ('k, 'v) lru_cache =
  lc_entries :: "'k \<rightharpoonup> 'v lru_entry"
  lc_max_size :: nat

definition lru_new :: "nat \<Rightarrow> ('k, 'v) lru_cache" where
  "lru_new max_size = \<lparr>lc_entries = Map.empty, lc_max_size = max_size\<rparr>"

definition lru_get :: "datetime \<Rightarrow> 'k \<Rightarrow> ('k, 'v) lru_cache \<Rightarrow> 'v option \<times> ('k, 'v) lru_cache" where
  "lru_get now k c =
     (case lc_entries c k of
        Some e \<Rightarrow>
          (Some (ce_value e),
           c\<lparr>lc_entries := (lc_entries c)(k \<mapsto> e\<lparr>ce_last_accessed := now\<rparr>)\<rparr>)
      | None \<Rightarrow> (None, c))"

text \<open>\<open>ks\<close> is the order in which the map is iterated.\<close>

definition entry_list :: "'k list \<Rightarrow> ('k \<rightharpoonup> 'e) \<Rightarrow> ('k \<times> 'e) list" where
  "entry_list ks m = List.map_filter (\<lambda>k. map_option (Pair k) (m k)) ks"

definition evict_lru :: "'k list \<Rightarrow> ('k, 'v) lru_cache \<Rightarrow> ('k, 'v) lru_cache" where
  "evict_lru ks c =
     (case min_by_key (\<lambda>(k, e). ce_last_accessed e) (entry_list ks (lc_entries c)) of
        Some (k, e) \<Rightarrow> c\<lparr>lc_entries := (lc_entries c)(k := None)\<rparr>
      | None \<Rightarrow> c)"

text \<open>\<open>t1\<close> and \<open>t2\<close> are the two clock readings of the call.\<close>

definition lru_put :: "'k list \<Rightarrow> datetime \<Rightarrow> datetime \<Rightarrow> 'k \<Rightarrow> 'v \<Rightarrow> ('k, 'v) lru_cache \<Rightarrow>
    ('k, 'v) lru_cache" where
  "lru_put ks t1 t2 k v c =
     (let c1 = (if lc_max_size c \<le> length ks then evict_lru ks c else c)
      in c1\<lparr>lc_entries := (lc_entries c1)
              (k \<mapsto> \<lparr>ce_value = v, ce_last_accessed = t1, ce_created_at = t2\<rparr>)\<rparr>)"

definition lru_remove :: "'k \<Rightarrow> ('k, 'v) lru_cache \<Rightarrow> 'v option \<times> ('k, 'v) lru_cache" where
  "lru_remove k c =
     (map_option ce_value (lc_entries c k), c\<lparr>lc_entries := (lc_entries c)(k := None)\<rparr>)"

definition lru_clear :: "('k, 'v) lru_cache \<Rightarrow> ('k, 'v) lru_cache" where
  "lru_clear c = c\<lparr>lc_entries := Map.empty\<rparr>"

text \<open>\<open>len\<close> and \<open>is_empty\<close>, from the keys of the map.\<close>

definition lru_len :: "'k list \<Rightarrow> ('k, 'v) lru_cache \<Rightarrow> nat" where
  "lru_len ks c = length (map_values (lc_entries c) ks)"

definition lru_is_empty :: "'k list \<Rightarrow> ('k, 'v) lru_cache \<Rightarrow> bool" where
  "lru_is_empty ks c \<longleftrightarrow> map_values (lc_entries c) ks = []"

inductive lru_step :: "('k, 'v) lru_cache \<Rightarrow> ('k, 'v) lru_cache \<Rightarrow> bool" where
  step_get: "lru_step c (snd (lru_get now k c))"
| step_put: "iter_order (lc_entries c) ks \<Longrightarrow> lru_step c (lru_put ks t1 t2 k v c)"
| step_remove: "lru_step c (snd (lru_remove k c))"
| step_clear: "lru_step c (lru_clear c)"

text \<open>The cache never holds more than its bound, or one entry where the bound is 0.\<close>

definition lru_bounded :: "nat \<Rightarrow> ('k, 'v) lru_cache \<Rightarrow> bool" where
  "lru_bounded n c \<longleftrightarrow>
     lc_max_size c = n \<and> finite (dom (lc_entries c)) \<and> card (dom (lc_entries c)) \<le> max 1 n"

subsection \<open>The cache with a time to live\<close>

record ('k, 'v) ttl_cache =
  tc_entries :: "'k \<rightharpoonup> 'v lru_entry"
  tc_ttl_seconds :: int

definition ttl_new :: "int \<Rightarrow> ('k, 'v) ttl_cache" where
  "ttl_new ttl = \<lparr>tc_entries = Map.empty, tc_ttl_seconds = ttl\<rparr>"

definition ttl_expired :: "int \<Rightarrow> datetime \<Rightarrow> 'v lru_entry \<Rightarrow> bool" where
  "ttl_expired ttl now e \<longleftrightarrow> ttl < num_seconds (now - ce_created_at e)"

definition ttl_get :: "datetime \<Rightarrow> datetime \<Rightarrow> 'k \<Rightarrow> ('k, 'v) ttl_cache \<Rightarrow>
    'v option \<times> ('k, 'v) ttl_cache" where
  "ttl_get t1 t2 k c =
     (case tc_entries c k of
        Some e \<Rightarrow>
          if ttl_expired (tc_ttl_seconds c) t1 e
          then (None, c\<lparr>tc_entries := (tc_entries c)(k := None)\<rparr>)
          else (Some (ce_value e),
                c\<lparr>tc_entries := (tc_entries c)(k \<mapsto> e\<lparr>ce_last_accessed := t2\<rparr>)\<rparr>)
      | None \<Rightarrow> (None, c))"

definition ttl_put :: "datetime \<Rightarrow> datetime \<Rightarrow> 'k \<Rightarrow> 'v \<Rightarrow> ('k, 'v) ttl_cache \<Rightarrow>
    ('k, 'v) ttl_cache" where
  "ttl_put t1 t2 k v c =
     c\<lparr>tc_entries := (tc_entries c)
         (k \<mapsto> \<lparr>ce_value = v, ce_last_accessed = t1, ce_created_at = t2\<rparr>)\<rparr>"

text \<open>\<open>HashMap::retain\<close>.\<close>

definition map_retain :: "('k \<Rightarrow> 'v \<Rightarrow> bool) \<Rightarrow> ('k \<rightharpoonup> 'v) \<Rightarrow> ('k \<rightharpoonup> 'v)" where
  "map_retain p m =
     (\<lambda>k. case m k of None \<Rightarrow> None | Some v \<Rightarrow> if p k v then Some v else None)"

definition ttl_remove_expired :: "datetime \<Rightarrow> ('k, 'v) ttl_cache \<Rightarrow> ('k, 'v) ttl_cache" where
  "ttl_remove_expired now c =
     c\<lparr>tc_entries := map_retain (\<lambda>_ e. \<not> ttl_expired (tc_ttl_seconds c) now e) (tc_entries c)\<rparr>"

definition ttl_clear :: "('k, 'v) ttl_cache \<Rightarrow> ('k, 'v) ttl_cache" where
  "ttl_clear c = c\<lparr>tc_entries := Map.empty\<rparr>"

subsection \<open>The TLE cache\<close>

record tle_cache_key =
  tk_satellite_id :: satellite_id
  tk_source :: string

record cached_tle =
  ct_line1 :: string
  ct_line2 :: string
  ct_epoch :: datetime
  ct_fetched_at :: datetime

record tle_cache =
  tl_entries :: "tle_cache_key \<rightharpoonup> cached_tle"
  tl_max_age_hours :: int

definition tle_cache_new :: "int \<Rightarrow> tle_cache" where
  "tle_cache_new h = \<lparr>tl_entries = Map.empty, tl_max_age_hours = h\<rparr>"

definition tle_get :: "tle_cache_key \<Rightarrow> tle_cache \<Rightarrow> cached_tle option" where
  "tle_get k c = tl_entries c k"

definition num_hours :: "duration \<Rightarrow> int" where
  "num_hours d = trunc_div (num_seconds d) 3600"

definition needs_refresh :: "datetime \<Rightarrow> tle_cache_key \<Rightarrow> tle_cache \<Rightarrow> bool" where
  "needs_refresh now k c =
     (case tle_get k c of
        Some tle \<Rightarrow> tl_max_age_hours c < num_hours (now - ct_fetched_at tle)
      | None \<Rightarrow> True)"

definition batch_refresh :: "(tle_cache_key \<times> cached_tle) list \<Rightarrow> tle_cache \<Rightarrow> tle_cache" where
  "batch_refresh tles c =
     c\<lparr>tl_entries := fold (\<lambda>(k, t) m. m(k \<mapsto> t)) tles (tl_entries c)\<rparr>"

definition tle_invalidate :: "tle_cache_key \<Rightarrow> tle_cache \<Rightarrow> tle_cache" where
  "tle_invalidate k c = c\<lparr>tl_entries := (tl_entries c)(k := None)\<rparr>"

definition invalidate_satellite :: "satellite_id \<Rightarrow> tle_cache \<Rightarrow> tle_cache" where
  "invalidate_satellite s c =
     c\<lparr>tl_entries := map_retain (\<lambda>k _. tk_satellite_id k \<noteq> s) (tl_entries c)\<rparr>"

definition tle_invalidate_all :: "tle_cache \<Rightarrow> tle_cache" where
  "tle_invalidate_all c = c\<lparr>tl_entries := Map.empty\<rparr>"

definition tle_satellite_ids :: "tle_cache_key list \<Rightarrow> tle_cache \<Rightarrow> satellite_id list" where
  "tle_satellite_ids ks c = map (\<lambda>(k, _). tk_satellite_id k) (entry_list ks (tl_entries c))"

record tle_cache_stats =
  ts_entry_count :: nat
  ts_satellite_count :: nat

definition tle_stats :: "tle_cache_key list \<Rightarrow> tle_cache \<Rightarrow> tle_cache_stats" where
  "tle_stats ks c =
     \<lparr>ts_entry_count = length (map_values (tl_entries c) ks),
      ts_satellite_count = length (tle_satellite_ids ks c)\<rparr>"

subsection \<open>The cache of schedule fragments\<close>

record schedule_fragment =
  sf_pass_ids :: "pass_id list"
  sf_committed_at :: datetime
  sf_immutable_until :: datetime
  sf_hash :: string

text \<open>\<open>sha\<close> is the hexadecimal SHA-256 digest: the hasher is fed the identifiers one after the other.\<close>

definition fragment_hash :: "(string \<Rightarrow> string) \<Rightarrow> pass_id list \<Rightarrow> string" where
  "fragment_hash sha ps = sha (concat (map pass_id_str ps))"

definition fragment_new :: "chrono \<Rightarrow> (string \<Rightarrow> string) \<Rightarrow> datetime \<Rightarrow> pass_id list \<Rightarrow> int \<Rightarrow>
    schedule_fragment option" where
  "fragment_new ch sha now ps secs =
     (if \<not> duration_in_range ch (duration_seconds secs) then None
      else map_option
        (\<lambda>t. \<lparr>sf_pass_ids = ps, sf_committed_at = now, sf_immutable_until = t,
              sf_hash = fragment_hash sha ps\<rparr>)
        (date_add ch now (duration_seconds secs)))"

definition is_immutable :: "datetime \<Rightarrow> schedule_fragment \<Rightarrow> bool" where
  "is_immutable now f \<longleftrightarrow> now < sf_immutable_until f"

definition fragment_contains :: "pass_id \<Rightarrow> schedule_fragment \<Rightarrow> bool" where
  "fragment_contains p f \<longleftrightarrow> p \<in> set (sf_pass_ids f)"

record fragment_cache =
  fc_fragments :: "string \<rightharpoonup> schedule_fragment"
  fc_max_fragments :: nat

definition fragment_cache_new :: "nat \<Rightarrow> fragment_cache" where
  "fragment_cache_new n = \<lparr>fc_fragments = Map.empty, fc_max_fragments = n\<rparr>"

text \<open>
  The loop of \<open>add_fragment\<close>. \<open>ord\<close> gives the iteration order of the map at each turn. A turn that
  finds nothing to remove leaves the map as it is and tries again.
\<close>

partial_function (option) prune_fragments ::
  "((string \<rightharpoonup> schedule_fragment) \<Rightarrow> string list) \<Rightarrow> nat \<Rightarrow> (string \<rightharpoonup> schedule_fragment) \<Rightarrow>
   (string \<rightharpoonup> schedule_fragment) option" where
  "prune_fragments ord n m =
     (if n < length (ord m)
      then (case min_by_key sf_committed_at (map_values m (ord m)) of
              Some oldest \<Rightarrow> prune_fragments ord n (m(sf_hash oldest := None))
            | None \<Rightarrow> prune_fragments ord n m)
      else Some m)"

definition add_fragment :: "((string \<rightharpoonup> schedule_fragment) \<Rightarrow> string list) \<Rightarrow> schedule_fragment \<Rightarrow>
    fragment_cache \<Rightarrow> fragment_cache option" where
  "add_fragment ord f c =
     map_option (\<lambda>m. c\<lparr>fc_fragments := m\<rparr>)
       (prune_fragments ord (fc_max_fragments c) ((fc_fragments c)(sf_hash f \<mapsto> f)))"

text \<open>\<open>m'\<close> is \<open>m\<close> without some fragments, none of them younger than a fragment that is left.\<close>

definition oldest_dropped :: "(string \<rightharpoonup> schedule_fragment) \<Rightarrow> (string \<rightharpoonup> schedule_fragment) \<Rightarrow> bool" where
  "oldest_dropped m m' \<longleftrightarrow> m' \<subseteq>\<^sub>m m \<and>
     (\<forall>h f k g. m h = Some f \<longrightarrow> m' h = None \<longrightarrow> m' k = Some g \<longrightarrow>
        sf_committed_at f \<le> sf_committed_at g)"

definition get_fragment :: "string \<Rightarrow> fragment_cache \<Rightarrow> schedule_fragment option" where
  "get_fragment h c = fc_fragments c h"

text \<open>The clock is read once for every fragment that contains the pass, in \<open>now\<close>.\<close>

definition get_fragment_for_pass :: "string list \<Rightarrow> (schedule_fragment \<Rightarrow> datetime) \<Rightarrow> pass_id \<Rightarrow>
    fragment_cache \<Rightarrow> schedule_fragment option" where
  "get_fragment_for_pass ks now p c =
     List.find (\<lambda>f. fragment_contains p f \<and> is_immutable (now f) f) (map_values (fc_fragments c) ks)"

definition invalidate_expired :: "(schedule_fragment \<Rightarrow> datetime) \<Rightarrow> fragment_cache \<Rightarrow>
    fragment_cache" where
  "invalidate_expired now c =
     c\<lparr>fc_fragments := map_retain (\<lambda>_ f. is_immutable (now f) f) (fc_fragments c)\<rparr>"

record fragment_stats =
  fs_total_fragments :: nat
  fs_immutable_fragments :: nat
  fs_mutable_fragments :: nat

definition fragment_stats_of :: "string list \<Rightarrow> (schedule_fragment \<Rightarrow> datetime) \<Rightarrow> fragment_cache \<Rightarrow>
    fragment_stats" where
  "fragment_stats_of ks now c =
     (let fs = map_values (fc_fragments c) ks;
          imm = length (filter (\<lambda>f. is_immutable (now f) f) fs)
      in \<lparr>fs_total_fragments = length fs, fs_immutable_fragments = imm,
          fs_mutable_fragments = length fs - imm\<rparr>)"

subsection \<open>The propagation cache\<close>

type_synonym vec3 = "f64 \<times> f64 \<times> f64"

record orbital_state =
  os_position :: vec3
  os_velocity :: vec3
  os_time :: datetime
  os_tle_epoch :: datetime

record propagation_cache =
  pg_entries :: "(datetime, orbital_state) btm"
  pg_interpolation_window :: duration
  pg_max_age :: duration

definition propagation_new :: "chrono \<Rightarrow> int \<Rightarrow> int \<Rightarrow> propagation_cache option" where
  "propagation_new ch window age =
     (if duration_in_range ch (duration_seconds window) \<and> duration_in_range ch (duration_seconds age)
      then Some \<lparr>pg_entries = [], pg_interpolation_window = duration_seconds window,
                 pg_max_age = duration_seconds age\<rparr>
      else None)"

definition lerp :: "f64 \<Rightarrow> f64 \<Rightarrow> f64 \<Rightarrow> f64" where
  "lerp t a b = fadd (fmul a (fsub (lit 1) t)) (fmul b t)"

fun lerp3 :: "f64 \<Rightarrow> vec3 \<Rightarrow> vec3 \<Rightarrow> vec3" where
  "lerp3 t (a1, a2, a3) (b1, b2, b3) = (lerp t a1 b1, lerp t a2 b2, lerp t a3 b3)"

definition lookup_interpolatable :: "datetime \<Rightarrow> propagation_cache \<Rightarrow> orbital_state option" where
  "lookup_interpolatable time c =
     (let window = num_seconds (pg_interpolation_window c)
      in case (btm_floor time (pg_entries c), btm_ceiling time (pg_entries c)) of
           (Some (t1, s1), Some (t2, s2)) \<Rightarrow>
             if \<bar>num_seconds (time - t1)\<bar> \<le> window \<and> \<bar>num_seconds (t2 - time)\<bar> \<le> window
             then (let t = fdiv (f64_of_int (num_seconds (time - t1)))
                                (f64_of_int (num_seconds (t2 - t1)))
                   in Some \<lparr>os_position = lerp3 t (os_position s1) (os_position s2),
                            os_velocity = lerp3 t (os_velocity s1) (os_velocity s2),
                            os_time = time, os_tle_epoch = os_tle_epoch s1\<rparr>)
             else None
         | (Some (t1, s1), None) \<Rightarrow>
             if \<bar>num_seconds (time - t1)\<bar> \<le> window then Some s1 else None
         | (None, Some (t2, s2)) \<Rightarrow>
             if \<bar>num_seconds (t2 - time)\<bar> \<le> window then Some s2 else None
         | (None, None) \<Rightarrow> None)"

definition propagation_cleanup :: "datetime \<Rightarrow> propagation_cache \<Rightarrow> propagation_cache" where
  "propagation_cleanup now c =
     c\<lparr>pg_entries := btm_retain (\<lambda>time _. now - time < pg_max_age c) (pg_entries c)\<rparr>"

definition lookup_or_compute :: "datetime \<Rightarrow> datetime \<Rightarrow> (datetime \<Rightarrow> orbital_state) \<Rightarrow>
    propagation_cache \<Rightarrow> orbital_state option \<times> propagation_cache" where
  "lookup_or_compute now time compute c =
     (let c1 = propagation_cleanup now c
      in case lookup_interpolatable time c1 of
           Some e \<Rightarrow> (Some e, c1)
         | None \<Rightarrow>
             (let e = compute time
              in (Some e, c1\<lparr>pg_entries := btm_insert time e (pg_entries c1)\<rparr>)))"

definition propagation_invalidate_all :: "propagation_cache \<Rightarrow> propagation_cache" where
  "propagation_invalidate_all c = c\<lparr>pg_entries := []\<rparr>"

record propagation_stats =
  ps_entry_count :: nat
  ps_oldest_entry :: "datetime option"
  ps_newest_entry :: "datetime option"

definition propagation_stats_of :: "propagation_cache \<Rightarrow> propagation_stats" where
  "propagation_stats_of c =
     \<lparr>ps_entry_count = length (pg_entries c),
      ps_oldest_entry = map_option fst (first_entry (pg_entries c)),
      ps_newest_entry = map_option fst (last_entry (pg_entries c))\<rparr>"


text \<open>Inputs of the witnesses.\<close>

definition sample_cache :: "(nat, nat) lru_cache" where
  "sample_cache =
     \<lparr>lc_entries = [1 \<mapsto> \<lparr>ce_value = 10, ce_last_accessed = 5, ce_created_at = 1\<rparr>,
                   2 \<mapsto> \<lparr>ce_value = 20, ce_last_accessed = 3, ce_created_at = 2\<rparr>],
      lc_max_size = 2\<rparr>"

definition sample_fragment :: "string \<Rightarrow> datetime \<Rightarrow> schedule_fragment" where
  "sample_fragment p t =
     \<lparr>sf_pass_ids = [PassId p], sf_committed_at = t, sf_immutable_until = t + 10, sf_hash = p\<rparr>"

definition sample_fragment_cache :: fragment_cache where
  "sample_fragment_cache =
     \<lparr>fc_fragments = [''a'' \<mapsto> sample_fragment ''a'' 1], fc_max_fragments = 1\<rparr>"

text \<open>An iteration order for the maps over two keys.\<close>

definition sample_order :: "(string \<rightharpoonup> schedule_fragment) \<Rightarrow> string list" where
  "sample_order m = filter (\<lambda>k. m k \<noteq> None) [''a'', ''b'']"

definition sample_orbit :: "datetime \<Rightarrow> orbital_state" where
  "sample_orbit t =
     \<lparr>os_position = (lit 1, lit 1, lit 1), os_velocity = (lit 0, lit 0, lit 0), os_time = t,
      os_tle_epoch = 0\<rparr>"

definition sample_propagation :: propagation_cache where
  "sample_propagation =
     \<lparr>pg_entries = [(5, sample_orbit 5)], pg_interpolation_window = 60000000000,
      pg_max_age = 1000000000000\<rparr>"

section \<open>Lemmas\<close>

subsection \<open>Maps with an iteration order\<close>

lemma entry_list_simps [simp]:
  "entry_list [] m = []"
  "entry_list (k # ks) m =
     (case m k of None \<Rightarrow> entry_list ks m | Some e \<Rightarrow> (k, e) # entry_list ks m)"
  by (simp_all add: entry_list_def List.map_filter_def split: option.splits)

lemma set_entry_list: "set (entry_list ks m) = {(k, e). k \<in> set ks \<and> m k = Some e}"
  by (induction ks) (auto split: option.splits)

lemma iter_order_card: "iter_order m ks \<Longrightarrow> finite (dom m) \<and> card (dom m) = length ks"
  by (metis List.finite_set distinct_card iter_order_def)

lemma sample_order_ok: "dom m \<subseteq> {''a'', ''b''} \<Longrightarrow> iter_order m (sample_order m)"
  by (auto simp: iter_order_def sample_order_def)

lemma map_retain_Some: "map_retain p m k = Some v \<longleftrightarrow> m k = Some v \<and> p k v"
  by (auto simp: map_retain_def split: option.splits)

lemma dom_map_retain: "dom (map_retain p m) \<subseteq> dom m"
  by (auto simp: dom_def map_retain_Some)

subsection \<open>The LRU cache\<close>

text \<open>The evicted entry is one that was accessed least recently.\<close>

lemma evict_lru_cases:
  assumes "iter_order (lc_entries c) ks"
  shows "ks = [] \<and> evict_lru ks c = c \<or>
    (\<exists>j e. lc_entries c j = Some e \<and>
       (\<forall>i f. lc_entries c i = Some f \<longrightarrow> ce_last_accessed e \<le> ce_last_accessed f) \<and>
       evict_lru ks c = c\<lparr>lc_entries := (lc_entries c)(j := None)\<rparr>)"
proof (cases "min_by_key (\<lambda>(k, e). ce_last_accessed e) (entry_list ks (lc_entries c))")
  case None
  then have "entry_list ks (lc_entries c) = []" by (simp add: min_by_key_None)
  moreover have "dom (lc_entries c) = set ks" using assms by (simp add: iter_order_def)
  ultimately have "ks = []" by (cases ks) (auto split: option.splits)
  with None show ?thesis by (simp add: evict_lru_def)
next
  case (Some x)
  obtain j e where x: "x = (j, e)" by (cases x)
  from min_by_key_Some [OF Some] x
  have mem: "lc_entries c j = Some e"
    and least: "\<forall>y \<in> set (entry_list ks (lc_entries c)). ce_last_accessed e \<le> (case y of (k, e) \<Rightarrow> ce_last_accessed e)"
    unfolding set_entry_list by simp_all
  have "ce_last_accessed e \<le> ce_last_accessed f" if "lc_entries c i = Some f" for i f
  proof -
    have "(i, f) \<in> set (entry_list ks (lc_entries c))"
      using that assms by (auto simp: set_entry_list iter_order_def)
    with least show ?thesis by fastforce
  qed
  with mem Some x show ?thesis by (auto simp: evict_lru_def)
qed

lemma card_dom_insert:
  "finite (dom m) \<Longrightarrow> card (dom (m(k \<mapsto> v))) \<le> Suc (card (dom m))"
  by (simp add: card_insert_if)

lemma card_dom_delete:
  "finite (dom m) \<Longrightarrow> card (dom (m(k := None))) \<le> card (dom m)"
  by (simp add: card_Diff1_le)

lemma lru_bounded_put:
  assumes inv: "lru_bounded n c" and ord: "iter_order (lc_entries c) ks"
  shows "lru_bounded n (lru_put ks t1 t2 k v c)"
proof (cases "n \<le> length ks")
  case False
  with inv iter_order_card [OF ord] have "Suc (card (dom (lc_entries c))) \<le> max 1 n"
    by (simp add: lru_bounded_def)
  with card_dom_insert [of "lc_entries c" k] inv False show ?thesis
    by (auto simp: lru_bounded_def lru_put_def intro: order_trans)
next
  case True
  have "finite (dom (lc_entries (evict_lru ks c))) \<and>
      Suc (card (dom (lc_entries (evict_lru ks c)))) \<le> max 1 n \<and>
      lc_max_size (evict_lru ks c) = n"
    using evict_lru_cases [OF ord]
  proof (elim disjE exE conjE)
    assume "ks = []" and "evict_lru ks c = c"
    with inv iter_order_card [OF ord] show ?thesis by (simp add: lru_bounded_def)
  next
    fix j e
    assume j: "lc_entries c j = Some e"
      and ev: "evict_lru ks c = c\<lparr>lc_entries := (lc_entries c)(j := None)\<rparr>"
    then have "j \<in> dom (lc_entries c)" by blast
    then have "Suc (card (dom (lc_entries c) - {j})) = card (dom (lc_entries c))"
      using inv by (intro card_Suc_Diff1) (auto simp: lru_bounded_def)
    with inv ev show ?thesis by (simp add: lru_bounded_def)
  qed
  moreover have "lc_max_size c = n" using inv by (simp add: lru_bounded_def)
  ultimately show ?thesis
    using card_dom_insert [of "lc_entries (evict_lru ks c)" k] True
    by (auto simp: lru_bounded_def lru_put_def Let_def intro: order_trans)
qed

lemma lru_bounded_get: "lru_bounded n c \<Longrightarrow> lru_bounded n (snd (lru_get now k c))"
  by (auto simp: lru_get_def lru_bounded_def insert_absorb domI split: option.splits)

lemma lru_bounded_remove: "lru_bounded n c \<Longrightarrow> lru_bounded n (snd (lru_remove k c))"
  using card_dom_delete [of "lc_entries c" k] by (auto simp: lru_remove_def lru_bounded_def)

lemma lru_bounded_clear: "lru_bounded n c \<Longrightarrow> lru_bounded n (lru_clear c)"
  by (simp add: lru_clear_def lru_bounded_def)

lemma lru_bounded_step: "lru_step c c' \<Longrightarrow> lru_bounded n c \<Longrightarrow> lru_bounded n c'"
  by (erule lru_step.cases)
    (simp_all only: lru_bounded_get lru_bounded_put lru_bounded_remove lru_bounded_clear)

interpretation lru: invariant_system "\<lambda>c. c = lru_new n" lru_step "lru_bounded n" for n
proof
  fix c :: "('a, 'b) lru_cache"
  assume "c = lru_new n"
  then show "lru_bounded n c" by (simp add: lru_bounded_def lru_new_def)
next
  fix c c' :: "('a, 'b) lru_cache"
  assume inv: "lru_bounded n c" and step: "lru_step c c'"
  show "lru_bounded n c'" by (rule lru_bounded_step [OF step inv])
qed

lemma lru_get_after_put:
  "fst (lru_get now k (lru_put ks t1 t2 k v c)) = Some v"
  by (simp add: lru_get_def lru_put_def Let_def)

subsection \<open>Pruning\<close>

text \<open>
  Each turn removes the oldest fragment, so the loop ends, keeps the fragments it does not remove,
  and removes nothing that is younger than a fragment it keeps.
\<close>

lemma oldest_dropped_refl: "oldest_dropped m m"
  by (simp add: oldest_dropped_def)

lemma oldest_dropped_Cons:
  assumes dropped: "oldest_dropped (m(h0 := None)) m'" and "m h0 = Some f0"
    and least: "\<And>f. f \<in> ran m \<Longrightarrow> sf_committed_at f0 \<le> sf_committed_at f"
  shows "oldest_dropped m m'"
proof -
  have sub: "m' \<subseteq>\<^sub>m m"
    using dropped [unfolded oldest_dropped_def, THEN conjunct1]
    by (rule map_le_trans) (simp add: map_le_def)
  have "sf_committed_at f \<le> sf_committed_at g"
    if "m h = Some f" "m' h = None" "m' k = Some g" for h f k g
  proof (cases "h = h0")
    case True
    from sub that(3) have "m k = Some g" by (metis domI map_le_def)
    then have "g \<in> ran m" by (rule ranI)
    with least True that(1) assms(2) show ?thesis by simp
  next
    case False
    with that(1) have "(m(h0 := None)) h = Some f" by simp
    with dropped that(2,3) show ?thesis unfolding oldest_dropped_def by blast
  qed
  with sub show ?thesis unfolding oldest_dropped_def by blast
qed

lemma prune_fragments_returns:
  assumes "finite (dom m)" and "keyed sf_hash m" and "\<And>m'. m' \<subseteq>\<^sub>m m \<Longrightarrow> iter_order m' (ord m')"
  shows "\<exists>m'. prune_fragments ord n m = Some m' \<and> card (dom m') \<le> n \<and> oldest_dropped m m'"
  using assms
proof (induction "card (dom m)" arbitrary: m rule: less_induct)
  case less
  note ord = less.prems(3) [OF map_le_refl]
  have len: "length (ord m) = card (dom m)" using iter_order_card [OF ord] by simp
  show ?case
  proof (cases "n < length (ord m)")
    case False
    with len show ?thesis by (subst prune_fragments.simps) (auto simp: oldest_dropped_refl)
  next
    case True
    then have "map_values m (ord m) \<noteq> []" using iter_order_length [OF ord] by auto
    then obtain f0 where f0: "min_by_key sf_committed_at (map_values m (ord m)) = Some f0"
      using min_by_key_None [of sf_committed_at "map_values m (ord m)"] by blast
    from min_by_key_Some [OF f0] iter_order_values [OF ord]
    have "f0 \<in> ran m" and least: "\<And>f. f \<in> ran m \<Longrightarrow> sf_committed_at f0 \<le> sf_committed_at f"
      by auto
    then obtain h where "m h = Some f0" by (auto simp: ran_def)
    with keyedD [OF less.prems(2)] have h0: "m (sf_hash f0) = Some f0" by blast
    define m1 where "m1 = m(sf_hash f0 := None)"
    have dom1: "dom m1 = dom m - {sf_hash f0}" by (auto simp: m1_def)
    have card1: "card (dom m1) < card (dom m)"
      using less.prems(1) h0 unfolding dom1 by (intro psubset_card_mono) blast+
    have "finite (dom m1)" using less.prems(1) dom1 by simp
    moreover have "keyed sf_hash m1" using less.prems(2) by (simp add: m1_def keyed_delete)
    moreover have "m1 \<subseteq>\<^sub>m m" by (simp add: m1_def map_le_def)
    then have "iter_order m' (ord m')" if "m' \<subseteq>\<^sub>m m1" for m'
      using less.prems(3) map_le_trans [OF that] by blast
    ultimately obtain m' where m': "prune_fragments ord n m1 = Some m'" "card (dom m') \<le> n"
      "oldest_dropped m1 m'"
      using less.hyps [OF card1] by blast
    have "oldest_dropped m m'" using m'(3) h0 least unfolding m1_def by (rule oldest_dropped_Cons)
    moreover have "prune_fragments ord n m = Some m'"
      using True f0 m'(1) by (subst prune_fragments.simps) (simp add: m1_def)
    ultimately show ?thesis using m'(2) by blast
  qed
qed

subsection \<open>Interpolation\<close>

lemma fmul_NaN [simp]: "fmul x NaN = NaN"
  by (cases x) auto

lemma fadd_NaN [simp]: "fadd x NaN = NaN"
  by (cases x) auto

lemma fsub_NaN [simp]: "fsub x NaN = NaN"
  by (simp add: fsub_def)

lemma lerp3_NaN: "lerp3 NaN a b = (NaN, NaN, NaN)"
  by (cases a; cases b) (simp add: lerp_def)

lemma zero_over_zero: "fdiv (f64_of_int 0) (f64_of_int 0) = NaN"
  by (simp add: f64_of_int_def of_exact_def)

lemma num_seconds_0 [simp]: "num_seconds 0 = 0"
  by (simp add: num_seconds_def trunc_div_def)

section \<open>Properties\<close>

text \<open>The LRU cache never holds more than its bound: after any sequence of lookups, insertions,
  removals and clears of a cache made with bound \<open>n\<close>, the number of entries is at most \<open>n\<close> (at most
  one where \<open>n\<close> is 0), whatever the iteration orders and clock readings.\<close>

theorem lru_size_bounded:
  assumes "reach (\<lambda>c. c = lru_new n) lru_step c"
  shows "card (dom (lc_entries c)) \<le> max 1 n"
  using lru.reach_inv [OF assms] by (simp add: lru_bounded_def)

lemma lru_size_bounded_witness:
  "card (dom (lc_entries (lru_put [] 1 2 (7::nat) (8::nat) (lru_new 0)))) \<le> max 1 0"
proof (rule lru_size_bounded)
  show "reach (\<lambda>c. c = lru_new 0) lru_step (lru_put [] 1 2 (7::nat) (8::nat) (lru_new 0))"
    by (rule reach_step [OF reach_self], rule step_put) (simp add: lru_new_def)
qed

text \<open>An insertion into a full LRU cache evicts one entry, and it is one that was accessed least
  recently: every entry that is gone afterwards (other than the overwritten one) was accessed no
  later than every entry that stays, and the inserted value is what the next lookup returns.\<close>

theorem lru_evicts_oldest:
  assumes "iter_order (lc_entries c) ks"
    and "lc_entries c i = Some e" and "lc_entries (lru_put ks t1 t2 k v c) i = None"
    and "lc_entries c j = Some f"
  shows "ce_last_accessed e \<le> ce_last_accessed f \<and>
    fst (lru_get now k (lru_put ks t1 t2 k v c)) = Some v"
  using assms evict_lru_cases [OF assms(1)]
  by (auto simp: lru_put_def lru_get_def Let_def split: if_splits)

lemma lru_evicts_oldest_witness:
  "ce_last_accessed (\<lparr>ce_value = 20, ce_last_accessed = 3, ce_created_at = 2\<rparr> :: nat lru_entry) \<le>
     ce_last_accessed (\<lparr>ce_value = 10, ce_last_accessed = 5, ce_created_at = 1\<rparr> :: nat lru_entry) \<and>
   fst (lru_get 9 3 (lru_put [1, 2] 6 6 3 30 sample_cache)) = Some 30"
proof (rule lru_evicts_oldest [where i = 2 and j = 1])
  show "iter_order (lc_entries sample_cache) [1, 2]"
    by (auto simp: iter_order_def sample_cache_def)
  show "lc_entries sample_cache 2 = Some \<lparr>ce_value = 20, ce_last_accessed = 3, ce_created_at = 2\<rparr>"
    by (simp add: sample_cache_def)
  show "lc_entries (lru_put [1, 2] 6 6 3 30 sample_cache) 2 = None"
    by (simp add: lru_put_def evict_lru_def sample_cache_def)
  show "lc_entries sample_cache 1 = Some \<lparr>ce_value = 10, ce_last_accessed = 5, ce_created_at = 1\<rparr>"
    by (simp add: sample_cache_def)
qed

text \<open>Adding a fragment always returns. From a cache whose fragments are filed under their own
  hashes, the pruning loop ends with at most the bound of fragments, all of them fragments that were
  there or the added one; what it removed was committed no later than what it kept.\<close>

theorem add_fragment_terminates:
  assumes "finite (dom (fc_fragments c))" and "keyed sf_hash (fc_fragments c)"
    and "\<And>m. m \<subseteq>\<^sub>m (fc_fragments c)(sf_hash f \<mapsto> f) \<Longrightarrow> iter_order m (ord m)"
  shows "\<exists>c'. add_fragment ord f c = Some c' \<and>
    card (dom (fc_fragments c')) \<le> fc_max_fragments c \<and>
    oldest_dropped ((fc_fragments c)(sf_hash f \<mapsto> f)) (fc_fragments c')"
proof -
  have "finite (dom ((fc_fragments c)(sf_hash f \<mapsto> f)))" using assms(1) by simp
  from prune_fragments_returns [OF this keyed_insert [OF assms(2)] assms(3), of "fc_max_fragments c"]
  obtain m' where "prune_fragments ord (fc_max_fragments c) ((fc_fragments c)(sf_hash f \<mapsto> f)) = Some m'"
    "card (dom m') \<le> fc_max_fragments c"
    "oldest_dropped ((fc_fragments c)(sf_hash f \<mapsto> f)) m'" by blast
  then show ?thesis by (simp add: add_fragment_def)
qed

lemma add_fragment_terminates_witness:
  "\<exists>c'. add_fragment sample_order (sample_fragment ''b'' 2) sample_fragment_cache = Some c' \<and>
    card (dom (fc_fragments c')) \<le> fc_max_fragments sample_fragment_cache \<and>
    oldest_dropped ((fc_fragments sample_fragment_cache)(sf_hash (sample_fragment ''b'' 2) \<mapsto>
      sample_fragment ''b'' 2)) (fc_fragments c')"
proof (rule add_fragment_terminates)
  show "finite (dom (fc_fragments sample_fragment_cache))"
    by (simp add: sample_fragment_cache_def)
  show "keyed sf_hash (fc_fragments sample_fragment_cache)"
    by (auto simp: sample_fragment_cache_def keyed_def sample_fragment_def split: if_splits)
  show "iter_order m (sample_order m)"
    if "m \<subseteq>\<^sub>m (fc_fragments sample_fragment_cache)(sf_hash (sample_fragment ''b'' 2) \<mapsto>
      sample_fragment ''b'' 2)" for m
    using that [THEN map_le_implies_dom_le]
    by (intro sample_order_ok) (auto simp: sample_fragment_cache_def sample_fragment_def)
qed

text \<open>A lookup at an instant that is in the cache does not return the cached state. The entry is
  its own predecessor and successor, the interpolation divides zero by zero, and the returned
  position and velocity are NaN in every coordinate.\<close>

theorem cached_instant_is_nan:
  assumes "btm_inv (pg_entries c)" and "btm_get time (pg_entries c) = Some s"
    and "0 \<le> num_seconds (pg_interpolation_window c)" and "now - time < pg_max_age c"
  shows "\<exists>r. fst (lookup_or_compute now time compute c) = Some r \<and>
    os_position r = (NaN, NaN, NaN) \<and> os_velocity r = (NaN, NaN, NaN)"
proof -
  define c1 where "c1 = propagation_cleanup now c"
  have inv: "btm_inv (pg_entries c1)" and get: "btm_get time (pg_entries c1) = Some s"
    using assms by (simp_all add: c1_def propagation_cleanup_def btm_inv_retain btm_get_retain)
  have "pg_interpolation_window c1 = pg_interpolation_window c"
    by (simp add: c1_def propagation_cleanup_def)
  then have "lookup_interpolatable time c1 =
      Some \<lparr>os_position = (NaN, NaN, NaN), os_velocity = (NaN, NaN, NaN), os_time = time,
            os_tle_epoch = os_tle_epoch s\<rparr>"
    using assms(3) by (simp add: lookup_interpolatable_def btm_floor_hit [OF inv get]
      btm_ceiling_hit [OF inv get] zero_over_zero lerp3_NaN Let_def)
  then show ?thesis by (simp add: lookup_or_compute_def c1_def Let_def)
qed

lemma cached_instant_is_nan_witness:
  "\<exists>r. fst (lookup_or_compute 6 5 sample_orbit sample_propagation) = Some r \<and>
    os_position r = (NaN, NaN, NaN) \<and> os_velocity r = (NaN, NaN, NaN)"
  by (rule cached_instant_is_nan [where s = "sample_orbit 5"])
    (simp_all add: sample_propagation_def btm_inv_Cons btm_get_def num_seconds_nonneg)

end
