(* ===== verification/Oisl_Types.thy ===== *)
theory Oisl_Types
  imports Core_Types F64 Bitemporal_Log
begin

text \<open>
  The types of the optical inter-satellite link control plane that its planes share
  (\<open>oisl/src/lib.rs\<close>), and the state of a link with its history (\<open>oisl/src/topology/link_state.rs\<close>).

  Identifiers of satellites, nodes, operators and tenants are strings, as in the code; those of
  intents, plans, tasks, links and terminals are UUIDs. The lemmas say what a confidence score and a
  time window are, and that the history of a link is gapless.
\<close>

section \<open>Definitions\<close>

subsection \<open>Shared types\<close>

type_synonym node_id = string
type_synonym terminal_id = uuid
type_synonym task_id = uuid
type_synonym link_id = uuid

datatype data_rate = DataRate (bits_per_second: u64)

datatype confidence_score = ConfidenceScore (confidence: f64)

text \<open>\<open>f64::clamp\<close>: a NaN stays a NaN.\<close>

definition fclamp :: "f64 \<Rightarrow> f64 \<Rightarrow> f64 \<Rightarrow> f64" where
  "fclamp lo hi x = (let y = (if flt x lo then lo else x) in if flt hi y then hi else y)"

definition confidence_new :: "f64 \<Rightarrow> confidence_score" where
  "confidence_new x = ConfidenceScore (fclamp (lit 0) (lit 1) x)"

definition confidence_is_high :: "confidence_score \<Rightarrow> bool" where
  "confidence_is_high c \<longleftrightarrow> fle (lit (8 / 10)) (confidence c)"

definition confidence_is_low :: "confidence_score \<Rightarrow> bool" where
  "confidence_is_low c \<longleftrightarrow> flt (confidence c) (lit (5 / 10))"

record time_window =
  tw_start :: datetime
  tw_end :: datetime

definition time_window_new :: "datetime \<Rightarrow> datetime \<Rightarrow> time_window" where
  "time_window_new a b = \<lparr>tw_start = a, tw_end = b\<rparr>"

definition tw_duration :: "time_window \<Rightarrow> duration" where
  "tw_duration w = tw_end w - tw_start w"

definition tw_contains :: "time_window \<Rightarrow> datetime \<Rightarrow> bool" where
  "tw_contains w t \<longleftrightarrow> tw_start w \<le> t \<and> t \<le> tw_end w"

definition tw_overlaps :: "time_window \<Rightarrow> time_window \<Rightarrow> bool" where
  "tw_overlaps w v \<longleftrightarrow> tw_start w < tw_end v \<and> tw_start v < tw_end w"

record geo_region =
  gr_name :: string
  gr_polygon :: "(f64 \<times> f64) list"

datatype sensor_type = SensorOptical | SensorSar | SensorInfrared | SensorHyperspectral

datatype isl_priority = IslCritical | IslHigh | IslMedium | IslLow | IslBackground

text \<open>The order of the priorities is that of their discriminants: \<open>Critical\<close> is the least.\<close>

fun isl_priority_rank :: "isl_priority \<Rightarrow> nat" where
  "isl_priority_rank IslCritical = 0"
| "isl_priority_rank IslHigh = 1"
| "isl_priority_rank IslMedium = 2"
| "isl_priority_rank IslLow = 3"
| "isl_priority_rank IslBackground = 4"

record bandwidth_allocation =
  ba_data_rate :: data_rate
  ba_valid_window :: time_window

record tracking_quality =
  tq_pointing_error_rad :: f64
  tq_signal_to_noise_db :: f64
  tq_lock_confidence :: confidence_score

datatype isl_degradation_reason =
    AtmosphericTurbulence | ThermalStress | PowerLimitation | MechanicalMisalignment | ClockDrift
  | VendorDegradation string

datatype loss_cause =
    PatTimeout | SignalDegraded | LossPower | MechanicalFailure | ClockDesync | VendorLoss string

datatype preemption_reason =
    HigherPriorityTask | EmergencyResponse | RegulatoryCompliance | ResourceExhaustion

record geometry_score =
  gs_pointing_angle_rad :: f64
  gs_doppler_shift_hz :: f64
  gs_range_km :: f64

text \<open>\<open>std::f64::consts::PI\<close>.\<close>

definition pi_f64 :: f64 where
  "pi_f64 = Fin False (884279719003555 / 281474976710656)"

definition overall_quality :: "geometry_score \<Rightarrow> f64" where
  "overall_quality g =
     (let angle_score = fsub (lit 1) (fmin (fdiv (gs_pointing_angle_rad g) pi_f64) (lit 1));
          doppler_score = fsub (lit 1) (fmin (fdiv (gs_doppler_shift_hz g) (lit 1000000)) (lit 1));
          range_score = fsub (lit 1) (fmin (fdiv (gs_range_km g) (lit 10000)) (lit 1))
      in fdiv (fadd (fadd angle_score doppler_score) range_score) (lit 3))"

subsection \<open>The state of a link\<close>

record peer_handshake =
  ph_peer_terminal :: terminal_id
  ph_handshake_timestamp :: datetime
  ph_handshake_signature :: bytes

datatype isl_fec_state = FecDisabled | FecEnabled | FecDegraded

datatype isl_link_phase =
    IslIdle
  | PatScheduled datetime
  | IslAcquiring "datetime bitemporal" "peer_handshake option"
  | IslTracking tracking_quality "datetime bitemporal"
  | IslCommunicating isl_fec_state data_rate
  | IslDegrading isl_degradation_reason "datetime option"
  | IslLost loss_cause "datetime bitemporal"

record isl_link_metrics =
  im_bit_error_rate :: f64
  im_signal_to_noise_db :: f64
  im_latency_ms :: u64
  im_throughput_bps :: u64
  im_power_watts :: f64
  im_temperature_c :: f64
  im_last_updated :: datetime

definition isl_link_metrics_default :: "datetime \<Rightarrow> isl_link_metrics" where
  "isl_link_metrics_default now =
     \<lparr>im_bit_error_rate = lit 0, im_signal_to_noise_db = lit 0, im_latency_ms = 0,
      im_throughput_bps = 0, im_power_watts = lit 0, im_temperature_c = lit 0,
      im_last_updated = now\<rparr>"

datatype phase_transition_trigger =
    TrigScheduled | TrigAcquisitionSuccess | TrigAcquisitionTimeout | TrigSignalDegraded
  | TrigSignalLost | TrigManualCommand | TrigPowerCycle | TrigError string

record phase_transition =
  pt_from_phase :: isl_link_phase
  pt_to_phase :: isl_link_phase
  pt_transition_time :: "datetime bitemporal"
  pt_trigger :: phase_transition_trigger

record active_link =
  al_link_id :: link_id
  al_endpoints :: "terminal_id \<times> terminal_id"
  al_phase :: isl_link_phase
  al_phase_history :: "phase_transition list"
  al_metrics :: isl_link_metrics

definition active_link_new :: "datetime \<Rightarrow> link_id \<Rightarrow> terminal_id \<times> terminal_id \<Rightarrow> active_link" where
  "active_link_new now i ends =
     \<lparr>al_link_id = i, al_endpoints = ends, al_phase = IslIdle, al_phase_history = [],
      al_metrics = isl_link_metrics_default now\<rparr>"

definition link_transition_to :: "datetime \<Rightarrow> isl_link_phase \<Rightarrow> phase_transition_trigger \<Rightarrow>
    active_link \<Rightarrow> active_link" where
  "link_transition_to now p tr l =
     l\<lparr>al_phase := p,
       al_phase_history := al_phase_history l @
         [\<lparr>pt_from_phase = al_phase l, pt_to_phase = p,
           pt_transition_time = bitemporal_new now (EventTime now) (ReceptionTime now),
           pt_trigger = tr\<rparr>]\<rparr>"

definition link_update_metrics :: "isl_link_metrics \<Rightarrow> active_link \<Rightarrow> active_link" where
  "link_update_metrics mx l = l\<lparr>al_metrics := mx\<rparr>"

definition link_current_phase :: "active_link \<Rightarrow> isl_link_phase" where
  "link_current_phase l = al_phase l"

fun phase_is_active :: "isl_link_phase \<Rightarrow> bool" where
  "phase_is_active (IslTracking q t) = True"
| "phase_is_active (IslCommunicating f r) = True"
| "phase_is_active _ = False"

definition link_is_active :: "active_link \<Rightarrow> bool" where
  "link_is_active l \<longleftrightarrow> phase_is_active (al_phase l)"

fun phase_is_lost :: "isl_link_phase \<Rightarrow> bool" where
  "phase_is_lost (IslLost c t) = True"
| "phase_is_lost _ = False"

definition link_is_failed :: "active_link \<Rightarrow> bool" where
  "link_is_failed l \<longleftrightarrow> phase_is_lost (al_phase l)"

inductive link_step :: "active_link \<Rightarrow> active_link \<Rightarrow> bool" where
  link_transition: "link_step l (link_transition_to now p tr l)"
| link_metrics: "link_step l (link_update_metrics mx l)"

fun phases_from :: "isl_link_phase \<Rightarrow> phase_transition list \<Rightarrow> isl_link_phase \<Rightarrow> bool" where
  "phases_from a [] b \<longleftrightarrow> a = b"
| "phases_from a (t # ts) b \<longleftrightarrow> pt_from_phase t = a \<and> phases_from (pt_to_phase t) ts b"

definition link_history_ok :: "active_link \<Rightarrow> bool" where
  "link_history_ok l \<longleftrightarrow> phases_from IslIdle (al_phase_history l) (al_phase l)"

section \<open>Lemmas\<close>

lemma not_flt_refl [simp]: "\<not> flt x x"
  using flt_asym by blast

lemma fclamp_bounds:
  assumes "x \<noteq> NaN" and "\<not> flt hi lo"
  shows "\<not> flt (fclamp lo hi x) lo \<and> \<not> flt hi (fclamp lo hi x)"
  using assms flt_asym [of hi x] by (auto simp: fclamp_def Let_def)

text \<open>A confidence score made of a number lies in the unit interval.\<close>

lemma confidence_in_unit_interval:
  assumes "x \<noteq> NaN"
  shows "\<not> flt (confidence (confidence_new x)) (lit 0) \<and> \<not> flt (lit 1) (confidence (confidence_new x))"
  using fclamp_bounds [OF assms, of "lit 1" "lit 0"] by (simp add: confidence_new_def)

text \<open>Two windows that contain instants overlap exactly when some instant lies inside both.\<close>

lemma tw_overlaps_comm: "tw_overlaps w v \<longleftrightarrow> tw_overlaps v w"
  by (auto simp: tw_overlaps_def)

lemma tw_overlaps_iff_inside:
  assumes "tw_start w < tw_end w" and "tw_start v < tw_end v"
  shows "tw_overlaps w v \<longleftrightarrow>
    (\<exists>t. tw_start w \<le> t \<and> t < tw_end w \<and> tw_start v \<le> t \<and> t < tw_end v)"
proof
  assume "tw_overlaps w v"
  with assms show "\<exists>t. tw_start w \<le> t \<and> t < tw_end w \<and> tw_start v \<le> t \<and> t < tw_end v"
    by (intro exI [of _ "max (tw_start w) (tw_start v)"]) (auto simp: tw_overlaps_def)
qed (auto simp: tw_overlaps_def)

text \<open>The quality of a geometry given by magnitudes lies in the unit interval.\<close>

definition geometry_sound :: "geometry_score \<Rightarrow> bool" where
  "geometry_sound g \<longleftrightarrow>
     fmag (gs_pointing_angle_rad g) \<and> fmag (gs_doppler_shift_hz g) \<and> fmag (gs_range_km g)"

lemma overall_quality_unit:
  assumes "geometry_sound g"
  shows "funit (overall_quality g)"
proof -
  have lits: "fmag pi_f64" "fmag (lit 1000000)" "fmag (lit 10000)"
    by (auto simp: fmag_def pi_f64_def lit_numeral intro!: exI [of _ "884279719003555 / 281474976710656"])
  let ?s1 = "fsub (lit 1) (fmin (fdiv (gs_pointing_angle_rad g) pi_f64) (lit 1))"
  let ?s2 = "fsub (lit 1) (fmin (fdiv (gs_doppler_shift_hz g) (lit 1000000)) (lit 1))"
  let ?s3 = "fsub (lit 1) (fmin (fdiv (gs_range_km g) (lit 10000)) (lit 1))"
  have s: "funit ?s1" "funit ?s2" "funit ?s3"
    using assms lits by (simp_all only: geometry_sound_def funit_score)
  then obtain a where "?s1 = Fin False a" "0 \<le> a" "a \<le> of_nat 1" by (auto simp: funit_def)
  from fadd_le_nat [OF this s(2)] obtain b where "fadd ?s1 ?s2 = Fin False b" "0 \<le> b" "b \<le> of_nat (Suc 1)"
    by auto
  from fadd_le_nat [OF this s(3)] obtain v where
    v: "fadd (fadd ?s1 ?s2) ?s3 = Fin False v" "0 \<le> v" "v \<le> 3" by auto
  then obtain q where "round_f64 False (v / 3) = Fin False q" "0 \<le> q" "q \<le> 1"
    using round_f64_le_1 [of "v / 3" False] by auto
  with v(1) show ?thesis
    by (simp add: overall_quality_def Let_def lit_numeral funit_def)
qed

lemma isl_priority_rank_inj: "isl_priority_rank p = isl_priority_rank q \<Longrightarrow> p = q"
  by (cases p; cases q) simp_all

lemma phases_from_snoc:
  "phases_from a (ts @ [t]) b \<longleftrightarrow> phases_from a ts (pt_from_phase t) \<and> pt_to_phase t = b"
  by (induction ts arbitrary: a) auto

lemma link_history_step: "link_step l l' \<Longrightarrow> link_history_ok l \<Longrightarrow> link_history_ok l'"
  by (erule link_step.cases)
    (simp_all add: link_history_ok_def link_transition_to_def link_update_metrics_def phases_from_snoc)

interpretation links: invariant_system "\<lambda>l. \<exists>now i ends. l = active_link_new now i ends" link_step
  link_history_ok
proof
  show "link_history_ok l" if "\<exists>now i ends. l = active_link_new now i ends" for l
    using that by (auto simp: link_history_ok_def active_link_new_def)
  show "link_history_ok l'" if "link_history_ok l" and "link_step l l'" for l l'
    using that(2,1) by (rule link_history_step)
qed

end
