(* ===== verification/Oisl_Topology.thy ===== *)
theory Oisl_Topology
  imports Oisl_Types Ordered_Map
begin

text \<open>
  The time-indexed forecast of the constellation graph (\<open>oisl/src/topology/forecast.rs\<close>).

  The snapshots are an ordered map from their times. A query between two snapshots returns the
  nearest one; the linear and the spline interpolation fall back to it, through a recursive call that
  changes the interpolation method first.
\<close>

section \<open>Definitions\<close>

datatype node_type = Satellite string | GroundStation string

record position3d =
  x_km :: f64
  y_km :: f64
  z_km :: f64

record velocity3d =
  vx_kms :: f64
  vy_kms :: f64
  vz_kms :: f64

record node_state =
  ns_node_id :: node_id
  ns_node_type :: node_type
  ns_position :: position3d
  ns_velocity :: velocity3d
  ns_optical_terminals :: "terminal_id list"

record potential_edge =
  pe_endpoints :: "node_id \<times> node_id"
  pe_visibility_window :: time_window
  pe_geometric_quality :: geometry_score
  pe_expected_capacity :: data_rate
  pe_atmospheric_attenuation :: "f64 option"
  pe_required_pointing_accuracy_rad :: f64

record graph_snapshot =
  sg_timestamp :: datetime
  sg_nodes :: "node_id \<rightharpoonup> node_state"
  sg_potential_edges :: "potential_edge list"
  sg_active_links :: "active_link list"

datatype topology_interpolation = LinearInterpolation | SplineInterpolation | NearestInterpolation

record topology_forecast =
  tf_horizon_start :: datetime
  tf_horizon_end :: datetime
  tf_snapshots :: "(datetime, graph_snapshot) btm"
  tf_interpolation :: topology_interpolation

record link_observation =
  lo_link_id :: link_id
  lo_observed_at :: datetime
  lo_observed_state :: isl_link_phase
  lo_observed_metrics :: "isl_link_metrics option"

record refinement_report =
  rr_observations_processed :: nat
  rr_snapshots_updated :: nat
  rr_forecast_confidence_delta :: f64

definition forecast_new :: "datetime \<Rightarrow> datetime \<Rightarrow> topology_forecast" where
  "forecast_new a b =
     \<lparr>tf_horizon_start = a, tf_horizon_end = b, tf_snapshots = [],
      tf_interpolation = LinearInterpolation\<rparr>"

text \<open>The distance of a snapshot from the time of a query, in milliseconds.\<close>

definition snapshot_delta :: "datetime \<Rightarrow> graph_snapshot \<Rightarrow> int" where
  "snapshot_delta t s = num_milliseconds \<bar>t - sg_timestamp s\<bar>"

definition nearest_snapshot :: "datetime \<Rightarrow> topology_forecast \<Rightarrow> graph_snapshot option" where
  "nearest_snapshot t f =
     (case (btm_floor t (tf_snapshots f), btm_ceiling t (tf_snapshots f)) of
        (Some (_, b), Some (_, a)) \<Rightarrow>
          if snapshot_delta t b < snapshot_delta t a then Some b else Some a
      | (Some (_, b), None) \<Rightarrow> Some b
      | (None, Some (_, a)) \<Rightarrow> Some a
      | (None, None) \<Rightarrow> None)"

function get_at :: "datetime \<Rightarrow> topology_forecast \<Rightarrow> graph_snapshot option" where
  "get_at t f =
     (case btm_get t (tf_snapshots f) of
        Some s \<Rightarrow> Some s
      | None \<Rightarrow>
          if tf_interpolation f = NearestInterpolation then nearest_snapshot t f
          else get_at t (f\<lparr>tf_interpolation := NearestInterpolation\<rparr>))"
  by pat_completeness auto
termination
  by (relation "measure (\<lambda>(t, f). if tf_interpolation f = NearestInterpolation then 0 else 1)") auto

declare get_at.simps [simp del]

definition query_at :: "datetime \<Rightarrow> topology_forecast \<Rightarrow> graph_snapshot" where
  "query_at t f =
     (case get_at t f of
        Some s \<Rightarrow> s
      | None \<Rightarrow> \<lparr>sg_timestamp = t, sg_nodes = Map.empty, sg_potential_edges = [],
                 sg_active_links = []\<rparr>)"

text \<open>The query over a window panics (\<open>None\<close>) when the window ends before it starts.\<close>

definition query_window :: "time_window \<Rightarrow> topology_forecast \<Rightarrow> graph_snapshot list option" where
  "query_window w f = map_option (map snd) (btm_range (tw_start w) (tw_end w) (tf_snapshots f))"

definition forecast_forecast :: "duration \<Rightarrow> duration \<Rightarrow> topology_forecast \<Rightarrow> topology_forecast" where
  "forecast_forecast horizon resolution f = f"

definition refine :: "link_observation list \<Rightarrow> topology_forecast \<Rightarrow>
    refinement_report \<times> topology_forecast" where
  "refine obs f =
     (\<lparr>rr_observations_processed = 0, rr_snapshots_updated = 0,
       rr_forecast_confidence_delta = lit 0\<rparr>, f)"

definition forecast_add_snapshot :: "graph_snapshot \<Rightarrow> topology_forecast \<Rightarrow> topology_forecast" where
  "forecast_add_snapshot s f = f\<lparr>tf_snapshots := btm_insert (sg_timestamp s) s (tf_snapshots f)\<rparr>"

definition horizon_duration :: "topology_forecast \<Rightarrow> duration" where
  "horizon_duration f = tf_horizon_end f - tf_horizon_start f"

text \<open>The snapshots are in order and each is filed under its own time.\<close>

definition forecast_ok :: "topology_forecast \<Rightarrow> bool" where
  "forecast_ok f \<longleftrightarrow> btm_inv (tf_snapshots f) \<and> (\<forall>(t, s) \<in> set (tf_snapshots f). sg_timestamp s = t)"

inductive forecast_step :: "topology_forecast \<Rightarrow> topology_forecast \<Rightarrow> bool" where
  forecast_step_add: "forecast_step f (forecast_add_snapshot s f)"
| forecast_step_refine: "forecast_step f (snd (refine obs f))"

definition empty_snapshot :: "datetime \<Rightarrow> graph_snapshot" where
  "empty_snapshot t =
     \<lparr>sg_timestamp = t, sg_nodes = Map.empty, sg_potential_edges = [], sg_active_links = []\<rparr>"

section \<open>Lemmas\<close>

lemma forecast_ok_step: "forecast_step f f' \<Longrightarrow> forecast_ok f \<Longrightarrow> forecast_ok f'"
proof (induction rule: forecast_step.induct)
  case (forecast_step_add f s)
  then show ?case
    using set_btm_insert_subset [of "sg_timestamp s" s "tf_snapshots f"]
    by (auto simp: forecast_ok_def forecast_add_snapshot_def btm_inv_insert)
next
  case (forecast_step_refine f obs)
  then show ?case by (simp add: refine_def)
qed

interpretation forecasts: invariant_system "\<lambda>f. \<exists>a b. f = forecast_new a b" forecast_step forecast_ok
proof
  show "forecast_ok f" if "\<exists>a b. f = forecast_new a b" for f
    using that by (auto simp: forecast_ok_def forecast_new_def)
  show "forecast_ok f'" if "forecast_ok f" and "forecast_step f f'" for f f'
    using that(2,1) by (rule forecast_ok_step)
qed

lemma get_at_nearest:
  "get_at t f = (case btm_get t (tf_snapshots f) of Some s \<Rightarrow> Some s | None \<Rightarrow> nearest_snapshot t f)"
  by (subst get_at.simps, subst get_at.simps)
    (auto simp: nearest_snapshot_def split: option.splits)

lemma get_at_mem:
  assumes "get_at t f = Some s"
  shows "s \<in> snd ` set (tf_snapshots f)"
proof (cases "btm_get t (tf_snapshots f)")
  case (Some s')
  with assms have "btm_get t (tf_snapshots f) = Some s" by (simp add: get_at_nearest)
  then have "(t, s) \<in> set (tf_snapshots f)" unfolding btm_get_def by (rule map_of_SomeD)
  then show ?thesis by force
next
  case None
  with assms have "nearest_snapshot t f = Some s" by (simp add: get_at_nearest)
  then consider k where "btm_floor t (tf_snapshots f) = Some (k, s)"
    | k where "btm_ceiling t (tf_snapshots f) = Some (k, s)"
    by (auto simp: nearest_snapshot_def split: option.splits if_splits)
  then show ?thesis
    by cases (force simp: btm_floor_def btm_ceiling_def dest!: last_entry_mem first_entry_mem)+
qed

lemma num_milliseconds_mono: "0 \<le> a \<Longrightarrow> a \<le> b \<Longrightarrow> num_milliseconds a \<le> num_milliseconds b"
  by (simp add: num_milliseconds_def trunc_div_nonneg zdiv_mono1)

text \<open>The snapshot of a query is one of the forecast and none is nearer, to the millisecond.\<close>

lemma get_at_is_nearest:
  assumes ok: "forecast_ok f" and got: "get_at t f = Some s"
  shows "s \<in> snd ` set (tf_snapshots f) \<and>
    (\<forall>r \<in> snd ` set (tf_snapshots f). snapshot_delta t s \<le> snapshot_delta t r)"
proof (cases "btm_get t (tf_snapshots f)")
  case (Some s')
  with got have s: "btm_get t (tf_snapshots f) = Some s" by (simp add: get_at_nearest)
  with ok have "(t, s) \<in> set (tf_snapshots f)" by (simp add: forecast_ok_def btm_get_iff)
  moreover from this ok have "snapshot_delta t s = 0"
    by (auto simp: forecast_ok_def snapshot_delta_def num_milliseconds_def trunc_div_def)
  moreover have "0 \<le> snapshot_delta t r" for r
    by (simp add: snapshot_delta_def num_milliseconds_def trunc_div_nonneg)
  ultimately show ?thesis by force
next
  case None
  with got have near: "nearest_snapshot t f = Some s" by (simp add: get_at_nearest)
  have inv: "btm_inv (tf_snapshots f)" using ok by (simp add: forecast_ok_def)
  have time: "sg_timestamp r = k" if "(k, r) \<in> set (tf_snapshots f)" for k r
    using that ok by (auto simp: forecast_ok_def)
  have floor: "snapshot_delta t b \<le> snapshot_delta t r"
    if "btm_floor t (tf_snapshots f) = Some (k, b)" "(j, r) \<in> set (tf_snapshots f)" "j \<le> t" for k b j r
    using btm_floor_Some [OF inv that(1)] that(2,3) time
    by (auto simp: snapshot_delta_def intro!: num_milliseconds_mono)
  have ceil: "snapshot_delta t a \<le> snapshot_delta t r"
    if "btm_ceiling t (tf_snapshots f) = Some (k, a)" "(j, r) \<in> set (tf_snapshots f)" "t \<le> j" for k a j r
    using btm_ceiling_Some [OF inv that(1)] that(2,3) time
    by (auto simp: snapshot_delta_def intro!: num_milliseconds_mono)
  show ?thesis
  proof (cases "btm_floor t (tf_snapshots f)")
    case floor_none: None
    with near obtain k where c: "btm_ceiling t (tf_snapshots f) = Some (k, s)"
      by (auto simp: nearest_snapshot_def split: option.splits)
    then have "snapshot_delta t s \<le> snapshot_delta t r" if "(j, r) \<in> set (tf_snapshots f)" for j r
      using ceil [OF c that] floor_none that by (force simp: btm_floor_None)
    with btm_ceiling_Some [OF inv c] show ?thesis by force
  next
    case (Some kb)
    obtain k b where fl: "btm_floor t (tf_snapshots f) = Some (k, b)" using Some by (cases kb) auto
    show ?thesis
    proof (cases "btm_ceiling t (tf_snapshots f)")
      case ceil_none: None
      with fl near have s: "s = b" by (simp add: nearest_snapshot_def)
      have "snapshot_delta t b \<le> snapshot_delta t r" if "(j, r) \<in> set (tf_snapshots f)" for j r
        using floor [OF fl that] ceil_none that by (force simp: btm_ceiling_None)
      with btm_floor_Some [OF inv fl] s show ?thesis by force
    next
      case (Some ka)
      obtain l a where ce: "btm_ceiling t (tf_snapshots f) = Some (l, a)" using Some by (cases ka) auto
      have "s = (if snapshot_delta t b < snapshot_delta t a then b else a)"
        using near fl ce by (auto simp: nearest_snapshot_def split: if_splits)
      moreover have "snapshot_delta t b \<le> snapshot_delta t r \<or> snapshot_delta t a \<le> snapshot_delta t r"
        if "(j, r) \<in> set (tf_snapshots f)" for j r
        using floor [OF fl that] ceil [OF ce that] by (cases "j \<le> t") auto
      ultimately show ?thesis
        using btm_floor_Some [OF inv fl] btm_ceiling_Some [OF inv ce] by (force split: if_splits)
    qed
  qed
qed

lemma get_at_None: "get_at t f = None \<longleftrightarrow> tf_snapshots f = []"
proof
  assume none: "get_at t f = None"
  then have "nearest_snapshot t f = None" by (simp add: get_at_nearest split: option.splits)
  then have "btm_floor t (tf_snapshots f) = None \<and> btm_ceiling t (tf_snapshots f) = None"
    by (auto simp: nearest_snapshot_def split: option.splits if_splits)
  then show "tf_snapshots f = []"
    by (cases "tf_snapshots f") (force simp: btm_floor_None btm_ceiling_None)+
next
  assume "tf_snapshots f = []"
  then show "get_at t f = None"
    by (simp add: get_at_nearest btm_get_def nearest_snapshot_def btm_floor_def btm_ceiling_def
      last_entry_def first_entry_def)
qed

section \<open>Properties\<close>

text \<open>A query of the forecast returns the nearest snapshot. In every forecast built by its
  operations, whatever the interpolation method, \<open>query_at\<close> returns a snapshot of the forecast whose
  distance from the queried time, in milliseconds, is least, and an empty graph exactly when the
  forecast has no snapshot.\<close>

theorem query_at_nearest:
  assumes "reach (\<lambda>f. \<exists>a b. f = forecast_new a b) forecast_step f"
  shows "(tf_snapshots f = [] \<and> query_at t f = empty_snapshot t) \<or>
    (query_at t f \<in> snd ` set (tf_snapshots f) \<and>
     (\<forall>r \<in> snd ` set (tf_snapshots f). snapshot_delta t (query_at t f) \<le> snapshot_delta t r))"
proof (cases "get_at t f")
  case None
  then have "tf_snapshots f = []" by (simp add: get_at_None)
  moreover have "query_at t f = empty_snapshot t"
    using None by (simp add: query_at_def empty_snapshot_def)
  ultimately show ?thesis by simp
next
  case (Some s)
  with get_at_is_nearest [OF forecasts.reach_inv [OF assms] Some] show ?thesis
    by (simp add: query_at_def)
qed

lemma query_at_nearest_witness:
  "let f = forecast_add_snapshot (empty_snapshot 5) (forecast_new 0 9) in
   (tf_snapshots f = [] \<and> query_at 3 f = empty_snapshot 3) \<or>
    (query_at 3 f \<in> snd ` set (tf_snapshots f) \<and>
     (\<forall>r \<in> snd ` set (tf_snapshots f). snapshot_delta 3 (query_at 3 f) \<le> snapshot_delta 3 r))"
  unfolding Let_def
proof (rule query_at_nearest)
  show "reach (\<lambda>f. \<exists>a b. f = forecast_new a b) forecast_step
      (forecast_add_snapshot (empty_snapshot 5) (forecast_new 0 9))"
    by (rule reach_step, rule reach_init, blast, rule forecast_step_add)
qed

end
