(* ===== verification/Best_First.thy ===== *)
theory Best_First
  imports Prelude
begin

text \<open>
  Best-first search, for the searches of the code that expand the cheapest open state first and
  visit every key once.

  A state has a key, a cost order \<open>le\<close> and successors. \<open>walk\<close> are the states reached by expanding
  without pruning; \<open>frontier_ok\<close> is the invariant of the pruned search: each visited key was visited by a
  cheapest walk, whose successors are visited or open. The interface \<open>best_first\<close> asks that
  successors depend on the key only, get dearer, and get dearer with their origin. It gives: the
  cheapest open state is a cheapest walk to any key that is not visited, and a search with no open
  state has visited every key that a walk reaches.
\<close>

section \<open>Definitions\<close>

inductive walk :: "('s \<Rightarrow> 's list) \<Rightarrow> 's \<Rightarrow> 's \<Rightarrow> bool"
  for expand :: "'s \<Rightarrow> 's list" and s0 :: 's where
  walk_start: "walk expand s0 s0"
| walk_step: "walk expand s0 s \<Longrightarrow> c \<in> set (expand s) \<Longrightarrow> walk expand s0 c"

definition settled :: "('s \<Rightarrow> 'k) \<Rightarrow> ('s \<Rightarrow> 's \<Rightarrow> bool) \<Rightarrow> ('s \<Rightarrow> 's list) \<Rightarrow> 's \<Rightarrow> 'k set \<Rightarrow>
    's multiset \<Rightarrow> 'k \<Rightarrow> 's \<Rightarrow> bool" where
  "settled key le expand s0 V H k d \<longleftrightarrow>
     key d = k \<and> walk expand s0 d \<and> (\<forall>w. walk expand s0 w \<longrightarrow> key w = k \<longrightarrow> le d w) \<and>
     (\<forall>c \<in> set (expand d). key c \<in> V \<or> c \<in># H)"

definition frontier_ok :: "('s \<Rightarrow> 'k) \<Rightarrow> ('s \<Rightarrow> 's \<Rightarrow> bool) \<Rightarrow> ('s \<Rightarrow> 's list) \<Rightarrow> 's \<Rightarrow> 'k set \<Rightarrow>
    's multiset \<Rightarrow> bool" where
  "frontier_ok key le expand s0 V H \<longleftrightarrow>
     (\<forall>k \<in> V. \<exists>d. settled key le expand s0 V H k d) \<and>
     (key s0 \<in> V \<or> s0 \<in># H) \<and> (\<forall>s \<in># H. walk expand s0 s)"

section \<open>Lemmas\<close>

lemma frontier_ok_start: "frontier_ok key le expand s0 {} {#s0#}"
  by (simp add: frontier_ok_def walk_start)

lemma settled_mono:
  "settled key le expand s0 V H k d \<Longrightarrow> (\<And>c. c \<in># H \<Longrightarrow> key c \<in> V' \<or> c \<in># H') \<Longrightarrow> V \<subseteq> V' \<Longrightarrow>
     settled key le expand s0 V' H' k d"
  unfolding settled_def by blast

text \<open>Dropping an open state whose key was visited.\<close>

lemma frontier_ok_skip:
  assumes "frontier_ok key le expand s0 V (add_mset s H)" and "key s \<in> V"
  shows "frontier_ok key le expand s0 V H"
proof -
  have "settled key le expand s0 V H k d" if "settled key le expand s0 V (add_mset s H) k d" for k d
    by (rule settled_mono [OF that]) (use assms(2) in auto)
  then have "\<forall>k \<in> V. \<exists>d. settled key le expand s0 V H k d"
    using assms(1) unfolding frontier_ok_def by blast
  with assms show ?thesis by (auto simp: frontier_ok_def)
qed

locale best_first =
  fixes key :: "'s \<Rightarrow> 'k"
    and le :: "'s \<Rightarrow> 's \<Rightarrow> bool"
    and expand :: "'s \<Rightarrow> 's list"
    and good :: "'s \<Rightarrow> bool"
  assumes le_refl: "good s \<Longrightarrow> le s s"
    and le_trans: "good s \<Longrightarrow> good t \<Longrightarrow> good u \<Longrightarrow> le s t \<Longrightarrow> le t u \<Longrightarrow> le s u"
    and good_expand: "good s \<Longrightarrow> c \<in> set (expand s) \<Longrightarrow> good c"
    and expand_ge: "good s \<Longrightarrow> c \<in> set (expand s) \<Longrightarrow> le s c"
    and expand_mono: "good s \<Longrightarrow> good t \<Longrightarrow> key s = key t \<Longrightarrow> le s t \<Longrightarrow>
      list_all2 (\<lambda>a b. key a = key b \<and> le a b) (expand s) (expand t)"
begin

lemma walk_good: "walk expand s0 s \<Longrightarrow> good s0 \<Longrightarrow> good s"
  by (induction rule: walk.induct) (auto intro: good_expand)

text \<open>Every walk to a key that is not visited is covered by an open state that is no dearer.\<close>

lemma covered:
  assumes "walk expand s0 w" and "good s0" and "frontier_ok key le expand s0 V H" and "key w \<notin> V"
  shows "\<exists>s \<in># H. key s \<notin> V \<and> le s w"
  using assms
proof (induction rule: walk.induct)
  case walk_start
  then show ?case by (auto simp: frontier_ok_def le_refl)
next
  case (walk_step s c)
  note good_s = walk_good [OF walk_step.hyps(1) walk_step.prems(1)]
  note good_c = good_expand [OF good_s walk_step.hyps(2)]
  show ?case
  proof (cases "key s \<in> V")
    case False
    with walk_step obtain h where h: "h \<in># H" "key h \<notin> V" "le h s" by blast
    then have "good h"
      using walk_step.prems by (auto simp: frontier_ok_def intro: walk_good)
    with h good_s good_c expand_ge [OF good_s walk_step.hyps(2)] show ?thesis
      by (blast intro: le_trans)
  next
    case True
    with walk_step.prems obtain d where d: "settled key le expand s0 V H (key s) d"
      by (auto simp: frontier_ok_def)
    then have "walk expand s0 d" "key d = key s" "le d s"
      using walk_step.hyps by (auto simp: settled_def)
    moreover from this have "good d" using walk_step.prems by (blast intro: walk_good)
    ultimately have "list_all2 (\<lambda>a b. key a = key b \<and> le a b) (expand d) (expand s)"
      using good_s by (intro expand_mono)
    then obtain c' where "c' \<in> set (expand d)" "key c' = key c" "le c' c"
      using walk_step.hyps(2) unfolding list_all2_conv_all_nth by (metis in_set_conv_nth)
    moreover from this d walk_step.prems have "c' \<in># H" by (metis settled_def)
    ultimately show ?thesis using walk_step.prems by metis
  qed
qed

lemma exhausted:
  assumes "frontier_ok key le expand s0 V {#}" and "good s0" and "walk expand s0 w"
  shows "key w \<in> V"
  using covered [OF assms(3,2,1)] by auto

text \<open>A cheapest open state is a cheapest walk to any key that is not visited yet.\<close>

lemma cheapest:
  assumes inv: "frontier_ok key le expand s0 V (add_mset s H)" and "good s0"
    and least: "\<And>t. t \<in># H \<Longrightarrow> le s t" and "walk expand s0 w" and "key w \<notin> V"
  shows "le s w"
proof -
  have mem: "walk expand s0 t" if "t \<in># add_mset s H" for t
    using inv that by (auto simp: frontier_ok_def)
  obtain t where t: "t \<in># add_mset s H" "le t w" using covered [OF assms(4,2) inv assms(5)] by auto
  have "good s" "good t" "good w"
    using mem t(1) assms(2,4) by (auto intro: walk_good)
  moreover have "le s t" using t(1) least le_refl [OF \<open>good s\<close>] by auto
  ultimately show ?thesis using t(2) by (blast intro: le_trans)
qed

lemma frontier_ok_visit:
  assumes inv: "frontier_ok key le expand s0 V (add_mset s H)" and "good s0"
    and least: "\<And>t. t \<in># H \<Longrightarrow> le s t" and fresh: "key s \<notin> V"
  shows "frontier_ok key le expand s0 (insert (key s) V) (H + mset (expand s))"
proof -
  let ?V = "insert (key s) V" and ?H = "H + mset (expand s)"
  have walk_s: "walk expand s0 s" using inv by (simp add: frontier_ok_def)
  have "settled key le expand s0 ?V ?H (key s) s"
    using walk_s cheapest [OF inv assms(2) least] fresh by (auto simp: settled_def)
  moreover have "settled key le expand s0 ?V ?H k d"
    if "settled key le expand s0 V (add_mset s H) k d" for k d
    using that by (rule settled_mono) auto
  then have "\<forall>k \<in> V. \<exists>d. settled key le expand s0 ?V ?H k d"
    using inv unfolding frontier_ok_def by blast
  moreover have "walk expand s0 c" if "c \<in> set (expand s)" for c
    using walk_s that by (rule walk_step)
  ultimately show ?thesis
    using inv unfolding frontier_ok_def by auto
qed

end

end
