(* ===== verification/Oisl_Mission.thy ===== *)
theory Oisl_Mission
  imports Oisl_Types
begin

text \<open>
  The mission plane's data (\<open>oisl/src/mission/mod.rs\<close>) and the live state of the constellation
  (\<open>oisl/src/mission/state_machine.rs\<close>).

  The trigonometric functions of binary64 are a parameter, since their results are not specified
  exactly; so is the order in which a hash map is iterated, and the rendering of a duration. The
  search for a ground station keeps the best score seen so far: it never returns a station that is
  unavailable, under more than 80 percent of clouds, or scored below another one.
\<close>

section \<open>Definitions\<close>

subsection \<open>Intents and plans\<close>

datatype objective_type =
    DataRelayObjective string string u64
  | ObservationObjective geo_region sensor_type duration
  | CustodyObjective string duration
  | DownlinkObjective string time_window

record intent_constraints =
  ic_max_latency :: "duration option"
  ic_min_throughput :: "u64 option"
  ic_allowed_regions :: "geo_region list option"
  ic_forbidden_regions :: "geo_region list option"
  ic_power_budget :: "f64 option"
  ic_thermal_limit :: "f64 option"

record service_level_agreement =
  sla_priority :: isl_priority
  sla_max_latency :: "duration option"
  sla_min_throughput :: "u64 option"
  sla_reliability_target :: "f64 option"
  sla_deadline :: "datetime option"

record mission_intent =
  mi_intent_id :: uuid
  mi_objective :: objective_type
  mi_constraints :: intent_constraints
  mi_sla :: service_level_agreement
  mi_submitted_by :: string
  mi_submitted_at :: "datetime bitemporal"

datatype compilation_error =
    NoFeasibleRoute string string
  | InsufficientResources string
  | UnsatisfiableConstraints string
  | DeadlineMissed u64 u64
  | InvalidIntent string
  | TopologyUnavailable duration
  | InternalError string

fun compilation_error_text :: "(duration \<Rightarrow> string) \<Rightarrow> compilation_error \<Rightarrow> string" where
  "compilation_error_text dbg (NoFeasibleRoute a b) =
     ''No feasible route found between '' @ a @ '' and '' @ b"
| "compilation_error_text dbg (InsufficientResources s) = ''Insufficient resources on satellite '' @ s"
| "compilation_error_text dbg (UnsatisfiableConstraints r) =
     ''Constraints cannot be satisfied: '' @ r"
| "compilation_error_text dbg (DeadlineMissed a b) =
     ''Intent deadline cannot be met: required '' @ show_nat (unat a) @ ''s, available '' @
     show_nat (unat b) @ ''s''"
| "compilation_error_text dbg (InvalidIntent m) = ''Invalid intent: '' @ m"
| "compilation_error_text dbg (TopologyUnavailable h) =
     ''Topology forecast unavailable for horizon '' @ dbg h"
| "compilation_error_text dbg (InternalError m) = ''Internal error: '' @ m"

datatype validation_warning_type =
    LowConfidenceRoute | ResourceContention | TimingMargin | RegulatoryConcern

datatype validation_severity = SeverityInfo | SeverityWarning | SeverityError

record validation_warning =
  vw_warning_type :: validation_warning_type
  vw_message :: string
  vw_severity :: validation_severity

datatype task_type =
    ObservationTask geo_region sensor_type
  | DownlinkTask string
  | OpticalLinkEstablishment terminal_id
  | DataRelayTask string string
  | DataTransferTask u64

record satellite_task =
  st_task_id :: task_id
  st_satellite_id :: string
  st_task_type :: task_type
  st_scheduled_window :: time_window
  st_dependencies :: "task_id list"
  st_priority :: isl_priority

record link_reservation =
  lr_link_id :: uuid
  lr_source :: string
  lr_destination :: string
  lr_terminal_a :: uuid
  lr_terminal_b :: uuid
  lr_time_window :: time_window
  lr_bandwidth :: bandwidth_allocation

record tasking_plan =
  tp_plan_id :: uuid
  tp_intent_id :: uuid
  tp_satellite_tasks :: "satellite_task list"
  tp_link_reservations :: "link_reservation list"
  tp_confidence :: confidence_score
  tp_compiled_at :: "datetime bitemporal"
  tp_valid_until :: datetime

subsection \<open>Explanations\<close>

record routing_decision =
  rd_source :: string
  rd_destination :: string
  rd_selected_route :: "string list"
  rd_alternative_routes :: "string list list"
  rd_rationale :: string

record allocation_decision =
  rad_satellite_id :: string
  rad_terminal_id :: terminal_id
  rad_task_id :: task_id
  rad_rationale :: string

datatype tradeoff_type = LatencyVsThroughput | PowerVsReliability | RouteComplexityVsResilience

record tradeoff_explanation =
  te_tradeoff_type :: tradeoff_type
  te_chosen_option :: string
  te_rejected_options :: "string list"
  te_rationale :: string

record plan_explanation =
  px_summary :: string
  px_routing_decisions :: "routing_decision list"
  px_resource_allocations :: "allocation_decision list"
  px_tradeoffs :: "tradeoff_explanation list"
  px_warnings :: "string list"

subsection \<open>The constellation\<close>

record orbital_position =
  op_latitude :: f64
  op_longitude :: f64
  op_altitude_km :: f64
  op_velocity_kms :: f64
  op_tle :: "string option"

datatype satellite_health = SatNominal | SatDegraded | SatCritical

datatype terminal_health = TermNominal | TermDegraded | TermOffline | TermFailed

text \<open>The vendor of a terminal is data of the physical plane.\<close>

record satellite_state =
  ss_satellite_id :: string
  ss_orbital_position :: orbital_position
  ss_optical_terminals :: "terminal_id list"
  ss_rf_terminals :: "terminal_id list"
  ss_health :: satellite_health
  ss_current_missions :: "task_id list"
  ss_last_updated :: "datetime bitemporal"

record 'v terminal_state =
  ts_terminal_id :: terminal_id
  ts_satellite_id :: string
  ts_vendor :: 'v
  ts_model :: string
  ts_current_link :: "link_id option"
  ts_available :: bool
  ts_health :: terminal_health
  ts_last_updated :: "datetime bitemporal"

record weather_conditions =
  wc_cloud_cover_percent :: f64
  wc_visibility_km :: f64
  wc_wind_speed_kmh :: f64
  wc_precipitation_mm :: "f64 option"

record ground_station_state =
  gst_station_id :: string
  gst_location :: "f64 \<times> f64"
  gst_optical_terminals :: "terminal_id list"
  gst_rf_terminals :: "terminal_id list"
  gst_availability :: "time_window list"
  gst_weather_conditions :: weather_conditions

record 'v constellation_state =
  cs_satellites :: "string \<rightharpoonup> satellite_state"
  cs_optical_terminals :: "terminal_id \<rightharpoonup> 'v terminal_state"
  cs_ground_stations :: "string \<rightharpoonup> ground_station_state"
  cs_current_version :: "datetime bitemporal"

definition now_stamp :: "datetime \<Rightarrow> datetime bitemporal" where
  "now_stamp now = bitemporal_new now (EventTime now) (ReceptionTime now)"

definition constellation_new :: "datetime \<Rightarrow> 'v constellation_state" where
  "constellation_new now =
     \<lparr>cs_satellites = Map.empty, cs_optical_terminals = Map.empty, cs_ground_stations = Map.empty,
      cs_current_version = now_stamp now\<rparr>"

text \<open>\<open>ts\<close> is the iteration order of the terminals.\<close>

definition resolve_asset :: "terminal_id list \<Rightarrow> string \<Rightarrow> 'v constellation_state \<Rightarrow> string option" where
  "resolve_asset ts asset c =
     (if cs_satellites c asset \<noteq> None then Some asset
      else map_option ts_satellite_id
        (List.find (\<lambda>t. show_uuid (ts_terminal_id t) = asset)
          (map_values (cs_optical_terminals c) ts)))"

text \<open>The trigonometric functions of the language.\<close>

record trig =
  f_sin :: "f64 \<Rightarrow> f64"
  f_cos :: "f64 \<Rightarrow> f64"
  f_acos :: "f64 \<Rightarrow> f64"
  f_to_radians :: "f64 \<Rightarrow> f64"
  f_to_degrees :: "f64 \<Rightarrow> f64"

definition elevation_score :: "f64 \<Rightarrow> f64" where
  "elevation_score deg =
     (if flt (lit 30) deg then lit 1 else if flt (lit 10) deg then lit (7 / 10) else lit (3 / 10))"

definition geometry_score_of :: "trig \<Rightarrow> orbital_position \<Rightarrow> f64 \<times> f64 \<Rightarrow> weather_conditions \<Rightarrow> f64" where
  "geometry_score_of tr pos loc w =
     (let lat = f_to_radians tr (fsub (op_latitude pos) (fst loc));
          lon = f_to_radians tr (fsub (op_longitude pos) (snd loc));
          elevation = f_acos tr (fadd (fmul (f_sin tr lat) (f_sin tr lat))
            (fmul (fmul (f_cos tr lat) (f_cos tr lat)) (f_cos tr lon)));
          e = elevation_score (f_to_degrees tr elevation);
          weather = fsub (lit 1) (fdiv (wc_cloud_cover_percent w) (lit 100))
      in fdiv (fadd e weather) (lit 2))"

definition station_usable :: "time_window \<Rightarrow> ground_station_state \<Rightarrow> bool" where
  "station_usable w g \<longleftrightarrow>
     (\<exists>a \<in> set (gst_availability g). tw_overlaps a w) \<and>
     \<not> flt (lit 80) (wc_cloud_cover_percent (gst_weather_conditions g))"

text \<open>The loop over the stations: the best station and its score so far.\<close>

fun best_station :: "(string \<Rightarrow> ground_station_state \<Rightarrow> f64 option) \<Rightarrow>
    (string \<times> ground_station_state) list \<Rightarrow> string option \<times> f64 \<Rightarrow> string option \<times> f64" where
  "best_station score [] best = best"
| "best_station score ((i, g) # gs) best =
     (case score i g of
        None \<Rightarrow> best_station score gs best
      | Some x \<Rightarrow> best_station score gs (if flt (snd best) x then (Some i, x) else best))"

definition station_score :: "trig \<Rightarrow> orbital_position \<Rightarrow> time_window \<Rightarrow> string \<Rightarrow>
    ground_station_state \<Rightarrow> f64 option" where
  "station_score tr pos w i g =
     (if station_usable w g
      then Some (geometry_score_of tr pos (gst_location g) (gst_weather_conditions g))
      else None)"

definition station_list :: "string list \<Rightarrow> 'v constellation_state \<Rightarrow>
    (string \<times> ground_station_state) list" where
  "station_list ks c = List.map_filter (\<lambda>k. map_option (Pair k) (cs_ground_stations c k)) ks"

definition find_optimal_ground_station :: "trig \<Rightarrow> string list \<Rightarrow> string \<Rightarrow> time_window \<Rightarrow>
    'v constellation_state \<Rightarrow> string option" where
  "find_optimal_ground_station tr ks sat w c =
     (case cs_satellites c sat of
        None \<Rightarrow> None
      | Some s \<Rightarrow>
          fst (best_station (station_score tr (ss_orbital_position s) w) (station_list ks c)
                 (None, lit 0)))"

definition update_satellite :: "datetime \<Rightarrow> string \<Rightarrow> satellite_state \<Rightarrow> 'v constellation_state \<Rightarrow>
    'v constellation_state" where
  "update_satellite now i s c =
     c\<lparr>cs_satellites := (cs_satellites c)(i \<mapsto> s\<lparr>ss_last_updated := now_stamp now\<rparr>),
       cs_current_version := now_stamp now\<rparr>"

definition update_terminal :: "datetime \<Rightarrow> terminal_id \<Rightarrow> 'v terminal_state \<Rightarrow> 'v constellation_state \<Rightarrow>
    'v constellation_state" where
  "update_terminal now i t c =
     c\<lparr>cs_optical_terminals := (cs_optical_terminals c)(i \<mapsto> t\<lparr>ts_last_updated := now_stamp now\<rparr>),
       cs_current_version := now_stamp now\<rparr>"

text \<open>Inputs of the witnesses.\<close>

definition sample_station :: ground_station_state where
  "sample_station =
     \<lparr>gst_station_id = ''gs'', gst_location = (lit 0, lit 0), gst_optical_terminals = [],
      gst_rf_terminals = [], gst_availability = [time_window_new 0 100],
      gst_weather_conditions =
        \<lparr>wc_cloud_cover_percent = lit 0, wc_visibility_km = lit 0, wc_wind_speed_kmh = lit 0,
         wc_precipitation_mm = None\<rparr>\<rparr>"

definition sample_sat_state :: satellite_state where
  "sample_sat_state =
     \<lparr>ss_satellite_id = ''s'',
      ss_orbital_position =
        \<lparr>op_latitude = lit 0, op_longitude = lit 0, op_altitude_km = lit 0, op_velocity_kms = lit 0,
         op_tle = None\<rparr>,
      ss_optical_terminals = [7], ss_rf_terminals = [], ss_health = SatNominal,
      ss_current_missions = [], ss_last_updated = now_stamp 0\<rparr>"

definition sample_constellation :: "unit constellation_state" where
  "sample_constellation =
     \<lparr>cs_satellites = [''s'' \<mapsto> sample_sat_state, ''r'' \<mapsto> sample_sat_state],
      cs_optical_terminals = Map.empty, cs_ground_stations = [''gs'' \<mapsto> sample_station],
      cs_current_version = now_stamp 0\<rparr>"

definition sample_trig :: trig where
  "sample_trig =
     \<lparr>f_sin = (\<lambda>x. lit 0), f_cos = (\<lambda>x. lit 1), f_acos = (\<lambda>x. lit 0), f_to_radians = (\<lambda>x. lit 0),
      f_to_degrees = (\<lambda>x. lit 40)\<rparr>"

section \<open>Lemmas\<close>

lemma station_list_simps [simp]:
  "station_list [] c = []"
  "station_list (k # ks) c =
     (case cs_ground_stations c k of None \<Rightarrow> station_list ks c | Some g \<Rightarrow> (k, g) # station_list ks c)"
  by (simp_all add: station_list_def List.map_filter_def split: option.splits)

lemma set_station_list: "set (station_list ks c) = {(k, g). k \<in> set ks \<and> cs_ground_stations c k = Some g}"
  by (induction ks) (auto split: option.splits)

text \<open>The score of the best station so far only grows, and bounds every score seen that is a number.\<close>

lemma best_station_ge_start:
  assumes "s \<noteq> NaN"
  shows "snd (best_station score gs (b, s)) \<noteq> NaN \<and> \<not> flt (snd (best_station score gs (b, s))) s"
  using assms
proof (induction gs arbitrary: b s)
  case Nil
  then show ?case by simp
next
  case (Cons ig gs)
  obtain i g where ig: "ig = (i, g)" by (cases ig)
  show ?case
  proof (cases "score i g")
    case None
    with Cons ig show ?thesis by simp
  next
    case (Some x)
    show ?thesis
    proof (cases "flt s x")
      case False
      with Cons Some ig show ?thesis by simp
    next
      case True
      then have "x \<noteq> NaN" by (cases s) auto
      from Cons.IH [OF this, of "Some i"]
      have "snd (best_station score gs (Some i, x)) \<noteq> NaN"
        and ge: "\<not> flt (snd (best_station score gs (Some i, x))) x" by auto
      moreover from not_flt_trans [OF \<open>x \<noteq> NaN\<close> ge flt_asym [OF True]]
      have "\<not> flt (snd (best_station score gs (Some i, x))) s" .
      ultimately show ?thesis using True Some ig by simp
    qed
  qed
qed

lemma best_station_result:
  assumes "s \<noteq> NaN" and "best_station score gs (b, s) = (r, t)"
  shows "(r = b \<and> t = s \<or> (\<exists>i g. r = Some i \<and> (i, g) \<in> set gs \<and> score i g = Some t \<and> flt s t)) \<and>
    (\<forall>(i, g) \<in> set gs. \<forall>x. score i g = Some x \<longrightarrow> \<not> flt t x)"
  using assms
proof (induction gs arbitrary: b s)
  case Nil
  then show ?case by simp
next
  case (Cons ig gs)
  obtain i g where ig: "ig = (i, g)" by (cases ig)
  show ?case
  proof (cases "score i g")
    case None
    with Cons.prems ig have "best_station score gs (b, s) = (r, t)" by simp
    from Cons.IH [OF Cons.prems(1) this] None ig show ?thesis by fastforce
  next
    case (Some x)
    show ?thesis
    proof (cases "flt s x")
      case False
      with Cons.prems Some ig have run: "best_station score gs (b, s) = (r, t)" by simp
      from best_station_ge_start [OF Cons.prems(1), of score gs b] run have "\<not> flt t s" by simp
      from not_flt_trans [OF Cons.prems(1) this False] have "\<not> flt t x" .
      with Cons.IH [OF Cons.prems(1) run] Some ig show ?thesis by fastforce
    next
      case True
      then have nx: "x \<noteq> NaN" by (cases s) auto
      from True Cons.prems Some ig have run: "best_station score gs (Some i, x) = (r, t)" by simp
      from best_station_ge_start [OF nx, of score gs "Some i"] run
      have t: "t \<noteq> NaN" "\<not> flt t x" by auto
      have "flt s t" by (rule flt_not_flt_trans [OF True t(2,1)])
      with t Cons.IH [OF nx run] Some ig show ?thesis by fastforce
    qed
  qed
qed

section \<open>Properties\<close>

text \<open>The ground station chosen for a downlink is a known station that is available for part of the
  window and not under more than 80 percent of clouds, its score is a positive number, and no usable
  station has a greater one, whatever the iteration order.\<close>

theorem ground_station_is_best:
  assumes "iter_order (cs_ground_stations c) ks" and "cs_satellites c sat = Some s"
    and "find_optimal_ground_station tr ks sat w c = Some i"
  shows "\<exists>g x. cs_ground_stations c i = Some g \<and> station_usable w g \<and>
    station_score tr (ss_orbital_position s) w i g = Some x \<and> flt (lit 0) x \<and>
    (\<forall>j h. cs_ground_stations c j = Some h \<and> station_usable w h \<longrightarrow>
       \<not> flt x (geometry_score_of tr (ss_orbital_position s) (gst_location h)
                  (gst_weather_conditions h)))"
proof -
  let ?score = "station_score tr (ss_orbital_position s) w"
  obtain r t where run: "best_station ?score (station_list ks c) (None, lit 0) = (r, t)"
    by (cases "best_station ?score (station_list ks c) (None, lit 0)")
  with assms(2,3) have r: "r = Some i" by (simp add: find_optimal_ground_station_def)
  have nan: "lit 0 \<noteq> NaN" by simp
  from best_station_result [OF nan run] r
  obtain g where g: "(i, g) \<in> set (station_list ks c)" "?score i g = Some t" and pos: "flt (lit 0) t"
    and best: "\<forall>(j, h) \<in> set (station_list ks c). \<forall>x. ?score j h = Some x \<longrightarrow> \<not> flt t x"
    by auto
  have "\<not> flt t (geometry_score_of tr (ss_orbital_position s) (gst_location h) (gst_weather_conditions h))"
    if "cs_ground_stations c j = Some h" "station_usable w h" for j h
  proof -
    have "(j, h) \<in> set (station_list ks c)"
      using that assms(1) by (auto simp: set_station_list iter_order_def)
    with best that show ?thesis by (auto simp: station_score_def)
  qed
  with g pos show ?thesis
    by (auto simp: set_station_list station_score_def split: if_splits)
qed

lemma ground_station_is_best_witness:
  "\<exists>g x. cs_ground_stations sample_constellation ''gs'' = Some g \<and>
    station_usable (time_window_new 10 20) g \<and>
    station_score sample_trig (ss_orbital_position sample_sat_state) (time_window_new 10 20) ''gs'' g =
      Some x \<and> flt (lit 0) x \<and>
    (\<forall>j h. cs_ground_stations sample_constellation j = Some h \<and>
       station_usable (time_window_new 10 20) h \<longrightarrow>
       \<not> flt x (geometry_score_of sample_trig (ss_orbital_position sample_sat_state) (gst_location h)
                  (gst_weather_conditions h)))"
proof (rule ground_station_is_best)
  show "iter_order (cs_ground_stations sample_constellation) [''gs'']"
    by (simp add: iter_order_def sample_constellation_def)
  show "cs_satellites sample_constellation ''s'' = Some sample_sat_state"
    by (simp add: sample_constellation_def)
  show "find_optimal_ground_station sample_trig [''gs''] ''s'' (time_window_new 10 20)
      sample_constellation = Some ''gs''"
  proof -
    have usable: "station_usable (time_window_new 10 20) sample_station"
      by (simp add: station_usable_def sample_station_def tw_overlaps_def time_window_new_def lit_numeral)
    have "geometry_score_of sample_trig (ss_orbital_position sample_sat_state)
        (gst_location sample_station) (gst_weather_conditions sample_station) = lit 1"
      by (simp add: geometry_score_of_def sample_trig_def sample_station_def elevation_score_def
        lit_numeral sample_sat_state_def fsub_def round_f64_numeral fadd_mag of_exact_def)
    with usable show ?thesis
      by (simp add: find_optimal_ground_station_def sample_constellation_def station_score_def
        sample_sat_state_def)
  qed
qed

end
