(* ===== verification/Binary_Heap.thy ===== *)
theory Binary_Heap
  imports Prelude "HOL-Library.Multiset"
begin

text \<open>
  The binary heap of the standard library, a parameter of the components that use one: its operations and the
  laws they document, the items as a multiset. \<open>ordered xs\<close> says that the comparison is an order on \<open>xs\<close>;
  without it nothing is promised about which item comes out.
\<close>

record ('a, 'h) heap_ops =
  heap_new :: 'h
  heap_push :: "'a \<Rightarrow> 'h \<Rightarrow> 'h"
  heap_pop :: "'h \<Rightarrow> ('a \<times> 'h) option"
  heap_items :: "'h \<Rightarrow> 'a multiset"

definition heap_laws :: "('a multiset \<Rightarrow> bool) \<Rightarrow> ('a \<Rightarrow> 'a \<Rightarrow> bool) \<Rightarrow> ('a, 'h) heap_ops \<Rightarrow> bool" where
  "heap_laws ordered lt ops \<longleftrightarrow>
     heap_items ops (heap_new ops) = {#} \<and>
     (\<forall>x h. heap_items ops (heap_push ops x h) = add_mset x (heap_items ops h)) \<and>
     (\<forall>h. heap_pop ops h = None \<longleftrightarrow> heap_items ops h = {#}) \<and>
     (\<forall>h x h'. heap_pop ops h = Some (x, h') \<longrightarrow>
        heap_items ops h = add_mset x (heap_items ops h') \<and>
        (ordered (heap_items ops h) \<longrightarrow> (\<forall>y \<in># heap_items ops h. \<not> lt x y)))"

lemma heap_items_pushes:
  "heap_laws ordered lt ops \<Longrightarrow>
     heap_items ops (fold (heap_push ops) xs h) = heap_items ops h + mset xs"
  by (induction xs arbitrary: h) (auto simp: heap_laws_def)

text \<open>A list that gives out its greatest item is such a heap, for a strict weak order.\<close>

fun pop_greatest :: "('a \<Rightarrow> 'a \<Rightarrow> bool) \<Rightarrow> 'a list \<Rightarrow> ('a \<times> 'a list) option" where
  "pop_greatest lt [] = None"
| "pop_greatest lt (x # xs) =
     (case pop_greatest lt xs of
        None \<Rightarrow> Some (x, xs)
      | Some (y, ys) \<Rightarrow> if lt x y then Some (y, x # ys) else Some (x, xs))"

definition plain_heap :: "('a \<Rightarrow> 'a \<Rightarrow> bool) \<Rightarrow> ('a, 'a list) heap_ops" where
  "plain_heap lt = \<lparr>heap_new = [], heap_push = Cons, heap_pop = pop_greatest lt, heap_items = mset\<rparr>"

lemma pop_greatest_None: "pop_greatest lt xs = None \<longleftrightarrow> xs = []"
  by (cases xs) (auto split: option.splits prod.splits)

lemma pop_greatest_Some:
  assumes asym: "\<And>a b. lt a b \<Longrightarrow> \<not> lt b a" and neg: "\<And>a b c. \<not> lt a b \<Longrightarrow> \<not> lt b c \<Longrightarrow> \<not> lt a c"
  shows "pop_greatest lt xs = Some (x, ys) \<Longrightarrow> mset xs = add_mset x (mset ys) \<and> (\<forall>y \<in> set xs. \<not> lt x y)"
proof (induction xs arbitrary: x ys)
  case (Cons a xs)
  show ?case
  proof (cases "pop_greatest lt xs")
    case None
    moreover have "\<not> lt a a" using asym [of a a] by blast
    ultimately show ?thesis using Cons.prems by (simp add: pop_greatest_None)
  next
    case (Some r)
    obtain y zs where r: "r = (y, zs)" by (cases r)
    with Some Cons.IH have m: "mset xs = add_mset y (mset zs)" "\<forall>z \<in> set xs. \<not> lt y z" by simp_all
    show ?thesis
    proof (cases "lt a y")
      case True
      with Cons.prems Some r have x: "x = y" "ys = a # zs" by simp_all
      have "\<not> lt y a" by (rule asym [OF True])
      with x m show ?thesis by simp
    next
      case False
      with Cons.prems Some r have x: "x = a" "ys = xs" by simp_all
      have "\<not> lt a a" using asym [of a a] by blast
      moreover have "\<forall>z \<in> set xs. \<not> lt a z" using m(2) neg [OF False] by blast
      ultimately show ?thesis using x by simp
    qed
  qed
qed simp

lemma plain_heap_laws:
  assumes "\<And>a b. lt a b \<Longrightarrow> \<not> lt b a" "\<And>a b c. \<not> lt a b \<Longrightarrow> \<not> lt b c \<Longrightarrow> \<not> lt a c"
  shows "heap_laws (\<lambda>_. True) lt (plain_heap lt)"
proof -
  have greatest: "mset h = add_mset x (mset h') \<and> (\<forall>y \<in> set h. \<not> lt x y)" if "pop_greatest lt h = Some (x, h')" for h x h'
    by (rule pop_greatest_Some [OF _ _ that]) (fact assms)+
  show ?thesis by (auto simp: heap_laws_def plain_heap_def pop_greatest_None dest: greatest)
qed

lemma heap_pop_size:
  assumes "heap_laws ordered lt ops" "heap_pop ops h = Some (x, h')"
  shows "heap_items ops h = add_mset x (heap_items ops h')" "size (heap_items ops h') < size (heap_items ops h)"
  using assms by (auto simp: heap_laws_def)

end
