(* ===== verification/Oisl_Routing.thy ===== *)
theory Oisl_Routing
  imports Oisl_Topology Oisl_Mission Caching Best_First Binary_Heap
begin

text \<open>
  The spatiotemporal router (\<open>oisl/src/topology/routing.rs\<close>): a search for a cheapest route through the
  forecast, where every hop takes 30 seconds, with a cache of the routes found.

  The binary heap of the standard library is a parameter with the laws it documents (\<open>heap_laws\<close>): the
  items come out with the greatest first, as far as the order is one. The loop is a partial function;
  \<open>None\<close> is a call that does not return or panics, which a hop out of the range of dates does.

  \<open>path_ok\<close> and \<open>path_cost\<close> are the specification: a path follows edges that are in the snapshot of its
  time and visible at it. The search returns for every forecast; it finds a path exactly when there is
  one within the latency; the one it returns is a cheapest when no edge has a negative cost.
\<close>

section \<open>Definitions\<close>

subsection \<open>Routes\<close>

datatype cost_score = CostScore (cost_value: f64)

record cost_model =
  cm_latency_weight :: f64
  cm_capacity_weight :: f64
  cm_reliability_weight :: f64
  cm_power_weight :: f64
  cm_pat_overhead_weight :: f64

definition cost_model_default :: cost_model where
  "cost_model_default =
     \<lparr>cm_latency_weight = lit (3 / 10), cm_capacity_weight = lit (2 / 10),
      cm_reliability_weight = lit (3 / 10), cm_power_weight = lit (1 / 10),
      cm_pat_overhead_weight = lit (1 / 10)\<rparr>"

record routed_hop =
  rh_edge :: potential_edge
  rh_use_window :: time_window
  rh_data_volume :: data_rate
  rh_bandwidth_reservation :: bandwidth_allocation

datatype route = Route
  (rt_hops: "routed_hop list")
  (rt_total_cost: cost_score)
  (rt_confidence: confidence_score)
  (rt_failure_recovery_paths: "route list")

datatype routing_error =
    NoRouteFound string string
  | RoutingTopologyUnavailable
  | ComputationFailed string
  | InvalidParameters string

fun routing_error_text :: "routing_error \<Rightarrow> string" where
  "routing_error_text (NoRouteFound a b) = ''No route found from '' @ a @ '' to '' @ b"
| "routing_error_text RoutingTopologyUnavailable = ''Topology forecast unavailable''"
| "routing_error_text (ComputationFailed m) = ''Route computation failed: '' @ m"
| "routing_error_text (InvalidParameters m) = ''Invalid route parameters: '' @ m"

record route_state =
  rs_cost :: f64
  rs_confidence :: confidence_score
  rs_current_node :: node_id
  rs_current_time :: datetime
  rs_hops :: "routed_hop list"
  rs_cost_model :: cost_model

text \<open>The order of the states is that of their costs, reversed; states with a NaN are equal to all.\<close>

definition route_state_less :: "route_state \<Rightarrow> route_state \<Rightarrow> bool" where
  "route_state_less s t \<longleftrightarrow> flt (rs_cost t) (rs_cost s)"

definition hop_cost :: "cost_model \<Rightarrow> potential_edge \<Rightarrow> f64" where
  "hop_cost cm e =
     (let latency_cost = fmul (cm_latency_weight cm) (lit (1 / 10));
          capacity_cost = fmul (cm_capacity_weight cm)
            (fdiv (lit 1) (fadd (f64_of_nat (unat (bits_per_second (pe_expected_capacity e)))) (lit 1)));
          reliability_cost = fmul (cm_reliability_weight cm)
            (fsub (lit 1) (overall_quality (pe_geometric_quality e)));
          pat_cost = fmul (cm_pat_overhead_weight cm) (pe_required_pointing_accuracy_rad e)
      in fadd (fadd (fadd latency_cost capacity_cost) reliability_cost) pat_cost)"

definition hop_seconds :: duration where
  "hop_seconds = duration_seconds 30"

definition edge_usable :: "route_state \<Rightarrow> potential_edge \<Rightarrow> bool" where
  "edge_usable s e \<longleftrightarrow> fst (pe_endpoints e) = rs_current_node s \<and>
     tw_contains (pe_visibility_window e) (rs_current_time s)"

definition make_hop :: "datetime \<Rightarrow> potential_edge \<Rightarrow> routed_hop" where
  "make_hop t e =
     \<lparr>rh_edge = e, rh_use_window = time_window_new t (t + hop_seconds), rh_data_volume = DataRate 0,
      rh_bandwidth_reservation =
        \<lparr>ba_data_rate = pe_expected_capacity e, ba_valid_window = time_window_new t (t + hop_seconds)\<rparr>\<rparr>"

definition take_edge :: "route_state \<Rightarrow> potential_edge \<Rightarrow> route_state" where
  "take_edge s e =
     \<lparr>rs_cost = fadd (rs_cost s) (hop_cost (rs_cost_model s) e),
      rs_confidence = confidence_new
        (fmul (confidence (rs_confidence s)) (overall_quality (pe_geometric_quality e))),
      rs_current_node = snd (pe_endpoints e), rs_current_time = rs_current_time s + hop_seconds,
      rs_hops = rs_hops s @ [make_hop (rs_current_time s) e], rs_cost_model = rs_cost_model s\<rparr>"

text \<open>The neighbours of a state, in the order in which they are pushed.\<close>

definition neighbours :: "topology_forecast \<Rightarrow> route_state \<Rightarrow> route_state list" where
  "neighbours topo s =
     map (take_edge s)
       (filter (edge_usable s) (sg_potential_edges (query_at (rs_current_time s) topo)))"

definition build_route :: "route_state \<Rightarrow> route" where
  "build_route s = Route (rs_hops s) (CostScore (rs_cost s)) (rs_confidence s) []"

definition hops_latency :: "routed_hop list \<Rightarrow> duration" where
  "hops_latency hs = sum_list (map (\<lambda>h. tw_duration (rh_use_window h)) hs)"

definition satisfies_constraints :: "route \<Rightarrow> intent_constraints \<Rightarrow> bool" where
  "satisfies_constraints r c =
     (case ic_max_latency c of None \<Rightarrow> True | Some l \<Rightarrow> hops_latency (rt_hops r) \<le> l)"

subsection \<open>The search\<close>

definition costs_are_numbers :: "route_state multiset \<Rightarrow> bool" where
  "costs_are_numbers H \<longleftrightarrow> (\<forall>s \<in># H. rs_cost s \<noteq> NaN)"

abbreviation route_heap :: "(route_state, 'h) heap_ops \<Rightarrow> bool" where
  "route_heap ops \<equiv> heap_laws costs_are_numbers route_state_less ops"

definition state_key :: "route_state \<Rightarrow> node_id \<times> datetime" where
  "state_key s = (rs_current_node s, rs_current_time s)"

definition initial_state :: "cost_model \<Rightarrow> topology_forecast \<Rightarrow> node_id \<Rightarrow> route_state" where
  "initial_state cm topo source =
     \<lparr>rs_cost = lit 0, rs_confidence = confidence_new (lit 1), rs_current_node = source,
      rs_current_time = tf_horizon_start topo, rs_hops = [], rs_cost_model = cm\<rparr>"

partial_function (option) search_loop :: "(route_state, 'h) heap_ops \<Rightarrow> chrono \<Rightarrow> topology_forecast \<Rightarrow>
    node_id \<Rightarrow> intent_constraints \<Rightarrow> (node_id \<times> datetime) set \<Rightarrow> 'h \<Rightarrow> route option option" where
  "search_loop ops ch topo dest c visited heap =
     (case heap_pop ops heap of
        None \<Rightarrow> Some None
      | Some (s, heap') \<Rightarrow>
          if state_key s \<in> visited then search_loop ops ch topo dest c visited heap'
          else if rs_current_node s = dest \<and> satisfies_constraints (build_route s) c
          then Some (Some (build_route s))
          else if neighbours topo s \<noteq> [] \<and> \<not> date_in_range ch (rs_current_time s + hop_seconds)
          then None
          else search_loop ops ch topo dest c (insert (state_key s) visited)
                 (fold (heap_push ops) (neighbours topo s) heap'))"

definition search :: "(route_state, 'h) heap_ops \<Rightarrow> chrono \<Rightarrow> cost_model \<Rightarrow> topology_forecast \<Rightarrow>
    node_id \<Rightarrow> node_id \<Rightarrow> intent_constraints \<Rightarrow> route option option" where
  "search ops ch cm topo source dest c =
     search_loop ops ch topo dest c {}
       (heap_push ops (initial_state cm topo source) (heap_new ops))"

subsection \<open>The router and its cache\<close>

type_synonym route_cache_key = "node_id \<times> node_id \<times> int"

record spatiotemporal_router =
  sr_forecast :: topology_forecast
  sr_cost_model :: cost_model
  sr_route_cache :: "(route_cache_key, route) lru_cache"

definition router_new :: "topology_forecast \<Rightarrow> cost_model \<Rightarrow> spatiotemporal_router" where
  "router_new topo cm = \<lparr>sr_forecast = topo, sr_cost_model = cm, sr_route_cache = lru_new 256\<rparr>"

text \<open>\<open>DateTime::timestamp\<close> rounds down; the division by the size of a bucket truncates.\<close>

definition timestamp :: "datetime \<Rightarrow> int" where
  "timestamp t = t div 1000000000"

definition route_cache_bucket_secs :: int where
  "route_cache_bucket_secs = 300"

definition route_cache_key :: "node_id \<Rightarrow> node_id \<Rightarrow> topology_forecast \<Rightarrow> route_cache_key" where
  "route_cache_key source dest topo =
     (source, dest, trunc_div (timestamp (tf_horizon_start topo)) route_cache_bucket_secs)"

text \<open>\<open>now\<close> is the clock when the cache is read, \<open>t1\<close> and \<open>t2\<close> when it is written; \<open>ks\<close> is the order of
  the cache's keys at the write.\<close>

definition compute_route :: "(route_state, 'h) heap_ops \<Rightarrow> chrono \<Rightarrow> datetime \<Rightarrow> datetime \<Rightarrow> datetime \<Rightarrow>
    route_cache_key list \<Rightarrow> node_id \<Rightarrow> node_id \<Rightarrow> topology_forecast \<Rightarrow> intent_constraints \<Rightarrow>
    service_level_agreement \<Rightarrow> spatiotemporal_router \<Rightarrow>
    ((routing_error + route) \<times> spatiotemporal_router) option" where
  "compute_route ops ch now t1 t2 ks source dest topo c sla r =
     (case lru_get now (route_cache_key source dest topo) (sr_route_cache r) of
        (Some cached, cache) \<Rightarrow> Some (Inr cached, r\<lparr>sr_route_cache := cache\<rparr>)
      | (None, cache) \<Rightarrow>
          (case search ops ch (sr_cost_model r) topo source dest c of
             None \<Rightarrow> None
           | Some None \<Rightarrow> Some (Inl (NoRouteFound source dest), r\<lparr>sr_route_cache := cache\<rparr>)
           | Some (Some route) \<Rightarrow>
               Some (Inr route,
                 r\<lparr>sr_route_cache :=
                     lru_put ks t1 t2 (route_cache_key source dest topo) route cache\<rparr>)))"

subsection \<open>Specification\<close>

text \<open>A path from a node and a time: each hop uses an edge of the snapshot of its time, out of the node
  where the path is, visible at that time, for 30 seconds.\<close>

fun path_ok :: "topology_forecast \<Rightarrow> node_id \<Rightarrow> datetime \<Rightarrow> routed_hop list \<Rightarrow> node_id \<Rightarrow> bool" where
  "path_ok topo n t [] d \<longleftrightarrow> n = d"
| "path_ok topo n t (h # hs) d \<longleftrightarrow>
     rh_edge h \<in> set (sg_potential_edges (query_at t topo)) \<and>
     fst (pe_endpoints (rh_edge h)) = n \<and> tw_contains (pe_visibility_window (rh_edge h)) t \<and>
     h = make_hop t (rh_edge h) \<and>
     path_ok topo (snd (pe_endpoints (rh_edge h))) (t + hop_seconds) hs d"

definition path_cost :: "cost_model \<Rightarrow> routed_hop list \<Rightarrow> f64" where
  "path_cost cm hs = foldl (\<lambda>x h. fadd x (hop_cost cm (rh_edge h))) (lit 0) hs"

definition latency_ok :: "intent_constraints \<Rightarrow> routed_hop list \<Rightarrow> bool" where
  "latency_ok c hs \<longleftrightarrow> (\<forall>l. ic_max_latency c = Some l \<longrightarrow> hops_latency hs \<le> l)"

definition forecast_edges :: "topology_forecast \<Rightarrow> potential_edge set" where
  "forecast_edges topo = (\<Union>(t, s) \<in> set (tf_snapshots topo). set (sg_potential_edges s))"

text \<open>No edge of the forecast has a negative cost or one that is not a number.\<close>

definition costs_ok :: "cost_model \<Rightarrow> topology_forecast \<Rightarrow> bool" where
  "costs_ok cm topo \<longleftrightarrow> (\<forall>e \<in> forecast_edges topo. fnonneg (hop_cost cm e))"

text \<open>Every edge can be taken, 30 seconds long, while it is visible, without leaving the range of dates.\<close>

definition dates_ok :: "chrono \<Rightarrow> topology_forecast \<Rightarrow> bool" where
  "dates_ok ch topo \<longleftrightarrow> (\<forall>e \<in> forecast_edges topo. \<forall>t.
     tw_contains (pe_visibility_window e) t \<longrightarrow> date_in_range ch (t + hop_seconds))"

text \<open>The search specification: a cheapest path within the latency, or none where there is none.\<close>

definition cheapest_path :: "cost_model \<Rightarrow> topology_forecast \<Rightarrow> node_id \<Rightarrow> node_id \<Rightarrow>
    intent_constraints \<Rightarrow> route \<Rightarrow> bool" where
  "cheapest_path cm topo source dest c r \<longleftrightarrow>
     path_ok topo source (tf_horizon_start topo) (rt_hops r) dest \<and> latency_ok c (rt_hops r) \<and>
     rt_total_cost r = CostScore (path_cost cm (rt_hops r)) \<and>
     (\<forall>hs. path_ok topo source (tf_horizon_start topo) hs dest \<and> latency_ok c hs \<longrightarrow>
        \<not> flt (path_cost cm hs) (path_cost cm (rt_hops r)))"

definition no_path :: "topology_forecast \<Rightarrow> node_id \<Rightarrow> node_id \<Rightarrow> intent_constraints \<Rightarrow> bool" where
  "no_path topo source dest c \<longleftrightarrow>
     (\<nexists>hs. path_ok topo source (tf_horizon_start topo) hs dest \<and> latency_ok c hs)"


text \<open>Costs are not negative where the weights, the geometry and the accuracy are magnitudes.\<close>

definition edge_sound :: "potential_edge \<Rightarrow> bool" where
  "edge_sound e \<longleftrightarrow> geometry_sound (pe_geometric_quality e) \<and> fmag (pe_required_pointing_accuracy_rad e)"

definition model_sound :: "cost_model \<Rightarrow> bool" where
  "model_sound cm \<longleftrightarrow> fmag (cm_latency_weight cm) \<and> fmag (cm_capacity_weight cm) \<and>
     fmag (cm_reliability_weight cm) \<and> fmag (cm_pat_overhead_weight cm)"

text \<open>Inputs of the witnesses: a heap on lists and a forecast of two edges.\<close>

fun pop_least :: "route_state list \<Rightarrow> (route_state \<times> route_state list) option" where
  "pop_least [] = None"
| "pop_least (x # xs) =
     (case pop_least xs of
        None \<Rightarrow> Some (x, [])
      | Some (y, ys) \<Rightarrow> if flt (rs_cost y) (rs_cost x) then Some (y, x # ys) else Some (x, y # ys))"

definition list_heap :: "(route_state, route_state list) heap_ops" where
  "list_heap = \<lparr>heap_new = [], heap_push = Cons, heap_pop = pop_least, heap_items = mset\<rparr>"

definition all_dates :: chrono where
  "all_dates = \<lparr>date_in_range = (\<lambda>_. True), duration_in_range = (\<lambda>_. True)\<rparr>"

definition sample_edge :: "node_id \<Rightarrow> node_id \<Rightarrow> potential_edge" where
  "sample_edge a b =
     \<lparr>pe_endpoints = (a, b), pe_visibility_window = time_window_new 0 1000000000000,
      pe_geometric_quality = \<lparr>gs_pointing_angle_rad = lit 0, gs_doppler_shift_hz = lit 0, gs_range_km = lit 0\<rparr>,
      pe_expected_capacity = DataRate 0, pe_atmospheric_attenuation = None,
      pe_required_pointing_accuracy_rad = lit 0\<rparr>"

definition sample_forecast :: topology_forecast where
  "sample_forecast =
     \<lparr>tf_horizon_start = 0, tf_horizon_end = 1000000000000,
      tf_snapshots = [(0, (empty_snapshot 0)\<lparr>sg_potential_edges :=
        [sample_edge ''a'' ''b'', sample_edge ''b'' ''c'']\<rparr>)],
      tf_interpolation = LinearInterpolation\<rparr>"

definition no_constraints :: intent_constraints where
  "no_constraints =
     \<lparr>ic_max_latency = None, ic_min_throughput = None, ic_allowed_regions = None,
      ic_forbidden_regions = None, ic_power_budget = None, ic_thermal_limit = None\<rparr>"

definition sample_sla :: service_level_agreement where
  "sample_sla =
     \<lparr>sla_priority = IslMedium, sla_max_latency = None, sla_min_throughput = None,
      sla_reliability_target = None, sla_deadline = None\<rparr>"

definition sample_router :: spatiotemporal_router where
  "sample_router = (router_new sample_forecast cost_model_default)\<lparr>sr_route_cache :=
     lru_put [] 1 1 (''a'', ''c'', 0) (Route [] (CostScore (lit 0)) (ConfidenceScore (lit 1)) []) (lru_new 256)\<rparr>"

section \<open>Lemmas\<close>

subsection \<open>Paths\<close>

lemma query_at_edges: "set (sg_potential_edges (query_at t topo)) \<subseteq> forecast_edges topo"
proof (cases "get_at t topo")
  case None
  then show ?thesis by (simp add: query_at_def)
next
  case (Some s)
  have "s \<in> snd ` set (tf_snapshots topo)" using Some by (rule get_at_mem)
  with Some show ?thesis by (force simp: query_at_def forecast_edges_def)
qed

lemma neighboursD:
  assumes "c \<in> set (neighbours topo s)"
  obtains e where "e \<in> set (sg_potential_edges (query_at (rs_current_time s) topo))"
    "e \<in> forecast_edges topo" "edge_usable s e" "c = take_edge s e"
  using assms query_at_edges by (auto simp: neighbours_def)

lemma path_ok_snoc:
  "path_ok topo n t (hs @ [h]) d \<longleftrightarrow>
     (\<exists>m. path_ok topo n t hs m \<and> path_ok topo m (t + int (length hs) * hop_seconds) [h] d)"
  by (induction hs arbitrary: n t) (auto simp: algebra_simps)

lemma path_cost_snoc: "path_cost cm (hs @ [h]) = fadd (path_cost cm hs) (hop_cost cm (rh_edge h))"
  by (simp add: path_cost_def)

lemma hops_latency_path:
  "path_ok topo n t hs d \<Longrightarrow> hops_latency hs = int (length hs) * hop_seconds"
proof (induction hs arbitrary: n t)
  case Nil
  then show ?case by (simp add: hops_latency_def)
next
  case (Cons h hs)
  from Cons.prems have h: "h = make_hop t (rh_edge h)"
    and tail: "path_ok topo (snd (pe_endpoints (rh_edge h))) (t + hop_seconds) hs d" by auto
  have "tw_duration (rh_use_window h) = hop_seconds"
    by (subst h) (simp add: make_hop_def tw_duration_def time_window_new_def)
  with Cons.IH [OF tail] show ?case by (simp add: hops_latency_def algebra_simps)
qed

lemma satisfies_build: "satisfies_constraints (build_route s) c \<longleftrightarrow> latency_ok c (rs_hops s)"
  by (simp add: satisfies_constraints_def build_route_def latency_ok_def split: option.splits)

text \<open>The states of the search without pruning are the paths from the source.\<close>

definition state_ok :: "cost_model \<Rightarrow> topology_forecast \<Rightarrow> node_id \<Rightarrow> route_state \<Rightarrow> bool" where
  "state_ok cm topo src s \<longleftrightarrow>
     path_ok topo src (tf_horizon_start topo) (rs_hops s) (rs_current_node s) \<and>
     rs_cost s = path_cost cm (rs_hops s) \<and> rs_cost_model s = cm \<and>
     rs_current_time s = tf_horizon_start topo + int (length (rs_hops s)) * hop_seconds"

lemma state_ok_take:
  assumes "state_ok cm topo src s" and "edge_usable s e"
    and "e \<in> set (sg_potential_edges (query_at (rs_current_time s) topo))"
  shows "state_ok cm topo src (take_edge s e)"
  using assms
  by (auto simp: state_ok_def take_edge_def path_ok_snoc path_cost_snoc edge_usable_def make_hop_def
    algebra_simps)

lemma walk_state_ok: "walk (neighbours topo) (initial_state cm topo src) s \<Longrightarrow> state_ok cm topo src s"
proof (induction rule: walk.induct)
  case walk_start
  then show ?case by (simp add: state_ok_def initial_state_def path_cost_def)
next
  case (walk_step s c)
  from walk_step.hyps(2) show ?case
    by (rule neighboursD) (use walk_step.IH in \<open>auto intro: state_ok_take\<close>)
qed

lemma path_is_walk:
  assumes "path_ok topo src (tf_horizon_start topo) hs d"
  shows "\<exists>s. walk (neighbours topo) (initial_state cm topo src) s \<and> rs_hops s = hs \<and> rs_current_node s = d"
  using assms
proof (induction hs arbitrary: d rule: rev_induct)
  case Nil
  then show ?case by (intro exI [of _ "initial_state cm topo src"]) (simp add: walk_start initial_state_def)
next
  case (snoc h hs)
  let ?t = "tf_horizon_start topo + int (length hs) * hop_seconds"
  from snoc.prems obtain m where m: "path_ok topo src (tf_horizon_start topo) hs m"
    and h: "path_ok topo m ?t [h] d" by (auto simp only: path_ok_snoc)
  from snoc.IH [OF m] obtain s where s: "walk (neighbours topo) (initial_state cm topo src) s"
    "rs_hops s = hs" "rs_current_node s = m" by blast
  with walk_state_ok [OF s(1)] have time: "rs_current_time s = ?t" by (simp add: state_ok_def)
  define c where "c = take_edge s (rh_edge h)"
  have "c \<in> set (neighbours topo s)"
    using h s(3) time by (auto simp: c_def neighbours_def edge_usable_def)
  then have "walk (neighbours topo) (initial_state cm topo src) c" by (rule walk_step [OF s(1)])
  moreover have "rs_hops c = hs @ [h]" using h s(2) time by (auto simp: c_def take_edge_def)
  moreover have "rs_current_node c = d" using h by (simp add: c_def take_edge_def)
  ultimately show ?case by blast
qed

subsection \<open>The keys of the search are finitely many\<close>

lemma finite_forecast_edges: "finite (forecast_edges topo)"
  by (auto simp: forecast_edges_def)

lemma finite_search_keys:
  "finite (state_key ` Collect (walk (neighbours topo) (initial_state cm topo src)))"
proof -
  let ?init = "initial_state cm topo src" and ?E = "forecast_edges topo"
  define t0 where "t0 = tf_horizon_start topo"
  define B where "B = Max (insert t0 ((\<lambda>e. tw_end (pe_visibility_window e) + hop_seconds) ` ?E))"
  define N where "N = insert src ((\<lambda>e. snd (pe_endpoints e)) ` ?E)"
  have fin: "finite (insert t0 ((\<lambda>e. tw_end (pe_visibility_window e) + hop_seconds) ` ?E))"
    using finite_forecast_edges by simp
  have "rs_current_node s \<in> N \<and> t0 \<le> rs_current_time s \<and> rs_current_time s \<le> B"
    if "walk (neighbours topo) ?init s" for s
    using that
  proof (induction rule: walk.induct)
    case walk_start
    have "t0 \<le> B" unfolding B_def using fin by (intro Max_ge) auto
    then show ?case by (simp add: initial_state_def N_def t0_def)
  next
    case (walk_step s c)
    obtain e where e: "e \<in> ?E" "edge_usable s e" "c = take_edge s e"
      by (rule neighboursD [OF walk_step.hyps(2)])
    then have "rs_current_time c \<le> tw_end (pe_visibility_window e) + hop_seconds"
      by (simp add: take_edge_def edge_usable_def tw_contains_def)
    also have "\<dots> \<le> B" unfolding B_def using fin e(1) by (intro Max_ge) auto
    finally show ?case
      using walk_step.IH e by (auto simp: take_edge_def N_def hop_seconds_def duration_seconds_def)
  qed
  then have "state_key ` Collect (walk (neighbours topo) ?init) \<subseteq> N \<times> {t0..B}"
    by (auto simp: state_key_def)
  moreover have "finite (N \<times> {t0..B})" using finite_forecast_edges by (simp add: N_def)
  ultimately show ?thesis by (rule finite_subset)
qed

subsection \<open>The loop\<close>

text \<open>
  The end of the loop, for an invariant \<open>I\<close> of the visited keys and the open states that implies that
  the open states are walks: the loop returns, either with no open state left, or at a state of the
  destination that satisfies the constraints.
\<close>

definition first_popped :: "route_state \<Rightarrow> route_state multiset \<Rightarrow> bool" where
  "first_popped s H \<longleftrightarrow>
     (costs_are_numbers (add_mset s H) \<longrightarrow> (\<forall>t \<in># H. \<not> flt (rs_cost t) (rs_cost s)))"

lemma neighbours_in_range:
  assumes "dates_ok ch topo" and "neighbours topo s \<noteq> []"
  shows "date_in_range ch (rs_current_time s + hop_seconds)"
proof -
  obtain e where "e \<in> forecast_edges topo" "edge_usable s e"
    using assms(2) neighboursD [of "hd (neighbours topo s)" topo s] by (metis hd_in_set)
  with assms(1) show ?thesis by (simp add: dates_ok_def edge_usable_def)
qed

lemma search_loop_returns:
  assumes heap_ok: "route_heap ops" and dates: "dates_ok ch topo"
    and walks: "\<And>V H s. I V H \<Longrightarrow> s \<in># H \<Longrightarrow> walk (neighbours topo) (initial_state cm topo src) s"
    and skip: "\<And>V H s. I V (add_mset s H) \<Longrightarrow> state_key s \<in> V \<Longrightarrow> I V H"
    and visit: "\<And>V H s. I V (add_mset s H) \<Longrightarrow> state_key s \<notin> V \<Longrightarrow> first_popped s H \<Longrightarrow>
      \<not> (rs_current_node s = dest \<and> latency_ok c (rs_hops s)) \<Longrightarrow>
      I (insert (state_key s) V) (H + mset (neighbours topo s))"
    and start: "I visited (heap_items ops heap)"
  shows "\<exists>r. search_loop ops ch topo dest c visited heap = Some r \<and>
    (r = None \<and> (\<exists>V. I V {#}) \<or>
     (\<exists>s V H. r = Some (build_route s) \<and> I V (add_mset s H) \<and> state_key s \<notin> V \<and>
        first_popped s H \<and> rs_current_node s = dest \<and> latency_ok c (rs_hops s)))"
proof -
  define U where "U = state_key ` Collect (walk (neighbours topo) (initial_state cm topo src))"
  have U: "finite U" unfolding U_def by (rule finite_search_keys)
  define R where "R = inv_image (less_than <*lex*> less_than)
    (\<lambda>(V, h). (card (U - V), size (heap_items ops h)))"
  have "wf R" unfolding R_def by (intro wf_inv_image wf_lex_prod wf_less_than)
  then show ?thesis using start
  proof (induction "(visited, heap)" arbitrary: visited heap rule: wf_induct_rule)
    case less
    show ?case
    proof (cases "heap_pop ops heap")
      case None
      with heap_ok have "heap_items ops heap = {#}" by (simp add: heap_laws_def)
      with less.prems have "I visited {#}" by simp
      with None show ?thesis by (subst search_loop.simps) auto
    next
      case (Some sh)
      then obtain s h where pop: "heap_pop ops heap = Some (s, h)" by (cases sh) auto
      with heap_ok have items: "heap_items ops heap = add_mset s (heap_items ops h)"
        and first: "first_popped s (heap_items ops h)"
        by (auto simp: heap_laws_def first_popped_def route_state_less_def)
      from less.prems items have inv: "I visited (add_mset s (heap_items ops h))" by simp
      have "walk (neighbours topo) (initial_state cm topo src) s" using walks [OF inv] by simp
      then have in_U: "state_key s \<in> U" by (auto simp: U_def)
      show ?thesis
      proof (cases "state_key s \<in> visited")
        case True
        have "((visited, h), visited, heap) \<in> R" by (simp add: R_def items)
        from less.hyps [OF this skip [OF inv True]] pop True show ?thesis
          by (subst search_loop.simps) simp
      next
        case fresh: False
        show ?thesis
        proof (cases "rs_current_node s = dest \<and> latency_ok c (rs_hops s)")
          case True
          with pop fresh inv first show ?thesis
            by (subst search_loop.simps) (auto simp: satisfies_build)
        next
          case False
          define h' where "h' = fold (heap_push ops) (neighbours topo s) h"
          have items': "heap_items ops h' = heap_items ops h + mset (neighbours topo s)"
            unfolding h'_def by (rule heap_items_pushes [OF heap_ok])
          have "card (U - insert (state_key s) visited) < card (U - visited)"
            using U in_U fresh by (intro psubset_card_mono) auto
          then have "((insert (state_key s) visited, h'), visited, heap) \<in> R" by (simp add: R_def)
          moreover have "I (insert (state_key s) visited) (heap_items ops h')"
            using visit [OF inv fresh first False] items' by simp
          moreover have "neighbours topo s = [] \<or> date_in_range ch (rs_current_time s + hop_seconds)"
            using neighbours_in_range [OF dates] by blast
          ultimately show ?thesis
            using less.hyps [of "insert (state_key s) visited" h'] pop fresh False
            by (subst search_loop.simps) (auto simp: satisfies_build h'_def)
        qed
      qed
    qed
  qed
qed

subsection \<open>Costs\<close>

definition no_dearer :: "route_state \<Rightarrow> route_state \<Rightarrow> bool" where
  "no_dearer s t \<longleftrightarrow> \<not> flt (rs_cost t) (rs_cost s)"

definition good_state :: "cost_model \<Rightarrow> topology_forecast \<Rightarrow> route_state \<Rightarrow> bool" where
  "good_state cm topo s \<longleftrightarrow> costs_ok cm topo \<and> rs_cost_model s = cm \<and> fnonneg (rs_cost s) \<and>
     rounded (rs_cost s)"

lemma take_edge_simps [simp]:
  "rs_cost (take_edge s e) = fadd (rs_cost s) (hop_cost (rs_cost_model s) e)"
  "rs_cost_model (take_edge s e) = rs_cost_model s"
  "state_key (take_edge s e) = (snd (pe_endpoints e), rs_current_time s + hop_seconds)"
  by (simp_all add: take_edge_def state_key_def)

interpretation route_search: best_first state_key no_dearer "neighbours topo" "good_state cm topo"
  for topo cm
proof
  show "no_dearer s s" for s by (simp add: no_dearer_def)
  show "no_dearer s u" if "good_state cm topo t" "no_dearer s t" "no_dearer t u" for s t u
    using that not_flt_trans [of "rs_cost t" "rs_cost u" "rs_cost s"]
    by (simp add: no_dearer_def good_state_def fnonneg_def)
  show "good_state cm topo c" if "good_state cm topo s" "c \<in> set (neighbours topo s)" for s c
    using that(2)
    by (rule neighboursD) (use that(1) in \<open>auto simp: good_state_def costs_ok_def rounded_fadd
      intro: fadd_nonneg\<close>)
  show "no_dearer s c" if "good_state cm topo s" "c \<in> set (neighbours topo s)" for s c
    using that(2)
    by (rule neighboursD) (use that(1) in \<open>auto simp: no_dearer_def good_state_def costs_ok_def
      dest: fadd_incr [rotated 2]\<close>)
next
  fix s t
  assume good: "good_state cm topo s" "good_state cm topo t" and key: "state_key s = state_key t"
    and le: "no_dearer s t"
  have "no_dearer (take_edge s e) (take_edge t e)" if "e \<in> forecast_edges topo" for e
    using good le that fadd_mono [of "rs_cost s" "rs_cost t" "hop_cost cm e"]
    by (auto simp: no_dearer_def good_state_def costs_ok_def)
  moreover have "edge_usable s = edge_usable t" and "rs_current_time s = rs_current_time t"
    using key by (auto simp: edge_usable_def state_key_def)
  ultimately show "list_all2 (\<lambda>a b. state_key a = state_key b \<and> no_dearer a b) (neighbours topo s)
      (neighbours topo t)"
    using query_at_edges [of "rs_current_time t" topo]
    by (auto simp: neighbours_def list_all2_map1 list_all2_map2 intro!: list.rel_refl_strong)
qed

lemma latency_of_key:
  assumes "state_ok cm topo src s" and "state_ok cm' topo src t" and "state_key s = state_key t"
  shows "latency_ok c (rs_hops s) \<longleftrightarrow> latency_ok c (rs_hops t)"
proof -
  have "int (length (rs_hops s)) * hop_seconds = int (length (rs_hops t)) * hop_seconds"
    using assms by (simp add: state_ok_def state_key_def)
  moreover have "hops_latency (rs_hops s) = int (length (rs_hops s)) * hop_seconds"
    "hops_latency (rs_hops t) = int (length (rs_hops t)) * hop_seconds"
    using assms by (auto simp: state_ok_def intro: hops_latency_path)
  ultimately have "hops_latency (rs_hops s) = hops_latency (rs_hops t)" by (simp only:)
  then show ?thesis by (simp add: latency_ok_def)
qed

text \<open>The invariant of the loop: cheapest walks, and no visited state is a result.\<close>

definition search_inv :: "cost_model \<Rightarrow> topology_forecast \<Rightarrow> node_id \<Rightarrow> node_id \<Rightarrow> intent_constraints \<Rightarrow>
    (node_id \<times> datetime) set \<Rightarrow> route_state multiset \<Rightarrow> bool" where
  "search_inv cm topo src dest c V H \<longleftrightarrow>
     frontier_ok state_key no_dearer (neighbours topo) (initial_state cm topo src) V H \<and>
     (\<forall>w. walk (neighbours topo) (initial_state cm topo src) w \<longrightarrow> state_key w \<in> V \<longrightarrow>
        rs_current_node w = dest \<longrightarrow> \<not> latency_ok c (rs_hops w))"

lemma good_initial: "costs_ok cm topo \<Longrightarrow> good_state cm topo (initial_state cm topo src)"
  by (simp add: good_state_def initial_state_def round_mag_def)

lemma frontier_walks:
  "frontier_ok state_key no_dearer (neighbours topo) s0 V H \<Longrightarrow> s \<in># H \<Longrightarrow> walk (neighbours topo) s0 s"
  by (auto simp: frontier_ok_def)

lemma search_inv_first:
  assumes "costs_ok cm topo" and "search_inv cm topo src dest c V (add_mset s H)" and "first_popped s H"
    and "t \<in># H"
  shows "no_dearer s t"
proof -
  note good = good_initial [OF assms(1), of src]
  have "rs_cost u \<noteq> NaN" if "u \<in># add_mset s H" for u
    using assms(2) that route_search.walk_good [OF _ good] frontier_walks
    by (force simp: search_inv_def good_state_def fnonneg_def)
  then have "costs_are_numbers (add_mset s H)" by (auto simp: costs_are_numbers_def)
  with assms(3,4) show ?thesis by (auto simp: first_popped_def no_dearer_def)
qed

lemma search_inv_visit:
  assumes costs: "costs_ok cm topo" and inv: "search_inv cm topo src dest c V (add_mset s H)"
    and fresh: "state_key s \<notin> V" and first: "first_popped s H"
    and no: "\<not> (rs_current_node s = dest \<and> latency_ok c (rs_hops s))"
  shows "search_inv cm topo src dest c (insert (state_key s) V) (H + mset (neighbours topo s))"
proof -
  let ?walk = "walk (neighbours topo) (initial_state cm topo src)"
  have frontier: "frontier_ok state_key no_dearer (neighbours topo) (initial_state cm topo src) V (add_mset s H)"
    using inv by (simp add: search_inv_def)
  note walk_s = frontier_walks [OF frontier, of s, simplified]
  have "frontier_ok state_key no_dearer (neighbours topo) (initial_state cm topo src)
      (insert (state_key s) V) (H + mset (neighbours topo s))"
    using frontier good_initial [OF costs] search_inv_first [OF costs inv first] fresh
    by (rule route_search.frontier_ok_visit)
  moreover have "\<not> latency_ok c (rs_hops w)"
    if "?walk w" "state_key w \<in> insert (state_key s) V" "rs_current_node w = dest" for w
  proof (cases "state_key w = state_key s")
    case True
    with latency_of_key [OF walk_state_ok [OF that(1)] walk_state_ok [OF walk_s]] that(3) no show ?thesis
      by (simp add: state_key_def)
  next
    case False
    with inv that show ?thesis by (simp add: search_inv_def)
  qed
  ultimately show ?thesis by (simp add: search_inv_def)
qed

lemma search_inv_skip:
  "search_inv cm topo src dest c V (add_mset s H) \<Longrightarrow> state_key s \<in> V \<Longrightarrow> search_inv cm topo src dest c V H"
  unfolding search_inv_def by (blast intro: frontier_ok_skip)

lemma heap_items_start:
  "heap_laws ordered lt ops \<Longrightarrow> heap_items ops (heap_push ops x (heap_new ops)) = {#x#}"
  by (simp add: heap_laws_def)

text \<open>The search, for any costs: it returns, and a route that it returns is a path within the latency.\<close>

lemma search_returns:
  assumes "route_heap ops" and "dates_ok ch topo"
  shows "\<exists>r. search ops ch cm topo src dest c = Some r \<and>
    (\<forall>route. r = Some route \<longrightarrow> path_ok topo src (tf_horizon_start topo) (rt_hops route) dest \<and>
       latency_ok c (rt_hops route) \<and>
       rt_total_cost route = CostScore (path_cost cm (rt_hops route)))"
proof -
  let ?I = "\<lambda>(V :: (node_id \<times> datetime) set) H. \<forall>s \<in># H. walk (neighbours topo) (initial_state cm topo src) s"
  have "\<exists>r. search ops ch cm topo src dest c = Some r \<and>
    (r = None \<and> (\<exists>V. ?I V {#}) \<or>
     (\<exists>s V H. r = Some (build_route s) \<and> ?I V (add_mset s H) \<and> state_key s \<notin> V \<and>
        first_popped s H \<and> rs_current_node s = dest \<and> latency_ok c (rs_hops s)))"
    unfolding search_def using assms
    by (rule search_loop_returns [where I = ?I])
      (auto simp: heap_items_start [OF assms(1)] intro: walk_start walk_step)
  then show ?thesis by (auto simp: build_route_def state_ok_def dest!: walk_state_ok)
qed

text \<open>With costs that are not negative it finds a cheapest route, or there is none.\<close>

lemma search_correct:
  assumes "route_heap ops" and "dates_ok ch topo" and costs: "costs_ok cm topo"
  shows "\<exists>r. search ops ch cm topo src dest c = Some r \<and>
    (case r of None \<Rightarrow> no_path topo src dest c | Some route \<Rightarrow> cheapest_path cm topo src dest c route)"
proof -
  let ?walk = "walk (neighbours topo) (initial_state cm topo src)"
  let ?I = "search_inv cm topo src dest c"
  note good = good_initial [OF costs, of src]
  have "\<exists>r. search ops ch cm topo src dest c = Some r \<and>
    (r = None \<and> (\<exists>V. ?I V {#}) \<or>
     (\<exists>s V H. r = Some (build_route s) \<and> ?I V (add_mset s H) \<and> state_key s \<notin> V \<and>
        first_popped s H \<and> rs_current_node s = dest \<and> latency_ok c (rs_hops s)))"
    unfolding search_def using assms(1,2)
  proof (rule search_loop_returns [where I = ?I])
    show "?walk s" if "?I V H" "s \<in># H" for V H s
      using that unfolding search_inv_def by (blast intro: frontier_walks)
    show "?I {} (heap_items ops (heap_push ops (initial_state cm topo src) (heap_new ops)))"
      by (simp add: heap_items_start [OF assms(1)] search_inv_def frontier_ok_start)
  qed (fact search_inv_skip search_inv_visit [OF costs])+
  then obtain r where run: "search ops ch cm topo src dest c = Some r"
    and res: "r = None \<and> (\<exists>V. ?I V {#}) \<or>
     (\<exists>s V H. r = Some (build_route s) \<and> ?I V (add_mset s H) \<and> state_key s \<notin> V \<and>
        first_popped s H \<and> rs_current_node s = dest \<and> latency_ok c (rs_hops s))" by blast
  from res show ?thesis
  proof (elim disjE conjE exE)
    fix V
    assume "r = None" and inv: "?I V {#}"
    have "\<not> latency_ok c hs" if path: "path_ok topo src (tf_horizon_start topo) hs dest" for hs
    proof -
      obtain w where w: "?walk w" "rs_hops w = hs" "rs_current_node w = dest"
        using path_is_walk [OF path] by blast
      with route_search.exhausted [OF _ good] inv show ?thesis unfolding search_inv_def by blast
    qed
    with run \<open>r = None\<close> show ?thesis by (auto simp: no_path_def)
  next
    fix s V H
    assume r: "r = Some (build_route s)" and inv: "?I V (add_mset s H)" and fresh: "state_key s \<notin> V"
      and first: "first_popped s H" and dest: "rs_current_node s = dest" "latency_ok c (rs_hops s)"
    have frontier: "frontier_ok state_key no_dearer (neighbours topo) (initial_state cm topo src) V (add_mset s H)"
      using inv by (simp add: search_inv_def)
    from frontier_walks [OF frontier, of s] have s: "state_ok cm topo src s"
      by (intro walk_state_ok) simp
    have "\<not> flt (path_cost cm hs) (rs_cost s)"
      if path: "path_ok topo src (tf_horizon_start topo) hs dest" and lat: "latency_ok c hs" for hs
    proof -
      obtain w where w: "?walk w" "rs_hops w = hs" "rs_current_node w = dest"
        using path_is_walk [OF path] by blast
      with inv lat have "state_key w \<notin> V" unfolding search_inv_def by blast
      with route_search.cheapest [OF frontier good search_inv_first [OF costs inv first] w(1)]
      have "no_dearer s w" by blast
      with walk_state_ok [OF w(1)] w(2) show ?thesis by (simp add: no_dearer_def state_ok_def)
    qed
    with s r run dest show ?thesis
      by (auto simp: cheapest_path_def build_route_def state_ok_def)
  qed
qed

subsection \<open>Costs that are not negative\<close>

lemma hop_cost_nonneg:
  assumes cm: "model_sound cm" and e: "edge_sound e"
  shows "fnonneg (hop_cost cm e)"
proof -
  have cap: "fmag (fdiv (lit 1) (fadd (f64_of_nat (unat (bits_per_second (pe_expected_capacity e)))) (lit 1)))"
    using unsigned_less [of "bits_per_second (pe_expected_capacity e)", where ?'a = nat]
    by (intro fmag_recip_succ) simp
  have tenth: "fmag (lit (1 / 10))" by (rule fmag_lit_small) simp_all
  have rel: "fmag (fsub (lit 1) (overall_quality (pe_geometric_quality e)))"
    using e overall_quality_unit funit_complement by (auto simp: edge_sound_def funit_fmag)
  from cm e cap tenth rel show ?thesis
    unfolding hop_cost_def Let_def model_sound_def edge_sound_def
    by (intro fadd_nonneg fmul_fmag) auto
qed

lemma costs_ok_sound:
  "model_sound cm \<Longrightarrow> \<forall>e \<in> forecast_edges topo. edge_sound e \<Longrightarrow> costs_ok cm topo"
  by (simp add: costs_ok_def hop_cost_nonneg)

lemma model_sound_default: "model_sound cost_model_default"
  by (simp add: model_sound_def cost_model_default_def fmag_lit_small)

subsection \<open>The sample inputs\<close>

lemma pop_least_None: "pop_least xs = None \<longleftrightarrow> xs = []"
  by (cases xs) (auto split: option.splits)

lemma pop_least_Some:
  "pop_least xs = Some (x, ys) \<Longrightarrow> mset xs = add_mset x (mset ys) \<and>
     ((\<forall>z \<in> set xs. rs_cost z \<noteq> NaN) \<longrightarrow> (\<forall>z \<in> set xs. \<not> flt (rs_cost z) (rs_cost x)))"
proof (induction xs arbitrary: x ys)
  case Nil
  then show ?case by simp
next
  case (Cons a xs)
  show ?case
  proof (cases "pop_least xs")
    case None
    with Cons.prems show ?thesis by (auto simp: pop_least_None)
  next
    case (Some q)
    then obtain y zs where q: "pop_least xs = Some (y, zs)" by (cases q) auto
    note IH = Cons.IH [OF q]
    show ?thesis
    proof (cases "flt (rs_cost y) (rs_cost a)")
      case True
      with Cons.prems q have "x = y" "ys = a # zs" by auto
      with IH flt_asym [OF True] show ?thesis by auto
    next
      case False
      with Cons.prems q have xs: "x = a" "ys = y # zs" by auto
      have "y \<in> set xs" using IH by (metis set_mset_mset union_single_eq_member)
      then have "\<not> flt (rs_cost z) (rs_cost a)"
        if "\<forall>z \<in> set (a # xs). rs_cost z \<noteq> NaN" "z \<in> set xs" for z
        using that IH not_flt_trans [of "rs_cost y" "rs_cost z" "rs_cost a"] False by auto
      with IH xs show ?thesis by auto
    qed
  qed
qed

lemma route_heap_list: "route_heap list_heap"
proof -
  have "mset xs = add_mset x (mset ys) \<and>
      (costs_are_numbers (mset xs) \<longrightarrow> (\<forall>y \<in># mset xs. \<not> route_state_less x y))"
    if "pop_least xs = Some (x, ys)" for xs x ys
  proof -
    note p = pop_least_Some [OF that]
    then have "set xs = insert x (set ys)" by (metis set_mset_mset set_mset_add_mset_insert)
    with p show ?thesis by (auto simp: costs_are_numbers_def route_state_less_def)
  qed
  then show ?thesis unfolding heap_laws_def list_heap_def
    by (intro conjI allI impI) (simp_all del: set_mset_mset add: pop_least_None)
qed

lemma forecast_edges_sample:
  "forecast_edges sample_forecast = {sample_edge ''a'' ''b'', sample_edge ''b'' ''c''}"
  by (simp add: forecast_edges_def sample_forecast_def)

lemma dates_ok_all: "dates_ok all_dates topo"
  by (simp add: dates_ok_def all_dates_def)

lemma costs_ok_sample: "costs_ok cost_model_default sample_forecast"
  by (rule costs_ok_sound)
    (auto simp: model_sound_default forecast_edges_sample edge_sound_def sample_edge_def geometry_sound_def fmag_def)

section \<open>Properties\<close>

text \<open>C16: the router always answers: for every forecast whose visible edges stay in the range of dates,
  every source, destination and constraint and every state of the cache, \<open>compute_route\<close> returns, also
  when weights or geometries are negative or NaN. The search ends because every hop moves 30 seconds on,
  edges are taken only while visible, and each node is expanded once at each time.\<close>

theorem compute_route_terminates:
  assumes "route_heap ops" and "dates_ok ch topo"
  shows "\<exists>res r'. compute_route ops ch now t1 t2 ks source dest topo c sla r = Some (res, r')"
proof -
  obtain x where "search ops ch (sr_cost_model r) topo source dest c = Some x"
    using search_returns [OF assms, of "sr_cost_model r" source dest c] by blast
  then show ?thesis
    by (auto simp: compute_route_def split: prod.splits option.splits)
qed

lemma compute_route_terminates_witness:
  "\<exists>res r'. compute_route list_heap all_dates 1 2 3 [] ''a'' ''c'' sample_forecast no_constraints sample_sla
     (router_new sample_forecast cost_model_default) = Some (res, r')"
  by (rule compute_route_terminates [OF route_heap_list dates_ok_all])

text \<open>C15: on a cache miss, when no edge of the forecast has a negative cost, the router returns a cheapest route exactly
  when there is one. The returned route is a path from the source to the destination over edges that are in the forecast
  and visible when they are used, within the latency; its cost is that of its hops, and no path within the latency costs
  less, in binary64 arithmetic; \<open>NoRouteFound\<close> means that there is no such path. The route that is returned is in the
  cache afterwards, under the key of the query, at any later time; when there is none the cache is left as it was.\<close>

theorem fresh_route_is_cheapest:
  assumes "route_heap ops" and "dates_ok ch topo" and "costs_ok (sr_cost_model r) topo"
    and "fst (lru_get now (route_cache_key source dest topo) (sr_route_cache r)) = None"
    and "compute_route ops ch now t1 t2 ks source dest topo c sla r = Some (res, r')"
  shows "(case res of
      Inl e \<Rightarrow> e = NoRouteFound source dest \<and> no_path topo source dest c \<and> r' = r
    | Inr route \<Rightarrow> cheapest_path (sr_cost_model r) topo source dest c route \<and>
        fst (lru_get later (route_cache_key source dest topo) (sr_route_cache r')) = Some route) \<and>
    sr_cost_model r' = sr_cost_model r \<and> sr_forecast r' = sr_forecast r"
proof -
  obtain x where x: "search ops ch (sr_cost_model r) topo source dest c = Some x"
    and ok: "case x of None \<Rightarrow> no_path topo source dest c
      | Some route \<Rightarrow> cheapest_path (sr_cost_model r) topo source dest c route"
    using search_correct [OF assms(1-3), of source dest c] by blast
  have "lru_get now (route_cache_key source dest topo) (sr_route_cache r) = (None, sr_route_cache r)"
    using assms(4) by (simp add: lru_get_def split: option.splits)
  with assms(5) x ok show ?thesis
    by (auto simp: compute_route_def lru_get_after_put split: option.splits)
qed

lemma fresh_route_is_cheapest_witness:
  "\<exists>res r'. compute_route list_heap all_dates 1 2 3 [] ''a'' ''c'' sample_forecast no_constraints sample_sla
       (router_new sample_forecast cost_model_default) = Some (res, r') \<and>
     (case res of
        Inl e \<Rightarrow> no_path sample_forecast ''a'' ''c'' no_constraints
      | Inr route \<Rightarrow> cheapest_path cost_model_default sample_forecast ''a'' ''c'' no_constraints route \<and>
          fst (lru_get 9 (route_cache_key ''a'' ''c'' sample_forecast) (sr_route_cache r')) = Some route)"
proof -
  let ?r = "router_new sample_forecast cost_model_default"
  have cm: "sr_cost_model ?r = cost_model_default" by (simp add: router_new_def)
  obtain x where x: "search list_heap all_dates cost_model_default sample_forecast ''a'' ''c'' no_constraints = Some x"
    using search_returns [OF route_heap_list dates_ok_all] by blast
  have miss: "fst (lru_get 1 (route_cache_key ''a'' ''c'' sample_forecast) (sr_route_cache ?r)) = None"
    by (simp add: router_new_def lru_new_def lru_get_def)
  have "\<exists>res r'. compute_route list_heap all_dates 1 2 3 [] ''a'' ''c'' sample_forecast no_constraints
      sample_sla ?r = Some (res, r')"
    using x miss cm by (auto simp: compute_route_def split: prod.splits option.splits)
  then obtain res r' where run: "compute_route list_heap all_dates 1 2 3 [] ''a'' ''c'' sample_forecast
      no_constraints sample_sla ?r = Some (res, r')" by blast
  have "costs_ok (sr_cost_model ?r) sample_forecast" using cm costs_ok_sample by simp
  from fresh_route_is_cheapest [OF route_heap_list dates_ok_all this miss run, of 9, THEN conjunct1] run
  show ?thesis unfolding cm by (auto split: sum.splits)
qed

text \<open>A cached route is returned whatever is asked of it. Once a route is in the cache, every query
  for the same source and destination whose forecast starts in the same bucket of 300 seconds gets it,
  whatever the new forecast and constraints are: also a route that violates the maximum latency of the
  query, or uses edges that are not in its forecast.\<close>

theorem cached_route_ignores_query:
  assumes "lc_entries (sr_route_cache r) (route_cache_key source dest topo) = Some e"
    and "route_cache_key source dest topo' = route_cache_key source dest topo"
  shows "\<exists>r'. compute_route ops ch now t1 t2 ks source dest topo' c sla r = Some (Inr (ce_value e), r') \<and>
    sr_route_cache r' = snd (lru_get now (route_cache_key source dest topo) (sr_route_cache r))"
  using assms by (simp add: compute_route_def lru_get_def)

lemma cached_route_ignores_query_witness:
  "\<exists>r'. compute_route list_heap all_dates 5 6 7 [] ''a'' ''c'' (forecast_new 0 9)
      (no_constraints\<lparr>ic_max_latency := Some 0\<rparr>) sample_sla sample_router =
      Some (Inr (Route [] (CostScore (lit 0)) (ConfidenceScore (lit 1)) []), r') \<and>
    sr_route_cache r' = snd (lru_get 5 (route_cache_key ''a'' ''c'' sample_forecast)
      (sr_route_cache sample_router))"
proof -
  have key: "route_cache_key ''a'' ''c'' sample_forecast = (''a'', ''c'', 0)"
    by (simp add: route_cache_key_def sample_forecast_def timestamp_def route_cache_bucket_secs_def trunc_div_def)
  have "lc_entries (sr_route_cache sample_router) (route_cache_key ''a'' ''c'' sample_forecast) =
      Some \<lparr>ce_value = Route [] (CostScore (lit 0)) (ConfidenceScore (lit 1)) [], ce_last_accessed = 1,
        ce_created_at = 1\<rparr>"
    by (simp add: key sample_router_def lru_put_def Let_def)
  moreover have "route_cache_key ''a'' ''c'' (forecast_new 0 9) = route_cache_key ''a'' ''c'' sample_forecast"
    by (simp add: key) (simp add: route_cache_key_def forecast_new_def timestamp_def
      route_cache_bucket_secs_def trunc_div_def)
  ultimately show ?thesis
    using cached_route_ignores_query [of sample_router "''a''" "''c''" sample_forecast _ "forecast_new 0 9"]
    by fastforce
qed

end
