(* ===== verification/Oisl_Tasking.thy ===== *)
theory Oisl_Tasking
  imports Oisl_Mission
begin

text \<open>
  The scheduler of satellite tasks (\<open>oisl/src/mission/scheduler.rs\<close>).

  \<open>schedule\<close> takes tasks from the front of the queue, places those whose dependencies are scheduled
  and puts the others back at the end. The loop is a partial function: \<open>None\<close> is a call that does not
  return, \<open>Some None\<close> one that panics because a date is out of range. \<open>ord\<close> gives the order in which the hash map
  of the scheduled tasks is iterated.

  \<open>resolvable\<close> says that the queued tasks can be placed one after the other; then the loop returns.
  \<open>stuck\<close> says that no queued task can be placed; then it does not.
\<close>

section \<open>Definitions\<close>

record scheduled_task =
  sd_task :: satellite_task
  sd_scheduled_start :: datetime
  sd_scheduled_end :: datetime
  sd_dependencies_satisfied :: bool

datatype tasking_conflict_type =
    TerminalContention terminal_id "task_id list"
  | TimingOverlap "task_id list"
  | SatelliteExhausted string

datatype resolution_strategy = PrioritizeBySLA | DelayLowerPriority | SplitTask | RejectTask

record conflict_resolution =
  cr_conflict_type :: tasking_conflict_type
  cr_resolution :: resolution_strategy
  cr_affected_tasks :: "task_id list"

record tasking_scheduler =
  ts_task_queue :: "satellite_task list"
  ts_scheduled_tasks :: "task_id \<rightharpoonup> scheduled_task"
  ts_resource_conflicts :: "conflict_resolution list"

datatype schedule_error =
    WindowExceeded task_id duration duration
  | DependencyNotSatisfied task_id
  | TaskResourceConflict string

fun schedule_error_text :: "(duration \<Rightarrow> string) \<Rightarrow> schedule_error \<Rightarrow> string" where
  "schedule_error_text dbg (WindowExceeded i r a) =
     ''Task '' @ show_uuid i @ '' cannot fit in window: required '' @ dbg r @ '', available '' @ dbg a"
| "schedule_error_text dbg (DependencyNotSatisfied i) =
     ''Dependency not satisfied for task '' @ show_uuid i"
| "schedule_error_text dbg (TaskResourceConflict m) = ''Resource conflict: '' @ m"

definition tasking_new :: tasking_scheduler where
  "tasking_new = \<lparr>ts_task_queue = [], ts_scheduled_tasks = Map.empty, ts_resource_conflicts = []\<rparr>"

definition tasking_enqueue :: "satellite_task \<Rightarrow> tasking_scheduler \<Rightarrow> tasking_scheduler" where
  "tasking_enqueue t s = s\<lparr>ts_task_queue := ts_task_queue s @ [t]\<rparr>"

text \<open>A data transfer is estimated at 1 Gbps, in binary64, truncated to seconds.\<close>

definition transfer_seconds :: "u64 \<Rightarrow> int" where
  "transfer_seconds volume =
     f64_to_i64 (fdiv (f64_of_nat (unat volume)) (fdiv (lit 1000000000) (lit 8)))"

fun task_duration :: "task_type \<Rightarrow> duration" where
  "task_duration (OpticalLinkEstablishment _) = duration_seconds 30"
| "task_duration (DataTransferTask volume) = duration_seconds (transfer_seconds volume)"
| "task_duration (ObservationTask _ _) = duration_seconds 300"
| "task_duration (DownlinkTask _) = duration_seconds 600"
| "task_duration (DataRelayTask _ _) = duration_seconds 300"

definition max_datetime :: "datetime list \<Rightarrow> datetime option" where
  "max_datetime ts = (if ts = [] then None else Some (Max (set ts)))"

definition task_start :: "(task_id \<rightharpoonup> scheduled_task) \<Rightarrow> satellite_task \<Rightarrow> datetime" where
  "task_start m t =
     (if st_dependencies t = [] then tw_start (st_scheduled_window t)
      else
        (case max_datetime (map sd_scheduled_end (List.map_filter m (st_dependencies t))) of
           None \<Rightarrow> tw_start (st_scheduled_window t)
         | Some latest \<Rightarrow> max latest (tw_start (st_scheduled_window t))))"

definition calculate_task_timing :: "chrono \<Rightarrow> (task_id \<rightharpoonup> scheduled_task) \<Rightarrow> satellite_task \<Rightarrow>
    (schedule_error + (datetime \<times> datetime)) option" where
  "calculate_task_timing ch m t =
     (let start = task_start m t; len = task_duration (st_task_type t)
      in case date_add ch start len of
           None \<Rightarrow> None
         | Some finish \<Rightarrow>
             if tw_end (st_scheduled_window t) < finish
             then Some (Inl (WindowExceeded (st_task_id t) len (tw_end (st_scheduled_window t) - start)))
             else Some (Inr (start, finish)))"

text \<open>The first scheduled link to the same terminal whose window overlaps.\<close>

fun contends :: "satellite_task \<Rightarrow> scheduled_task \<Rightarrow> bool" where
  "contends t e \<longleftrightarrow>
     (case (st_task_type t, st_task_type (sd_task e)) of
        (OpticalLinkEstablishment p, OpticalLinkEstablishment q) \<Rightarrow>
          p = q \<and> tw_overlaps (st_scheduled_window t) (st_scheduled_window (sd_task e))
      | _ \<Rightarrow> False)"

definition detect_conflicts :: "((task_id \<rightharpoonup> scheduled_task) \<Rightarrow> task_id list) \<Rightarrow>
    (task_id \<rightharpoonup> scheduled_task) \<Rightarrow> satellite_task \<Rightarrow> conflict_resolution option" where
  "detect_conflicts ord m t =
     (case st_task_type t of
        OpticalLinkEstablishment p \<Rightarrow>
          map_option (\<lambda>e.
            (let ids = [st_task_id t, st_task_id (sd_task e)]
             in \<lparr>cr_conflict_type = TerminalContention p ids, cr_resolution = PrioritizeBySLA,
                 cr_affected_tasks = ids\<rparr>))
            (List.find (contends t) (map_values m (ord m)))
      | _ \<Rightarrow> None)"

definition resolve_conflict :: "conflict_resolution \<Rightarrow> tasking_scheduler \<Rightarrow> tasking_scheduler" where
  "resolve_conflict c s = s\<lparr>ts_resource_conflicts := ts_resource_conflicts s @ [c]\<rparr>"

definition deps_ready :: "(task_id \<rightharpoonup> scheduled_task) \<Rightarrow> satellite_task \<Rightarrow> bool" where
  "deps_ready m t \<longleftrightarrow> (\<forall>d \<in> set (st_dependencies t). m d \<noteq> None)"

definition schedule_single_task :: "chrono \<Rightarrow> ((task_id \<rightharpoonup> scheduled_task) \<Rightarrow> task_id list) \<Rightarrow>
    satellite_task \<Rightarrow> tasking_scheduler \<Rightarrow> ((schedule_error + unit) \<times> tasking_scheduler) option" where
  "schedule_single_task ch ord t s =
     (if \<not> deps_ready (ts_scheduled_tasks s) t
      then Some (Inr (), s\<lparr>ts_task_queue := ts_task_queue s @ [t]\<rparr>)
      else
        (case calculate_task_timing ch (ts_scheduled_tasks s) t of
           None \<Rightarrow> None
         | Some (Inl e) \<Rightarrow> Some (Inl e, s)
         | Some (Inr (start, finish)) \<Rightarrow>
             (let s1 = (case detect_conflicts ord (ts_scheduled_tasks s) t of
                          None \<Rightarrow> s | Some c \<Rightarrow> resolve_conflict c s)
              in Some (Inr (), s1\<lparr>ts_scheduled_tasks := (ts_scheduled_tasks s1)(st_task_id t \<mapsto>
                   \<lparr>sd_task = t, sd_scheduled_start = start, sd_scheduled_end = finish,
                    sd_dependencies_satisfied = True\<rparr>)\<rparr>))))"

partial_function (option) schedule_tasks :: "chrono \<Rightarrow> ((task_id \<rightharpoonup> scheduled_task) \<Rightarrow> task_id list) \<Rightarrow>
    tasking_scheduler \<Rightarrow> ((schedule_error + unit) \<times> tasking_scheduler) option option" where
  "schedule_tasks ch ord s =
     (case ts_task_queue s of
        [] \<Rightarrow> Some (Some (Inr (), s))
      | t # q \<Rightarrow>
          (case schedule_single_task ch ord t (s\<lparr>ts_task_queue := q\<rparr>) of
             None \<Rightarrow> Some None
           | Some (Inl e, s1) \<Rightarrow> Some (Some (Inl e, s1))
           | Some (Inr u, s1) \<Rightarrow> schedule_tasks ch ord s1))"

definition get_satellite_tasks :: "task_id list \<Rightarrow> string \<Rightarrow> tasking_scheduler \<Rightarrow> scheduled_task list" where
  "get_satellite_tasks ks sat s =
     filter (\<lambda>st. st_satellite_id (sd_task st) = sat) (map_values (ts_scheduled_tasks s) ks)"

definition get_all_tasks :: "task_id list \<Rightarrow> tasking_scheduler \<Rightarrow> scheduled_task list" where
  "get_all_tasks ks s = map_values (ts_scheduled_tasks s) ks"

subsection \<open>Specification\<close>

inductive resolvable :: "task_id set \<Rightarrow> satellite_task multiset \<Rightarrow> bool" where
  resolvable_none: "resolvable D {#}"
| resolvable_next: "set (st_dependencies t) \<subseteq> D \<Longrightarrow> resolvable (insert (st_task_id t) D) M \<Longrightarrow>
    resolvable D (add_mset t M)"

definition stuck :: "tasking_scheduler \<Rightarrow> bool" where
  "stuck s \<longleftrightarrow> ts_task_queue s \<noteq> [] \<and>
     (\<forall>t \<in> set (ts_task_queue s). \<not> deps_ready (ts_scheduled_tasks s) t)"

text \<open>A placed task lies in its window, for its duration, after all its dependencies.\<close>

definition placed_ok :: "(task_id \<rightharpoonup> scheduled_task) \<Rightarrow> scheduled_task \<Rightarrow> bool" where
  "placed_ok m st \<longleftrightarrow>
     tw_start (st_scheduled_window (sd_task st)) \<le> sd_scheduled_start st \<and>
     sd_scheduled_end st = sd_scheduled_start st + task_duration (st_task_type (sd_task st)) \<and>
     sd_scheduled_end st \<le> tw_end (st_scheduled_window (sd_task st)) \<and>
     (\<forall>d \<in> set (st_dependencies (sd_task st)). \<exists>sd. m d = Some sd \<and>
        sd_scheduled_end sd \<le> sd_scheduled_start st)"

definition tasks_placed_ok :: "(task_id \<rightharpoonup> scheduled_task) \<Rightarrow> bool" where
  "tasks_placed_ok m \<longleftrightarrow> (\<forall>i st. m i = Some st \<longrightarrow> st_task_id (sd_task st) = i \<and> placed_ok m st)"

text \<open>The queued identifiers are new and pairwise distinct.\<close>

definition ids_fresh :: "tasking_scheduler \<Rightarrow> bool" where
  "ids_fresh s \<longleftrightarrow> distinct (map st_task_id (ts_task_queue s)) \<and>
     (\<forall>t \<in> set (ts_task_queue s). ts_scheduled_tasks s (st_task_id t) = None)"

definition sample_task :: "task_id \<Rightarrow> task_id list \<Rightarrow> datetime \<Rightarrow> satellite_task" where
  "sample_task i ds t =
     \<lparr>st_task_id = i, st_satellite_id = ''s'', st_task_type = OpticalLinkEstablishment 9,
      st_scheduled_window = time_window_new t (t + 30000000000), st_dependencies = ds,
      st_priority = IslMedium\<rparr>"

definition sample_tasking :: tasking_scheduler where
  "sample_tasking =
     \<lparr>ts_task_queue = [sample_task 2 [1] 30000000000, sample_task 1 [] 0],
      ts_scheduled_tasks = Map.empty, ts_resource_conflicts = []\<rparr>"

definition wide_dates :: chrono where
  "wide_dates = \<lparr>date_in_range = (\<lambda>t. \<bar>t\<bar> \<le> 10 ^ 21), duration_in_range = (\<lambda>_. True)\<rparr>"

section \<open>Lemmas\<close>

subsection \<open>Resolvable queues\<close>

lemma deps_ready_iff: "deps_ready m t \<longleftrightarrow> set (st_dependencies t) \<subseteq> dom m"
  by (auto simp: deps_ready_def)

lemma resolvable_mono: "resolvable D M \<Longrightarrow> D \<subseteq> D' \<Longrightarrow> resolvable D' M"
proof (induction arbitrary: D' rule: resolvable.induct)
  case (resolvable_none D)
  show ?case by (rule resolvable.resolvable_none)
next
  case (resolvable_next t D M)
  have "insert (st_task_id t) D \<subseteq> insert (st_task_id t) D'" using resolvable_next.prems by blast
  then have "resolvable (insert (st_task_id t) D') M" by (rule resolvable_next.IH)
  moreover have "set (st_dependencies t) \<subseteq> D'" using resolvable_next.hyps(1) resolvable_next.prems by blast
  ultimately show ?case by (intro resolvable.resolvable_next)
qed

lemma resolvable_ready: "resolvable D M \<Longrightarrow> M \<noteq> {#} \<Longrightarrow> \<exists>t \<in># M. set (st_dependencies t) \<subseteq> D"
  by (erule resolvable.cases) auto

text \<open>Any task that is ready may be placed next.\<close>

lemma resolvable_take:
  assumes "resolvable D (add_mset t M)" and "set (st_dependencies t) \<subseteq> D"
  shows "resolvable (insert (st_task_id t) D) M"
  using assms
proof (induction D "add_mset t M" arbitrary: M rule: resolvable.induct)
  case (resolvable_none D)
  then show ?case by simp
next
  case (resolvable_next u D N)
  show ?case
  proof (cases "u = t")
    case True
    with resolvable_next show ?thesis by simp
  next
    case False
    with resolvable_next.hyps(4) obtain K where K: "N = add_mset t K" "M = add_mset u K"
      by (auto simp: add_eq_conv_ex)
    have "resolvable (insert (st_task_id t) (insert (st_task_id u) D)) K"
      using K(1) resolvable_next.prems by (intro resolvable_next.hyps(3)) auto
    then have "resolvable (insert (st_task_id u) (insert (st_task_id t) D)) K"
      by (simp add: insert_commute)
    with resolvable_next.hyps(1) K(2) show ?thesis
      by (auto intro: resolvable.resolvable_next)
  qed
qed

subsection \<open>One task\<close>

text \<open>What a call of \<open>schedule_single_task\<close> does with the queue and the map.\<close>

lemma schedule_single_cases:
  assumes "schedule_single_task ch ord t s = Some (r, s')"
  obtains
    (requeued) "\<not> deps_ready (ts_scheduled_tasks s) t" "r = Inr ()"
      "s' = s\<lparr>ts_task_queue := ts_task_queue s @ [t]\<rparr>"
  | (refused) e where "r = Inl e" "s' = s"
  | (placed) start finish where "deps_ready (ts_scheduled_tasks s) t" "r = Inr ()"
      "calculate_task_timing ch (ts_scheduled_tasks s) t = Some (Inr (start, finish))"
      "ts_task_queue s' = ts_task_queue s"
      "ts_scheduled_tasks s' = (ts_scheduled_tasks s)(st_task_id t \<mapsto>
         \<lparr>sd_task = t, sd_scheduled_start = start, sd_scheduled_end = finish,
          sd_dependencies_satisfied = True\<rparr>)"
  using assms
  by (auto simp: schedule_single_task_def resolve_conflict_def Let_def
    split: if_splits option.splits sum.splits)

lemma task_start_ge_window: "tw_start (st_scheduled_window t) \<le> task_start m t"
  by (auto simp: task_start_def max_datetime_def split: option.splits)

lemma task_start_after_deps:
  assumes "d \<in> set (st_dependencies t)" and "m d = Some sd"
  shows "sd_scheduled_end sd \<le> task_start m t"
proof -
  let ?ends = "map sd_scheduled_end (List.map_filter m (st_dependencies t))"
  have "sd \<in> set (List.map_filter m (st_dependencies t))"
    using assms by (force simp: List.map_filter_def)
  then have mem: "sd_scheduled_end sd \<in> set ?ends" by simp
  then have "sd_scheduled_end sd \<le> Max (set ?ends)" by (intro Max_ge) simp_all
  moreover have "st_dependencies t \<noteq> []" and "?ends \<noteq> []" using assms(1) mem by auto
  ultimately show ?thesis by (simp add: task_start_def max_datetime_def)
qed

lemma timing_placed:
  assumes "calculate_task_timing ch m t = Some (Inr (start, finish))" and "deps_ready m t"
  shows "placed_ok m \<lparr>sd_task = t, sd_scheduled_start = start, sd_scheduled_end = finish,
    sd_dependencies_satisfied = True\<rparr>"
proof -
  have start: "start = task_start m t" and "finish = start + task_duration (st_task_type t)"
    and "finish \<le> tw_end (st_scheduled_window t)"
    using assms(1) by (auto simp: calculate_task_timing_def Let_def date_add_def split: if_splits)
  moreover have "\<exists>sd. m d = Some sd \<and> sd_scheduled_end sd \<le> start" if "d \<in> set (st_dependencies t)" for d
    using that assms(2) task_start_after_deps start by (fastforce simp: deps_ready_def)
  ultimately show ?thesis using task_start_ge_window by (simp add: placed_ok_def)
qed

lemma placed_ok_insert:
  "placed_ok m st \<Longrightarrow> m i = None \<Longrightarrow> placed_ok (m(i \<mapsto> x)) st"
  unfolding placed_ok_def by (metis fun_upd_other option.distinct(1))

text \<open>Placing keeps the well-placed tasks well placed, when the identifier is new.\<close>

lemma tasks_placed_insert:
  assumes "tasks_placed_ok m" and "m (st_task_id t) = None"
    and "calculate_task_timing ch m t = Some (Inr (start, finish))" and "deps_ready m t"
  shows "tasks_placed_ok (m(st_task_id t \<mapsto> \<lparr>sd_task = t, sd_scheduled_start = start,
    sd_scheduled_end = finish, sd_dependencies_satisfied = True\<rparr>))"
  using assms placed_ok_insert [OF timing_placed [OF assms(3,4)] assms(2)]
  by (auto simp: tasks_placed_ok_def placed_ok_insert)

subsection \<open>The loop\<close>

definition first_ready :: "tasking_scheduler \<Rightarrow> nat" where
  "first_ready s = length (takeWhile (\<lambda>t. \<not> deps_ready (ts_scheduled_tasks s) t) (ts_task_queue s))"

lemma schedule_tasks_returns:
  assumes "resolvable (dom (ts_scheduled_tasks s)) (mset (ts_task_queue s))"
  shows "\<exists>r. schedule_tasks ch ord s = Some r"
proof -
  define R where "R = inv_image (less_than <*lex*> less_than)
    (\<lambda>s. (length (ts_task_queue s), first_ready s))"
  have "wf R" unfolding R_def by (intro wf_inv_image wf_lex_prod wf_less_than)
  then show ?thesis using assms
  proof (induction s rule: wf_induct_rule)
    case (less s)
    show ?case
    proof (cases "ts_task_queue s")
      case Nil
      then show ?thesis by (subst schedule_tasks.simps) simp
    next
      case (Cons t q)
      define s0 where "s0 = s\<lparr>ts_task_queue := q\<rparr>"
      show ?thesis
      proof (cases "schedule_single_task ch ord t s0")
        case None
        with Cons show ?thesis by (subst schedule_tasks.simps) (simp add: s0_def)
      next
        case (Some rs)
        obtain r s' where single: "schedule_single_task ch ord t s0 = Some (r, s')" using Some by (cases rs) auto
        show ?thesis using single
        proof (cases rule: schedule_single_cases)
          case refused
          with Cons single show ?thesis by (subst schedule_tasks.simps) (simp add: s0_def)
        next
          case requeued
          then have s': "ts_task_queue s' = q @ [t]" "ts_scheduled_tasks s' = ts_scheduled_tasks s"
            and not_ready: "\<not> deps_ready (ts_scheduled_tasks s) t" by (simp_all add: s0_def)
          from resolvable_ready [OF less.prems] Cons not_ready
          obtain u where "u \<in> set q" "deps_ready (ts_scheduled_tasks s) u"
            by (auto simp: deps_ready_iff)
          then have "first_ready s' < first_ready s"
            using Cons not_ready s' by (simp add: first_ready_def takeWhile_append1)
          then have "(s', s) \<in> R" using Cons s' by (simp add: R_def)
          moreover have "resolvable (dom (ts_scheduled_tasks s')) (mset (ts_task_queue s'))"
            using less.prems Cons s' by simp
          ultimately have "\<exists>r. schedule_tasks ch ord s' = Some r" by (rule less.IH)
          with Cons single requeued show ?thesis by (subst schedule_tasks.simps) (simp add: s0_def)
        next
          case (placed start finish)
          then have s': "ts_task_queue s' = q"
            "dom (ts_scheduled_tasks s') = insert (st_task_id t) (dom (ts_scheduled_tasks s))"
            and ready: "deps_ready (ts_scheduled_tasks s) t" by (simp_all add: s0_def)
          have "(s', s) \<in> R" using Cons s' by (simp add: R_def)
          moreover have "resolvable (dom (ts_scheduled_tasks s')) (mset (ts_task_queue s'))"
            using less.prems Cons s' ready by (simp add: resolvable_take deps_ready_iff)
          ultimately have "\<exists>r. schedule_tasks ch ord s' = Some r" by (rule less.IH)
          with Cons single placed show ?thesis by (subst schedule_tasks.simps) (simp add: s0_def)
        qed
      qed
    qed
  qed
qed

lemma stuck_rotates:
  assumes "stuck s" and "ts_task_queue s = t # q"
  shows "schedule_single_task ch ord t (s\<lparr>ts_task_queue := q\<rparr>) = Some (Inr (), s\<lparr>ts_task_queue := q @ [t]\<rparr>) \<and>
    stuck (s\<lparr>ts_task_queue := q @ [t]\<rparr>)"
  using assms by (auto simp: stuck_def schedule_single_task_def)

lemma schedule_tasks_not_stuck:
  assumes "schedule_tasks ch ord s = Some r"
  shows "\<not> stuck s"
proof (rule schedule_tasks.raw_induct [where P = "\<lambda>ch ord s r. \<not> stuck s", OF _ assms])
  fix f :: "chrono \<Rightarrow> ((task_id \<rightharpoonup> scheduled_task) \<Rightarrow> task_id list) \<Rightarrow> tasking_scheduler \<Rightarrow>
      ((schedule_error + unit) \<times> tasking_scheduler) option option" and ch ord s r
  assume IH: "\<And>ch ord s r. f ch ord s = Some r \<Longrightarrow> \<not> stuck s"
    and run: "(case ts_task_queue s of [] \<Rightarrow> Some (Some (Inr (), s))
        | t # q \<Rightarrow> (case schedule_single_task ch ord t (s\<lparr>ts_task_queue := q\<rparr>) of
             None \<Rightarrow> Some None
           | Some (Inl e, s1) \<Rightarrow> Some (Some (Inl e, s1))
           | Some (Inr u, s1) \<Rightarrow> f ch ord s1)) = Some r"
  show "\<not> stuck s"
  proof
    assume st: "stuck s"
    then obtain t q where q: "ts_task_queue s = t # q" by (cases "ts_task_queue s") (auto simp: stuck_def)
    from stuck_rotates [OF st q, of ch ord] run q IH show False by auto
  qed
qed

text \<open>An answer without error means that every task is placed, in its window and after its
  dependencies.\<close>

definition result_placed :: "tasking_scheduler \<Rightarrow>
    ((schedule_error + unit) \<times> tasking_scheduler) option \<Rightarrow> bool" where
  "result_placed s r \<longleftrightarrow> (\<forall>u s'. r = Some (Inr u, s') \<longrightarrow> ids_fresh s \<longrightarrow>
     tasks_placed_ok (ts_scheduled_tasks s) \<longrightarrow>
     ts_task_queue s' = [] \<and> tasks_placed_ok (ts_scheduled_tasks s') \<and>
     dom (ts_scheduled_tasks s') = dom (ts_scheduled_tasks s) \<union> st_task_id ` set (ts_task_queue s))"

lemma schedule_tasks_sound:
  assumes "schedule_tasks ch ord s = Some (Some (Inr u, s'))" and "ids_fresh s"
    and "tasks_placed_ok (ts_scheduled_tasks s)"
  shows "ts_task_queue s' = [] \<and> tasks_placed_ok (ts_scheduled_tasks s') \<and>
    dom (ts_scheduled_tasks s') = dom (ts_scheduled_tasks s) \<union> st_task_id ` set (ts_task_queue s)"
proof -
  have "result_placed s (Some (Inr u, s'))"
  proof (rule schedule_tasks.raw_induct [where P = "\<lambda>ch ord s r. result_placed s r", OF _ assms(1)])
    fix f :: "chrono \<Rightarrow> ((task_id \<rightharpoonup> scheduled_task) \<Rightarrow> task_id list) \<Rightarrow> tasking_scheduler \<Rightarrow>
        ((schedule_error + unit) \<times> tasking_scheduler) option option" and ch ord s r
    assume IH: "\<And>ch ord s r. f ch ord s = Some r \<Longrightarrow> result_placed s r"
      and run: "(case ts_task_queue s of [] \<Rightarrow> Some (Some (Inr (), s))
          | t # q \<Rightarrow> (case schedule_single_task ch ord t (s\<lparr>ts_task_queue := q\<rparr>) of
               None \<Rightarrow> Some None
             | Some (Inl e, s1) \<Rightarrow> Some (Some (Inl e, s1))
             | Some (Inr u, s1) \<Rightarrow> f ch ord s1)) = Some r"
    show "result_placed s r"
      unfolding result_placed_def
    proof (intro allI impI)
      fix u s'
      assume r: "r = Some (Inr u, s')" and fresh: "ids_fresh s" and ok: "tasks_placed_ok (ts_scheduled_tasks s)"
      show "ts_task_queue s' = [] \<and> tasks_placed_ok (ts_scheduled_tasks s') \<and>
        dom (ts_scheduled_tasks s') = dom (ts_scheduled_tasks s) \<union> st_task_id ` set (ts_task_queue s)"
      proof (cases "ts_task_queue s")
        case Nil
        with run r ok show ?thesis by auto
      next
        case (Cons t q)
        with run r obtain v s1 where
          single: "schedule_single_task ch ord t (s\<lparr>ts_task_queue := q\<rparr>) = Some (Inr v, s1)"
          and rest: "f ch ord s1 = Some (Some (Inr u, s'))"
          by (auto split: option.splits sum.splits)
        from single show ?thesis
        proof (cases rule: schedule_single_cases)
          case requeued
          then have "ids_fresh s1" "ts_scheduled_tasks s1 = ts_scheduled_tasks s"
            "set (ts_task_queue s1) = set (ts_task_queue s)"
            using fresh Cons by (auto simp: ids_fresh_def)
          with IH [OF rest] ok show ?thesis by (auto simp: result_placed_def)
        next
          case (placed start finish)
          have new: "ts_scheduled_tasks s (st_task_id t) = None" using fresh Cons by (simp add: ids_fresh_def)
          from placed have "tasks_placed_ok (ts_scheduled_tasks s1)"
            using tasks_placed_insert [OF ok new] by simp
          moreover have "st_task_id t \<notin> st_task_id ` set q" using fresh Cons by (simp add: ids_fresh_def)
          then have "\<forall>u \<in> set q. st_task_id u \<noteq> st_task_id t" by (metis imageI)
          then have "ids_fresh s1" using fresh Cons placed by (auto simp: ids_fresh_def)
          ultimately show ?thesis
            using IH [OF rest] placed Cons by (auto simp: result_placed_def)
        qed simp
      qed
    qed
  qed
  with assms show ?thesis unfolding result_placed_def by blast
qed

lemma resolvable_sample: "resolvable (dom (ts_scheduled_tasks sample_tasking)) (mset (ts_task_queue sample_tasking))"
proof -
  have "resolvable {} (add_mset (sample_task 1 [] 0) {#sample_task 2 [1] 30000000000#})"
    by (intro resolvable.intros) (simp_all add: sample_task_def)
  then show ?thesis by (simp add: sample_tasking_def add_mset_commute)
qed

section \<open>Properties\<close>

text \<open>C17: scheduling ends when the dependencies can be resolved. If the queued tasks can be put in an
  order in which each depends only on tasks before it or already scheduled, the scheduling loop returns,
  whatever their order in the queue, their windows and the range of dates. When it returns without an error, the
  identifiers of the queued tasks were distinct and not scheduled yet, and what was scheduled before was well placed,
  then every queued task is scheduled, inside its window and not before the end of any of its dependencies.\<close>

theorem schedule_terminates:
  assumes "resolvable (dom (ts_scheduled_tasks s)) (mset (ts_task_queue s))"
  shows "\<exists>r. schedule_tasks ch ord s = Some r \<and>
    (ids_fresh s \<and> tasks_placed_ok (ts_scheduled_tasks s) \<longrightarrow>
      (\<forall>u s'. r = Some (Inr u, s') \<longrightarrow> ts_task_queue s' = [] \<and> tasks_placed_ok (ts_scheduled_tasks s') \<and>
        dom (ts_scheduled_tasks s') = dom (ts_scheduled_tasks s) \<union> st_task_id ` set (ts_task_queue s)))"
  using schedule_tasks_returns [OF assms(1), of ch ord] schedule_tasks_sound by blast

lemma schedule_terminates_witness:
  "\<exists>r. schedule_tasks wide_dates (\<lambda>_. []) sample_tasking = Some r \<and>
    (\<forall>u s'. r = Some (Inr u, s') \<longrightarrow> ts_task_queue s' = [] \<and> tasks_placed_ok (ts_scheduled_tasks s') \<and>
       dom (ts_scheduled_tasks s') =
         dom (ts_scheduled_tasks sample_tasking) \<union> st_task_id ` set (ts_task_queue sample_tasking))"
proof -
  have "ids_fresh sample_tasking \<and> tasks_placed_ok (ts_scheduled_tasks sample_tasking)"
    by (simp add: sample_tasking_def ids_fresh_def tasks_placed_ok_def sample_task_def)
  with schedule_terminates [OF resolvable_sample, of wide_dates "\<lambda>_. []"] show ?thesis by blast
qed

text \<open>Scheduling never returns when no queued task can be placed. A queue in which every task depends
  on one that is not scheduled, such as a single task whose dependency failed, was never queued, or is
  itself, keeps the loop rotating it for ever.\<close>

theorem schedule_diverges_when_stuck:
  assumes "stuck s"
  shows "schedule_tasks ch ord s = None"
proof (cases "schedule_tasks ch ord s")
  case (Some r)
  from schedule_tasks_not_stuck [OF this] assms show ?thesis by simp
qed

lemma schedule_diverges_when_stuck_witness:
  "schedule_tasks wide_dates (\<lambda>_. []) (tasking_enqueue (sample_task 1 [2] 0) tasking_new) = None"
  by (rule schedule_diverges_when_stuck)
    (simp add: stuck_def tasking_enqueue_def tasking_new_def deps_ready_def sample_task_def)

end
