(* ===== verification/Oisl_Compiler.thy ===== *)
theory Oisl_Compiler
  imports Oisl_Routing Oisl_Tasking
begin

text \<open>
  The compiler from intents to tasking plans (\<open>oisl/src/mission/compiler.rs\<close>).

  The record \<open>compile_env\<close> holds what the code gets from outside: the clock, the random identifiers (one
  per task, downlink and link of a loop turn), the name-based UUIDs, the ranges of the date library, the
  trigonometry and the iteration orders of the hash maps. \<open>None\<close> is a panic of the date library, or a route
  search that does not return.

  The lemmas describe the plans: a relay is a chain of hops that the task scheduler places exactly in its
  windows, a custody plan is a chain of segments that overlap by a minute and end too early, and an
  observation reserves the bandwidth of its downlink for the wrong window.
\<close>

section \<open>Definitions\<close>

record compile_env =
  ce_chrono :: chrono
  ce_trig :: trig
  ce_name_uuid :: "string \<Rightarrow> uuid"
  ce_terminal_order :: "terminal_id list"
  ce_satellite_order :: "string list"
  ce_station_order :: "string list"
  ce_now :: datetime
  ce_later :: datetime
  ce_plan_id :: uuid
  ce_task_id :: "nat \<Rightarrow> uuid"
  ce_downlink_id :: "nat \<Rightarrow> uuid"
  ce_link_id :: "nat \<Rightarrow> uuid"

record intent_compiler =
  cp_router :: spatiotemporal_router
  cp_poisoned :: bool

definition compiler_new :: "spatiotemporal_router \<Rightarrow> intent_compiler" where
  "compiler_new r = \<lparr>cp_router = r, cp_poisoned = False\<rparr>"

type_synonym compiled = "satellite_task list \<times> link_reservation list"

text \<open>The first optical terminal of a satellite, or a UUID made of the name.\<close>

definition terminal_of :: "compile_env \<Rightarrow> 'v constellation_state \<Rightarrow> string \<Rightarrow> uuid" where
  "terminal_of env c n =
     (case Option.bind (cs_satellites c n) (\<lambda>s. first_entry (ss_optical_terminals s)) of
        Some t \<Rightarrow> t | None \<Rightarrow> ce_name_uuid env n)"

subsection \<open>Data relay\<close>

definition relay_task :: "compile_env \<Rightarrow> 'v constellation_state \<Rightarrow> nat \<Rightarrow> routed_hop \<Rightarrow> satellite_task" where
  "relay_task env c i h =
     \<lparr>st_task_id = ce_task_id env i, st_satellite_id = fst (pe_endpoints (rh_edge h)),
      st_task_type = OpticalLinkEstablishment (terminal_of env c (snd (pe_endpoints (rh_edge h)))),
      st_scheduled_window = rh_use_window h,
      st_dependencies = (if 0 < i then [ce_task_id env (i - 1)] else []), st_priority = IslMedium\<rparr>"

definition relay_reservation :: "compile_env \<Rightarrow> 'v constellation_state \<Rightarrow> nat \<Rightarrow> routed_hop \<Rightarrow>
    link_reservation" where
  "relay_reservation env c i h =
     (let (a, b) = pe_endpoints (rh_edge h)
      in \<lparr>lr_link_id = ce_link_id env i, lr_source = a, lr_destination = b,
          lr_terminal_a = terminal_of env c a, lr_terminal_b = terminal_of env c b,
          lr_time_window = rh_use_window h, lr_bandwidth = rh_bandwidth_reservation h\<rparr>)"

definition relay_plan :: "compile_env \<Rightarrow> 'v constellation_state \<Rightarrow> routed_hop list \<Rightarrow> compiled" where
  "relay_plan env c hs =
     (map (\<lambda>(i, h). relay_task env c i h) (enumerate 0 hs),
      map (\<lambda>(i, h). relay_reservation env c i h) (enumerate 0 hs))"

text \<open>\<open>route\<close> is the call of the router, for a source and a destination.\<close>

type_synonym router_call = "node_id \<Rightarrow> node_id \<Rightarrow> topology_forecast \<Rightarrow> intent_constraints \<Rightarrow>
  service_level_agreement \<Rightarrow> spatiotemporal_router \<Rightarrow>
  ((routing_error + route) \<times> spatiotemporal_router) option"

definition compile_data_relay :: "router_call \<Rightarrow> compile_env \<Rightarrow> string \<Rightarrow> string \<Rightarrow>
    'v constellation_state \<Rightarrow> topology_forecast \<Rightarrow> intent_constraints \<Rightarrow> service_level_agreement \<Rightarrow>
    intent_compiler \<Rightarrow> ((compilation_error + compiled) \<times> intent_compiler) option" where
  "compile_data_relay route env source dest c topo ic sla cp =
     (case resolve_asset (ce_terminal_order env) source c of
        None \<Rightarrow> Some (Inl (InvalidIntent
          (''Source asset '' @ source @ '' not found in constellation'')), cp)
      | Some source_sat \<Rightarrow>
          (case resolve_asset (ce_terminal_order env) dest c of
             None \<Rightarrow> Some (Inl (InvalidIntent
               (''Destination asset '' @ dest @ '' not found in constellation'')), cp)
           | Some dest_sat \<Rightarrow>
               if cp_poisoned cp then Some (Inl (InternalError ''Router lock poisoned''), cp)
               else
                 (case route source_sat dest_sat topo ic sla (cp_router cp) of
                    None \<Rightarrow> None
                  | Some (Inl e, r) \<Rightarrow>
                      Some (Inl (NoFeasibleRoute source_sat dest_sat), cp\<lparr>cp_router := r\<rparr>)
                  | Some (Inr rt, r) \<Rightarrow>
                      Some (Inr (relay_plan env c (rt_hops rt)), cp\<lparr>cp_router := r\<rparr>))))"

subsection \<open>Loops over windows\<close>

text \<open>The tasks and reservations of the turns of a loop, in order; a turn that panics ends it.\<close>

fun collect_turns :: "(nat \<Rightarrow> compiled option) \<Rightarrow> nat list \<Rightarrow> compiled option" where
  "collect_turns f [] = Some ([], [])"
| "collect_turns f (i # is) =
     (case f i of
        None \<Rightarrow> None
      | Some (ts, rs) \<Rightarrow> map_option (\<lambda>(us, qs). (ts @ us, rs @ qs)) (collect_turns f is))"

subsection \<open>Observation\<close>

definition observation_turn :: "compile_env \<Rightarrow> geo_region \<Rightarrow> sensor_type \<Rightarrow> int \<Rightarrow>
    'v constellation_state \<Rightarrow> topology_forecast \<Rightarrow> service_level_agreement \<Rightarrow> nat \<Rightarrow> compiled option" where
  "observation_turn env target sensor revisit c topo sla i =
     Option.bind (date_add (ce_chrono env) (tf_horizon_start topo) (duration_seconds (int i * revisit)))
       (\<lambda>ws. Option.bind (date_add (ce_chrono env) ws (duration_seconds (min revisit 600)))
       (\<lambda>we. Option.bind (date_add (ce_chrono env) we (duration_seconds 300))
       (\<lambda>de.
         let sats = ce_satellite_order env; sat = sats ! (i mod length sats);
             obs = time_window_new ws we; dl = time_window_new we de;
             task = \<lparr>st_task_id = ce_task_id env i, st_satellite_id = sat,
                     st_task_type = ObservationTask target sensor, st_scheduled_window = obs,
                     st_dependencies = [], st_priority = sla_priority sla\<rparr>
         in case find_optimal_ground_station (ce_trig env) (ce_station_order env) sat dl c of
              None \<Rightarrow> Some ([task], [])
            | Some gs \<Rightarrow>
                Some ([task,
                  \<lparr>st_task_id = ce_downlink_id env i, st_satellite_id = sat,
                   st_task_type = DownlinkTask gs, st_scheduled_window = dl,
                   st_dependencies = [ce_task_id env i], st_priority = sla_priority sla\<rparr>],
                 [\<lparr>lr_link_id = ce_link_id env i, lr_source = sat, lr_destination = gs,
                   lr_terminal_a = terminal_of env c sat, lr_terminal_b = ce_name_uuid env gs,
                   lr_time_window = dl,
                   lr_bandwidth = \<lparr>ba_data_rate = DataRate 1000000, ba_valid_window = obs\<rparr>\<rparr>]))))"

definition compile_observation :: "compile_env \<Rightarrow> geo_region \<Rightarrow> sensor_type \<Rightarrow> duration \<Rightarrow>
    'v constellation_state \<Rightarrow> topology_forecast \<Rightarrow> service_level_agreement \<Rightarrow>
    (compilation_error + compiled) option" where
  "compile_observation env target sensor revisit_rate c topo sla =
     (let horizon = num_seconds (tf_horizon_end topo - tf_horizon_start topo);
          revisit = max (num_seconds revisit_rate) 60;
          num_windows = nat (max (trunc_div horizon revisit) 1)
      in if ce_satellite_order env = []
         then Some (Inl (NoFeasibleRoute ''observation-asset'' (gr_name target)))
         else map_option Inr
           (collect_turns (observation_turn env target sensor revisit c topo sla) [0..<num_windows]))"

subsection \<open>Custody\<close>

definition segment_secs :: int where
  "segment_secs = 600"

definition overlap_secs :: int where
  "overlap_secs = 60"

definition custody_seconds :: "topology_forecast \<Rightarrow> duration \<Rightarrow> int" where
  "custody_seconds topo persistence =
     min (num_seconds (tf_horizon_end topo - tf_horizon_start topo)) (num_seconds persistence)"

definition num_segments :: "int \<Rightarrow> nat" where
  "num_segments h = nat (max (trunc_div (h + segment_secs - 1) segment_secs) 1)"

definition custody_turn :: "compile_env \<Rightarrow> string \<Rightarrow> string list \<Rightarrow> 'v constellation_state \<Rightarrow>
    topology_forecast \<Rightarrow> service_level_agreement \<Rightarrow> nat \<Rightarrow> compiled option" where
  "custody_turn env target relays c topo sla i =
     Option.bind (date_add (ce_chrono env) (tf_horizon_start topo)
         (duration_seconds (int i * (segment_secs - overlap_secs))))
       (\<lambda>ss. Option.bind (date_add (ce_chrono env) ss (duration_seconds segment_secs))
       (\<lambda>se.
         let w = time_window_new ss se; relay = relays ! (i mod length relays)
         in Some
              ([\<lparr>st_task_id = ce_task_id env i, st_satellite_id = relay,
                 st_task_type = OpticalLinkEstablishment (terminal_of env c target),
                 st_scheduled_window = w,
                 st_dependencies = (if i = 0 then [] else [ce_task_id env (i - 1)]),
                 st_priority = sla_priority sla\<rparr>],
               [\<lparr>lr_link_id = ce_link_id env i, lr_source = relay, lr_destination = target,
                 lr_terminal_a = terminal_of env c relay, lr_terminal_b = terminal_of env c target,
                 lr_time_window = w,
                 lr_bandwidth = \<lparr>ba_data_rate = DataRate 10000000, ba_valid_window = w\<rparr>\<rparr>])))"

definition compile_custody :: "compile_env \<Rightarrow> string \<Rightarrow> duration \<Rightarrow> 'v constellation_state \<Rightarrow>
    topology_forecast \<Rightarrow> service_level_agreement \<Rightarrow> (compilation_error + compiled) option" where
  "compile_custody env target persistence c topo sla =
     (case resolve_asset (ce_terminal_order env) target c of
        None \<Rightarrow> Some (Inl (InvalidIntent
          (''Custody target asset '' @ [CHR 0x27] @ target @ [CHR 0x27] @ '' not found in constellation'')))
      | Some target_sat \<Rightarrow>
          (let relays = filter (\<lambda>i. i \<noteq> target_sat) (ce_satellite_order env)
           in if relays = [] then Some (Inl (NoFeasibleRoute target_sat ''custody-relay''))
              else map_option Inr
                (collect_turns (custody_turn env target_sat relays c topo sla)
                   [0..<num_segments (custody_seconds topo persistence)])))"

subsection \<open>Downlink\<close>

definition compile_downlink :: "compile_env \<Rightarrow> string \<Rightarrow> time_window \<Rightarrow> 'v constellation_state \<Rightarrow>
    service_level_agreement \<Rightarrow> compilation_error + compiled" where
  "compile_downlink env sat w c sla =
     (case find_optimal_ground_station (ce_trig env) (ce_station_order env) sat w c of
        None \<Rightarrow> Inl (NoFeasibleRoute sat ''ground'')
      | Some gs \<Rightarrow>
          Inr ([\<lparr>st_task_id = ce_task_id env 0, st_satellite_id = sat, st_task_type = DownlinkTask gs,
                 st_scheduled_window = w, st_dependencies = [], st_priority = sla_priority sla\<rparr>],
               [\<lparr>lr_link_id = ce_link_id env 0, lr_source = sat, lr_destination = gs,
                 lr_terminal_a = terminal_of env c sat, lr_terminal_b = ce_name_uuid env gs,
                 lr_time_window = w,
                 lr_bandwidth = \<lparr>ba_data_rate = DataRate 100000000, ba_valid_window = w\<rparr>\<rparr>]))"

subsection \<open>The compiler\<close>

definition calculate_confidence :: "topology_forecast \<Rightarrow> confidence_score" where
  "calculate_confidence topo =
     (let horizon = tf_horizon_end topo - tf_horizon_start topo
      in confidence_new
           (if duration_seconds 43200 < horizon then lit (7 / 10)
            else if duration_seconds 21600 < horizon then lit (85 / 100)
            else lit (95 / 100)))"

definition compile_objective :: "router_call \<Rightarrow> compile_env \<Rightarrow> mission_intent \<Rightarrow>
    'v constellation_state \<Rightarrow> topology_forecast \<Rightarrow> intent_compiler \<Rightarrow>
    ((compilation_error + compiled) \<times> intent_compiler) option" where
  "compile_objective route env intent c topo cp =
     (case mi_objective intent of
        DataRelayObjective source dest volume \<Rightarrow>
          compile_data_relay route env source dest c topo (mi_constraints intent) (mi_sla intent) cp
      | ObservationObjective target sensor revisit \<Rightarrow>
          map_option (\<lambda>r. (r, cp)) (compile_observation env target sensor revisit c topo (mi_sla intent))
      | CustodyObjective target persistence \<Rightarrow>
          map_option (\<lambda>r. (r, cp)) (compile_custody env target persistence c topo (mi_sla intent))
      | DownlinkObjective sat w \<Rightarrow> Some (compile_downlink env sat w c (mi_sla intent), cp))"

definition compile :: "router_call \<Rightarrow> compile_env \<Rightarrow> mission_intent \<Rightarrow> 'v constellation_state \<Rightarrow>
    topology_forecast \<Rightarrow> intent_compiler \<Rightarrow>
    ((compilation_error + tasking_plan) \<times> intent_compiler) option" where
  "compile route env intent c topo cp =
     (case (case sla_deadline (mi_sla intent) of
              Some d \<Rightarrow> Some d
            | None \<Rightarrow> date_add (ce_chrono env) (ce_later env) (duration_seconds 86400)) of
        None \<Rightarrow> None
      | Some valid_until \<Rightarrow>
          map_option (\<lambda>(r, cp').
            (case r of
               Inl e \<Rightarrow> Inl e
             | Inr (tasks, reservations) \<Rightarrow>
                 Inr \<lparr>tp_plan_id = ce_plan_id env, tp_intent_id = mi_intent_id intent,
                      tp_satellite_tasks = tasks, tp_link_reservations = reservations,
                      tp_confidence = calculate_confidence topo,
                      tp_compiled_at = now_stamp (ce_now env), tp_valid_until = valid_until\<rparr>, cp'))
            (compile_objective route env intent c topo cp))"

text \<open>\<open>dbg\<close> renders a duration, \<open>dbg_uuid\<close> a terminal and \<open>fmt2\<close> a number with two digits; \<open>ks\<close> is the order
  of the map from the terminals of the plan to their uses.\<close>

definition plan_terminals :: "tasking_plan \<Rightarrow> uuid list" where
  "plan_terminals p = concat (map (\<lambda>r. [lr_terminal_a r, lr_terminal_b r]) (tp_link_reservations p))"

definition compiler_validate :: "(duration \<Rightarrow> string) \<Rightarrow> (uuid \<Rightarrow> string) \<Rightarrow> (f64 \<Rightarrow> string) \<Rightarrow> uuid list \<Rightarrow>
    tasking_plan \<Rightarrow> validation_warning list" where
  "compiler_validate dbg dbg_uuid fmt2 ks p =
     map (\<lambda>t. \<lparr>vw_warning_type = TimingMargin,
               vw_message = ''Task '' @ show_uuid (st_task_id t) @ '' has short duration window: '' @
                 dbg (tw_duration (st_scheduled_window t)),
               vw_severity = SeverityWarning\<rparr>)
       (filter (\<lambda>t. tw_duration (st_scheduled_window t) < duration_seconds 60) (tp_satellite_tasks p)) @
     map (\<lambda>k. \<lparr>vw_warning_type = ResourceContention,
               vw_message = ''Terminal '' @ dbg_uuid k @ '' has multiple concurrent reservations'',
               vw_severity = SeverityWarning\<rparr>)
       (filter (\<lambda>k. 1 < count_list (plan_terminals p) k) ks) @
     (if confidence_is_low (tp_confidence p)
      then [\<lparr>vw_warning_type = LowConfidenceRoute,
             vw_message = ''Plan has low confidence: '' @ fmt2 (confidence (tp_confidence p)),
             vw_severity = SeverityWarning\<rparr>]
      else [])"

fun is_link_task :: "task_type \<Rightarrow> bool" where
  "is_link_task (OpticalLinkEstablishment _) = True"
| "is_link_task _ = False"

definition explain :: "tasking_plan \<Rightarrow> plan_explanation" where
  "explain p =
     \<lparr>px_summary = ''Plan '' @ show_uuid (tp_plan_id p) @ '' compiled with '' @
        show_nat (length (tp_satellite_tasks p)) @ '' tasks and '' @
        show_nat (length (tp_link_reservations p)) @ '' link reservations'',
      px_routing_decisions =
        map (\<lambda>t. \<lparr>rd_source = st_satellite_id t, rd_destination = ''peer'', rd_selected_route = [],
                  rd_alternative_routes = [],
                  rd_rationale = ''Selected based on optimal geometry and availability''\<rparr>)
          (filter (\<lambda>t. is_link_task (st_task_type t)) (tp_satellite_tasks p)),
      px_resource_allocations = [], px_tradeoffs = [], px_warnings = []\<rparr>"


subsection \<open>Specification\<close>

text \<open>The window of a custody segment: 10 minutes, every 9 minutes.\<close>

definition custody_window :: "topology_forecast \<Rightarrow> nat \<Rightarrow> time_window" where
  "custody_window topo i =
     time_window_new (tf_horizon_start topo + duration_seconds (540 * int i))
       (tf_horizon_start topo + duration_seconds (540 * int i + 600))"

text \<open>A task is placed exactly in its window.\<close>

definition placed_exactly :: "satellite_task \<Rightarrow> scheduled_task \<Rightarrow> bool" where
  "placed_exactly t st \<longleftrightarrow> sd_task st = t \<and>
     sd_scheduled_start st = tw_start (st_scheduled_window t) \<and>
     sd_scheduled_end st = tw_end (st_scheduled_window t)"

definition enumerated_relay :: "compile_env \<Rightarrow> 'v constellation_state \<Rightarrow> nat \<Rightarrow> routed_hop list \<Rightarrow>
    satellite_task list" where
  "enumerated_relay env c k hs = map (\<lambda>(i, h). relay_task env c i h) (enumerate k hs)"

definition sample_env :: compile_env where
  "sample_env =
     \<lparr>ce_chrono = all_dates, ce_trig = sample_trig, ce_name_uuid = (\<lambda>_. 99), ce_terminal_order = [],
      ce_satellite_order = [''s'', ''r''], ce_station_order = [''gs''], ce_now = 0, ce_later = 0,
      ce_plan_id = 1000, ce_task_id = (\<lambda>i. of_nat i), ce_downlink_id = (\<lambda>i. of_nat (100 + i)),
      ce_link_id = (\<lambda>i. of_nat (200 + i))\<rparr>"

definition long_forecast :: topology_forecast where
  "long_forecast = forecast_new 0 (duration_seconds 7200)"

definition sample_hops :: "routed_hop list" where
  "sample_hops = [make_hop 0 (sample_edge ''a'' ''b''), make_hop hop_seconds (sample_edge ''b'' ''c'')]"

section \<open>Lemmas\<close>

lemma collect_turns_Cons:
  assumes "collect_turns f (i # is) = Some (ts, rs)"
  obtains x us qs where "f i = Some x" "collect_turns f is = Some (us, qs)"
    "ts = fst x @ us" "rs = snd x @ qs"
proof -
  from assms obtain a b where ab: "f i = Some (a, b)" by (cases "f i") auto
  with assms obtain us qs where "collect_turns f is = Some (us, qs)" "ts = a @ us" "rs = b @ qs"
    by (cases "collect_turns f is") auto
  with ab that [of "(a, b)" us qs] show ?thesis by simp
qed

lemma collect_turns_single:
  assumes "collect_turns f is = Some (ts, rs)"
    and "\<And>i x. f i = Some x \<Longrightarrow> length (fst x) = 1 \<and> length (snd x) = 1"
  shows "length ts = length is \<and> length rs = length is \<and>
    (\<forall>j < length is. f (is ! j) = Some ([ts ! j], [rs ! j]))"
  using assms(1)
proof (induction "is" arbitrary: ts rs)
  case Nil
  then show ?case by simp
next
  case (Cons i "is")
  from Cons.prems obtain x us qs where x: "f i = Some x" and rest: "collect_turns f is = Some (us, qs)"
    and ts: "ts = fst x @ us" "rs = snd x @ qs" by (rule collect_turns_Cons)
  from assms(2) [OF x] have lens: "length (fst x) = 1" "length (snd x) = 1" by simp_all
  then obtain t where t: "fst x = [t]" by (cases "fst x") simp_all
  from lens obtain r where r: "snd x = [r]" by (cases "snd x") simp_all
  note tr = t r
  then have "x = ([t], [r])" by (cases x) simp
  then have x': "f i = Some ([t], [r])" using x by simp
  from Cons.IH [OF rest] have IH: "length us = length is" "length qs = length is"
    "\<forall>j < length is. f (is ! j) = Some ([us ! j], [qs ! j])" by auto
  have "f ((i # is) ! j) = Some ([ts ! j], [rs ! j])" if "j < length (i # is)" for j
    using that IH ts tr x' by (cases j) simp_all
  with IH ts tr show ?case by simp
qed

text \<open>A property of every turn holds for every task and reservation.\<close>

lemma collect_turns_all:
  assumes "collect_turns f is = Some (ts, rs)"
  shows "(\<forall>t \<in> set ts. \<exists>i \<in> set is. \<exists>x. f i = Some x \<and> t \<in> set (fst x)) \<and>
    (\<forall>r \<in> set rs. \<exists>i \<in> set is. \<exists>x. f i = Some x \<and> r \<in> set (snd x))"
  using assms
proof (induction "is" arbitrary: ts rs)
  case Nil
  then show ?case by simp
next
  case (Cons i "is")
  from Cons.prems show ?case
  proof (rule collect_turns_Cons)
    fix x us qs
    assume x: "f i = Some x" and rest: "collect_turns f is = Some (us, qs)"
      and ts: "ts = fst x @ us" "rs = snd x @ qs"
    from Cons.IH [OF rest] x show ?thesis unfolding ts set_append list.set by blast
  qed
qed

lemma custody_turn_Some:
  assumes "custody_turn env target relays c topo sla i = Some (ts, rs)"
  shows "\<exists>t r. ts = [t] \<and> rs = [r] \<and> st_scheduled_window t = custody_window topo i \<and>
    lr_time_window r = custody_window topo i \<and> st_task_id t = ce_task_id env i \<and>
    st_dependencies t = (if i = 0 then [] else [ce_task_id env (i - 1)])"
  using assms
  by (auto simp: custody_turn_def date_add_def custody_window_def segment_secs_def overlap_secs_def
    duration_seconds_def Let_def algebra_simps split: if_splits bind_splits)

lemma num_segments_bound:
  assumes "6000 < h"
  shows "540 * int (num_segments h) + 60 < h"
proof -
  have "int (num_segments h) = (h + 599) div 600"
    using assms by (simp add: num_segments_def segment_secs_def trunc_div_nonneg add.commute)
  then have "600 * int (num_segments h) \<le> h + 599" by linarith
  with assms show ?thesis by linarith
qed

lemma observation_turn_reservations:
  assumes "observation_turn env target sensor revisit c topo sla i = Some x" and "r \<in> set (snd x)"
  shows "tw_end (ba_valid_window (lr_bandwidth r)) = tw_start (lr_time_window r)"
  using assms
  by (auto simp: observation_turn_def Let_def time_window_new_def split: bind_splits option.splits)

subsection \<open>Relays and the task scheduler\<close>

lemma enumerated_relay_simps [simp]:
  "enumerated_relay env c k [] = []"
  "enumerated_relay env c k (h # hs) = relay_task env c k h # enumerated_relay env c (Suc k) hs"
  by (simp_all add: enumerated_relay_def)

lemma relay_plan_tasks: "fst (relay_plan env c hs) = enumerated_relay env c 0 hs"
  by (simp add: relay_plan_def enumerated_relay_def)

lemma nth_enumerated_relay: "j < length hs \<Longrightarrow>
    enumerated_relay env c k hs ! j = relay_task env c (k + j) (hs ! j)"
  by (simp add: enumerated_relay_def nth_enumerate_eq)

text \<open>One hop of a relay, after the hop before it.\<close>

lemma relay_hop_schedules:
  assumes t: "t = relay_task env c k (make_hop now e)"
    and "0 < k \<longrightarrow> (\<exists>sd. m (ce_task_id env (k - 1)) = Some sd \<and> sd_scheduled_end sd = now)"
    and "date_in_range ch (now + hop_seconds)"
  shows "deps_ready m t \<and> calculate_task_timing ch m t = Some (Inr (now, now + hop_seconds))"
proof -
  have window: "st_scheduled_window t = time_window_new now (now + hop_seconds)"
    by (simp add: t relay_task_def make_hop_def)
  have len: "task_duration (st_task_type t) = hop_seconds"
    by (simp add: t relay_task_def hop_seconds_def)
  have deps: "st_dependencies t = (if 0 < k then [ce_task_id env (k - 1)] else [])"
    by (simp add: t relay_task_def)
  have "deps_ready m t" using assms(2) by (auto simp: deps_ready_def deps)
  moreover have "task_start m t = now"
    using assms(2)
    by (auto simp: task_start_def deps window time_window_new_def max_datetime_def List.map_filter_def)
  ultimately show ?thesis
    using assms(3) by (simp add: calculate_task_timing_def len window time_window_new_def date_add_def)
qed

lemma relay_schedules_from:
  assumes "path_ok topo n t hs d"
    and "0 < k \<longrightarrow> (\<exists>sd. ts_scheduled_tasks s (ce_task_id env (k - 1)) = Some sd \<and> sd_scheduled_end sd = t)"
    and "inj_on (ce_task_id env) {..<k + length hs}"
    and "\<forall>i < length hs. date_in_range ch (t + int (Suc i) * hop_seconds)"
    and "ts_task_queue s = enumerated_relay env c k hs"
  shows "\<exists>s'. schedule_tasks ch ord s = Some (Some (Inr (), s')) \<and> ts_task_queue s' = [] \<and>
    (\<forall>i < length hs. \<exists>st. ts_scheduled_tasks s' (ce_task_id env (k + i)) = Some st \<and>
       placed_exactly (relay_task env c (k + i) (hs ! i)) st) \<and>
    (\<forall>j < k. ts_scheduled_tasks s' (ce_task_id env j) = ts_scheduled_tasks s (ce_task_id env j))"
  using assms
proof (induction hs arbitrary: n t k s)
  case Nil
  then show ?case by (subst schedule_tasks.simps) simp
next
  case (Cons h hs)
  define task where "task = relay_task env c k h"
  define s0 where "s0 = s\<lparr>ts_task_queue := enumerated_relay env c (Suc k) hs\<rparr>"
  from Cons.prems(1) have h: "h = make_hop t (rh_edge h)"
    and tail: "path_ok topo (snd (pe_endpoints (rh_edge h))) (t + hop_seconds) hs d" by auto
  have range0: "date_in_range ch (t + hop_seconds)" using Cons.prems(4) by force
  have "task = relay_task env c k (make_hop t (rh_edge h))" using h by (simp add: task_def)
  from relay_hop_schedules [where m = "ts_scheduled_tasks s", OF this Cons.prems(2) range0]
  have ready: "deps_ready (ts_scheduled_tasks s0) task"
    and timing: "calculate_task_timing ch (ts_scheduled_tasks s0) task = Some (Inr (t, t + hop_seconds))"
    by (simp_all add: s0_def)
  define placed where "placed = \<lparr>sd_task = task, sd_scheduled_start = t,
    sd_scheduled_end = t + hop_seconds, sd_dependencies_satisfied = True\<rparr>"
  obtain s1 where single: "schedule_single_task ch ord task s0 = Some (Inr (), s1)"
    and s1: "ts_task_queue s1 = enumerated_relay env c (Suc k) hs"
      "ts_scheduled_tasks s1 = (ts_scheduled_tasks s)(ce_task_id env k \<mapsto> placed)"
    using ready timing
    by (auto simp: schedule_single_task_def Let_def resolve_conflict_def placed_def s0_def task_def
      relay_task_def split: option.splits)
  have loop: "schedule_tasks ch ord s = schedule_tasks ch ord s1"
    using Cons.prems(5) single by (subst schedule_tasks.simps) (simp add: task_def s0_def)
  have "\<exists>s'. schedule_tasks ch ord s1 = Some (Some (Inr (), s')) \<and> ts_task_queue s' = [] \<and>
    (\<forall>i < length hs. \<exists>st. ts_scheduled_tasks s' (ce_task_id env (Suc k + i)) = Some st \<and>
       placed_exactly (relay_task env c (Suc k + i) (hs ! i)) st) \<and>
    (\<forall>j < Suc k. ts_scheduled_tasks s' (ce_task_id env j) = ts_scheduled_tasks s1 (ce_task_id env j))"
  proof (rule Cons.IH [OF tail _ _ _ s1(1)])
    show "0 < Suc k \<longrightarrow> (\<exists>sd. ts_scheduled_tasks s1 (ce_task_id env (Suc k - 1)) = Some sd \<and>
        sd_scheduled_end sd = t + hop_seconds)"
      by (simp add: s1(2) placed_def)
    show "inj_on (ce_task_id env) {..<Suc k + length hs}" using Cons.prems(3) by simp
    show "\<forall>i < length hs. date_in_range ch (t + hop_seconds + int (Suc i) * hop_seconds)"
    proof (intro allI impI)
      fix i assume "i < length hs"
      then have "Suc i < length (h # hs)" by simp
      with Cons.prems(4) have "date_in_range ch (t + int (Suc (Suc i)) * hop_seconds)" by blast
      moreover have "t + int (Suc (Suc i)) * hop_seconds = t + hop_seconds + int (Suc i) * hop_seconds"
        by (simp add: algebra_simps)
      ultimately show "date_in_range ch (t + hop_seconds + int (Suc i) * hop_seconds)" by (simp only:)
    qed
  qed
  then obtain s' where s': "schedule_tasks ch ord s = Some (Some (Inr (), s'))" "ts_task_queue s' = []"
    "\<forall>i < length hs. \<exists>st. ts_scheduled_tasks s' (ce_task_id env (Suc k + i)) = Some st \<and>
       placed_exactly (relay_task env c (Suc k + i) (hs ! i)) st"
    "\<forall>j < Suc k. ts_scheduled_tasks s' (ce_task_id env j) = ts_scheduled_tasks s1 (ce_task_id env j)"
    unfolding loop by blast
  have first: "ts_scheduled_tasks s' (ce_task_id env k) = Some placed" using s'(4) s1(2) by simp
  have "rh_use_window h = time_window_new t (t + hop_seconds)" by (subst h) (simp add: make_hop_def)
  then have exact: "placed_exactly (relay_task env c k h) placed"
    by (simp add: placed_exactly_def placed_def task_def relay_task_def time_window_new_def)
  have "ts_scheduled_tasks s1 (ce_task_id env j) = ts_scheduled_tasks s (ce_task_id env j)" if "j < k" for j
  proof -
    have "ce_task_id env j \<noteq> ce_task_id env k"
      using that Cons.prems(3) inj_onD [of "ce_task_id env" "{..<k + length (h # hs)}" j k] by auto
    then show ?thesis by (simp add: s1(2))
  qed
  moreover have "\<exists>st. ts_scheduled_tasks s' (ce_task_id env (k + i)) = Some st \<and>
      placed_exactly (relay_task env c (k + i) ((h # hs) ! i)) st" if "i < length (h # hs)" for i
    using that first exact s'(3) by (cases i) auto
  ultimately show ?case using s' by auto
qed

lemma collect_turns_total: "\<forall>i \<in> set is. f i \<noteq> None \<Longrightarrow> \<exists>ts rs. collect_turns f is = Some (ts, rs)"
proof (induction "is")
  case Nil
  then show ?case by simp
next
  case (Cons i "is")
  then obtain x us qs where "f i = Some x" "collect_turns f is = Some (us, qs)" by auto
  then show ?case by (cases x) simp
qed

lemma custody_turn_total: "custody_turn sample_env target relays c topo sla i \<noteq> None"
  by (simp add: custody_turn_def sample_env_def all_dates_def date_add_def Let_def)

lemma observation_turn_total: "observation_turn sample_env target sensor revisit c topo sla i \<noteq> None"
  by (simp add: observation_turn_def sample_env_def all_dates_def date_add_def Let_def split: option.splits)

lemma custody_compiles:
  "\<exists>ts rs. compile_custody sample_env ''s'' (duration_seconds 7200) sample_constellation long_forecast sample_sla =
     Some (Inr (ts, rs))"
proof -
  have "resolve_asset (ce_terminal_order sample_env) ''s'' sample_constellation = Some ''s''"
    by (simp add: resolve_asset_def sample_constellation_def)
  moreover have "filter (\<lambda>i. i \<noteq> ''s'') (ce_satellite_order sample_env) = [''r'']"
    by (simp add: sample_env_def)
  ultimately show ?thesis
    using collect_turns_total [of _ "custody_turn sample_env ''s'' [''r''] sample_constellation long_forecast sample_sla"]
      custody_turn_total
    by (fastforce simp: compile_custody_def)
qed

lemma observation_compiles:
  "\<exists>ts rs. compile_observation sample_env \<lparr>gr_name = ''g'', gr_polygon = []\<rparr> SensorOptical (duration_seconds 60)
     sample_constellation long_forecast sample_sla = Some (Inr (ts, rs))"
proof -
  have "ce_satellite_order sample_env \<noteq> []" by (simp add: sample_env_def)
  then show ?thesis
    using collect_turns_total observation_turn_total
    by (fastforce simp: compile_observation_def Let_def)
qed

section \<open>Properties\<close>

text \<open>The segments of a compiled custody plan: segment \<open>i\<close> lasts ten minutes and starts \<open>9 i\<close> minutes
  after the forecast, so consecutive segments overlap by one minute, and it depends on the segment before
  it. But there are only as many segments as ten minutes fit in: a custody of more than 100 minutes ends
  before the requested time.\<close>

theorem custody_segments:
  assumes "compile_custody env target persistence c topo sla = Some (Inr (ts, rs))"
  shows "length ts = num_segments (custody_seconds topo persistence) \<and>
    (\<forall>i < length ts. st_scheduled_window (ts ! i) = custody_window topo i \<and>
       st_dependencies (ts ! i) = (if i = 0 then [] else [st_task_id (ts ! (i - 1))])) \<and>
    (6000 < custody_seconds topo persistence \<longrightarrow> (\<forall>t \<in> set ts. tw_end (st_scheduled_window t) <
       tf_horizon_start topo + duration_seconds (custody_seconds topo persistence)))"
proof -
  define h where "h = custody_seconds topo persistence"
  from assms obtain target_sat relays where
    run: "collect_turns (custody_turn env target_sat relays c topo sla) [0..<num_segments h] = Some (ts, rs)"
    by (auto simp: compile_custody_def h_def Let_def split: option.splits if_splits)
  have "length (fst x) = 1 \<and> length (snd x) = 1" if "custody_turn env target_sat relays c topo sla i = Some x" for i x
    using custody_turn_Some [of env target_sat relays c topo sla i "fst x" "snd x"] that by auto
  from collect_turns_single [OF run this] have len: "length ts = num_segments h"
    and turn: "\<forall>i < length ts. custody_turn env target_sat relays c topo sla i = Some ([ts ! i], [rs ! i])"
    by auto
  have task: "st_scheduled_window (ts ! i) = custody_window topo i \<and> st_task_id (ts ! i) = ce_task_id env i \<and>
      st_dependencies (ts ! i) = (if i = 0 then [] else [ce_task_id env (i - 1)])" if "i < length ts" for i
    using custody_turn_Some [of env target_sat relays c topo sla i "[ts ! i]" "[rs ! i]"] turn that by auto
  have "tw_end (custody_window topo i) < tf_horizon_start topo + duration_seconds h"
    if "6000 < h" "i < length ts" for i
    using num_segments_bound [OF that(1)] that(2) len
    by (simp add: custody_window_def time_window_new_def duration_seconds_def)
  then have "\<forall>t \<in> set ts. tw_end (st_scheduled_window t) < tf_horizon_start topo + duration_seconds h"
    if "6000 < h" using that task by (auto simp: in_set_conv_nth)
  with len task show ?thesis by (auto simp: h_def)
qed

lemma custody_segments_witness:
  "\<exists>ts rs. compile_custody sample_env ''s'' (duration_seconds 7200) sample_constellation long_forecast sample_sla =
     Some (Inr (ts, rs)) \<and> length ts = num_segments (custody_seconds long_forecast (duration_seconds 7200)) \<and>
    (\<forall>i < length ts. st_scheduled_window (ts ! i) = custody_window long_forecast i \<and>
       st_dependencies (ts ! i) = (if i = 0 then [] else [st_task_id (ts ! (i - 1))])) \<and>
    (\<forall>t \<in> set ts. tw_end (st_scheduled_window t) < duration_seconds 7200)"
proof -
  have h: "custody_seconds long_forecast (duration_seconds 7200) = 7200" "tf_horizon_start long_forecast = 0"
    by (simp_all add: custody_seconds_def long_forecast_def forecast_new_def num_seconds_nonneg duration_seconds_def)
  from custody_compiles obtain ts rs where run: "compile_custody sample_env ''s'' (duration_seconds 7200)
      sample_constellation long_forecast sample_sla = Some (Inr (ts, rs))" by blast
  from custody_segments [OF run] run show ?thesis unfolding h by (intro exI [of _ ts] exI [of _ rs]) simp
qed

text \<open>A compiled relay is schedulable. The tasks compiled from the hops of a path, with distinct fresh
  identifiers, are all placed by the task scheduler, each exactly in the window of its hop, whatever was
  scheduled before and whatever order the queue's map has: the 30 seconds of a hop are the duration of a
  link task, and each task starts when the one it depends on ends.\<close>

theorem compiled_relay_schedules:
  assumes "path_ok topo source t hs dest" and "inj_on (ce_task_id env) {..<length hs}"
    and "\<forall>i < length hs. date_in_range ch (t + int (Suc i) * hop_seconds)"
    and "ts_task_queue s = fst (relay_plan env c hs)"
  shows "\<exists>s'. schedule_tasks ch ord s = Some (Some (Inr (), s')) \<and> ts_task_queue s' = [] \<and>
    (\<forall>i < length hs. \<exists>st. ts_scheduled_tasks s' (ce_task_id env i) = Some st \<and>
       placed_exactly (relay_task env c i (hs ! i)) st)"
  using relay_schedules_from [OF assms(1), where k = 0 and s = s and env = env and c = c and ch = ch and ord = ord]
    assms(2-4) by (auto simp: relay_plan_tasks)

lemma compiled_relay_schedules_witness:
  "\<exists>s'. schedule_tasks wide_dates (\<lambda>_. [])
      (tasking_new\<lparr>ts_task_queue := fst (relay_plan sample_env sample_constellation sample_hops)\<rparr>) =
      Some (Some (Inr (), s')) \<and> ts_task_queue s' = [] \<and>
    (\<forall>i < length sample_hops. \<exists>st. ts_scheduled_tasks s' (ce_task_id sample_env i) = Some st \<and>
       placed_exactly (relay_task sample_env sample_constellation i (sample_hops ! i)) st)"
proof (rule compiled_relay_schedules [where topo = sample_forecast and t = 0])
  have edges: "sg_potential_edges (query_at t sample_forecast) =
      [sample_edge ''a'' ''b'', sample_edge ''b'' ''c'']" if "0 \<le> t" for t
    using that by (simp add: query_at_def get_at_nearest nearest_snapshot_def sample_forecast_def
      btm_get_def btm_floor_def btm_ceiling_def last_entry_def first_entry_def)
  show "path_ok sample_forecast ''a'' 0 sample_hops ''c''"
    by (simp add: sample_hops_def edges)
      (simp add: make_hop_def sample_edge_def tw_contains_def time_window_new_def hop_seconds_def
        duration_seconds_def edges [unfolded sample_edge_def])
  show "inj_on (ce_task_id sample_env) {..<length sample_hops}"
    by (simp add: sample_hops_def sample_env_def inj_on_def lessThan_Suc)
  show "\<forall>i < length sample_hops. date_in_range wide_dates (0 + int (Suc i) * hop_seconds)"
    by (simp add: sample_hops_def wide_dates_def hop_seconds_def duration_seconds_def less_Suc_eq)
qed (simp add: tasking_new_def)

text \<open>The bandwidth that a compiled observation reserves for a downlink is valid in the wrong window:
  it ends exactly when the reserved link window begins, in every reservation of the plan.\<close>

theorem observation_bandwidth_misses_downlink:
  assumes "compile_observation env target sensor revisit c topo sla = Some (Inr (ts, rs))"
  shows "\<forall>r \<in> set rs. tw_end (ba_valid_window (lr_bandwidth r)) = tw_start (lr_time_window r)"
proof -
  from assms obtain f n where f: "collect_turns f [0..<n] = Some (ts, rs)"
    "f = observation_turn env target sensor (max (num_seconds revisit) 60) c topo sla"
    by (auto simp: compile_observation_def Let_def split: if_splits)
  show ?thesis using collect_turns_all [OF f(1)] unfolding f(2)
    by (metis observation_turn_reservations)
qed

lemma observation_bandwidth_misses_downlink_witness:
  "\<exists>ts rs. compile_observation sample_env \<lparr>gr_name = ''g'', gr_polygon = []\<rparr> SensorOptical (duration_seconds 60)
      sample_constellation long_forecast sample_sla = Some (Inr (ts, rs)) \<and>
    (\<forall>r \<in> set rs. tw_end (ba_valid_window (lr_bandwidth r)) = tw_start (lr_time_window r))"
proof -
  from observation_compiles obtain ts rs where run: "compile_observation sample_env
      \<lparr>gr_name = ''g'', gr_polygon = []\<rparr> SensorOptical (duration_seconds 60) sample_constellation long_forecast
      sample_sla = Some (Inr (ts, rs))" by blast
  from observation_bandwidth_misses_downlink [OF run] run show ?thesis by blast
qed

end
