(* ===== verification/Oisl_Validator.thy ===== *)
theory Oisl_Validator
  imports Oisl_Topology Oisl_Mission
begin

text \<open>
  The validator of tasking plans (\<open>oisl/src/mission/validator.rs\<close>): five passes that collect warnings, and
  a verdict that looks for one of severity \<open>Error\<close>.

  The record \<open>render\<close> holds the debug renderings of the messages; the iteration orders of the two hash
  maps (terminals, satellites) are arguments.
\<close>

section \<open>Definitions\<close>

record render =
  rn_region :: "geo_region \<Rightarrow> string"
  rn_date :: "datetime \<Rightarrow> string"
  rn_uuid :: "uuid \<Rightarrow> string"

record 'v plan_validator =
  pv_constellation :: "'v constellation_state"
  pv_topology :: topology_forecast

definition validator_new :: "'v constellation_state \<Rightarrow> topology_forecast \<Rightarrow> 'v plan_validator" where
  "validator_new c topo = \<lparr>pv_constellation = c, pv_topology = topo\<rparr>"

record validation_report =
  vr_is_valid :: bool
  vr_warnings :: "validation_warning list"

definition is_restricted_region :: "geo_region \<Rightarrow> bool" where
  "is_restricted_region target = False"

fun observation_target :: "task_type \<Rightarrow> geo_region option" where
  "observation_target (ObservationTask target sensor) = Some target"
| "observation_target _ = None"

definition validate_regulatory_compliance :: "render \<Rightarrow> tasking_plan \<Rightarrow> validation_warning list" where
  "validate_regulatory_compliance rn p =
     map (\<lambda>g. \<lparr>vw_warning_type = RegulatoryConcern,
               vw_message = ''Observation target may be in restricted region: '' @ rn_region rn g,
               vw_severity = SeverityError\<rparr>)
       (filter is_restricted_region
         (List.map_filter (\<lambda>t. observation_target (st_task_type t)) (tp_satellite_tasks p)))"

definition plan_end :: "tasking_plan \<Rightarrow> datetime" where
  "plan_end p =
     (if tp_satellite_tasks p = [] then tp_valid_until p
      else Max (set (map (\<lambda>t. tw_end (st_scheduled_window t)) (tp_satellite_tasks p))))"

definition validate_sla_compliance :: "render \<Rightarrow> tasking_plan \<Rightarrow> validation_warning list" where
  "validate_sla_compliance rn p =
     (if tp_valid_until p < plan_end p
      then [\<lparr>vw_warning_type = TimingMargin,
             vw_message = ''Plan extends beyond valid_until: '' @ rn_date rn (plan_end p) @ '' > '' @
               rn_date rn (tp_valid_until p),
             vw_severity = SeverityError\<rparr>]
      else [])"

text \<open>How many times a terminal is named by the reservations.\<close>

definition terminal_usage :: "tasking_plan \<Rightarrow> uuid \<Rightarrow> nat" where
  "terminal_usage p t =
     count_list (concat (map (\<lambda>r. [lr_terminal_a r, lr_terminal_b r]) (tp_link_reservations p))) t"

definition validate_resource_availability :: "render \<Rightarrow> uuid list \<Rightarrow> tasking_plan \<Rightarrow>
    validation_warning list" where
  "validate_resource_availability rn ts p =
     map (\<lambda>t. \<lparr>vw_warning_type = ResourceContention,
               vw_message = ''Terminal '' @ rn_uuid rn t @ '' used '' @ show_nat (terminal_usage p t) @
                 '' times concurrently'',
               vw_severity = SeverityWarning\<rparr>)
       (filter (\<lambda>t. 1 < terminal_usage p t) ts)"

definition terminal_known :: "topology_forecast \<Rightarrow> datetime \<Rightarrow> uuid \<Rightarrow> bool" where
  "terminal_known topo t i \<longleftrightarrow> sg_nodes (query_at t topo) (show_uuid i) \<noteq> None"

definition validate_topology_consistency :: "topology_forecast \<Rightarrow> tasking_plan \<Rightarrow>
    validation_warning list" where
  "validate_topology_consistency topo p =
     map (\<lambda>r. \<lparr>vw_warning_type = LowConfidenceRoute,
               vw_message = ''Link reservation references terminal not in topology'',
               vw_severity = SeverityError\<rparr>)
       (filter (\<lambda>r. \<not> terminal_known topo (tw_start (lr_time_window r)) (lr_terminal_a r) \<or>
                    \<not> terminal_known topo (tw_start (lr_time_window r)) (lr_terminal_b r))
         (tp_link_reservations p))"

text \<open>The overlapping pairs of a list of windows, each position with the later ones.\<close>

fun overlapping_pairs :: "time_window list \<Rightarrow> nat" where
  "overlapping_pairs [] = 0"
| "overlapping_pairs (w # ws) = length (filter (tw_overlaps w) ws) + overlapping_pairs ws"

definition satellite_windows :: "tasking_plan \<Rightarrow> string \<Rightarrow> time_window list" where
  "satellite_windows p sat =
     map st_scheduled_window (filter (\<lambda>t. st_satellite_id t = sat) (tp_satellite_tasks p))"

definition validate_timing_constraints :: "string list \<Rightarrow> tasking_plan \<Rightarrow> validation_warning list" where
  "validate_timing_constraints sats p =
     concat (map (\<lambda>sat. replicate (overlapping_pairs (satellite_windows p sat))
       \<lparr>vw_warning_type = ResourceContention,
        vw_message = ''Satellite '' @ sat @ '' has overlapping task windows'',
        vw_severity = SeverityWarning\<rparr>) sats)"

definition validate_plan :: "render \<Rightarrow> uuid list \<Rightarrow> string list \<Rightarrow> tasking_plan \<Rightarrow> 'v plan_validator \<Rightarrow>
    validation_report" where
  "validate_plan rn ts sats p v =
     (let ws = validate_regulatory_compliance rn p @ validate_sla_compliance rn p @
               validate_resource_availability rn ts p @
               validate_topology_consistency (pv_topology v) p @ validate_timing_constraints sats p
      in \<lparr>vr_is_valid = (\<forall>w \<in> set ws. vw_severity w \<noteq> SeverityError), vr_warnings = ws\<rparr>)"

text \<open>Two tasks of a list whose windows overlap.\<close>

definition double_booked :: "time_window list \<Rightarrow> bool" where
  "double_booked ws \<longleftrightarrow> (\<exists>i j. i < j \<and> j < length ws \<and> tw_overlaps (ws ! i) (ws ! j))"

section \<open>Lemmas\<close>

lemma is_overlap_warning_iff: "0 < overlapping_pairs ws \<longleftrightarrow> double_booked ws"
proof (induction ws)
  case Nil
  then show ?case by (simp add: double_booked_def)
next
  case (Cons w ws)
  have "0 < length (filter (tw_overlaps w) ws) \<longleftrightarrow> (\<exists>j < length ws. tw_overlaps w (ws ! j))"
    by (simp add: filter_empty_conv) (metis in_set_conv_nth)
  moreover have "double_booked (w # ws) \<longleftrightarrow> (\<exists>j < length ws. tw_overlaps w (ws ! j)) \<or> double_booked ws"
  proof
    assume "double_booked (w # ws)"
    then obtain i j where ij: "i < j" "j < Suc (length ws)" "tw_overlaps ((w # ws) ! i) ((w # ws) ! j)"
      by (auto simp: double_booked_def)
    then obtain j' where j: "j = Suc j'" by (cases j) auto
    show "(\<exists>j < length ws. tw_overlaps w (ws ! j)) \<or> double_booked ws"
    proof (cases i)
      case 0
      with ij j show ?thesis by auto
    next
      case (Suc i')
      with ij j show ?thesis by (auto simp: double_booked_def)
    qed
  next
    assume "(\<exists>j < length ws. tw_overlaps w (ws ! j)) \<or> double_booked ws"
    then show "double_booked (w # ws)"
    proof
      assume "\<exists>j < length ws. tw_overlaps w (ws ! j)"
      then obtain j where "j < length ws" "tw_overlaps w (ws ! j)" by blast
      then show ?thesis unfolding double_booked_def by (intro exI [of _ 0] exI [of _ "Suc j"]) simp
    next
      assume "double_booked ws"
      then obtain i j where "i < j" "j < length ws" "tw_overlaps (ws ! i) (ws ! j)"
        by (auto simp: double_booked_def)
      then show ?thesis unfolding double_booked_def by (intro exI [of _ "Suc i"] exI [of _ "Suc j"]) simp
    qed
  qed
  ultimately show ?case using Cons.IH by auto
qed

lemma plan_end_le: "plan_end p \<le> tp_valid_until p \<longleftrightarrow>
    (\<forall>t \<in> set (tp_satellite_tasks p). tw_end (st_scheduled_window t) \<le> tp_valid_until p)"
  by (simp add: plan_end_def)

text \<open>Only the last pass writes messages that begin with the word Satellite.\<close>

lemma overlap_warning_iff:
  "(\<exists>w \<in> set (vr_warnings (validate_plan rn ts sats p v)).
        vw_message w = ''Satellite '' @ sat @ '' has overlapping task windows'') \<longleftrightarrow>
     sat \<in> set sats \<and> double_booked (satellite_windows p sat)"
proof -
  let ?m = "''Satellite '' @ sat @ '' has overlapping task windows''"
  have "set (validate_timing_constraints sats p) =
      (\<lambda>sat. \<lparr>vw_warning_type = ResourceContention,
        vw_message = ''Satellite '' @ sat @ '' has overlapping task windows'', vw_severity = SeverityWarning\<rparr>) `
      {sat \<in> set sats. double_booked (satellite_windows p sat)}"
    by (auto simp: validate_timing_constraints_def is_overlap_warning_iff [symmetric])
  then have timing: "(\<exists>w \<in> set (validate_timing_constraints sats p). vw_message w = ?m) \<longleftrightarrow>
      sat \<in> set sats \<and> double_booked (satellite_windows p sat)"
    by auto
  have "vw_message w \<noteq> ?m" if "w \<in> set (validate_regulatory_compliance rn p @ validate_sla_compliance rn p @
      validate_resource_availability rn ts p @ validate_topology_consistency (pv_topology v) p)" for w
    using that by (auto simp: validate_regulatory_compliance_def validate_sla_compliance_def
        validate_resource_availability_def validate_topology_consistency_def split: if_splits)
  with timing show ?thesis by (auto simp: validate_plan_def Let_def)
qed

section \<open>Properties\<close>

text \<open>C18: what the validator accepts and when it warns of overlaps. It accepts exactly the plans whose tasks all end by the
  plan's end of validity and whose reservations name terminals that are, by the text of their UUID, nodes of the forecast
  when they start; restricted regions, terminals reserved several times and overlapping tasks of a satellite never make a
  plan invalid. The report has the warning that a satellite is booked twice exactly when two of its tasks overlap.
  \<open>sats\<close> is the order in which the satellites are visited.\<close>

theorem plan_valid_iff:
  "(vr_is_valid (validate_plan rn ts sats p v) \<longleftrightarrow>
      (\<forall>t \<in> set (tp_satellite_tasks p). tw_end (st_scheduled_window t) \<le> tp_valid_until p) \<and>
      (\<forall>r \<in> set (tp_link_reservations p).
         terminal_known (pv_topology v) (tw_start (lr_time_window r)) (lr_terminal_a r) \<and>
         terminal_known (pv_topology v) (tw_start (lr_time_window r)) (lr_terminal_b r))) \<and>
   ((\<exists>w \<in> set (vr_warnings (validate_plan rn ts sats p v)).
        vw_message w = ''Satellite '' @ sat @ '' has overlapping task windows'') \<longleftrightarrow>
      sat \<in> set sats \<and> double_booked (satellite_windows p sat))"
proof -
  have reg: "validate_regulatory_compliance rn p = []"
    by (simp add: validate_regulatory_compliance_def is_restricted_region_def)
  moreover have "(\<forall>w \<in> set (validate_sla_compliance rn p). vw_severity w \<noteq> SeverityError) \<longleftrightarrow>
      plan_end p \<le> tp_valid_until p"
    by (simp add: validate_sla_compliance_def not_less)
  moreover have "\<forall>w \<in> set (validate_resource_availability rn ts p). vw_severity w \<noteq> SeverityError"
    by (simp add: validate_resource_availability_def)
  moreover have "\<forall>w \<in> set (validate_timing_constraints sats p). vw_severity w \<noteq> SeverityError"
    by (auto simp: validate_timing_constraints_def)
  moreover have "(\<forall>w \<in> set (validate_topology_consistency (pv_topology v) p). vw_severity w \<noteq> SeverityError) \<longleftrightarrow>
      (\<forall>r \<in> set (tp_link_reservations p).
         terminal_known (pv_topology v) (tw_start (lr_time_window r)) (lr_terminal_a r) \<and>
         terminal_known (pv_topology v) (tw_start (lr_time_window r)) (lr_terminal_b r))"
    by (auto simp: validate_topology_consistency_def)
  ultimately have "vr_is_valid (validate_plan rn ts sats p v) \<longleftrightarrow>
      (\<forall>t \<in> set (tp_satellite_tasks p). tw_end (st_scheduled_window t) \<le> tp_valid_until p) \<and>
      (\<forall>r \<in> set (tp_link_reservations p).
         terminal_known (pv_topology v) (tw_start (lr_time_window r)) (lr_terminal_a r) \<and>
         terminal_known (pv_topology v) (tw_start (lr_time_window r)) (lr_terminal_b r))"
    by (auto simp: validate_plan_def Let_def plan_end_le)
  then show ?thesis by (simp only: simp_thms overlap_warning_iff)
qed

lemma plan_valid_iff_witness:
  "\<not> vr_is_valid (validate_plan \<lparr>rn_region = (\<lambda>_. []), rn_date = (\<lambda>_. []), rn_uuid = show_uuid\<rparr> [] []
     \<lparr>tp_plan_id = 0, tp_intent_id = 0, tp_satellite_tasks = [],
      tp_link_reservations = [\<lparr>lr_link_id = 0, lr_source = ''s'', lr_destination = ''gs'', lr_terminal_a = 1,
        lr_terminal_b = 2, lr_time_window = time_window_new 0 1,
        lr_bandwidth = \<lparr>ba_data_rate = DataRate 0, ba_valid_window = time_window_new 0 1\<rparr>\<rparr>],
      tp_confidence = confidence_new (lit 1), tp_compiled_at = now_stamp 0, tp_valid_until = 9\<rparr>
     (validator_new sample_constellation (forecast_new 0 9)))"
proof -
  have "\<not> terminal_known (forecast_new 0 9) 0 1"
    by (simp add: terminal_known_def query_at_def get_at_None forecast_new_def split: option.splits)
      (simp add: get_at_nearest btm_get_def nearest_snapshot_def btm_floor_def btm_ceiling_def
        last_entry_def first_entry_def)
  then show ?thesis
    by (subst plan_valid_iff [THEN conjunct1]) (simp add: validator_new_def time_window_new_def)
qed

end
