(* ===== verification/Keyhole.thy ===== *)
theory Keyhole
  imports Core_Types F64
begin

text \<open>
  Keyhole geometry of a ground station (\<open>scheduler/src/keyhole.rs\<close>): mounts, the analysis of an
  elevation profile, and the score penalty of a pass that enters the keyhole.

  The steps of a profile are counted in whole seconds, truncated: a pass is found to enter the
  keyhole exactly when some step of at least one second touches the threshold, so a profile that is
  sampled more often than that never enters it.
\<close>

section \<open>Definitions\<close>

datatype mount_type = AzimuthElevation f64 f64 | XY | Equatorial f64

definition has_zenith_keyhole :: "mount_type \<Rightarrow> bool" where
  "has_zenith_keyhole m \<longleftrightarrow> (case m of AzimuthElevation _ _ \<Rightarrow> True | _ \<Rightarrow> False)"

record keyhole_config =
  kc_threshold_elevation_deg :: f64
  kc_typical_loss_duration_s :: u32
  kc_schedule_handoff :: bool

definition default_azel :: keyhole_config where
  "default_azel = \<lparr>kc_threshold_elevation_deg = lit 80, kc_typical_loss_duration_s = 45,
                   kc_schedule_handoff = True\<rparr>"

definition high_speed_azel :: keyhole_config where
  "high_speed_azel = \<lparr>kc_threshold_elevation_deg = lit 87, kc_typical_loss_duration_s = 15,
                      kc_schedule_handoff = False\<rparr>"

definition slow_azel :: keyhole_config where
  "slow_azel = \<lparr>kc_threshold_elevation_deg = lit 75, kc_typical_loss_duration_s = 60,
                kc_schedule_handoff = True\<rparr>"

record keyhole_analysis =
  ka_station_id :: string
  ka_pass_max_elevation_deg :: f64
  ka_enters_keyhole :: bool
  ka_keyhole_entry :: "datetime option"
  ka_keyhole_exit :: "datetime option"
  ka_estimated_loss_s :: u32
  ka_handoff_recommended :: bool
  ka_loss_fraction :: f64

definition is_significant :: "keyhole_analysis \<Rightarrow> bool" where
  "is_significant a \<longleftrightarrow> 10 < ka_estimated_loss_s a \<and> flt (lit (5 / 100)) (ka_loss_fraction a)"

record station_geometry =
  sg_station_id :: string
  sg_mount_type :: mount_type
  sg_keyhole :: "keyhole_config option"
  sg_latitude_deg :: f64
  sg_longitude_deg :: f64
  sg_altitude_m :: f64

definition new_azel :: "string \<Rightarrow> f64 \<Rightarrow> f64 \<Rightarrow> f64 \<Rightarrow> keyhole_config \<Rightarrow> station_geometry" where
  "new_azel i la lo al kh =
     \<lparr>sg_station_id = i, sg_mount_type = AzimuthElevation (lit 5) (lit 5), sg_keyhole = Some kh,
      sg_latitude_deg = la, sg_longitude_deg = lo, sg_altitude_m = al\<rparr>"

definition new_xy :: "string \<Rightarrow> f64 \<Rightarrow> f64 \<Rightarrow> f64 \<Rightarrow> station_geometry" where
  "new_xy i la lo al =
     \<lparr>sg_station_id = i, sg_mount_type = XY, sg_keyhole = None,
      sg_latitude_deg = la, sg_longitude_deg = lo, sg_altitude_m = al\<rparr>"

text \<open>The keyhole of a station, when its mount has one.\<close>

definition keyhole_of :: "station_geometry \<Rightarrow> keyhole_config option" where
  "keyhole_of g =
     (case sg_keyhole g of
        Some kh \<Rightarrow> if has_zenith_keyhole (sg_mount_type g) then Some kh else None
      | None \<Rightarrow> None)"

definition in_keyhole :: "station_geometry \<Rightarrow> f64 \<Rightarrow> bool" where
  "in_keyhole g el \<longleftrightarrow>
     (case keyhole_of g of Some kh \<Rightarrow> fle (kc_threshold_elevation_deg kh) el | None \<Rightarrow> False)"

text \<open>A profile is a sequence of times, elevations and azimuths; the loop runs over its adjacent pairs.\<close>

type_synonym profile = "(datetime \<times> f64 \<times> f64) list"

definition above :: "f64 \<Rightarrow> datetime \<times> f64 \<times> f64 \<Rightarrow> bool" where
  "above th p \<longleftrightarrow> fle th (fst (snd p))"

fun keyhole_loop :: "f64 \<Rightarrow> profile \<Rightarrow> datetime option \<times> datetime option \<times> int \<Rightarrow>
    datetime option \<times> datetime option \<times> int" where
  "keyhole_loop th (p # q # ps) (en, ex, secs) =
     keyhole_loop th (q # ps)
       (if \<not> above th p \<and> above th q \<and> en = None then Some (fst p) else en,
        if above th p \<and> \<not> above th q then Some (fst q) else ex,
        if above th p \<or> above th q then secs + num_seconds (fst q - fst p) else secs)"
| "keyhole_loop th _ acc = acc"

definition max_elevation :: "profile \<Rightarrow> f64" where
  "max_elevation ps = foldl fmax (Inf True) (map (\<lambda>p. fst (snd p)) ps)"

definition analyse_pass :: "station_geometry \<Rightarrow> profile \<Rightarrow> u32 \<Rightarrow> keyhole_analysis" where
  "analyse_pass g ps duration =
     (case keyhole_of g of
        None \<Rightarrow>
          \<lparr>ka_station_id = sg_station_id g, ka_pass_max_elevation_deg = max_elevation ps,
           ka_enters_keyhole = False, ka_keyhole_entry = None, ka_keyhole_exit = None,
           ka_estimated_loss_s = 0, ka_handoff_recommended = False, ka_loss_fraction = lit 0\<rparr>
      | Some kh \<Rightarrow>
          (let (en, ex, secs) = keyhole_loop (kc_threshold_elevation_deg kh) ps (None, None, 0);
               enters = 0 < secs;
               loss = (if enters then word_of_int (min secs (uint (kc_typical_loss_duration_s kh))) else 0)
           in \<lparr>ka_station_id = sg_station_id g, ka_pass_max_elevation_deg = max_elevation ps,
               ka_enters_keyhole = enters, ka_keyhole_entry = en, ka_keyhole_exit = ex,
               ka_estimated_loss_s = loss, ka_handoff_recommended = (enters \<and> kc_schedule_handoff kh),
               ka_loss_fraction =
                 (if 0 < duration then fdiv (f64_of_nat (unat loss)) (f64_of_nat (unat duration))
                  else lit 0)\<rparr>))"

definition keyhole_score_penalty :: "keyhole_analysis \<Rightarrow> bool \<Rightarrow> f64" where
  "keyhole_score_penalty a handoff =
     (if \<not> ka_enters_keyhole a then lit 0
      else
        (let base = fmul (ka_loss_fraction a) (lit 100)
         in if handoff then fmul (fneg base) (lit (3 / 10)) else fneg base))"

definition is_likely_keyhole_pass :: "f64 \<Rightarrow> keyhole_config \<Rightarrow> bool" where
  "is_likely_keyhole_pass el kh \<longleftrightarrow> fle (kc_threshold_elevation_deg kh) el"

record keyhole_warning =
  kw_estimated_loss_s :: u32
  kw_handoff_scheduled :: bool
  kw_max_elevation_deg :: f64
  kw_loss_fraction :: f64

definition from_analysis :: "keyhole_analysis \<Rightarrow> keyhole_warning" where
  "from_analysis a =
     \<lparr>kw_estimated_loss_s = ka_estimated_loss_s a, kw_handoff_scheduled = False,
      kw_max_elevation_deg = ka_pass_max_elevation_deg a, kw_loss_fraction = ka_loss_fraction a\<rparr>"

definition mark_handoff_scheduled :: "keyhole_warning \<Rightarrow> keyhole_warning" where
  "mark_handoff_scheduled w = w\<lparr>kw_handoff_scheduled := True\<rparr>"

subsection \<open>Specification\<close>

text \<open>The step from sample \<open>k\<close> to the next touches the threshold.\<close>

definition touches :: "f64 \<Rightarrow> profile \<Rightarrow> nat \<Rightarrow> bool" where
  "touches th ps k \<longleftrightarrow> Suc k < length ps \<and> (above th (ps ! k) \<or> above th (ps ! Suc k))"

definition step_seconds :: "profile \<Rightarrow> nat \<Rightarrow> int" where
  "step_seconds ps k = num_seconds (fst (ps ! Suc k) - fst (ps ! k))"

definition sample_profile :: profile where
  "sample_profile = [(0, lit 70, lit 0), (5000000000, lit 85, lit 0), (9000000000, lit 70, lit 0)]"

section \<open>Lemmas\<close>

lemma touches_Cons:
  "touches th (p # q # ps) k \<longleftrightarrow>
     (case k of 0 \<Rightarrow> above th p \<or> above th q | Suc j \<Rightarrow> touches th (q # ps) j)"
  by (cases k) (auto simp: touches_def)

lemma touched_positive_Cons:
  "(\<exists>k. touches th (p # q # ps) k \<and> 0 < step_seconds (p # q # ps) k) \<longleftrightarrow>
     (above th p \<or> above th q) \<and> 0 < num_seconds (fst q - fst p) \<or>
     (\<exists>k. touches th (q # ps) k \<and> 0 < step_seconds (q # ps) k)"
proof -
  have "(\<exists>k. P k) \<longleftrightarrow> P 0 \<or> (\<exists>k. P (Suc k))" for P :: "nat \<Rightarrow> bool"
    by (metis not0_implies_Suc)
  from this [of "\<lambda>k. touches th (p # q # ps) k \<and> 0 < step_seconds (p # q # ps) k"] show ?thesis
    by (simp add: touches_Cons step_seconds_def)
qed

text \<open>The seconds counted by the loop, for times that do not go back.\<close>

lemma keyhole_loop_seconds:
  assumes "sorted (map fst ps)"
  shows "0 \<le> snd (snd (keyhole_loop th ps (en, ex, 0))) \<and>
    (0 < snd (snd (keyhole_loop th ps (en, ex, 0))) \<longleftrightarrow>
       (\<exists>k. touches th ps k \<and> 0 < step_seconds ps k))"
proof -
  have "\<lbrakk>sorted (map fst ps); 0 \<le> s\<rbrakk> \<Longrightarrow>
      0 \<le> snd (snd (keyhole_loop th ps (en, ex, s))) \<and>
      (0 < snd (snd (keyhole_loop th ps (en, ex, s))) \<longleftrightarrow>
         0 < s \<or> (\<exists>k. touches th ps k \<and> 0 < step_seconds ps k))" for s
  proof (induction th ps "(en, ex, s)" arbitrary: en ex s rule: keyhole_loop.induct)
    case (1 th p q ps en ex s)
    let ?s = "if above th p \<or> above th q then s + num_seconds (fst q - fst p) else s"
    have step: "0 \<le> num_seconds (fst q - fst p)"
      using 1(2) by (simp add: num_seconds_nonneg pos_imp_zdiv_nonneg_iff)
    with 1(3) have s: "0 \<le> ?s" by simp
    have sorted: "sorted (map fst (q # ps))" using 1(2) by simp
    have iff: "0 < ?s \<longleftrightarrow> 0 < s \<or> (above th p \<or> above th q) \<and> 0 < num_seconds (fst q - fst p)"
      using step 1(3) by auto
    show ?case
      using 1(1) [OF sorted s] unfolding touched_positive_Cons by (simp only: keyhole_loop.simps iff) blast
  qed (simp_all add: touches_def)
  from this [of 0] assms show ?thesis by simp
qed

lemma loss_bound:
  assumes "0 < secs"
  shows "unat (word_of_int (min secs (uint (t :: u32))) :: u32) = nat (min secs (uint t))"
proof -
  have "uint (word_of_int (min secs (uint t)) :: u32) = min secs (uint t)"
    using assms uint_ge_0 [of t] uint_lt2p [of t]
    by (simp add: uint_word_of_int take_bit_eq_mod min_def) 
  then show ?thesis by (simp flip: nat_uint_eq)
qed

text \<open>The penalty of a pass is not positive, and a handoff does not make it worse.\<close>

lemma keyhole_penalty_order:
  assumes "ka_enters_keyhole a" and "fmag (ka_loss_fraction a)"
  shows "fle (keyhole_score_penalty a False) (keyhole_score_penalty a True) \<and>
    fle (keyhole_score_penalty a True) (lit 0)"
proof -
  obtain x where x: "ka_loss_fraction a = Fin False x" "0 \<le> x" using assms(2) by (auto simp: fmag_def)
  have hundred: "lit 100 = Fin False 100" by (simp add: lit_numeral)
  define t where "t = round_mag (3 / 10)"
  have t: "lit (3 / 10) = Fin False t" "0 < t" "t \<le> 1"
    using lit_small [of "3 / 10"] round_mag_mono [of "3 / 10" 1] round_mag_nat [of 1]
      round_mag_pos [of "- 2" "3 / 10"] by (simp_all add: t_def pow2_def)
  define base where "base = fmul (ka_loss_fraction a) (lit 100)"
  have base: "base = round_f64 False (x * 100)" by (simp add: base_def x hundred)
  have penalty: "keyhole_score_penalty a False = fneg base"
      "keyhole_score_penalty a True = fmul (fneg base) (lit (3 / 10))"
    using assms(1) by (simp_all add: keyhole_score_penalty_def base_def Let_def)
  show ?thesis
  proof (cases base)
    case (Fin s b)
    with base have b: "s = False" "rounded (Fin False b)" "0 \<le> b"
      using rounded_round_f64 [of False "x * 100"] round_mag_nonneg
      by (auto simp: round_f64_def Let_def split: if_splits)
    have "b * t \<le> b" using b(3) t by (simp add: mult_left_le)
    then have le: "round_mag (b * t) \<le> b" using round_mag_mono [of "b * t" b] b(2) by simp
    with b(2) have "\<not> pow2 1024 \<le> round_mag (b * t)" by simp
    then have "fmul (fneg base) (lit (3 / 10)) = Fin True (round_mag (b * t))"
      by (simp add: Fin b(1) t(1) round_f64_def Let_def)
    then show ?thesis
      using le round_mag_nonneg [of "b * t"] by (auto simp: penalty Fin b(1) fle_def)
  qed (use base t in \<open>auto simp: penalty fle_def round_f64_def Let_def split: if_splits\<close>)
qed

section \<open>Properties\<close>

text \<open>When a pass is found to enter the keyhole. For a station with a keyhole and a profile in order
  of time, the analysis reports that the pass enters the keyhole exactly when a step of at least one
  second has an end at or above the threshold, and then the estimated loss is at least one second and
  at most the typical loss of the mount; otherwise it is 0. In particular no pass sampled more than once
  a second is ever found to enter the keyhole.\<close>

theorem analyse_pass_detects:
  assumes "sorted (map fst ps)" "keyhole_of g = Some kh" "0 < kc_typical_loss_duration_s kh"
  shows "(ka_enters_keyhole (analyse_pass g ps d) \<longleftrightarrow>
       (\<exists>k. touches (kc_threshold_elevation_deg kh) ps k \<and> 1 \<le> step_seconds ps k)) \<and>
     (0 < ka_estimated_loss_s (analyse_pass g ps d) \<longleftrightarrow> ka_enters_keyhole (analyse_pass g ps d)) \<and>
     ka_estimated_loss_s (analyse_pass g ps d) \<le> kc_typical_loss_duration_s kh \<and>
     ((\<forall>k < length ps - 1. fst (ps ! Suc k) - fst (ps ! k) < 1000000000) \<longrightarrow>
        \<not> ka_enters_keyhole (analyse_pass g ps d))"
proof -
  obtain en ex secs where loop:
    "keyhole_loop (kc_threshold_elevation_deg kh) ps (None, None, 0) = (en, ex, secs)"
    using prod_cases3 by blast
  have secs: "0 \<le> secs" "0 < secs \<longleftrightarrow> (\<exists>k. touches (kc_threshold_elevation_deg kh) ps k \<and> 0 < step_seconds ps k)"
    using keyhole_loop_seconds [OF assms(1), of "kc_threshold_elevation_deg kh" None None] loop by auto
  have enters: "ka_enters_keyhole (analyse_pass g ps d) \<longleftrightarrow> 0 < secs"
    by (simp add: analyse_pass_def assms(2) loop Let_def)
  have loss: "ka_estimated_loss_s (analyse_pass g ps d) =
      (if 0 < secs then word_of_int (min secs (uint (kc_typical_loss_duration_s kh))) else 0)"
    by (simp add: analyse_pass_def assms(2) loop Let_def)
  have typical: "0 < uint (kc_typical_loss_duration_s kh)"
    using assms(3) by (simp add: word_less_def)
  have "0 < secs \<Longrightarrow> unat (ka_estimated_loss_s (analyse_pass g ps d)) =
      nat (min secs (uint (kc_typical_loss_duration_s kh)))"
    using loss_bound loss by simp
  then have pos: "0 < ka_estimated_loss_s (analyse_pass g ps d) \<longleftrightarrow> 0 < secs"
    using typical loss by (cases "0 < secs") (simp_all add: word_less_nat_alt)
  have bound: "ka_estimated_loss_s (analyse_pass g ps d) \<le> kc_typical_loss_duration_s kh"
    using loss loss_bound [of secs "kc_typical_loss_duration_s kh"]
    by (cases "0 < secs") (auto simp: word_le_nat_alt nat_le_iff)
  have "\<not> 0 < secs" if "\<forall>k < length ps - 1. fst (ps ! Suc k) - fst (ps ! k) < 1000000000"
  proof
    assume "0 < secs"
    then obtain k where k: "touches (kc_threshold_elevation_deg kh) ps k" "0 < step_seconds ps k"
      using secs by blast
    then have "Suc k < length ps" by (simp add: touches_def)
    with that have "fst (ps ! Suc k) - fst (ps ! k) < 1000000000" by simp
    moreover have "0 \<le> fst (ps ! Suc k) - fst (ps ! k)"
      using assms(1) \<open>Suc k < length ps\<close> sorted_nth_mono [of "map fst ps" k "Suc k"] by simp
    ultimately show False using k by (simp add: step_seconds_def num_seconds_nonneg)
  qed
  then show ?thesis using enters secs pos bound by (auto simp: int_one_le_iff_zero_less)
qed

theorem analyse_pass_detects_witness:
  "ka_enters_keyhole (analyse_pass (new_azel ''s'' (lit 0) (lit 0) (lit 0) default_azel) sample_profile 600)"
proof -
  have th: "kc_threshold_elevation_deg default_azel = Fin False 80"
    by (simp add: default_azel_def lit_numeral)
  have "touches (kc_threshold_elevation_deg default_azel) sample_profile 0"
    by (simp add: touches_def sample_profile_def above_def th lit_numeral fle_def)
  moreover have "1 \<le> step_seconds sample_profile 0"
    by (simp add: step_seconds_def sample_profile_def num_seconds_nonneg)
  ultimately show ?thesis
    using analyse_pass_detects [of sample_profile "new_azel ''s'' (lit 0) (lit 0) (lit 0) default_azel"
        default_azel 600]
    by (auto simp: sample_profile_def keyhole_of_def new_azel_def has_zenith_keyhole_def default_azel_def)
qed


end
