(* ===== verification/Pass_Schedule.thy ===== *)
theory Pass_Schedule
  imports Keyhole
begin

text \<open>
  Pass requests and the schedule of passes (\<open>scheduler/src/schedule.rs\<close>).

  \<open>check_conflicts\<close> groups the passes by the devices they use and looks for overlapping windows
  inside each group. It finds what the pairwise check \<open>hardware_conflicts\<close> finds, for every iteration order of the
  index, and two kinds of conflicts more, since the index does not keep the role of a device: two passes
  that use one device in different roles, and a pass that lists a device twice, which conflicts with itself. The order
  of iteration and the clock are arguments.
\<close>

section \<open>Definitions\<close>

record pass_window =
  pw_start :: datetime
  pw_end :: datetime
  pw_min_duration_sec :: u64

record hardware_requirements =
  hr_frequency_band :: string
  hr_min_sample_rate :: u64
  hr_require_shadow :: bool
  hr_antenna_type :: "string option"

datatype pass_priority = PriorityLow | PriorityNormal | PriorityHigh | PriorityCritical

fun pass_priority_rank :: "pass_priority \<Rightarrow> nat" where
  "pass_priority_rank PriorityLow = 0"
| "pass_priority_rank PriorityNormal = 1"
| "pass_priority_rank PriorityHigh = 2"
| "pass_priority_rank PriorityCritical = 3"

datatype sla_tier = BestEffort | Standard | Premium | MissionCritical

definition requires_shadow :: "sla_tier \<Rightarrow> bool" where
  "requires_shadow t \<longleftrightarrow> t = Premium \<or> t = MissionCritical"

record pass_request =
  pr_request_id :: string
  pr_customer_id :: customer_id
  pr_satellite_id :: satellite_id
  pr_window :: pass_window
  pr_hardware_requirements :: hardware_requirements
  pr_priority :: pass_priority
  pr_sla_tier :: sla_tier
  pr_submitted_at :: datetime

record pass_hardware =
  ha_sdr_devices :: "string list"
  ha_shadow_sdr :: "string option"
  ha_antenna_id :: string
  ha_rotator_id :: string

datatype pass_status =
  PassScheduled | PassPreparing | PassInProgress | PassCompleted | PassFailed | PassCancelled

record planned_pass =
  sp_pass_id :: pass_id
  sp_request_id :: string
  sp_customer_id :: customer_id
  sp_satellite_id :: satellite_id
  sp_scheduled_window :: pass_window
  sp_hardware_allocation :: pass_hardware
  sp_scheduled_at :: datetime
  sp_status :: pass_status
  sp_keyhole_warning :: "keyhole_warning option"

record pass_schedule =
  sch_passes :: "planned_pass list"
  sch_generated_at :: datetime
  sch_horizon :: "datetime \<times> datetime"
  sch_version :: u64

definition schedule_new :: "datetime \<Rightarrow> datetime \<Rightarrow> datetime \<Rightarrow> pass_schedule" where
  "schedule_new now a b = \<lparr>sch_passes = [], sch_generated_at = now, sch_horizon = (a, b), sch_version = 0\<rparr>"

definition add_pass :: "planned_pass \<Rightarrow> pass_schedule \<Rightarrow> pass_schedule" where
  "add_pass p s = s\<lparr>sch_passes := sch_passes s @ [p]\<rparr>"

definition get_customer_passes :: "customer_id \<Rightarrow> pass_schedule \<Rightarrow> planned_pass list" where
  "get_customer_passes c s = filter (\<lambda>p. sp_customer_id p = c) (sch_passes s)"

definition schedule_satellite_passes :: "satellite_id \<Rightarrow> pass_schedule \<Rightarrow> planned_pass list" where
  "schedule_satellite_passes i s = filter (\<lambda>p. sp_satellite_id p = i) (sch_passes s)"

definition get_passes_in_range :: "datetime \<Rightarrow> datetime \<Rightarrow> pass_schedule \<Rightarrow> planned_pass list" where
  "get_passes_in_range a b s =
     filter (\<lambda>p. a \<le> pw_start (sp_scheduled_window p) \<and> pw_end (sp_scheduled_window p) \<le> b) (sch_passes s)"

subsection \<open>Conflicts\<close>

datatype schedule_conflict_type = HardwareOverlap | TimeOverlap | FrequencyConflict

record schedule_conflict =
  sc_pass1_id :: pass_id
  sc_pass2_id :: pass_id
  sc_conflict_type :: schedule_conflict_type

definition windows_overlap :: "pass_window \<Rightarrow> pass_window \<Rightarrow> bool" where
  "windows_overlap v w \<longleftrightarrow> pw_start v < pw_end w \<and> pw_start w < pw_end v"

definition hardware_conflicts :: "pass_hardware \<Rightarrow> pass_hardware \<Rightarrow> bool" where
  "hardware_conflicts a b \<longleftrightarrow>
     (\<exists>d \<in> set (ha_sdr_devices a). d \<in> set (ha_sdr_devices b)) \<or>
     (ha_shadow_sdr a \<noteq> None \<and> ha_shadow_sdr b \<noteq> None \<and> ha_shadow_sdr a = ha_shadow_sdr b) \<or>
     ha_antenna_id a = ha_antenna_id b \<or> ha_rotator_id a = ha_rotator_id b"

text \<open>The devices of a pass, in the order in which it is entered into the index.\<close>

definition pass_devices :: "planned_pass \<Rightarrow> string list" where
  "pass_devices p =
     (let a = sp_hardware_allocation p
      in ha_sdr_devices a @ (case ha_shadow_sdr a of None \<Rightarrow> [] | Some d \<Rightarrow> [d]) @
         [ha_antenna_id a, ha_rotator_id a])"

type_synonym device_map = "string \<rightharpoonup> nat list"

definition index_push :: "nat \<Rightarrow> string \<Rightarrow> device_map \<Rightarrow> device_map" where
  "index_push i d m = m(d \<mapsto> (case m d of None \<Rightarrow> [] | Some is \<Rightarrow> is) @ [i])"

fun device_index_from :: "nat \<Rightarrow> planned_pass list \<Rightarrow> device_map \<Rightarrow> device_map" where
  "device_index_from i [] m = m"
| "device_index_from i (p # ps) m = device_index_from (Suc i) ps (fold (index_push i) (pass_devices p) m)"

definition device_index :: "planned_pass list \<Rightarrow> device_map" where
  "device_index ps = device_index_from 0 ps Map.empty"

text \<open>The pairs of positions of a list, each position with the later ones.\<close>

fun index_pairs :: "'a list \<Rightarrow> ('a \<times> 'a) list" where
  "index_pairs [] = []"
| "index_pairs (x # xs) = map (Pair x) xs @ index_pairs xs"

definition pair_key :: "nat \<Rightarrow> nat \<Rightarrow> nat \<times> nat" where
  "pair_key a b = (if a < b then (a, b) else (b, a))"

definition conflict_of :: "planned_pass list \<Rightarrow> nat \<times> nat \<Rightarrow> schedule_conflict" where
  "conflict_of ps k =
     \<lparr>sc_pass1_id = sp_pass_id (ps ! fst k), sc_pass2_id = sp_pass_id (ps ! snd k),
      sc_conflict_type = HardwareOverlap\<rparr>"

definition pair_overlaps :: "planned_pass list \<Rightarrow> nat \<times> nat \<Rightarrow> bool" where
  "pair_overlaps ps k \<longleftrightarrow>
     windows_overlap (sp_scheduled_window (ps ! fst k)) (sp_scheduled_window (ps ! snd k))"

fun conflict_scan :: "planned_pass list \<Rightarrow> (nat \<times> nat) set \<Rightarrow> (nat \<times> nat) list \<Rightarrow> schedule_conflict list" where
  "conflict_scan ps seen [] = []"
| "conflict_scan ps seen ((a, b) # ks) =
     (if pair_key a b \<in> seen then conflict_scan ps seen ks
      else if pair_overlaps ps (a, b)
      then conflict_of ps (a, b) # conflict_scan ps (insert (pair_key a b) seen) ks
      else conflict_scan ps (insert (pair_key a b) seen) ks)"

text \<open>\<open>ds\<close> is the iteration order of the index.\<close>

definition check_conflicts :: "string list \<Rightarrow> pass_schedule \<Rightarrow> schedule_conflict list" where
  "check_conflicts ds s =
     conflict_scan (sch_passes s) {}
       (concat (map index_pairs (map_values (device_index (sch_passes s)) ds)))"

record schedule_stats =
  scs_total_passes :: nat
  scs_unique_customers :: nat
  scs_unique_satellites :: nat
  scs_status_counts :: "pass_status \<rightharpoonup> nat"
  scs_conflicts :: nat

definition count_status :: "planned_pass \<Rightarrow> (pass_status \<rightharpoonup> nat) \<Rightarrow> (pass_status \<rightharpoonup> nat)" where
  "count_status p m = m(sp_status p \<mapsto> (case m (sp_status p) of None \<Rightarrow> 0 | Some n \<Rightarrow> n) + 1)"

definition schedule_stats_of :: "string list \<Rightarrow> pass_schedule \<Rightarrow> schedule_stats" where
  "schedule_stats_of ds s =
     \<lparr>scs_total_passes = length (sch_passes s),
      scs_unique_customers = card (set (map sp_customer_id (sch_passes s))),
      scs_unique_satellites = card (set (map sp_satellite_id (sch_passes s))),
      scs_status_counts = fold count_status (sch_passes s) Map.empty,
      scs_conflicts = length (check_conflicts ds s)\<rparr>"

subsection \<open>Specification\<close>

definition shares_device :: "planned_pass \<Rightarrow> planned_pass \<Rightarrow> bool" where
  "shares_device p q \<longleftrightarrow> set (pass_devices p) \<inter> set (pass_devices q) \<noteq> {}"

text \<open>The devices of a pass with the roles it uses them in.\<close>

datatype device_role = RoleSdr | RoleShadow | RoleAntenna | RoleRotator

definition pass_roles :: "planned_pass \<Rightarrow> (device_role \<times> string) set" where
  "pass_roles p =
     (let a = sp_hardware_allocation p
      in Pair RoleSdr ` set (ha_sdr_devices a) \<union> Pair RoleShadow ` set_option (ha_shadow_sdr a) \<union>
         {(RoleAntenna, ha_antenna_id a), (RoleRotator, ha_rotator_id a)})"

text \<open>The pairs of different passes that overlap and that the pairwise check calls a conflict.\<close>

definition hardware_pairs :: "planned_pass list \<Rightarrow> (nat \<times> nat) set" where
  "hardware_pairs ps =
     {(i, j). i < j \<and> j < length ps \<and> pair_overlaps ps (i, j) \<and>
        hardware_conflicts (sp_hardware_allocation (ps ! i)) (sp_hardware_allocation (ps ! j))}"

text \<open>The pairs of different passes that overlap and use some device in two roles, and the passes that list one of
  their devices twice and last some time.\<close>

definition role_clashes :: "planned_pass list \<Rightarrow> (nat \<times> nat) set" where
  "role_clashes ps =
     {(i, j). i < j \<and> j < length ps \<and> pair_overlaps ps (i, j) \<and>
        (\<exists>(r, d) \<in> pass_roles (ps ! i). \<exists>(r', d') \<in> pass_roles (ps ! j). d = d' \<and> r \<noteq> r')} \<union>
     {(i, i) | i. i < length ps \<and> pair_overlaps ps (i, i) \<and> \<not> distinct (pass_devices (ps ! i))}"

text \<open>Both together: two passes with a device in common, or one that names a device twice, with overlapping windows.\<close>

definition conflict_pairs :: "planned_pass list \<Rightarrow> (nat \<times> nat) set" where
  "conflict_pairs ps =
     {(i, j). i \<le> j \<and> j < length ps \<and> pair_overlaps ps (i, j) \<and>
        (if i = j then \<not> distinct (pass_devices (ps ! i)) else shares_device (ps ! i) (ps ! j))}"

definition sample_pass :: "string \<Rightarrow> string \<Rightarrow> datetime \<Rightarrow> datetime \<Rightarrow> planned_pass" where
  "sample_pass n d a b =
     \<lparr>sp_pass_id = PassId n, sp_request_id = n, sp_customer_id = CustomerId ''c'',
      sp_satellite_id = SatelliteId ''s'',
      sp_scheduled_window = \<lparr>pw_start = a, pw_end = b, pw_min_duration_sec = 300\<rparr>,
      sp_hardware_allocation = \<lparr>ha_sdr_devices = [d], ha_shadow_sdr = None, ha_antenna_id = ''a'' @ n,
        ha_rotator_id = ''r'' @ n\<rparr>,
      sp_scheduled_at = 0, sp_status = PassScheduled, sp_keyhole_warning = None\<rparr>"

definition sample_schedule :: pass_schedule where
  "sample_schedule =
     \<lparr>sch_passes = [sample_pass ''1'' ''sdr'' 0 10, sample_pass ''2'' ''sdr'' 5 15],
      sch_generated_at = 0, sch_horizon = (0, 100), sch_version = 0\<rparr>"

section \<open>Lemmas\<close>

subsection \<open>The index\<close>

text \<open>The positions filed under a device.\<close>

definition filed :: "device_map \<Rightarrow> string \<Rightarrow> nat list" where
  "filed m d = (case m d of None \<Rightarrow> [] | Some is \<Rightarrow> is)"

lemma filed_push: "filed (index_push i e m) d = filed m d @ (if d = e then [i] else [])"
  by (simp add: filed_def index_push_def)

lemma filed_push_all: "filed (fold (index_push i) es m) d = filed m d @ replicate (count (mset es) d) i"
  by (induction es arbitrary: m) (auto simp: filed_push simp flip: replicate_app_Cons_same)

lemma filed_index_from:
  "filed (device_index_from n ps m) d =
     filed m d @ concat (map (\<lambda>(i, p). replicate (count (mset (pass_devices p)) d) i) (enumerate n ps))"
  by (induction ps arbitrary: n m) (simp_all add: filed_push_all)

lemma filed_index:
  "filed (device_index ps) d =
     concat (map (\<lambda>(i, p). replicate (count (mset (pass_devices p)) d) i) (enumerate 0 ps))"
  by (simp add: device_index_def filed_index_from) (simp add: filed_def)

lemma count_filed_from:
  "count (mset (concat (map (\<lambda>(i, p). replicate (count (mset (pass_devices p)) d) i) (enumerate n ps)))) k =
     (if n \<le> k \<and> k < n + length ps then count (mset (pass_devices (ps ! (k - n)))) d else 0)"
proof (induction ps arbitrary: n)
  case (Cons p ps)
  consider "k < n" | "k = n" | "n < k" by linarith
  then show ?case
  proof cases
    case 3
    then obtain j where "k = n + Suc j" using less_imp_Suc_add by fastforce
    then show ?thesis using Cons.IH [of "Suc n"] by simp
  qed (use Cons.IH [of "Suc n"] in simp_all)
qed auto

lemma count_filed:
  "count (mset (filed (device_index ps) d)) k =
     (if k < length ps then count (mset (pass_devices (ps ! k))) d else 0)"
  using count_filed_from [of d 0 ps k] by (simp add: filed_index)

lemma set_filed: "set (filed (device_index ps) d) = {k. k < length ps \<and> d \<in> set (pass_devices (ps ! k))}"
proof -
  have "k \<in> set (filed (device_index ps) d) \<longleftrightarrow> k < length ps \<and> d \<in> set (pass_devices (ps ! k))" for k
    using count_filed [of ps d k] by (metis count_mset_0_iff)
  then show ?thesis by blast
qed

lemma sorted_filed: "sorted (filed (device_index ps) d)"
proof -
  have "sorted (concat (map (\<lambda>(i, p). replicate (f p) i) (enumerate n qs)))"
    for f :: "planned_pass \<Rightarrow> nat" and n qs
    by (induction qs arbitrary: n) (auto simp: sorted_append in_set_enumerate_eq)
  then show ?thesis by (simp add: filed_index)
qed

subsection \<open>The scan\<close>

lemma index_pairs_sorted:
  "sorted xs \<Longrightarrow> (a, b) \<in> set (index_pairs xs) \<longleftrightarrow>
     (a < b \<and> a \<in> set xs \<and> b \<in> set xs) \<or> (a = b \<and> 2 \<le> count (mset xs) a)"
proof (induction xs)
  case (Cons x xs)
  then have IH: "(a, b) \<in> set (index_pairs xs) \<longleftrightarrow>
      (a < b \<and> a \<in> set xs \<and> b \<in> set xs) \<or> (a = b \<and> 2 \<le> count (mset xs) a)" and le: "\<forall>y \<in> set xs. x \<le> y"
    by simp_all
  have "a = x \<Longrightarrow> 2 \<le> Suc (count (mset xs) a) \<longleftrightarrow> x \<in> set xs"
    by (metis One_nat_def Suc_1 Suc_le_mono count_mset_0_iff not_less_eq_eq le_zero_eq)
  moreover have "2 \<le> count (mset xs) a \<Longrightarrow> a \<in> set xs"
    by (metis count_mset_0_iff not_numeral_le_zero)
  ultimately show ?case using IH le by (auto simp: order_less_le)
qed simp

text \<open>The keys of the pairs that are scanned first, each once.\<close>

fun fresh_pairs :: "'a set \<Rightarrow> 'a list \<Rightarrow> 'a list" where
  "fresh_pairs seen [] = []"
| "fresh_pairs seen (k # ks) = (if k \<in> seen then fresh_pairs seen ks else k # fresh_pairs (insert k seen) ks)"

lemma fresh_pairs_set: "distinct (fresh_pairs seen ks) \<and> set (fresh_pairs seen ks) = set ks - seen"
  by (induction ks arbitrary: seen) auto

lemma conflict_scan_eq:
  "\<forall>k \<in> set ks. fst k \<le> snd k \<Longrightarrow>
     conflict_scan ps seen ks = map (conflict_of ps) (filter (pair_overlaps ps) (fresh_pairs seen ks))"
proof (induction ks arbitrary: seen)
  case (Cons k ks)
  obtain a b where k: "k = (a, b)" by fastforce
  with Cons.prems have key: "pair_key a b = (a, b)" by (auto simp: pair_key_def)
  show ?case using Cons by (simp add: k key)
qed simp

lemma index_values: "iter_order m ds \<Longrightarrow> set (map_values m ds) = {filed m d | d. m d \<noteq> None}"
  by (auto simp: set_map_values iter_order_def filed_def) (metis domI option.simps(5))

lemma scanned_pairs:
  assumes "iter_order (device_index ps) ds"
  shows "(a, b) \<in> set (concat (map index_pairs (map_values (device_index ps) ds))) \<longleftrightarrow>
    b < length ps \<and> (a < b \<and> shares_device (ps ! a) (ps ! b) \<or> a = b \<and> \<not> distinct (pass_devices (ps ! a)))"
proof -
  have "(a, b) \<in> set (concat (map index_pairs (map_values (device_index ps) ds))) \<longleftrightarrow>
      (\<exists>d. device_index ps d \<noteq> None \<and> (a, b) \<in> set (index_pairs (filed (device_index ps) d)))"
    using index_values [OF assms] by auto
  also have "\<dots> \<longleftrightarrow> (\<exists>d. (a, b) \<in> set (index_pairs (filed (device_index ps) d)))"
  proof -
    have "filed (device_index ps) d = []" if "device_index ps d = None" for d
      using that by (simp add: filed_def)
    then show ?thesis by (metis empty_iff index_pairs.simps(1) list.set(1))
  qed
  also have "\<dots> \<longleftrightarrow> (\<exists>d. a < b \<and> b < length ps \<and> d \<in> set (pass_devices (ps ! a)) \<inter> set (pass_devices (ps ! b)) \<or>
      a = b \<and> b < length ps \<and> 2 \<le> count (mset (pass_devices (ps ! a))) d)"
    by (simp add: index_pairs_sorted [OF sorted_filed] set_filed count_filed) (meson less_trans)
  also have "(\<exists>d. 2 \<le> count (mset (pass_devices p)) d) \<longleftrightarrow> \<not> distinct (pass_devices p)" for p
    by (metis One_nat_def Suc_1 count_mset_0_iff distinct_count_atmost_1 not_less_eq_eq le_Suc_eq le_zero_eq)
  ultimately show ?thesis by (auto simp: shares_device_def)
qed

text \<open>Any list of pairs with the right set gives the conflicts.\<close>

lemma conflicts_of_pairs:
  assumes "iter_order (device_index (sch_passes s)) ds"
  shows "\<exists>ks. check_conflicts ds s = map (conflict_of (sch_passes s)) ks \<and> distinct ks \<and>
    set ks = conflict_pairs (sch_passes s)"
proof -
  let ?all = "concat (map index_pairs (map_values (device_index (sch_passes s)) ds))"
  let ?ks = "filter (pair_overlaps (sch_passes s)) (fresh_pairs {} ?all)"
  have all: "set ?all = {(a, b). b < length (sch_passes s) \<and>
      (a < b \<and> shares_device (sch_passes s ! a) (sch_passes s ! b) \<or>
       a = b \<and> \<not> distinct (pass_devices (sch_passes s ! a)))}"
    by (simp only: set_eq_iff split_paired_All mem_Collect_eq prod.case scanned_pairs [OF assms] simp_thms)
  then have "\<forall>k \<in> set ?all. fst k \<le> snd k" by auto
  then have "check_conflicts ds s = map (conflict_of (sch_passes s)) ?ks"
    by (simp add: check_conflicts_def conflict_scan_eq)
  moreover have "distinct ?ks" using fresh_pairs_set [of "{}" ?all] by simp
  moreover have "set ?ks = conflict_pairs (sch_passes s)"
    using fresh_pairs_set [of "{}" ?all] all by (auto simp: conflict_pairs_def)
  ultimately show ?thesis by blast
qed

lemma finite_conflict_pairs: "finite (conflict_pairs ps)"
  by (rule finite_subset [of _ "{..< length ps} \<times> {..< length ps}"]) (auto simp: conflict_pairs_def)

text \<open>The number of conflicts does not depend on the order of the index.\<close>

lemma conflict_count:
  "iter_order (device_index (sch_passes s)) ds \<Longrightarrow>
     length (check_conflicts ds s) = card (conflict_pairs (sch_passes s))"
  using conflicts_of_pairs by (metis distinct_card length_map)

text \<open>A common device has the same role in both passes, which is what \<open>hardware_conflicts\<close> looks for, or two.\<close>

lemma hardware_conflicts_roles:
  "hardware_conflicts (sp_hardware_allocation p) (sp_hardware_allocation q) \<longleftrightarrow> pass_roles p \<inter> pass_roles q \<noteq> {}"
  by (cases "ha_shadow_sdr (sp_hardware_allocation p)"; cases "ha_shadow_sdr (sp_hardware_allocation q)")
    (auto simp: hardware_conflicts_def pass_roles_def Let_def)

lemma devices_of_roles: "set (pass_devices p) = snd ` pass_roles p"
  by (auto simp: pass_devices_def pass_roles_def Let_def image_Un image_image split: option.splits)

lemma shares_device_roles:
  "shares_device p q \<longleftrightarrow> pass_roles p \<inter> pass_roles q \<noteq> {} \<or>
     (\<exists>(r, d) \<in> pass_roles p. \<exists>(r', d') \<in> pass_roles q. d = d' \<and> r \<noteq> r')"
  by (force simp: shares_device_def devices_of_roles)

lemma conflict_pairs_roles: "conflict_pairs ps = hardware_pairs ps \<union> role_clashes ps"
  by (auto simp: conflict_pairs_def hardware_pairs_def role_clashes_def hardware_conflicts_roles shares_device_roles
      order_le_less split: if_splits)

section \<open>Properties\<close>

text \<open>C20: the check of conflicts by device finds what the pairwise check \<open>hardware_conflicts\<close> finds, and the clashes of
  roles besides. Whatever the iteration order of the index, the conflicts are, each once, those of the pairs of different
  passes that overlap in time and are a conflict for the pairwise check, or use a device in two roles, and of the passes
  that name one of their devices twice and last some time. When no pass names a device twice and no device has two roles,
  they are those of the pairwise check.\<close>

theorem check_conflicts_pairwise:
  assumes "iter_order (device_index (sch_passes s)) ds"
  shows "mset (check_conflicts ds s) =
      image_mset (conflict_of (sch_passes s)) (mset_set (hardware_pairs (sch_passes s) \<union> role_clashes (sch_passes s))) \<and>
    ((\<forall>p \<in> set (sch_passes s). distinct (pass_devices p)) \<and>
     (\<forall>p \<in> set (sch_passes s). \<forall>q \<in> set (sch_passes s). \<forall>r r' d.
        (r, d) \<in> pass_roles p \<longrightarrow> (r', d) \<in> pass_roles q \<longrightarrow> r = r') \<longrightarrow>
       mset (check_conflicts ds s) = image_mset (conflict_of (sch_passes s)) (mset_set (hardware_pairs (sch_passes s))))"
proof -
  obtain ks where ks: "check_conflicts ds s = map (conflict_of (sch_passes s)) ks" "distinct ks"
      "set ks = hardware_pairs (sch_passes s) \<union> role_clashes (sch_passes s)"
    using conflicts_of_pairs [OF assms] unfolding conflict_pairs_roles by blast
  then have "mset ks = mset_set (hardware_pairs (sch_passes s) \<union> role_clashes (sch_passes s))"
    by (metis mset_set_set)
  then have all: "mset (check_conflicts ds s) =
      image_mset (conflict_of (sch_passes s)) (mset_set (hardware_pairs (sch_passes s) \<union> role_clashes (sch_passes s)))"
    using ks(1) by simp
  moreover have "role_clashes (sch_passes s) = {}"
    if "\<forall>p \<in> set (sch_passes s). distinct (pass_devices p)"
      "\<forall>p \<in> set (sch_passes s). \<forall>q \<in> set (sch_passes s). \<forall>r r' d.
        (r, d) \<in> pass_roles p \<longrightarrow> (r', d) \<in> pass_roles q \<longrightarrow> r = r'"
    using that by (fastforce simp: role_clashes_def)
  ultimately show ?thesis by (metis Un_empty_right)
qed

theorem check_conflicts_pairwise_witness:
  "\<exists>ds. mset (check_conflicts ds sample_schedule) =
     {#\<lparr>sc_pass1_id = PassId ''1'', sc_pass2_id = PassId ''2'', sc_conflict_type = HardwareOverlap\<rparr>#}"
proof -
  let ?ps = "sch_passes sample_schedule"
  let ?ds = "[''sdr'', ''a1'', ''r1'', ''a2'', ''r2'']"
  have "iter_order (device_index ?ps) ?ds"
    by (auto simp: iter_order_def sample_schedule_def device_index_def index_push_def sample_pass_def
        pass_devices_def split: if_splits)
  moreover have "conflict_pairs ?ps = {(0, 1)}"
  proof -
    have "i \<le> j \<and> j < length ?ps \<longleftrightarrow> (i, j) \<in> {(0, 0), (0, 1), (1, 1)}" for i j
      by (auto simp: sample_schedule_def less_Suc_eq)
    moreover have pairs: "(0, 0) \<notin> conflict_pairs ?ps" "(0, 1) \<in> conflict_pairs ?ps"
        "(1, 1) \<notin> conflict_pairs ?ps"
      by (simp_all add: conflict_pairs_def sample_schedule_def pair_overlaps_def windows_overlap_def
          sample_pass_def pass_devices_def shares_device_def)
    moreover have "k \<in> conflict_pairs ?ps \<Longrightarrow> fst k \<le> snd k \<and> snd k < length ?ps" for k
      by (auto simp: conflict_pairs_def)
    ultimately have "conflict_pairs ?ps \<subseteq> {(0, 1)}" by (metis insert_iff prod.collapse subsetI)
    with pairs show ?thesis by blast
  qed
  ultimately show ?thesis
    using check_conflicts_pairwise [of sample_schedule ?ds, THEN conjunct1]
    unfolding conflict_pairs_roles [symmetric]
    by (intro exI [of _ ?ds]) (simp add: conflict_of_def, simp add: sample_schedule_def sample_pass_def)
qed

end
