(* ===== verification/Snapshotting.thy ===== *)
theory Snapshotting
  imports Ordered_Map F64
begin

text \<open>
  Snapshots of schedules, demodulators and federation peers, and their manager
  (\<open>snapshotting/src/\<close>).

  The JSON serialization of the snapshotted values and SHA-256 are parameters. The schedule
  snapshotter retains the newest snapshots up to its bound; the demodulator snapshotter retains all
  of them and finds the oldest one of a pass.
\<close>

section \<open>Definitions\<close>

subsection \<open>Schedules\<close>

text \<open>The serialization of a type; reading back may fail. A value that cannot be serialized makes the \<open>expect\<close> of
  \<open>ScheduleSnapshot::new\<close> panic: the codec stands for the types whose values all can be, as the derived
  serialization of a schedule is, and the panic is left out.\<close>

record 'a codec =
  to_json :: "'a \<Rightarrow> bytes"
  from_json :: "bytes \<Rightarrow> string + 'a"

record schedule_snapshot =
  ssn_snapshot_id :: string
  ssn_data :: bytes
  ssn_captured_at :: datetime
  ssn_hash :: string
  ssn_size_bytes :: nat

definition schedule_snapshot_new :: "(bytes \<Rightarrow> string) \<Rightarrow> 'a codec \<Rightarrow> uuid \<Rightarrow> datetime \<Rightarrow> 'a \<Rightarrow>
    schedule_snapshot" where
  "schedule_snapshot_new sha c fresh now x =
     (let data = to_json c x
      in \<lparr>ssn_snapshot_id = show_uuid fresh, ssn_data = data, ssn_captured_at = now,
          ssn_hash = sha data, ssn_size_bytes = length data\<rparr>)"

definition snapshot_restore :: "'a codec \<Rightarrow> schedule_snapshot \<Rightarrow> string + 'a" where
  "snapshot_restore c s = from_json c (ssn_data s)"

definition schedule_snapshot_verify :: "(bytes \<Rightarrow> string) \<Rightarrow> schedule_snapshot \<Rightarrow> bool" where
  "schedule_snapshot_verify sha s \<longleftrightarrow> sha (ssn_data s) = ssn_hash s"

record schedule_snapshotter =
  sst_snapshots :: "schedule_snapshot list"
  sst_max_snapshots :: nat

definition snapshotter_new :: "nat \<Rightarrow> schedule_snapshotter" where
  "snapshotter_new n = \<lparr>sst_snapshots = [], sst_max_snapshots = n\<rparr>"

definition take_snapshot :: "(bytes \<Rightarrow> string) \<Rightarrow> 'a codec \<Rightarrow> uuid \<Rightarrow> datetime \<Rightarrow> 'a \<Rightarrow>
    schedule_snapshotter \<Rightarrow> schedule_snapshot \<times> schedule_snapshotter" where
  "take_snapshot sha c fresh now x s =
     (let snap = schedule_snapshot_new sha c fresh now x
      in (snap, s\<lparr>sst_snapshots := drop_oldest (sst_max_snapshots s) (sst_snapshots s @ [snap])\<rparr>))"

definition latest_snapshot :: "schedule_snapshotter \<Rightarrow> schedule_snapshot option" where
  "latest_snapshot s = last_entry (sst_snapshots s)"

definition get_snapshots :: "schedule_snapshotter \<Rightarrow> schedule_snapshot list" where
  "get_snapshots s = sst_snapshots s"

definition get_snapshot :: "string \<Rightarrow> schedule_snapshotter \<Rightarrow> schedule_snapshot option" where
  "get_snapshot i s = List.find (\<lambda>x. ssn_snapshot_id x = i) (sst_snapshots s)"

subsection \<open>Demodulators\<close>

record demod_snapshot =
  dsn_snapshot_id :: string
  dsn_pass_id :: string
  dsn_data :: bytes
  dsn_captured_at :: datetime

definition demod_restore :: "'a codec \<Rightarrow> demod_snapshot \<Rightarrow> string + 'a" where
  "demod_restore c s = from_json c (dsn_data s)"

record demod_snapshotter =
  dst_snapshots :: "demod_snapshot list"

definition demod_snapshotter_new :: demod_snapshotter where
  "demod_snapshotter_new = \<lparr>dst_snapshots = []\<rparr>"

definition demod_take :: "'a codec \<Rightarrow> uuid \<Rightarrow> datetime \<Rightarrow> string \<Rightarrow> 'a \<Rightarrow> demod_snapshotter \<Rightarrow>
    demod_snapshot \<times> demod_snapshotter" where
  "demod_take c fresh now p x s =
     (let snap = \<lparr>dsn_snapshot_id = show_uuid fresh, dsn_pass_id = p, dsn_data = to_json c x,
                  dsn_captured_at = now\<rparr>
      in (snap, s\<lparr>dst_snapshots := dst_snapshots s @ [snap]\<rparr>))"

definition get_for_pass :: "string \<Rightarrow> demod_snapshotter \<Rightarrow> demod_snapshot option" where
  "get_for_pass p s = List.find (\<lambda>x. dsn_pass_id x = p) (dst_snapshots s)"

definition demod_snapshots :: "demod_snapshotter \<Rightarrow> demod_snapshot list" where
  "demod_snapshots s = dst_snapshots s"

definition remove_pass :: "string \<Rightarrow> demod_snapshotter \<Rightarrow> demod_snapshotter" where
  "remove_pass p s = s\<lparr>dst_snapshots := filter (\<lambda>x. dsn_pass_id x \<noteq> p) (dst_snapshots s)\<rparr>"

subsection \<open>Federation peers\<close>

record peer_state =
  ps_peer_id :: string
  ps_trust_score :: f64
  ps_status :: string
  ps_last_verification :: "datetime option"
  ps_total_attestations :: u64

record federation_snapshot =
  fsn_snapshot_id :: string
  fsn_peers :: "peer_state list"
  fsn_captured_at :: datetime
  fsn_version :: u64

record federation_snapshotter =
  fst_snapshots :: "federation_snapshot list"

definition federation_snapshotter_new :: "federation_snapshotter" where
  "federation_snapshotter_new = \<lparr>fst_snapshots = []\<rparr>"

definition federation_take :: "uuid \<Rightarrow> datetime \<Rightarrow> peer_state list \<Rightarrow> federation_snapshotter \<Rightarrow>
    federation_snapshot \<times> federation_snapshotter" where
  "federation_take fresh now ps s =
     (let snap = \<lparr>fsn_snapshot_id = show_uuid fresh, fsn_peers = ps, fsn_captured_at = now,
                  fsn_version = of_nat (length (fst_snapshots s))\<rparr>
      in (snap, s\<lparr>fst_snapshots := fst_snapshots s @ [snap]\<rparr>))"

definition federation_latest :: "federation_snapshotter \<Rightarrow> federation_snapshot option" where
  "federation_latest s = last_entry (fst_snapshots s)"

definition federation_snapshots :: "federation_snapshotter \<Rightarrow> federation_snapshot list" where
  "federation_snapshots s = fst_snapshots s"

subsection \<open>The manager\<close>

datatype snapshot_type = ScheduleSnapshot | DemodulatorSnapshot | FederationSnapshot

record snapshot_info =
  si_snapshot_type :: snapshot_type
  si_snapshot_id :: string
  si_captured_at :: datetime
  si_size_bytes :: nat

record snapshots_manager =
  sm_schedule :: schedule_snapshotter
  sm_demodulator :: demod_snapshotter
  sm_federation :: "federation_snapshotter"

definition snapshots_manager_new :: "nat \<Rightarrow> snapshots_manager" where
  "snapshots_manager_new n =
     \<lparr>sm_schedule = snapshotter_new n, sm_demodulator = demod_snapshotter_new,
      sm_federation = federation_snapshotter_new\<rparr>"

text \<open>The manager hands out its snapshotters for update.\<close>

definition with_schedule :: "(schedule_snapshotter \<Rightarrow> 'r \<times> schedule_snapshotter) \<Rightarrow> snapshots_manager \<Rightarrow>
    'r \<times> snapshots_manager" where
  "with_schedule f m = (let (r, s) = f (sm_schedule m) in (r, m\<lparr>sm_schedule := s\<rparr>))"

definition with_demodulator :: "(demod_snapshotter \<Rightarrow> 'r \<times> demod_snapshotter) \<Rightarrow> snapshots_manager \<Rightarrow>
    'r \<times> snapshots_manager" where
  "with_demodulator f m = (let (r, s) = f (sm_demodulator m) in (r, m\<lparr>sm_demodulator := s\<rparr>))"

definition with_federation :: "(federation_snapshotter \<Rightarrow> 'r \<times> federation_snapshotter) \<Rightarrow>
    snapshots_manager \<Rightarrow> 'r \<times> snapshots_manager" where
  "with_federation f m = (let (r, s) = f (sm_federation m) in (r, m\<lparr>sm_federation := s\<rparr>))"

text \<open>The sizes of the serialized demodulator and federation snapshots are a parameter.\<close>

definition all_metadata :: "(demod_snapshot \<Rightarrow> nat) \<Rightarrow> (federation_snapshot \<Rightarrow> nat) \<Rightarrow>
    snapshots_manager \<Rightarrow> snapshot_info list" where
  "all_metadata dlen flen m =
     map (\<lambda>s. \<lparr>si_snapshot_type = ScheduleSnapshot, si_snapshot_id = ssn_snapshot_id s,
                si_captured_at = ssn_captured_at s, si_size_bytes = ssn_size_bytes s\<rparr>)
       (get_snapshots (sm_schedule m)) @
     map (\<lambda>s. \<lparr>si_snapshot_type = DemodulatorSnapshot, si_snapshot_id = dsn_snapshot_id s,
                si_captured_at = dsn_captured_at s, si_size_bytes = dlen s\<rparr>)
       (demod_snapshots (sm_demodulator m)) @
     map (\<lambda>s. \<lparr>si_snapshot_type = FederationSnapshot, si_snapshot_id = fsn_snapshot_id s,
                si_captured_at = fsn_captured_at s, si_size_bytes = flen s\<rparr>)
       (federation_snapshots (sm_federation m))"

subsection \<open>Runs\<close>

text \<open>Snapshots of a list of values, each with its identifier and time.\<close>

definition take_all :: "(bytes \<Rightarrow> string) \<Rightarrow> 'a codec \<Rightarrow> (uuid \<times> datetime \<times> 'a) list \<Rightarrow>
    schedule_snapshotter \<Rightarrow> schedule_snapshotter" where
  "take_all sha c xs s = foldl (\<lambda>s (u, t, x). snd (take_snapshot sha c u t x s)) s xs"

definition snaps_of :: "(bytes \<Rightarrow> string) \<Rightarrow> 'a codec \<Rightarrow> (uuid \<times> datetime \<times> 'a) list \<Rightarrow>
    schedule_snapshot list" where
  "snaps_of sha c xs = map (\<lambda>(u, t, x). schedule_snapshot_new sha c u t x) xs"

text \<open>A codec for the witnesses: a byte as itself.\<close>

definition byte_codec :: "u8 codec" where
  "byte_codec = \<lparr>to_json = (\<lambda>b. [b]), from_json = (\<lambda>bs. case bs of [b] \<Rightarrow> Inr b | _ \<Rightarrow> Inl ''bad'')\<rparr>"

section \<open>Lemmas\<close>

lemma take_all_max: "sst_max_snapshots (take_all sha c xs s) = sst_max_snapshots s"
  by (induction xs arbitrary: s) (simp_all add: take_all_def take_snapshot_def Let_def case_prod_beta)

lemma retained_append:
  "drop (length (drop (length xs - n) xs @ [y]) - n) (drop (length xs - n) xs @ [y]) =
     drop (length (xs @ [y]) - n) (xs @ [y])"
  by (cases "n \<le> length xs") (auto simp: Suc_diff_le)

lemma snapshots_retained:
  "sst_snapshots (take_all sha c xs (snapshotter_new n)) =
     drop (length xs - n) (snaps_of sha c xs)"
proof (induction xs rule: rev_induct)
  case Nil
  then show ?case by (simp add: take_all_def snapshotter_new_def snaps_of_def)
next
  case (snoc x xs)
  obtain u t v where x: "x = (u, t, v)" using prod_cases3 by blast
  have "sst_snapshots (take_all sha c (xs @ [x]) (snapshotter_new n)) =
      drop_oldest n (drop (length xs - n) (snaps_of sha c xs) @ [schedule_snapshot_new sha c u t v])"
    using snoc take_all_max [of sha c xs "snapshotter_new n"]
    by (simp add: take_all_def take_snapshot_def x Let_def snapshotter_new_def)
  also have "\<dots> = drop (length (xs @ [x]) - n) (snaps_of sha c (xs @ [x]))"
    using retained_append [of "snaps_of sha c xs" n "schedule_snapshot_new sha c u t v"]
    by (simp add: drop_oldest_drop snaps_of_def x)
  finally show ?case .
qed

lemma restore_new:
  "from_json c (to_json c x) = Inr x \<Longrightarrow> snapshot_restore c (schedule_snapshot_new sha c u t x) = Inr x"
  by (simp add: snapshot_restore_def schedule_snapshot_new_def Let_def)

section \<open>Properties\<close>

text \<open>C24: the schedule snapshotter retains the newest snapshots. After any snapshots of values that the
  serialization reads back, it holds those of the last ones, as many as its bound; each verifies; and
  restoring them gives the values back, in order.\<close>

theorem snapshotter_retains_newest:
  assumes "\<forall>(u, t, x) \<in> set xs. from_json c (to_json c x) = Inr x"
  shows "length (get_snapshots (take_all sha c xs (snapshotter_new n))) = min n (length xs) \<and>
    (\<forall>s \<in> set (get_snapshots (take_all sha c xs (snapshotter_new n))). schedule_snapshot_verify sha s) \<and>
    map (snapshot_restore c) (get_snapshots (take_all sha c xs (snapshotter_new n))) =
      map (\<lambda>(u, t, x). Inr x) (drop (length xs - n) xs)"
proof -
  have snaps: "get_snapshots (take_all sha c xs (snapshotter_new n)) =
      map (\<lambda>(u, t, x). schedule_snapshot_new sha c u t x) (drop (length xs - n) xs)"
    by (simp add: get_snapshots_def snapshots_retained snaps_of_def drop_map)
  moreover have "map (\<lambda>y. snapshot_restore c ((\<lambda>(u, t, x). schedule_snapshot_new sha c u t x) y))
      (drop (length xs - n) xs) = map (\<lambda>(u, t, x). Inr x) (drop (length xs - n) xs)"
    using assms by (intro map_cong refl) (auto simp: restore_new dest!: in_set_dropD)
  ultimately show ?thesis
    by (auto simp: comp_def schedule_snapshot_verify_def schedule_snapshot_new_def Let_def)
qed

theorem snapshotter_retains_newest_witness:
  "map (snapshot_restore byte_codec)
     (get_snapshots (take_all (\<lambda>_. ''h'') byte_codec [(0, 0, 7), (1, 1, 8), (2, 2, 9)] (snapshotter_new 2))) =
   [Inr 8, Inr 9]"
  using snapshotter_retains_newest [of "[(0, 0, 7), (1, 1, 8), (2, 2, 9)]" byte_codec "\<lambda>_. ''h''" 2]
  by (simp add: byte_codec_def)

text \<open>Recovery from a demodulator snapshot uses the oldest state. Once a pass has a snapshot, later
  snapshots of the pass are stored but never found: the search for the pass returns the first one until
  the pass is removed.\<close>

theorem demod_recovery_is_stale:
  assumes "get_for_pass p s = Some old"
  shows "get_for_pass p (snd (demod_take c u t p x s)) = Some old \<and>
    fst (demod_take c u t p x s) \<in> set (demod_snapshots (snd (demod_take c u t p x s))) \<and>
    get_for_pass p (remove_pass p s) = None"
proof -
  have "List.find q xs = Some y \<Longrightarrow> List.find q (xs @ ys) = Some y" for q and xs ys :: "demod_snapshot list" and y
    by (induction xs) (auto split: if_splits)
  with assms show ?thesis
    by (simp add: get_for_pass_def demod_take_def demod_snapshots_def remove_pass_def Let_def
        find_None_iff_set)
qed

theorem demod_recovery_is_stale_witness:
  "map_option (demod_restore byte_codec)
     (get_for_pass ''p'' (snd (demod_take byte_codec 1 1 ''p'' 8
        (snd (demod_take byte_codec 0 0 ''p'' 7 demod_snapshotter_new))))) = Some (Inr 7)"
  using demod_recovery_is_stale [of "''p''" "snd (demod_take byte_codec 0 0 ''p'' 7 demod_snapshotter_new)"
      _ byte_codec 1 1 8]
  by (simp add: demod_take_def demod_snapshotter_new_def get_for_pass_def byte_codec_def demod_restore_def Let_def)

end
