(* ===== verification/Schedule_Optimizer.thy ===== *)
theory Schedule_Optimizer
  imports Pass_Schedule Snapshotting Caching Scheduler_Fairness
begin

text \<open>
  The schedule optimizer (\<open>scheduler/src/optimization.rs\<close>): evaluation, neighbours, simulated
  annealing and incremental re-optimization.

  Every random number, clock reading and fresh identifier of an iteration is a field of its \<open>turn\<close>;
  the exponential function, the orders in which hash maps are iterated and the libraries of dates,
  JSON and SHA-256 are parameters. A panic of the date library is \<open>None\<close>, and so is a run of the
  fragment cache that does not return. The optimizer has exclusive access to itself, so the points where
  it yields to other tasks are not modelled.
\<close>

section \<open>Definitions\<close>

record hardware_config =
  hc_sdr_devices :: "string list"
  hc_shadow_sdr_devices :: "string list"
  hc_antenna_ids :: "string list"
  hc_rotator_ids :: "string list"

definition hardware_config_default :: hardware_config where
  "hardware_config_default =
     \<lparr>hc_sdr_devices = [''sdr-0'', ''sdr-1'', ''sdr-2'', ''sdr-3''],
      hc_shadow_sdr_devices = [''sdr-shadow-0'', ''sdr-shadow-1''],
      hc_antenna_ids = [''antenna-0'', ''antenna-1'', ''antenna-2''],
      hc_rotator_ids = [''rotator-0'', ''rotator-1'']\<rparr>"

record optimization_config =
  oc_max_iterations :: nat
  oc_initial_temperature :: f64
  oc_cooling_rate :: f64
  oc_timeout :: duration

definition optimization_config_default :: optimization_config where
  "optimization_config_default =
     \<lparr>oc_max_iterations = 10000, oc_initial_temperature = lit 1000, oc_cooling_rate = lit (995 / 1000),
      oc_timeout = duration_seconds 30\<rparr>"

record schedule_optimizer =
  so_drf :: drf
  so_reputation :: reputation_tracker
  so_config :: optimization_config
  so_hardware :: hardware_config
  so_snapshotter :: schedule_snapshotter
  so_fragment_cache :: fragment_cache

definition with_hardware :: "optimization_config \<Rightarrow> hardware_config \<Rightarrow> schedule_optimizer" where
  "with_hardware cfg hw =
     \<lparr>so_drf = drf_new, so_reputation = reputation_tracker_new (lit (1 / 10)), so_config = cfg,
      so_hardware = hw, so_snapshotter = snapshotter_new 5, so_fragment_cache = fragment_cache_new 32\<rparr>"

definition optimizer_new :: "optimization_config \<Rightarrow> schedule_optimizer" where
  "optimizer_new cfg = with_hardware cfg hardware_config_default"

definition set_drf :: "drf \<Rightarrow> schedule_optimizer \<Rightarrow> schedule_optimizer" where
  "set_drf d o1 = o1\<lparr>so_drf := d\<rparr>"

definition set_reputation :: "reputation_tracker \<Rightarrow> schedule_optimizer \<Rightarrow> schedule_optimizer" where
  "set_reputation r o1 = o1\<lparr>so_reputation := r\<rparr>"

subsection \<open>Evaluation\<close>

text \<open>The orders in which the maps of the tenants and of the devices are iterated, and the start of a sum.\<close>

record eval_orders =
  eo_zero :: f64
  eo_tenants :: "customer_id list"
  eo_reputations :: "customer_id list"
  eo_devices :: "device_map \<Rightarrow> string list"

definition meets_minimum :: "planned_pass \<Rightarrow> bool" where
  "meets_minimum p \<longleftrightarrow>
     300 \<le> \<bar>num_seconds (pw_end (sp_scheduled_window p) - pw_start (sp_scheduled_window p))\<bar>"

definition fulfilled_ratio :: "pass_schedule \<Rightarrow> f64" where
  "fulfilled_ratio s =
     (if sch_passes s = [] then lit 0
      else fdiv (f64_of_nat (length (filter meets_minimum (sch_passes s))))
                (f64_of_nat (length (sch_passes s))))"

definition warning_analysis :: "planned_pass \<Rightarrow> keyhole_warning \<Rightarrow> keyhole_analysis" where
  "warning_analysis p kh =
     \<lparr>ka_station_id = ha_antenna_id (sp_hardware_allocation p),
      ka_pass_max_elevation_deg = kw_max_elevation_deg kh, ka_enters_keyhole = True,
      ka_keyhole_entry = None, ka_keyhole_exit = None, ka_estimated_loss_s = kw_estimated_loss_s kh,
      ka_handoff_recommended = (\<not> kw_handoff_scheduled kh), ka_loss_fraction = kw_loss_fraction kh\<rparr>"

definition pass_penalty :: "planned_pass \<Rightarrow> f64 \<Rightarrow> f64" where
  "pass_penalty p score =
     (case sp_keyhole_warning p of
        None \<Rightarrow> score
      | Some kh \<Rightarrow> fadd score (keyhole_score_penalty (warning_analysis p kh) (kw_handoff_scheduled kh)))"

definition evaluate_schedule :: "eval_orders \<Rightarrow> drf \<Rightarrow> reputation_tracker \<Rightarrow> pass_schedule \<Rightarrow> f64" where
  "evaluate_schedule eo d r s =
     (let gap = fs_fairness_gap (fairness_stats_of (eo_zero eo) (eo_tenants eo) d);
          score1 = fadd (lit 0) (fmul (fsub (lit 1) gap) (lit 100));
          avg = rst_avg_reputation (reputation_stats_of (eo_zero eo) (eo_reputations eo) r);
          score2 = fadd score1 (fmul avg (lit 50));
          n = length (check_conflicts (eo_devices eo (device_index (sch_passes s))) s);
          score3 = fsub score2 (fmul (f64_of_nat n) (lit 200));
          score4 = fadd score3 (fmul (fulfilled_ratio s) (lit 30))
      in fold pass_penalty (sch_passes s) score4)"

subsection \<open>Neighbours\<close>

text \<open>What one iteration reads from outside: the random numbers, the clock and a fresh identifier.\<close>

record turn =
  tn_index :: u64
  tn_operation :: u64
  tn_shift :: u64
  tn_later :: bool
  tn_antenna :: u64
  tn_fresh :: uuid
  tn_now :: datetime
  tn_timed_out :: bool
  tn_accept :: f64

definition trunc_rem :: "int \<Rightarrow> int \<Rightarrow> int" where
  "trunc_rem a b = sgn a * (\<bar>a\<bar> mod \<bar>b\<bar>)"

definition shift_minutes :: "turn \<Rightarrow> int" where
  "shift_minutes tn = \<bar>trunc_rem (sint (tn_shift tn)) 10 + 1\<bar>"

definition move_window :: "datetime \<Rightarrow> datetime \<Rightarrow> planned_pass \<Rightarrow> planned_pass" where
  "move_window a b p = p\<lparr>sp_scheduled_window := (sp_scheduled_window p)\<lparr>pw_start := a, pw_end := b\<rparr>\<rparr>"

definition shift_time_slot :: "chrono \<Rightarrow> turn \<Rightarrow> planned_pass \<Rightarrow> planned_pass option" where
  "shift_time_slot ch tn p =
     (let w = sp_scheduled_window p;
          shift = duration_seconds (60 * shift_minutes tn)
      in Option.bind (date_add ch (pw_start w) (if tn_later tn then shift else - shift)) (\<lambda>new_start.
         Option.bind (date_add ch new_start (pw_end w - pw_start w)) (\<lambda>new_end.
         if tn_now tn < new_start
         then Option.bind (date_add ch (pw_end w) (duration_seconds 3600)) (\<lambda>limit.
                Some (if new_end < limit then move_window new_start new_end p else p))
         else Some p)))"

fun position :: "('a \<Rightarrow> bool) \<Rightarrow> 'a list \<Rightarrow> nat option" where
  "position q [] = None"
| "position q (x # xs) = (if q x then Some 0 else map_option Suc (position q xs))"

definition reallocate_hardware :: "hardware_config \<Rightarrow> turn \<Rightarrow> planned_pass \<Rightarrow> planned_pass" where
  "reallocate_hardware hw tn p =
     (if hc_sdr_devices hw = [] then p
      else
        (let a = sp_hardware_allocation p;
             current = (case Option.bind (first_entry (ha_sdr_devices a))
                               (\<lambda>s. position (\<lambda>d. d = s) (hc_sdr_devices hw)) of
                          Some i \<Rightarrow> i | None \<Rightarrow> 0);
             a1 = a\<lparr>ha_sdr_devices := [hc_sdr_devices hw ! (Suc current mod length (hc_sdr_devices hw))]\<rparr>;
             a2 = (if hc_antenna_ids hw = [] then a1
                   else a1\<lparr>ha_antenna_id :=
                          hc_antenna_ids hw ! (unat (tn_antenna tn) mod length (hc_antenna_ids hw))\<rparr>)
         in p\<lparr>sp_hardware_allocation := a2\<rparr>))"

definition swap_passes :: "nat \<Rightarrow> nat \<Rightarrow> 'a list \<Rightarrow> 'a list" where
  "swap_passes i j xs = xs[i := xs ! j, j := xs ! i]"

definition try_preemption :: "nat \<Rightarrow> pass_schedule \<Rightarrow> pass_schedule" where
  "try_preemption i s = (if i = 0 then s else s\<lparr>sch_passes := swap_passes i (i - 1) (sch_passes s)\<rparr>)"

definition first_or :: "string \<Rightarrow> string list \<Rightarrow> string" where
  "first_or d xs = (case first_entry xs of Some x \<Rightarrow> x | None \<Rightarrow> d)"

definition create_pass :: "hardware_config \<Rightarrow> turn \<Rightarrow> pass_request \<Rightarrow> planned_pass" where
  "create_pass hw tn r =
     \<lparr>sp_pass_id = PassId (show_uuid (tn_fresh tn)), sp_request_id = pr_request_id r,
      sp_customer_id = pr_customer_id r, sp_satellite_id = pr_satellite_id r,
      sp_scheduled_window = pr_window r,
      sp_hardware_allocation =
        \<lparr>ha_sdr_devices = [first_or ''sdr-0'' (hc_sdr_devices hw)],
         ha_shadow_sdr = (if requires_shadow (pr_sla_tier r) then first_entry (hc_shadow_sdr_devices hw)
                          else None),
         ha_antenna_id = first_or ''antenna-0'' (hc_antenna_ids hw),
         ha_rotator_id = first_or ''rotator-0'' (hc_rotator_ids hw)\<rparr>,
      sp_scheduled_at = tn_now tn, sp_status = PassScheduled, sp_keyhole_warning = None\<rparr>"

definition add_unscheduled :: "hardware_config \<Rightarrow> turn \<Rightarrow> pass_request list \<Rightarrow> pass_schedule \<Rightarrow>
    pass_schedule" where
  "add_unscheduled hw tn reqs s =
     (case List.find (\<lambda>r. pr_request_id r \<notin> sp_request_id ` set (sch_passes s)) reqs of
        None \<Rightarrow> s
      | Some r \<Rightarrow> add_pass (create_pass hw tn r) s)"

definition generate_neighbor :: "chrono \<Rightarrow> hardware_config \<Rightarrow> turn \<Rightarrow> pass_request list \<Rightarrow> pass_schedule \<Rightarrow>
    pass_schedule option" where
  "generate_neighbor ch hw tn reqs s =
     (let ps = sch_passes s
      in if ps = []
         then Some (case reqs of [] \<Rightarrow> s | r # _ \<Rightarrow> add_pass (create_pass hw tn r) s)
         else
           (let i = unat (tn_index tn) mod length ps;
                operation = unat (tn_operation tn) mod 4
            in if operation = 1
               then Some (s\<lparr>sch_passes := ps[i := reallocate_hardware hw tn (ps ! i)]\<rparr>)
               else if operation = 2 then Some (try_preemption i s)
               else if operation = 3 then Some (add_unscheduled hw tn reqs s)
               else map_option (\<lambda>p. s\<lparr>sch_passes := ps[i := p]\<rparr>) (shift_time_slot ch tn (ps ! i))))"

subsection \<open>Simulated annealing\<close>

text \<open>The current schedule, the best one, its score and the temperature.\<close>

type_synonym annealing = "pass_schedule \<times> pass_schedule \<times> f64 \<times> f64"

primrec anneal :: "(turn \<Rightarrow> pass_schedule \<Rightarrow> pass_schedule option) \<Rightarrow> (pass_schedule \<Rightarrow> f64) \<Rightarrow> (f64 \<Rightarrow> f64) \<Rightarrow>
    f64 \<Rightarrow> turn list \<Rightarrow> annealing \<Rightarrow> annealing option" where
  "anneal nb score f_exp cooling [] st = Some st"
| "anneal nb score f_exp cooling (tn # tns) st =
     (if tn_timed_out tn then Some st
      else
        (let (s, best, best_score, temp) = st
         in case nb tn s of
              None \<Rightarrow> None
            | Some t \<Rightarrow>
                (let delta = fsub (score t) best_score;
                     accept = flt (lit 0) delta \<or> flt (tn_accept tn) (f_exp (fdiv delta temp));
                     better = accept \<and> flt best_score (score t)
                 in anneal nb score f_exp cooling tns
                      (if accept then t else s, if better then t else best,
                       if better then score t else best_score, fmul temp cooling))))"

text \<open>The schedule from which the search starts.\<close>

definition start_schedule :: "datetime \<Rightarrow> datetime \<Rightarrow> datetime \<Rightarrow> pass_schedule option \<Rightarrow> pass_schedule" where
  "start_schedule t0 a b existing =
     (case existing of None \<Rightarrow> schedule_new t0 a b
      | Some e \<Rightarrow> (schedule_new t0 a b)\<lparr>sch_passes := sch_passes e\<rparr>)"

text \<open>\<open>turns\<close> gives the readings of each iteration; \<open>t0\<close> is the clock of the new schedule, \<open>fresh\<close> and \<open>t1\<close>
  the identifier and the time of the snapshot.\<close>

definition optimize :: "(bytes \<Rightarrow> string) \<Rightarrow> pass_schedule codec \<Rightarrow> chrono \<Rightarrow> (f64 \<Rightarrow> f64) \<Rightarrow> eval_orders \<Rightarrow>
    (nat \<Rightarrow> turn) \<Rightarrow> datetime \<Rightarrow> uuid \<Rightarrow> datetime \<Rightarrow> pass_request list \<Rightarrow> datetime \<Rightarrow> datetime \<Rightarrow>
    pass_schedule option \<Rightarrow> schedule_optimizer \<Rightarrow>
    (pass_schedule result \<times> schedule_optimizer) option" where
  "optimize sha codec ch f_exp eo turns t0 fresh t1 reqs a b existing o1 =
     (let s = start_schedule t0 a b existing;
          (pre, sn) = take_snapshot sha codec fresh t1 s (so_snapshotter o1);
          o2 = o1\<lparr>so_snapshotter := sn\<rparr>;
          score = evaluate_schedule eo (so_drf o1) (so_reputation o1)
      in case anneal (\<lambda>tn. generate_neighbor ch (so_hardware o1) tn reqs) score f_exp
                (oc_cooling_rate (so_config o1)) (map turns [0..<oc_max_iterations (so_config o1)])
                (s, s, score s, oc_initial_temperature (so_config o1)) of
           None \<Rightarrow> None
         | Some (cur, best, best_score, temp) \<Rightarrow>
             (if flt best_score (score s)
              then (case snapshot_restore codec pre of
                      Inr old \<Rightarrow> Some (Inr old, o2)
                    | Inl e \<Rightarrow> Some (Inr best, o2))
              else Some (Inr best, o2)))"

subsection \<open>Incremental optimization\<close>

primrec climb :: "(turn \<Rightarrow> pass_schedule \<Rightarrow> pass_schedule option) \<Rightarrow> (pass_schedule \<Rightarrow> f64) \<Rightarrow> turn list \<Rightarrow>
    pass_schedule \<Rightarrow> pass_schedule option" where
  "climb nb score [] s = Some s"
| "climb nb score (tn # tns) s =
     (case nb tn s of
        None \<Rightarrow> None
      | Some t \<Rightarrow> climb nb score tns (if flt (score s) (score t) then t else s))"

definition committed :: "datetime \<Rightarrow> planned_pass \<Rightarrow> bool" where
  "committed now p \<longleftrightarrow> pw_start (sp_scheduled_window p) \<le> now"

text \<open>The future passes of a schedule, and one pass for each new request.\<close>

definition incremental_start :: "hardware_config \<Rightarrow> (nat \<Rightarrow> turn) \<Rightarrow> datetime \<Rightarrow> datetime \<Rightarrow> pass_schedule \<Rightarrow>
    pass_request list \<Rightarrow> pass_schedule" where
  "incremental_start hw inserts now t2 s reqs =
     (schedule_new t2 now (snd (sch_horizon s)))
       \<lparr>sch_passes := filter (\<lambda>p. \<not> committed now p) (sch_passes s) @
          map (\<lambda>(i, r). create_pass hw (inserts i) r) (enumerate 0 reqs)\<rparr>"

text \<open>\<open>now\<close> is the first clock reading, \<open>t1\<close>, \<open>t2\<close> and \<open>t3\<close> those of the fragment and of the two new
  schedules; \<open>inserts\<close> gives the readings for the passes of the new requests.\<close>

definition incremental_optimize :: "(string \<Rightarrow> string) \<Rightarrow> chrono \<Rightarrow>
    ((string \<rightharpoonup> schedule_fragment) \<Rightarrow> string list) \<Rightarrow> eval_orders \<Rightarrow> (nat \<Rightarrow> turn) \<Rightarrow> (nat \<Rightarrow> turn) \<Rightarrow>
    datetime \<Rightarrow> datetime \<Rightarrow> datetime \<Rightarrow> datetime \<Rightarrow> pass_schedule \<Rightarrow> pass_request list \<Rightarrow>
    schedule_optimizer \<Rightarrow> (pass_schedule result \<times> schedule_optimizer) option" where
  "incremental_optimize sha ch ord eo inserts turns now t1 t2 t3 s reqs o1 =
     (let stable = filter (committed now) (sch_passes s);
          cache = (if stable = [] then Some (so_fragment_cache o1)
                   else Option.bind (fragment_new ch sha t1 (map sp_pass_id stable) 300)
                          (\<lambda>f. add_fragment ord f (so_fragment_cache o1)));
          tail0 = incremental_start (so_hardware o1) inserts now t2 s reqs;
          score = evaluate_schedule eo (so_drf o1) (so_reputation o1)
      in Option.bind cache (\<lambda>fc.
         Option.bind (climb (\<lambda>tn. generate_neighbor ch (so_hardware o1) tn reqs) score
                        (map turns [0..<200]) tail0) (\<lambda>tail1.
         Some (Inr ((schedule_new t3 (fst (sch_horizon s)) (snd (sch_horizon s)))
                      \<lparr>sch_passes := stable @ sch_passes tail1, sch_version := sch_version s + 1\<rparr>),
               o1\<lparr>so_fragment_cache := fc\<rparr>))))"

subsection \<open>Specification\<close>

text \<open>The requests of a schedule, each at most once, all among the given ones.\<close>

definition scheduled_once :: "string set \<Rightarrow> pass_schedule \<Rightarrow> bool" where
  "scheduled_once ids s \<longleftrightarrow> distinct (map sp_request_id (sch_passes s)) \<and>
     sp_request_id ` set (sch_passes s) \<subseteq> ids"

text \<open>Inputs of the witnesses.\<close>

definition sample_turn :: "nat \<Rightarrow> turn" where
  "sample_turn i =
     \<lparr>tn_index = 0, tn_operation = 2, tn_shift = 0, tn_later = True, tn_antenna = 0, tn_fresh = of_nat i,
      tn_now = 0, tn_timed_out = False, tn_accept = lit 0\<rparr>"

definition sample_orders :: eval_orders where
  "sample_orders = \<lparr>eo_zero = lit 0, eo_tenants = [], eo_reputations = [], eo_devices = (\<lambda>_. [])\<rparr>"

definition schedule_codec :: "pass_schedule codec" where
  "schedule_codec = \<lparr>to_json = (\<lambda>_. []), from_json = (\<lambda>_. Inl ''unread'')\<rparr>"

definition calendar :: chrono where
  "calendar = \<lparr>date_in_range = (\<lambda>_. True), duration_in_range = (\<lambda>_. True)\<rparr>"

definition tiny_config :: optimization_config where
  "tiny_config = \<lparr>oc_max_iterations = 2, oc_initial_temperature = lit 1, oc_cooling_rate = lit 1,
                  oc_timeout = duration_seconds 30\<rparr>"

definition sample_request :: pass_request where
  "sample_request =
     \<lparr>pr_request_id = ''r'', pr_customer_id = CustomerId ''c'', pr_satellite_id = SatelliteId ''s'',
      pr_window = \<lparr>pw_start = 0, pw_end = 10, pw_min_duration_sec = 300\<rparr>,
      pr_hardware_requirements = \<lparr>hr_frequency_band = ''L'', hr_min_sample_rate = 0,
        hr_require_shadow = False, hr_antenna_type = None\<rparr>,
      pr_priority = PriorityNormal, pr_sla_tier = Standard, pr_submitted_at = 0\<rparr>"

section \<open>Lemmas\<close>

lemma not_flt_improve: "\<not> flt x p \<Longrightarrow> flt x y \<Longrightarrow> \<not> flt y p"
  using flt_trans by blast

text \<open>What every neighbour keeps, the search keeps; the best score is that of the best schedule and is
  never below the first one.\<close>

lemma anneal_inv:
  assumes "\<And>tn s t. P s \<Longrightarrow> nb tn s = Some t \<Longrightarrow> P t"
  shows "\<lbrakk>anneal nb score f_exp cooling tns (s, best, best_score, temp) = Some (s', best', best_score', temp');
     P s; P best; best_score = score best; \<not> flt best_score pre\<rbrakk> \<Longrightarrow>
     P s' \<and> P best' \<and> best_score' = score best' \<and> \<not> flt best_score' pre"
proof (induction tns arbitrary: s best best_score temp)
  case (Cons tn tns)
  show ?case
  proof (cases "tn_timed_out tn")
    case True
    with Cons.prems show ?thesis by auto
  next
    case False
    then obtain t where t: "nb tn s = Some t" using Cons.prems(1) by (auto split: option.splits)
    define acc where "acc \<longleftrightarrow> flt (lit 0) (fsub (score t) best_score) \<or>
      flt (tn_accept tn) (f_exp (fdiv (fsub (score t) best_score) temp))"
    define better where "better \<longleftrightarrow> acc \<and> flt best_score (score t)"
    have next_step: "anneal nb score f_exp cooling tns
        (if acc then t else s, if better then t else best, if better then score t else best_score,
         fmul temp cooling) = Some (s', best', best_score', temp')"
      using Cons.prems(1) False t by (simp add: Let_def acc_def better_def)
    have "P t" using assms Cons.prems(2) t by blast
    moreover have "\<not> flt (score t) pre" if better
      using that Cons.prems(5) unfolding better_def by (metis not_flt_improve)
    ultimately show ?thesis
      using Cons.prems(2-5) by (intro Cons.IH [OF next_step]) simp_all
  qed
qed simp

lemma climb_inv:
  assumes "\<And>tn s t. P s \<Longrightarrow> nb tn s = Some t \<Longrightarrow> P t"
  shows "\<lbrakk>climb nb score tns s = Some s'; P s; \<not> flt (score s) pre\<rbrakk> \<Longrightarrow> P s' \<and> \<not> flt (score s') pre"
proof (induction tns arbitrary: s)
  case (Cons tn tns)
  then obtain t where t: "nb tn s = Some t" by (auto split: option.splits)
  then have "P t" using assms Cons.prems(2) by blast
  show ?case
  proof (cases "flt (score s) (score t)")
    case True
    with Cons.prems have "\<not> flt (score t) pre" by (metis not_flt_improve)
    with True t Cons.prems(1) \<open>P t\<close> show ?thesis by (intro Cons.IH [of t]) auto
  next
    case False
    with t Cons.prems show ?thesis by (intro Cons.IH [of s]) auto
  qed
qed simp

text \<open>The score does not depend on the order in which the devices are iterated.\<close>

lemma evaluate_order:
  assumes "iter_order (device_index (sch_passes s)) ds" and "iter_order (device_index (sch_passes s)) ds'"
  shows "evaluate_schedule (eo\<lparr>eo_devices := \<lambda>_. ds\<rparr>) d r s = evaluate_schedule (eo\<lparr>eo_devices := \<lambda>_. ds'\<rparr>) d r s"
  by (simp add: evaluate_schedule_def conflict_count [OF assms(1)] conflict_count [OF assms(2)])

text \<open>A window moves by at most ten minutes, or not at all; only the clock holds it back, since the test
  against the end of the window plus one hour always succeeds.\<close>

lemma shift_minutes_range: "0 \<le> shift_minutes tn \<and> shift_minutes tn \<le> 10"
proof -
  have "\<bar>trunc_rem a 10\<bar> \<le> 9" for a
    using pos_mod_bound [of 10 "\<bar>a\<bar>"] by (auto simp: trunc_rem_def abs_mult sgn_if)
  from this [of "sint (tn_shift tn)"] show ?thesis by (simp add: shift_minutes_def)
qed

lemma shift_time_slot_spec:
  assumes "shift_time_slot ch tn p = Some q"
  shows "\<exists>d. \<bar>d\<bar> = duration_seconds (60 * shift_minutes tn) \<and> \<bar>d\<bar> \<le> duration_seconds 600 \<and>
    q = (if tn_now tn < pw_start (sp_scheduled_window p) + d
         then move_window (pw_start (sp_scheduled_window p) + d) (pw_end (sp_scheduled_window p) + d) p else p)"
proof -
  define m where "m = duration_seconds (60 * shift_minutes tn)"
  define d where "d = (if tn_later tn then m else - m)"
  have m: "0 \<le> m" "m \<le> duration_seconds 600"
    using shift_minutes_range [of tn] by (simp_all add: m_def duration_seconds_def)
  have "\<bar>d\<bar> = m" using m by (simp add: d_def)
  moreover have "pw_end (sp_scheduled_window p) + d < pw_end (sp_scheduled_window p) + duration_seconds 3600"
    using m by (auto simp: d_def duration_seconds_def)
  then have "q = (if tn_now tn < pw_start (sp_scheduled_window p) + d
      then move_window (pw_start (sp_scheduled_window p) + d) (pw_end (sp_scheduled_window p) + d) p else p)"
    using assms [unfolded shift_time_slot_def Let_def, folded m_def, folded d_def]
    by (auto simp: bind_eq_Some_conv date_add_def algebra_simps split: if_splits)
  ultimately show ?thesis using m by (metis m_def)
qed

subsection \<open>Neighbours keep the requests\<close>

lemma shift_request: "shift_time_slot ch tn p = Some q \<Longrightarrow> sp_request_id q = sp_request_id p"
  by (auto simp: shift_time_slot_def Let_def move_window_def bind_eq_Some_conv split: if_splits)

lemma reallocate_request: "sp_request_id (reallocate_hardware hw tn p) = sp_request_id p"
  by (simp add: reallocate_hardware_def Let_def)

lemma scheduled_once_update:
  assumes "scheduled_once ids s" and "sp_request_id q = sp_request_id (sch_passes s ! i)"
  shows "scheduled_once ids (s\<lparr>sch_passes := (sch_passes s)[i := q]\<rparr>)"
proof -
  have "map sp_request_id ((sch_passes s)[i := q]) = map sp_request_id (sch_passes s)"
    by (metis assms(2) list_update_id map_update)
  then show ?thesis
    using assms(1) unfolding scheduled_once_def by (metis (no_types, lifting) list.set_map pass_schedule.select_convs(1) pass_schedule.surjective pass_schedule.update_convs(1))
qed

lemma mset_swap_passes: "i < length xs \<Longrightarrow> j < length xs \<Longrightarrow> mset (swap_passes i j xs) = mset xs"
  unfolding swap_passes_def by (rule mset_swap)

lemma scheduled_once_mset:
  assumes "scheduled_once ids s" and "mset (sch_passes t) = mset (sch_passes s)"
  shows "scheduled_once ids t"
proof -
  have "mset (map sp_request_id (sch_passes t)) = mset (map sp_request_id (sch_passes s))"
    using assms(2) by simp
  then have "distinct (map sp_request_id (sch_passes t)) = distinct (map sp_request_id (sch_passes s))"
    by (rule mset_eq_imp_distinct_iff)
  moreover have "set (sch_passes t) = set (sch_passes s)" using assms(2) by (rule mset_eq_setD)
  ultimately show ?thesis using assms(1) by (simp add: scheduled_once_def)
qed

lemma scheduled_once_add:
  "scheduled_once ids s \<Longrightarrow> pr_request_id r \<notin> sp_request_id ` set (sch_passes s) \<Longrightarrow> pr_request_id r \<in> ids \<Longrightarrow>
     scheduled_once ids (add_pass (create_pass hw tn r) s)"
  by (auto simp: scheduled_once_def add_pass_def create_pass_def)

lemma neighbor_scheduled_once:
  assumes "generate_neighbor ch hw tn reqs s = Some t" and "scheduled_once ids s"
    and "pr_request_id ` set reqs \<subseteq> ids"
  shows "scheduled_once ids t"
proof (cases "sch_passes s = []")
  case True
  with assms show ?thesis
    by (cases reqs) (auto simp: generate_neighbor_def intro!: scheduled_once_add)
next
  case False
  define i operation where "i = unat (tn_index tn) mod length (sch_passes s)"
    and "operation = unat (tn_operation tn) mod 4"
  have i: "i < length (sch_passes s)" using False by (simp add: i_def)
  consider "t = s\<lparr>sch_passes := (sch_passes s)[i := reallocate_hardware hw tn (sch_passes s ! i)]\<rparr>"
    | "t = try_preemption i s" | "t = add_unscheduled hw tn reqs s"
    | p where "shift_time_slot ch tn (sch_passes s ! i) = Some p" "t = s\<lparr>sch_passes := (sch_passes s)[i := p]\<rparr>"
    using assms(1) False
    by (auto simp: generate_neighbor_def Let_def i_def [symmetric] operation_def [symmetric] split: if_splits)
  then show ?thesis
  proof cases
    case 1
    with assms(2) show ?thesis by (simp add: scheduled_once_update reallocate_request)
  next
    case 2
    have "mset (sch_passes t) = mset (sch_passes s)"
      using 2 i by (simp add: try_preemption_def mset_swap_passes)
    with assms(2) show ?thesis by (rule scheduled_once_mset)
  next
    case 3
    show ?thesis
    proof (cases "List.find (\<lambda>r. pr_request_id r \<notin> sp_request_id ` set (sch_passes s)) reqs")
      case None
      with 3 assms(2) show ?thesis by (simp add: add_unscheduled_def)
    next
      case (Some r)
      with find_SomeD [OF Some] assms 3 show ?thesis
        by (auto simp: add_unscheduled_def intro!: scheduled_once_add)
    qed
  next
    case 4
    with assms(2) show ?thesis by (simp add: scheduled_once_update shift_request)
  qed
qed

text \<open>The run of the annealing inside \<open>optimize\<close>.\<close>

lemma optimize_best:
  assumes "optimize sha codec ch f_exp eo turns t0 fresh t1 reqs a b existing o1 = Some (r, o2)"
    and "\<And>tn s t. P s \<Longrightarrow> generate_neighbor ch (so_hardware o1) tn reqs s = Some t \<Longrightarrow> P t"
    and "P (start_schedule t0 a b existing)"
  shows "\<exists>best. r = Inr best \<and> P best \<and>
    \<not> flt (evaluate_schedule eo (so_drf o1) (so_reputation o1) best)
          (evaluate_schedule eo (so_drf o1) (so_reputation o1) (start_schedule t0 a b existing))"
proof -
  let ?s = "start_schedule t0 a b existing"
  let ?score = "evaluate_schedule eo (so_drf o1) (so_reputation o1)"
  let ?nb = "\<lambda>tn. generate_neighbor ch (so_hardware o1) tn reqs"
  obtain cur best best_score temp where run:
    "anneal ?nb ?score f_exp (oc_cooling_rate (so_config o1)) (map turns [0..<oc_max_iterations (so_config o1)])
       (?s, ?s, ?score ?s, oc_initial_temperature (so_config o1)) = Some (cur, best, best_score, temp)"
    using assms(1) by (auto simp: optimize_def Let_def split: prod.splits option.splits)
  have self: "\<not> flt (?score ?s) (?score ?s)" using flt_asym by blast
  have best: "P best" "best_score = ?score best" "\<not> flt best_score (?score ?s)"
    using anneal_inv [where P = P and nb = ?nb and pre = "?score ?s", OF _ run assms(3) assms(3) refl self]
      assms(2) by blast+
  then have "r = Inr best"
    using assms(1) run
    by (auto simp: optimize_def Let_def split: prod.splits option.splits)
  with best show ?thesis by blast
qed

text \<open>With a calendar without bounds every neighbour exists, so the search returns.\<close>

lemma bind_total: "x \<noteq> None \<Longrightarrow> (\<And>y. f y \<noteq> None) \<Longrightarrow> Option.bind x f \<noteq> None"
  by (cases x) simp_all

lemma shift_total: "shift_time_slot calendar tn p \<noteq> None"
  by (simp add: shift_time_slot_def date_add_def calendar_def Let_def)

lemma neighbor_total: "generate_neighbor calendar hw tn reqs s \<noteq> None"
proof -
  define i operation where "i = unat (tn_index tn) mod length (sch_passes s)"
    and "operation = unat (tn_operation tn) mod 4"
  obtain p where "shift_time_slot calendar tn (sch_passes s ! i) = Some p" using shift_total by blast
  then show ?thesis
    unfolding generate_neighbor_def Let_def i_def [symmetric] operation_def [symmetric] by simp
qed

lemma anneal_total:
  assumes "\<And>tn s. nb tn s \<noteq> None"
  shows "anneal nb score f_exp cooling tns st \<noteq> None"
proof (induction tns arbitrary: st)
  case (Cons tn tns)
  obtain s best best_score temp where st: "st = (s, best, best_score, temp)" using prod_cases4 by blast
  obtain t where t: "nb tn s = Some t" using assms by blast
  show ?case
    by (simp only: anneal.simps st Let_def prod.case t option.case Cons.IH option.distinct simp_thms split: if_split)
qed simp

lemma climb_total:
  assumes "\<And>tn s. nb tn s \<noteq> None"
  shows "climb nb score tns s \<noteq> None"
proof (induction tns arbitrary: s)
  case (Cons tn tns)
  obtain t where "nb tn s = Some t" using assms by blast
  then show ?case by (simp only: climb.simps option.case Cons.IH simp_thms)
qed simp

lemma optimize_returns:
  "\<exists>r o2. optimize sha codec calendar f_exp eo turns t0 fresh t1 reqs a b existing o1 = Some (r, o2)"
proof -
  have "anneal (\<lambda>tn. generate_neighbor calendar (so_hardware o1) tn reqs) score f_exp cooling tns st \<noteq> None"
    for score cooling tns st
    by (rule anneal_total) (rule neighbor_total)
  then obtain best where best: "anneal (\<lambda>tn. generate_neighbor calendar (so_hardware o1) tn reqs)
      (evaluate_schedule eo (so_drf o1) (so_reputation o1)) f_exp (oc_cooling_rate (so_config o1))
      (map turns [0..<oc_max_iterations (so_config o1)])
      (start_schedule t0 a b existing, start_schedule t0 a b existing,
       evaluate_schedule eo (so_drf o1) (so_reputation o1) (start_schedule t0 a b existing),
       oc_initial_temperature (so_config o1)) = Some best"
    by blast
  obtain cur s1 score1 temp where "best = (cur, s1, score1, temp)" using prod_cases4 by blast
  with best show ?thesis
    by (cases "snapshot_restore codec (fst (take_snapshot sha codec fresh t1 (start_schedule t0 a b existing) (so_snapshotter o1)))")
      (simp_all add: optimize_def Let_def case_prod_beta)
qed

section \<open>Properties\<close>

text \<open>C19: the optimizer never makes a schedule worse and never schedules a request twice. Whenever the
  optimization returns, whatever the random numbers, the clock, the timeout and the schedule it started from, its schedule
  does not score below that one; so the rollback after the search is never taken. And if the schedule it started from had
  every request at most once, among some identifiers that include those of the requests, so has the result.\<close>

theorem optimize_never_worse:
  assumes "optimize sha codec ch f_exp eo turns t0 fresh t1 reqs a b existing o1 = Some (r, o2)"
  shows "\<exists>best. r = Inr best \<and>
    \<not> flt (evaluate_schedule eo (so_drf o1) (so_reputation o1) best)
          (evaluate_schedule eo (so_drf o1) (so_reputation o1) (start_schedule t0 a b existing)) \<and>
    (scheduled_once ids (start_schedule t0 a b existing) \<and> pr_request_id ` set reqs \<subseteq> ids \<longrightarrow> scheduled_once ids best)"
proof (cases "scheduled_once ids (start_schedule t0 a b existing) \<and> pr_request_id ` set reqs \<subseteq> ids")
  case True
  have "\<exists>best. r = Inr best \<and> scheduled_once ids best \<and>
      \<not> flt (evaluate_schedule eo (so_drf o1) (so_reputation o1) best)
            (evaluate_schedule eo (so_drf o1) (so_reputation o1) (start_schedule t0 a b existing))"
    using optimize_best [where P = "scheduled_once ids", OF assms(1) _ conjunct1 [OF True]]
      neighbor_scheduled_once [OF _ _ conjunct2 [OF True]] by blast
  then show ?thesis by blast
next
  case False
  have "\<exists>best. r = Inr best \<and> True \<and>
      \<not> flt (evaluate_schedule eo (so_drf o1) (so_reputation o1) best)
            (evaluate_schedule eo (so_drf o1) (so_reputation o1) (start_schedule t0 a b existing))"
    by (rule optimize_best [where P = "\<lambda>_. True", OF assms(1)]) simp_all
  with False show ?thesis by blast
qed

theorem optimize_never_worse_witness:
  "\<exists>best o2. optimize (\<lambda>_. ''h'') schedule_codec calendar (\<lambda>x. x) sample_orders sample_turn 0 1 0
      [sample_request] 0 100 None (optimizer_new tiny_config) = Some (Inr best, o2) \<and>
    scheduled_once {''r''} best"
proof -
  obtain r o2 where run: "optimize (\<lambda>_. ''h'') schedule_codec calendar (\<lambda>x. x) sample_orders sample_turn 0 1 0
      [sample_request] 0 100 None (optimizer_new tiny_config) = Some (r, o2)"
    using optimize_returns by blast
  have "scheduled_once {''r''} (start_schedule 0 0 100 None)" "pr_request_id ` set [sample_request] \<subseteq> {''r''}"
    by (simp_all add: scheduled_once_def start_schedule_def schedule_new_def sample_request_def)
  with optimize_never_worse [OF run, of "{''r''}"] run show ?thesis by blast
qed

text \<open>Incremental optimization leaves the committed passes alone. When it returns, the result is the
  passes that had started, unchanged and in order, followed by a tail that does not score below the
  future passes with one pass per new request; the horizon stays and the version is one more. Only the
  tail is scored: conflicts between it and the committed passes play no part.\<close>

theorem incremental_keeps_committed:
  assumes "incremental_optimize sha ch ord eo inserts turns now t1 t2 t3 s reqs o1 = Some (r, o2)"
  shows "\<exists>s' tail. r = Inr s' \<and> sch_passes s' = filter (committed now) (sch_passes s) @ sch_passes tail \<and>
    sch_version s' = sch_version s + 1 \<and> sch_horizon s' = sch_horizon s \<and>
    \<not> flt (evaluate_schedule eo (so_drf o1) (so_reputation o1) tail)
          (evaluate_schedule eo (so_drf o1) (so_reputation o1)
             (incremental_start (so_hardware o1) inserts now t2 s reqs))"
proof -
  let ?score = "evaluate_schedule eo (so_drf o1) (so_reputation o1)"
  let ?tail0 = "incremental_start (so_hardware o1) inserts now t2 s reqs"
  obtain fc tail where run: "climb (\<lambda>tn. generate_neighbor ch (so_hardware o1) tn reqs) ?score
        (map turns [0..<200]) ?tail0 = Some tail"
      and r: "r = Inr ((schedule_new t3 (fst (sch_horizon s)) (snd (sch_horizon s)))
        \<lparr>sch_passes := filter (committed now) (sch_passes s) @ sch_passes tail, sch_version := sch_version s + 1\<rparr>)"
    using assms by (auto simp: incremental_optimize_def Let_def bind_eq_Some_conv)
  have "\<not> flt (?score ?tail0) (?score ?tail0)" using flt_asym by blast
  then have "\<not> flt (?score tail) (?score ?tail0)"
    using climb_inv [where P = "\<lambda>_. True", OF _ run] by blast
  with r show ?thesis by (intro exI [of _ tail] exI) (auto simp: schedule_new_def)
qed

theorem incremental_keeps_committed_witness:
  "\<exists>s' o2. incremental_optimize (\<lambda>_. ''h'') calendar (\<lambda>_. []) sample_orders sample_turn sample_turn 7 7 7 7
      sample_schedule [sample_request] (optimizer_new tiny_config)
      = Some (Inr s', o2) \<and> take 2 (sch_passes s') = sch_passes sample_schedule \<and> sch_version s' = 1"
proof -
  let ?o = "optimizer_new tiny_config"
  have climbs: "climb (\<lambda>tn. generate_neighbor calendar hw tn reqs) score tns st \<noteq> None"
    for hw reqs score tns st
    by (rule climb_total) (rule neighbor_total)
  have frag: "fragment_new calendar (\<lambda>_. ''h'') 7 ps 300 \<noteq> None" for ps
    by (simp add: fragment_new_def calendar_def date_add_def)
  have added: "add_fragment (\<lambda>_. []) f (so_fragment_cache ?o) \<noteq> None" for f
    by (simp add: add_fragment_def fragment_cache_new_def prune_fragments.simps optimizer_new_def with_hardware_def)
  have "(if filter (committed 7) (sch_passes sample_schedule) = []
      then Some (so_fragment_cache ?o)
      else Option.bind (fragment_new calendar (\<lambda>_. ''h'') 7
             (map sp_pass_id (filter (committed 7) (sch_passes sample_schedule))) 300)
             (\<lambda>f. add_fragment (\<lambda>_. []) f (so_fragment_cache ?o))) \<noteq> None"
    by (simp only: option.distinct bind_total [OF frag added] simp_thms split: if_split)
  then obtain fc where fc: "(if filter (committed 7) (sch_passes sample_schedule) = []
      then Some (so_fragment_cache ?o)
      else Option.bind (fragment_new calendar (\<lambda>_. ''h'') 7
             (map sp_pass_id (filter (committed 7) (sch_passes sample_schedule))) 300)
             (\<lambda>f. add_fragment (\<lambda>_. []) f (so_fragment_cache ?o))) = Some fc"
    by blast
  from climbs obtain tail where "climb (\<lambda>tn. generate_neighbor calendar (so_hardware ?o) tn [sample_request])
      (evaluate_schedule sample_orders (so_drf ?o) (so_reputation ?o)) (map sample_turn [0..<200])
      (incremental_start (so_hardware ?o) sample_turn 7 7 sample_schedule [sample_request]) = Some tail"
    by blast
  with fc obtain r o2 where run: "incremental_optimize (\<lambda>_. ''h'') calendar (\<lambda>_. []) sample_orders
      sample_turn sample_turn 7 7 7 7 sample_schedule [sample_request] ?o = Some (r, o2)"
    unfolding incremental_optimize_def Let_def by (simp only: Option.bind.simps)
  have "filter (committed 7) (sch_passes sample_schedule) = sch_passes sample_schedule"
    by (simp add: sample_schedule_def sample_pass_def committed_def)
  moreover have "length (sch_passes sample_schedule) = 2" "sch_version sample_schedule = 0"
    by (simp_all add: sample_schedule_def)
  ultimately show ?thesis using incremental_keeps_committed [OF run] run by (auto simp: exI [of _ o2])
qed

end
