(* ===== verification/Batching.thy ===== *)
theory Batching
  imports Bitemporal_Log Snapshotting
begin

text \<open>
  Batches of orbital elements, log entries and decoded symbols (\<open>batching/src/\<close>).

  The interface \<open>batcher\<close> states what a batcher promises: items wait in the order in which they were
  added, and a flush hands all of them over or does nothing when there are none. It is interpreted for
  the log and for the demodulator batcher; no item is lost, repeated or reordered by any run.
\<close>

section \<open>Definitions\<close>

subsection \<open>Orbital elements\<close>

record tle_data =
  tle_line1 :: string
  tle_line2 :: string
  tle_epoch :: datetime

record tle_batch =
  tb_batch_id :: string
  tb_created_at :: datetime
  tb_tles :: "satellite_id \<rightharpoonup> tle_data"
  tb_snapshot_time :: datetime

record tle_batcher =
  tbr_pending_tles :: "satellite_id \<rightharpoonup> tle_data"
  tbr_batch_size :: nat

definition tle_batcher_new :: "nat \<Rightarrow> tle_batcher" where
  "tle_batcher_new n = \<lparr>tbr_pending_tles = Map.empty, tbr_batch_size = n\<rparr>"

definition add_tle :: "satellite_id \<Rightarrow> tle_data \<Rightarrow> tle_batcher \<Rightarrow> tle_batcher" where
  "add_tle i t b = b\<lparr>tbr_pending_tles := (tbr_pending_tles b)(i \<mapsto> t)\<rparr>"

definition tle_pending_count :: "tle_batcher \<Rightarrow> nat" where
  "tle_pending_count b = card (dom (tbr_pending_tles b))"

definition tle_is_ready :: "tle_batcher \<Rightarrow> bool" where
  "tle_is_ready b \<longleftrightarrow> tbr_batch_size b \<le> tle_pending_count b"

text \<open>The clock is read twice.\<close>

definition tle_flush :: "uuid \<Rightarrow> datetime \<Rightarrow> datetime \<Rightarrow> tle_batcher \<Rightarrow> tle_batch option \<times> tle_batcher" where
  "tle_flush fresh t1 t2 b =
     (if tbr_pending_tles b = Map.empty then (None, b)
      else (Some \<lparr>tb_batch_id = show_uuid fresh, tb_created_at = t1, tb_tles = tbr_pending_tles b,
                  tb_snapshot_time = t2\<rparr>,
            b\<lparr>tbr_pending_tles := Map.empty\<rparr>))"

definition tle_force_flush :: "uuid \<Rightarrow> datetime \<Rightarrow> datetime \<Rightarrow> tle_batcher \<Rightarrow> tle_batch option \<times> tle_batcher" where
  "tle_force_flush = tle_flush"

subsection \<open>Log entries\<close>

record 'j log_batch =
  lb_batch_id :: string
  lb_entries :: "'j log_entry list"
  lb_created_at :: datetime

record 'j log_batcher =
  lbr_pending_entries :: "'j log_entry list"
  lbr_batch_size :: nat

definition log_batcher_new :: "nat \<Rightarrow> 'j log_batcher" where
  "log_batcher_new n = \<lparr>lbr_pending_entries = [], lbr_batch_size = n\<rparr>"

definition add_entry :: "'j log_entry \<Rightarrow> 'j log_batcher \<Rightarrow> 'j log_batcher" where
  "add_entry e b = b\<lparr>lbr_pending_entries := lbr_pending_entries b @ [e]\<rparr>"

definition log_is_ready :: "'j log_batcher \<Rightarrow> bool" where
  "log_is_ready b \<longleftrightarrow> lbr_batch_size b \<le> length (lbr_pending_entries b)"

definition log_flush :: "uuid \<Rightarrow> datetime \<Rightarrow> 'j log_batcher \<Rightarrow> 'j log_batch option \<times> 'j log_batcher" where
  "log_flush fresh now b =
     (if lbr_pending_entries b = [] then (None, b)
      else (Some \<lparr>lb_batch_id = show_uuid fresh, lb_entries = lbr_pending_entries b, lb_created_at = now\<rparr>,
            b\<lparr>lbr_pending_entries := []\<rparr>))"

definition log_force_flush :: "uuid \<Rightarrow> datetime \<Rightarrow> 'j log_batcher \<Rightarrow> 'j log_batch option \<times> 'j log_batcher" where
  "log_force_flush = log_flush"

subsection \<open>Decoded symbols\<close>

record demod_batch =
  db_batch_id :: string
  db_symbols :: "u8 bitemporal list"
  db_sequence :: u64

record demod_batcher =
  dbr_pending_symbols :: "u8 bitemporal list"
  dbr_batch_size :: nat
  dbr_sequence :: u64

definition demod_batcher_new :: "nat \<Rightarrow> demod_batcher" where
  "demod_batcher_new n = \<lparr>dbr_pending_symbols = [], dbr_batch_size = n, dbr_sequence = 0\<rparr>"

definition add_symbol :: "u8 bitemporal \<Rightarrow> demod_batcher \<Rightarrow> demod_batcher" where
  "add_symbol x b = b\<lparr>dbr_pending_symbols := dbr_pending_symbols b @ [x]\<rparr>"

definition demod_is_ready :: "demod_batcher \<Rightarrow> bool" where
  "demod_is_ready b \<longleftrightarrow> dbr_batch_size b \<le> length (dbr_pending_symbols b)"

definition demod_flush :: "uuid \<Rightarrow> demod_batcher \<Rightarrow> demod_batch option \<times> demod_batcher" where
  "demod_flush fresh b =
     (if dbr_pending_symbols b = [] then (None, b)
      else (Some \<lparr>db_batch_id = show_uuid fresh, db_symbols = dbr_pending_symbols b,
                  db_sequence = dbr_sequence b\<rparr>,
            b\<lparr>dbr_pending_symbols := [], dbr_sequence := dbr_sequence b + 1\<rparr>))"

definition demod_force_flush :: "uuid \<Rightarrow> demod_batcher \<Rightarrow> demod_batch option \<times> demod_batcher" where
  "demod_force_flush = demod_flush"

subsection \<open>Runs\<close>

text \<open>A call on a batcher: an item is added, or the batch is flushed with a fresh identifier.\<close>

datatype 'i batch_call = BatchAdd 'i | BatchFlush uuid datetime

primrec batch_run :: "('i \<Rightarrow> 's \<Rightarrow> 's) \<Rightarrow> (uuid \<Rightarrow> datetime \<Rightarrow> 's \<Rightarrow> 'b option \<times> 's) \<Rightarrow>
    'i batch_call list \<Rightarrow> 's \<Rightarrow> 'b list \<times> 's" where
  "batch_run add flush [] s = ([], s)"
| "batch_run add flush (c # cs) s =
     (case c of
        BatchAdd x \<Rightarrow> batch_run add flush cs (add x s)
      | BatchFlush u t \<Rightarrow>
          (case flush u t s of
             (None, s1) \<Rightarrow> batch_run add flush cs s1
           | (Some b, s1) \<Rightarrow> (let (bs, s2) = batch_run add flush cs s1 in (b # bs, s2))))"

definition added_items :: "'i batch_call list \<Rightarrow> 'i list" where
  "added_items cs = List.map_filter (\<lambda>c. case c of BatchAdd x \<Rightarrow> Some x | BatchFlush _ _ \<Rightarrow> None) cs"

definition demod_run :: "u8 bitemporal batch_call list \<Rightarrow> demod_batcher \<Rightarrow> demod_batch list \<times> demod_batcher" where
  "demod_run = batch_run add_symbol (\<lambda>u _. demod_flush u)"

definition log_run :: "'j log_entry batch_call list \<Rightarrow> 'j log_batcher \<Rightarrow> 'j log_batch list \<times> 'j log_batcher" where
  "log_run = batch_run add_entry log_flush"

section \<open>The interface\<close>

locale batcher =
  fixes add :: "'i \<Rightarrow> 's \<Rightarrow> 's"
    and flush :: "uuid \<Rightarrow> datetime \<Rightarrow> 's \<Rightarrow> 'b option \<times> 's"
    and pending :: "'s \<Rightarrow> 'i list"
    and items :: "'b \<Rightarrow> 'i list"
  assumes pending_add: "pending (add x s) = pending s @ [x]"
    and flush_none: "flush u t s = (None, s') \<Longrightarrow> pending s = [] \<and> s' = s"
    and flush_some: "flush u t s = (Some b, s') \<Longrightarrow> items b = pending s \<and> items b \<noteq> [] \<and> pending s' = []"
begin

lemma run_conserves:
  "batch_run add flush cs s = (bs, s') \<Longrightarrow>
     concat (map items bs) @ pending s' = pending s @ added_items cs"
proof (induction cs arbitrary: s bs s')
  case Nil
  then show ?case by (simp add: added_items_def List.map_filter_def)
next
  case (Cons c cs)
  show ?case
  proof (cases c)
    case (BatchAdd x)
    with Cons.prems Cons.IH [of "add x s"] show ?thesis
      by (simp add: pending_add added_items_def List.map_filter_def)
  next
    case (BatchFlush u t)
    have items: "added_items (c # cs) = added_items cs"
      by (simp add: BatchFlush added_items_def List.map_filter_def)
    obtain r s1 where flush: "flush u t s = (r, s1)" by fastforce
    show ?thesis
    proof (cases r)
      case None
      with flush BatchFlush Cons.prems Cons.IH [of s1] flush_none [of u t s s1] items show ?thesis by simp
    next
      case (Some b)
      obtain bs1 where bs: "bs = b # bs1" "batch_run add flush cs s1 = (bs1, s')"
        using Cons.prems BatchFlush flush Some by (auto split: prod.splits)
      with Cons.IH [of s1] flush_some [of u t s b s1] flush Some items show ?thesis by simp
    qed
  qed
qed

lemma batches_nonempty: "batch_run add flush cs s = (bs, s') \<Longrightarrow> \<forall>b \<in> set bs. items b \<noteq> []"
proof (induction cs arbitrary: s bs s')
  case (Cons c cs)
  then show ?case
    by (cases c) (fastforce dest: flush_some split: prod.splits option.splits)+
qed simp

end

interpretation demod_batches: batcher add_symbol "\<lambda>u _. demod_flush u" dbr_pending_symbols db_symbols
  by unfold_locales (auto simp: add_symbol_def demod_flush_def split: if_splits)

interpretation log_batches: batcher add_entry log_flush lbr_pending_entries lb_entries
  by unfold_locales (auto simp: add_entry_def log_flush_def split: if_splits)

section \<open>Lemmas\<close>

lemma demod_sequences:
  "demod_run cs s = (bs, s') \<Longrightarrow>
     map db_sequence bs = map (\<lambda>k. dbr_sequence s + of_nat k) [0..<length bs] \<and>
     dbr_sequence s' = dbr_sequence s + of_nat (length bs)"
proof (induction cs arbitrary: s bs s')
  case Nil
  then show ?case by (simp add: demod_run_def)
next
  case (Cons c cs)
  show ?case
  proof (cases c)
    case (BatchAdd x)
    with Cons.prems Cons.IH [of "add_symbol x s"] show ?thesis by (simp add: demod_run_def add_symbol_def)
  next
    case (BatchFlush u t)
    show ?thesis
    proof (cases "dbr_pending_symbols s = []")
      case True
      with BatchFlush Cons.prems Cons.IH [of s] show ?thesis by (simp add: demod_run_def demod_flush_def)
    next
      case False
      then obtain b s1 where flush: "demod_flush u s = (Some b, s1)" "db_sequence b = dbr_sequence s"
          "dbr_sequence s1 = dbr_sequence s + 1"
        by (simp add: demod_flush_def)
      then obtain bs1 where bs: "bs = b # bs1" "demod_run cs s1 = (bs1, s')"
        using Cons.prems BatchFlush by (auto simp: demod_run_def split: prod.splits)
      have "map (\<lambda>k. dbr_sequence s + 1 + of_nat k) [0..<n] = map (\<lambda>k. dbr_sequence s + of_nat k) [1..<Suc n]" for n
        by (simp add: map_Suc_upt [symmetric] comp_def add.assoc del: upt_Suc)
      then show ?thesis
        using Cons.IH [OF bs(2)] flush bs(1) by (simp add: upt_conv_Cons ac_simps del: upt_Suc)
    qed
  qed
qed

section \<open>Properties\<close>

text \<open>C23: no decoded symbol is lost, repeated or reordered. In every run of a new demodulator batcher the
  symbols of the batches, in order, followed by the pending ones, are the symbols added; no batch is
  empty; and the batches are numbered from 0, modulo the width of the sequence number.\<close>

theorem demod_batches_conserve:
  assumes "demod_run cs (demod_batcher_new n) = (bs, s)"
  shows "concat (map db_symbols bs) @ dbr_pending_symbols s = added_items cs \<and>
    (\<forall>b \<in> set bs. db_symbols b \<noteq> []) \<and> map db_sequence bs = map of_nat [0..<length bs]"
proof -
  have run: "batch_run add_symbol (\<lambda>u _. demod_flush u) cs (demod_batcher_new n) = (bs, s)"
    using assms by (simp add: demod_run_def)
  show ?thesis
    using demod_batches.run_conserves [OF run] demod_batches.batches_nonempty [OF run] demod_sequences [OF assms]
    by (simp add: demod_batcher_new_def)
qed

theorem demod_batches_conserve_witness:
  "\<exists>bs s. demod_run [BatchAdd (bitemporal_new 7 (EventTime 0) (ReceptionTime 0)), BatchFlush 1 2] (demod_batcher_new 10) = (bs, s) \<and>
     map db_sequence bs = [0] \<and>
     concat (map db_symbols bs) @ dbr_pending_symbols s = [bitemporal_new 7 (EventTime 0) (ReceptionTime 0)]"
proof -
  let ?cs = "[BatchAdd (bitemporal_new 7 (EventTime 0) (ReceptionTime 0)), BatchFlush 1 2]"
  obtain bs s where run: "demod_run ?cs (demod_batcher_new 10) = (bs, s)" by fastforce
  then have "length bs = 1"
    by (auto simp: demod_run_def demod_flush_def add_symbol_def demod_batcher_new_def)
  with demod_batches_conserve [OF run] run show ?thesis
    by (simp add: added_items_def List.map_filter_def)
qed

text \<open>The same for the log batcher.\<close>

lemma log_batches_conserve:
  "log_run cs (log_batcher_new n) = (bs, s) \<Longrightarrow>
     concat (map lb_entries bs) @ lbr_pending_entries s = added_items cs \<and> (\<forall>b \<in> set bs. lb_entries b \<noteq> [])"
  using log_batches.run_conserves [of cs "log_batcher_new n" bs s]
    log_batches.batches_nonempty [of cs "log_batcher_new n" bs s]
  by (simp add: log_run_def log_batcher_new_def)

text \<open>A flush of orbital elements hands over the newest ones of each satellite, and starts again.\<close>

lemma tle_flush_newest:
  "tle_flush u t1 t2 (add_tle i x b) =
     (Some \<lparr>tb_batch_id = show_uuid u, tb_created_at = t1, tb_tles = (tbr_pending_tles b)(i \<mapsto> x),
            tb_snapshot_time = t2\<rparr>, b\<lparr>tbr_pending_tles := Map.empty\<rparr>)"
  by (simp add: tle_flush_def add_tle_def fun_upd_def) (metis option.distinct(1))

end
