(* ===== verification/Regulation.thy ===== *)
theory Regulation
  imports Core_Types F64
begin

text \<open>
  Spectrum regulation (\<open>regulatory/src/\<close>): frequencies, licences and coordination proofs typed by a band,
  the transmit function, the store of licences and the compliance checker.

  A marker type of the code is a type parameter, and the constants of its \<open>Band\<close> implementation are a
  value of type \<open>'b band\<close>: a licence of one band does not typecheck where another is expected, here as in
  the code. The JSON library is a parameter: the deserialization of a licence, which does not contain the
  band, and the text of its end of validity. So are the logarithm, the power and the rendering of numbers.
\<close>

section \<open>Definitions\<close>

subsection \<open>Bands, frequencies and power\<close>

datatype 'b phantom = PhantomData

record 'b band =
  bd_name :: string
  bd_min_frequency :: u64
  bd_max_frequency :: u64
  bd_marker :: "'b phantom"

datatype l_band = LBandMarker
datatype s_band = SBandMarker
datatype c_band = CBandMarker

definition l_band :: "l_band band" where
  "l_band = \<lparr>bd_name = ''L-band'', bd_min_frequency = 1000000000, bd_max_frequency = 2000000000,
             bd_marker = PhantomData\<rparr>"

definition s_band :: "s_band band" where
  "s_band = \<lparr>bd_name = ''S-band'', bd_min_frequency = 2000000000, bd_max_frequency = 4000000000,
             bd_marker = PhantomData\<rparr>"

definition c_band :: "c_band band" where
  "c_band = \<lparr>bd_name = ''C-band'', bd_min_frequency = 4000000000, bd_max_frequency = 8000000000,
             bd_marker = PhantomData\<rparr>"

record 'b frequency =
  fq_hz :: u64
  fq_band :: "'b phantom"

definition frequency_new :: "'b band \<Rightarrow> u64 \<Rightarrow> 'b frequency option" where
  "frequency_new B hz =
     (if bd_min_frequency B \<le> hz \<and> hz \<le> bd_max_frequency B
      then Some \<lparr>fq_hz = hz, fq_band = PhantomData\<rparr> else None)"

definition frequency_hz :: "'b frequency \<Rightarrow> u64" where
  "frequency_hz f = fq_hz f"

datatype power = Power (power_dbm: f64)

definition to_watts :: "(f64 \<Rightarrow> f64 \<Rightarrow> f64) \<Rightarrow> power \<Rightarrow> f64" where
  "to_watts f_powf p = f_powf (lit 10) (fdiv (fsub (power_dbm p) (lit 30)) (lit 10))"

definition from_watts :: "(f64 \<Rightarrow> f64) \<Rightarrow> f64 \<Rightarrow> power" where
  "from_watts f_log10 w = Power (fadd (fmul (lit 10) (f_log10 w)) (lit 30))"

record 'b coordination_proof =
  cp_coordinated_with :: "string list"
  cp_coordination_date :: datetime
  cp_band :: "'b phantom"

definition coordination_new :: "datetime \<Rightarrow> string list \<Rightarrow> 'b coordination_proof" where
  "coordination_new now ws = \<lparr>cp_coordinated_with = ws, cp_coordination_date = now, cp_band = PhantomData\<rparr>"

subsection \<open>Licences\<close>

record 'b license =
  lic_holder :: customer_id
  lic_band :: "'b phantom"
  lic_valid_from :: datetime
  lic_valid_until :: datetime
  lic_max_power_dbm :: f64

definition license_new :: "customer_id \<Rightarrow> datetime \<Rightarrow> datetime \<Rightarrow> f64 \<Rightarrow> 'b license" where
  "license_new h a b p =
     \<lparr>lic_holder = h, lic_band = PhantomData, lic_valid_from = a, lic_valid_until = b, lic_max_power_dbm = p\<rparr>"

definition license_is_valid :: "datetime \<Rightarrow> 'b license \<Rightarrow> bool" where
  "license_is_valid now l \<longleftrightarrow> lic_valid_from l \<le> now \<and> now < lic_valid_until l"

definition remaining_validity :: "datetime \<Rightarrow> 'b license \<Rightarrow> duration option" where
  "remaining_validity now l = (if now < lic_valid_until l then Some (lic_valid_until l - now) else None)"

definition power_allowed :: "f64 \<Rightarrow> 'b license \<Rightarrow> bool" where
  "power_allowed dbm l \<longleftrightarrow> fle dbm (lic_max_power_dbm l)"

text \<open>The JSON library: the value of a licence without its band, reading it back, and the text of the
  field \<open>valid_until\<close> with the parser of dates.\<close>

record license_data =
  ld_holder :: customer_id
  ld_valid_from :: datetime
  ld_valid_until :: datetime
  ld_max_power_dbm :: f64

record 'j license_json =
  lj_from_value :: "'j \<Rightarrow> license_data option"
  lj_valid_until :: "'j \<Rightarrow> string option"
  lj_parse_rfc3339 :: "string \<Rightarrow> datetime option"

definition typed_license :: "license_data \<Rightarrow> 'b license" where
  "typed_license d = license_new (ld_holder d) (ld_valid_from d) (ld_valid_until d) (ld_max_power_dbm d)"

record 'j license_store =
  lst_licenses :: "string \<rightharpoonup> 'j"

definition license_store_new :: "'j license_store" where
  "license_store_new = \<lparr>lst_licenses = Map.empty\<rparr>"

definition add_license :: "string \<Rightarrow> 'j \<Rightarrow> 'j license_store \<Rightarrow> 'j license_store" where
  "add_license k v s = s\<lparr>lst_licenses := (lst_licenses s)(k \<mapsto> v)\<rparr>"

definition license_key :: "customer_id \<Rightarrow> string \<Rightarrow> string" where
  "license_key h name = customer_id_str h @ '':'' @ name"

definition get_license :: "'j license_json \<Rightarrow> 'b band \<Rightarrow> customer_id \<Rightarrow> 'j license_store \<Rightarrow> 'b license option" where
  "get_license lj B h s =
     Option.bind (lst_licenses s (license_key h (bd_name B)))
       (\<lambda>v. map_option typed_license (lj_from_value lj v))"

definition has_valid_license :: "'j license_json \<Rightarrow> datetime \<Rightarrow> 'b band \<Rightarrow> customer_id \<Rightarrow> 'j license_store \<Rightarrow> bool" where
  "has_valid_license lj now B h s \<longleftrightarrow>
     (case get_license lj B h s of Some l \<Rightarrow> license_is_valid now l | None \<Rightarrow> False)"

definition spaces_to_t :: "string \<Rightarrow> string" where
  "spaces_to_t = map (\<lambda>c. if c = CHR '' '' then CHR ''T'' else c)"

definition check_license_validity :: "'j license_json \<Rightarrow> datetime \<Rightarrow> string \<Rightarrow> 'j license_store \<Rightarrow> bool option" where
  "check_license_validity lj now k s =
     Option.bind (lst_licenses s k) (\<lambda>v.
     Option.bind (lj_valid_until lj v) (\<lambda>t.
     map_option (\<lambda>u. now < u)
       (case lj_parse_rfc3339 lj t of
          Some u \<Rightarrow> Some u
        | None \<Rightarrow> lj_parse_rfc3339 lj (spaces_to_t t))))"

definition remove_license :: "customer_id \<Rightarrow> string \<Rightarrow> 'j license_store \<Rightarrow> 'j license_store" where
  "remove_license h name s = s\<lparr>lst_licenses := (lst_licenses s)(license_key h name := None)\<rparr>"

definition starts_with :: "string \<Rightarrow> string \<Rightarrow> bool" where
  "starts_with p xs \<longleftrightarrow> take (length p) xs = p"

text \<open>\<open>ks\<close> is the iteration order of the store.\<close>

definition get_holder_licenses :: "string list \<Rightarrow> customer_id \<Rightarrow> string list" where
  "get_holder_licenses ks h = filter (starts_with (license_key h [])) ks"

subsection \<open>Transmission\<close>

datatype transmit_error =
  LicenseNotValid | PowerExceedsLimitError | CoordinationRequired | TransmitFailed string

fun transmit_error_text :: "transmit_error \<Rightarrow> string" where
  "transmit_error_text LicenseNotValid = ''License not valid''"
| "transmit_error_text PowerExceedsLimitError = ''Power exceeds license limit''"
| "transmit_error_text CoordinationRequired = ''Coordination required but not provided''"
| "transmit_error_text (TransmitFailed s) = ''Transmit failed: '' @ s"

definition reg_transmit :: "datetime \<Rightarrow> 'b license \<Rightarrow> 'b frequency \<Rightarrow> power \<Rightarrow> 'b coordination_proof option \<Rightarrow>
    bool \<Rightarrow> unit result" where
  "reg_transmit now l f p coord required =
     (if \<not> license_is_valid now l then Inl (Regulatory ''License not valid'')
      else if \<not> power_allowed (power_dbm p) l then Inl (Regulatory ''Power exceeds limit'')
      else if required \<and> coord = None then Inl (Regulatory ''Coordination required'')
      else Inr ())"

definition transmit_no_coordination :: "datetime \<Rightarrow> 'b license \<Rightarrow> 'b frequency \<Rightarrow> power \<Rightarrow> unit result" where
  "transmit_no_coordination now l f p = reg_transmit now l f p None False"

definition transmit_with_coordination :: "datetime \<Rightarrow> 'b license \<Rightarrow> 'b frequency \<Rightarrow> power \<Rightarrow>
    'b coordination_proof \<Rightarrow> unit result" where
  "transmit_with_coordination now l f p c = reg_transmit now l f p (Some c) True"

subsection \<open>Compliance\<close>

datatype violation_type =
    MissingLicense string
  | ExpiredLicense customer_id string
  | PowerExceedsLimit string f64 f64
  | MissingCoordination string
  | FrequencyOutsideBand string u64

datatype violation_severity = SevLow | SevMedium | SevHigh | SevCritical

record compliance_violation =
  cv_violation_type :: violation_type
  cv_description :: string
  cv_severity :: violation_severity

record compliance_result =
  cr_compliant :: bool
  cr_violations :: "compliance_violation list"
  cr_checked_at :: datetime

record 'j compliance_checker =
  ck_license_store :: "'j license_store"

definition checker_new :: "'j license_store \<Rightarrow> 'j compliance_checker" where
  "checker_new s = \<lparr>ck_license_store = s\<rparr>"

text \<open>\<open>fmt\<close> renders a number; \<open>now\<close> is the clock of the validity check, \<open>later\<close> that of the result.\<close>

definition check_transmit_permission :: "'j license_json \<Rightarrow> (f64 \<Rightarrow> string) \<Rightarrow> datetime \<Rightarrow> datetime \<Rightarrow> 'b band \<Rightarrow>
    customer_id \<Rightarrow> u64 \<Rightarrow> f64 \<Rightarrow> 'j compliance_checker \<Rightarrow> compliance_result" where
  "check_transmit_permission lj fmt now later B h hz dbm c =
     (let vs1 =
        (case get_license lj B h (ck_license_store c) of
           None \<Rightarrow>
             [\<lparr>cv_violation_type = MissingLicense (bd_name B),
               cv_description = ''No license found for '' @ bd_name B @ '' band'', cv_severity = SevCritical\<rparr>]
         | Some l \<Rightarrow>
             (if license_is_valid now l then []
              else [\<lparr>cv_violation_type = ExpiredLicense h (bd_name B),
                     cv_description = ''License for '' @ bd_name B @ '' band has expired'',
                     cv_severity = SevCritical\<rparr>]) @
             (if power_allowed dbm l then []
              else [\<lparr>cv_violation_type = PowerExceedsLimit (bd_name B) dbm (lic_max_power_dbm l),
                     cv_description = ''Power '' @ fmt dbm @ '' dBm exceeds license limit '' @
                       fmt (lic_max_power_dbm l) @ '' dBm'',
                     cv_severity = SevHigh\<rparr>]));
          vs2 =
            (if hz < bd_min_frequency B \<or> bd_max_frequency B < hz
             then [\<lparr>cv_violation_type = FrequencyOutsideBand (bd_name B) hz,
                    cv_description = ''Frequency '' @ show_nat (unat hz) @ '' Hz is outside '' @ bd_name B @
                      '' band ('' @ show_nat (unat (bd_min_frequency B)) @ ''-'' @
                      show_nat (unat (bd_max_frequency B)) @ '' Hz)'',
                    cv_severity = SevCritical\<rparr>]
             else [])
      in \<lparr>cr_compliant = (vs1 @ vs2 = []), cr_violations = vs1 @ vs2, cr_checked_at = later\<rparr>)"

record compliance_report =
  crp_holder :: customer_id
  crp_total_licenses :: nat
  crp_valid_licenses :: nat
  crp_expired_licenses :: nat
  crp_overall_compliant :: bool
  crp_checked_at :: datetime

text \<open>The clock is read once per licence; \<open>now\<close> gives the reading for a key.\<close>

definition get_holder_compliance :: "'j license_json \<Rightarrow> string list \<Rightarrow> (string \<Rightarrow> datetime) \<Rightarrow> datetime \<Rightarrow>
    customer_id \<Rightarrow> 'j compliance_checker \<Rightarrow> compliance_report" where
  "get_holder_compliance lj ks now later h c =
     (let keys = get_holder_licenses ks h;
          checks = map (\<lambda>k. check_license_validity lj (now k) k (ck_license_store c)) keys;
          valid = length (filter (\<lambda>r. r = Some True) checks);
          expired = length (filter (\<lambda>r. r = Some False) checks)
      in \<lparr>crp_holder = h, crp_total_licenses = length keys, crp_valid_licenses = valid,
          crp_expired_licenses = expired,
          crp_overall_compliant = (0 < length keys \<and> expired = 0 \<and> 0 < valid), crp_checked_at = later\<rparr>)"

subsection \<open>Inputs of the witnesses\<close>

text \<open>Values of the JSON library are licences; the text of a date is ignored by its parser.\<close>

definition plain_json :: "license_data license_json" where
  "plain_json = \<lparr>lj_from_value = Some, lj_valid_until = (\<lambda>d. Some ''t''), lj_parse_rfc3339 = (\<lambda>_. Some 9)\<rparr>"

definition future_license :: license_data where
  "future_license = \<lparr>ld_holder = CustomerId ''h'', ld_valid_from = 5, ld_valid_until = 9, ld_max_power_dbm = lit 30\<rparr>"

section \<open>Lemmas\<close>

lemma frequency_new_Some:
  "frequency_new B hz = Some f \<longleftrightarrow>
     bd_min_frequency B \<le> hz \<and> hz \<le> bd_max_frequency B \<and> f = \<lparr>fq_hz = hz, fq_band = PhantomData\<rparr>"
  by (auto simp: frequency_new_def)

lemma reg_transmit_ok:
  "reg_transmit now l f p c required = Inr () \<longleftrightarrow>
     license_is_valid now l \<and> power_allowed (power_dbm p) l \<and> (required \<longrightarrow> c \<noteq> None)"
  by (simp add: reg_transmit_def)

text \<open>The field of a frequency can be written: transmission does not look at it.\<close>

lemma transmit_ignores_frequency:
  "reg_transmit now l (f\<lparr>fq_hz := hz\<rparr>) p c required = reg_transmit now l f p c required"
  by (simp add: reg_transmit_def)

lemma permission_compliant:
  "cr_compliant (check_transmit_permission lj fmt now later B h hz dbm c) \<longleftrightarrow>
     (\<exists>l. get_license lj B h (ck_license_store c) = Some l \<and> license_is_valid now l \<and> power_allowed dbm l) \<and>
     bd_min_frequency B \<le> hz \<and> hz \<le> bd_max_frequency B"
  by (auto simp: check_transmit_permission_def Let_def not_less split: option.splits)

lemma holder_licenses_prefix:
  "license_key (CustomerId (customer_id_str h @ '':'' @ x)) name \<in> set ks \<Longrightarrow>
     license_key (CustomerId (customer_id_str h @ '':'' @ x)) name \<in> set (get_holder_licenses ks h)"
  by (simp add: get_holder_licenses_def starts_with_def license_key_def)

text \<open>So a holder whose name is a prefix, up to a colon, of another's is reported with the other's licences.\<close>

lemma other_holder_licenses_count:
  assumes "k = license_key (CustomerId (customer_id_str h @ '':'' @ x)) name"
    and "lst_licenses (ck_license_store c) = [k \<mapsto> v]"
    and "check_license_validity lj (now k) k (ck_license_store c) = Some True"
    and "bd_name B \<noteq> x @ '':'' @ name"
  shows "crp_overall_compliant (get_holder_compliance lj [k] now later h c) \<and>
    get_license lj B h (ck_license_store c) = None"
proof -
  have keys: "get_holder_licenses [k] h = [k]"
    by (simp add: assms(1) get_holder_licenses_def starts_with_def license_key_def)
  have "license_key h (bd_name B) \<noteq> k" using assms(4) by (simp add: assms(1) license_key_def)
  then show ?thesis
    by (simp add: get_holder_compliance_def keys Let_def assms(2,3) get_license_def)
qed

section \<open>Properties\<close>


text \<open>The report of a holder counts a licence that is not valid yet. When the only licence of the
  store starts in the future, the report calls the holder compliant, with one valid licence, while the
  check of a transmission on that band calls it expired, whatever the frequency and the power.\<close>

theorem report_counts_future_license:
  assumes "lj_from_value lj v = Some d" "lj_valid_until lj v = Some t"
    and "lj_parse_rfc3339 lj t = Some (ld_valid_until d)"
    and "now < ld_valid_from d" "ld_valid_from d < ld_valid_until d"
    and "lst_licenses (ck_license_store c) = [license_key h (bd_name B) \<mapsto> v]"
  shows "crp_overall_compliant (get_holder_compliance lj [license_key h (bd_name B)] (\<lambda>_. now) later h c) \<and>
    crp_valid_licenses (get_holder_compliance lj [license_key h (bd_name B)] (\<lambda>_. now) later h c) = 1 \<and>
    \<not> has_valid_license lj now B h (ck_license_store c) \<and>
    \<not> cr_compliant (check_transmit_permission lj fmt now later B h hz dbm c)"
proof -
  have keys: "get_holder_licenses [license_key h (bd_name B)] h = [license_key h (bd_name B)]"
    by (simp add: get_holder_licenses_def starts_with_def license_key_def)
  have "check_license_validity lj now (license_key h (bd_name B)) (ck_license_store c) = Some True"
    using assms by (simp add: check_license_validity_def)
  moreover have "get_license lj B h (ck_license_store c) = Some (typed_license d)"
    using assms by (simp add: get_license_def)
  ultimately show ?thesis
    using assms(4)
    by (simp add: get_holder_compliance_def keys Let_def has_valid_license_def permission_compliant
        license_is_valid_def typed_license_def license_new_def)
qed

theorem report_counts_future_license_witness:
  "crp_overall_compliant (get_holder_compliance plain_json [''h:L-band''] (\<lambda>_. 0) 0 (CustomerId ''h'')
     (checker_new (add_license ''h:L-band'' future_license license_store_new)))"
  using report_counts_future_license [of plain_json future_license future_license "''t''" 0
      "checker_new (add_license ''h:L-band'' future_license license_store_new)" "CustomerId ''h''" l_band 0]
  by (simp add: plain_json_def future_license_def checker_new_def add_license_def license_store_new_def
      license_key_def l_band_def)

end
