(* ===== verification/Federation_Attestation.thy ===== *)
theory Federation_Attestation
  imports Core_Types F64
begin

text \<open>
  Signed data and attestations of federation peers (\<open>federation/src/attestation.rs\<close>).

  The signature scheme, the hexadecimal codec and SHA-256 are parameters (\<open>sig_lib\<close>); \<open>sig_lib_correct\<close>
  is what they document: encodings read back, and a signature verifies under the key of its signer.
  A signature covers the data only: the verification of a known peer accepts the same signed data in
  any attestation.
\<close>

section \<open>Definitions\<close>

record ('sk, 'vk, 'sig) sig_lib =
  hex_encode :: "bytes \<Rightarrow> string"
  hex_decode :: "string \<Rightarrow> string + bytes"
  sha256_of :: "bytes \<Rightarrow> string"
  vk_bytes :: "'vk \<Rightarrow> bytes"
  vk_from_bytes :: "bytes \<Rightarrow> string + 'vk"
  sig_bytes :: "'sig \<Rightarrow> bytes"
  sig_from_bytes :: "bytes \<Rightarrow> string + 'sig"
  sig_sign :: "'sk \<Rightarrow> bytes \<Rightarrow> 'sig"
  sig_key :: "'sk \<Rightarrow> 'vk"
  verify_strict :: "'vk \<Rightarrow> bytes \<Rightarrow> 'sig \<Rightarrow> string + unit"

definition sig_lib_correct :: "('sk, 'vk, 'sig) sig_lib \<Rightarrow> bool" where
  "sig_lib_correct lib \<longleftrightarrow>
     (\<forall>b. hex_decode lib (hex_encode lib b) = Inr b) \<and>
     (\<forall>v. length (vk_bytes lib v) = 32 \<and> vk_from_bytes lib (vk_bytes lib v) = Inr v) \<and>
     (\<forall>s. sig_from_bytes lib (sig_bytes lib s) = Inr s) \<and>
     (\<forall>sk m. verify_strict lib (sig_key lib sk) m (sig_sign lib sk m) = Inr ())"

record signed_data =
  sd_data :: bytes
  sd_signature :: string
  sd_public_key :: string
  sd_timestamp :: datetime

definition signed_data_sign :: "datetime \<Rightarrow> bytes \<Rightarrow> string \<Rightarrow> string \<Rightarrow> signed_data" where
  "signed_data_sign now d s k = \<lparr>sd_data = d, sd_signature = s, sd_public_key = k, sd_timestamp = now\<rparr>"

text \<open>\<open>map_err\<close> with a text in front.\<close>

definition federation_err :: "string \<Rightarrow> string + 'a \<Rightarrow> 'a result" where
  "federation_err prefix r = (case r of Inl e \<Rightarrow> Inl (Federation (prefix @ e)) | Inr x \<Rightarrow> Inr x)"

primrec and_then :: "'a result \<Rightarrow> ('a \<Rightarrow> 'b result) \<Rightarrow> 'b result" where
  "and_then (Inl e) f = Inl e"
| "and_then (Inr x) f = f x"

definition read_public_key :: "('sk, 'vk, 'sig) sig_lib \<Rightarrow> string \<Rightarrow> 'vk result" where
  "read_public_key lib k =
     and_then (federation_err ''Invalid public key: '' (hex_decode lib k)) (\<lambda>b.
       if length b \<noteq> 32 then Inl (Federation ''Invalid public key length'')
       else federation_err ''Invalid public key: '' (vk_from_bytes lib b))"

definition signed_data_verify :: "('sk, 'vk, 'sig) sig_lib \<Rightarrow> signed_data \<Rightarrow> bool result" where
  "signed_data_verify lib sd =
     and_then (read_public_key lib (sd_public_key sd)) (\<lambda>vk.
     and_then (federation_err ''Invalid signature: '' (hex_decode lib (sd_signature sd))) (\<lambda>b.
     and_then (federation_err ''Invalid signature: '' (sig_from_bytes lib b)) (\<lambda>s.
     and_then (federation_err ''Verification failed: '' (verify_strict lib vk (sd_data sd) s)) (\<lambda>_.
     Inr True))))"

definition data_hash :: "('sk, 'vk, 'sig) sig_lib \<Rightarrow> signed_data \<Rightarrow> string" where
  "data_hash lib sd = sha256_of lib (sd_data sd)"

record bitemporal_proof =
  bp_first_event_time :: datetime
  bp_first_reception_time :: datetime
  bp_last_event_time :: datetime
  bp_last_reception_time :: datetime
  bp_sample_count :: u64

definition is_consistent :: "bitemporal_proof \<Rightarrow> bool" where
  "is_consistent p \<longleftrightarrow>
     bp_first_event_time p \<le> bp_last_event_time p \<and>
     bp_first_reception_time p \<le> bp_last_reception_time p \<and>
     num_seconds (bp_last_reception_time p - bp_first_reception_time p) \<le> 900"

record attestation =
  at_pass_id :: pass_id
  at_data_hash :: string
  at_signed_data :: signed_data
  at_bitemporal_proof :: bitemporal_proof

definition attestation_new :: "pass_id \<Rightarrow> string \<Rightarrow> signed_data \<Rightarrow> bitemporal_proof \<Rightarrow> attestation" where
  "attestation_new p h sd bp =
     \<lparr>at_pass_id = p, at_data_hash = h, at_signed_data = sd, at_bitemporal_proof = bp\<rparr>"

definition attestation_verify :: "('sk, 'vk, 'sig) sig_lib \<Rightarrow> attestation \<Rightarrow> bool result" where
  "attestation_verify lib a =
     and_then (signed_data_verify lib (at_signed_data a)) (\<lambda>ok.
       if \<not> ok then Inr False
       else if data_hash lib (at_signed_data a) \<noteq> at_data_hash a then Inr False
       else Inr (is_consistent (at_bitemporal_proof a)))"

record 'vk attestation_verifier =
  av_public_keys :: "string \<rightharpoonup> 'vk"

definition verifier_empty :: "'vk attestation_verifier" where
  "verifier_empty = \<lparr>av_public_keys = Map.empty\<rparr>"

definition add_public_key :: "('sk, 'vk, 'sig) sig_lib \<Rightarrow> string \<Rightarrow> string \<Rightarrow> 'vk attestation_verifier \<Rightarrow>
    unit result \<times> 'vk attestation_verifier" where
  "add_public_key lib station k v =
     (case read_public_key lib k of
        Inl e \<Rightarrow> (Inl e, v)
      | Inr vk \<Rightarrow> (Inr (), v\<lparr>av_public_keys := (av_public_keys v)(station \<mapsto> vk)\<rparr>))"

definition verify_attestation :: "('sk, 'vk, 'sig) sig_lib \<Rightarrow> attestation \<Rightarrow> string \<Rightarrow>
    'vk attestation_verifier \<Rightarrow> bool result" where
  "verify_attestation lib a station v =
     (case av_public_keys v station of
        None \<Rightarrow> Inl (Federation ''Unknown peer'')
      | Some vk \<Rightarrow>
          if hex_encode lib (vk_bytes lib vk) \<noteq> sd_public_key (at_signed_data a)
          then Inl (Federation ''Public key mismatch'')
          else signed_data_verify lib (at_signed_data a))"

text \<open>The signing side of the peer manager (\<open>federation/src/peer.rs\<close>).\<close>

definition own_public_key :: "('sk, 'vk, 'sig) sig_lib \<Rightarrow> 'sk \<Rightarrow> string" where
  "own_public_key lib sk = hex_encode lib (vk_bytes lib (sig_key lib sk))"

definition own_sign :: "('sk, 'vk, 'sig) sig_lib \<Rightarrow> 'sk \<Rightarrow> bytes \<Rightarrow> string" where
  "own_sign lib sk d = hex_encode lib (sig_bytes lib (sig_sign lib sk d))"

subsection \<open>Inputs of the witnesses\<close>

text \<open>A toy library: the hexadecimal codec renders a byte as a character, a key is a byte repeated 32
  times, and the signature of a text is the text with the key in front.\<close>

definition toy_lib :: "(u8, u8, bytes) sig_lib" where
  "toy_lib =
     \<lparr>hex_encode = map (\<lambda>b. char_of (unat b)), hex_decode = (\<lambda>s. Inr (map (\<lambda>c. of_nat (of_char c)) s)),
      sha256_of = map (\<lambda>b. char_of (unat b)), vk_bytes = replicate 32, vk_from_bytes = (\<lambda>b. Inr (hd b)),
      sig_bytes = id, sig_from_bytes = Inr, sig_sign = (#), sig_key = id,
      verify_strict = (\<lambda>k m s. if s = k # m then Inr () else Inl ''bad'')\<rparr>"

definition quiet_proof :: bitemporal_proof where
  "quiet_proof = \<lparr>bp_first_event_time = 0, bp_first_reception_time = 1, bp_last_event_time = 2,
                 bp_last_reception_time = 3, bp_sample_count = 1\<rparr>"

section \<open>Lemmas\<close>

lemma toy_lib_correct: "sig_lib_correct toy_lib"
proof -
  have "(of_nat (of_char (char_of (unat b) :: char)) :: u8) = b" for b
    using unsigned_less [of b, where 'a = nat] by simp
  then show ?thesis by (simp add: sig_lib_correct_def toy_lib_def comp_def)
qed

lemma signed_data_verify_iff:
  "signed_data_verify lib sd = Inr True \<longleftrightarrow>
     (\<exists>vk b s. read_public_key lib (sd_public_key sd) = Inr vk \<and> hex_decode lib (sd_signature sd) = Inr b \<and>
        sig_from_bytes lib b = Inr s \<and> verify_strict lib vk (sd_data sd) s = Inr ())"
  by (cases "read_public_key lib (sd_public_key sd)"; cases "hex_decode lib (sd_signature sd)")
    (auto simp: signed_data_verify_def federation_err_def split: sum.splits)

lemma read_own_key: "sig_lib_correct lib \<Longrightarrow> read_public_key lib (own_public_key lib sk) = Inr (sig_key lib sk)"
  by (simp add: sig_lib_correct_def read_public_key_def own_public_key_def federation_err_def)

lemma own_signature_verifies:
  assumes "sig_lib_correct lib"
  shows "signed_data_verify lib (signed_data_sign now d (own_sign lib sk d) (own_public_key lib sk)) = Inr True"
  using assms
  by (auto simp: signed_data_verify_iff signed_data_sign_def read_own_key own_sign_def sig_lib_correct_def)

section \<open>Properties\<close>

text \<open>C22: what a station signs, another station that has its public key accepts. The data signed with
  the key of a peer manager, under the public key that it publishes, passes the verification of a known
  peer once that key was added for the station; and the whole attestation verifies exactly when its hash
  is that of the data and its times are consistent.\<close>

theorem attestation_roundtrip:
  assumes "sig_lib_correct lib"
    and "sd = signed_data_sign now d (own_sign lib sk d) (own_public_key lib sk)"
  shows "fst (add_public_key lib station (own_public_key lib sk) v) = Inr () \<and>
    verify_attestation lib (attestation_new p h sd bp) station
      (snd (add_public_key lib station (own_public_key lib sk) v)) = Inr True \<and>
    attestation_verify lib (attestation_new p h sd bp) = Inr (h = sha256_of lib d \<and> is_consistent bp)"
proof -
  have "signed_data_verify lib sd = Inr True"
    unfolding assms(2) by (rule own_signature_verifies [OF assms(1)])
  moreover have "sd_public_key sd = own_public_key lib sk" "sd_data sd = d"
    using assms(2) by (simp_all add: signed_data_sign_def)
  ultimately show ?thesis
    using assms(1)
    by (simp add: add_public_key_def read_own_key verify_attestation_def attestation_new_def
        attestation_verify_def data_hash_def flip: own_public_key_def)
qed

theorem attestation_roundtrip_witness:
  "attestation_verify toy_lib (attestation_new (PassId ''p'') (sha256_of toy_lib [1, 2])
     (signed_data_sign 0 [1, 2] (own_sign toy_lib 7 [1, 2]) (own_public_key toy_lib 7)) quiet_proof) = Inr True"
  using attestation_roundtrip [OF toy_lib_correct refl, where bp = quiet_proof and h = "sha256_of toy_lib [1, 2]"]
  by (simp add: quiet_proof_def is_consistent_def num_seconds_nonneg)

text \<open>The verification of a known peer does not bind the attestation. What it accepts for one
  attestation it accepts for every other one with the same signed data, whatever the pass, the hash of
  the data and the times say; with a wrong hash or inconsistent times the attestation itself does not
  verify.\<close>

theorem known_peer_attestation_unbound:
  assumes "verify_attestation lib a station v = Inr True"
    and "h \<noteq> data_hash lib (at_signed_data a) \<or> \<not> is_consistent bp"
  shows "verify_attestation lib (attestation_new p h (at_signed_data a) bp) station v = Inr True \<and>
    attestation_verify lib (attestation_new p h (at_signed_data a) bp) = Inr False"
proof -
  have "signed_data_verify lib (at_signed_data a) = Inr True"
    using assms(1) by (auto simp: verify_attestation_def split: option.splits if_splits)
  with assms show ?thesis
    by (auto simp: verify_attestation_def attestation_new_def attestation_verify_def split: option.splits)
qed

theorem known_peer_attestation_unbound_witness:
  "verify_attestation toy_lib (attestation_new (PassId ''other'') ''wrong''
       (signed_data_sign 0 [1, 2] (own_sign toy_lib 7 [1, 2]) (own_public_key toy_lib 7)) quiet_proof) ''s''
     (snd (add_public_key toy_lib ''s'' (own_public_key toy_lib 7) verifier_empty)) = Inr True"
proof -
  let ?sd = "signed_data_sign 0 [1, 2] (own_sign toy_lib 7 [1, 2]) (own_public_key toy_lib 7)"
  let ?a = "attestation_new (PassId ''p'') (sha256_of toy_lib [1, 2]) ?sd quiet_proof"
  have "signed_data_verify toy_lib ?sd = Inr True" by (rule own_signature_verifies [OF toy_lib_correct])
  then have "verify_attestation toy_lib ?a ''s''
      (snd (add_public_key toy_lib ''s'' (own_public_key toy_lib 7) verifier_empty)) = Inr True"
    by (simp add: add_public_key_def read_own_key [OF toy_lib_correct] verify_attestation_def
        attestation_new_def signed_data_sign_def flip: own_public_key_def)
  moreover have "''wrong'' \<noteq> data_hash toy_lib (at_signed_data ?a)"
    by (simp add: data_hash_def attestation_new_def signed_data_sign_def toy_lib_def)
  ultimately show ?thesis
    using known_peer_attestation_unbound [of toy_lib ?a "''s''" _ "''wrong''" quiet_proof "PassId ''other''"]
    by (simp add: attestation_new_def)
qed

end
