(* ===== verification/Federation_Peers.thy ===== *)
theory Federation_Peers
  imports Federation_Attestation
begin

text \<open>
  Peers of the federation, their cross-verification and the challenge passes
  (\<open>federation/src/peer.rs\<close>, \<open>verification.rs\<close>, \<open>challenge.rs\<close>).

  A verification compares a digest with the local one, byte by byte, and the times of the two
  observations; its result moves the trust score of the peer, from which the status follows. The
  hexadecimal codec and the rendering of a number with one decimal are parameters.
\<close>

section \<open>Definitions\<close>

subsection \<open>Verification\<close>

record attestation_verification =
  avf_pass_id :: pass_id
  avf_local_capture :: "string option"
  avf_peer_capture :: string
  avf_bytewise_match_rate :: f64
  avf_bitemporal_consistency :: bool
  avf_passed :: bool
  avf_details :: string

text \<open>The number of positions at which two vectors agree, and its share of the longer length.\<close>

definition matching :: "'a list \<Rightarrow> 'a list \<Rightarrow> nat" where
  "matching xs ys = length (filter (\<lambda>(a, b). a = b) (zip xs ys))"

definition char_match_rate :: "string \<Rightarrow> string \<Rightarrow> f64" where
  "char_match_rate a b =
     (let len = max (length a) (length b)
      in if len = 0 then lit 1 else fdiv (f64_of_nat (matching a b)) (f64_of_nat len))"

definition compute_match_rate :: "(string \<Rightarrow> string + bytes) \<Rightarrow> string \<Rightarrow> string \<Rightarrow> f64" where
  "compute_match_rate dec local1 peer =
     (if local1 = peer then lit 1
      else case dec local1 of
        Inl _ \<Rightarrow> char_match_rate local1 peer
      | Inr local_bytes \<Rightarrow>
          (case dec peer of
             Inl _ \<Rightarrow> char_match_rate local1 peer
           | Inr peer_bytes \<Rightarrow>
               if local_bytes = [] \<or> peer_bytes = [] then lit 0
               else fdiv (f64_of_nat (matching local_bytes peer_bytes))
                      (f64_of_nat (max (length local_bytes) (length peer_bytes)))))"

definition max_pass_duration_secs :: int where "max_pass_duration_secs = 1200"
definition min_sample_count :: u64 where "min_sample_count = 1"
definition max_bitemporal_drift_ms :: int where "max_bitemporal_drift_ms = 5000"

definition proof_internally_consistent :: "bitemporal_proof \<Rightarrow> bool" where
  "proof_internally_consistent p \<longleftrightarrow>
     0 \<le> num_seconds (bp_last_event_time p - bp_first_event_time p) \<and>
     0 \<le> num_seconds (bp_last_reception_time p - bp_first_reception_time p) \<and>
     bp_first_event_time p \<le> bp_first_reception_time p \<and>
     num_seconds (bp_last_event_time p - bp_first_event_time p) \<le> max_pass_duration_secs \<and>
     min_sample_count \<le> bp_sample_count p"

text \<open>The tolerance is added at both ends; a date out of range panics.\<close>

definition check_bitemporal_consistency :: "chrono \<Rightarrow> bitemporal_proof option \<Rightarrow> bitemporal_proof option \<Rightarrow>
    bool option" where
  "check_bitemporal_consistency ch peer_proof local_proof =
     (case peer_proof of
        None \<Rightarrow> Some False
      | Some peer \<Rightarrow>
          if \<not> proof_internally_consistent peer then Some False
          else (case local_proof of
              None \<Rightarrow> Some True
            | Some local1 \<Rightarrow>
                (let drift = duration_milliseconds max_bitemporal_drift_ms
                 in Option.bind (date_add ch (bp_first_event_time peer) (- drift)) (\<lambda>peer_start.
                    Option.bind (date_add ch (bp_last_event_time peer) drift) (\<lambda>peer_end.
                    Some (\<not> (peer_end < bp_first_event_time local1 \<or>
                             bp_last_event_time local1 < peer_start)))))))"

text \<open>\<open>pct\<close> renders a number with one decimal.\<close>

definition verification_details :: "(f64 \<Rightarrow> string) \<Rightarrow> f64 \<Rightarrow> bool \<Rightarrow> bool \<Rightarrow> string" where
  "verification_details pct rate bt ok =
     (if ok then ''Verification passed: '' @ pct (fmul rate (lit 100)) @ ''% byte match, bitemporal OK''
      else ''Verification failed: '' @ pct (fmul rate (lit 100)) @ ''% byte match, bitemporal='' @
        (if bt then ''true'' else ''false''))"

definition verification_passes :: "f64 \<Rightarrow> bool \<Rightarrow> bool" where
  "verification_passes rate bt \<longleftrightarrow> flt (lit (95 / 100)) rate \<and> bt"

definition verification_new :: "chrono \<Rightarrow> (string \<Rightarrow> string + bytes) \<Rightarrow> (f64 \<Rightarrow> string) \<Rightarrow> pass_id \<Rightarrow>
    string option \<Rightarrow> string \<Rightarrow> bitemporal_proof option \<Rightarrow> bitemporal_proof option \<Rightarrow>
    attestation_verification option" where
  "verification_new ch dec pct p local_capture peer_capture peer_proof local_proof =
     Option.bind
       (case local_capture of
          Some local1 \<Rightarrow> map_option (Pair (compute_match_rate dec local1 peer_capture))
                          (check_bitemporal_consistency ch peer_proof local_proof)
        | None \<Rightarrow> Some (lit 0, case peer_proof of None \<Rightarrow> False | Some q \<Rightarrow> proof_internally_consistent q))
       (\<lambda>(rate, bt). let ok = verification_passes rate bt in
          Some \<lparr>avf_pass_id = p, avf_local_capture = local_capture, avf_peer_capture = peer_capture,
                avf_bytewise_match_rate = rate, avf_bitemporal_consistency = bt, avf_passed = ok,
                avf_details = verification_details pct rate bt ok\<rparr>)"

definition cross_verify_attestation :: "chrono \<Rightarrow> (string \<Rightarrow> string + bytes) \<Rightarrow> (f64 \<Rightarrow> string) \<Rightarrow>
    attestation \<Rightarrow> string option \<Rightarrow> bitemporal_proof option \<Rightarrow> attestation_verification option" where
  "cross_verify_attestation ch dec pct a local_capture local_proof =
     verification_new ch dec pct (at_pass_id a) local_capture (at_data_hash a)
       (Some (at_bitemporal_proof a)) local_proof"

subsection \<open>Challenge passes\<close>

type_synonym peer_id = station_id

record challenge_result =
  cres_peer_id :: peer_id
  cres_verification :: attestation_verification
  cres_trust_delta :: f64

record challenge_pass =
  cp_pass_id :: pass_id
  cp_satellite_id :: string
  cp_scheduled_time :: datetime
  cp_peers_to_verify :: "peer_id list"
  cp_completed :: bool
  cp_results :: "challenge_result list"

record challenge_schedule =
  chs_challenges :: "challenge_pass list"
  chs_interval_hours :: u64

definition challenge_schedule_new :: challenge_schedule where
  "challenge_schedule_new = \<lparr>chs_challenges = [], chs_interval_hours = 24\<rparr>"

definition add_challenge :: "challenge_pass \<Rightarrow> challenge_schedule \<Rightarrow> challenge_schedule" where
  "add_challenge c s = s\<lparr>chs_challenges := chs_challenges s @ [c]\<rparr>"

text \<open>\<open>filter(|c| ... Utc::now())\<close>: the clock is read for each element.\<close>

definition filter_clock :: "(nat \<Rightarrow> datetime) \<Rightarrow> (datetime \<Rightarrow> 'a \<Rightarrow> bool) \<Rightarrow> 'a list \<Rightarrow> 'a list" where
  "filter_clock now p xs = map snd (filter (\<lambda>(i, x). p (now i) x) (enumerate 0 xs))"

definition is_pending :: "datetime \<Rightarrow> challenge_pass \<Rightarrow> bool" where
  "is_pending t c \<longleftrightarrow> \<not> cp_completed c \<and> t < cp_scheduled_time c"

definition is_overdue :: "datetime \<Rightarrow> challenge_pass \<Rightarrow> bool" where
  "is_overdue t c \<longleftrightarrow> \<not> cp_completed c \<and> cp_scheduled_time c < t"

definition is_due :: "datetime \<Rightarrow> challenge_pass \<Rightarrow> bool" where
  "is_due t c \<longleftrightarrow> \<not> cp_completed c \<and> cp_scheduled_time c \<le> t"

definition schedule_pending :: "(nat \<Rightarrow> datetime) \<Rightarrow> challenge_schedule \<Rightarrow> challenge_pass list" where
  "schedule_pending now s = filter_clock now is_pending (chs_challenges s)"

definition schedule_overdue :: "(nat \<Rightarrow> datetime) \<Rightarrow> challenge_schedule \<Rightarrow> challenge_pass list" where
  "schedule_overdue now s = filter_clock now is_overdue (chs_challenges s)"

text \<open>The manager of challenge passes.\<close>

record challenge_manager =
  cm_challenges :: "challenge_pass list"

definition challenge_manager_new :: challenge_manager where
  "challenge_manager_new = \<lparr>cm_challenges = []\<rparr>"

definition schedule_challenge :: "pass_id \<Rightarrow> string \<Rightarrow> datetime \<Rightarrow> peer_id list \<Rightarrow> challenge_manager \<Rightarrow>
    challenge_manager" where
  "schedule_challenge p sat t peers m =
     m\<lparr>cm_challenges := cm_challenges m @
         [\<lparr>cp_pass_id = p, cp_satellite_id = sat, cp_scheduled_time = t, cp_peers_to_verify = peers,
           cp_completed = False, cp_results = []\<rparr>]\<rparr>"

definition pending_challenges :: "(nat \<Rightarrow> datetime) \<Rightarrow> challenge_manager \<Rightarrow> challenge_pass list" where
  "pending_challenges now m = filter_clock now is_pending (cm_challenges m)"

definition due_challenges :: "(nat \<Rightarrow> datetime) \<Rightarrow> challenge_manager \<Rightarrow> challenge_pass list" where
  "due_challenges now m = filter_clock now is_due (cm_challenges m)"

definition complete_challenge :: "pass_id \<Rightarrow> challenge_result list \<Rightarrow> challenge_manager \<Rightarrow>
    unit result \<times> challenge_manager" where
  "complete_challenge p results m =
     (if \<exists>c \<in> set (cm_challenges m). cp_pass_id c = p
      then (Inr (), m\<lparr>cm_challenges := update_first (\<lambda>c. cp_pass_id c = p)
              (\<lambda>c. c\<lparr>cp_results := results, cp_completed := True\<rparr>) (cm_challenges m)\<rparr>)
      else (Inl (Federation (''Challenge '' @ pass_id_str p @ '' not found'')), m))"

definition get_peer_results :: "peer_id \<Rightarrow> challenge_manager \<Rightarrow> challenge_result list" where
  "get_peer_results k m = filter (\<lambda>r. cres_peer_id r = k) (concat (map cp_results (cm_challenges m)))"

subsection \<open>Peers\<close>

record verification_result =
  vr_passed :: bool
  vr_match_rate :: f64
  vr_bitemporal_consistency :: bool
  vr_details :: string

record attestation_record =
  ar_pass_id :: pass_id
  ar_received_at :: datetime
  ar_verification :: verification_result

datatype peer_status = Trusted | Untrusted | Suspicious | Blacklisted

record peer_trust =
  pt_score :: f64
  pt_successes :: u64
  pt_failures :: u64
  pt_total :: u64

definition trust_new :: peer_trust where
  "trust_new = \<lparr>pt_score = lit (1 / 2), pt_successes = 0, pt_failures = 0, pt_total = 0\<rparr>"

definition raise_score :: "f64 \<Rightarrow> f64 \<Rightarrow> f64" where
  "raise_score rate score = fmin (fadd score (fmul (lit (1 / 10)) rate)) (lit 1)"

definition lower_score :: "f64 \<Rightarrow> f64" where
  "lower_score score = fmax (fsub score (lit (2 / 10))) (lit 0)"

definition trust_update :: "bool \<Rightarrow> f64 \<Rightarrow> peer_trust \<Rightarrow> peer_trust" where
  "trust_update passed rate t =
     (let t = t\<lparr>pt_total := pt_total t + 1\<rparr>
      in if passed
         then t\<lparr>pt_successes := pt_successes t + 1, pt_score := raise_score rate (pt_score t)\<rparr>
         else t\<lparr>pt_failures := pt_failures t + 1, pt_score := lower_score (pt_score t)\<rparr>)"

definition status_of :: "f64 \<Rightarrow> peer_status" where
  "status_of score =
     (if fle (lit (8 / 10)) score then Trusted
      else if fle (lit (1 / 2)) score then Untrusted
      else if fle (lit (2 / 10)) score then Suspicious
      else Blacklisted)"

definition trust_status :: "peer_trust \<Rightarrow> peer_status" where
  "trust_status t = status_of (pt_score t)"

definition max_attestation_history :: nat where "max_attestation_history = 200"

record federation_peer =
  fp_station_id :: peer_id
  fp_public_key :: string
  fp_attestation_history :: "attestation_record list"
  fp_challenge_schedule :: challenge_schedule
  fp_trust_score :: f64
  fp_status :: peer_status
  fp_added_at :: datetime
  fp_last_verification :: "datetime option"
  fp_total_attestations :: u64

definition peer_new :: "datetime \<Rightarrow> peer_id \<Rightarrow> string \<Rightarrow> federation_peer" where
  "peer_new now k key =
     \<lparr>fp_station_id = k, fp_public_key = key, fp_attestation_history = [],
      fp_challenge_schedule = challenge_schedule_new, fp_trust_score = lit (1 / 2), fp_status = Untrusted,
      fp_added_at = now, fp_last_verification = None, fp_total_attestations = 0\<rparr>"

text \<open>The trust of a peer as it is rebuilt before each update.\<close>

definition trust_of :: "federation_peer \<Rightarrow> peer_trust" where
  "trust_of p =
     \<lparr>pt_score = fp_trust_score p,
      pt_successes = of_nat (length (filter (\<lambda>r. vr_passed (ar_verification r)) (fp_attestation_history p))),
      pt_failures = of_nat (length (filter (\<lambda>r. \<not> vr_passed (ar_verification r)) (fp_attestation_history p))),
      pt_total = fp_total_attestations p\<rparr>"

definition set_trust :: "peer_trust \<Rightarrow> federation_peer \<Rightarrow> federation_peer" where
  "set_trust t p = p\<lparr>fp_trust_score := pt_score t, fp_status := trust_status t\<rparr>"

text \<open>The oldest record is dropped when the history is full.\<close>

definition push_history :: "attestation_record \<Rightarrow> attestation_record list \<Rightarrow> attestation_record list" where
  "push_history r rs = (if max_attestation_history \<le> length rs then tl rs else rs) @ [r]"

definition add_attestation :: "datetime \<Rightarrow> attestation_record \<Rightarrow> federation_peer \<Rightarrow> federation_peer" where
  "add_attestation now r p =
     (let p = p\<lparr>fp_attestation_history := push_history r (fp_attestation_history p),
                fp_total_attestations := fp_total_attestations p + 1, fp_last_verification := Some now\<rparr>;
          latest = last (fp_attestation_history p)
      in set_trust (trust_update (vr_passed (ar_verification latest)) (vr_match_rate (ar_verification latest))
           (trust_of p)) p)"

definition is_trusted :: "federation_peer \<Rightarrow> bool" where
  "is_trusted p \<longleftrightarrow> fp_status p = Trusted"

definition can_skip_verification :: "federation_peer \<Rightarrow> bool" where
  "can_skip_verification p \<longleftrightarrow> is_trusted p \<and> 5 \<le> length (fp_attestation_history p)"

definition update_peer_from_verification :: "datetime \<Rightarrow> datetime \<Rightarrow> attestation_verification \<Rightarrow>
    federation_peer \<Rightarrow> federation_peer" where
  "update_peer_from_verification received now v p =
     add_attestation now
       \<lparr>ar_pass_id = avf_pass_id v, ar_received_at = received,
        ar_verification = \<lparr>vr_passed = avf_passed v, vr_match_rate = avf_bytewise_match_rate v,
                           vr_bitemporal_consistency = avf_bitemporal_consistency v,
                           vr_details = avf_details v\<rparr>\<rparr> p"

text \<open>The peer manager; the key pair is generated by the library.\<close>

record 'sk peer_manager =
  pmg_peers :: "peer_id \<rightharpoonup> federation_peer"
  pmg_secret_key :: 'sk

definition with_key :: "'sk \<Rightarrow> 'sk peer_manager" where
  "with_key sk = \<lparr>pmg_peers = Map.empty, pmg_secret_key = sk\<rparr>"

definition add_peer :: "federation_peer \<Rightarrow> 'sk peer_manager \<Rightarrow> 'sk peer_manager" where
  "add_peer p m = m\<lparr>pmg_peers := (pmg_peers m)(fp_station_id p \<mapsto> p)\<rparr>"

definition get_peer :: "peer_id \<Rightarrow> 'sk peer_manager \<Rightarrow> federation_peer option" where
  "get_peer k m = pmg_peers m k"

definition all_peers :: "peer_id list \<Rightarrow> 'sk peer_manager \<Rightarrow> federation_peer list" where
  "all_peers ks m = map_values (pmg_peers m) ks"

definition trusted_peers :: "peer_id list \<Rightarrow> 'sk peer_manager \<Rightarrow> federation_peer list" where
  "trusted_peers ks m = filter is_trusted (map_values (pmg_peers m) ks)"

definition remove_peer :: "peer_id \<Rightarrow> 'sk peer_manager \<Rightarrow> 'sk peer_manager" where
  "remove_peer k m = m\<lparr>pmg_peers := (pmg_peers m)(k := None)\<rparr>"

definition update_trust :: "peer_id \<Rightarrow> bool \<Rightarrow> f64 \<Rightarrow> 'sk peer_manager \<Rightarrow> 'sk peer_manager" where
  "update_trust k passed rate m =
     m\<lparr>pmg_peers := map_modify k (\<lambda>p. set_trust (trust_update passed rate (trust_of p)) p) (pmg_peers m)\<rparr>"

text \<open>A score is a number from 0 to 1.\<close>

definition score_ok :: "f64 \<Rightarrow> bool" where
  "score_ok x \<longleftrightarrow> (\<exists>s m. x = Fin s m \<and> 0 \<le> val x \<and> val x \<le> 1)"

subsection \<open>Reachable peers\<close>

text \<open>A peer starts neutral; then verifications with this library, and direct updates of its trust with
  a match rate between 0 and 1, as documented, move it.\<close>

definition peer_init :: "federation_peer \<Rightarrow> bool" where
  "peer_init p \<longleftrightarrow> (\<exists>now k key. p = peer_new now k key)"

inductive peer_step :: "chrono \<Rightarrow> (string \<Rightarrow> string + bytes) \<Rightarrow> (f64 \<Rightarrow> string) \<Rightarrow>
    federation_peer \<Rightarrow> federation_peer \<Rightarrow> bool"
  for ch :: chrono and dec :: "string \<Rightarrow> string + bytes" and pct :: "f64 \<Rightarrow> string" where
  step_verify: "verification_new ch dec pct pass local1 peer1 q1 q2 = Some v \<Longrightarrow>
     length peer1 < 2 ^ 64 \<Longrightarrow> (\<And>s. local1 = Some s \<Longrightarrow> length s < 2 ^ 64) \<Longrightarrow>
     peer_step ch dec pct p (update_peer_from_verification received now v p)"
| step_trust: "funit rate \<Longrightarrow> peer_step ch dec pct p (set_trust (trust_update passed rate (trust_of p)) p)"

inductive peers_step :: "(federation_peer \<Rightarrow> bool) \<Rightarrow> 'sk peer_manager \<Rightarrow> 'sk peer_manager \<Rightarrow> bool"
  for good :: "federation_peer \<Rightarrow> bool" where
  step_add: "good p \<Longrightarrow> peers_step good m (add_peer p m)"
| step_remove: "peers_step good m (remove_peer k m)"
| step_update: "funit rate \<Longrightarrow> peers_step good m (update_trust k passed rate m)"

text \<open>What holds of a peer: the score is a number from 0 to 1, the status is that of the score, and at
  most 200 records are kept.\<close>

definition peer_ok :: "federation_peer \<Rightarrow> bool" where
  "peer_ok p \<longleftrightarrow> score_ok (fp_trust_score p) \<and> fp_status p = status_of (fp_trust_score p) \<and>
     length (fp_attestation_history p) \<le> max_attestation_history"

definition peers_ok :: "'sk peer_manager \<Rightarrow> bool" where
  "peers_ok m \<longleftrightarrow> keyed fp_station_id (pmg_peers m) \<and> (\<forall>p \<in> ran (pmg_peers m). peer_ok p)"

text \<open>The codec decodes a text to at most as many bytes as it has characters.\<close>

definition dec_bounded :: "(string \<Rightarrow> string + bytes) \<Rightarrow> bool" where
  "dec_bounded dec \<longleftrightarrow> (\<forall>s b. dec s = Inr b \<longrightarrow> length b \<le> length s)"

text \<open>Attestations received one after the other.\<close>

definition receive_all :: "(datetime \<times> attestation_record) list \<Rightarrow> federation_peer \<Rightarrow> federation_peer" where
  "receive_all xs p = fold (\<lambda>(t, r). add_attestation t r) xs p"

subsection \<open>Inputs of the witnesses\<close>

text \<open>A codec that reads each character as a byte, and a record of a failed or perfect verification.\<close>

definition plain_dec :: "string \<Rightarrow> string + bytes" where
  "plain_dec s = Inr (map (\<lambda>c. of_nat (of_char c)) s)"

definition every_date :: chrono where
  "every_date = \<lparr>date_in_range = (\<lambda>_. True), duration_in_range = (\<lambda>_. True)\<rparr>"

definition sane_proof :: bitemporal_proof where
  "sane_proof = \<lparr>bp_first_event_time = 0, bp_first_reception_time = 1, bp_last_event_time = 2,
                bp_last_reception_time = 3, bp_sample_count = 1\<rparr>"

definition sample_record :: "bool \<Rightarrow> attestation_record" where
  "sample_record ok = \<lparr>ar_pass_id = PassId ''p'', ar_received_at = 0,
     ar_verification = \<lparr>vr_passed = ok, vr_match_rate = Fin False 1, vr_bitemporal_consistency = ok,
                        vr_details = []\<rparr>\<rparr>"

section \<open>Lemmas\<close>

subsection \<open>Scores\<close>

lemma lower_score_step:
  assumes "score_ok x"
  shows "score_ok (lower_score x) \<and> val (lower_score x) \<le> max 0 (val x - 2 / 10 + pow2 (-52))"
proof -
  obtain s m where x: "x = Fin s m" "0 \<le> val x" "val x \<le> 1" using assms by (auto simp: score_ok_def)
  obtain d where d: "lit (2 / 10) = Fin False d" "0 \<le> d" "d \<le> 1" "\<bar>d - 2 / 10\<bar> \<le> pow2 (-53)"
    using lit_error [of "2 / 10"] by auto
  let ?y = "val x - d"
  obtain t v where y: "of_exact s ?y = Fin t v" "\<bar>val (Fin t v) - ?y\<bar> \<le> pow2 (-53)"
    using of_exact_error [of ?y s] x d by auto
  have sub: "fsub x (lit (2 / 10)) = Fin t v"
    using x(1) d(1) y(1) by (simp add: fsub_def)
  have two: "pow2 (-52) = 2 * pow2 (-53)" by (simp add: pow2_def)
  have "lower_score x = (if val (Fin t v) < 0 then Fin False 0 else Fin t v)"
    unfolding lower_score_def sub by (simp add: fmax_def)
  moreover have "val (Fin t v) \<le> val x - 2 / 10 + pow2 (-52)"
    using y(2) d(4) two by linarith
  moreover have "val x - 2 / 10 + pow2 (-52) \<le> 1" using x(3) by (simp add: pow2_def)
  ultimately show ?thesis by (auto simp: score_ok_def)
qed

lemma raise_score_step:
  assumes "score_ok x" "funit r"
  shows "score_ok (raise_score r x) \<and>
    (r = Fin False 1 \<longrightarrow> min 1 (val x + 1 / 10 - pow2 (-51)) \<le> val (raise_score r x))"
proof -
  obtain s m where x: "x = Fin s m" "0 \<le> val x" "val x \<le> 1" using assms(1) by (auto simp: score_ok_def)
  obtain q where r: "r = Fin False q" "0 \<le> q" "q \<le> 1" using assms(2) by (auto simp: funit_def)
  obtain c where c: "lit (1 / 10) = Fin False c" "0 \<le> c" "c \<le> 1" "\<bar>c - 1 / 10\<bar> \<le> pow2 (-53)"
    using lit_error [of "1 / 10"] by auto
  obtain w where w: "round_f64 False (c * q) = Fin False w" "0 \<le> w" "w \<le> 1" "\<bar>w - c * q\<bar> \<le> pow2 (-53)"
    using round_f64_error [of "c * q" False] c r mult_mono [of c 1 q 1] by auto
  have mul: "fmul (lit (1 / 10)) r = Fin False w" using c(1) r(1) w(1) by simp
  have "c * q \<le> c" using c r by (simp add: mult_left_le)
  then have small: "w \<le> 1 / 10 + 2 * pow2 (-53)" using c(4) w(4) by linarith
  then have "val x + w < 2" using x(3) by (simp add: pow2_def)
  then obtain v where v: "of_exact False (val x + w) = Fin False v" "0 \<le> v" "\<bar>v - (val x + w)\<bar> \<le> pow2 (-53)"
    using of_exact_nonneg_error [of "val x + w"] x w by auto
  have add: "fadd x (Fin False w) = Fin False v" using x(1) v(1) by simp
  have raise: "raise_score r x = Fin False (min 1 v)"
    unfolding raise_score_def mul add by (auto simp: fmin_def min_def)
  have "val x + 1 / 10 - pow2 (-51) \<le> v" if "r = Fin False 1"
  proof -
    have "\<bar>w - c\<bar> \<le> pow2 (-53)" using that r(1) w(4) by simp
    moreover have "pow2 (-51) = 4 * pow2 (-53)" by (simp add: pow2_def)
    ultimately show ?thesis using c(4) v(3) less_imp_le [OF pow2_pos [of "-53"]] unfolding abs_le_iff by linarith
  qed
  with v(2) show ?thesis unfolding raise by (auto simp: score_ok_def min_le_iff_disj)
qed

lemma fle_lit:
  assumes "score_ok x" "0 \<le> r" "r \<le> 1"
  shows "\<exists>v. (fle (lit r) x \<longleftrightarrow> v \<le> val x) \<and> r - pow2 (-53) \<le> v \<and> v \<le> r + pow2 (-53)"
proof -
  obtain v where v: "lit r = Fin False v" "\<bar>v - r\<bar> \<le> pow2 (-53)" using lit_error [OF assms(2,3)] by blast
  obtain s m where "x = Fin s m" using assms(1) by (auto simp: score_ok_def)
  with v have "fle (lit r) x \<longleftrightarrow> v \<le> val x" by (auto simp: fle_def)
  with v(2) show ?thesis by (intro exI [of _ v]) (auto simp: abs_le_iff)
qed

lemma status_of_trusted: "score_ok x \<Longrightarrow> 81 / 100 \<le> val x \<Longrightarrow> status_of x = Trusted"
  using fle_lit [of x "8 / 10"] by (auto simp: status_of_def pow2_def)

lemma status_of_not_trusted: "score_ok x \<Longrightarrow> val x \<le> 79 / 100 \<Longrightarrow> status_of x \<noteq> Trusted"
  using fle_lit [of x "8 / 10"] by (auto simp: status_of_def pow2_def)

lemma status_of_blacklisted: "score_ok x \<Longrightarrow> val x \<le> 19 / 100 \<Longrightarrow> status_of x = Blacklisted"
  using fle_lit [of x "8 / 10"] fle_lit [of x "1 / 2"] fle_lit [of x "2 / 10"]
  by (auto simp: status_of_def pow2_def)

text \<open>One failure takes full trust to the literal 0.8, by a tie of the rounding.\<close>

lemma lower_full_score: "lower_score (Fin False 1) = lit (8 / 10)"
proof -
  have a: "lit (2 / 10) = Fin False (7205759403792794 / 2 ^ 55)"
    using round_mag_near [of "-3" "2 / 10" 7205759403792794] lit_small [of "2 / 10"] by (simp add: pow2_def)
  have b: "lit (8 / 10) = Fin False (7205759403792794 / 2 ^ 53)"
    using round_mag_near [of "-1" "8 / 10" 7205759403792794] lit_small [of "8 / 10"] by (simp add: pow2_def)
  have "round_mag (1 - 7205759403792794 / 2 ^ 55) = 7205759403792794 / 2 ^ 53"
    using round_mag_tie [of 7205759403792794 "1 - 7205759403792794 / 2 ^ 55" "-1"] by (simp add: pow2_def)
  then have "fsub (Fin False 1) (Fin False (7205759403792794 / 2 ^ 55)) = Fin False (7205759403792794 / 2 ^ 53)"
    by (simp add: fsub_def of_exact_def round_f64_def pow2_def)
  then show ?thesis unfolding lower_score_def a b by (simp add: fmax_def)
qed

lemma status_after_failure: "status_of (lower_score (Fin False 1)) = Trusted"
proof -
  have "feq (lit (8 / 10)) (lit (8 / 10))" using lit_error [of "8 / 10"] by auto
  then show ?thesis unfolding lower_full_score status_of_def fle_def by simp
qed

lemma score_ok_one: "score_ok (Fin False 1)"
  by (auto simp: score_ok_def)

subsection \<open>Match rates\<close>

lemma matching_le: "matching xs ys \<le> length xs" "matching xs ys \<le> length ys"
proof -
  have "matching xs ys \<le> length (zip xs ys)" unfolding matching_def by (rule length_filter_le)
  then show "matching xs ys \<le> length xs" "matching xs ys \<le> length ys" by simp_all
qed

lemma matching_self: "matching xs xs = length xs"
  unfolding matching_def by (induction xs) simp_all

lemma lit_below_one: "flt (lit (95 / 100)) (Fin False 1)"
proof -
  obtain v where v: "lit (95 / 100) = Fin False v" "\<bar>v - 95 / 100\<bar> \<le> pow2 (-53)"
    using lit_error [of "95 / 100"] by auto
  have "v \<le> 95 / 100 + pow2 (-53)" using v(2) by (simp add: abs_le_iff)
  also have "\<dots> < 1" by (simp add: pow2_def)
  finally show ?thesis using v(1) by simp
qed

lemma char_match_rate_unit:
  assumes "length a < 2 ^ 64" "length b < 2 ^ 64"
  shows "funit (char_match_rate a b)"
proof (cases "max (length a) (length b) = 0")
  case True
  then show ?thesis by (simp add: char_match_rate_def funit_def)
next
  case False
  then have "funit (fdiv (f64_of_nat (matching a b)) (f64_of_nat (max (length a) (length b))))"
    using assms matching_le [of a b] by (intro fdiv_nat_funit) (auto simp: less_max_iff_disj)
  with False show ?thesis by (simp only: char_match_rate_def Let_def if_False)
qed

lemma compute_match_rate_unit:
  assumes "dec_bounded dec" "length a < 2 ^ 64" "length b < 2 ^ 64"
  shows "funit (compute_match_rate dec a b)"
proof -
  have "funit (fdiv (f64_of_nat (matching x y)) (f64_of_nat (max (length x) (length y))))"
    if "dec a = Inr x" "dec b = Inr y" "x \<noteq> []" for x y :: bytes
  proof (rule fdiv_nat_funit)
    have "length x \<le> length a" "length y \<le> length b" using that assms(1) by (auto simp: dec_bounded_def)
    then show "max (length x) (length y) < 2 ^ 64" using assms by linarith
    show "matching x y \<le> max (length x) (length y)" using matching_le [of x y] by linarith
    show "0 < max (length x) (length y)" using that(3) by (simp add: less_max_iff_disj)
  qed
  moreover have "funit (lit 1)" "funit (lit 0)" by (simp_all add: funit_def)
  ultimately show ?thesis
    using char_match_rate_unit [OF assms(2,3)] by (auto simp: compute_match_rate_def split: sum.split)
qed

lemma verification_new_Some:
  assumes "verification_new ch dec pct p local1 peer1 q1 q2 = Some v"
  shows "avf_bytewise_match_rate v =
      (case local1 of None \<Rightarrow> lit 0 | Some l \<Rightarrow> compute_match_rate dec l peer1)"
    and "avf_passed v \<longleftrightarrow> verification_passes (avf_bytewise_match_rate v) (avf_bitemporal_consistency v)"
    and "avf_pass_id v = p"
  using assms by (auto simp: verification_new_def Let_def bind_eq_Some_conv split: option.splits)

lemma verification_rate_unit:
  assumes "verification_new ch dec pct p local1 peer1 q1 q2 = Some v" "dec_bounded dec"
    and "length peer1 < 2 ^ 64" "\<And>s. local1 = Some s \<Longrightarrow> length s < 2 ^ 64"
  shows "funit (avf_bytewise_match_rate v)"
  using compute_match_rate_unit [OF assms(2) _ assms(3)] assms(4)
  by (cases local1) (simp_all add: verification_new_Some(1) [OF assms(1)], simp add: funit_def)

subsection \<open>Trust\<close>

lemma trust_update_score:
  "pt_score (trust_update passed rate t) = (if passed then raise_score rate (pt_score t) else lower_score (pt_score t))"
  by (simp add: trust_update_def Let_def)

lemma trust_update_ok:
  "score_ok (pt_score t) \<Longrightarrow> funit rate \<Longrightarrow> score_ok (pt_score (trust_update passed rate t))"
  using lower_score_step raise_score_step by (simp add: trust_update_score)

lemma set_trust_fields:
  "fp_trust_score (set_trust t p) = pt_score t" "fp_status (set_trust t p) = status_of (pt_score t)"
  "fp_attestation_history (set_trust t p) = fp_attestation_history p"
  "fp_station_id (set_trust t p) = fp_station_id p"
  by (simp_all add: set_trust_def trust_status_def)

lemma add_attestation_fields:
  "fp_trust_score (add_attestation now r p) =
     (if vr_passed (ar_verification r) then raise_score (vr_match_rate (ar_verification r)) (fp_trust_score p)
      else lower_score (fp_trust_score p))"
  "fp_status (add_attestation now r p) = status_of (fp_trust_score (add_attestation now r p))"
  "fp_attestation_history (add_attestation now r p) = push_history r (fp_attestation_history p)"
  "fp_station_id (add_attestation now r p) = fp_station_id p"
  by (simp_all add: add_attestation_def Let_def set_trust_fields trust_update_score trust_of_def push_history_def)

lemma length_push_history:
  "length rs \<le> max_attestation_history \<Longrightarrow> length (push_history r rs) \<le> max_attestation_history"
  by (auto simp: push_history_def max_attestation_history_def)

lemma score_ok_half: "score_ok (lit (1 / 2))"
  using lit_error [of "1 / 2"] by (auto simp: score_ok_def)

lemma half_exact: "lit (1 / 2) = Fin False (1 / 2)"
  using lit_small [of "1 / 2"] round_mag_pow2 [of "-1"] by (simp add: pow2_def)

lemma peer_ok_new: "peer_ok (peer_new now k key)"
proof -
  have "status_of (lit (1 / 2)) = Untrusted"
    using fle_lit [OF score_ok_half, of "8 / 10"] by (auto simp: status_of_def half_exact fle_def pow2_def)
  then show ?thesis by (simp add: peer_ok_def peer_new_def score_ok_half)
qed

lemma peer_ok_step:
  assumes "peer_step ch dec pct p p'" "dec_bounded dec" "peer_ok p"
  shows "peer_ok p'"
  using assms(1)
proof cases
  case (step_verify pass local1 peer1 q1 q2 v received now)
  have "funit (avf_bytewise_match_rate v)"
    using verification_rate_unit step_verify assms(2) by blast
  then show ?thesis
    using step_verify(1) assms(3) raise_score_step lower_score_step
    by (simp add: peer_ok_def update_peer_from_verification_def add_attestation_fields length_push_history)
next
  case (step_trust rate passed)
  then show ?thesis
    using assms(3) trust_update_ok [of "trust_of p" rate passed]
    by (simp add: peer_ok_def set_trust_fields trust_of_def)
qed

interpretation peer_runs: invariant_system peer_init "peer_step ch dec pct" "\<lambda>p. dec_bounded dec \<longrightarrow> peer_ok p"
  for ch dec pct
  using peer_ok_new peer_ok_step by unfold_locales (auto simp: peer_init_def)

interpretation peers_runs: invariant_system "\<lambda>m. m = with_key sk" "peers_step (reach peer_init (peer_step ch dec pct))"
  "\<lambda>m. dec_bounded dec \<longrightarrow> peers_ok m"
  for sk ch dec pct
proof
  show "m = with_key sk \<Longrightarrow> dec_bounded dec \<longrightarrow> peers_ok m" for m
    by (simp add: with_key_def peers_ok_def)
  show "dec_bounded dec \<longrightarrow> peers_ok m \<Longrightarrow> peers_step (reach peer_init (peer_step ch dec pct)) m m' \<Longrightarrow>
      dec_bounded dec \<longrightarrow> peers_ok m'" for m m' :: "'c peer_manager"
  proof
    assume ok: "dec_bounded dec \<longrightarrow> peers_ok m" and dec: "dec_bounded dec"
      and "peers_step (reach peer_init (peer_step ch dec pct)) m m'"
    from this(3) show "peers_ok m'"
    proof cases
      case (step_add p)
      then have "peer_ok p" using peer_runs.reach_inv dec by blast
      with step_add ok dec show ?thesis
        by (auto simp: peers_ok_def add_peer_def keyed_insert ran_def)
    next
      case (step_remove k)
      with ok dec show ?thesis by (auto simp: peers_ok_def remove_peer_def keyed_delete ran_def)
    next
      case (step_update rate k passed)
      have "peer_ok (set_trust (trust_update passed rate (trust_of p)) p)" if "peer_ok p" for p
        using peer_ok_step [OF peer_step.step_trust [OF step_update(2)] dec that] .
      with step_update ok dec show ?thesis
        by (auto simp: peers_ok_def update_trust_def map_modify_def keyed_def ran_def set_trust_fields split: option.splits)
    qed
  qed
qed

subsection \<open>Streaks\<close>

lemma capped_steps:
  fixes a :: rat
  assumes "0 \<le> k"
  shows "b \<le> max 0 (a - c) \<Longrightarrow> max 0 (b - k) \<le> max 0 (a - (c + k))"
    and "min 1 (a + c) \<le> b \<Longrightarrow> min 1 (a + (c + k)) \<le> min 1 (b + k)"
  using assms by auto

lemma times_Suc: "of_nat (Suc n) * c = c + of_nat n * (c :: rat)"
  by (simp add: algebra_simps)

lemma failures_lower:
  assumes "score_ok (fp_trust_score p)" "\<forall>(t, r) \<in> set xs. \<not> vr_passed (ar_verification r)"
  shows "score_ok (fp_trust_score (receive_all xs p)) \<and>
    val (fp_trust_score (receive_all xs p)) \<le>
      max 0 (val (fp_trust_score p) - of_nat (length xs) * (2 / 10 - pow2 (-52)))"
  using assms
proof (induction xs arbitrary: p)
  case Nil
  then show ?case by (auto simp: receive_all_def score_ok_def)
next
  case (Cons x xs)
  obtain t r where x: "x = (t, r)" by fastforce
  let ?p = "add_attestation t r p"
  have step: "score_ok (fp_trust_score ?p)"
    "val (fp_trust_score ?p) \<le> max 0 (val (fp_trust_score p) - 2 / 10 + pow2 (-52))"
    using lower_score_step [OF Cons.prems(1)] Cons.prems(2) x by (simp_all add: add_attestation_fields)
  have "receive_all (x # xs) p = receive_all xs ?p" by (simp add: receive_all_def x)
  moreover have "max 0 (val (fp_trust_score ?p) - of_nat (length xs) * (2 / 10 - pow2 (-52)))
      \<le> max 0 (val (fp_trust_score p) - of_nat (length (x # xs)) * (2 / 10 - pow2 (-52)))"
    unfolding length_Cons times_Suc using step(2) by (intro capped_steps(1)) (simp_all add: pow2_def)
  ultimately show ?case using Cons.IH [OF step(1)] Cons.prems(2) by auto
qed

lemma successes_raise:
  assumes "score_ok (fp_trust_score p)"
    "\<forall>(t, r) \<in> set xs. vr_passed (ar_verification r) \<and> vr_match_rate (ar_verification r) = Fin False 1"
  shows "score_ok (fp_trust_score (receive_all xs p)) \<and>
    min 1 (val (fp_trust_score p) + of_nat (length xs) * (1 / 10 - pow2 (-51))) \<le>
      val (fp_trust_score (receive_all xs p))"
  using assms
proof (induction xs arbitrary: p)
  case Nil
  then show ?case by (auto simp: receive_all_def)
next
  case (Cons x xs)
  obtain t r where x: "x = (t, r)" by fastforce
  let ?p = "add_attestation t r p"
  have "funit (Fin False 1)" by (simp add: funit_def)
  then have step: "score_ok (fp_trust_score ?p)"
    "min 1 (val (fp_trust_score p) + 1 / 10 - pow2 (-51)) \<le> val (fp_trust_score ?p)"
    using raise_score_step [OF Cons.prems(1)] Cons.prems(2) x by (simp_all add: add_attestation_fields)
  have "receive_all (x # xs) p = receive_all xs ?p" by (simp add: receive_all_def x)
  moreover have "min 1 (val (fp_trust_score p) + of_nat (length (x # xs)) * (1 / 10 - pow2 (-51)))
      \<le> min 1 (val (fp_trust_score ?p) + of_nat (length xs) * (1 / 10 - pow2 (-51)))"
    unfolding length_Cons times_Suc using step(2) by (intro capped_steps(2)) (simp_all add: pow2_def)
  ultimately show ?case using Cons.IH [OF step(1)] Cons.prems(2) by auto
qed

lemma receive_all_status:
  assumes "xs \<noteq> []"
  shows "fp_status (receive_all xs p) = status_of (fp_trust_score (receive_all xs p))"
proof -
  obtain ys t r where "xs = ys @ [(t, r)]" using assms by (metis rev_exhaust surj_pair)
  then show ?thesis by (simp add: receive_all_def add_attestation_fields)
qed

lemma digest_rate:
  assumes "k \<le> 32"
  shows "flt (lit (95 / 100)) (fdiv (f64_of_nat k) (f64_of_nat 32)) \<longleftrightarrow> 31 \<le> k"
proof -
  obtain v where v: "lit (95 / 100) = Fin False v" "\<bar>v - 95 / 100\<bar> \<le> pow2 (-53)"
    using lit_error [of "95 / 100"] by auto
  have q: "fdiv (f64_of_nat k) (f64_of_nat 32) = round_f64 False (of_nat k / 32)"
    using assms f64_of_nat_exact [of k] f64_of_nat_exact [of 32] by simp
  obtain w where w: "round_f64 False (of_nat k / 32) = Fin False w" "\<bar>w - of_nat k / 32\<bar> \<le> pow2 (-53)"
    using round_f64_error [of "of_nat k / 32" False] assms by auto
  have "v < w \<longleftrightarrow> 31 \<le> k"
  proof
    assume "v < w"
    then have "(95 / 100 :: rat) - 2 * pow2 (-53) < of_nat k / 32" using v(2) w(2) by (simp add: abs_le_iff)
    then have "(30 :: rat) < of_nat k" by (simp add: pow2_def)
    then show "31 \<le> k" by linarith
  next
    assume "31 \<le> k"
    then have "(31 / 32 :: rat) \<le> of_nat k / 32" by simp
    moreover have "v \<le> 95 / 100 + pow2 (-53)" "of_nat k / 32 - pow2 (-53) \<le> w"
      using v(2) w(2) by (simp_all add: abs_le_iff)
    moreover have "(95 / 100 :: rat) + pow2 (-53) < 31 / 32 - pow2 (-53)" by (simp add: pow2_def)
    ultimately show "v < w" by linarith
  qed
  with v(1) q w(1) show ?thesis by simp
qed

text \<open>A match rate that is not a number gives full trust.\<close>

lemma nan_rate_trusts:
  assumes "score_ok (fp_trust_score p)"
  shows "fp_status (set_trust (trust_update True NaN (trust_of p)) p) = Trusted"
proof -
  obtain s m where "fp_trust_score p = Fin s m" using assms by (auto simp: score_ok_def)
  moreover have "lit (1 / 10) \<noteq> NaN" using lit_error [of "1 / 10"] by auto
  then have "fmul (lit (1 / 10)) NaN = NaN" by (cases "lit (1 / 10)") simp_all
  ultimately have "raise_score NaN (fp_trust_score p) = Fin False 1"
    unfolding raise_score_def by (simp add: fmin_def)
  then show ?thesis
    using status_of_trusted [OF score_ok_one]
    by (simp add: set_trust_fields trust_update_score trust_of_def)
qed

text \<open>A pass that was challenged twice: completing it always acts on the first challenge.\<close>

lemma complete_challenge_first:
  assumes "cm_challenges m = xs @ c # ys" "\<forall>x \<in> set xs. cp_pass_id x \<noteq> cp_pass_id c"
  shows "complete_challenge (cp_pass_id c) rs m =
    (Inr (), m\<lparr>cm_challenges := xs @ c\<lparr>cp_results := rs, cp_completed := True\<rparr> # ys\<rparr>)"
proof -
  have "update_first (\<lambda>x. cp_pass_id x = cp_pass_id c) f (xs @ c # ys) = xs @ f c # ys" for f
    using assms(2) by (induction xs) auto
  then show ?thesis by (simp add: complete_challenge_def assms(1))
qed

section \<open>Properties\<close>

text \<open>The trust in a peer stays in its bounds. In every reachable state of the peer manager, each
  registered peer is filed under its station, its score is a number from 0 to 1, its status is that of
  its score, and at most 200 of its attestations are kept.\<close>

theorem peer_trust_bounds:
  assumes "dec_bounded dec"
    and "reach (\<lambda>m. m = with_key sk) (peers_step (reach peer_init (peer_step ch dec pct))) m"
    and "get_peer k m = Some p"
  shows "fp_station_id p = k \<and> score_ok (fp_trust_score p) \<and> fp_status p = status_of (fp_trust_score p) \<and>
    length (fp_attestation_history p) \<le> max_attestation_history"
proof -
  have "peers_ok m" using peers_runs.reach_inv [OF assms(2)] assms(1) by blast
  with assms(3) show ?thesis by (auto simp: peers_ok_def peer_ok_def get_peer_def keyed_def ran_def)
qed

theorem peer_trust_bounds_witness:
  "score_ok (fp_trust_score (peer_new 0 (StationId ''s'') ''k''))"
proof -
  let ?p = "peer_new 0 (StationId ''s'') ''k''"
  have "reach peer_init (peer_step every_date plain_dec (\<lambda>_. [])) ?p"
    by (rule reach_init) (auto simp: peer_init_def)
  then have run: "reach (\<lambda>m. m = with_key ()) (peers_step (reach peer_init (peer_step every_date plain_dec (\<lambda>_. []))))
      (add_peer ?p (with_key ()))"
    by (intro reach_step [OF reach_self] step_add)
  have "dec_bounded plain_dec" by (simp add: dec_bounded_def plain_dec_def)
  from peer_trust_bounds [OF this run, of "StationId ''s''" ?p] show ?thesis
    by (simp add: get_peer_def add_peer_def peer_new_def)
qed

text \<open>How fast trust is lost and gained. After two failed verifications in a row no peer is
  trusted, after five every peer is blacklisted, whatever its score was; four perfect verifications in
  a row make a peer with at least the initial score trusted. One failure does not end full trust:
  the score 1 falls to the literal 0.8, the threshold.\<close>

theorem trust_streaks:
  assumes "score_ok (fp_trust_score p)"
  shows "((\<forall>(t, r) \<in> set xs. \<not> vr_passed (ar_verification r)) \<longrightarrow>
        (2 \<le> length xs \<longrightarrow> \<not> is_trusted (receive_all xs p)) \<and>
        (5 \<le> length xs \<longrightarrow> fp_status (receive_all xs p) = Blacklisted)) \<and>
     ((\<forall>(t, r) \<in> set xs. vr_passed (ar_verification r) \<and> vr_match_rate (ar_verification r) = Fin False 1) \<longrightarrow>
        4 \<le> length xs \<longrightarrow> 1 / 2 \<le> val (fp_trust_score p) \<longrightarrow> is_trusted (receive_all xs p)) \<and>
     (fp_trust_score p = Fin False 1 \<longrightarrow> \<not> vr_passed (ar_verification r1) \<longrightarrow>
        is_trusted (add_attestation t1 r1 p))"
proof (intro conjI impI)
  let ?q = "receive_all xs p"
  let ?n = "of_nat (length xs) :: rat"
  have one: "val (fp_trust_score p) \<le> 1" using assms by (auto simp: score_ok_def)
  have grow: "c * 2 \<le> ?n * c" if "2 \<le> length xs" "0 \<le> c" for c :: rat
    using mult_right_mono [OF _ that(2), of 2 ?n] that(1) by (simp add: mult.commute)
  have grow5: "c * 5 \<le> ?n * c" if "5 \<le> length xs" "0 \<le> c" for c :: rat
    using mult_right_mono [OF _ that(2), of 5 ?n] that(1) by (simp add: mult.commute)
  have grow4: "c * 4 \<le> ?n * c" if "4 \<le> length xs" "0 \<le> c" for c :: rat
    using mult_right_mono [OF _ that(2), of 4 ?n] that(1) by (simp add: mult.commute)
  {
    assume fails: "\<forall>(t, r) \<in> set xs. \<not> vr_passed (ar_verification r)" and len: "2 \<le> length xs"
    have "val (fp_trust_score ?q) \<le> 79 / 100"
      using failures_lower [OF assms fails] grow [OF len, of "2 / 10 - pow2 (-52)"] one by (auto simp: pow2_def)
    moreover have "xs \<noteq> []" using len by auto
    ultimately show "\<not> is_trusted ?q"
      using failures_lower [OF assms fails] status_of_not_trusted by (simp add: is_trusted_def receive_all_status)
  next
    assume fails: "\<forall>(t, r) \<in> set xs. \<not> vr_passed (ar_verification r)" and len: "5 \<le> length xs"
    have "val (fp_trust_score ?q) \<le> 19 / 100"
      using failures_lower [OF assms fails] grow5 [OF len, of "2 / 10 - pow2 (-52)"] one by (auto simp: pow2_def)
    moreover have "xs \<noteq> []" using len by auto
    ultimately show "fp_status ?q = Blacklisted"
      using failures_lower [OF assms fails] status_of_blacklisted by (simp add: receive_all_status)
  next
    assume good: "\<forall>(t, r) \<in> set xs. vr_passed (ar_verification r) \<and> vr_match_rate (ar_verification r) = Fin False 1"
      and len: "4 \<le> length xs" and half: "1 / 2 \<le> val (fp_trust_score p)"
    have "81 / 100 \<le> val (fp_trust_score ?q)"
      using successes_raise [OF assms good] grow4 [OF len, of "1 / 10 - pow2 (-51)"] half by (auto simp: pow2_def)
    moreover have "xs \<noteq> []" using len by auto
    ultimately show "is_trusted ?q"
      using successes_raise [OF assms good] status_of_trusted by (simp add: is_trusted_def receive_all_status)
  next
    assume "fp_trust_score p = Fin False 1" "\<not> vr_passed (ar_verification r1)"
    then show "is_trusted (add_attestation t1 r1 p)"
      by (simp add: is_trusted_def add_attestation_fields status_after_failure)
  }
qed

theorem trust_streaks_witness:
  "\<not> is_trusted (receive_all (replicate 2 (0, sample_record False)) (peer_new 0 k key)) \<and>
   fp_status (receive_all (replicate 5 (0, sample_record False)) (peer_new 0 k key)) = Blacklisted \<and>
   is_trusted (receive_all (replicate 4 (0, sample_record True)) (peer_new 0 k key))"
proof -
  let ?p = "peer_new 0 k key"
  have ok: "score_ok (fp_trust_score ?p)" "val (fp_trust_score ?p) = 1 / 2"
    by (simp_all add: peer_new_def score_ok_half) (simp add: half_exact)
  show ?thesis
    using trust_streaks [OF ok(1), of "replicate 2 (0, sample_record False)"]
      trust_streaks [OF ok(1), of "replicate 5 (0, sample_record False)"]
      trust_streaks [OF ok(1), of "replicate 4 (0, sample_record True)"] ok(2)
    by (simp add: sample_record_def)
qed

text \<open>A verification of 32-byte digests tolerates one wrong byte. When both digests decode to 32
  bytes, it passes exactly when the times are consistent and at most one byte differs, so two different
  hashes can pass.\<close>

theorem digest_verification_iff:
  assumes "verification_new ch dec pct p (Some l) h q1 q2 = Some v"
    and "dec l = Inr x" "dec h = Inr y" "length x = 32" "length y = 32"
  shows "check_bitemporal_consistency ch q1 q2 = Some (avf_bitemporal_consistency v) \<and>
    (avf_passed v \<longleftrightarrow> avf_bitemporal_consistency v \<and> 31 \<le> matching x y)"
proof -
  have bt: "check_bitemporal_consistency ch q1 q2 = Some (avf_bitemporal_consistency v)"
    using assms(1) by (auto simp: verification_new_def Let_def bind_eq_Some_conv)
  have "flt (lit (95 / 100)) (compute_match_rate dec l h) \<longleftrightarrow> 31 \<le> matching x y"
  proof (cases "l = h")
    case True
    with assms(2,3) have "matching x y = length x" by (simp add: matching_self)
    moreover have "flt (lit (95 / 100)) (fdiv (f64_of_nat 32) (f64_of_nat 32))" using digest_rate [of 32] by simp
    ultimately show ?thesis using assms(4) True lit_below_one by (simp add: compute_match_rate_def)
  next
    case False
    have le: "matching x y \<le> 32" using matching_le(1) [of x y] assms(4) by simp
    have "x \<noteq> []" "y \<noteq> []" using assms(4,5) by auto
    then have rate: "compute_match_rate dec l h = fdiv (f64_of_nat (matching x y)) (f64_of_nat 32)"
      using False assms(2-5) by (simp add: compute_match_rate_def)
    show ?thesis unfolding rate by (rule digest_rate [OF le])
  qed
  then show ?thesis
    using bt verification_new_Some(1,2) [OF assms(1)] by (auto simp: verification_passes_def)
qed

theorem digest_verification_iff_witness:
  "\<exists>v. verification_new every_date plain_dec (\<lambda>_. []) (PassId ''p'') (Some (CHR ''x'' # replicate 31 CHR ''a''))
     (replicate 32 CHR ''a'') (Some sane_proof) None = Some v \<and> avf_passed v"
proof -
  let ?l = "CHR ''x'' # replicate 31 CHR ''a''" and ?h = "replicate 32 CHR ''a''"
  have bt: "check_bitemporal_consistency every_date (Some sane_proof) None = Some True"
    by (simp add: check_bitemporal_consistency_def proof_internally_consistent_def sane_proof_def
        max_pass_duration_secs_def min_sample_count_def num_seconds_nonneg)
  obtain v where v: "verification_new every_date plain_dec (\<lambda>_. []) (PassId ''p'') (Some ?l) ?h
      (Some sane_proof) None = Some v"
    by (simp add: verification_new_def bt Let_def)
  have dec: "plain_dec ?l = Inr (120 # replicate 31 97)" "plain_dec ?h = Inr (replicate 32 97)"
    by (simp_all add: plain_dec_def)
  have "matching (120 # replicate 31 97) (replicate 32 (97 :: u8)) = 31"
    by code_simp
  with digest_verification_iff [OF v dec] v bt show ?thesis by auto
qed

end
