(* ===== verification/Federation_Spectrum.thy ===== *)
theory Federation_Spectrum
  imports Federation_Peers
begin

text \<open>
  Spectrum coordination between trusted peers (\<open>federation/src/spectrum.rs\<close>): the overlap of two bands,
  the conflicts between two schedules, and the exchange of requests and responses. Readings of the
  clock, identifiers of requests and the iteration order of the registered peers are arguments; logging
  is left out.
\<close>

section \<open>Definitions\<close>

subsection \<open>Bands and entries\<close>

record coordination_band =
  cb_center_hz :: f64
  cb_bandwidth_hz :: f64
  cb_polarization :: string

definition s_band_downlink :: coordination_band where
  "s_band_downlink = \<lparr>cb_center_hz = lit 2200000000, cb_bandwidth_hz = lit 20000000, cb_polarization = ''RHCP''\<rparr>"

definition x_band_downlink :: coordination_band where
  "x_band_downlink = \<lparr>cb_center_hz = lit 8400000000, cb_bandwidth_hz = lit 100000000, cb_polarization = ''RHCP''\<rparr>"

definition s_band_uplink :: coordination_band where
  "s_band_uplink = \<lparr>cb_center_hz = lit 2025000000, cb_bandwidth_hz = lit 10000000, cb_polarization = ''LHCP''\<rparr>"

definition band_lo :: "coordination_band \<Rightarrow> f64" where
  "band_lo b = fsub (cb_center_hz b) (fdiv (cb_bandwidth_hz b) (lit 2))"

definition band_hi :: "coordination_band \<Rightarrow> f64" where
  "band_hi b = fadd (cb_center_hz b) (fdiv (cb_bandwidth_hz b) (lit 2))"

definition overlap_hz :: "coordination_band \<Rightarrow> coordination_band \<Rightarrow> f64" where
  "overlap_hz a b =
     fmax (fsub (fmin (band_hi a) (band_hi b)) (fmax (band_lo a) (band_lo b))) (lit 0)"

record pass_schedule_entry =
  pse_entry_id :: uuid
  pse_station_id :: string
  pse_satellite_norad_id :: u64
  pse_band :: coordination_band
  pse_window_start :: datetime
  pse_window_end :: datetime
  pse_max_eirp_dbw :: "f64 option"

definition duration_s :: "pass_schedule_entry \<Rightarrow> int" where
  "duration_s e = num_seconds (pse_window_end e - pse_window_start e)"

definition time_overlap :: "pass_schedule_entry \<Rightarrow> pass_schedule_entry \<Rightarrow> bool" where
  "time_overlap a b \<longleftrightarrow> pse_window_start a < pse_window_end b \<and> pse_window_start b < pse_window_end a"

definition time_overlap_s :: "pass_schedule_entry \<Rightarrow> pass_schedule_entry \<Rightarrow> int" where
  "time_overlap_s a b =
     (if \<not> time_overlap a b then 0
      else num_seconds (min (pse_window_end a) (pse_window_end b) -
                        max (pse_window_start a) (pse_window_start b)))"

subsection \<open>Conflicts\<close>

record spectrum_conflict =
  scf_our_entry :: pass_schedule_entry
  scf_peer_entry :: pass_schedule_entry
  scf_peer_id :: peer_id
  scf_frequency_overlap_hz :: f64
  scf_time_overlap_s :: int
  scf_severity :: f64
  scf_detected_at :: datetime

definition conflict_requires_coordination :: "spectrum_conflict \<Rightarrow> bool" where
  "conflict_requires_coordination c \<longleftrightarrow>
     flt (lit (3 / 10)) (scf_severity c) \<or>
     flt (lit 0) (scf_frequency_overlap_hz c) \<and> 30 < scf_time_overlap_s c"

text \<open>The two conditions under which a pair of entries is passed over, and the conflict of a pair.\<close>

definition entries_conflict :: "pass_schedule_entry \<Rightarrow> pass_schedule_entry \<Rightarrow> bool" where
  "entries_conflict a b \<longleftrightarrow> time_overlap a b \<and> \<not> feq (overlap_hz (pse_band a) (pse_band b)) (lit 0)"

definition conflict_severity :: "pass_schedule_entry \<Rightarrow> pass_schedule_entry \<Rightarrow> f64" where
  "conflict_severity a b =
     fmin (fmul (fdiv (overlap_hz (pse_band a) (pse_band b)) (cb_bandwidth_hz (pse_band a)))
                (fdiv (f64_of_int (time_overlap_s a b)) (f64_of_int (max (duration_s a) 1)))) (lit 1)"

definition spectrum_conflict_of :: "peer_id \<Rightarrow> datetime \<Rightarrow> pass_schedule_entry \<Rightarrow> pass_schedule_entry \<Rightarrow>
    spectrum_conflict" where
  "spectrum_conflict_of k t a b =
     \<lparr>scf_our_entry = a, scf_peer_entry = b, scf_peer_id = k,
      scf_frequency_overlap_hz = overlap_hz (pse_band a) (pse_band b),
      scf_time_overlap_s = time_overlap_s a b, scf_severity = conflict_severity a b, scf_detected_at = t\<rparr>"

text \<open>The two nested loops; \<open>now i\<close> is the clock at the \<open>i\<close>-th conflict.\<close>

definition conflicting_entries :: "pass_schedule_entry list \<Rightarrow> pass_schedule_entry list \<Rightarrow>
    (pass_schedule_entry \<times> pass_schedule_entry) list" where
  "conflicting_entries ours theirs =
     concat (map (\<lambda>a. map (Pair a) (filter (entries_conflict a) theirs)) ours)"

definition spectrum_detect :: "(nat \<Rightarrow> datetime) \<Rightarrow> pass_schedule_entry list \<Rightarrow> pass_schedule_entry list \<Rightarrow>
    peer_id \<Rightarrow> spectrum_conflict list" where
  "spectrum_detect now ours theirs k =
     map (\<lambda>(i, (a, b)). spectrum_conflict_of k (now i) a b) (enumerate 0 (conflicting_entries ours theirs))"

subsection \<open>Requests, responses and the state of a peer\<close>

record coordination_request =
  crq_request_id :: uuid
  crq_from_station :: string
  crq_to_station :: peer_id
  crq_our_entries :: "pass_schedule_entry list"
  crq_look_ahead_hours :: u32
  crq_created_at :: datetime

definition request_new :: "uuid \<Rightarrow> datetime \<Rightarrow> string \<Rightarrow> peer_id \<Rightarrow> pass_schedule_entry list \<Rightarrow>
    coordination_request" where
  "request_new u now s k entries =
     \<lparr>crq_request_id = u, crq_from_station = s, crq_to_station = k, crq_our_entries = entries,
      crq_look_ahead_hours = 24, crq_created_at = now\<rparr>"

record coordination_response =
  crs_request_id :: uuid
  crs_from_station :: peer_id
  crs_their_conflicting_entries :: "pass_schedule_entry list"
  crs_conflicts :: "spectrum_conflict list"
  crs_accepted :: bool
  crs_responded_at :: datetime

record peer_coordination =
  pcs_peer_id :: peer_id
  pcs_their_schedule :: "pass_schedule_entry list"
  pcs_active_conflicts :: "spectrum_conflict list"
  pcs_last_exchange :: "datetime option"
  pcs_successful_coordinations :: u64

definition peer_coordination_new :: "peer_id \<Rightarrow> peer_coordination" where
  "peer_coordination_new k =
     \<lparr>pcs_peer_id = k, pcs_their_schedule = [], pcs_active_conflicts = [], pcs_last_exchange = None,
      pcs_successful_coordinations = 0\<rparr>"

definition exchange_stale :: "datetime \<Rightarrow> duration \<Rightarrow> peer_coordination \<Rightarrow> bool" where
  "exchange_stale now interval s =
     (case pcs_last_exchange s of None \<Rightarrow> True | Some t \<Rightarrow> interval < now - t)"

subsection \<open>The coordinator\<close>

record spectrum_coordinator =
  spc_our_station_id :: string
  spc_peer_state :: "peer_id \<rightharpoonup> peer_coordination"
  spc_our_schedule :: "pass_schedule_entry list"
  spc_exchange_interval :: duration

definition coordinator_new :: "string \<Rightarrow> spectrum_coordinator" where
  "coordinator_new s =
     \<lparr>spc_our_station_id = s, spc_peer_state = Map.empty, spc_our_schedule = [],
      spc_exchange_interval = duration_seconds 7200\<rparr>"

text \<open>\<open>entry(k).or_insert_with(...)\<close> leaves the state of a registered peer alone.\<close>

definition register_peer :: "federation_peer \<Rightarrow> spectrum_coordinator \<Rightarrow> spectrum_coordinator" where
  "register_peer p c =
     (if is_trusted p \<and> spc_peer_state c (fp_station_id p) = None
      then c\<lparr>spc_peer_state := (spc_peer_state c)(fp_station_id p \<mapsto> peer_coordination_new (fp_station_id p))\<rparr>
      else c)"

definition update_our_schedule :: "pass_schedule_entry list \<Rightarrow> spectrum_coordinator \<Rightarrow> spectrum_coordinator" where
  "update_our_schedule es c = c\<lparr>spc_our_schedule := es\<rparr>"

definition check_our_schedule :: "peer_id list \<Rightarrow> (peer_id \<Rightarrow> nat \<Rightarrow> datetime) \<Rightarrow> spectrum_coordinator \<Rightarrow>
    spectrum_conflict list" where
  "check_our_schedule ks now c =
     concat (List.map_filter
       (\<lambda>k. map_option (\<lambda>s. spectrum_detect (now k) (spc_our_schedule c) (pcs_their_schedule s) k)
              (spc_peer_state c k)) ks)"

text \<open>\<open>t\<close> is the clock at the exchange, \<open>now\<close> at the conflicts and \<open>responded\<close> at the response.\<close>

definition receive_request :: "datetime \<Rightarrow> (nat \<Rightarrow> datetime) \<Rightarrow> datetime \<Rightarrow> coordination_request \<Rightarrow>
    federation_peer \<Rightarrow> spectrum_coordinator \<Rightarrow> coordination_response \<times> spectrum_coordinator" where
  "receive_request t now responded rq p c =
     (if \<not> is_trusted p
      then (\<lparr>crs_request_id = crq_request_id rq, crs_from_station = StationId (spc_our_station_id c),
             crs_their_conflicting_entries = [], crs_conflicts = [], crs_accepted = False,
             crs_responded_at = responded\<rparr>, c)
      else
        (let conflicts = spectrum_detect now (spc_our_schedule c) (crq_our_entries rq) (fp_station_id p)
         in (\<lparr>crs_request_id = crq_request_id rq, crs_from_station = StationId (spc_our_station_id c),
              crs_their_conflicting_entries = map scf_our_entry conflicts, crs_conflicts = conflicts,
              crs_accepted = True, crs_responded_at = responded\<rparr>,
             c\<lparr>spc_peer_state := map_modify (fp_station_id p)
                 (\<lambda>s. s\<lparr>pcs_their_schedule := crq_our_entries rq, pcs_last_exchange := Some t\<rparr>)
                 (spc_peer_state c)\<rparr>)))"

definition receive_response :: "datetime \<Rightarrow> coordination_response \<Rightarrow> spectrum_coordinator \<Rightarrow>
    spectrum_coordinator" where
  "receive_response t rs c =
     c\<lparr>spc_peer_state := map_modify (crs_from_station rs)
         (\<lambda>s. s\<lparr>pcs_active_conflicts := crs_conflicts rs, pcs_last_exchange := Some t,
                pcs_successful_coordinations :=
                  (if crs_accepted rs then pcs_successful_coordinations s + 1
                   else pcs_successful_coordinations s)\<rparr>) (spc_peer_state c)\<rparr>"

definition build_request :: "uuid \<Rightarrow> datetime \<Rightarrow> peer_id \<Rightarrow> spectrum_coordinator \<Rightarrow>
    coordination_request option" where
  "build_request u now k c =
     (if spc_peer_state c k = None then None
      else Some (request_new u now (spc_our_station_id c) k (spc_our_schedule c)))"

text \<open>\<open>now k\<close> is the clock at the peer \<open>k\<close>, for a peer that has exchanged before.\<close>

definition peers_needing_refresh :: "(peer_id \<Rightarrow> datetime) \<Rightarrow> peer_id list \<Rightarrow> spectrum_coordinator \<Rightarrow>
    peer_id list" where
  "peers_needing_refresh now ks c =
     filter (\<lambda>k. case spc_peer_state c k of
        None \<Rightarrow> False | Some s \<Rightarrow> exchange_stale (now k) (spc_exchange_interval c) s) ks"

definition active_conflicts :: "peer_id list \<Rightarrow> spectrum_coordinator \<Rightarrow> spectrum_conflict list" where
  "active_conflicts ks c = concat (map pcs_active_conflicts (map_values (spc_peer_state c) ks))"

definition peer_count :: "spectrum_coordinator \<Rightarrow> nat" where
  "peer_count c = card (dom (spc_peer_state c))"

text \<open>The pair of entries of a conflict.\<close>

definition sides :: "spectrum_conflict \<Rightarrow> pass_schedule_entry \<times> pass_schedule_entry" where
  "sides c = (scf_our_entry c, scf_peer_entry c)"

subsection \<open>Inputs of the witnesses\<close>

definition sample_entry :: "string \<Rightarrow> pass_schedule_entry" where
  "sample_entry s =
     \<lparr>pse_entry_id = 1, pse_station_id = s, pse_satellite_norad_id = 5,
      pse_band = \<lparr>cb_center_hz = Fin False 8, cb_bandwidth_hz = Fin False 4, cb_polarization = ''RHCP''\<rparr>,
      pse_window_start = 0, pse_window_end = 60000000000, pse_max_eirp_dbw = None\<rparr>"

text \<open>Two stations that trust each other and have one pass each, in the same band at the same time.\<close>

definition station_b :: federation_peer where
  "station_b = (peer_new 0 (StationId ''b'') ''key'')\<lparr>fp_status := Trusted\<rparr>"

definition station_a :: federation_peer where
  "station_a = (peer_new 0 (StationId ''a'') ''key'')\<lparr>fp_status := Trusted\<rparr>"

definition coordinator_a :: spectrum_coordinator where
  "coordinator_a = register_peer station_b (update_our_schedule [sample_entry ''a''] (coordinator_new ''a''))"

definition coordinator_b :: spectrum_coordinator where
  "coordinator_b = register_peer station_a (update_our_schedule [sample_entry ''b''] (coordinator_new ''b''))"

section \<open>Lemmas\<close>

subsection \<open>Symmetry of the overlap\<close>

text \<open>Two values that differ at most in the sign of a zero.\<close>

definition same_value :: "f64 \<Rightarrow> f64 \<Rightarrow> bool" where
  "same_value x y \<longleftrightarrow> x = y \<or> feq x y"

lemma same_value_min: "same_value (fmin x y) (fmin y x)"
  by (cases x; cases y) (auto simp: same_value_def fmin_def)

lemma same_value_max: "same_value (fmax x y) (fmax y x)"
  by (cases x; cases y) (auto simp: same_value_def fmax_def)

lemma same_value_fsub:
  assumes "same_value x x'" "same_value y y'"
  shows "same_value (fsub x y) (fsub x' y')"
proof (cases "\<exists>s m t n. x = Fin s m \<and> y = Fin t n")
  case True
  then obtain s m t n where x: "x = Fin s m" and y: "y = Fin t n" by blast
  obtain s' m' where x': "x' = Fin s' m'" "val (Fin s' m') = val (Fin s m)"
    using assms(1) x by (cases x') (auto simp: same_value_def simp del: val.simps)
  obtain t' n' where y': "y' = Fin t' n'" "val (Fin t' n') = val (Fin t n)"
    using assms(2) y by (cases y') (auto simp: same_value_def simp del: val.simps)
  have neg: "val (Fin (\<not> b) k) = - val (Fin b k)" for b k by simp
  have same: "same_value (of_exact z r) (of_exact w r)" for z w r
    by (auto simp: same_value_def of_exact_def)
  show ?thesis
    using same by (simp add: fsub_def x y x' y' neg del: val.simps)
next
  case False
  have inf: "same_value u v \<Longrightarrow> u = v \<or> (\<exists>s m s' m'. u = Fin s m \<and> v = Fin s' m')" for u v
    by (cases u; cases v) (auto simp: same_value_def)
  show ?thesis
  proof (cases x)
    case (Fin s m)
    with False have "\<nexists>t n. y = Fin t n" by blast
    then have "y' = y" using inf [OF assms(2)] by blast
    moreover obtain s' m' where "x' = Fin s' m'" using inf [OF assms(1)] Fin by blast
    ultimately show ?thesis using Fin \<open>\<nexists>t n. y = Fin t n\<close> by (cases y) (auto simp: fsub_def same_value_def)
  next
    case NaN
    then have "x' = x" using inf [OF assms(1)] by blast
    with NaN show ?thesis by (simp add: fsub_def same_value_def)
  next
    case (Inf s)
    then have "x' = x" using inf [OF assms(1)] by blast
    with Inf inf [OF assms(2)] show ?thesis
      by (cases y; cases y') (auto simp: fsub_def same_value_def)
  qed
qed

lemma same_value_fmax_zero:
  "same_value x y \<Longrightarrow> feq (fmax x (lit 0)) (lit 0) \<longleftrightarrow> feq (fmax y (lit 0)) (lit 0)"
  by (cases x; cases y) (auto simp: same_value_def fmax_def)

lemma overlap_zero_sym: "feq (overlap_hz a b) (lit 0) \<longleftrightarrow> feq (overlap_hz b a) (lit 0)"
  unfolding overlap_hz_def
  by (intro same_value_fmax_zero same_value_fsub same_value_min same_value_max)

lemma entries_conflict_sym: "entries_conflict a b \<longleftrightarrow> entries_conflict b a"
  using overlap_zero_sym by (auto simp: entries_conflict_def time_overlap_def)

subsection \<open>The pairs of a detection\<close>

lemma sides_detect: "map sides (spectrum_detect now xs ys k) = conflicting_entries xs ys"
proof -
  have "sides \<circ> (\<lambda>(i, (a, b)). spectrum_conflict_of k (now i) a b) = snd"
    by (auto simp: sides_def spectrum_conflict_of_def)
  then show ?thesis by (simp add: spectrum_detect_def)
qed

lemma conflicting_entries_product:
  "conflicting_entries xs ys = filter (\<lambda>(a, b). entries_conflict a b) (List.product xs ys)"
  unfolding conflicting_entries_def
  by (induction xs) (simp_all add: filter_map comp_def)

lemma mset_product_swap: "mset (List.product ys xs) = image_mset prod.swap (mset (List.product xs ys))"
proof (induction xs)
  case Nil
  have "List.product ys [] = []" by (induction ys) simp_all
  then show ?case by simp
next
  case (Cons x xs)
  have "mset (List.product ys (x # xs)) = mset (map (\<lambda>y. (y, x)) ys) + mset (List.product ys xs)"
    by (induction ys) simp_all
  with Cons.IH show ?case by (simp add: comp_def image_mset.compositionality)
qed

lemma mset_conflicting_swap:
  "mset (conflicting_entries ys xs) = image_mset prod.swap (mset (conflicting_entries xs ys))"
proof -
  have "filter_mset (\<lambda>(a, b). entries_conflict a b) (image_mset prod.swap M) =
      image_mset prod.swap (filter_mset (\<lambda>(a, b). entries_conflict a b) M)" for M
    using entries_conflict_sym by (induction M) (auto simp: case_prod_beta)
  then show ?thesis
    by (simp add: conflicting_entries_product mset_product_swap [of ys xs])
qed

section \<open>Properties\<close>

text \<open>Two stations agree on their conflicts. The conflicts that a station finds between its passes
  and those of a peer are, as pairs and with their multiplicity, those the peer finds between its passes
  and those of the station, with the sides exchanged, although the overlap of two bands is computed in
  binary64; each conflict is between a pass of either side that overlap in time.\<close>

theorem conflicts_symmetric:
  "mset (map sides (spectrum_detect now xs ys k)) =
     image_mset prod.swap (mset (map sides (spectrum_detect now' ys xs k'))) \<and>
   set (map sides (spectrum_detect now xs ys k)) =
     {(a, b). a \<in> set xs \<and> b \<in> set ys \<and> time_overlap a b \<and>
        \<not> feq (overlap_hz (pse_band a) (pse_band b)) (lit 0)}"
proof
  show "mset (map sides (spectrum_detect now xs ys k)) =
      image_mset prod.swap (mset (map sides (spectrum_detect now' ys xs k')))"
    unfolding sides_detect by (rule mset_conflicting_swap)
  show "set (map sides (spectrum_detect now xs ys k)) =
     {(a, b). a \<in> set xs \<and> b \<in> set ys \<and> time_overlap a b \<and>
        \<not> feq (overlap_hz (pse_band a) (pse_band b)) (lit 0)}"
    unfolding sides_detect conflicting_entries_product by (auto simp: entries_conflict_def)
qed

text \<open>What a station learns from a coordination round has the sides exchanged. When a station sends
  its schedule to a registered peer that trusts it, the conflicts it then stores for that peer name
  passes of the peer as its own, its own passes as those of the peer, and itself as the peer; as pairs
  they are the conflicts it would find itself, exchanged.\<close>

theorem coordination_round_swaps_sides:
  assumes "build_request u t0 (StationId (spc_our_station_id b)) a = Some rq"
    and "is_trusted p"
    and "rs = fst (receive_request t1 now t2 rq p b)"
    and "spc_peer_state (receive_response t3 rs a) (StationId (spc_our_station_id b)) = Some s"
  shows "map sides (pcs_active_conflicts s) = conflicting_entries (spc_our_schedule b) (spc_our_schedule a) \<and>
    (\<forall>c \<in> set (pcs_active_conflicts s). scf_peer_id c = fp_station_id p) \<and>
    mset (map sides (pcs_active_conflicts s)) =
      image_mset prod.swap (mset (map sides (spectrum_detect now' (spc_our_schedule a) (spc_our_schedule b) k)))"
proof -
  have rq: "crq_our_entries rq = spc_our_schedule a"
    using assms(1) by (auto simp: build_request_def request_new_def split: if_splits)
  have "pcs_active_conflicts s = spectrum_detect now (spc_our_schedule b) (spc_our_schedule a) (fp_station_id p)"
    using assms by (auto simp: receive_response_def receive_request_def Let_def map_modify_def rq
        build_request_def split: option.splits if_splits)
  then show ?thesis
    unfolding sides_detect [symmetric, of _ _ now "fp_station_id p"]
    by (auto simp: sides_detect mset_conflicting_swap [of _ "spc_our_schedule a"] simp flip: mset_map)
       (auto simp: spectrum_detect_def spectrum_conflict_of_def)
qed

theorem coordination_round_swaps_sides_witness:
  "\<exists>rq s. build_request 1 0 (StationId ''b'') coordinator_a = Some rq \<and>
     spc_peer_state (receive_response 1 (fst (receive_request 1 (\<lambda>_. 1) 1 rq station_a coordinator_b)) coordinator_a)
       (StationId ''b'') = Some s \<and>
     map sides (pcs_active_conflicts s) = [(sample_entry ''b'', sample_entry ''a'')]"
proof -
  note defs = coordinator_a_def coordinator_b_def station_a_def station_b_def register_peer_def
    update_our_schedule_def coordinator_new_def peer_new_def is_trusted_def
  obtain rq where rq: "build_request 1 0 (StationId (spc_our_station_id coordinator_b)) coordinator_a = Some rq"
    by (simp add: build_request_def defs)
  have trust: "is_trusted station_a" by (simp add: defs)
  let ?rs = "fst (receive_request 1 (\<lambda>_. 1) 1 rq station_a coordinator_b)"
  have "crs_from_station ?rs = StationId ''b''"
    by (simp add: receive_request_def trust Let_def) (simp add: defs)
  then obtain s where s: "spc_peer_state (receive_response 1 ?rs coordinator_a)
      (StationId (spc_our_station_id coordinator_b)) = Some s"
    by (simp add: receive_response_def map_modify_def) (simp add: defs)
  have half: "round_f64 False 2 = Fin False 2" "lit 2 = Fin False 2" "round_f64 False 10 = Fin False 10"
    "round_f64 False 6 = Fin False 6" "round_f64 False 4 = Fin False 4"
    by (simp_all add: round_f64_numeral lit_numeral)
  have "entries_conflict (sample_entry ''b'') (sample_entry ''a'')"
    by (simp add: entries_conflict_def time_overlap_def sample_entry_def overlap_hz_def band_lo_def band_hi_def
        half fsub_def of_exact_def fmin_def fmax_def)
  then have "conflicting_entries [sample_entry ''b''] [sample_entry ''a''] = [(sample_entry ''b'', sample_entry ''a'')]"
    by (simp add: conflicting_entries_def)
  moreover have "spc_our_schedule coordinator_a = [sample_entry ''a'']" "spc_our_schedule coordinator_b = [sample_entry ''b'']"
    "spc_our_station_id coordinator_b = ''b''"
    by (simp_all add: defs)
  ultimately show ?thesis
    using coordination_round_swaps_sides [OF rq trust refl s] rq s by auto
qed

text \<open>A rejected request leaves no trace at the receiver and clears the conflicts at the sender. A
  peer that is not trusted is refused without any change; when the response arrives, the sender, which
  registered the receiver, drops its active conflicts with it and counts the exchange as fresh, but not
  as a successful coordination.\<close>

theorem rejected_request_clears_conflicts:
  assumes "\<not> is_trusted p"
    and "spc_peer_state a (StationId (spc_our_station_id b)) = Some s"
    and "0 \<le> spc_exchange_interval a"
  shows "snd (receive_request t1 now t2 rq p b) = b \<and>
    \<not> crs_accepted (fst (receive_request t1 now t2 rq p b)) \<and>
    (\<exists>s'. spc_peer_state (receive_response t3 (fst (receive_request t1 now t2 rq p b)) a)
         (StationId (spc_our_station_id b)) = Some s' \<and>
       pcs_active_conflicts s' = [] \<and> \<not> exchange_stale t3 (spc_exchange_interval a) s' \<and>
       pcs_successful_coordinations s' = pcs_successful_coordinations s)"
  using assms by (simp add: receive_request_def receive_response_def map_modify_def exchange_stale_def)

theorem rejected_request_clears_conflicts_witness:
  "\<not> crs_accepted (fst (receive_request 1 (\<lambda>_. 1) 1 rq (peer_new 0 (StationId ''a'') ''key'') coordinator_b))"
proof -
  note defs = coordinator_a_def coordinator_b_def station_a_def station_b_def register_peer_def
    update_our_schedule_def coordinator_new_def peer_new_def is_trusted_def duration_seconds_def
  have "\<not> is_trusted (peer_new 0 (StationId ''a'') ''key'')" by (simp add: defs)
  moreover have "\<exists>s. spc_peer_state coordinator_a (StationId (spc_our_station_id coordinator_b)) = Some s"
    "0 \<le> spc_exchange_interval coordinator_a"
    by (simp_all add: defs)
  ultimately show ?thesis using rejected_request_clears_conflicts by blast
qed

text \<open>A trusted peer that is not registered is accepted, but its schedule is not stored.\<close>

lemma unregistered_request_not_stored:
  assumes "is_trusted p" "spc_peer_state c (fp_station_id p) = None"
  shows "crs_accepted (fst (receive_request t now t' rq p c)) \<and> snd (receive_request t now t' rq p c) = c"
  using assms by (simp add: receive_request_def Let_def map_modify_def)

text \<open>A registered peer stays registered, whatever becomes of its trust.\<close>

lemma registered_stays:
  assumes "spc_peer_state c k \<noteq> None"
  shows "spc_peer_state (register_peer p c) k \<noteq> None" "spc_peer_state (update_our_schedule es c) k \<noteq> None"
    "spc_peer_state (snd (receive_request t now t' rq p c)) k \<noteq> None"
    "spc_peer_state (receive_response t rs c) k \<noteq> None"
  using assms
  by (auto simp: register_peer_def update_our_schedule_def receive_request_def receive_response_def Let_def
      map_modify_def split: option.splits)

end
