(* ===== verification/Oisl_Resource.thy ===== *)
theory Oisl_Resource
  imports Oisl_Types
begin

text \<open>
  The resource plane of the inter-satellite network (\<open>oisl/src/resource/allocator.rs\<close>, \<open>manager.rs\<close>,
  \<open>scheduler.rs\<close>): the allocator with its indices and quotas, the resources of a satellite, and the
  scheduler that uses both.

  Fresh UUIDs, the clock, the range of dates and iteration orders are arguments. \<open>z\<close> is the neutral
  element of the sum of an iterator of floats. The vendor of a terminal is a type parameter. A panic is
  \<open>None\<close>.
\<close>

section \<open>Definitions\<close>

subsection \<open>Claims and allocations\<close>

record resource_claim =
  rc_optical_terminal :: "terminal_id option"
  rc_bandwidth :: "data_rate option"
  rc_duration :: duration
  rc_power_watts :: f64
  rc_storage_bytes :: "u64 option"
  rc_compute_cycles :: "u64 option"

record sat_allocation =
  ra_allocation_id :: uuid
  ra_task_id :: task_id
  ra_tenant_id :: string
  ra_resources :: resource_claim
  ra_valid_window :: time_window
  ra_priority :: isl_priority
  ra_preemptible :: bool

definition sat_allocation_new :: "uuid \<Rightarrow> task_id \<Rightarrow> string \<Rightarrow> resource_claim \<Rightarrow> time_window \<Rightarrow>
    isl_priority \<Rightarrow> bool \<Rightarrow> sat_allocation" where
  "sat_allocation_new u t tenant c w p pre =
     \<lparr>ra_allocation_id = u, ra_task_id = t, ra_tenant_id = tenant, ra_resources = c, ra_valid_window = w,
      ra_priority = p, ra_preemptible = pre\<rparr>"

definition allocation_is_valid :: "datetime \<Rightarrow> sat_allocation \<Rightarrow> bool" where
  "allocation_is_valid now a \<longleftrightarrow> tw_contains (ra_valid_window a) now"

definition can_preempt :: "sat_allocation \<Rightarrow> bool" where
  "can_preempt a \<longleftrightarrow> ra_preemptible a \<and> ra_priority a \<noteq> IslCritical"

record tenant_quota =
  tqt_max_power_watts :: f64
  tqt_max_bandwidth_bps :: u64
  tqt_max_storage_bytes :: u64
  tqt_max_allocations :: nat

datatype allocation_error =
    AllocationMissing uuid
  | QuotaExceeded string string
  | ResourceConflict uuid
  | NotPreemptible uuid
  | InsufficientResources string

fun allocation_error_text :: "allocation_error \<Rightarrow> string" where
  "allocation_error_text (AllocationMissing u) = ''Allocation not found: '' @ show_uuid u"
| "allocation_error_text (QuotaExceeded t r) = ''Tenant quota exceeded for '' @ t @ '': resource '' @ r"
| "allocation_error_text (ResourceConflict u) = ''Resource conflict with allocation '' @ show_uuid u"
| "allocation_error_text (NotPreemptible u) = ''Allocation '' @ show_uuid u @ '' is not preemptible''"
| "allocation_error_text (InsufficientResources s) = ''Insufficient resources: '' @ s"

subsection \<open>The allocator\<close>

record resource_allocator =
  rla_allocations :: "sat_allocation list"
  rla_tenant_quotas :: "string \<rightharpoonup> tenant_quota"
  rla_terminal_index :: "terminal_id \<rightharpoonup> uuid list"
  rla_tenant_index :: "string \<rightharpoonup> uuid list"

definition allocator_new :: resource_allocator where
  "allocator_new =
     \<lparr>rla_allocations = [], rla_tenant_quotas = Map.empty, rla_terminal_index = Map.empty,
      rla_tenant_index = Map.empty\<rparr>"

definition set_tenant_quota :: "string \<Rightarrow> tenant_quota \<Rightarrow> resource_allocator \<Rightarrow> resource_allocator" where
  "set_tenant_quota t q al = al\<lparr>rla_tenant_quotas := (rla_tenant_quotas al)(t \<mapsto> q)\<rparr>"

text \<open>The allocation with an identifier, as \<open>iter().find(..)\<close> returns it.\<close>

definition allocation_by_id :: "sat_allocation list \<Rightarrow> uuid \<Rightarrow> sat_allocation option" where
  "allocation_by_id as u = List.find (\<lambda>a. ra_allocation_id a = u) as"

definition tenant_usage :: "f64 \<Rightarrow> string \<Rightarrow> resource_allocator \<Rightarrow> f64" where
  "tenant_usage z t al =
     (case rla_tenant_index al t of
        None \<Rightarrow> lit 0
      | Some us \<Rightarrow> f64_sum z (map (\<lambda>a. rc_power_watts (ra_resources a))
                     (List.map_filter (allocation_by_id (rla_allocations al)) us)))"

fun first_conflict :: "sat_allocation list \<Rightarrow> time_window \<Rightarrow> uuid list \<Rightarrow> uuid option" where
  "first_conflict as w [] = None"
| "first_conflict as w (u # us) =
     (case List.find (\<lambda>a. ra_allocation_id a = u \<and> tw_overlaps (ra_valid_window a) w) as of
        Some a \<Rightarrow> Some (ra_allocation_id a)
      | None \<Rightarrow> first_conflict as w us)"

definition terminal_conflicts :: "resource_claim \<Rightarrow> time_window \<Rightarrow> resource_allocator \<Rightarrow> uuid option" where
  "terminal_conflicts c w al =
     (case rc_optical_terminal c of
        None \<Rightarrow> None
      | Some t \<Rightarrow> (case rla_terminal_index al t of
            None \<Rightarrow> None
          | Some us \<Rightarrow> first_conflict (rla_allocations al) w us))"

text \<open>\<open>entry(k).or_default().push(u)\<close>, and \<open>retain\<close> on the entry of a key.\<close>

definition index_add :: "'k \<Rightarrow> uuid \<Rightarrow> ('k \<rightharpoonup> uuid list) \<Rightarrow> ('k \<rightharpoonup> uuid list)" where
  "index_add k u ix = ix(k \<mapsto> (case ix k of None \<Rightarrow> [] | Some us \<Rightarrow> us) @ [u])"

definition index_drop :: "'k \<Rightarrow> uuid \<Rightarrow> ('k \<rightharpoonup> uuid list) \<Rightarrow> ('k \<rightharpoonup> uuid list)" where
  "index_drop k u ix = map_modify k (filter (\<lambda>v. v \<noteq> u)) ix"

definition over_quota :: "f64 \<Rightarrow> resource_claim \<Rightarrow> string \<Rightarrow> resource_allocator \<Rightarrow> bool" where
  "over_quota z c tenant al \<longleftrightarrow>
     (case rla_tenant_quotas al tenant of
        None \<Rightarrow> False
      | Some q \<Rightarrow> flt (tqt_max_power_watts q) (fadd (tenant_usage z tenant al) (rc_power_watts c)))"

text \<open>\<open>u\<close> is the identifier that a successful allocation gets.\<close>

definition allocator_allocate :: "f64 \<Rightarrow> uuid \<Rightarrow> resource_claim \<Rightarrow> task_id \<Rightarrow> string \<Rightarrow> isl_priority \<Rightarrow>
    time_window \<Rightarrow> resource_allocator \<Rightarrow> (allocation_error + uuid) \<times> resource_allocator" where
  "allocator_allocate z u c task tenant p w al =
     (if over_quota z c tenant al then (Inl (QuotaExceeded tenant ''power''), al)
      else case terminal_conflicts c w al of
        Some v \<Rightarrow> (Inl (ResourceConflict v), al)
      | None \<Rightarrow>
          (Inr u,
           al\<lparr>rla_allocations := rla_allocations al @ [sat_allocation_new u task tenant c w p True],
              rla_terminal_index :=
                (case rc_optical_terminal c of
                   None \<Rightarrow> rla_terminal_index al
                 | Some t \<Rightarrow> index_add t u (rla_terminal_index al)),
              rla_tenant_index := index_add tenant u (rla_tenant_index al)\<rparr>))"

text \<open>\<open>position\<close> and \<open>remove\<close>: the first allocation with the identifier is taken out.\<close>

definition allocator_release :: "uuid \<Rightarrow> resource_allocator \<Rightarrow>
    (allocation_error + unit) \<times> resource_allocator" where
  "allocator_release u al =
     (case allocation_by_id (rla_allocations al) u of
        None \<Rightarrow> (Inl (AllocationMissing u), al)
      | Some a \<Rightarrow>
          (Inr (),
           al\<lparr>rla_allocations := remove1 a (rla_allocations al),
              rla_terminal_index :=
                (case rc_optical_terminal (ra_resources a) of
                   None \<Rightarrow> rla_terminal_index al
                 | Some t \<Rightarrow> index_drop t u (rla_terminal_index al)),
              rla_tenant_index := index_drop (ra_tenant_id a) u (rla_tenant_index al)\<rparr>))"

definition allocator_preempt :: "uuid \<Rightarrow> preemption_reason \<Rightarrow> resource_allocator \<Rightarrow>
    (allocation_error + unit) \<times> resource_allocator" where
  "allocator_preempt u reason al =
     (case allocation_by_id (rla_allocations al) u of
        None \<Rightarrow> (Inl (AllocationMissing u), al)
      | Some a \<Rightarrow> if \<not> can_preempt a then (Inl (NotPreemptible u), al) else allocator_release u al)"

definition get_tenant_allocations :: "string \<Rightarrow> resource_allocator \<Rightarrow> sat_allocation list" where
  "get_tenant_allocations t al = filter (\<lambda>a. ra_tenant_id a = t) (rla_allocations al)"

definition get_all_allocations :: "resource_allocator \<Rightarrow> sat_allocation list" where
  "get_all_allocations al = rla_allocations al"

text \<open>The public operations that write; an allocation gets a fresh identifier.\<close>

inductive allocator_step :: "f64 \<Rightarrow> resource_allocator \<Rightarrow> resource_allocator \<Rightarrow> bool" for z :: f64 where
  step_quota: "allocator_step z al (set_tenant_quota t q al)"
| step_allocate: "u \<notin> ra_allocation_id ` set (rla_allocations al) \<Longrightarrow>
     allocator_step z al (snd (allocator_allocate z u c task tenant p w al))"
| step_release: "allocator_step z al (snd (allocator_release u al))"
| step_preempt: "allocator_step z al (snd (allocator_preempt u reason al))"

text \<open>What an index holds: for each key the identifiers of the allocations with that key, in order.\<close>

definition index_of :: "(sat_allocation \<Rightarrow> 'k option) \<Rightarrow> sat_allocation list \<Rightarrow> 'k \<Rightarrow> uuid list" where
  "index_of key as k = map ra_allocation_id (filter (\<lambda>a. key a = Some k) as)"

definition index_exact :: "(sat_allocation \<Rightarrow> 'k option) \<Rightarrow> sat_allocation list \<Rightarrow>
    ('k \<rightharpoonup> uuid list) \<Rightarrow> bool" where
  "index_exact key as ix \<longleftrightarrow> (\<forall>k. (case ix k of None \<Rightarrow> [] | Some us \<Rightarrow> us) = index_of key as k)"

definition uses_terminal :: "sat_allocation \<Rightarrow> terminal_id option" where
  "uses_terminal a = rc_optical_terminal (ra_resources a)"

definition terminal_exclusive :: "sat_allocation list \<Rightarrow> bool" where
  "terminal_exclusive as \<longleftrightarrow> (\<forall>a \<in> set as. \<forall>b \<in> set as. \<forall>t. a \<noteq> b \<longrightarrow> uses_terminal a = Some t \<longrightarrow>
     uses_terminal b = Some t \<longrightarrow> \<not> tw_overlaps (ra_valid_window a) (ra_valid_window b))"

definition allocator_inv :: "resource_allocator \<Rightarrow> bool" where
  "allocator_inv al \<longleftrightarrow>
     distinct (map ra_allocation_id (rla_allocations al)) \<and>
     index_exact uses_terminal (rla_allocations al) (rla_terminal_index al) \<and>
     index_exact (\<lambda>a. Some (ra_tenant_id a)) (rla_allocations al) (rla_tenant_index al) \<and>
     terminal_exclusive (rla_allocations al)"

section \<open>Lemmas\<close>

subsection \<open>Indices\<close>

lemma index_exact_empty: "index_exact key [] Map.empty"
  by (simp add: index_exact_def index_of_def)

lemma index_exact_add:
  "index_exact key as ix \<Longrightarrow> key a = Some k \<Longrightarrow> index_exact key (as @ [a]) (index_add k (ra_allocation_id a) ix)"
  by (auto simp: index_exact_def index_of_def index_add_def)

lemma index_exact_skip: "index_exact key as ix \<Longrightarrow> key a = None \<Longrightarrow> index_exact key (as @ [a]) ix"
  by (simp add: index_exact_def index_of_def)

lemma remove1_ids:
  "distinct (map ra_allocation_id as) \<Longrightarrow> a \<in> set as \<Longrightarrow>
     remove1 a as = filter (\<lambda>b. ra_allocation_id b \<noteq> ra_allocation_id a) as"
proof (induction as)
  case (Cons b bs)
  show ?case
  proof (cases "b = a")
    case True
    then have "\<forall>c \<in> set bs. ra_allocation_id c \<noteq> ra_allocation_id a"
      using Cons.prems(1) by (metis distinct.simps(2) image_eqI list.set_map list.simps(9))
    then have "filter (\<lambda>c. ra_allocation_id c \<noteq> ra_allocation_id a) bs = bs" by (rule filter_True)
    with True show ?thesis by simp
  next
    case False
    then have "ra_allocation_id b \<noteq> ra_allocation_id a" using Cons.prems by auto
    with False Cons show ?thesis by auto
  qed
qed simp

lemma index_of_drop:
  "index_of key (filter (\<lambda>b. ra_allocation_id b \<noteq> u) as) k = filter (\<lambda>v. v \<noteq> u) (index_of key as k)"
  by (induction as) (auto simp: index_of_def)

lemma index_exact_drop:
  assumes "index_exact key as ix" "distinct (map ra_allocation_id as)" "a \<in> set as"
  shows "index_exact key (remove1 a as)
    (case key a of None \<Rightarrow> ix | Some k \<Rightarrow> index_drop k (ra_allocation_id a) ix)"
proof -
  have other: "filter (\<lambda>v. v \<noteq> ra_allocation_id a) (index_of key as k) = index_of key as k" if "key a \<noteq> Some k" for k
  proof -
    have "ra_allocation_id a \<notin> set (index_of key as k)"
      using that assms(2,3) by (auto simp: index_of_def distinct_map inj_on_def)
    then show ?thesis by (auto intro: filter_True)
  qed
  show ?thesis
    unfolding index_exact_def remove1_ids [OF assms(2,3)] index_of_drop
  proof
    fix k
    have ix: "(case ix k of None \<Rightarrow> [] | Some us \<Rightarrow> us) = index_of key as k"
      using assms(1) by (simp add: index_exact_def)
    show "(case (case key a of None \<Rightarrow> ix | Some k \<Rightarrow> index_drop k (ra_allocation_id a) ix) k of
        None \<Rightarrow> [] | Some us \<Rightarrow> us) = filter (\<lambda>v. v \<noteq> ra_allocation_id a) (index_of key as k)"
    proof (cases "key a = Some k")
      case True
      with ix show ?thesis by (cases "ix k") (auto simp: index_drop_def map_modify_def)
    next
      case False
      then show ?thesis
        using ix other [OF False] by (cases "key a") (auto simp: index_drop_def map_modify_other)
    qed
  qed
qed

lemma allocation_by_id_mem:
  assumes "distinct (map ra_allocation_id as)" "a \<in> set as"
  shows "allocation_by_id as (ra_allocation_id a) = Some a"
proof -
  obtain b where b: "List.find (\<lambda>b. ra_allocation_id b = ra_allocation_id a) as = Some b"
    using assms(2) find_None_iff_set [of "\<lambda>b. ra_allocation_id b = ra_allocation_id a" as] by blast
  then have "b = a" using find_SomeD [OF b] assms by (auto simp: distinct_map inj_on_def)
  with b show ?thesis by (simp add: allocation_by_id_def)
qed

lemma allocation_by_id_Some: "allocation_by_id as u = Some a \<Longrightarrow> a \<in> set as \<and> ra_allocation_id a = u"
  unfolding allocation_by_id_def using find_SomeD by fast

text \<open>The scan of the index finds what a scan of all allocations finds.\<close>

lemma find_overlap:
  assumes "distinct (map ra_allocation_id as)" "a \<in> set as"
  shows "List.find (\<lambda>b. ra_allocation_id b = ra_allocation_id a \<and> P b) as = (if P a then Some a else None)"
proof (cases "List.find (\<lambda>b. ra_allocation_id b = ra_allocation_id a \<and> P b) as")
  case None
  with assms(2) show ?thesis by (auto simp: find_None_iff_set)
next
  case (Some b)
  then have "b = a" "P b" using find_SomeD [OF Some] assms by (auto simp: distinct_map inj_on_def)
  with Some show ?thesis by simp
qed

lemma first_conflict_scan:
  assumes "distinct (map ra_allocation_id as)" "set bs \<subseteq> set as"
  shows "first_conflict as w (map ra_allocation_id bs) =
    map_option ra_allocation_id (List.find (\<lambda>a. tw_overlaps (ra_valid_window a) w) bs)"
  using assms(2) by (induction bs) (simp_all add: find_overlap [OF assms(1)])

lemma find_filter: "List.find P (filter Q xs) = List.find (\<lambda>x. Q x \<and> P x) xs"
  by (induction xs) auto

lemma first_conflict_Nil_index:
  "(case ix t of None \<Rightarrow> None | Some us \<Rightarrow> first_conflict as w us) =
     first_conflict as w (case ix t of None \<Rightarrow> [] | Some us \<Rightarrow> us)"
  by (cases "ix t") simp_all

lemma terminal_conflicts_scan:
  assumes "allocator_inv al"
  shows "terminal_conflicts c w al =
    (case rc_optical_terminal c of
       None \<Rightarrow> None
     | Some t \<Rightarrow> map_option ra_allocation_id
         (List.find (\<lambda>a. uses_terminal a = Some t \<and> tw_overlaps (ra_valid_window a) w) (rla_allocations al)))"
proof (cases "rc_optical_terminal c")
  case (Some t)
  have ix: "(case rla_terminal_index al t of None \<Rightarrow> [] | Some us \<Rightarrow> us) =
      map ra_allocation_id (filter (\<lambda>a. uses_terminal a = Some t) (rla_allocations al))"
    using assms by (simp add: allocator_inv_def index_exact_def index_of_def)
  have dist: "distinct (map ra_allocation_id (rla_allocations al))" using assms by (simp add: allocator_inv_def)
  show ?thesis
    by (simp add: terminal_conflicts_def Some first_conflict_Nil_index ix first_conflict_scan [OF dist] find_filter)
qed (simp add: terminal_conflicts_def)

lemma tenant_usage_scan:
  assumes "allocator_inv al"
  shows "tenant_usage z t al = (if rla_tenant_index al t = None then lit 0
    else f64_sum z (map (\<lambda>a. rc_power_watts (ra_resources a)) (get_tenant_allocations t al)))"
proof (cases "rla_tenant_index al t")
  case (Some us)
  have dist: "distinct (map ra_allocation_id (rla_allocations al))" using assms by (simp add: allocator_inv_def)
  have "us = map ra_allocation_id (filter (\<lambda>a. ra_tenant_id a = t) (rla_allocations al))"
    using assms Some by (simp add: allocator_inv_def index_exact_def index_of_def split: option.splits)
  moreover have "List.map_filter (allocation_by_id (rla_allocations al)) (map ra_allocation_id bs) = bs"
    if "set bs \<subseteq> set (rla_allocations al)" for bs
    using that by (induction bs) (simp_all add: allocation_by_id_mem [OF dist] List.map_filter_def)
  ultimately show ?thesis by (simp add: tenant_usage_def Some get_tenant_allocations_def)
qed (simp add: tenant_usage_def)

subsection \<open>The invariant\<close>

lemma terminal_exclusive_subset: "terminal_exclusive as \<Longrightarrow> set bs \<subseteq> set as \<Longrightarrow> terminal_exclusive bs"
  unfolding terminal_exclusive_def by blast

lemma allocator_inv_new: "allocator_inv allocator_new"
  by (simp add: allocator_inv_def allocator_new_def index_exact_empty terminal_exclusive_def)

lemma allocator_inv_release:
  assumes "allocator_inv al"
  shows "allocator_inv (snd (allocator_release u al))"
proof (cases "allocation_by_id (rla_allocations al) u")
  case None
  with assms show ?thesis by (simp add: allocator_release_def)
next
  case (Some a)
  note inv = assms [unfolded allocator_inv_def]
  have a: "a \<in> set (rla_allocations al)" "ra_allocation_id a = u" using allocation_by_id_Some [OF Some] by auto
  have dist: "distinct (map ra_allocation_id (rla_allocations al))"
    and ix: "index_exact uses_terminal (rla_allocations al) (rla_terminal_index al)"
      "index_exact (\<lambda>a. Some (ra_tenant_id a)) (rla_allocations al) (rla_tenant_index al)"
    using inv by simp_all
  have "distinct (map ra_allocation_id (remove1 a (rla_allocations al)))"
    by (simp add: remove1_ids [OF dist a(1)] distinct_map_filter dist)
  moreover have "index_exact uses_terminal (remove1 a (rla_allocations al))
      (case uses_terminal a of None \<Rightarrow> rla_terminal_index al | Some t \<Rightarrow> index_drop t u (rla_terminal_index al))"
    using index_exact_drop [OF ix(1) dist a(1)] unfolding a(2) .
  moreover have "index_exact (\<lambda>a. Some (ra_tenant_id a)) (remove1 a (rla_allocations al))
      (index_drop (ra_tenant_id a) u (rla_tenant_index al))"
    using index_exact_drop [OF ix(2) dist a(1)] unfolding a(2) option.case .
  moreover have "terminal_exclusive (remove1 a (rla_allocations al))"
    using inv by (intro terminal_exclusive_subset [OF _ set_remove1_subset]) simp
  ultimately show ?thesis by (simp add: allocator_release_def Some allocator_inv_def uses_terminal_def)
qed

lemma terminal_exclusive_add:
  assumes "terminal_exclusive as"
    and "\<And>b t. b \<in> set as \<Longrightarrow> uses_terminal a = Some t \<Longrightarrow> uses_terminal b = Some t \<Longrightarrow>
      \<not> tw_overlaps (ra_valid_window b) (ra_valid_window a)"
  shows "terminal_exclusive (as @ [a])"
  unfolding terminal_exclusive_def
proof (intro ballI allI impI)
  fix b c t
  assume "b \<in> set (as @ [a])" "c \<in> set (as @ [a])" "b \<noteq> c" "uses_terminal b = Some t" "uses_terminal c = Some t"
  then consider "b \<in> set as" "c \<in> set as" | "b \<in> set as" "c = a" | "b = a" "c \<in> set as" by auto
  then show "\<not> tw_overlaps (ra_valid_window b) (ra_valid_window c)"
  proof cases
    case 1
    with assms(1) \<open>b \<noteq> c\<close> \<open>uses_terminal b = Some t\<close> \<open>uses_terminal c = Some t\<close> show ?thesis
      unfolding terminal_exclusive_def by blast
  next
    case 2
    with assms(2) \<open>uses_terminal b = Some t\<close> \<open>uses_terminal c = Some t\<close> show ?thesis by blast
  next
    case 3
    with assms(2) \<open>uses_terminal b = Some t\<close> \<open>uses_terminal c = Some t\<close> show ?thesis
      using tw_overlaps_comm by blast
  qed
qed

lemma allocator_inv_allocate:
  assumes "allocator_inv al" "u \<notin> ra_allocation_id ` set (rla_allocations al)"
  shows "allocator_inv (snd (allocator_allocate z u c task tenant p w al))"
proof (cases "over_quota z c tenant al \<or> terminal_conflicts c w al \<noteq> None")
  case True
  with assms(1) show ?thesis by (auto simp: allocator_allocate_def split: option.splits)
next
  case False
  let ?a = "sat_allocation_new u task tenant c w p True"
  let ?as = "rla_allocations al"
  have fields: "ra_allocation_id ?a = u" "uses_terminal ?a = rc_optical_terminal c" "ra_tenant_id ?a = tenant"
    "ra_valid_window ?a = w"
    by (simp_all add: sat_allocation_new_def uses_terminal_def)
  note inv = assms(1) [unfolded allocator_inv_def]
  have "terminal_exclusive (?as @ [?a])"
  proof (rule terminal_exclusive_add)
    show "terminal_exclusive ?as" using inv by blast
    fix b t
    assume b: "b \<in> set ?as" "uses_terminal ?a = Some t" "uses_terminal b = Some t"
    then have "List.find (\<lambda>a. uses_terminal a = Some t \<and> tw_overlaps (ra_valid_window a) w) ?as = None"
      using False by (simp add: terminal_conflicts_scan [OF assms(1)] fields)
    with b show "\<not> tw_overlaps (ra_valid_window b) (ra_valid_window ?a)"
      by (auto simp: find_None_iff_set fields)
  qed
  moreover have "index_exact uses_terminal (?as @ [?a])
      (case rc_optical_terminal c of None \<Rightarrow> rla_terminal_index al | Some t \<Rightarrow> index_add t u (rla_terminal_index al))"
    using inv index_exact_add [of uses_terminal ?as _ ?a] index_exact_skip [of uses_terminal ?as _ ?a]
    by (simp add: fields split: option.split)
  moreover have "index_exact (\<lambda>a. Some (ra_tenant_id a)) (?as @ [?a]) (index_add tenant u (rla_tenant_index al))"
    using inv index_exact_add [of "\<lambda>a. Some (ra_tenant_id a)" ?as _ ?a tenant] by (simp add: fields)
  ultimately show ?thesis
    using False inv assms(2) by (simp add: allocator_allocate_def allocator_inv_def fields)
qed

lemma allocator_inv_step: "allocator_inv al \<Longrightarrow> allocator_step z al al' \<Longrightarrow> allocator_inv al'"
proof (erule allocator_step.cases, goal_cases)
  case (1 al t q)
  then show ?case by (simp add: set_tenant_quota_def allocator_inv_def)
next
  case 2
  then show ?case by (simp add: allocator_inv_allocate)
next
  case 3
  then show ?case by (simp add: allocator_inv_release)
next
  case (4 al u reason)
  then show ?case
    using allocator_inv_release [of al u] by (auto simp: allocator_preempt_def split: option.splits)
qed

interpretation allocations: invariant_system "\<lambda>al. al = allocator_new" "allocator_step z" allocator_inv for z
  using allocator_inv_new allocator_inv_step by unfold_locales auto

subsection \<open>Inputs of the witnesses\<close>

text \<open>Two claims of the same terminal, one hour after the other.\<close>

definition sample_claim :: resource_claim where
  "sample_claim = \<lparr>rc_optical_terminal = Some 5, rc_bandwidth = None, rc_duration = duration_seconds 3600,
     rc_power_watts = Fin False 1, rc_storage_bytes = Some 100, rc_compute_cycles = None\<rparr>"

definition first_allocated :: resource_allocator where
  "first_allocated = snd (allocator_allocate (Fin False 0) 1 sample_claim 7 ''t'' IslMedium
     (time_window_new 0 10) allocator_new)"

definition second_allocated :: resource_allocator where
  "second_allocated = snd (allocator_allocate (Fin False 0) 2 sample_claim 8 ''t'' IslMedium
     (time_window_new 10 20) first_allocated)"

lemma first_allocated_fields:
  "rla_allocations first_allocated =
     [sat_allocation_new 1 7 ''t'' sample_claim (time_window_new 0 10) IslMedium True]"
  "rla_terminal_index first_allocated = [5 \<mapsto> [1]]" "rla_tenant_quotas first_allocated = Map.empty"
  by (simp_all add: first_allocated_def allocator_allocate_def allocator_new_def over_quota_def
      terminal_conflicts_def index_add_def sample_claim_def)

lemma first_allocated_reach: "reach (\<lambda>al. al = allocator_new) (allocator_step (Fin False 0)) first_allocated"
  unfolding first_allocated_def
  by (intro reach_step [OF reach_self] step_allocate) (simp add: allocator_new_def)

lemma second_allocated_reach: "reach (\<lambda>al. al = allocator_new) (allocator_step (Fin False 0)) second_allocated"
  unfolding second_allocated_def
  by (intro reach_step [OF first_allocated_reach] step_allocate)
    (simp add: first_allocated_fields sat_allocation_new_def)

lemma second_allocated_free:
  "terminal_conflicts sample_claim (time_window_new 10 20) first_allocated = None"
  "\<not> over_quota (Fin False 0) sample_claim ''t'' first_allocated"
  by (simp_all add: terminal_conflicts_def over_quota_def first_allocated_fields sample_claim_def
      sat_allocation_new_def tw_overlaps_def time_window_new_def)

section \<open>Properties\<close>

text \<open>C25: no terminal is allocated twice at the same time. In every reachable state of the allocator,
  whatever is allocated, released and preempted, two different allocations of a terminal have windows
  that do not overlap; and both indices list, for every terminal and every tenant, exactly the identifiers of its
  allocations, in order, where a key without an entry has none.\<close>

theorem terminals_exclusive:
  assumes "reach (\<lambda>al. al = allocator_new) (allocator_step z) al"
  shows "(\<forall>a \<in> set (get_all_allocations al). \<forall>b \<in> set (get_all_allocations al). \<forall>t.
       a \<noteq> b \<longrightarrow> rc_optical_terminal (ra_resources a) = Some t \<longrightarrow> rc_optical_terminal (ra_resources b) = Some t \<longrightarrow>
         \<not> tw_overlaps (ra_valid_window a) (ra_valid_window b)) \<and>
     (\<forall>t. (case rla_terminal_index al t of None \<Rightarrow> [] | Some us \<Rightarrow> us) =
       map ra_allocation_id (filter (\<lambda>a. rc_optical_terminal (ra_resources a) = Some t) (get_all_allocations al))) \<and>
     (\<forall>t. (case rla_tenant_index al t of None \<Rightarrow> [] | Some us \<Rightarrow> us) =
       map ra_allocation_id (filter (\<lambda>a. ra_tenant_id a = t) (get_all_allocations al)))"
proof -
  have inv: "allocator_inv al" using allocations.reach_inv [OF assms] .
  then have "terminal_exclusive (rla_allocations al)" by (simp add: allocator_inv_def)
  then have "\<forall>a \<in> set (get_all_allocations al). \<forall>b \<in> set (get_all_allocations al). \<forall>t.
       a \<noteq> b \<longrightarrow> rc_optical_terminal (ra_resources a) = Some t \<longrightarrow> rc_optical_terminal (ra_resources b) = Some t \<longrightarrow>
         \<not> tw_overlaps (ra_valid_window a) (ra_valid_window b)"
    by (fastforce simp: terminal_exclusive_def uses_terminal_def get_all_allocations_def)
  with inv show ?thesis
    by (simp add: allocator_inv_def index_exact_def index_of_def uses_terminal_def get_all_allocations_def)
qed

theorem terminals_exclusive_witness:
  "map ra_allocation_id (get_all_allocations second_allocated) = [1, 2] \<and>
   rla_tenant_index second_allocated ''t'' = Some [1, 2]"
proof -
  have as: "map ra_allocation_id (rla_allocations second_allocated) = [1, 2]"
    "filter (\<lambda>a. ra_tenant_id a = ''t'') (rla_allocations second_allocated) = rla_allocations second_allocated"
    by (simp_all add: second_allocated_def allocator_allocate_def second_allocated_free first_allocated_fields
        sat_allocation_new_def)
  have "(case rla_tenant_index second_allocated ''t'' of None \<Rightarrow> [] | Some us \<Rightarrow> us) = [1, 2]"
    using terminals_exclusive [OF second_allocated_reach, THEN conjunct2, THEN conjunct2, THEN spec, of "''t''"] as
    by (simp only: get_all_allocations_def)
  with as(1) show ?thesis by (simp add: get_all_allocations_def split: option.splits)
qed

text \<open>When an allocation succeeds. In every reachable state it succeeds exactly when the tenant
  stays within its quota of power, if it has one, and no allocation of the claimed terminal overlaps the
  window; then it is added at the end. The power counted is that of the allocations of the tenant, and
  releasing the new allocation gives the allocations back.\<close>

theorem allocator_allocate_iff:
  assumes "reach (\<lambda>al. al = allocator_new) (allocator_step z) al"
    and "u \<notin> ra_allocation_id ` set (rla_allocations al)"
    and "(r, al') = allocator_allocate z u c task tenant p w al"
  shows "(r = Inr u \<longleftrightarrow> \<not> over_quota z c tenant al \<and>
       (\<forall>a \<in> set (rla_allocations al). \<forall>t. rc_optical_terminal c = Some t \<longrightarrow>
          rc_optical_terminal (ra_resources a) = Some t \<longrightarrow> \<not> tw_overlaps (ra_valid_window a) w)) \<and>
     (r = Inr u \<longrightarrow> rla_allocations al' = rla_allocations al @ [sat_allocation_new u task tenant c w p True] \<and>
        fst (allocator_release u al') = Inr () \<and>
        rla_allocations (snd (allocator_release u al')) = rla_allocations al) \<and>
     (r \<noteq> Inr u \<longrightarrow> al' = al) \<and>
     tenant_usage z tenant al =
       (if rla_tenant_index al tenant = None then lit 0
        else f64_sum z (map (\<lambda>a. rc_power_watts (ra_resources a)) (get_tenant_allocations tenant al)))"
proof -
  have inv: "allocator_inv al" using allocations.reach_inv [OF assms(1)] .
  let ?a = "sat_allocation_new u task tenant c w p True"
  have free: "terminal_conflicts c w al = None \<longleftrightarrow> (\<forall>a \<in> set (rla_allocations al). \<forall>t. rc_optical_terminal c = Some t \<longrightarrow>
          rc_optical_terminal (ra_resources a) = Some t \<longrightarrow> \<not> tw_overlaps (ra_valid_window a) w)"
    by (auto simp: terminal_conflicts_scan [OF inv] find_None_iff_set uses_terminal_def split: option.splits)
  have ok: "r = Inr u \<longleftrightarrow> \<not> over_quota z c tenant al \<and> terminal_conflicts c w al = None"
    using assms(3) by (auto simp: allocator_allocate_def split: if_splits option.splits)
  have new: "r = Inr u \<Longrightarrow> rla_allocations al' = rla_allocations al @ [?a]"
    using assms(3) by (auto simp: allocator_allocate_def split: if_splits option.splits)
  have by_id: "allocation_by_id (rla_allocations al @ [?a]) u = Some ?a"
  proof -
    have "List.find (\<lambda>a. ra_allocation_id a = u) (as @ [?a]) = Some ?a"
      if "u \<notin> ra_allocation_id ` set as" for as
      using that by (induction as) (auto simp: sat_allocation_new_def)
    with assms(2) show ?thesis by (simp add: allocation_by_id_def)
  qed
  have "?a \<notin> set (rla_allocations al)" using assms(2) by (force simp: sat_allocation_new_def)
  then have released: "r = Inr u \<Longrightarrow> fst (allocator_release u al') = Inr () \<and>
      rla_allocations (snd (allocator_release u al')) = rla_allocations al"
    using new by_id by (simp add: allocator_release_def remove1_append)
  have "r \<noteq> Inr u \<longrightarrow> al' = al"
    using assms(3) by (auto simp: allocator_allocate_def split: if_splits option.splits)
  with ok free new released tenant_usage_scan [OF inv] show ?thesis by blast
qed

theorem allocator_allocate_iff_witness:
  "fst (allocator_allocate (Fin False 0) 2 sample_claim 8 ''t'' IslMedium (time_window_new 10 20) first_allocated) = Inr 2 \<and>
   fst (allocator_allocate (Fin False 0) 2 sample_claim 8 ''t'' IslMedium (time_window_new 9 20) first_allocated) \<noteq> Inr 2"
proof -
  have fresh: "2 \<notin> ra_allocation_id ` set (rla_allocations first_allocated)"
    by (simp add: first_allocated_fields sat_allocation_new_def)
  have terminal: "rc_optical_terminal sample_claim = Some 5" by (simp add: sample_claim_def)
  note iff = allocator_allocate_iff [OF first_allocated_reach fresh surjective_pairing [symmetric],
      where c = sample_claim and task = 8 and tenant = "''t''" and p = IslMedium]
  show ?thesis
    using iff [where w = "time_window_new 10 20"] iff [where w = "time_window_new 9 20"]
    by (simp add: second_allocated_free [unfolded time_window_new_def] first_allocated_fields terminal
        sat_allocation_new_def tw_overlaps_def time_window_new_def)
qed

text \<open>A critical allocation is never preempted; any other preemption is a release.\<close>

lemma preempt_spec:
  assumes "allocation_by_id (rla_allocations al) u = Some a"
  shows "allocator_preempt u reason al =
    (if ra_preemptible a \<and> ra_priority a \<noteq> IslCritical then allocator_release u al
     else (Inl (NotPreemptible u), al))"
  using assms by (simp add: allocator_preempt_def can_preempt_def)

end
