(* ===== verification/Oisl_Satellite.thy ===== *)
theory Oisl_Satellite
  imports Oisl_Resource
begin

text \<open>
  The resources of a satellite (\<open>oisl/src/resource/manager.rs\<close>) and the scheduler over the satellites
  (\<open>oisl/src/resource/scheduler.rs\<close>), which keeps an allocator and the satellites.

  The node of a satellite makes an identifier of its own for each allocation, which the scheduler
  does not record: what it has handed to a satellite it never gives back.
\<close>

section \<open>Definitions\<close>

subsection \<open>The node of a satellite\<close>

record 'v terminal_capability =
  tcp_terminal_id :: terminal_id
  tcp_vendor :: 'v
  tcp_model :: string
  tcp_max_data_rate :: data_rate
  tcp_max_pointing_accuracy_rad :: f64
  tcp_power_consumption_watts :: f64
  tcp_available :: bool

record rf_capability =
  rfc_terminal_id :: terminal_id
  rfc_frequency_bands :: "u64 list"
  rfc_max_data_rate :: data_rate
  rfc_power_consumption_watts :: f64

record sensor_capability =
  snc_sensor_type :: sensor_type
  snc_resolution :: string
  snc_swath_width_km :: f64
  snc_power_consumption_watts :: f64

record compute_resources =
  cpr_cpu_cores :: u32
  cpr_memory_gb :: f64
  cpr_gpu_available :: bool
  cpr_allocated_cpu :: f64
  cpr_allocated_memory :: f64

definition compute_default :: compute_resources where
  "compute_default = \<lparr>cpr_cpu_cores = 4, cpr_memory_gb = lit 16, cpr_gpu_available = False,
     cpr_allocated_cpu = lit 0, cpr_allocated_memory = lit 0\<rparr>"

record storage_resources =
  str_total_bytes :: u64
  str_used_bytes :: u64
  str_available_bytes :: u64

definition storage_default :: storage_resources where
  "storage_default = \<lparr>str_total_bytes = 1000000000000, str_used_bytes = 0, str_available_bytes = 1000000000000\<rparr>"

record power_budget =
  pwb_total_watts :: f64
  pwb_allocated_watts :: f64
  pwb_available_watts :: f64
  pwb_battery_capacity_wh :: f64
  pwb_battery_charge_percent :: f64

definition power_default :: power_budget where
  "power_default = \<lparr>pwb_total_watts = lit 500, pwb_allocated_watts = lit 0, pwb_available_watts = lit 500,
     pwb_battery_capacity_wh = lit 2000, pwb_battery_charge_percent = lit 100\<rparr>"

record thermal_state =
  tst_current_temperature_c :: f64
  tst_max_temperature_c :: f64
  tst_thermal_margin_c :: f64

definition thermal_default :: thermal_state where
  "thermal_default = \<lparr>tst_current_temperature_c = lit 20, tst_max_temperature_c = lit 50,
     tst_thermal_margin_c = lit 30\<rparr>"

record health_metrics =
  hmt_overall_health :: f64
  hmt_last_check :: datetime
  hmt_component_health :: "string \<rightharpoonup> f64"

definition health_default :: "datetime \<Rightarrow> health_metrics" where
  "health_default now = \<lparr>hmt_overall_health = lit 1, hmt_last_check = now, hmt_component_health = Map.empty\<rparr>"

record degradation_forecast =
  dgf_component :: string
  dgf_predicted_degradation_time :: datetime
  dgf_confidence :: f64
  dgf_recommended_mitigation :: string

record 'v satellite_node =
  sno_satellite_id :: string
  sno_optical_terminals :: "terminal_id \<rightharpoonup> 'v terminal_capability"
  sno_rf_terminals :: "terminal_id \<rightharpoonup> rf_capability"
  sno_sensors :: "string \<rightharpoonup> sensor_capability"
  sno_compute :: compute_resources
  sno_storage :: storage_resources
  sno_power_budget :: power_budget
  sno_thermal_state :: thermal_state
  sno_current_allocations :: "sat_allocation list"
  sno_pending_tasks :: "task_id list"
  sno_health_metrics :: health_metrics
  sno_degradation_predictions :: "degradation_forecast list"

definition satellite_node_new :: "datetime \<Rightarrow> string \<Rightarrow> 'v satellite_node" where
  "satellite_node_new now s =
     \<lparr>sno_satellite_id = s, sno_optical_terminals = Map.empty, sno_rf_terminals = Map.empty,
      sno_sensors = Map.empty, sno_compute = compute_default, sno_storage = storage_default,
      sno_power_budget = power_default, sno_thermal_state = thermal_default, sno_current_allocations = [],
      sno_pending_tasks = [], sno_health_metrics = health_default now, sno_degradation_predictions = []\<rparr>"

definition add_optical_terminal :: "'v terminal_capability \<Rightarrow> 'v satellite_node \<Rightarrow> 'v satellite_node" where
  "add_optical_terminal c n =
     n\<lparr>sno_optical_terminals := (sno_optical_terminals n)(tcp_terminal_id c \<mapsto> c)\<rparr>"

definition can_satisfy :: "resource_claim \<Rightarrow> 'v satellite_node \<Rightarrow> bool" where
  "can_satisfy c n \<longleftrightarrow>
     \<not> flt (pwb_available_watts (sno_power_budget n)) (rc_power_watts c) \<and>
     (case rc_optical_terminal c of
        None \<Rightarrow> True
      | Some t \<Rightarrow> (case sno_optical_terminals n t of None \<Rightarrow> False | Some cap \<Rightarrow> tcp_available cap)) \<and>
     (case rc_compute_cycles c of
        None \<Rightarrow> True
      | Some k \<Rightarrow> k \<le> ucast (cpr_cpu_cores (sno_compute n)) * 1000000000) \<and>
     (case rc_storage_bytes c of
        None \<Rightarrow> True
      | Some b \<Rightarrow> b \<le> str_available_bytes (sno_storage n))"

definition cycles_cpu :: "u64 \<Rightarrow> f64" where
  "cycles_cpu k = fdiv (f64_of_nat (unat k)) (lit 1000000000)"

text \<open>The resources that a claim takes from a node, and that its release gives back.\<close>

definition take_power :: "f64 \<Rightarrow> power_budget \<Rightarrow> power_budget" where
  "take_power w p = p\<lparr>pwb_allocated_watts := fadd (pwb_allocated_watts p) w,
                      pwb_available_watts := fsub (pwb_available_watts p) w\<rparr>"

definition give_power :: "f64 \<Rightarrow> power_budget \<Rightarrow> power_budget" where
  "give_power w p = p\<lparr>pwb_allocated_watts := fsub (pwb_allocated_watts p) w,
                      pwb_available_watts := fadd (pwb_available_watts p) w\<rparr>"

definition take_storage :: "u64 option \<Rightarrow> storage_resources \<Rightarrow> storage_resources" where
  "take_storage b s = (case b of None \<Rightarrow> s
     | Some k \<Rightarrow> s\<lparr>str_used_bytes := str_used_bytes s + k, str_available_bytes := str_available_bytes s - k\<rparr>)"

definition give_storage :: "u64 option \<Rightarrow> storage_resources \<Rightarrow> storage_resources" where
  "give_storage b s = (case b of None \<Rightarrow> s
     | Some k \<Rightarrow> s\<lparr>str_used_bytes := str_used_bytes s - k, str_available_bytes := str_available_bytes s + k\<rparr>)"

definition take_compute :: "u64 option \<Rightarrow> compute_resources \<Rightarrow> compute_resources" where
  "take_compute k c = (case k of None \<Rightarrow> c
     | Some n \<Rightarrow> c\<lparr>cpr_allocated_cpu := fadd (cpr_allocated_cpu c) (cycles_cpu n)\<rparr>)"

definition give_compute :: "u64 option \<Rightarrow> compute_resources \<Rightarrow> compute_resources" where
  "give_compute k c = (case k of None \<Rightarrow> c
     | Some n \<Rightarrow> c\<lparr>cpr_allocated_cpu := fsub (cpr_allocated_cpu c) (cycles_cpu n)\<rparr>)"

text \<open>\<open>u\<close> is the identifier that the node makes; \<open>t1\<close> and \<open>t2\<close> are the readings of the clock.\<close>

definition node_allocate :: "chrono \<Rightarrow> uuid \<Rightarrow> datetime \<Rightarrow> datetime \<Rightarrow> resource_claim \<Rightarrow> task_id \<Rightarrow> string \<Rightarrow>
    'v satellite_node \<Rightarrow> (sat_allocation \<times> 'v satellite_node) option" where
  "node_allocate ch u t1 t2 c task tenant n =
     map_option (\<lambda>e.
       let a = sat_allocation_new u task tenant c (time_window_new t1 e) IslMedium True
       in (a, n\<lparr>sno_power_budget := take_power (rc_power_watts c) (sno_power_budget n),
                sno_compute := take_compute (rc_compute_cycles c) (sno_compute n),
                sno_storage := take_storage (rc_storage_bytes c) (sno_storage n),
                sno_current_allocations := sno_current_allocations n @ [a]\<rparr>))
       (date_add ch t2 (duration_seconds 3600))"

definition node_release :: "uuid \<Rightarrow> 'v satellite_node \<Rightarrow> 'v satellite_node" where
  "node_release u n =
     (case allocation_by_id (sno_current_allocations n) u of
        None \<Rightarrow> n
      | Some a \<Rightarrow>
          n\<lparr>sno_current_allocations := remove1 a (sno_current_allocations n),
            sno_power_budget := give_power (rc_power_watts (ra_resources a)) (sno_power_budget n),
            sno_compute := give_compute (rc_compute_cycles (ra_resources a)) (sno_compute n),
            sno_storage := give_storage (rc_storage_bytes (ra_resources a)) (sno_storage n)\<rparr>)"

text \<open>Sums of \<open>u64\<close> wrap; the difference saturates at 0.\<close>

definition available_bandwidth :: "terminal_id list \<Rightarrow> 'v satellite_node \<Rightarrow> data_rate" where
  "available_bandwidth ts n =
     (let capacity = sum_list (map (\<lambda>c. bits_per_second (tcp_max_data_rate c))
            (filter tcp_available (map_values (sno_optical_terminals n) ts)));
          allocated = sum_list (map bits_per_second
            (List.map_filter (\<lambda>a. rc_bandwidth (ra_resources a)) (sno_current_allocations n)))
      in DataRate (if allocated \<le> capacity then capacity - allocated else 0))"

definition add_pending_task :: "task_id \<Rightarrow> 'v satellite_node \<Rightarrow> 'v satellite_node" where
  "add_pending_task t n = n\<lparr>sno_pending_tasks := sno_pending_tasks n @ [t]\<rparr>"

definition pop_pending_task :: "'v satellite_node \<Rightarrow> task_id option \<times> 'v satellite_node" where
  "pop_pending_task n =
     (case sno_pending_tasks n of [] \<Rightarrow> (None, n) | t # ts \<Rightarrow> (Some t, n\<lparr>sno_pending_tasks := ts\<rparr>))"

subsection \<open>The scheduler\<close>

datatype node_schedule_error =
    NoAvailableNode
  | AllocationFailed string
  | PreemptionFailed string
  | SatelliteNotFound string

record 'v satellite_scheduler =
  ssc_satellites :: "string \<rightharpoonup> 'v satellite_node"
  ssc_allocator :: resource_allocator

definition satellite_scheduler_new :: "'v satellite_scheduler" where
  "satellite_scheduler_new = \<lparr>ssc_satellites = Map.empty, ssc_allocator = allocator_new\<rparr>"

definition add_satellite :: "'v satellite_node \<Rightarrow> 'v satellite_scheduler \<Rightarrow> 'v satellite_scheduler" where
  "add_satellite n s = s\<lparr>ssc_satellites := (ssc_satellites s)(sno_satellite_id n \<mapsto> n)\<rparr>"

text \<open>\<open>min_by\<close> keeps the first of several least elements; values that do not compare are equal. The
  comparison is turned round, so the satellite with most power left is taken.\<close>

fun most_power :: "'v satellite_node \<Rightarrow> 'v satellite_node list \<Rightarrow> 'v satellite_node" where
  "most_power n [] = n"
| "most_power n (m # ms) =
     most_power (if flt (pwb_available_watts (sno_power_budget n)) (pwb_available_watts (sno_power_budget m))
                 then m else n) ms"

definition find_best_satellite :: "string list \<Rightarrow> resource_claim \<Rightarrow> 'v satellite_scheduler \<Rightarrow>
    'v satellite_node option" where
  "find_best_satellite ks c s =
     (case filter (can_satisfy c) (map_values (ssc_satellites s) ks) of
        [] \<Rightarrow> None
      | n # ns \<Rightarrow> Some (most_power n ns))"

text \<open>The values an allocation reads: fresh identifiers of the task, the allocation and the allocation of
  the node, and four readings of the clock.\<close>

record alloc_env =
  aev_task :: uuid
  aev_allocation :: uuid
  aev_node_allocation :: uuid
  aev_clock :: "nat \<Rightarrow> datetime"

definition satellite_allocate :: "f64 \<Rightarrow> chrono \<Rightarrow> string list \<Rightarrow> alloc_env \<Rightarrow> resource_claim \<Rightarrow>
    'v satellite_scheduler \<Rightarrow> ((node_schedule_error + uuid) \<times> 'v satellite_scheduler) option" where
  "satellite_allocate z ch ks env c s =
     (case find_best_satellite ks c s of
        None \<Rightarrow> Some (Inl NoAvailableNode, s)
      | Some n \<Rightarrow>
          Option.bind (date_add ch (aev_clock env 1) (rc_duration c)) (\<lambda>e.
          case allocator_allocate z (aev_allocation env) c (aev_task env) ''default'' IslMedium
                 (time_window_new (aev_clock env 0) e) (ssc_allocator s) of
            (Inl err, al) \<Rightarrow> Some (Inl (AllocationFailed (allocation_error_text err)), s\<lparr>ssc_allocator := al\<rparr>)
          | (Inr u, al) \<Rightarrow>
              (case ssc_satellites s (sno_satellite_id n) of
                 None \<Rightarrow> Some (Inr u, s\<lparr>ssc_allocator := al\<rparr>)
               | Some m \<Rightarrow>
                   map_option (\<lambda>(a, m'). (Inr u, s\<lparr>ssc_allocator := al,
                       ssc_satellites := (ssc_satellites s)(sno_satellite_id n \<mapsto> m')\<rparr>))
                     (node_allocate ch (aev_node_allocation env) (aev_clock env 2) (aev_clock env 3) c
                        (aev_task env) ''default'' m))))"

definition satellite_preempt :: "uuid \<Rightarrow> preemption_reason \<Rightarrow> 'v satellite_scheduler \<Rightarrow>
    (node_schedule_error + unit) \<times> 'v satellite_scheduler" where
  "satellite_preempt u reason s =
     (case allocator_preempt u reason (ssc_allocator s) of
        (Inl err, al) \<Rightarrow> (Inl (PreemptionFailed (allocation_error_text err)), s\<lparr>ssc_allocator := al\<rparr>)
      | (Inr _, al) \<Rightarrow>
          (Inr (), s\<lparr>ssc_allocator := al,
                     ssc_satellites := (\<lambda>k. map_option (node_release u) (ssc_satellites s k))\<rparr>))"

record rebalance_report =
  rbr_allocations_moved :: nat
  rbr_failed_migrations :: nat
  rbr_timestamp :: datetime

text \<open>The allocations that may leave their satellite, in the iteration order \<open>ks\<close> of the satellites.\<close>

definition power_overloaded :: "'v satellite_node \<Rightarrow> bool" where
  "power_overloaded n \<longleftrightarrow> flt (lit (8 / 10))
     (fdiv (pwb_allocated_watts (sno_power_budget n)) (pwb_total_watts (sno_power_budget n)))"

definition allocations_to_move :: "string list \<Rightarrow> 'v satellite_scheduler \<Rightarrow>
    (string \<times> sat_allocation) list" where
  "allocations_to_move ks s =
     concat (List.map_filter (\<lambda>k. map_option (\<lambda>n.
       if power_overloaded n then map (Pair k) (filter can_preempt (sno_current_allocations n)) else [])
       (ssc_satellites s k)) ks)"

text \<open>One turn of the second loop; \<open>ids\<close> are the fresh identifiers of the task and the allocation.\<close>

definition migrate :: "f64 \<Rightarrow> string list \<Rightarrow> uuid \<times> uuid \<Rightarrow> string \<times> sat_allocation \<Rightarrow>
    nat \<times> nat \<times> 'v satellite_scheduler \<Rightarrow> nat \<times> nat \<times> 'v satellite_scheduler" where
  "migrate z ks ids item st =
     (let (moved, failed, s) = st; (source, a) = item in
      case find_best_satellite ks (ra_resources a) s of
        None \<Rightarrow> st
      | Some n \<Rightarrow>
          if sno_satellite_id n = source then st
          else
            (let al = snd (allocator_release (ra_allocation_id a) (ssc_allocator s));
                 (r, al') = allocator_allocate z (snd ids) (ra_resources a) (fst ids) (ra_tenant_id a)
                              (ra_priority a) (ra_valid_window a) al;
                 s' = s\<lparr>ssc_allocator := al'\<rparr>
             in case r of Inr _ \<Rightarrow> (Suc moved, failed, s') | Inl _ \<Rightarrow> (moved, Suc failed, s')))"

definition rebalance :: "f64 \<Rightarrow> string list \<Rightarrow> (nat \<Rightarrow> uuid \<times> uuid) \<Rightarrow> datetime \<Rightarrow> 'v satellite_scheduler \<Rightarrow>
    rebalance_report \<times> 'v satellite_scheduler" where
  "rebalance z ks ids now s =
     (let (moved, failed, s') = fold (\<lambda>(i, item). migrate z ks (ids i) item)
            (enumerate 0 (allocations_to_move ks s)) (0, 0, s)
      in (\<lparr>rbr_allocations_moved = moved, rbr_failed_migrations = failed, rbr_timestamp = now\<rparr>, s'))"

record satellite_availability =
  sav_satellite_id :: string
  sav_available_power :: f64
  sav_available_bandwidth :: data_rate
  sav_available_terminals :: "terminal_id list"
  sav_confidence :: confidence_score

record availability_forecast =
  avc_window :: time_window
  avc_satellite_availability :: "string \<rightharpoonup> satellite_availability"

text \<open>\<open>ts k\<close> is the iteration order of the terminals of the satellite \<open>k\<close>.\<close>

definition forecast_availability :: "(string \<Rightarrow> terminal_id list) \<Rightarrow> time_window \<Rightarrow> 'v satellite_scheduler \<Rightarrow>
    availability_forecast" where
  "forecast_availability ts w s =
     \<lparr>avc_window = w,
      avc_satellite_availability = (\<lambda>k. map_option (\<lambda>n.
        \<lparr>sav_satellite_id = k, sav_available_power = pwb_available_watts (sno_power_budget n),
         sav_available_bandwidth = available_bandwidth (ts k) n,
         sav_available_terminals = map tcp_terminal_id (filter tcp_available (map_values (sno_optical_terminals n) (ts k))),
         sav_confidence = confidence_new (lit (9 / 10))\<rparr>) (ssc_satellites s k))\<rparr>"

subsection \<open>Reachable states\<close>

inductive node_step :: "chrono \<Rightarrow> 'v satellite_node \<Rightarrow> 'v satellite_node \<Rightarrow> bool" for ch :: chrono where
  step_terminal: "node_step ch n (add_optical_terminal c n)"
| step_take: "u \<notin> ra_allocation_id ` set (sno_current_allocations n) \<Longrightarrow>
     node_allocate ch u t1 t2 c task tenant n = Some (a, n') \<Longrightarrow> node_step ch n n'"
| step_give: "node_step ch n (node_release u n)"
| step_push: "node_step ch n (add_pending_task t n)"
| step_pop: "node_step ch n (snd (pop_pending_task n))"

definition claimed_bytes :: "sat_allocation \<Rightarrow> u64" where
  "claimed_bytes a = (case rc_storage_bytes (ra_resources a) of None \<Rightarrow> 0 | Some b \<Rightarrow> b)"

text \<open>The storage in use is what the current allocations claim, and the rest is available.\<close>

definition node_ok :: "'v satellite_node \<Rightarrow> bool" where
  "node_ok n \<longleftrightarrow>
     str_used_bytes (sno_storage n) = sum_list (map claimed_bytes (sno_current_allocations n)) \<and>
     str_used_bytes (sno_storage n) + str_available_bytes (sno_storage n) = str_total_bytes (sno_storage n) \<and>
     str_total_bytes (sno_storage n) = 1000000000000"

text \<open>The identifiers in use: those of the allocator and those of the nodes.\<close>

definition allocator_ids :: "'v satellite_scheduler \<Rightarrow> uuid set" where
  "allocator_ids s = ra_allocation_id ` set (rla_allocations (ssc_allocator s))"

definition node_ids :: "'v satellite_scheduler \<Rightarrow> uuid set" where
  "node_ids s = {ra_allocation_id a |a n. n \<in> ran (ssc_satellites s) \<and> a \<in> set (sno_current_allocations n)}"

inductive satellites_step :: "f64 \<Rightarrow> chrono \<Rightarrow> 'v satellite_scheduler \<Rightarrow> 'v satellite_scheduler \<Rightarrow> bool"
  for z :: f64 and ch :: chrono where
  step_add: "sno_current_allocations n = [] \<Longrightarrow> satellites_step z ch s (add_satellite n s)"
| step_satellite_allocate: "satellite_allocate z ch ks env c s = Some (r, s') \<Longrightarrow>
     aev_allocation env \<notin> allocator_ids s \<union> node_ids s \<Longrightarrow>
     aev_node_allocation env \<notin> insert (aev_allocation env) (allocator_ids s) \<Longrightarrow>
     satellites_step z ch s s'"
| step_satellite_preempt: "satellites_step z ch s (snd (satellite_preempt u reason s))"
| step_rebalance: "(\<And>i. snd (ids i) \<notin> allocator_ids s \<union> node_ids s) \<Longrightarrow>
     satellites_step z ch s (snd (rebalance z ks ids now s))"

definition ids_apart :: "'v satellite_scheduler \<Rightarrow> bool" where
  "ids_apart s \<longleftrightarrow> allocator_ids s \<inter> node_ids s = {}"

subsection \<open>Inputs of the witnesses\<close>

definition one_satellite :: "unit satellite_scheduler" where
  "one_satellite = add_satellite (satellite_node_new 0 ''sat'') satellite_scheduler_new"

definition power_claim :: resource_claim where
  "power_claim = \<lparr>rc_optical_terminal = None, rc_bandwidth = None, rc_duration = duration_seconds 60,
     rc_power_watts = Fin False 100, rc_storage_bytes = Some 5, rc_compute_cycles = None\<rparr>"

definition all_instants :: chrono where
  "all_instants = \<lparr>date_in_range = (\<lambda>_. True), duration_in_range = (\<lambda>_. True)\<rparr>"

definition sample_alloc_env :: alloc_env where
  "sample_alloc_env = \<lparr>aev_task = 1, aev_allocation = 2, aev_node_allocation = 3, aev_clock = (\<lambda>_. 0)\<rparr>"

section \<open>Lemmas\<close>

subsection \<open>Nodes\<close>

lemma sum_list_remove1:
  fixes f :: "'a \<Rightarrow> u64"
  shows "a \<in> set as \<Longrightarrow> sum_list (map f (remove1 a as)) = sum_list (map f as) - f a"
  by (induction as) auto

lemma node_release_None: "u \<notin> ra_allocation_id ` set (sno_current_allocations n) \<Longrightarrow> node_release u n = n"
  by (auto simp: node_release_def dest: allocation_by_id_Some split: option.splits)

lemma node_ok_allocate:
  "node_allocate ch u t1 t2 c task tenant n = Some (a, n') \<Longrightarrow> node_ok n \<Longrightarrow> node_ok n'"
  by (auto simp: node_allocate_def node_ok_def Let_def take_storage_def claimed_bytes_def
      sat_allocation_new_def split: option.splits)

lemma node_ok_release:
  assumes "node_ok n"
  shows "node_ok (node_release u n)"
proof (cases "allocation_by_id (sno_current_allocations n) u")
  case None
  with assms show ?thesis by (simp add: node_release_def)
next
  case (Some a)
  have mem: "a \<in> set (sno_current_allocations n)" using allocation_by_id_Some [OF Some] by blast
  have bytes: "sum_list (map claimed_bytes (remove1 a (sno_current_allocations n))) =
      str_used_bytes (sno_storage n) - claimed_bytes a"
    using assms sum_list_remove1 [OF mem, of claimed_bytes] by (simp add: node_ok_def)
  show ?thesis
    using assms bytes
    by (cases "rc_storage_bytes (ra_resources a)")
      (auto simp: node_release_def Some node_ok_def give_storage_def claimed_bytes_def)
qed

lemma node_ok_step: "node_ok n \<Longrightarrow> node_step ch n n' \<Longrightarrow> node_ok n'"
  by (erule node_step.cases)
    (auto simp: node_ok_release node_ok_allocate,
     auto simp: node_ok_def add_optical_terminal_def add_pending_task_def pop_pending_task_def split: list.splits)

interpretation nodes: invariant_system "\<lambda>n. \<exists>now s. n = satellite_node_new now s" "node_step ch" node_ok for ch
  using node_ok_step by unfold_locales (auto simp: satellite_node_new_def node_ok_def storage_default_def)

subsection \<open>The choice of a satellite\<close>

lemma most_power_mem: "most_power n ns \<in> insert n (set ns)"
proof (induction ns arbitrary: n)
  case (Cons m ms)
  define b where "b = (if flt (pwb_available_watts (sno_power_budget n)) (pwb_available_watts (sno_power_budget m))
    then m else n)"
  have "most_power n (m # ms) = most_power b ms" by (simp add: b_def)
  moreover have "b = m \<or> b = n" by (simp add: b_def)
  ultimately show ?case using Cons.IH [of b] by auto
qed simp

lemma most_power_best:
  assumes "\<forall>m \<in> insert n (set ns). pwb_available_watts (sno_power_budget m) \<noteq> NaN" "m \<in> insert n (set ns)"
  shows "\<not> flt (pwb_available_watts (sno_power_budget (most_power n ns))) (pwb_available_watts (sno_power_budget m))"
  using assms
proof (induction ns arbitrary: n m)
  case Nil
  then show ?case using flt_asym by auto
next
  case (Cons k ns)
  let ?w = "\<lambda>m. pwb_available_watts (sno_power_budget m)"
  define b where "b = (if flt (?w n) (?w k) then k else n)"
  have num: "\<forall>m \<in> insert b (set ns). ?w m \<noteq> NaN" using Cons.prems(1) by (auto simp: b_def)
  have best: "\<not> flt (?w (most_power b ns)) (?w l)" if "l \<in> insert b (set ns)" for l
    using Cons.IH [OF num that] .
  have step: "most_power n (k # ns) = most_power b ns" by (simp add: b_def)
  have "\<not> flt (?w b) (?w m)" if "m \<in> {n, k}"
    using that flt_asym by (auto simp: b_def)
  moreover have "?w b \<noteq> NaN" using num by simp
  ultimately have "\<not> flt (?w (most_power b ns)) (?w m)" if "m \<in> {n, k}"
    using that best [of b] by (intro not_flt_trans [of "?w b" "?w (most_power b ns)" "?w m"]) simp_all
  then show ?case
    using best [of m] Cons.prems(2) unfolding step by auto
qed

lemma find_best_mem:
  assumes "find_best_satellite ks c s = Some n"
  shows "can_satisfy c n" "n \<in> ran (ssc_satellites s)"
proof -
  obtain m ms where ms: "filter (can_satisfy c) (map_values (ssc_satellites s) ks) = m # ms" "n = most_power m ms"
    using assms by (auto simp: find_best_satellite_def split: list.splits)
  then have "n \<in> set (filter (can_satisfy c) (map_values (ssc_satellites s) ks))"
    using most_power_mem [of m ms] by simp
  then show "can_satisfy c n" "n \<in> ran (ssc_satellites s)" by (auto simp: set_map_values ran_def)
qed

subsection \<open>Migration\<close>

lemma allocation_by_id_None:
  assumes "u \<notin> ra_allocation_id ` set as"
  shows "allocation_by_id as u = None"
proof (rule ccontr)
  assume "allocation_by_id as u \<noteq> None"
  then obtain a where "allocation_by_id as u = Some a" by blast
  with assms show False using allocation_by_id_Some by blast
qed

lemma allocator_release_missing:
  "u \<notin> ra_allocation_id ` set (rla_allocations al) \<Longrightarrow> allocator_release u al = (Inl (AllocationMissing u), al)"
  by (simp add: allocator_release_def allocation_by_id_None)

lemma allocator_allocate_result:
  "allocator_allocate z u c task tenant p w al = (r, al') \<Longrightarrow>
     (case r of Inl _ \<Rightarrow> al' = al
      | Inr v \<Rightarrow> v = u \<and> rla_allocations al' = rla_allocations al @ [sat_allocation_new u task tenant c w p True])"
  by (auto simp: allocator_allocate_def split: if_splits option.splits)

lemma migrate_satellites: "ssc_satellites (snd (snd (migrate z ks ids item st))) = ssc_satellites (snd (snd st))"
  by (auto simp: migrate_def Let_def split: prod.split option.split sum.split)

lemma migrate_grows:
  assumes "ra_allocation_id (snd item) \<notin> allocator_ids (snd (snd st))"
  shows "\<exists>new. rla_allocations (ssc_allocator (snd (snd (migrate z ks ids item st)))) =
      rla_allocations (ssc_allocator (snd (snd st))) @ new \<and>
    fst (migrate z ks ids item st) = fst st + length new \<and> ra_allocation_id ` set new \<subseteq> {snd ids}"
proof -
  obtain moved failed s source a where st: "st = (moved, failed, s)" "item = (source, a)" by (metis surj_pair)
  have rel: "allocator_release (ra_allocation_id a) (ssc_allocator s) =
      (Inl (AllocationMissing (ra_allocation_id a)), ssc_allocator s)"
    using assms st by (intro allocator_release_missing) (simp add: allocator_ids_def)
  obtain r al' where alloc: "allocator_allocate z (snd ids) (ra_resources a) (fst ids) (ra_tenant_id a)
      (ra_priority a) (ra_valid_window a) (ssc_allocator s) = (r, al')" by fastforce
  note res = allocator_allocate_result [OF alloc]
  show ?thesis
    using res by (cases r)
      (auto simp: st migrate_def rel alloc Let_def sat_allocation_new_def split: option.split)
qed

text \<open>The loop of the rebalancing, for candidates that the allocator does not know.\<close>

lemma migrations_grow:
  assumes "\<forall>(i, item) \<in> set items. ra_allocation_id (snd item) \<notin> allocator_ids s0 \<and>
      ra_allocation_id (snd item) \<notin> range (\<lambda>j. snd (ids j))"
    and "allocator_ids (snd (snd st)) \<subseteq> allocator_ids s0 \<union> range (\<lambda>i. snd (ids i))"
  shows "let st' = fold (\<lambda>(i, item). migrate z ks (ids i) item) items st in
    ssc_satellites (snd (snd st')) = ssc_satellites (snd (snd st)) \<and>
    allocator_ids (snd (snd st')) \<subseteq> allocator_ids s0 \<union> range (\<lambda>i. snd (ids i)) \<and>
    (\<exists>new. rla_allocations (ssc_allocator (snd (snd st'))) = rla_allocations (ssc_allocator (snd (snd st))) @ new \<and>
       fst st' = fst st + length new)"
  using assms
proof (induction items arbitrary: st)
  case Nil
  then show ?case by (simp add: Let_def)
next
  case (Cons x items)
  obtain i item where x: "x = (i, item)" by (cases x)
  let ?st = "migrate z ks (ids i) item st"
  have "ra_allocation_id (snd item) \<notin> allocator_ids (snd (snd st))" using Cons.prems(1) subsetD [OF Cons.prems(2)] x by fastforce
  then obtain new where new: "rla_allocations (ssc_allocator (snd (snd ?st))) = rla_allocations (ssc_allocator (snd (snd st))) @ new"
      "fst ?st = fst st + length new" "ra_allocation_id ` set new \<subseteq> {snd (ids i)}"
    using migrate_grows by blast
  have "allocator_ids (snd (snd ?st)) = allocator_ids (snd (snd st)) \<union> ra_allocation_id ` set new"
    by (simp add: allocator_ids_def new(1) image_Un)
  then have "allocator_ids (snd (snd ?st)) \<subseteq> allocator_ids s0 \<union> range (\<lambda>i. snd (ids i))"
    using Cons.prems(2) new(3) by blast
  from Cons.IH [OF _ this] Cons.prems(1) show ?case
    using new(1,2) by (auto simp: x Let_def migrate_satellites)
qed

subsection \<open>Identifiers\<close>

lemma node_idsI: "ssc_satellites s k = Some n \<Longrightarrow> a \<in> set (sno_current_allocations n) \<Longrightarrow> ra_allocation_id a \<in> node_ids s"
  by (auto simp: node_ids_def ran_def)

lemma node_idsE:
  assumes "u \<in> node_ids s"
  obtains k n a where "ssc_satellites s k = Some n" "a \<in> set (sno_current_allocations n)" "u = ra_allocation_id a"
  using assms by (auto simp: node_ids_def ran_def)

lemma ids_apart_allocate:
  assumes "satellite_allocate z ch ks env c s = Some (r, s')" "ids_apart s"
    and "aev_allocation env \<notin> allocator_ids s \<union> node_ids s"
    and "aev_node_allocation env \<notin> insert (aev_allocation env) (allocator_ids s)"
  shows "ids_apart s'"
proof (cases "find_best_satellite ks c s")
  case None
  with assms show ?thesis by (simp add: satellite_allocate_def)
next
  case (Some n)
  obtain e where e: "date_add ch (aev_clock env 1) (rc_duration c) = Some e"
    using assms(1) Some by (auto simp: satellite_allocate_def bind_eq_Some_conv)
  obtain q al where alloc: "allocator_allocate z (aev_allocation env) c (aev_task env) ''default'' IslMedium
      (time_window_new (aev_clock env 0) e) (ssc_allocator s) = (q, al)" by fastforce
  note res = allocator_allocate_result [OF alloc]
  have al_ids: "ra_allocation_id ` set (rla_allocations al) \<subseteq> insert (aev_allocation env) (allocator_ids s)"
    using res by (cases q) (auto simp: allocator_ids_def sat_allocation_new_def)
  have run: "(case q of Inl err \<Rightarrow> Some (Inl (AllocationFailed (allocation_error_text err)), s\<lparr>ssc_allocator := al\<rparr>)
     | Inr u \<Rightarrow> (case ssc_satellites s (sno_satellite_id n) of
         None \<Rightarrow> Some (Inr u, s\<lparr>ssc_allocator := al\<rparr>)
       | Some m \<Rightarrow> map_option (\<lambda>(a, m'). (Inr u, s\<lparr>ssc_allocator := al,
             ssc_satellites := (ssc_satellites s)(sno_satellite_id n \<mapsto> m')\<rparr>))
           (node_allocate ch (aev_node_allocation env) (aev_clock env 2) (aev_clock env 3) c
              (aev_task env) ''default'' m))) = Some (r, s')"
    using assms(1) by (simp only: satellite_allocate_def Some e alloc option.case bind.simps prod.case)
  have new_al: "ssc_allocator s' = al" using run by (auto split: sum.splits option.splits)
  have nodes: "node_ids s' \<subseteq> insert (aev_node_allocation env) (node_ids s)"
  proof
    fix u assume "u \<in> node_ids s'"
    then obtain k m' a where m': "ssc_satellites s' k = Some m'" "a \<in> set (sno_current_allocations m')" "u = ra_allocation_id a"
      by (rule node_idsE)
    show "u \<in> insert (aev_node_allocation env) (node_ids s)"
    proof (cases "ssc_satellites s' k = ssc_satellites s k")
      case True
      with m' show ?thesis by (auto intro: node_idsI)
    next
      case False
      then obtain m a' where "ssc_satellites s k = Some m"
          "node_allocate ch (aev_node_allocation env) (aev_clock env 2) (aev_clock env 3) c (aev_task env) ''default'' m = Some (a', m')"
        using run m'(1) by (auto split: sum.splits option.splits if_splits)
      moreover from this(2) have "sno_current_allocations m' = sno_current_allocations m @ [a']"
          "ra_allocation_id a' = aev_node_allocation env"
        by (auto simp: node_allocate_def Let_def sat_allocation_new_def)
      ultimately show ?thesis using m' by (auto intro: node_idsI)
    qed
  qed
  have "allocator_ids s' \<subseteq> insert (aev_allocation env) (allocator_ids s)"
    using al_ids by (simp add: allocator_ids_def new_al)
  with nodes assms(2-4) show ?thesis unfolding ids_apart_def by blast
qed

lemma preempt_ids: "allocator_ids (snd (satellite_preempt u reason s)) \<subseteq> allocator_ids s"
proof -
  have "set (rla_allocations (snd (allocator_preempt u reason al))) \<subseteq> set (rla_allocations al)" for al
    by (auto simp: allocator_preempt_def allocator_release_def split: option.splits dest: subsetD [OF set_remove1_subset])
  then show ?thesis
    by (auto simp: allocator_ids_def satellite_preempt_def split: prod.splits sum.splits) (metis imageI snd_conv subsetD)+
qed

lemma ids_apart_preempt:
  assumes "ids_apart s"
  shows "ids_apart (snd (satellite_preempt u reason s)) \<and>
    (u \<in> allocator_ids s \<longrightarrow> ssc_satellites (snd (satellite_preempt u reason s)) = ssc_satellites s)"
proof -
  let ?s = "snd (satellite_preempt u reason s)"
  have sub: "set (sno_current_allocations (node_release u n)) \<subseteq> set (sno_current_allocations n)" for n :: "'a satellite_node"
    by (auto simp: node_release_def split: option.splits dest: subsetD [OF set_remove1_subset])
  have "node_ids ?s \<subseteq> node_ids s"
  proof
    fix v assume "v \<in> node_ids ?s"
    then obtain k n a where n: "ssc_satellites ?s k = Some n" "a \<in> set (sno_current_allocations n)" "v = ra_allocation_id a"
      by (rule node_idsE)
    have "ssc_satellites ?s = ssc_satellites s \<or> ssc_satellites ?s = (\<lambda>k. map_option (node_release u) (ssc_satellites s k))"
      by (auto simp: satellite_preempt_def split: prod.splits sum.splits)
    then obtain m where "ssc_satellites s k = Some m" "n = m \<or> n = node_release u m" using n(1) by auto
    with n(2,3) sub show "v \<in> node_ids s" by (auto intro: node_idsI)
  qed
  moreover have "ssc_satellites ?s = ssc_satellites s" if "u \<in> allocator_ids s"
  proof -
    have "node_release u n = n" if "ssc_satellites s k = Some n" for k n
      using assms \<open>u \<in> allocator_ids s\<close> that node_idsI [OF that]
      by (intro node_release_None) (auto simp: ids_apart_def)
    then have "map_option (node_release u) (ssc_satellites s k) = ssc_satellites s k" for k
      by (cases "ssc_satellites s k") simp_all
    then show ?thesis by (simp add: satellite_preempt_def split: prod.splits sum.splits)
  qed
  ultimately show ?thesis using assms preempt_ids unfolding ids_apart_def by blast
qed

lemma to_move_ids: "(k, a) \<in> set (allocations_to_move ks s) \<Longrightarrow> ra_allocation_id a \<in> node_ids s"
  by (auto simp: allocations_to_move_def List.map_filter_def intro: node_idsI split: if_splits)

lemma rebalance_grows:
  assumes "ids_apart s" "\<And>i. snd (ids i) \<notin> allocator_ids s \<union> node_ids s"
  shows "ssc_satellites (snd (rebalance z ks ids now s)) = ssc_satellites s \<and>
    allocator_ids (snd (rebalance z ks ids now s)) \<subseteq> allocator_ids s \<union> range (\<lambda>i. snd (ids i)) \<and>
    (\<exists>new. rla_allocations (ssc_allocator (snd (rebalance z ks ids now s))) = rla_allocations (ssc_allocator s) @ new \<and>
       rbr_allocations_moved (fst (rebalance z ks ids now s)) = length new)"
proof -
  let ?items = "enumerate 0 (allocations_to_move ks s)"
  have "\<forall>(i, item) \<in> set ?items. ra_allocation_id (snd item) \<notin> allocator_ids s \<and>
      ra_allocation_id (snd item) \<notin> range (\<lambda>j. snd (ids j))"
  proof
    fix x assume "x \<in> set ?items"
    then have "snd x \<in> set (map snd ?items)" unfolding set_map by (rule imageI)
    then have "snd x \<in> set (allocations_to_move ks s)" by (simp only: map_snd_enumerate)
    then obtain i k a where x: "x = (i, k, a)" "(k, a) \<in> set (allocations_to_move ks s)"
      by (metis prod.collapse)
    from to_move_ids [OF x(2)] have "ra_allocation_id a \<notin> allocator_ids s" "ra_allocation_id a \<notin> range (\<lambda>j. snd (ids j))"
      using assms by (auto simp: ids_apart_def)
    then show "case x of (i, item) \<Rightarrow> ra_allocation_id (snd item) \<notin> allocator_ids s \<and>
      ra_allocation_id (snd item) \<notin> range (\<lambda>j. snd (ids j))" by (simp add: x(1))
  qed
  from migrations_grow [OF this, of "(0, 0, s)" z ks] show ?thesis
    by (auto simp: rebalance_def Let_def split: prod.splits)
qed

lemma ids_apart_step: "ids_apart s \<Longrightarrow> satellites_step z ch s s' \<Longrightarrow> ids_apart s'"
proof (erule satellites_step.cases, goal_cases)
  case (1 n s)
  then have "node_ids (add_satellite n s) \<subseteq> node_ids s"
    by (auto simp: add_satellite_def elim!: node_idsE split: if_splits intro: node_idsI)
  moreover have "allocator_ids (add_satellite n s) = allocator_ids s" by (simp add: add_satellite_def allocator_ids_def)
  ultimately show ?case using 1 unfolding ids_apart_def by blast
next
  case (2 ks env c s r s')
  then show ?case using ids_apart_allocate by blast
next
  case 3
  then show ?case using ids_apart_preempt by blast
next
  case (4 ids s ks now)
  have "node_ids s' = node_ids s" using rebalance_grows [of s ids z ks now] 4 by (simp add: node_ids_def)
  moreover have "allocator_ids s' \<subseteq> allocator_ids s \<union> range (\<lambda>i. snd (ids i))"
    using rebalance_grows [of s ids z ks now] 4 by simp
  ultimately show ?case using 4 unfolding ids_apart_def by blast
qed

interpretation satellites: invariant_system "\<lambda>s. s = satellite_scheduler_new" "satellites_step z ch" ids_apart for z ch
proof
  show "s = satellite_scheduler_new \<Longrightarrow> ids_apart s" for s :: "'c satellite_scheduler"
    by (simp add: satellite_scheduler_new_def ids_apart_def allocator_ids_def allocator_new_def)
qed (rule ids_apart_step)

section \<open>Properties\<close>

text \<open>The storage of a satellite is accounted for. In every reachable state of a node, whatever is
  allocated and released, the bytes in use are the sum of what the current allocations claim, and the
  bytes in use and those available make up the total; an allocation that is released at once leaves the
  storage and the allocations as they were. The sums are of 64-bit words: the node does not check the
  claim, so the available bytes wrap when it is too large.\<close>

theorem storage_accounted:
  assumes "reach (\<lambda>n. \<exists>now s. n = satellite_node_new now s) (node_step ch) n"
    and "u \<notin> ra_allocation_id ` set (sno_current_allocations n)"
    and "node_allocate ch u t1 t2 c task tenant n = Some (a, n')"
  shows "str_used_bytes (sno_storage n) = sum_list (map claimed_bytes (sno_current_allocations n)) \<and>
    str_available_bytes (sno_storage n) = str_total_bytes (sno_storage n) - str_used_bytes (sno_storage n) \<and>
    sno_current_allocations n' = sno_current_allocations n @ [a] \<and>
    str_used_bytes (sno_storage n') = str_used_bytes (sno_storage n) + claimed_bytes a \<and>
    sno_storage (node_release u n') = sno_storage n \<and>
    sno_current_allocations (node_release u n') = sno_current_allocations n"
proof -
  have ok: "node_ok n" using nodes.reach_inv [OF assms(1)] .
  have a: "sno_current_allocations n' = sno_current_allocations n @ [a]" "ra_allocation_id a = u"
      "ra_resources a = c" "sno_storage n' = take_storage (rc_storage_bytes c) (sno_storage n)"
    using assms(3) by (auto simp: node_allocate_def Let_def sat_allocation_new_def)
  have "allocation_by_id (as @ [a]) u = Some a" if "u \<notin> ra_allocation_id ` set as" for as
    using that a(2) by (induction as) (auto simp: allocation_by_id_def)
  then have found: "allocation_by_id (sno_current_allocations n') u = Some a" using a(1) assms(2) by simp
  have "a \<notin> set (sno_current_allocations n)" using assms(2) a(2) by blast
  then have "sno_current_allocations (node_release u n') = sno_current_allocations n"
    unfolding node_release_def found by (simp add: a(1) remove1_append)
  moreover have "sno_storage (node_release u n') = sno_storage n"
    unfolding node_release_def found
    by (simp add: a(3,4) give_storage_def take_storage_def split: option.split)
  moreover have "str_used_bytes (sno_storage n') = str_used_bytes (sno_storage n) + claimed_bytes a"
    by (simp add: a(3,4) take_storage_def claimed_bytes_def split: option.split)
  moreover have "str_available_bytes (sno_storage n) = str_total_bytes (sno_storage n) - str_used_bytes (sno_storage n)"
    using ok unfolding node_ok_def by (metis add_diff_cancel_left')
  ultimately show ?thesis using ok a(1) by (simp add: node_ok_def)
qed

theorem storage_accounted_witness:
  "\<exists>a n'. node_allocate all_instants 9 0 0 power_claim 1 ''t'' (satellite_node_new 0 ''sat'' :: unit satellite_node)
       = Some (a, n') \<and> str_used_bytes (sno_storage n') = 5 \<and>
     sno_storage (node_release 9 n') = storage_default"
proof -
  let ?n = "satellite_node_new 0 ''sat'' :: unit satellite_node"
  have run: "reach (\<lambda>n. \<exists>now s. n = satellite_node_new now s) (node_step all_instants) ?n"
    by (rule reach_init) blast
  obtain a n' where an: "node_allocate all_instants 9 0 0 power_claim 1 ''t'' ?n = Some (a, n')"
    by (simp add: node_allocate_def date_add_def all_instants_def Let_def)
  have fresh: "9 \<notin> ra_allocation_id ` set (sno_current_allocations ?n)" by (simp add: satellite_node_new_def)
  have "claimed_bytes a = 5"
    using an by (auto simp: node_allocate_def Let_def sat_allocation_new_def claimed_bytes_def power_claim_def)
  with storage_accounted [OF run fresh an] an show ?thesis
    by (simp add: satellite_node_new_def storage_default_def)
qed

text \<open>What the scheduler hands to a satellite it never gets back. In every reachable state, a
  preemption that names an allocation of the allocator, successful or not, changes no satellite: the
  satellite files the allocation under an identifier of its own, so the power, the storage and the
  allocation stay taken.\<close>

theorem preempt_keeps_satellite_resources:
  assumes "reach (\<lambda>s. s = satellite_scheduler_new) (satellites_step z ch) s"
    and "u \<in> allocator_ids s"
  shows "ssc_satellites (snd (satellite_preempt u reason s)) = ssc_satellites s"
  using ids_apart_preempt [OF satellites.reach_inv [OF assms(1)]] assms(2) by blast

theorem preempt_keeps_satellite_resources_witness:
  "\<exists>s'. satellite_allocate (Fin False 0) all_instants [''sat''] sample_alloc_env power_claim one_satellite
       = Some (Inr 2, s') \<and> fst (satellite_preempt 2 EmergencyResponse s') = Inr () \<and>
     ssc_satellites (snd (satellite_preempt 2 EmergencyResponse s')) = ssc_satellites s'"
proof -
  let ?s = one_satellite
  have sat: "ssc_satellites ?s = [''sat'' \<mapsto> satellite_node_new 0 ''sat'']" "ssc_allocator ?s = allocator_new"
    by (simp_all add: one_satellite_def add_satellite_def satellite_node_new_def satellite_scheduler_new_def)
  have "reach (\<lambda>s. s = satellite_scheduler_new) (satellites_step (Fin False 0) all_instants) ?s"
    unfolding one_satellite_def by (intro reach_step [OF reach_self] step_add) (simp add: satellite_node_new_def)
  moreover have "can_satisfy power_claim (satellite_node_new 0 ''sat'' :: unit satellite_node)"
    by (simp add: can_satisfy_def power_claim_def satellite_node_new_def power_default_def storage_default_def
        lit_numeral)
  then have best: "find_best_satellite [''sat''] power_claim ?s = Some (satellite_node_new 0 ''sat'')"
    by (simp add: find_best_satellite_def sat)
  let ?a = "sat_allocation_new 2 1 ''default'' power_claim (time_window_new 0 60000000000) IslMedium True"
  obtain s' where s': "satellite_allocate (Fin False 0) all_instants [''sat''] sample_alloc_env power_claim ?s
      = Some (Inr 2, s')" "rla_allocations (ssc_allocator s') = [?a]"
    unfolding satellite_allocate_def best
    by (auto simp: sat sample_alloc_env_def power_claim_def date_add_def all_instants_def duration_seconds_def
        allocator_allocate_def over_quota_def terminal_conflicts_def allocator_new_def satellite_node_new_def
        node_allocate_def Let_def)
  have "satellites_step (Fin False 0) all_instants ?s s'"
    using s'(1) by (rule step_satellite_allocate)
      (simp_all add: sample_alloc_env_def allocator_ids_def node_ids_def sat allocator_new_def satellite_node_new_def)
  ultimately have "reach (\<lambda>s. s = satellite_scheduler_new) (satellites_step (Fin False 0) all_instants) s'"
    by (rule reach_step)
  moreover have "2 \<in> allocator_ids s'" by (simp add: allocator_ids_def s'(2) sat_allocation_new_def)
  moreover have "fst (satellite_preempt 2 EmergencyResponse s') = Inr ()"
    by (simp add: satellite_preempt_def allocator_preempt_def allocator_release_def allocation_by_id_def s'(2)
        sat_allocation_new_def can_preempt_def)
  ultimately show ?thesis using preempt_keeps_satellite_resources s'(1) by blast
qed

text \<open>Rebalancing moves nothing. In every reachable state it leaves every satellite as it is and
  keeps every allocation of the allocator; what it reports as moved are allocations that it adds, a
  second one for each.\<close>

theorem rebalance_duplicates:
  assumes "reach (\<lambda>s. s = satellite_scheduler_new) (satellites_step z ch) s"
    and "\<And>i. snd (ids i) \<notin> allocator_ids s \<union> node_ids s"
  shows "ssc_satellites (snd (rebalance z ks ids now s)) = ssc_satellites s \<and>
    (\<exists>new. rla_allocations (ssc_allocator (snd (rebalance z ks ids now s))) = rla_allocations (ssc_allocator s) @ new \<and>
       rbr_allocations_moved (fst (rebalance z ks ids now s)) = length new)"
  using rebalance_grows [of s ids z ks now] satellites.reach_inv [OF assms(1)] assms(2) by blast

theorem rebalance_duplicates_witness:
  "ssc_satellites (snd (rebalance (Fin False 0) [''sat''] (\<lambda>_. (1, 2)) 0 one_satellite)) = ssc_satellites one_satellite"
proof -
  have "reach (\<lambda>s. s = satellite_scheduler_new) (satellites_step (Fin False 0) all_instants) one_satellite"
    unfolding one_satellite_def by (intro reach_step [OF reach_self] step_add) (simp add: satellite_node_new_def)
  moreover have "snd (1, 2 :: uuid) \<notin> allocator_ids one_satellite \<union> node_ids one_satellite"
    by (auto simp: allocator_ids_def node_ids_def one_satellite_def add_satellite_def satellite_scheduler_new_def
        satellite_node_new_def allocator_new_def)
  ultimately show ?thesis using rebalance_duplicates [of _ _ _ "\<lambda>_. (1, 2)"] by blast
qed

text \<open>The satellite that is chosen can satisfy the claim, and none that can has more power left, as long
  as the amounts are numbers.\<close>

lemma best_satellite_spec:
  assumes "find_best_satellite ks c s = Some n"
    and "\<forall>m \<in> ran (ssc_satellites s). pwb_available_watts (sno_power_budget m) \<noteq> NaN"
    and "k \<in> set ks" "ssc_satellites s k = Some m" "can_satisfy c m"
  shows "can_satisfy c n \<and>
    \<not> flt (pwb_available_watts (sno_power_budget n)) (pwb_available_watts (sno_power_budget m))"
proof -
  obtain b bs where bs: "filter (can_satisfy c) (map_values (ssc_satellites s) ks) = b # bs" "n = most_power b bs"
    using assms(1) by (auto simp: find_best_satellite_def split: list.splits)
  have mem: "insert b (set bs) = {x. can_satisfy c x \<and> (\<exists>k \<in> set ks. ssc_satellites s k = Some x)}"
    using arg_cong [OF bs(1), of set] by (auto simp: set_map_values)
  have "\<forall>x \<in> insert b (set bs). pwb_available_watts (sno_power_budget x) \<noteq> NaN"
    using assms(2) unfolding mem by (auto simp: ran_def)
  moreover have "m \<in> insert b (set bs)" unfolding mem using assms(3-5) by blast
  ultimately show ?thesis using most_power_best [of b bs m] find_best_mem [OF assms(1)] bs(2) by blast
qed

end
