(* ===== verification/Oisl_Federation.thy ===== *)
theory Oisl_Federation
  imports Oisl_Types
begin

text \<open>
  The federation plane of the inter-satellite network (\<open>oisl/src/federation/mod.rs\<close>): control nodes and
  the satellites bound to them, peers of other operators, links across operators and the attestations of
  peers.

  Readings of the clock, fresh UUIDs, SHA-256 and the rendering of a date are arguments; a date out of
  range panics, which is \<open>None\<close>.
\<close>

section \<open>Definitions\<close>

subsection \<open>Control nodes and bindings\<close>

record geographic_location =
  geo_latitude :: f64
  geo_longitude :: f64
  geo_altitude_m :: f64

record control_certificate =
  ctc_certificate_id :: string
  ctc_public_key :: bytes
  ctc_expires_at :: datetime
  ctc_issued_at :: datetime

record control_capabilities =
  ccp_supports_rf :: bool
  ccp_supports_optical :: bool
  ccp_max_control_planes :: nat
  ccp_supported_standards :: "string list"

record control_node =
  ctn_node_id :: node_id
  ctn_location :: geographic_location
  ctn_control_plane_version :: string
  ctn_certificate :: control_certificate
  ctn_capabilities :: control_capabilities
  ctn_active_satellites :: "string list"
  ctn_max_satellites :: nat

datatype binding_state = BindBound | BindBinding | BindReleasing | BindReleased

record handover_record =
  hvr_from_node :: node_id
  hvr_to_node :: node_id
  hvr_handover_at :: "datetime bitemporal"
  hvr_duration_ms :: "u64 option"

record control_binding =
  cbd_satellite_id :: string
  cbd_control_node_id :: node_id
  cbd_state :: binding_state
  cbd_bound_at :: "datetime bitemporal"
  cbd_handover_history :: "handover_record list"

datatype request_status = RequestPending | RequestProcessing | RequestFinished | RequestFailed

record handoff_request =
  hrq_request_id :: uuid
  hrq_satellite_id :: string
  hrq_source_control_node_id :: node_id
  hrq_target_control_node_id :: node_id
  hrq_status :: request_status
  hrq_created_at :: datetime
  hrq_completed_at :: "datetime option"

subsection \<open>Peers, links and attestations\<close>

datatype trust_score = TrustScore (trust_value: f64)

definition trust_score_new :: "f64 \<Rightarrow> trust_score" where
  "trust_score_new x = TrustScore (fclamp (lit 0) (lit 1) x)"

definition trust_is_high :: "trust_score \<Rightarrow> bool" where
  "trust_is_high t \<longleftrightarrow> fle (lit (8 / 10)) (trust_value t)"

definition trust_is_low :: "trust_score \<Rightarrow> bool" where
  "trust_is_low t \<longleftrightarrow> flt (trust_value t) (lit (5 / 10))"

record federation_policy =
  fpl_allows_cross_operator_links :: bool
  fpl_requires_attestation :: bool
  fpl_max_concurrent_links :: nat
  fpl_data_residency_requirements :: "string list"

definition policy_default :: federation_policy where
  "policy_default = \<lparr>fpl_allows_cross_operator_links = True, fpl_requires_attestation = True,
     fpl_max_concurrent_links = 10, fpl_data_residency_requirements = []\<rparr>"

record operator_peer =
  opp_operator_id :: string
  opp_public_key :: bytes
  opp_trust_score :: trust_score
  opp_visible_assets :: "string list"
  opp_federation_policy :: federation_policy

record revenue_agreement =
  rva_local_share_percent :: f64
  rva_peer_share_percent :: f64
  rva_billing_period_days :: u32
  rva_agreement_id :: string

record provenance_hop =
  pvh_operator_id :: string
  pvh_satellite_id :: string
  pvh_timestamp :: datetime
  pvh_data_hash :: string

record provenance_chain =
  pvc_hops :: "provenance_hop list"

definition provenance_new :: provenance_chain where
  "provenance_new = \<lparr>pvc_hops = []\<rparr>"

definition add_hop :: "provenance_hop \<Rightarrow> provenance_chain \<Rightarrow> provenance_chain" where
  "add_hop h c = c\<lparr>pvc_hops := pvc_hops c @ [h]\<rparr>"

record cross_operator_link =
  xol_local_terminal :: terminal_id
  xol_peer_terminal :: terminal_id
  xol_peer_operator :: string
  xol_revenue_sharing :: revenue_agreement
  xol_data_provenance :: provenance_chain

record peer_attestation =
  pat_operator_id :: string
  pat_attested_at :: datetime
  pat_expires_at :: datetime
  pat_attestation_hash :: bytes

definition peer_attestation_is_valid :: "datetime \<Rightarrow> peer_attestation \<Rightarrow> bool" where
  "peer_attestation_is_valid now r \<longleftrightarrow> now < pat_expires_at r"

record attestation_engine =
  ate_attestation_cache :: "string \<rightharpoonup> peer_attestation"

definition engine_new :: attestation_engine where
  "engine_new = \<lparr>ate_attestation_cache = Map.empty\<rparr>"

text \<open>\<open>t 0\<close> to \<open>t 3\<close> are the readings of the clock, in the order of the code.\<close>

definition attest_peer :: "chrono \<Rightarrow> (string \<Rightarrow> bytes) \<Rightarrow> (datetime \<Rightarrow> string) \<Rightarrow> (nat \<Rightarrow> datetime) \<Rightarrow> string \<Rightarrow>
    attestation_engine \<Rightarrow> (peer_attestation \<times> attestation_engine) option" where
  "attest_peer ch sha fmt t k e =
     (case (case ate_attestation_cache e k of
              Some r \<Rightarrow> if peer_attestation_is_valid (t 0) r then Some r else None
            | None \<Rightarrow> None) of
        Some r \<Rightarrow> Some (r, e)
      | None \<Rightarrow>
          map_option (\<lambda>until.
            let r = \<lparr>pat_operator_id = k, pat_attested_at = t 2, pat_expires_at = until,
                     pat_attestation_hash = sha (k @ '':'' @ fmt (t 1) @ '':attestation'')\<rparr>
            in (r, e\<lparr>ate_attestation_cache := (ate_attestation_cache e)(k \<mapsto> r)\<rparr>))
            (date_add ch (t 3) (duration_seconds 86400)))"

definition engine_verify :: "datetime \<Rightarrow> string \<Rightarrow> attestation_engine \<Rightarrow> bool" where
  "engine_verify now k e =
     (case ate_attestation_cache e k of None \<Rightarrow> False | Some r \<Rightarrow> peer_attestation_is_valid now r)"

subsection \<open>The plane\<close>

record federation_plane =
  fpn_local_operator :: string
  fpn_federation_peers :: "string \<rightharpoonup> operator_peer"
  fpn_cross_operator_links :: "cross_operator_link list"
  fpn_attestation_engine :: attestation_engine
  fpn_control_nodes :: "node_id \<rightharpoonup> control_node"
  fpn_satellite_bindings :: "string \<rightharpoonup> control_binding"

datatype plane_error =
    PlanePeerNotFound string
  | InsufficientTrust string f64
  | PolicyViolation string string
  | PlaneAttestationFailed string
  | LinkEstablishmentFailed string
  | ControlNodeNotFound node_id
  | SatelliteNotBound string
  | PlaneHandoffFailed string

definition plane_new :: "string \<Rightarrow> federation_plane" where
  "plane_new o1 =
     \<lparr>fpn_local_operator = o1, fpn_federation_peers = Map.empty, fpn_cross_operator_links = [],
      fpn_attestation_engine = engine_new, fpn_control_nodes = Map.empty, fpn_satellite_bindings = Map.empty\<rparr>"

definition add_control_node :: "control_node \<Rightarrow> federation_plane \<Rightarrow> federation_plane" where
  "add_control_node c p = p\<lparr>fpn_control_nodes := (fpn_control_nodes p)(ctn_node_id c \<mapsto> c)\<rparr>"

text \<open>A stamp with its three readings of the clock.\<close>

definition stamp3 :: "(nat \<Rightarrow> datetime) \<Rightarrow> nat \<Rightarrow> datetime bitemporal" where
  "stamp3 t i = bitemporal_new (t i) (EventTime (t (i + 1))) (ReceptionTime (t (i + 2)))"

definition bind_satellite :: "(nat \<Rightarrow> datetime) \<Rightarrow> string \<Rightarrow> node_id \<Rightarrow> federation_plane \<Rightarrow>
    (plane_error + unit) \<times> federation_plane" where
  "bind_satellite t s c p =
     (if fpn_control_nodes p c = None then (Inl (ControlNodeNotFound c), p)
      else (Inr (), p\<lparr>fpn_satellite_bindings := (fpn_satellite_bindings p)(s \<mapsto>
        \<lparr>cbd_satellite_id = s, cbd_control_node_id = c, cbd_state = BindBound, cbd_bound_at = stamp3 t 0,
         cbd_handover_history = []\<rparr>)\<rparr>))"

definition plane_initiate_handoff :: "uuid \<Rightarrow> datetime \<Rightarrow> string \<Rightarrow> node_id \<Rightarrow> federation_plane \<Rightarrow>
    (plane_error + handoff_request) \<times> federation_plane" where
  "plane_initiate_handoff u now s c p =
     (if fpn_control_nodes p c = None then (Inl (ControlNodeNotFound c), p)
      else case fpn_satellite_bindings p s of
        None \<Rightarrow> (Inl (SatelliteNotBound s), p)
      | Some b \<Rightarrow>
          (Inr \<lparr>hrq_request_id = u, hrq_satellite_id = s, hrq_source_control_node_id = cbd_control_node_id b,
                hrq_target_control_node_id = c, hrq_status = RequestPending, hrq_created_at = now,
                hrq_completed_at = None\<rparr>,
           p\<lparr>fpn_satellite_bindings := (fpn_satellite_bindings p)(s \<mapsto> b\<lparr>cbd_state := BindBinding\<rparr>)\<rparr>))"

text \<open>The cast of a negative duration to \<open>u64\<close> wraps.\<close>

definition rebind :: "(nat \<Rightarrow> datetime) \<Rightarrow> handoff_request \<Rightarrow> control_binding \<Rightarrow> control_binding" where
  "rebind t r b =
     b\<lparr>cbd_control_node_id := hrq_target_control_node_id r, cbd_state := BindBound,
       cbd_bound_at := stamp3 t 3,
       cbd_handover_history := cbd_handover_history b @
         [\<lparr>hvr_from_node = cbd_control_node_id b, hvr_to_node = hrq_target_control_node_id r,
           hvr_handover_at = stamp3 t 0,
           hvr_duration_ms = map_option (\<lambda>e. of_int (num_milliseconds (e - hrq_created_at r)))
             (hrq_completed_at r)\<rparr>]\<rparr>"

definition plane_complete_handoff :: "(nat \<Rightarrow> datetime) \<Rightarrow> string \<Rightarrow> handoff_request \<Rightarrow> federation_plane \<Rightarrow>
    (plane_error + unit) \<times> federation_plane" where
  "plane_complete_handoff t s r p =
     (case fpn_satellite_bindings p s of
        None \<Rightarrow> (Inl (SatelliteNotBound s), p)
      | Some b \<Rightarrow> (Inr (), p\<lparr>fpn_satellite_bindings := (fpn_satellite_bindings p)(s \<mapsto> rebind t r b)\<rparr>))"

definition get_satellite_control_node :: "string \<Rightarrow> federation_plane \<Rightarrow> node_id option" where
  "get_satellite_control_node s p = map_option cbd_control_node_id (fpn_satellite_bindings p s)"

definition plane_add_peer :: "operator_peer \<Rightarrow> federation_plane \<Rightarrow> federation_plane" where
  "plane_add_peer q p = p\<lparr>fpn_federation_peers := (fpn_federation_peers p)(opp_operator_id q \<mapsto> q)\<rparr>"

definition plane_get_peer :: "string \<Rightarrow> federation_plane \<Rightarrow> operator_peer option" where
  "plane_get_peer k p = fpn_federation_peers p k"

definition get_cross_operator_links :: "federation_plane \<Rightarrow> cross_operator_link list" where
  "get_cross_operator_links p = fpn_cross_operator_links p"

text \<open>\<open>u\<close> is the identifier that the call returns.\<close>

definition establish_link :: "chrono \<Rightarrow> (string \<Rightarrow> bytes) \<Rightarrow> (datetime \<Rightarrow> string) \<Rightarrow> (nat \<Rightarrow> datetime) \<Rightarrow> uuid \<Rightarrow>
    terminal_id \<Rightarrow> terminal_id \<Rightarrow> string \<Rightarrow> revenue_agreement \<Rightarrow> federation_plane \<Rightarrow>
    ((plane_error + uuid) \<times> federation_plane) option" where
  "establish_link ch sha fmt t u lt1 pt1 k ag p =
     (case fpn_federation_peers p k of
        None \<Rightarrow> Some (Inl (PlanePeerNotFound k), p)
      | Some q \<Rightarrow>
          if flt (trust_value (opp_trust_score q)) (lit (5 / 10))
          then Some (Inl (InsufficientTrust k (trust_value (opp_trust_score q))), p)
          else if \<not> fpl_allows_cross_operator_links (opp_federation_policy q)
          then Some (Inl (PolicyViolation k ''Peer policy does not allow cross-operator links''), p)
          else map_option (\<lambda>(r, e). (Inr u, p\<lparr>fpn_attestation_engine := e,
                 fpn_cross_operator_links := fpn_cross_operator_links p @
                   [\<lparr>xol_local_terminal = lt1, xol_peer_terminal = pt1, xol_peer_operator = k,
                     xol_revenue_sharing = ag, xol_data_provenance = provenance_new\<rparr>]\<rparr>))
                 (attest_peer ch sha fmt t k (fpn_attestation_engine p)))"

subsection \<open>Reachable states\<close>

text \<open>A plane with the requests it has issued; a completion may name any of them, for any satellite.\<close>

inductive plane_step :: "federation_plane \<times> handoff_request list \<Rightarrow> federation_plane \<times> handoff_request list \<Rightarrow> bool" where
  step_node: "plane_step (p, rs) (add_control_node c p, rs)"
| step_bind: "plane_step (p, rs) (snd (bind_satellite t s c p), rs)"
| step_initiate: "plane_initiate_handoff u now s c p = (Inr r, p') \<Longrightarrow> plane_step (p, rs) (p', r # rs)"
| step_refused: "plane_initiate_handoff u now s c p = (Inl e, p') \<Longrightarrow> plane_step (p, rs) (p', rs)"
| step_complete: "r \<in> set rs \<Longrightarrow> plane_step (p, rs) (snd (plane_complete_handoff t s r p), rs)"
| step_peer: "plane_step (p, rs) (plane_add_peer q p, rs)"
| step_link: "establish_link ch sha fmt t u lt1 pt1 k ag p = Some (r, p') \<Longrightarrow> plane_step (p, rs) (p', rs)"

text \<open>A history leads from the node \<open>a\<close> to the node \<open>b\<close> without a gap.\<close>

fun handovers_from :: "node_id \<Rightarrow> handover_record list \<Rightarrow> node_id \<Rightarrow> bool" where
  "handovers_from a [] b \<longleftrightarrow> a = b"
| "handovers_from a (h # hs) b \<longleftrightarrow> hvr_from_node h = a \<and> handovers_from (hvr_to_node h) hs b"

definition binding_ok :: "federation_plane \<Rightarrow> control_binding \<Rightarrow> bool" where
  "binding_ok p b \<longleftrightarrow> fpn_control_nodes p (cbd_control_node_id b) \<noteq> None \<and>
     cbd_state b \<in> {BindBound, BindBinding} \<and>
     (\<exists>a. handovers_from a (cbd_handover_history b) (cbd_control_node_id b))"

definition plane_ok :: "federation_plane \<times> handoff_request list \<Rightarrow> bool" where
  "plane_ok s \<longleftrightarrow> (case s of (p, rs) \<Rightarrow>
     keyed cbd_satellite_id (fpn_satellite_bindings p) \<and>
     (\<forall>b \<in> ran (fpn_satellite_bindings p). binding_ok p b) \<and>
     (\<forall>r \<in> set rs. fpn_control_nodes p (hrq_target_control_node_id r) \<noteq> None))"

subsection \<open>Inputs of the witnesses\<close>

definition sample_node :: "string \<Rightarrow> control_node" where
  "sample_node n = \<lparr>ctn_node_id = n, ctn_location = \<lparr>geo_latitude = lit 0, geo_longitude = lit 0, geo_altitude_m = lit 0\<rparr>,
     ctn_control_plane_version = ''1'', ctn_certificate = \<lparr>ctc_certificate_id = ''c'', ctc_public_key = [],
       ctc_expires_at = 0, ctc_issued_at = 0\<rparr>,
     ctn_capabilities = \<lparr>ccp_supports_rf = True, ccp_supports_optical = True, ccp_max_control_planes = 1,
       ccp_supported_standards = []\<rparr>, ctn_active_satellites = [], ctn_max_satellites = 1\<rparr>"

definition two_nodes :: federation_plane where
  "two_nodes = snd (bind_satellite (\<lambda>_. 0) ''sat'' ''a''
     (add_control_node (sample_node ''b'') (add_control_node (sample_node ''a'') (plane_new ''op''))))"

definition sample_request :: handoff_request where
  "sample_request = \<lparr>hrq_request_id = 1, hrq_satellite_id = ''sat'', hrq_source_control_node_id = ''a'',
     hrq_target_control_node_id = ''b'', hrq_status = RequestPending, hrq_created_at = 0, hrq_completed_at = None\<rparr>"

definition every_instant :: chrono where
  "every_instant = \<lparr>date_in_range = (\<lambda>_. True), duration_in_range = (\<lambda>_. True)\<rparr>"

definition sample_agreement :: revenue_agreement where
  "sample_agreement = \<lparr>rva_local_share_percent = lit 50, rva_peer_share_percent = lit 50,
     rva_billing_period_days = 30, rva_agreement_id = ''x''\<rparr>"

text \<open>A peer whose trust score is not a number.\<close>

definition with_peer :: federation_plane where
  "with_peer = plane_add_peer \<lparr>opp_operator_id = ''peer'', opp_public_key = [], opp_trust_score = TrustScore NaN,
     opp_visible_assets = [], opp_federation_policy = policy_default\<rparr> (plane_new ''op'')"

section \<open>Lemmas\<close>

lemma attest_peer_verifies:
  assumes "\<And>d. date_in_range ch d" "t 0 \<le> t 3"
  shows "\<exists>r e'. attest_peer ch sha fmt t k e = Some (r, e') \<and> engine_verify (t 0) k e'"
proof (cases "engine_verify (t 0) k e")
  case True
  then show ?thesis by (auto simp: attest_peer_def engine_verify_def split: option.splits)
next
  case False
  then have "(case ate_attestation_cache e k of
      Some r \<Rightarrow> if peer_attestation_is_valid (t 0) r then Some r else None | None \<Rightarrow> None) = None"
    by (auto simp: engine_verify_def split: option.splits)
  then show ?thesis
    using assms by (simp add: attest_peer_def date_add_def Let_def engine_verify_def peer_attestation_is_valid_def
        duration_seconds_def)
qed

lemma handovers_from_snoc:
  "handovers_from a (hs @ [h]) c \<longleftrightarrow> handovers_from a hs (hvr_from_node h) \<and> hvr_to_node h = c"
  by (induction hs arbitrary: a) auto

lemma binding_ok_rebind:
  "binding_ok p b \<Longrightarrow> fpn_control_nodes p (hrq_target_control_node_id r) \<noteq> None \<Longrightarrow> binding_ok p (rebind t r b)"
  by (auto simp: binding_ok_def rebind_def handovers_from_snoc)

lemma binding_ok_node: "binding_ok p b \<Longrightarrow> binding_ok (add_control_node c p) b"
  by (auto simp: binding_ok_def add_control_node_def)

lemma plane_ok_update:
  assumes "plane_ok (p, rs)" "fpn_satellite_bindings p s = Some b" "binding_ok p b'"
    and "cbd_satellite_id b' = cbd_satellite_id b"
  shows "plane_ok (p\<lparr>fpn_satellite_bindings := (fpn_satellite_bindings p)(s \<mapsto> b')\<rparr>, rs)"
  using assms by (auto simp: plane_ok_def binding_ok_def keyed_def ran_def)

lemma plane_ok_step:
  assumes "plane_step s s'" "plane_ok s"
  shows "plane_ok s'"
  using assms(1)
proof cases
  case (step_node p rs c)
  with assms(2) show ?thesis
    by (auto simp: plane_ok_def binding_ok_node) (auto simp: add_control_node_def binding_ok_def ran_def)
next
  case (step_bind p rs t s c)
  with assms(2) show ?thesis
    by (auto simp: plane_ok_def bind_satellite_def binding_ok_def keyed_def ran_def split: if_splits)
next
  case (step_initiate u now s c p r p' rs)
  then obtain b where b: "fpn_satellite_bindings p s = Some b" "fpn_control_nodes p c \<noteq> None"
      "p' = p\<lparr>fpn_satellite_bindings := (fpn_satellite_bindings p)(s \<mapsto> b\<lparr>cbd_state := BindBinding\<rparr>)\<rparr>"
      "hrq_target_control_node_id r = c"
    by (auto simp: plane_initiate_handoff_def split: if_splits option.splits)
  have "binding_ok p b" using step_initiate assms(2) b(1) by (auto simp: plane_ok_def ran_def)
  then have "binding_ok p (b\<lparr>cbd_state := BindBinding\<rparr>)" by (simp add: binding_ok_def)
  then have "plane_ok (p', rs)" unfolding b(3)
    using step_initiate assms(2) b(1) by (intro plane_ok_update) simp_all
  with b step_initiate show ?thesis by (auto simp: plane_ok_def)
next
  case (step_refused u now s c p e p' rs)
  with assms(2) show ?thesis
    by (auto simp: plane_initiate_handoff_def split: if_splits option.splits)
next
  case (step_complete r rs p t s)
  show ?thesis
  proof (cases "fpn_satellite_bindings p s")
    case None
    with step_complete assms(2) show ?thesis by (simp add: plane_complete_handoff_def)
  next
    case (Some b)
    have "binding_ok p (rebind t r b)"
      using step_complete assms(2) Some by (intro binding_ok_rebind) (auto simp: plane_ok_def ran_def)
    moreover have "cbd_satellite_id (rebind t r b) = cbd_satellite_id b" by (simp add: rebind_def)
    ultimately show ?thesis
      using plane_ok_update [of p rs s b "rebind t r b"] step_complete assms(2) Some
      by (simp add: plane_complete_handoff_def)
  qed
next
  case (step_peer p rs q)
  with assms(2) show ?thesis by (simp add: plane_ok_def plane_add_peer_def binding_ok_def)
next
  case (step_link ch sha fmt t u lt1 pt1 k ag p r p' rs)
  then have "fpn_control_nodes p' = fpn_control_nodes p" "fpn_satellite_bindings p' = fpn_satellite_bindings p"
    by (auto simp: establish_link_def split: option.splits if_splits)
  with step_link assms(2) show ?thesis by (simp add: plane_ok_def binding_ok_def)
qed

interpretation planes: invariant_system "\<lambda>s. \<exists>o1. s = (plane_new o1, [])" plane_step plane_ok
  using plane_ok_step by unfold_locales (auto simp: plane_ok_def plane_new_def)

section \<open>Properties\<close>

text \<open>Satellites stay bound to control nodes that exist. In every reachable state of the plane, each
  binding is filed under its satellite, names a known control node, is bound or being rebound, and has
  a history of handovers without a gap that ends at the current node.\<close>

theorem bindings_known_and_gapless:
  assumes "reach (\<lambda>s. \<exists>o1. s = (plane_new o1, [])) plane_step (p, rs)"
    and "fpn_satellite_bindings p s = Some b"
  shows "cbd_satellite_id b = s \<and> fpn_control_nodes p (cbd_control_node_id b) \<noteq> None \<and>
    get_satellite_control_node s p = Some (cbd_control_node_id b) \<and>
    cbd_state b \<in> {BindBound, BindBinding} \<and>
    (\<exists>a. handovers_from a (cbd_handover_history b) (cbd_control_node_id b))"
  using planes.reach_inv [OF assms(1)] assms(2)
  by (auto simp: plane_ok_def binding_ok_def keyed_def ran_def get_satellite_control_node_def)

lemma two_nodes_fields:
  "fpn_satellite_bindings two_nodes = [''sat'' \<mapsto> \<lparr>cbd_satellite_id = ''sat'', cbd_control_node_id = ''a'',
     cbd_state = BindBound, cbd_bound_at = stamp3 (\<lambda>_. 0) 0, cbd_handover_history = []\<rparr>]"
  "fpn_control_nodes two_nodes = [''a'' \<mapsto> sample_node ''a'', ''b'' \<mapsto> sample_node ''b'']"
  by (auto simp: two_nodes_def bind_satellite_def add_control_node_def plane_new_def sample_node_def)

lemma two_nodes_reach: "reach (\<lambda>s. \<exists>o1. s = (plane_new o1, [])) plane_step (two_nodes, [])"
proof -
  have "reach (\<lambda>s. \<exists>o1. s = (plane_new o1, [])) plane_step (plane_new ''op'', [])" by (rule reach_init) blast
  then show ?thesis
    unfolding two_nodes_def
    by (blast intro: reach_step step_node step_bind)
qed

theorem bindings_known_and_gapless_witness:
  "get_satellite_control_node ''sat'' two_nodes = Some ''a''"
  using bindings_known_and_gapless [OF two_nodes_reach, of "''sat''"] by (simp add: two_nodes_fields)

text \<open>The completion of a handoff checks nothing but that the satellite is bound. Any request,
  also one for another satellite, one completed before or one older than the latest, rebinds the
  satellite to its target and leaves it bound, and the record of the handover names the current node as
  its source, whatever the request says.\<close>

theorem any_request_completes:
  assumes "fpn_satellite_bindings p s = Some b"
    and "(res, p') = plane_complete_handoff t s r p"
  shows "res = Inr () \<and> get_satellite_control_node s p' = Some (hrq_target_control_node_id r) \<and>
    (\<exists>b'. fpn_satellite_bindings p' s = Some b' \<and> cbd_state b' = BindBound \<and>
       length (cbd_handover_history b') = Suc (length (cbd_handover_history b)) \<and>
       hvr_from_node (last (cbd_handover_history b')) = cbd_control_node_id b) \<and>
    fst (plane_complete_handoff t' s r p') = Inr ()"
  using assms by (auto simp: plane_complete_handoff_def rebind_def get_satellite_control_node_def)

theorem any_request_completes_witness:
  "get_satellite_control_node ''sat''
     (snd (plane_complete_handoff (\<lambda>_. 5) ''sat'' (sample_request\<lparr>hrq_satellite_id := ''other''\<rparr>) two_nodes)) = Some ''b''"
  using any_request_completes [OF _ surjective_pairing [symmetric], of two_nodes "''sat''" _ "\<lambda>_. 5"
      "sample_request\<lparr>hrq_satellite_id := ''other''\<rparr>" "\<lambda>_. 5"]
  by (simp add: two_nodes_fields sample_request_def)

text \<open>When a link to another operator is established. The call succeeds exactly when the peer is
  known, its trust is not below one half, its policy allows such links, and the dates do not run out of
  range; then the link is added last, and the peer has a valid attestation. Neither the number of
  links that the policy allows nor its wish for an attestation plays a part, and the identifier that
  the call returns is not stored with the link.\<close>

theorem establish_link_iff:
  assumes "\<And>d. date_in_range ch d" "t 0 \<le> t 3"
  shows "(\<exists>p'. establish_link ch sha fmt t u lt1 pt1 k ag p = Some (Inr u, p') \<and>
        (\<exists>l. get_cross_operator_links p' = get_cross_operator_links p @ [l] \<and> xol_peer_operator l = k) \<and>
        engine_verify (t 0) k (fpn_attestation_engine p')) \<longleftrightarrow>
     (\<exists>q. plane_get_peer k p = Some q \<and> \<not> flt (trust_value (opp_trust_score q)) (lit (5 / 10)) \<and>
        fpl_allows_cross_operator_links (opp_federation_policy q))"
  (is "?lhs = ?rhs")
proof
  assume ?lhs
  then show ?rhs by (auto simp: establish_link_def plane_get_peer_def split: option.splits if_splits)
next
  assume ?rhs
  then obtain q where q: "fpn_federation_peers p k = Some q"
      "\<not> flt (trust_value (opp_trust_score q)) (lit (5 / 10))" "fpl_allows_cross_operator_links (opp_federation_policy q)"
    by (auto simp: plane_get_peer_def)
  obtain r e where attest: "attest_peer ch sha fmt t k (fpn_attestation_engine p) = Some (r, e)" "engine_verify (t 0) k e"
    using attest_peer_verifies [OF assms] by blast
  show ?lhs
    using q attest by (simp add: establish_link_def get_cross_operator_links_def)
qed

theorem establish_link_iff_witness:
  "\<exists>p'. establish_link every_instant (\<lambda>_. []) (\<lambda>_. []) (\<lambda>_. 0) 7 1 2 ''peer'' sample_agreement with_peer = Some (Inr 7, p')"
proof -
  have "\<exists>q. plane_get_peer ''peer'' with_peer = Some q \<and> \<not> flt (trust_value (opp_trust_score q)) (lit (5 / 10)) \<and>
        fpl_allows_cross_operator_links (opp_federation_policy q)"
    by (simp add: plane_get_peer_def with_peer_def plane_add_peer_def plane_new_def policy_default_def)
  then show ?thesis
    using establish_link_iff [of every_instant "\<lambda>_. 0" "\<lambda>_. []" "\<lambda>_. []" 7 1 2 "''peer''" sample_agreement with_peer]
    by (auto simp: every_instant_def)
qed

end
