(* ===== verification/Control_Placement.thy ===== *)
theory Control_Placement
  imports Oisl_Topology
begin

text \<open>
  The placement of control nodes (\<open>oisl/src/topology/control_node_placement.rs\<close>): representative
  snapshots of a forecast, then a greedy k-center with local search over the candidate stations.

  Sets of nodes are sets; the order in which a hash set is iterated is given by a function of the set, and
  that of the nodes of a snapshot by a function of the map. \<open>z\<close> is the neutral element of the sum of an
  iterator of floats. A panic is \<open>None\<close>.
\<close>

section \<open>Definitions\<close>

record placement_algorithm =
  pla_num_clusters :: nat
  pla_local_search_iterations :: nat

definition placement_new :: "nat \<Rightarrow> nat \<Rightarrow> placement_algorithm" where
  "placement_new k n = \<lparr>pla_num_clusters = k, pla_local_search_iterations = n\<rparr>"

definition placement_default :: placement_algorithm where
  "placement_default = \<lparr>pla_num_clusters = 5, pla_local_search_iterations = 10\<rparr>"

datatype placement_error =
    NoCandidateStations
  | InsufficientCandidates nat nat
  | NoSnapshots
  | AnalysisFailed string

subsection \<open>Representative snapshots\<close>

definition mean_quality :: "f64 \<Rightarrow> potential_edge list \<Rightarrow> f64" where
  "mean_quality z es = fdiv (f64_sum z (map (\<lambda>e. overall_quality (pe_geometric_quality e)) es)) (f64_of_nat (length es))"

definition snapshot_to_feature_vector :: "f64 \<Rightarrow> graph_snapshot \<Rightarrow> f64 list" where
  "snapshot_to_feature_vector z s =
     [f64_of_nat (card (dom (sg_nodes s))), f64_of_nat (length (sg_potential_edges s)),
      if sg_potential_edges s = [] then lit 0 else mean_quality z (sg_potential_edges s),
      f64_sum z (map (\<lambda>e. f64_of_nat (unat (bits_per_second (pe_expected_capacity e)))) (sg_potential_edges s))]"

text \<open>\<open>centroid[i] += val\<close> for each component of a vector; a longer vector would be out of bounds.\<close>

fun add_into :: "f64 list \<Rightarrow> f64 list \<Rightarrow> f64 list option" where
  "add_into cs [] = Some cs"
| "add_into [] (v # vs) = None"
| "add_into (c # cs) (v # vs) = map_option (Cons (fadd c v)) (add_into cs vs)"

fun add_all :: "f64 list \<Rightarrow> f64 list list \<Rightarrow> f64 list option" where
  "add_all cs [] = Some cs"
| "add_all cs (v # vs) = Option.bind (add_into cs v) (\<lambda>cs'. add_all cs' vs)"

definition compute_centroid :: "f64 list list \<Rightarrow> f64 list option" where
  "compute_centroid vs =
     (case vs of
        [] \<Rightarrow> Some []
      | v # _ \<Rightarrow> map_option (map (\<lambda>x. fdiv x (f64_of_nat (length vs))))
                   (add_all (replicate (length v) (lit 0)) vs))"

definition euclidean_distance :: "f64 \<Rightarrow> f64 list \<Rightarrow> f64 list \<Rightarrow> f64" where
  "euclidean_distance z a b =
     fsqrt (f64_sum z (map (\<lambda>(x, y). fmul (fsub x y) (fsub x y)) (zip a b)))"

fun closest_from :: "f64 \<Rightarrow> f64 list \<Rightarrow> nat \<Rightarrow> f64 list list \<Rightarrow> f64 \<times> nat \<Rightarrow> nat" where
  "closest_from z c i [] (d, best) = best"
| "closest_from z c i (v # vs) (d, best) =
     (let e = euclidean_distance z v c
      in closest_from z c (Suc i) vs (if flt e d then (e, i) else (d, best)))"

text \<open>An index into an empty slice panics.\<close>

definition find_closest_to_centroid :: "f64 \<Rightarrow> graph_snapshot list \<Rightarrow> f64 list list \<Rightarrow> f64 list \<Rightarrow>
    graph_snapshot option" where
  "find_closest_to_centroid z ss vs c =
     (let i = closest_from z c 0 vs (f64_max_value, 0) in if i < length ss then Some (ss ! i) else None)"

text \<open>The representative of the \<open>i\<close>-th cluster of \<open>k\<close>.\<close>

definition cluster_range :: "nat \<Rightarrow> nat \<Rightarrow> nat \<Rightarrow> nat \<times> nat" where
  "cluster_range n k i = (i * (n div k), if i = k - 1 then n else (i + 1) * (n div k))"

definition cluster_representative :: "f64 \<Rightarrow> graph_snapshot list \<Rightarrow> nat \<Rightarrow> nat \<Rightarrow> graph_snapshot option" where
  "cluster_representative z ss k i =
     (let (a, b) = cluster_range (length ss) k i;
          cluster = take (b - a) (drop a ss);
          vs = map (snapshot_to_feature_vector z) cluster
      in Option.bind (compute_centroid vs) (find_closest_to_centroid z cluster vs))"

text \<open>No cluster at all makes the division panic.\<close>

definition select_representatives :: "f64 \<Rightarrow> topology_forecast \<Rightarrow> placement_algorithm \<Rightarrow>
    (placement_error + graph_snapshot list) option" where
  "select_representatives z f alg =
     (let ss = map snd (tf_snapshots f); k = pla_num_clusters alg
      in if ss = [] then Some (Inl NoSnapshots)
         else if length ss \<le> k then Some (Inr ss)
         else if k = 0 then None
         else map_option Inr (those (map (cluster_representative z ss k) [0..<k])))"

subsection \<open>The score of a placement\<close>

definition distance_3d :: "position3d \<Rightarrow> position3d \<Rightarrow> f64" where
  "distance_3d a b =
     (let dx = fsub (x_km a) (x_km b); dy = fsub (y_km a) (y_km b); dz = fsub (z_km a) (z_km b)
      in fsqrt (fadd (fadd (fmul dx dx) (fmul dy dy)) (fmul dz dz)))"

text \<open>Distances that are not below the greatest finite value, or are no numbers, are left out.\<close>

definition min_distance_to_control_nodes :: "position3d \<Rightarrow> graph_snapshot \<Rightarrow> node_id list \<Rightarrow> f64" where
  "min_distance_to_control_nodes p s ns =
     foldl fmin f64_max_value
       (filter (\<lambda>d. flt d f64_max_value)
         (map (\<lambda>st. distance_3d p (ns_position st)) (List.map_filter (sg_nodes s) ns)))"

fun is_satellite :: "node_type \<Rightarrow> bool" where
  "is_satellite (Satellite _) = True"
| "is_satellite (GroundStation _) = False"

type_synonym set_order = "node_id set \<Rightarrow> node_id list"
type_synonym nodes_order = "graph_snapshot \<Rightarrow> node_id list"

definition evaluate_placement :: "set_order \<Rightarrow> nodes_order \<Rightarrow> graph_snapshot list \<Rightarrow> node_id set \<Rightarrow> f64" where
  "evaluate_placement ord nord ss sel =
     foldl fmax (lit 0)
       (concat (map (\<lambda>s. map (\<lambda>st. min_distance_to_control_nodes (ns_position st) s (ord sel))
          (filter (\<lambda>st. is_satellite (ns_node_type st)) (List.map_filter (sg_nodes s) (nord s)))) ss))"

subsection \<open>Greedy choice and local search\<close>

text \<open>The first of the stations with the least score below the start \<open>d\<close>.\<close>

fun best_addition :: "(node_id set \<Rightarrow> f64) \<Rightarrow> node_id set \<Rightarrow> node_id list \<Rightarrow> f64 \<times> node_id option \<Rightarrow> node_id option" where
  "best_addition score sel [] (d, best) = best"
| "best_addition score sel (n # ns) (d, best) =
     (let e = score (insert n sel)
      in best_addition score sel ns (if flt e d then (e, Some n) else (d, best)))"

definition select_best_station :: "(node_id set \<Rightarrow> f64) \<Rightarrow> node_id set \<Rightarrow> node_id list \<Rightarrow> node_id option" where
  "select_best_station score sel remaining = best_addition score sel remaining (f64_max_value, None)"

lemma best_addition_mem: "best_addition score sel ns (d, best) = Some n \<Longrightarrow> best = Some n \<or> n \<in> set ns"
  by (induction ns arbitrary: d best) (auto simp: Let_def split: if_splits)

lemma select_best_station_mem: "select_best_station score sel ns = Some n \<Longrightarrow> n \<in> set ns"
  unfolding select_best_station_def using best_addition_mem by fastforce

function greedy :: "(node_id set \<Rightarrow> f64) \<Rightarrow> nat \<Rightarrow> node_id set \<Rightarrow> node_id list \<Rightarrow> node_id set" where
  "greedy score k sel remaining =
     (if card sel < k \<and> remaining \<noteq> [] then
        (case select_best_station score sel remaining of
           None \<Rightarrow> sel
         | Some n \<Rightarrow> greedy score k (insert n sel) (filter (\<lambda>m. m \<noteq> n) remaining))
      else sel)"
  by pat_completeness auto
termination
  by (relation "measure (\<lambda>(score, k, sel, remaining). length remaining)")
    (auto intro: length_filter_less select_best_station_mem)

declare greedy.simps [simp del]

text \<open>One round of the local search: the first exchange, in the order of the sets, that scores less.\<close>

definition exchanges :: "set_order \<Rightarrow> node_id set \<Rightarrow> node_id list \<Rightarrow> node_id set list" where
  "exchanges ord cur cs =
     concat (map (\<lambda>x. map (\<lambda>c. insert c (cur - {x})) (filter (\<lambda>c. c \<notin> cur) cs)) (ord cur))"

definition improve :: "(node_id set \<Rightarrow> f64) \<Rightarrow> set_order \<Rightarrow> node_id list \<Rightarrow> node_id set \<Rightarrow> node_id set option" where
  "improve score ord cs cur = List.find (\<lambda>t. flt (score t) (score cur)) (exchanges ord cur cs)"

fun local_search_refinement :: "(node_id set \<Rightarrow> f64) \<Rightarrow> set_order \<Rightarrow> node_id list \<Rightarrow> nat \<Rightarrow> node_id set \<Rightarrow>
    node_id set" where
  "local_search_refinement score ord cs 0 cur = cur"
| "local_search_refinement score ord cs (Suc n) cur =
     (case improve score ord cs cur of
        None \<Rightarrow> cur
      | Some t \<Rightarrow> local_search_refinement score ord cs n t)"

text \<open>\<open>pop\<close> takes the last of the candidates in their iteration order.\<close>

definition k_center_with_local_search :: "set_order \<Rightarrow> nodes_order \<Rightarrow> graph_snapshot list \<Rightarrow> node_id list \<Rightarrow>
    nat \<Rightarrow> placement_algorithm \<Rightarrow> node_id set" where
  "k_center_with_local_search ord nord ss cs k alg =
     (let score = evaluate_placement ord nord ss;
          sel = (if cs = [] then greedy score k {} [] else greedy score k {last cs} (butlast cs))
      in local_search_refinement score ord cs (pla_local_search_iterations alg) sel)"

definition select_control_nodes :: "f64 \<Rightarrow> set_order \<Rightarrow> nodes_order \<Rightarrow> topology_forecast \<Rightarrow> node_id set \<Rightarrow> nat \<Rightarrow>
    placement_algorithm \<Rightarrow> (placement_error + node_id set) option" where
  "select_control_nodes z ord nord f candidates k alg =
     (if candidates = {} then Some (Inl NoCandidateStations)
      else if card candidates < k then Some (Inl (InsufficientCandidates k (card candidates)))
      else map_option (\<lambda>r. case r of
          Inl e \<Rightarrow> Inl e
        | Inr ss \<Rightarrow> Inr (k_center_with_local_search ord nord ss (ord candidates) k alg))
        (select_representatives z f alg))"

record placement_evaluation =
  ple_selected_nodes :: "node_id set"
  ple_max_latency_km :: f64
  ple_avg_latency_km :: f64
  ple_evaluation_time_ms :: u64

text \<open>What an iteration order of the subsets of a set is.\<close>

definition set_orders :: "node_id set \<Rightarrow> set_order \<Rightarrow> bool" where
  "set_orders c ord \<longleftrightarrow> (\<forall>s \<in> Pow c. distinct (ord s) \<and> set (ord s) = s)"

lemma set_ordersD: "set_orders c ord \<Longrightarrow> s \<subseteq> c \<Longrightarrow> distinct (ord s)" "set_orders c ord \<Longrightarrow> s \<subseteq> c \<Longrightarrow> set (ord s) = s"
  by (simp_all add: set_orders_def)

lemma set_orders_finite: "set_orders c ord \<Longrightarrow> s \<subseteq> c \<Longrightarrow> finite s"
  by (metis set_ordersD(2) finite_set)

subsection \<open>Inputs of the witnesses\<close>

definition empty_forecast :: topology_forecast where
  "empty_forecast = forecast_add_snapshot (empty_snapshot 0) (forecast_new 0 10)"

definition abc :: set_order where
  "abc s = filter (\<lambda>n. n \<in> s) [''a'', ''b'', ''c'']"

lemma abc_orders: "set_orders {''a'', ''b'', ''c''} abc"
  by (auto simp: set_orders_def abc_def)

definition lone_satellite :: graph_snapshot where
  "lone_satellite = (empty_snapshot 0)\<lparr>sg_nodes := [''s'' \<mapsto> \<lparr>ns_node_id = ''s'', ns_node_type = Satellite ''s'',
     ns_position = \<lparr>x_km = lit 0, y_km = lit 0, z_km = lit 0\<rparr>,
     ns_velocity = \<lparr>vx_kms = lit 0, vy_kms = lit 0, vz_kms = lit 0\<rparr>, ns_optical_terminals = []\<rparr>]\<rparr>"

definition lone_forecast :: topology_forecast where
  "lone_forecast = forecast_add_snapshot lone_satellite (forecast_new 0 10)"

section \<open>Lemmas\<close>

subsection \<open>Greedy choice\<close>

lemma best_addition_None:
  "best_addition score sel ns (d, best) = None \<longleftrightarrow> best = None \<and> (\<forall>n \<in> set ns. \<not> flt (score (insert n sel)) d)"
proof (induction ns arbitrary: d best)
  case (Cons n ns)
  have some: "best_addition score sel ns (e, Some m) \<noteq> None" for e m
    using Cons.IH [of e "Some m"] by simp
  show ?case using Cons.IH [of d best] some by (simp add: Let_def)
qed simp

lemma select_best_station_None:
  "select_best_station score sel ns = None \<longleftrightarrow> (\<forall>n \<in> set ns. \<not> flt (score (insert n sel)) f64_max_value)"
  unfolding select_best_station_def best_addition_None by simp

lemma greedy_stops: "\<not> (card sel < k \<and> ns \<noteq> []) \<Longrightarrow> greedy score k sel ns = sel"
  by (simp only: greedy.simps [of score k sel ns] if_False)

lemma greedy_bounds:
  assumes "finite sel" "sel \<noteq> {}"
  shows "sel \<subseteq> greedy score k sel ns \<and> greedy score k sel ns \<subseteq> sel \<union> set ns \<and>
    card (greedy score k sel ns) \<le> max (card sel) k"
  using assms
proof (induction score k sel ns rule: greedy.induct)
  case (1 score k sel ns)
  show ?case
  proof (cases "card sel < k \<and> ns \<noteq> []")
    case False
    then have "greedy score k sel ns = sel" by (rule greedy_stops)
    then show ?thesis by simp
  next
    case True
    show ?thesis
    proof (cases "select_best_station score sel ns")
      case None
      with True have "greedy score k sel ns = sel" by (subst greedy.simps) simp
      then show ?thesis by simp
    next
      case (Some n)
      let ?g = "greedy score k (insert n sel) (filter (\<lambda>m. m \<noteq> n) ns)"
      have step: "greedy score k sel ns = ?g" using True Some by (subst greedy.simps) simp
      have "card (insert n sel) \<le> k" using True 1(2) by (simp add: card_insert_if)
      moreover have "insert n sel \<subseteq> ?g \<and> ?g \<subseteq> insert n sel \<union> set (filter (\<lambda>m. m \<noteq> n) ns) \<and>
          card ?g \<le> max (card (insert n sel)) k"
        using 1(1) [OF True Some] 1(2) by simp
      ultimately show ?thesis using step select_best_station_mem [OF Some] by auto
    qed
  qed
qed

text \<open>When every enlarged set scores below the start, the greedy choice goes on to the number asked for.\<close>

lemma greedy_reaches:
  assumes "finite sel" "distinct ns" "sel \<inter> set ns = {}" "k \<le> card sel + length ns"
    and "\<And>t. t \<subseteq> sel \<union> set ns \<Longrightarrow> t \<noteq> {} \<Longrightarrow> flt (score t) f64_max_value" "card sel \<le> k"
  shows "card (greedy score k sel ns) = k"
  using assms
proof (induction score k sel ns rule: greedy.induct)
  case (1 score k sel ns)
  show ?case
  proof (cases "card sel < k \<and> ns \<noteq> []")
    case False
    then have "greedy score k sel ns = sel" by (rule greedy_stops)
    with False 1(5,7) show ?thesis by auto
  next
    case True
    then obtain n0 where "n0 \<in> set ns" by (cases ns) auto
    then have "flt (score (insert n0 sel)) f64_max_value" by (intro 1(6)) auto
    with \<open>n0 \<in> set ns\<close> obtain n where n: "select_best_station score sel ns = Some n"
      using select_best_station_None [of score sel ns] by (cases "select_best_station score sel ns") auto
    have mem: "n \<in> set ns" using select_best_station_mem [OF n] .
    have step: "greedy score k sel ns = greedy score k (insert n sel) (filter (\<lambda>m. m \<noteq> n) ns)"
      using True n by (subst greedy.simps) simp
    have card: "card (insert n sel) = Suc (card sel)" using mem 1(2,4) by (auto simp: card_insert_if)
    have "length (filter (\<lambda>m. m \<noteq> n) ns) = card (set ns - {n})"
      using distinct_card [of "filter (\<lambda>m. m \<noteq> n) ns"] 1(3) by (simp add: set_diff_eq)
    then have len: "Suc (length (filter (\<lambda>m. m \<noteq> n) ns)) = length ns"
      using card.remove [OF finite_set mem] distinct_card [OF 1(3)] by simp
    have "card (greedy score k (insert n sel) (filter (\<lambda>m. m \<noteq> n) ns)) = k"
    proof (rule 1(1) [OF True n])
      show "insert n sel \<inter> set (filter (\<lambda>m. m \<noteq> n) ns) = {}" using 1(4) by auto
      show "k \<le> card (insert n sel) + length (filter (\<lambda>m. m \<noteq> n) ns)" using 1(5) card len by linarith
      show "flt (score t) f64_max_value" if "t \<subseteq> insert n sel \<union> set (filter (\<lambda>m. m \<noteq> n) ns)" "t \<noteq> {}" for t
        using that mem by (intro 1(6)) auto
    qed (use 1(2,3) True card in auto)
    with step show ?thesis by simp
  qed
qed

subsection \<open>Local search\<close>

lemma exchanges_card:
  assumes "set_orders C ord" "cur \<subseteq> C" "t \<in> set (exchanges ord cur cs)"
  shows "card t = card cur \<and> t \<subseteq> cur \<union> set cs"
proof -
  obtain x c where x: "x \<in> cur" "c \<in> set cs" "c \<notin> cur" "t = insert c (cur - {x})"
    using assms(3) set_ordersD(2) [OF assms(1,2)] by (auto simp: exchanges_def)
  have fin: "finite cur" by (rule set_orders_finite [OF assms(1,2)])
  then have "card cur = Suc (card (cur - {x}))" using card.remove [OF fin x(1)] by simp
  with x fin show ?thesis by auto
qed

lemma local_search_spec:
  assumes "set_orders C ord" "set cs \<subseteq> C" "cur \<subseteq> C"
  shows "card (local_search_refinement score ord cs n cur) = card cur \<and>
    local_search_refinement score ord cs n cur \<subseteq> cur \<union> set cs \<and>
    (local_search_refinement score ord cs n cur = cur \<or>
     flt (score (local_search_refinement score ord cs n cur)) (score cur))"
  using assms(3)
proof (induction n arbitrary: cur)
  case (Suc n)
  show ?case
  proof (cases "improve score ord cs cur")
    case (Some t)
    then have t: "t \<in> set (exchanges ord cur cs)" "flt (score t) (score cur)"
      unfolding improve_def using find_SomeD by fast+
    note card = exchanges_card [OF assms(1) Suc.prems t(1)]
    have IH: "card (local_search_refinement score ord cs n t) = card t"
      "local_search_refinement score ord cs n t \<subseteq> t \<union> set cs"
      "local_search_refinement score ord cs n t = t \<or> flt (score (local_search_refinement score ord cs n t)) (score t)"
      using Suc.IH [of t] card Suc.prems assms(2) by auto
    let ?r = "local_search_refinement score ord cs n t"
    have eq: "local_search_refinement score ord cs (Suc n) cur = ?r" by (simp add: Some)
    have "?r \<subseteq> cur \<union> set cs" using IH(2) card by auto
    moreover have "flt (score ?r) (score cur)" using IH(3) t(2) flt_trans [of "score ?r" "score t" "score cur"] by auto
    ultimately show ?thesis unfolding eq using IH(1) card by simp
  qed simp
qed simp

subsection \<open>Representatives\<close>

lemma those_map_Some: "those (map f xs) = Some ys \<Longrightarrow> map f xs = map Some ys"
  by (induction xs arbitrary: ys) (auto split: option.splits)

lemma those_map_length: "those (map f xs) = Some ys \<Longrightarrow> length ys = length xs"
  using those_map_Some [of f xs ys] map_eq_imp_length_eq by metis

lemma those_map_mem:
  assumes "those (map f xs) = Some ys" "y \<in> set ys" shows "\<exists>x \<in> set xs. f x = Some y"
proof -
  have "Some y \<in> set (map f xs)" using assms(2) by (simp only: those_map_Some [OF assms(1)]) simp
  then show ?thesis by auto
qed

lemma cluster_representative_mem: "cluster_representative z ss k i = Some s \<Longrightarrow> s \<in> set ss"
proof -
  assume "cluster_representative z ss k i = Some s"
  then obtain a b j where "j < length (take (b - a) (drop a ss))" "s = take (b - a) (drop a ss) ! j"
    by (auto simp: cluster_representative_def Let_def bind_eq_Some_conv find_closest_to_centroid_def
        split: prod.splits if_splits)
  then have "s \<in> set (take (b - a) (drop a ss))" by (metis nth_mem)
  then show ?thesis by (metis in_set_dropD in_set_takeD)
qed

lemma select_representatives_spec:
  assumes "select_representatives z f alg = Some (Inr ss)"
  shows "set ss \<subseteq> snd ` set (tf_snapshots f) \<and> length ss = min (length (tf_snapshots f)) (pla_num_clusters alg) \<and> ss \<noteq> []"
proof (cases "length (tf_snapshots f) \<le> pla_num_clusters alg")
  case True
  with assms show ?thesis by (auto simp: select_representatives_def Let_def split: if_splits)
next
  case False
  let ?f = "cluster_representative z (map snd (tf_snapshots f)) (pla_num_clusters alg)"
  have those: "those (map ?f [0..<pla_num_clusters alg]) = Some ss" and pos: "pla_num_clusters alg \<noteq> 0"
    using assms False by (auto simp: select_representatives_def Let_def split: if_splits)
  have "set ss \<subseteq> snd ` set (tf_snapshots f)"
  proof
    fix s assume "s \<in> set ss"
    then obtain i where "?f i = Some s" using those_map_mem [OF those] by blast
    from cluster_representative_mem [OF this] show "s \<in> snd ` set (tf_snapshots f)" by simp
  qed
  with those_map_length [OF those] pos False show ?thesis by auto
qed

subsection \<open>The score\<close>

definition capped :: "f64 \<Rightarrow> bool" where
  "capped x \<longleftrightarrow> x = f64_max_value \<or> flt x f64_max_value"

lemma capped_max: "capped f64_max_value"
  by (simp add: capped_def)

lemma capped_zero: "capped (Fin False 0)"
  by (simp add: capped_def f64_max_value_def)

lemma capped_not_less: "capped x \<Longrightarrow> \<not> flt f64_max_value x"
  by (cases x) (auto simp: capped_def f64_max_value_def split: if_splits)

lemma capped_number: "capped x \<Longrightarrow> x \<noteq> NaN"
  by (auto simp: capped_def f64_max_value_def)

lemma fmax_max [simp]: "capped x \<Longrightarrow> fmax x f64_max_value = f64_max_value"
  "capped x \<Longrightarrow> fmax f64_max_value x = f64_max_value"
  using capped_number [of x] capped_not_less [of x] capped_number [OF capped_max]
  by (auto simp: fmax_def capped_def)

lemma capped_fmax: "capped x \<Longrightarrow> capped y \<Longrightarrow> capped (fmax x y)"
  by (auto simp: fmax_def)

lemma capped_fmin: "capped x \<Longrightarrow> capped y \<Longrightarrow> capped (fmin x y)"
  by (auto simp: fmin_def)

lemma capped_foldl_fmin: "capped a \<Longrightarrow> \<forall>x \<in> set xs. capped x \<Longrightarrow> capped (foldl fmin a xs)"
  by (induction xs arbitrary: a) (auto intro: capped_fmin)

lemma foldl_fmax_capped: "capped a \<Longrightarrow> \<forall>x \<in> set xs. capped x \<Longrightarrow> capped (foldl fmax a xs)"
  by (induction xs arbitrary: a) (auto intro: capped_fmax)

lemma foldl_fmax_stays: "\<forall>x \<in> set xs. capped x \<Longrightarrow> foldl fmax f64_max_value xs = f64_max_value"
  by (induction xs) auto

lemma foldl_fmax_max:
  "capped a \<Longrightarrow> \<forall>x \<in> set xs. capped x \<Longrightarrow> f64_max_value \<in> set xs \<Longrightarrow> foldl fmax a xs = f64_max_value"
  by (induction xs arbitrary: a) (auto simp: foldl_fmax_stays intro: capped_fmax)

lemma min_distance_capped: "capped (min_distance_to_control_nodes p s ns)"
  unfolding min_distance_to_control_nodes_def by (intro capped_foldl_fmin capped_max) (auto simp: capped_def)

lemma min_distance_unseen: "set ns \<inter> dom (sg_nodes s) = {} \<Longrightarrow> min_distance_to_control_nodes p s ns = f64_max_value"
proof -
  assume none: "set ns \<inter> dom (sg_nodes s) = {}"
  have "List.map_filter (sg_nodes s) ns = []" using none by (induction ns) (auto simp: List.map_filter_simps domIff)
  then show ?thesis by (simp add: min_distance_to_control_nodes_def)
qed

lemma evaluate_placement_capped: "capped (evaluate_placement ord nord ss sel)"
  unfolding evaluate_placement_def by (rule foldl_fmax_capped) (auto simp: min_distance_capped capped_zero)

text \<open>A snapshot in which a satellite sees none of the selected stations makes every placement score the greatest value.\<close>

lemma evaluate_placement_unseen:
  assumes "s \<in> set ss" "set (nord s) = dom (sg_nodes s)" "sg_nodes s v = Some st" "is_satellite (ns_node_type st)"
    and "set (ord sel) \<inter> dom (sg_nodes s) = {}"
  shows "evaluate_placement ord nord ss sel = f64_max_value"
  unfolding evaluate_placement_def
proof (rule foldl_fmax_max)
  have "st \<in> set (List.map_filter (sg_nodes s) (nord s))" using assms(2,3) by (force simp: List.map_filter_def)
  then have "f64_max_value \<in> (\<lambda>st. min_distance_to_control_nodes (ns_position st) s (ord sel)) `
      set (filter (\<lambda>st. is_satellite (ns_node_type st)) (List.map_filter (sg_nodes s) (nord s)))"
    using assms(4) min_distance_unseen [OF assms(5)] by (intro image_eqI [of _ _ st]) auto
  then show "f64_max_value \<in> set (concat (map (\<lambda>s. map (\<lambda>st. min_distance_to_control_nodes (ns_position st) s (ord sel))
      (filter (\<lambda>st. is_satellite (ns_node_type st)) (List.map_filter (sg_nodes s) (nord s)))) ss))"
    using assms(1) by auto
qed (auto simp: min_distance_capped capped_zero)

lemma local_search_stuck:
  assumes "set_orders C ord" "cur \<subseteq> C" "\<And>t. t \<subseteq> cur \<union> set cs \<Longrightarrow> \<not> flt (score t) (score cur)"
  shows "local_search_refinement score ord cs n cur = cur"
proof -
  have "\<forall>t \<in> set (exchanges ord cur cs). \<not> flt (score t) (score cur)"
    using exchanges_card [OF assms(1,2)] assms(3) by blast
  then have "improve score ord cs cur = None" by (auto simp: improve_def find_None_iff)
  then show ?thesis by (cases n) simp_all
qed

lemma greedy_stuck:
  assumes "\<And>t. t \<subseteq> sel \<union> set ns \<Longrightarrow> \<not> flt (score t) f64_max_value"
  shows "greedy score k sel ns = sel"
proof -
  have "select_best_station score sel ns = None"
    unfolding select_best_station_None using assms by (auto intro!: assms)
  then show ?thesis by (simp add: greedy.simps [of score k sel ns])
qed

section \<open>Properties\<close>

lemma select_control_nodes_Inr:
  assumes "set_orders candidates ord" "select_control_nodes z ord nord f candidates k alg = Some (Inr r)"
  obtains ss where "select_representatives z f alg = Some (Inr ss)"
    "r = k_center_with_local_search ord nord ss (ord candidates) k alg" "ord candidates \<noteq> []" "k \<le> card candidates"
proof -
  have ne: "candidates \<noteq> {}" and k: "k \<le> card candidates"
    using assms(2) by (auto simp: select_control_nodes_def split: if_splits)
  then have "ord candidates \<noteq> []" using set_ordersD(2) [OF assms(1), of candidates] by auto
  moreover obtain y where y: "select_representatives z f alg = Some y"
      "(case y of Inl e \<Rightarrow> Inl e | Inr ss \<Rightarrow> Inr (k_center_with_local_search ord nord ss (ord candidates) k alg)) = Inr r"
    using assms(2) ne k by (auto simp: select_control_nodes_def)
  moreover obtain ss where "y = Inr ss" using y(2) by (cases y) auto
  ultimately show thesis using that k by simp
qed

text \<open>C26: A placement that is returned consists of candidates, is not empty and has at most the number of
  stations asked for (one, when none are asked for). It has exactly that number when every placement keeps
  every satellite of the representative snapshots in sight of a station.
\<close>

lemma placement_sound:
  assumes "set_orders candidates ord"
    and "select_control_nodes z ord nord f candidates k alg = Some (Inr r)"
  shows "r \<subseteq> candidates \<and> r \<noteq> {} \<and> card r \<le> max 1 k \<and>
    ((\<forall>ss t. select_representatives z f alg = Some (Inr ss) \<longrightarrow> t \<subseteq> candidates \<longrightarrow> t \<noteq> {} \<longrightarrow>
        flt (evaluate_placement ord nord ss t) f64_max_value) \<longrightarrow> card r = max 1 k)"
proof -
  obtain ss where ss: "select_representatives z f alg = Some (Inr ss)"
      "r = k_center_with_local_search ord nord ss (ord candidates) k alg" "ord candidates \<noteq> []" "k \<le> card candidates"
    by (rule select_control_nodes_Inr [OF assms])
  let ?score = "evaluate_placement ord nord ss" and ?cs = "ord candidates"
  let ?first = "{last ?cs}" and ?rest = "butlast ?cs"
  let ?g = "greedy ?score k ?first ?rest"
  have cs: "set ?cs = candidates" "distinct ?cs" using set_ordersD [OF assms(1)] by simp_all
  have finC: "finite candidates" using set_orders_finite [OF assms(1)] by simp
  have split: "?cs = ?rest @ [last ?cs]" using ss(3) by simp
  have parts: "?first \<union> set ?rest = candidates" "distinct ?rest" "?first \<inter> set ?rest = {}"
    using cs arg_cong [OF split, of set] arg_cong [OF split, of distinct] by auto
  have g: "?first \<subseteq> ?g" "?g \<subseteq> candidates" "card ?g \<le> max 1 k"
    using greedy_bounds [of ?first ?score k ?rest] parts(1) by auto
  have fin: "finite ?g" using set_orders_finite [OF assms(1) g(2)] .
  have r: "r = local_search_refinement ?score ord ?cs (pla_local_search_iterations alg) ?g"
    using ss(2,3) by (simp add: k_center_with_local_search_def Let_def)
  note search = local_search_spec [OF assms(1) _ g(2), of ?cs ?score "pla_local_search_iterations alg"]
  have len: "length ?rest = card candidates - 1" using distinct_card [OF cs(2)] cs(1) by simp
  have pos: "0 < card candidates" using ss(3) cs(1) finC by (auto simp: card_gt_0_iff)
  have "card ?g = max 1 k" if seen: "\<And>t. t \<subseteq> candidates \<Longrightarrow> t \<noteq> {} \<Longrightarrow> flt (?score t) f64_max_value"
  proof (cases "k = 0")
    case True
    then have "?g = ?first" by (intro greedy_stops) simp
    with True show ?thesis by simp
  next
    case False
    have "card ?g = k"
    proof (rule greedy_reaches)
      show "flt (?score t) f64_max_value" if "t \<subseteq> ?first \<union> set ?rest" "t \<noteq> {}" for t
        using that parts(1) by (intro seen) auto
      show "k \<le> card ?first + length ?rest" using len pos ss(4) by simp
    qed (use parts False in auto)
    with False show ?thesis by simp
  qed
  moreover have "card r = card ?g" "r \<subseteq> candidates" using search r g(2) cs(1) by auto
  moreover have "card ?g \<noteq> 0" using g(1) fin by (auto simp: card_eq_0_iff)
  ultimately show ?thesis using g(3) ss(1) by auto
qed

lemma empty_selected:
  "select_control_nodes (Fin False 0) abc (\<lambda>s. []) empty_forecast {''a'', ''b'', ''c''} 2 placement_default = Some (Inr {''c'', ''a''})"
proof -
  have reps: "select_representatives (Fin False 0) empty_forecast placement_default = Some (Inr [empty_snapshot 0])"
    by (simp add: select_representatives_def empty_forecast_def forecast_add_snapshot_def forecast_new_def
        placement_default_def empty_snapshot_def)
  have score: "evaluate_placement abc (\<lambda>s. []) [empty_snapshot 0] = (\<lambda>t. Fin False 0)"
    by (rule ext) (simp add: evaluate_placement_def List.map_filter_def)
  have stuck: "improve (\<lambda>t. Fin False 0) abc cs cur = None" for cs cur
    by (simp add: improve_def find_None_iff)
  have choice: "select_best_station (\<lambda>t. Fin False 0) {''c''} [''a'', ''b''] = Some ''a''"
    by (simp add: select_best_station_def f64_max_value_def)
  have search: "local_search_refinement (\<lambda>t. Fin False 0) abc cs n cur = cur" for cs n cur
    by (cases n) (simp_all only: local_search_refinement.simps stuck option.case)
  have "greedy (\<lambda>t. Fin False 0) 2 {''c''} [''a'', ''b''] = {''c'', ''a''}"
    unfolding greedy.simps [of _ _ "{''c''}"] choice by (simp add: greedy.simps insert_commute)
  then show ?thesis
    by (simp add: select_control_nodes_def reps k_center_with_local_search_def score search) (simp add: abc_def search)
qed

lemma placement_sound_witness:
  "card {''c'', ''a''} \<le> max 1 (2::nat) \<and> {''c'', ''a''} \<subseteq> {''a'', ''b'', ''c''}"
  using placement_sound [OF abc_orders empty_selected] by simp

text \<open>
  When one representative snapshot has a satellite but none of the candidate stations, the greedy choice
  and the local search change nothing: one station is returned, however many were asked for, and no error.
\<close>

lemma unseen_stations_give_one:
  assumes "set_orders candidates ord" "candidates \<noteq> {}" "k \<le> card candidates"
    and "select_representatives z f alg = Some (Inr ss)" "s \<in> set ss" "set (nord s) = dom (sg_nodes s)"
    and "sg_nodes s v = Some st" "is_satellite (ns_node_type st)" "candidates \<inter> dom (sg_nodes s) = {}"
  shows "select_control_nodes z ord nord f candidates k alg = Some (Inr {last (ord candidates)})"
proof -
  let ?score = "evaluate_placement ord nord ss" and ?cs = "ord candidates"
  have cs: "set ?cs = candidates" "?cs \<noteq> []" using set_ordersD(2) [OF assms(1), of candidates] assms(2) by auto
  have score: "?score t = f64_max_value" if "t \<subseteq> candidates" for t
  proof (rule evaluate_placement_unseen [where s = s and v = v and st = st])
    have "set (ord t) = t" using set_ordersD(2) [OF assms(1) that] .
    with that assms(9) show "set (ord t) \<inter> dom (sg_nodes s) = {}" by auto
  qed (fact assms)+
  have last: "last ?cs \<in> candidates" using last_in_set [OF cs(2)] cs(1) by simp
  have rest: "set (butlast ?cs) \<subseteq> candidates" using cs(1) by (auto dest: in_set_butlastD)
  have stuck: "\<not> flt (?score t) f64_max_value" if "t \<subseteq> candidates" for t
    using score [OF that] capped_not_less [OF capped_max] by simp
  have "greedy ?score k {last ?cs} (butlast ?cs) = {last ?cs}" using last rest by (intro greedy_stuck stuck) auto
  moreover have "local_search_refinement ?score ord ?cs (pla_local_search_iterations alg) {last ?cs} = {last ?cs}"
  proof (rule local_search_stuck [OF assms(1)])
    show "\<not> flt (?score t) (?score {last ?cs})" if "t \<subseteq> {last ?cs} \<union> set ?cs" for t
      using that last cs(1) stuck [of t] score [of "{last ?cs}"] by (simp add: insert_absorb)
  qed (use last in simp)
  ultimately show ?thesis using assms(2-4) cs(2)
    by (simp add: select_control_nodes_def k_center_with_local_search_def Let_def)
qed

lemma unseen_stations_give_one_witness:
  "select_control_nodes (lit 0) abc (\<lambda>s. [''s'']) lone_forecast {''a'', ''b'', ''c''} 2 placement_default =
     Some (Inr {last (abc {''a'', ''b'', ''c''})})"
proof (rule unseen_stations_give_one [OF abc_orders])
  show "select_representatives (lit 0) lone_forecast placement_default = Some (Inr [lone_satellite])"
    by (simp add: select_representatives_def lone_forecast_def forecast_add_snapshot_def forecast_new_def placement_default_def)
  show "lone_satellite \<in> set [lone_satellite]" by simp
  show "set [''s''] = dom (sg_nodes lone_satellite)" by (simp add: lone_satellite_def)
  show "sg_nodes lone_satellite ''s'' = Some (the (sg_nodes lone_satellite ''s''))" by (simp add: lone_satellite_def)
  show "is_satellite (ns_node_type (the (sg_nodes lone_satellite ''s'')))" by (simp add: lone_satellite_def)
  show "{''a'', ''b'', ''c''} \<inter> dom (sg_nodes lone_satellite) = {}" by (auto simp: lone_satellite_def)
qed simp_all

end
