(* ===== verification/Control_Assignment.thy ===== *)
theory Control_Assignment
  imports Oisl_Topology Scheduler_Fairness
begin

text \<open>
  The prediction of control node assignments (\<open>oisl/src/resource/control_node_assignment.rs\<close>): the nearest
  node at every step of a time window, and the handoffs a hysteresis on the distances makes of it.

  The propagator is a parameter, a record of its three calls. A hash map of control nodes that is only
  iterated is the list of its entries in iteration order. The inner
  option of the prediction is \<open>None\<close> for a panic, the outer for a loop that does not end.
\<close>

section \<open>Definitions\<close>

record assignment_tle =
  tle_epoch :: datetime
  tle_line1 :: string
  tle_line2 :: string
  mean_motion_rad_min :: f64
  tle_eccentricity :: f64
  inclination_rad :: f64
  raan_rad :: f64
  argument_of_perigee_rad :: f64
  mean_anomaly_rad :: f64
  semi_major_axis_km :: f64

record node_capabilities =
  supports_rf :: bool
  supports_optical :: bool
  max_satellites :: nat

record control_node_location =
  cnl_node_id :: node_id
  cnl_position :: position3d
  cnl_capabilities :: node_capabilities

record assignment_point =
  ap_timestamp :: datetime
  ap_satellite_position :: position3d
  ap_nearest_node :: node_id
  ap_distances :: "node_id \<rightharpoonup> f64"

record handoff_event =
  he_handoff_time :: datetime
  he_from_node :: node_id
  he_to_node :: node_id
  he_distance_reduction :: f64
  he_prediction_index :: nat

record assignment_prediction =
  apr_satellite_id :: string
  apr_prediction_window :: duration
  apr_predictions :: "assignment_point list"
  apr_handoff_events :: "handoff_event list"

datatype assignment_error = InvalidTle string | PredictionFailed string | NoControlNodes

record assignment_algorithm =
  asg_prediction_window :: duration
  asg_prediction_interval :: duration
  asg_handoff_threshold_ratio :: f64

definition assignment_new :: "duration \<Rightarrow> duration \<Rightarrow> f64 \<Rightarrow> assignment_algorithm" where
  "assignment_new w i r =
     \<lparr>asg_prediction_window = w, asg_prediction_interval = i, asg_handoff_threshold_ratio = r\<rparr>"

definition assignment_default :: assignment_algorithm where
  "assignment_default = assignment_new (duration_seconds (12 * 3600)) (duration_seconds 60) (lit (1 / 10))"

subsection \<open>Positions and distances\<close>

record ('el, 'co) sgp4 =
  sgp4_from_tle :: "string \<Rightarrow> string \<Rightarrow> string + 'el"
  sgp4_from_elements :: "'el \<Rightarrow> string + 'co"
  sgp4_propagate :: "'co \<Rightarrow> f64 \<Rightarrow> string + f64 \<times> f64 \<times> f64"

definition minutes_since_epoch :: "assignment_tle \<Rightarrow> datetime \<Rightarrow> f64" where
  "minutes_since_epoch tle t =
     fdiv (fsub (f64_of_int (t div 1000000000)) (f64_of_int (tle_epoch tle div 1000000000))) (lit 60)"

definition predict_position_from_tle :: "('el, 'co) sgp4 \<Rightarrow> assignment_tle \<Rightarrow> datetime \<Rightarrow> assignment_error + position3d" where
  "predict_position_from_tle lib tle t =
     (case sgp4_from_tle lib (tle_line1 tle) (tle_line2 tle) of
        Inl e \<Rightarrow> Inl (PredictionFailed (''SGP4 parse error: '' @ e))
      | Inr el \<Rightarrow>
          (case sgp4_from_elements lib el of
             Inl e \<Rightarrow> Inl (PredictionFailed (''SGP4 constants error: '' @ e))
           | Inr co \<Rightarrow>
               (case sgp4_propagate lib co (minutes_since_epoch tle t) of
                  Inl e \<Rightarrow> Inl (PredictionFailed (''SGP4 propagation error: '' @ e))
                | Inr (x, y, z) \<Rightarrow> Inr \<lparr>x_km = x, y_km = y, z_km = z\<rparr>)))"

definition node_distance :: "position3d \<Rightarrow> position3d \<Rightarrow> f64" where
  "node_distance a b =
     (let dx = fsub (x_km a) (x_km b); dy = fsub (y_km a) (y_km b); dz = fsub (z_km a) (z_km b)
      in fsqrt (fadd (fadd (fmul dx dx) (fmul dy dy)) (fmul dz dz)))"

type_synonym control_nodes = "(node_id \<times> control_node_location) list"

definition node_distances :: "control_nodes \<Rightarrow> position3d \<Rightarrow> (node_id \<times> f64) list" where
  "node_distances ns p = map (\<lambda>(n, l). (n, node_distance p (cnl_position l))) ns"

text \<open>The sort is stable; it compares every element of a slice of two or more, and panics on one that is no number.\<close>

fun insert_by_distance :: "node_id \<times> f64 \<Rightarrow> (node_id \<times> f64) list \<Rightarrow> (node_id \<times> f64) list" where
  "insert_by_distance p [] = [p]"
| "insert_by_distance p (q # qs) =
     (if flt (snd q) (snd p) then q # insert_by_distance p qs else p # q # qs)"

definition sort_by_distance :: "(node_id \<times> f64) list \<Rightarrow> (node_id \<times> f64) list option" where
  "sort_by_distance ps =
     (if 2 \<le> length ps \<and> list_ex (\<lambda>p. snd p = NaN) ps then None else Some (foldr insert_by_distance ps []))"

subsection \<open>The prediction\<close>

text \<open>The point of one step; \<open>distances[0]\<close> panics when there is no control node.\<close>

definition assignment_point_at :: "control_nodes \<Rightarrow> datetime \<Rightarrow> position3d \<Rightarrow> assignment_point option" where
  "assignment_point_at ns t p =
     Option.bind (sort_by_distance (node_distances ns p)) (\<lambda>ds.
       case ds of
         [] \<Rightarrow> None
       | d # _ \<Rightarrow> Some \<lparr>ap_timestamp = t, ap_satellite_position = p, ap_nearest_node = fst d,
                       ap_distances = map_of (rev ds)\<rparr>)"

partial_function (option) predict_loop :: "chrono \<Rightarrow> ('el, 'co) sgp4 \<Rightarrow> duration \<Rightarrow> control_nodes \<Rightarrow> assignment_tle \<Rightarrow>
    datetime \<Rightarrow> datetime \<Rightarrow> assignment_point list \<Rightarrow> (assignment_error + assignment_point list) option option" where
  "predict_loop ch lib interval ns tle t end_time acc =
     (if t \<le> end_time then
        (case predict_position_from_tle lib tle t of
           Inl e \<Rightarrow> Some (Some (Inl e))
         | Inr p \<Rightarrow>
             (case assignment_point_at ns t p of
                None \<Rightarrow> Some None
              | Some pt \<Rightarrow>
                  (case date_add ch t interval of
                     None \<Rightarrow> Some None
                   | Some t' \<Rightarrow> predict_loop ch lib interval ns tle t' end_time (acc @ [pt]))))
      else Some (Some (Inr acc)))"

text \<open>One step of the detection of handoffs: the node assigned so far and the events.\<close>

definition point_distance :: "f64 \<Rightarrow> assignment_point \<Rightarrow> node_id \<Rightarrow> f64" where
  "point_distance d pt n = (case ap_distances pt n of Some x \<Rightarrow> x | None \<Rightarrow> d)"

definition handoff_step :: "assignment_algorithm \<Rightarrow> nat \<times> assignment_point \<Rightarrow>
    node_id option \<times> handoff_event list \<Rightarrow> node_id option \<times> handoff_event list" where
  "handoff_step alg ip st =
     (let (i, pt) = ip; (cur, es) = st; nearest = ap_nearest_node pt
      in case cur of
           None \<Rightarrow> (Some nearest, es)
         | Some prev \<Rightarrow>
             (if prev = nearest then (cur, es)
              else let cd = point_distance f64_max_value pt prev; nd = point_distance (lit 0) pt nearest
                   in if flt nd (fmul cd (fsub (lit 1) (asg_handoff_threshold_ratio alg)))
                      then (Some nearest,
                            es @ [\<lparr>he_handoff_time = ap_timestamp pt, he_from_node = prev, he_to_node = nearest,
                                   he_distance_reduction = fsub cd nd, he_prediction_index = i\<rparr>])
                      else (cur, es)))"

definition identify_handoff_events :: "assignment_algorithm \<Rightarrow> assignment_point list \<Rightarrow> handoff_event list" where
  "identify_handoff_events alg pts = snd (fold (handoff_step alg) (enumerate 0 pts) (None, []))"

definition predict_assignments :: "chrono \<Rightarrow> ('el, 'co) sgp4 \<Rightarrow> datetime \<Rightarrow> assignment_algorithm \<Rightarrow> string \<Rightarrow>
    control_nodes \<Rightarrow> assignment_tle \<Rightarrow> (assignment_error + assignment_prediction) option option" where
  "predict_assignments ch lib now alg sat ns tle =
     (case date_add ch now (asg_prediction_window alg) of
        None \<Rightarrow> Some None
      | Some end_time \<Rightarrow>
          map_option (map_option (\<lambda>r. case r of
              Inl e \<Rightarrow> Inl e
            | Inr pts \<Rightarrow> Inr \<lparr>apr_satellite_id = sat, apr_prediction_window = asg_prediction_window alg,
                apr_predictions = pts, apr_handoff_events = identify_handoff_events alg pts\<rparr>))
            (predict_loop ch lib (asg_prediction_interval alg) ns tle now end_time []))"

text \<open>A single node is not compared, whatever its distance.\<close>

definition get_current_optimal_node :: "position3d \<Rightarrow> control_nodes \<Rightarrow> node_id option option" where
  "get_current_optimal_node p ns =
     map_option (map_option fst) (min_by (\<lambda>(n, l). node_distance p (cnl_position l)) ns)"

section \<open>Lemmas\<close>

subsection \<open>The nearest node\<close>

lemma set_insert_by_distance [simp]: "set (insert_by_distance p qs) = insert p (set qs)"
  by (induction qs) auto

lemma set_sorted [simp]: "set (foldr insert_by_distance ps []) = set ps"
  by (induction ps) auto

lemma insert_by_distance_not_Nil [simp]: "insert_by_distance p qs \<noteq> []"
  by (cases qs) auto

lemma sorted_Nil_iff [simp]: "foldr insert_by_distance ps [] = [] \<longleftrightarrow> ps = []"
  by (cases ps) auto

lemma insert_by_distance_head:
  assumes "\<forall>q \<in> set qs. \<not> flt (snd q) (snd (hd qs))" "\<forall>q \<in> insert p (set qs). snd q \<noteq> NaN"
  shows "\<forall>q \<in> insert p (set qs). \<not> flt (snd q) (snd (hd (insert_by_distance p qs)))"
proof (cases qs)
  case (Cons r rs)
  show ?thesis
  proof (cases "flt (snd r) (snd p)")
    case True
    then have "\<not> flt (snd p) (snd r)" by (rule flt_asym)
    with assms(1) Cons True show ?thesis by auto
  next
    case False
    have "\<not> flt (snd q) (snd p)" if "q \<in> set qs" for q
      by (rule not_flt_trans [of "snd r"]) (use that assms Cons False in auto)
    with False Cons show ?thesis by (auto simp: flt_asym)
  qed
qed simp

lemma sorted_head:
  "\<forall>q \<in> set ps. snd q \<noteq> NaN \<Longrightarrow> \<forall>q \<in> set ps. \<not> flt (snd q) (snd (hd (foldr insert_by_distance ps [])))"
proof (induction ps)
  case (Cons p ps)
  then have "\<forall>q \<in> insert p (set (foldr insert_by_distance ps [])).
      \<not> flt (snd q) (snd (hd (insert_by_distance p (foldr insert_by_distance ps []))))"
    by (intro insert_by_distance_head) auto
  then show ?case by simp
qed simp

lemma map_fst_node_distances [simp]: "map fst (node_distances ns p) = map fst ns"
  by (induction ns) (auto simp: node_distances_def)

lemma node_distances_mem: "(n, d) \<in> set (node_distances ns p) \<longleftrightarrow> (\<exists>l. (n, l) \<in> set ns \<and> d = node_distance p (cnl_position l))"
  by (force simp: node_distances_def)

lemma distinct_insert_by_distance: "distinct (map fst (insert_by_distance p qs)) \<longleftrightarrow> distinct (map fst (p # qs))"
  by (induction qs) auto

lemma distinct_sorted: "distinct (map fst ps) \<Longrightarrow> distinct (map fst (foldr insert_by_distance ps []))"
  by (induction ps) (auto simp: distinct_insert_by_distance simp del: distinct.simps(2) simp: distinct.simps(2) [of "fst _"])

definition numeric_distances :: "control_nodes \<Rightarrow> position3d \<Rightarrow> bool" where
  "numeric_distances ns p \<longleftrightarrow> (\<forall>(n, l) \<in> set ns. node_distance p (cnl_position l) \<noteq> NaN)"

definition nearest_at :: "control_nodes \<Rightarrow> assignment_point \<Rightarrow> bool" where
  "nearest_at ns pt \<longleftrightarrow> (\<exists>l. (ap_nearest_node pt, l) \<in> set ns \<and>
     (\<forall>(m, k) \<in> set ns. ap_distances pt m = Some (node_distance (ap_satellite_position pt) (cnl_position k)) \<and>
        \<not> flt (node_distance (ap_satellite_position pt) (cnl_position k))
              (node_distance (ap_satellite_position pt) (cnl_position l))))"

lemma assignment_point_at_nearest:
  assumes "ns \<noteq> []" "distinct (map fst ns)" "numeric_distances ns p"
  shows "\<exists>pt. assignment_point_at ns t p = Some pt \<and> ap_timestamp pt = t \<and> ap_satellite_position pt = p \<and> nearest_at ns pt"
proof -
  let ?ps = "node_distances ns p"
  let ?ds = "foldr insert_by_distance ?ps []"
  have num: "\<forall>q \<in> set ?ps. snd q \<noteq> NaN" using assms(3) by (auto simp: numeric_distances_def node_distances_def)
  then have sort: "sort_by_distance ?ps = Some ?ds" by (auto simp: sort_by_distance_def list_ex_iff)
  obtain n d ds where ds: "?ds = (n, d) # ds" using assms(1) by (cases ?ds) (auto simp: node_distances_def)
  then have "(n, d) \<in> set ?ps" using set_sorted [of ?ps] by (metis list.set_intros(1))
  then obtain l where l: "(n, l) \<in> set ns" "d = node_distance p (cnl_position l)" by (auto simp: node_distances_mem)
  let ?pt = "\<lparr>ap_timestamp = t, ap_satellite_position = p, ap_nearest_node = n, ap_distances = map_of (rev ?ds)\<rparr>"
  have pt: "assignment_point_at ns t p = Some ?pt" by (simp add: assignment_point_at_def sort ds)
  have dist: "distinct (map fst (rev ?ds))" using distinct_sorted [of ?ps] assms(2) by (simp flip: rev_map)
  have "nearest_at ns ?pt"
    unfolding nearest_at_def
  proof (rule exI [of _ l], intro conjI ballI, goal_cases)
    case 1
    from l(1) show ?case by simp
  next
    case (2 mk)
    obtain m k where mk: "mk = (m, k)" by (cases mk)
    with 2 have mem: "(m, node_distance p (cnl_position k)) \<in> set ?ps" by (auto simp: node_distances_mem)
    then have "map_of (rev ?ds) m = Some (node_distance p (cnl_position k))"
      using dist by (intro map_of_is_SomeI) auto
    moreover have "\<not> flt (node_distance p (cnl_position k)) d" using bspec [OF sorted_head [OF num] mem] ds by simp
    ultimately show ?case by (simp add: mk l(2))
  qed
  with pt show ?thesis by auto
qed

subsection \<open>The loop\<close>

lemma predict_loop_done: "end_time < t \<Longrightarrow> predict_loop ch lib v ns tle t end_time acc = Some (Some (Inr acc))"
  by (simp add: predict_loop.simps)

lemma predict_loop_step:
  assumes "t \<le> end_time" "predict_position_from_tle lib tle t = Inr p" "assignment_point_at ns t p = Some pt"
    and "date_in_range ch (t + v)"
  shows "predict_loop ch lib v ns tle t end_time acc = predict_loop ch lib v ns tle (t + v) end_time (acc @ [pt])"
  using assms by (simp add: predict_loop.simps [of ch lib v ns tle t] date_add_def)

definition points_every :: "('el, 'co) sgp4 \<Rightarrow> control_nodes \<Rightarrow> assignment_tle \<Rightarrow> datetime \<Rightarrow> duration \<Rightarrow>
    assignment_point list \<Rightarrow> bool" where
  "points_every lib ns tle t v pts \<longleftrightarrow> (\<forall>i < length pts. ap_timestamp (pts ! i) = t + int i * v \<and>
     predict_position_from_tle lib tle (t + int i * v) = Inr (ap_satellite_position (pts ! i)) \<and> nearest_at ns (pts ! i))"

lemma points_every_Cons:
  assumes "ap_timestamp pt = t" "predict_position_from_tle lib tle t = Inr (ap_satellite_position pt)" "nearest_at ns pt"
    and "points_every lib ns tle (t + v) v pts"
  shows "points_every lib ns tle t v (pt # pts)"
  using assms by (auto simp: points_every_def nth_Cons algebra_simps split: nat.splits)

text \<open>With a positive interval the loop ends after the steps that fit into the window.\<close>

lemma predict_loop_completes:
  assumes "0 < v" "ns \<noteq> []" "distinct (map fst ns)"
    and "\<forall>u \<in> {t..end_time + v}. date_in_range ch u"
    and "\<forall>u \<in> {t..end_time}. \<exists>p. predict_position_from_tle lib tle u = Inr p \<and> numeric_distances ns p"
  shows "\<exists>pts. predict_loop ch lib v ns tle t end_time acc = Some (Some (Inr (acc @ pts))) \<and>
    points_every lib ns tle t v pts \<and> length pts = (if end_time < t then 0 else nat ((end_time - t) div v) + 1)"
  using assms(4,5)
proof (induction "nat (end_time + 1 - t)" arbitrary: t acc rule: less_induct)
  case less
  show ?case
  proof (cases "end_time < t")
    case True
    then show ?thesis by (auto simp: predict_loop_done points_every_def)
  next
    case False
    then obtain p where p: "predict_position_from_tle lib tle t = Inr p" "numeric_distances ns p"
      using bspec [OF less.prems(2), of t] by (auto simp: not_less)
    obtain pt where pt: "assignment_point_at ns t p = Some pt" "ap_timestamp pt = t" "ap_satellite_position pt = p"
        "nearest_at ns pt"
      using assignment_point_at_nearest [OF assms(2,3) p(2)] by blast
    have step: "predict_loop ch lib v ns tle t end_time acc = predict_loop ch lib v ns tle (t + v) end_time (acc @ [pt])"
      by (rule predict_loop_step [OF _ p(1) pt(1)]) (use False less.prems(1) assms(1) in auto)
    obtain pts where pts: "predict_loop ch lib v ns tle (t + v) end_time (acc @ [pt]) = Some (Some (Inr ((acc @ [pt]) @ pts)))"
        "points_every lib ns tle (t + v) v pts"
        "length pts = (if end_time < t + v then 0 else nat ((end_time - (t + v)) div v) + 1)"
      using less.hyps [of "t + v" "acc @ [pt]"] less.prems assms(1) False by force
    have "points_every lib ns tle t v (pt # pts)" using points_every_Cons [of pt t lib tle ns v pts] pt p(1) pts(2) by simp
    moreover have "length (pt # pts) = nat ((end_time - t) div v) + 1"
    proof (cases "end_time < t + v")
      case True
      then have "(end_time - t) div v = 0" using False by (intro div_pos_pos_trivial) auto
      with True pts(3) show ?thesis by simp
    next
      case ge: False
      have "(end_time - t) div v = (end_time - (t + v)) div v + 1"
        using div_add_self2 [of v "end_time - (t + v)"] assms(1) by (simp add: algebra_simps)
      moreover have "0 \<le> (end_time - (t + v)) div v" using ge assms(1) by (simp add: pos_imp_zdiv_nonneg_iff)
      ultimately show ?thesis using ge pts(3) by (simp add: nat_add_distrib)
    qed
    ultimately show ?thesis using step pts(1) False by (intro exI [of _ "pt # pts"]) simp
  qed
qed

text \<open>An interval of no length is never left by a return of points.\<close>

lemma predict_loop_stuck:
  assumes "predict_loop ch lib v ns tle t end_time acc = Some r" "v = 0" "t \<le> end_time"
    and "predict_position_from_tle lib tle t = Inr p" "assignment_point_at ns t p = Some pt"
  shows "r = None"
proof -
  have "v = 0 \<longrightarrow> t \<le> end_time \<longrightarrow> predict_position_from_tle lib tle t = Inr p \<longrightarrow> assignment_point_at ns t p = Some pt \<longrightarrow> r = None"
  proof (rule predict_loop.raw_induct [where P = "\<lambda>ch lib v ns tle t end_time acc r. v = 0 \<longrightarrow> t \<le> end_time \<longrightarrow>
      predict_position_from_tle lib tle t = Inr p \<longrightarrow> assignment_point_at ns t p = Some pt \<longrightarrow> r = None", OF _ assms(1)])
  qed (auto split: option.splits sum.splits if_splits simp: date_add_def)
  with assms(2-) show ?thesis by simp
qed

lemma predict_loop_error:
  assumes "predict_loop ch lib v ns tle t end_time acc = Some r" "r = Some (Inl e)"
  shows "\<exists>m. e = PredictionFailed m"
proof -
  have pos: "predict_position_from_tle lib tle u = Inl d \<Longrightarrow> \<exists>m. d = PredictionFailed m" for u d and lib :: "('a, 'b) sgp4" and tle
    by (auto simp: predict_position_from_tle_def split: sum.splits prod.splits)
  have "r = Some (Inl e) \<longrightarrow> (\<exists>m. e = PredictionFailed m)"
  proof (rule predict_loop.raw_induct [where P = "\<lambda>ch lib v ns tle t end_time acc r.
      r = Some (Inl e) \<longrightarrow> (\<exists>m. e = PredictionFailed m)", OF _ assms(1)])
  qed (use pos in \<open>auto split: option.splits sum.splits if_splits\<close>)
  with assms(2) show ?thesis by simp
qed

subsection \<open>Handoffs\<close>

definition handoff_at :: "assignment_algorithm \<Rightarrow> assignment_point list \<Rightarrow> handoff_event \<Rightarrow> bool" where
  "handoff_at alg pts e \<longleftrightarrow> he_prediction_index e < length pts \<and>
     (let pt = pts ! he_prediction_index e;
          cd = point_distance f64_max_value pt (he_from_node e); nd = point_distance (lit 0) pt (he_to_node e)
      in he_handoff_time e = ap_timestamp pt \<and> he_to_node e = ap_nearest_node pt \<and> he_from_node e \<noteq> he_to_node e \<and>
         he_distance_reduction e = fsub cd nd \<and>
         flt nd (fmul cd (fsub (lit 1) (asg_handoff_threshold_ratio alg))))"

fun chained :: "node_id \<Rightarrow> handoff_event list \<Rightarrow> bool" where
  "chained n [] = True"
| "chained n (e # es) = (he_from_node e = n \<and> chained (he_to_node e) es)"

definition last_node :: "node_id \<Rightarrow> handoff_event list \<Rightarrow> node_id" where
  "last_node n es = (if es = [] then n else he_to_node (last es))"

lemma chained_snoc: "chained n (es @ [e]) \<longleftrightarrow> chained n es \<and> he_from_node e = last_node n es"
  by (induction es arbitrary: n) (auto simp: last_node_def)

lemma last_node_snoc [simp]: "last_node n (es @ [e]) = he_to_node e"
  by (simp add: last_node_def)

lemma handoff_at_append: "handoff_at alg pts e \<Longrightarrow> handoff_at alg (pts @ qs) e"
  by (auto simp: handoff_at_def Let_def nth_append)

definition handoffs_ok :: "assignment_algorithm \<Rightarrow> assignment_point list \<Rightarrow> node_id option \<times> handoff_event list \<Rightarrow> bool" where
  "handoffs_ok alg pts st \<longleftrightarrow>
     (case st of (cur, es) \<Rightarrow>
        (pts = [] \<longrightarrow> cur = None \<and> es = []) \<and>
        (pts \<noteq> [] \<longrightarrow> cur = Some (last_node (ap_nearest_node (hd pts)) es) \<and> chained (ap_nearest_node (hd pts)) es) \<and>
        list_all (handoff_at alg pts) es \<and> sorted_wrt (<) (map he_prediction_index es))"

lemma handoffs_ok_step:
  assumes "handoffs_ok alg pts st"
  shows "handoffs_ok alg (pts @ [pt]) (handoff_step alg (length pts, pt) st)"
proof (cases "pts = []")
  case True
  with assms show ?thesis by (auto simp: handoffs_ok_def handoff_step_def last_node_def split: prod.splits)
next
  case False
  let ?n = "ap_nearest_node (hd pts)"
  obtain es where st: "st = (Some (last_node ?n es), es)" and chain: "chained ?n es" and at: "\<forall>e \<in> set es. handoff_at alg pts e"
      and idx: "sorted_wrt (<) (map he_prediction_index es)"
    using assms False by (auto simp: handoffs_ok_def list_all_iff split: prod.splits)
  have old: "\<forall>e \<in> set es. handoff_at alg (pts @ [pt]) e" using at handoff_at_append by blast
  have below: "\<forall>e \<in> set es. he_prediction_index e < length pts" using at by (auto simp: handoff_at_def)
  have hd: "hd (pts @ [pt]) = hd pts" using False by simp
  show ?thesis
    using False chain old idx below unfolding st handoffs_ok_def handoff_step_def hd
    by (auto simp: Let_def list_all_iff handoff_at_def [of alg "pts @ [pt]" "\<lparr>he_handoff_time = _, he_from_node = _, he_to_node = _,
          he_distance_reduction = _, he_prediction_index = _\<rparr>"] sorted_wrt_append chained_snoc)
qed

lemma handoffs_ok_fold: "handoffs_ok alg pts (fold (handoff_step alg) (enumerate 0 pts) (None, []))"
proof (induction pts rule: rev_induct)
  case Nil
  show ?case by (simp add: handoffs_ok_def)
next
  case (snoc pt pts)
  from handoffs_ok_step [OF this, of pt] show ?case by (simp add: enumerate_append_eq)
qed

section \<open>Properties\<close>

text \<open>C27: With a positive interval, a propagator that answers, dates in range and numeric distances, the
  prediction returns: one point for every step of the window, at the position the propagator gives for its
  time, with the distances of all control nodes and a nearest one among them.
\<close>

lemma prediction_completes:
  assumes "0 < asg_prediction_interval alg" "0 \<le> asg_prediction_window alg" "ns \<noteq> []" "distinct (map fst ns)"
    and "\<forall>u \<in> {now..now + asg_prediction_window alg + asg_prediction_interval alg}. date_in_range ch u"
    and "\<forall>u \<in> {now..now + asg_prediction_window alg}.
      \<exists>p. predict_position_from_tle lib tle u = Inr p \<and> numeric_distances ns p"
  shows "\<exists>r. predict_assignments ch lib now alg sat ns tle = Some (Some (Inr r)) \<and>
    length (apr_predictions r) = nat (asg_prediction_window alg div asg_prediction_interval alg) + 1 \<and>
    points_every lib ns tle now (asg_prediction_interval alg) (apr_predictions r) \<and>
    apr_handoff_events r = identify_handoff_events alg (apr_predictions r)"
proof -
  obtain pts where pts: "predict_loop ch lib (asg_prediction_interval alg) ns tle now (now + asg_prediction_window alg) [] =
        Some (Some (Inr pts))"
      "points_every lib ns tle now (asg_prediction_interval alg) pts"
      "length pts = nat (asg_prediction_window alg div asg_prediction_interval alg) + 1"
    using predict_loop_completes [OF assms(1,3,4), where t = now and end_time = "now + asg_prediction_window alg" and acc = "[]"]
      assms(2,5,6) by force
  have "date_add ch now (asg_prediction_window alg) = Some (now + asg_prediction_window alg)"
    using assms(1,2,5) by (simp add: date_add_def)
  with pts show ?thesis by (simp add: predict_assignments_def)
qed

text \<open>The predicted handoffs form a chain: the first leaves the node that is nearest at the first point, each
  next leaves the node the last one went to, at strictly later points; each goes to the node that is nearest
  at its point, and only when its distance is below the threshold's part of the distance of the node it leaves.
\<close>

lemma handoffs_chained:
  assumes "pts \<noteq> []"
  shows "chained (ap_nearest_node (hd pts)) (identify_handoff_events alg pts) \<and>
    list_all (handoff_at alg pts) (identify_handoff_events alg pts) \<and>
    sorted_wrt (<) (map he_prediction_index (identify_handoff_events alg pts))"
  using handoffs_ok_fold [of alg pts] assms by (auto simp: handoffs_ok_def identify_handoff_events_def split: prod.splits)

text \<open>
  Where the first position is predicted, a prediction over no control nodes panics, although there is an
  error for this case, which no prediction returns; and a prediction with an interval of no length returns
  nothing but a panic.
\<close>

lemma prediction_without_result:
  assumes "0 \<le> asg_prediction_window alg" "predict_position_from_tle lib tle now = Inr p"
  shows "(date_in_range ch (now + asg_prediction_window alg) \<longrightarrow> predict_assignments ch lib now alg sat [] tle = Some None) \<and>
    predict_assignments ch lib now alg sat ns tle \<noteq> Some (Some (Inl NoControlNodes)) \<and>
    (asg_prediction_interval alg = 0 \<longrightarrow> predict_assignments ch lib now alg sat ns tle \<in> {None, Some None})"
proof (intro conjI impI)
  have none: "assignment_point_at [] now p = None"
    by (simp add: assignment_point_at_def sort_by_distance_def node_distances_def)
  assume "date_in_range ch (now + asg_prediction_window alg)"
  with none assms show "predict_assignments ch lib now alg sat [] tle = Some None"
    by (simp add: predict_assignments_def date_add_def predict_loop.simps)
next
  show "predict_assignments ch lib now alg sat ns tle \<noteq> Some (Some (Inl NoControlNodes))"
  proof
    assume err: "predict_assignments ch lib now alg sat ns tle = Some (Some (Inl NoControlNodes))"
    then have "predict_loop ch lib (asg_prediction_interval alg) ns tle now (now + asg_prediction_window alg) [] =
        Some (Some (Inl NoControlNodes))"
      by (auto simp: predict_assignments_def date_add_def map_option_case split: option.splits sum.splits if_splits)
    from predict_loop_error [OF this refl] show False by simp
  qed
next
  assume stuck: "asg_prediction_interval alg = 0"
  let ?run = "predict_loop ch lib (asg_prediction_interval alg) ns tle now (now + asg_prediction_window alg) []"
  have "?run \<in> {None, Some None}"
  proof (cases "assignment_point_at ns now p")
    case None
    with assms show ?thesis by (simp add: predict_loop.simps)
  next
    case (Some pt)
    from predict_loop_stuck [OF _ stuck _ assms(2) this] assms(1) show ?thesis by (cases ?run) auto
  qed
  then show "predict_assignments ch lib now alg sat ns tle \<in> {None, Some None}"
    by (auto simp: predict_assignments_def date_add_def)
qed

subsection \<open>Witnesses\<close>

definition zero_position :: position3d where
  "zero_position = \<lparr>x_km = lit 0, y_km = lit 0, z_km = lit 0\<rparr>"

definition still_sgp4 :: "(unit, unit) sgp4" where
  "still_sgp4 = \<lparr>sgp4_from_tle = (\<lambda>a b. Inr ()), sgp4_from_elements = Inr, sgp4_propagate = (\<lambda>c m. Inr (lit 0, lit 0, lit 0))\<rparr>"

definition any_tle :: assignment_tle where
  "any_tle = \<lparr>tle_epoch = 0, tle_line1 = ''1'', tle_line2 = ''2'', mean_motion_rad_min = lit 0, tle_eccentricity = lit 0,
     inclination_rad = lit 0, raan_rad = lit 0, argument_of_perigee_rad = lit 0, mean_anomaly_rad = lit 0,
     semi_major_axis_km = lit 0\<rparr>"

definition one_control_node :: control_nodes where
  "one_control_node = [(''g'', \<lparr>cnl_node_id = ''g'', cnl_position = zero_position,
     cnl_capabilities = \<lparr>supports_rf = True, supports_optical = True, max_satellites = 1\<rparr>\<rparr>)]"

lemma still_position: "predict_position_from_tle still_sgp4 any_tle t = Inr zero_position"
  by (simp add: predict_position_from_tle_def still_sgp4_def zero_position_def)

lemma one_control_node_numeric: "numeric_distances one_control_node zero_position"
  by (simp add: numeric_distances_def one_control_node_def zero_position_def node_distance_def Let_def fsub_def of_exact_def [of _ 0])

definition any_date :: chrono where
  "any_date = \<lparr>date_in_range = (\<lambda>t. True), duration_in_range = (\<lambda>d. True)\<rparr>"

lemma prediction_completes_witness:
  "\<exists>r. predict_assignments any_date still_sgp4 0 (assignment_new 10 3 (lit 0)) ''s'' one_control_node any_tle =
      Some (Some (Inr r)) \<and> length (apr_predictions r) = 4"
proof -
  have "\<exists>r. predict_assignments any_date still_sgp4 0 (assignment_new 10 3 (lit 0)) ''s'' one_control_node any_tle =
      Some (Some (Inr r)) \<and>
    length (apr_predictions r) = nat (asg_prediction_window (assignment_new 10 3 (lit 0)) div
      asg_prediction_interval (assignment_new 10 3 (lit 0))) + 1 \<and>
    points_every still_sgp4 one_control_node any_tle 0 (asg_prediction_interval (assignment_new 10 3 (lit 0))) (apr_predictions r) \<and>
    apr_handoff_events r = identify_handoff_events (assignment_new 10 3 (lit 0)) (apr_predictions r)"
    by (rule prediction_completes)
      (simp_all add: assignment_new_def one_control_node_def any_date_def still_position
        one_control_node_numeric [unfolded one_control_node_def, simplified])
  then show ?thesis by (auto simp: assignment_new_def)
qed

lemma handoffs_chained_witness:
  "chained ''a'' (identify_handoff_events assignment_default
     [\<lparr>ap_timestamp = 0, ap_satellite_position = zero_position, ap_nearest_node = ''a'', ap_distances = Map.empty\<rparr>])"
  using handoffs_chained [of "[\<lparr>ap_timestamp = 0, ap_satellite_position = zero_position, ap_nearest_node = ''a'',
      ap_distances = Map.empty\<rparr>]" assignment_default] by simp

lemma prediction_without_result_witness:
  "predict_assignments any_date still_sgp4 0 assignment_default ''s'' [] any_tle = Some None"
  using prediction_without_result [of assignment_default still_sgp4 any_tle 0 zero_position any_date "''s''" "[]"]
  by (simp add: still_position any_date_def assignment_default_def assignment_new_def duration_seconds_def)

end
