(* ===== verification/Log_Provenance.thy ===== *)
theory Log_Provenance
  imports Bitemporal_Log F64
begin

text \<open>
  Provenance chains and their verification (\<open>bitemporal/src/provenance.rs\<close>).

  SHA-256 with its hexadecimal rendering is a parameter. Strings stand for their bytes. The count of
  matched links is an integer of 32 bits, as the compiler infers it.
\<close>

section \<open>Definitions\<close>

datatype provenance_link_type =
    SatelliteEmission "f64 \<times> f64 \<times> f64" u64
  | RfReception string string u64
  | Demodulation string u64
  | ProtocolTranslation string u64
  | DataNormalization string u64
  | FederationHandoff string string
  | CustomerDelivery string string

record 'j provenance_link =
  pvl_link_type :: provenance_link_type
  pvl_event_time :: event_time
  pvl_reception_time :: reception_time
  pvl_data :: 'j
  pvl_hash :: string
  pvl_previous_hash :: "string option"
  pvl_signature :: "string option"

record 'j log_provenance =
  pvc_pass_id :: pass_id
  pvc_satellite_id :: string
  pvc_station_id :: string
  pvc_links :: "'j provenance_link list"
  pvc_chain_hash :: string

definition log_provenance_new :: "pass_id \<Rightarrow> string \<Rightarrow> string \<Rightarrow> 'j log_provenance" where
  "log_provenance_new p sat st =
     \<lparr>pvc_pass_id = p, pvc_satellite_id = sat, pvc_station_id = st, pvc_links = [], pvc_chain_hash = []\<rparr>"

definition recompute_chain_hash :: "(string \<Rightarrow> string) \<Rightarrow> 'j log_provenance \<Rightarrow> 'j log_provenance" where
  "recompute_chain_hash sha c = c\<lparr>pvc_chain_hash :=
     sha (pass_id_str (pvc_pass_id c) @ pvc_satellite_id c @ pvc_station_id c @ concat (map pvl_hash (pvc_links c)))\<rparr>"

definition add_link :: "(string \<Rightarrow> string) \<Rightarrow> 'j provenance_link \<Rightarrow> 'j log_provenance \<Rightarrow>
    unit result \<times> 'j log_provenance" where
  "add_link sha k c =
     (if pvc_links c \<noteq> [] \<and> pvl_previous_hash k \<noteq> Some (pvl_hash (last (pvc_links c)))
      then (Inl (Database ''Provenance chain integrity broken''), c)
      else (Inr (), recompute_chain_hash sha (c\<lparr>pvc_links := pvc_links c @ [k]\<rparr>)))"

fun links_from :: "string option \<Rightarrow> 'j provenance_link list \<Rightarrow> bool" where
  "links_from prev [] = True"
| "links_from prev (k # ks) = (if pvl_previous_hash k \<noteq> prev then False else links_from (Some (pvl_hash k)) ks)"

definition provenance_verify :: "(string \<Rightarrow> string) \<Rightarrow> 'j log_provenance \<Rightarrow> bool" where
  "provenance_verify sha c \<longleftrightarrow>
     links_from None (pvc_links c) \<and> pvc_chain_hash (recompute_chain_hash sha c) = pvc_chain_hash c"

definition provenance_timeline :: "'j log_provenance \<Rightarrow> (event_time \<times> reception_time \<times> provenance_link_type) list" where
  "provenance_timeline c = map (\<lambda>k. (pvl_event_time k, pvl_reception_time k, pvl_link_type k)) (pvc_links c)"

definition total_propagation_delay :: "'j log_provenance \<Rightarrow> duration" where
  "total_propagation_delay c =
     (if pvc_links c = [] then 0
      else reception_datetime (pvl_reception_time (last (pvc_links c))) -
           event_datetime (pvl_event_time (hd (pvc_links c))))"

subsection \<open>The verifier\<close>

record provenance_verifier =
  pvv_station_keys :: "string \<rightharpoonup> string"

definition provenance_verifier_new :: provenance_verifier where
  "provenance_verifier_new = \<lparr>pvv_station_keys = Map.empty\<rparr>"

definition add_station_key :: "string \<Rightarrow> string \<Rightarrow> provenance_verifier \<Rightarrow> provenance_verifier" where
  "add_station_key s k v = v\<lparr>pvv_station_keys := (pvv_station_keys v)(s \<mapsto> k)\<rparr>"

fun is_federation_handoff :: "provenance_link_type \<Rightarrow> bool" where
  "is_federation_handoff (FederationHandoff a b) = True"
| "is_federation_handoff _ = False"

definition handoff_unsigned :: "'j provenance_link \<Rightarrow> bool" where
  "handoff_unsigned k \<longleftrightarrow> is_federation_handoff (pvl_link_type k) \<and> pvl_signature k = Some []"

definition verify_federated_chain :: "(string \<Rightarrow> string) \<Rightarrow> 'j log_provenance \<Rightarrow> provenance_verifier \<Rightarrow> bool result" where
  "verify_federated_chain sha c v =
     (if \<not> provenance_verify sha c then Inr False
      else if list_ex handoff_unsigned (pvc_links c) then Inr False else Inr True)"

record cross_result =
  cvr_match_rate :: f64
  cvr_bitemporal_consistency :: bool
  cvr_details :: string

definition events_match :: "'j provenance_link \<Rightarrow> 'j provenance_link \<Rightarrow> bool" where
  "events_match a b \<longleftrightarrow>
     \<bar>num_milliseconds (event_datetime (pvl_event_time a) - event_datetime (pvl_event_time b))\<bar> < 100"

definition matched_links :: "'j provenance_link list \<Rightarrow> 'j provenance_link list \<Rightarrow> u32" where
  "matched_links as bs = of_nat (length (filter (\<lambda>(a, b). events_match a b) (List.product as bs)))"

definition links_rate :: "u32 \<Rightarrow> nat \<Rightarrow> f64" where
  "links_rate m n = (if 0 < n then fdiv (f64_of_int (sint (2 * m))) (f64_of_nat n) else lit 0)"

definition cross_verify_chains :: "(string \<Rightarrow> string) \<Rightarrow> 'j log_provenance \<Rightarrow> 'j log_provenance \<Rightarrow>
    provenance_verifier \<Rightarrow> cross_result result" where
  "cross_verify_chains sha c1 c2 v =
     (if \<not> provenance_verify sha c1 \<or> \<not> provenance_verify sha c2
      then Inr \<lparr>cvr_match_rate = lit 0, cvr_bitemporal_consistency = False, cvr_details = ''One or both chains invalid''\<rparr>
      else if pvc_satellite_id c1 \<noteq> pvc_satellite_id c2
      then Inr \<lparr>cvr_match_rate = lit 0, cvr_bitemporal_consistency = False, cvr_details = ''Different satellites''\<rparr>
      else
        (let m = matched_links (pvc_links c1) (pvc_links c2);
             n = length (pvc_links c1) + length (pvc_links c2);
             rate = links_rate m n
         in Inr \<lparr>cvr_match_rate = rate, cvr_bitemporal_consistency = flt (lit (8 / 10)) rate,
              cvr_details = ''Matched '' @ show_int (sint m) @ '' of '' @ show_nat (n div 2) @ '' links''\<rparr>))"

subsection \<open>Runs\<close>

inductive provenance_step :: "(string \<Rightarrow> string) \<Rightarrow> 'j log_provenance \<Rightarrow> 'j log_provenance \<Rightarrow> bool"
  for sha :: "string \<Rightarrow> string" where
  step_add_link: "provenance_step sha c (snd (add_link sha k c))"

inductive_cases provenance_stepE: "provenance_step sha c c'"

section \<open>Lemmas\<close>

lemma links_from_snoc:
  "links_from prev (ks @ [k]) \<longleftrightarrow> links_from prev ks \<and>
     pvl_previous_hash k = (if ks = [] then prev else Some (pvl_hash (last ks)))"
  by (induction ks arbitrary: prev) auto

lemma links_from_nth:
  "links_from prev ks \<longleftrightarrow> (\<forall>i < length ks. pvl_previous_hash (ks ! i) = (if i = 0 then prev else Some (pvl_hash (ks ! (i - 1)))))"
proof (induction ks arbitrary: prev)
  case (Cons k ks)
  have "links_from prev (k # ks) \<longleftrightarrow> pvl_previous_hash k = prev \<and>
      (\<forall>i < length ks. pvl_previous_hash (ks ! i) = (if i = 0 then Some (pvl_hash k) else Some (pvl_hash (ks ! (i - 1)))))"
    using Cons.IH by simp
  also have "\<dots> \<longleftrightarrow> (\<forall>i < length (k # ks). pvl_previous_hash ((k # ks) ! i) =
      (if i = 0 then prev else Some (pvl_hash ((k # ks) ! (i - 1)))))"
    by (subst All_less_Suc2 [of "length ks", folded list.size(4) [of k ks, unfolded add_Suc_right add_0_right]])
      (auto simp: nth_Cons')
  finally show ?case .
qed simp

lemma recompute_chain_hash_simps [simp]:
  "pvc_links (recompute_chain_hash sha c) = pvc_links c"
  "pvc_pass_id (recompute_chain_hash sha c) = pvc_pass_id c"
  "pvc_satellite_id (recompute_chain_hash sha c) = pvc_satellite_id c"
  "pvc_station_id (recompute_chain_hash sha c) = pvc_station_id c"
  "recompute_chain_hash sha (recompute_chain_hash sha c) = recompute_chain_hash sha c"
  by (simp_all add: recompute_chain_hash_def)

text \<open>What a chain built by \<open>add_link\<close> is: its links are linked from whatever the first one names.\<close>

definition chain_inv :: "(string \<Rightarrow> string) \<Rightarrow> 'j log_provenance \<Rightarrow> bool" where
  "chain_inv sha c \<longleftrightarrow>
     (pvc_links c = [] \<longrightarrow> pvc_chain_hash c = []) \<and>
     (pvc_links c \<noteq> [] \<longrightarrow> links_from (pvl_previous_hash (hd (pvc_links c))) (pvc_links c) \<and>
        recompute_chain_hash sha c = c)"

lemma chain_inv_new: "chain_inv sha (log_provenance_new p sat st)"
  by (simp add: chain_inv_def log_provenance_new_def)

lemma chain_inv_add:
  assumes "chain_inv sha c" shows "chain_inv sha (snd (add_link sha k c))"
  using assms by (auto simp: chain_inv_def add_link_def links_from_snoc hd_append)

interpretation provenance: invariant_system "\<lambda>c. \<exists>p sat st. c = log_provenance_new p sat st" "provenance_step sha" "chain_inv sha"
  for sha :: "string \<Rightarrow> string"
  by unfold_locales (auto elim: provenance_stepE intro: chain_inv_new chain_inv_add)

lemma num_milliseconds_minus: "num_milliseconds (- d) = - num_milliseconds d"
  by (simp add: num_milliseconds_def trunc_div_def)

lemma events_match_sym: "events_match a b \<longleftrightarrow> events_match b a"
proof -
  have "num_milliseconds (event_datetime (pvl_event_time b) - event_datetime (pvl_event_time a)) =
      - num_milliseconds (event_datetime (pvl_event_time a) - event_datetime (pvl_event_time b))"
    using num_milliseconds_minus [of "event_datetime (pvl_event_time a) - event_datetime (pvl_event_time b)"] by simp
  then show ?thesis by (simp add: events_match_def)
qed

lemma length_filter_product:
  "length (filter (\<lambda>(a, b). P a b) (List.product as bs)) = (\<Sum>a\<leftarrow>as. length (filter (P a) bs))"
  by (induction as) (simp_all add: filter_map comp_def)

lemma length_filter_product_sym:
  "length (filter (\<lambda>(a, b). P a b) (List.product as bs)) = length (filter (\<lambda>(b, a). P a b) (List.product bs as))"
proof (induction as)
  case Nil
  show ?case by (induction bs) auto
next
  case (Cons a as)
  have "(\<Sum>b\<leftarrow>bs. length (filter (\<lambda>a. P a b) (a # as))) =
      length (filter (P a) bs) + (\<Sum>b\<leftarrow>bs. length (filter (\<lambda>a. P a b) as))"
    by (induction bs) auto
  with Cons show ?case by (simp add: length_filter_product filter_map comp_def)
qed

lemma matched_links_sym: "matched_links as bs = matched_links bs as"
proof -
  have "length (filter (\<lambda>(a, b). events_match a b) (List.product as bs)) =
      length (filter (\<lambda>(b, a). events_match b a) (List.product bs as))"
    unfolding length_filter_product_sym [of events_match as bs] by (subst events_match_sym) (rule refl)
  then show ?thesis by (simp add: matched_links_def)
qed

lemma length_filter_product_all:
  "\<forall>a \<in> set as. \<forall>b \<in> set bs. P a b \<Longrightarrow> length (filter (\<lambda>(a, b). P a b) (List.product as bs)) = length as * length bs"
  by (subst filter_True) auto

section \<open>Properties\<close>

text \<open>C32: A chain that \<open>add_link\<close> builds verifies exactly when it has a link and the first link names no
  predecessor. \<open>add_link\<close> itself accepts a first link that names one, and the chain can then never verify.
\<close>

lemma built_chain_verifies_iff:
  assumes "\<And>x. sha x \<noteq> []"
    and "reach (\<lambda>c. \<exists>p sat st. c = log_provenance_new p sat st) (provenance_step sha) c"
  shows "provenance_verify sha c \<longleftrightarrow> pvc_links c \<noteq> [] \<and> pvl_previous_hash (hd (pvc_links c)) = None"
proof -
  have inv: "chain_inv sha c" by (rule provenance.reach_inv [OF assms(2)])
  show ?thesis
  proof (cases "pvc_links c")
    case Nil
    with inv assms(1) show ?thesis by (simp add: chain_inv_def provenance_verify_def recompute_chain_hash_def)
  next
    case (Cons k ks)
    with inv have "links_from (pvl_previous_hash k) (k # ks)" "recompute_chain_hash sha c = c"
      by (auto simp: chain_inv_def)
    with Cons show ?thesis by (auto simp: provenance_verify_def)
  qed
qed

text \<open>The verification of a chain reads the hashes of its links only. The kind, the times, the data and the
  signature of every link can be replaced without it noticing, because no hash of a link is ever computed.
\<close>

lemma provenance_hides_changes:
  assumes "\<And>k. pvl_hash (f k) = pvl_hash k \<and> pvl_previous_hash (f k) = pvl_previous_hash k"
  shows "provenance_verify sha (c\<lparr>pvc_links := map f (pvc_links c)\<rparr>) = provenance_verify sha c"
proof -
  have "links_from prev (map f ks) = links_from prev ks" for prev ks
    using assms by (induction ks arbitrary: prev) auto
  moreover have "pvl_hash \<circ> f = pvl_hash" using assms by auto
  ultimately show ?thesis by (simp add: provenance_verify_def recompute_chain_hash_def)
qed

text \<open>C0: The cross-verification of two chains does not depend on their order. When all events of two verified
  chains of \<open>n\<close> links each lie close together, the rate is \<open>2 n n / 2 n\<close>, which exceeds 1 for every \<open>n\<close>
  above 1: each pair of links is counted.
\<close>

lemma cross_verify_symmetric:
  shows "cross_verify_chains sha c1 c2 v = cross_verify_chains sha c2 c1 v \<and>
    (provenance_verify sha c1 \<and> provenance_verify sha c2 \<and> pvc_satellite_id c1 = pvc_satellite_id c2 \<and>
       length (pvc_links c1) = n \<and> length (pvc_links c2) = n \<and>
       (\<forall>a \<in> set (pvc_links c1). \<forall>b \<in> set (pvc_links c2). events_match a b) \<longrightarrow>
     (\<exists>r. cross_verify_chains sha c1 c2 v = Inr r \<and> cvr_match_rate r = links_rate (of_nat (n * n)) (n + n)))"
proof (intro conjI impI, goal_cases)
  case 1
  show ?case by (auto simp: cross_verify_chains_def Let_def matched_links_sym [of "pvc_links c1"] add.commute)
next
  case 2
  then have "length (filter (\<lambda>(a, b). events_match a b) (List.product (pvc_links c1) (pvc_links c2))) = n * n"
    using length_filter_product_all [of "pvc_links c1" "pvc_links c2" events_match] by simp
  with 2 show ?case by (simp add: cross_verify_chains_def Let_def matched_links_def)
qed

text \<open>The verifier accepts the chain of another station exactly when the chain verifies and no handoff between
  stations has an empty signature: a missing signature and any other text pass, and no key is ever read.
\<close>

lemma federated_chain_iff:
  "verify_federated_chain sha c v = Inr True \<longleftrightarrow>
     provenance_verify sha c \<and> (\<forall>k \<in> set (pvc_links c). \<not> handoff_unsigned k)"
  "verify_federated_chain sha c v = verify_federated_chain sha c provenance_verifier_new"
  by (auto simp: verify_federated_chain_def list_ex_iff)

subsection \<open>Witnesses\<close>

definition constant_sha :: "string \<Rightarrow> string" where
  "constant_sha x = ''00''"

definition link_at :: "datetime \<Rightarrow> string \<Rightarrow> string option \<Rightarrow> unit provenance_link" where
  "link_at t h prev = \<lparr>pvl_link_type = Demodulation ''qpsk'' 1, pvl_event_time = EventTime t,
     pvl_reception_time = ReceptionTime t, pvl_data = (), pvl_hash = h, pvl_previous_hash = prev, pvl_signature = None\<rparr>"

definition two_links :: "unit log_provenance" where
  "two_links = snd (add_link constant_sha (link_at 1 ''b'' (Some ''a''))
     (snd (add_link constant_sha (link_at 0 ''a'' None) (log_provenance_new (PassId ''p'') ''sat'' ''st''))))"

lemma two_links_links: "pvc_links two_links = [link_at 0 ''a'' None, link_at 1 ''b'' (Some ''a'')]"
  by (simp add: two_links_def add_link_def log_provenance_new_def link_at_def)

lemma two_links_reach: "reach (\<lambda>c. \<exists>p sat st. c = log_provenance_new p sat st) (provenance_step constant_sha) two_links"
  unfolding two_links_def by (blast intro: reach_step reach_init step_add_link)

lemma built_chain_verifies_two: "provenance_verify constant_sha two_links"
  using provenance.reach_inv [OF two_links_reach]
  by (simp add: provenance_verify_def chain_inv_def two_links_links link_at_def)

lemma built_chain_verifies_iff_witness: "provenance_verify constant_sha two_links"
  using built_chain_verifies_iff [OF _ two_links_reach] by (simp add: constant_sha_def two_links_links link_at_def)

lemma provenance_hides_changes_witness:
  "provenance_verify constant_sha (two_links\<lparr>pvc_links := map (\<lambda>k. k\<lparr>pvl_event_time := EventTime 9\<rparr>) (pvc_links two_links)\<rparr>) =
     provenance_verify constant_sha two_links"
  by (rule provenance_hides_changes) simp

lemma cross_verify_symmetric_witness:
  "\<exists>r. cross_verify_chains constant_sha two_links two_links provenance_verifier_new = Inr r \<and>
     cvr_match_rate r = links_rate 4 4"
  using cross_verify_symmetric [of constant_sha two_links two_links provenance_verifier_new 2]
  by (simp add: built_chain_verifies_two two_links_links events_match_def num_milliseconds_def trunc_div_def link_at_def)

end
