(* ===== verification/Policy_Compiler.thy ===== *)
theory Policy_Compiler
  imports Core_Types F64
begin

text \<open>
  The spectrum policy compiler (\<open>policy-compiler/src/\<close>): the rules of a policy, the parser of policy
  documents and the generator of types.

  The JSON library is a parameter: reading a text, indexing a value, which gives a null value where there is
  no such field, and the conversions. The items the generator builds are a datatype of their shapes; their
  rendering as tokens is a parameter. \<open>valid_ident\<close> says which texts the identifier library accepts; it
  panics on the others, which is \<open>None\<close>.
\<close>

section \<open>Definitions\<close>

subsection \<open>Rules\<close>

record policy_band =
  pbd_name :: string
  pbd_lower_hz :: u64
  pbd_upper_hz :: u64
  pbd_regulatory_body :: string
  pbd_jurisdiction :: string

datatype power_type = Eirp | Conducted

datatype power_constraint = DutyCycle f64 | TimeLimit u64 | GeographicRestriction string

record power_limit =
  pl_max_power_dbm :: f64
  pl_power_type :: power_type
  pl_constraints :: "power_constraint list"

datatype license_type = LicenseNone | LicenseGeneral | LicenseSpecific string | LicenseAmateur string

record license_validity =
  lv_issued_at :: datetime
  lv_expires_at :: datetime

record license_requirement =
  lr_license_type :: license_type
  lr_requires_coordination :: bool
  lr_validity_period :: "license_validity option"

datatype coordination_process = PreCoordination u64 | DynamicCoordination u64 | NoCoordination

record coordination_requirement =
  cr_coordination_bodies :: "string list"
  cr_process :: coordination_process

datatype additional_constraint =
    MaxBandwidth u64
  | SpuriousEmissionLimits f64
  | OccupiedBandwidth f64
  | AntennaGainRestriction f64

record band_rules =
  brl_band :: policy_band
  brl_power_limits :: power_limit
  brl_license_requirement :: license_requirement
  brl_coordination :: coordination_requirement
  brl_additional_constraints :: "additional_constraint list"

record regulatory_policy =
  rp_name :: string
  rp_version :: string
  rp_jurisdiction :: string
  rp_band_rules :: "band_rules list"
  rp_issued_at :: datetime

definition policy_new :: "datetime \<Rightarrow> string \<Rightarrow> string \<Rightarrow> regulatory_policy" where
  "policy_new now n j =
     \<lparr>rp_name = n, rp_version = ''1.0'', rp_jurisdiction = j, rp_band_rules = [], rp_issued_at = now\<rparr>"

definition add_band_rules :: "band_rules \<Rightarrow> regulatory_policy \<Rightarrow> regulatory_policy" where
  "add_band_rules r p = p\<lparr>rp_band_rules := rp_band_rules p @ [r]\<rparr>"

definition get_band_rules :: "string \<Rightarrow> regulatory_policy \<Rightarrow> band_rules option" where
  "get_band_rules n p = List.find (\<lambda>r. pbd_name (brl_band r) = n) (rp_band_rules p)"

definition find_band_for_frequency :: "u64 \<Rightarrow> regulatory_policy \<Rightarrow> band_rules option" where
  "find_band_for_frequency f p =
     List.find (\<lambda>r. pbd_lower_hz (brl_band r) \<le> f \<and> f \<le> pbd_upper_hz (brl_band r)) (rp_band_rules p)"

subsection \<open>The parser\<close>

record 'j value_lib =
  vl_from_str :: "string \<Rightarrow> string + 'j"
  vl_index :: "'j \<Rightarrow> string \<Rightarrow> 'j"
  vl_as_str :: "'j \<Rightarrow> string option"
  vl_as_u64 :: "'j \<Rightarrow> u64 option"
  vl_as_f64 :: "'j \<Rightarrow> f64 option"
  vl_as_bool :: "'j \<Rightarrow> bool option"
  vl_as_array :: "'j \<Rightarrow> 'j list option"

text \<open>Lower case decides on the keywords below only, none of which is the image of a letter outside ASCII.\<close>

definition lower_char :: "char \<Rightarrow> char" where
  "lower_char c = (let n = of_char c :: nat in if 65 \<le> n \<and> n \<le> 90 then char_of (n + 32) else c)"

definition to_lowercase :: "string \<Rightarrow> string" where
  "to_lowercase = map lower_char"

definition unwrap_or :: "'a \<Rightarrow> 'a option \<Rightarrow> 'a" where
  "unwrap_or d x = (case x of None \<Rightarrow> d | Some y \<Rightarrow> y)"

definition ok_or_missing :: "string \<Rightarrow> 'a option \<Rightarrow> 'a result" where
  "ok_or_missing m x = (case x of None \<Rightarrow> Inl (InvalidConfiguration m) | Some y \<Rightarrow> Inr y)"

fun result_bind :: "'a result \<Rightarrow> ('a \<Rightarrow> 'b result) \<Rightarrow> 'b result" where
  "result_bind (Inl e) f = Inl e"
| "result_bind (Inr x) f = f x"

definition parse_frequency_band :: "'j value_lib \<Rightarrow> 'j \<Rightarrow> policy_band result" where
  "parse_frequency_band l v =
     (let b = vl_index l v ''band'' in
      result_bind (ok_or_missing ''Missing band name'' (vl_as_str l (vl_index l b ''name''))) (\<lambda>n.
      result_bind (ok_or_missing ''Missing min frequency'' (vl_as_u64 l (vl_index l b ''min_frequency''))) (\<lambda>lo.
      result_bind (ok_or_missing ''Missing max frequency'' (vl_as_u64 l (vl_index l b ''max_frequency''))) (\<lambda>hi.
      Inr \<lparr>pbd_name = n, pbd_lower_hz = lo, pbd_upper_hz = hi,
           pbd_regulatory_body = unwrap_or ''UNKNOWN'' (vl_as_str l (vl_index l b ''regulatory_body'')),
           pbd_jurisdiction = unwrap_or ''GLOBAL'' (vl_as_str l (vl_index l b ''jurisdiction''))\<rparr>))))"

definition parse_power_limits :: "'j value_lib \<Rightarrow> 'j \<Rightarrow> power_limit result" where
  "parse_power_limits l v =
     (let p = vl_index l v ''power_limits'' in
      result_bind (ok_or_missing ''Missing max power'' (vl_as_f64 l (vl_index l p ''max_power_dbm''))) (\<lambda>m.
      let s = unwrap_or ''eirp'' (vl_as_str l (vl_index l p ''power_type'')); t = to_lowercase s in
      result_bind (if t = ''eirp'' then Inr Eirp else if t = ''conducted'' then Inr Conducted
                   else Inl (InvalidConfiguration (''Unknown power type: '' @ s))) (\<lambda>ty.
      Inr \<lparr>pl_max_power_dbm = m, pl_power_type = ty, pl_constraints = []\<rparr>)))"

definition parse_license_requirement :: "'j value_lib \<Rightarrow> 'j \<Rightarrow> license_requirement result" where
  "parse_license_requirement l v =
     (let r = vl_index l v ''license_requirement'';
          s = unwrap_or ''none'' (vl_as_str l (vl_index l r ''license_type'')); t = to_lowercase s in
      result_bind
        (if t = ''none'' then Inr LicenseNone
         else if t = ''general'' then Inr LicenseGeneral
         else if t = ''amateur'' then Inr (LicenseAmateur (unwrap_or ''technician'' (vl_as_str l (vl_index l r ''class''))))
         else if t = ''specific'' then
           result_bind (ok_or_missing ''Missing license class'' (vl_as_str l (vl_index l r ''license_class'')))
             (\<lambda>c. Inr (LicenseSpecific c))
         else Inl (InvalidConfiguration (''Unknown license type: '' @ s))) (\<lambda>ty.
      Inr \<lparr>lr_license_type = ty,
           lr_requires_coordination = unwrap_or False (vl_as_bool l (vl_index l r ''requires_coordination'')),
           lr_validity_period = None\<rparr>))"

definition parse_coordination_requirement :: "'j value_lib \<Rightarrow> 'j \<Rightarrow> coordination_requirement result" where
  "parse_coordination_requirement l v =
     (let c = vl_index l v ''coordination'';
          bodies = unwrap_or [] (map_option (List.map_filter (vl_as_str l)) (vl_as_array l (vl_index l c ''bodies'')));
          s = unwrap_or ''none'' (vl_as_str l (vl_index l c ''process'')); t = to_lowercase s in
      result_bind
        (if t = ''none'' then Inr NoCoordination
         else if t = ''dynamic'' then
           Inr (DynamicCoordination (unwrap_or 100 (vl_as_u64 l (vl_index l c ''response_time_ms''))))
         else if t = ''pre'' then Inr (PreCoordination (unwrap_or 30 (vl_as_u64 l (vl_index l c ''notice_days''))))
         else Inl (InvalidConfiguration (''Unknown coordination process: '' @ s))) (\<lambda>pr.
      Inr \<lparr>cr_coordination_bodies = bodies, cr_process = pr\<rparr>))"

definition parse_band_rules :: "'j value_lib \<Rightarrow> 'j \<Rightarrow> band_rules result" where
  "parse_band_rules l v =
     result_bind (parse_frequency_band l v) (\<lambda>b.
     result_bind (parse_power_limits l v) (\<lambda>p.
     result_bind (parse_license_requirement l v) (\<lambda>r.
     result_bind (parse_coordination_requirement l v) (\<lambda>c.
     Inr \<lparr>brl_band = b, brl_power_limits = p, brl_license_requirement = r, brl_coordination = c,
          brl_additional_constraints = []\<rparr>))))"

fun parse_bands :: "'j value_lib \<Rightarrow> 'j list \<Rightarrow> regulatory_policy \<Rightarrow> regulatory_policy result" where
  "parse_bands l [] p = Inr p"
| "parse_bands l (v # vs) p = result_bind (parse_band_rules l v) (\<lambda>r. parse_bands l vs (add_band_rules r p))"

definition parse_value :: "'j value_lib \<Rightarrow> datetime \<Rightarrow> 'j \<Rightarrow> regulatory_policy result" where
  "parse_value l now v =
     result_bind (ok_or_missing ''Missing policy name'' (vl_as_str l (vl_index l v ''name''))) (\<lambda>n.
     result_bind (ok_or_missing ''Missing jurisdiction'' (vl_as_str l (vl_index l v ''jurisdiction''))) (\<lambda>j.
     let p = policy_new now n j;
         p1 = (case vl_as_str l (vl_index l v ''version'') of None \<Rightarrow> p | Some s \<Rightarrow> p\<lparr>rp_version := s\<rparr>)
     in case vl_as_array l (vl_index l v ''band_rules'') of
          None \<Rightarrow> Inr p1
        | Some vs \<Rightarrow> parse_bands l vs p1))"

definition parse_json :: "'j value_lib \<Rightarrow> datetime \<Rightarrow> string \<Rightarrow> regulatory_policy result" where
  "parse_json l now s =
     (case vl_from_str l s of
        Inl e \<Rightarrow> Inl (InvalidConfiguration (''JSON parse error: '' @ e))
      | Inr v \<Rightarrow> parse_value l now v)"

subsection \<open>The generator\<close>

text \<open>
  The items the templates of the generator build: their names, their fields in order with the types, and the
  values put into them. The two items that belong together are built one after the other.
\<close>

datatype field_type =
    StringField | DateField | StringsField | U64Field
  | MarkerField string    \<comment> \<open>a marker of the band type of this name\<close>

datatype generated_item =
    BandStruct string string
  | BandConstants string u64 u64
  | StructItem string string "(string \<times> field_type) list"
  | ValidityImpl string
  | TransmitFn

record generated_types =
  gt_items :: "generated_item list"

definition band_suffix :: "string \<Rightarrow> string" where
  "band_suffix n = filter (\<lambda>c. c \<noteq> CHR ''-'' \<and> c \<noteq> CHR '' '') n"

definition format_ident :: "(string \<Rightarrow> bool) \<Rightarrow> string \<Rightarrow> string option" where
  "format_ident valid_ident s = (if valid_ident s then Some s else None)"

definition show_mhz :: "u64 \<Rightarrow> string" where
  "show_mhz w = show_nat (unat (w div 1000000))"

definition generate_band_type :: "(string \<Rightarrow> bool) \<Rightarrow> policy_band \<Rightarrow> generated_item list option" where
  "generate_band_type vi b =
     map_option (\<lambda>n. [BandStruct n (pbd_name b @ '' frequency band ('' @ show_mhz (pbd_lower_hz b) @ ''-'' @
                        show_mhz (pbd_upper_hz b) @ '' MHz)''),
                     BandConstants n (pbd_lower_hz b) (pbd_upper_hz b)])
       (format_ident vi (''Band'' @ band_suffix (pbd_name b)))"

definition generate_license_type :: "(string \<Rightarrow> bool) \<Rightarrow> policy_band \<Rightarrow> license_requirement \<Rightarrow>
    generated_item list option" where
  "generate_license_type vi b r =
     Option.bind (format_ident vi (''Band'' @ band_suffix (pbd_name b))) (\<lambda>bn.
     Option.bind (format_ident vi (band_suffix (pbd_name b) @ ''License'')) (\<lambda>ln.
     let doc = ''License for '' @ pbd_name b @ '' transmission'' in
     Some (case lr_license_type r of
         LicenseNone \<Rightarrow> [StructItem ln doc [(''holder'', StringField), (''band'', MarkerField bn)]]
       | LicenseGeneral \<Rightarrow>
           [StructItem ln doc [(''holder'', StringField), (''band'', MarkerField bn), (''valid_from'', DateField),
              (''valid_until'', DateField)], ValidityImpl ln]
       | LicenseSpecific _ \<Rightarrow>
           [StructItem ln doc [(''holder'', StringField), (''license_class'', StringField), (''band'', MarkerField bn),
              (''valid_from'', DateField), (''valid_until'', DateField)], ValidityImpl ln]
       | LicenseAmateur _ \<Rightarrow>
           [StructItem ln doc [(''callsign'', StringField), (''class'', StringField), (''band'', MarkerField bn)]])))"

definition generate_coordination_type :: "(string \<Rightarrow> bool) \<Rightarrow> policy_band \<Rightarrow> coordination_requirement \<Rightarrow>
    generated_item option" where
  "generate_coordination_type vi b c =
     Option.bind (format_ident vi (''Band'' @ band_suffix (pbd_name b))) (\<lambda>bn.
     Option.bind (format_ident vi (band_suffix (pbd_name b) @ ''CoordinationProof'')) (\<lambda>cn.
     Some (StructItem cn (''Coordination proof for '' @ pbd_name b @ '' transmission'')
       [(''coordinated_with'', StringsField), (''band'', MarkerField bn), (''coordination_date'', DateField)])))"

definition generate_frequency_type :: "(string \<Rightarrow> bool) \<Rightarrow> policy_band \<Rightarrow> generated_item option" where
  "generate_frequency_type vi b =
     Option.bind (format_ident vi (''Band'' @ band_suffix (pbd_name b))) (\<lambda>bn.
     Option.bind (format_ident vi (band_suffix (pbd_name b) @ ''Frequency'')) (\<lambda>fn.
     Some (StructItem fn (''Frequency type for '' @ pbd_name b @ '' band ('' @ show_mhz (pbd_lower_hz b) @ ''-'' @
         show_mhz (pbd_upper_hz b) @ '' MHz)'')
       [(''hz'', U64Field), (''band'', MarkerField bn)])))"

definition generate_transmit_function :: generated_item where
  "generate_transmit_function = TransmitFn"

definition from_policy :: "(string \<Rightarrow> bool) \<Rightarrow> regulatory_policy \<Rightarrow> generated_types option" where
  "from_policy vi p =
     (let rs = rp_band_rules p in
      Option.bind (those (map (\<lambda>r. generate_band_type vi (brl_band r)) rs)) (\<lambda>bs.
      Option.bind (those (map (\<lambda>r. generate_license_type vi (brl_band r) (brl_license_requirement r)) rs)) (\<lambda>ls.
      Option.bind (those (map (\<lambda>r. generate_coordination_type vi (brl_band r) (brl_coordination r)) rs)) (\<lambda>cs.
      Option.bind (those (map (\<lambda>r. generate_frequency_type vi (brl_band r)) rs)) (\<lambda>fs.
      Some \<lparr>gt_items = concat bs @ concat ls @ cs @ fs @ [generate_transmit_function]\<rparr>)))))"

definition newline :: string where
  "newline = [CHR 0x0A]"

definition generated_emit :: "(generated_item \<Rightarrow> string) \<Rightarrow> generated_types \<Rightarrow> string" where
  "generated_emit tokens g =
     ''// Auto-generated by spectrum policy compiler'' @ newline @
     ''// DO NOT EDIT - changes will be overwritten'' @ newline @ newline @
     ''use chrono::{DateTime, Utc};'' @ newline @ ''use core::marker::PhantomData;'' @ newline @ newline @
     concat (map (\<lambda>i. tokens i @ newline @ newline) (gt_items g))"

text \<open>The types that an item declares, and those that the transmit template names.\<close>

fun declared :: "generated_item \<Rightarrow> string set" where
  "declared (BandStruct n d) = {n}"
| "declared (StructItem n d fs) = {n}"
| "declared _ = {}"

definition transmit_uses :: "string list" where
  "transmit_uses = [''License'', ''Frequency'', ''Power'', ''CoordinationProof'', ''TransmitError'', ''Band'']"

section \<open>Documents\<close>

text \<open>
  The values a document is built of, and what reading them back gives: the laws of the JSON library the
  parser relies on. An object whose field is asked for gives the value it was built with.
\<close>

record 'j value_builder =
  vb_str :: "string \<Rightarrow> 'j"
  vb_u64 :: "u64 \<Rightarrow> 'j"
  vb_f64 :: "f64 \<Rightarrow> 'j"
  vb_bool :: "bool \<Rightarrow> 'j"
  vb_array :: "'j list \<Rightarrow> 'j"
  vb_object :: "(string \<times> 'j) list \<Rightarrow> 'j"

fun finite_f64 :: "f64 \<Rightarrow> bool" where
  "finite_f64 (Fin s m) = True"
| "finite_f64 _ = False"

definition json_laws :: "'j value_lib \<Rightarrow> 'j value_builder \<Rightarrow> bool" where
  "json_laws l b \<longleftrightarrow>
     (\<forall>s. vl_as_str l (vb_str b s) = Some s) \<and>
     (\<forall>w. vl_as_u64 l (vb_u64 b w) = Some w) \<and>
     (\<forall>x. finite_f64 x \<longrightarrow> vl_as_f64 l (vb_f64 b x) = Some x) \<and>
     (\<forall>x. vl_as_bool l (vb_bool b x) = Some x) \<and>
     (\<forall>vs. vl_as_array l (vb_array b vs) = Some vs) \<and>
     (\<forall>kvs k v. map_of kvs k = Some v \<longrightarrow> vl_index l (vb_object b kvs) k = v)"

text \<open>The document of a policy.\<close>

definition band_document :: "'j value_builder \<Rightarrow> policy_band \<Rightarrow> 'j" where
  "band_document b x = vb_object b [(''name'', vb_str b (pbd_name x)), (''min_frequency'', vb_u64 b (pbd_lower_hz x)),
     (''max_frequency'', vb_u64 b (pbd_upper_hz x)), (''regulatory_body'', vb_str b (pbd_regulatory_body x)),
     (''jurisdiction'', vb_str b (pbd_jurisdiction x))]"

definition power_document :: "'j value_builder \<Rightarrow> power_limit \<Rightarrow> 'j" where
  "power_document b x = vb_object b [(''max_power_dbm'', vb_f64 b (pl_max_power_dbm x)),
     (''power_type'', vb_str b (case pl_power_type x of Eirp \<Rightarrow> ''EIRP'' | Conducted \<Rightarrow> ''conducted''))]"

definition license_document :: "'j value_builder \<Rightarrow> license_requirement \<Rightarrow> 'j" where
  "license_document b x = vb_object b ((''requires_coordination'', vb_bool b (lr_requires_coordination x)) #
     (case lr_license_type x of
        LicenseNone \<Rightarrow> [(''license_type'', vb_str b ''none'')]
      | LicenseGeneral \<Rightarrow> [(''license_type'', vb_str b ''general'')]
      | LicenseSpecific c \<Rightarrow> [(''license_type'', vb_str b ''specific''), (''license_class'', vb_str b c)]
      | LicenseAmateur c \<Rightarrow> [(''license_type'', vb_str b ''amateur''), (''class'', vb_str b c)]))"

definition coordination_document :: "'j value_builder \<Rightarrow> coordination_requirement \<Rightarrow> 'j" where
  "coordination_document b x = vb_object b ((''bodies'', vb_array b (map (vb_str b) (cr_coordination_bodies x))) #
     (case cr_process x of
        NoCoordination \<Rightarrow> [(''process'', vb_str b ''none'')]
      | DynamicCoordination t \<Rightarrow> [(''process'', vb_str b ''dynamic''), (''response_time_ms'', vb_u64 b t)]
      | PreCoordination d \<Rightarrow> [(''process'', vb_str b ''pre''), (''notice_days'', vb_u64 b d)]))"

definition rules_document :: "'j value_builder \<Rightarrow> band_rules \<Rightarrow> 'j" where
  "rules_document b r = vb_object b [(''band'', band_document b (brl_band r)),
     (''power_limits'', power_document b (brl_power_limits r)),
     (''license_requirement'', license_document b (brl_license_requirement r)),
     (''coordination'', coordination_document b (brl_coordination r))]"

definition policy_document :: "'j value_builder \<Rightarrow> regulatory_policy \<Rightarrow> 'j" where
  "policy_document b p = vb_object b [(''name'', vb_str b (rp_name p)), (''jurisdiction'', vb_str b (rp_jurisdiction p)),
     (''version'', vb_str b (rp_version p)), (''band_rules'', vb_array b (map (rules_document b) (rp_band_rules p)))]"

text \<open>What a document can say: the parser leaves the other fields empty.\<close>

definition expressible :: "band_rules \<Rightarrow> bool" where
  "expressible r \<longleftrightarrow> finite_f64 (pl_max_power_dbm (brl_power_limits r)) \<and> pl_constraints (brl_power_limits r) = [] \<and>
     lr_validity_period (brl_license_requirement r) = None \<and> brl_additional_constraints r = []"

section \<open>Lemmas\<close>

lemma result_bind_Inr: "result_bind x f = Inr z \<longleftrightarrow> (\<exists>y. x = Inr y \<and> f y = Inr z)"
  by (cases x) auto

lemma json_lawsD:
  assumes "json_laws l b"
  shows "vl_as_str l (vb_str b s) = Some s" "vl_as_u64 l (vb_u64 b w) = Some w"
    "finite_f64 x \<Longrightarrow> vl_as_f64 l (vb_f64 b x) = Some x" "vl_as_bool l (vb_bool b y) = Some y"
    "vl_as_array l (vb_array b vs) = Some vs" "map_of kvs k = Some v \<Longrightarrow> vl_index l (vb_object b kvs) k = v"
  using assms by (auto simp: json_laws_def)

lemmas parser_simps = ok_or_missing_def unwrap_or_def Let_def

lemma parse_band_document:
  assumes "json_laws l b" "vl_index l v ''band'' = band_document b x"
  shows "parse_frequency_band l v = Inr x"
  using assms(2) by (simp add: parse_frequency_band_def band_document_def json_lawsD [OF assms(1)] parser_simps)

lemma lowercase_eirp: "to_lowercase ''EIRP'' = ''eirp''"
  by code_simp

lemma lowercase_conducted: "to_lowercase ''conducted'' = ''conducted''"
  by code_simp

lemma parse_power_document:
  assumes "json_laws l b" "vl_index l v ''power_limits'' = power_document b x" "finite_f64 (pl_max_power_dbm x)"
    and "pl_constraints x = []"
  shows "parse_power_limits l v = Inr x"
  using assms(2-) by (cases "pl_power_type x")
    (simp_all add: parse_power_limits_def power_document_def json_lawsD [OF assms(1)] parser_simps lowercase_eirp lowercase_conducted)

lemma parse_license_document:
  assumes "json_laws l b" "vl_index l v ''license_requirement'' = license_document b x" "lr_validity_period x = None"
  shows "parse_license_requirement l v = Inr x"
  using assms(2-) by (cases "lr_license_type x")
    (simp_all add: parse_license_requirement_def license_document_def json_lawsD [OF assms(1)] parser_simps to_lowercase_def lower_char_def)

lemma map_filter_strs: "json_laws l b \<Longrightarrow> List.map_filter (vl_as_str l) (map (vb_str b) xs) = xs"
  by (induction xs) (simp_all add: json_lawsD List.map_filter_simps)

lemma parse_coordination_document:
  assumes "json_laws l b" "vl_index l v ''coordination'' = coordination_document b x"
  shows "parse_coordination_requirement l v = Inr x"
  using assms(2) by (cases "cr_process x")
    (simp_all add: parse_coordination_requirement_def coordination_document_def json_lawsD [OF assms(1)]
      map_filter_strs [OF assms(1)] parser_simps to_lowercase_def lower_char_def)

lemma parse_rules_document:
  assumes "json_laws l b" "expressible r"
  shows "parse_band_rules l (rules_document b r) = Inr r"
proof -
  let ?v = "rules_document b r"
  have parts: "vl_index l ?v ''band'' = band_document b (brl_band r)"
      "vl_index l ?v ''power_limits'' = power_document b (brl_power_limits r)"
      "vl_index l ?v ''license_requirement'' = license_document b (brl_license_requirement r)"
      "vl_index l ?v ''coordination'' = coordination_document b (brl_coordination r)"
    by (simp_all add: rules_document_def json_lawsD [OF assms(1)])
  show ?thesis
    using assms(2) parse_band_document [OF assms(1) parts(1)] parse_power_document [OF assms(1) parts(2)]
      parse_license_document [OF assms(1) parts(3)] parse_coordination_document [OF assms(1) parts(4)]
    by (simp add: parse_band_rules_def expressible_def)
qed

lemma parse_bands_document:
  "json_laws l b \<Longrightarrow> list_all expressible rs \<Longrightarrow>
     parse_bands l (map (rules_document b) rs) p = Inr (p\<lparr>rp_band_rules := rp_band_rules p @ rs\<rparr>)"
  by (induction rs arbitrary: p) (simp_all add: parse_rules_document add_band_rules_def)

lemma parse_bands_sound:
  "parse_bands l vs p = Inr q \<Longrightarrow> \<exists>rs. q = p\<lparr>rp_band_rules := rp_band_rules p @ rs\<rparr> \<and> length rs = length vs \<and>
     list_all2 (\<lambda>v r. parse_band_rules l v = Inr r) vs rs"
proof (induction vs arbitrary: p)
  case (Cons v vs)
  then obtain r where r: "parse_band_rules l v = Inr r" "parse_bands l vs (add_band_rules r p) = Inr q"
    by (auto simp: result_bind_Inr)
  from Cons.IH [OF r(2)] r(1) show ?case by (force simp: add_band_rules_def)
qed simp

lemma those_map_nth:
  "those (map f xs) = Some ys \<Longrightarrow> length ys = length xs \<and> (\<forall>i < length xs. f (xs ! i) = Some (ys ! i))"
proof (induction xs arbitrary: ys)
  case (Cons x xs)
  then obtain z zs where z: "f x = Some z" "those (map f xs) = Some zs" "ys = z # zs"
    by (auto split: option.splits)
  from Cons.IH [OF z(2)] z(1,3) show ?case by (auto simp: nth_Cons split: nat.splits)
qed simp

lemma those_map_all: "those (map f xs) = Some ys \<Longrightarrow> y \<in> set ys \<Longrightarrow> \<exists>x \<in> set xs. f x = Some y"
  using those_map_nth [of f xs ys] by (metis in_set_conv_nth)

text \<open>The names of the declared types start with \<open>Band\<close> or end like one of the other kinds.\<close>

definition kind_name :: "string \<Rightarrow> bool" where
  "kind_name n \<longleftrightarrow> (\<exists>s. n = ''Band'' @ s \<or> n = s @ ''License'' \<or> n = s @ ''CoordinationProof'' \<or> n = s @ ''Frequency'')"

lemma kind_nameI: "kind_name (''Band'' @ s)" "kind_name (s @ ''License'')" "kind_name (s @ ''CoordinationProof'')"
  "kind_name (s @ ''Frequency'')"
  by (auto simp: kind_name_def)

lemma declared_band: "generate_band_type vi b = Some is \<Longrightarrow> i \<in> set is \<Longrightarrow> n \<in> declared i \<Longrightarrow> kind_name n"
  using kind_nameI(1) by (auto simp: generate_band_type_def format_ident_def split: if_splits)

lemma declared_license: "generate_license_type vi b r = Some is \<Longrightarrow> i \<in> set is \<Longrightarrow> n \<in> declared i \<Longrightarrow> kind_name n"
  using kind_nameI(2) by (auto simp: generate_license_type_def format_ident_def Let_def bind_eq_Some_conv
      split: if_splits license_type.splits)

lemma declared_coordination: "generate_coordination_type vi b r = Some i \<Longrightarrow> n \<in> declared i \<Longrightarrow> kind_name n"
  using kind_nameI(3) by (auto simp: generate_coordination_type_def format_ident_def bind_eq_Some_conv split: if_splits)

lemma declared_frequency: "generate_frequency_type vi b = Some i \<Longrightarrow> n \<in> declared i \<Longrightarrow> kind_name n"
  using kind_nameI(4) by (auto simp: generate_frequency_type_def format_ident_def bind_eq_Some_conv split: if_splits)

lemma from_policy_SomeE:
  assumes "from_policy vi p = Some g"
  obtains bs ls cs fs where
    "those (map (\<lambda>r. generate_band_type vi (brl_band r)) (rp_band_rules p)) = Some bs"
    "those (map (\<lambda>r. generate_license_type vi (brl_band r) (brl_license_requirement r)) (rp_band_rules p)) = Some ls"
    "those (map (\<lambda>r. generate_coordination_type vi (brl_band r) (brl_coordination r)) (rp_band_rules p)) = Some cs"
    "those (map (\<lambda>r. generate_frequency_type vi (brl_band r)) (rp_band_rules p)) = Some fs"
    "gt_items g = concat bs @ concat ls @ cs @ fs @ [TransmitFn]"
  using assms by (auto simp: from_policy_def Let_def bind_eq_Some_conv generate_transmit_function_def)

lemma declared_kind_name:
  assumes "from_policy vi p = Some g" "i \<in> set (gt_items g)" "n \<in> declared i"
  shows "kind_name n"
proof -
  obtain bs ls cs fs where parts:
    "those (map (\<lambda>r. generate_band_type vi (brl_band r)) (rp_band_rules p)) = Some bs"
    "those (map (\<lambda>r. generate_license_type vi (brl_band r) (brl_license_requirement r)) (rp_band_rules p)) = Some ls"
    "those (map (\<lambda>r. generate_coordination_type vi (brl_band r) (brl_coordination r)) (rp_band_rules p)) = Some cs"
    "those (map (\<lambda>r. generate_frequency_type vi (brl_band r)) (rp_band_rules p)) = Some fs"
    and items: "gt_items g = concat bs @ concat ls @ cs @ fs @ [TransmitFn]"
    by (rule from_policy_SomeE [OF assms(1)])
  from assms(2,3) items consider xs where "xs \<in> set bs" "i \<in> set xs" | xs where "xs \<in> set ls" "i \<in> set xs"
    | "i \<in> set cs" | "i \<in> set fs" by auto
  then show ?thesis
  proof cases
    case 1
    then show ?thesis using those_map_all [OF parts(1)] declared_band assms(3) by blast
  next
    case 2
    then show ?thesis using those_map_all [OF parts(2)] declared_license assms(3) by blast
  next
    case 3
    then show ?thesis using those_map_all [OF parts(3)] declared_coordination assms(3) by blast
  next
    case 4
    then show ?thesis using those_map_all [OF parts(4)] declared_frequency assms(3) by blast
  qed
qed

lemma not_kind_names: "\<not> kind_name ''Power''" "\<not> kind_name ''TransmitError''"
proof -
  have ends: "x = s @ t \<Longrightarrow> last x = last t" if "t \<noteq> []" for x s t :: string using that by simp
  show "\<not> kind_name ''Power''" "\<not> kind_name ''TransmitError''"
    using ends [of "''License''"] ends [of "''CoordinationProof''"] ends [of "''Frequency''"]
    by (fastforce simp: kind_name_def)+
qed

section \<open>Properties\<close>

text \<open>C33: Parsing the document of a policy gives the policy back, dated by the clock, for every policy whose rules
  have no constraints and no validity period, which the parser does not read, and finite powers.
\<close>

lemma policy_roundtrip:
  assumes "json_laws l b" "list_all expressible (rp_band_rules p)"
  shows "parse_value l now (policy_document b p) = Inr (p\<lparr>rp_issued_at := now\<rparr>)"
proof -
  have "parse_bands l (map (rules_document b) (rp_band_rules p)) (policy_new now (rp_name p) (rp_jurisdiction p)\<lparr>rp_version := rp_version p\<rparr>) =
      Inr (p\<lparr>rp_issued_at := now\<rparr>)"
    using parse_bands_document [OF assms] by (simp add: policy_new_def)
  then show ?thesis
    by (simp add: parse_value_def policy_document_def json_lawsD [OF assms(1)] parser_simps)
qed

text \<open>A policy that is parsed has the name and jurisdiction of the document and exactly one set of rules for
  each entry of its \<open>band_rules\<close>, in order; one entry that does not parse fails the whole document. No rule
  has a constraint, and the bounds of a band are taken as they are, also when the lower is the greater.
\<close>

lemma parsed_policy_sound:
  assumes "parse_value l now v = Inr p"
  shows "vl_as_str l (vl_index l v ''name'') = Some (rp_name p) \<and>
    vl_as_str l (vl_index l v ''jurisdiction'') = Some (rp_jurisdiction p) \<and> rp_issued_at p = now \<and>
    list_all2 (\<lambda>w r. parse_band_rules l w = Inr r)
      (unwrap_or [] (vl_as_array l (vl_index l v ''band_rules''))) (rp_band_rules p) \<and>
    list_all (\<lambda>r. pl_constraints (brl_power_limits r) = [] \<and> lr_validity_period (brl_license_requirement r) = None \<and>
      brl_additional_constraints r = []) (rp_band_rules p)"
proof -
  obtain n j where nj: "vl_as_str l (vl_index l v ''name'') = Some n"
      "vl_as_str l (vl_index l v ''jurisdiction'') = Some j"
    using assms by (auto simp: parse_value_def result_bind_Inr ok_or_missing_def split: option.splits)
  let ?p = "(case vl_as_str l (vl_index l v ''version'') of None \<Rightarrow> policy_new now n j
      | Some s \<Rightarrow> policy_new now n j\<lparr>rp_version := s\<rparr>)"
  have start: "rp_name ?p = n" "rp_jurisdiction ?p = j" "rp_issued_at ?p = now" "rp_band_rules ?p = []"
    by (auto simp: policy_new_def split: option.splits)
  have "parse_bands l (unwrap_or [] (vl_as_array l (vl_index l v ''band_rules''))) ?p = Inr p"
    using assms nj by (auto simp: parse_value_def ok_or_missing_def unwrap_or_def Let_def split: option.splits)
  from parse_bands_sound [OF this] obtain rs where rs: "p = ?p\<lparr>rp_band_rules := rs\<rparr>"
      "list_all2 (\<lambda>w r. parse_band_rules l w = Inr r) (unwrap_or [] (vl_as_array l (vl_index l v ''band_rules''))) rs"
    using start(4) by auto
  have one: "parse_band_rules l w = Inr r \<Longrightarrow> pl_constraints (brl_power_limits r) = [] \<and>
      lr_validity_period (brl_license_requirement r) = None \<and> brl_additional_constraints r = []" for w r
    by (auto simp: parse_band_rules_def parse_power_limits_def parse_license_requirement_def result_bind_Inr Let_def)
  have "list_all (\<lambda>r. pl_constraints (brl_power_limits r) = [] \<and> lr_validity_period (brl_license_requirement r) = None \<and>
      brl_additional_constraints r = []) rs"
    using rs(2) one by (induction rule: list_all2_induct) auto
  with rs start nj show ?thesis by simp
qed

text \<open>Whatever the policy, the emitted module has the transmit function last and never declares the types
  \<open>Power\<close> and \<open>TransmitError\<close> of its signature.
\<close>

lemma generated_types_incomplete:
  assumes "from_policy vi p = Some g"
  shows "last (gt_items g) = TransmitFn \<and> ''Power'' \<in> set transmit_uses \<and> ''TransmitError'' \<in> set transmit_uses \<and>
    (\<forall>i \<in> set (gt_items g). ''Power'' \<notin> declared i \<and> ''TransmitError'' \<notin> declared i)"
proof -
  obtain xs where "gt_items g = xs @ [TransmitFn]" using from_policy_SomeE [OF assms] by (metis append.assoc)
  then have "last (gt_items g) = TransmitFn" by simp
  moreover have "\<forall>i \<in> set (gt_items g). ''Power'' \<notin> declared i \<and> ''TransmitError'' \<notin> declared i"
    using declared_kind_name [OF assms] not_kind_names by blast
  ultimately show ?thesis by (simp add: transmit_uses_def)
qed

subsection \<open>Witnesses\<close>

datatype json_value =
    JsonNull | JsonBool bool | JsonNumber f64 | JsonInteger u64 | JsonString string
  | JsonArray "json_value list" | JsonObject "(string \<times> json_value) list"

definition plain_values :: "json_value value_lib" where
  "plain_values = \<lparr>vl_from_str = (\<lambda>s. Inl ''no text''),
     vl_index = (\<lambda>v k. case v of JsonObject kvs \<Rightarrow> (case map_of kvs k of None \<Rightarrow> JsonNull | Some w \<Rightarrow> w) | _ \<Rightarrow> JsonNull),
     vl_as_str = (\<lambda>v. case v of JsonString s \<Rightarrow> Some s | _ \<Rightarrow> None),
     vl_as_u64 = (\<lambda>v. case v of JsonInteger w \<Rightarrow> Some w | _ \<Rightarrow> None),
     vl_as_f64 = (\<lambda>v. case v of JsonNumber x \<Rightarrow> Some x | _ \<Rightarrow> None),
     vl_as_bool = (\<lambda>v. case v of JsonBool x \<Rightarrow> Some x | _ \<Rightarrow> None),
     vl_as_array = (\<lambda>v. case v of JsonArray vs \<Rightarrow> Some vs | _ \<Rightarrow> None)\<rparr>"

definition plain_builder :: "json_value value_builder" where
  "plain_builder = \<lparr>vb_str = JsonString, vb_u64 = JsonInteger, vb_f64 = JsonNumber, vb_bool = JsonBool,
     vb_array = JsonArray, vb_object = JsonObject\<rparr>"

lemma plain_json_laws: "json_laws plain_values plain_builder"
  by (simp add: json_laws_def plain_values_def plain_builder_def)

definition ku_policy :: regulatory_policy where
  "ku_policy = \<lparr>rp_name = ''p'', rp_version = ''2'', rp_jurisdiction = ''US'', rp_band_rules =
     [\<lparr>brl_band = \<lparr>pbd_name = ''Ku-band'', pbd_lower_hz = 12000000000, pbd_upper_hz = 18000000000,
         pbd_regulatory_body = ''ITU'', pbd_jurisdiction = ''GLOBAL''\<rparr>,
       brl_power_limits = \<lparr>pl_max_power_dbm = Fin False 30, pl_power_type = Conducted, pl_constraints = []\<rparr>,
       brl_license_requirement = \<lparr>lr_license_type = LicenseSpecific ''A'', lr_requires_coordination = True,
         lr_validity_period = None\<rparr>,
       brl_coordination = \<lparr>cr_coordination_bodies = [''FCC''], cr_process = PreCoordination 14\<rparr>,
       brl_additional_constraints = []\<rparr>], rp_issued_at = 0\<rparr>"

lemma policy_roundtrip_witness:
  "parse_value plain_values 5 (policy_document plain_builder ku_policy) = Inr (ku_policy\<lparr>rp_issued_at := 5\<rparr>)"
  by (rule policy_roundtrip [OF plain_json_laws]) (simp add: ku_policy_def expressible_def)

definition ku_types :: generated_types where
  "ku_types = the (from_policy (\<lambda>s. s \<noteq> []) ku_policy)"

lemma generated_types_incomplete_witness: "''Power'' \<notin> \<Union> (declared ` set (gt_items ku_types))"
proof -
  have "\<exists>g. from_policy (\<lambda>s. s \<noteq> []) ku_policy = Some g"
    by (simp add: from_policy_def ku_policy_def generate_band_type_def generate_license_type_def
        generate_coordination_type_def generate_frequency_type_def format_ident_def band_suffix_def Let_def)
  then have "from_policy (\<lambda>s. s \<noteq> []) ku_policy = Some ku_types" by (auto simp: ku_types_def)
  from generated_types_incomplete [OF this] show ?thesis by blast
qed

end
