(* ===== verification/Oisl_Pat.thy ===== *)
theory Oisl_Pat
  imports Oisl_Types Ordered_Map
begin

text \<open>
  Pointing, acquisition and tracking between satellites (\<open>oisl/src/pat/clock.rs\<close>,
  \<open>oisl/src/pat/coordinator.rs\<close>) and the configuration of a link (\<open>oisl/src/physical/configuration.rs\<close>).

  A clock is a value of the trait: its state with the two calls the coordinator makes besides reading the
  time. Readings of the time are arguments. The interface \<open>precision_clock\<close> is what the coordinator relies
  on; the default clock provides it.
\<close>

section \<open>Definitions\<close>

subsection \<open>The configuration of a link\<close>

datatype oct_standard_version = V3_0 | V3_1 | V3_2 | V4_0_0
datatype oct_link_type = S2S | S2T
datatype baud_rate = BaudRate u64
datatype modulation = OokNrz baud_rate | Manchester baud_rate | ManchesterBm12 | ManchesterBm16
datatype ldpc_variant = BaseGraph1 | BaseGraph2
datatype fec_code = Ldpc5gNr ldpc_variant
datatype code_rate = R1_2 | R2_3 | R3_4 | R5_6

record fec_configuration =
  fcf_enabled :: bool
  fcf_code :: fec_code
  fcf_code_rate :: code_rate

record arq_configuration =
  acf_enabled :: bool
  acf_max_retransmissions :: u8
  acf_timeout_ms :: u64

datatype oct_frequency = Frequency u64

record oct_configuration =
  ocf_standard_version :: oct_standard_version
  ocf_link_type :: oct_link_type
  ocf_modulation :: modulation
  ocf_fec_config :: fec_configuration
  ocf_arq_config :: arq_configuration
  ocf_target_data_rate :: data_rate
  ocf_tracking_tone_frequency :: "oct_frequency option"

definition default_s2s :: oct_configuration where
  "default_s2s = \<lparr>ocf_standard_version = V4_0_0, ocf_link_type = S2S, ocf_modulation = ManchesterBm12,
     ocf_fec_config = \<lparr>fcf_enabled = True, fcf_code = Ldpc5gNr BaseGraph1, fcf_code_rate = R2_3\<rparr>,
     ocf_arq_config = \<lparr>acf_enabled = False, acf_max_retransmissions = 0, acf_timeout_ms = 0\<rparr>,
     ocf_target_data_rate = DataRate 2500000000, ocf_tracking_tone_frequency = Some (Frequency 40000)\<rparr>"

definition default_s2t :: oct_configuration where
  "default_s2t = \<lparr>ocf_standard_version = V4_0_0, ocf_link_type = S2T, ocf_modulation = Manchester (BaudRate 10000000),
     ocf_fec_config = \<lparr>fcf_enabled = True, fcf_code = Ldpc5gNr BaseGraph1, fcf_code_rate = R1_2\<rparr>,
     ocf_arq_config = \<lparr>acf_enabled = True, acf_max_retransmissions = 5, acf_timeout_ms = 100\<rparr>,
     ocf_target_data_rate = DataRate 1000000000, ocf_tracking_tone_frequency = Some (Frequency 50000)\<rparr>"

definition oct_configuration_default :: oct_configuration where
  "oct_configuration_default = default_s2s"

subsection \<open>Timestamps and clocks\<close>

record precision_timestamp =
  pts_seconds :: "64 word"
  pts_nanoseconds :: u32

definition pts_new :: "64 word \<Rightarrow> u32 \<Rightarrow> precision_timestamp" where
  "pts_new s n = \<lparr>pts_seconds = s, pts_nanoseconds = n\<rparr>"

definition pts_from_datetime :: "datetime \<Rightarrow> precision_timestamp" where
  "pts_from_datetime t = \<lparr>pts_seconds = word_of_int (t div 1000000000), pts_nanoseconds = word_of_int (t mod 1000000000)\<rparr>"

definition pts_to_datetime :: "chrono \<Rightarrow> datetime \<Rightarrow> precision_timestamp \<Rightarrow> datetime" where
  "pts_to_datetime ch now p =
     (case from_timestamp ch (pts_seconds p) (pts_nanoseconds p) of None \<Rightarrow> now | Some t \<Rightarrow> t)"

definition pts_duration_since :: "precision_timestamp \<Rightarrow> precision_timestamp \<Rightarrow> duration" where
  "pts_duration_since p q =
     sint ((pts_seconds p - pts_seconds q) * 1000000000 +
       (ucast (pts_nanoseconds p) - ucast (pts_nanoseconds q) :: 64 word))"

record clock_confidence =
  ccf_uncertainty_ns :: u64

definition clock_confidence_new :: "u64 \<Rightarrow> clock_confidence" where
  "clock_confidence_new u = \<lparr>ccf_uncertainty_ns = u\<rparr>"

definition is_high_precision :: "clock_confidence \<Rightarrow> bool" where
  "is_high_precision c \<longleftrightarrow> ccf_uncertainty_ns c < 1000"

definition is_degraded :: "clock_confidence \<Rightarrow> bool" where
  "is_degraded c \<longleftrightarrow> 100000 < ccf_uncertainty_ns c"

definition gps_disciplined :: clock_confidence where
  "gps_disciplined = clock_confidence_new 50"

definition standard_oscillator :: clock_confidence where
  "standard_oscillator = clock_confidence_new 10000000"

record time_reference =
  tmr_source :: string
  tmr_accuracy_ns :: u64
  tmr_last_update :: datetime

record sync_report =
  syr_synced_at :: datetime
  syr_offset_ns :: "64 word"
  syr_confidence_after :: clock_confidence
  syr_successful :: bool

datatype clock_error = ClockSyncError string | DriftDetected "64 word" | ClockNotResponding | InvalidReference

fun clock_error_text :: "clock_error \<Rightarrow> string" where
  "clock_error_text (ClockSyncError m) = ''Clock synchronization failed: '' @ m"
| "clock_error_text (DriftDetected d) = ''Clock drift detected: '' @ show_int (sint d) @ '' ns''"
| "clock_error_text ClockNotResponding = ''Clock not responding''"
| "clock_error_text InvalidReference = ''Invalid time reference''"

record default_clock =
  dck_confidence :: clock_confidence
  dck_last_sync :: "datetime option"
  dck_drift_rate :: f64

definition default_clock_new :: default_clock where
  "default_clock_new = \<lparr>dck_confidence = gps_disciplined, dck_last_sync = None, dck_drift_rate = lit (1 / 10)\<rparr>"

definition clock_with_confidence :: "clock_confidence \<Rightarrow> default_clock" where
  "clock_with_confidence c = \<lparr>dck_confidence = c, dck_last_sync = None, dck_drift_rate = lit 1\<rparr>"

definition default_sync_to :: "datetime \<Rightarrow> time_reference \<Rightarrow> default_clock \<Rightarrow> (clock_error + sync_report) \<times> default_clock" where
  "default_sync_to now r c =
     (let conf = clock_confidence_new (tmr_accuracy_ns r) in
      (Inr \<lparr>syr_synced_at = now, syr_offset_ns = tmr_accuracy_ns r, syr_confidence_after = conf, syr_successful = True\<rparr>,
       c\<lparr>dck_confidence := conf, dck_last_sync := Some now\<rparr>))"

definition default_is_synchronized :: "datetime \<Rightarrow> default_clock \<Rightarrow> bool" where
  "default_is_synchronized now c =
     (case dck_last_sync c of None \<Rightarrow> False | Some t \<Rightarrow> now - t < duration_seconds 3600)"

subsection \<open>Acquisitions\<close>

record pointing_vector =
  pvr_azimuth_rad :: f64
  pvr_elevation_rad :: f64
  pvr_range_km :: f64

datatype acquisition_action = CoarsePoint | FinePoint | BeaconTransmit | BeaconReceive | AcquisitionLock

record acquisition_step =
  aqs_duration_ms :: u64
  aqs_action :: acquisition_action

record acquisition_sequence =
  asq_steps :: "acquisition_step list"

datatype fallback_action =
    RetryWithWiderBeam
  | RetryAtLaterTime datetime
  | UseAlternativeTerminal terminal_id
  | FallbackAbort

record scheduled_acquisition =
  sac_acquisition_id :: uuid
  sac_pair :: "terminal_id \<times> terminal_id"
  sac_target_t0 :: datetime
  sac_initial_pointing :: "pointing_vector \<times> pointing_vector"
  sac_expected_doppler :: "u64 \<times> u64"
  sac_acquisition_sequence :: acquisition_sequence
  sac_optical_config :: oct_configuration
  sac_timeout :: duration
  sac_fallback_actions :: "fallback_action list"

datatype pat_event_type = PatScheduled | PatStarted | PatAcquiring | PatTracking | PatLost | PatCancelled | PatFailed

record operator_action =
  opa_operator_id :: string
  opa_action :: string
  opa_timestamp :: datetime

record system_decision =
  sde_decision :: string
  sde_reason :: string
  sde_timestamp :: datetime

record pat_event =
  pev_event_type :: pat_event_type
  pev_event_time :: precision_timestamp
  pev_observed_at :: precision_timestamp
  pev_spread :: duration
  pev_terminal_id :: terminal_id
  pev_peer_terminal :: terminal_id
  pev_operator_action_chain :: "operator_action list"
  pev_system_decision_chain :: "system_decision list"

datatype pat_error =
    ClockDegraded u64
  | InvalidTiming string
  | ClockSyncFailed string
  | PatNotFound uuid
  | TerminalNotAvailable terminal_id
  | PatTimeout duration

record 'c clock_calls =
  ckc_confidence :: "'c \<Rightarrow> clock_confidence"
  ckc_sync_to :: "datetime \<Rightarrow> time_reference \<Rightarrow> 'c \<Rightarrow> (clock_error + sync_report) \<times> 'c"

record 'c pat_coordinator =
  pco_clock_source :: 'c
  pco_pat_schedules :: "(datetime, scheduled_acquisition) btm"
  pco_event_log :: "pat_event list"

definition pat_coordinator_new :: "'c \<Rightarrow> 'c pat_coordinator" where
  "pat_coordinator_new c = \<lparr>pco_clock_source = c, pco_pat_schedules = [], pco_event_log = []\<rparr>"

definition log_event :: "pat_event \<Rightarrow> 'c pat_coordinator \<Rightarrow> 'c pat_coordinator" where
  "log_event e s = s\<lparr>pco_event_log := pco_event_log s @ [e]\<rparr>"

definition scheduled_event :: "scheduled_acquisition \<Rightarrow> datetime \<Rightarrow> precision_timestamp \<Rightarrow> pat_event" where
  "scheduled_event a now seen =
     \<lparr>pev_event_type = PatScheduled, pev_event_time = pts_from_datetime (sac_target_t0 a), pev_observed_at = seen,
      pev_spread = sac_target_t0 a - now, pev_terminal_id = fst (sac_pair a), pev_peer_terminal = snd (sac_pair a),
      pev_operator_action_chain = [], pev_system_decision_chain = []\<rparr>"

text \<open>The clock is read twice, at \<open>t1\<close> for the check and at \<open>t2\<close> for the event.\<close>

definition schedule_acquisition :: "'c clock_calls \<Rightarrow> chrono \<Rightarrow> datetime \<Rightarrow> precision_timestamp \<Rightarrow> precision_timestamp \<Rightarrow>
    scheduled_acquisition \<Rightarrow> 'c pat_coordinator \<Rightarrow> (pat_error + unit) \<times> 'c pat_coordinator" where
  "schedule_acquisition ck ch utc t1 t2 a s =
     (let conf = ckc_confidence ck (pco_clock_source s); now = pts_to_datetime ch utc t1 in
      if is_degraded conf then (Inl (ClockDegraded (ccf_uncertainty_ns conf)), s)
      else if sac_target_t0 a \<le> now then (Inl (InvalidTiming ''Acquisition time must be in the future''), s)
      else (Inr (), (log_event (scheduled_event a now t2) s)\<lparr>pco_pat_schedules :=
              btm_insert (sac_target_t0 a) a (pco_pat_schedules s)\<rparr>))"

definition get_pending_acquisitions :: "chrono \<Rightarrow> datetime \<Rightarrow> precision_timestamp \<Rightarrow> 'c pat_coordinator \<Rightarrow>
    scheduled_acquisition list" where
  "get_pending_acquisitions ch utc t1 s =
     map snd (filter (\<lambda>e. pts_to_datetime ch utc t1 \<le> fst e) (pco_pat_schedules s))"

text \<open>The range is half open.\<close>

definition get_ready_acquisitions :: "chrono \<Rightarrow> datetime \<Rightarrow> precision_timestamp \<Rightarrow> 'c pat_coordinator \<Rightarrow>
    scheduled_acquisition list option" where
  "get_ready_acquisitions ch utc t1 s =
     (let now = pts_to_datetime ch utc t1 in
      map_option (\<lambda>e. map snd (filter (\<lambda>x. now \<le> fst x \<and> fst x < e) (pco_pat_schedules s)))
        (date_add ch now (duration_seconds 1)))"

definition cancelled_event :: "precision_timestamp \<Rightarrow> precision_timestamp \<Rightarrow> uuid \<Rightarrow> uuid \<Rightarrow> pat_event" where
  "cancelled_event t1 t2 u1 u2 =
     \<lparr>pev_event_type = PatCancelled, pev_event_time = t1, pev_observed_at = t2, pev_spread = 0, pev_terminal_id = u1,
      pev_peer_terminal = u2, pev_operator_action_chain = [], pev_system_decision_chain = []\<rparr>"

definition cancel_acquisition :: "precision_timestamp \<Rightarrow> precision_timestamp \<Rightarrow> uuid \<Rightarrow> uuid \<Rightarrow> uuid \<Rightarrow> 'c pat_coordinator \<Rightarrow>
    (pat_error + unit) \<times> 'c pat_coordinator" where
  "cancel_acquisition t1 t2 u1 u2 i s =
     (Inr (), log_event (cancelled_event t1 t2 u1 u2)
        (s\<lparr>pco_pat_schedules := btm_retain (\<lambda>_ a. sac_acquisition_id a \<noteq> i) (pco_pat_schedules s)\<rparr>))"

definition pat_clock_confidence :: "'c clock_calls \<Rightarrow> 'c pat_coordinator \<Rightarrow> clock_confidence" where
  "pat_clock_confidence ck s = ckc_confidence ck (pco_clock_source s)"

definition sync_clock :: "'c clock_calls \<Rightarrow> datetime \<Rightarrow> time_reference \<Rightarrow> 'c pat_coordinator \<Rightarrow>
    (pat_error + unit) \<times> 'c pat_coordinator" where
  "sync_clock ck now r s =
     (case ckc_sync_to ck now r (pco_clock_source s) of
        (Inl e, c) \<Rightarrow> (Inl (ClockSyncFailed (clock_error_text e)), s\<lparr>pco_clock_source := c\<rparr>)
      | (Inr rep, c) \<Rightarrow> (Inr (), s\<lparr>pco_clock_source := c\<rparr>))"

definition default_clock_calls :: "default_clock clock_calls" where
  "default_clock_calls = \<lparr>ckc_confidence = dck_confidence, ckc_sync_to = default_sync_to\<rparr>"

subsection \<open>Runs\<close>

inductive pat_step :: "'c clock_calls \<Rightarrow> 'c pat_coordinator \<Rightarrow> 'c pat_coordinator \<Rightarrow> bool" for ck :: "'c clock_calls" where
  step_schedule: "pat_step ck s (snd (schedule_acquisition ck ch utc t1 t2 a s))"
| step_cancel: "pat_step ck s (snd (cancel_acquisition t1 t2 u1 u2 i s))"
| step_sync: "pat_step ck s (snd (sync_clock ck now r s))"

inductive_cases pat_stepE: "pat_step ck s s'"

section \<open>Lemmas\<close>

subsection \<open>Timestamps\<close>

lemma pts_roundtrip:
  assumes "date_in_range ch (t div 1000000000 * 1000000000)" "- (2 ^ 63) \<le> t div 1000000000" "t div 1000000000 < 2 ^ 63"
  shows "pts_to_datetime ch utc (pts_from_datetime t) = t"
proof -
  have secs: "sint (word_of_int (t div 1000000000) :: 64 word) = t div 1000000000"
    using assms(2,3) by (simp add: sint_sbintrunc' signed_take_bit_int_eq_self)
  have "0 \<le> t mod 1000000000" "t mod 1000000000 < 1000000000" by simp_all
  then have nanos: "uint (word_of_int (t mod 1000000000) :: u32) = t mod 1000000000"
    by (simp add: uint_word_of_int_eq take_bit_int_eq_self)
  have small: "\<not> 1000000000 \<le> t mod 1000000000" "\<not> 2000000000 \<le> t mod 1000000000"
    using \<open>t mod 1000000000 < 1000000000\<close> by linarith+
  have "from_timestamp ch (pts_seconds (pts_from_datetime t)) (pts_nanoseconds (pts_from_datetime t)) = Some t"
    using assms(1) small by (simp add: from_timestamp_def pts_from_datetime_def secs nanos)
  then show ?thesis by (simp add: pts_to_datetime_def)
qed

subsection \<open>The clock of a coordinator\<close>

text \<open>What the coordinator relies on: after a synchronization that succeeds, the confidence is the accuracy of the reference.\<close>

locale precision_clock =
  fixes ck :: "'c clock_calls"
  assumes sync_confidence: "ckc_sync_to ck now r c = (Inr rep, c') \<Longrightarrow>
    ckc_confidence ck c' = clock_confidence_new (tmr_accuracy_ns r) \<and> syr_confidence_after rep = ckc_confidence ck c'"
begin

lemma sync_clock_confidence:
  assumes "sync_clock ck now r s = (Inr (), s')"
  shows "pat_clock_confidence ck s' = clock_confidence_new (tmr_accuracy_ns r) \<and>
    pco_pat_schedules s' = pco_pat_schedules s \<and> pco_event_log s' = pco_event_log s"
  using assms sync_confidence by (auto simp: sync_clock_def pat_clock_confidence_def split: prod.splits sum.splits)

lemma schedule_after_sync:
  assumes "sync_clock ck now r s = (Inr (), s')" "pts_to_datetime ch utc t1 < sac_target_t0 a"
  shows "fst (schedule_acquisition ck ch utc t1 t2 a s') =
    (if 100000 < tmr_accuracy_ns r then Inl (ClockDegraded (tmr_accuracy_ns r)) else Inr ())"
  using sync_clock_confidence [OF assms(1)] assms(2)
  by (simp add: schedule_acquisition_def Let_def is_degraded_def pat_clock_confidence_def clock_confidence_new_def)

end

interpretation default_clock: precision_clock default_clock_calls
  by unfold_locales (auto simp: default_clock_calls_def default_sync_to_def Let_def)

subsection \<open>Schedules\<close>

definition announced :: "pat_event list \<Rightarrow> scheduled_acquisition \<Rightarrow> bool" where
  "announced es a \<longleftrightarrow> (\<exists>e \<in> set es. pev_event_type e = PatScheduled \<and> pev_event_time e = pts_from_datetime (sac_target_t0 a) \<and>
     (pev_terminal_id e, pev_peer_terminal e) = sac_pair a \<and> 0 < pev_spread e)"

definition pat_inv :: "'c pat_coordinator \<Rightarrow> bool" where
  "pat_inv s \<longleftrightarrow> btm_inv (pco_pat_schedules s) \<and>
     (\<forall>(t, a) \<in> set (pco_pat_schedules s). sac_target_t0 a = t \<and> announced (pco_event_log s) a)"

lemma announced_mono: "announced es a \<Longrightarrow> announced (es @ fs) a"
  by (auto simp: announced_def)

lemma pat_inv_schedule:
  assumes "pat_inv s" shows "pat_inv (snd (schedule_acquisition ck ch utc t1 t2 a s))"
proof (cases "fst (schedule_acquisition ck ch utc t1 t2 a s)")
  case (Inl e)
  then have "snd (schedule_acquisition ck ch utc t1 t2 a s) = s"
    by (auto simp: schedule_acquisition_def Let_def split: if_splits)
  with assms show ?thesis by simp
next
  case (Inr u)
  let ?now = "pts_to_datetime ch utc t1"
  have now: "?now < sac_target_t0 a" and
    s': "snd (schedule_acquisition ck ch utc t1 t2 a s) =
      (log_event (scheduled_event a ?now t2) s)\<lparr>pco_pat_schedules := btm_insert (sac_target_t0 a) a (pco_pat_schedules s)\<rparr>"
    using Inr by (auto simp: schedule_acquisition_def Let_def split: if_splits)
  have "announced (pco_event_log s @ [scheduled_event a ?now t2]) a"
    using now by (simp add: announced_def scheduled_event_def)
  moreover have "\<forall>(t, b) \<in> set (pco_pat_schedules s). sac_target_t0 b = t \<and>
      announced (pco_event_log s @ [scheduled_event a ?now t2]) b"
    using assms announced_mono by (auto simp: pat_inv_def)
  ultimately have "\<forall>(t, b) \<in> set (btm_insert (sac_target_t0 a) a (pco_pat_schedules s)). sac_target_t0 b = t \<and>
      announced (pco_event_log s @ [scheduled_event a ?now t2]) b"
    using set_btm_insert_subset [of "sac_target_t0 a" a "pco_pat_schedules s"] by blast
  then show ?thesis
    using assms btm_inv_insert [of "pco_pat_schedules s" "sac_target_t0 a" a] by (simp add: s' log_event_def pat_inv_def)
qed

lemma pat_inv_cancel:
  assumes "pat_inv s" shows "pat_inv (snd (cancel_acquisition t1 t2 u1 u2 i s))"
  using assms announced_mono btm_inv_retain [of "pco_pat_schedules s"]
  by (fastforce simp: pat_inv_def cancel_acquisition_def log_event_def btm_retain_def)

lemma pat_inv_sync: "pat_inv s \<Longrightarrow> pat_inv (snd (sync_clock ck now r s))"
  by (auto simp: pat_inv_def sync_clock_def split: prod.splits sum.splits)

interpretation pat: invariant_system "\<lambda>s. \<exists>c. s = pat_coordinator_new c" "pat_step ck" pat_inv
  for ck :: "'c clock_calls"
proof unfold_locales
  fix s :: "'c pat_coordinator" assume "\<exists>c. s = pat_coordinator_new c"
  then show "pat_inv s" by (auto simp: pat_inv_def pat_coordinator_new_def)
next
  fix s t :: "'c pat_coordinator" assume "pat_inv s" "pat_step ck s t"
  then show "pat_inv t" by (auto elim!: pat_stepE intro: pat_inv_schedule pat_inv_cancel pat_inv_sync)
qed

section \<open>Properties\<close>

text \<open>C34: In every reachable state of the coordinator each acquisition is filed under its instant, at most one
  per instant, and was announced in the event log, as scheduled for its terminals at a time that was in the
  future; and the acquisitions that are ready are among the pending ones.
\<close>

lemma acquisitions_filed:
  assumes "reach (\<lambda>s. \<exists>c. s = pat_coordinator_new c) (pat_step ck) s"
  shows "distinct (map fst (pco_pat_schedules s)) \<and>
    (\<forall>(t, a) \<in> set (pco_pat_schedules s). sac_target_t0 a = t \<and> announced (pco_event_log s) a) \<and>
    (\<forall>rs. get_ready_acquisitions ch utc t1 s = Some rs \<longrightarrow> set rs \<subseteq> set (get_pending_acquisitions ch utc t1 s))"
proof -
  have inv: "pat_inv s" by (rule pat.reach_inv [OF assms])
  then show ?thesis
    by (auto simp: pat_inv_def btm_inv_distinct get_ready_acquisitions_def get_pending_acquisitions_def Let_def)
qed

text \<open>An acquisition is scheduled exactly when the clock is not degraded and its instant is in the future.
  It takes the place of another one that was scheduled for the same instant, whatever its terminals, and no
  event tells.
\<close>

lemma schedule_replaces:
  assumes "pat_inv s"
  shows "(fst (schedule_acquisition ck ch utc t1 t2 b s) = Inr () \<longleftrightarrow>
      ccf_uncertainty_ns (pat_clock_confidence ck s) \<le> 100000 \<and> pts_to_datetime ch utc t1 < sac_target_t0 b) \<and>
    (fst (schedule_acquisition ck ch utc t1 t2 b s) = Inr () \<longrightarrow>
      (\<forall>a. (sac_target_t0 b, a) \<in> set (pco_pat_schedules (snd (schedule_acquisition ck ch utc t1 t2 b s))) \<longleftrightarrow> a = b) \<and>
      pco_event_log (snd (schedule_acquisition ck ch utc t1 t2 b s)) =
        pco_event_log s @ [scheduled_event b (pts_to_datetime ch utc t1) t2])"
proof -
  have inv: "btm_inv (btm_insert (sac_target_t0 b) b (pco_pat_schedules s))"
    using assms by (auto simp: pat_inv_def intro: btm_inv_insert)
  have "(sac_target_t0 b, a) \<in> set (btm_insert (sac_target_t0 b) b (pco_pat_schedules s)) \<longleftrightarrow> a = b" for a
    using btm_get_iff [OF inv, of "sac_target_t0 b" a] by (auto simp: btm_get_insert)
  then show ?thesis
    by (auto simp: schedule_acquisition_def Let_def is_degraded_def pat_clock_confidence_def log_event_def)
qed

text \<open>After a synchronization to a reference, an acquisition of the future is scheduled exactly when the
  accuracy of the reference is 100 microseconds or better.
\<close>

lemma scheduled_after_sync:
  assumes "sync_clock default_clock_calls now r s = (Inr (), s')" "pts_to_datetime ch utc t1 < sac_target_t0 a"
  shows "fst (schedule_acquisition default_clock_calls ch utc t1 t2 a s') =
    (if 100000 < tmr_accuracy_ns r then Inl (ClockDegraded (tmr_accuracy_ns r)) else Inr ())"
  by (rule default_clock.schedule_after_sync [OF assms])

subsection \<open>Witnesses\<close>

definition acquisition_at :: "datetime \<Rightarrow> terminal_id \<Rightarrow> scheduled_acquisition" where
  "acquisition_at t k = \<lparr>sac_acquisition_id = 7, sac_pair = (k, 2), sac_target_t0 = t,
     sac_initial_pointing = (\<lparr>pvr_azimuth_rad = lit 0, pvr_elevation_rad = lit 0, pvr_range_km = lit 0\<rparr>,
       \<lparr>pvr_azimuth_rad = lit 0, pvr_elevation_rad = lit 0, pvr_range_km = lit 0\<rparr>),
     sac_expected_doppler = (0, 0), sac_acquisition_sequence = \<lparr>asq_steps = []\<rparr>, sac_optical_config = default_s2s,
     sac_timeout = 0, sac_fallback_actions = [FallbackAbort]\<rparr>"

definition all_dates :: chrono where
  "all_dates = \<lparr>date_in_range = (\<lambda>t. True), duration_in_range = (\<lambda>d. True)\<rparr>"

definition one_acquisition :: "default_clock pat_coordinator" where
  "one_acquisition = snd (schedule_acquisition default_clock_calls all_dates 0 (pts_new 0 0) (pts_new 0 1)
     (acquisition_at 5 1) (pat_coordinator_new default_clock_new))"

lemma one_acquisition_reach: "reach (\<lambda>s. \<exists>c. s = pat_coordinator_new c) (pat_step default_clock_calls) one_acquisition"
  unfolding one_acquisition_def by (blast intro: reach_step reach_init step_schedule)

lemma one_acquisition_simps:
  "pco_pat_schedules one_acquisition = [(5, acquisition_at 5 1)]"
  "pat_clock_confidence default_clock_calls one_acquisition = gps_disciplined"
  by (simp_all add: one_acquisition_def schedule_acquisition_def pat_coordinator_new_def default_clock_calls_def
      default_clock_new_def is_degraded_def gps_disciplined_def clock_confidence_new_def pts_to_datetime_def
      from_timestamp_def pts_new_def all_dates_def acquisition_at_def log_event_def pat_clock_confidence_def Let_def)

lemma acquisitions_filed_witness: "announced (pco_event_log one_acquisition) (acquisition_at 5 1)"
  using acquisitions_filed [OF one_acquisition_reach] by (simp add: one_acquisition_simps)

lemma schedule_replaces_witness:
  "(5, acquisition_at 5 1) \<notin> set (pco_pat_schedules (snd (schedule_acquisition default_clock_calls all_dates 0
     (pts_new 0 2) (pts_new 0 3) (acquisition_at 5 9) one_acquisition)))"
proof -
  have t: "sac_target_t0 (acquisition_at 5 9) = 5" "acquisition_at 5 1 \<noteq> acquisition_at 5 9"
    by (simp_all add: acquisition_at_def)
  have now: "pts_to_datetime all_dates 0 (pts_new 0 2) = 2"
    by (simp add: pts_to_datetime_def from_timestamp_def pts_new_def all_dates_def Let_def)
  show ?thesis
    using schedule_replaces [OF pat.reach_inv [OF one_acquisition_reach], of default_clock_calls all_dates 0 "pts_new 0 2"
        "pts_new 0 3" "acquisition_at 5 9"] t
    by (simp add: one_acquisition_simps now gps_disciplined_def clock_confidence_new_def)
qed

lemma scheduled_after_sync_witness:
  "fst (schedule_acquisition default_clock_calls all_dates 0 (pts_new 0 0) (pts_new 0 0) (acquisition_at 5 1)
     (snd (sync_clock default_clock_calls 0 \<lparr>tmr_source = ''lab'', tmr_accuracy_ns = 200000, tmr_last_update = 0\<rparr> one_acquisition))) =
   Inl (ClockDegraded 200000)"
  by (subst scheduled_after_sync [where now = 0 and r = "\<lparr>tmr_source = ''lab'', tmr_accuracy_ns = 200000, tmr_last_update = 0\<rparr>"
        and s = one_acquisition])
    (simp_all add: sync_clock_def default_clock_calls_def default_sync_to_def acquisition_at_def pts_to_datetime_def
      from_timestamp_def pts_new_def all_dates_def Let_def)

end
