(* ===== verification/Constellation.thy ===== *)
theory Constellation
  imports Oisl_Types
begin

text \<open>
  Constellations and the prediction of passes (\<open>constellation/src/satellite.rs\<close>, \<open>manager.rs\<close>, \<open>pass.rs\<close>).

  The SGP4 library is a parameter, as are the sine, the cosine and the arc sine. Hash maps are iterated in an
  order of their keys that is an argument, and every reading of the clock is one. \<open>visible_runs\<close> is the
  reference definition of the passes: the maximal runs of samples above the horizon of the station.
\<close>

section \<open>Definitions\<close>

subsection \<open>Satellites\<close>

type_synonym vec3 = "f64 \<times> f64 \<times> f64"

record ('el, 'co) orbit_lib =
  orl_from_tle :: "string \<Rightarrow> string \<Rightarrow> string \<Rightarrow> string + 'el"
  orl_datetime :: "'el \<Rightarrow> datetime"
  orl_from_elements :: "'el \<Rightarrow> string + 'co"
  orl_propagate :: "'co \<Rightarrow> f64 \<Rightarrow> string + vec3 \<times> vec3"

record ('el, 'co) satellite =
  sat_id :: satellite_id
  sat_name :: string
  sat_norad_id :: u32
  sat_elements :: 'el
  sat_tle_epoch :: datetime
  sat_constants :: "'co option"
  sat_source :: string

record propagated_state =
  pst_position :: vec3
  pst_velocity :: vec3
  pst_time :: datetime
  pst_tle_epoch :: datetime

definition satellite_from_tle :: "('el, 'co) orbit_lib \<Rightarrow> satellite_id \<Rightarrow> string \<Rightarrow> u32 \<Rightarrow> string \<Rightarrow> string \<Rightarrow> string \<Rightarrow>
    ('el, 'co) satellite result" where
  "satellite_from_tle lib i n norad l1 l2 src =
     (case orl_from_tle lib n l1 l2 of
        Inl e \<Rightarrow> Inl (Tracking (''SGP4 TLE parse error: '' @ e))
      | Inr el \<Rightarrow> Inr \<lparr>sat_id = i, sat_name = n, sat_norad_id = norad, sat_elements = el,
                      sat_tle_epoch = orl_datetime lib el, sat_constants = None, sat_source = src\<rparr>)"

definition initialize_constants :: "('el, 'co) orbit_lib \<Rightarrow> ('el, 'co) satellite \<Rightarrow> unit result \<times> ('el, 'co) satellite" where
  "initialize_constants lib s =
     (case orl_from_elements lib (sat_elements s) of
        Inl e \<Rightarrow> (Inl (Tracking (''SGP4 constants error: '' @ e)), s)
      | Inr co \<Rightarrow> (Inr (), s\<lparr>sat_constants := Some co\<rparr>))"

definition satellite_propagate :: "('el, 'co) orbit_lib \<Rightarrow> datetime \<Rightarrow> ('el, 'co) satellite \<Rightarrow> propagated_state result" where
  "satellite_propagate lib t s =
     (case sat_constants s of
        None \<Rightarrow> Inl (Tracking ''SGP4 constants not initialized'')
      | Some co \<Rightarrow>
          (case orl_propagate lib co (fdiv (f64_of_int (num_seconds (t - sat_tle_epoch s))) (lit 60)) of
             Inl e \<Rightarrow> Inl (Tracking (''SGP4 propagation error: '' @ e))
           | Inr (p, v) \<Rightarrow> Inr \<lparr>pst_position = p, pst_velocity = v, pst_time = t, pst_tle_epoch = sat_tle_epoch s\<rparr>))"

definition satellite_needs_refresh :: "datetime \<Rightarrow> int \<Rightarrow> ('el, 'co) satellite \<Rightarrow> bool" where
  "satellite_needs_refresh now h s \<longleftrightarrow> h < trunc_div (num_seconds (now - sat_tle_epoch s)) 3600"

definition refresh_tle :: "('el, 'co) orbit_lib \<Rightarrow> string \<Rightarrow> string \<Rightarrow> string \<Rightarrow> ('el, 'co) satellite \<Rightarrow>
    unit result \<times> ('el, 'co) satellite" where
  "refresh_tle lib l1 l2 src s =
     (case orl_from_tle lib (sat_name s) l1 l2 of
        Inl e \<Rightarrow> (Inl (Tracking (''SGP4 TLE parse error: '' @ e)), s)
      | Inr el \<Rightarrow> (Inr (), s\<lparr>sat_elements := el, sat_tle_epoch := orl_datetime lib el, sat_source := src,
                         sat_constants := None\<rparr>))"

subsection \<open>Constellations\<close>

record ('el, 'co) sat_constellation =
  cst_name :: string
  cst_satellites :: "satellite_id \<rightharpoonup> ('el, 'co) satellite"
  cst_updated_at :: datetime

record constellation_snapshot =
  csn_constellation_name :: string
  csn_timestamp :: datetime
  csn_states :: "satellite_id \<rightharpoonup> propagated_state"

definition sat_constellation_new :: "datetime \<Rightarrow> string \<Rightarrow> ('el, 'co) sat_constellation" where
  "sat_constellation_new now n = \<lparr>cst_name = n, cst_satellites = Map.empty, cst_updated_at = now\<rparr>"

definition constellation_add :: "datetime \<Rightarrow> ('el, 'co) satellite \<Rightarrow> ('el, 'co) sat_constellation \<Rightarrow>
    ('el, 'co) sat_constellation" where
  "constellation_add now s c = c\<lparr>cst_satellites := (cst_satellites c)(sat_id s \<mapsto> s), cst_updated_at := now\<rparr>"

definition constellation_remove :: "satellite_id \<Rightarrow> ('el, 'co) sat_constellation \<Rightarrow>
    ('el, 'co) satellite option \<times> ('el, 'co) sat_constellation" where
  "constellation_remove i c = (cst_satellites c i, c\<lparr>cst_satellites := (cst_satellites c)(i := None)\<rparr>)"

definition constellation_get :: "satellite_id \<Rightarrow> ('el, 'co) sat_constellation \<Rightarrow> ('el, 'co) satellite option" where
  "constellation_get i c = cst_satellites c i"

fun initialize_loop :: "('el, 'co) orbit_lib \<Rightarrow> satellite_id list \<Rightarrow> (satellite_id \<rightharpoonup> ('el, 'co) satellite) \<Rightarrow>
    unit result \<times> (satellite_id \<rightharpoonup> ('el, 'co) satellite)" where
  "initialize_loop lib [] m = (Inr (), m)"
| "initialize_loop lib (i # is) m =
     (case m i of
        None \<Rightarrow> initialize_loop lib is m
      | Some s \<Rightarrow>
          (case initialize_constants lib s of
             (Inl e, s') \<Rightarrow> (Inl e, m(i \<mapsto> s'))
           | (Inr u, s') \<Rightarrow> initialize_loop lib is (m(i \<mapsto> s'))))"

definition constellation_initialize :: "('el, 'co) orbit_lib \<Rightarrow> satellite_id list \<Rightarrow> ('el, 'co) sat_constellation \<Rightarrow>
    unit result \<times> ('el, 'co) sat_constellation" where
  "constellation_initialize lib is c =
     (let (r, m) = initialize_loop lib is (cst_satellites c) in (r, c\<lparr>cst_satellites := m\<rparr>))"

fun propagate_loop :: "('el, 'co) orbit_lib \<Rightarrow> datetime \<Rightarrow> (satellite_id \<rightharpoonup> ('el, 'co) satellite) \<Rightarrow> satellite_id list \<Rightarrow>
    (satellite_id \<rightharpoonup> propagated_state) \<Rightarrow> (satellite_id \<rightharpoonup> propagated_state) result" where
  "propagate_loop lib t m [] acc = Inr acc"
| "propagate_loop lib t m (i # is) acc =
     (case m i of
        None \<Rightarrow> propagate_loop lib t m is acc
      | Some s \<Rightarrow>
          (case satellite_propagate lib t s of
             Inl e \<Rightarrow> Inl e
           | Inr st \<Rightarrow> propagate_loop lib t m is (acc(i \<mapsto> st))))"

definition constellation_propagate :: "('el, 'co) orbit_lib \<Rightarrow> satellite_id list \<Rightarrow> datetime \<Rightarrow> ('el, 'co) sat_constellation \<Rightarrow>
    constellation_snapshot result" where
  "constellation_propagate lib is t c =
     (case propagate_loop lib t (cst_satellites c) is Map.empty of
        Inl e \<Rightarrow> Inl e
      | Inr st \<Rightarrow> Inr \<lparr>csn_constellation_name = cst_name c, csn_timestamp = t, csn_states = st\<rparr>)"

text \<open>The errors of the fetch and of the refresh are logged and dropped.\<close>

fun refresh_loop :: "('el, 'co) orbit_lib \<Rightarrow> (satellite_id \<Rightarrow> (string \<times> string \<times> string) result) \<Rightarrow> satellite_id list \<Rightarrow>
    (satellite_id \<rightharpoonup> ('el, 'co) satellite) \<Rightarrow> (satellite_id \<rightharpoonup> ('el, 'co) satellite)" where
  "refresh_loop lib fetch [] m = m"
| "refresh_loop lib fetch (i # is) m =
     refresh_loop lib fetch is
       (case m i of
          None \<Rightarrow> m
        | Some s \<Rightarrow>
            (case fetch i of
               Inl e \<Rightarrow> m
             | Inr (l1, l2, src) \<Rightarrow> m(i \<mapsto> snd (refresh_tle lib l1 l2 src s))))"

definition stale_satellites :: "(satellite_id \<Rightarrow> datetime) \<Rightarrow> int \<Rightarrow> satellite_id list \<Rightarrow> ('el, 'co) sat_constellation \<Rightarrow>
    satellite_id list" where
  "stale_satellites clock h is c =
     filter (\<lambda>i. case cst_satellites c i of None \<Rightarrow> False | Some s \<Rightarrow> satellite_needs_refresh (clock i) h s) is"

definition constellation_refresh :: "('el, 'co) orbit_lib \<Rightarrow> (satellite_id \<Rightarrow> (string \<times> string \<times> string) result) \<Rightarrow>
    (satellite_id \<Rightarrow> datetime) \<Rightarrow> datetime \<Rightarrow> int \<Rightarrow> satellite_id list \<Rightarrow> ('el, 'co) sat_constellation \<Rightarrow>
    unit result \<times> ('el, 'co) sat_constellation" where
  "constellation_refresh lib fetch clock now h is c =
     (Inr (), c\<lparr>cst_satellites := refresh_loop lib fetch (stale_satellites clock h is c) (cst_satellites c),
              cst_updated_at := now\<rparr>)"

subsection \<open>The manager of constellations\<close>

record ('el, 'co) constellation_manager =
  cmg_constellations :: "string \<rightharpoonup> ('el, 'co) sat_constellation"

definition constellation_manager_new :: "('el, 'co) constellation_manager" where
  "constellation_manager_new = \<lparr>cmg_constellations = Map.empty\<rparr>"

definition add_constellation :: "('el, 'co) sat_constellation \<Rightarrow> ('el, 'co) constellation_manager \<Rightarrow>
    ('el, 'co) constellation_manager" where
  "add_constellation c g = g\<lparr>cmg_constellations := (cmg_constellations g)(cst_name c \<mapsto> c)\<rparr>"

definition get_constellation :: "string \<Rightarrow> ('el, 'co) constellation_manager \<Rightarrow> ('el, 'co) sat_constellation option" where
  "get_constellation n g = cmg_constellations g n"

fun initialize_all_loop :: "('el, 'co) orbit_lib \<Rightarrow> (string \<Rightarrow> satellite_id list) \<Rightarrow> string list \<Rightarrow>
    (string \<rightharpoonup> ('el, 'co) sat_constellation) \<Rightarrow> unit result \<times> (string \<rightharpoonup> ('el, 'co) sat_constellation)" where
  "initialize_all_loop lib ord [] m = (Inr (), m)"
| "initialize_all_loop lib ord (n # ns) m =
     (case m n of
        None \<Rightarrow> initialize_all_loop lib ord ns m
      | Some c \<Rightarrow>
          (case constellation_initialize lib (ord n) c of
             (Inl e, c') \<Rightarrow> (Inl e, m(n \<mapsto> c'))
           | (Inr u, c') \<Rightarrow> initialize_all_loop lib ord ns (m(n \<mapsto> c'))))"

definition initialize_all :: "('el, 'co) orbit_lib \<Rightarrow> (string \<Rightarrow> satellite_id list) \<Rightarrow> string list \<Rightarrow>
    ('el, 'co) constellation_manager \<Rightarrow> unit result \<times> ('el, 'co) constellation_manager" where
  "initialize_all lib ord ns g =
     (let (r, m) = initialize_all_loop lib ord ns (cmg_constellations g) in (r, g\<lparr>cmg_constellations := m\<rparr>))"

fun propagate_all_loop :: "('el, 'co) orbit_lib \<Rightarrow> (string \<Rightarrow> satellite_id list) \<Rightarrow> datetime \<Rightarrow>
    (string \<rightharpoonup> ('el, 'co) sat_constellation) \<Rightarrow> string list \<Rightarrow> (string \<rightharpoonup> constellation_snapshot) \<Rightarrow>
    (string \<rightharpoonup> constellation_snapshot) result" where
  "propagate_all_loop lib ord t m [] acc = Inr acc"
| "propagate_all_loop lib ord t m (n # ns) acc =
     (case m n of
        None \<Rightarrow> propagate_all_loop lib ord t m ns acc
      | Some c \<Rightarrow>
          (case constellation_propagate lib (ord n) t c of
             Inl e \<Rightarrow> Inl e
           | Inr sn \<Rightarrow> propagate_all_loop lib ord t m ns (acc(n \<mapsto> sn))))"

definition propagate_all :: "('el, 'co) orbit_lib \<Rightarrow> (string \<Rightarrow> satellite_id list) \<Rightarrow> string list \<Rightarrow> datetime \<Rightarrow>
    ('el, 'co) constellation_manager \<Rightarrow> (string \<rightharpoonup> constellation_snapshot) result" where
  "propagate_all lib ord ns t g = propagate_all_loop lib ord t (cmg_constellations g) ns Map.empty"

fun first_some :: "'b option list \<Rightarrow> 'b option" where
  "first_some [] = None"
| "first_some (Some x # xs) = Some x"
| "first_some (None # xs) = first_some xs"

definition manager_get_satellite :: "string list \<Rightarrow> satellite_id \<Rightarrow> ('el, 'co) constellation_manager \<Rightarrow>
    ('el, 'co) satellite option" where
  "manager_get_satellite ns i g = first_some (map (constellation_get i) (map_values (cmg_constellations g) ns))"

definition propagate_satellite :: "('el, 'co) orbit_lib \<Rightarrow> string list \<Rightarrow> satellite_id \<Rightarrow> datetime \<Rightarrow>
    ('el, 'co) constellation_manager \<Rightarrow> propagated_state result" where
  "propagate_satellite lib ns i t g =
     (case manager_get_satellite ns i g of
        None \<Rightarrow> Inl (Tracking (''Satellite '' @ satellite_id_str i @ '' not found''))
      | Some s \<Rightarrow> satellite_propagate lib t s)"

end
