(* ===== verification/Pass_Prediction.thy ===== *)
theory Pass_Prediction
  imports Constellation
begin

text \<open>
  The prediction of passes over ground stations (\<open>constellation/src/pass.rs\<close>).

  The sine, the cosine and the arc sine are parameters. \<open>visible_runs\<close> is the reference definition of the
  passes: the maximal runs of samples above the horizon of the station, each with the sample after it.
\<close>

section \<open>Definitions\<close>

subsection \<open>Stations\<close>

record sky_math =
  skm_sin :: "f64 \<Rightarrow> f64"
  skm_cos :: "f64 \<Rightarrow> f64"
  skm_asin :: "f64 \<Rightarrow> f64"

definition to_radians :: "f64 \<Rightarrow> f64" where
  "to_radians x = fmul x (fdiv pi_f64 (lit 180))"

definition to_degrees :: "f64 \<Rightarrow> f64" where
  "to_degrees x = fmul x (fdiv (lit 180) pi_f64)"

text \<open>The remainder of floats is exact and has the sign of the dividend.\<close>

fun frem :: "f64 \<Rightarrow> f64 \<Rightarrow> f64" where
  "frem (Fin s a) (Fin t b) = (if b = 0 then NaN else Fin s (a - b * of_int \<lfloor>a / b\<rfloor>))"
| "frem (Fin s a) (Inf t) = Fin s a"
| "frem x y = NaN"

record pass_station =
  pss_id :: station_id
  pss_name :: string
  pss_latitude_deg :: f64
  pss_longitude_deg :: f64
  pss_altitude_m :: f64
  pss_min_elevation_deg :: f64

definition pass_station_new :: "station_id \<Rightarrow> string \<Rightarrow> f64 \<Rightarrow> f64 \<Rightarrow> f64 \<Rightarrow> f64 \<Rightarrow> pass_station" where
  "pass_station_new i n la lo al me =
     \<lparr>pss_id = i, pss_name = n, pss_latitude_deg = la, pss_longitude_deg = lo, pss_altitude_m = al,
      pss_min_elevation_deg = me\<rparr>"

definition gmst_rad :: "datetime \<Rightarrow> f64" where
  "gmst_rad t =
     (let jd = fadd (fdiv (f64_of_int (t div 1000000000)) (lit 86400)) (lit (24405875 / 10));
          gmst = fadd (lit (28046061837 / 10 ^ 8)) (fmul (lit (36098564736629 / 10 ^ 11)) (fsub jd (lit 2451545)))
      in to_radians (frem gmst (lit 360)))"

definition to_eci :: "sky_math \<Rightarrow> datetime \<Rightarrow> pass_station \<Rightarrow> vec3" where
  "to_eci sk t st =
     (let lat = to_radians (pss_latitude_deg st); lon = to_radians (pss_longitude_deg st);
          alt_km = fdiv (pss_altitude_m st) (lit 1000);
          flattening = fdiv (lit 1) (lit (298257223563 / 10 ^ 9));
          sin_lat = skm_sin sk lat; cos_lat = skm_cos sk lat;
          radius = fadd (fdiv (lit (6378137 / 1000)) (fsqrt (fsub (lit 1) (fmul (fmul flattening sin_lat) sin_lat)))) alt_km;
          theta = fadd lon (gmst_rad t)
      in (fmul (fmul radius cos_lat) (skm_cos sk theta), fmul (fmul radius cos_lat) (skm_sin sk theta), fmul radius sin_lat))"

definition elevation_from_position :: "sky_math \<Rightarrow> vec3 \<Rightarrow> datetime \<Rightarrow> pass_station \<Rightarrow> f64" where
  "elevation_from_position sk p t st =
     (let (px, py, pz) = p; (ex, ey, ez) = to_eci sk t st;
          r0 = fsub px ex; r1 = fsub py ey; r2 = fsub pz ez;
          lat = to_radians (pss_latitude_deg st); lon = to_radians (pss_longitude_deg st);
          sin_lat = skm_sin sk lat; cos_lat = skm_cos sk lat; sin_lon = skm_sin sk lon; cos_lon = skm_cos sk lon;
          east = fadd (fmul (fneg sin_lon) r0) (fmul cos_lon r1);
          north = fadd (fsub (fmul (fmul (fneg sin_lat) cos_lon) r0) (fmul (fmul sin_lat sin_lon) r1)) (fmul cos_lat r2);
          up = fadd (fadd (fmul (fmul cos_lat cos_lon) r0) (fmul (fmul cos_lat sin_lon) r1)) (fmul sin_lat r2);
          slant = fsqrt (fadd (fadd (fmul east east) (fmul north north)) (fmul up up))
      in to_degrees (skm_asin sk (fdiv up slant)))"

definition state_range :: "propagated_state \<Rightarrow> f64" where
  "state_range s =
     (let (x, y, z) = pst_position s in fsqrt (fadd (fadd (fmul x x) (fmul y y)) (fmul z z)))"

subsection \<open>Passes\<close>

record predicted_window =
  pwn_rise_time :: datetime
  pwn_set_time :: datetime
  pwn_max_elevation_deg :: f64
  pwn_max_elevation_time :: datetime

record predicted_pass =
  ppa_satellite_id :: string
  ppa_station_id :: station_id
  ppa_window :: predicted_window
  ppa_max_range_km :: f64

record pass_predictor =
  ppr_stations :: "station_id \<rightharpoonup> pass_station"

definition pass_predictor_new :: pass_predictor where
  "pass_predictor_new = \<lparr>ppr_stations = Map.empty\<rparr>"

definition add_station :: "pass_station \<Rightarrow> pass_predictor \<Rightarrow> pass_predictor" where
  "add_station st p = p\<lparr>ppr_stations := (ppr_stations p)(pss_id st \<mapsto> st)\<rparr>"

definition get_station :: "station_id \<Rightarrow> pass_predictor \<Rightarrow> pass_station option" where
  "get_station i p = ppr_stations p i"

text \<open>The local variables of the loop over the samples.\<close>

record pass_tracker =
  ptk_passes :: "predicted_pass list"
  ptk_in_pass :: bool
  ptk_current :: "predicted_window option"
  ptk_max_elevation :: f64
  ptk_max_time :: "datetime option"
  ptk_max_range :: f64

definition tracker_start :: pass_tracker where
  "tracker_start = \<lparr>ptk_passes = [], ptk_in_pass = False, ptk_current = None, ptk_max_elevation = lit 0,
     ptk_max_time = None, ptk_max_range = lit 0\<rparr>"

definition close_pass :: "string \<Rightarrow> station_id \<Rightarrow> datetime \<Rightarrow> datetime \<Rightarrow> pass_tracker \<Rightarrow> pass_tracker" where
  "close_pass sid stn set_time default_time k =
     (case ptk_current k of
        None \<Rightarrow> k
      | Some w \<Rightarrow> k\<lparr>ptk_current := None, ptk_passes := ptk_passes k @
          [\<lparr>ppa_satellite_id = sid, ppa_station_id = stn,
            ppa_window = w\<lparr>pwn_set_time := set_time, pwn_max_elevation_deg := ptk_max_elevation k,
              pwn_max_elevation_time := (case ptk_max_time k of None \<Rightarrow> default_time | Some t \<Rightarrow> t)\<rparr>,
            ppa_max_range_km = ptk_max_range k\<rparr>]\<rparr>)"

definition track_state :: "sky_math \<Rightarrow> string \<Rightarrow> station_id \<Rightarrow> pass_station \<Rightarrow> propagated_state \<Rightarrow> pass_tracker \<Rightarrow> pass_tracker" where
  "track_state sk sid stn st s k =
     (let elevation = elevation_from_position sk (pst_position s) (pst_time s) st; range = state_range s in
      if fle (pss_min_elevation_deg st) elevation then
        if \<not> ptk_in_pass k then
          k\<lparr>ptk_in_pass := True,
            ptk_current := Some \<lparr>pwn_rise_time = pst_time s, pwn_set_time = pst_time s, pwn_max_elevation_deg = lit 0,
              pwn_max_elevation_time = pst_time s\<rparr>,
            ptk_max_elevation := elevation, ptk_max_time := Some (pst_time s), ptk_max_range := range\<rparr>
        else
          (let k1 = (if flt (ptk_max_elevation k) elevation
                     then k\<lparr>ptk_max_elevation := elevation, ptk_max_time := Some (pst_time s)\<rparr> else k)
           in if flt (ptk_max_range k1) range then k1\<lparr>ptk_max_range := range\<rparr> else k1)
      else if ptk_in_pass k then close_pass sid stn (pst_time s) (pst_time s) (k\<lparr>ptk_in_pass := False\<rparr>)
      else k)"

definition predict_passes :: "sky_math \<Rightarrow> datetime \<Rightarrow> string \<Rightarrow> propagated_state list \<Rightarrow> station_id \<Rightarrow> pass_predictor \<Rightarrow>
    predicted_pass list result" where
  "predict_passes sk now sid states stn p =
     (case get_station stn p of
        None \<Rightarrow> Inl (Tracking (''Station '' @ station_id_str stn @ '' not found''))
      | Some st \<Rightarrow>
          (let k = fold (track_state sk sid stn st) states tracker_start;
               k1 = (if ptk_in_pass k
                     then close_pass sid stn (if states = [] then now else pst_time (last states)) now k else k)
           in Inr (ptk_passes k1)))"

text \<open>The samples of a satellite; a step of no length never ends, and a panic of the date library is the inner \<open>None\<close>.\<close>

partial_function (option) sample_states :: "('el, 'co) orbit_lib \<Rightarrow> chrono \<Rightarrow> ('el, 'co) satellite \<Rightarrow> int \<Rightarrow> datetime \<Rightarrow>
    datetime \<Rightarrow> propagated_state list \<Rightarrow> propagated_state list result option option" where
  "sample_states lib ch sat step t end_time acc =
     (if t \<le> end_time then
        (case satellite_propagate lib t sat of
           Inl e \<Rightarrow> Some (Some (Inl e))
         | Inr s \<Rightarrow>
             (if \<not> duration_in_range ch (duration_seconds step) then Some None
              else (case date_add ch t (duration_seconds step) of
                      None \<Rightarrow> Some None
                    | Some t' \<Rightarrow> sample_states lib ch sat step t' end_time (acc @ [s]))))
      else Some (Some (Inr acc)))"

fun stations_loop :: "sky_math \<Rightarrow> datetime \<Rightarrow> string \<Rightarrow> propagated_state list \<Rightarrow> station_id list \<Rightarrow> pass_predictor \<Rightarrow>
    (station_id \<rightharpoonup> predicted_pass list) \<Rightarrow> (station_id \<rightharpoonup> predicted_pass list) result" where
  "stations_loop sk now sid states [] p acc = Inr acc"
| "stations_loop sk now sid states (i # is) p acc =
     (case predict_passes sk now sid states i p of
        Inl e \<Rightarrow> Inl e
      | Inr ps \<Rightarrow> stations_loop sk now sid states is p
          (if ps = [] then acc else acc(i \<mapsto> (case acc i of None \<Rightarrow> [] | Some qs \<Rightarrow> qs) @ ps)))"

fun satellites_loop :: "('el, 'co) orbit_lib \<Rightarrow> sky_math \<Rightarrow> chrono \<Rightarrow> datetime \<Rightarrow> station_id list \<Rightarrow> datetime \<Rightarrow> datetime \<Rightarrow>
    int \<Rightarrow> pass_predictor \<Rightarrow> (satellite_id \<times> ('el, 'co) satellite) list \<Rightarrow> (station_id \<rightharpoonup> predicted_pass list) \<Rightarrow>
    (station_id \<rightharpoonup> predicted_pass list) result option option" where
  "satellites_loop lib sk ch now stns t0 t1 step p [] acc = Some (Some (Inr acc))"
| "satellites_loop lib sk ch now stns t0 t1 step p ((i, s) # ss) acc =
     Option.bind (sample_states lib ch s step t0 t1 []) (\<lambda>r.
       case r of
         None \<Rightarrow> Some None
       | Some (Inl e) \<Rightarrow> Some (Some (Inl e))
       | Some (Inr states) \<Rightarrow>
           (case stations_loop sk now (satellite_id_str i) states stns p acc of
              Inl e \<Rightarrow> Some (Some (Inl e))
            | Inr acc' \<Rightarrow> satellites_loop lib sk ch now stns t0 t1 step p ss acc'))"

definition predict_all_passes :: "('el, 'co) orbit_lib \<Rightarrow> sky_math \<Rightarrow> chrono \<Rightarrow> datetime \<Rightarrow> satellite_id list \<Rightarrow>
    station_id list \<Rightarrow> ('el, 'co) sat_constellation \<Rightarrow> datetime \<Rightarrow> datetime \<Rightarrow> u64 \<Rightarrow> pass_predictor \<Rightarrow>
    (station_id \<rightharpoonup> predicted_pass list) result option option" where
  "predict_all_passes lib sk ch now is stns c t0 t1 step p =
     satellites_loop lib sk ch now stns t0 t1 (sint step) p
       (List.map_filter (\<lambda>i. map_option (Pair i) (cst_satellites c i)) is) Map.empty"

section \<open>The reference definition\<close>

function visible_runs :: "('a \<Rightarrow> bool) \<Rightarrow> 'a list \<Rightarrow> ('a list \<times> 'a option) list" where
  "visible_runs P xs =
     (case dropWhile (\<lambda>x. \<not> P x) xs of
        [] \<Rightarrow> []
      | y # ys \<Rightarrow> (y # takeWhile P ys, case dropWhile P ys of [] \<Rightarrow> None | z # _ \<Rightarrow> Some z) # visible_runs P (dropWhile P ys))"
  by pat_completeness auto
termination
proof (relation "measure (\<lambda>(P, xs). length xs)", simp_all)
  fix P :: "'a \<Rightarrow> bool" and xs y ys
  assume "dropWhile (\<lambda>x. \<not> P x) xs = y # ys"
  then have "length (y # ys) \<le> length xs" by (metis length_dropWhile_le)
  then show "length (dropWhile P ys) < length xs" using length_dropWhile_le [of P ys] by simp
qed

declare visible_runs.simps [simp del]

definition best_of :: "('a \<Rightarrow> f64) \<Rightarrow> ('a \<Rightarrow> datetime) \<Rightarrow> 'a list \<Rightarrow> f64 \<times> datetime" where
  "best_of el tm r = foldl (\<lambda>(m, t) s. if flt m (el s) then (el s, tm s) else (m, t)) (el (hd r), tm (hd r)) (tl r)"

definition greatest_of :: "('a \<Rightarrow> f64) \<Rightarrow> 'a list \<Rightarrow> f64" where
  "greatest_of g r = foldl (\<lambda>m s. if flt m (g s) then g s else m) (g (hd r)) (tl r)"

definition elevation_of :: "sky_math \<Rightarrow> pass_station \<Rightarrow> propagated_state \<Rightarrow> f64" where
  "elevation_of sk st s = elevation_from_position sk (pst_position s) (pst_time s) st"

definition pass_of_run :: "sky_math \<Rightarrow> string \<Rightarrow> station_id \<Rightarrow> pass_station \<Rightarrow> propagated_state list \<times> propagated_state option \<Rightarrow>
    predicted_pass" where
  "pass_of_run sk sid stn st rn =
     (let (r, after) = rn; (m, t) = best_of (elevation_of sk st) pst_time r in
      \<lparr>ppa_satellite_id = sid, ppa_station_id = stn,
       ppa_window = \<lparr>pwn_rise_time = pst_time (hd r),
         pwn_set_time = (case after of None \<Rightarrow> pst_time (last r) | Some s \<Rightarrow> pst_time s),
         pwn_max_elevation_deg = m, pwn_max_elevation_time = t\<rparr>,
       ppa_max_range_km = greatest_of state_range r\<rparr>)"

section \<open>Lemmas\<close>

subsection \<open>Runs\<close>

lemma visible_runs_Nil [simp]: "visible_runs P [] = []"
  by (simp add: visible_runs.simps)

lemma visible_runs_skip: "\<not> P x \<Longrightarrow> visible_runs P (x # xs) = visible_runs P xs"
  by (simp add: visible_runs.simps [of P "x # xs"] visible_runs.simps [of P xs])

lemma visible_runs_take: "P x \<Longrightarrow> visible_runs P (x # xs) =
    (x # takeWhile P xs, case dropWhile P xs of [] \<Rightarrow> None | z # _ \<Rightarrow> Some z) # visible_runs P (dropWhile P xs)"
  by (simp add: visible_runs.simps [of P "x # xs"])

lemma best_of_snoc: "r \<noteq> [] \<Longrightarrow> best_of el tm (r @ [s]) =
    (let (m, t) = best_of el tm r in if flt m (el s) then (el s, tm s) else (m, t))"
  by (cases r) (auto simp: best_of_def split: prod.splits)

lemma greatest_of_snoc: "r \<noteq> [] \<Longrightarrow> greatest_of g (r @ [s]) = (if flt (greatest_of g r) (g s) then g s else greatest_of g r)"
  by (cases r) (auto simp: greatest_of_def)

text \<open>The tracker outside of a pass and inside one that has the samples \<open>r\<close> so far.\<close>

definition idle :: "predicted_pass list \<Rightarrow> pass_tracker \<Rightarrow> bool" where
  "idle ps k \<longleftrightarrow> ptk_passes k = ps \<and> \<not> ptk_in_pass k \<and> ptk_current k = None"

definition tracking :: "sky_math \<Rightarrow> pass_station \<Rightarrow> predicted_pass list \<Rightarrow> propagated_state list \<Rightarrow> pass_tracker \<Rightarrow> bool" where
  "tracking sk st ps r k \<longleftrightarrow> ptk_passes k = ps \<and> ptk_in_pass k \<and>
     ptk_current k = Some \<lparr>pwn_rise_time = pst_time (hd r), pwn_set_time = pst_time (hd r), pwn_max_elevation_deg = lit 0,
       pwn_max_elevation_time = pst_time (hd r)\<rparr> \<and>
     (ptk_max_elevation k, ptk_max_time k) = (let (m, t) = best_of (elevation_of sk st) pst_time r in (m, Some t)) \<and>
     ptk_max_range k = greatest_of state_range r"

definition visible :: "sky_math \<Rightarrow> pass_station \<Rightarrow> propagated_state \<Rightarrow> bool" where
  "visible sk st s \<longleftrightarrow> fle (pss_min_elevation_deg st) (elevation_of sk st s)"

lemma track_idle:
  assumes "idle ps k"
  shows "if visible sk st s then tracking sk st ps [s] (track_state sk sid stn st s k)
    else idle ps (track_state sk sid stn st s k)"
  using assms by (auto simp: idle_def tracking_def visible_def track_state_def elevation_of_def best_of_def greatest_of_def Let_def)

lemma track_visible:
  assumes "tracking sk st ps r k" "r \<noteq> []" "visible sk st s"
  shows "tracking sk st ps (r @ [s]) (track_state sk sid stn st s k)"
  using assms by (auto simp: tracking_def visible_def track_state_def elevation_of_def best_of_snoc greatest_of_snoc Let_def
      split: prod.splits)

lemma close_tracking:
  assumes "tracking sk st ps r k"
  shows "close_pass sid stn t d (k\<lparr>ptk_in_pass := b\<rparr>) = k\<lparr>ptk_in_pass := b, ptk_current := None,
    ptk_passes := ps @ [(pass_of_run sk sid stn st (r, None))\<lparr>ppa_window := (ppa_window (pass_of_run sk sid stn st (r, None)))
      \<lparr>pwn_set_time := t\<rparr>\<rparr>]\<rparr>"
  using assms by (auto simp: tracking_def close_pass_def pass_of_run_def Let_def split: prod.splits)

lemma pass_of_run_set: "(pass_of_run sk sid stn st (r, None))\<lparr>ppa_window := (ppa_window (pass_of_run sk sid stn st (r, None)))
      \<lparr>pwn_set_time := pst_time s\<rparr>\<rparr> = pass_of_run sk sid stn st (r, Some s)"
  by (simp add: pass_of_run_def Let_def split: prod.splits)

lemma pass_of_run_end: "(pass_of_run sk sid stn st (r, None))\<lparr>ppa_window := (ppa_window (pass_of_run sk sid stn st (r, None)))
      \<lparr>pwn_set_time := pst_time (last r)\<rparr>\<rparr> = pass_of_run sk sid stn st (r, None)"
  by (simp add: pass_of_run_def Let_def split: prod.splits)

lemma track_invisible:
  assumes "tracking sk st ps r k" "\<not> visible sk st s"
  shows "idle (ps @ [pass_of_run sk sid stn st (r, Some s)]) (track_state sk sid stn st s k)"
proof -
  have "track_state sk sid stn st s k = close_pass sid stn (pst_time s) (pst_time s) (k\<lparr>ptk_in_pass := False\<rparr>)"
    using assms by (simp add: track_state_def visible_def elevation_of_def tracking_def Let_def)
  then show ?thesis by (simp add: close_tracking [OF assms(1)] pass_of_run_set idle_def)
qed

definition passes_end :: "string \<Rightarrow> station_id \<Rightarrow> datetime \<Rightarrow> datetime \<Rightarrow> pass_tracker \<Rightarrow> predicted_pass list" where
  "passes_end sid stn t now k = ptk_passes (if ptk_in_pass k then close_pass sid stn t now k else k)"

lemma passes_end_idle: "idle ps k \<Longrightarrow> passes_end sid stn t now k = ps"
  by (simp add: passes_end_def idle_def)

lemma passes_end_tracking:
  assumes "tracking sk st ps r k"
  shows "passes_end sid stn (pst_time (last r)) now k = ps @ [pass_of_run sk sid stn st (r, None)]"
proof -
  have "ptk_in_pass k" using assms by (simp add: tracking_def)
  then have same: "k\<lparr>ptk_in_pass := True\<rparr> = k" by (cases k) simp
  show ?thesis
    using \<open>ptk_in_pass k\<close> close_tracking [OF assms, where sid = sid and stn = stn and t = "pst_time (last r)" and d = now and b = True, unfolded same] pass_of_run_end [where sk = sk and sid = sid and stn = stn and st = st and r = r]
    by (simp add: passes_end_def)
qed

lemma tracker_runs:
  "(idle ps k \<longrightarrow> (xs \<noteq> [] \<longrightarrow> t = pst_time (last xs)) \<longrightarrow>
      passes_end sid stn t now (fold (track_state sk sid stn st) xs k) =
        ps @ map (pass_of_run sk sid stn st) (visible_runs (visible sk st) xs)) \<and>
   (tracking sk st ps r k \<longrightarrow> r \<noteq> [] \<longrightarrow> t = pst_time (last (r @ xs)) \<longrightarrow>
      passes_end sid stn t now (fold (track_state sk sid stn st) xs k) =
        ps @ pass_of_run sk sid stn st (r @ takeWhile (visible sk st) xs,
            case dropWhile (visible sk st) xs of [] \<Rightarrow> None | z # _ \<Rightarrow> Some z) #
          map (pass_of_run sk sid stn st) (visible_runs (visible sk st) (dropWhile (visible sk st) xs)))"
proof (induction xs arbitrary: ps r k)
  case Nil
  show ?case by (auto simp: passes_end_idle passes_end_tracking)
next
  case (Cons x xs)
  let ?V = "visible sk st" and ?k = "track_state sk sid stn st x k"
  show ?case
  proof (intro conjI impI)
    assume idle: "idle ps k" and t: "x # xs \<noteq> [] \<longrightarrow> t = pst_time (last (x # xs))"
    show "passes_end sid stn t now (fold (track_state sk sid stn st) (x # xs) k) =
        ps @ map (pass_of_run sk sid stn st) (visible_runs ?V (x # xs))"
    proof (cases "?V x")
      case True
      with track_idle [OF idle, of sk st x sid stn] have "tracking sk st ps [x] ?k" by simp
      with Cons.IH [of ps ?k "[x]"] t True show ?thesis by (simp add: visible_runs_take)
    next
      case False
      with track_idle [OF idle, of sk st x sid stn] have "idle ps ?k" by simp
      with Cons.IH [of ps ?k] t False show ?thesis by (auto simp: visible_runs_skip)
    qed
  next
    assume tracking: "tracking sk st ps r k" and r: "r \<noteq> []" and t: "t = pst_time (last (r @ x # xs))"
    show "passes_end sid stn t now (fold (track_state sk sid stn st) (x # xs) k) =
        ps @ pass_of_run sk sid stn st (r @ takeWhile ?V (x # xs), case dropWhile ?V (x # xs) of [] \<Rightarrow> None | z # _ \<Rightarrow> Some z) #
          map (pass_of_run sk sid stn st) (visible_runs ?V (dropWhile ?V (x # xs)))"
    proof (cases "?V x")
      case True
      with track_visible [OF tracking r True, of sid stn] Cons.IH [of ps ?k "r @ [x]"] t show ?thesis by simp
    next
      case False
      with track_invisible [OF tracking False, of sid stn] Cons.IH [of "ps @ [pass_of_run sk sid stn st (r, Some x)]" ?k] t
      show ?thesis by (auto simp: visible_runs_skip)
    qed
  qed
qed

text \<open>What the reference definition is.\<close>

lemma visible_runs_spec:
  assumes "(r, z) \<in> set (visible_runs P xs)"
  shows "\<exists>a b. xs = a @ r @ b \<and> r \<noteq> [] \<and> (\<forall>x \<in> set r. P x) \<and> (a = [] \<or> \<not> P (last a)) \<and>
    z = (case b of [] \<Rightarrow> None | y # _ \<Rightarrow> Some y) \<and> (b = [] \<or> \<not> P (hd b))"
  using assms
proof (induction P xs rule: visible_runs.induct)
  case (1 P xs)
  show ?case
  proof (cases "dropWhile (\<lambda>x. \<not> P x) xs")
    case Nil
    with 1(2) show ?thesis by (simp add: visible_runs.simps [of P xs])
  next
    case (Cons y ys)
    have y: "P y" using hd_dropWhile [of "\<lambda>x. \<not> P x" xs] Cons by simp
    let ?pre = "takeWhile (\<lambda>x. \<not> P x) xs"
    have xs: "xs = ?pre @ y # takeWhile P ys @ dropWhile P ys"
      using takeWhile_dropWhile_id [of "\<lambda>x. \<not> P x" xs] Cons by simp
    have pre: "?pre = [] \<or> \<not> P (last ?pre)" using last_in_set set_takeWhileD by (metis (mono_tags))
    from 1(2) Cons consider "r = y # takeWhile P ys" "z = (case dropWhile P ys of [] \<Rightarrow> None | y # _ \<Rightarrow> Some y)"
      | "(r, z) \<in> set (visible_runs P (dropWhile P ys))"
      by (auto simp: visible_runs.simps [of P xs])
    then show ?thesis
    proof cases
      case 1
      have "\<forall>x \<in> set r. P x" using 1 y set_takeWhileD by (metis set_ConsD)
      moreover have "dropWhile P ys = [] \<or> \<not> P (hd (dropWhile P ys))" using hd_dropWhile by blast
      moreover have "xs = ?pre @ r @ dropWhile P ys" using xs 1(1) by simp
      ultimately show ?thesis using 1 pre by blast
    next
      case 2
      from 1(1) [OF Cons 2] obtain a b where ab: "dropWhile P ys = a @ r @ b" "r \<noteq> []" "\<forall>x \<in> set r. P x"
          "a = [] \<or> \<not> P (last a)" "z = (case b of [] \<Rightarrow> None | y # _ \<Rightarrow> Some y)" "b = [] \<or> \<not> P (hd b)" by blast
      have "a \<noteq> []"
      proof
        assume "a = []"
        with ab(1,2) have "hd (dropWhile P ys) = hd r" "dropWhile P ys \<noteq> []" by auto
        with hd_dropWhile [of P ys] ab(2,3) show False by auto
      qed
      with xs ab(1) have "xs = (?pre @ y # takeWhile P ys @ a) @ r @ b" "last (?pre @ y # takeWhile P ys @ a) = last a" by simp_all
      with ab \<open>a \<noteq> []\<close> show ?thesis by (metis append_is_Nil_conv)
    qed
  qed
qed

lemma visible_runs_all: "concat (map fst (visible_runs P xs)) = filter P xs"
proof (induction P xs rule: visible_runs.induct)
  case (1 P xs)
  show ?case
  proof (cases "dropWhile (\<lambda>x. \<not> P x) xs")
    case Nil
    have "visible_runs P xs = []" by (simp only: visible_runs.simps [of P xs] Nil list.case)
    moreover have "filter P xs = []" using Nil by (simp add: filter_empty_conv)
    ultimately show ?thesis by simp
  next
    case (Cons y ys)
    have y: "P y" using hd_dropWhile [of "\<lambda>x. \<not> P x" xs] Cons by simp
    have "filter P xs = filter P (takeWhile (\<lambda>x. \<not> P x) xs @ dropWhile (\<lambda>x. \<not> P x) xs)" by simp
    also have "\<dots> = filter P (dropWhile (\<lambda>x. \<not> P x) xs)"
      unfolding filter_append using set_takeWhileD [of _ "\<lambda>x. \<not> P x" xs] by (simp add: filter_empty_conv)
    also have "\<dots> = y # filter P (takeWhile P ys @ dropWhile P ys)" using Cons y by simp
    also have "\<dots> = y # takeWhile P ys @ filter P (dropWhile P ys)"
      unfolding filter_append using set_takeWhileD [of _ P ys] by (simp add: filter_id_conv)
    finally show ?thesis using 1 [OF Cons] Cons by (simp add: visible_runs.simps [of P xs])
  qed
qed

subsection \<open>The greatest elevation\<close>

lemma best_of_greatest:
  assumes "r \<noteq> []" "\<forall>s \<in> set r. el s \<noteq> NaN" "best_of el tm r = (m, t)"
  shows "(\<exists>s \<in> set r. el s = m \<and> tm s = t) \<and> (\<forall>s \<in> set r. \<not> flt m (el s))"
  using assms
proof (induction r arbitrary: m t rule: rev_induct)
  case (snoc s r)
  show ?case
  proof (cases "r = []")
    case True
    with snoc.prems(3) show ?thesis by (auto simp: best_of_def)
  next
    case False
    obtain m' t' where b: "best_of el tm r = (m', t')" by (cases "best_of el tm r")
    note IH = snoc.IH [OF False _ b]
    have nan: "m' \<noteq> NaN" using IH snoc.prems(2) by auto
    show ?thesis
    proof (cases "flt m' (el s)")
      case True
      then have "m = el s" "t = tm s" using snoc.prems(3) b False by (simp_all add: best_of_snoc)
      moreover have "\<not> flt (el s) (el x)" if "x \<in> set r" for x
        by (rule not_flt_trans [of m' "el s"]) (use that True nan IH snoc.prems(2) in \<open>auto dest: flt_asym\<close>)
      ultimately show ?thesis by auto
    next
      case no: False
      then have "m = m'" "t = t'" using snoc.prems(3) b False by (simp_all add: best_of_snoc)
      with no IH snoc.prems(2) show ?thesis by auto
    qed
  qed
qed simp

subsection \<open>The samples of a satellite\<close>

lemma sample_states_stuck:
  assumes "sample_states lib ch sat step t end_time acc = Some r" "step = 0" "t \<le> end_time" "satellite_propagate lib t sat = Inr st"
  shows "r = None"
proof -
  have "step = 0 \<longrightarrow> t \<le> end_time \<longrightarrow> satellite_propagate lib t sat = Inr st \<longrightarrow> r = None"
  proof (rule sample_states.raw_induct [where P = "\<lambda>lib ch sat step t end_time acc r. step = 0 \<longrightarrow> t \<le> end_time \<longrightarrow>
      satellite_propagate lib t sat = Inr st \<longrightarrow> r = None", OF _ assms(1)])
  qed (auto split: option.splits sum.splits if_splits simp: date_add_def duration_seconds_def)
  with assms(2-) show ?thesis by simp
qed

lemma sample_states_complete:
  assumes "0 < step" "duration_in_range ch (duration_seconds step)"
    and "\<forall>u \<in> {t..end_time + duration_seconds step}. date_in_range ch u"
    and "\<forall>u \<in> {t..end_time}. \<exists>s. satellite_propagate lib u sat = Inr s"
  shows "\<exists>ss. sample_states lib ch sat step t end_time acc = Some (Some (Inr (acc @ ss))) \<and>
    length ss = (if end_time < t then 0 else nat ((end_time - t) div duration_seconds step) + 1) \<and>
    (\<forall>i < length ss. satellite_propagate lib (t + int i * duration_seconds step) sat = Inr (ss ! i))"
  using assms(3,4)
proof (induction "nat (end_time + 1 - t)" arbitrary: t acc rule: less_induct)
  case less
  let ?d = "duration_seconds step"
  have d: "0 < ?d" using assms(1) by (simp add: duration_seconds_def)
  show ?case
  proof (cases "end_time < t")
    case True
    then show ?thesis by (simp add: sample_states.simps)
  next
    case False
    then obtain s where s: "satellite_propagate lib t sat = Inr s" using bspec [OF less.prems(2), of t] by auto
    have step: "sample_states lib ch sat step t end_time acc = sample_states lib ch sat step (t + ?d) end_time (acc @ [s])"
      using False s assms(2) less.prems(1) d by (simp add: sample_states.simps [of lib ch sat step t] date_add_def)
    obtain ss where ss: "sample_states lib ch sat step (t + ?d) end_time (acc @ [s]) = Some (Some (Inr ((acc @ [s]) @ ss)))"
        "length ss = (if end_time < t + ?d then 0 else nat ((end_time - (t + ?d)) div ?d) + 1)"
        "\<forall>i < length ss. satellite_propagate lib ((t + ?d) + int i * ?d) sat = Inr (ss ! i)"
      using less.hyps [of "t + ?d" "acc @ [s]"] less.prems d False by force
    have "length (s # ss) = nat ((end_time - t) div ?d) + 1"
    proof (cases "end_time < t + ?d")
      case True
      then have "(end_time - t) div ?d = 0" using False by (intro div_pos_pos_trivial) auto
      with True ss(2) show ?thesis by simp
    next
      case ge: False
      have "(end_time - t) div ?d = (end_time - (t + ?d)) div ?d + 1"
        using div_add_self2 [of ?d "end_time - (t + ?d)"] d by (simp add: algebra_simps)
      moreover have "0 \<le> (end_time - (t + ?d)) div ?d" using ge d by (simp add: pos_imp_zdiv_nonneg_iff)
      ultimately show ?thesis using ge ss(2) by (simp add: nat_add_distrib)
    qed
    moreover have "\<forall>i < length (s # ss). satellite_propagate lib (t + int i * ?d) sat = Inr ((s # ss) ! i)"
      using s ss(3) by (auto simp: nth_Cons algebra_simps split: nat.splits)
    ultimately show ?thesis using step ss(1) False by (intro exI [of _ "s # ss"]) simp
  qed
qed

subsection \<open>Refreshing a constellation\<close>

lemma refresh_loop_other: "i \<notin> set is \<Longrightarrow> refresh_loop lib fetch is m i = m i"
  by (induction lib fetch "is" m rule: refresh_loop.induct) (auto split: option.splits sum.splits)

lemma refresh_loop_constants:
  assumes "m i = Some s" "distinct is" "i \<in> set is" "fetch i = Inr (l1, l2, src)" "orl_from_tle lib (sat_name s) l1 l2 = Inr el"
  shows "\<exists>s'. refresh_loop lib fetch is m i = Some s' \<and> sat_constants s' = None \<and> sat_elements s' = el"
  using assms
proof (induction lib fetch "is" m rule: refresh_loop.induct)
  case (2 lib fetch j "is" m)
  show ?case
  proof (cases "i = j")
    case True
    with 2(3,5,6) show ?thesis using 2(2) by (simp add: refresh_loop_other refresh_tle_def)
  next
    case False
    then have "(case m j of None \<Rightarrow> m | Some s \<Rightarrow> (case fetch j of Inl e \<Rightarrow> m
        | Inr (l1, l2, src) \<Rightarrow> m(j \<mapsto> snd (refresh_tle lib l1 l2 src s)))) i = Some s"
      using 2(2) by (auto split: option.splits sum.splits)
    with 2(1) [OF this] 2(3-6) False show ?thesis by simp
  qed
qed simp

lemma propagate_loop_uninitialized:
  assumes "i \<in> set is" "m i = Some s" "sat_constants s = None"
  shows "\<exists>e. propagate_loop lib t m is acc = Inl e"
  using assms by (induction lib t m "is" acc rule: propagate_loop.induct)
    (auto simp: satellite_propagate_def split: option.splits sum.splits)

lemma passes_are_visible_runs_helper:
  assumes "get_station stn p = Some st"
  shows "predict_passes sk now sid states stn p = Inr (map (pass_of_run sk sid stn st) (visible_runs (visible sk st) states))"
proof -
  have "idle [] tracker_start" by (simp add: idle_def tracker_start_def)
  then have "passes_end sid stn (if states = [] then now else pst_time (last states)) now
      (fold (track_state sk sid stn st) states tracker_start) =
      map (pass_of_run sk sid stn st) (visible_runs (visible sk st) states)"
    using tracker_runs [where ps = "[]" and k = tracker_start and xs = states and sk = sk and st = st and sid = sid and
        stn = stn and now = now and t = "if states = [] then now else pst_time (last states)"] by auto
  then show ?thesis using assms by (simp add: predict_passes_def passes_end_def Let_def)
qed

section \<open>Properties\<close>

text \<open>C28: The passes that are predicted for a known station are the maximal runs of samples at or above its least
  elevation, in order: each rises at the first sample of its run and sets at the sample after it, or at its
  last sample at the end of the window, and these runs hold every visible sample exactly once.
\<close>

lemma passes_are_visible_runs:
  assumes "get_station stn p = Some st"
  shows "predict_passes sk now sid states stn p =
      Inr (map (pass_of_run sk sid stn st) (visible_runs (visible sk st) states)) \<and>
    concat (map fst (visible_runs (visible sk st) states)) = filter (visible sk st) states"
  using passes_are_visible_runs_helper [OF assms] visible_runs_all by blast

text \<open>The greatest elevation of a predicted pass is attained by a sample of its run at the time that is given,
  and no sample of the run is higher.
\<close>

lemma pass_elevation_greatest:
  assumes "get_station stn p = Some st" "predict_passes sk now sid states stn p = Inr ps" "q \<in> set ps"
  shows "\<exists>r z. (r, z) \<in> set (visible_runs (visible sk st) states) \<and> q = pass_of_run sk sid stn st (r, z) \<and>
    (\<exists>s \<in> set r. elevation_of sk st s = pwn_max_elevation_deg (ppa_window q) \<and> pst_time s = pwn_max_elevation_time (ppa_window q)) \<and>
    (\<forall>s \<in> set r. \<not> flt (pwn_max_elevation_deg (ppa_window q)) (elevation_of sk st s))"
proof -
  have ps: "ps = map (pass_of_run sk sid stn st) (visible_runs (visible sk st) states)"
    using passes_are_visible_runs_helper [OF assms(1)] assms(2) by simp
  then obtain r z where rz: "(r, z) \<in> set (visible_runs (visible sk st) states)" "q = pass_of_run sk sid stn st (r, z)"
    using assms(3) by auto
  obtain a b where r: "r \<noteq> []" "\<forall>s \<in> set r. visible sk st s" using visible_runs_spec [OF rz(1)] by blast
  have "fle x y \<Longrightarrow> y \<noteq> NaN" for x y by (cases x) (auto simp: fle_def)
  then have "\<forall>s \<in> set r. elevation_of sk st s \<noteq> NaN" using r(2) by (auto simp: visible_def)
  moreover obtain m t where "best_of (elevation_of sk st) pst_time r = (m, t)" by (cases "best_of (elevation_of sk st) pst_time r")
  ultimately show ?thesis
    using rz best_of_greatest [OF r(1), of "elevation_of sk st" pst_time m t]
    by (intro exI [of _ r] exI [of _ z]) (simp add: pass_of_run_def Let_def)
qed

text \<open>After a batch refresh in which the elements of one satellite of the constellation were replaced, no
  propagation of the constellation succeeds until its constants are made again: all satellites are lost
  for the one, and the refresh itself reports no error.
\<close>

lemma refresh_disables_propagation:
  assumes "cst_satellites c i = Some s" "distinct is" "i \<in> set is" "satellite_needs_refresh (clock i) h s"
    and "fetch i = Inr (l1, l2, src)" "orl_from_tle lib (sat_name s) l1 l2 = Inr el" "i \<in> set js"
  shows "fst (constellation_refresh lib fetch clock now h is c) = Inr () \<and>
    (\<exists>e. constellation_propagate lib js t (snd (constellation_refresh lib fetch clock now h is c)) = Inl e)"
proof -
  have "i \<in> set (stale_satellites clock h is c)" "distinct (stale_satellites clock h is c)"
    using assms(1-4) by (simp_all add: stale_satellites_def)
  from refresh_loop_constants [where m = "cst_satellites c" and i = i and fetch = fetch, OF assms(1) this(2,1) assms(5,6)] obtain s' where
    "refresh_loop lib fetch (stale_satellites clock h is c) (cst_satellites c) i = Some s'" "sat_constants s' = None" by blast
  from propagate_loop_uninitialized [where m = "refresh_loop lib fetch (stale_satellites clock h is c) (cst_satellites c)"
      and i = i and lib = lib and t = t and acc = Map.empty, OF assms(7) this] show ?thesis
    by (auto simp: constellation_refresh_def constellation_propagate_def)
qed

text \<open>The samples of a satellite are taken at every step of the window when the step is positive; with a step
  of no length the prediction never returns samples.
\<close>

lemma samples_cover_window:
  assumes "t \<le> end_time" "\<forall>u \<in> {t..end_time}. \<exists>s. satellite_propagate lib u sat = Inr s"
  shows "(0 < step \<longrightarrow> duration_in_range ch (duration_seconds step) \<longrightarrow>
      (\<forall>u \<in> {t..end_time + duration_seconds step}. date_in_range ch u) \<longrightarrow>
      (\<exists>ss. sample_states lib ch sat step t end_time [] = Some (Some (Inr ss)) \<and>
        length ss = nat ((end_time - t) div duration_seconds step) + 1 \<and>
        (\<forall>i < length ss. satellite_propagate lib (t + int i * duration_seconds step) sat = Inr (ss ! i)))) \<and>
    (step = 0 \<longrightarrow> sample_states lib ch sat step t end_time [] \<in> {None, Some None})"
proof (intro conjI impI)
  assume "0 < step" "duration_in_range ch (duration_seconds step)"
    "\<forall>u \<in> {t..end_time + duration_seconds step}. date_in_range ch u"
  from sample_states_complete [OF this assms(2), of "[]"] assms(1)
  show "\<exists>ss. sample_states lib ch sat step t end_time [] = Some (Some (Inr ss)) \<and>
      length ss = nat ((end_time - t) div duration_seconds step) + 1 \<and>
      (\<forall>i < length ss. satellite_propagate lib (t + int i * duration_seconds step) sat = Inr (ss ! i))" by auto
next
  assume step: "step = 0"
  obtain s where "satellite_propagate lib t sat = Inr s" using assms by force
  from sample_states_stuck [OF _ step assms(1) this]
  show "sample_states lib ch sat step t end_time [] \<in> {None, Some None}"
    by (cases "sample_states lib ch sat step t end_time []") auto
qed

subsection \<open>Witnesses\<close>

text \<open>A sky whose arc sine only tells the sign, and a station at the equator.\<close>

definition day_sky :: sky_math where
  "day_sky = \<lparr>skm_sin = (\<lambda>x. lit 0), skm_cos = (\<lambda>x. lit 1),
     skm_asin = (\<lambda>x. case x of NaN \<Rightarrow> NaN | Inf s \<Rightarrow> if s then lit (-1) else lit 1 | Fin s m \<Rightarrow> if s then lit (-1) else lit 1)\<rparr>"

definition equator_station :: pass_station where
  "equator_station = pass_station_new (StationId ''g'') ''G'' (lit 0) (lit 0) (lit 0) (lit 0)"

definition state_at :: "f64 \<Rightarrow> datetime \<Rightarrow> propagated_state" where
  "state_at x t = \<lparr>pst_position = (x, lit 0, lit 0), pst_velocity = (lit 0, lit 0, lit 0), pst_time = t, pst_tle_epoch = 0\<rparr>"

lemma equator_position:
  "\<exists>e. to_eci day_sky t equator_station = (Fin False e, Fin False 0, Fin False 0) \<and> 6378 \<le> e \<and> e \<le> 6379"
proof -
  note between = round_between [of 6378 _ 6379 False, simplified]
  obtain f where f: "lit (298257223563 / 10 ^ 9) = Fin False f" "298 \<le> f"
    using round_between [of 298 "298257223563 / 10 ^ 9" 299 False] by (auto simp: lit_def of_exact_def)
  then have "1 / f \<le> 1" by simp
  then obtain g where g: "fdiv (lit 1) (lit (298257223563 / 10 ^ 9)) = Fin False g"
    using round_f64_le_1 [of "1 / f" False] f by auto
  obtain r where r: "lit (6378137 / 1000) = Fin False r" "6378 \<le> r" "r \<le> 6379"
    using between [of "6378137 / 1000"] by (auto simp: lit_def of_exact_def)
  obtain q where q: "round_f64 False r = Fin False q" "6378 \<le> q" "q \<le> 6379" using between [OF r(2,3)] by blast
  obtain p where p: "round_f64 False q = Fin False p" "6378 \<le> p" "p \<le> 6379" using between [OF q(2,3)] by blast
  obtain m where m: "round_f64 False p = Fin False m" "6378 \<le> m" "m \<le> 6379" using between [OF p(2,3)] by blast
  obtain e where e: "round_f64 False m = Fin False e" "6378 \<le> e" "e \<le> 6379" using between [OF m(2,3)] by blast
  have "fdiv (lit 0) (lit 1000) = Fin False 0" by (simp add: lit_numeral)
  then show ?thesis
    using e m p q r g
    by (simp add: sqrt_mag_1 to_eci_def day_sky_def equator_station_def pass_station_new_def Let_def fsub_def of_exact_def)
qed

lemma equator_elevation:
  assumes "\<And>e. 6378 \<le> e \<Longrightarrow> e \<le> 6379 \<Longrightarrow> \<exists>d. fsub px (Fin False e) = Fin s d \<and> 300 \<le> d \<and> d \<le> 700"
  shows "\<exists>q. elevation_of day_sky equator_station (state_at px t) = Fin s q \<and> 45 \<le> q"
proof -
  obtain e where e: "to_eci day_sky t equator_station = (Fin False e, Fin False 0, Fin False 0)" "6378 \<le> e" "e \<le> 6379"
    using equator_position by blast
  obtain d where d: "fsub px (Fin False e) = Fin s d" "300 \<le> d" "d \<le> 700" using assms [OF e(2,3)] by blast
  note up = round_between [of 300 _ 700 s, simplified]
  obtain d1 where d1: "round_f64 s d = Fin s d1" "300 \<le> d1" "d1 \<le> 700" using up [OF d(2,3)] by blast
  obtain d2 where d2: "round_f64 s d1 = Fin s d2" "300 \<le> d2" "d2 \<le> 700" using up [OF d1(2,3)] by blast
  obtain d3 where d3: "round_f64 s d2 = Fin s d3" "300 \<le> d3" "d3 \<le> 700" using up [OF d2(2,3)] by blast
  have "d3 * d3 \<le> 700 * 700" using d3(2,3) by (intro mult_mono) auto
  then obtain w where w: "round_f64 False (d3 * d3) = Fin False w" "0 \<le> w" "w \<le> 490000"
    using round_f64_le_nat [of "d3 * d3" 490000 False] by auto
  then obtain w1 where w1: "of_exact False w = Fin False w1" "0 \<le> w1"
    using round_f64_le_nat [of w 490000 False] by (cases "w = 0") (auto simp: of_exact_def)
  obtain v where v: "fsqrt (Fin False w1) = Fin False v" by (cases "w1 = 0") simp_all
  have quot: "skm_asin day_sky (fdiv (Fin s d3) (Fin False v)) = Fin s 1"
    using d3(2) by (cases "fdiv (Fin s d3) (Fin False v)")
      (auto simp: day_sky_def round_f64_def [of _ "d3 / v"] Let_def of_exact_def lit_def split: if_splits)
  define p :: rat where "p = 884279719003555 / 281474976710656"
  have p: "pi_f64 = Fin False p" "3 \<le> p" "p \<le> 4" by (simp_all add: pi_f64_def p_def)
  have div: "fdiv (lit 180) pi_f64 = round_f64 False (180 / p)" using p(2) by (simp add: lit_numeral p(1))
  from p have "45 \<le> 180 / p" "180 / p \<le> 60" by (simp_all add: field_simps)
  with div obtain q where q: "fdiv (lit 180) pi_f64 = Fin False q" "45 \<le> q" "q \<le> 60"
    using round_between [of 45 "180 / p" 60 False] by auto
  obtain q1 where q1: "round_f64 s q = Fin s q1" "45 \<le> q1" using round_between [of 45 q 60 s] q(2,3) by auto
  have trig: "skm_sin day_sky x = Fin False 0" "skm_cos day_sky x = Fin False 1" for x by (simp_all add: day_sky_def)
  show ?thesis
    using d d1 d2 d3 w w1 v quot q q1 e
    by (cases s) (simp_all del: fdiv.simps fsqrt.simps add: trig elevation_of_def elevation_from_position_def state_at_def
      to_degrees_def fsub_def of_exact_def Let_def)
qed

lemma equator_visible:
  "visible day_sky equator_station (state_at (lit 7000) t)"
  "\<not> visible day_sky equator_station (state_at (lit 6000) t)"
proof -
  have "\<exists>d. fsub (lit 7000) (Fin False e) = Fin False d \<and> 300 \<le> d \<and> d \<le> 700" if "6378 \<le> e" "e \<le> 6379" for e
    using round_between [of 300 "7000 - e" 700 False] that by (simp add: lit_numeral fsub_def of_exact_def)
  from equator_elevation [OF this, of t] show "visible day_sky equator_station (state_at (lit 7000) t)"
    by (auto simp: visible_def fle_def equator_station_def pass_station_new_def)
  have "\<exists>d. fsub (lit 6000) (Fin False e) = Fin True d \<and> 300 \<le> d \<and> d \<le> 700" if "6378 \<le> e" "e \<le> 6379" for e
    using round_between [of 300 "e - 6000" 700 True] that by (simp add: lit_numeral fsub_def of_exact_def)
  from equator_elevation [OF this, of t] show "\<not> visible day_sky equator_station (state_at (lit 6000) t)"
    by (auto simp: visible_def fle_def equator_station_def pass_station_new_def)
qed

lemma passes_are_visible_runs_witness:
  "\<exists>p. predict_passes day_sky 0 ''s'' [state_at (lit 6000) 1, state_at (lit 7000) 2, state_at (lit 7000) 3, state_at (lit 6000) 4]
      (StationId ''g'') (add_station equator_station pass_predictor_new) = Inr [p] \<and>
    pwn_rise_time (ppa_window p) = 2 \<and> pwn_set_time (ppa_window p) = 4"
proof -
  let ?p = "add_station equator_station pass_predictor_new"
  have "get_station (StationId ''g'') ?p = Some equator_station"
    by (simp add: get_station_def add_station_def equator_station_def pass_station_new_def)
  from passes_are_visible_runs [OF this, of day_sky 0 "''s''" "[state_at (lit 6000) 1, state_at (lit 7000) 2, state_at (lit 7000) 3,
      state_at (lit 6000) 4]"]
  show ?thesis
    by (simp add: visible_runs_skip visible_runs_take equator_visible pass_of_run_def Let_def split: prod.splits)
      (simp add: state_at_def)
qed

definition still_orbit :: "(unit, unit) orbit_lib" where
  "still_orbit = \<lparr>orl_from_tle = (\<lambda>n a b. Inr ()), orl_datetime = (\<lambda>e. 0), orl_from_elements = Inr,
     orl_propagate = (\<lambda>c m. Inr ((lit 0, lit 0, lit 0), (lit 0, lit 0, lit 0)))\<rparr>"

definition ready_satellite :: "(unit, unit) satellite" where
  "ready_satellite = \<lparr>sat_id = SatelliteId ''a'', sat_name = ''A'', sat_norad_id = 1, sat_elements = (), sat_tle_epoch = 0,
     sat_constants = Some (), sat_source = ''x''\<rparr>"

lemma refresh_disables_propagation_witness:
  "\<exists>e. constellation_propagate still_orbit [SatelliteId ''a''] 9 (snd (constellation_refresh still_orbit
     (\<lambda>i. Inr (''1'', ''2'', ''y'')) (\<lambda>i. 1) 1 (-1) [SatelliteId ''a'']
     (constellation_add 0 ready_satellite (sat_constellation_new 0 ''c'')))) = Inl e"
  using refresh_disables_propagation [of "constellation_add 0 ready_satellite (sat_constellation_new 0 ''c'')" "SatelliteId ''a''"
      ready_satellite "[SatelliteId ''a'']" "\<lambda>i. 1" "- 1" "\<lambda>i. Inr (''1'', ''2'', ''y'')" "''1''" "''2''" "''y''" still_orbit "()"
      "[SatelliteId ''a'']" 1 9]
  by (simp add: constellation_add_def sat_constellation_new_def ready_satellite_def satellite_needs_refresh_def still_orbit_def
      num_seconds_def trunc_div_def)

lemma samples_cover_window_witness:
  "sample_states still_orbit \<lparr>date_in_range = (\<lambda>t. True), duration_in_range = (\<lambda>d. True)\<rparr> ready_satellite 0 0 10 [] \<in> {None, Some None}"
  using samples_cover_window [of 0 10 still_orbit ready_satellite 0 "\<lparr>date_in_range = (\<lambda>t. True), duration_in_range = (\<lambda>d. True)\<rparr>"]
  by (simp add: satellite_propagate_def ready_satellite_def still_orbit_def)

end
