(* ===== verification/Antenna_Control.thy ===== *)
theory Antenna_Control
  imports Core_Types F64
begin

text \<open>
  Antenna control: the generic controller (\<open>acs/src/controller.rs\<close>), the adapters of three vendors
  (\<open>acs/src/vendor.rs\<close>), the safety interlock and the emergency stop (\<open>acs/src/safety.rs\<close>) and homing
  (\<open>acs/src/homing.rs\<close>).

  The interface \<open>antenna_controller\<close> is the trait of the controllers; the four implementations provide it.
  Waiting for a slew and the log are left out, the rendering of floats, the trigonometric functions and the
  fresh identifiers are parameters. An operation on a controller has it exclusively, as in the code.
\<close>

section \<open>Definitions\<close>

subsection \<open>The generic controller\<close>

record pointing_target =
  ptg_azimuth :: f64
  ptg_elevation :: f64
  ptg_timestamp :: datetime

datatype controller_status = CsIdle | CsSlewing | CsTracking | CsHoming | CsStowed | CsFault | CsEmergencyStopped

datatype controller_error =
    CeCommunication string
  | CeMotorFault string
  | CePositionOutOfLimits
  | CeSlewRateExceeded
  | CeEmergencyStop
  | CeHardware string

fun controller_error_text :: "controller_error \<Rightarrow> string" where
  "controller_error_text (CeCommunication m) = ''Communication error: '' @ m"
| "controller_error_text (CeMotorFault m) = ''Motor fault: '' @ m"
| "controller_error_text CePositionOutOfLimits = ''Position out of limits''"
| "controller_error_text CeSlewRateExceeded = ''Slew rate exceeded''"
| "controller_error_text CeEmergencyStop = ''Emergency stop activated''"
| "controller_error_text (CeHardware m) = ''Hardware error: '' @ m"

record generic_controller =
  gac_id :: uuid
  gac_status :: controller_status
  gac_current_azimuth :: f64
  gac_current_elevation :: f64
  gac_target_azimuth :: f64
  gac_target_elevation :: f64
  gac_azimuth_min :: f64
  gac_azimuth_max :: f64
  gac_elevation_min :: f64
  gac_elevation_max :: f64
  gac_azimuth_rate_limit :: f64
  gac_elevation_rate_limit :: f64
  gac_stow_azimuth :: f64
  gac_stow_elevation :: f64
  gac_enabled :: bool

definition generic_controller_new :: "uuid \<Rightarrow> f64 \<Rightarrow> f64 \<Rightarrow> f64 \<Rightarrow> f64 \<Rightarrow> f64 \<Rightarrow> f64 \<Rightarrow> generic_controller" where
  "generic_controller_new fresh az_min az_max el_min el_max az_rate el_rate =
     \<lparr>gac_id = fresh, gac_status = CsIdle, gac_current_azimuth = lit 0, gac_current_elevation = lit 0,
      gac_target_azimuth = lit 0, gac_target_elevation = lit 0, gac_azimuth_min = az_min, gac_azimuth_max = az_max,
      gac_elevation_min = el_min, gac_elevation_max = el_max, gac_azimuth_rate_limit = az_rate,
      gac_elevation_rate_limit = el_rate, gac_stow_azimuth = lit 0, gac_stow_elevation = lit 5, gac_enabled = False\<rparr>"

definition with_stow_position :: "f64 \<Rightarrow> f64 \<Rightarrow> generic_controller \<Rightarrow> generic_controller" where
  "with_stow_position az el c = c\<lparr>gac_stow_azimuth := az, gac_stow_elevation := el\<rparr>"

definition out_of_range :: "(f64 \<Rightarrow> string) \<Rightarrow> string \<Rightarrow> f64 \<Rightarrow> f64 \<Rightarrow> f64 \<Rightarrow> ground_station_error" where
  "out_of_range show_f64 what x lo hi =
     Validation (what @ '' '' @ show_f64 x @ '' out of range ['' @ show_f64 lo @ '', '' @ show_f64 hi @ '']'')"

definition generic_point :: "(f64 \<Rightarrow> string) \<Rightarrow> f64 \<Rightarrow> f64 \<Rightarrow> generic_controller \<Rightarrow> unit result \<times> generic_controller" where
  "generic_point show_f64 az el c =
     (if \<not> gac_enabled c then (Inl (Hardware ''Controller disabled''), c)
      else if flt az (gac_azimuth_min c) \<or> flt (gac_azimuth_max c) az
        then (Inl (out_of_range show_f64 ''Azimuth'' az (gac_azimuth_min c) (gac_azimuth_max c)), c)
      else if flt el (gac_elevation_min c) \<or> flt (gac_elevation_max c) el
        then (Inl (out_of_range show_f64 ''Elevation'' el (gac_elevation_min c) (gac_elevation_max c)), c)
      else (Inr (), c\<lparr>gac_target_azimuth := az, gac_target_elevation := el, gac_current_azimuth := az,
                     gac_current_elevation := el, gac_status := CsIdle\<rparr>))"

definition generic_get_position :: "generic_controller \<Rightarrow> f64 \<times> f64" where
  "generic_get_position c = (gac_current_azimuth c, gac_current_elevation c)"

definition generic_slew_to :: "(f64 \<Rightarrow> string) \<Rightarrow> uuid \<Rightarrow> pointing_target \<Rightarrow> generic_controller \<Rightarrow> uuid result \<times> generic_controller" where
  "generic_slew_to show_f64 fresh t c =
     (case generic_point show_f64 (ptg_azimuth t) (ptg_elevation t) c of
        (Inl e, c') \<Rightarrow> (Inl e, c')
      | (Inr u, c') \<Rightarrow> (Inr fresh, c'))"

definition generic_abort_slew :: "generic_controller \<Rightarrow> unit result \<times> generic_controller" where
  "generic_abort_slew c = (Inr (), c\<lparr>gac_status := CsIdle\<rparr>)"

definition generic_stow :: "(f64 \<Rightarrow> string) \<Rightarrow> generic_controller \<Rightarrow> unit result \<times> generic_controller" where
  "generic_stow show_f64 c =
     (case generic_point show_f64 (gac_stow_azimuth c) (gac_stow_elevation c) c of
        (Inl e, c') \<Rightarrow> (Inl e, c')
      | (Inr u, c') \<Rightarrow> (Inr (), c'\<lparr>gac_status := CsStowed\<rparr>))"

definition generic_get_status :: "generic_controller \<Rightarrow> controller_status" where
  "generic_get_status c = gac_status c"

definition generic_enable :: "generic_controller \<Rightarrow> unit result \<times> generic_controller" where
  "generic_enable c = (Inr (), c\<lparr>gac_enabled := True\<rparr>)"

definition generic_disable :: "generic_controller \<Rightarrow> unit result \<times> generic_controller" where
  "generic_disable c = (Inr (), c\<lparr>gac_enabled := False, gac_status := CsIdle\<rparr>)"

definition generic_emergency_stop :: "generic_controller \<Rightarrow> unit result \<times> generic_controller" where
  "generic_emergency_stop c = (Inr (), c\<lparr>gac_status := CsEmergencyStopped\<rparr>)"

definition generic_home :: "generic_controller \<Rightarrow> unit result \<times> generic_controller" where
  "generic_home c = (Inr (), c\<lparr>gac_current_azimuth := lit 0, gac_current_elevation := lit 0, gac_status := CsIdle\<rparr>)"

subsection \<open>The adapters of the vendors\<close>

record vertex_adapter =
  vra_status :: controller_status
  vra_current_az :: f64
  vra_current_el :: f64
  vra_enabled :: bool

definition vertex_new :: vertex_adapter where
  "vertex_new = \<lparr>vra_status = CsIdle, vra_current_az = lit 0, vra_current_el = lit 0, vra_enabled = False\<rparr>"

definition vertex_pointing_command :: "(f64 \<Rightarrow> string) \<Rightarrow> f64 \<Rightarrow> f64 \<Rightarrow> string result" where
  "vertex_pointing_command show4 az el = Inr (''AZ '' @ show4 az @ '' EL '' @ show4 el @ [CHR 0x0A])"

definition vertex_point :: "(f64 \<Rightarrow> string) \<Rightarrow> f64 \<Rightarrow> f64 \<Rightarrow> vertex_adapter \<Rightarrow> unit result \<times> vertex_adapter" where
  "vertex_point show4 az el c =
     (if \<not> vra_enabled c then (Inl (Hardware ''Controller disabled''), c)
      else case vertex_pointing_command show4 az el of
          Inl e \<Rightarrow> (Inl e, c)
        | Inr cmd \<Rightarrow> (Inr (), c\<lparr>vra_current_az := az, vra_current_el := el, vra_status := CsIdle\<rparr>))"

definition vertex_get_position :: "vertex_adapter \<Rightarrow> f64 \<times> f64" where
  "vertex_get_position c = (vra_current_az c, vra_current_el c)"

definition vertex_slew_to :: "(f64 \<Rightarrow> string) \<Rightarrow> uuid \<Rightarrow> pointing_target \<Rightarrow> vertex_adapter \<Rightarrow> uuid result \<times> vertex_adapter" where
  "vertex_slew_to show4 fresh t c =
     (case vertex_point show4 (ptg_azimuth t) (ptg_elevation t) c of
        (Inl e, c') \<Rightarrow> (Inl e, c')
      | (Inr u, c') \<Rightarrow> (Inr fresh, c'))"

definition vertex_abort_slew :: "vertex_adapter \<Rightarrow> unit result \<times> vertex_adapter" where
  "vertex_abort_slew c = (Inr (), c\<lparr>vra_status := CsIdle\<rparr>)"

definition vertex_stow :: "(f64 \<Rightarrow> string) \<Rightarrow> vertex_adapter \<Rightarrow> unit result \<times> vertex_adapter" where
  "vertex_stow show4 c =
     (case vertex_point show4 (lit 0) (lit 90) c of
        (Inl e, c') \<Rightarrow> (Inl e, c')
      | (Inr u, c') \<Rightarrow> (Inr (), c'\<lparr>vra_status := CsStowed\<rparr>))"

definition vertex_get_status :: "vertex_adapter \<Rightarrow> controller_status" where
  "vertex_get_status c = vra_status c"

definition vertex_enable :: "vertex_adapter \<Rightarrow> unit result \<times> vertex_adapter" where
  "vertex_enable c = (Inr (), c\<lparr>vra_enabled := True\<rparr>)"

definition vertex_disable :: "vertex_adapter \<Rightarrow> unit result \<times> vertex_adapter" where
  "vertex_disable c = (Inr (), c\<lparr>vra_enabled := False, vra_status := CsIdle\<rparr>)"

definition vertex_emergency_stop :: "vertex_adapter \<Rightarrow> unit result \<times> vertex_adapter" where
  "vertex_emergency_stop c = (Inr (), c\<lparr>vra_status := CsEmergencyStopped\<rparr>)"

definition vertex_home :: "vertex_adapter \<Rightarrow> unit result \<times> vertex_adapter" where
  "vertex_home c = (Inr (), c\<lparr>vra_current_az := lit 0, vra_current_el := lit 0, vra_status := CsIdle\<rparr>)"

record gd_adapter =
  gda_status :: controller_status
  gda_current_az :: f64
  gda_current_el :: f64
  gda_enabled :: bool

definition gd_new :: gd_adapter where
  "gd_new = \<lparr>gda_status = CsIdle, gda_current_az = lit 0, gda_current_el = lit 0, gda_enabled = False\<rparr>"

definition gd_point :: "f64 \<Rightarrow> f64 \<Rightarrow> gd_adapter \<Rightarrow> unit result \<times> gd_adapter" where
  "gd_point az el c =
     (if \<not> gda_enabled c then (Inl (Hardware ''Controller disabled''), c)
      else (Inr (), c\<lparr>gda_current_az := az, gda_current_el := el, gda_status := CsIdle\<rparr>))"

definition gd_get_position :: "gd_adapter \<Rightarrow> f64 \<times> f64" where
  "gd_get_position c = (gda_current_az c, gda_current_el c)"

definition gd_slew_to :: "uuid \<Rightarrow> pointing_target \<Rightarrow> gd_adapter \<Rightarrow> uuid result \<times> gd_adapter" where
  "gd_slew_to fresh t c =
     (case gd_point (ptg_azimuth t) (ptg_elevation t) c of
        (Inl e, c') \<Rightarrow> (Inl e, c')
      | (Inr u, c') \<Rightarrow> (Inr fresh, c'))"

definition gd_abort_slew :: "gd_adapter \<Rightarrow> unit result \<times> gd_adapter" where
  "gd_abort_slew c = (Inr (), c\<lparr>gda_status := CsIdle\<rparr>)"

definition gd_stow :: "gd_adapter \<Rightarrow> unit result \<times> gd_adapter" where
  "gd_stow c =
     (case gd_point (lit 0) (lit 90) c of
        (Inl e, c') \<Rightarrow> (Inl e, c')
      | (Inr u, c') \<Rightarrow> (Inr (), c'\<lparr>gda_status := CsStowed\<rparr>))"

definition gd_get_status :: "gd_adapter \<Rightarrow> controller_status" where
  "gd_get_status c = gda_status c"

definition gd_enable :: "gd_adapter \<Rightarrow> unit result \<times> gd_adapter" where
  "gd_enable c = (Inr (), c\<lparr>gda_enabled := True\<rparr>)"

definition gd_disable :: "gd_adapter \<Rightarrow> unit result \<times> gd_adapter" where
  "gd_disable c = (Inr (), c\<lparr>gda_enabled := False, gda_status := CsIdle\<rparr>)"

definition gd_emergency_stop :: "gd_adapter \<Rightarrow> unit result \<times> gd_adapter" where
  "gd_emergency_stop c = (Inr (), c\<lparr>gda_status := CsEmergencyStopped\<rparr>)"

definition gd_home :: "gd_adapter \<Rightarrow> unit result \<times> gd_adapter" where
  "gd_home c = (Inr (), c\<lparr>gda_current_az := lit 0, gda_current_el := lit 0, gda_status := CsIdle\<rparr>)"

text \<open>A phased array stays in the state of tracking.\<close>

record phased_array =
  paa_status :: controller_status
  paa_current_az :: f64
  paa_current_el :: f64
  paa_enabled :: bool

definition phased_new :: phased_array where
  "phased_new = \<lparr>paa_status = CsIdle, paa_current_az = lit 0, paa_current_el = lit 0, paa_enabled = False\<rparr>"

definition phased_point :: "f64 \<Rightarrow> f64 \<Rightarrow> phased_array \<Rightarrow> unit result \<times> phased_array" where
  "phased_point az el c =
     (if \<not> paa_enabled c then (Inl (Hardware ''Controller disabled''), c)
      else (Inr (), c\<lparr>paa_current_az := az, paa_current_el := el, paa_status := CsTracking\<rparr>))"

definition phased_get_position :: "phased_array \<Rightarrow> f64 \<times> f64" where
  "phased_get_position c = (paa_current_az c, paa_current_el c)"

definition phased_slew_to :: "uuid \<Rightarrow> pointing_target \<Rightarrow> phased_array \<Rightarrow> uuid result \<times> phased_array" where
  "phased_slew_to fresh t c =
     (case phased_point (ptg_azimuth t) (ptg_elevation t) c of
        (Inl e, c') \<Rightarrow> (Inl e, c')
      | (Inr u, c') \<Rightarrow> (Inr fresh, c'))"

definition phased_abort_slew :: "phased_array \<Rightarrow> unit result \<times> phased_array" where
  "phased_abort_slew c = (Inr (), c\<lparr>paa_status := CsIdle\<rparr>)"

definition phased_stow :: "phased_array \<Rightarrow> unit result \<times> phased_array" where
  "phased_stow c =
     (case phased_point (lit 0) (lit 90) c of
        (Inl e, c') \<Rightarrow> (Inl e, c')
      | (Inr u, c') \<Rightarrow> (Inr (), c'\<lparr>paa_status := CsStowed\<rparr>))"

definition phased_get_status :: "phased_array \<Rightarrow> controller_status" where
  "phased_get_status c = paa_status c"

definition phased_enable :: "phased_array \<Rightarrow> unit result \<times> phased_array" where
  "phased_enable c = (Inr (), c\<lparr>paa_enabled := True\<rparr>)"

definition phased_disable :: "phased_array \<Rightarrow> unit result \<times> phased_array" where
  "phased_disable c = (Inr (), c\<lparr>paa_enabled := False, paa_status := CsIdle\<rparr>)"

definition phased_emergency_stop :: "phased_array \<Rightarrow> unit result \<times> phased_array" where
  "phased_emergency_stop c = (Inr (), c\<lparr>paa_status := CsEmergencyStopped\<rparr>)"

definition phased_home :: "phased_array \<Rightarrow> unit result \<times> phased_array" where
  "phased_home c = (Inr (), c\<lparr>paa_current_az := lit 0, paa_current_el := lit 0, paa_status := CsIdle\<rparr>)"

subsection \<open>The safety interlock\<close>

datatype interlock_state =
    IlNormal | IlPositionLimit | IlCollision | IlMotorFault | IlEmergencyStop | IlWatchdogTimeout | IlCommunicationLost

record safety_interlock =
  sil_state :: interlock_state
  sil_az_min :: f64
  sil_az_max :: f64
  sil_el_min :: f64
  sil_el_max :: f64
  sil_emergency_stop :: bool
  sil_last_heartbeat :: u64
  sil_watchdog_timeout_ms :: u64
  sil_collision_zones :: "(f64 \<times> f64 \<times> f64 \<times> f64) list"

definition timestamp_millis :: "datetime \<Rightarrow> 64 word" where
  "timestamp_millis t = word_of_int (t div 1000000)"

definition interlock_new :: "datetime \<Rightarrow> f64 \<Rightarrow> f64 \<Rightarrow> f64 \<Rightarrow> f64 \<Rightarrow> u64 \<Rightarrow> safety_interlock" where
  "interlock_new now az_min az_max el_min el_max timeout =
     \<lparr>sil_state = IlNormal, sil_az_min = az_min, sil_az_max = az_max, sil_el_min = el_min, sil_el_max = el_max,
      sil_emergency_stop = False, sil_last_heartbeat = timestamp_millis now, sil_watchdog_timeout_ms = timeout,
      sil_collision_zones = []\<rparr>"

definition check_position_limits :: "f64 \<Rightarrow> f64 \<Rightarrow> safety_interlock \<Rightarrow> bool" where
  "check_position_limits az el s \<longleftrightarrow>
     fle (sil_az_min s) az \<and> fle az (sil_az_max s) \<and> fle (sil_el_min s) el \<and> fle el (sil_el_max s)"

definition in_zone :: "f64 \<Rightarrow> f64 \<Rightarrow> f64 \<times> f64 \<times> f64 \<times> f64 \<Rightarrow> bool" where
  "in_zone az el z = (case z of (a, b, c, d) \<Rightarrow> fle a az \<and> fle az b \<and> fle c el \<and> fle el d)"

definition check_collision :: "f64 \<Rightarrow> f64 \<Rightarrow> safety_interlock \<Rightarrow> bool" where
  "check_collision az el s \<longleftrightarrow> list_ex (in_zone az el) (sil_collision_zones s)"

definition add_collision_zone :: "f64 \<Rightarrow> f64 \<Rightarrow> f64 \<Rightarrow> f64 \<Rightarrow> safety_interlock \<Rightarrow> safety_interlock" where
  "add_collision_zone a b c d s = s\<lparr>sil_collision_zones := sil_collision_zones s @ [(a, b, c, d)]\<rparr>"

definition trigger_emergency_stop :: "safety_interlock \<Rightarrow> safety_interlock" where
  "trigger_emergency_stop s = s\<lparr>sil_emergency_stop := True, sil_state := IlEmergencyStop\<rparr>"

definition clear_emergency_stop :: "safety_interlock \<Rightarrow> safety_interlock" where
  "clear_emergency_stop s = s\<lparr>sil_emergency_stop := False, sil_state := IlNormal\<rparr>"

definition is_emergency_stop :: "safety_interlock \<Rightarrow> bool" where
  "is_emergency_stop s \<longleftrightarrow> sil_emergency_stop s"

definition update_watchdog :: "datetime \<Rightarrow> safety_interlock \<Rightarrow> safety_interlock" where
  "update_watchdog now s = s\<lparr>sil_last_heartbeat := timestamp_millis now\<rparr>"

definition check_watchdog :: "datetime \<Rightarrow> safety_interlock \<Rightarrow> bool" where
  "check_watchdog now s \<longleftrightarrow> timestamp_millis now - sil_last_heartbeat s <s sil_watchdog_timeout_ms s"

definition validate_position :: "datetime \<Rightarrow> f64 \<Rightarrow> f64 \<Rightarrow> safety_interlock \<Rightarrow> (interlock_state + unit) \<times> safety_interlock" where
  "validate_position now az el s =
     (if is_emergency_stop s then (Inl IlEmergencyStop, s\<lparr>sil_state := IlEmergencyStop\<rparr>)
      else if \<not> check_position_limits az el s then (Inl IlPositionLimit, s\<lparr>sil_state := IlPositionLimit\<rparr>)
      else if check_collision az el s then (Inl IlCollision, s\<lparr>sil_state := IlCollision\<rparr>)
      else if \<not> check_watchdog now s then (Inl IlWatchdogTimeout, s\<lparr>sil_state := IlWatchdogTimeout\<rparr>)
      else (Inr (), s\<lparr>sil_state := IlNormal\<rparr>))"

definition interlock_get_state :: "safety_interlock \<Rightarrow> interlock_state" where
  "interlock_get_state s = sil_state s"

definition set_motor_fault :: "safety_interlock \<Rightarrow> safety_interlock" where
  "set_motor_fault s = s\<lparr>sil_state := IlMotorFault\<rparr>"

definition clear_motor_fault :: "safety_interlock \<Rightarrow> safety_interlock" where
  "clear_motor_fault s = (if sil_state s = IlMotorFault then s\<lparr>sil_state := IlNormal\<rparr> else s)"

definition set_communication_lost :: "safety_interlock \<Rightarrow> safety_interlock" where
  "set_communication_lost s = s\<lparr>sil_state := IlCommunicationLost\<rparr>"

definition clear_communication_lost :: "safety_interlock \<Rightarrow> safety_interlock" where
  "clear_communication_lost s = (if sil_state s = IlCommunicationLost then s\<lparr>sil_state := IlNormal\<rparr> else s)"

subsection \<open>The emergency stop\<close>

record emergency_stop =
  est_triggered :: bool
  est_trigger_time :: "datetime option"
  est_trigger_reason :: "string option"

definition emergency_stop_new :: emergency_stop where
  "emergency_stop_new = \<lparr>est_triggered = False, est_trigger_time = None, est_trigger_reason = None\<rparr>"

definition emergency_trigger :: "datetime \<Rightarrow> string \<Rightarrow> emergency_stop \<Rightarrow> emergency_stop" where
  "emergency_trigger now reason e = e\<lparr>est_triggered := True, est_trigger_time := Some now, est_trigger_reason := Some reason\<rparr>"

definition emergency_clear :: "emergency_stop \<Rightarrow> emergency_stop" where
  "emergency_clear e = e\<lparr>est_triggered := False, est_trigger_time := None, est_trigger_reason := None\<rparr>"

definition is_triggered :: "emergency_stop \<Rightarrow> bool" where
  "is_triggered e \<longleftrightarrow> est_triggered e"

definition get_trigger_time :: "emergency_stop \<Rightarrow> datetime option" where
  "get_trigger_time e = est_trigger_time e"

definition get_trigger_reason :: "emergency_stop \<Rightarrow> string option" where
  "get_trigger_reason e = est_trigger_reason e"

subsection \<open>Homing and stow\<close>

record stow_position =
  stw_azimuth :: f64
  stw_elevation :: f64
  stw_name :: string

definition stow_position_new :: "f64 \<Rightarrow> f64 \<Rightarrow> string \<Rightarrow> stow_position" where
  "stow_position_new az el n = \<lparr>stw_azimuth = az, stw_elevation = el, stw_name = n\<rparr>"

definition stow_zenith :: stow_position where
  "stow_zenith = stow_position_new (lit 0) (lit 90) ''zenith''"

definition stow_horizon :: stow_position where
  "stow_horizon = stow_position_new (lit 0) (lit 0) ''horizon''"

record calibration_result =
  clr_success :: bool
  clr_azimuth_offset :: f64
  clr_elevation_offset :: f64
  clr_timestamp :: datetime
  clr_error :: "string option"

record homing_procedure =
  hmp_index_azimuth :: f64
  hmp_index_elevation :: f64
  hmp_azimuth_offset :: f64
  hmp_elevation_offset :: f64
  hmp_calibrated :: bool

definition homing_new :: "f64 \<Rightarrow> f64 \<Rightarrow> homing_procedure" where
  "homing_new az el = \<lparr>hmp_index_azimuth = az, hmp_index_elevation = el, hmp_azimuth_offset = lit 0,
     hmp_elevation_offset = lit 0, hmp_calibrated = False\<rparr>"

definition calibrated_result :: "datetime \<Rightarrow> homing_procedure \<Rightarrow> calibration_result" where
  "calibrated_result now h = \<lparr>clr_success = True, clr_azimuth_offset = hmp_azimuth_offset h,
     clr_elevation_offset = hmp_elevation_offset h, clr_timestamp = now, clr_error = None\<rparr>"

definition find_index_marks :: "datetime \<Rightarrow> homing_procedure \<Rightarrow> calibration_result \<times> homing_procedure" where
  "find_index_marks now h =
     (let h' = h\<lparr>hmp_azimuth_offset := lit 0, hmp_elevation_offset := lit 0, hmp_calibrated := True\<rparr>
      in (calibrated_result now h', h'))"

definition calibrate_to_reference :: "datetime \<Rightarrow> f64 \<Rightarrow> f64 \<Rightarrow> homing_procedure \<Rightarrow> calibration_result \<times> homing_procedure" where
  "calibrate_to_reference now az el h =
     (let h' = h\<lparr>hmp_azimuth_offset := fsub az (hmp_index_azimuth h), hmp_elevation_offset := fsub el (hmp_index_elevation h),
                 hmp_calibrated := True\<rparr>
      in (calibrated_result now h', h'))"

definition get_offsets :: "homing_procedure \<Rightarrow> f64 \<times> f64" where
  "get_offsets h = (hmp_azimuth_offset h, hmp_elevation_offset h)"

definition is_calibrated :: "homing_procedure \<Rightarrow> bool" where
  "is_calibrated h \<longleftrightarrow> hmp_calibrated h"

definition homing_reset :: "homing_procedure \<Rightarrow> homing_procedure" where
  "homing_reset h = h\<lparr>hmp_azimuth_offset := lit 0, hmp_elevation_offset := lit 0, hmp_calibrated := False\<rparr>"

definition apply_calibration :: "f64 \<Rightarrow> f64 \<Rightarrow> homing_procedure \<Rightarrow> f64 \<times> f64" where
  "apply_calibration az el h = (fadd az (hmp_azimuth_offset h), fadd el (hmp_elevation_offset h))"

subsection \<open>Runs\<close>

inductive generic_step :: "(f64 \<Rightarrow> string) \<Rightarrow> generic_controller \<Rightarrow> generic_controller \<Rightarrow> bool" for show_f64 where
  generic_step_point: "generic_step show_f64 c (snd (generic_point show_f64 az el c))"
| generic_step_slew: "generic_step show_f64 c (snd (generic_slew_to show_f64 fresh t c))"
| generic_step_abort: "generic_step show_f64 c (snd (generic_abort_slew c))"
| generic_step_stow: "generic_step show_f64 c (snd (generic_stow show_f64 c))"
| generic_step_enable: "generic_step show_f64 c (snd (generic_enable c))"
| generic_step_disable: "generic_step show_f64 c (snd (generic_disable c))"
| generic_step_stop: "generic_step show_f64 c (snd (generic_emergency_stop c))"
| generic_step_home: "generic_step show_f64 c (snd (generic_home c))"

inductive_cases generic_stepE: "generic_step show_f64 c c'"

inductive interlock_step :: "safety_interlock \<Rightarrow> safety_interlock \<Rightarrow> bool" where
  interlock_step_zone: "interlock_step s (add_collision_zone a b c d s)"
| interlock_step_trigger: "interlock_step s (trigger_emergency_stop s)"
| interlock_step_heartbeat: "interlock_step s (update_watchdog now s)"
| interlock_step_validate: "interlock_step s (snd (validate_position now az el s))"
| interlock_step_fault: "interlock_step s (set_motor_fault s)"
| interlock_step_unfault: "interlock_step s (clear_motor_fault s)"
| interlock_step_lost: "interlock_step s (set_communication_lost s)"
| interlock_step_found: "interlock_step s (clear_communication_lost s)"

inductive_cases interlock_stepE: "interlock_step s s'"

section \<open>The interface of the controllers\<close>

text \<open>
  What the implementations of the trait share. The laws say what a pointing does that succeeds and one that
  fails, that only \<open>enable\<close> and \<open>disable\<close> change whether the controller moves, and what the emergency stop
  and homing change. The lemmas hold of every implementation.
\<close>

locale antenna_controller =
  fixes point :: "f64 \<Rightarrow> f64 \<Rightarrow> 's \<Rightarrow> unit result \<times> 's"
    and position :: "'s \<Rightarrow> f64 \<times> f64"
    and moves :: "'s \<Rightarrow> bool"
    and status :: "'s \<Rightarrow> controller_status"
    and stow :: "'s \<Rightarrow> unit result \<times> 's"
    and enable disable emergency_stop home :: "'s \<Rightarrow> unit result \<times> 's"
  assumes point_ok: "point az el c = (Inr (), c') \<Longrightarrow> moves c \<and> position c' = (az, el) \<and> moves c' \<and> status c' \<noteq> CsEmergencyStopped"
    and point_fails: "point az el c = (Inl e, c') \<Longrightarrow> c' = c"
    and point_disabled: "\<not> moves c \<Longrightarrow> \<exists>e. point az el c = (Inl e, c)"
    and point_stopped: "fst (point az el (snd (emergency_stop c))) = fst (point az el c)"
    and stow_stows: "fst (stow c) = Inr () \<Longrightarrow> status (snd (stow c)) = CsStowed"
    and enabled: "moves (snd (enable c))" "\<not> moves (snd (disable c))"
      "position (snd (enable c)) = position c" "position (snd (disable c)) = position c"
    and stopped: "fst (emergency_stop c) = Inr ()" "status (snd (emergency_stop c)) = CsEmergencyStopped"
      "position (snd (emergency_stop c)) = position c" "moves (snd (emergency_stop c)) = moves c"
    and homed: "fst (home c) = Inr ()" "position (snd (home c)) = (lit 0, lit 0)" "status (snd (home c)) = CsIdle"
begin

text \<open>An emergency stop holds nothing: what could be pointed before can be pointed after, and then the state of the stop is gone.\<close>

lemma stop_does_not_hold:
  assumes "point az el c = (Inr (), c')"
  shows "\<exists>d. point az el (snd (emergency_stop c)) = (Inr (), d) \<and> position d = (az, el) \<and> status d \<noteq> CsEmergencyStopped"
proof -
  have "fst (point az el (snd (emergency_stop c))) = Inr ()" using point_stopped [of az el c] assms by simp
  then obtain d where "point az el (snd (emergency_stop c)) = (Inr (), d)" by (cases "point az el (snd (emergency_stop c))") simp
  with point_ok [OF this] show ?thesis by blast
qed

lemma disabled_stays: "point az el (snd (disable c)) = (r, d) \<Longrightarrow> position d = position c \<and> (\<exists>e. r = Inl e)"
  using point_disabled [of "snd (disable c)" az el] enabled(2,4) by force

text \<open>Homing moves a disabled and a stopped controller all the same.\<close>

lemma home_moves: "position (snd (home (snd (emergency_stop (snd (disable c)))))) = (lit 0, lit 0) \<and>
    status (snd (home (snd (emergency_stop (snd (disable c)))))) = CsIdle"
  using homed by blast

end

lemmas generic_ops = generic_point_def generic_get_position_def generic_stow_def generic_get_status_def generic_enable_def
  generic_disable_def generic_emergency_stop_def generic_home_def

interpretation generic: antenna_controller "generic_point show_f64" generic_get_position gac_enabled generic_get_status
    "generic_stow show_f64" generic_enable generic_disable generic_emergency_stop generic_home
  for show_f64
  by unfold_locales (auto simp: generic_ops split: if_splits prod.splits sum.splits)

lemmas vertex_ops = vertex_point_def vertex_pointing_command_def vertex_get_position_def vertex_stow_def vertex_get_status_def
  vertex_enable_def vertex_disable_def vertex_emergency_stop_def vertex_home_def

interpretation vertex: antenna_controller "vertex_point show4" vertex_get_position vra_enabled vertex_get_status
    "vertex_stow show4" vertex_enable vertex_disable vertex_emergency_stop vertex_home
  for show4
  by unfold_locales (auto simp: vertex_ops split: if_splits prod.splits sum.splits)

lemmas gd_ops = gd_point_def gd_get_position_def gd_stow_def gd_get_status_def gd_enable_def gd_disable_def
  gd_emergency_stop_def gd_home_def

interpretation gd: antenna_controller gd_point gd_get_position gda_enabled gd_get_status gd_stow gd_enable gd_disable
    gd_emergency_stop gd_home
  by unfold_locales (auto simp: gd_ops split: if_splits prod.splits sum.splits)

lemmas phased_ops = phased_point_def phased_get_position_def phased_stow_def phased_get_status_def phased_enable_def
  phased_disable_def phased_emergency_stop_def phased_home_def

interpretation phased: antenna_controller phased_point phased_get_position paa_enabled phased_get_status phased_stow
    phased_enable phased_disable phased_emergency_stop phased_home
  by unfold_locales (auto simp: phased_ops split: if_splits prod.splits sum.splits)

section \<open>Lemmas\<close>

text \<open>What the checks of \<open>point\<close> let through. A NaN fails no comparison.\<close>

definition passes_limits :: "f64 \<Rightarrow> f64 \<Rightarrow> f64 \<Rightarrow> bool" where
  "passes_limits lo hi x \<longleftrightarrow> \<not> flt x lo \<and> \<not> flt hi x"

lemma passes_limits_iff:
  "lo \<noteq> NaN \<Longrightarrow> hi \<noteq> NaN \<Longrightarrow> passes_limits lo hi x \<longleftrightarrow> x = NaN \<or> fle lo x \<and> fle x hi"
  by (cases lo; cases hi; cases x) (auto simp: passes_limits_def fle_def)

text \<open>The limits do not change, and the position is the origin or passes them.\<close>

definition generic_inv :: "f64 \<times> f64 \<times> f64 \<times> f64 \<Rightarrow> generic_controller \<Rightarrow> bool" where
  "generic_inv box c \<longleftrightarrow> (gac_azimuth_min c, gac_azimuth_max c, gac_elevation_min c, gac_elevation_max c) = box \<and>
     (generic_get_position c = (lit 0, lit 0) \<or>
      passes_limits (gac_azimuth_min c) (gac_azimuth_max c) (gac_current_azimuth c) \<and>
      passes_limits (gac_elevation_min c) (gac_elevation_max c) (gac_current_elevation c))"

lemma generic_inv_point: "generic_inv box c \<Longrightarrow> generic_inv box (snd (generic_point show_f64 az el c))"
  by (auto simp: generic_inv_def generic_point_def generic_get_position_def passes_limits_def)

lemma generic_inv_step:
  assumes "generic_inv box c" "generic_step show_f64 c c'" shows "generic_inv box c'"
  using assms(2)
proof cases
  case (generic_step_slew fresh t)
  have "snd (generic_slew_to show_f64 fresh t c) = snd (generic_point show_f64 (ptg_azimuth t) (ptg_elevation t) c)"
    by (simp add: generic_slew_to_def split: prod.splits sum.splits)
  with generic_step_slew generic_inv_point [OF assms(1)] show ?thesis by simp
next
  case generic_step_stow
  let ?p = "generic_point show_f64 (gac_stow_azimuth c) (gac_stow_elevation c) c"
  have "generic_inv box (snd ?p)" by (rule generic_inv_point [OF assms(1)])
  with generic_step_stow show ?thesis
    by (auto simp: generic_stow_def generic_inv_def generic_get_position_def split: prod.splits sum.splits)
qed (use assms(1) generic_inv_point in \<open>auto simp: generic_inv_def generic_ops generic_abort_slew_def passes_limits_def\<close>)

interpretation generic_runs: invariant_system
    "\<lambda>c. \<exists>i ra re. c = generic_controller_new i az_min az_max el_min el_max ra re" "generic_step show_f64"
    "generic_inv (az_min, az_max, el_min, el_max)"
  for az_min az_max el_min el_max show_f64
proof unfold_locales
  fix c assume "\<exists>i ra re. c = generic_controller_new i az_min az_max el_min el_max ra re"
  then show "generic_inv (az_min, az_max, el_min, el_max) c"
    by (auto simp: generic_inv_def generic_controller_new_def generic_get_position_def)
qed (rule generic_inv_step)

text \<open>Between a trigger and a clear the flag stays.\<close>

lemma interlock_keeps_stop: "interlock_step s t \<Longrightarrow> sil_emergency_stop s \<Longrightarrow> sil_emergency_stop t"
  by (auto elim!: interlock_stepE simp: add_collision_zone_def trigger_emergency_stop_def update_watchdog_def
      validate_position_def set_motor_fault_def clear_motor_fault_def set_communication_lost_def clear_communication_lost_def)

interpretation interlock: invariant_system "\<lambda>s. sil_emergency_stop s" interlock_step "\<lambda>s. sil_emergency_stop s"
  by unfold_locales (auto intro: interlock_keeps_stop)

section \<open>Properties\<close>

text \<open>C31: In every reachable state of a generic controller whose limits are numbers, the antenna points at the origin, where
  it starts and where homing puts it, or each of its angles lies within the limits it was made with or is not a number:
  a NaN fails no comparison, so the checks let it through.
\<close>

lemma pointing_within_limits:
  assumes "reach (\<lambda>c. \<exists>i ra re. c = generic_controller_new i az_min az_max el_min el_max ra re) (generic_step show_f64) c"
    and "az_min \<noteq> NaN" "az_max \<noteq> NaN" "el_min \<noteq> NaN" "el_max \<noteq> NaN"
  shows "generic_get_position c = (lit 0, lit 0) \<or>
    (gac_current_azimuth c = NaN \<or> fle az_min (gac_current_azimuth c) \<and> fle (gac_current_azimuth c) az_max) \<and>
    (gac_current_elevation c = NaN \<or> fle el_min (gac_current_elevation c) \<and> fle (gac_current_elevation c) el_max)"
  using generic_runs.reach_inv [OF assms(1)] assms(2-5) by (auto simp: generic_inv_def passes_limits_iff)

text \<open>An enabled controller accepts such a direction and reports it as its position.\<close>

lemma nan_pointing_accepted:
  "gac_enabled c \<Longrightarrow> fst (generic_point show_f64 NaN NaN c) = Inr () \<and>
     generic_get_position (snd (generic_point show_f64 NaN NaN c)) = (NaN, NaN)"
proof -
  have "\<not> flt x NaN" for x by (cases x) auto
  then show "gac_enabled c \<Longrightarrow> ?thesis" by (simp add: generic_point_def generic_get_position_def)
qed

text \<open>C29: The emergency stop of the generic controller holds nothing. A pointing that succeeds before it succeeds
  after it, moves the antenna and leaves the controller idle; homing moves the antenna even of a stopped and
  disabled controller, to the origin, whether that is within the limits or not.
\<close>

lemma emergency_stop_does_not_hold:
  assumes "generic_point show_f64 az el c = (Inr (), c')"
  shows "(\<exists>d. generic_point show_f64 az el (snd (generic_emergency_stop c)) = (Inr (), d) \<and>
      generic_get_position d = (az, el) \<and> generic_get_status d = CsIdle) \<and>
    generic_get_position (snd (generic_home (snd (generic_emergency_stop (snd (generic_disable c)))))) = (lit 0, lit 0)"
proof -
  obtain d where d: "generic_point show_f64 az el (snd (generic_emergency_stop c)) = (Inr (), d)" "generic_get_position d = (az, el)"
    using generic.stop_does_not_hold [OF assms] by blast
  moreover have "generic_get_status d = CsIdle"
    using d(1) by (auto simp: generic_point_def generic_get_status_def split: if_splits)
  ultimately show ?thesis using generic.home_moves [of c] by blast
qed

text \<open>C30: A position is valid exactly when no emergency stop is triggered, it lies within the limits and in no
  collision zone, and the watchdog is alive; the answer is the state of the interlock then. A triggered stop
  refuses every position until it is cleared, whatever else happens.
\<close>

lemma validate_position_iff:
  "(fst (validate_position now az el s) = Inr () \<longleftrightarrow>
      \<not> sil_emergency_stop s \<and> check_position_limits az el s \<and> (\<forall>z \<in> set (sil_collision_zones s). \<not> in_zone az el z) \<and>
      check_watchdog now s) \<and>
    sil_state (snd (validate_position now az el s)) = (case fst (validate_position now az el s) of Inl e \<Rightarrow> e | Inr u \<Rightarrow> IlNormal) \<and>
    (reach (\<lambda>t. t = trigger_emergency_stop s) interlock_step t \<longrightarrow> fst (validate_position now az el t) = Inl IlEmergencyStop)"
proof (intro conjI impI)
  assume "reach (\<lambda>t. t = trigger_emergency_stop s) interlock_step t"
  then have "reach (\<lambda>s. sil_emergency_stop s) interlock_step t"
  proof (induction rule: reach.induct)
    case (reach_init s')
    then show ?case by (intro reach.reach_init) (simp add: trigger_emergency_stop_def)
  next
    case (reach_step s' t')
    then show ?case by (blast intro: reach.reach_step)
  qed
  from interlock.reach_inv [OF this] show "fst (validate_position now az el t) = Inl IlEmergencyStop"
    by (simp add: validate_position_def is_emergency_stop_def)
qed (auto simp: validate_position_def is_emergency_stop_def check_collision_def list_ex_iff)

text \<open>A motor fault and a lost communication stop nothing: a position is validated as without them, and a
  valid one takes the interlock back to normal. Clearing an emergency stop does the same.
\<close>

lemma validation_clears_faults:
  assumes "fst (validate_position now az el s) = Inr ()"
  shows "fst (validate_position now az el (set_motor_fault s)) = Inr () \<and>
    sil_state (snd (validate_position now az el (set_motor_fault s))) = IlNormal \<and>
    fst (validate_position now az el (set_communication_lost s)) = Inr () \<and>
    sil_state (snd (validate_position now az el (set_communication_lost s))) = IlNormal \<and>
    sil_state (clear_emergency_stop (set_motor_fault s)) = IlNormal"
  using assms
  by (auto simp: validate_position_def is_emergency_stop_def check_collision_def check_position_limits_def check_watchdog_def
      set_motor_fault_def set_communication_lost_def clear_emergency_stop_def split: if_splits)

text \<open>The adapters of the vendors check no limits: an enabled one points anywhere.\<close>

lemma vendors_have_no_limits:
  "vra_enabled v \<Longrightarrow> fst (vertex_point show4 az el v) = Inr ()"
  "gda_enabled g \<Longrightarrow> fst (gd_point az el g) = Inr ()"
  "paa_enabled p \<Longrightarrow> fst (phased_point az el p) = Inr ()"
  by (simp_all add: vertex_point_def vertex_pointing_command_def gd_point_def phased_point_def)

subsection \<open>Witnesses\<close>

definition small_dish :: generic_controller where
  "small_dish = generic_controller_new 1 (Fin False 0) (Fin False 360) (Fin False 5) (Fin False 90) (Fin False 3) (Fin False 3)"

definition pointed_dish :: generic_controller where
  "pointed_dish = snd (generic_point (\<lambda>x. []) (Fin False 100) (Fin False 45) (snd (generic_enable small_dish)))"

lemma pointing_within_limits_witness:
  "fle (Fin False 5) (gac_current_elevation pointed_dish) \<and> fle (gac_current_elevation pointed_dish) (Fin False 90)"
proof -
  have "reach (\<lambda>c. \<exists>i ra re. c = generic_controller_new i (Fin False 0) (Fin False 360) (Fin False 5) (Fin False 90) ra re)
      (generic_step (\<lambda>x. [])) pointed_dish"
    unfolding pointed_dish_def small_dish_def
    by (blast intro: reach_step reach_init generic_step_point generic_step_enable)
  from pointing_within_limits [OF this] show ?thesis
    by (simp add: pointed_dish_def small_dish_def generic_controller_new_def generic_enable_def generic_point_def generic_get_position_def)
qed

lemma emergency_stop_does_not_hold_witness:
  "\<exists>d. generic_point (\<lambda>x. []) (Fin False 100) (Fin False 45) (snd (generic_emergency_stop (snd (generic_enable small_dish)))) = (Inr (), d)"
proof -
  have "generic_point (\<lambda>x. []) (Fin False 100) (Fin False 45) (snd (generic_enable small_dish)) = (Inr (), pointed_dish)"
    by (simp add: pointed_dish_def small_dish_def generic_controller_new_def generic_enable_def generic_point_def)
  from emergency_stop_does_not_hold [OF this] show ?thesis by blast
qed

definition plain_interlock :: safety_interlock where
  "plain_interlock = interlock_new 0 (Fin False 0) (Fin False 360) (Fin False 5) (Fin False 90) 1000"

lemma validate_position_iff_witness:
  "fst (validate_position 0 (Fin False 100) (Fin False 45) (set_motor_fault (trigger_emergency_stop plain_interlock))) = Inl IlEmergencyStop"
proof -
  have "reach (\<lambda>t. t = trigger_emergency_stop plain_interlock) interlock_step (set_motor_fault (trigger_emergency_stop plain_interlock))"
    by (blast intro: reach_step reach_init interlock_step_fault)
  with validate_position_iff [of 0 "Fin False 100" "Fin False 45" plain_interlock] show ?thesis by blast
qed

lemma validation_clears_faults_witness:
  "sil_state (snd (validate_position 0 (Fin False 100) (Fin False 45) (set_motor_fault plain_interlock))) = IlNormal"
proof -
  have "fst (validate_position 0 (Fin False 100) (Fin False 45) plain_interlock) = Inr ()"
    by (simp add: validate_position_def plain_interlock_def interlock_new_def is_emergency_stop_def check_position_limits_def
        check_collision_def check_watchdog_def fle_def word_sless_alt)
  from validation_clears_faults [OF this] show ?thesis by blast
qed

end
