(* ===== verification/Optical_Routing.thy ===== *)
theory Optical_Routing
  imports Pass_Prediction
begin

text \<open>
  Routing over the optical topology: visibility windows and constraints (\<open>optical/src/geometry/visibility.rs\<close>),
  the topology and its edges (\<open>optical/src/routing/topology.rs\<close>), handoff strategies
  (\<open>optical/src/routing/handoff.rs\<close>) and the path finder (\<open>optical/src/routing/path_finder.rs\<close>).

  The search of the path finder is breadth-first over the edges that are visible at the time asked for. Its
  reference is the walk: a list of visible edges from the source to the destination. The way back through the
  map of parents is a loop that need not end by itself, a partial function. Fresh identifiers and clock
  readings are arguments.
\<close>

section \<open>Definitions\<close>

subsection \<open>Visibility\<close>

record visibility_window =
  vwi_start :: datetime
  vwi_end :: datetime
  vwi_max_elevation_deg :: f64
  vwi_min_range_km :: f64
  vwi_max_range_km :: f64

definition visibility_window_new :: "datetime \<Rightarrow> datetime \<Rightarrow> visibility_window" where
  "visibility_window_new s e =
     \<lparr>vwi_start = s, vwi_end = e, vwi_max_elevation_deg = lit 0, vwi_min_range_km = lit 0, vwi_max_range_km = lit 0\<rparr>"

definition visibility_duration :: "visibility_window \<Rightarrow> duration" where
  "visibility_duration w = vwi_end w - vwi_start w"

definition visibility_contains :: "datetime \<Rightarrow> visibility_window \<Rightarrow> bool" where
  "visibility_contains t w \<longleftrightarrow> vwi_start w \<le> t \<and> t \<le> vwi_end w"

record forbidden_zone =
  fzo_center_azimuth_rad :: f64
  fzo_center_elevation_rad :: f64
  fzo_radius_rad :: f64
  fzo_reason :: string

definition solar_exclusion :: "f64 \<Rightarrow> f64 \<Rightarrow> f64 \<Rightarrow> forbidden_zone" where
  "solar_exclusion az el deg =
     \<lparr>fzo_center_azimuth_rad = az, fzo_center_elevation_rad = el, fzo_radius_rad = to_radians deg,
      fzo_reason = ''Solar exclusion''\<rparr>"

definition forbidden_contains :: "f64 \<Rightarrow> f64 \<Rightarrow> forbidden_zone \<Rightarrow> bool" where
  "forbidden_contains az el z =
     (let a = fabs (fsub az (fzo_center_azimuth_rad z)); e = fabs (fsub el (fzo_center_elevation_rad z))
      in flt (fsqrt (fadd (fmul a a) (fmul e e))) (fzo_radius_rad z))"

record visibility_constraints =
  vco_min_elevation_deg :: f64
  vco_max_range_km :: f64
  vco_forbidden_zones :: "forbidden_zone list"
  vco_solar_exclusion_angle_deg :: f64

definition visibility_constraints_default :: visibility_constraints where
  "visibility_constraints_default =
     \<lparr>vco_min_elevation_deg = lit 5, vco_max_range_km = lit 5000, vco_forbidden_zones = [],
      vco_solar_exclusion_angle_deg = lit 10\<rparr>"

definition with_solar_exclusion :: "f64 \<Rightarrow> visibility_constraints" where
  "with_solar_exclusion a = visibility_constraints_default\<lparr>vco_solar_exclusion_angle_deg := a\<rparr>"

record orbit_placeholder =
  orb_satellite_id :: string
  orb_tle :: string

definition orbit_new :: "string \<Rightarrow> string \<Rightarrow> orbit_placeholder" where
  "orbit_new s t = \<lparr>orb_satellite_id = s, orb_tle = t\<rparr>"

definition minutes :: "int \<Rightarrow> duration" where
  "minutes n = duration_seconds (60 * n)"

definition predict_visibility_window :: "datetime \<Rightarrow> orbit_placeholder \<Rightarrow> orbit_placeholder \<Rightarrow> visibility_constraints \<Rightarrow>
    duration \<Rightarrow> visibility_window list" where
  "predict_visibility_window now obs tgt c h =
     [\<lparr>vwi_start = now + minutes 10, vwi_end = now + minutes 20, vwi_max_elevation_deg = lit 45,
       vwi_min_range_km = lit 1000, vwi_max_range_km = lit 3000\<rparr>,
      \<lparr>vwi_start = now + minutes 90, vwi_end = now + minutes 105, vwi_max_elevation_deg = lit 60,
       vwi_min_range_km = lit 800, vwi_max_range_km = lit 2500\<rparr>]"

subsection \<open>The topology\<close>

record node_position =
  npo_x_km :: f64
  npo_y_km :: f64
  npo_z_km :: f64
  npo_timestamp :: datetime

record optical_node =
  ono_node_id :: string
  ono_satellite_id :: string
  ono_terminal_id :: string
  ono_vendor :: string
  ono_capabilities :: string
  ono_position :: "node_position option"

definition optical_node_new :: "string \<Rightarrow> string \<Rightarrow> string \<Rightarrow> string \<Rightarrow> optical_node" where
  "optical_node_new n s t v =
     \<lparr>ono_node_id = n, ono_satellite_id = s, ono_terminal_id = t, ono_vendor = v, ono_capabilities = ''{}'',
      ono_position = None\<rparr>"

record edge_pointing =
  epo_azimuth_rad :: f64
  epo_elevation_rad :: f64
  epo_range_km :: f64

record topology_edge =
  ted_edge_id :: string
  ted_endpoints :: "string \<times> string"
  ted_visibility_windows :: "visibility_window list"
  ted_pointing_vector :: "edge_pointing option"
  ted_max_data_rate :: u64
  ted_reliability_score :: f64

definition topology_edge_new :: "string \<Rightarrow> string \<times> string \<Rightarrow> topology_edge" where
  "topology_edge_new i ab =
     \<lparr>ted_edge_id = i, ted_endpoints = ab, ted_visibility_windows = [], ted_pointing_vector = None,
      ted_max_data_rate = 10000000000, ted_reliability_score = lit (95 / 100)\<rparr>"

definition is_visible_at :: "datetime \<Rightarrow> topology_edge \<Rightarrow> bool" where
  "is_visible_at t e \<longleftrightarrow> list_ex (visibility_contains t) (ted_visibility_windows e)"

definition next_visibility :: "datetime \<Rightarrow> topology_edge \<Rightarrow> visibility_window option" where
  "next_visibility t e = List.find (\<lambda>w. t < vwi_start w) (ted_visibility_windows e)"

record optical_topology =
  otp_nodes :: "optical_node list"
  otp_edges :: "topology_edge list"
  otp_forecast_horizon :: duration
  otp_generated_at :: datetime

definition optical_topology_new :: "datetime \<Rightarrow> optical_topology" where
  "optical_topology_new now =
     \<lparr>otp_nodes = [], otp_edges = [], otp_forecast_horizon = minutes (6 * 60), otp_generated_at = now\<rparr>"

definition topology_add_node :: "optical_node \<Rightarrow> optical_topology \<Rightarrow> optical_topology" where
  "topology_add_node n g = g\<lparr>otp_nodes := otp_nodes g @ [n]\<rparr>"

definition topology_add_edge :: "topology_edge \<Rightarrow> optical_topology \<Rightarrow> optical_topology" where
  "topology_add_edge e g = g\<lparr>otp_edges := otp_edges g @ [e]\<rparr>"

definition find_node :: "string \<Rightarrow> optical_topology \<Rightarrow> optical_node option" where
  "find_node n g = List.find (\<lambda>x. ono_node_id x = n) (otp_nodes g)"

definition find_edges_from :: "string \<Rightarrow> optical_topology \<Rightarrow> topology_edge list" where
  "find_edges_from n g = filter (\<lambda>e. fst (ted_endpoints e) = n) (otp_edges g)"

definition find_edges_to :: "string \<Rightarrow> optical_topology \<Rightarrow> topology_edge list" where
  "find_edges_to n g = filter (\<lambda>e. snd (ted_endpoints e) = n) (otp_edges g)"

subsection \<open>Handoffs of routes\<close>

datatype route_handoff_strategy =
    RouteSeamless u64
  | RouteMakeBeforeBreak u64
  | RouteBreakBeforeMake u64
  | RouteNoHandoff

fun requires_overlap :: "route_handoff_strategy \<Rightarrow> bool" where
  "requires_overlap (RouteSeamless n) = True"
| "requires_overlap (RouteMakeBeforeBreak n) = True"
| "requires_overlap (RouteBreakBeforeMake n) = False"
| "requires_overlap RouteNoHandoff = False"

datatype route_handoff_trigger =
    QualityThreshold f64 f64
  | TimeToLoss u64
  | ScheduledHandoff datetime
  | ManualHandoff string
  | BetterLinkAvailable f64

record route_handoff_decision =
  rhd_trigger :: route_handoff_trigger
  rhd_strategy :: route_handoff_strategy
  rhd_target_link :: "string option"
  rhd_initiated_at :: datetime
  rhd_reason :: string

definition handoff_decision_new :: "datetime \<Rightarrow> route_handoff_trigger \<Rightarrow> route_handoff_strategy \<Rightarrow> string \<Rightarrow>
    route_handoff_decision" where
  "handoff_decision_new now t s r =
     \<lparr>rhd_trigger = t, rhd_strategy = s, rhd_target_link = None, rhd_initiated_at = now, rhd_reason = r\<rparr>"

definition with_target :: "string \<Rightarrow> route_handoff_decision \<Rightarrow> route_handoff_decision" where
  "with_target l d = d\<lparr>rhd_target_link := Some l\<rparr>"

subsection \<open>The path finder\<close>

record route_constraints =
  rco_max_hops :: nat
  rco_min_data_rate :: u64
  rco_max_latency_ms :: u64
  rco_require_redundancy :: bool

definition route_constraints_default :: route_constraints where
  "route_constraints_default =
     \<lparr>rco_max_hops = 5, rco_min_data_rate = 1000000000, rco_max_latency_ms = 100, rco_require_redundancy = False\<rparr>"

type_synonym hop = "string \<times> string \<times> string"

record optical_route =
  oro_route_id :: uuid
  oro_path :: "hop list"
  oro_constraints :: route_constraints
  oro_estimated_latency_ms :: u64
  oro_reliability_score :: f64

definition optical_route_new :: "uuid \<Rightarrow> hop list \<Rightarrow> route_constraints \<Rightarrow> optical_route" where
  "optical_route_new u p c =
     \<lparr>oro_route_id = u, oro_path = p, oro_constraints = c, oro_estimated_latency_ms = of_nat (length p) * 10,
      oro_reliability_score = lit (95 / 100)\<rparr>"

definition hop_count :: "optical_route \<Rightarrow> nat" where
  "hop_count r = length (oro_path r)"

definition route_source :: "optical_route \<Rightarrow> string option" where
  "route_source r = (case oro_path r of [] \<Rightarrow> None | (s, d, e) # hs \<Rightarrow> Some s)"

definition route_destination :: "optical_route \<Rightarrow> string option" where
  "route_destination r = (if oro_path r = [] then None else Some (fst (snd (List.last (oro_path r)))))"

text \<open>The local variables of the search.\<close>

record bfs =
  bfs_visited :: "string set"
  bfs_queue :: "string list"
  bfs_parents :: "string \<rightharpoonup> string \<times> string"

definition bfs_start :: "string \<Rightarrow> bfs" where
  "bfs_start src = \<lparr>bfs_visited = {src}, bfs_queue = [src], bfs_parents = Map.empty\<rparr>"

fun explore :: "datetime \<Rightarrow> string \<Rightarrow> topology_edge list \<Rightarrow> bfs \<Rightarrow> bfs" where
  "explore t cur [] b = b"
| "explore t cur (e # es) b =
     (if \<not> is_visible_at t e \<or> snd (ted_endpoints e) \<in> bfs_visited b then explore t cur es b
      else explore t cur es
        \<lparr>bfs_visited = insert (snd (ted_endpoints e)) (bfs_visited b),
         bfs_queue = bfs_queue b @ [snd (ted_endpoints e)],
         bfs_parents = (bfs_parents b)(snd (ted_endpoints e) \<mapsto> (cur, ted_edge_id e))\<rparr>)"

partial_function (option) walk_back :: "(string \<rightharpoonup> string \<times> string) \<Rightarrow> string \<Rightarrow> string \<Rightarrow> hop list \<Rightarrow> hop list option" where
  "walk_back ps src node path =
     (if node = src then Some path
      else case ps node of
        None \<Rightarrow> Some path
      | Some (prev, e) \<Rightarrow> walk_back ps src prev (path @ [(prev, node, e)]))"

text \<open>The nodes that an edge leads to and that the search has not seen.\<close>

definition unseen :: "optical_topology \<Rightarrow> bfs \<Rightarrow> string set" where
  "unseen g b = (\<lambda>e. snd (ted_endpoints e)) ` set (otp_edges g) - bfs_visited b"

lemma finite_unseen [simp]: "finite (unseen g b)"
  by (simp add: unseen_def)

lemma explore_measure:
  "set es \<subseteq> set (otp_edges g) \<Longrightarrow>
   2 * card (unseen g (explore t cur es b)) + length (bfs_queue (explore t cur es b)) \<le>
   2 * card (unseen g b) + length (bfs_queue b)"
proof (induction es arbitrary: b)
  case (Cons e es)
  show ?case
  proof (cases "\<not> is_visible_at t e \<or> snd (ted_endpoints e) \<in> bfs_visited b")
    case False
    let ?b = "\<lparr>bfs_visited = insert (snd (ted_endpoints e)) (bfs_visited b), bfs_queue = bfs_queue b @ [snd (ted_endpoints e)],
        bfs_parents = (bfs_parents b)(snd (ted_endpoints e) \<mapsto> (cur, ted_edge_id e))\<rparr>"
    have "unseen g b = insert (snd (ted_endpoints e)) (unseen g ?b)"
      and "snd (ted_endpoints e) \<notin> unseen g ?b"
      using Cons.prems False by (auto simp: unseen_def)
    then have "card (unseen g b) = Suc (card (unseen g ?b))" by simp
    moreover have "2 * card (unseen g (explore t cur es ?b)) + length (bfs_queue (explore t cur es ?b)) \<le>
        2 * card (unseen g ?b) + length (bfs_queue ?b)"
      using Cons by (meson set_subset_Cons subset_trans)
    ultimately show ?thesis using False by simp
  qed (use Cons in auto)
qed simp

function route_loop :: "optical_topology \<Rightarrow> datetime \<Rightarrow> string \<Rightarrow> bfs \<Rightarrow> (string \<rightharpoonup> string \<times> string) option" where
  "route_loop g t dst b =
     (case bfs_queue b of
        [] \<Rightarrow> None
      | cur # q \<Rightarrow>
          if cur = dst then Some (bfs_parents b)
          else route_loop g t dst (explore t cur (find_edges_from cur g) (b\<lparr>bfs_queue := q\<rparr>)))"
  by pat_completeness auto
termination
proof (relation "measure (\<lambda>(g, t, dst, b). 2 * card (unseen g b) + length (bfs_queue b))", simp, clarsimp)
  fix g t and b :: bfs and cur q
  assume "bfs_queue b = cur # q"
  moreover have "2 * card (unseen g (explore t cur (find_edges_from cur g) (b\<lparr>bfs_queue := q\<rparr>))) +
      length (bfs_queue (explore t cur (find_edges_from cur g) (b\<lparr>bfs_queue := q\<rparr>))) \<le>
      2 * card (unseen g (b\<lparr>bfs_queue := q\<rparr>)) + length q"
    using explore_measure [of "find_edges_from cur g" g t cur "b\<lparr>bfs_queue := q\<rparr>"] by (auto simp: find_edges_from_def)
  moreover have "unseen g (b\<lparr>bfs_queue := q\<rparr>) = unseen g b" by (simp add: unseen_def)
  ultimately show "2 * card (unseen g (explore t cur (find_edges_from cur g) (b\<lparr>bfs_queue := q\<rparr>))) +
      length (bfs_queue (explore t cur (find_edges_from cur g) (b\<lparr>bfs_queue := q\<rparr>)))
      < Suc (2 * card (unseen g b) + length q)"
    by simp
qed

declare route_loop.simps [simp del]

text \<open>The outer option is for the way back, the inner one is the answer.\<close>

definition find_route :: "optical_topology \<Rightarrow> uuid \<Rightarrow> string \<Rightarrow> string \<Rightarrow> route_constraints \<Rightarrow> datetime \<Rightarrow> optical_route option option" where
  "find_route g u src dst c t =
     (case route_loop g t dst (bfs_start src) of
        None \<Rightarrow> Some None
      | Some ps \<Rightarrow> map_option (\<lambda>p. Some (optical_route_new u (rev p) c)) (walk_back ps src dst []))"

definition find_all_routes :: "optical_topology \<Rightarrow> uuid \<Rightarrow> string \<Rightarrow> string \<Rightarrow> route_constraints \<Rightarrow> datetime \<Rightarrow> optical_route list option" where
  "find_all_routes g u src dst c t =
     map_option (\<lambda>r. case r of Some x \<Rightarrow> [x] | None \<Rightarrow> []) (find_route g u src dst c t)"

section \<open>Walks\<close>

text \<open>The reference: walks over visible edges, and the least number of hops to a node.\<close>

definition visible_hop :: "optical_topology \<Rightarrow> datetime \<Rightarrow> hop \<Rightarrow> bool" where
  "visible_hop g t h \<longleftrightarrow>
     (\<exists>e \<in> set (otp_edges g). is_visible_at t e \<and> ted_endpoints e = (fst h, fst (snd h)) \<and> ted_edge_id e = snd (snd h))"

fun is_walk :: "optical_topology \<Rightarrow> datetime \<Rightarrow> string \<Rightarrow> hop list \<Rightarrow> string \<Rightarrow> bool" where
  "is_walk g t a [] b \<longleftrightarrow> a = b"
| "is_walk g t a (h # hs) b \<longleftrightarrow> fst h = a \<and> visible_hop g t h \<and> is_walk g t (fst (snd h)) hs b"

definition reachable :: "optical_topology \<Rightarrow> datetime \<Rightarrow> string \<Rightarrow> string \<Rightarrow> bool" where
  "reachable g t a b \<longleftrightarrow> (\<exists>p. is_walk g t a p b)"

definition hops_to :: "optical_topology \<Rightarrow> datetime \<Rightarrow> string \<Rightarrow> string \<Rightarrow> nat" where
  "hops_to g t a b = (LEAST n. \<exists>p. is_walk g t a p b \<and> length p = n)"

lemma is_walk_append: "is_walk g t a (p @ [h]) c \<longleftrightarrow> is_walk g t a p (fst h) \<and> visible_hop g t h \<and> fst (snd h) = c"
  by (induction p arbitrary: a) auto

lemma reachable_self [simp]: "reachable g t a a"
  unfolding reachable_def by (rule exI [of _ "[]"]) simp

lemma reachable_hop:
  assumes "reachable g t a b" "visible_hop g t (b, c, e)"
  shows "reachable g t a c"
proof -
  from assms(1) obtain p where "is_walk g t a p b" by (auto simp: reachable_def)
  with assms(2) have "is_walk g t a (p @ [(b, c, e)]) c" by (simp add: is_walk_append)
  then show ?thesis unfolding reachable_def by (rule exI)
qed

lemma hops_to_attained:
  assumes "reachable g t a b"
  obtains p where "is_walk g t a p b" "length p = hops_to g t a b"
proof -
  let ?P = "\<lambda>n. \<exists>p. is_walk g t a p b \<and> length p = n"
  from assms obtain p where "is_walk g t a p b" unfolding reachable_def by (elim exE)
  then have "?P (length p)" by (intro exI conjI) simp_all
  then have "?P (LEAST n. ?P n)" by (rule LeastI)
  then show thesis using that by (auto simp: hops_to_def)
qed

lemma hops_to_le: "is_walk g t a p b \<Longrightarrow> hops_to g t a b \<le> length p"
  unfolding hops_to_def by (intro Least_le) blast

lemma hops_to_self [simp]: "hops_to g t a a = 0"
  using hops_to_le [of g t a "[]" a] by simp

lemma hops_to_hop:
  assumes "reachable g t a b" "visible_hop g t (b, c, e)"
  shows "hops_to g t a c \<le> Suc (hops_to g t a b)"
proof -
  obtain p where "is_walk g t a p b" "length p = hops_to g t a b" using assms(1) by (rule hops_to_attained)
  with assms(2) show ?thesis using hops_to_le [of g t a "p @ [(b, c, e)]" c] by (simp add: is_walk_append)
qed

text \<open>A node other than the source has a predecessor one hop nearer.\<close>

lemma hops_to_predecessor:
  assumes "reachable g t a c" "c \<noteq> a"
  obtains b e where "reachable g t a b" "visible_hop g t (b, c, e)" "hops_to g t a c = Suc (hops_to g t a b)"
proof -
  obtain p where p: "is_walk g t a p c" "length p = hops_to g t a c" using assms(1) by (rule hops_to_attained)
  with assms(2) have "p \<noteq> []" by auto
  then obtain q h where q: "p = q @ [h]" by (metis rev_exhaust)
  obtain b d e where h: "h = (b, d, e)" by (metis prod_cases3)
  from p(1) q h have w: "is_walk g t a q b" "visible_hop g t (b, c, e)" by (auto simp: is_walk_append)
  from w(1) have r: "reachable g t a b" unfolding reachable_def by (rule exI)
  moreover have "hops_to g t a b \<le> length q" by (rule hops_to_le [OF w(1)])
  moreover have "hops_to g t a c \<le> Suc (hops_to g t a b)" by (rule hops_to_hop [OF r w(2)])
  ultimately show thesis using that w(2) p(2) q by fastforce
qed

section \<open>The invariant of the search\<close>

definition parents_ok :: "optical_topology \<Rightarrow> datetime \<Rightarrow> string \<Rightarrow> string set \<Rightarrow> (string \<rightharpoonup> string \<times> string) \<Rightarrow> bool" where
  "parents_ok g t src V ps \<longleftrightarrow>
     (\<forall>v \<in> V. v \<noteq> src \<longrightarrow> (\<exists>u e. ps v = Some (u, e) \<and> u \<in> V \<and> visible_hop g t (u, v, e) \<and>
        hops_to g t src v = Suc (hops_to g t src u)))"

definition level_queue :: "(string \<Rightarrow> nat) \<Rightarrow> string list \<Rightarrow> bool" where
  "level_queue d q \<longleftrightarrow> sorted (map d q) \<and> (\<forall>x \<in> set q. d x \<le> Suc (d (hd q)))"

definition settled :: "optical_topology \<Rightarrow> datetime \<Rightarrow> string \<Rightarrow> bfs \<Rightarrow> bool" where
  "settled g t dst b \<longleftrightarrow>
     (\<forall>v \<in> bfs_visited b - set (bfs_queue b). v \<noteq> dst \<and> (\<forall>w e. visible_hop g t (v, w, e) \<longrightarrow> w \<in> bfs_visited b))"

definition bfs_inv :: "optical_topology \<Rightarrow> datetime \<Rightarrow> string \<Rightarrow> string \<Rightarrow> bfs \<Rightarrow> bool" where
  "bfs_inv g t src dst b \<longleftrightarrow>
     src \<in> bfs_visited b \<and> set (bfs_queue b) \<subseteq> bfs_visited b \<and>
     (\<forall>v \<in> bfs_visited b. reachable g t src v) \<and>
     parents_ok g t src (bfs_visited b) (bfs_parents b) \<and>
     level_queue (hops_to g t src) (bfs_queue b) \<and> settled g t dst b \<and>
     (bfs_queue b \<noteq> [] \<longrightarrow> (\<forall>w. reachable g t src w \<longrightarrow> hops_to g t src w \<le> hops_to g t src (hd (bfs_queue b)) \<longrightarrow>
        w \<in> bfs_visited b))"

lemma hop_from_iff:
  "visible_hop g t (cur, w, e) \<longleftrightarrow>
   (\<exists>x \<in> set (find_edges_from cur g). is_visible_at t x \<and> snd (ted_endpoints x) = w \<and> ted_edge_id x = e)"
  by (auto simp: visible_hop_def find_edges_from_def prod_eq_iff)

lemma explore_result:
  "\<exists>ns. bfs_queue (explore t cur es b) = bfs_queue b @ ns \<and>
     set ns = {w. \<exists>x \<in> set es. is_visible_at t x \<and> snd (ted_endpoints x) = w} - bfs_visited b \<and>
     bfs_visited (explore t cur es b) = bfs_visited b \<union> set ns \<and>
     (\<forall>v. v \<notin> set ns \<longrightarrow> bfs_parents (explore t cur es b) v = bfs_parents b v) \<and>
     (\<forall>v \<in> set ns. \<exists>x \<in> set es. is_visible_at t x \<and> snd (ted_endpoints x) = v \<and>
        bfs_parents (explore t cur es b) v = Some (cur, ted_edge_id x))"
proof (induction es arbitrary: b)
  case Nil
  show ?case by (rule exI [of _ "[]"]) simp
next
  case (Cons e es)
  show ?case
  proof (cases "\<not> is_visible_at t e \<or> snd (ted_endpoints e) \<in> bfs_visited b")
    case True
    obtain ns where "bfs_queue (explore t cur es b) = bfs_queue b @ ns"
      "set ns = {w. \<exists>x \<in> set es. is_visible_at t x \<and> snd (ted_endpoints x) = w} - bfs_visited b"
      "bfs_visited (explore t cur es b) = bfs_visited b \<union> set ns"
      "\<forall>v. v \<notin> set ns \<longrightarrow> bfs_parents (explore t cur es b) v = bfs_parents b v"
      "\<forall>v \<in> set ns. \<exists>x \<in> set es. is_visible_at t x \<and> snd (ted_endpoints x) = v \<and>
        bfs_parents (explore t cur es b) v = Some (cur, ted_edge_id x)"
      using Cons.IH [of b] by blast
    with True show ?thesis by (intro exI [of _ ns]) auto
  next
    case False
    define n where "n = snd (ted_endpoints e)"
    define b' where "b' = \<lparr>bfs_visited = insert n (bfs_visited b), bfs_queue = bfs_queue b @ [n],
      bfs_parents = (bfs_parents b)(n \<mapsto> (cur, ted_edge_id e))\<rparr>"
    obtain ns where ns: "bfs_queue (explore t cur es b') = bfs_queue b' @ ns"
      "set ns = {w. \<exists>x \<in> set es. is_visible_at t x \<and> snd (ted_endpoints x) = w} - bfs_visited b'"
      "bfs_visited (explore t cur es b') = bfs_visited b' \<union> set ns"
      "\<forall>v. v \<notin> set ns \<longrightarrow> bfs_parents (explore t cur es b') v = bfs_parents b' v"
      "\<forall>v \<in> set ns. \<exists>x \<in> set es. is_visible_at t x \<and> snd (ted_endpoints x) = v \<and>
        bfs_parents (explore t cur es b') v = Some (cur, ted_edge_id x)"
      using Cons.IH [of b'] by blast
    have ex: "explore t cur (e # es) b = explore t cur es b'" using False by (simp add: b'_def n_def)
    have vis: "is_visible_at t e" "n \<notin> bfs_visited b" using False by (auto simp: n_def)
    have nn: "n \<notin> set ns" using ns(2) by (simp add: b'_def)
    show ?thesis unfolding ex
    proof (intro exI [of _ "n # ns"] conjI allI ballI impI)
      show "bfs_queue (explore t cur es b') = bfs_queue b @ n # ns" using ns(1) by (simp add: b'_def)
      show "set (n # ns) = {w. \<exists>x \<in> set (e # es). is_visible_at t x \<and> snd (ted_endpoints x) = w} - bfs_visited b"
        using ns(2) vis by (auto simp: b'_def n_def)
      show "bfs_visited (explore t cur es b') = bfs_visited b \<union> set (n # ns)" using ns(3) by (auto simp: b'_def)
    next
      fix v assume "v \<notin> set (n # ns)"
      then show "bfs_parents (explore t cur es b') v = bfs_parents b v" using ns(4) by (simp add: b'_def)
    next
      fix v assume v: "v \<in> set (n # ns)"
      show "\<exists>x \<in> set (e # es). is_visible_at t x \<and> snd (ted_endpoints x) = v \<and>
          bfs_parents (explore t cur es b') v = Some (cur, ted_edge_id x)"
      proof (cases "v = n")
        case True
        then have "bfs_parents (explore t cur es b') v = Some (cur, ted_edge_id e)"
          using ns(4) nn by (simp add: b'_def)
        with True vis show ?thesis by (auto simp: n_def)
      qed (use v ns(5) in auto)
    qed
  qed
qed

lemma explore_hops:
  "\<exists>ns. bfs_queue (explore t cur (find_edges_from cur g) b) = bfs_queue b @ ns \<and>
     set ns = {w. \<exists>e. visible_hop g t (cur, w, e)} - bfs_visited b \<and>
     bfs_visited (explore t cur (find_edges_from cur g) b) = bfs_visited b \<union> set ns \<and>
     (\<forall>v. v \<notin> set ns \<longrightarrow> bfs_parents (explore t cur (find_edges_from cur g) b) v = bfs_parents b v) \<and>
     (\<forall>v \<in> set ns. \<exists>e. visible_hop g t (cur, v, e) \<and>
        bfs_parents (explore t cur (find_edges_from cur g) b) v = Some (cur, e))"
proof -
  have eq: "{w. \<exists>x \<in> set (find_edges_from cur g). is_visible_at t x \<and> snd (ted_endpoints x) = w} =
      {w. \<exists>e. visible_hop g t (cur, w, e)}"
    unfolding hop_from_iff by blast
  show ?thesis
    using explore_result [of t cur "find_edges_from cur g" b] unfolding eq unfolding hop_from_iff
    by (elim exE conjE) (intro exI conjI; assumption?; blast)
qed

lemma bfs_inv_start: "bfs_inv g t src dst (bfs_start src)"
proof -
  have "w = src" if r: "reachable g t src w" and h: "hops_to g t src w = 0" for w
  proof -
    obtain p where "is_walk g t src p w" "length p = hops_to g t src w" using r by (rule hops_to_attained)
    with h show ?thesis by auto
  qed
  then show ?thesis
    by (auto simp: bfs_inv_def bfs_start_def parents_ok_def level_queue_def settled_def)
qed

lemma level_queue_append:
  assumes "level_queue d (c # q)" "\<forall>n \<in> set ns. d n = Suc (d c)"
  shows "level_queue d (q @ ns)"
proof -
  have b: "\<forall>x \<in> set q. d c \<le> d x \<and> d x \<le> Suc (d c)" "sorted (map d q)"
    using assms(1) by (auto simp: level_queue_def)
  have "sorted (map d ns)"
    using assms(2) by (auto simp: sorted_iff_nth_mono)
  then have s: "sorted (map d (q @ ns))"
    using b assms(2) by (auto simp: sorted_append)
  moreover have "\<forall>x \<in> set (q @ ns). d x \<le> Suc (d (hd (q @ ns)))"
  proof
    fix x assume x: "x \<in> set (q @ ns)"
    then have "hd (q @ ns) \<in> set (q @ ns)" by (intro hd_in_set) auto
    then have "d c \<le> d (hd (q @ ns))" using b(1) assms(2) by auto
    moreover have "d x \<le> Suc (d c)" using x b(1) assms(2) by auto
    ultimately show "d x \<le> Suc (d (hd (q @ ns)))" by linarith
  qed
  ultimately show ?thesis by (simp add: level_queue_def)
qed

lemma level_queue_hd: "level_queue d q \<Longrightarrow> x \<in> set q \<Longrightarrow> d (hd q) \<le> d x"
  by (cases q) (auto simp: level_queue_def)

text \<open>One round of the loop: the head is not the destination, and its unseen neighbours go to the end.\<close>

lemma bfs_inv_round:
  assumes inv: "bfs_inv g t src dst b" and q: "bfs_queue b = cur # q" and "cur \<noteq> dst"
  shows "bfs_inv g t src dst (explore t cur (find_edges_from cur g) (b\<lparr>bfs_queue := q\<rparr>))"
    (is "bfs_inv g t src dst ?b")
proof -
  let ?d = "hops_to g t src"
  have fields: "bfs_queue (b\<lparr>bfs_queue := q\<rparr>) = q" "bfs_visited (b\<lparr>bfs_queue := q\<rparr>) = bfs_visited b"
    "bfs_parents (b\<lparr>bfs_queue := q\<rparr>) = bfs_parents b" by simp_all
  obtain ns where ns: "bfs_queue ?b = q @ ns" "set ns = {w. \<exists>e. visible_hop g t (cur, w, e)} - bfs_visited b"
    "bfs_visited ?b = bfs_visited b \<union> set ns"
    "\<forall>v. v \<notin> set ns \<longrightarrow> bfs_parents ?b v = bfs_parents b v"
    "\<forall>v \<in> set ns. \<exists>e. visible_hop g t (cur, v, e) \<and> bfs_parents ?b v = Some (cur, e)"
    using explore_hops [of t cur g "b\<lparr>bfs_queue := q\<rparr>"] unfolding fields by (elim exE conjE) (rule that)
  from inv q have cur: "cur \<in> bfs_visited b" "reachable g t src cur" by (auto simp: bfs_inv_def)
  have new: "\<forall>n \<in> set ns. reachable g t src n \<and> ?d n = Suc (?d cur)"
  proof
    fix n assume n: "n \<in> set ns"
    then obtain e where e: "visible_hop g t (cur, n, e)" using ns(2) by blast
    have r: "reachable g t src n" by (rule reachable_hop [OF cur(2) e])
    have "?d n \<le> Suc (?d cur)" by (rule hops_to_hop [OF cur(2) e])
    moreover have "\<not> ?d n \<le> ?d cur" using inv q n r ns(2) by (auto simp: bfs_inv_def)
    ultimately show "reachable g t src n \<and> ?d n = Suc (?d cur)" using r by simp
  qed
  have lvl: "level_queue ?d (bfs_queue ?b)"
    using inv q new unfolding ns(1) by (intro level_queue_append) (auto simp: bfs_inv_def)
  have "parents_ok g t src (bfs_visited ?b) (bfs_parents ?b)"
    unfolding parents_ok_def
  proof (intro ballI impI)
    fix v assume v: "v \<in> bfs_visited ?b" "v \<noteq> src"
    show "\<exists>u e. bfs_parents ?b v = Some (u, e) \<and> u \<in> bfs_visited ?b \<and> visible_hop g t (u, v, e) \<and> ?d v = Suc (?d u)"
    proof (cases "v \<in> set ns")
      case True
      then show ?thesis using ns(3,5) new cur(1) by blast
    next
      case False
      with v ns(3) have "v \<in> bfs_visited b" by blast
      with inv v(2) have "\<exists>u e. bfs_parents b v = Some (u, e) \<and> u \<in> bfs_visited b \<and> visible_hop g t (u, v, e) \<and> ?d v = Suc (?d u)"
        by (auto simp: bfs_inv_def parents_ok_def)
      then show ?thesis using False ns(3,4) by auto
    qed
  qed
  moreover have set: "settled g t dst ?b"
    unfolding settled_def
  proof
    fix v assume v: "v \<in> bfs_visited ?b - set (bfs_queue ?b)"
    then have vb: "v \<in> bfs_visited b" using ns(1,3) by auto
    show "v \<noteq> dst \<and> (\<forall>w e. visible_hop g t (v, w, e) \<longrightarrow> w \<in> bfs_visited ?b)"
    proof (cases "v = cur")
      case True
      then show ?thesis using assms(3) ns(2,3) by blast
    next
      case False
      with v vb ns(1) q have "v \<in> bfs_visited b - set (bfs_queue b)" by auto
      then show ?thesis using inv ns(3) by (auto simp: bfs_inv_def settled_def)
    qed
  qed
  moreover have "\<forall>w. reachable g t src w \<longrightarrow> ?d w \<le> ?d (hd (bfs_queue ?b)) \<longrightarrow> w \<in> bfs_visited ?b" if ne: "bfs_queue ?b \<noteq> []"
  proof (intro allI impI)
    fix w assume w: "reachable g t src w" "?d w \<le> ?d (hd (bfs_queue ?b))"
    have "hd (bfs_queue ?b) \<in> set q \<union> set ns" using ne ns(1) by (metis hd_in_set set_append)
    then have "?d (hd (bfs_queue ?b)) \<le> Suc (?d cur)" using inv q new by (auto simp: bfs_inv_def level_queue_def)
    with w(2) consider "?d w \<le> ?d cur" | "?d w = Suc (?d cur)" "?d (hd (bfs_queue ?b)) = Suc (?d cur)" by linarith
    then show "w \<in> bfs_visited ?b"
    proof cases
      case 1
      then show ?thesis using inv q w(1) ns(3) by (auto simp: bfs_inv_def)
    next
      case 2
      then have "w \<noteq> src" by auto
      then obtain u e where u: "reachable g t src u" "visible_hop g t (u, w, e)" "?d w = Suc (?d u)"
        using hops_to_predecessor [OF w(1)] by metis
      with 2 have "?d u = ?d cur" by simp
      with inv q u(1) have "u \<in> bfs_visited b" by (auto simp: bfs_inv_def)
      moreover have "u \<notin> set (bfs_queue ?b)"
        using level_queue_hd [OF lvl, of u] 2 \<open>?d u = ?d cur\<close> by auto
      ultimately show ?thesis using set u(2) ns(3) by (auto simp: settled_def)
    qed
  qed
  ultimately show ?thesis
    using inv q new lvl ns(1,3) unfolding bfs_inv_def by auto
qed

lemma route_loop_result:
  "bfs_inv g t src dst b \<Longrightarrow>
   (case route_loop g t dst b of
      None \<Rightarrow> \<not> reachable g t src dst
    | Some ps \<Rightarrow> \<exists>V. dst \<in> V \<and> parents_ok g t src V ps)"
proof (induction g t dst b rule: route_loop.induct)
  case (1 g t dst b)
  show ?case
  proof (cases "bfs_queue b")
    case Nil
    have closed: "v \<in> bfs_visited b" if "is_walk g t src p v" for p v
      using that
    proof (induction p arbitrary: v rule: rev_induct)
      case Nil
      then show ?case using "1.prems" by (simp add: bfs_inv_def)
    next
      case (snoc h p)
      then have "fst h \<in> bfs_visited b" "visible_hop g t (fst h, v, snd (snd h))" by (auto simp: is_walk_append)
      then show ?case using "1.prems" \<open>bfs_queue b = []\<close> by (auto simp: bfs_inv_def settled_def)
    qed
    have "dst \<notin> bfs_visited b" using "1.prems" Nil by (auto simp: bfs_inv_def settled_def)
    with closed have "\<not> reachable g t src dst" by (auto simp: reachable_def)
    then show ?thesis using Nil by (simp add: route_loop.simps [of g t dst b])
  next
    case (Cons cur q)
    show ?thesis
    proof (cases "cur = dst")
      case True
      then show ?thesis using Cons "1.prems" by (auto simp: route_loop.simps [of g t dst b] bfs_inv_def)
    next
      case False
      then show ?thesis
        using "1.IH" [OF Cons False bfs_inv_round [OF "1.prems" Cons False]] Cons
        by (simp add: route_loop.simps [of g t dst b])
    qed
  qed
qed

lemma walk_back_result:
  "parents_ok g t src V ps \<Longrightarrow> v \<in> V \<Longrightarrow>
   \<exists>p. walk_back ps src v acc = Some (acc @ rev p) \<and> is_walk g t src p v \<and> length p = hops_to g t src v"
proof (induction "hops_to g t src v" arbitrary: v acc)
  case 0
  then have "v = src" by (force simp: parents_ok_def)
  then show ?case by (intro exI [of _ "[]"]) (simp add: walk_back.simps)
next
  case (Suc n)
  then have ne: "v \<noteq> src" by auto
  with Suc.prems obtain u e where u: "ps v = Some (u, e)" "u \<in> V" "visible_hop g t (u, v, e)"
    "hops_to g t src v = Suc (hops_to g t src u)"
    unfolding parents_ok_def by blast
  then obtain p where "walk_back ps src u (acc @ [(u, v, e)]) = Some ((acc @ [(u, v, e)]) @ rev p)"
    "is_walk g t src p u" "length p = hops_to g t src u"
    using Suc.hyps Suc.prems(1) by (metis nat.inject)
  with u ne show ?case
    by (intro exI [of _ "p @ [(u, v, e)]"]) (simp add: walk_back.simps [of ps src v] is_walk_append)
qed

section \<open>Properties\<close>

text \<open>C35: The path finder always answers. It finds no route exactly when no walk over visible edges leads to the
  destination, and otherwise a walk of the least number of hops.
\<close>

lemma find_route_shortest:
  "\<exists>r. find_route g u src dst c t = Some r \<and>
     (case r of
        None \<Rightarrow> \<not> reachable g t src dst
      | Some x \<Rightarrow> is_walk g t src (oro_path x) dst \<and> (\<forall>p. is_walk g t src p dst \<longrightarrow> hop_count x \<le> length p))"
proof (cases "route_loop g t dst (bfs_start src)")
  case None
  then show ?thesis
    using route_loop_result [OF bfs_inv_start, of g t src dst] by (intro exI [of _ None]) (simp add: find_route_def)
next
  case (Some ps)
  then obtain V where "dst \<in> V" "parents_ok g t src V ps"
    using route_loop_result [OF bfs_inv_start, of g t src dst] by auto
  then obtain p where "walk_back ps src dst [] = Some (rev p)" "is_walk g t src p dst" "length p = hops_to g t src dst"
    using walk_back_result [of g t src V ps dst "[]"] by auto
  then show ?thesis
    by (intro exI [of _ "Some (optical_route_new u p c)"])
      (simp add: find_route_def Some optical_route_new_def hop_count_def hops_to_le)
qed

text \<open>The constraints of a route constrain nothing: the path that is found does not depend on them. A route of
  six hops is returned for the default limit of five.
\<close>

lemma route_ignores_constraints:
  "map_option (map_option oro_path) (find_route g u src dst c t) = map_option (map_option oro_path) (find_route g u' src dst c' t)"
  by (auto simp: find_route_def optical_route_new_def option.map_comp comp_def split: option.splits)

section \<open>Witnesses\<close>

text \<open>Three nodes in a row, and a direct edge from the first to the last.\<close>

definition open_edge :: "string \<Rightarrow> string \<Rightarrow> string \<Rightarrow> topology_edge" where
  "open_edge i a b = (topology_edge_new i (a, b))\<lparr>ted_visibility_windows := [visibility_window_new 0 10]\<rparr>"

definition three_nodes :: optical_topology where
  "three_nodes = (optical_topology_new 0)\<lparr>otp_edges :=
     [open_edge ''e1'' ''a'' ''b'', open_edge ''e2'' ''b'' ''c'', open_edge ''e3'' ''a'' ''c'']\<rparr>"

lemma find_route_shortest_witness:
  "\<exists>x. find_route three_nodes 0 ''a'' ''c'' route_constraints_default 5 = Some (Some x) \<and> hop_count x \<le> 1"
proof -
  have v: "is_visible_at 5 (open_edge i a b)" for i a b
    by (simp add: open_edge_def is_visible_at_def visibility_contains_def visibility_window_new_def)
  have e: "ted_endpoints (open_edge i a b) = (a, b)" "ted_edge_id (open_edge i a b) = i" for i a b
    by (simp_all add: open_edge_def topology_edge_new_def)
  have "open_edge ''e3'' ''a'' ''c'' \<in> set (otp_edges three_nodes)" by (simp add: three_nodes_def)
  then have "visible_hop three_nodes 5 (''a'', ''c'', ''e3'')"
    unfolding visible_hop_def by (intro bexI) (simp_all add: v e)
  then have w: "is_walk three_nodes 5 ''a'' [(''a'', ''c'', ''e3'')] ''c''" by simp
  then have r: "reachable three_nodes 5 ''a'' ''c''"
    unfolding reachable_def by (intro exI [of _ "[(''a'', ''c'', ''e3'')]"])
  obtain a where a: "find_route three_nodes 0 ''a'' ''c'' route_constraints_default 5 = Some a"
    "case a of None \<Rightarrow> \<not> reachable three_nodes 5 ''a'' ''c''
     | Some x \<Rightarrow> is_walk three_nodes 5 ''a'' (oro_path x) ''c'' \<and>
         (\<forall>p. is_walk three_nodes 5 ''a'' p ''c'' \<longrightarrow> hop_count x \<le> length p)"
    using find_route_shortest [of three_nodes 0 "''a''" "''c''" route_constraints_default 5] by blast
  from a(2) r obtain x where x: "a = Some x" by (cases a) simp_all
  with a(2) have "\<forall>p. is_walk three_nodes 5 ''a'' p ''c'' \<longrightarrow> hop_count x \<le> length p" by (simp add: conj_commute)
  with w have "hop_count x \<le> length [(''a'', ''c'', ''e3'')]" by blast
  with a(1) x show ?thesis by simp
qed

end
