(* ===== verification/Optical_Oct.thy ===== *)
theory Optical_Oct
  imports Core_Types F64
begin

text \<open>
  The optical communications terminal standard: its versions (\<open>optical/src/oct/standard.rs\<close>), the
  configuration of a terminal (\<open>config.rs\<close>), the negotiation of a version (\<open>negotiation.rs\<close>) and frames
  (\<open>framing.rs\<close>).

  The order on the versions is the derived one, an instance of \<open>linorder\<close>; the negotiation takes the greatest
  version that both sides support.
\<close>

section \<open>Definitions\<close>

subsection \<open>Versions\<close>

datatype oct_version = V3_0_0 | V3_0_1 | V3_1_0 | V3_2_0 | V4_0_0

fun version_rank :: "oct_version \<Rightarrow> nat" where
  "version_rank V3_0_0 = 0"
| "version_rank V3_0_1 = 1"
| "version_rank V3_1_0 = 2"
| "version_rank V3_2_0 = 3"
| "version_rank V4_0_0 = 4"

lemma version_rank_inj: "version_rank v = version_rank w \<Longrightarrow> v = w"
  by (cases v; cases w) simp_all

instantiation oct_version :: linorder
begin

definition less_eq_oct_version :: "oct_version \<Rightarrow> oct_version \<Rightarrow> bool" where
  "less_eq_oct_version v w \<longleftrightarrow> version_rank v \<le> version_rank w"

definition less_oct_version :: "oct_version \<Rightarrow> oct_version \<Rightarrow> bool" where
  "less_oct_version v w \<longleftrightarrow> version_rank v < version_rank w"

instance
  by standard (auto simp: less_eq_oct_version_def less_oct_version_def intro: version_rank_inj)

end

fun version_as_str :: "oct_version \<Rightarrow> string" where
  "version_as_str V3_0_0 = ''3.0.0''"
| "version_as_str V3_0_1 = ''3.0.1''"
| "version_as_str V3_1_0 = ''3.1.0''"
| "version_as_str V3_2_0 = ''3.2.0''"
| "version_as_str V4_0_0 = ''4.0.0''"

definition supports_ldpc :: "oct_version \<Rightarrow> bool" where
  "supports_ldpc v \<longleftrightarrow> v \<in> {V3_1_0, V3_2_0, V4_0_0}"

definition supports_manchester_bm16 :: "oct_version \<Rightarrow> bool" where
  "supports_manchester_bm16 v \<longleftrightarrow> v = V4_0_0"

fun max_data_rate :: "oct_version \<Rightarrow> u64" where
  "max_data_rate V3_0_0 = 2500000000"
| "max_data_rate V3_0_1 = 2500000000"
| "max_data_rate V3_1_0 = 5000000000"
| "max_data_rate V3_2_0 = 5000000000"
| "max_data_rate V4_0_0 = 10000000000"

record oct_standard =
  ost_version :: oct_version
  ost_specification_url :: string
  ost_release_date :: datetime

text \<open>The dates are the instants their texts in RFC 3339 stand for.\<close>

definition standard_v3_0_0 :: oct_standard where
  "standard_v3_0_0 =
     \<lparr>ost_version = V3_0_0, ost_specification_url = ''https://sda.org/oct/3.0.0'',
      ost_release_date = duration_seconds 1590969600\<rparr>"

definition standard_v3_1_0 :: oct_standard where
  "standard_v3_1_0 =
     \<lparr>ost_version = V3_1_0, ost_specification_url = ''https://sda.org/oct/3.1.0'',
      ost_release_date = duration_seconds 1615766400\<rparr>"

definition standard_v3_2_0 :: oct_standard where
  "standard_v3_2_0 =
     \<lparr>ost_version = V3_2_0, ost_specification_url = ''https://sda.org/oct/3.2.0'',
      ost_release_date = duration_seconds 1641772800\<rparr>"

definition standard_v4_0_0 :: oct_standard where
  "standard_v4_0_0 =
     \<lparr>ost_version = V4_0_0, ost_specification_url = ''https://sda.org/oct/4.0.0'',
      ost_release_date = duration_seconds 1690848000\<rparr>"

subsection \<open>Negotiation\<close>

datatype negotiation_error = NoCommonVersion

definition negotiation_error_text :: "negotiation_error \<Rightarrow> string" where
  "negotiation_error_text e = ''No common OCT standard version between terminals''"

text \<open>\<open>max\<close> of an iterator: among equal greatest items the one that comes later, which are the same here.\<close>

fun max_version :: "oct_version list \<Rightarrow> oct_version option" where
  "max_version [] = None"
| "max_version (v # vs) = (case max_version vs of None \<Rightarrow> Some v | Some w \<Rightarrow> Some (if v \<le> w then w else v))"

definition negotiate_version :: "oct_version list \<Rightarrow> oct_version list \<Rightarrow> negotiation_error + oct_version" where
  "negotiate_version own peer =
     (case max_version (filter (\<lambda>v. v \<in> set peer) own) of
        None \<Rightarrow> Inl NoCommonVersion
      | Some v \<Rightarrow> Inr v)"

subsection \<open>Configuration\<close>

datatype atmospheric_model = AtmosphereStandard | AtmosphereClear | ModerateTurbulence | HighTurbulence | AtmosphereStorm

datatype opt_link_type = SpaceToSpace | SpaceToTerrestrial atmospheric_model

datatype opt_modulation = OokNrz u64 | Manchester u64 | ManchesterBm12 | ManchesterBm16

fun modulation_data_rate :: "opt_modulation \<Rightarrow> u64" where
  "modulation_data_rate (OokNrz b) = b"
| "modulation_data_rate (Manchester b) = b div 2"
| "modulation_data_rate ManchesterBm12 = 5000000000"
| "modulation_data_rate ManchesterBm16 = 10000000000"

datatype opt_ldpc_variant = BaseGraph1 | BaseGraph2

datatype opt_fec_code = Ldpc5gNr opt_ldpc_variant | FecDisabled

datatype opt_code_rate = R1_2 | R2_3 | R3_4 | R5_6

fun code_rate_as_float :: "opt_code_rate \<Rightarrow> f64" where
  "code_rate_as_float R1_2 = lit (1 / 2)"
| "code_rate_as_float R2_3 = lit (666 / 1000)"
| "code_rate_as_float R3_4 = lit (3 / 4)"
| "code_rate_as_float R5_6 = lit (833 / 1000)"

record opt_fec =
  ofc_enabled :: bool
  ofc_code :: opt_fec_code
  ofc_code_rate :: opt_code_rate
  ofc_block_size :: nat

definition fec_disabled :: opt_fec where
  "fec_disabled = \<lparr>ofc_enabled = False, ofc_code = FecDisabled, ofc_code_rate = R1_2, ofc_block_size = 0\<rparr>"

definition fec_default_ldpc :: opt_fec where
  "fec_default_ldpc =
     \<lparr>ofc_enabled = True, ofc_code = Ldpc5gNr BaseGraph1, ofc_code_rate = R5_6, ofc_block_size = 8448\<rparr>"

record opt_arq =
  oaq_enabled :: bool
  oaq_window_size :: u32
  oaq_timeout_ms :: u32
  oaq_max_retries :: u32

definition arq_default :: opt_arq where
  "arq_default = \<lparr>oaq_enabled = True, oaq_window_size = 1024, oaq_timeout_ms = 100, oaq_max_retries = 5\<rparr>"

definition arq_disabled :: opt_arq where
  "arq_disabled = \<lparr>oaq_enabled = False, oaq_window_size = 0, oaq_timeout_ms = 0, oaq_max_retries = 0\<rparr>"

record tracking_tone =
  tto_frequency_hz :: u64
  tto_power_dbm :: f64

definition tracking_tone_default :: tracking_tone where
  "tracking_tone_default = \<lparr>tto_frequency_hz = 10000000, tto_power_dbm = fneg (lit 10)\<rparr>"

record opt_configuration =
  ocf_standard_version :: oct_version
  ocf_link_type :: opt_link_type
  ocf_modulation :: opt_modulation
  ocf_fec :: opt_fec
  ocf_arq :: opt_arq
  ocf_target_data_rate :: u64
  ocf_tracking_tone :: "tracking_tone option"

definition config_default_s2s :: opt_configuration where
  "config_default_s2s =
     \<lparr>ocf_standard_version = V4_0_0, ocf_link_type = SpaceToSpace, ocf_modulation = ManchesterBm16,
      ocf_fec = fec_default_ldpc, ocf_arq = arq_default, ocf_target_data_rate = 10000000000,
      ocf_tracking_tone = Some tracking_tone_default\<rparr>"

definition config_default_s2t :: opt_configuration where
  "config_default_s2t =
     \<lparr>ocf_standard_version = V4_0_0, ocf_link_type = SpaceToTerrestrial AtmosphereStandard,
      ocf_modulation = ManchesterBm16, ocf_fec = fec_default_ldpc, ocf_arq = arq_default,
      ocf_target_data_rate = 10000000000, ocf_tracking_tone = Some tracking_tone_default\<rparr>"

subsection \<open>Frames\<close>

datatype framing_error = InvalidFrameLength nat | ChecksumMismatch | DeserializationError string

fun framing_error_text :: "framing_error \<Rightarrow> string" where
  "framing_error_text (InvalidFrameLength n) = ''Invalid frame length: '' @ show_nat n"
| "framing_error_text ChecksumMismatch = ''Frame checksum mismatch''"
| "framing_error_text (DeserializationError m) = ''Frame deserialization error: '' @ m"

record ethernet_frame =
  efr_payload :: bytes
  efr_sequence_number :: u32
  efr_timestamp :: datetime

definition ethernet_frame_new :: "datetime \<Rightarrow> bytes \<Rightarrow> u32 \<Rightarrow> ethernet_frame" where
  "ethernet_frame_new now p n = \<lparr>efr_payload = p, efr_sequence_number = n, efr_timestamp = now\<rparr>"

definition frame_len :: "ethernet_frame \<Rightarrow> nat" where
  "frame_len f = length (efr_payload f)"

definition frame_is_empty :: "ethernet_frame \<Rightarrow> bool" where
  "frame_is_empty f \<longleftrightarrow> efr_payload f = []"

record frame_metadata =
  fmd_sequence_number :: u32
  fmd_timestamp :: datetime
  fmd_payload_length :: nat
  fmd_checksum :: u32

section \<open>Lemmas\<close>

lemma max_version_None: "max_version vs = None \<longleftrightarrow> vs = []"
  by (cases vs) (auto split: option.splits)

lemma max_version_Some: "max_version vs = Some v \<Longrightarrow> v \<in> set vs \<and> (\<forall>w \<in> set vs. w \<le> v)"
proof (induction vs arbitrary: v)
  case (Cons a vs)
  show ?case
  proof (cases "max_version vs")
    case None
    with Cons.prems show ?thesis by (simp add: max_version_None)
  next
    case (Some w)
    with Cons.IH have "w \<in> set vs" "\<forall>x \<in> set vs. x \<le> w" by simp_all
    with Cons.prems Some show ?thesis by (fastforce split: if_splits)
  qed
qed simp

lemma max_version_eqI:
  assumes "v \<in> set vs" "\<forall>w \<in> set vs. w \<le> v"
  shows "max_version vs = Some v"
proof (cases "max_version vs")
  case None
  with assms(1) show ?thesis by (simp add: max_version_None)
next
  case (Some w)
  with max_version_Some [OF this] assms show ?thesis by force
qed

lemma negotiate_version_Inr:
  "negotiate_version own peer = Inr v \<longleftrightarrow> v \<in> set own \<inter> set peer \<and> (\<forall>w \<in> set own \<inter> set peer. w \<le> v)"
proof
  assume "negotiate_version own peer = Inr v"
  then have "max_version (filter (\<lambda>v. v \<in> set peer) own) = Some v" by (simp add: negotiate_version_def split: option.splits)
  from max_version_Some [OF this] show "v \<in> set own \<inter> set peer \<and> (\<forall>w \<in> set own \<inter> set peer. w \<le> v)" by auto
next
  assume "v \<in> set own \<inter> set peer \<and> (\<forall>w \<in> set own \<inter> set peer. w \<le> v)"
  then have "max_version (filter (\<lambda>v. v \<in> set peer) own) = Some v" by (intro max_version_eqI) auto
  then show "negotiate_version own peer = Inr v" by (simp add: negotiate_version_def)
qed

lemma negotiate_version_Inl: "negotiate_version own peer = Inl e \<longleftrightarrow> set own \<inter> set peer = {}"
proof -
  have "negotiate_version own peer = Inl e \<longleftrightarrow> max_version (filter (\<lambda>v. v \<in> set peer) own) = None"
    by (cases e) (simp add: negotiate_version_def split: option.splits)
  also have "\<dots> \<longleftrightarrow> set own \<inter> set peer = {}" by (auto simp: max_version_None filter_empty_conv)
  finally show ?thesis .
qed

section \<open>Properties\<close>

text \<open>C38: The negotiation agrees on the greatest version that both sides support, and fails exactly when there is
  none. Both sides come to the same result, whatever the order of their lists.
\<close>

lemma negotiation_agrees:
  "(case negotiate_version own peer of
      Inl e \<Rightarrow> set own \<inter> set peer = {}
    | Inr v \<Rightarrow> v = Max (set own \<inter> set peer) \<and> v \<in> set own \<inter> set peer) \<and>
   negotiate_version own peer = negotiate_version peer own"
proof
  show "case negotiate_version own peer of
      Inl e \<Rightarrow> set own \<inter> set peer = {}
    | Inr v \<Rightarrow> v = Max (set own \<inter> set peer) \<and> v \<in> set own \<inter> set peer"
  proof (cases "negotiate_version own peer")
    case (Inl e)
    then have "set own \<inter> set peer = {}" by (simp only: negotiate_version_Inl)
    with Inl show ?thesis by simp
  next
    case (Inr v)
    then have v: "v \<in> set own \<inter> set peer" "\<forall>w \<in> set own \<inter> set peer. w \<le> v" by (simp_all add: negotiate_version_Inr)
    then have "Max (set own \<inter> set peer) = v" by (intro Max_eqI) auto
    with Inr v show ?thesis by simp
  qed
  show "negotiate_version own peer = negotiate_version peer own"
  proof (cases "negotiate_version own peer")
    case (Inl e)
    then have "negotiate_version peer own = Inl e" by (simp add: negotiate_version_Inl Int_commute)
    with Inl show ?thesis by simp
  next
    case (Inr v)
    then have "negotiate_version peer own = Inr v" by (simp add: negotiate_version_Inr Int_commute)
    with Inr show ?thesis by simp
  qed
qed

text \<open>The default configurations keep within their version: it supports their code and their modulation, and
  its rate is that of the modulation and of the target.
\<close>

lemma default_configuration_supported:
  "c = config_default_s2s \<or> c = config_default_s2t \<longrightarrow>
     supports_ldpc (ocf_standard_version c) \<and> supports_manchester_bm16 (ocf_standard_version c) \<and>
     ocf_target_data_rate c = max_data_rate (ocf_standard_version c) \<and>
     modulation_data_rate (ocf_modulation c) = max_data_rate (ocf_standard_version c)"
  by (auto simp: config_default_s2s_def config_default_s2t_def supports_ldpc_def supports_manchester_bm16_def)

end
