(* ===== verification/Optical_Search.thy ===== *)
theory Optical_Search
  imports Optical_Routing
begin

text \<open>
  The parts that optical acquisition rests on: precise clocks (\<open>optical/src/pat/clock.rs\<close>), search patterns
  (\<open>search.rs\<close>), recovery after a loss (\<open>recovery.rs\<close>) and the quality of tracking (\<open>tracking.rs\<close>).

  The clock trait is a record of functions over the state of a clock, with the interface \<open>optical_clock\<close> that
  the default clock provides. Readings of the system clock are arguments. An addition of dates that leaves
  their range panics: \<open>None\<close>.
\<close>

section \<open>Definitions\<close>

subsection \<open>Clocks\<close>

datatype opt_clock_error = OptSyncFailed string | OptDriftExceeded "64 word" | OptNotSynchronized

fun opt_clock_error_text :: "opt_clock_error \<Rightarrow> string" where
  "opt_clock_error_text (OptSyncFailed m) = ''Clock sync failed: '' @ m"
| "opt_clock_error_text (OptDriftExceeded d) = ''Clock drift exceeded threshold: '' @ show_int (sint d) @ '' ns/sec''"
| "opt_clock_error_text OptNotSynchronized = ''Clock not synchronized''"

record precise_time =
  prt_seconds :: "64 word"
  prt_nanoseconds :: u32
  prt_confidence_ns :: u32

definition precise_from_datetime :: "datetime \<Rightarrow> u32 \<Rightarrow> precise_time" where
  "precise_from_datetime t c =
     \<lparr>prt_seconds = word_of_int (t div 1000000000), prt_nanoseconds = word_of_int (t mod 1000000000),
      prt_confidence_ns = c\<rparr>"

definition precise_now :: "datetime \<Rightarrow> precise_time" where
  "precise_now now = precise_from_datetime now 100"

definition precise_to_datetime :: "chrono \<Rightarrow> datetime \<Rightarrow> precise_time \<Rightarrow> datetime" where
  "precise_to_datetime ch now p =
     (case from_timestamp ch (prt_seconds p) (prt_nanoseconds p) of None \<Rightarrow> now | Some t \<Rightarrow> t)"

definition precise_add_duration :: "chrono \<Rightarrow> datetime \<Rightarrow> duration \<Rightarrow> precise_time \<Rightarrow> precise_time option" where
  "precise_add_duration ch now d p =
     map_option (\<lambda>t. precise_from_datetime t (prt_confidence_ns p)) (date_add ch (precise_to_datetime ch now p) d)"

definition precise_duration_since :: "chrono \<Rightarrow> datetime \<Rightarrow> datetime \<Rightarrow> precise_time \<Rightarrow> precise_time \<Rightarrow> duration" where
  "precise_duration_since ch now1 now2 p q = precise_to_datetime ch now1 p - precise_to_datetime ch now2 q"

record opt_confidence =
  ocn_uncertainty_ns :: u32

definition opt_confidence_new :: "u32 \<Rightarrow> opt_confidence" where
  "opt_confidence_new u = \<lparr>ocn_uncertainty_ns = u\<rparr>"

definition opt_gps_disciplined :: opt_confidence where
  "opt_gps_disciplined = opt_confidence_new 50"

definition atomic_clock :: opt_confidence where
  "atomic_clock = opt_confidence_new 10"

definition ptp_clock :: opt_confidence where
  "ptp_clock = opt_confidence_new 100"

definition opt_is_high_precision :: "opt_confidence \<Rightarrow> bool" where
  "opt_is_high_precision c \<longleftrightarrow> ocn_uncertainty_ns c < 100"

definition is_acceptable_for_pat :: "opt_confidence \<Rightarrow> bool" where
  "is_acceptable_for_pat c \<longleftrightarrow> ocn_uncertainty_ns c < 500"

record drift_rate =
  drr_ns_per_second :: "64 word"

definition drift_zero :: drift_rate where
  "drift_zero = \<lparr>drr_ns_per_second = 0\<rparr>"

definition drift_from_ppb :: "64 word \<Rightarrow> drift_rate" where
  "drift_from_ppb p = \<lparr>drr_ns_per_second = p\<rparr>"

text \<open>The absolute value of the least integer wraps to itself.\<close>

definition wrapping_abs :: "64 word \<Rightarrow> 64 word" where
  "wrapping_abs w = (if sint w < 0 then - w else w)"

definition drift_is_acceptable :: "drift_rate \<Rightarrow> bool" where
  "drift_is_acceptable d \<longleftrightarrow> sint (wrapping_abs (drr_ns_per_second d)) < 100"

datatype opt_time_reference = GpsReceiver string | PtpMaster string | NtpStratum1 string | AtomicSource string

fun accuracy_ns :: "opt_time_reference \<Rightarrow> u32" where
  "accuracy_ns (GpsReceiver r) = 50"
| "accuracy_ns (PtpMaster m) = 100"
| "accuracy_ns (NtpStratum1 s) = 1000"
| "accuracy_ns (AtomicSource s) = 10"

record opt_sync_report =
  osr_synced_at :: datetime
  osr_offset_ns :: "64 word"
  osr_confidence_after :: opt_confidence
  osr_successful :: bool

record 'c opt_clock_calls =
  occ_confidence :: "'c \<Rightarrow> opt_confidence"
  occ_sync_to :: "datetime \<Rightarrow> opt_time_reference \<Rightarrow> 'c \<Rightarrow> (opt_clock_error + opt_sync_report) \<times> 'c"
  occ_is_synchronized :: "'c \<Rightarrow> bool"
  occ_drift_rate :: "'c \<Rightarrow> drift_rate"

record opt_default_clock =
  odc_confidence :: opt_confidence
  odc_last_sync :: "datetime option"
  odc_drift_rate :: drift_rate
  odc_synchronized :: bool

definition opt_default_clock_new :: opt_default_clock where
  "opt_default_clock_new =
     \<lparr>odc_confidence = opt_gps_disciplined, odc_last_sync = None, odc_drift_rate = drift_zero, odc_synchronized = False\<rparr>"

definition opt_default_sync_to :: "datetime \<Rightarrow> opt_time_reference \<Rightarrow> opt_default_clock \<Rightarrow>
    (opt_clock_error + opt_sync_report) \<times> opt_default_clock" where
  "opt_default_sync_to now r c =
     (let conf = opt_confidence_new (accuracy_ns r) in
      (Inr \<lparr>osr_synced_at = now, osr_offset_ns = ucast (accuracy_ns r), osr_confidence_after = conf, osr_successful = True\<rparr>,
       c\<lparr>odc_confidence := conf, odc_last_sync := Some now, odc_synchronized := True\<rparr>))"

definition opt_default_is_synchronized :: "opt_default_clock \<Rightarrow> bool" where
  "opt_default_is_synchronized c \<longleftrightarrow> odc_synchronized c \<and> odc_last_sync c \<noteq> None"

definition opt_default_calls :: "opt_default_clock opt_clock_calls" where
  "opt_default_calls =
     \<lparr>occ_confidence = odc_confidence, occ_sync_to = opt_default_sync_to,
      occ_is_synchronized = opt_default_is_synchronized, occ_drift_rate = odc_drift_rate\<rparr>"

subsection \<open>Search patterns\<close>

datatype search_pattern =
    Spiral f64 f64 f64 f64
  | Raster f64 f64 f64
  | Lissajous f64 f64 f64

definition spiral_default :: search_pattern where
  "spiral_default = Spiral (lit 10) (lit 5) (lit 500) (lit 100)"

definition raster_default :: search_pattern where
  "raster_default = Raster (lit 1000) (lit 1000) (lit 50)"

definition lissajous_default :: search_pattern where
  "lissajous_default = Lissajous (lit 500) (lit 500) (lit 3)"

fun estimated_duration_ms :: "search_pattern \<Rightarrow> u64" where
  "estimated_duration_ms (Spiral r p m v) =
     (let area = fmul pi_f64 (fmul m m); per_ms = fdiv v (lit 1000) in of_nat (f64_to_u64 (fdiv area per_ms)))"
| "estimated_duration_ms (Raster w h l) = of_nat (f64_to_u64 (fdiv (fdiv (fmul w h) l) (lit 50)))"
| "estimated_duration_ms (Lissajous x y q) = of_nat (f64_to_u64 (fdiv (fmul (lit 2) (fadd x y)) (lit 50)))"

record search_state =
  sst_pattern :: search_pattern
  sst_current_angle_x_urad :: f64
  sst_current_angle_y_urad :: f64
  sst_steps_completed :: u32
  sst_beacon_detected :: bool
  sst_detection_confidence :: f64

definition search_state_new :: "search_pattern \<Rightarrow> search_state" where
  "search_state_new p =
     \<lparr>sst_pattern = p, sst_current_angle_x_urad = lit 0, sst_current_angle_y_urad = lit 0, sst_steps_completed = 0,
      sst_beacon_detected = False, sst_detection_confidence = lit 0\<rparr>"

record spiral_pattern =
  spp_initial_radius_urad :: f64
  spp_spiral_pitch_urad :: f64
  spp_max_radius_urad :: f64
  spp_scan_rate_urad_per_sec :: f64

definition spiral_pattern_new :: "f64 \<Rightarrow> f64 \<Rightarrow> f64 \<Rightarrow> f64 \<Rightarrow> spiral_pattern" where
  "spiral_pattern_new r p m v =
     \<lparr>spp_initial_radius_urad = r, spp_spiral_pitch_urad = p, spp_max_radius_urad = m, spp_scan_rate_urad_per_sec = v\<rparr>"

definition spiral_position :: "sky_math \<Rightarrow> u32 \<Rightarrow> spiral_pattern \<Rightarrow> f64 \<times> f64" where
  "spiral_position sk step p =
     (let n = f64_of_nat (unat step);
          radius = fadd (spp_initial_radius_urad p) (fmul n (spp_spiral_pitch_urad p));
          angle = fmul n (lit (1 / 2))
      in (fmul radius (skm_cos sk angle), fmul radius (skm_sin sk angle)))"

record raster_pattern =
  rsp_width_urad :: f64
  rsp_height_urad :: f64
  rsp_line_spacing_urad :: f64

definition raster_pattern_new :: "f64 \<Rightarrow> f64 \<Rightarrow> f64 \<Rightarrow> raster_pattern" where
  "raster_pattern_new w h l = \<lparr>rsp_width_urad = w, rsp_height_urad = h, rsp_line_spacing_urad = l\<rparr>"

text \<open>The cast to 32 bits saturates. No lines: the remainder panics.\<close>

definition raster_lines :: "raster_pattern \<Rightarrow> nat" where
  "raster_lines p = min (f64_to_u64 (fdiv (rsp_height_urad p) (rsp_line_spacing_urad p))) (2 ^ 32 - 1)"

definition raster_position :: "u32 \<Rightarrow> raster_pattern \<Rightarrow> (f64 \<times> f64) option" where
  "raster_position step p =
     (let n = unat step; k = raster_lines p in
      if k = 0 then None
      else
        (let dir = (if n div k mod 2 = 0 then lit 1 else fneg (lit 1));
             x = fmul (fmul (frem (f64_of_nat n) (fdiv (rsp_width_urad p) (rsp_line_spacing_urad p)))
                  (rsp_line_spacing_urad p)) dir;
             y = fsub (fmul (f64_of_nat (n mod k)) (rsp_line_spacing_urad p)) (fdiv (rsp_height_urad p) (lit 2))
         in Some (x, y)))"

record lissajous_pattern =
  ljp_amplitude_x_urad :: f64
  ljp_amplitude_y_urad :: f64
  ljp_frequency_ratio :: f64

definition lissajous_pattern_new :: "f64 \<Rightarrow> f64 \<Rightarrow> f64 \<Rightarrow> lissajous_pattern" where
  "lissajous_pattern_new x y q = \<lparr>ljp_amplitude_x_urad = x, ljp_amplitude_y_urad = y, ljp_frequency_ratio = q\<rparr>"

definition lissajous_position :: "sky_math \<Rightarrow> f64 \<Rightarrow> lissajous_pattern \<Rightarrow> f64 \<times> f64" where
  "lissajous_position sk ms p =
     (let t = fdiv ms (lit 1000); tau = fmul (lit 2) pi_f64 in
      (fmul (ljp_amplitude_x_urad p) (skm_cos sk (fmul tau t)),
       fmul (ljp_amplitude_y_urad p) (skm_sin sk (fmul (fmul tau (ljp_frequency_ratio p)) t))))"

subsection \<open>Recovery\<close>

datatype opt_loss_reason =
    LossPatTimeout
  | LossSignalDegraded
  | LossPowerLoss
  | LossMechanicalFailure
  | LossClockDesync
  | LossAtmosphericTurbulence
  | LossPointingDrift
  | LossUnknown

datatype opt_recovery_strategy =
    RecoverWithWiderBeam f64
  | RecoverAtLaterTime datetime
  | RecoverByAlternativeTerminal string
  | RecoveryAbort
  | FullReacquisition string

text \<open>The dates that are added to the clock may leave their range.\<close>

fun for_loss_reason :: "chrono \<Rightarrow> datetime \<Rightarrow> opt_loss_reason \<Rightarrow> opt_recovery_strategy option" where
  "for_loss_reason ch now LossPatTimeout = Some (RecoverWithWiderBeam (lit (2 / 10)))"
| "for_loss_reason ch now LossSignalDegraded = Some (FullReacquisition ''raster'')"
| "for_loss_reason ch now LossAtmosphericTurbulence = map_option RecoverAtLaterTime (date_add ch now (minutes 10))"
| "for_loss_reason ch now LossPointingDrift = Some (FullReacquisition ''spiral'')"
| "for_loss_reason ch now LossClockDesync = map_option RecoverAtLaterTime (date_add ch now (duration_seconds 30))"
| "for_loss_reason ch now _ = Some RecoveryAbort"

datatype opt_fallback =
    FallbackWiderBeam
  | FallbackLaterTime datetime
  | FallbackAlternativeTerminal string
  | FallbackGiveUp

fun to_recovery_strategy :: "opt_fallback \<Rightarrow> opt_recovery_strategy" where
  "to_recovery_strategy FallbackWiderBeam = RecoverWithWiderBeam (lit (2 / 10))"
| "to_recovery_strategy (FallbackLaterTime t) = RecoverAtLaterTime t"
| "to_recovery_strategy (FallbackAlternativeTerminal i) = RecoverByAlternativeTerminal i"
| "to_recovery_strategy FallbackGiveUp = RecoveryAbort"

record recovery_attempt =
  rat_attempt_number :: u32
  rat_strategy :: opt_recovery_strategy
  rat_started_at :: datetime
  rat_completed_at :: "datetime option"
  rat_success :: bool
  rat_duration_ms :: "u64 option"

definition recovery_attempt_new :: "datetime \<Rightarrow> u32 \<Rightarrow> opt_recovery_strategy \<Rightarrow> recovery_attempt" where
  "recovery_attempt_new now n s =
     \<lparr>rat_attempt_number = n, rat_strategy = s, rat_started_at = now, rat_completed_at = None, rat_success = False,
      rat_duration_ms = None\<rparr>"

definition recovery_complete :: "datetime \<Rightarrow> bool \<Rightarrow> recovery_attempt \<Rightarrow> recovery_attempt" where
  "recovery_complete now ok a =
     a\<lparr>rat_completed_at := Some now, rat_success := ok,
       rat_duration_ms := Some (word_of_int (num_milliseconds (now - rat_started_at a)))\<rparr>"

subsection \<open>Tracking quality\<close>

record opt_tracking_quality =
  otq_pointing_error_urad :: f64
  otq_signal_to_noise_db :: f64
  otq_lock_confidence :: f64

definition opt_tracking_quality_new :: "f64 \<Rightarrow> f64 \<Rightarrow> f64 \<Rightarrow> opt_tracking_quality" where
  "opt_tracking_quality_new e s l =
     \<lparr>otq_pointing_error_urad = e, otq_signal_to_noise_db = s, otq_lock_confidence = l\<rparr>"

definition quality_is_healthy :: "opt_tracking_quality \<Rightarrow> bool" where
  "quality_is_healthy q \<longleftrightarrow>
     flt (otq_pointing_error_urad q) (lit 100) \<and> flt (lit 10) (otq_signal_to_noise_db q) \<and>
     flt (lit (9 / 10)) (otq_lock_confidence q)"

definition quality_is_degrading :: "opt_tracking_quality \<Rightarrow> bool" where
  "quality_is_degrading q \<longleftrightarrow>
     flt (lit 50) (otq_pointing_error_urad q) \<or> flt (otq_signal_to_noise_db q) (lit 12)"

definition quality_is_critical :: "opt_tracking_quality \<Rightarrow> bool" where
  "quality_is_critical q \<longleftrightarrow>
     flt (lit 200) (otq_pointing_error_urad q) \<or> flt (otq_signal_to_noise_db q) (lit 5)"

record opt_tracking_detail =
  otd_pointing_error_urad :: f64
  otd_signal_to_noise_db :: f64
  otd_lock_confidence :: f64
  otd_data_rate_actual :: u64
  otd_bit_error_rate :: f64
  otd_fec_corrections_per_second :: u64
  otd_arq_retransmits_per_second :: u64
  otd_beacon_power_dbm :: f64
  otd_doppler_shift_hz :: f64

definition detail_from_quality :: "opt_tracking_quality \<Rightarrow> opt_tracking_detail" where
  "detail_from_quality q =
     \<lparr>otd_pointing_error_urad = otq_pointing_error_urad q, otd_signal_to_noise_db = otq_signal_to_noise_db q,
      otd_lock_confidence = otq_lock_confidence q, otd_data_rate_actual = 0, otd_bit_error_rate = lit 0,
      otd_fec_corrections_per_second = 0, otd_arq_retransmits_per_second = 0, otd_beacon_power_dbm = fneg (lit 30),
      otd_doppler_shift_hz = lit 0\<rparr>"

definition detail_healthy :: "opt_tracking_detail \<Rightarrow> bool" where
  "detail_healthy d \<longleftrightarrow>
     flt (otd_pointing_error_urad d) (lit 100) \<and> flt (lit 10) (otd_signal_to_noise_db d) \<and>
     flt (lit (9 / 10)) (otd_lock_confidence d)"

definition degrade_score :: "opt_tracking_detail \<Rightarrow> f64" where
  "degrade_score d =
     (let p = fmin (fdiv (otd_pointing_error_urad d) (lit 200)) (lit 1);
          s = fsub (lit 1) (fmax (fdiv (otd_signal_to_noise_db d) (lit 20)) (lit 0));
          l = fsub (lit 1) (otd_lock_confidence d)
      in fdiv (fadd (fadd p s) l) (lit 3))"

record tracking_handle =
  thd_tracking_id :: uuid
  thd_started_at :: datetime
  thd_current_metrics :: opt_tracking_detail
  thd_is_active :: bool

definition tracking_handle_new :: "uuid \<Rightarrow> datetime \<Rightarrow> tracking_handle" where
  "tracking_handle_new u now =
     \<lparr>thd_tracking_id = u, thd_started_at = now,
      thd_current_metrics = detail_from_quality (opt_tracking_quality_new (lit 50) (lit 15) (lit (95 / 100))),
      thd_is_active = True\<rparr>"

definition handle_update_metrics :: "opt_tracking_detail \<Rightarrow> tracking_handle \<Rightarrow> tracking_handle" where
  "handle_update_metrics m h = h\<lparr>thd_current_metrics := m\<rparr>"

definition handle_stop :: "tracking_handle \<Rightarrow> tracking_handle" where
  "handle_stop h = h\<lparr>thd_is_active := False\<rparr>"

section \<open>Lemmas\<close>

text \<open>What the coordinator relies on: after a synchronization that succeeds the clock is synchronized, with the accuracy of the reference.\<close>

locale optical_clock =
  fixes ck :: "'c opt_clock_calls"
  assumes sync_confidence: "occ_sync_to ck now r c = (Inr rep, c') \<Longrightarrow>
    occ_confidence ck c' = opt_confidence_new (accuracy_ns r) \<and> occ_is_synchronized ck c'"
begin

lemma acceptable_after_sync:
  assumes "occ_sync_to ck now r c = (Inr rep, c')"
  shows "is_acceptable_for_pat (occ_confidence ck c') \<longleftrightarrow> (\<forall>s. r \<noteq> NtpStratum1 s)"
  using sync_confidence [OF assms] by (cases r) (simp_all add: is_acceptable_for_pat_def opt_confidence_new_def)

end

interpretation opt_clock: optical_clock opt_default_calls
  by unfold_locales (auto simp: opt_default_calls_def opt_default_sync_to_def opt_default_is_synchronized_def Let_def)

section \<open>Properties\<close>

text \<open>A position of a raster panics exactly when less than one line fits into its height, or when the number of
  lines is not a number; every other position lies on the line that the step has modulo the number of lines.
\<close>

lemma raster_position_iff:
  "(raster_position step p = None \<longleftrightarrow> f64_to_u64 (fdiv (rsp_height_urad p) (rsp_line_spacing_urad p)) = 0) \<and>
   (raster_position step p = Some (x, y) \<longrightarrow>
      y = fsub (fmul (f64_of_nat (unat step mod raster_lines p)) (rsp_line_spacing_urad p)) (fdiv (rsp_height_urad p) (lit 2)))"
  by (auto simp: raster_position_def raster_lines_def Let_def)

text \<open>A quality that is healthy is not critical, but it may be degrading.\<close>

lemma healthy_not_critical:
  assumes "quality_is_healthy q"
  shows "\<not> quality_is_critical q"
proof -
  from assms have e: "flt (otq_pointing_error_urad q) (lit 100)" and s: "flt (lit 10) (otq_signal_to_noise_db q)"
    by (simp_all add: quality_is_healthy_def)
  have l: "lit 100 = Fin False 100" "lit 200 = Fin False 200" "lit 10 = Fin False 10" "lit 5 = Fin False 5"
    by (simp_all add: lit_numeral)
  have "\<not> flt (lit 200) (otq_pointing_error_urad q)"
    using e by (cases "otq_pointing_error_urad q") (auto simp: l split: if_splits)
  moreover have "\<not> flt (otq_signal_to_noise_db q) (lit 5)"
    using s by (cases "otq_signal_to_noise_db q") (auto simp: l split: if_splits)
  ultimately show ?thesis by (simp add: quality_is_critical_def)
qed

end
