(* ===== verification/Optical_Acquisition.thy ===== *)
theory Optical_Acquisition
  imports Optical_Search Optical_Oct Hardware_Shard Ordered_Map Binary_Heap
begin

text \<open>
  The acquisition of optical links: the coordinator (\<open>optical/src/pat/coordinator.rs\<close>) and the scheduler of
  acquisitions (\<open>optical/src/pat/scheduler.rs\<close>).

  The coordinator runs over any clock of the trait (\<open>opt_clock_calls\<close>); what it does after a synchronization
  rests on the interface \<open>optical_clock\<close>. Waiting for the start changes nothing and is left out: the clock is
  read at the end. The queue of the scheduler is a binary heap with the laws of \<open>heap_laws\<close>; the loop of
  \<open>cancel\<close> empties it and is a partial function. A task that is spawned and joined cannot panic, so joining
  gives its result.
\<close>

section \<open>Definitions\<close>

subsection \<open>Plans\<close>

datatype opt_pat_error =
    OptClockSyncFailed string
  | OptNotFound uuid
  | OptTerminalNotAvailable string
  | OptTimeout duration
  | OptAcquisitionFailed string

record acquisition_plan =
  acp_plan_id :: uuid
  acp_local_terminal :: string
  acp_peer_terminal :: string
  acp_peer_satellite :: string
  acp_target_t0 :: datetime
  acp_t0_tolerance :: duration
  acp_initial_pointing :: "edge_pointing \<times> edge_pointing"
  acp_expected_doppler :: "u64 \<times> u64"
  acp_search_pattern :: search_pattern
  acp_optical_config :: opt_configuration
  acp_timeout :: duration
  acp_fallback_actions :: "opt_fallback list"

definition acquisition_plan_new :: "uuid \<Rightarrow> string \<Rightarrow> string \<Rightarrow> string \<Rightarrow> datetime \<Rightarrow> edge_pointing \<times> edge_pointing \<Rightarrow>
    opt_configuration \<Rightarrow> acquisition_plan" where
  "acquisition_plan_new u l p s t0 ptg cfg =
     \<lparr>acp_plan_id = u, acp_local_terminal = l, acp_peer_terminal = p, acp_peer_satellite = s, acp_target_t0 = t0,
      acp_t0_tolerance = duration_milliseconds 100, acp_initial_pointing = ptg, acp_expected_doppler = (0, 0),
      acp_search_pattern = spiral_default, acp_optical_config = cfg, acp_timeout = duration_seconds 60,
      acp_fallback_actions = [FallbackWiderBeam]\<rparr>"

record opt_tracking_metrics =
  otm_pointing_error_urad :: f64
  otm_signal_to_noise_db :: f64
  otm_lock_confidence :: f64
  otm_data_rate_actual :: u64
  otm_bit_error_rate :: f64

definition opt_metrics_healthy :: "opt_tracking_metrics \<Rightarrow> bool" where
  "opt_metrics_healthy m \<longleftrightarrow>
     flt (otm_pointing_error_urad m) (lit 100) \<and> flt (lit 10) (otm_signal_to_noise_db m) \<and>
     flt (lit (9 / 10)) (otm_lock_confidence m)"

datatype opt_pat_phase =
    PhaseIdle
  | PhaseScheduled uuid datetime
  | PhaseCoarseAcquisition search_state
  | PhaseFineAcquisition f64
  | PhaseTracking opt_tracking_metrics
  | PhaseLost opt_loss_reason datetime

datatype acquisition_result =
    AcquisitionSuccess datetime opt_tracking_metrics
  | AcquisitionFailedAt opt_loss_reason opt_pat_phase
  | AcquisitionTimeout duration

subsection \<open>The coordinator\<close>

datatype opt_event_type =
    AcquisitionScheduled | AcquisitionStarted | BeaconDetected | LockAchieved | TrackingStarted | LinkLost | RecoveryInitiated

record opt_pat_event =
  ope_timestamp :: datetime
  ope_event_type :: opt_event_type
  ope_acquisition_id :: "uuid option"

record 'c opt_coordinator =
  oco_clock_source :: 'c
  oco_schedules :: "(datetime, acquisition_plan) btm"
  oco_current_phase :: opt_pat_phase
  oco_event_log :: "opt_pat_event list"
  oco_shard :: "u8 pass_shard"

definition opt_coordinator_new :: "datetime \<Rightarrow> 'c \<Rightarrow> 'c opt_coordinator" where
  "opt_coordinator_new now c =
     \<lparr>oco_clock_source = c, oco_schedules = [], oco_current_phase = PhaseIdle, oco_event_log = [],
      oco_shard = pass_shard_new now (PassId ''pat-coordinator'')\<rparr>"

definition opt_schedule :: "acquisition_plan \<Rightarrow> 'c opt_coordinator \<Rightarrow> (opt_pat_error + unit) \<times> 'c opt_coordinator" where
  "opt_schedule p s =
     (Inr (), s\<lparr>oco_schedules := btm_insert (acp_target_t0 p) p (oco_schedules s),
                oco_current_phase := PhaseScheduled (acp_plan_id p) (acp_target_t0 p)\<rparr>)"

definition find_plan :: "uuid \<Rightarrow> 'c opt_coordinator \<Rightarrow> opt_pat_error + acquisition_plan" where
  "find_plan i s =
     (case List.find (\<lambda>p. acp_plan_id p = i) (map snd (oco_schedules s)) of
        None \<Rightarrow> Inl (OptNotFound i)
      | Some p \<Rightarrow> Inr p)"

definition simulated_metrics :: "acquisition_plan \<Rightarrow> opt_tracking_metrics" where
  "simulated_metrics p =
     \<lparr>otm_pointing_error_urad = lit 50, otm_signal_to_noise_db = lit 15, otm_lock_confidence = lit (95 / 100),
      otm_data_rate_actual = ocf_target_data_rate (acp_optical_config p), otm_bit_error_rate = lit (1 / 10 ^ 9)\<rparr>"

definition not_acceptable :: "opt_confidence \<Rightarrow> opt_pat_error" where
  "not_acceptable c =
     OptClockSyncFailed (''Clock confidence '' @ show_nat (unat (ocn_uncertainty_ns c)) @ ''ns not acceptable for PAT'')"

text \<open>The phase of coarse acquisition lasts until the end of the simulated search.\<close>

definition execute_plan :: "'c opt_clock_calls \<Rightarrow> datetime \<Rightarrow> uuid \<Rightarrow> 'c opt_coordinator \<Rightarrow>
    (opt_pat_error + acquisition_result) \<times> 'c opt_coordinator" where
  "execute_plan ck done i s =
     (case find_plan i s of
        Inl e \<Rightarrow> (Inl e, s)
      | Inr p \<Rightarrow>
          (let conf = occ_confidence ck (oco_clock_source s) in
           if \<not> is_acceptable_for_pat conf then (Inl (not_acceptable conf), s)
           else
             (let s1 = s\<lparr>oco_current_phase := PhaseCoarseAcquisition (search_state_new (acp_search_pattern p))\<rparr>
              in (Inr (AcquisitionSuccess done (simulated_metrics p)),
                  s1\<lparr>oco_current_phase := PhaseTracking (simulated_metrics p)\<rparr>))))"

definition known_plans :: "uuid list \<Rightarrow> 'c opt_coordinator \<Rightarrow> acquisition_plan list" where
  "known_plans is s = concat (map (\<lambda>i. case find_plan i s of Inl e \<Rightarrow> [] | Inr p \<Rightarrow> [p]) is)"

text \<open>The end of each task is a reading of its own.\<close>

definition execute_concurrent :: "'c opt_clock_calls \<Rightarrow> (acquisition_plan \<Rightarrow> datetime) \<Rightarrow> uuid list \<Rightarrow> 'c opt_coordinator \<Rightarrow>
    (opt_pat_error + acquisition_result) list" where
  "execute_concurrent ck clock is s =
     map (\<lambda>p. let conf = occ_confidence ck (oco_clock_source s) in
            if \<not> is_acceptable_for_pat conf then Inl (not_acceptable conf)
            else Inr (AcquisitionSuccess (clock p) (simulated_metrics p)))
       (known_plans is s)"

definition opt_coordinator_confidence :: "'c opt_clock_calls \<Rightarrow> 'c opt_coordinator \<Rightarrow> opt_confidence" where
  "opt_coordinator_confidence ck s = occ_confidence ck (oco_clock_source s)"

definition opt_sync_clock :: "'c opt_clock_calls \<Rightarrow> datetime \<Rightarrow> opt_time_reference \<Rightarrow> 'c opt_coordinator \<Rightarrow>
    (opt_pat_error + unit) \<times> 'c opt_coordinator" where
  "opt_sync_clock ck now r s =
     (case occ_sync_to ck now r (oco_clock_source s) of
        (Inl e, c) \<Rightarrow> (Inl (OptClockSyncFailed (opt_clock_error_text e)), s\<lparr>oco_clock_source := c\<rparr>)
      | (Inr rep, c) \<Rightarrow> (Inr (), s\<lparr>oco_clock_source := c\<rparr>))"

definition allocate_acquisition_state :: "nat \<Rightarrow> 'c opt_coordinator \<Rightarrow> (opt_pat_error + bytes) \<times> 'c opt_coordinator" where
  "allocate_acquisition_state n s =
     (Inl (OptAcquisitionFailed ''Shard allocation not fully implemented''),
      s\<lparr>oco_shard := allocate_in_shard 0 (oco_shard s)\<rparr>)"

definition reset_coordinator_shard :: "'c opt_coordinator \<Rightarrow> 'c opt_coordinator" where
  "reset_coordinator_shard s = s\<lparr>oco_shard := shard_reset (oco_shard s)\<rparr>"

subsection \<open>The scheduler\<close>

record queue_entry =
  que_plan :: acquisition_plan
  que_priority :: u32
  que_queued_at :: datetime

text \<open>Entries are equal when their plans have the same identifier, but ordered by priority and time.\<close>

definition queue_entry_eq :: "queue_entry \<Rightarrow> queue_entry \<Rightarrow> bool" where
  "queue_entry_eq a b \<longleftrightarrow> acp_plan_id (que_plan a) = acp_plan_id (que_plan b)"

definition queue_entry_less :: "queue_entry \<Rightarrow> queue_entry \<Rightarrow> bool" where
  "queue_entry_less a b \<longleftrightarrow>
     (if que_priority a = que_priority b then que_queued_at a < que_queued_at b else que_priority a < que_priority b)"

abbreviation acquisition_heap :: "(queue_entry, 'h) heap_ops \<Rightarrow> bool" where
  "acquisition_heap ops \<equiv> heap_laws (\<lambda>_. True) queue_entry_less ops"

record 'h acquisition_scheduler =
  acs_queue :: 'h
  acs_scheduled :: "acquisition_plan list"
  acs_in_progress :: "uuid option"

definition acquisition_scheduler_new :: "(queue_entry, 'h) heap_ops \<Rightarrow> 'h acquisition_scheduler" where
  "acquisition_scheduler_new ops = \<lparr>acs_queue = heap_new ops, acs_scheduled = [], acs_in_progress = None\<rparr>"

definition queue_acquisition :: "(queue_entry, 'h) heap_ops \<Rightarrow> datetime \<Rightarrow> acquisition_plan \<Rightarrow> u32 \<Rightarrow>
    'h acquisition_scheduler \<Rightarrow> (opt_pat_error + unit) \<times> 'h acquisition_scheduler" where
  "queue_acquisition ops now p k s =
     (Inr (), s\<lparr>acs_queue := heap_push ops \<lparr>que_plan = p, que_priority = k, que_queued_at = now\<rparr> (acs_queue s)\<rparr>)"

definition schedule_next :: "(queue_entry, 'h) heap_ops \<Rightarrow> 'h acquisition_scheduler \<Rightarrow>
    acquisition_plan option \<times> 'h acquisition_scheduler" where
  "schedule_next ops s =
     (case heap_pop ops (acs_queue s) of
        None \<Rightarrow> (None, s)
      | Some (e, h) \<Rightarrow>
          (Some (que_plan e),
           s\<lparr>acs_queue := h, acs_in_progress := Some (acp_plan_id (que_plan e)),
             acs_scheduled := acs_scheduled s @ [que_plan e]\<rparr>))"

definition acquisition_complete :: "uuid \<Rightarrow> 'h acquisition_scheduler \<Rightarrow> 'h acquisition_scheduler" where
  "acquisition_complete i s = (if acs_in_progress s = Some i then s\<lparr>acs_in_progress := None\<rparr> else s)"

partial_function (option) drain_without :: "(queue_entry, 'h) heap_ops \<Rightarrow> uuid \<Rightarrow> 'h \<Rightarrow> 'h \<Rightarrow> bool \<Rightarrow> ('h \<times> bool) option" where
  "drain_without ops i h temp found =
     (case heap_pop ops h of
        None \<Rightarrow> Some (temp, found)
      | Some (e, h') \<Rightarrow>
          if acp_plan_id (que_plan e) = i then drain_without ops i h' temp True
          else drain_without ops i h' (heap_push ops e temp) found)"

definition cancel_queued :: "(queue_entry, 'h) heap_ops \<Rightarrow> uuid \<Rightarrow> 'h acquisition_scheduler \<Rightarrow>
    ((opt_pat_error + unit) \<times> 'h acquisition_scheduler) option" where
  "cancel_queued ops i s =
     map_option (\<lambda>(h, found). (if found then Inr () else Inl (OptNotFound i), s\<lparr>acs_queue := h\<rparr>))
       (drain_without ops i (acs_queue s) (heap_new ops) False)"

definition scheduler_queue_len :: "(queue_entry, 'h) heap_ops \<Rightarrow> 'h acquisition_scheduler \<Rightarrow> nat" where
  "scheduler_queue_len ops s = size (heap_items ops (acs_queue s))"

definition scheduled_len :: "'h acquisition_scheduler \<Rightarrow> nat" where
  "scheduled_len s = length (acs_scheduled s)"

definition scheduler_in_progress :: "'h acquisition_scheduler \<Rightarrow> bool" where
  "scheduler_in_progress s \<longleftrightarrow> acs_in_progress s \<noteq> None"

text \<open>The queue of acquisitions is the scheduler under other names.\<close>

record 'h acquisition_queue =
  acq_scheduler :: "'h acquisition_scheduler"

definition acquisition_queue_new :: "(queue_entry, 'h) heap_ops \<Rightarrow> 'h acquisition_queue" where
  "acquisition_queue_new ops = \<lparr>acq_scheduler = acquisition_scheduler_new ops\<rparr>"

definition acquisition_queue_add :: "(queue_entry, 'h) heap_ops \<Rightarrow> datetime \<Rightarrow> acquisition_plan \<Rightarrow> u32 \<Rightarrow> 'h acquisition_queue \<Rightarrow>
    (opt_pat_error + unit) \<times> 'h acquisition_queue" where
  "acquisition_queue_add ops now p k q =
     (let (r, s) = queue_acquisition ops now p k (acq_scheduler q) in (r, q\<lparr>acq_scheduler := s\<rparr>))"

definition acquisition_queue_next :: "(queue_entry, 'h) heap_ops \<Rightarrow> 'h acquisition_queue \<Rightarrow>
    acquisition_plan option \<times> 'h acquisition_queue" where
  "acquisition_queue_next ops q =
     (let (r, s) = schedule_next ops (acq_scheduler q) in (r, q\<lparr>acq_scheduler := s\<rparr>))"

definition acquisition_queue_complete :: "uuid \<Rightarrow> 'h acquisition_queue \<Rightarrow> 'h acquisition_queue" where
  "acquisition_queue_complete i q = q\<lparr>acq_scheduler := acquisition_complete i (acq_scheduler q)\<rparr>"

definition acquisition_queue_cancel :: "(queue_entry, 'h) heap_ops \<Rightarrow> uuid \<Rightarrow> 'h acquisition_queue \<Rightarrow>
    ((opt_pat_error + unit) \<times> 'h acquisition_queue) option" where
  "acquisition_queue_cancel ops i q =
     map_option (\<lambda>(r, s). (r, q\<lparr>acq_scheduler := s\<rparr>)) (cancel_queued ops i (acq_scheduler q))"

definition acquisition_queue_len :: "(queue_entry, 'h) heap_ops \<Rightarrow> 'h acquisition_queue \<Rightarrow> nat" where
  "acquisition_queue_len ops q = scheduler_queue_len ops (acq_scheduler q)"

definition acquisition_queue_is_empty :: "(queue_entry, 'h) heap_ops \<Rightarrow> 'h acquisition_queue \<Rightarrow> bool" where
  "acquisition_queue_is_empty ops q \<longleftrightarrow> scheduler_queue_len ops (acq_scheduler q) = 0"

subsection \<open>Runs\<close>

inductive opt_step :: "'c opt_clock_calls \<Rightarrow> 'c opt_coordinator \<Rightarrow> 'c opt_coordinator \<Rightarrow> bool" for ck :: "'c opt_clock_calls" where
  opt_step_schedule: "opt_step ck s (snd (opt_schedule p s))"
| opt_step_execute: "opt_step ck s (snd (execute_plan ck t i s))"
| opt_step_sync: "opt_step ck s (snd (opt_sync_clock ck t r s))"
| opt_step_allocate: "opt_step ck s (snd (allocate_acquisition_state n s))"
| opt_step_reset: "opt_step ck s (reset_coordinator_shard s)"

inductive_cases opt_stepE: "opt_step ck s s'"

section \<open>Lemmas\<close>

subsection \<open>The coordinator\<close>

fun phase_ok :: "opt_pat_phase \<Rightarrow> (datetime, acquisition_plan) btm \<Rightarrow> bool" where
  "phase_ok PhaseIdle m \<longleftrightarrow> m = []"
| "phase_ok (PhaseScheduled i t) m \<longleftrightarrow> (\<exists>p. (t, p) \<in> set m \<and> acp_plan_id p = i)"
| "phase_ok (PhaseTracking x) m \<longleftrightarrow> (\<exists>p \<in> snd ` set m. x = simulated_metrics p)"
| "phase_ok _ m \<longleftrightarrow> False"

definition opt_inv :: "'c opt_coordinator \<Rightarrow> bool" where
  "opt_inv s \<longleftrightarrow> btm_inv (oco_schedules s) \<and> (\<forall>(t, p) \<in> set (oco_schedules s). acp_target_t0 p = t) \<and>
     oco_event_log s = [] \<and> phase_ok (oco_current_phase s) (oco_schedules s)"

lemma find_plan_Inr: "find_plan i s = Inr p \<Longrightarrow> acp_plan_id p = i \<and> p \<in> snd ` set (oco_schedules s)"
  using find_SomeD [of "\<lambda>p. acp_plan_id p = i" "map snd (oco_schedules s)" p]
  by (auto simp: find_plan_def split: option.splits)

lemma find_plan_Inl: "find_plan i s = Inl e \<longleftrightarrow> e = OptNotFound i \<and> (\<forall>p \<in> snd ` set (oco_schedules s). acp_plan_id p \<noteq> i)"
proof (cases "List.find (\<lambda>p. acp_plan_id p = i) (map snd (oco_schedules s))")
  case None
  from find_None_iff_set [THEN iffD1, OF None] show ?thesis by (auto simp: find_plan_def None)
next
  case (Some p)
  with find_SomeD [OF this] show ?thesis by (force simp: find_plan_def)
qed

lemma btm_insert_mem: "(k, v) \<in> set (btm_insert k v m)"
  by (induction k v m rule: btm_insert.induct) auto

lemma opt_inv_schedule:
  assumes "opt_inv s" shows "opt_inv (snd (opt_schedule p s))"
proof -
  have "(acp_target_t0 p, p) \<in> set (btm_insert (acp_target_t0 p) p (oco_schedules s))"
    by (rule btm_insert_mem)
  moreover have "\<forall>(t, q) \<in> set (btm_insert (acp_target_t0 p) p (oco_schedules s)). acp_target_t0 q = t"
    using assms set_btm_insert_subset [of "acp_target_t0 p" p "oco_schedules s"] by (auto simp: opt_inv_def)
  ultimately show ?thesis
    using assms btm_inv_insert [of "oco_schedules s"] by (auto simp: opt_inv_def opt_schedule_def)
qed

lemma opt_inv_execute: "opt_inv s \<Longrightarrow> opt_inv (snd (execute_plan ck t i s))"
  by (auto simp: opt_inv_def execute_plan_def Let_def split: sum.splits dest!: find_plan_Inr)

lemma opt_inv_other:
  assumes "opt_inv s"
  shows "opt_inv (snd (opt_sync_clock ck t r s))" "opt_inv (snd (allocate_acquisition_state n s))"
    "opt_inv (reset_coordinator_shard s)"
  using assms
  by (auto simp: opt_inv_def opt_sync_clock_def allocate_acquisition_state_def reset_coordinator_shard_def
      split: prod.splits sum.splits)

interpretation opt_runs: invariant_system "\<lambda>s. \<exists>now c. s = opt_coordinator_new now c" "opt_step ck" opt_inv
  for ck :: "'c opt_clock_calls"
proof unfold_locales
  fix s :: "'c opt_coordinator" assume "\<exists>now c. s = opt_coordinator_new now c"
  then show "opt_inv s" by (auto simp: opt_inv_def opt_coordinator_new_def)
next
  fix s t :: "'c opt_coordinator" assume "opt_inv s" "opt_step ck s t"
  then show "opt_inv t" by (auto elim!: opt_stepE intro: opt_inv_schedule opt_inv_execute opt_inv_other)
qed

context optical_clock
begin

lemma execute_after_sync:
  assumes "opt_sync_clock ck now r s = (Inr (), s')"
  shows "fst (execute_plan ck t i s') =
    (case find_plan i s of
       Inl e \<Rightarrow> Inl e
     | Inr p \<Rightarrow> if \<exists>srv. r = NtpStratum1 srv then Inl (not_acceptable (opt_confidence_new 1000))
               else Inr (AcquisitionSuccess t (simulated_metrics p)))"
proof -
  obtain rep where rep: "occ_sync_to ck now r (oco_clock_source s) = (Inr rep, oco_clock_source s')"
    and "oco_schedules s' = oco_schedules s"
    using assms by (auto simp: opt_sync_clock_def split: prod.splits sum.splits)
  then have "find_plan i s' = find_plan i s" by (simp add: find_plan_def)
  moreover have "occ_confidence ck (oco_clock_source s') = opt_confidence_new (accuracy_ns r)"
    using sync_confidence [OF rep] by simp
  ultimately show ?thesis
    using acceptable_after_sync [OF rep] by (cases r) (auto simp: execute_plan_def Let_def split: sum.splits)
qed

end

subsection \<open>The scheduler\<close>

lemma queue_entry_order:
  "queue_entry_less a b \<Longrightarrow> \<not> queue_entry_less b a"
  "\<not> queue_entry_less a b \<Longrightarrow> \<not> queue_entry_less b c \<Longrightarrow> \<not> queue_entry_less a c"
  by (auto simp: queue_entry_less_def split: if_splits)

lemma queue_entry_not_less:
  "\<not> queue_entry_less a b \<longleftrightarrow>
     que_priority b \<le> que_priority a \<and> (que_priority b = que_priority a \<longrightarrow> que_queued_at b \<le> que_queued_at a)"
  by (cases "que_priority a = que_priority b") (simp_all add: queue_entry_less_def not_less)

lemma plain_acquisition_heap: "acquisition_heap (plain_heap queue_entry_less)"
  by (intro plain_heap_laws) (auto dest: queue_entry_order)

lemma drain_without_result:
  assumes "acquisition_heap ops"
  shows "\<exists>h'. drain_without ops i h temp found = Some (h', found \<or> (\<exists>e \<in># heap_items ops h. acp_plan_id (que_plan e) = i)) \<and>
    heap_items ops h' = heap_items ops temp + filter_mset (\<lambda>e. acp_plan_id (que_plan e) \<noteq> i) (heap_items ops h)"
proof (induction "size (heap_items ops h)" arbitrary: h temp found rule: less_induct)
  case less
  show ?case
  proof (cases "heap_pop ops h")
    case None
    with assms have "heap_items ops h = {#}" by (simp add: heap_laws_def)
    with None show ?thesis by (simp add: drain_without.simps [of ops i h])
  next
    case (Some r)
    obtain e k where r: "heap_pop ops h = Some (e, k)" using Some by (cases r) simp
    note hp = heap_pop_size [OF assms r]
    have push: "heap_items ops (heap_push ops e temp) = add_mset e (heap_items ops temp)"
      using assms by (simp add: heap_laws_def)
    show ?thesis
    proof (cases "acp_plan_id (que_plan e) = i")
      case True
      then show ?thesis using less [OF hp(2), of temp True] r hp(1) by (auto simp: drain_without.simps [of ops i h])
    next
      case False
      then show ?thesis using less [OF hp(2), of "heap_push ops e temp" found] r hp(1) push
        by (auto simp: drain_without.simps [of ops i h])
    qed
  qed
qed

section \<open>Properties\<close>

text \<open>In every reachable state of the coordinator each plan is filed under its start, at most one per instant. The
  phase is idle only before the first plan; otherwise it names a plan that is in the schedule, or the link is
  tracked with healthy metrics. A link is never lost and nothing is ever written to the event log.
\<close>

lemma coordinator_phases:
  assumes "reach (\<lambda>s. \<exists>now c. s = opt_coordinator_new now c) (opt_step ck) s"
  shows "distinct (map fst (oco_schedules s)) \<and> (\<forall>(t, p) \<in> set (oco_schedules s). acp_target_t0 p = t) \<and>
    oco_event_log s = [] \<and>
    (oco_current_phase s = PhaseIdle \<and> oco_schedules s = [] \<or>
     (\<exists>(t, p) \<in> set (oco_schedules s). oco_current_phase s = PhaseScheduled (acp_plan_id p) t) \<or>
     (\<exists>p \<in> snd ` set (oco_schedules s). oco_current_phase s = PhaseTracking (simulated_metrics p)))"
proof -
  have "opt_inv s" by (rule opt_runs.reach_inv [OF assms])
  then show ?thesis
    by (cases "oco_current_phase s") (fastforce simp: opt_inv_def btm_inv_distinct)+
qed

text \<open>After a synchronization that succeeds, a plan that is scheduled can be executed exactly when the reference is
  not a network time server; its start may be long past. Executing it does not take it off the schedule, so it
  succeeds again at any later time.
\<close>

lemma execute_after_default_sync:
  assumes "opt_sync_clock opt_default_calls now r s = (Inr (), s')" "find_plan i s = Inr p"
  shows "((\<exists>x. fst (execute_plan opt_default_calls t i s') = Inr x) \<longleftrightarrow> (\<forall>srv. r \<noteq> NtpStratum1 srv)) \<and>
    (\<forall>x s''. execute_plan opt_default_calls t i s' = (Inr x, s'') \<longrightarrow>
       (\<forall>t'. fst (execute_plan opt_default_calls t' i s'') = Inr (AcquisitionSuccess t' (simulated_metrics p))))"
proof -
  have fp: "find_plan i s' = Inr p"
    using assms by (auto simp: opt_sync_clock_def find_plan_def split: prod.splits sum.splits)
  have "fst (execute_plan opt_default_calls t i s') =
      (if \<exists>srv. r = NtpStratum1 srv then Inl (not_acceptable (opt_confidence_new 1000))
       else Inr (AcquisitionSuccess t (simulated_metrics p)))"
    using opt_clock.execute_after_sync [OF assms(1), of t i] assms(2) by simp
  moreover have "fst (execute_plan opt_default_calls t' i s'') = Inr (AcquisitionSuccess t' (simulated_metrics p))"
    if "execute_plan opt_default_calls t i s' = (Inr x, s'')" for x s'' t'
  proof -
    from that fp have ok: "is_acceptable_for_pat (occ_confidence opt_default_calls (oco_clock_source s'))"
      and "s'' = s'\<lparr>oco_current_phase := PhaseTracking (simulated_metrics p)\<rparr>"
      by (simp_all add: execute_plan_def Let_def split: if_splits)
    then have "find_plan i s'' = Inr p" "oco_clock_source s'' = oco_clock_source s'"
      using fp by (simp_all add: find_plan_def)
    with ok show ?thesis by (simp add: execute_plan_def)
  qed
  ultimately show ?thesis by auto
qed

text \<open>C37: The scheduler takes the entry with the greatest priority number, and of those the one that was queued last:
  the least urgent entry first, the opposite of what its comment says.
\<close>

lemma schedule_next_least_urgent:
  assumes "acquisition_heap ops" "schedule_next ops s = (Some p, s')"
  shows "\<exists>e. heap_items ops (acs_queue s) = add_mset e (heap_items ops (acs_queue s')) \<and> que_plan e = p \<and>
    acs_in_progress s' = Some (acp_plan_id p) \<and>
    (\<forall>x \<in># heap_items ops (acs_queue s). que_priority x \<le> que_priority e \<and>
       (que_priority x = que_priority e \<longrightarrow> que_queued_at x \<le> que_queued_at e))"
proof -
  obtain e where e: "heap_pop ops (acs_queue s) = Some (e, acs_queue s')" "que_plan e = p"
    "acs_in_progress s' = Some (acp_plan_id p)"
    using assms(2) by (auto simp: schedule_next_def split: option.splits)
  have "\<forall>x \<in># heap_items ops (acs_queue s). \<not> queue_entry_less e x"
    using assms(1) e(1) by (auto simp: heap_laws_def)
  then have "\<forall>x \<in># heap_items ops (acs_queue s). que_priority x \<le> que_priority e \<and>
       (que_priority x = que_priority e \<longrightarrow> que_queued_at x \<le> que_queued_at e)"
    by (simp only: queue_entry_not_less)
  with e heap_pop_size(1) [OF assms(1) e(1)] show ?thesis by blast
qed

text \<open>Cancelling always returns. It takes exactly the entries of the plan out of the queue and succeeds exactly when
  there is one; an acquisition that is in progress is not stopped.
\<close>

lemma cancel_queued_result:
  assumes "acquisition_heap ops"
  shows "\<exists>s'. cancel_queued ops i s =
      Some (if \<exists>e \<in># heap_items ops (acs_queue s). acp_plan_id (que_plan e) = i then Inr () else Inl (OptNotFound i), s') \<and>
    heap_items ops (acs_queue s') = filter_mset (\<lambda>e. acp_plan_id (que_plan e) \<noteq> i) (heap_items ops (acs_queue s)) \<and>
    acs_in_progress s' = acs_in_progress s \<and> acs_scheduled s' = acs_scheduled s"
proof -
  obtain h' where "drain_without ops i (acs_queue s) (heap_new ops) False =
      Some (h', \<exists>e \<in># heap_items ops (acs_queue s). acp_plan_id (que_plan e) = i)"
    "heap_items ops h' = heap_items ops (heap_new ops) + filter_mset (\<lambda>e. acp_plan_id (que_plan e) \<noteq> i) (heap_items ops (acs_queue s))"
    using drain_without_result [OF assms, of i "acs_queue s" "heap_new ops" False] by auto
  moreover have "heap_items ops (heap_new ops) = {#}" using assms by (simp add: heap_laws_def)
  ultimately show ?thesis by (intro exI [of _ "s\<lparr>acs_queue := h'\<rparr>"]) (simp add: cancel_queued_def)
qed

text \<open>Plans that are executed concurrently give one result for each identifier that is known, in order; unknown ones
  are dropped without an error, and the phase of the coordinator stays as it is.
\<close>

lemma concurrent_drops_unknown:
  "length (execute_concurrent ck clock is s) =
     length (filter (\<lambda>i. \<exists>p \<in> snd ` set (oco_schedules s). acp_plan_id p = i) is)"
proof -
  have "length (known_plans is s) = length (filter (\<lambda>i. \<exists>p \<in> snd ` set (oco_schedules s). acp_plan_id p = i) is)"
  proof (induction "is")
    case (Cons i js)
    show ?case
    proof (cases "find_plan i s")
      case (Inl e)
      then have "\<not> (\<exists>p \<in> snd ` set (oco_schedules s). acp_plan_id p = i)" by (simp add: find_plan_Inl)
      with Cons Inl show ?thesis by (simp add: known_plans_def)
    next
      case (Inr p)
      then have "\<exists>p \<in> snd ` set (oco_schedules s). acp_plan_id p = i" using find_plan_Inr by blast
      with Cons Inr show ?thesis by (simp add: known_plans_def)
    qed
  qed (simp add: known_plans_def)
  then show ?thesis by (simp add: execute_concurrent_def)
qed

section \<open>Witnesses\<close>

definition plain_plan :: "uuid \<Rightarrow> datetime \<Rightarrow> acquisition_plan" where
  "plain_plan u t = acquisition_plan_new u ''a'' ''b'' ''s'' t
     (\<lparr>epo_azimuth_rad = lit 0, epo_elevation_rad = lit 0, epo_range_km = lit 1\<rparr>,
      \<lparr>epo_azimuth_rad = lit 0, epo_elevation_rad = lit 0, epo_range_km = lit 1\<rparr>) config_default_s2s"

text \<open>A plan of priority one is queued, and then one of priority two.\<close>

definition two_queued :: "queue_entry list acquisition_scheduler" where
  "two_queued = snd (queue_acquisition (plain_heap queue_entry_less) 5 (plain_plan 8 200) 2
     (snd (queue_acquisition (plain_heap queue_entry_less) 3 (plain_plan 7 100) 1
        (acquisition_scheduler_new (plain_heap queue_entry_less)))))"

lemma two_queued_next:
  "schedule_next (plain_heap queue_entry_less) two_queued =
     (Some (plain_plan 8 200),
      two_queued\<lparr>acs_queue := [\<lparr>que_plan = plain_plan 7 100, que_priority = 1, que_queued_at = 3\<rparr>],
                 acs_scheduled := [plain_plan 8 200], acs_in_progress := Some 8\<rparr>)"
  by (simp add: two_queued_def queue_acquisition_def acquisition_scheduler_new_def plain_heap_def schedule_next_def
      queue_entry_less_def plain_plan_def acquisition_plan_new_def)

lemma schedule_next_least_urgent_witness:
  "\<exists>e :: queue_entry. que_plan e = plain_plan 8 200 \<and>
     (\<forall>x \<in># heap_items (plain_heap queue_entry_less) (acs_queue two_queued). que_priority x \<le> que_priority e)"
  using schedule_next_least_urgent [OF plain_acquisition_heap two_queued_next] by blast

text \<open>One plan is scheduled, and the clock is synchronized to a receiver.\<close>

definition one_scheduled :: "opt_default_clock opt_coordinator" where
  "one_scheduled = snd (opt_schedule (plain_plan 7 100) (opt_coordinator_new 0 opt_default_clock_new))"

lemma execute_after_default_sync_witness:
  "\<exists>x. fst (execute_plan opt_default_calls 500 7 (snd (opt_sync_clock opt_default_calls 4 (GpsReceiver ''g'') one_scheduled))) = Inr x"
proof -
  let ?s = "snd (opt_sync_clock opt_default_calls 4 (GpsReceiver ''g'') one_scheduled)"
  have "opt_sync_clock opt_default_calls 4 (GpsReceiver ''g'') one_scheduled = (Inr (), ?s)"
    by (simp add: opt_sync_clock_def opt_default_calls_def opt_default_sync_to_def Let_def)
  moreover have "find_plan 7 one_scheduled = Inr (plain_plan 7 100)"
    by (simp add: find_plan_def one_scheduled_def opt_schedule_def opt_coordinator_new_def plain_plan_def acquisition_plan_new_def)
  ultimately show ?thesis
    using execute_after_default_sync [of 4 "GpsReceiver ''g''" one_scheduled ?s 7 "plain_plan 7 100" 500] by simp
qed

lemma coordinator_phases_witness:
  "(\<exists>(t, p) \<in> set (oco_schedules one_scheduled). oco_current_phase one_scheduled = PhaseScheduled (acp_plan_id p) t)"
proof -
  have "reach (\<lambda>s. \<exists>now c. s = opt_coordinator_new now c) (opt_step opt_default_calls) one_scheduled"
    unfolding one_scheduled_def by (blast intro: reach.intros opt_step_schedule)
  moreover have "oco_current_phase one_scheduled = PhaseScheduled 7 100"
    by (simp add: one_scheduled_def opt_schedule_def plain_plan_def acquisition_plan_new_def)
  ultimately show ?thesis using coordinator_phases [of opt_default_calls one_scheduled] by auto
qed

end
