(* ===== verification/Optical_Terminals.thy ===== *)
theory Optical_Terminals
  imports Optical_Search Batching
begin

text \<open>
  Optical terminals: what they can do (\<open>optical/src/terminal/capability.rs\<close>), their safe mode and recovery
  procedures (\<open>safe_mode.rs\<close>), their telemetry (\<open>telemetry.rs\<close>) and the data of the terminal trait
  (\<open>trait_def.rs\<close>).

  The telemetry batcher is a further instance of the interface \<open>batcher\<close> of the batching crate: it loses,
  repeats and reorders nothing.
\<close>

section \<open>Definitions\<close>

subsection \<open>Capabilities\<close>

datatype terminal_vendor = Mynaric | Tesat | Skyloom | Caci

fun vendor_as_str :: "terminal_vendor \<Rightarrow> string" where
  "vendor_as_str Mynaric = ''Mynaric''"
| "vendor_as_str Tesat = ''Tesat''"
| "vendor_as_str Skyloom = ''Skyloom''"
| "vendor_as_str Caci = ''CACI''"

record field_of_regard =
  for_azimuth_deg :: f64
  for_elevation_deg :: f64

definition field_of_regard_new :: "f64 \<Rightarrow> f64 \<Rightarrow> field_of_regard" where
  "field_of_regard_new a e = \<lparr>for_azimuth_deg = a, for_elevation_deg = e\<rparr>"

definition total_solid_angle_sr :: "field_of_regard \<Rightarrow> f64" where
  "total_solid_angle_sr f = fmul (to_radians (for_azimuth_deg f)) (to_radians (for_elevation_deg f))"

record power_profile =
  ppf_operating_watts :: f64
  ppf_standby_watts :: f64

definition power_profile_new :: "f64 \<Rightarrow> f64 \<Rightarrow> power_profile" where
  "power_profile_new w s = \<lparr>ppf_operating_watts = w, ppf_standby_watts = s\<rparr>"

record opt_capability =
  ocp_vendor :: terminal_vendor
  ocp_model :: string
  ocp_max_data_rate_bps :: u64
  ocp_min_elevation_deg :: f64
  ocp_field_of_regard :: field_of_regard
  ocp_power_profile :: power_profile
  ocp_supported_standards :: "string list"
  ocp_max_range_km :: f64

definition condor_mk3 :: opt_capability where
  "condor_mk3 =
     \<lparr>ocp_vendor = Mynaric, ocp_model = ''CONDOR Mk3'', ocp_max_data_rate_bps = 10000000000,
      ocp_min_elevation_deg = lit 5, ocp_field_of_regard = field_of_regard_new (lit 120) (lit 120),
      ocp_power_profile = power_profile_new (lit 150) (lit 30), ocp_supported_standards = [''OCT 4.0.0''],
      ocp_max_range_km = lit 5000\<rparr>"

definition scot80 :: opt_capability where
  "scot80 =
     \<lparr>ocp_vendor = Tesat, ocp_model = ''SCOT80'', ocp_max_data_rate_bps = 5000000000,
      ocp_min_elevation_deg = lit 10, ocp_field_of_regard = field_of_regard_new (lit 90) (lit 90),
      ocp_power_profile = power_profile_new (lit 120) (lit 25), ocp_supported_standards = [''OCT 3.2.0''],
      ocp_max_range_km = lit 3000\<rparr>"

definition scot135 :: opt_capability where
  "scot135 =
     \<lparr>ocp_vendor = Tesat, ocp_model = ''SCOT135'', ocp_max_data_rate_bps = 10000000000,
      ocp_min_elevation_deg = lit 5, ocp_field_of_regard = field_of_regard_new (lit 110) (lit 110),
      ocp_power_profile = power_profile_new (lit 180) (lit 35), ocp_supported_standards = [''OCT 4.0.0''],
      ocp_max_range_km = lit 5000\<rparr>"

subsection \<open>Safe mode\<close>

datatype safe_mode_state =
    SafeModeNormal
  | EnteringSafeMode
  | InSafeMode string datetime
  | SafeModeRecovering
  | SafeModeFailed

datatype recovery_action = PowerCycle | ResetFirmware | Recalibrate | RestoreDefaults | Diagnostics

record recovery_step =
  rst_step_id :: string
  rst_description :: string
  rst_action :: recovery_action
  rst_timeout_ms :: u64

record recovery_procedure =
  rpr_procedure_id :: string
  rpr_steps :: "recovery_step list"
  rpr_current_step :: nat
  rpr_started_at :: "datetime option"
  rpr_completed_at :: "datetime option"
  rpr_success :: bool

definition recovery_procedure_new :: "string \<Rightarrow> recovery_step list \<Rightarrow> recovery_procedure" where
  "recovery_procedure_new i xs =
     \<lparr>rpr_procedure_id = i, rpr_steps = xs, rpr_current_step = 0, rpr_started_at = None, rpr_completed_at = None,
      rpr_success = False\<rparr>"

definition procedure_start :: "datetime \<Rightarrow> recovery_procedure \<Rightarrow> recovery_procedure" where
  "procedure_start now p = p\<lparr>rpr_started_at := Some now, rpr_current_step := 0\<rparr>"

definition procedure_next_step :: "recovery_procedure \<Rightarrow> recovery_step option \<times> recovery_procedure" where
  "procedure_next_step p =
     (if rpr_current_step p < length (rpr_steps p)
      then (Some (rpr_steps p ! rpr_current_step p), p\<lparr>rpr_current_step := rpr_current_step p + 1\<rparr>)
      else (None, p))"

definition procedure_complete :: "datetime \<Rightarrow> bool \<Rightarrow> recovery_procedure \<Rightarrow> recovery_procedure" where
  "procedure_complete now ok p = p\<lparr>rpr_completed_at := Some now, rpr_success := ok\<rparr>"

definition procedure_is_complete :: "recovery_procedure \<Rightarrow> bool" where
  "procedure_is_complete p \<longleftrightarrow> rpr_completed_at p \<noteq> None"

definition procedure_progress :: "recovery_procedure \<Rightarrow> f64" where
  "procedure_progress p =
     (if rpr_steps p = [] then lit 1
      else fdiv (f64_of_nat (rpr_current_step p)) (f64_of_nat (length (rpr_steps p))))"

subsection \<open>Telemetry\<close>

datatype telemetry_type = TelemetryTracking | TelemetryHealth | TelemetryPower | TelemetryThermal | TelemetryError

record telemetry_frame =
  tfr_timestamp :: datetime
  tfr_frame_type :: telemetry_type
  tfr_payload :: bytes

record telemetry_batch =
  tba_batch_id :: string
  tba_frames :: "telemetry_frame list"
  tba_created_at :: datetime

record telemetry_batcher =
  tbr_pending :: "telemetry_frame list"
  tbr_batch_size :: nat

definition telemetry_batcher_new :: "nat \<Rightarrow> telemetry_batcher" where
  "telemetry_batcher_new n = \<lparr>tbr_pending = [], tbr_batch_size = n\<rparr>"

definition add_frame :: "telemetry_frame \<Rightarrow> telemetry_batcher \<Rightarrow> telemetry_batcher" where
  "add_frame f b = b\<lparr>tbr_pending := tbr_pending b @ [f]\<rparr>"

definition telemetry_is_ready :: "telemetry_batcher \<Rightarrow> bool" where
  "telemetry_is_ready b \<longleftrightarrow> tbr_batch_size b \<le> length (tbr_pending b)"

definition telemetry_flush :: "uuid \<Rightarrow> datetime \<Rightarrow> telemetry_batcher \<Rightarrow> telemetry_batch option \<times> telemetry_batcher" where
  "telemetry_flush u now b =
     (if tbr_pending b = [] then (None, b)
      else (Some \<lparr>tba_batch_id = show_uuid u, tba_frames = tbr_pending b, tba_created_at = now\<rparr>, b\<lparr>tbr_pending := []\<rparr>))"

definition telemetry_force_flush :: "uuid \<Rightarrow> datetime \<Rightarrow> telemetry_batcher \<Rightarrow> telemetry_batch option \<times> telemetry_batcher" where
  "telemetry_force_flush u now b = telemetry_flush u now b"

datatype opt_health_status = HealthHealthy | HealthDegraded | HealthCritical | HealthFailed

record component_health =
  cph_component :: string
  cph_status :: opt_health_status
  cph_value :: "f64 option"
  cph_unit :: "string option"

definition component_health_new :: "string \<Rightarrow> opt_health_status \<Rightarrow> component_health" where
  "component_health_new c s = \<lparr>cph_component = c, cph_status = s, cph_value = None, cph_unit = None\<rparr>"

definition component_health_with_value :: "string \<Rightarrow> opt_health_status \<Rightarrow> f64 \<Rightarrow> string \<Rightarrow> component_health" where
  "component_health_with_value c s v u = \<lparr>cph_component = c, cph_status = s, cph_value = Some v, cph_unit = Some u\<rparr>"

record health_report =
  hrp_overall_health :: opt_health_status
  hrp_components :: "component_health list"
  hrp_warnings :: "string list"
  hrp_errors :: "string list"
  hrp_reported_at :: datetime

definition health_report_healthy :: "datetime \<Rightarrow> health_report" where
  "health_report_healthy now =
     \<lparr>hrp_overall_health = HealthHealthy, hrp_components = [], hrp_warnings = [], hrp_errors = [], hrp_reported_at = now\<rparr>"

definition report_is_healthy :: "health_report \<Rightarrow> bool" where
  "report_is_healthy r \<longleftrightarrow> hrp_overall_health r = HealthHealthy \<and> hrp_errors r = []"

datatype reset_level = ResetSoft | ResetHard | ResetFactory

subsection \<open>The terminal trait\<close>

datatype terminal_error =
    TerminalCommunication string
  | TerminalConfiguration string
  | TerminalCalibration string
  | TerminalAcquisition string
  | TerminalHardware string
  | TerminalNotReady string
  | TerminalTimeout string

fun terminal_error_text :: "terminal_error \<Rightarrow> string" where
  "terminal_error_text (TerminalCommunication m) = ''Communication error: '' @ m"
| "terminal_error_text (TerminalConfiguration m) = ''Configuration error: '' @ m"
| "terminal_error_text (TerminalCalibration m) = ''Calibration error: '' @ m"
| "terminal_error_text (TerminalAcquisition m) = ''Acquisition error: '' @ m"
| "terminal_error_text (TerminalHardware m) = ''Hardware error: '' @ m"
| "terminal_error_text (TerminalNotReady m) = ''Not ready: '' @ m"
| "terminal_error_text (TerminalTimeout m) = ''Timeout: '' @ m"

record opt_terminal_status =
  ots_operational :: bool
  ots_current_phase :: string
  ots_current_link :: "string option"
  ots_temperature_c :: f64
  ots_power_watts :: f64
  ots_last_updated :: datetime

record calibration_report =
  cbr_calibrated_at :: datetime
  cbr_pointing_offset_urad :: "f64 \<times> f64"
  cbr_power_calibration_db :: f64
  cbr_success :: bool

record ethernet_endpoint =
  een_ip_address :: string
  een_port :: "16 word"
  een_mtu :: "16 word"

section \<open>Lemmas\<close>

interpretation telemetry_batches: batcher add_frame telemetry_flush tbr_pending tba_frames
  by unfold_locales (auto simp: add_frame_def telemetry_flush_def split: if_splits)

text \<open>The steps of a procedure, taken until there is none.\<close>

fun procedure_run :: "nat \<Rightarrow> recovery_procedure \<Rightarrow> recovery_step list \<times> recovery_procedure" where
  "procedure_run 0 p = ([], p)"
| "procedure_run (Suc n) p =
     (case procedure_next_step p of
        (None, q) \<Rightarrow> ([], q)
      | (Some x, q) \<Rightarrow> let (xs, r) = procedure_run n q in (x # xs, r))"

lemma procedure_run_result:
  assumes "rpr_current_step p \<le> length (rpr_steps p)"
  shows "procedure_run n p =
    (take n (drop (rpr_current_step p) (rpr_steps p)),
     p\<lparr>rpr_current_step := min (length (rpr_steps p)) (rpr_current_step p + n)\<rparr>)"
  using assms
proof (induction n arbitrary: p)
  case (Suc n)
  show ?case
  proof (cases "rpr_current_step p < length (rpr_steps p)")
    case True
    let ?q = "p\<lparr>rpr_current_step := rpr_current_step p + 1\<rparr>"
    have "procedure_run n ?q = (take n (drop (rpr_current_step ?q) (rpr_steps ?q)),
        ?q\<lparr>rpr_current_step := min (length (rpr_steps ?q)) (rpr_current_step ?q + n)\<rparr>)"
      using True by (intro Suc.IH) simp
    with True show ?thesis by (simp add: procedure_next_step_def Cons_nth_drop_Suc [symmetric])
  next
    case False
    with Suc.prems have "rpr_current_step p = length (rpr_steps p)" by simp
    then show ?thesis by (simp add: procedure_next_step_def)
  qed
qed simp

section \<open>Properties\<close>

text \<open>Whatever frames are added and batches flushed, the frames of the batches, in order, and then the pending ones
  are the frames that were added: telemetry is neither lost, nor repeated, nor reordered.
\<close>

lemma telemetry_conserved:
  assumes "batch_run add_frame telemetry_flush cs (telemetry_batcher_new n) = (bs, b)"
  shows "concat (map tba_frames bs) @ tbr_pending b = added_items cs"
  using telemetry_batches.run_conserves [OF assms] by (simp add: telemetry_batcher_new_def)

text \<open>A procedure that is started gives its steps in order, each once, and then none. It can be marked complete at any
  time, also when no step was taken; its progress does not change by that.
\<close>

lemma procedure_steps_in_order:
  "fst (procedure_run n (procedure_start now p)) = take n (rpr_steps p) \<and>
   rpr_current_step (snd (procedure_run n (procedure_start now p))) = min n (length (rpr_steps p)) \<and>
   procedure_is_complete (procedure_complete now ok p) \<and>
   procedure_progress (procedure_complete now ok p) = procedure_progress p"
  using procedure_run_result [of "procedure_start now p" n]
  by (simp add: procedure_start_def procedure_complete_def procedure_is_complete_def procedure_progress_def min.commute)

end
