(* ===== verification/Optical_Attestation.thy ===== *)
theory Optical_Attestation
  imports Optical_Acquisition Bitemporal_Log
begin

text \<open>
  Attestations of optical links (\<open>optical/src/attestation/link_proof.rs\<close>) and of acquisitions
  (\<open>pat_proof.rs\<close>), and the certificates of the control plane (\<open>identity.rs\<close>).

  Ed25519, SHA-256, the hexadecimal codec and the text of a date are parameters (\<open>key_lib\<close>);
  \<open>key_lib_correct\<close> is what they document. Strings stand for their bytes. \<open>from_keypair_bytes\<close> takes 64 bytes
  only when the second half is the public key of the first; the code gives it 64 random bytes and unwraps the
  result, which panics otherwise: \<open>None\<close>. The random bytes, identifiers and clock readings are arguments.
\<close>

section \<open>Definitions\<close>

subsection \<open>The library\<close>

record ('sk, 'vk, 'sig) key_lib =
  kyl_from_keypair_bytes :: "bytes \<Rightarrow> 'sk option"
  kyl_sk_bytes :: "'sk \<Rightarrow> bytes"
  kyl_sk_from_bytes :: "bytes \<Rightarrow> 'sk"
  kyl_vk :: "'sk \<Rightarrow> 'vk"
  kyl_vk_bytes :: "'vk \<Rightarrow> bytes"
  kyl_vk_from_bytes :: "bytes \<Rightarrow> string + 'vk"
  kyl_sign :: "'sk \<Rightarrow> bytes \<Rightarrow> 'sig"
  kyl_sig_bytes :: "'sig \<Rightarrow> bytes"
  kyl_sig_from_bytes :: "bytes \<Rightarrow> 'sig option"
  kyl_verify :: "'vk \<Rightarrow> bytes \<Rightarrow> 'sig \<Rightarrow> bool"
  kyl_hex_encode :: "bytes \<Rightarrow> string"
  kyl_hex_decode :: "string \<Rightarrow> bytes option"
  kyl_sha256 :: "bytes \<Rightarrow> bytes"
  kyl_rfc3339 :: "datetime \<Rightarrow> string"

definition key_lib_correct :: "('sk, 'vk, 'sig) key_lib \<Rightarrow> bool" where
  "key_lib_correct lib \<longleftrightarrow>
     (\<forall>b sk. kyl_from_keypair_bytes lib b = Some sk \<longrightarrow>
        length b = 64 \<and> kyl_sk_bytes lib sk = take 32 b \<and> kyl_vk_bytes lib (kyl_vk lib sk) = drop 32 b) \<and>
     (\<forall>sk. length (kyl_sk_bytes lib sk) = 32 \<and> kyl_sk_from_bytes lib (kyl_sk_bytes lib sk) = sk) \<and>
     (\<forall>v. length (kyl_vk_bytes lib v) = 32 \<and> kyl_vk_from_bytes lib (kyl_vk_bytes lib v) = Inr v) \<and>
     (\<forall>s. kyl_sig_from_bytes lib (kyl_sig_bytes lib s) = Some s) \<and>
     (\<forall>b. kyl_hex_decode lib (kyl_hex_encode lib b) = Some b) \<and>
     (\<forall>sk m. kyl_verify lib (kyl_vk lib sk) m (kyl_sign lib sk m))"

definition text_bytes :: "string \<Rightarrow> bytes" where
  "text_bytes s = map (\<lambda>c. of_nat (of_char c)) s"

definition uuid_bytes :: "uuid \<Rightarrow> bytes" where
  "uuid_bytes u = map (\<lambda>i. ucast (drop_bit (8 * (15 - i)) u)) [0..<16]"

text \<open>The check that both attestations make: decode the key and the signature, then verify the digest.\<close>

definition verify_hex :: "('sk, 'vk, 'sig) key_lib \<Rightarrow> string \<Rightarrow> string \<Rightarrow> bytes \<Rightarrow> bool" where
  "verify_hex lib pk sg m =
     (case kyl_hex_decode lib pk of
        None \<Rightarrow> False
      | Some pb \<Rightarrow>
          (case kyl_hex_decode lib sg of
             None \<Rightarrow> False
           | Some sb \<Rightarrow>
               if length pb \<noteq> 32 then False
               else
                 (case kyl_vk_from_bytes lib pb of
                    Inl e \<Rightarrow> False
                  | Inr k \<Rightarrow> (case kyl_sig_from_bytes lib sb of None \<Rightarrow> False | Some s \<Rightarrow> kyl_verify lib k m s))))"

subsection \<open>Attestations of links\<close>

record attestable_event =
  aev_event_type :: string
  aev_payload :: string
  aev_timestamp :: "datetime bitemporal"
  aev_source :: string

definition attestable_event_new :: "datetime \<Rightarrow> string \<Rightarrow> string \<Rightarrow> string \<Rightarrow> attestable_event" where
  "attestable_event_new now t p s =
     \<lparr>aev_event_type = t, aev_payload = p,
      aev_timestamp = bitemporal_new now (EventTime now) (ReceptionTime now), aev_source = s\<rparr>"

record link_attestation =
  lat_attestation_id :: uuid
  lat_link_id :: uuid
  lat_event :: attestable_event
  lat_hash :: string
  lat_signature :: string
  lat_signer_public_key :: string
  lat_terminal_id :: string

definition link_digest :: "('sk, 'vk, 'sig) key_lib \<Rightarrow> uuid \<Rightarrow> attestable_event \<Rightarrow> string \<Rightarrow> bytes" where
  "link_digest lib link e trm =
     kyl_sha256 lib (uuid_bytes link @ text_bytes (aev_event_type e) @ text_bytes (aev_payload e) @
       text_bytes (aev_source e) @ text_bytes trm)"

definition link_attestation_new :: "('sk, 'vk, 'sig) key_lib \<Rightarrow> bytes \<Rightarrow> uuid \<Rightarrow> uuid \<Rightarrow> attestable_event \<Rightarrow> string \<Rightarrow>
    link_attestation option" where
  "link_attestation_new lib rnd u link e trm =
     (let h = link_digest lib link e trm in
      case kyl_from_keypair_bytes lib rnd of
        None \<Rightarrow> None
      | Some sk \<Rightarrow> Some
          \<lparr>lat_attestation_id = u, lat_link_id = link, lat_event = e, lat_hash = kyl_hex_encode lib h,
           lat_signature = kyl_hex_encode lib (kyl_sig_bytes lib (kyl_sign lib sk h)),
           lat_signer_public_key = kyl_hex_encode lib (kyl_vk_bytes lib (kyl_vk lib sk)), lat_terminal_id = trm\<rparr>)"

definition link_attestation_verify :: "('sk, 'vk, 'sig) key_lib \<Rightarrow> link_attestation \<Rightarrow> bool" where
  "link_attestation_verify lib a =
     verify_hex lib (lat_signer_public_key a) (lat_signature a)
       (link_digest lib (lat_link_id a) (lat_event a) (lat_terminal_id a))"

subsection \<open>Attestations of acquisitions\<close>

record acquisition_proof =
  apr_plan_id :: uuid
  apr_start_time :: "datetime bitemporal"
  apr_end_time :: "datetime bitemporal"
  apr_result :: acquisition_result
  apr_pointing_vectors :: "string \<times> string"
  apr_search_pattern_used :: string

definition acquisition_proof_new :: "datetime \<Rightarrow> uuid \<Rightarrow> acquisition_result \<Rightarrow> string \<Rightarrow> acquisition_proof" where
  "acquisition_proof_new now i r p =
     \<lparr>apr_plan_id = i, apr_start_time = bitemporal_new now (EventTime now) (ReceptionTime now),
      apr_end_time = bitemporal_new now (EventTime now) (ReceptionTime now), apr_result = r,
      apr_pointing_vectors = (''{}'', ''{}''), apr_search_pattern_used = p\<rparr>"

record tracking_proof =
  tpr_tracking_id :: uuid
  tpr_start_time :: "datetime bitemporal"
  tpr_end_time :: "datetime bitemporal"
  tpr_duration_seconds :: f64
  tpr_average_pointing_error_urad :: f64
  tpr_average_snr_db :: f64
  tpr_lock_confidence :: f64

text \<open>The clock is read six times.\<close>

definition tracking_proof_new :: "(nat \<Rightarrow> datetime) \<Rightarrow> uuid \<Rightarrow> tracking_proof" where
  "tracking_proof_new now i =
     \<lparr>tpr_tracking_id = i, tpr_start_time = bitemporal_new (now 0) (EventTime (now 1)) (ReceptionTime (now 2)),
      tpr_end_time = bitemporal_new (now 3) (EventTime (now 4)) (ReceptionTime (now 5)),
      tpr_duration_seconds = lit 0, tpr_average_pointing_error_urad = lit 0, tpr_average_snr_db = lit 0,
      tpr_lock_confidence = lit 0\<rparr>"

definition with_metrics :: "f64 \<Rightarrow> f64 \<Rightarrow> f64 \<Rightarrow> f64 \<Rightarrow> tracking_proof \<Rightarrow> tracking_proof" where
  "with_metrics d e s l p =
     p\<lparr>tpr_duration_seconds := d, tpr_average_pointing_error_urad := e, tpr_average_snr_db := s, tpr_lock_confidence := l\<rparr>"

record pat_attestation =
  pta_attestation_id :: uuid
  pta_acquisition_id :: uuid
  pta_acquisition_proof :: acquisition_proof
  pta_tracking_proof :: "tracking_proof option"
  pta_hash :: string
  pta_signature :: string
  pta_signer_public_key :: string

definition pat_digest :: "('sk, 'vk, 'sig) key_lib \<Rightarrow> uuid \<Rightarrow> acquisition_proof \<Rightarrow> bytes" where
  "pat_digest lib i p =
     kyl_sha256 lib (uuid_bytes i @ uuid_bytes (apr_plan_id p) @ text_bytes (apr_search_pattern_used p))"

definition pat_attestation_new :: "('sk, 'vk, 'sig) key_lib \<Rightarrow> bytes \<Rightarrow> uuid \<Rightarrow> uuid \<Rightarrow> acquisition_proof \<Rightarrow>
    pat_attestation option" where
  "pat_attestation_new lib rnd u i p =
     (let h = pat_digest lib i p in
      case kyl_from_keypair_bytes lib rnd of
        None \<Rightarrow> None
      | Some sk \<Rightarrow> Some
          \<lparr>pta_attestation_id = u, pta_acquisition_id = i, pta_acquisition_proof = p, pta_tracking_proof = None,
           pta_hash = kyl_hex_encode lib h,
           pta_signature = kyl_hex_encode lib (kyl_sig_bytes lib (kyl_sign lib sk h)),
           pta_signer_public_key = kyl_hex_encode lib (kyl_vk_bytes lib (kyl_vk lib sk))\<rparr>)"

definition with_tracking_proof :: "tracking_proof \<Rightarrow> pat_attestation \<Rightarrow> pat_attestation" where
  "with_tracking_proof p a = a\<lparr>pta_tracking_proof := Some p\<rparr>"

definition pat_attestation_verify :: "('sk, 'vk, 'sig) key_lib \<Rightarrow> pat_attestation \<Rightarrow> bool" where
  "pat_attestation_verify lib a =
     verify_hex lib (pta_signer_public_key a) (pta_signature a) (pat_digest lib (pta_acquisition_id a) (pta_acquisition_proof a))"

subsection \<open>Certificates\<close>

record identity_certificate =
  idc_certificate_id :: uuid
  idc_issued_at :: datetime
  idc_expires_at :: datetime
  idc_issuer :: string
  idc_subject :: string
  idc_signature :: string
  idc_signer_public_key :: string

definition duration_days :: "chrono \<Rightarrow> u64 \<Rightarrow> duration option" where
  "duration_days ch n =
     (let d = duration_seconds (86400 * sint (ucast n :: 64 word)) in if duration_in_range ch d then Some d else None)"

definition certificate_digest :: "('sk, 'vk, 'sig) key_lib \<Rightarrow> uuid \<Rightarrow> string \<Rightarrow> string \<Rightarrow> datetime \<Rightarrow> datetime \<Rightarrow> bytes" where
  "certificate_digest lib u issuer subject now expires =
     kyl_sha256 lib (uuid_bytes u @ text_bytes issuer @ text_bytes subject @ text_bytes (kyl_rfc3339 lib now) @
       text_bytes (kyl_rfc3339 lib expires))"

definition certificate_signed_by :: "('sk, 'vk, 'sig) key_lib \<Rightarrow> chrono \<Rightarrow> uuid \<Rightarrow> datetime \<Rightarrow> string \<Rightarrow> string \<Rightarrow> u64 \<Rightarrow>
    'sk \<times> 'vk \<Rightarrow> identity_certificate option" where
  "certificate_signed_by lib ch u now issuer subject days kp =
     (case duration_days ch days of
        None \<Rightarrow> None
      | Some d \<Rightarrow>
          (case date_add ch now d of
             None \<Rightarrow> None
           | Some e \<Rightarrow> Some
               \<lparr>idc_certificate_id = u, idc_issued_at = now, idc_expires_at = e, idc_issuer = issuer, idc_subject = subject,
                idc_signature = kyl_hex_encode lib (kyl_sig_bytes lib (kyl_sign lib (fst kp)
                  (certificate_digest lib u issuer subject now e))),
                idc_signer_public_key = kyl_hex_encode lib (kyl_vk_bytes lib (snd kp))\<rparr>))"

definition certificate_new :: "('sk, 'vk, 'sig) key_lib \<Rightarrow> chrono \<Rightarrow> bytes \<Rightarrow> uuid \<Rightarrow> datetime \<Rightarrow> string \<Rightarrow> string \<Rightarrow> u64 \<Rightarrow>
    identity_certificate option" where
  "certificate_new lib ch rnd u now issuer subject days =
     (case kyl_from_keypair_bytes lib rnd of
        None \<Rightarrow> None
      | Some sk \<Rightarrow> certificate_signed_by lib ch u now issuer subject days (sk, kyl_vk lib sk))"

definition certificate_is_valid :: "datetime \<Rightarrow> identity_certificate \<Rightarrow> bool" where
  "certificate_is_valid now c \<longleftrightarrow> idc_issued_at c \<le> now \<and> now < idc_expires_at c"

definition certificate_is_expired :: "datetime \<Rightarrow> identity_certificate \<Rightarrow> bool" where
  "certificate_is_expired now c \<longleftrightarrow> idc_expires_at c \<le> now"

record terminal_identity =
  tid_terminal_id :: uuid
  tid_vendor :: string
  tid_model :: string
  tid_serial_number :: string
  tid_public_key :: string
  tid_certificate :: identity_certificate

definition terminal_identity_new :: "uuid \<Rightarrow> string \<Rightarrow> string \<Rightarrow> string \<Rightarrow> string \<Rightarrow> identity_certificate \<Rightarrow> terminal_identity" where
  "terminal_identity_new i v m s k c =
     \<lparr>tid_terminal_id = i, tid_vendor = v, tid_model = m, tid_serial_number = s, tid_public_key = k, tid_certificate = c\<rparr>"

definition terminal_identity_verify :: "terminal_identity \<Rightarrow> bool" where
  "terminal_identity_verify i \<longleftrightarrow> True"

record shared_key_pair =
  skp_key_pair_id :: uuid
  skp_public_key :: bytes
  skp_private_key :: bytes
  skp_created_at :: datetime
  skp_expires_at :: datetime

definition shared_key_pair_new :: "('sk, 'vk, 'sig) key_lib \<Rightarrow> chrono \<Rightarrow> bytes \<Rightarrow> uuid \<Rightarrow> datetime \<Rightarrow> u64 \<Rightarrow>
    shared_key_pair option" where
  "shared_key_pair_new lib ch rnd u now days =
     (case kyl_from_keypair_bytes lib rnd of
        None \<Rightarrow> None
      | Some sk \<Rightarrow>
          (case duration_days ch days of
             None \<Rightarrow> None
           | Some d \<Rightarrow>
               map_option (\<lambda>e. \<lparr>skp_key_pair_id = u, skp_public_key = kyl_vk_bytes lib (kyl_vk lib sk),
                  skp_private_key = kyl_sk_bytes lib sk, skp_created_at = now, skp_expires_at = e\<rparr>)
                 (date_add ch now d)))"

definition key_pair_is_valid :: "datetime \<Rightarrow> shared_key_pair \<Rightarrow> bool" where
  "key_pair_is_valid now k \<longleftrightarrow> now < skp_expires_at k"

record preloaded_certificates =
  plc_root_certificate :: identity_certificate
  plc_control_node_certificates :: "string \<rightharpoonup> identity_certificate"
  plc_loaded_at :: datetime

definition preloaded_new :: "datetime \<Rightarrow> identity_certificate \<Rightarrow> preloaded_certificates" where
  "preloaded_new now r = \<lparr>plc_root_certificate = r, plc_control_node_certificates = Map.empty, plc_loaded_at = now\<rparr>"

definition add_control_node_certificate :: "string \<Rightarrow> identity_certificate \<Rightarrow> preloaded_certificates \<Rightarrow> preloaded_certificates" where
  "add_control_node_certificate n c p =
     p\<lparr>plc_control_node_certificates := (plc_control_node_certificates p)(n \<mapsto> c)\<rparr>"

definition get_control_node_certificate :: "string \<Rightarrow> preloaded_certificates \<Rightarrow> identity_certificate option" where
  "get_control_node_certificate n p = plc_control_node_certificates p n"

text \<open>The clock is read for each certificate, in the order of the map.\<close>

definition validate_all :: "datetime \<Rightarrow> (identity_certificate \<Rightarrow> datetime) \<Rightarrow> string list \<Rightarrow> preloaded_certificates \<Rightarrow> bool" where
  "validate_all now clock ks p =
     (if \<not> certificate_is_valid now (plc_root_certificate p) then False
      else list_all (\<lambda>c. certificate_is_valid (clock c) c) (map_values (plc_control_node_certificates p) ks))"

definition preloaded_is_stale :: "datetime \<Rightarrow> preloaded_certificates \<Rightarrow> bool" where
  "preloaded_is_stale now p \<longleftrightarrow> duration_seconds (24 * 3600) < now - plc_loaded_at p"

datatype certificate_error =
    KeyPairNotInitialized
  | KeyPairExpired
  | CertificateNotFound string
  | CertificateValidationFailed string

fun certificate_error_text :: "certificate_error \<Rightarrow> string" where
  "certificate_error_text KeyPairNotInitialized = ''Shared key pair not initialized''"
| "certificate_error_text KeyPairExpired = ''Shared key pair has expired''"
| "certificate_error_text (CertificateNotFound n) = ''Certificate not found for node: '' @ n"
| "certificate_error_text (CertificateValidationFailed m) = ''Certificate validation failed: '' @ m"

record certificate_manager =
  cmn_shared_key_pair :: "shared_key_pair option"
  cmn_issued_certificates :: "string \<rightharpoonup> identity_certificate"

definition certificate_manager_new :: certificate_manager where
  "certificate_manager_new = \<lparr>cmn_shared_key_pair = None, cmn_issued_certificates = Map.empty\<rparr>"

definition initialize_shared_key_pair :: "('sk, 'vk, 'sig) key_lib \<Rightarrow> chrono \<Rightarrow> bytes \<Rightarrow> uuid \<Rightarrow> datetime \<Rightarrow> u64 \<Rightarrow>
    certificate_manager \<Rightarrow> certificate_manager option" where
  "initialize_shared_key_pair lib ch rnd u now days m =
     map_option (\<lambda>k. m\<lparr>cmn_shared_key_pair := Some k\<rparr>) (shared_key_pair_new lib ch rnd u now days)"

text \<open>The key pair is checked at \<open>now1\<close>, the certificate dated \<open>now2\<close>.\<close>

definition issue_control_node_certificate :: "('sk, 'vk, 'sig) key_lib \<Rightarrow> chrono \<Rightarrow> uuid \<Rightarrow> datetime \<Rightarrow> datetime \<Rightarrow> string \<Rightarrow>
    string \<Rightarrow> u64 \<Rightarrow> certificate_manager \<Rightarrow> ((certificate_error + identity_certificate) \<times> certificate_manager) option" where
  "issue_control_node_certificate lib ch u now1 now2 node subject days m =
     (case cmn_shared_key_pair m of
        None \<Rightarrow> Some (Inl KeyPairNotInitialized, m)
      | Some k \<Rightarrow>
          if \<not> key_pair_is_valid now1 k then Some (Inl KeyPairExpired, m)
          else if length (skp_private_key k) \<noteq> 32 then
            Some (Inl (CertificateValidationFailed ''Invalid private key length''), m)
          else if length (skp_public_key k) \<noteq> 32 then
            Some (Inl (CertificateValidationFailed ''Invalid public key length''), m)
          else
            (case kyl_vk_from_bytes lib (skp_public_key k) of
               Inl e \<Rightarrow> Some (Inl (CertificateValidationFailed e), m)
             | Inr v \<Rightarrow>
                 map_option (\<lambda>c. (Inr c, m\<lparr>cmn_issued_certificates := (cmn_issued_certificates m)(node \<mapsto> c)\<rparr>))
                   (certificate_signed_by lib ch u now2 ''GroundCore Control Plane'' subject days
                      (kyl_sk_from_bytes lib (skp_private_key k), v))))"

definition get_preloaded_certificates :: "('sk, 'vk, 'sig) key_lib \<Rightarrow> chrono \<Rightarrow> bytes \<Rightarrow> uuid \<Rightarrow> datetime \<Rightarrow> datetime \<Rightarrow>
    string list \<Rightarrow> certificate_manager \<Rightarrow> (certificate_error + preloaded_certificates) option" where
  "get_preloaded_certificates lib ch rnd u now1 now2 ks m =
     (case cmn_shared_key_pair m of
        None \<Rightarrow> Some (Inl KeyPairNotInitialized)
      | Some k \<Rightarrow>
          (case certificate_new lib ch rnd u now1 ''GroundCore Root CA'' ''GroundCore Root'' 365 of
             None \<Rightarrow> None
           | Some r \<Rightarrow> Some (Inr (fold (\<lambda>n p. case cmn_issued_certificates m n of
                  None \<Rightarrow> p | Some c \<Rightarrow> add_control_node_certificate n c p) ks (preloaded_new now2 r)))))"

definition revoke_certificate :: "string \<Rightarrow> certificate_manager \<Rightarrow> (certificate_error + unit) \<times> certificate_manager" where
  "revoke_certificate n m =
     (case cmn_issued_certificates m n of
        None \<Rightarrow> (Inl (CertificateNotFound n), m)
      | Some c \<Rightarrow> (Inr (), m\<lparr>cmn_issued_certificates := (cmn_issued_certificates m)(n := None)\<rparr>))"

subsection \<open>Runs\<close>

text \<open>The calls that return, with random bytes among \<open>R\<close>.\<close>

inductive certificate_step :: "('sk, 'vk, 'sig) key_lib \<Rightarrow> (bytes \<Rightarrow> bool) \<Rightarrow> certificate_manager \<Rightarrow> certificate_manager \<Rightarrow> bool"
  for lib :: "('sk, 'vk, 'sig) key_lib" and R :: "bytes \<Rightarrow> bool" where
  certificate_step_init: "R rnd \<Longrightarrow> initialize_shared_key_pair lib ch rnd u now days m = Some m' \<Longrightarrow> certificate_step lib R m m'"
| certificate_step_issue: "issue_control_node_certificate lib ch u n1 n2 node subject days m = Some (r, m') \<Longrightarrow>
    certificate_step lib R m m'"
| certificate_step_revoke: "certificate_step lib R m (snd (revoke_certificate n m))"

inductive_cases certificate_stepE: "certificate_step lib R m m'"

section \<open>Lemmas\<close>

lemma key_libD:
  assumes "key_lib_correct lib"
  shows "kyl_from_keypair_bytes lib b = Some sk \<Longrightarrow>
      length b = 64 \<and> kyl_sk_bytes lib sk = take 32 b \<and> kyl_vk_bytes lib (kyl_vk lib sk) = drop 32 b"
    and "length (kyl_sk_bytes lib sk) = 32" "kyl_sk_from_bytes lib (kyl_sk_bytes lib sk) = sk"
    and "length (kyl_vk_bytes lib v) = 32" "kyl_vk_from_bytes lib (kyl_vk_bytes lib v) = Inr v"
    and "kyl_sig_from_bytes lib (kyl_sig_bytes lib sg) = Some sg"
    and "kyl_hex_decode lib (kyl_hex_encode lib b) = Some b"
    and "kyl_verify lib (kyl_vk lib sk) m (kyl_sign lib sk m)"
  using assms by (simp_all add: key_lib_correct_def)

lemma verify_hex_own:
  assumes "key_lib_correct lib"
  shows "verify_hex lib (kyl_hex_encode lib (kyl_vk_bytes lib (kyl_vk lib sk)))
    (kyl_hex_encode lib (kyl_sig_bytes lib (kyl_sign lib sk m))) m"
  by (simp add: verify_hex_def key_libD [OF assms])

text \<open>The private half of a keypair determines the public one.\<close>

lemma keypair_public_half:
  assumes "key_lib_correct lib" "kyl_from_keypair_bytes lib b = Some sk"
  shows "drop 32 b = kyl_vk_bytes lib (kyl_vk lib (kyl_sk_from_bytes lib (take 32 b)))"
  using key_libD [OF assms(1)] assms(2) by metis

subsection \<open>The certificates that are issued\<close>

definition well_signed :: "('sk, 'vk, 'sig) key_lib \<Rightarrow> identity_certificate \<Rightarrow> bool" where
  "well_signed lib c \<longleftrightarrow>
     verify_hex lib (idc_signer_public_key c) (idc_signature c)
       (certificate_digest lib (idc_certificate_id c) (idc_issuer c) (idc_subject c) (idc_issued_at c) (idc_expires_at c))"

definition pair_of :: "('sk, 'vk, 'sig) key_lib \<Rightarrow> shared_key_pair \<Rightarrow> bool" where
  "pair_of lib k \<longleftrightarrow> (\<exists>sk. skp_private_key k = kyl_sk_bytes lib sk \<and> skp_public_key k = kyl_vk_bytes lib (kyl_vk lib sk))"

definition certificate_inv :: "('sk, 'vk, 'sig) key_lib \<Rightarrow> certificate_manager \<Rightarrow> bool" where
  "certificate_inv lib m \<longleftrightarrow>
     (\<forall>k. cmn_shared_key_pair m = Some k \<longrightarrow> pair_of lib k) \<and>
     (\<forall>c \<in> ran (cmn_issued_certificates m). well_signed lib c \<and> idc_issuer c = ''GroundCore Control Plane'')"

lemma well_signed_by:
  assumes "key_lib_correct lib" "certificate_signed_by lib ch u now issuer subject days (sk, kyl_vk lib sk) = Some c"
  shows "well_signed lib c" "idc_issuer c = issuer"
  using assms(2) verify_hex_own [OF assms(1)]
  by (auto simp: certificate_signed_by_def well_signed_def split: option.splits)

lemma certificate_inv_init:
  assumes "key_lib_correct lib" "certificate_inv lib m" "initialize_shared_key_pair lib ch rnd u now days m = Some m'"
  shows "certificate_inv lib m'"
proof -
  from assms(3) obtain sk d e where "m' = m\<lparr>cmn_shared_key_pair := Some
      \<lparr>skp_key_pair_id = u, skp_public_key = kyl_vk_bytes lib (kyl_vk lib sk), skp_private_key = kyl_sk_bytes lib sk,
       skp_created_at = d, skp_expires_at = e\<rparr>\<rparr>"
    unfolding initialize_shared_key_pair_def shared_key_pair_new_def by (auto split: option.splits)
  with assms(2) show ?thesis by (auto simp: certificate_inv_def pair_of_def)
qed

lemma certificate_inv_issue:
  assumes lib: "key_lib_correct lib" and inv: "certificate_inv lib m"
    and "issue_control_node_certificate lib ch u n1 n2 node subject days m = Some (r, m')"
  shows "certificate_inv lib m'"
proof (cases "m' = m")
  case False
  with assms(3) obtain k v c where k: "cmn_shared_key_pair m = Some k" "kyl_vk_from_bytes lib (skp_public_key k) = Inr v"
    "certificate_signed_by lib ch u n2 ''GroundCore Control Plane'' subject days (kyl_sk_from_bytes lib (skp_private_key k), v) = Some c"
    "m' = m\<lparr>cmn_issued_certificates := (cmn_issued_certificates m)(node \<mapsto> c)\<rparr>"
    unfolding issue_control_node_certificate_def by (auto split: option.splits sum.splits if_splits)
  from inv k(1) obtain sk where sk: "skp_private_key k = kyl_sk_bytes lib sk" "skp_public_key k = kyl_vk_bytes lib (kyl_vk lib sk)"
    by (auto simp: certificate_inv_def pair_of_def)
  with k(2,3) have "certificate_signed_by lib ch u n2 ''GroundCore Control Plane'' subject days (sk, kyl_vk lib sk) = Some c"
    by (simp add: key_libD [OF lib])
  note c = well_signed_by [OF lib this]
  have "ran ((cmn_issued_certificates m)(node \<mapsto> c)) \<subseteq> insert c (ran (cmn_issued_certificates m))"
    by (auto simp: ran_def split: if_splits)
  with inv c k(4) show ?thesis unfolding certificate_inv_def by auto
qed (use inv in simp)

lemma certificate_inv_revoke: "certificate_inv lib m \<Longrightarrow> certificate_inv lib (snd (revoke_certificate n m))"
  by (auto simp: certificate_inv_def revoke_certificate_def ran_def split: option.splits if_splits)

lemma certificate_inv_reach:
  assumes "key_lib_correct lib" "reach (\<lambda>m. m = certificate_manager_new) (certificate_step lib R) m"
  shows "certificate_inv lib m"
  using assms(2)
proof induction
  case (reach_init s)
  then show ?case by (simp add: certificate_inv_def certificate_manager_new_def)
next
  case (reach_step s t)
  then show ?case
    by (auto elim!: certificate_stepE
        intro: certificate_inv_init [OF assms(1)] certificate_inv_issue [OF assms(1)] certificate_inv_revoke)
qed

section \<open>Properties\<close>

text \<open>C36: An attestation or a certificate that needs an ephemeral key panics unless the second half of the random bytes
  is the public key of the first half: of all the second halves that may follow a given first half, only one is
  good.
\<close>

lemma ephemeral_keys_panic:
  assumes "key_lib_correct lib"
    and "link_attestation_new lib rnd u link e trm \<noteq> None \<or> pat_attestation_new lib rnd u i p \<noteq> None \<or>
      certificate_new lib ch rnd u now issuer subject days \<noteq> None \<or> shared_key_pair_new lib ch rnd u now days \<noteq> None"
  shows "length rnd = 64 \<and> drop 32 rnd = kyl_vk_bytes lib (kyl_vk lib (kyl_sk_from_bytes lib (take 32 rnd)))"
proof -
  from assms(2) obtain sk where sk: "kyl_from_keypair_bytes lib rnd = Some sk"
    by (auto simp: link_attestation_new_def pat_attestation_new_def certificate_new_def shared_key_pair_new_def Let_def
        split: option.splits)
  show ?thesis using keypair_public_half [OF assms(1) sk] key_libD(1) [OF assms(1) sk] by simp
qed

text \<open>With luck, every certificate that is issued and not revoked verifies under the key it names, and is issued by
  the control plane.
\<close>

lemma issued_certificates_verify:
  assumes "key_lib_correct lib" "reach (\<lambda>m. m = certificate_manager_new) (certificate_step lib R) m"
    and "cmn_issued_certificates m node = Some c"
  shows "well_signed lib c \<and> idc_issuer c = ''GroundCore Control Plane''"
  using certificate_inv_reach [OF assms(1,2)] assms(3) by (auto simp: certificate_inv_def ran_def)

text \<open>An attestation of a link that is made verifies. But it verifies as well with another hash, identifier or time of
  the event, and whatever its content it verifies with the signature and the key of anybody: nothing ties the key
  to the terminal.
\<close>

lemma attestation_binds_no_signer:
  assumes "key_lib_correct lib"
  shows "(link_attestation_new lib rnd u link e trm = Some a \<longrightarrow>
       link_attestation_verify lib a \<and>
       link_attestation_verify lib (a\<lparr>lat_attestation_id := u', lat_hash := h, lat_event := e\<lparr>aev_timestamp := ts\<rparr>\<rparr>)) \<and>
    link_attestation_verify lib (b\<lparr>
      lat_signature := kyl_hex_encode lib (kyl_sig_bytes lib (kyl_sign lib sk
        (link_digest lib (lat_link_id b) (lat_event b) (lat_terminal_id b)))),
      lat_signer_public_key := kyl_hex_encode lib (kyl_vk_bytes lib (kyl_vk lib sk))\<rparr>)"
  using verify_hex_own [OF assms]
  by (auto simp: link_attestation_new_def link_attestation_verify_def link_digest_def Let_def split: option.splits)

text \<open>The proof of an acquisition covers its plan and its search pattern only: the result, the times and the proof of
  tracking can be replaced.\<close>

lemma pat_attestation_covers_pattern_only:
  assumes "apr_plan_id p = apr_plan_id q" "apr_search_pattern_used p = apr_search_pattern_used q"
  shows "pat_attestation_verify lib (a\<lparr>pta_acquisition_proof := p, pta_tracking_proof := t\<rparr>) =
    pat_attestation_verify lib (a\<lparr>pta_acquisition_proof := q, pta_tracking_proof := t'\<rparr>)"
  using assms by (simp add: pat_attestation_verify_def pat_digest_def)

section \<open>Witnesses\<close>

text \<open>Keys are their bytes, a signature is the text with the key in front.\<close>

definition plain_keys :: "(u8, u8, bytes) key_lib" where
  "plain_keys =
     \<lparr>kyl_from_keypair_bytes = (\<lambda>b. if b = replicate 64 (hd b) then Some (hd b) else None),
      kyl_sk_bytes = replicate 32, kyl_sk_from_bytes = hd, kyl_vk = id, kyl_vk_bytes = replicate 32,
      kyl_vk_from_bytes = (\<lambda>b. Inr (hd b)), kyl_sign = (#), kyl_sig_bytes = id, kyl_sig_from_bytes = Some,
      kyl_verify = (\<lambda>k m s. s = k # m), kyl_hex_encode = map (\<lambda>b. char_of (unat b)),
      kyl_hex_decode = (\<lambda>s. Some (map (\<lambda>c. of_nat (of_char c)) s)), kyl_sha256 = id, kyl_rfc3339 = (\<lambda>_. ''t'')\<rparr>"

lemma plain_keys_halves:
  assumes "b = replicate 64 (hd b)"
  shows "length b = 64" "take 32 b = replicate 32 (hd b)" "drop 32 b = replicate 32 (hd b)"
proof -
  from assms have "length b = length (replicate 64 (hd b))" by (rule arg_cong)
  then show "length b = 64" by (simp only: length_replicate)
  from assms have "take 32 b = take 32 (replicate 64 (hd b))" by (rule arg_cong)
  then show "take 32 b = replicate 32 (hd b)" by (simp add: take_replicate)
  from assms have "drop 32 b = drop 32 (replicate 64 (hd b))" by (rule arg_cong)
  then show "drop 32 b = replicate 32 (hd b)" by (simp add: drop_replicate)
qed

lemma plain_keys_correct: "key_lib_correct plain_keys"
proof -
  have byte: "word_of_nat (unat b mod 256) = b" for b :: u8
    using unsigned_less [of b, where 'a = nat] by simp
  then have "map (\<lambda>x :: u8. word_of_nat (unat x mod 256)) b = b" for b
    by simp
  then show ?thesis
    by (auto simp: key_lib_correct_def plain_keys_def comp_def plain_keys_halves split: if_splits)
qed

lemma link_attestation_new_works:
  "kyl_from_keypair_bytes lib rnd = Some sk \<Longrightarrow> link_attestation_new lib rnd u l e trm \<noteq> None"
  by (simp add: link_attestation_new_def Let_def)

lemma plain_keys_draw: "kyl_from_keypair_bytes plain_keys (replicate 64 7) = Some 7"
  by (simp add: plain_keys_def)

lemma ephemeral_keys_panic_witness:
  "drop 32 (replicate 64 (7 :: u8)) = kyl_vk_bytes plain_keys (kyl_vk plain_keys (kyl_sk_from_bytes plain_keys (take 32 (replicate 64 7))))"
proof -
  define rnd :: bytes where "rnd = replicate 64 7"
  have "kyl_from_keypair_bytes plain_keys rnd = Some 7" unfolding rnd_def by (rule plain_keys_draw)
  note works = link_attestation_new_works [OF this]
  have "drop 32 rnd = kyl_vk_bytes plain_keys (kyl_vk plain_keys (kyl_sk_from_bytes plain_keys (take 32 rnd)))"
    using ephemeral_keys_panic [OF plain_keys_correct disjI1 [OF works]] by (rule conjunct2)
  then show ?thesis unfolding rnd_def .
qed

lemma attestation_binds_no_signer_witness:
  "\<exists>a. link_attestation_verify plain_keys a \<and> lat_terminal_id a = ''x''"
proof -
  define e where "e = attestable_event_new 0 ''t'' ''p'' ''s''"
  define rnd :: bytes where "rnd = replicate 64 7"
  have draw: "kyl_from_keypair_bytes plain_keys rnd = Some 7" unfolding rnd_def by (rule plain_keys_draw)
  obtain a where a: "link_attestation_new plain_keys rnd 1 2 e ''x'' = Some a"
    using link_attestation_new_works [OF draw, of 1 2 e "''x''"] by (auto simp only: not_None_eq)
  with draw have "lat_terminal_id a = ''x''"
    by (auto simp: link_attestation_new_def Let_def)
  moreover from a have "link_attestation_verify plain_keys a"
    by (rule attestation_binds_no_signer [OF plain_keys_correct, THEN conjunct1, THEN mp, THEN conjunct1])
  ultimately show ?thesis by blast
qed

end
