(* ===== verification/Digital_Twin.thy ===== *)
theory Digital_Twin
  imports Bitemporal_Log Pass_Prediction
begin

text \<open>
  The digital twin: detection of divergence (\<open>digital-twin/src/divergence.rs\<close>), snapshots and forensic queries
  (\<open>snapshot.rs\<close>), the components and systems of the simulation (\<open>components.rs\<close>, \<open>systems.rs\<close>) and the
  runtime (\<open>runtime.rs\<close>).

  The world of entities is a third-party library: its operations are a parameter (\<open>world_ops\<close>) with the
  documented laws \<open>world_laws\<close>. A schedule is filed under its label, and running a label that is not there
  panics: \<open>None\<close>. The logarithm, the exponential and the trigonometric functions are parameters, as are the
  readings of the clock, the iteration orders of hash maps and whether the other end of a channel is open.
\<close>

section \<open>Definitions\<close>

subsection \<open>Intervals\<close>

record interval =
  ivl_lower :: f64
  ivl_upper :: f64

definition interval_new :: "f64 \<Rightarrow> f64 \<Rightarrow> interval option" where
  "interval_new lo hi = (if fle lo hi then Some \<lparr>ivl_lower = lo, ivl_upper = hi\<rparr> else None)"

definition interval_contains :: "f64 \<Rightarrow> interval \<Rightarrow> bool" where
  "interval_contains x i \<longleftrightarrow> fle (ivl_lower i) x \<and> fle x (ivl_upper i)"

definition interval_distance :: "f64 \<Rightarrow> interval \<Rightarrow> f64" where
  "interval_distance x i =
     (if interval_contains x i then lit 0
      else if flt x (ivl_lower i) then fsub (ivl_lower i) x
      else fsub x (ivl_upper i))"

definition interval_width :: "interval \<Rightarrow> f64" where
  "interval_width i = fsub (ivl_upper i) (ivl_lower i)"

definition from_center :: "f64 \<Rightarrow> f64 \<Rightarrow> interval option" where
  "from_center c h = interval_new (fsub c h) (fadd c h)"

text \<open>The interval \<open>[0, 0]\<close> of the constructors.\<close>

definition null_interval :: interval where
  "null_interval = \<lparr>ivl_lower = lit 0, ivl_upper = lit 0\<rparr>"

subsection \<open>Divergence records\<close>

datatype metric_type = Snr | Ber | Throughput | Latency | Doppler | Rssi | Temperature | PointingError

record causal_hypothesis =
  chy_description :: string
  chy_confidence :: f64
  chy_evidence :: "string list"

definition hypothesis_new :: "string \<Rightarrow> f64 \<Rightarrow> causal_hypothesis" where
  "hypothesis_new d c = \<lparr>chy_description = d, chy_confidence = c, chy_evidence = []\<rparr>"

definition with_evidence :: "string \<Rightarrow> causal_hypothesis \<Rightarrow> causal_hypothesis" where
  "with_evidence e h = h\<lparr>chy_evidence := chy_evidence h @ [e]\<rparr>"

record metric_divergence =
  mdv_link_id :: uuid
  mdv_metric_type :: metric_type
  mdv_predicted_interval :: interval
  mdv_observed :: f64
  mdv_sigma :: f64
  mdv_change_point :: "datetime option"
  mdv_stamp :: "unit bitemporal"
  mdv_hypotheses :: "causal_hypothesis list"

definition divergence_new :: "uuid \<Rightarrow> metric_type \<Rightarrow> interval \<Rightarrow> f64 \<Rightarrow> f64 \<Rightarrow> event_time \<Rightarrow> reception_time \<Rightarrow>
    metric_divergence" where
  "divergence_new link m i x sigma e r =
     \<lparr>mdv_link_id = link, mdv_metric_type = m, mdv_predicted_interval = i, mdv_observed = x, mdv_sigma = sigma,
      mdv_change_point = None, mdv_stamp = bitemporal_new () e r, mdv_hypotheses = []\<rparr>"

definition is_anomaly :: "metric_divergence \<Rightarrow> bool" where
  "is_anomaly d \<longleftrightarrow> \<not> interval_contains (mdv_observed d) (mdv_predicted_interval d)"

definition add_hypothesis :: "causal_hypothesis \<Rightarrow> metric_divergence \<Rightarrow> metric_divergence" where
  "add_hypothesis h d = d\<lparr>mdv_hypotheses := mdv_hypotheses d @ [h]\<rparr>"

definition mark_change_point :: "datetime \<Rightarrow> metric_divergence \<Rightarrow> metric_divergence" where
  "mark_change_point t d = d\<lparr>mdv_change_point := Some t\<rparr>"

subsection \<open>Change points\<close>

record cusum_detector =
  cus_cusum :: f64
  cus_threshold :: f64
  cus_reference :: f64
  cus_min_shift :: f64
  cus_change_detected :: bool
  cus_detection_time :: "datetime option"

definition cusum_new :: "f64 \<Rightarrow> f64 \<Rightarrow> f64 \<Rightarrow> cusum_detector" where
  "cusum_new threshold ref shift =
     \<lparr>cus_cusum = lit 0, cus_threshold = threshold, cus_reference = ref, cus_min_shift = shift,
      cus_change_detected = False, cus_detection_time = None\<rparr>"

definition cusum_next :: "f64 \<Rightarrow> f64 \<Rightarrow> f64 \<Rightarrow> f64 \<Rightarrow> f64" where
  "cusum_next ref shift c x = fmax (fsub (fadd c (fsub x ref)) shift) (lit 0)"

definition cusum_update :: "f64 \<Rightarrow> datetime \<Rightarrow> cusum_detector \<Rightarrow> bool \<times> cusum_detector" where
  "cusum_update x t d =
     (if cus_change_detected d then (False, d)
      else
        (let c = cusum_next (cus_reference d) (cus_min_shift d) (cus_cusum d) x; d' = d\<lparr>cus_cusum := c\<rparr> in
         if fle (cus_threshold d) c then (True, d'\<lparr>cus_change_detected := True, cus_detection_time := Some t\<rparr>)
         else (False, d')))"

definition cusum_reset :: "cusum_detector \<Rightarrow> cusum_detector" where
  "cusum_reset d = d\<lparr>cus_cusum := lit 0, cus_change_detected := False, cus_detection_time := None\<rparr>"

record divergence_detector =
  dvd_detectors :: "uuid \<times> metric_type \<rightharpoonup> cusum_detector"
  dvd_log :: "metric_divergence list"
  dvd_anomaly_threshold :: f64

definition divergence_detector_new :: "f64 \<Rightarrow> divergence_detector" where
  "divergence_detector_new th = \<lparr>dvd_detectors = Map.empty, dvd_log = [], dvd_anomaly_threshold = th\<rparr>"

definition divergence_detector_default :: divergence_detector where
  "divergence_detector_default = divergence_detector_new (lit 3)"

definition ensure_detector :: "uuid \<Rightarrow> metric_type \<Rightarrow> f64 \<Rightarrow> divergence_detector \<Rightarrow> divergence_detector" where
  "ensure_detector link m ref d =
     (case dvd_detectors d (link, m) of
        None \<Rightarrow> d\<lparr>dvd_detectors := (dvd_detectors d)((link, m) \<mapsto> cusum_new (lit 5) ref (lit 1))\<rparr>
      | Some c \<Rightarrow> d)"

definition observation_sigma :: "f64 \<Rightarrow> interval \<Rightarrow> f64" where
  "observation_sigma x i =
     (let dist = interval_distance x i in
      if flt (lit 0) (interval_width i) then fdiv dist (interval_width i) else dist)"

definition process_observation :: "uuid \<Rightarrow> metric_type \<Rightarrow> interval \<Rightarrow> f64 \<Rightarrow> event_time \<Rightarrow> reception_time \<Rightarrow>
    divergence_detector \<Rightarrow> metric_divergence option \<times> divergence_detector" where
  "process_observation link m i x e r d =
     (let sigma = observation_sigma x i;
          anomaly = (\<not> interval_contains x i);
          d1 = ensure_detector link m (lit 0) d in
      case dvd_detectors d1 (link, m) of
        None \<Rightarrow> (None, d1)
      | Some c \<Rightarrow>
          (let (changed, c') = cusum_update sigma (reception_datetime r) c;
               d2 = d1\<lparr>dvd_detectors := (dvd_detectors d1)((link, m) \<mapsto> c')\<rparr> in
           if anomaly \<or> changed then
             (let v0 = divergence_new link m i x sigma e r;
                  v = (case (changed, cus_detection_time c') of (True, Some t) \<Rightarrow> mark_change_point t v0 | _ \<Rightarrow> v0)
              in (Some v, d2\<lparr>dvd_log := dvd_log d2 @ [v]\<rparr>))
           else (None, d2)))"

definition clear_log :: "divergence_detector \<Rightarrow> divergence_detector" where
  "clear_log d = d\<lparr>dvd_log := []\<rparr>"

definition reset_detectors :: "divergence_detector \<Rightarrow> divergence_detector" where
  "reset_detectors d = d\<lparr>dvd_detectors := map_option cusum_reset \<circ> dvd_detectors d\<rparr>"

subsection \<open>Snapshots\<close>

record world_summary =
  wsu_entity_count :: nat
  wsu_link_snr_mid_db :: "uuid \<rightharpoonup> f64"

definition world_summary_default :: world_summary where
  "world_summary_default = \<lparr>wsu_entity_count = 0, wsu_link_snr_mid_db = Map.empty\<rparr>"

record twin_snapshot =
  twn_timestamp :: datetime
  twn_world_state :: world_summary
  twn_divergence_log :: "metric_divergence list"

definition twin_snapshot_new :: "datetime \<Rightarrow> world_summary \<Rightarrow> metric_divergence list \<Rightarrow> twin_snapshot" where
  "twin_snapshot_new t w l = \<lparr>twn_timestamp = t, twn_world_state = w, twn_divergence_log = l\<rparr>"

definition received_at :: "metric_divergence \<Rightarrow> datetime" where
  "received_at d = reception_datetime (bt_reception_time (mdv_stamp d))"

definition active_divergences :: "twin_snapshot \<Rightarrow> metric_divergence list" where
  "active_divergences s = filter is_anomaly (twn_divergence_log s)"

definition divergences_up_to :: "datetime \<Rightarrow> twin_snapshot \<Rightarrow> metric_divergence list" where
  "divergences_up_to t s = filter (\<lambda>d. received_at d \<le> t) (twn_divergence_log s)"

record twin_store =
  tst_snapshots :: "datetime \<rightharpoonup> twin_snapshot"
  tst_max_snapshots :: nat

definition twin_store_new :: "nat \<Rightarrow> twin_store" where
  "twin_store_new n = \<lparr>tst_snapshots = Map.empty, tst_max_snapshots = n\<rparr>"

definition twin_store_default :: twin_store where
  "twin_store_default = twin_store_new 300"

text \<open>The keys are iterated in the order \<open>ks\<close>.\<close>

definition store_snapshot :: "datetime list \<Rightarrow> twin_snapshot \<Rightarrow> twin_store \<Rightarrow> twin_store option" where
  "store_snapshot ks s m =
     (let m1 = m\<lparr>tst_snapshots := (tst_snapshots m)(twn_timestamp s \<mapsto> s)\<rparr> in
      if tst_max_snapshots m < card (dom (tst_snapshots m1)) then
        map_option (\<lambda>t. m1\<lparr>tst_snapshots := (tst_snapshots m1)(t := None)\<rparr>) (min_by_key (\<lambda>t. t) ks)
      else Some m1)"

definition twin_get_snapshot :: "datetime \<Rightarrow> twin_store \<Rightarrow> twin_snapshot option" where
  "twin_get_snapshot t m = tst_snapshots m t"

definition get_closest_snapshot :: "datetime list \<Rightarrow> datetime \<Rightarrow> twin_store \<Rightarrow> twin_snapshot option" where
  "get_closest_snapshot ks t m =
     (case min_by_key (\<lambda>k. \<bar>num_milliseconds \<bar>k - t\<bar>\<bar>) ks of None \<Rightarrow> None | Some k \<Rightarrow> tst_snapshots m k)"

definition get_snapshots_in_range :: "datetime list \<Rightarrow> datetime \<Rightarrow> datetime \<Rightarrow> twin_store \<Rightarrow> twin_snapshot list" where
  "get_snapshots_in_range ks a b m =
     sort_key twn_timestamp (map_values (tst_snapshots m) (filter (\<lambda>k. a \<le> k \<and> k \<le> b) ks))"

text \<open>\<open>Iterator::max_by_key\<close> returns the last of the greatest elements.\<close>

fun max_by_key :: "('a \<Rightarrow> 'b::linorder) \<Rightarrow> 'a list \<Rightarrow> 'a option" where
  "max_by_key k [] = None"
| "max_by_key k (x # xs) =
     (case max_by_key k xs of None \<Rightarrow> Some x | Some y \<Rightarrow> if k y < k x then Some x else Some y)"

definition twin_latest_snapshot :: "datetime list \<Rightarrow> twin_store \<Rightarrow> twin_snapshot option" where
  "twin_latest_snapshot ks m = max_by_key twn_timestamp (map_values (tst_snapshots m) ks)"

definition twin_store_clear :: "twin_store \<Rightarrow> twin_store" where
  "twin_store_clear m = m\<lparr>tst_snapshots := Map.empty\<rparr>"

definition snapshot_count :: "twin_store \<Rightarrow> nat" where
  "snapshot_count m = card (dom (tst_snapshots m))"

record counterfactual_result =
  cfr_query_time :: datetime
  cfr_actual_belief :: twin_snapshot
  cfr_counterfactual_belief :: "twin_snapshot option"
  cfr_affecting_divergences :: "metric_divergence list"

definition counterfactual_query :: "datetime list \<Rightarrow> datetime \<Rightarrow> twin_store \<Rightarrow> counterfactual_result" where
  "counterfactual_query ks t m =
     (let actual = (case get_closest_snapshot ks t m of
                      Some s \<Rightarrow> s | None \<Rightarrow> twin_snapshot_new t world_summary_default []) in
      \<lparr>cfr_query_time = t, cfr_actual_belief = actual, cfr_counterfactual_belief = None,
       cfr_affecting_divergences = filter (\<lambda>d. received_at d \<le> t \<or>
         (case mdv_change_point d of None \<Rightarrow> False | Some p \<Rightarrow> p \<le> t)) (twn_divergence_log actual)\<rparr>)"

definition divergence_timeline :: "datetime list \<Rightarrow> uuid \<Rightarrow> twin_store \<Rightarrow> metric_divergence list" where
  "divergence_timeline ks link m =
     sort_key received_at
       (filter (\<lambda>d. mdv_link_id d = link) (concat (map twn_divergence_log (map_values (tst_snapshots m) ks))))"

subsection \<open>Runs\<close>

text \<open>A detector that is given a list of observations, and the statistic without the detector.\<close>

fun cusum_run :: "(f64 \<times> datetime) list \<Rightarrow> cusum_detector \<Rightarrow> bool list \<times> cusum_detector" where
  "cusum_run [] d = ([], d)"
| "cusum_run ((x, t) # obs) d =
     (let (b, d') = cusum_update x t d; (bs, d'') = cusum_run obs d' in (b # bs, d''))"

definition cusum_level :: "f64 \<Rightarrow> f64 \<Rightarrow> f64 \<Rightarrow> (f64 \<times> datetime) list \<Rightarrow> f64" where
  "cusum_level ref shift c obs = foldl (\<lambda>c (x, t). cusum_next ref shift c x) c obs"

inductive twin_detector_step :: "divergence_detector \<Rightarrow> divergence_detector \<Rightarrow> bool" where
  observe_step: "twin_detector_step d (snd (process_observation link m i x e r d))"
| clear_step: "twin_detector_step d (clear_log d)"
| reset_step: "twin_detector_step d (reset_detectors d)"

inductive_cases twin_detector_stepE: "twin_detector_step d d'"

text \<open>The stores that a list of snapshots leads to, whatever the iteration orders; the newest timestamps of a set.\<close>

inductive stored :: "nat \<Rightarrow> twin_snapshot list \<Rightarrow> twin_store \<Rightarrow> bool" for n where
  stored_none: "stored n [] (twin_store_new n)"
| stored_more: "stored n ss m \<Longrightarrow> iter_order ((tst_snapshots m)(twn_timestamp s \<mapsto> s)) ks \<Longrightarrow>
    store_snapshot ks s m = Some m' \<Longrightarrow> stored n (ss @ [s]) m'"

definition newest_of :: "nat \<Rightarrow> datetime set \<Rightarrow> datetime set \<Rightarrow> bool" where
  "newest_of n T D \<longleftrightarrow> D \<subseteq> T \<and> card D = min n (card T) \<and> (\<forall>t \<in> D. \<forall>u \<in> T - D. u < t)"

section \<open>Lemmas\<close>

subsection \<open>Change points\<close>

lemma cusum_run_detected: "cus_change_detected d \<Longrightarrow> cusum_run obs d = (replicate (length obs) False, d)"
  by (induction obs) (auto simp: cusum_update_def)

lemma cusum_level_Cons:
  "cusum_level ref shift c ((x, t) # obs) = cusum_level ref shift (cusum_next ref shift c x) obs"
  by (simp add: cusum_level_def)

lemma all_le_Suc: "(\<forall>j \<le> Suc k. Q j) \<longleftrightarrow> Q 0 \<and> (\<forall>j \<le> k. Q (Suc j))"
proof -
  have "j \<le> Suc k \<longleftrightarrow> j = 0 \<or> (\<exists>i \<le> k. j = Suc i)" for j by (cases j) auto
  then show ?thesis by auto
qed

lemma cusum_run_crossing:
  assumes "\<not> cus_change_detected d" "i < length obs"
  shows "fst (cusum_run obs d) ! i \<longleftrightarrow>
    (\<forall>j \<le> i. fle (cus_threshold d) (cusum_level (cus_reference d) (cus_min_shift d) (cus_cusum d) (take (Suc j) obs)) \<longleftrightarrow> j = i)"
  using assms
proof (induction obs arbitrary: d i)
  case (Cons o1 obs)
  obtain x t where o1: "o1 = (x, t)" by fastforce
  let ?c = "cusum_next (cus_reference d) (cus_min_shift d) (cus_cusum d) x"
  let ?lev = "\<lambda>j. cusum_level (cus_reference d) (cus_min_shift d) (cus_cusum d) (take (Suc j) (o1 # obs))"
  have lev0: "?lev 0 = ?c" by (simp add: o1 cusum_level_def)
  have levS: "?lev (Suc j) = cusum_level (cus_reference d) (cus_min_shift d) ?c (take (Suc j) obs)" for j
    by (simp add: o1 cusum_level_Cons)
  show ?case
  proof (cases "fle (cus_threshold d) ?c")
    case True
    then have "cusum_update x t d = (True, d\<lparr>cus_cusum := ?c, cus_change_detected := True, cus_detection_time := Some t\<rparr>)"
      using Cons.prems(1) by (simp add: cusum_update_def Let_def)
    then have "fst (cusum_run (o1 # obs) d) = True # replicate (length obs) False"
      by (simp add: o1 cusum_run_detected)
    moreover have "(\<forall>j \<le> i. fle (cus_threshold d) (?lev j) \<longleftrightarrow> j = i) \<longleftrightarrow> i = 0"
      using True lev0 by auto
    ultimately show ?thesis using Cons.prems(2) by (cases i) simp_all
  next
    case False
    let ?d = "d\<lparr>cus_cusum := ?c\<rparr>"
    have "cusum_update x t d = (False, ?d)" using False Cons.prems(1) by (simp add: cusum_update_def Let_def)
    then have run: "fst (cusum_run (o1 # obs) d) = False # fst (cusum_run obs ?d)"
      by (simp add: o1 split: prod.splits)
    show ?thesis
    proof (cases i)
      case 0
      then show ?thesis using run lev0 False by auto
    next
      case (Suc k)
      have "fst (cusum_run obs ?d) ! k \<longleftrightarrow> (\<forall>j \<le> k. fle (cus_threshold d) (?lev (Suc j)) \<longleftrightarrow> j = k)"
        using Cons.IH [of ?d k] Cons.prems Suc by (simp add: o1 cusum_level_Cons)
      also have "\<dots> \<longleftrightarrow> (\<forall>j \<le> Suc k. fle (cus_threshold d) (?lev j) \<longleftrightarrow> j = Suc k)"
        using False lev0 by (simp add: all_le_Suc [of k])
      finally show ?thesis using run Suc by simp
    qed
  qed
qed simp

subsection \<open>Observations inside their interval\<close>

text \<open>A detector of the divergence module that has not fired stands below its threshold of 5.\<close>

definition calm :: "cusum_detector \<Rightarrow> bool" where
  "calm c \<longleftrightarrow> cus_threshold c = lit 5 \<and> cus_reference c = lit 0 \<and> cus_min_shift c = lit 1 \<and>
     (cus_change_detected c \<or> flt (cus_cusum c) (lit 5))"

definition detectors_calm :: "divergence_detector \<Rightarrow> bool" where
  "detectors_calm d \<longleftrightarrow> (\<forall>c \<in> ran (dvd_detectors d). calm c)"

lemma flt_not_fle: "flt a b \<Longrightarrow> \<not> fle b a"
  by (cases a; cases b) (auto simp: fle_def)

lemma not_flt_fle: "a \<noteq> NaN \<Longrightarrow> b \<noteq> NaN \<Longrightarrow> \<not> flt a b \<Longrightarrow> fle b a"
  by (cases a; cases b) (auto simp: fle_def)

lemma cusum_next_number: "cusum_next ref shift c x \<noteq> NaN"
  by (simp add: cusum_next_def fmax_def)

lemma of_exact_mag: "of_exact z x = Fin s m \<Longrightarrow> 0 \<le> m"
  using round_mag_nonneg by (auto simp: of_exact_def round_f64_def Let_def split: if_splits)

lemma fsub_not_negative: "fsub a b = Fin s m \<Longrightarrow> 0 \<le> m"
  by (cases a; cases b) (auto simp: fsub_def split: if_splits dest: of_exact_mag)

lemma ran_map_option_comp: "ran (map_option f \<circ> m) = f ` ran m"
  by (auto simp: ran_def)

lemma lit_5: "lit 5 = Fin False 5"
  by (simp add: lit_numeral)

lemma of_exact_below:
  assumes "x \<le> of_nat n" "n < k" "k < 2 ^ 53"
  shows "flt (of_exact z x) (Fin False (of_nat k))"
proof (cases "0 < x")
  case True
  have "x \<le> of_nat n" "n < 2 ^ 53" using assms by simp_all
  then obtain v where "round_f64 False x = Fin False v" "v \<le> of_nat n" using round_f64_le_nat by blast
  with True assms(2) show ?thesis by (simp add: of_exact_def)
next
  case False
  then show ?thesis using assms(2) round_mag_nonneg [of "\<bar>x\<bar>"]
    by (auto simp: of_exact_def round_f64_def Let_def)
qed

lemma cusum_next_inside:
  assumes "flt c (lit 5)" "x = lit 0"
  shows "flt (cusum_next (lit 0) (lit 1) c x) (lit 5)"
proof -
  have "flt (fsub (fadd c (fsub x (lit 0))) (lit 1)) (Fin False 5)"
  proof (cases c)
    case (Fin s a)
    then have v: "val c \<le> of_nat 5" using assms(1) by (simp add: lit_5 of_exact_def)
    have "fadd c (fsub x (lit 0)) = of_exact False (val c)"
      using Fin assms(2) by (simp add: fsub_def of_exact_def)
    moreover have "flt (fsub (of_exact False (val c)) (Fin False 1)) (Fin False 5)"
    proof (cases "0 < val c")
      case True
      obtain w where w: "round_f64 False (val c) = Fin False w" "w \<le> of_nat 5"
        using round_f64_le_nat [OF v] by auto
      then have "flt (of_exact False (w - 1)) (Fin False (of_nat 5))" by (intro of_exact_below [of _ 4]) auto
      then show ?thesis using True w by (simp add: of_exact_def fsub_def)
    next
      case False
      have "flt (of_exact z (- m - 1)) (Fin False (of_nat 5))" if "0 \<le> m" for z m
        using that by (intro of_exact_below [of _ 4]) auto
      from this [of "round_mag \<bar>val c\<bar>"] False show ?thesis
        using round_mag_nonneg [of "\<bar>val c\<bar>"] round_mag_nonneg [of 1] by (auto simp: of_exact_def fsub_def round_f64_def Let_def)
    qed
    ultimately show ?thesis by simp
  next
    case (Inf s)
    then show ?thesis using assms by (cases s) (simp_all add: lit_5 fsub_def of_exact_def)
  qed (use assms in simp)
  then show ?thesis by (auto simp: cusum_next_def lit_5 fmax_def)
qed

lemma cusum_update_calm:
  assumes "calm c"
  shows "calm (snd (cusum_update x t c))"
  using assms not_flt_fle [OF cusum_next_number, of "lit 5" "cus_reference c" "cus_min_shift c" "cus_cusum c" x]
  by (auto simp: calm_def cusum_update_def Let_def lit_5)

text \<open>Inside its interval an observation has distance and deviation zero, so it cannot cross the threshold.\<close>

lemma sigma_inside:
  assumes "interval_contains x i"
  shows "observation_sigma x i = lit 0"
proof -
  have "fdiv (lit 0) w = lit 0" if "flt (lit 0) w" "\<And>s m. w = Fin s m \<Longrightarrow> 0 \<le> m" for w
    using that by (cases w) (auto split: if_splits)
  from this [OF _ fsub_not_negative] assms show ?thesis
    by (simp add: observation_sigma_def interval_distance_def interval_width_def Let_def del: lit_0)
qed

lemma cusum_update_inside:
  assumes "calm c"
  shows "\<not> fst (cusum_update (lit 0) t c)"
proof (cases "cus_change_detected c")
  case False
  with assms have "flt (cusum_next (cus_reference c) (cus_min_shift c) (cus_cusum c) (lit 0)) (cus_threshold c)"
    by (simp add: calm_def cusum_next_inside del: lit_0 lit_1)
  then have "\<not> fle (cus_threshold c) (cusum_next (cus_reference c) (cus_min_shift c) (cus_cusum c) (lit 0))"
    by (rule flt_not_fle)
  with False show ?thesis by (simp add: cusum_update_def Let_def del: lit_0)
qed (simp add: cusum_update_def)

lemma calm_new: "calm (cusum_new (lit 5) (lit 0) (lit 1))"
  by (simp add: calm_def cusum_new_def lit_5)

lemma calm_reset: "calm c \<Longrightarrow> calm (cusum_reset c)"
  by (simp add: calm_def cusum_reset_def lit_5)

lemma ensure_detector_calm:
  assumes "detectors_calm d"
  shows "detectors_calm (ensure_detector link m (lit 0) d)"
    and "\<exists>c. dvd_detectors (ensure_detector link m (lit 0) d) (link, m) = Some c"
  using assms calm_new
  by (auto simp: detectors_calm_def ensure_detector_def ran_def split: option.splits)

lemma process_observation_calm:
  assumes "detectors_calm d"
  shows "detectors_calm (snd (process_observation link m i x e r d))"
    and "fst (process_observation link m i x e r d) = None \<longleftrightarrow> interval_contains x i"
proof -
  let ?d = "ensure_detector link m (lit 0) d"
  obtain c where c: "dvd_detectors ?d (link, m) = Some c" using ensure_detector_calm(2) [OF assms] by blast
  have calm: "calm c" and all: "\<forall>c \<in> ran (dvd_detectors ?d). calm c"
    using ensure_detector_calm(1) [OF assms, of link m] c by (auto simp: detectors_calm_def intro: ranI)
  obtain b c' where u: "cusum_update (observation_sigma x i) (reception_datetime r) c = (b, c')" by fastforce
  have "calm c'" using cusum_update_calm [OF calm, of "observation_sigma x i" "reception_datetime r"] u by simp
  with all have "\<forall>c \<in> ran ((dvd_detectors ?d)((link, m) \<mapsto> c')). calm c"
    by (auto simp: ran_def split: if_splits)
  then show "detectors_calm (snd (process_observation link m i x e r d))"
    by (simp add: process_observation_def c u Let_def detectors_calm_def del: lit_0)
  have "\<not> b" if "interval_contains x i"
    using cusum_update_inside [OF calm, of "reception_datetime r"] u that by (simp add: sigma_inside del: lit_0)
  then show "fst (process_observation link m i x e r d) = None \<longleftrightarrow> interval_contains x i"
    by (auto simp: process_observation_def c u Let_def simp del: lit_0)
qed

interpretation twin_detectors: invariant_system "\<lambda>d. \<exists>th. d = divergence_detector_new th" twin_detector_step detectors_calm
proof
  fix d assume "\<exists>th. d = divergence_detector_new th"
  then show "detectors_calm d" by (auto simp: detectors_calm_def divergence_detector_new_def)
next
  fix d d' assume calm: "detectors_calm d" and "twin_detector_step d d'"
  from this(2) show "detectors_calm d'"
  proof cases
    case observe_step
    with calm show ?thesis by (simp add: process_observation_calm)
  next
    case clear_step
    with calm show ?thesis by (simp add: detectors_calm_def clear_log_def)
  next
    case reset_step
    with calm show ?thesis by (simp add: detectors_calm_def reset_detectors_def ran_map_option_comp calm_reset)
  qed
qed

subsection \<open>The store\<close>

lemma min_by_key_least: "min_by_key (\<lambda>t. t) ks = (if ks = [] then None else Some (Min (set ks)))" for ks :: "datetime list"
proof (induction ks)
  case (Cons k ks)
  then show ?case by (cases "ks = []") (auto simp: min_def Min_less_iff not_le)
qed simp

text \<open>One more timestamp: the newest of the larger set are the newest of the old ones with it, without the oldest.\<close>

lemma newest_of_insert:
  assumes "finite T" "newest_of n T D"
  shows "newest_of n (insert t T) (if n < card (insert t D) then insert t D - {Min (insert t D)} else insert t D)"
proof -
  let ?I = "insert t D"
  from assms have D: "D \<subseteq> T" "card D = min n (card T)" "\<forall>t \<in> D. \<forall>u \<in> T - D. u < t" and fin: "finite D"
    by (auto simp: newest_of_def intro: finite_subset)
  consider (old) "t \<in> D" | (room) "t \<notin> D" "card D < n" | (full) "t \<notin> D" "card D = n" using D(2) by linarith
  then show ?thesis
  proof cases
    case old
    then have "?I = D" "insert t T = T" using D(1) by auto
    with D show ?thesis by (simp add: newest_of_def)
  next
    case room
    with D(2) have "card D = card T" by simp
    with D(1) assms(1) have "D = T" by (simp add: card_subset_eq)
    with room fin show ?thesis by (simp add: newest_of_def)
  next
    case full
    then have card: "card ?I = Suc n" using fin by simp
    let ?m = "Min ?I"
    have m: "?m \<in> ?I" "\<forall>s \<in> ?I. ?m \<le> s" using fin Min_in [of ?I] by (simp_all del: Min_insert)
    have "card (?I - {?m}) = n" using card m(1) fin by (simp add: card_Diff_singleton)
    moreover have "Suc n \<le> card (insert t T)" using card D(1) assms(1) by (metis card_mono finite_insert insert_mono)
    moreover have "u < s" if "s \<in> ?I - {?m}" "u \<in> insert t T - (?I - {?m})" for s u
    proof (cases "u = ?m")
      case True
      with that m(2) show ?thesis by (metis DiffD1 DiffD2 insertI1 order_le_less singletonD)
    next
      case False
      with that(2) have u: "u \<in> T - D" by auto
      show ?thesis
      proof (cases "s = t")
        case True
        with that(1) m have "?m \<in> D" "?m < t" by (auto simp: order_less_le)
        with u D(3) True show ?thesis by (meson order_less_trans)
      next
        case False
        with that(1) u D(3) show ?thesis by auto
      qed
    qed
    ultimately show ?thesis using card D(1) by (auto simp: newest_of_def)
  qed
qed

lemma store_snapshot_result:
  assumes "finite (dom (tst_snapshots m))" "iter_order ((tst_snapshots m)(twn_timestamp s \<mapsto> s)) ks"
  shows "store_snapshot ks s m =
    (let n = (tst_snapshots m)(twn_timestamp s \<mapsto> s) in
     Some (m\<lparr>tst_snapshots := if tst_max_snapshots m < card (dom n) then n(Min (dom n) := None) else n\<rparr>))"
proof -
  have "ks \<noteq> []" "set ks = insert (twn_timestamp s) (dom (tst_snapshots m))"
    using assms(2) by (auto simp: iter_order_def)
  then show ?thesis by (simp add: store_snapshot_def min_by_key_least Let_def)
qed

lemma stored_newest:
  assumes "stored n ss m"
  shows "tst_max_snapshots m = n \<and> newest_of n (twn_timestamp ` set ss) (dom (tst_snapshots m)) \<and>
    (\<forall>t s. tst_snapshots m t = Some s \<longrightarrow> List.find (\<lambda>s. twn_timestamp s = t) (rev ss) = Some s)"
  using assms
proof induction
  case stored_none
  then show ?case by (simp add: twin_store_new_def newest_of_def)
next
  case (stored_more ss m s ks m')
  let ?n = "(tst_snapshots m)(twn_timestamp s \<mapsto> s)"
  have "dom (tst_snapshots m) \<subseteq> twn_timestamp ` set ss" using stored_more.IH by (simp add: newest_of_def)
  then have fin: "finite (dom (tst_snapshots m))" by (rule finite_subset) simp
  have m': "m' = m\<lparr>tst_snapshots := if n < card (dom ?n) then ?n(Min (dom ?n) := None) else ?n\<rparr>"
    using stored_more.hyps(3) stored_more.IH store_snapshot_result [OF fin stored_more.hyps(2)] by (simp add: Let_def)
  have "newest_of n (insert (twn_timestamp s) (twn_timestamp ` set ss)) (dom (tst_snapshots m'))"
    using newest_of_insert [of "twn_timestamp ` set ss" n "dom (tst_snapshots m)" "twn_timestamp s"] stored_more.IH
    by (auto simp: m' split: if_splits)
  moreover have "\<forall>t v. tst_snapshots m' t = Some v \<longrightarrow> List.find (\<lambda>s. twn_timestamp s = t) (rev (ss @ [s])) = Some v"
    using stored_more.IH by (auto simp: m' split: if_splits)
  ultimately show ?case using stored_more.IH by (simp add: m')
qed

section \<open>Properties\<close>

text \<open>C39: In every reachable state of the detector an observation is reported exactly when it lies outside its
  interval: the change-point detector never raises an alarm of its own, it only adds the time to one.
\<close>

lemma divergence_iff_outside:
  assumes "reach (\<lambda>d. \<exists>th. d = divergence_detector_new th) twin_detector_step d"
  shows "fst (process_observation link m i x e r d) = None \<longleftrightarrow> interval_contains x i"
  by (rule process_observation_calm(2)) (rule twin_detectors.reach_inv [OF assms])

text \<open>A new change-point detector reports at one observation only: the first at which the cumulative sum of the
  deviations, never below zero, reaches the threshold.
\<close>

lemma cusum_reports_first_crossing:
  assumes "i < length obs"
  shows "fst (cusum_run obs (cusum_new th ref shift)) ! i \<longleftrightarrow>
    (\<forall>j \<le> i. fle th (cusum_level ref shift (lit 0) (take (Suc j) obs)) \<longleftrightarrow> j = i)"
  using cusum_run_crossing [of "cusum_new th ref shift" i obs] assms by (simp add: cusum_new_def)


section \<open>Witnesses\<close>

definition snap_at :: "datetime \<Rightarrow> twin_snapshot" where
  "snap_at t = twin_snapshot_new t world_summary_default []"

lemma divergence_iff_outside_witness:
  "fst (process_observation 1 Ber null_interval (lit 1) (EventTime 0) (ReceptionTime 0) divergence_detector_default) \<noteq> None"
proof -
  have "reach (\<lambda>d. \<exists>th. d = divergence_detector_new th) twin_detector_step divergence_detector_default"
    by (rule reach.reach_init) (auto simp: divergence_detector_default_def)
  from divergence_iff_outside [OF this] show ?thesis by (simp add: interval_contains_def null_interval_def fle_def)
qed

lemma cusum_reports_first_crossing_witness:
  "fst (cusum_run [(lit 0, 0), (lit 7, 1), (lit 9, 2)] (cusum_new (lit 5) (lit 0) (lit 1))) ! 1"
  by (subst cusum_reports_first_crossing)
    (auto simp: cusum_level_def cusum_next_def lit_numeral le_Suc_eq fsub_def fmax_def of_exact_def fle_def
      round_f64_numeral)


end
