(* ===== verification/Twin_Runtime.thy ===== *)
theory Twin_Runtime
  imports Digital_Twin
begin

text \<open>
  The components (\<open>digital-twin/src/components.rs\<close>), the systems (\<open>systems.rs\<close>) and the runtime
  (\<open>runtime.rs\<close>) of the digital twin.

  The library of entities is the parameter \<open>world_ops\<close>: its worlds hold entities of the three bundles of
  components that the runtime spawns, and schedules under their labels. \<open>world_laws\<close> is what it documents. The
  systems work on the components they ask for; the orbit propagator and the elementary functions are
  parameters. The channels are the lists of what they carry; whether the other end is open is an argument,
  and waiting for room in a channel is left out. The loop of the runtime is followed over a list of rounds.
\<close>

section \<open>Definitions\<close>

subsection \<open>Components\<close>

record twin_position =
  twp_position :: vec3
  twp_velocity :: vec3
  twp_time :: datetime

definition zero_position :: "datetime \<Rightarrow> twin_position" where
  "zero_position now = \<lparr>twp_position = (lit 0, lit 0, lit 0), twp_velocity = (lit 0, lit 0, lit 0), twp_time = now\<rparr>"

datatype twin_link_phase = TwinIdle | TwinAcquisition | TwinTracking | TwinDegraded | TwinFailed

record twin_pointing =
  twv_azimuth :: f64
  twv_elevation :: f64

definition twin_pointing_default :: twin_pointing where
  "twin_pointing_default = \<lparr>twv_azimuth = lit 0, twv_elevation = lit 0\<rparr>"

record optical_terminal_state =
  ots_vendor :: string
  ots_phase :: twin_link_phase
  ots_pointing :: twin_pointing
  ots_terminal_id :: string

definition optical_terminal_state_new :: "string \<Rightarrow> string \<Rightarrow> optical_terminal_state" where
  "optical_terminal_state_new v i =
     \<lparr>ots_vendor = v, ots_phase = TwinIdle, ots_pointing = twin_pointing_default, ots_terminal_id = i\<rparr>"

record link_budget =
  lbu_path_loss_db :: interval
  lbu_atmospheric_attenuation_db :: interval
  lbu_predicted_snr :: interval
  lbu_link_id :: uuid

definition link_budget_new :: "uuid \<Rightarrow> link_budget" where
  "link_budget_new i =
     \<lparr>lbu_path_loss_db = null_interval, lbu_atmospheric_attenuation_db = null_interval,
      lbu_predicted_snr = null_interval, lbu_link_id = i\<rparr>"

definition link_budget_update :: "interval \<Rightarrow> interval \<Rightarrow> interval \<Rightarrow> link_budget \<Rightarrow> link_budget" where
  "link_budget_update p a s b =
     b\<lparr>lbu_path_loss_db := p, lbu_atmospheric_attenuation_db := a, lbu_predicted_snr := s\<rparr>"

record station_terminal_config =
  stc_has_optical :: bool
  stc_has_rf :: bool
  stc_optical_vendor :: "string option"

definition station_terminal_config_default :: station_terminal_config where
  "station_terminal_config_default = \<lparr>stc_has_optical = False, stc_has_rf = True, stc_optical_vendor = None\<rparr>"

record twin_station =
  tws_station_id :: station_id
  tws_lat :: f64
  tws_lon :: f64
  tws_alt :: f64
  tws_terminal_config :: station_terminal_config

definition twin_station_new :: "station_id \<Rightarrow> f64 \<Rightarrow> f64 \<Rightarrow> f64 \<Rightarrow> twin_station" where
  "twin_station_new i la lo al =
     \<lparr>tws_station_id = i, tws_lat = la, tws_lon = lo, tws_alt = al,
      tws_terminal_config = station_terminal_config_default\<rparr>"

record satellite_component =
  sco_satellite_id :: satellite_id
  sco_norad_id :: u32
  sco_name :: string

definition satellite_component_new :: "satellite_id \<Rightarrow> u32 \<Rightarrow> string \<Rightarrow> satellite_component" where
  "satellite_component_new i n s = \<lparr>sco_satellite_id = i, sco_norad_id = n, sco_name = s\<rparr>"

record twin_visibility =
  tvi_is_visible :: bool
  tvi_elevation :: f64
  tvi_range :: f64
  tvi_window_start :: "datetime option"
  tvi_window_end :: "datetime option"

definition twin_visibility_new :: twin_visibility where
  "twin_visibility_new =
     \<lparr>tvi_is_visible = False, tvi_elevation = lit 0, tvi_range = lit 0, tvi_window_start = None, tvi_window_end = None\<rparr>"

definition in_window :: "datetime \<Rightarrow> twin_visibility \<Rightarrow> bool" where
  "in_window t v \<longleftrightarrow>
     (case (tvi_window_start v, tvi_window_end v) of (Some a, Some b) \<Rightarrow> a \<le> t \<and> t \<le> b | _ \<Rightarrow> False)"

text \<open>The elements of an orbit, with the two calls of the propagator.\<close>

record 'k twin_orbit =
  tor_epoch :: datetime
  tor_constants :: "'k option"
  tor_last_updated :: datetime

definition mark_updated :: "datetime \<Rightarrow> 'k twin_orbit \<Rightarrow> 'k twin_orbit" where
  "mark_updated now s = s\<lparr>tor_last_updated := now\<rparr>"

subsection \<open>Systems\<close>

text \<open>\<open>propagate\<close> gives the position and the velocity at a number of minutes after the epoch.\<close>

definition propagate_orbit :: "('k \<Rightarrow> f64 \<Rightarrow> (vec3 \<times> vec3) option) \<Rightarrow> datetime \<Rightarrow> datetime \<Rightarrow>
    'k twin_orbit \<times> twin_position \<Rightarrow> 'k twin_orbit \<times> twin_position" where
  "propagate_orbit prop now now' e =
     (let (s, p) = e in
      case tor_constants s of
        None \<Rightarrow> e
      | Some k \<Rightarrow>
          (case prop k (fdiv (f64_of_int (num_seconds (now - tor_epoch s))) (lit 60)) of
             None \<Rightarrow> e
           | Some (pos, vel) \<Rightarrow>
               (mark_updated now' s, p\<lparr>twp_position := pos, twp_velocity := vel, twp_time := now\<rparr>)))"

text \<open>The common logarithm and the exponential.\<close>

record twin_math =
  twm_log10 :: "f64 \<Rightarrow> f64"
  twm_exp :: "f64 \<Rightarrow> f64"

definition compute_atmospheric_attenuation :: "twin_math \<Rightarrow> f64 \<Rightarrow> f64 \<Rightarrow> f64" where
  "compute_atmospheric_attenuation tm slant freq =
     (let base = fmul (lit (1 / 10)) freq;
          path = fmul slant (fsub (lit 1) (twm_exp tm (fdiv (fneg slant) (lit 8))))
      in fmul base path)"

definition computed_intervals :: "twin_math \<Rightarrow> (interval \<times> interval \<times> interval) option" where
  "computed_intervals tm =
     (let freq = lit 10; slant = lit 1000;
          loss = fadd (fadd (fmul (lit 20) (twm_log10 tm slant)) (fmul (lit 20) (twm_log10 tm freq))) (lit (9245 / 100));
          atm = compute_atmospheric_attenuation tm slant freq;
          snr = fsub (fadd (fsub (fsub (lit 30) loss) atm) (lit 40)) (lit 3)
      in case from_center loss (lit 1) of
           None \<Rightarrow> None
         | Some p \<Rightarrow>
             (case from_center atm (lit (1 / 2)) of
                None \<Rightarrow> None
              | Some a \<Rightarrow> (case from_center snr (lit 2) of None \<Rightarrow> None | Some s \<Rightarrow> Some (p, a, s))))"

text \<open>Each link that has a terminal gets the intervals; an interval that is not one panics.\<close>

definition compute_link_intervals :: "twin_math \<Rightarrow> link_budget list \<Rightarrow> link_budget list option" where
  "compute_link_intervals tm bs =
     (if bs = [] then Some []
      else map_option (\<lambda>(p, a, s). map (link_budget_update p a s) bs) (computed_intervals tm))"

definition rem_euclid :: "f64 \<Rightarrow> f64 \<Rightarrow> f64" where
  "rem_euclid x y =
     (let r = frem x y in if flt r (lit 0) then fadd r (if flt y (lit 0) then fneg y else y) else r)"

definition twin_gmst :: "datetime \<Rightarrow> f64" where
  "twin_gmst t =
     (let jd = fadd (lit 2451545) (fdiv (fsub (f64_of_int (t div 1000000000)) (lit (946727935816 / 1000))) (lit 86400));
          ut = fdiv (fsub jd (lit 2451545)) (lit 36525);
          sec = fadd (lit (6731054841 / 10 ^ 5)) (fmul (fadd (lit (8640184812866 / 10 ^ 6))
                  (fmul (fsub (lit (93104 / 10 ^ 6)) (fmul (lit (62 / 10 ^ 7)) ut)) ut)) ut)
      in rem_euclid (fdiv (fmul sec pi_f64) (lit 43200)) (fmul (lit 2) pi_f64))"

definition eci_to_ecef :: "sky_math \<Rightarrow> vec3 \<Rightarrow> datetime \<Rightarrow> vec3" where
  "eci_to_ecef sk v t =
     (let (x, y, z) = v; th = twin_gmst t; c = skm_cos sk th; s = skm_sin sk th
      in (fadd (fmul x c) (fmul y s), fadd (fmul (fneg x) s) (fmul y c), z))"

definition local_enu_vectors :: "sky_math \<Rightarrow> f64 \<Rightarrow> f64 \<Rightarrow> vec3 \<times> vec3 \<times> vec3" where
  "local_enu_vectors sk lat_deg lon_deg =
     (let lat = to_radians lat_deg; lon = to_radians lon_deg;
          sin_lat = skm_sin sk lat; cos_lat = skm_cos sk lat; sin_lon = skm_sin sk lon; cos_lon = skm_cos sk lon
      in ((fneg sin_lon, cos_lon, lit 0),
          (fmul (fneg sin_lat) cos_lon, fmul (fneg sin_lat) sin_lon, cos_lat),
          (fmul cos_lat cos_lon, fmul cos_lat sin_lon, sin_lat)))"

subsection \<open>The world\<close>

datatype twin_system = PropagateOrbits | ComputeLinkIntervals | VisibilityWindows

text \<open>The label of a schedule that is given none, and the one that the tick runs.\<close>

datatype schedule_label = DefaultSchedule | TwinTickSchedule

record 'w world_ops =
  wop_new :: 'w
  wop_add_schedule :: "schedule_label \<Rightarrow> twin_system list \<Rightarrow> 'w \<Rightarrow> 'w"
  wop_run_schedule :: "schedule_label \<Rightarrow> 'w \<Rightarrow> 'w option"
  wop_spawn_satellite :: "satellite_component \<Rightarrow> twin_position \<Rightarrow> 'w \<Rightarrow> u64 \<times> 'w"
  wop_spawn_station :: "twin_station \<Rightarrow> twin_position \<Rightarrow> 'w \<Rightarrow> u64 \<times> 'w"
  wop_spawn_link :: "link_budget \<Rightarrow> optical_terminal_state \<Rightarrow> 'w \<Rightarrow> u64 \<times> 'w"
  wop_links :: "'w \<Rightarrow> link_budget list"
  wop_entities :: "'w \<Rightarrow> nat"

text \<open>A label can be run exactly when a schedule was added under it; spawning an entity adds its components
  and no schedule.\<close>

definition world_laws :: "'w world_ops \<Rightarrow> bool" where
  "world_laws ops \<longleftrightarrow>
     (\<forall>l. wop_run_schedule ops l (wop_new ops) = None) \<and>
     (\<forall>l l' ss w. wop_run_schedule ops l (wop_add_schedule ops l' ss w) = None \<longleftrightarrow>
        l \<noteq> l' \<and> wop_run_schedule ops l w = None) \<and>
     (\<forall>l c p w. wop_run_schedule ops l (snd (wop_spawn_satellite ops c p w)) = None \<longleftrightarrow> wop_run_schedule ops l w = None) \<and>
     (\<forall>l c p w. wop_run_schedule ops l (snd (wop_spawn_station ops c p w)) = None \<longleftrightarrow> wop_run_schedule ops l w = None) \<and>
     (\<forall>l b t w. wop_run_schedule ops l (snd (wop_spawn_link ops b t w)) = None \<longleftrightarrow> wop_run_schedule ops l w = None) \<and>
     wop_links ops (wop_new ops) = [] \<and>
     (\<forall>l ss w. wop_links ops (wop_add_schedule ops l ss w) = wop_links ops w) \<and>
     (\<forall>c p w. set (wop_links ops (snd (wop_spawn_satellite ops c p w))) = set (wop_links ops w)) \<and>
     (\<forall>c p w. set (wop_links ops (snd (wop_spawn_station ops c p w))) = set (wop_links ops w)) \<and>
     (\<forall>b t w. set (wop_links ops (snd (wop_spawn_link ops b t w))) = insert b (set (wop_links ops w)))"

subsection \<open>The runtime\<close>

record observed_metric =
  obm_link_id :: uuid
  obm_metric_type :: metric_type
  obm_value :: f64
  obm_observation_time :: datetime

record anomaly_signal =
  ans_divergence :: metric_divergence
  ans_signal_time :: datetime

record link_prediction =
  lkp_link_id :: uuid
  lkp_predicted_snr :: interval
  lkp_predicted_visibility :: bool

record twin_forecast =
  tfc_forecast_time :: datetime
  tfc_link_predictions :: "link_prediction list"

record twin_config =
  tcf_tick_interval :: duration
  tcf_forecast_horizon :: duration
  tcf_running :: bool

definition twin_config_default :: twin_config where
  "twin_config_default =
     \<lparr>tcf_tick_interval = duration_seconds 1, tcf_forecast_horizon = duration_seconds 300, tcf_running = False\<rparr>"

record 'w twin_runtime =
  twr_world :: 'w
  twr_detector :: divergence_detector
  twr_config :: twin_config
  twr_signals :: "anomaly_signal list"
  twr_forecast :: twin_forecast
  twr_store :: twin_store

definition twin_runtime_new :: "'w world_ops \<Rightarrow> datetime \<Rightarrow> 'w twin_runtime" where
  "twin_runtime_new ops now =
     \<lparr>twr_world = wop_add_schedule ops DefaultSchedule [PropagateOrbits, ComputeLinkIntervals, VisibilityWindows] (wop_new ops),
      twr_detector = divergence_detector_default, twr_config = twin_config_default, twr_signals = [],
      twr_forecast = \<lparr>tfc_forecast_time = now, tfc_link_predictions = []\<rparr>, twr_store = twin_store_default\<rparr>"

definition twin_add_satellite :: "'w world_ops \<Rightarrow> datetime \<Rightarrow> satellite_id \<Rightarrow> u32 \<Rightarrow> string \<Rightarrow> 'w twin_runtime \<Rightarrow>
    u64 \<times> 'w twin_runtime" where
  "twin_add_satellite ops now i n s r =
     (let (e, w) = wop_spawn_satellite ops (satellite_component_new i n s) (zero_position now) (twr_world r)
      in (e, r\<lparr>twr_world := w\<rparr>))"

definition twin_add_station :: "'w world_ops \<Rightarrow> datetime \<Rightarrow> station_id \<Rightarrow> f64 \<Rightarrow> f64 \<Rightarrow> f64 \<Rightarrow> 'w twin_runtime \<Rightarrow>
    u64 \<times> 'w twin_runtime" where
  "twin_add_station ops now i la lo al r =
     (let (e, w) = wop_spawn_station ops (twin_station_new i la lo al) (zero_position now) (twr_world r)
      in (e, r\<lparr>twr_world := w\<rparr>))"

definition twin_add_link :: "'w world_ops \<Rightarrow> uuid \<Rightarrow> 'w twin_runtime \<Rightarrow> u64 \<times> 'w twin_runtime" where
  "twin_add_link ops i r =
     (let (e, w) = wop_spawn_link ops (link_budget_new i) (optical_terminal_state_new ''Unknown'' ''terminal-1'') (twr_world r)
      in (e, r\<lparr>twr_world := w\<rparr>))"

definition twin_stop :: "'w twin_runtime \<Rightarrow> 'w twin_runtime" where
  "twin_stop r = r\<lparr>twr_config := (twr_config r)\<lparr>tcf_running := False\<rparr>\<rparr>"

definition get_predicted_interval :: "'w world_ops \<Rightarrow> uuid \<Rightarrow> metric_type \<Rightarrow> 'w twin_runtime \<Rightarrow> interval result" where
  "get_predicted_interval ops link m r =
     (case List.find (\<lambda>b. lbu_link_id b = link) (wop_links ops (twr_world r)) of
        None \<Rightarrow> Inl (Twin (''Link '' @ show_uuid link @ '' not found in twin world''))
      | Some b \<Rightarrow> Inr (case m of Snr \<Rightarrow> lbu_predicted_snr b | _ \<Rightarrow> null_interval))"

text \<open>The readings of the clock for the prediction and the signal, and whether somebody receives the signals.\<close>

definition process_observed :: "'w world_ops \<Rightarrow> datetime \<Rightarrow> datetime \<Rightarrow> bool \<Rightarrow> observed_metric \<Rightarrow> 'w twin_runtime \<Rightarrow>
    unit result \<times> 'w twin_runtime" where
  "process_observed ops now now' receiving ob r =
     (case get_predicted_interval ops (obm_link_id ob) (obm_metric_type ob) r of
        Inl e \<Rightarrow> (Inl e, r)
      | Inr i \<Rightarrow>
          (let (v, d) = process_observation (obm_link_id ob) (obm_metric_type ob) i (obm_value ob)
                          (EventTime now) (ReceptionTime (obm_observation_time ob)) (twr_detector r);
               r' = r\<lparr>twr_detector := d\<rparr>
           in case v of
                None \<Rightarrow> (Inr (), r')
              | Some v \<Rightarrow>
                  (Inr (), if receiving
                     then r'\<lparr>twr_signals := twr_signals r' @ [\<lparr>ans_divergence = v, ans_signal_time = now'\<rparr>]\<rparr> else r')))"

definition generate_forecast :: "chrono \<Rightarrow> datetime \<Rightarrow> 'w twin_runtime \<Rightarrow> twin_forecast option" where
  "generate_forecast ch now r =
     map_option (\<lambda>t. \<lparr>tfc_forecast_time = t, tfc_link_predictions = []\<rparr>) (date_add ch now (tcf_forecast_horizon (twr_config r)))"

definition link_summary :: "link_budget list \<Rightarrow> uuid \<rightharpoonup> f64" where
  "link_summary bs =
     foldl (\<lambda>m b. m(lbu_link_id b \<mapsto> fdiv (fadd (ivl_lower (lbu_predicted_snr b)) (ivl_upper (lbu_predicted_snr b))) (lit 2)))
       Map.empty bs"

definition snapshot_state :: "'w world_ops \<Rightarrow> datetime \<Rightarrow> datetime list \<Rightarrow> 'w twin_runtime \<Rightarrow> 'w twin_runtime option" where
  "snapshot_state ops now ks r =
     (let summary = \<lparr>wsu_entity_count = wop_entities ops (twr_world r),
                     wsu_link_snr_mid_db = link_summary (wop_links ops (twr_world r))\<rparr>
      in map_option (\<lambda>m. r\<lparr>twr_store := m\<rparr>)
           (store_snapshot ks (twin_snapshot_new now summary (dvd_log (twr_detector r))) (twr_store r)))"

text \<open>What a round of the loop reads from outside.\<close>

record twin_round =
  tro_forecast_now :: datetime
  tro_snapshot_now :: datetime
  tro_keys :: "datetime list"
  tro_forecast_open :: bool
  tro_observed :: "(observed_metric \<times> datetime \<times> datetime \<times> bool) list"

definition twin_tick :: "'w world_ops \<Rightarrow> chrono \<Rightarrow> twin_round \<Rightarrow> 'w twin_runtime \<Rightarrow> 'w twin_runtime option" where
  "twin_tick ops ch x r =
     (case wop_run_schedule ops TwinTickSchedule (twr_world r) of
        None \<Rightarrow> None
      | Some w \<Rightarrow>
          (let r1 = r\<lparr>twr_world := w\<rparr> in
           case generate_forecast ch (tro_forecast_now x) r1 of
             None \<Rightarrow> None
           | Some f \<Rightarrow>
               snapshot_state ops (tro_snapshot_now x) (tro_keys x)
                 (if tro_forecast_open x then r1\<lparr>twr_forecast := f\<rparr> else r1)))"

fun drain_observed :: "'w world_ops \<Rightarrow> (observed_metric \<times> datetime \<times> datetime \<times> bool) list \<Rightarrow> 'w twin_runtime \<Rightarrow>
    unit result \<times> 'w twin_runtime" where
  "drain_observed ops [] r = (Inr (), r)"
| "drain_observed ops ((ob, now, now', receiving) # obs) r =
     (case process_observed ops now now' receiving ob r of
        (Inl e, r') \<Rightarrow> (Inl e, r')
      | (Inr u, r') \<Rightarrow> drain_observed ops obs r')"

fun twin_rounds :: "'w world_ops \<Rightarrow> chrono \<Rightarrow> twin_round list \<Rightarrow> 'w twin_runtime \<Rightarrow> (unit result \<times> 'w twin_runtime) option" where
  "twin_rounds ops ch [] r = Some (Inr (), r)"
| "twin_rounds ops ch (x # xs) r =
     (if tcf_running (twr_config r) then
        (case twin_tick ops ch x r of
           None \<Rightarrow> None
         | Some r1 \<Rightarrow>
             (case drain_observed ops (tro_observed x) r1 of
                (Inl e, r2) \<Rightarrow> Some (Inl e, r2)
              | (Inr u, r2) \<Rightarrow> twin_rounds ops ch xs r2))
      else Some (Inr (), r))"

definition twin_run :: "'w world_ops \<Rightarrow> chrono \<Rightarrow> twin_round list \<Rightarrow> 'w twin_runtime \<Rightarrow> (unit result \<times> 'w twin_runtime) option" where
  "twin_run ops ch xs r = twin_rounds ops ch xs (r\<lparr>twr_config := (twr_config r)\<lparr>tcf_running := True\<rparr>\<rparr>)"

subsection \<open>Runs\<close>

inductive twin_step :: "'w world_ops \<Rightarrow> 'w twin_runtime \<Rightarrow> 'w twin_runtime \<Rightarrow> bool" for ops where
  add_satellite_step: "twin_step ops r (snd (twin_add_satellite ops now i n s r))"
| add_station_step: "twin_step ops r (snd (twin_add_station ops now i la lo al r))"
| add_link_step: "twin_step ops r (snd (twin_add_link ops i r))"
| stop_step: "twin_step ops r (twin_stop r)"
| observed_step: "twin_step ops r (snd (process_observed ops now now' receiving ob r))"

section \<open>Lemmas\<close>

text \<open>No schedule is ever added under the label of the tick, and no prediction of a link is ever updated.\<close>

definition twin_inv :: "'w world_ops \<Rightarrow> 'w twin_runtime \<Rightarrow> bool" where
  "twin_inv ops r \<longleftrightarrow> wop_run_schedule ops TwinTickSchedule (twr_world r) = None \<and>
     (\<forall>b \<in> set (wop_links ops (twr_world r)). lbu_predicted_snr b = null_interval) \<and>
     detectors_calm (twr_detector r)"

lemma process_observed_inv:
  assumes "twin_inv ops r"
  shows "twin_inv ops (snd (process_observed ops now now' receiving ob r))"
  using assms process_observation_calm(1)
  by (auto simp: twin_inv_def process_observed_def Let_def split: sum.splits prod.splits option.splits)
    (metis snd_conv)+

lemma twin_inv_step:
  assumes "world_laws ops" "twin_inv ops r" "twin_step ops r r'"
  shows "twin_inv ops r'"
  using assms(3)
proof cases
  case add_satellite_step
  with assms(1,2) show ?thesis
    by (auto simp: world_laws_def twin_inv_def twin_add_satellite_def split: prod.splits) (metis snd_conv)+
next
  case add_station_step
  with assms(1,2) show ?thesis
    by (auto simp: world_laws_def twin_inv_def twin_add_station_def split: prod.splits) (metis snd_conv)+
next
  case add_link_step
  with assms(1,2) show ?thesis
    by (auto simp: world_laws_def twin_inv_def twin_add_link_def link_budget_new_def split: prod.splits)
      (metis snd_conv insert_iff link_budget.select_convs(3))+
next
  case stop_step
  with assms(2) show ?thesis by (simp add: twin_inv_def twin_stop_def)
next
  case observed_step
  with assms(2) show ?thesis by (simp add: process_observed_inv)
qed

abbreviation fresh_runtime :: "'w world_ops \<Rightarrow> 'w twin_runtime \<Rightarrow> bool" where
  "fresh_runtime ops r \<equiv> \<exists>now. r = twin_runtime_new ops now"

lemma twin_inv_new:
  assumes "world_laws ops"
  shows "twin_inv ops (twin_runtime_new ops now)"
proof -
  have "detectors_calm divergence_detector_default"
    by (simp add: detectors_calm_def divergence_detector_default_def divergence_detector_new_def)
  with assms show ?thesis by (simp add: twin_inv_def twin_runtime_new_def world_laws_def)
qed

lemma twin_inv_reach:
  assumes "world_laws ops" "reach (fresh_runtime ops) (twin_step ops) r"
  shows "twin_inv ops r"
proof -
  have "invariant_system (fresh_runtime ops) (twin_step ops) (twin_inv ops)"
    using twin_inv_new [OF assms(1)] twin_inv_step [OF assms(1)] by unfold_locales blast+
  then show ?thesis using assms(2) by (rule invariant_system.reach_inv)
qed

text \<open>The interval \<open>[0, 0]\<close> contains the two zeros.\<close>

lemma null_interval_contains: "interval_contains x null_interval \<longleftrightarrow> feq x (lit 0)"
  by (cases x) (auto simp: interval_contains_def null_interval_def fle_def split: if_splits)

lemma predicted_interval_null:
  assumes "twin_inv ops r" "get_predicted_interval ops link m r = Inr i"
  shows "i = null_interval"
  using assms
  by (auto simp: twin_inv_def get_predicted_interval_def split: option.splits metric_type.splits dest!: find_SomeD)

section \<open>Properties\<close>

text \<open>The runtime that is run panics at its first tick: its schedule is filed under the default label, and the tick
  runs one of another name.
\<close>

lemma twin_run_panics:
  assumes "world_laws ops" "reach (fresh_runtime ops) (twin_step ops) r"
  shows "twin_run ops ch (x # xs) r = None"
  using twin_inv_reach [OF assms] by (simp add: twin_run_def twin_inv_def twin_tick_def)

text \<open>In every reachable state of the runtime an observation of a link that is known raises a signal exactly when it
  is not zero, whatever its metric: the predictions are the placeholder \<open>[0, 0]\<close>, since no tick updates them. An
  observation of an unknown link is an error, which ends the loop of the runtime.
\<close>

lemma nonzero_observation_signals:
  assumes "world_laws ops" "reach (fresh_runtime ops) (twin_step ops) r"
  shows "case process_observed ops now now' True ob r of
      (Inl e, r') \<Rightarrow> r' = r \<and> obm_link_id ob \<notin> lbu_link_id ` set (wop_links ops (twr_world r))
    | (Inr u, r') \<Rightarrow> obm_link_id ob \<in> lbu_link_id ` set (wop_links ops (twr_world r)) \<and>
        length (twr_signals r') = length (twr_signals r) + (if feq (obm_value ob) (lit 0) then 0 else 1)"
proof (cases "get_predicted_interval ops (obm_link_id ob) (obm_metric_type ob) r")
  case (Inl e)
  then have "obm_link_id ob \<notin> lbu_link_id ` set (wop_links ops (twr_world r))"
    by (auto simp: get_predicted_interval_def find_None_iff split: option.splits)
  with Inl show ?thesis by (simp add: process_observed_def)
next
  case (Inr i)
  then have known: "obm_link_id ob \<in> lbu_link_id ` set (wop_links ops (twr_world r))"
    by (auto simp: get_predicted_interval_def image_iff split: option.splits dest!: find_SomeD) metis
  have i: "i = null_interval" using twin_inv_reach [OF assms] Inr by (rule predicted_interval_null)
  have calm: "detectors_calm (twr_detector r)" using twin_inv_reach [OF assms] by (simp add: twin_inv_def)
  obtain v d where v: "process_observation (obm_link_id ob) (obm_metric_type ob) null_interval (obm_value ob)
      (EventTime now) (ReceptionTime (obm_observation_time ob)) (twr_detector r) = (v, d)" by fastforce
  with process_observation_calm(2) [OF calm] have "v = None \<longleftrightarrow> feq (obm_value ob) (lit 0)"
    by (metis fst_conv null_interval_contains)
  with Inr i v known show ?thesis by (cases v) (simp_all add: process_observed_def)
qed

section \<open>Witnesses\<close>

text \<open>A world of its labels and its links, with an entity counter.\<close>

definition plain_world :: "(schedule_label list \<times> link_budget list \<times> nat) world_ops" where
  "plain_world =
     \<lparr>wop_new = ([], [], 0), wop_add_schedule = (\<lambda>l ss (ls, bs, n). (l # ls, bs, n)),
      wop_run_schedule = (\<lambda>l (ls, bs, n). if l \<in> set ls then Some (ls, bs, n) else None),
      wop_spawn_satellite = (\<lambda>c p (ls, bs, n). (of_nat n, (ls, bs, Suc n))),
      wop_spawn_station = (\<lambda>c p (ls, bs, n). (of_nat n, (ls, bs, Suc n))),
      wop_spawn_link = (\<lambda>b t (ls, bs, n). (of_nat n, (ls, b # bs, Suc n))),
      wop_links = (\<lambda>(ls, bs, n). bs), wop_entities = (\<lambda>(ls, bs, n). n)\<rparr>"

lemma plain_world_laws: "world_laws plain_world"
  by (auto simp: world_laws_def plain_world_def)

lemma twin_run_panics_witness: "twin_run plain_world ch [x] (twin_runtime_new plain_world 0) = None"
  by (rule twin_run_panics [OF plain_world_laws]) (auto intro: reach.reach_init)

lemma nonzero_observation_signals_witness:
  "length (twr_signals (snd (process_observed plain_world 0 0 True
     \<lparr>obm_link_id = 7, obm_metric_type = Latency, obm_value = lit 1, obm_observation_time = 0\<rparr>
     (snd (twin_add_link plain_world 7 (twin_runtime_new plain_world 0)))))) = 1"
proof -
  let ?r = "snd (twin_add_link plain_world 7 (twin_runtime_new plain_world 0))"
  let ?ob = "\<lparr>obm_link_id = 7, obm_metric_type = Latency, obm_value = lit 1, obm_observation_time = 0\<rparr>"
  have "reach (fresh_runtime plain_world) (twin_step plain_world) ?r"
    by (rule reach.reach_step [of _ _ "twin_runtime_new plain_world 0"])
      (auto intro: reach.reach_init add_link_step)
  note main = nonzero_observation_signals [OF plain_world_laws this, where ob = ?ob and now = 0 and now' = 0]
  have "twr_signals ?r = []" "7 \<in> lbu_link_id ` set (wop_links plain_world (twr_world ?r))"
    by (simp_all add: twin_add_link_def twin_runtime_new_def plain_world_def link_budget_new_def)
  with main show ?thesis by (auto split: prod.splits sum.splits)
qed

end
