(* ===== verification/Agent_Core.thy ===== *)
theory Agent_Core
  imports Core_Types F64 "HOL-Library.Sublist"
begin

text \<open>
  The embedded agent: the synthesis of alerts from weak signals (\<open>agent/src/synthesis.rs\<close>), proposals and their
  approval (\<open>proposal.rs\<close>), the observation of the system (\<open>observation.rs\<close>) and the context of the queries
  (\<open>context.rs\<close>).

  A single-precision number is its bit pattern. The rendering of numbers and dates in the answers and the values
  of the JSON library (type \<open>'j\<close>) are parameters. The signals are grouped in a hash map: the order of the
  components is an argument.
\<close>

section \<open>Definitions\<close>

type_synonym f32 = u32

subsection \<open>Observation\<close>

datatype agent_pass_status = PassScheduled | PassPreparing | PassInProgress | PassCompletedState | PassFailedState | PassCancelled

record agent_pass_state =
  aps_pass_id :: pass_id
  aps_satellite_id :: string
  aps_status :: agent_pass_status
  aps_started_at :: "datetime option"
  aps_samples_received :: u64
  aps_bytes_decoded :: u64
  aps_hardware_allocated :: "string list"

record agent_device_state =
  ads_device_id :: string
  ads_healthy :: bool
  ads_temperature :: "f32 option"
  ads_utilization :: f32
  ads_current_allocation :: "pass_id option"

record agent_hardware_state =
  ahs_sdr_devices :: "agent_device_state list"
  ahs_antennas :: "agent_device_state list"
  ahs_rotators :: "agent_device_state list"
  ahs_emergency_shards_available :: nat

record signal_metrics =
  sgm_average_snr :: f32
  sgm_average_rssi :: f32
  sgm_demodulator_lock_rate :: f32
  sgm_doppler_correction_accuracy :: f32

record system_metrics =
  sym_cpu_usage :: f32
  sym_memory_usage :: f32
  sym_disk_usage :: f32
  sym_uptime_seconds :: u64

record network_metrics =
  nwm_bytes_received :: u64
  nwm_bytes_sent :: u64
  nwm_connections_active :: u32

record agent_telemetry =
  agt_signal_metrics :: signal_metrics
  agt_system_metrics :: system_metrics
  agt_network_metrics :: network_metrics

record agent_schedule_state =
  ass_pending_passes :: u64
  ass_committed_passes :: u64
  ass_next_pass_time :: "datetime option"
  ass_scheduler_running :: bool

datatype agent_log_level = LevelDebug | LevelInfo | LevelWarn | LevelError

record agent_log_entry =
  ale_timestamp :: datetime
  ale_level :: agent_log_level
  ale_component :: string
  ale_message :: string

record system_state =
  sys_captured_at :: datetime
  sys_active_passes :: "agent_pass_state list"
  sys_hardware_state :: agent_hardware_state
  sys_telemetry :: agent_telemetry
  sys_schedule_state :: agent_schedule_state
  sys_recent_logs :: "agent_log_entry list"

record historical_query =
  hqu_start_time :: datetime
  hqu_end_time :: datetime
  hqu_components :: "string list"

text \<open>The trait of the tools; \<open>None\<close> is a panic.\<close>

record observation_calls =
  obc_get_system_state :: "datetime \<Rightarrow> system_state result option"
  obc_get_pass_state :: "datetime \<Rightarrow> pass_id \<Rightarrow> agent_pass_state result option"
  obc_get_hardware_state :: "agent_hardware_state result"
  obc_get_telemetry :: "agent_telemetry result"
  obc_query_historical :: "historical_query \<Rightarrow> system_state list result"

definition mock_hardware :: agent_hardware_state where
  "mock_hardware =
     \<lparr>ahs_sdr_devices = [], ahs_antennas = [], ahs_rotators = [], ahs_emergency_shards_available = 3\<rparr>"

text \<open>20.0, -60.0, 0.98, 0.99; 0.45, 0.62, 0.34.\<close>

definition mock_telemetry :: agent_telemetry where
  "mock_telemetry =
     \<lparr>agt_signal_metrics = \<lparr>sgm_average_snr = 0x41A00000, sgm_average_rssi = 0xC2700000,
        sgm_demodulator_lock_rate = 0x3F7AE148, sgm_doppler_correction_accuracy = 0x3F7D70A4\<rparr>,
      agt_system_metrics = \<lparr>sym_cpu_usage = 0x3EE66666, sym_memory_usage = 0x3F1EB852, sym_disk_usage = 0x3EAE147B,
        sym_uptime_seconds = 86400\<rparr>,
      agt_network_metrics = \<lparr>nwm_bytes_received = 1000000000, nwm_bytes_sent = 500000000, nwm_connections_active = 42\<rparr>\<rparr>"

definition mock_system_state :: "chrono \<Rightarrow> datetime \<Rightarrow> datetime \<Rightarrow> system_state option" where
  "mock_system_state ch now1 now2 =
     map_option (\<lambda>t.
       \<lparr>sys_captured_at = now1, sys_active_passes = [], sys_hardware_state = mock_hardware,
        sys_telemetry = mock_telemetry,
        sys_schedule_state = \<lparr>ass_pending_passes = 15, ass_committed_passes = 8, ass_next_pass_time = Some t,
          ass_scheduler_running = True\<rparr>,
        sys_recent_logs = []\<rparr>) (date_add ch now2 (duration_seconds 1800))"

definition mock_pass_state :: "chrono \<Rightarrow> datetime \<Rightarrow> pass_id \<Rightarrow> agent_pass_state option" where
  "mock_pass_state ch now i =
     map_option (\<lambda>t.
       \<lparr>aps_pass_id = i, aps_satellite_id = ''SAT-001'', aps_status = PassInProgress, aps_started_at = Some t,
        aps_samples_received = 10000000, aps_bytes_decoded = 5000000, aps_hardware_allocated = [''sdr-0'']\<rparr>)
       (date_add ch now (- duration_seconds 300))"

definition default_observation :: "chrono \<Rightarrow> datetime \<Rightarrow> observation_calls" where
  "default_observation ch now2 =
     \<lparr>obc_get_system_state = (\<lambda>now. map_option Inr (mock_system_state ch now now2)),
      obc_get_pass_state = (\<lambda>now i. map_option Inr (mock_pass_state ch now i)),
      obc_get_hardware_state = Inr mock_hardware, obc_get_telemetry = Inr mock_telemetry,
      obc_query_historical = (\<lambda>q. Inr [])\<rparr>"

subsection \<open>Weak signals\<close>

datatype signal_type = StatisticalAnomaly f64 | ChangePoint | AutocorrelationBreak | RateAnomaly | PatternDeviation

record 'j weak_signal =
  wsg_signal_id :: string
  wsg_detected_at :: datetime
  wsg_signal_type :: signal_type
  wsg_component :: string
  wsg_strength :: f64
  wsg_raw_value :: f64
  wsg_expected_value :: f64
  wsg_context :: 'j

datatype alert_severity = AlertLow | AlertMedium | AlertHigh | AlertCritical

record evidence_chain =
  evc_historical_patterns :: "string list"
  evc_correlated_events :: "string list"
  evc_similar_incidents :: "string list"

record 'j anomaly_alert =
  aal_alert_id :: string
  aal_generated_at :: datetime
  aal_severity :: alert_severity
  aal_title :: string
  aal_explanation :: string
  aal_signals :: "'j weak_signal list"
  aal_recommendations :: "string list"
  aal_evidence :: evidence_chain

record 'j anomaly_synthesizer =
  asy_signal_buffer :: "'j weak_signal list"
  asy_max_buffer_size :: nat
  asy_synthesis_interval_sec :: u64
  asy_last_synthesis :: "datetime option"
  asy_dropped_signals :: u64

definition max_signal_buffer :: nat where
  "max_signal_buffer = 4096"

definition synthesizer_with_capacity :: "u64 \<Rightarrow> nat \<Rightarrow> 'j anomaly_synthesizer" where
  "synthesizer_with_capacity sec cap =
     \<lparr>asy_signal_buffer = [], asy_max_buffer_size = cap, asy_synthesis_interval_sec = sec, asy_last_synthesis = None,
      asy_dropped_signals = 0\<rparr>"

definition synthesizer_new :: "u64 \<Rightarrow> 'j anomaly_synthesizer" where
  "synthesizer_new sec = synthesizer_with_capacity sec max_signal_buffer"

definition add_signal :: "'j weak_signal \<Rightarrow> 'j anomaly_synthesizer \<Rightarrow> 'j anomaly_synthesizer" where
  "add_signal g s =
     (let s1 = (if asy_max_buffer_size s \<le> length (asy_signal_buffer s)
                then s\<lparr>asy_signal_buffer := tl (asy_signal_buffer s), asy_dropped_signals := asy_dropped_signals s + 1\<rparr>
                else s)
      in s1\<lparr>asy_signal_buffer := asy_signal_buffer s1 @ [g]\<rparr>)"

text \<open>The interval is cast to a signed number.\<close>

definition should_synthesize :: "datetime \<Rightarrow> 'j anomaly_synthesizer \<Rightarrow> bool" where
  "should_synthesize now s =
     (case asy_last_synthesis s of
        None \<Rightarrow> True
      | Some t \<Rightarrow> sint (ucast (asy_synthesis_interval_sec s) :: 64 word) \<le> num_seconds (now - t))"

definition max_strength :: "'j weak_signal list \<Rightarrow> f64" where
  "max_strength gs = foldl fmax (lit 0) (map (\<lambda>g. fabs (wsg_strength g)) gs)"

definition alert_severity_of :: "f64 \<Rightarrow> alert_severity" where
  "alert_severity_of m =
     (if flt (lit 5) m then AlertCritical
      else if flt (lit 3) m then AlertHigh
      else if flt (lit 2) m then AlertMedium
      else AlertLow)"

definition infer_pattern :: "'j weak_signal list \<Rightarrow> string" where
  "infer_pattern gs =
     (if list_ex (\<lambda>g. wsg_signal_type g = ChangePoint) gs then ''sudden state change''
      else if list_ex (\<lambda>g. case wsg_signal_type g of StatisticalAnomaly z \<Rightarrow> True | _ \<Rightarrow> False) gs
        then ''statistical deviation from baseline''
      else ''multi-factor anomaly'')"

definition signal_recommendation :: "'j weak_signal \<Rightarrow> string list" where
  "signal_recommendation g =
     (case wsg_signal_type g of
        StatisticalAnomaly z \<Rightarrow>
          (if flt (lit 4) z then [''Investigate '' @ wsg_component g @ '' - extreme statistical anomaly detected''] else [])
      | ChangePoint \<Rightarrow> [''Check '' @ wsg_component g @ '' configuration - change point detected'']
      | _ \<Rightarrow> [])"

definition generate_recommendations :: "'j weak_signal list \<Rightarrow> string list" where
  "generate_recommendations gs =
     (let rs = concat (map signal_recommendation gs)
      in if rs = [] then [''Monitor for further signals''] else rs)"

text \<open>\<open>fixed2\<close> renders a number with two digits.\<close>

definition synthesize_component_alert :: "(f64 \<Rightarrow> string) \<Rightarrow> (string \<Rightarrow> uuid) \<Rightarrow> (string \<Rightarrow> datetime) \<Rightarrow> string \<Rightarrow>
    'j weak_signal list \<Rightarrow> 'j anomaly_alert" where
  "synthesize_component_alert fixed2 fresh clock c gs =
     (let m = max_strength gs in
      \<lparr>aal_alert_id = show_uuid (fresh c), aal_generated_at = clock c, aal_severity = alert_severity_of m,
       aal_title = ''Anomaly detected in '' @ c,
       aal_explanation = ''Detected '' @ show_nat (length gs) @ '' weak signals from '' @ c @ '' with maximum strength '' @
         fixed2 m @ ''. Pattern suggests '' @ infer_pattern gs @ ''.'',
       aal_signals = gs, aal_recommendations = generate_recommendations gs,
       aal_evidence = \<lparr>evc_historical_patterns = [], evc_correlated_events = [], evc_similar_incidents = []\<rparr>\<rparr>)"

definition group_signals :: "'j weak_signal list \<Rightarrow> string \<rightharpoonup> 'j weak_signal list" where
  "group_signals gs =
     foldl (\<lambda>m g. m(wsg_component g \<mapsto> (case m (wsg_component g) of None \<Rightarrow> [] | Some xs \<Rightarrow> xs) @ [g])) Map.empty gs"

text \<open>The groups are iterated in the order \<open>ks\<close>.\<close>

definition synthesize :: "(f64 \<Rightarrow> string) \<Rightarrow> (string \<Rightarrow> uuid) \<Rightarrow> (string \<Rightarrow> datetime) \<Rightarrow> datetime \<Rightarrow> string list \<Rightarrow>
    'j anomaly_synthesizer \<Rightarrow> 'j anomaly_alert list \<times> 'j anomaly_synthesizer" where
  "synthesize fixed2 fresh clock now ks s =
     (let m = group_signals (asy_signal_buffer s);
          alerts = concat (map (\<lambda>c. case m c of
            None \<Rightarrow> []
          | Some gs \<Rightarrow> if 3 \<le> length gs then [synthesize_component_alert fixed2 fresh clock c gs] else []) ks)
      in (alerts, s\<lparr>asy_last_synthesis := Some now, asy_signal_buffer := []\<rparr>))"

section \<open>Lemmas\<close>

lemma flt_fmax: "flt t (fmax a b) \<longleftrightarrow> flt t a \<or> flt t b"
proof (cases "a = NaN \<or> b = NaN")
  case True
  then show ?thesis by (cases t) (auto simp: fmax_def)
next
  case False
  then show ?thesis
    using flt_trans [of t a b] flt_not_flt_trans [of t b a] by (auto simp: fmax_def)
qed

lemma flt_foldl_fmax: "flt t (foldl fmax a xs) \<longleftrightarrow> flt t a \<or> (\<exists>x \<in> set xs. flt t x)"
  by (induction xs arbitrary: a) (auto simp: flt_fmax)

lemma flt_max_strength:
  assumes "\<not> flt t (lit 0)"
  shows "flt t (max_strength gs) \<longleftrightarrow> (\<exists>g \<in> set gs. flt t (fabs (wsg_strength g)))"
  using assms by (simp add: max_strength_def flt_foldl_fmax)

lemma group_signals_snoc:
  "group_signals (gs @ [g]) = (group_signals gs)(wsg_component g \<mapsto>
     (case group_signals gs (wsg_component g) of None \<Rightarrow> [] | Some xs \<Rightarrow> xs) @ [g])"
  by (simp add: group_signals_def)

lemma group_signals_filter:
  "group_signals gs c = (let xs = filter (\<lambda>g. wsg_component g = c) gs in if xs = [] then None else Some xs)"
proof (induction gs rule: rev_induct)
  case Nil
  then show ?case by (simp add: group_signals_def)
next
  case (snoc g gs)
  then show ?case by (auto simp: group_signals_snoc Let_def)
qed

lemma add_signal_fields:
  "asy_signal_buffer (add_signal g s) =
     (if asy_max_buffer_size s \<le> length (asy_signal_buffer s) then tl (asy_signal_buffer s) else asy_signal_buffer s) @ [g]"
  "asy_max_buffer_size (add_signal g s) = asy_max_buffer_size s"
  "asy_dropped_signals (add_signal g s) =
     (if asy_max_buffer_size s \<le> length (asy_signal_buffer s) then asy_dropped_signals s + 1 else asy_dropped_signals s)"
  by (simp_all add: add_signal_def Let_def)

section \<open>Properties\<close>

text \<open>Whatever signals are added to a new synthesizer, it holds the newest of them, as many as its capacity, and
  counts how many it dropped. A capacity of zero holds one signal all the same, and counts it as dropped.
\<close>

lemma buffer_keeps_newest:
  "asy_signal_buffer (fold add_signal gs (synthesizer_with_capacity sec cap)) = drop (length gs - max 1 cap) gs \<and>
   asy_dropped_signals (fold add_signal gs (synthesizer_with_capacity sec cap)) = of_nat (length gs - cap)"
proof -
  define s where "s gs = fold add_signal gs (synthesizer_with_capacity sec cap :: 'a anomaly_synthesizer)" for gs
  have s_snoc: "s (gs @ [g]) = add_signal g (s gs)" for gs g by (simp add: s_def)
  have "asy_max_buffer_size (s gs) = cap \<and> asy_signal_buffer (s gs) = drop (length gs - max 1 cap) gs \<and>
    asy_dropped_signals (s gs) = of_nat (length gs - cap)"
  proof (induction gs rule: rev_induct)
    case Nil
    then show ?case by (simp add: s_def synthesizer_with_capacity_def)
  next
    case (snoc g gs)
    have "Suc (length gs) - max 1 cap = (if max 1 cap \<le> length gs then Suc (length gs - max 1 cap) else 0)" by auto
    then show ?case using snoc.IH
      by (auto simp: s_snoc add_signal_fields Suc_diff_le tl_drop drop_Suc max_def Suc_le_eq split: if_splits)
  qed
  then show ?thesis by (simp add: s_def)
qed

text \<open>A synthesis makes one alert for each component with at least three signals, with all signals of that component
  in the order in which they were added, and no other; the signals of all components are dropped.
\<close>

lemma alerts_exactly_frequent:
  assumes "iter_order (group_signals (asy_signal_buffer s)) ks"
  shows "map aal_signals (fst (synthesize fixed2 fresh clock now ks s)) =
      map (\<lambda>c. filter (\<lambda>g. wsg_component g = c) (asy_signal_buffer s))
        (filter (\<lambda>c. 3 \<le> length (filter (\<lambda>g. wsg_component g = c) (asy_signal_buffer s))) ks) \<and>
    set ks = wsg_component ` set (asy_signal_buffer s) \<and> distinct ks \<and>
    asy_signal_buffer (snd (synthesize fixed2 fresh clock now ks s)) = []"
proof -
  have "map aal_signals (concat (map (\<lambda>c. case group_signals gs c of
            None \<Rightarrow> []
          | Some gs \<Rightarrow> if 3 \<le> length gs then [synthesize_component_alert fixed2 fresh clock c gs] else []) ks)) =
      map (\<lambda>c. filter (\<lambda>g. wsg_component g = c) gs) (filter (\<lambda>c. 3 \<le> length (filter (\<lambda>g. wsg_component g = c) gs)) ks)"
    for gs :: "'a weak_signal list" and ks
    by (induction ks) (auto simp: group_signals_filter Let_def synthesize_component_alert_def)
  moreover have "dom (group_signals gs) = wsg_component ` set gs" for gs :: "'a weak_signal list"
    by (auto simp: dom_def group_signals_filter Let_def filter_empty_conv)
  ultimately show ?thesis using assms by (simp add: synthesize_def Let_def iter_order_def)
qed

text \<open>The severity of an alert is that of its strongest signal, by magnitude: critical above 5, high above 3, medium
  above 2. A strength that is not a number counts as none.
\<close>

lemma severity_by_strongest:
  "aal_severity (synthesize_component_alert fixed2 fresh clock c gs) =
     (if \<exists>g \<in> set gs. flt (lit 5) (fabs (wsg_strength g)) then AlertCritical
      else if \<exists>g \<in> set gs. flt (lit 3) (fabs (wsg_strength g)) then AlertHigh
      else if \<exists>g \<in> set gs. flt (lit 2) (fabs (wsg_strength g)) then AlertMedium
      else AlertLow)"
proof -
  have "\<not> flt (lit 5) (lit 0)" "\<not> flt (lit 3) (lit 0)" "\<not> flt (lit 2) (lit 0)" by (simp_all add: lit_numeral)
  then show ?thesis
    by (simp add: synthesize_component_alert_def alert_severity_of_def flt_max_strength Let_def del: lit_0)
qed

section \<open>Witnesses\<close>

definition plain_signal :: "string \<Rightarrow> unit weak_signal" where
  "plain_signal c =
     \<lparr>wsg_signal_id = ''s'', wsg_detected_at = 0, wsg_signal_type = ChangePoint, wsg_component = c, wsg_strength = lit 4,
      wsg_raw_value = lit 0, wsg_expected_value = lit 0, wsg_context = ()\<rparr>"

lemma alerts_exactly_frequent_witness:
  "length (fst (synthesize (\<lambda>x. ''4.00'') (\<lambda>c. 1) (\<lambda>c. 0) 0 [''a'', ''b'']
     (fold add_signal (map plain_signal [''a'', ''b'', ''a'', ''a'']) (synthesizer_new 60)))) = 1"
proof -
  define s where "s = fold add_signal (map plain_signal [''a'', ''b'', ''a'', ''a'']) (synthesizer_new 60)"
  have buf: "asy_signal_buffer s = map plain_signal [''a'', ''b'', ''a'', ''a'']"
    by (simp add: s_def synthesizer_new_def synthesizer_with_capacity_def max_signal_buffer_def add_signal_def)
  have "iter_order (group_signals (asy_signal_buffer s)) [''a'', ''b'']"
    unfolding buf by (auto simp: iter_order_def dom_def group_signals_filter plain_signal_def split: if_splits)
  from alerts_exactly_frequent [OF this, of "\<lambda>x. ''4.00''" "\<lambda>c. 1" "\<lambda>c. 0" 0]
  have "length (map aal_signals (fst (synthesize (\<lambda>x. ''4.00'') (\<lambda>c. 1) (\<lambda>c. 0) 0 [''a'', ''b''] s))) = 1"
    by (simp add: buf plain_signal_def)
  then show ?thesis by (simp add: s_def)
qed

end
