(* ===== verification/Agent_Context.thy ===== *)
theory Agent_Context
  imports Agent_Core
begin

text \<open>
  The proposals of the agent and their approval (\<open>agent/src/proposal.rs\<close>) and the context of its queries
  (\<open>context.rs\<close>).

  The manager of the proposals is a store under their identifiers; its steps are an inductive relation that
  counts, for each identifier, whether it was approved. The answers of a query are texts: the rendering of
  single-precision numbers and of dates is a parameter.
\<close>

section \<open>Definitions\<close>

subsection \<open>Proposals\<close>

datatype 'j proposal_type =
    HardwareReallocation string string string
  | ScheduleAdjustment string datetime
  | FailoverInitiation string string
  | ConfigChange string string 'j
  | AlertGeneration string string

datatype risk_level = RiskLow | RiskMedium | RiskHigh | RiskCritical

record impact_assessment =
  ias_affected_passes :: "string list"
  ias_risk_level :: risk_level
  ias_benefits :: "string list"
  ias_drawbacks :: "string list"

datatype approval_status = StatusPending | StatusApproved | StatusRejected | StatusExecuted | StatusFailed

record execution_result =
  exr_success :: bool
  exr_output :: string
  exr_completed_at :: datetime

record 'j action_proposal =
  apl_proposal_id :: string
  apl_created_at :: datetime
  apl_proposal_type :: "'j proposal_type"
  apl_description :: string
  apl_rationale :: string
  apl_expected_impact :: impact_assessment
  apl_approval_status :: approval_status
  apl_decided_at :: "datetime option"
  apl_decided_by :: "string option"
  apl_execution_result :: "execution_result option"

type_synonym 'j proposal_manager = "string \<rightharpoonup> 'j action_proposal"

definition proposal_manager_new :: "'j proposal_manager" where
  "proposal_manager_new = Map.empty"

definition create_proposal :: "'j action_proposal \<Rightarrow> 'j proposal_manager \<Rightarrow> string \<times> 'j proposal_manager" where
  "create_proposal p m = (apl_proposal_id p, m(apl_proposal_id p \<mapsto> p))"

definition get_proposal :: "string \<Rightarrow> 'j proposal_manager \<Rightarrow> 'j action_proposal option" where
  "get_proposal i m = m i"

definition proposal_not_found :: "string + unit" where
  "proposal_not_found = Inl ''Proposal not found''"

definition approve_proposal :: "datetime \<Rightarrow> string \<Rightarrow> string \<Rightarrow> 'j proposal_manager \<Rightarrow> (string + unit) \<times> 'j proposal_manager" where
  "approve_proposal now i who m =
     (case m i of
        None \<Rightarrow> (proposal_not_found, m)
      | Some p \<Rightarrow>
          (Inr (), m(i \<mapsto> p\<lparr>apl_approval_status := StatusApproved, apl_decided_at := Some now, apl_decided_by := Some who\<rparr>)))"

definition reject_proposal :: "datetime \<Rightarrow> string \<Rightarrow> string \<Rightarrow> 'j proposal_manager \<Rightarrow> (string + unit) \<times> 'j proposal_manager" where
  "reject_proposal now i who m =
     (case m i of
        None \<Rightarrow> (proposal_not_found, m)
      | Some p \<Rightarrow>
          (Inr (), m(i \<mapsto> p\<lparr>apl_approval_status := StatusRejected, apl_decided_at := Some now, apl_decided_by := Some who\<rparr>)))"

definition execute_proposal :: "datetime \<Rightarrow> string \<Rightarrow> 'j proposal_manager \<Rightarrow> (string + unit) \<times> 'j proposal_manager" where
  "execute_proposal now i m =
     (case m i of
        None \<Rightarrow> (proposal_not_found, m)
      | Some p \<Rightarrow>
          if apl_approval_status p \<noteq> StatusApproved then (Inl ''Proposal not approved'', m)
          else (Inr (), m(i \<mapsto> p\<lparr>apl_approval_status := StatusExecuted,
            apl_execution_result := Some \<lparr>exr_success = True, exr_output = ''Action executed successfully'', exr_completed_at = now\<rparr>\<rparr>)))"

definition pending_proposals :: "string list \<Rightarrow> 'j proposal_manager \<Rightarrow> 'j action_proposal list" where
  "pending_proposals ks m = filter (\<lambda>p. apl_approval_status p = StatusPending) (map_values m ks)"

definition requires_approval :: "string list \<Rightarrow> 'j proposal_manager \<Rightarrow> 'j action_proposal list" where
  "requires_approval ks m =
     filter (\<lambda>p. apl_approval_status p = StatusPending \<and>
       (ias_risk_level (apl_expected_impact p) = RiskMedium \<or> ias_risk_level (apl_expected_impact p) = RiskHigh \<or>
        ias_risk_level (apl_expected_impact p) = RiskCritical)) (map_values m ks)"

definition autonomous_actions :: "string list \<Rightarrow> 'j proposal_manager \<Rightarrow> 'j action_proposal list" where
  "autonomous_actions ks m =
     filter (\<lambda>p. apl_approval_status p = StatusPending \<and> ias_risk_level (apl_expected_impact p) = RiskLow) (map_values m ks)"

subsection \<open>Queries\<close>

datatype agent_role = RoleUser | RoleAgent

record context_entry =
  cen_timestamp :: datetime
  cen_role :: agent_role
  cen_content :: string

record agent_context =
  acx_observation_tool :: observation_calls
  acx_context_window :: "context_entry list"

record query_result =
  qre_answer :: string
  qre_evidence :: "string list"
  qre_system_state :: "system_state option"
  qre_confidence :: f64

definition agent_context_new :: "observation_calls \<Rightarrow> agent_context" where
  "agent_context_new t = \<lparr>acx_observation_tool = t, acx_context_window = []\<rparr>"

definition add_context :: "datetime \<Rightarrow> agent_role \<Rightarrow> string \<Rightarrow> agent_context \<Rightarrow> agent_context" where
  "add_context now r s x =
     (let w = acx_context_window x @ [\<lparr>cen_timestamp = now, cen_role = r, cen_content = s\<rparr>]
      in x\<lparr>acx_context_window := if 100 < length w then tl w else w\<rparr>)"

text \<open>The texts \<open>{:.1}\<close> of a number, \<open>{:.0}\<close> of a hundred times a number, \<open>{:?}\<close> of an optional date and that of a
  date.\<close>

record agent_texts =
  atx_decimal :: "f32 \<Rightarrow> string"
  atx_percent :: "f32 \<Rightarrow> string"
  atx_debug_date :: "datetime option \<Rightarrow> string"
  atx_date :: "datetime \<Rightarrow> string"

definition str_contains :: "string \<Rightarrow> string \<Rightarrow> bool" where
  "str_contains s p \<longleftrightarrow> list_ex (\<lambda>k. prefix p (drop k s)) [0..<Suc (length s)]"

definition generate_answer :: "agent_texts \<Rightarrow> string \<Rightarrow> system_state option \<Rightarrow> string" where
  "generate_answer tx q st =
     (case st of
        None \<Rightarrow> ''Unable to retrieve system state. Please check system health.''
      | Some s \<Rightarrow>
          if str_contains q ''active'' \<and> str_contains q ''pass'' then
            ''Currently '' @ show_nat (length (sys_active_passes s)) @ '' active passes. Next pass at '' @
            atx_debug_date tx (ass_next_pass_time (sys_schedule_state s)) @ ''.''
          else if str_contains q ''hardware'' then
            (let h = sys_hardware_state s in
             ''Hardware state: '' @ show_nat (length (ahs_sdr_devices h)) @ '' SDRs, '' @ show_nat (length (ahs_antennas h)) @
             '' antennas, '' @ show_nat (length (ahs_rotators h)) @ '' rotators. '' @
             show_nat (ahs_emergency_shards_available h) @ '' emergency shards available.'')
          else if str_contains q ''telemetry'' then
            (let t = sys_telemetry s in
             ''Average SNR: '' @ atx_decimal tx (sgm_average_snr (agt_signal_metrics t)) @ '' dB, CPU usage: '' @
             atx_percent tx (sym_cpu_usage (agt_system_metrics t)) @ ''%, Memory usage: '' @
             atx_percent tx (sym_memory_usage (agt_system_metrics t)) @ ''%'')
          else ''I can answer questions about active passes, hardware state, telemetry, and scheduling. What would you like to know?'')"

text \<open>A failure of the tool is an answer; a panic is \<open>None\<close>.\<close>

definition agent_query :: "agent_texts \<Rightarrow> datetime \<Rightarrow> datetime \<Rightarrow> datetime \<Rightarrow> string \<Rightarrow> agent_context \<Rightarrow>
    (query_result \<times> agent_context) option" where
  "agent_query tx now1 now2 now3 q x =
     (let x1 = add_context now1 RoleUser q x in
      map_option (\<lambda>r.
        (let st = (case r of Inl e \<Rightarrow> None | Inr s \<Rightarrow> Some s); a = generate_answer tx q st in
         (\<lparr>qre_answer = a, qre_evidence = [], qre_system_state = st, qre_confidence = lit (8 / 10)\<rparr>,
          add_context now3 RoleAgent a x1)))
        (obc_get_system_state (acx_observation_tool x1) now2))"

definition agent_explain :: "string \<Rightarrow> query_result" where
  "agent_explain i =
     \<lparr>qre_answer = ''Event '' @ i @ '': This would be explained using historical context and bi-temporal logs.'',
      qre_evidence = [''Bi-temporal log entry''], qre_system_state = None, qre_confidence = lit (7 / 10)\<rparr>"

definition draft_incident_report :: "agent_texts \<Rightarrow> datetime \<Rightarrow> string" where
  "draft_incident_report tx now =
     (let nl = [CHR 0x0A]; todo = ''[Agent would synthesize this]'' in
      ''Incident Report'' @ nl @ ''==============='' @ nl @ ''Timestamp: '' @ atx_date tx now @ nl @ ''Summary: '' @ todo @ nl @
      ''Details: '' @ todo @ nl @ ''Recommendations: '' @ todo)"

subsection \<open>Runs\<close>

text \<open>The identifiers that were approved, or submitted as anything but pending or rejected.\<close>

definition undecided :: "'j action_proposal \<Rightarrow> bool" where
  "undecided p \<longleftrightarrow> apl_approval_status p = StatusPending \<or> apl_approval_status p = StatusRejected"

inductive proposal_step :: "'j proposal_manager \<times> string set \<Rightarrow> 'j proposal_manager \<times> string set \<Rightarrow> bool" where
  create_step: "proposal_step (m, A)
     (snd (create_proposal p m), if undecided p then A else insert (apl_proposal_id p) A)"
| approve_step: "proposal_step (m, A) (snd (approve_proposal now i who m), insert i A)"
| reject_step: "proposal_step (m, A) (snd (reject_proposal now i who m), A)"
| execute_step: "proposal_step (m, A) (snd (execute_proposal now i m), A)"

inductive_cases proposal_stepE: "proposal_step s t"

section \<open>Lemmas\<close>

definition approved_only :: "'j proposal_manager \<times> string set \<Rightarrow> bool" where
  "approved_only s \<longleftrightarrow> (\<forall>i p. fst s i = Some p \<longrightarrow> i \<notin> snd s \<longrightarrow> undecided p)"

lemma undecided_simps:
  "apl_approval_status p = StatusPending \<Longrightarrow> undecided p"
  "undecided (p\<lparr>apl_approval_status := StatusRejected, apl_decided_at := t, apl_decided_by := w\<rparr>)"
  "apl_approval_status p = StatusApproved \<Longrightarrow> \<not> undecided p"
  by (simp_all add: undecided_def)

lemma approved_only_step:
  assumes "approved_only s" "proposal_step s t"
  shows "approved_only t"
  using assms(2)
proof cases
  case (create_step m A p)
  with assms(1) show ?thesis by (auto simp: approved_only_def create_proposal_def)
next
  case (approve_step m A now i who)
  with assms(1) show ?thesis by (simp add: approved_only_def approve_proposal_def split: option.splits)
next
  case (reject_step m A now i who)
  with assms(1) show ?thesis by (simp add: approved_only_def reject_proposal_def undecided_simps split: option.splits)
next
  case (execute_step m A now i)
  with assms(1) show ?thesis
    by (simp add: approved_only_def execute_proposal_def split: option.splits) (metis undecided_simps(3))
qed

interpretation proposals: invariant_system "\<lambda>s. s = (proposal_manager_new, {})" proposal_step approved_only
proof unfold_locales
  show "approved_only s" if "s = (proposal_manager_new, {})" for s :: "'j proposal_manager \<times> string set"
    using that by (simp add: approved_only_def proposal_manager_new_def)
qed (rule approved_only_step)

section \<open>Properties\<close>

text \<open>No action is executed that was not approved: in every reachable state of the manager the execution of a
  proposal that nobody approved fails and changes nothing, also of one that is listed as an autonomous action. (A caller
  can submit a proposal as approved already; its identifier counts as approved.)
\<close>

lemma no_execution_without_approval:
  assumes "reach (\<lambda>s. s = (proposal_manager_new, {})) proposal_step (m, A)" "i \<notin> A"
  shows "isl (fst (execute_proposal now i m)) \<and> snd (execute_proposal now i m) = m"
proof (cases "m i")
  case (Some p)
  with proposals.reach_inv [OF assms(1)] assms(2) have "undecided p" by (simp add: approved_only_def)
  then have "apl_approval_status p \<noteq> StatusApproved" using undecided_simps(3) by blast
  with Some show ?thesis by (simp add: execute_proposal_def)
qed (simp add: execute_proposal_def proposal_not_found_def)

text \<open>But an approval overrides every earlier decision: a proposal that was rejected or executed already is executed
  once more after it.
\<close>

lemma approval_overrides:
  assumes "get_proposal i m = Some p"
  shows "fst (execute_proposal t i (snd (approve_proposal now i who m))) = Inr ()"
  using assms by (simp add: get_proposal_def approve_proposal_def execute_proposal_def)

text \<open>The context holds the last hundred entries of all that were added.\<close>

lemma context_keeps_newest:
  "map cen_content (acx_context_window (fold (\<lambda>(t, r, s). add_context t r s) es (agent_context_new tool))) =
     drop (length es - 100) (map (\<lambda>(t, r, s). s) es)"
proof -
  have "length (acx_context_window x) \<le> 100 \<Longrightarrow>
      map cen_content (acx_context_window (add_context t r s x)) =
        drop (Suc (length (acx_context_window x)) - 100) (map cen_content (acx_context_window x) @ [s]) \<and>
      length (acx_context_window (add_context t r s x)) = min 100 (Suc (length (acx_context_window x)))" for t r s x
  proof (cases "length (acx_context_window x) = 100")
    case True
    then obtain c w where "acx_context_window x = c # w" "length w = 99" by (cases "acx_context_window x") auto
    then show ?thesis by (simp add: add_context_def)
  next
    case False
    moreover assume "length (acx_context_window x) \<le> 100"
    ultimately show ?thesis by (simp add: add_context_def)
  qed
  note add = this
  have "length (acx_context_window (fold (\<lambda>(t, r, s). add_context t r s) es (agent_context_new tool))) = min 100 (length es) \<and>
      map cen_content (acx_context_window (fold (\<lambda>(t, r, s). add_context t r s) es (agent_context_new tool))) =
        drop (length es - 100) (map (\<lambda>(t, r, s). s) es)"
  proof (induction es rule: rev_induct)
    case Nil
    then show ?case by (simp add: agent_context_new_def)
  next
    case (snoc e es)
    obtain t r s where e: "e = (t, r, s)" by (cases e)
    let ?x = "fold (\<lambda>(t, r, s). add_context t r s) es (agent_context_new tool)"
    have len: "length (acx_context_window ?x) = min 100 (length es)" using snoc.IH by blast
    with add [of ?x t r s] snoc.IH show ?case
      using Suc_diff_le [of 100 "length es"]
      by (cases "length es < 100") (simp_all add: e)
  qed
  then show ?thesis by blast
qed

section \<open>Witnesses\<close>

definition plain_proposal :: "unit action_proposal" where
  "plain_proposal =
     \<lparr>apl_proposal_id = ''p'', apl_created_at = 0, apl_proposal_type = FailoverInitiation ''x'' ''y'', apl_description = ''d'',
      apl_rationale = ''r'', apl_expected_impact = \<lparr>ias_affected_passes = [], ias_risk_level = RiskLow, ias_benefits = [],
      ias_drawbacks = []\<rparr>, apl_approval_status = StatusPending, apl_decided_at = None, apl_decided_by = None,
      apl_execution_result = None\<rparr>"

lemma no_execution_without_approval_witness:
  "isl (fst (execute_proposal 1 ''p'' (snd (create_proposal plain_proposal proposal_manager_new))))"
proof -
  have "proposal_step (proposal_manager_new, {}) (snd (create_proposal plain_proposal proposal_manager_new),
      if undecided plain_proposal then {} else insert (apl_proposal_id plain_proposal) {})"
    by (rule create_step)
  then have step: "proposal_step (proposal_manager_new, {}) (snd (create_proposal plain_proposal proposal_manager_new), {})"
    by (simp add: undecided_def plain_proposal_def)
  have "reach (\<lambda>s. s = (proposal_manager_new, {})) proposal_step
      (snd (create_proposal plain_proposal proposal_manager_new), {})"
    using reach_self [of "(proposal_manager_new, {})" proposal_step] step by (rule reach_step)
  from no_execution_without_approval [OF this] show ?thesis by simp
qed

end
