(* ===== verification/Spec2Isabelle.thy ===== *)
theory Spec2Isabelle
  imports
    Hardware_Pool Hardware_Shard Emergency_Shard Tenant_Shard
    Uplink_Command Uplink_Queue Uplink_Confirmation Uplink_Scheduler Uplink_Transmitter Uplink_Crypto
    Bitemporal_Log Bitemporal_Snapshot Deployment Control_Plane_Handoff Optical_Link
    Scheduler_Fairness
    Ordered_Map Caching
    Oisl_Types Oisl_Topology Best_First Oisl_Routing Oisl_Mission Oisl_Tasking Oisl_Compiler Oisl_Validator
    Keyhole Pass_Schedule Schedule_Optimizer Batching Snapshotting Regulation
    Federation_Attestation Federation_Peers Federation_Spectrum
    Oisl_Resource Oisl_Satellite Oisl_Federation Control_Placement Control_Assignment
    Log_Provenance Policy_Compiler Oisl_Pat Constellation Pass_Prediction Antenna_Control
    Binary_Heap Optical_Routing Optical_Oct Optical_Search Optical_Acquisition Optical_Terminals Optical_Attestation
    Digital_Twin Twin_Runtime Agent_Core Agent_Context
begin

text \<open>
  A verification development for GroundCore, a ground-station system written in Rust.

  \<^bold>\<open>The program.\<close> GroundCore schedules satellite passes, gives each pass its hardware and memory,
  sends commands over the uplink, records what happened in a hash-chained log, and hands links and
  control over between stations. Each crate under \<open>src/\<close> is one part; the parts share the identifiers
  and the error type of \<open>core\<close>. This development models the parts whose logic is discrete: state
  machines, queues, stores, chains and bounds. A pass takes devices from the hardware pool and a shard
  of memory; a command is validated, queued, scheduled into a window, sent by a transmitter and
  tracked until it is acknowledged; the log and its snapshots record entries; the supervisor runs the
  processes of the passes and deploys new binaries; handoffs move satellites between control nodes.

  \<^bold>\<open>Theories.\<close>
  \<^item> \<open>Prelude\<close>: integers, time, rendering, maps with iteration orders, vectors, locks of one task,
    reachable states; the interfaces \<open>invariant_system\<close> and \<open>keyed_update\<close>.
  \<^item> \<open>F64\<close>: binary64 arithmetic with rounding, comparisons and casts.
  \<^item> \<open>Core_Types\<close> (\<open>core/src/types.rs\<close>, \<open>core/src/error.rs\<close>): identifiers, bands, errors; the parameters
    for the date and AES-GCM libraries.
  \<^item> \<open>Hardware_Pool\<close> (\<open>hardware/src/pool.rs\<close>): circuit breakers, devices and the pool. Allocation is
    exclusive in every reachable state but for the devices that were added again while allocated, succeeds exactly when
    every device is free, and is undone by release; a request that fails half-way leaks; three failures trip a breaker.
  \<^item> \<open>Hardware_Shard\<close> (\<open>hardware/src/shard.rs\<close>): the ring buffer implements a bounded queue (interface
    \<open>sample_fifo\<close>); the log and the reset of a pass shard.
  \<^item> \<open>Emergency_Shard\<close>, \<open>Tenant_Shard\<close> (\<open>hardware/src/emergency.rs\<close>, \<open>tenant.rs\<close>): pools of shards refine
    sets of free slots; the encryption of a tenant round-trips.
  \<^item> \<open>Uplink_Command\<close>, \<open>Uplink_Queue\<close>, \<open>Uplink_Confirmation\<close>, \<open>Uplink_Scheduler\<close>, \<open>Uplink_Transmitter\<close>,
    \<open>Uplink_Crypto\<close> (\<open>uplink/src/\<close>, one file each): validation and the derived order; the queue with the
    locks of \<open>dequeue\<close>; acknowledgements, timeouts and retries; windows and conflicts; the two
    implementations of the trait \<open>Transmitter\<close> (interface \<open>transmitter_trait\<close>, interpreted for both);
    the two cryptographic backends.
  \<^item> \<open>Bitemporal_Log\<close>, \<open>Bitemporal_Snapshot\<close> (\<open>bitemporal/src/\<close>): the chain of entries, what its
    verification proves and misses, and the retained snapshots.
  \<^item> \<open>Deployment\<close> (\<open>deployment/src/\<close>): versions, processes, handoff and the supervisor.
  \<^item> \<open>Control_Plane_Handoff\<close> (\<open>oisl/src/federation/control_plane_handoff.rs\<close>): one handoff in progress
    per satellite, gapless histories, and the shadowing of a handoff by a finished one.
  \<^item> \<open>Optical_Link\<close> (\<open>optical/src/link/\<close>): phases, metrics, detection of degradation, failover.
  \<^item> \<open>Scheduler_Fairness\<close> (\<open>scheduler/src/drf.rs\<close>, \<open>reputation.rs\<close>): the dominant share of a tenant is its
    greatest, the scheduler picks a tenant of least dominant share, and reputations stay in their
    bounds.
  \<^item> \<open>Ordered_Map\<close>: ordered maps as sorted lists of pairs, with the interface \<open>ordered_map\<close> that the caches
    and the forecast rest on.
  \<^item> \<open>Caching\<close> (\<open>caching/src/\<close>): the size bound and the eviction of the LRU cache, the schedule and
    orbital-element caches, and the interpolation between cached orbital states.
  \<^item> \<open>Oisl_Types\<close>, \<open>Oisl_Topology\<close> (\<open>oisl/src/lib.rs\<close>, \<open>topology/link_state.rs\<close>, \<open>forecast.rs\<close>): shared types,
    active links and their gapless history, and the forecast, whose queries return a nearest snapshot.
  \<^item> \<open>Best_First\<close>, \<open>Oisl_Routing\<close> (\<open>topology/routing.rs\<close>): best-first search with lazy deletion over an
    abstract graph (interface \<open>best_first\<close>), interpreted for the router: it always answers, and on a cache
    miss with a cheapest route.
  \<^item> \<open>Oisl_Mission\<close>, \<open>Oisl_Tasking\<close>, \<open>Oisl_Compiler\<close>, \<open>Oisl_Validator\<close> (\<open>oisl/src/mission/\<close>): the state of the
    constellation and the choice of a ground station, the tasking scheduler and when it ends, the
    compilation of the four kinds of intent into tasks and reservations, and which plans are valid.
  \<^item> \<open>Keyhole\<close>, \<open>Pass_Schedule\<close>, \<open>Schedule_Optimizer\<close> (\<open>scheduler/src/keyhole.rs\<close>, \<open>schedule.rs\<close>,
    \<open>optimization.rs\<close>): the keyhole analysis of a pass, the conflicts of a schedule (those the device index finds
    are those of the pairwise check and the clashes of roles besides), annealing and incremental optimization.
  \<^item> \<open>Batching\<close> (\<open>batching/src/\<close>): the three batchers, through the interface \<open>batcher\<close>: nothing is lost,
    repeated or reordered.
  \<^item> \<open>Snapshotting\<close> (\<open>snapshotting/src/\<close>): the snapshotters of schedules, demodulators and peers.
  \<^item> \<open>Regulation\<close> (\<open>regulatory/src/\<close>): frequencies typed by their band, licences, the transmit functions
    and the compliance checker, which agree.
  \<^item> \<open>Federation_Attestation\<close> (\<open>federation/src/attestation.rs\<close>): signed data and attestations, which
    round-trip, and what the verification of a known peer leaves open.
  \<^item> \<open>Federation_Peers\<close>, \<open>Federation_Spectrum\<close> (\<open>federation/src/peer.rs\<close>, \<open>verification.rs\<close>, \<open>challenge.rs\<close>,
    \<open>spectrum.rs\<close>): the verification of passes, trust scores and their bounds, challenges; the detection of
    spectrum conflicts, the same from both sides, and what a round of coordination leaves.
  \<^item> \<open>Oisl_Resource\<close>, \<open>Oisl_Satellite\<close> (\<open>oisl/src/resource/\<close>): the allocator, whose terminals are exclusive in
    every reachable state, the resources of a satellite and the scheduler over both.
  \<^item> \<open>Oisl_Federation\<close> (\<open>oisl/src/federation/mod.rs\<close>): control nodes, bindings and their gapless history,
    handoffs, peers and cross-operator links.
  \<^item> \<open>Control_Placement\<close>, \<open>Control_Assignment\<close> (\<open>oisl/src/topology/control_node_placement.rs\<close>,
    \<open>resource/control_node_assignment.rs\<close>): greedy placement with local search, and the prediction of the
    nearest control node over a window with the chain of its handoffs.
  \<^item> \<open>Log_Provenance\<close> (\<open>bitemporal/src/provenance.rs\<close>): chains of provenance links, when one verifies, what
    its verification does not see, and the comparison of two chains.
  \<^item> \<open>Policy_Compiler\<close> (\<open>policy-compiler/src/\<close>): policies, their parser over a JSON value library, which
    reads back what it can express, and the items that the generator makes.
  \<^item> \<open>Oisl_Pat\<close> (\<open>oisl/src/pat/\<close>, \<open>oisl/src/physical/configuration.rs\<close>): precise timestamps, the trait of the
    clocks (interface \<open>precision_clock\<close>) and the coordinator of acquisitions.
  \<^item> \<open>Constellation\<close>, \<open>Pass_Prediction\<close> (\<open>constellation/src/\<close>): satellites and their manager over an orbit
    library; the prediction of passes, which finds the maximal runs of visible samples.
  \<^item> \<open>Antenna_Control\<close> (\<open>acs/src/controller.rs\<close>, \<open>vendor.rs\<close>, \<open>safety.rs\<close>, \<open>homing.rs\<close>): the four controllers
    (interface \<open>antenna_controller\<close>), the safety interlock, the emergency stop and homing.
  \<^item> \<open>Binary_Heap\<close>: the interface of the standard library's binary heap, with the laws \<open>heap_laws\<close>, and an
    instance for the witnesses.
  \<^item> \<open>Optical_Routing\<close> (\<open>optical/src/geometry/visibility.rs\<close>, \<open>routing/\<close>): visibility windows, the topology and
    the path finder, whose breadth-first search returns a shortest walk over visible edges.
  \<^item> \<open>Optical_Oct\<close> (\<open>optical/src/oct/\<close>): versions of the standard, configurations, the negotiation, frames.
  \<^item> \<open>Optical_Search\<close>, \<open>Optical_Acquisition\<close> (\<open>optical/src/pat/\<close>): clocks (interface \<open>optical_clock\<close>), search
    patterns, recovery and tracking quality; the coordinator of acquisitions and their scheduler.
  \<^item> \<open>Optical_Terminals\<close> (\<open>optical/src/terminal/\<close>): capabilities, recovery procedures, telemetry.
  \<^item> \<open>Optical_Attestation\<close> (\<open>optical/src/attestation/\<close>): attestations of links and acquisitions, the
    certificates of the control plane, when they can be made at all and what they bind.
  \<^item> \<open>Digital_Twin\<close> (\<open>digital-twin/src/divergence.rs\<close>, \<open>snapshot.rs\<close>): predicted intervals, the change-point
    detector, which reports at its first crossing, the detector of divergences, which reports exactly the observations
    outside their interval, and the store of the twin's snapshots, which keeps the newest.
  \<^item> \<open>Twin_Runtime\<close> (\<open>components.rs\<close>, \<open>systems.rs\<close>, \<open>runtime.rs\<close>): the components, the systems that write them and the
    runtime over a library of entities, which panics at its first tick.
  \<^item> \<open>Agent_Core\<close>, \<open>Agent_Context\<close> (\<open>agent/src/\<close>): the system state as the agent sees it, the buffer of weak signals
    and the alerts made of them, proposals and their approval, the context and the answers of a query.

  \<^bold>\<open>Correspondence.\<close> A struct is a record, an enum a datatype, an operation a function of the same
  name (with a prefix where names clash) from the state to the result and the new state; \<open>Result\<close> is
  a sum. A panic is \<open>None\<close> where one can occur; a call that waits for a lock its own task holds is
  \<open>Deadlock\<close>; a call that never returns is \<open>None\<close> of a \<open>partial_function\<close>. The state machines of the
  components are inductive step relations over the public operations that write, their invariants are
  interpretations of \<open>invariant_system\<close>, and statements about all runs are about reachable states.
  Operations of one component are taken as atomic, one call after the other; a call that asks for a lock twice is
  followed explicitly. Most operations hold one guard throughout, but not all: the uplink scheduler, for one, drops
  the guard of its check before it writes, so its invariants are those of calls that do not overlap in time.

  \<^bold>\<open>Parameters.\<close> Third-party code is an argument with its documented laws as hypotheses: the priority
  queue (\<open>pq_laws\<close>), AES-GCM (\<open>aead_correct\<close>), Ed25519 (\<open>ed25519_correct\<close>), HMAC, SHA-256 and JSON, the
  ranges of dates, the operating system, the binary heap (\<open>heap_laws\<close>), the trigonometric functions, the
  exponential, the rendering of numbers, the JSON codecs of the snapshots and licences, the signature
  library of the federation (\<open>sig_lib_correct\<close>), that of the optical attestations (\<open>key_lib_correct\<close>), the library of entities (\<open>world_laws\<close>), the hexadecimal codec, the orbit propagators, the library
  of JSON values and the UUIDs made of names. Clock readings, random values and the iteration orders of
  hash maps are arguments too, so the theorems hold for all of them.

  \<^bold>\<open>Numbers.\<close> Counters and identifiers are words of their width and wrap as a release build does;
  collection sizes are natural numbers; dates and durations are integers in nanoseconds. Floating-point
  numbers are binary64 with round-to-nearest-even. There is no fuel: every loop is structurally
  recursive, has a termination proof, or is a partial function (the loops of \<open>dequeue\<close>, of the fragment
  cache, of the router, of the tasking scheduler, of the assignment prediction, of the pass sampling,
  of the way back in the path finder and of cancelling a queued acquisition), of which it is proved when it returns.

  \<^bold>\<open>Not modelled.\<close> Signal processing, the filters and propagators of orbital mechanics and calibration
  (numeric code with transcendental functions and device I/O), logging output, serialization formats, and
  the interleaving of several tasks inside one operation.
\<close>

end
